(* ===== verification/Prelude.thy ===== *)
theory Prelude
  imports Main "HOL-Library.Word" "HOL-Library.List_Lexorder" "HOL-Library.Char_ord" "HOL-Library.Multiset"
begin

text \<open>
  What every component of the development shares.

  \<^item> \<open>exc\<close>: the exceptions of the service as values. \<open>ContractError\<close> and its subclasses
    (\<open>GatewayRejected\<close>, \<open>Denied\<close>, \<open>DispatchAttempted\<close>, \<open>Rejected\<close>, \<open>WorkerBoundaryError\<close>)
    are refusals, every other Python exception is a \<open>PyError\<close> that carries its class name.
    \<open>is_contract_error\<close> is what an \<open>except ContractError\<close> clause catches.
  \<^item> \<open>'a result\<close>: the outcome of a side-effect free call, \<open>Inl\<close> the exception it raised.
    \<open>rbind\<close> runs a call and continues with its value, the way a Python statement sequence does.
  \<^item> \<open>('s, 'a) action\<close>: the outcome of a call that changes state. The state survives an
    exception, because Python does not roll back what ran before a \<open>raise\<close>.
  \<^item> \<open>keeps I m\<close>: the call \<open>m\<close> leaves the state property \<open>I\<close> true; \<open>keeps_rules\<close> compose it.
  \<^item> the collection \<open>result_simps\<close> and the list lemmas the component proofs rest on.
\<close>

section \<open>Exceptions\<close>

text \<open>The decision record of \<open>orchestrator.Decision\<close>; two exceptions carry one.\<close>

record decision =
  d_action :: string
  d_decision :: string
  d_reason_code :: string
  d_occurred_at :: int

datatype exc =
    ContractError string
  | GatewayRejected string "nat list" string int
  | Denied string decision
  | DispatchAttempted string decision
  | Rejected string string int
  | WorkerBoundaryError string
  | PyError string

fun is_contract_error :: "exc \<Rightarrow> bool" where
  "is_contract_error (PyError _) = False"
| "is_contract_error _ = True"

text \<open>\<open>str(exc)\<close> of a refusal: the sentence it was raised with.\<close>

fun exc_message :: "exc \<Rightarrow> string" where
  "exc_message (ContractError m) = m"
| "exc_message (GatewayRejected m _ _ _) = m"
| "exc_message (Denied m _) = m"
| "exc_message (DispatchAttempted m _) = m"
| "exc_message (Rejected m _ _) = m"
| "exc_message (WorkerBoundaryError m) = m"
| "exc_message (PyError c) = c"

section \<open>Calls without state\<close>

type_synonym 'a result = "exc + 'a"

abbreviation fail :: "string \<Rightarrow> 'a result" where
  "fail message \<equiv> Inl (ContractError message)"

definition rbind :: "'a result \<Rightarrow> ('a \<Rightarrow> 'b result) \<Rightarrow> 'b result" where
  "rbind m f = (case m of Inl e \<Rightarrow> Inl e | Inr x \<Rightarrow> f x)"

text \<open>\<open>try: m except ContractError as e: h e\<close>.\<close>

definition catch_contract :: "'a result \<Rightarrow> (exc \<Rightarrow> 'a result) \<Rightarrow> 'a result" where
  "catch_contract m h =
     (case m of Inl e \<Rightarrow> if is_contract_error e then h e else Inl e | Inr x \<Rightarrow> Inr x)"

text \<open>A Python comprehension whose element expression may raise.\<close>

fun rmap :: "('a \<Rightarrow> 'b result) \<Rightarrow> 'a list \<Rightarrow> 'b list result" where
  "rmap f [] = Inr []"
| "rmap f (x # xs) = rbind (f x) (\<lambda>y. rbind (rmap f xs) (\<lambda>ys. Inr (y # ys)))"

text \<open>A \<open>for\<close> loop that only checks.\<close>

fun reach :: "('a \<Rightarrow> unit result) \<Rightarrow> 'a list \<Rightarrow> unit result" where
  "reach f [] = Inr ()"
| "reach f (x # xs) = rbind (f x) (\<lambda>_. reach f xs)"

definition is_ok :: "'a result \<Rightarrow> bool" where
  "is_ok m \<longleftrightarrow> (\<exists>x. m = Inr x)"

named_theorems result_simps \<open>how a call returns, raises and continues\<close>

lemma rbind_Inr [simp]: "rbind (Inr x) f = f x"
  by (simp add: rbind_def)

lemma rbind_Inl [simp]: "rbind (Inl e) f = Inl e"
  by (simp add: rbind_def)

lemma rbind_eq_Inr [result_simps]: "rbind m f = Inr y \<longleftrightarrow> (\<exists>x. m = Inr x \<and> f x = Inr y)"
  by (cases m) auto

lemma rbind_eq_Inl [result_simps]:
  "rbind m f = Inl e \<longleftrightarrow> m = Inl e \<or> (\<exists>x. m = Inr x \<and> f x = Inl e)"
  by (cases m) auto

lemma if_raise_eq_Inr [result_simps]: "(if c then Inl e else m) = Inr y \<longleftrightarrow> \<not> c \<and> m = Inr y"
  by simp

lemma rbind_cong [fundef_cong]:
  "m = m' \<Longrightarrow> (\<And>x. m' = Inr x \<Longrightarrow> f x = g x) \<Longrightarrow> rbind m f = rbind m' g"
  by (cases m') auto

lemma rbind_assoc: "rbind (rbind m f) g = rbind m (\<lambda>x. rbind (f x) g)"
  by (cases m) auto

lemma catch_contract_Inr [simp]: "catch_contract (Inr x) h = Inr x"
  by (simp add: catch_contract_def)

lemma catch_contract_eq_Inr [result_simps]:
  "catch_contract m h = Inr x \<longleftrightarrow>
     m = Inr x \<or> (\<exists>e. m = Inl e \<and> is_contract_error e \<and> h e = Inr x)"
  by (cases m) (auto simp: catch_contract_def)

lemma catch_contract_eq_Inl [result_simps]:
  "catch_contract m h = Inl e \<longleftrightarrow>
     (\<exists>e'. m = Inl e' \<and> (if is_contract_error e' then h e' = Inl e else e = e'))"
  by (cases m) (auto simp: catch_contract_def)

lemma is_ok_simps [simp]: "is_ok (Inr x)" "\<not> is_ok (Inl e)"
  by (auto simp: is_ok_def)

lemma rmap_eq_Inr [result_simps]:
  "rmap f xs = Inr ys \<longleftrightarrow> list_all2 (\<lambda>x y. f x = Inr y) xs ys"
  by (induction xs arbitrary: ys) (auto simp: result_simps list_all2_Cons1)

lemma rmap_map_Inr: "(\<And>x. x \<in> set xs \<Longrightarrow> f (g x) = Inr x) \<Longrightarrow> rmap f (map g xs) = Inr xs"
  by (induction xs) auto

lemma reach_eq_Inr [result_simps]: "reach f xs = Inr u \<longleftrightarrow> (\<forall>x \<in> set xs. f x = Inr ())"
  by (induction xs) (auto simp: result_simps)

lemma reach_eq_Inl:
  "reach f xs = Inl e \<Longrightarrow> \<exists>x \<in> set xs. f x = Inl e"
  by (induction xs) (auto simp: result_simps)

section \<open>Calls with state\<close>

type_synonym ('s, 'a) action = "'s \<Rightarrow> 'a result \<times> 's"

definition areturn :: "'a \<Rightarrow> ('s, 'a) action" where
  "areturn x s = (Inr x, s)"

definition araise :: "exc \<Rightarrow> ('s, 'a) action" where
  "araise e s = (Inl e, s)"

text \<open>A call without state inside one with state.\<close>

definition alift :: "'a result \<Rightarrow> ('s, 'a) action" where
  "alift m s = (m, s)"

definition abind :: "('s, 'a) action \<Rightarrow> ('a \<Rightarrow> ('s, 'b) action) \<Rightarrow> ('s, 'b) action" where
  "abind m f s = (case m s of (Inl e, s') \<Rightarrow> (Inl e, s') | (Inr x, s') \<Rightarrow> f x s')"

text \<open>\<open>try: m except: h e\<close>; the handler runs in the state the exception left.\<close>

definition acatch :: "('s, 'a) action \<Rightarrow> (exc \<Rightarrow> ('s, 'a) action) \<Rightarrow> ('s, 'a) action" where
  "acatch m h s = (case m s of (Inl e, s') \<Rightarrow> h e s' | (Inr x, s') \<Rightarrow> (Inr x, s'))"

text \<open>\<open>try: m finally: f\<close>; an exception of the clean-up replaces the outcome.\<close>

definition afinally :: "('s, 'a) action \<Rightarrow> ('s, unit) action \<Rightarrow> ('s, 'a) action" where
  "afinally m f s = (case m s of (r, s') \<Rightarrow> case f s' of (Inl e, t) \<Rightarrow> (Inl e, t) | (Inr _, t) \<Rightarrow> (r, t))"

text \<open>Run an action on one field of a larger state.\<close>

definition azoom :: "('t \<Rightarrow> 's) \<Rightarrow> ('s \<Rightarrow> 't \<Rightarrow> 't) \<Rightarrow> ('s, 'a) action \<Rightarrow> ('t, 'a) action" where
  "azoom get put m t = (case m (get t) of (r, s') \<Rightarrow> (r, put s' t))"

lemma abind_apply:
  "abind m f s = (case m s of (Inl e, s') \<Rightarrow> (Inl e, s') | (Inr x, s') \<Rightarrow> f x s')"
  by (simp add: abind_def)

lemma abind_Inr: "m s = (Inr x, s') \<Longrightarrow> abind m f s = f x s'"
  by (simp add: abind_def)

lemma abind_Inl: "m s = (Inl e, s') \<Longrightarrow> abind m f s = (Inl e, s')"
  by (simp add: abind_def)

lemma abind_eq_Inr [result_simps]:
  "abind m f s = (Inr y, t) \<longleftrightarrow> (\<exists>x s'. m s = (Inr x, s') \<and> f x s' = (Inr y, t))"
  by (auto simp: abind_def split: prod.splits sum.splits)

lemma abind_eq_Inl [result_simps]:
  "abind m f s = (Inl e, t) \<longleftrightarrow>
     m s = (Inl e, t) \<or> (\<exists>x s'. m s = (Inr x, s') \<and> f x s' = (Inl e, t))"
  by (auto simp: abind_def split: prod.splits sum.splits)

lemma areturn_eq [result_simps]: "areturn x s = (r, t) \<longleftrightarrow> r = Inr x \<and> t = s"
  by (auto simp: areturn_def)

lemma araise_eq [result_simps]: "araise e s = (r, t) \<longleftrightarrow> r = Inl e \<and> t = s"
  by (auto simp: araise_def)

lemma alift_eq [result_simps]: "alift m s = (r, t) \<longleftrightarrow> m = r \<and> t = s"
  by (auto simp: alift_def)

lemma acatch_eq [result_simps]:
  "acatch m h s = (r, t) \<longleftrightarrow>
     (\<exists>x. m s = (Inr x, t) \<and> r = Inr x) \<or> (\<exists>e s'. m s = (Inl e, s') \<and> h e s' = (r, t))"
  by (auto simp: acatch_def split: prod.splits sum.splits)

lemma azoom_eq [result_simps]:
  "azoom get put m t = (r, t') \<longleftrightarrow> (\<exists>s'. m (get t) = (r, s') \<and> t' = put s' t)"
  by (auto simp: azoom_def split: prod.splits)

lemma afinally_return: "(\<And>s. f s = (Inr (), s)) \<Longrightarrow> afinally m f = m"
  by (rule ext) (auto simp: afinally_def split: prod.splits sum.splits)

section \<open>What a call leaves true\<close>

text \<open>The state property \<open>I\<close> survives the call, whether it returns or raises.\<close>

definition keeps :: "('s \<Rightarrow> bool) \<Rightarrow> ('s, 'a) action \<Rightarrow> bool" where
  "keeps I m \<longleftrightarrow> (\<forall>s r s'. m s = (r, s') \<longrightarrow> I s \<longrightarrow> I s')"

named_theorems keeps_rules \<open>an action made of parts that keep a property keeps it\<close>

lemma keepsD: "keeps I m \<Longrightarrow> m s = (r, s') \<Longrightarrow> I s \<Longrightarrow> I s'"
  by (auto simp: keeps_def)

lemma keepsI: "(\<And>s r s'. m s = (r, s') \<Longrightarrow> I s \<Longrightarrow> I s') \<Longrightarrow> keeps I m"
  by (auto simp: keeps_def)

lemma keeps_abind [keeps_rules]: "keeps I m \<Longrightarrow> (\<And>x. keeps I (f x)) \<Longrightarrow> keeps I (abind m f)"
  unfolding keeps_def abind_def by (fastforce split: prod.splits sum.splits)

lemma keeps_acatch [keeps_rules]: "keeps I m \<Longrightarrow> (\<And>e. keeps I (h e)) \<Longrightarrow> keeps I (acatch m h)"
  unfolding keeps_def acatch_def by (fastforce split: prod.splits sum.splits)

lemma keeps_afinally [keeps_rules]: "keeps I m \<Longrightarrow> keeps I f \<Longrightarrow> keeps I (afinally m f)"
  unfolding keeps_def afinally_def by (fastforce split: prod.splits sum.splits)

lemma keeps_simple [keeps_rules]: "keeps I (alift r)" "keeps I (areturn x)" "keeps I (araise e)"
  by (auto simp: keeps_def alift_def areturn_def araise_def)

lemma keeps_if [keeps_rules]: "keeps I m \<Longrightarrow> keeps I n \<Longrightarrow> keeps I (if c then m else n)"
  by simp

lemma keeps_option [keeps_rules]:
  "(x = None \<Longrightarrow> keeps I m) \<Longrightarrow> (\<And>y. x = Some y \<Longrightarrow> keeps I (f y)) \<Longrightarrow> keeps I (case x of None \<Rightarrow> m | Some y \<Rightarrow> f y)"
  by (cases x) auto

lemma keeps_pair [keeps_rules]: "(\<And>a b. keeps I (f a b)) \<Longrightarrow> keeps I (case p of (a, b) \<Rightarrow> f a b)"
  by (cases p) auto

lemma keeps_zoom_other: "(\<And>s t. I (put s t) = I t) \<Longrightarrow> keeps I (azoom get put m)"
  by (auto simp: keeps_def azoom_eq)

lemma keeps_zoom: "(\<And>s t. I (put s t) = J s) \<Longrightarrow> (\<And>t. I t = J (get t)) \<Longrightarrow> keeps J m \<Longrightarrow> keeps I (azoom get put m)"
  by (auto simp: keeps_def azoom_eq)

section \<open>Lists\<close>

text \<open>A comprehension over a partial function: \<open>None\<close> as soon as one element has no value.\<close>

fun opt_map :: "('a \<Rightarrow> 'b option) \<Rightarrow> 'a list \<Rightarrow> 'b list option" where
  "opt_map f [] = Some []"
| "opt_map f (x # xs) =
     (case f x of None \<Rightarrow> None
      | Some y \<Rightarrow> (case opt_map f xs of None \<Rightarrow> None | Some ys \<Rightarrow> Some (y # ys)))"

lemma opt_map_cong [fundef_cong]:
  "xs = ys \<Longrightarrow> (\<And>x. x \<in> set ys \<Longrightarrow> f x = g x) \<Longrightarrow> opt_map f xs = opt_map g ys"
proof (induction ys arbitrary: xs)
  case (Cons y ys)
  then have "opt_map f ys = opt_map g ys" "f y = g y" by simp_all
  with Cons.prems(1) show ?case by (simp split: option.splits)
qed simp

lemma opt_map_eq_Some:
  "opt_map f xs = Some ys \<longleftrightarrow> list_all2 (\<lambda>x y. f x = Some y) xs ys"
proof (induction xs arbitrary: ys)
  case (Cons x xs)
  have "opt_map f (x # xs) = Some ys \<longleftrightarrow>
      (\<exists>y zs. ys = y # zs \<and> f x = Some y \<and> opt_map f xs = Some zs)"
    by (auto split: option.splits)
  with Cons show ?case by (simp add: list_all2_Cons1)
qed auto

lemma opt_map_conv:
  "opt_map f xs = Some ys \<longleftrightarrow> (\<forall>x \<in> set xs. f x \<noteq> None) \<and> ys = map (\<lambda>x. the (f x)) xs"
  unfolding opt_map_eq_Some
  by (induction xs arbitrary: ys) (auto simp: list_all2_Cons1)

lemma insort_key_map: "insort_key f (g x) (map g xs) = map g (insort_key (f \<circ> g) x xs)"
  by (induction xs) auto

lemma sort_key_map: "sort_key f (map g xs) = map g (sort_key (f \<circ> g) xs)"
  by (induction xs) (auto simp: insort_key_map comp_def)

lemma map_of_sort_key:
  "distinct (map fst xs) \<Longrightarrow> map_of (sort_key fst xs) = map_of xs"
  by (rule map_of_inject_set [THEN iffD2])
    (auto simp: distinct_map inj_on_def)

lemma distinct_keys_sort_key [simp]:
  "distinct (map fst (sort_key fst xs)) \<longleftrightarrow> distinct (map fst xs)"
  by (metis mset_map mset_sort mset_eq_imp_distinct_iff)

lemma list_all_set: "list_all P xs \<longleftrightarrow> (\<forall>x \<in> set xs. P x)"
  by (simp add: list_all_iff)

end
