(* ===== verification/PyText.thy ===== *)
theory PyText
  imports Prelude
begin

text \<open>
  The text and byte types of Python that the service uses, with the library calls its checks rest on.

  \<^item> a \<open>str\<close> is a list of code points (\<open>pystr\<close>), lone surrogates included, because CPython keeps
    them and \<open>json\<close> both writes and reads them; \<open>lit\<close> turns a source literal into one;
  \<^item> a \<open>bytes\<close> is a list of 8-bit words;
  \<^item> \<open>utf8_encode\<close>, \<open>utf8_size\<close> (\<open>errors="surrogatepass"\<close>) and \<open>utf8_decode\<close> are the strict
    codecs; \<open>bytes_hex\<close> and \<open>fromhex\<close> are \<open>bytes.hex\<close> and \<open>bytes.fromhex\<close>; \<open>int_text\<close> is
    \<open>repr\<close> of an int with CPython's limit of 4300 digits;
  \<^item> \<open>compare_digest\<close> is \<open>hmac.compare_digest\<close> on two strings: it raises \<open>TypeError\<close> when one of
    them is not ASCII;
  \<^item> the regular expressions of the source as predicates (\<open>is_digest\<close>, \<open>is_signature\<close>,
    \<open>is_instance_id\<close>, \<open>is_reason_code\<close>).
\<close>

type_synonym pystr = "nat list"
type_synonym bytes = "8 word list"

definition lit :: "string \<Rightarrow> pystr" where
  "lit s = map of_char s"

section \<open>Codecs\<close>

definition is_surrogate :: "nat \<Rightarrow> bool" where
  "is_surrogate c \<longleftrightarrow> 0xD800 \<le> c \<and> c \<le> 0xDFFF"

definition is_high_surrogate :: "nat \<Rightarrow> bool" where
  "is_high_surrogate c \<longleftrightarrow> 0xD800 \<le> c \<and> c \<le> 0xDBFF"

definition is_low_surrogate :: "nat \<Rightarrow> bool" where
  "is_low_surrogate c \<longleftrightarrow> 0xDC00 \<le> c \<and> c \<le> 0xDFFF"

text \<open>The code points a \<open>str\<close> can hold.\<close>

definition unicode :: "pystr \<Rightarrow> bool" where
  "unicode s \<longleftrightarrow> list_all (\<lambda>c. c < 0x110000) s"

definition is_ascii :: "pystr \<Rightarrow> bool" where
  "is_ascii s \<longleftrightarrow> list_all (\<lambda>c. c < 128) s"

definition utf8_char :: "nat \<Rightarrow> nat list" where
  "utf8_char c =
     (if c < 0x80 then [c]
      else if c < 0x800 then [0xC0 + c div 64, 0x80 + c mod 64]
      else if c < 0x10000 then [0xE0 + c div 4096, 0x80 + c div 64 mod 64, 0x80 + c mod 64]
      else [0xF0 + c div 262144, 0x80 + c div 4096 mod 64, 0x80 + c div 64 mod 64, 0x80 + c mod 64])"

definition utf8_encode :: "pystr \<Rightarrow> bytes result" where
  "utf8_encode s =
     (if list_ex is_surrogate s then Inl (PyError ''UnicodeEncodeError'')
      else Inr (map of_nat (concat (map utf8_char s))))"

definition utf8_size :: "pystr \<Rightarrow> nat" where
  "utf8_size s = length (concat (map utf8_char s))"

definition is_cont :: "nat \<Rightarrow> bool" where
  "is_cont b \<longleftrightarrow> 0x80 \<le> b \<and> b \<le> 0xBF"

fun utf8_units :: "nat list \<Rightarrow> pystr option" where
  "utf8_units [] = Some []"
| "utf8_units (a # r0) =
     (if a < 0x80 then map_option (\<lambda>s. a # s) (utf8_units r0)
      else case r0 of
        [] \<Rightarrow> None
      | b # r1 \<Rightarrow>
        if 0xC2 \<le> a \<and> a \<le> 0xDF \<and> is_cont b
          then map_option (\<lambda>s. ((a - 0xC0) * 64 + (b - 0x80)) # s) (utf8_units r1)
        else case r1 of
          [] \<Rightarrow> None
        | c # r2 \<Rightarrow>
          if 0xE0 \<le> a \<and> a \<le> 0xEF \<and> is_cont b \<and> is_cont c
             \<and> (a = 0xE0 \<longrightarrow> 0xA0 \<le> b) \<and> (a = 0xED \<longrightarrow> b \<le> 0x9F)
            then map_option (\<lambda>s. ((a - 0xE0) * 4096 + (b - 0x80) * 64 + (c - 0x80)) # s) (utf8_units r2)
          else case r2 of
            [] \<Rightarrow> None
          | d # r3 \<Rightarrow>
            if 0xF0 \<le> a \<and> a \<le> 0xF4 \<and> is_cont b \<and> is_cont c \<and> is_cont d
               \<and> (a = 0xF0 \<longrightarrow> 0x90 \<le> b) \<and> (a = 0xF4 \<longrightarrow> b \<le> 0x8F)
              then map_option (\<lambda>s. ((a - 0xF0) * 262144 + (b - 0x80) * 4096 + (c - 0x80) * 64
                                     + (d - 0x80)) # s) (utf8_units r3)
            else None)"

definition utf8_decode :: "bytes \<Rightarrow> pystr option" where
  "utf8_decode bs = utf8_units (map unat bs)"

definition ascii_bytes :: "pystr \<Rightarrow> bytes" where
  "ascii_bytes s = map of_nat s"

definition ascii_decode :: "bytes \<Rightarrow> pystr option" where
  "ascii_decode bs = (let s = map unat bs in if is_ascii s then Some s else None)"

section \<open>Hexadecimal and decimal\<close>

definition hex_digit :: "nat \<Rightarrow> nat" where
  "hex_digit n = (if n < 10 then 48 + n else 87 + n)"

fun bytes_hex :: "bytes \<Rightarrow> pystr" where
  "bytes_hex [] = []"
| "bytes_hex (b # bs) = hex_digit (unat b div 16) # hex_digit (unat b mod 16) # bytes_hex bs"

definition hex_value :: "nat \<Rightarrow> nat option" where
  "hex_value c =
     (if 48 \<le> c \<and> c \<le> 57 then Some (c - 48)
      else if 97 \<le> c \<and> c \<le> 102 then Some (c - 87)
      else if 65 \<le> c \<and> c \<le> 70 then Some (c - 55)
      else None)"

text \<open>\<open>bytes.fromhex\<close> skips ASCII white space between the bytes; \<open>None\<close> is its \<open>ValueError\<close>.\<close>

fun fromhex :: "pystr \<Rightarrow> bytes option" where
  "fromhex [] = Some []"
| "fromhex (c # cs) =
     (if c \<in> {32, 9, 10, 11, 12, 13} then fromhex cs
      else case cs of
        [] \<Rightarrow> None
      | d # ds \<Rightarrow>
        (case (hex_value c, hex_value d) of
           (Some h, Some l) \<Rightarrow> map_option (\<lambda>bs. of_nat (16 * h + l) # bs) (fromhex ds)
         | _ \<Rightarrow> None))"

fun nat_digits :: "nat \<Rightarrow> pystr" where
  "nat_digits n = (if n < 10 then [48 + n] else nat_digits (n div 10) @ [48 + n mod 10])"

declare nat_digits.simps [simp del]

definition max_str_digits :: nat where
  "max_str_digits = 4300"

definition int_text :: "int \<Rightarrow> pystr option" where
  "int_text i =
     (let ds = nat_digits (nat \<bar>i\<bar>)
      in if length ds > max_str_digits then None
         else Some (if i < 0 then 45 # ds else ds))"

fun digits_value :: "nat \<Rightarrow> pystr \<Rightarrow> nat" where
  "digits_value acc [] = acc"
| "digits_value acc (d # ds) = digits_value (acc * 10 + (d - 48)) ds"

text \<open>Decimal text of a count inside an error message.\<close>

definition show_nat :: "nat \<Rightarrow> string" where
  "show_nat n = map char_of (nat_digits n)"

section \<open>Character classes of the source's regular expressions\<close>

definition is_digit :: "nat \<Rightarrow> bool" where
  "is_digit c \<longleftrightarrow> 48 \<le> c \<and> c \<le> 57"

definition is_lower_hex :: "nat \<Rightarrow> bool" where
  "is_lower_hex c \<longleftrightarrow> is_digit c \<or> 97 \<le> c \<and> c \<le> 102"

definition is_lower_alnum :: "nat \<Rightarrow> bool" where
  "is_lower_alnum c \<longleftrightarrow> is_digit c \<or> 97 \<le> c \<and> c \<le> 122"

definition is_upper :: "nat \<Rightarrow> bool" where
  "is_upper c \<longleftrightarrow> 65 \<le> c \<and> c \<le> 90"

definition hex_string :: "nat \<Rightarrow> pystr \<Rightarrow> bool" where
  "hex_string n s \<longleftrightarrow> length s = n \<and> list_all is_lower_hex s"

definition is_digest :: "pystr \<Rightarrow> bool" where
  "is_digest s = hex_string 64 s"

definition is_signature :: "pystr \<Rightarrow> bool" where
  "is_signature s = hex_string 128 s"

definition is_instance_id :: "pystr \<Rightarrow> bool" where
  "is_instance_id s =
     (case s of [] \<Rightarrow> False
      | c # cs \<Rightarrow> is_lower_alnum c \<and> length cs \<le> 62 \<and> list_all (\<lambda>d. is_lower_alnum d \<or> d = 45) cs)"

definition is_reason_code :: "pystr \<Rightarrow> bool" where
  "is_reason_code s =
     (case s of [] \<Rightarrow> False
      | c # cs \<Rightarrow> is_upper c \<and> length cs \<le> 63
          \<and> list_all (\<lambda>d. is_upper d \<or> is_digit d \<or> d = 95) cs)"

text \<open>\<open>str.isspace\<close> of one character.\<close>

definition is_space :: "nat \<Rightarrow> bool" where
  "is_space c \<longleftrightarrow> 9 \<le> c \<and> c \<le> 13 \<or> 28 \<le> c \<and> c \<le> 32 \<or> c = 0x85 \<or> c = 0xA0 \<or> c = 0x1680
     \<or> 0x2000 \<le> c \<and> c \<le> 0x200A \<or> c = 0x2028 \<or> c = 0x2029 \<or> c = 0x202F \<or> c = 0x205F \<or> c = 0x3000"

definition compare_digest :: "pystr \<Rightarrow> pystr \<Rightarrow> bool result" where
  "compare_digest a b =
     (if is_ascii a \<and> is_ascii b then Inr (a = b) else Inl (PyError ''TypeError''))"

section \<open>Lemmas\<close>

lemma inj_of_char_nat: "of_char c = (of_char d :: nat) \<longleftrightarrow> c = d"
  by (metis char_of_char)

lemma lit_eq_iff [simp]: "lit a = lit b \<longleftrightarrow> a = b"
  unfolding lit_def by (metis list.inj_map_strong inj_of_char_nat)

lemma lit_Nil_iff [simp]: "lit s = [] \<longleftrightarrow> s = []" "[] = lit s \<longleftrightarrow> s = []"
  by (auto simp: lit_def)

lemma length_lit [simp]: "length (lit s) = length s"
  by (simp add: lit_def)

lemma lit_less_iff [simp]: "lit a < lit b \<longleftrightarrow> a < b"
proof (induction a arbitrary: b)
  case Nil
  show ?case by (cases b) (auto simp: lit_def)
next
  case (Cons c a)
  then show ?case
    by (cases b) (auto simp: lit_def less_char_def inj_of_char_nat)
qed

lemma lit_le_iff [simp]: "lit a \<le> lit b \<longleftrightarrow> a \<le> b"
  by (auto simp: list_le_def)

lemma is_ascii_simps [simp]:
  "is_ascii []" "is_ascii (c # s) \<longleftrightarrow> c < 128 \<and> is_ascii s" "is_ascii (s @ t) \<longleftrightarrow> is_ascii s \<and> is_ascii t"
  by (auto simp: is_ascii_def)

lemma is_ascii_lit [simp]: "is_ascii (lit s) \<longleftrightarrow> list_all (\<lambda>c. (of_char c :: nat) < 128) s"
  by (induction s) (auto simp: lit_def)

lemma hex_digit_bounds: "n < 16 \<Longrightarrow> is_lower_hex (hex_digit n)"
  by (auto simp: hex_digit_def is_lower_hex_def is_digit_def)

lemma hex_value_hex_digit [simp]: "n < 16 \<Longrightarrow> hex_value (hex_digit n) = Some n"
  by (auto simp: hex_digit_def hex_value_def)

lemma unat_byte_bounds [simp]: "unat (b :: 8 word) div 16 < 16"
proof -
  have "unat b < 2 ^ LENGTH(8)" by (rule unsigned_less)
  then show ?thesis by simp
qed

lemma length_bytes_hex [simp]: "length (bytes_hex bs) = 2 * length bs"
  by (induction bs) auto

lemma bytes_hex_lower: "list_all is_lower_hex (bytes_hex bs)"
  by (induction bs) (auto simp: hex_digit_bounds)

lemma lower_hex_ascii: "list_all is_lower_hex s \<Longrightarrow> is_ascii s"
  unfolding is_ascii_def
  by (rule list.pred_mono_strong[of is_lower_hex]) (auto simp: is_lower_hex_def is_digit_def)

lemma hex_string_ascii: "hex_string n s \<Longrightarrow> is_ascii s"
  by (auto simp: hex_string_def intro: lower_hex_ascii)

lemma is_digest_ascii: "is_digest s \<Longrightarrow> is_ascii s"
  by (auto simp: is_digest_def intro: hex_string_ascii)

lemma bytes_hex_ascii [simp]: "is_ascii (bytes_hex bs)"
  by (rule lower_hex_ascii[OF bytes_hex_lower])

lemma bytes_hex_digest: "length bs = 32 \<Longrightarrow> is_digest (bytes_hex bs)"
  by (simp add: is_digest_def hex_string_def bytes_hex_lower)

lemma bytes_hex_signature: "length bs = 64 \<Longrightarrow> is_signature (bytes_hex bs)"
  by (simp add: is_signature_def hex_string_def bytes_hex_lower)

lemma hex_digit_not_space: "n < 16 \<Longrightarrow> hex_digit n \<notin> {32, 9, 10, 11, 12, 13}"
  by (auto simp: hex_digit_def)

lemma fromhex_bytes_hex [simp]: "fromhex (bytes_hex bs) = Some bs"
proof (induction bs)
  case (Cons b bs)
  have m: "unat b mod 16 < 16" by simp
  have d: "hex_digit (unat b div 16) \<notin> {32, 9, 10, 11, 12, 13}"
    by (rule hex_digit_not_space[OF unat_byte_bounds])
  have "(of_nat (16 * (unat b div 16) + unat b mod 16) :: 8 word) = b"
    by (simp only: mult_div_mod_eq unsigned_of_nat of_nat_unat ucast_id)
  with Cons d m show ?case by simp
qed simp

lemma bytes_hex_inject [simp]: "bytes_hex a = bytes_hex b \<longleftrightarrow> a = b"
  by (metis fromhex_bytes_hex option.inject)

lemma nat_digits_nonempty [simp]: "nat_digits n \<noteq> []"
  by (subst nat_digits.simps) simp

lemma is_digit_plus: "n < 10 \<Longrightarrow> is_digit (48 + n)"
  by (simp add: is_digit_def)

lemma nat_digits_digit: "list_all is_digit (nat_digits n)"
proof (induction n rule: nat_digits.induct)
  case (1 n)
  then show ?case
    by (subst nat_digits.simps) (auto simp: is_digit_plus)
qed

lemma nat_digits_ascii [simp]: "is_ascii (nat_digits n)"
  by (rule lower_hex_ascii)
    (rule list.pred_mono_strong[OF nat_digits_digit], simp add: is_lower_hex_def)

lemma digits_value_append:
  "digits_value acc (xs @ ys) = digits_value (digits_value acc xs) ys"
  by (induction xs arbitrary: acc) auto

lemma digits_value_nat_digits [simp]: "digits_value 0 (nat_digits n) = n"
proof (induction n rule: nat_digits.induct)
  case (1 n)
  then show ?case
    by (subst nat_digits.simps) (auto simp: digits_value_append)
qed

lemma hd_nat_digits: "n \<noteq> 0 \<Longrightarrow> hd (nat_digits n) \<noteq> 48"
proof (induction n rule: nat_digits.induct)
  case (1 n)
  then show ?case
    by (subst nat_digits.simps) (auto simp: hd_append)
qed

lemma nat_digits_length_bound: "n < 10 ^ k \<Longrightarrow> 0 < k \<Longrightarrow> length (nat_digits n) \<le> k"
proof (induction n arbitrary: k rule: nat_digits.induct)
  case (1 n)
  show ?case
  proof (cases "n < 10")
    case True
    with 1 show ?thesis by (subst nat_digits.simps) simp
  next
    case False
    with "1.prems" obtain j where k: "k = Suc j" and j: "0 < j"
      by (cases k; cases "k - 1") auto
    have "n div 10 < 10 ^ j"
      using "1.prems" k by (simp add: div_less_iff_less_mult mult.commute)
    from "1.IH"[OF False this j] show ?thesis
      using False k by (subst nat_digits.simps) simp
  qed
qed

lemma int_text_ascii: "int_text i = Some s \<Longrightarrow> is_ascii s"
  by (auto simp: int_text_def Let_def split: if_splits)

lemma compare_digest_ascii [simp]: "is_ascii a \<Longrightarrow> is_ascii b \<Longrightarrow> compare_digest a b = Inr (a = b)"
  by (simp add: compare_digest_def)

lemma compare_digest_eq_Inr [result_simps]:
  "compare_digest a b = Inr r \<longleftrightarrow> is_ascii a \<and> is_ascii b \<and> r = (a = b)"
  by (auto simp: compare_digest_def)

lemma utf8_units_ascii: "is_ascii s \<Longrightarrow> utf8_units s = Some s"
  by (induction s) auto

lemma map_unat_ascii: "is_ascii s \<Longrightarrow> map unat (map of_nat s :: bytes) = s"
  by (induction s) (auto simp: unat_of_nat)

lemma utf8_decode_ascii [simp]: "is_ascii s \<Longrightarrow> utf8_decode (ascii_bytes s) = Some s"
  unfolding utf8_decode_def ascii_bytes_def by (simp only: map_unat_ascii utf8_units_ascii)

lemma ascii_decode_ascii [simp]: "is_ascii s \<Longrightarrow> ascii_decode (ascii_bytes s) = Some s"
  unfolding ascii_decode_def ascii_bytes_def by (simp only: map_unat_ascii Let_def if_True)

lemma ascii_bytes_inject:
  "is_ascii s \<Longrightarrow> is_ascii t \<Longrightarrow> ascii_bytes s = ascii_bytes t \<longleftrightarrow> s = t"
  by (metis utf8_decode_ascii option.inject)

lemma length_ascii_bytes [simp]: "length (ascii_bytes s) = length s"
  by (simp add: ascii_bytes_def)

lemma ascii_bytes_Nil [simp]: "ascii_bytes s = [] \<longleftrightarrow> s = []"
  by (simp add: ascii_bytes_def)

lemma utf8_encode_ascii: "is_ascii s \<Longrightarrow> utf8_encode s = Inr (ascii_bytes s)"
proof -
  assume a: "is_ascii s"
  have "concat (map utf8_char s) = s" using a by (induction s) (auto simp: utf8_char_def)
  moreover have "\<not> list_ex is_surrogate s" using a by (induction s) (auto simp: is_surrogate_def)
  ultimately show ?thesis by (simp add: utf8_encode_def ascii_bytes_def)
qed

lemma utf8_char_bound: "c < 0x110000 \<Longrightarrow> \<forall>b \<in> set (utf8_char c). b < 256"
  by (auto simp: utf8_char_def)

lemma div_split64:
  "c div 64 = c div 4096 * 64 + c div 64 mod 64" "c div 4096 = c div 262144 * 64 + c div 4096 mod 64" for c :: nat
  using div_mult_mod_eq[of "c div 64" 64] div_mult_mod_eq[of "c div 4096" 64]
  by (simp_all add: div_mult2_eq[symmetric])

lemma utf8_units_char:
  assumes "c < 0x110000" "\<not> is_surrogate c"
  shows "utf8_units (utf8_char c @ r) = map_option ((#) c) (utf8_units r)"
proof -
  consider (1) "c < 0x80" | (2) "0x80 \<le> c" "c < 0x800" | (3) "0x800 \<le> c" "c < 0x10000" | (4) "0x10000 \<le> c"
    by linarith
  then show ?thesis
  proof cases
    case 1
    then show ?thesis by (simp add: utf8_char_def)
  next
    case 2
    then have "2 \<le> c div 64" "c div 64 < 32" "c mod 64 \<le> 63" by linarith+
    with 2 show ?thesis by (simp add: utf8_char_def is_cont_def)
  next
    case 3
    define a b d where "a = c div 4096" and "b = c div 64 mod 64" and "d = c mod 64"
    have "c div 64 = a * 64 + b" unfolding a_def b_def
      by (rule div_split64)
    moreover have "c = c div 64 * 64 + d" unfolding d_def by simp
    ultimately have c: "c = a * 4096 + b * 64 + d" by linarith
    moreover have "b < 64" "d < 64" "a < 16" using 3 by (simp_all add: a_def b_def d_def)
    moreover have "a = 0 \<longrightarrow> 32 \<le> b" "a = 13 \<longrightarrow> b \<le> 31"
      using 3 assms(2) c \<open>b < 64\<close> \<open>d < 64\<close> by (auto simp: is_surrogate_def)
    moreover have "utf8_char c = [0xE0 + a, 0x80 + b, 0x80 + d]"
      using 3 by (simp add: utf8_char_def a_def b_def d_def)
    ultimately show ?thesis by (simp add: is_cont_def)
  next
    case 4
    define a b d e where "a = c div 262144" and "b = c div 4096 mod 64" and "d = c div 64 mod 64" and "e = c mod 64"
    have "c div 64 = c div 4096 * 64 + d" "c div 4096 = a * 64 + b" unfolding a_def b_def d_def
      by (rule div_split64)+
    moreover have "c = c div 64 * 64 + e" unfolding e_def by simp
    ultimately have c: "c = a * 262144 + b * 4096 + d * 64 + e" by linarith
    moreover have "b < 64" "d < 64" "e < 64" by (simp_all add: b_def d_def e_def)
    moreover have "a \<le> 4" "a = 0 \<longrightarrow> 16 \<le> b" "a = 4 \<longrightarrow> b \<le> 15"
      using 4 assms(1) c \<open>b < 64\<close> \<open>d < 64\<close> \<open>e < 64\<close> by auto
    moreover have "utf8_char c = [0xF0 + a, 0x80 + b, 0x80 + d, 0x80 + e]"
      using 4 by (simp add: utf8_char_def a_def b_def d_def e_def)
    ultimately show ?thesis by (simp add: is_cont_def)
  qed
qed

lemma utf8_roundtrip:
  assumes "unicode s" "utf8_encode s = Inr b"
  shows "utf8_decode b = Some s"
proof -
  have b: "b = map of_nat (concat (map utf8_char s))" and "\<not> list_ex is_surrogate s"
    using assms(2) by (auto simp: utf8_encode_def split: if_splits)
  from this(2) have "utf8_units (concat (map utf8_char s)) = Some s"
    using assms(1) by (induction s) (auto simp: unicode_def utf8_units_char)
  moreover have "\<forall>x \<in> set (concat (map utf8_char s)). x < 256"
    using assms(1) utf8_char_bound by (fastforce simp: unicode_def list_all_iff)
  then have "map unat b = concat (map utf8_char s)"
    unfolding b map_map by (intro map_idI) (auto simp: unat_of_nat)
  ultimately show ?thesis by (simp add: utf8_decode_def)
qed

lemma utf8_encode_inject:
  assumes "unicode s" "unicode t"
    and "utf8_encode s = Inr b" "utf8_encode t = Inr b"
  shows "s = t"
  using utf8_roundtrip[OF assms(1,3)] utf8_roundtrip[OF assms(2,4)] by simp
end
