(* ===== verification/PyJson.thy ===== *)
theory PyJson
  imports PyText
begin

text \<open>
  Python's \<open>json\<close> module as the service uses it.

  \<^item> \<open>pyval\<close> is a value whose type the source only learns at run time: what \<open>json.loads\<close>
    returns, and what an untrusted caller may pass where the source annotates \<open>Any\<close>. A dict
    is an association list in insertion order; \<open>PFloat\<close> holds the \<open>repr\<close> of a float.
  \<^item> \<open>dumps\<close> is \<open>json.dumps\<close> with \<open>ensure_ascii\<close>, \<open>sort_keys\<close>, the compact separators and
    \<open>allow_nan=False\<close>; \<open>None\<close> is the \<open>TypeError\<close> or \<open>ValueError\<close> it raises.
  \<^item> \<open>json_loads\<close> is \<open>json.loads\<close> over the whole grammar CPython accepts: white space, escapes
    and surrogate pairs, floats, the \<open>NaN\<close>/\<open>Infinity\<close> constants, the integer digit limit. It takes
    the caller's \<open>object_pairs_hook\<close> and \<open>parse_constant\<close>, and CPython's conversion of a float
    literal to its shortest \<open>repr\<close>, as \<open>json_hooks\<close>.

  The parser recurses with fuel \<open>2 * length s + 2\<close>. \<open>parse_value_fuel\<close> shows that any two
  amounts of at least that give the same outcome, so the fuel never decides a result.
  \<open>json_roundtrip\<close> shows that parsing what \<open>dumps\<close> wrote gives the value back with its keys
  sorted.
\<close>

datatype pyval =
    PNone
  | PBool bool
  | PInt int
  | PFloat pystr
  | PStr pystr
  | PBytes bytes
  | PList "pyval list"
  | PTuple "pyval list"
  | PDict "(pystr \<times> pyval) list"
  | PObject

section \<open>Writing\<close>

definition u_digits :: "nat \<Rightarrow> pystr" where
  "u_digits n = [hex_digit (n div 4096 mod 16), hex_digit (n div 256 mod 16),
                 hex_digit (n div 16 mod 16), hex_digit (n mod 16)]"

definition u_escape :: "nat \<Rightarrow> pystr" where
  "u_escape n = 92 # 117 # u_digits n"

definition esc_char :: "nat \<Rightarrow> pystr" where
  "esc_char c =
     (if c = 92 then [92, 92] else if c = 34 then [92, 34]
      else if c = 10 then [92, 110] else if c = 13 then [92, 114] else if c = 9 then [92, 116]
      else if c = 12 then [92, 102] else if c = 8 then [92, 98]
      else if 32 \<le> c \<and> c \<le> 126 then [c]
      else if c < 0x10000 then u_escape c
      else u_escape (0xD800 + (c - 0x10000) div 1024 mod 1024) @ u_escape (0xDC00 + (c - 0x10000) mod 1024))"

definition json_string :: "pystr \<Rightarrow> pystr" where
  "json_string s = 34 # concat (map esc_char s) @ [34]"

fun join_comma :: "pystr list \<Rightarrow> pystr" where
  "join_comma [] = []"
| "join_comma [x] = x"
| "join_comma (x # y # ys) = x @ 44 # join_comma (y # ys)"

definition finite_repr :: "pystr \<Rightarrow> bool" where
  "finite_repr r \<longleftrightarrow> r \<notin> {lit ''nan'', lit ''inf'', lit ''-inf''}"

definition member_text :: "pystr \<times> pystr \<Rightarrow> pystr" where
  "member_text kt = json_string (fst kt) @ 58 # snd kt"

fun dumps :: "pyval \<Rightarrow> pystr option" where
  "dumps PNone = Some (lit ''null'')"
| "dumps (PBool b) = Some (if b then lit ''true'' else lit ''false'')"
| "dumps (PInt i) = int_text i"
| "dumps (PFloat r) = (if finite_repr r then Some r else None)"
| "dumps (PStr s) = Some (json_string s)"
| "dumps (PBytes b) = None"
| "dumps (PList vs) = map_option (\<lambda>ts. 91 # join_comma ts @ [93]) (opt_map dumps vs)"
| "dumps (PTuple vs) = map_option (\<lambda>ts. 91 # join_comma ts @ [93]) (opt_map dumps vs)"
| "dumps (PDict kvs) =
     map_option (\<lambda>kts. 123 # join_comma (map member_text (sort_key fst kts)) @ [125])
       (opt_map (\<lambda>(k, v). map_option (Pair k) (dumps v)) kvs)"
| "dumps PObject = None"

section \<open>Reading\<close>

record json_hooks =
  jh_pairs :: "(pystr \<times> pyval) list \<Rightarrow> pyval result"
  jh_const :: "pystr \<Rightarrow> pyval result"
  jh_float :: "pystr \<Rightarrow> pystr"

text \<open>A text outside the grammar is a \<open>JSONDecodeError\<close>; an int of too many digits is a plain \<open>ValueError\<close>.\<close>

abbreviation value_error :: "'a result" where
  "value_error \<equiv> Inl (PyError ''ValueError'')"

abbreviation decode_error :: "'a result" where
  "decode_error \<equiv> Inl (PyError ''JSONDecodeError'')"

definition skip_ws :: "pystr \<Rightarrow> pystr" where
  "skip_ws s = dropWhile (\<lambda>c. c \<in> {32, 9, 10, 13}) s"

definition hex4 :: "pystr \<Rightarrow> (nat \<times> pystr) option" where
  "hex4 s =
     (case s of
        a # b # c # d # r \<Rightarrow>
          (case (hex_value a, hex_value b, hex_value c, hex_value d) of
             (Some w, Some x, Some y, Some z) \<Rightarrow> Some (w * 4096 + x * 256 + y * 16 + z, r)
           | _ \<Rightarrow> None)
      | _ \<Rightarrow> None)"

text \<open>The low surrogate escape that completes a high one, if it follows directly.\<close>

definition low_escape :: "pystr \<Rightarrow> (nat \<times> pystr) option" where
  "low_escape s =
     (case s of
        a # b # r \<Rightarrow>
          if a = 92 \<and> b = 117
          then (case hex4 r of None \<Rightarrow> None | Some (n, r') \<Rightarrow> if is_low_surrogate n then Some (n, r') else None)
          else None
      | _ \<Rightarrow> None)"

definition simple_escape :: "nat \<Rightarrow> nat option" where
  "simple_escape e = map_of [(34, 34), (92, 92), (47, 47), (98, 8), (102, 12), (110, 10), (114, 13), (116, 9)] e"

definition join_surrogates :: "nat \<Rightarrow> nat \<Rightarrow> nat" where
  "join_surrogates h l = 0x10000 + (h - 0xD800) * 1024 + (l - 0xDC00)"

lemma hex4_length: "hex4 s = Some (n, r) \<Longrightarrow> length r < length s"
  by (auto simp: hex4_def split: list.splits option.splits prod.splits)

lemma low_escape_length: "low_escape s = Some (n, r) \<Longrightarrow> length r < length s"
  by (auto simp: low_escape_def split: list.splits option.splits prod.splits if_splits dest: hex4_length)

definition cons_first :: "nat \<Rightarrow> (pystr \<times> pystr) result \<Rightarrow> (pystr \<times> pystr) result" where
  "cons_first c m = rbind m (\<lambda>(s, r). Inr (c # s, r))"

lemma cons_first_cong [fundef_cong]: "c = d \<Longrightarrow> m = m' \<Longrightarrow> cons_first c m = cons_first d m'"
  by simp

text \<open>The characters of a string literal after its opening quote, and what follows the closing one.\<close>

function scan_string :: "pystr \<Rightarrow> (pystr \<times> pystr) result" where
  "scan_string [] = decode_error"
| "scan_string (c # cs) =
     (if c = 34 then Inr ([], cs)
      else if c = 92 then
        (case cs of
           [] \<Rightarrow> decode_error
         | e # r \<Rightarrow>
           if e = 117 then
             (case hex4 r of
                None \<Rightarrow> decode_error
              | Some (n, r1) \<Rightarrow>
                if is_high_surrogate n then
                  (case low_escape r1 of
                     Some (l, r2) \<Rightarrow> cons_first (join_surrogates n l) (scan_string r2)
                   | None \<Rightarrow> cons_first n (scan_string r1))
                else cons_first n (scan_string r1))
           else
             (case simple_escape e of
                None \<Rightarrow> decode_error
              | Some x \<Rightarrow> cons_first x (scan_string r)))
      else if c < 32 then decode_error
      else cons_first c (scan_string cs))"
  by pat_completeness auto
termination
  by (relation "measure length") (auto dest!: hex4_length low_escape_length)

definition scan_int_part :: "pystr \<Rightarrow> pystr \<times> pystr" where
  "scan_int_part s =
     (case s of [] \<Rightarrow> ([], s)
      | c # cs \<Rightarrow> if c = 48 then ([48], cs)
          else if is_digit c then (takeWhile is_digit s, dropWhile is_digit s) else ([], s))"

definition scan_fraction :: "pystr \<Rightarrow> pystr \<times> pystr" where
  "scan_fraction s =
     (case s of [] \<Rightarrow> ([], s)
      | c # cs \<Rightarrow> if c = 46 \<and> takeWhile is_digit cs \<noteq> []
          then (46 # takeWhile is_digit cs, dropWhile is_digit cs) else ([], s))"

definition scan_sign :: "pystr \<Rightarrow> pystr \<times> pystr" where
  "scan_sign s =
     (case s of [] \<Rightarrow> ([], s) | c # cs \<Rightarrow> if c = 43 \<or> c = 45 then ([c], cs) else ([], s))"

definition scan_exponent :: "pystr \<Rightarrow> pystr \<times> pystr" where
  "scan_exponent s =
     (case s of [] \<Rightarrow> ([], s)
      | c # cs \<Rightarrow>
        (case scan_sign cs of (sg, r) \<Rightarrow>
           if (c = 101 \<or> c = 69) \<and> takeWhile is_digit r \<noteq> []
           then (c # sg @ takeWhile is_digit r, dropWhile is_digit r) else ([], s)))"

definition scan_number :: "json_hooks \<Rightarrow> pystr \<Rightarrow> (pyval \<times> pystr) result" where
  "scan_number J s =
     (case (case s of [] \<Rightarrow> (False, s) | c # cs \<Rightarrow> if c = 45 then (True, cs) else (False, s)) of (neg, r0) \<Rightarrow>
      case scan_int_part r0 of (ip, r1) \<Rightarrow>
      if ip = [] then decode_error else
      case scan_fraction r1 of (fp, r2) \<Rightarrow>
      case scan_exponent r2 of (ep, r3) \<Rightarrow>
      if fp = [] \<and> ep = [] then
        if length ip > max_str_digits then value_error
        else Inr (PInt (if neg then - int (digits_value 0 ip) else int (digits_value 0 ip)), r3)
      else Inr (PFloat (jh_float J ((if neg then [45] else []) @ ip @ fp @ ep)), r3))"

definition starts_with :: "pystr \<Rightarrow> pystr \<Rightarrow> bool" where
  "starts_with p s \<longleftrightarrow> take (length p) s = p"

definition scan_word :: "json_hooks \<Rightarrow> pystr \<Rightarrow> (pyval \<times> pystr) result" where
  "scan_word J s =
     (if starts_with (lit ''null'') s then Inr (PNone, drop 4 s)
      else if starts_with (lit ''true'') s then Inr (PBool True, drop 4 s)
      else if starts_with (lit ''false'') s then Inr (PBool False, drop 5 s)
      else if starts_with (lit ''NaN'') s then rbind (jh_const J (lit ''NaN'')) (\<lambda>v. Inr (v, drop 3 s))
      else if starts_with (lit ''Infinity'') s then rbind (jh_const J (lit ''Infinity'')) (\<lambda>v. Inr (v, drop 8 s))
      else if starts_with (lit ''-Infinity'') s then rbind (jh_const J (lit ''-Infinity'')) (\<lambda>v. Inr (v, drop 9 s))
      else scan_number J s)"

fun parse_value :: "json_hooks \<Rightarrow> nat \<Rightarrow> pystr \<Rightarrow> (pyval \<times> pystr) result"
  and parse_elements :: "json_hooks \<Rightarrow> nat \<Rightarrow> pystr \<Rightarrow> (pyval list \<times> pystr) result"
  and parse_members :: "json_hooks \<Rightarrow> nat \<Rightarrow> pystr \<Rightarrow> ((pystr \<times> pyval) list \<times> pystr) result"
where
  "parse_value J 0 s = decode_error"
| "parse_value J (Suc n) s =
     (case s of
        [] \<Rightarrow> decode_error
      | c # cs \<Rightarrow>
        if c = 34 then rbind (scan_string cs) (\<lambda>(t, r). Inr (PStr t, r))
        else if c = 123 then
          (case skip_ws cs of
             [] \<Rightarrow> decode_error
           | d # r \<Rightarrow>
             if d = 125 then rbind (jh_pairs J []) (\<lambda>v. Inr (v, r))
             else rbind (parse_members J n (d # r))
                    (\<lambda>(kvs, r'). rbind (jh_pairs J kvs) (\<lambda>v. Inr (v, r'))))
        else if c = 91 then
          (case skip_ws cs of
             [] \<Rightarrow> decode_error
           | d # r \<Rightarrow>
             if d = 93 then Inr (PList [], r)
             else rbind (parse_elements J n (d # r)) (\<lambda>(vs, r'). Inr (PList vs, r')))
        else scan_word J s)"
| "parse_elements J 0 s = decode_error"
| "parse_elements J (Suc n) s =
     rbind (parse_value J n s) (\<lambda>(v, r).
       case skip_ws r of
         [] \<Rightarrow> decode_error
       | c # r' \<Rightarrow>
         if c = 93 then Inr ([v], r')
         else if c = 44 then rbind (parse_elements J n (skip_ws r')) (\<lambda>(vs, r''). Inr (v # vs, r''))
         else decode_error)"
| "parse_members J 0 s = decode_error"
| "parse_members J (Suc n) s =
     (case s of
        [] \<Rightarrow> decode_error
      | q # cs \<Rightarrow>
        if q \<noteq> 34 then decode_error else
        rbind (scan_string cs) (\<lambda>(k, r).
          case skip_ws r of
            [] \<Rightarrow> decode_error
          | c # r1 \<Rightarrow>
            if c \<noteq> 58 then decode_error else
            rbind (parse_value J n (skip_ws r1)) (\<lambda>(v, r2).
              case skip_ws r2 of
                [] \<Rightarrow> decode_error
              | d # r3 \<Rightarrow>
                if d = 125 then Inr ([(k, v)], r3)
                else if d = 44 then rbind (parse_members J n (skip_ws r3)) (\<lambda>(kvs, r4). Inr ((k, v) # kvs, r4))
                else decode_error)))"

definition json_loads :: "json_hooks \<Rightarrow> pystr \<Rightarrow> pyval result" where
  "json_loads J s =
     (let s0 = skip_ws s
      in rbind (parse_value J (2 * length s0 + 2) s0)
           (\<lambda>(v, r). if skip_ws r = [] then Inr v else decode_error))"

section \<open>Strings survive the round trip\<close>

fun no_pair :: "pystr \<Rightarrow> bool" where
  "no_pair [] = True"
| "no_pair [c] = True"
| "no_pair (h # l # r) \<longleftrightarrow> \<not> (is_high_surrogate h \<and> is_low_surrogate l) \<and> no_pair (l # r)"

text \<open>
  A string \<open>json\<close> gives back unchanged: code points only, and no high surrogate directly before a
  low one (the two would come back as one character).
\<close>

definition text_ok :: "pystr \<Rightarrow> bool" where
  "text_ok s \<longleftrightarrow> list_all (\<lambda>c. c < 0x110000) s \<and> no_pair s"

lemma lit_words:
  "lit ''null'' = [110, 117, 108, 108]" "lit ''true'' = [116, 114, 117, 101]"
  "lit ''false'' = [102, 97, 108, 115, 101]" "lit ''NaN'' = [78, 97, 78]"
  "lit ''Infinity'' = [73, 110, 102, 105, 110, 105, 116, 121]"
  "lit ''-Infinity'' = [45, 73, 110, 102, 105, 110, 105, 116, 121]"
  by (simp_all add: lit_def)

lemma hex_join: "n div 4096 * 4096 + n div 256 mod 16 * 256 + n div 16 mod 16 * 16 + n mod 16 = (n :: nat)"
proof -
  have 1: "n = n div 16 * 16 + n mod 16" by simp
  have 2: "n div 16 = n div 256 * 16 + n div 16 mod 16"
    using div_mult_mod_eq[of "n div 16" 16] by (simp add: div_mult2_eq[symmetric])
  have 3: "n div 256 = n div 4096 * 16 + n div 256 mod 16"
    using div_mult_mod_eq[of "n div 256" 16] by (simp add: div_mult2_eq[symmetric])
  from 1 2 3 show ?thesis by linarith
qed

lemma hex4_u_escape: "n < 65536 \<Longrightarrow> hex4 (u_digits n @ r) = Some (n, r)"
proof -
  assume n: "n < 65536"
  then have "n div 4096 < 16" by simp
  with hex_join[of n] show ?thesis by (simp add: hex4_def u_digits_def)
qed

lemma esc_char_first:
  "esc_char c = [c] \<and> c \<noteq> 34 \<and> c \<noteq> 92 \<and> 32 \<le> c \<and> c \<le> 126
   \<or> (\<exists>e. esc_char c = [92, e] \<and> e \<noteq> 117 \<and> simple_escape e = Some c \<and> c < 0xD800)
   \<or> c < 0x10000 \<and> esc_char c = u_escape c
   \<or> 0x10000 \<le> c \<and> esc_char c = u_escape (0xD800 + (c - 0x10000) div 1024 mod 1024)
        @ u_escape (0xDC00 + (c - 0x10000) mod 1024)"
  by (auto simp: esc_char_def simple_escape_def)

lemma low_escape_none:
  assumes "case s of [] \<Rightarrow> True | d # _ \<Rightarrow> \<not> is_low_surrogate d"
  shows "low_escape (concat (map esc_char s) @ 34 # r) = None"
proof (cases s)
  case Nil
  then show ?thesis by (simp add: low_escape_def split: list.splits)
next
  case (Cons d s')
  with assms have nl: "\<not> is_low_surrogate d" by simp
  let ?rest = "concat (map esc_char s') @ 34 # r"
  consider "esc_char d = [d]" "d \<noteq> 92" | e where "esc_char d = [92, e]" "e \<noteq> 117"
    | "d < 0x10000" "esc_char d = u_escape d"
    | "esc_char d = u_escape (0xD800 + (d - 0x10000) div 1024 mod 1024)
         @ u_escape (0xDC00 + (d - 0x10000) mod 1024)"
    using esc_char_first[of d] by blast
  then show ?thesis
  proof cases
    case 3
    with nl Cons show ?thesis
      by (simp add: low_escape_def u_escape_def hex4_u_escape)
  next
    case 4
    have b: "(d - 0x10000) div 1024 mod 1024 < 1024" by simp
    then have "0xD800 + (d - 0x10000) div 1024 mod 1024 < (65536 :: nat)"
      "\<not> is_low_surrogate (0xD800 + (d - 0x10000) div 1024 mod 1024)"
      by (auto simp: is_low_surrogate_def)
    with 4 Cons show ?thesis
      by (simp add: low_escape_def u_escape_def hex4_u_escape)
  qed (use Cons in \<open>auto simp: low_escape_def split: list.splits\<close>)
qed

lemma low_escape_low:
  "is_low_surrogate l \<Longrightarrow> low_escape (u_escape l @ r) = Some (l, r)"
  by (auto simp: low_escape_def u_escape_def hex4_u_escape is_low_surrogate_def)

lemma join_split: "0x10000 \<le> c \<Longrightarrow> c < 0x110000 \<Longrightarrow>
  join_surrogates (0xD800 + (c - 0x10000) div 1024 mod 1024) (0xDC00 + (c - 0x10000) mod 1024) = c"
proof -
  assume a: "0x10000 \<le> c" "c < 0x110000"
  then have "(c - 0x10000) div 1024 mod 1024 = (c - 0x10000) div 1024" by simp
  moreover have "(c - 0x10000) div 1024 * 1024 + (c - 0x10000) mod 1024 = c - 0x10000"
    by (rule div_mult_mod_eq)
  ultimately show ?thesis using a by (simp add: join_surrogates_def)
qed

lemma scan_u_escape:
  "n < 65536 \<Longrightarrow> scan_string (u_escape n @ r) =
     (if is_high_surrogate n then
        (case low_escape r of
           Some (l, r2) \<Rightarrow> cons_first (join_surrogates n l) (scan_string r2)
         | None \<Rightarrow> cons_first n (scan_string r))
      else cons_first n (scan_string r))"
  by (simp add: u_escape_def hex4_u_escape split: option.splits)

lemma scan_esc_char:
  assumes "c < 0x110000"
    and "is_high_surrogate c \<Longrightarrow> low_escape r = None"
  shows "scan_string (esc_char c @ r) = cons_first c (scan_string r)"
proof -
  consider "esc_char c = [c]" "c \<noteq> 34" "c \<noteq> 92" "32 \<le> c"
    | e where "esc_char c = [92, e]" "e \<noteq> 117" "simple_escape e = Some c"
    | "c < 0x10000" "esc_char c = u_escape c"
    | "0x10000 \<le> c" "esc_char c = u_escape (0xD800 + (c - 0x10000) div 1024 mod 1024)
         @ u_escape (0xDC00 + (c - 0x10000) mod 1024)"
    using esc_char_first[of c] by blast
  then show ?thesis
  proof cases
    case 3
    with assms(2) show ?thesis by (simp add: scan_u_escape)
  next
    case 4
    let ?h = "0xD800 + (c - 0x10000) div 1024 mod 1024" and ?l = "0xDC00 + (c - 0x10000) mod 1024"
    have "(c - 0x10000) div 1024 mod 1024 < 1024" "(c - 0x10000) mod 1024 < 1024" by simp_all
    then have h: "?h < 65536" "is_high_surrogate ?h" and l: "is_low_surrogate ?l"
      unfolding is_high_surrogate_def is_low_surrogate_def by linarith+
    have "scan_string (esc_char c @ r) = scan_string (u_escape ?h @ (u_escape ?l @ r))"
      using 4 by simp
    also have "\<dots> = cons_first (join_surrogates ?h ?l) (scan_string r)"
      by (simp only: scan_u_escape[OF h(1)] h(2) low_escape_low[OF l] if_True option.case prod.case)
    finally show ?thesis using join_split[OF 4(1) assms(1)] by simp
  qed auto
qed

lemma scan_string_escaped:
  "text_ok s \<Longrightarrow> scan_string (concat (map esc_char s) @ 34 # r) = Inr (s, r)"
proof (induction s)
  case (Cons c s)
  have ok: "text_ok s" and c: "c < 0x110000"
    using Cons.prems by (cases s; auto simp: text_ok_def)+
  have "low_escape (concat (map esc_char s) @ 34 # r) = None" if "is_high_surrogate c"
    by (rule low_escape_none) (use Cons.prems that in \<open>cases s; auto simp: text_ok_def\<close>)
  from scan_esc_char[OF c this] Cons.IH[OF ok] show ?case
    by (simp add: cons_first_def)
qed simp

lemma esc_char_ascii: "is_ascii (esc_char c)"
proof -
  have u: "is_ascii (u_escape n)" for n
  proof -
    have "hex_digit (k mod 16) < 128" for k
      using pos_mod_bound[of 16 "int k"] by (simp add: hex_digit_def) arith
    then show ?thesis by (simp add: u_escape_def u_digits_def)
  qed
  then show ?thesis by (auto simp: esc_char_def)
qed

lemma json_string_ascii [simp]: "is_ascii (json_string s)"
  by (induction s) (auto simp: json_string_def esc_char_ascii)

section \<open>Values survive the round trip\<close>

fun json_ok :: "pyval \<Rightarrow> bool" where
  "json_ok PNone = True"
| "json_ok (PBool b) = True"
| "json_ok (PInt i) = True"
| "json_ok (PFloat r) = False"
| "json_ok (PStr s) = text_ok s"
| "json_ok (PBytes b) = False"
| "json_ok (PList vs) = list_all json_ok vs"
| "json_ok (PTuple vs) = list_all json_ok vs"
| "json_ok (PDict kvs) \<longleftrightarrow> distinct (map fst kvs) \<and> list_all (\<lambda>(k, v). text_ok k \<and> json_ok v) kvs"
| "json_ok PObject = False"

text \<open>The same with floats whose \<open>repr\<close> satisfies \<open>F\<close>.\<close>

fun json_with :: "(pystr \<Rightarrow> bool) \<Rightarrow> pyval \<Rightarrow> bool" where
  "json_with F PNone = True"
| "json_with F (PBool b) = True"
| "json_with F (PInt i) = True"
| "json_with F (PFloat r) = F r"
| "json_with F (PStr s) = text_ok s"
| "json_with F (PBytes b) = False"
| "json_with F (PList vs) = list_all (json_with F) vs"
| "json_with F (PTuple vs) = list_all (json_with F) vs"
| "json_with F (PDict kvs) \<longleftrightarrow> distinct (map fst kvs) \<and> list_all (\<lambda>(k, v). text_ok k \<and> json_with F v) kvs"
| "json_with F PObject = False"

lemma json_ok_with: "json_ok v \<Longrightarrow> json_with F v"
  by (induction v rule: json_ok.induct) (auto simp: list_all_iff)

text \<open>A float written with a decimal point and without an exponent.\<close>

definition decimal_text :: "pystr \<Rightarrow> bool" where
  "decimal_text r \<longleftrightarrow>
     (\<exists>ip fp. r = ip @ 46 # fp \<and> ip \<noteq> [] \<and> fp \<noteq> [] \<and> list_all is_digit ip \<and> list_all is_digit fp \<and> (hd ip = 48 \<longrightarrow> ip = [48]))"

text \<open>What a value reads back as: tuples as lists, dicts in the order of their keys.\<close>

fun json_norm :: "pyval \<Rightarrow> pyval" where
  "json_norm (PList vs) = PList (map json_norm vs)"
| "json_norm (PTuple vs) = PList (map json_norm vs)"
| "json_norm (PDict kvs) = PDict (sort_key fst (map (\<lambda>(k, v). (k, json_norm v)) kvs))"
| "json_norm v = v"

text \<open>What may follow a value inside a document.\<close>

definition stops :: "pystr \<Rightarrow> bool" where
  "stops r = (case r of [] \<Rightarrow> True | c # _ \<Rightarrow> c \<in> {44, 93, 125})"

definition parses :: "json_hooks \<Rightarrow> pystr \<Rightarrow> pyval \<Rightarrow> bool" where
  "parses J t w \<longleftrightarrow>
     (\<forall>n r. 2 * length t + 1 \<le> n \<longrightarrow> stops r \<longrightarrow> parse_value J n (t @ r) = Inr (w, r))"

lemma parsesD: "parses J t w \<Longrightarrow> 2 * length t + 1 \<le> n \<Longrightarrow> stops r \<Longrightarrow> parse_value J n (t @ r) = Inr (w, r)"
  by (simp add: parses_def)

lemma stops_simps [simp]: "stops []" "stops (c # r) \<longleftrightarrow> c \<in> {44, 93, 125}"
  by (simp_all add: stops_def)

lemma skip_ws_keep: "c \<notin> {32, 9, 10, 13} \<Longrightarrow> skip_ws (c # r) = c # r"
  by (simp add: skip_ws_def)

lemma stops_digits: "stops r \<Longrightarrow> takeWhile is_digit r = [] \<and> dropWhile is_digit r = r"
  by (cases r) (auto simp: is_digit_def)

lemma int_text_first: "int_text i = Some t \<Longrightarrow> \<exists>c t'. t = c # t' \<and> (c = 45 \<or> 48 \<le> c \<and> c \<le> 57)"
proof -
  assume a: "int_text i = Some t"
  obtain d ds where ds: "nat_digits (nat \<bar>i\<bar>) = d # ds" by (cases "nat_digits (nat \<bar>i\<bar>)") auto
  with nat_digits_digit[of "nat \<bar>i\<bar>"] have "48 \<le> d \<and> d \<le> 57" by (simp add: is_digit_def)
  moreover have "t = d # ds \<or> t = 45 # d # ds"
    using a by (auto simp: int_text_def Let_def ds split: if_splits)
  ultimately show ?thesis by auto
qed

lemma scan_number_int:
  assumes "int_text i = Some t" "stops r"
  shows "scan_number J (t @ r) = Inr (PInt i, r)"
proof -
  define ds where "ds = nat_digits (nat \<bar>i\<bar>)"
  have len: "length ds \<le> max_str_digits" and t: "t = (if i < 0 then 45 # ds else ds)"
    using assms(1) by (auto simp: int_text_def ds_def Let_def split: if_splits)
  obtain d ds' where ds: "ds = d # ds'" using nat_digits_nonempty by (metis ds_def neq_Nil_conv)
  have dig: "\<And>x. x \<in> set ds \<Longrightarrow> is_digit x"
    using nat_digits_digit by (simp add: ds_def list_all_iff)
  from dig[of d] have d: "is_digit d" "d \<noteq> 45" by (auto simp: ds is_digit_def)
  have zero: "ds = [48]" if "d = 48"
  proof -
    from that have "nat \<bar>i\<bar> = 0" using hd_nat_digits ds by (metis ds_def list.sel(1))
    then show ?thesis by (simp add: ds_def nat_digits.simps)
  qed
  have tw: "takeWhile is_digit (ds @ r) = ds" "dropWhile is_digit (ds @ r) = r"
    using dig stops_digits[OF assms(2)] by (simp_all add: takeWhile_append2 dropWhile_append2)
  have ip: "scan_int_part (ds @ r) = (ds, r)"
    using d zero tw by (auto simp: scan_int_part_def ds)
  have fp: "scan_fraction r = ([], r)"
    using assms(2) by (auto simp: scan_fraction_def split: list.splits)
  have ep: "scan_exponent r = ([], r)"
    using assms(2) by (auto simp: scan_exponent_def split: list.splits prod.splits)
  have val: "digits_value 0 ds = nat \<bar>i\<bar>" by (simp add: ds_def)
  have sgn: "(case t @ r of [] \<Rightarrow> (False, t @ r) | c # cs \<Rightarrow> if c = 45 then (True, cs) else (False, t @ r))
      = (i < 0, ds @ r)"
    using t d by (auto simp: ds)
  show ?thesis
    using len val by (simp add: scan_number_def sgn ip fp ep) (simp add: ds)
qed

lemma scan_word_int:
  assumes "int_text i = Some t" "stops r"
  shows "scan_word J (t @ r) = Inr (PInt i, r)"
proof -
  define ds where "ds = nat_digits (nat \<bar>i\<bar>)"
  have t: "t = (if i < 0 then 45 # ds else ds)"
    using assms(1) by (auto simp: int_text_def ds_def Let_def split: if_splits)
  obtain d ds' where ds: "ds = d # ds'" using nat_digits_nonempty by (metis ds_def neq_Nil_conv)
  have "is_digit d" using nat_digits_digit[of "nat \<bar>i\<bar>"] ds by (simp add: ds_def[symmetric])
  then have "48 \<le> d" "d \<le> 57" by (simp_all add: is_digit_def)
  with t ds have "scan_word J (t @ r) = scan_number J (t @ r)"
    by (auto simp: scan_word_def starts_with_def lit_words)
  with scan_number_int[OF assms] show ?thesis by simp
qed

lemma parses_int: "int_text i = Some t \<Longrightarrow> parses J t (PInt i)"
  unfolding parses_def
proof (intro allI impI)
  fix n r assume a: "int_text i = Some t" "2 * length t + 1 \<le> n" "stops r"
  then obtain m where n: "n = Suc m" by (cases n) auto
  from int_text_first[OF a(1)] scan_word_int[OF a(1,3), of J] show "parse_value J n (t @ r) = Inr (PInt i, r)"
    by (auto simp: n)
qed

lemma parses_words: "parses J (lit ''null'') PNone" "parses J (lit ''true'') (PBool True)"
  "parses J (lit ''false'') (PBool False)"
  unfolding parses_def
proof (safe, goal_cases)
  case (1 n r)
  then show ?case by (cases n) (auto simp: scan_word_def starts_with_def lit_words)
next
  case (2 n r)
  then show ?case by (cases n) (auto simp: scan_word_def starts_with_def lit_words)
next
  case (3 n r)
  then show ?case by (cases n) (auto simp: scan_word_def starts_with_def lit_words)
qed

lemma parses_string: "text_ok s \<Longrightarrow> parses J (json_string s) (PStr s)"
  unfolding parses_def
proof (intro allI impI)
  fix n r assume "text_ok s" "2 * length (json_string s) + 1 \<le> n" "stops r"
  then show "parse_value J n (json_string s @ r) = Inr (PStr s, r)"
    by (cases n) (auto simp: json_string_def scan_string_escaped)
qed

lemma scan_number_decimal:
  assumes "decimal_text t" "stops r"
  shows "scan_number J (t @ r) = Inr (PFloat (jh_float J t), r)"
proof -
  obtain ip fp where t: "t = ip @ 46 # fp" "ip \<noteq> []" "fp \<noteq> []" "\<And>x. x \<in> set ip \<Longrightarrow> is_digit x" "\<And>x. x \<in> set fp \<Longrightarrow> is_digit x" "hd ip = 48 \<longrightarrow> ip = [48]"
    using assms(1) by (auto simp: decimal_text_def list_all_iff)
  obtain d ds where ip: "ip = d # ds" using t(2) by (cases ip) auto
  have d: "is_digit d" "d \<noteq> 45" using t(4)[of d] by (auto simp: ip is_digit_def)
  have nd: "\<not> is_digit 46" by (simp add: is_digit_def)
  have tw: "takeWhile is_digit (ip @ 46 # fp @ r) = ip" "dropWhile is_digit (ip @ 46 # fp @ r) = 46 # fp @ r"
    using t(4) nd by (simp_all add: takeWhile_append2 dropWhile_append2)
  have fw: "takeWhile is_digit (fp @ r) = fp" "dropWhile is_digit (fp @ r) = r"
    using t(5) stops_digits[OF assms(2)] by (simp_all add: takeWhile_append2 dropWhile_append2)
  have i: "scan_int_part (ip @ 46 # fp @ r) = (ip, 46 # fp @ r)"
    using d t(6) tw by (auto simp: scan_int_part_def ip)
  have f: "scan_fraction (46 # fp @ r) = (46 # fp, r)" using fw t(3) by (simp add: scan_fraction_def)
  have e: "scan_exponent r = ([], r)"
    using assms(2) by (auto simp: scan_exponent_def split: list.splits prod.splits)
  have g: "(case t @ r of [] \<Rightarrow> (False, t @ r) | c # cs \<Rightarrow> if c = 45 then (True, cs) else (False, t @ r)) = (False, ip @ 46 # fp @ r)"
    using d by (simp add: t(1) ip)
  show ?thesis by (simp add: scan_number_def g i f e) (simp add: t(1) ip)
qed

lemma decimal_first: "decimal_text t \<Longrightarrow> \<exists>c t'. t = c # t' \<and> 48 \<le> c \<and> c \<le> 57"
  by (auto simp: decimal_text_def list_all_iff is_digit_def neq_Nil_conv)

lemma parses_decimal:
  assumes "decimal_text t" "jh_float J t = t"
  shows "parses J t (PFloat t)"
  unfolding parses_def
proof (intro allI impI)
  fix n r assume a: "2 * length t + 1 \<le> n" "stops r"
  then obtain m where n: "n = Suc m" by (cases n) auto
  obtain c t' where c: "t = c # t'" "48 \<le> c" "c \<le> 57" using decimal_first[OF assms(1)] by blast
  have "scan_word J (t @ r) = scan_number J (t @ r)" using c by (auto simp: scan_word_def starts_with_def lit_words)
  with scan_number_decimal[OF assms(1) a(2), of J] c assms(2) show "parse_value J n (t @ r) = Inr (PFloat t, r)"
    by (auto simp: n)
qed

text \<open>The first character of a written value is never white space, a comma or a bracket that closes.\<close>

definition starts_value :: "pystr \<Rightarrow> bool" where
  "starts_value t \<longleftrightarrow> (\<exists>c t'. t = c # t' \<and> c \<notin> {32, 9, 10, 13, 93, 125})"

lemma dumps_starts_with:
  assumes "\<And>r. F r \<Longrightarrow> decimal_text r" "dumps v = Some t" "json_with F v"
  shows "starts_value t"
proof (cases v)
  case (PInt i)
  with assms(2) int_text_first[of i t] show ?thesis by (auto simp: starts_value_def)
next
  case (PFloat r)
  with assms decimal_first[of r] show ?thesis by (auto simp: starts_value_def split: if_splits)
qed (use assms(2,3) in \<open>auto simp: starts_value_def lit_words json_string_def split: if_splits\<close>)

lemma starts_value_skip: "starts_value t \<Longrightarrow> skip_ws (t @ r) = t @ r"
  by (auto simp: starts_value_def skip_ws_keep)

lemma parse_elements_join:
  assumes "ts \<noteq> []" "list_all2 (\<lambda>t w. parses J t w \<and> starts_value t) ts ws"
    and "2 * length (join_comma ts) + 2 \<le> n"
  shows "parse_elements J n (join_comma ts @ 93 # r) = Inr (ws, r)"
  using assms
proof (induction ts arbitrary: ws n rule: join_comma.induct)
  case (2 t)
  then obtain w where ws: "ws = [w]" and p: "parses J t w" by (auto simp: list_all2_Cons1)
  from 2 obtain m where n: "n = Suc m" and m: "2 * length t + 1 \<le> m" by (cases n) auto
  from parsesD[OF p m, of "93 # r"] show ?case by (simp add: n ws skip_ws_keep)
next
  case (3 t u us)
  from "3.prems" obtain w ws' where ws: "ws = w # ws'" and p: "parses J t w"
    and rest: "list_all2 (\<lambda>t w. parses J t w \<and> starts_value t) (u # us) ws'"
    by (auto simp: list_all2_Cons1)
  from "3.prems" obtain m where n: "n = Suc m" and m: "2 * length t + 1 \<le> m"
    and m2: "2 * length (join_comma (u # us)) + 2 \<le> m" by (cases n) auto
  have s: "skip_ws (join_comma (u # us) @ 93 # r) = join_comma (u # us) @ 93 # r"
    using rest by (cases us) (auto simp: list_all2_Cons1 starts_value_skip)
  from parsesD[OF p m, of "44 # join_comma (u # us) @ 93 # r"] "3.IH"[OF _ rest m2] show ?case
    by (simp add: n ws skip_ws_keep s)
qed simp

lemma length_member_text: "length (member_text (k, t)) = length (json_string k) + Suc (length t)"
  by (simp add: member_text_def)

lemma parse_members_join:
  assumes "kts \<noteq> []"
    and "list_all2 (\<lambda>(k, t) (k', w). k = k' \<and> text_ok k \<and> parses J t w \<and> starts_value t) kts kws"
    and "2 * length (join_comma (map member_text kts)) + 2 \<le> n"
  shows "parse_members J n (join_comma (map member_text kts) @ 125 # r) = Inr (kws, r)"
  using assms
proof (induction kts arbitrary: kws n rule: induct_list012)
  case (2 kt)
  obtain k t where kt: "kt = (k, t)" by force
  with "2.prems" obtain w where kws: "kws = [(k, w)]" and k: "text_ok k" and p: "parses J t w"
    and st: "starts_value t"
    by (auto simp: list_all2_Cons1)
  from "2.prems" kt obtain m where n: "n = Suc m" and m: "2 * length t + 1 \<le> m"
    by (cases n) (auto simp: member_text_def)
  from parsesD[OF p m, of "125 # r"] st show ?case
    by (simp add: n kws kt member_text_def json_string_def scan_string_escaped[OF k] skip_ws_keep
        starts_value_skip)
next
  case (3 kt ku kts)
  obtain k t where kt: "kt = (k, t)" by force
  with "3.prems" obtain w kws' where kws: "kws = (k, w) # kws'" and k: "text_ok k" and p: "parses J t w"
    and st: "starts_value t"
    and rest: "list_all2 (\<lambda>(k, t) (k', w). k = k' \<and> text_ok k \<and> parses J t w \<and> starts_value t) (ku # kts) kws'"
    by (auto simp: list_all2_Cons1)
  from "3.prems" kt obtain m where n: "n = Suc m" and m: "2 * length t + 1 \<le> m"
    and m2: "2 * length (join_comma (map member_text (ku # kts))) + 2 \<le> m"
    by (cases n) (auto simp: length_member_text)
  have "\<exists>c x. join_comma (map member_text (ku # kts)) = 34 # x"
    by (cases kts) (auto simp: member_text_def json_string_def)
  then have s: "skip_ws (join_comma (map member_text (ku # kts)) @ 125 # r)
      = join_comma (map member_text (ku # kts)) @ 125 # r"
    by (auto simp: skip_ws_keep)
  from parsesD[OF p m, of "44 # join_comma (map member_text (ku # kts)) @ 125 # r"] st "3.IH"(2)[OF _ rest m2]
  show ?case
    by (simp add: n kws kt s[simplified] member_text_def[of "(k, t)"] json_string_def[of k]
        scan_string_escaped[OF k] skip_ws_keep starts_value_skip)
qed simp

text \<open>What a reader's \<open>object_pairs_hook\<close> must do for the round trip: keep pairs with distinct keys.\<close>

definition keeps_distinct :: "json_hooks \<Rightarrow> bool" where
  "keeps_distinct J \<longleftrightarrow> (\<forall>kvs. distinct (map fst kvs) \<longrightarrow> jh_pairs J kvs = Inr (PDict kvs))"

lemma parses_list:
  assumes "list_all2 (\<lambda>t w. parses J t w \<and> starts_value t) ts ws"
  shows "parses J (91 # join_comma ts @ [93]) (PList ws)"
  unfolding parses_def
proof (intro allI impI)
  fix n r assume n: "2 * length (91 # join_comma ts @ [93]) + 1 \<le> n" and "stops r"
  then obtain m where m: "n = Suc m" "2 * length (join_comma ts) + 2 \<le> m" by (cases n) auto
  show "parse_value J n ((91 # join_comma ts @ [93]) @ r) = Inr (PList ws, r)"
  proof (cases "ts = []")
    case True
    with assms show ?thesis by (simp add: m skip_ws_keep)
  next
    case False
    have "starts_value (join_comma ts)"
      using assms False by (cases ts rule: join_comma.cases)
        (auto simp: list_all2_Cons1 starts_value_def)
    then obtain c x where c: "join_comma ts = c # x" "c \<notin> {32, 9, 10, 13, 93, 125}"
      by (auto simp: starts_value_def)
    from parse_elements_join[OF False assms m(2), of r] c show ?thesis
      by (simp add: m skip_ws_keep)
  qed
qed

lemma parses_dict:
  assumes "list_all2 (\<lambda>(k, t) (k', w). k = k' \<and> text_ok k \<and> parses J t w \<and> starts_value t) kts kws"
    and "jh_pairs J kws = Inr v"
  shows "parses J (123 # join_comma (map member_text kts) @ [125]) v"
  unfolding parses_def
proof (intro allI impI)
  fix n r
  assume n: "2 * length (123 # join_comma (map member_text kts) @ [125]) + 1 \<le> n" and "stops r"
  then obtain m where m: "n = Suc m" "2 * length (join_comma (map member_text kts)) + 2 \<le> m"
    by (cases n) auto
  show "parse_value J n ((123 # join_comma (map member_text kts) @ [125]) @ r) = Inr (v, r)"
  proof (cases "kts = []")
    case True
    with assms show ?thesis by (simp add: m skip_ws_keep)
  next
    case False
    then obtain kt kts' where kts: "kts = kt # kts'" by (cases kts) auto
    obtain x where c: "join_comma (map member_text kts) = 34 # x"
      by (cases kts') (auto simp: kts member_text_def json_string_def)
    from parse_members_join[OF False assms(1) m(2), of r] c assms(2) show ?thesis
      by (simp add: m skip_ws_keep)
  qed
qed

lemma json_norm_pair_fst: "fst ((\<lambda>(k, v). (k, f v)) kv) = fst kv"
  by (cases kv) simp

lemma sort_pairs_map:
  "sort_key fst (map (\<lambda>(k, v). (k, f v)) kvs) = map (\<lambda>(k, v). (k, f v)) (sort_key fst kvs)"
  by (simp add: sort_key_map comp_def json_norm_pair_fst)

lemma dumps_dict_texts:
  "opt_map (\<lambda>(k, v). map_option (Pair k) (dumps v)) kvs = Some kts \<longleftrightarrow>
     (\<forall>(k, v) \<in> set kvs. dumps v \<noteq> None) \<and> kts = map (\<lambda>(k, v). (k, the (dumps v))) kvs"
proof -
  have "the (map_option (Pair k) (dumps v)) = (k, the (dumps v))" if "dumps v \<noteq> None" for k v
    using that by (cases "dumps v") auto
  then show ?thesis unfolding opt_map_conv by (fastforce split: prod.splits)
qed

theorem dumps_parses:
  assumes "keeps_distinct J" and F: "\<And>r. F r \<Longrightarrow> decimal_text r \<and> jh_float J r = r"
  shows "dumps v = Some t \<Longrightarrow> json_with F v \<Longrightarrow> parses J t (json_norm v)"
proof (induction v arbitrary: t rule: json_ok.induct)
  case (7 vs)
  note starts = dumps_starts_with[of F, OF conjunct1[OF F]]
  from "7.prems" obtain ts where ts: "opt_map dumps vs = Some ts" "t = 91 # join_comma ts @ [93]" by auto
  have "list_all2 (\<lambda>t w. parses J t w \<and> starts_value t) ts (map json_norm vs)"
    using ts(1) "7.IH" "7.prems"(2)
    by (auto simp: opt_map_conv list_all2_map1 list_all2_map2 list_all2_same list_all_iff intro: starts)
  from parses_list[OF this] ts(2) show ?case by simp
next
  case (8 vs)
  note starts = dumps_starts_with[of F, OF conjunct1[OF F]]
  from "8.prems" obtain ts where ts: "opt_map dumps vs = Some ts" "t = 91 # join_comma ts @ [93]" by auto
  have "list_all2 (\<lambda>t w. parses J t w \<and> starts_value t) ts (map json_norm vs)"
    using ts(1) "8.IH" "8.prems"(2)
    by (auto simp: opt_map_conv list_all2_map1 list_all2_map2 list_all2_same list_all_iff intro: starts)
  from parses_list[OF this] ts(2) show ?case by simp
next
  case (9 kvs)
  note starts = dumps_starts_with[of F, OF conjunct1[OF F]]
  let ?S = "sort_key fst kvs"
  let ?kts = "map (\<lambda>(k, v). (k, the (dumps v))) ?S" and ?kws = "map (\<lambda>(k, v). (k, json_norm v)) ?S"
  have def: "(k, v) \<in> set kvs \<Longrightarrow> dumps v = Some (the (dumps v))" for k v
    using "9.prems"(1) by (auto simp: dumps_dict_texts)
  have t: "t = 123 # join_comma (map member_text ?kts) @ [125]"
    using "9.prems"(1) by (auto simp: dumps_dict_texts sort_pairs_map)
  have ok: "(k, v) \<in> set kvs \<Longrightarrow> text_ok k \<and> json_with F v" for k v
    using "9.prems"(2) by (auto simp: list_all_iff)
  have el: "(k, v) \<in> set kvs \<Longrightarrow> parses J (the (dumps v)) (json_norm v) \<and> starts_value (the (dumps v))" for k v
    using "9.IH"[of "(k, v)" k v "the (dumps v)"] def[of k v] ok[of k v] starts[of v] by auto
  have all: "list_all2 (\<lambda>(k, t) (k', w). k = k' \<and> text_ok k \<and> parses J t w \<and> starts_value t) ?kts ?kws"
    using el ok by (auto simp: list_all2_map1 list_all2_map2 list_all2_same)
  have "distinct (map fst ?kws)"
    using "9.prems"(2) by (simp add: comp_def json_norm_pair_fst)
  with assms have "jh_pairs J ?kws = Inr (PDict ?kws)" by (simp add: keeps_distinct_def)
  from parses_dict[OF all this] show ?case by (simp add: t sort_pairs_map)
qed (auto simp: parses_words parses_int parses_string parses_decimal F split: if_splits)

lemma json_roundtrip_with:
  assumes "keeps_distinct J" "\<And>r. F r \<Longrightarrow> decimal_text r \<and> jh_float J r = r" "dumps v = Some t" "json_with F v"
  shows "json_loads J t = Inr (json_norm v)"
proof -
  have "starts_value t" using dumps_starts_with[of F v t] assms by blast
  with starts_value_skip[of t "[]"] have s: "skip_ws t = t" by simp
  from dumps_parses[of J F, OF assms] have "parse_value J (2 * length t + 2) (t @ []) = Inr (json_norm v, [])"
    by (rule parsesD) simp_all
  then show ?thesis by (simp add: json_loads_def s Let_def) (simp add: skip_ws_def)
qed

lemma json_roundtrip: "keeps_distinct J \<Longrightarrow> dumps v = Some t \<Longrightarrow> json_ok v \<Longrightarrow> json_loads J t = Inr (json_norm v)"
  using json_roundtrip_with[of J "\<lambda>_. False" v t] json_ok_with[of v "\<lambda>_. False"] by blast

lemma sort_key_idem: "sort_key f (sort_key f xs) = sort_key f xs"
  by (rule sort_key_id_if_sorted) (rule sorted_sort_key)

lemma dumps_json_norm: "dumps v = Some t \<Longrightarrow> dumps (json_norm v) = Some t"
proof (induction v arbitrary: t rule: json_ok.induct)
  case (9 kvs)
  let ?S = "sort_key fst kvs"
  have def: "(k, v) \<in> set kvs \<Longrightarrow> dumps v = Some (the (dumps v))" for k v
    using "9.prems"(1) by (auto simp: dumps_dict_texts)
  have el: "(k, v) \<in> set kvs \<Longrightarrow> dumps (json_norm v) = dumps v" for k v
    using "9.IH"[of "(k, v)" k v "the (dumps v)"] def[of k v] by auto
  have om: "opt_map (\<lambda>(k, v). map_option (Pair k) (dumps v)) (map (\<lambda>(k, v). (k, json_norm v)) ?S)
      = Some (map (\<lambda>(k, v). (k, the (dumps v))) ?S)"
    using el by (auto simp: dumps_dict_texts) (use def in blast)
  have t: "t = 123 # join_comma (map member_text (map (\<lambda>(k, v). (k, the (dumps v))) ?S)) @ [125]"
    using "9.prems" by (auto simp: dumps_dict_texts sort_pairs_map)
  show ?case
    by (simp only: json_norm.simps dumps.simps sort_pairs_map om option.map sort_key_idem t)
qed (auto simp: opt_map_conv intro!: arg_cong[where f = join_comma], (metis option.sel)+)

lemma join_comma_ascii: "\<forall>t \<in> set ts. is_ascii t \<Longrightarrow> is_ascii (join_comma ts)"
  by (induction ts rule: join_comma.induct) auto

lemma decimal_ascii: "decimal_text r \<Longrightarrow> is_ascii r"
  by (auto simp: decimal_text_def is_ascii_def is_digit_def list_all_iff) fastforce+

lemma dumps_ascii_with:
  assumes F: "\<And>r. F r \<Longrightarrow> decimal_text r"
  shows "dumps v = Some t \<Longrightarrow> json_with F v \<Longrightarrow> is_ascii t"
proof (induction v arbitrary: t rule: json_ok.induct)
  case (9 kvs)
  have "is_ascii (the (dumps v))" if "(k, v) \<in> set kvs" for k v
    using "9.IH"[of "(k, v)" k v "the (dumps v)"] "9.prems" that by (fastforce simp: dumps_dict_texts list_all_iff)
  then have "is_ascii (join_comma (map member_text (sort_key fst (map (\<lambda>(k, v). (k, the (dumps v))) kvs))))"
    by (intro join_comma_ascii) (auto simp: member_text_def)
  with "9.prems" show ?case by (auto simp: dumps_dict_texts)
qed (auto simp: lit_words opt_map_conv list_all_iff int_text_ascii decimal_ascii F intro!: join_comma_ascii split: if_splits)

lemma dumps_ascii: "dumps v = Some t \<Longrightarrow> json_ok v \<Longrightarrow> is_ascii t"
  using dumps_ascii_with[of "\<lambda>_. False" v t] json_ok_with[of v "\<lambda>_. False"] by blast

section \<open>The fuel never decides a result\<close>

lemma skip_ws_length: "length (skip_ws s) \<le> length s"
  by (simp add: skip_ws_def length_dropWhile_le)

lemma scan_string_length: "scan_string s = Inr (t, r) \<Longrightarrow> length r < length s"
proof (induction s arbitrary: t r rule: scan_string.induct)
  case (2 c cs)
  then show ?case
    by (auto simp: cons_first_def result_simps split: if_splits list.splits option.splits
        dest!: hex4_length low_escape_length; fastforce)
qed simp

lemma scan_number_length: "scan_number J s = Inr (v, r) \<Longrightarrow> length r < length s"
proof -
  assume a: "scan_number J s = Inr (v, r)"
  have dw: "length (dropWhile is_digit x) \<le> length x" for x by (simp add: length_dropWhile_le)
  have ip: "scan_int_part x = (ip, y) \<Longrightarrow> ip \<noteq> [] \<Longrightarrow> length y < length x" for x ip y
    using dw[of "tl x"] by (auto simp: scan_int_part_def split: list.splits if_splits)
  have fp: "scan_fraction x = (fp, y) \<Longrightarrow> length y \<le> length x" for x fp y
    using dw[of "tl x"] by (auto simp: scan_fraction_def split: list.splits if_splits)
  have sg: "scan_sign x = (sg, y) \<Longrightarrow> length y \<le> length x" for x sg y
    by (auto simp: scan_sign_def split: list.splits if_splits)
  have ep: "scan_exponent x = (ep, y) \<Longrightarrow> length y \<le> length x" for x ep y
    by (auto simp: scan_exponent_def split: list.splits if_splits prod.splits
        dest!: sg) (meson dw le_SucI le_trans)+
  from a show ?thesis
    by (auto simp: scan_number_def split: prod.splits if_splits list.splits dest!: ip fp ep)
qed

lemma starts_with_length: "starts_with p s \<Longrightarrow> length p \<le> length s"
  unfolding starts_with_def by (metis length_take min.cobounded1)

lemma scan_word_length: "scan_word J s = Inr (v, r) \<Longrightarrow> length r < length s"
  by (auto simp: scan_word_def result_simps split: if_splits dest!: starts_with_length scan_number_length)

lemma parse_lengths:
  "(\<forall>s v r. parse_value J n s = Inr (v, r) \<longrightarrow> length r < length s)
   \<and> (\<forall>s vs r. parse_elements J n s = Inr (vs, r) \<longrightarrow> length r < length s)
   \<and> (\<forall>s kvs r. parse_members J n s = Inr (kvs, r) \<longrightarrow> length r < length s)"
proof (induction n)
  case (Suc n)
  have IV: "parse_value J n x = Inr (v, r) \<Longrightarrow> length r < length x"
    and IE: "parse_elements J n x = Inr (vs, r) \<Longrightarrow> length r < length x"
    and IM: "parse_members J n x = Inr (kvs, r) \<Longrightarrow> length r < length x" for x v vs kvs r
    using Suc.IH by blast+
  have w: "skip_ws x = c # y \<Longrightarrow> length y < length x" for x c y
    using skip_ws_length[of x] by auto
  have v: "parse_value J (Suc n) s = Inr (v, r) \<Longrightarrow> length r < length s" for s v r
    by (auto simp: result_simps split: list.splits if_splits prod.splits
        dest!: scan_string_length scan_word_length w)
      (use IE IM in \<open>fastforce\<close>)+
  have e: "length r < length s" if a: "parse_elements J (Suc n) s = Inr (vs, r)" for s vs r
  proof -
    from a obtain v r1 where pv: "parse_value J n s = Inr (v, r1)"
      by (auto simp: rbind_eq_Inr)
    then obtain c r2 where r2: "skip_ws r1 = c # r2"
      and r: "r = r2 \<or> (\<exists>vs'. parse_elements J n (skip_ws r2) = Inr (vs', r))"
      using a by (cases "skip_ws r1") (auto simp: rbind_eq_Inr split: if_splits prod.splits)
    have "length r2 < length s" using IV[OF pv] w[OF r2] by simp
    with r show ?thesis using IE[of "skip_ws r2"] skip_ws_length[of r2] by fastforce
  qed
  have m: "length r < length s" if a: "parse_members J (Suc n) s = Inr (kvs, r)" for s kvs r
  proof -
    from a obtain cs k r0 where s: "s = 34 # cs" and k: "scan_string cs = Inr (k, r0)"
      by (cases s) (auto simp: rbind_eq_Inr split: if_splits)
    then obtain r1 v r2 where r1: "skip_ws r0 = 58 # r1" and pv: "parse_value J n (skip_ws r1) = Inr (v, r2)"
      using a by (cases "skip_ws r0") (auto simp: rbind_eq_Inr split: if_splits)
    then obtain d r3 where r3: "skip_ws r2 = d # r3"
      and r: "r = r3 \<or> (\<exists>kvs'. parse_members J n (skip_ws r3) = Inr (kvs', r))"
      using a s k by (cases "skip_ws r2") (auto simp: rbind_eq_Inr split: if_splits prod.splits)
    have "length r1 < length s" using scan_string_length[OF k] w[OF r1] s by simp
    with IV[OF pv] w[OF r3] skip_ws_length[of r1] have "length r3 < length s" by linarith
    with r show ?thesis using IM[of "skip_ws r3"] skip_ws_length[of r3] by fastforce
  qed
  from v e m show ?case by blast
qed simp

lemmas parse_value_length = parse_lengths[THEN conjunct1, rule_format]
lemmas parse_elements_length = parse_lengths[THEN conjunct2, THEN conjunct1, rule_format]

lemma parse_fuel:
  "(\<forall>s m. 2 * length s + 1 \<le> n \<longrightarrow> n \<le> m \<longrightarrow> parse_value J m s = parse_value J n s)
   \<and> (\<forall>s m. 2 * length s + 2 \<le> n \<longrightarrow> n \<le> m \<longrightarrow> parse_elements J m s = parse_elements J n s)
   \<and> (\<forall>s m. 2 * length s + 2 \<le> n \<longrightarrow> n \<le> m \<longrightarrow> parse_members J m s = parse_members J n s)"
proof (induction n)
  case (Suc n)
  have IV: "2 * length x + 1 \<le> n \<Longrightarrow> n \<le> k \<Longrightarrow> parse_value J k x = parse_value J n x"
    and IE: "2 * length x + 2 \<le> n \<Longrightarrow> n \<le> k \<Longrightarrow> parse_elements J k x = parse_elements J n x"
    and IM: "2 * length x + 2 \<le> n \<Longrightarrow> n \<le> k \<Longrightarrow> parse_members J k x = parse_members J n x" for x k
    using Suc.IH by blast+
  have w: "length (skip_ws x) \<le> length x" "skip_ws x = c # y \<Longrightarrow> length y < length x" for x c y
    using skip_ws_length[of x] by auto
  have v: "parse_value J m s = parse_value J (Suc n) s"
    if l: "2 * length s + 1 \<le> Suc n" and nm: "Suc n \<le> m" for s m
  proof -
    from nm obtain k where m: "m = Suc k" and k: "n \<le> k" by (cases m) auto
    show ?thesis
    proof (cases s)
      case (Cons c cs)
      with l w(1)[of cs] have "2 * length (skip_ws cs) + 2 \<le> n" by simp
      from IE[OF this k] IM[OF this k] show ?thesis
        by (cases "skip_ws cs") (simp_all add: m Cons)
    qed (simp add: m)
  qed
  have e: "parse_elements J m s = parse_elements J (Suc n) s"
    if l: "2 * length s + 2 \<le> Suc n" and nm: "Suc n \<le> m" for s m
  proof -
    from nm obtain k where m: "m = Suc k" and k: "n \<le> k" by (cases m) auto
    have pv: "parse_value J k s = parse_value J n s" by (rule IV[OF _ k]) (use l in simp)
    have "parse_elements J k (skip_ws y) = parse_elements J n (skip_ws y)"
      if "parse_value J n s = Inr (v, r)" "skip_ws r = c # y" for v r c y
      using parse_value_length[OF that(1)] w(2)[OF that(2)] w(1)[of y] l by (intro IE k) linarith
    note rec = this
    show ?thesis
      unfolding m parse_elements.simps pv
    proof (rule rbind_cong[OF refl], goal_cases)
      case (1 x)
      obtain v r where x: "x = (v, r)" by force
      show ?case
      proof (cases "skip_ws r")
        case (Cons c y)
        from rec[OF 1[unfolded x] this] show ?thesis by (simp add: x Cons)
      qed (simp add: x)
    qed
  qed
  have m: "parse_members J m s = parse_members J (Suc n) s"
    if l: "2 * length s + 2 \<le> Suc n" and nm: "Suc n \<le> m" for s m
  proof -
    from nm obtain k where m: "m = Suc k" and k: "n \<le> k" by (cases m) auto
    have pv: "parse_value J k (skip_ws y) = parse_value J n (skip_ws y)"
      if "s = q # cs" "scan_string cs = Inr (t, r)" "skip_ws r = c # y" for q cs t r c y
      using scan_string_length[OF that(2)] w(2)[OF that(3)] w(1)[of y] l that(1)
      by (intro IV k) simp
    have pm: "parse_members J k (skip_ws y') = parse_members J n (skip_ws y')"
      if "s = q # cs" "scan_string cs = Inr (t, r)" "skip_ws r = c # y"
        "parse_value J n (skip_ws y) = Inr (v, r')" "skip_ws r' = c' # y'" for q cs t r c y v r' c' y'
      using scan_string_length[OF that(2)] w(2)[OF that(3)] w(1)[of y] l that(1)
        parse_value_length[OF that(4)] w(2)[OF that(5)] w(1)[of y']
      by (intro IM k) simp
    show ?thesis
    proof (cases s)
      case (Cons q cs)
      have "rbind (scan_string cs) (\<lambda>(t, r). case skip_ws r of [] \<Rightarrow> decode_error | c # y \<Rightarrow>
            if c \<noteq> 58 then decode_error else
            rbind (parse_value J k (skip_ws y)) (F k t)) =
          rbind (scan_string cs) (\<lambda>(t, r). case skip_ws r of [] \<Rightarrow> decode_error | c # y \<Rightarrow>
            if c \<noteq> 58 then decode_error else
            rbind (parse_value J n (skip_ws y)) (F n t))"
        if F: "\<And>t r c y x. scan_string cs = Inr (t, r) \<Longrightarrow> skip_ws r = c # y \<Longrightarrow>
            parse_value J n (skip_ws y) = Inr x \<Longrightarrow> F k t x = F n t x"
        for F :: "nat \<Rightarrow> pystr \<Rightarrow> pyval \<times> pystr \<Rightarrow> ((pystr \<times> pyval) list \<times> pystr) result"
      proof (rule rbind_cong[OF refl], goal_cases)
        case (1 x)
        obtain t r where x: "x = (t, r)" by force
        show ?case
        proof (cases "skip_ws r")
          case C: (Cons c y)
          from pv[OF Cons 1[unfolded x] C] F[OF 1[unfolded x] C] show ?thesis
            by (simp add: x C) (metis rbind_cong)
        qed (simp add: x)
      qed
      note outer = this
      show ?thesis unfolding m Cons parse_members.simps list.case
        by (rule if_cong[OF refl refl], rule outer)
          (auto split: list.splits, subst pm[OF Cons], assumption+, rule refl)
    qed (simp add: m)
  qed
  from v e m show ?case by blast
qed simp

text \<open>Any two amounts of fuel of at least \<open>2 * length s + 1\<close> give the same outcome.\<close>

lemma parse_value_fuel:
  "2 * length s + 1 \<le> n \<Longrightarrow> 2 * length s + 1 \<le> m \<Longrightarrow> parse_value J m s = parse_value J n s"
  using parse_fuel[of "2 * length s + 1" J] by (metis order_refl)

section \<open>What a reader can return\<close>

text \<open>A predicate that holds of scalars and that lists and the hooks keep holds of every value read.\<close>

definition hook_closed :: "json_hooks \<Rightarrow> (pyval \<Rightarrow> bool) \<Rightarrow> bool" where
  "hook_closed J Q \<longleftrightarrow>
     Q PNone \<and> (\<forall>b. Q (PBool b)) \<and> (\<forall>i. Q (PInt i)) \<and> (\<forall>r. Q (PFloat r)) \<and> (\<forall>s. Q (PStr s))
   \<and> (\<forall>vs. list_all Q vs \<longrightarrow> Q (PList vs))
   \<and> (\<forall>c v. jh_const J c = Inr v \<longrightarrow> Q v)
   \<and> (\<forall>kvs v. list_all (\<lambda>kv. Q (snd kv)) kvs \<longrightarrow> jh_pairs J kvs = Inr v \<longrightarrow> Q v)"

lemma scan_word_closed: "hook_closed J Q \<Longrightarrow> scan_word J s = Inr (v, r) \<Longrightarrow> Q v"
  by (auto simp: scan_word_def scan_number_def hook_closed_def result_simps split: if_splits prod.splits)

lemma parse_closed:
  assumes Q: "hook_closed J Q"
  shows "(\<forall>s v r. parse_value J n s = Inr (v, r) \<longrightarrow> Q v)
   \<and> (\<forall>s vs r. parse_elements J n s = Inr (vs, r) \<longrightarrow> list_all Q vs)
   \<and> (\<forall>s kvs r. parse_members J n s = Inr (kvs, r) \<longrightarrow> list_all (\<lambda>kv. Q (snd kv)) kvs)"
proof (induction n)
  case (Suc n)
  have IV: "parse_value J n x = Inr (v, r) \<Longrightarrow> Q v"
    and IE: "parse_elements J n x = Inr (vs, r) \<Longrightarrow> list_all Q vs"
    and IM: "parse_members J n x = Inr (kvs, r) \<Longrightarrow> list_all (\<lambda>kv. Q (snd kv)) kvs" for x v vs kvs r
    using Suc.IH by blast+
  have L: "list_all Q vs \<Longrightarrow> Q (PList vs)" and D: "list_all (\<lambda>kv. Q (snd kv)) kvs \<Longrightarrow> jh_pairs J kvs = Inr v \<Longrightarrow> Q v"
    and S: "Q (PStr t)" for vs kvs v t
    using Q by (auto simp: hook_closed_def)
  have D0: "jh_pairs J [] = Inr v \<Longrightarrow> Q v" for v using D[of "[]"] by simp
  have v: "Q v" if a: "parse_value J (Suc n) s = Inr (v, r)" for s v r
  proof (cases s)
    case (Cons c cs)
    with a show ?thesis
      by (cases "skip_ws cs")
        (auto simp: rbind_eq_Inr S L dest: IE IM scan_word_closed[OF Q] intro: D D0 split: if_splits prod.splits)
  qed (use a in simp)
  have e: "list_all Q vs" if a: "parse_elements J (Suc n) s = Inr (vs, r)" for s vs r
  proof -
    from a obtain w r1 where pv: "parse_value J n s = Inr (w, r1)" by (auto simp: rbind_eq_Inr)
    with a show ?thesis
      by (cases "skip_ws r1") (auto simp: rbind_eq_Inr dest: IV IE split: if_splits prod.splits)
  qed
  have m: "list_all (\<lambda>kv. Q (snd kv)) kvs" if a: "parse_members J (Suc n) s = Inr (kvs, r)" for s kvs r
  proof -
    from a obtain cs k r0 where s: "s = 34 # cs" and k: "scan_string cs = Inr (k, r0)"
      by (cases s) (auto simp: rbind_eq_Inr split: if_splits)
    then obtain r1 w r2 where r1: "skip_ws r0 = 58 # r1" and pv: "parse_value J n (skip_ws r1) = Inr (w, r2)"
      using a by (cases "skip_ws r0") (auto simp: rbind_eq_Inr split: if_splits)
    with a s k show ?thesis
      by (cases "skip_ws r2") (auto simp: rbind_eq_Inr dest: IV IM split: if_splits prod.splits)
  qed
  from v e m show ?case by blast
qed simp

lemma json_loads_closed: "hook_closed J Q \<Longrightarrow> json_loads J s = Inr v \<Longrightarrow> Q v"
  using parse_closed[of J Q "2 * length (skip_ws s) + 2"]
  by (auto simp: json_loads_def Let_def rbind_eq_Inr split: if_splits)

section \<open>The text of a dict depends on its contents only\<close>

lemma sort_pairs_eq:
  assumes "distinct (map fst xs)" "distinct (map fst ys)" "set xs = set ys"
  shows "sort_key fst xs = sort_key fst ys"
proof -
  have d: "distinct xs" "distinct ys" using assms(1,2) by (auto simp: distinct_map)
  have "mset xs = mset ys" using d assms(3) by (simp add: set_eq_iff_mset_eq_distinct)
  moreover have "inj_on fst (set xs)" using assms(1) by (simp add: distinct_map)
  ultimately show ?thesis
    by (intro sort_key_inj_key_eq) simp_all
qed

lemma map_of_map_snd: "map_of (map (\<lambda>(k, v). (k, f v)) xs) k = map_option f (map_of xs k)"
  by (induction xs) auto

lemma dumps_dict_cong:
  assumes "distinct (map fst a)" "distinct (map fst b)"
    and eq: "\<And>k. map_option dumps (map_of a k) = map_option dumps (map_of b k)"
  shows "dumps (PDict a) = dumps (PDict b)"
proof -
  let ?ts = "\<lambda>d. map (\<lambda>(k, v). (k, dumps v)) d"
  have m: "map_of (?ts a) = map_of (?ts b)"
    by (rule ext) (simp add: map_of_map_snd eq)
  have dist: "distinct (map fst (?ts a))" "distinct (map fst (?ts b))"
    using assms(1,2) by (simp_all add: comp_def json_norm_pair_fst)
  have set: "set (?ts a) = set (?ts b)"
    using m dist by (metis map_of_inject_set)
  have tx: "opt_map (\<lambda>(k, v). map_option (Pair k) (dumps v)) d
      = opt_map (\<lambda>(k, t). map_option (Pair k) t) (?ts d)" for d :: "(pystr \<times> pyval) list"
    by (induction d) (auto split: option.splits)
  have none: "opt_map (\<lambda>(k, t). map_option (Pair k) t) x = None \<longleftrightarrow> (\<exists>k. (k, None) \<in> set x)"
    for x :: "(pystr \<times> pystr option) list"
    by (induction x) (auto split: option.splits)
  have some: "opt_map (\<lambda>(k, t). map_option (Pair k) t) x = Some y \<Longrightarrow> y = map (\<lambda>(k, t). (k, the t)) x"
    for x :: "(pystr \<times> pystr option) list" and y
    by (induction x arbitrary: y) (auto split: option.splits)
  show ?thesis
  proof (cases "opt_map (\<lambda>(k, t). map_option (Pair k) t) (?ts a)")
    case None
    then have "opt_map (\<lambda>(k, t). map_option (Pair k) t) (?ts b) = None" by (metis none set)
    with None show ?thesis by (simp add: tx)
  next
    case (Some ya)
    then have "opt_map (\<lambda>(k, t). map_option (Pair k) t) (?ts b) \<noteq> None" by (metis none option.distinct(1) set)
    then obtain yb where yb: "opt_map (\<lambda>(k, t). map_option (Pair k) t) (?ts b) = Some yb" by auto
    have "sort_key fst ya = sort_key fst yb"
      unfolding some[OF Some] some[OF yb]
    proof (rule sort_pairs_eq)
      show "set (map (\<lambda>(k, t). (k, the t)) (?ts a)) = set (map (\<lambda>(k, t). (k, the t)) (?ts b))"
        unfolding set_map[of _ "?ts _"] by (simp only: set)
    qed (use assms(1,2) in \<open>simp_all add: comp_def json_norm_pair_fst\<close>)
    with Some yb show ?thesis by (simp add: tx)
  qed
qed

end
