(* ===== verification/Platform.thy ===== *)
theory Platform
  imports PyJson
begin

text \<open>
  The primitives the service calls and does not define, as one record the definitions take as
  their first argument: SHA-256, the four Ed25519 operations of the package \<open>cryptography\<close>, and
  CPython's conversion of a float literal to its \<open>repr\<close>. HMAC is \<open>hmac.new(key, msg, sha256)\<close>
  of RFC 2104 over the record's hash. What the properties need of them is stated as the named
  hypotheses \<open>hash_ok\<close> (a digest has 32 bytes) and \<open>ed25519_ok\<close> (sizes, and that a public key
  accepts what its private half signed).
\<close>

record platform =
  sha256 :: "bytes \<Rightarrow> bytes"
  ed25519_public :: "bytes \<Rightarrow> bytes"
  ed25519_sign :: "bytes \<Rightarrow> bytes \<Rightarrow> bytes"
  ed25519_verify :: "bytes \<Rightarrow> bytes \<Rightarrow> bytes \<Rightarrow> bool"
  ed25519_valid_public :: "bytes \<Rightarrow> bool"
  float_repr :: "pystr \<Rightarrow> pystr"

unbundle bit_operations_syntax

definition hmac_pad :: "platform \<Rightarrow> bytes \<Rightarrow> bytes" where
  "hmac_pad P key = (let k = (if length key > 64 then sha256 P key else key) in k @ replicate (64 - length k) 0)"

definition hmac_sha256 :: "platform \<Rightarrow> bytes \<Rightarrow> bytes \<Rightarrow> bytes" where
  "hmac_sha256 P key msg =
     sha256 P (map (\<lambda>b. b XOR 0x5C) (hmac_pad P key) @ sha256 P (map (\<lambda>b. b XOR 0x36) (hmac_pad P key) @ msg))"

text \<open>\<open>hashlib.sha256(data).hexdigest()\<close>.\<close>

definition sha256_hex :: "platform \<Rightarrow> bytes \<Rightarrow> pystr" where
  "sha256_hex P data = bytes_hex (sha256 P data)"

definition hash_ok :: "platform \<Rightarrow> bool" where
  "hash_ok P \<longleftrightarrow> (\<forall>m. length (sha256 P m) = 32)"

definition ed25519_ok :: "platform \<Rightarrow> bool" where
  "ed25519_ok P \<longleftrightarrow>
     (\<forall>seed m. length (ed25519_sign P seed m) = 64
        \<and> ed25519_verify P (ed25519_public P seed) m (ed25519_sign P seed m))
   \<and> (\<forall>seed. length (ed25519_public P seed) = 32 \<and> ed25519_valid_public P (ed25519_public P seed))"

lemma sha256_hex_digest [simp]: "hash_ok P \<Longrightarrow> is_digest (sha256_hex P m)"
  by (simp add: sha256_hex_def hash_ok_def bytes_hex_digest)

lemma sha256_hex_ascii [simp]: "is_ascii (sha256_hex P m)"
  by (simp add: sha256_hex_def)

lemma sha256_hex_inject: "sha256_hex P a = sha256_hex P b \<longleftrightarrow> sha256 P a = sha256 P b"
  by (simp add: sha256_hex_def)

lemma sha256_hex_nonempty: "hash_ok P \<Longrightarrow> sha256_hex P m \<noteq> []"
  using sha256_hex_digest[of P m] by (auto simp: is_digest_def hex_string_def)

lemma sign_hex_signature: "ed25519_ok P \<Longrightarrow> is_signature (bytes_hex (ed25519_sign P seed m))"
  by (simp add: ed25519_ok_def bytes_hex_signature)

lemma sign_verifies: "ed25519_ok P \<Longrightarrow> ed25519_verify P (ed25519_public P seed) m (ed25519_sign P seed m)"
  by (simp add: ed25519_ok_def)

text \<open>One platform that meets the hypotheses, for the witnesses.\<close>

definition sample_platform :: platform where
  "sample_platform =
     \<lparr>sha256 = (\<lambda>m. take 32 (m @ replicate 32 0)), ed25519_public = (\<lambda>seed. take 32 (seed @ replicate 32 0)),
      ed25519_sign = (\<lambda>seed m. replicate 64 7), ed25519_verify = (\<lambda>key m sig. sig = replicate 64 7),
      ed25519_valid_public = (\<lambda>key. length key = 32), float_repr = (\<lambda>r. r)\<rparr>"

lemma sample_platform_ok [simp]: "hash_ok sample_platform" "ed25519_ok sample_platform"
  by (auto simp: hash_ok_def ed25519_ok_def sample_platform_def)

end
