(* ===== verification/Contracts.thy ===== *)
theory Contracts
  imports Platform
begin

text \<open>
  \<open>geniusnew/contracts.py\<close>: the signed handoff at the orchestrator-to-worker boundary.

  \<^item> \<open>canonical\<close> is the one JSON representation that is hashed and signed; \<open>decode_wire\<close> accepts
    bytes only when they are exactly that representation of an object with the expected keys.
  \<^item> \<open>Grant\<close>, \<open>Policy\<close>, \<open>Handoff\<close> are records; \<open>grant_post_init\<close> and \<open>policy_post_init\<close> are the
    checks their constructors run.
  \<^item> \<open>issue\<close> signs a handoff from trusted facts, \<open>from_object\<close> / \<open>validate\<close> /
    \<open>validate_pending\<close> check one against them.

  A parameter annotated \<open>Any\<close> in the source is a \<open>pyval\<close>; a parameter annotated with a concrete
  type has that type, so the guards that only re-check an annotation hold by typing.
\<close>

section \<open>Field checks\<close>

definition py_string :: "pyval \<Rightarrow> string \<Rightarrow> pystr result" where
  "py_string v field =
     (case v of
        PStr s \<Rightarrow> if s = [] then fail (field @ '' must be a non-empty string'') else Inr s
      | _ \<Rightarrow> fail (field @ '' must be a non-empty string''))"

definition subject_bytes :: "pyval \<Rightarrow> bytes result" where
  "subject_bytes v =
     rbind (py_string v ''subject'') (\<lambda>subject.
       case utf8_encode subject of
         Inl _ \<Rightarrow> fail ''subject must be valid UTF-8''
       | Inr b \<Rightarrow> Inr b)"

definition py_integer :: "pyval \<Rightarrow> string \<Rightarrow> int result" where
  "py_integer v field = (case v of PInt i \<Rightarrow> Inr i | _ \<Rightarrow> fail (field @ '' must be an integer''))"

definition string_items :: "string \<Rightarrow> pyval list \<Rightarrow> pystr list result" where
  "string_items field vs =
     (if vs = [] then fail (field @ '' must be a non-empty list of strings'')
      else rbind (rmap (\<lambda>item. py_string item field) vs) (\<lambda>result.
        if \<not> distinct result then fail (field @ '' must not contain duplicates'') else Inr result))"

definition string_tuple :: "pyval \<Rightarrow> string \<Rightarrow> pystr list result" where
  "string_tuple v field =
     (case v of
        PTuple vs \<Rightarrow> string_items field vs
      | PList vs \<Rightarrow> string_items field vs
      | _ \<Rightarrow> fail (field @ '' must be a non-empty list of strings''))"

definition canonical :: "pyval \<Rightarrow> bytes result" where
  "canonical v =
     (case dumps v of None \<Rightarrow> fail ''value is not canonical JSON'' | Some t \<Rightarrow> Inr (ascii_bytes t))"

text \<open>\<open>value[field]\<close>.\<close>

definition get_item :: "(pystr \<times> pyval) list \<Rightarrow> string \<Rightarrow> pyval result" where
  "get_item d k = (case map_of d (lit k) of None \<Rightarrow> Inl (PyError ''KeyError'') | Some v \<Rightarrow> Inr v)"

definition payload :: "pyval \<Rightarrow> pyval result" where
  "payload v =
     (case v of
        PDict kvs \<Rightarrow>
          if set (map fst kvs) \<noteq> {lit ''text''} then fail ''payload must contain only text''
          else rbind (get_item kvs ''text'') (\<lambda>text.
            case text of
              PStr s \<Rightarrow> if s = [] then fail ''payload text must be a non-empty string''
                        else Inr (PDict [(lit ''text'', PStr s)])
            | _ \<Rightarrow> fail ''payload text must be a non-empty string'')
      | _ \<Rightarrow> fail ''payload must contain only text'')"

section \<open>Signing roles\<close>

record handoff_verifier =
  hv_public_key :: bytes

record handoff_signer =
  hs_signing_key :: bytes
  hs_verifier :: handoff_verifier

definition handoff_signing_label :: bytes where
  "handoff_signing_label = ascii_bytes (lit ''geniusnew/handoff-signing/ed25519/v1'')"

definition handoff_verifier_init :: "platform \<Rightarrow> bytes \<Rightarrow> handoff_verifier result" where
  "handoff_verifier_init P public_key =
     (if length public_key \<noteq> 32 then fail ''public_key must be 32 bytes''
      else if \<not> ed25519_valid_public P public_key then fail ''public_key is not an Ed25519 public key''
      else Inr \<lparr>hv_public_key = public_key\<rparr>)"

definition handoff_verifies :: "platform \<Rightarrow> handoff_verifier \<Rightarrow> bytes \<Rightarrow> bytes \<Rightarrow> bool" where
  "handoff_verifies P v message signature = ed25519_verify P (hv_public_key v) message signature"

definition handoff_signer_init :: "platform \<Rightarrow> bytes \<Rightarrow> handoff_signer result" where
  "handoff_signer_init P integrity_key =
     (if length integrity_key < 32 then fail ''integrity_key must be at least 32 bytes''
      else
        let seed = hmac_sha256 P integrity_key handoff_signing_label
        in rbind (handoff_verifier_init P (ed25519_public P seed)) (\<lambda>v.
             Inr \<lparr>hs_signing_key = seed, hs_verifier = v\<rparr>))"

definition handoff_sign :: "platform \<Rightarrow> handoff_signer \<Rightarrow> bytes \<Rightarrow> bytes" where
  "handoff_sign P s message = ed25519_sign P (hs_signing_key s) message"

text \<open>A caller may hand over the signer where a verifier is expected; its public half is used.\<close>

datatype verifier_arg = Signer handoff_signer | Verifier handoff_verifier | NotAVerifier

definition as_verifier :: "verifier_arg \<Rightarrow> handoff_verifier result" where
  "as_verifier a =
     (case a of
        Signer s \<Rightarrow> Inr (hs_verifier s)
      | Verifier v \<Rightarrow> Inr v
      | NotAVerifier \<Rightarrow> fail ''verifier must be a HandoffVerifier'')"

definition handoff_signature :: "platform \<Rightarrow> pyval \<Rightarrow> handoff_signer \<Rightarrow> pystr result" where
  "handoff_signature P v s = rbind (canonical v) (\<lambda>m. Inr (bytes_hex (handoff_sign P s m)))"

section \<open>Grants and policies\<close>

record grant =
  g_subject :: pystr
  g_user_id :: pystr
  g_worker_agent_id :: pystr
  g_tier :: pystr
  g_tools :: "pystr list"
  g_sandbox_profile :: pystr
  g_requires_approval :: bool

definition grant_post_init :: "grant \<Rightarrow> grant result" where
  "grant_post_init g =
     rbind (subject_bytes (PStr (g_subject g))) (\<lambda>_.
     rbind (py_string (PStr (g_user_id g)) ''user_id'') (\<lambda>_.
     rbind (py_string (PStr (g_worker_agent_id g)) ''worker_agent_id'') (\<lambda>_.
     rbind (py_string (PStr (g_tier g)) ''tier'') (\<lambda>_.
     rbind (py_string (PStr (g_sandbox_profile g)) ''sandbox_profile'') (\<lambda>_.
     rbind (string_tuple (PTuple (map PStr (g_tools g))) ''tools'') (\<lambda>tools.
     Inr (g\<lparr>g_tools := tools\<rparr>)))))))"

record policy =
  p_version :: pystr
  p_orchestrator_id :: pystr
  p_handoff_ttl_seconds :: int
  p_allowed_tools :: "pystr list"
  p_allowed_sandbox_profiles :: "pystr list"
  p_grants :: "grant list"

definition policy_post_init :: "policy \<Rightarrow> policy result" where
  "policy_post_init p =
     rbind (py_string (PStr (p_version p)) ''version'') (\<lambda>_.
     rbind (py_string (PStr (p_orchestrator_id p)) ''orchestrator_id'') (\<lambda>_.
     rbind (py_integer (PInt (p_handoff_ttl_seconds p)) ''handoff_ttl_seconds'') (\<lambda>ttl.
     if ttl \<le> 0 \<or> ttl > 300 then fail ''handoff_ttl_seconds must be between 1 and 300'' else
     rbind (string_tuple (PTuple (map PStr (p_allowed_tools p))) ''allowed_tools'') (\<lambda>tools.
     rbind (string_tuple (PTuple (map PStr (p_allowed_sandbox_profiles p))) ''allowed_sandbox_profiles'') (\<lambda>profiles.
     if p_grants p = [] then fail ''grants must be a non-empty collection'' else
     if \<not> distinct (map g_subject (p_grants p)) then fail ''grants must have unique subjects'' else
     rbind (reach (\<lambda>g. if \<not> set (g_tools g) \<subseteq> set tools \<or> g_sandbox_profile g \<notin> set profiles
                       then fail ''grant exceeds policy allow-lists'' else Inr ()) (p_grants p)) (\<lambda>_.
     Inr (p\<lparr>p_allowed_tools := tools, p_allowed_sandbox_profiles := profiles\<rparr>)))))))"

fun find_grant :: "grant list \<Rightarrow> bytes \<Rightarrow> grant result" where
  "find_grant [] b = fail ''subject is not authorized''"
| "find_grant (g # gs) b =
     rbind (subject_bytes (PStr (g_subject g))) (\<lambda>gb. if gb = b then Inr g else find_grant gs b)"

definition grant_for :: "policy \<Rightarrow> pystr \<Rightarrow> grant result" where
  "grant_for p subject = rbind (subject_bytes (PStr subject)) (find_grant (p_grants p))"

text \<open>The objects the constructors let exist.\<close>

definition valid_grant :: "grant \<Rightarrow> bool" where
  "valid_grant g \<longleftrightarrow> grant_post_init g = Inr g"

definition valid_policy :: "policy \<Rightarrow> bool" where
  "valid_policy p \<longleftrightarrow> policy_post_init p = Inr p \<and> list_all valid_grant (p_grants p)"

section \<open>Handoffs\<close>

record handoff =
  h_version :: pystr
  h_job_id :: pystr
  h_user_id :: pystr
  h_orchestrator_id :: pystr
  h_worker_agent_id :: pystr
  h_tier :: pystr
  h_tools :: "pystr list"
  h_sandbox_profile :: pystr
  h_approval_state :: pystr
  h_policy_version :: pystr
  h_issued_at :: int
  h_expires_at :: int
  h_payload :: pyval
  h_payload_sha256 :: pystr
  h_signature :: pystr

definition VERSION :: pystr where "VERSION = lit ''geniusnew-handoff-v2''"
definition PENDING :: pystr where "PENDING = lit ''PENDING_APPROVAL''"
definition NOT_REQUIRED :: pystr where "NOT_REQUIRED = lit ''NOT_REQUIRED''"
definition MAX_WIRE_BYTES :: nat where "MAX_WIRE_BYTES = 16 * 1024"
definition MAX_WIRE_DEPTH :: int where "MAX_WIRE_DEPTH = 4"

definition HANDOFF_KEYS :: "string list" where
  "HANDOFF_KEYS =
     [''version'', ''job_id'', ''user_id'', ''orchestrator_id'', ''worker_agent_id'', ''tier'', ''tools'',
      ''sandbox_profile'', ''approval_state'', ''policy_version'', ''issued_at'', ''expires_at'',
      ''payload'', ''payload_sha256'', ''signature'']"

definition handoff_dict :: "handoff \<Rightarrow> (pystr \<times> pyval) list" where
  "handoff_dict h =
     [(lit ''version'', PStr (h_version h)),
      (lit ''job_id'', PStr (h_job_id h)),
      (lit ''user_id'', PStr (h_user_id h)),
      (lit ''orchestrator_id'', PStr (h_orchestrator_id h)),
      (lit ''worker_agent_id'', PStr (h_worker_agent_id h)),
      (lit ''tier'', PStr (h_tier h)),
      (lit ''tools'', PList (map PStr (h_tools h))),
      (lit ''sandbox_profile'', PStr (h_sandbox_profile h)),
      (lit ''approval_state'', PStr (h_approval_state h)),
      (lit ''policy_version'', PStr (h_policy_version h)),
      (lit ''issued_at'', PInt (h_issued_at h)),
      (lit ''expires_at'', PInt (h_expires_at h)),
      (lit ''payload'', h_payload h),
      (lit ''payload_sha256'', PStr (h_payload_sha256 h)),
      (lit ''signature'', PStr (h_signature h))]"

definition handoff_to_bytes :: "handoff \<Rightarrow> bytes result" where
  "handoff_to_bytes h = canonical (PDict (handoff_dict h))"

section \<open>Decoding a wire\<close>

record depth_scan =
  ds_depth :: int
  ds_deepest :: int
  ds_in_string :: bool
  ds_escaped :: bool

definition depth_step :: "depth_scan \<Rightarrow> nat \<Rightarrow> depth_scan" where
  "depth_step st c =
     (if ds_in_string st then
        if ds_escaped st then st\<lparr>ds_escaped := False\<rparr>
        else if c = 92 then st\<lparr>ds_escaped := True\<rparr>
        else if c = 34 then st\<lparr>ds_in_string := False\<rparr>
        else st
      else if c = 34 then st\<lparr>ds_in_string := True\<rparr>
      else if c = 91 \<or> c = 123 then
        st\<lparr>ds_depth := ds_depth st + 1, ds_deepest := max (ds_deepest st) (ds_depth st + 1)\<rparr>
      else if c = 93 \<or> c = 125 then st\<lparr>ds_depth := ds_depth st - 1\<rparr>
      else st)"

definition wire_depth :: "pystr \<Rightarrow> int" where
  "wire_depth decoded =
     ds_deepest (foldl depth_step
       \<lparr>ds_depth = 0, ds_deepest = 0, ds_in_string = False, ds_escaped = False\<rparr> decoded)"

fun reject_duplicates :: "string \<Rightarrow> (pystr \<times> pyval) list \<Rightarrow> (pystr \<times> pyval) list \<Rightarrow> pyval result" where
  "reject_duplicates noun result [] = Inr (PDict result)"
| "reject_duplicates noun result ((key, value) # pairs) =
     (if key \<in> set (map fst result) then fail (noun @ '' JSON contains duplicate keys'')
      else reject_duplicates noun (result @ [(key, value)]) pairs)"

definition wire_hooks :: "platform \<Rightarrow> string \<Rightarrow> json_hooks" where
  "wire_hooks P noun =
     \<lparr>jh_pairs = reject_duplicates noun [],
      jh_const = (\<lambda>_. fail (noun @ '' JSON contains a non-finite value'')),
      jh_float = float_repr P\<rparr>"

definition decode_wire :: "platform \<Rightarrow> pyval \<Rightarrow> string list \<Rightarrow> string \<Rightarrow> (pystr \<times> pyval) list result" where
  "decode_wire P wire keys noun =
     (case wire of
        PBytes w \<Rightarrow>
          if w = [] \<or> length w > MAX_WIRE_BYTES
          then fail (noun @ '' wire must be a bounded, non-empty bytes value'') else
          rbind
            (case utf8_decode w of
               None \<Rightarrow> fail (noun @ '' wire is not valid JSON'')
             | Some decoded \<Rightarrow>
               if wire_depth decoded > MAX_WIRE_DEPTH then fail (noun @ '' JSON nests too deeply'')
               else
                 (case json_loads (wire_hooks P noun) decoded of
                    Inr v \<Rightarrow> Inr v
                  | Inl e \<Rightarrow> if is_contract_error e then Inl e else fail (noun @ '' wire is not valid JSON'')))
            (\<lambda>value.
               case value of
                 PDict kvs \<Rightarrow>
                   if set (map fst kvs) \<noteq> set (map lit keys) then fail (noun @ '' fields are not exact'') else
                   rbind (canonical value) (\<lambda>c.
                     if w \<noteq> c then fail (noun @ '' wire is not canonical JSON'') else Inr kvs)
               | _ \<Rightarrow> fail (noun @ '' wire must contain an object''))
      | _ \<Rightarrow> fail (noun @ '' wire must be a bounded, non-empty bytes value''))"

definition wire_object :: "platform \<Rightarrow> pyval \<Rightarrow> (pystr \<times> pyval) list result" where
  "wire_object P wire = decode_wire P wire HANDOFF_KEYS ''handoff''"

section \<open>Issuing and validating\<close>

text \<open>A check of one field of a decoded object.\<close>

definition string_item :: "(pystr \<times> pyval) list \<Rightarrow> string \<Rightarrow> pystr result" where
  "string_item d field = rbind (get_item d field) (\<lambda>v. py_string v field)"

definition without_signature :: "(pystr \<times> pyval) list \<Rightarrow> (pystr \<times> pyval) list" where
  "without_signature d = filter (\<lambda>(k, _). k \<noteq> lit ''signature'') d"

definition approval_state_of :: "grant \<Rightarrow> pystr" where
  "approval_state_of g = (if g_requires_approval g then PENDING else NOT_REQUIRED)"

definition expected_fields :: "policy \<Rightarrow> grant \<Rightarrow> pystr \<Rightarrow> int \<Rightarrow> (string \<times> pyval) list" where
  "expected_fields p g job_id issued_at =
     [(''version'', PStr VERSION),
      (''job_id'', PStr job_id),
      (''user_id'', PStr (g_user_id g)),
      (''orchestrator_id'', PStr (p_orchestrator_id p)),
      (''worker_agent_id'', PStr (g_worker_agent_id g)),
      (''tier'', PStr (g_tier g)),
      (''tools'', PTuple (map PStr (g_tools g))),
      (''sandbox_profile'', PStr (g_sandbox_profile g)),
      (''approval_state'', PStr (approval_state_of g)),
      (''policy_version'', PStr (p_version p)),
      (''expires_at'', PInt (issued_at + p_handoff_ttl_seconds p))]"

definition match_expected :: "(pystr \<times> pyval) list \<Rightarrow> pystr list \<Rightarrow> (string \<times> pyval) \<Rightarrow> unit result" where
  "match_expected d tools fe =
     rbind (if fst fe = ''tools'' then Inr (PTuple (map PStr tools)) else get_item d (fst fe)) (\<lambda>actual.
       if actual \<noteq> snd fe then fail (''handoff '' @ fst fe @ '' does not match trusted policy'') else Inr ())"

definition from_object ::
  "platform \<Rightarrow> (pystr \<times> pyval) list \<Rightarrow> pystr \<Rightarrow> pystr \<Rightarrow> policy \<Rightarrow> verifier_arg \<Rightarrow> int \<Rightarrow> bool \<Rightarrow> handoff result" where
  "from_object P d subject job_id policy verifier now allow_pending =
     rbind (py_string (PStr job_id) ''job_id'') (\<lambda>_.
     rbind (py_integer (PInt now) ''now'') (\<lambda>now.
     rbind (as_verifier verifier) (\<lambda>verifier.
     rbind (grant_for policy subject) (\<lambda>grant.
     rbind (string_item d ''version'') (\<lambda>version.
     rbind (string_item d ''job_id'') (\<lambda>d_job_id.
     rbind (string_item d ''user_id'') (\<lambda>user_id.
     rbind (string_item d ''orchestrator_id'') (\<lambda>orchestrator_id.
     rbind (string_item d ''worker_agent_id'') (\<lambda>worker_agent_id.
     rbind (string_item d ''tier'') (\<lambda>tier.
     rbind (string_item d ''sandbox_profile'') (\<lambda>sandbox_profile.
     rbind (string_item d ''approval_state'') (\<lambda>approval_state.
     rbind (string_item d ''policy_version'') (\<lambda>policy_version.
     rbind (string_item d ''payload_sha256'') (\<lambda>payload_sha256.
     rbind (string_item d ''signature'') (\<lambda>signature.
     rbind (rbind (get_item d ''tools'') (\<lambda>v. string_tuple v ''tools'')) (\<lambda>tools.
     rbind (rbind (get_item d ''issued_at'') (\<lambda>v. py_integer v ''issued_at'')) (\<lambda>issued_at.
     rbind (rbind (get_item d ''expires_at'') (\<lambda>v. py_integer v ''expires_at'')) (\<lambda>expires_at.
     rbind (rbind (get_item d ''payload'') payload) (\<lambda>pl.
     rbind (canonical pl) (\<lambda>pl_bytes.
     rbind (compare_digest payload_sha256 (sha256_hex P pl_bytes)) (\<lambda>hash_matches.
     if \<not> hash_matches then fail ''payload hash does not match payload'' else
     rbind (if \<not> is_signature signature then Inr False
            else rbind (canonical (PDict (without_signature d))) (\<lambda>signed.
              case fromhex signature of
                None \<Rightarrow> value_error
              | Some sig \<Rightarrow> Inr (handoff_verifies P verifier signed sig))) (\<lambda>signature_valid.
     if \<not> signature_valid then fail ''handoff signature is invalid'' else
     rbind (reach (match_expected d tools) (expected_fields policy grant job_id issued_at)) (\<lambda>_.
     if issued_at > now \<or> now \<ge> expires_at then fail ''handoff is not currently valid'' else
     if approval_state = PENDING \<and> \<not> allow_pending
     then fail ''pending approval handoff cannot reach a worker'' else
     Inr \<lparr>h_version = version, h_job_id = d_job_id, h_user_id = user_id,
          h_orchestrator_id = orchestrator_id, h_worker_agent_id = worker_agent_id,
          h_tier = tier, h_tools = tools, h_sandbox_profile = sandbox_profile,
          h_approval_state = approval_state, h_policy_version = policy_version,
          h_issued_at = issued_at, h_expires_at = expires_at, h_payload = pl,
          h_payload_sha256 = payload_sha256, h_signature = signature\<rparr>)))))))))))))))))))))))"

definition issue_body :: "platform \<Rightarrow> policy \<Rightarrow> grant \<Rightarrow> pystr \<Rightarrow> int \<Rightarrow> pyval \<Rightarrow> bytes \<Rightarrow> (pystr \<times> pyval) list" where
  "issue_body P policy grant job_id now pl pl_bytes =
     [(lit ''version'', PStr VERSION),
      (lit ''job_id'', PStr job_id),
      (lit ''user_id'', PStr (g_user_id grant)),
      (lit ''orchestrator_id'', PStr (p_orchestrator_id policy)),
      (lit ''worker_agent_id'', PStr (g_worker_agent_id grant)),
      (lit ''tier'', PStr (g_tier grant)),
      (lit ''tools'', PList (map PStr (g_tools grant))),
      (lit ''sandbox_profile'', PStr (g_sandbox_profile grant)),
      (lit ''approval_state'', PStr (approval_state_of grant)),
      (lit ''policy_version'', PStr (p_version policy)),
      (lit ''issued_at'', PInt now),
      (lit ''expires_at'', PInt (now + p_handoff_ttl_seconds policy)),
      (lit ''payload'', pl),
      (lit ''payload_sha256'', PStr (sha256_hex P pl_bytes))]"

definition issue :: "platform \<Rightarrow> pyval \<Rightarrow> pystr \<Rightarrow> pystr \<Rightarrow> policy \<Rightarrow> handoff_signer \<Rightarrow> int \<Rightarrow> bytes result" where
  "issue P request subject job_id policy signer now =
     rbind (payload request) (\<lambda>pl.
     rbind (py_integer (PInt now) ''now'') (\<lambda>now.
     rbind (grant_for policy subject) (\<lambda>grant.
     rbind (py_string (PStr job_id) ''job_id'') (\<lambda>_.
     rbind (canonical pl) (\<lambda>pl_bytes.
     let body = issue_body P policy grant job_id now pl pl_bytes in
     rbind (handoff_signature P (PDict body) signer) (\<lambda>signature.
     rbind (canonical (PDict (body @ [(lit ''signature'', PStr signature)]))) (\<lambda>wire.
     if length wire > MAX_WIRE_BYTES then fail ''handoff wire must be a bounded, non-empty bytes value''
     else Inr wire)))))))"

definition validate :: "platform \<Rightarrow> pyval \<Rightarrow> pystr \<Rightarrow> pystr \<Rightarrow> policy \<Rightarrow> verifier_arg \<Rightarrow> int \<Rightarrow> handoff result" where
  "validate P wire subject job_id policy verifier now =
     rbind (wire_object P wire) (\<lambda>d. from_object P d subject job_id policy verifier now False)"

definition validate_pending :: "platform \<Rightarrow> pyval \<Rightarrow> pystr \<Rightarrow> pystr \<Rightarrow> policy \<Rightarrow> verifier_arg \<Rightarrow> int \<Rightarrow> handoff result" where
  "validate_pending P wire subject job_id policy verifier now =
     rbind (wire_object P wire) (\<lambda>d.
     rbind (from_object P d subject job_id policy verifier now True) (\<lambda>handoff.
     if h_approval_state handoff \<noteq> PENDING then fail ''handoff does not require approval'' else Inr handoff))"

section \<open>Field checks, inverted\<close>

lemma py_string_eq_Inr [result_simps]: "py_string v f = Inr s \<longleftrightarrow> v = PStr s \<and> s \<noteq> []"
  by (auto simp: py_string_def split: pyval.splits if_splits)

lemma py_integer_eq_Inr [result_simps]: "py_integer v f = Inr i \<longleftrightarrow> v = PInt i"
  by (auto simp: py_integer_def split: pyval.splits)

lemma py_string_PStr: "s \<noteq> [] \<Longrightarrow> py_string (PStr s) f = Inr s"
  by (simp add: py_string_def)

lemma py_integer_PInt [simp]: "py_integer (PInt i) f = Inr i"
  by (simp add: py_integer_def)

lemma list_all2_PStr: "list_all2 (\<lambda>v s. v = PStr s \<and> s \<noteq> []) vs ts \<longleftrightarrow> vs = map PStr ts \<and> [] \<notin> set ts"
proof (induction vs arbitrary: ts)
  case (Cons v vs)
  then show ?case by (cases ts) auto
qed auto

lemma string_items_eq_Inr:
  "string_items f vs = Inr ts \<longleftrightarrow> vs = map PStr ts \<and> ts \<noteq> [] \<and> distinct ts \<and> [] \<notin> set ts"
proof (cases "vs = []")
  case False
  then have "string_items f vs = Inr ts \<longleftrightarrow> (\<exists>r. rmap (\<lambda>item. py_string item f) vs = Inr r \<and> distinct r \<and> r = ts)"
    by (simp only: string_items_def if_False rbind_eq_Inr) (auto split: if_splits)
  with False show ?thesis
    by (simp only: rmap_eq_Inr py_string_eq_Inr list_all2_PStr) auto
qed (auto simp: string_items_def)

lemma string_tuple_eq_Inr [result_simps]:
  "string_tuple v f = Inr ts \<longleftrightarrow>
     (v = PTuple (map PStr ts) \<or> v = PList (map PStr ts)) \<and> ts \<noteq> [] \<and> distinct ts \<and> [] \<notin> set ts"
  by (auto simp: string_tuple_def string_items_eq_Inr split: pyval.splits)

lemma subject_bytes_eq_Inr [result_simps]:
  "subject_bytes v = Inr b \<longleftrightarrow> (\<exists>s. v = PStr s \<and> s \<noteq> [] \<and> utf8_encode s = Inr b)"
proof -
  have "(case utf8_encode s of Inl x \<Rightarrow> fail m | Inr b \<Rightarrow> Inr b) = Inr b \<longleftrightarrow> utf8_encode s = Inr b" for s m
    by (cases "utf8_encode s") simp_all
  then show ?thesis by (simp add: subject_bytes_def rbind_eq_Inr py_string_eq_Inr)
qed

lemma get_item_eq_Inr [result_simps]: "get_item d k = Inr v \<longleftrightarrow> map_of d (lit k) = Some v"
  by (auto simp: get_item_def split: option.splits)

lemma string_item_eq_Inr [result_simps]: "string_item d k = Inr s \<longleftrightarrow> map_of d (lit k) = Some (PStr s) \<and> s \<noteq> []"
  by (auto simp: string_item_def result_simps)

lemma canonical_eq_Inr: "canonical v = Inr b \<longleftrightarrow> (\<exists>t. dumps v = Some t \<and> b = ascii_bytes t)"
  by (auto simp: canonical_def split: option.splits)

lemma payload_eq_Inr [result_simps]:
  "payload v = Inr w \<longleftrightarrow>
     (\<exists>kvs s. v = PDict kvs \<and> set (map fst kvs) = {lit ''text''} \<and> map_of kvs (lit ''text'') = Some (PStr s)
        \<and> s \<noteq> [] \<and> w = PDict [(lit ''text'', PStr s)])"
proof (cases v)
  case (PDict kvs)
  have "(case t of PStr s \<Rightarrow> if s = [] then fail m else Inr (PDict [(k, PStr s)]) | _ \<Rightarrow> fail m) = Inr w
      \<longleftrightarrow> (\<exists>s. t = PStr s \<and> s \<noteq> [] \<and> w = PDict [(k, PStr s)])" for t m k
    by (cases t) auto
  with PDict show ?thesis by (auto simp: payload_def rbind_eq_Inr get_item_eq_Inr)
qed (simp_all add: payload_def)

lemma payload_text [simp]: "s \<noteq> [] \<Longrightarrow> payload (PDict [(lit ''text'', PStr s)]) = Inr (PDict [(lit ''text'', PStr s)])"
  by (auto simp: result_simps)

text \<open>UTF-8 is injective where it is defined, so two subjects with the same bytes are the same subject.\<close>

lemma as_verifier_simps [simp]: "as_verifier (Signer s) = Inr (hs_verifier s)" "as_verifier (Verifier v) = Inr v"
  by (simp_all add: as_verifier_def)

lemma handoff_signer_init_eq_Inr:
  "handoff_signer_init P key = Inr s \<Longrightarrow>
     hv_public_key (hs_verifier s) = ed25519_public P (hs_signing_key s)"
  by (auto simp: handoff_signer_init_def handoff_verifier_init_def Let_def result_simps split: if_splits)

section \<open>The depth scan measures the nesting of the value\<close>

fun json_depth :: "pyval \<Rightarrow> int" where
  "json_depth (PList vs) = 1 + Max (insert 0 (json_depth ` set vs))"
| "json_depth (PTuple vs) = 1 + Max (insert 0 (json_depth ` set vs))"
| "json_depth (PDict kvs) = 1 + Max (insert 0 ((\<lambda>kv. json_depth (snd kv)) ` set kvs))"
| "json_depth v = 0"

abbreviation depth_state :: "int \<Rightarrow> int \<Rightarrow> depth_scan" where
  "depth_state d m \<equiv> \<lparr>ds_depth = d, ds_deepest = m, ds_in_string = False, ds_escaped = False\<rparr>"

abbreviation string_state :: "int \<Rightarrow> int \<Rightarrow> depth_scan" where
  "string_state d m \<equiv> \<lparr>ds_depth = d, ds_deepest = m, ds_in_string = True, ds_escaped = False\<rparr>"

lemma depth_in_string:
  "c \<noteq> 92 \<Longrightarrow> c \<noteq> 34 \<Longrightarrow> depth_step (string_state d m) c = string_state d m"
  "depth_step (depth_step (string_state d m) 92) c = string_state d m"
  by (simp_all add: depth_step_def)

lemma depth_hex_digit: "n < 16 \<Longrightarrow> depth_step (string_state d m) (hex_digit n) = string_state d m"
  by (rule depth_in_string) (auto simp: hex_digit_def)

lemma depth_u_escape: "foldl depth_step (string_state d m) (u_escape n) = string_state d m"
  by (simp add: u_escape_def u_digits_def depth_in_string depth_hex_digit)

lemma depth_esc_char: "foldl depth_step (string_state d m) (esc_char c) = string_state d m"
  using esc_char_first[of c]
  by (elim disjE exE conjE) (simp_all add: depth_u_escape depth_in_string)

lemma depth_json_string: "foldl depth_step (depth_state d m) (json_string s) = depth_state d m"
proof -
  have "foldl depth_step (string_state d m) (concat (map esc_char s)) = string_state d m"
    by (induction s) (simp_all add: depth_esc_char)
  then show ?thesis by (simp add: json_string_def depth_step_def)
qed

lemma depth_plain: "c \<notin> {34, 91, 123, 93, 125} \<Longrightarrow> depth_step (depth_state d m) c = depth_state d m"
  by (simp add: depth_step_def)

lemma depth_plain_list:
  "list_all (\<lambda>c. c \<notin> {34, 91, 123, 93, 125}) t \<Longrightarrow> foldl depth_step (depth_state d m) t = depth_state d m"
  by (induction t) (simp_all add: depth_plain)

definition scans_as :: "pystr \<Rightarrow> int \<Rightarrow> bool" where
  "scans_as t k \<longleftrightarrow> 0 \<le> k \<and> (\<forall>d m. d \<le> m \<longrightarrow> foldl depth_step (depth_state d m) t = depth_state d (max m (d + k)))"

lemma scans_as_plain: "list_all (\<lambda>c. c \<notin> {34, 91, 123, 93, 125}) t \<Longrightarrow> scans_as t 0"
  by (simp add: scans_as_def depth_plain_list)

lemma scans_asD:
  "scans_as t k \<Longrightarrow> d \<le> m \<Longrightarrow> foldl depth_step (depth_state d m) t = depth_state d (max m (d + k))"
  by (simp add: scans_as_def)

lemma scans_as_join:
  "\<forall>x \<in> set xs. scans_as (f x) (k x) \<Longrightarrow> d \<le> m \<Longrightarrow>
     foldl depth_step (depth_state d m) (join_comma (map f xs)) = depth_state d (max m (d + Max (insert 0 (k ` set xs))))"
proof (induction xs arbitrary: m rule: induct_list012)
  case 1
  then show ?case by simp
next
  case (2 x)
  then have "scans_as (f x) (k x)" "max 0 (k x) = k x" by (simp_all add: scans_as_def)
  with 2 show ?case by (simp add: scans_asD)
next
  case (3 x y ys)
  let ?M = "Max (insert 0 (k ` set (y # ys)))"
  have x: "scans_as (f x) (k x)" using 3 by simp
  have "Max (insert 0 (k ` set (x # y # ys))) = max (k x) ?M"
    by (simp add: insert_commute[of 0 "k x"])
  moreover have "foldl depth_step (depth_state d (max m (d + k x))) (join_comma (map f (y # ys)))
      = depth_state d (max (max m (d + k x)) (d + ?M))"
    by (rule "3.IH"(2)) (use 3 in auto)
  moreover have "max (max m (d + k x)) (d + ?M) = max m (d + max (k x) ?M)" by simp
  moreover have "foldl depth_step (depth_state d m) (join_comma (map f (x # y # ys)))
      = foldl depth_step (depth_state d (max m (d + k x))) (join_comma (map f (y # ys)))"
    using scans_asD[OF x "3.prems"(2)] by (simp add: depth_plain)
  ultimately show ?case by metis
qed

lemma scans_as_bracket:
  assumes "\<And>d m. d \<le> m \<Longrightarrow> foldl depth_step (depth_state d m) t = depth_state d (max m (d + k))"
    and "0 \<le> k" "(a, b) \<in> {(91, 93), (123, 125)}"
  shows "scans_as (a # t @ [b]) (1 + k)"
  unfolding scans_as_def
proof (intro conjI allI impI)
  fix d m :: int assume "d \<le> m"
  have "foldl depth_step (depth_state d m) [a] = depth_state (d + 1) (max m (d + 1))"
    using assms(3) by (auto simp: depth_step_def)
  moreover have "foldl depth_step (depth_state (d + 1) (max m (d + 1))) t
      = depth_state (d + 1) (max (max m (d + 1)) (d + 1 + k))"
    by (rule assms(1)) simp
  moreover have "max (max m (d + 1)) (d + 1 + k) = max m (d + (1 + k))" using assms(2) by simp
  ultimately show "foldl depth_step (depth_state d m) (a # t @ [b]) = depth_state d (max m (d + (1 + k)))"
    using assms(3) by (auto simp: depth_step_def)
qed (use assms(2) in simp)


lemma scans_as_list:
  assumes "\<forall>x \<in> set xs. scans_as (f x) (k x)" "(a, b) \<in> {(91, 93), (123, 125)}"
  shows "scans_as (a # join_comma (map f xs) @ [b]) (1 + Max (insert 0 (k ` set xs)))"
  by (rule scans_as_bracket[OF scans_as_join[OF assms(1)] _ assms(2)]) auto

lemma scans_as_member: "scans_as t k \<Longrightarrow> scans_as (member_text (key, t)) k"
  by (auto simp: scans_as_def member_text_def depth_json_string depth_plain)

lemma scans_as_int: "int_text i = Some t \<Longrightarrow> scans_as t 0"
proof (rule scans_as_plain)
  assume "int_text i = Some t"
  moreover have "list_all (\<lambda>c. c \<notin> {34, 91, 123, 93, 125}) (nat_digits n)" for n
    by (rule list.pred_mono_strong[OF nat_digits_digit]) (auto simp: is_digit_def)
  ultimately show "list_all (\<lambda>c. c \<notin> {34, 91, 123, 93, 125}) t"
    by (auto simp: int_text_def Let_def split: if_splits)
qed

lemma dumps_scans: "dumps v = Some t \<Longrightarrow> json_ok v \<Longrightarrow> scans_as t (json_depth v)"
proof (induction v arbitrary: t rule: json_ok.induct)
  case (7 vs)
  then have "\<forall>x \<in> set vs. scans_as (the (dumps x)) (json_depth x)"
    by (auto simp: opt_map_conv list_all_iff)
  from scans_as_list[OF this, of 91 93] "7.prems" show ?case by (auto simp: opt_map_conv)
next
  case (8 vs)
  then have "\<forall>x \<in> set vs. scans_as (the (dumps x)) (json_depth x)"
    by (auto simp: opt_map_conv list_all_iff)
  from scans_as_list[OF this, of 91 93] "8.prems" show ?case by (auto simp: opt_map_conv)
next
  case (9 kvs)
  let ?f = "\<lambda>(k, v). member_text (k, the (dumps v))"
  have def: "(k, v) \<in> set kvs \<Longrightarrow> dumps v = Some (the (dumps v)) \<and> json_ok v" for k v
    using "9.prems" by (auto simp: dumps_dict_texts list_all_iff)
  have t: "t = 123 # join_comma (map ?f (sort_key fst kvs)) @ [125]"
    using "9.prems"(1) by (auto simp: dumps_dict_texts sort_pairs_map comp_def intro!: arg_cong[where f = join_comma])
  have "\<forall>x \<in> set (sort_key fst kvs). scans_as (?f x) (json_depth (snd x))"
    using "9.IH" def by (fastforce intro: scans_as_member)
  from scans_as_list[OF this, of 123 125] t show ?case by simp
qed (auto simp: scans_as_int lit_words depth_json_string intro: scans_as_plain split: if_splits, simp add: scans_as_def depth_json_string)

lemma wire_depth_dumps: "dumps v = Some t \<Longrightarrow> json_ok v \<Longrightarrow> wire_depth t = json_depth v"
  using dumps_scans[of v t] by (auto simp: wire_depth_def scans_as_def)

section \<open>What the decoder accepts\<close>

lemma reject_duplicates_distinct:
  "distinct (map fst (result @ pairs)) \<Longrightarrow> reject_duplicates noun result pairs = Inr (PDict (result @ pairs))"
  by (induction noun result pairs rule: reject_duplicates.induct) auto

lemma reject_duplicates_eq_Inr:
  "distinct (map fst result) \<Longrightarrow> reject_duplicates noun result pairs = Inr v \<Longrightarrow>
     v = PDict (result @ pairs) \<and> distinct (map fst (result @ pairs))"
  by (induction noun result pairs rule: reject_duplicates.induct) (auto split: if_splits)

lemma wire_hooks_keep [simp]: "keeps_distinct (wire_hooks P noun)"
  by (simp add: keeps_distinct_def wire_hooks_def reject_duplicates_distinct)

text \<open>No dict of a decoded value repeats a key, at any depth.\<close>

fun keys_distinct :: "pyval \<Rightarrow> bool" where
  "keys_distinct (PList vs) = list_all keys_distinct vs"
| "keys_distinct (PTuple vs) = list_all keys_distinct vs"
| "keys_distinct (PDict kvs) \<longleftrightarrow> distinct (map fst kvs) \<and> list_all (\<lambda>kv. keys_distinct (snd kv)) kvs"
| "keys_distinct v = True"

lemma wire_hooks_closed: "hook_closed (wire_hooks P noun) keys_distinct"
  unfolding hook_closed_def
  by (auto simp: wire_hooks_def dest: reject_duplicates_eq_Inr[of "[]", simplified])

lemma decode_wire_eq_Inr:
  assumes "decode_wire P wire keys noun = Inr d"
  obtains w t where "wire = PBytes w" "0 < length w" "length w \<le> MAX_WIRE_BYTES"
    "canonical (PDict d) = Inr w" "utf8_decode w = Some t" "wire_depth t \<le> MAX_WIRE_DEPTH"
    "json_loads (wire_hooks P noun) t = Inr (PDict d)"
    "set (map fst d) = set (map lit keys)" "keys_distinct (PDict d)"
proof -
  from assms obtain w where wire: "wire = PBytes w" by (cases wire) (auto simp: decode_wire_def)
  with assms have len: "0 < length w" "length w \<le> MAX_WIRE_BYTES"
    by (auto simp: decode_wire_def split: if_splits)
  with assms wire obtain t where t: "utf8_decode w = Some t"
    by (cases "utf8_decode w") (auto simp: decode_wire_def split: if_splits)
  with assms wire len have deep: "wire_depth t \<le> MAX_WIRE_DEPTH"
    by (auto simp: decode_wire_def split: if_splits)
  with assms wire len t obtain v where v: "json_loads (wire_hooks P noun) t = Inr v"
    by (cases "json_loads (wire_hooks P noun) t") (auto simp: decode_wire_def split: if_splits)
  with assms wire len t deep obtain kvs where kvs: "v = PDict kvs"
    by (cases v) (auto simp: decode_wire_def)
  with assms wire len t deep v
  have "set (map fst kvs) = set (map lit keys)" "canonical (PDict kvs) = Inr w" "kvs = d"
    by (auto simp: decode_wire_def rbind_eq_Inr split: if_splits)
  moreover from json_loads_closed[OF wire_hooks_closed v] kvs have "keys_distinct (PDict kvs)" by simp
  ultimately show thesis using that wire len t deep v kvs by blast
qed

lemma decode_wire_canonical:
  assumes "canonical (PDict d) = Inr w" "json_ok (PDict d)" "json_depth (PDict d) \<le> MAX_WIRE_DEPTH"
    and "length w \<le> MAX_WIRE_BYTES" "set (map fst d) = set (map lit keys)"
  shows "\<exists>d'. json_norm (PDict d) = PDict d' \<and> decode_wire P (PBytes w) keys noun = Inr d'"
proof -
  obtain t where t: "dumps (PDict d) = Some t" "w = ascii_bytes t"
    using assms(1) by (auto simp: canonical_eq_Inr)
  let ?d = "sort_key fst (map (\<lambda>(k, v). (k, json_norm v)) d)"
  have n: "json_norm (PDict d) = PDict ?d" by simp
  have a: "is_ascii t" by (rule dumps_ascii[OF t(1) assms(2)])
  have c: "canonical (PDict ?d) = Inr w"
    using dumps_json_norm[OF t(1)] t(2) n by (simp only: canonical_def option.case)
  have ks: "set (map fst ?d) = set (map lit keys)"
    unfolding assms(5)[symmetric] by force
  have "t \<noteq> []" using t(1) by auto
  then have "w \<noteq> []" using t(2) by simp
  moreover have "json_loads (wire_hooks P noun) t = Inr (PDict ?d)"
    using json_roundtrip[OF wire_hooks_keep t(1) assms(2)] n by simp
  ultimately have "decode_wire P (PBytes w) keys noun = Inr ?d"
    using assms(3,4) a t wire_depth_dumps[OF t(1) assms(2)] c ks
    by (simp only: decode_wire_def pyval.case utf8_decode_ascii option.case sum.case rbind_Inr) auto
  with n show ?thesis by blast
qed

lemma map_of_json_norm:
  assumes "json_norm (PDict d) = PDict d'" "distinct (map fst d)"
  shows "map_of d' k = map_option json_norm (map_of d k)"
proof -
  have "d' = sort_key fst (map (\<lambda>(k, v). (k, json_norm v)) d)" using assms(1) by simp
  then show ?thesis using assms(2)
    by (simp add: map_of_sort_key comp_def json_norm_pair_fst map_of_map_snd)
qed

section \<open>What validation establishes\<close>

text \<open>The fields a valid handoff takes from the trusted policy, and the time window it is valid in.\<close>

definition handoff_facts :: "policy \<Rightarrow> grant \<Rightarrow> pystr \<Rightarrow> int \<Rightarrow> handoff \<Rightarrow> bool" where
  "handoff_facts p g job_id now h \<longleftrightarrow>
     h_version h = VERSION \<and> h_job_id h = job_id \<and> h_user_id h = g_user_id g
   \<and> h_orchestrator_id h = p_orchestrator_id p \<and> h_worker_agent_id h = g_worker_agent_id g
   \<and> h_tier h = g_tier g \<and> h_tools h = g_tools g \<and> h_sandbox_profile h = g_sandbox_profile g
   \<and> h_approval_state h = approval_state_of g \<and> h_policy_version h = p_version p
   \<and> h_expires_at h = h_issued_at h + p_handoff_ttl_seconds p
   \<and> h_issued_at h \<le> now \<and> now < h_expires_at h"

text \<open>The payload is one non-empty text and the digest in the handoff is its digest.\<close>

definition payload_facts :: "platform \<Rightarrow> handoff \<Rightarrow> bool" where
  "payload_facts P h \<longleftrightarrow>
     (\<exists>s b. s \<noteq> [] \<and> h_payload h = PDict [(lit ''text'', PStr s)]
        \<and> canonical (h_payload h) = Inr b \<and> h_payload_sha256 h = sha256_hex P b)"

text \<open>The signature is that of the canonical handoff without its signature.\<close>

definition signature_facts :: "platform \<Rightarrow> handoff_verifier \<Rightarrow> handoff \<Rightarrow> bool" where
  "signature_facts P v h \<longleftrightarrow>
     is_signature (h_signature h)
   \<and> (\<exists>m sig. canonical (PDict (without_signature (handoff_dict h))) = Inr m
        \<and> fromhex (h_signature h) = Some sig \<and> handoff_verifies P v m sig)"

lemma match_expected_eq_Inr [result_simps]:
  "match_expected d tools fe = Inr u \<longleftrightarrow>
     (if fst fe = ''tools'' then snd fe = PTuple (map PStr tools) else map_of d (lit (fst fe)) = Some (snd fe))"
  by (auto simp: match_expected_def result_simps)

lemma map_PStr_eq [simp]: "map PStr xs = map PStr ys \<longleftrightarrow> xs = ys"
  by (rule inj_map_eq_map) (simp add: inj_def)

lemma without_signature_map_of:
  "map_of (without_signature d) k = (if k = lit ''signature'' then None else map_of d k)"
  by (induction d) (auto simp: without_signature_def)

lemma without_signature_distinct: "distinct (map fst d) \<Longrightarrow> distinct (map fst (without_signature d))"
  by (auto simp: without_signature_def distinct_map_filter)

lemma handoff_dict_keys: "map fst (handoff_dict h) = map lit HANDOFF_KEYS"
  by (simp add: handoff_dict_def HANDOFF_KEYS_def)

lemma HANDOFF_KEYS_distinct: "distinct (map lit HANDOFF_KEYS)"
  by (simp add: HANDOFF_KEYS_def)

text \<open>\<open>carries d h\<close>: the decoded object writes the same text as the handoff, field by field.\<close>

definition carries :: "(pystr \<times> pyval) list \<Rightarrow> handoff \<Rightarrow> bool" where
  "carries d h \<longleftrightarrow> (\<forall>k. map_option dumps (map_of d k) = map_option dumps (map_of (handoff_dict h) k))"

definition object_reads :: "(pystr \<times> pyval) list \<Rightarrow> handoff \<Rightarrow> bool" where
  "object_reads d h \<longleftrightarrow>
     map_of d (lit ''version'') = Some (PStr (h_version h))
   \<and> map_of d (lit ''job_id'') = Some (PStr (h_job_id h))
   \<and> map_of d (lit ''user_id'') = Some (PStr (h_user_id h))
   \<and> map_of d (lit ''orchestrator_id'') = Some (PStr (h_orchestrator_id h))
   \<and> map_of d (lit ''worker_agent_id'') = Some (PStr (h_worker_agent_id h))
   \<and> map_of d (lit ''tier'') = Some (PStr (h_tier h))
   \<and> map_of d (lit ''tools'') \<in> {Some (PTuple (map PStr (h_tools h))), Some (PList (map PStr (h_tools h)))}
   \<and> map_of d (lit ''sandbox_profile'') = Some (PStr (h_sandbox_profile h))
   \<and> map_of d (lit ''approval_state'') = Some (PStr (h_approval_state h))
   \<and> map_of d (lit ''policy_version'') = Some (PStr (h_policy_version h))
   \<and> map_of d (lit ''issued_at'') = Some (PInt (h_issued_at h))
   \<and> map_of d (lit ''expires_at'') = Some (PInt (h_expires_at h))
   \<and> map_of d (lit ''payload_sha256'') = Some (PStr (h_payload_sha256 h))
   \<and> map_of d (lit ''signature'') = Some (PStr (h_signature h))"

lemma from_object_eq_Inr:
  assumes "from_object P d subject job_id policy verifier now allow_pending = Inr h"
  obtains g v pv b where "grant_for policy subject = Inr g" "as_verifier verifier = Inr v"
    "object_reads d h" "map_of d (lit ''payload'') = Some pv" "payload pv = Inr (h_payload h)"
    "canonical (h_payload h) = Inr b" "h_payload_sha256 h = sha256_hex P b"
    "handoff_facts policy g job_id now h" "h_approval_state h = PENDING \<longrightarrow> allow_pending"
    "is_signature (h_signature h)"
    "\<exists>m sig. canonical (PDict (without_signature d)) = Inr m \<and> fromhex (h_signature h) = Some sig
       \<and> handoff_verifies P v m sig"
proof -
  have opt: "(case x of None \<Rightarrow> value_error | Some y \<Rightarrow> Inr (q y)) = Inr z \<longleftrightarrow> (\<exists>y. x = Some y \<and> z = q y)"
    for x :: "bytes option" and q :: "bytes \<Rightarrow> bool" and z
    by (cases x) auto
  have sig: "(if \<not> s then Inr False else m) = Inr sv \<Longrightarrow> sv \<Longrightarrow> s \<and> m = Inr True"
    for s m and sv :: bool by (auto split: if_splits)
  have fields: "\<forall>x \<in> set (expected_fields policy g job_id issued). match_expected d tools x = Inr () \<Longrightarrow>
      map_of d (lit ''version'') = Some (PStr VERSION) \<and> map_of d (lit ''job_id'') = Some (PStr job_id)
    \<and> map_of d (lit ''user_id'') = Some (PStr (g_user_id g))
    \<and> map_of d (lit ''orchestrator_id'') = Some (PStr (p_orchestrator_id policy))
    \<and> map_of d (lit ''worker_agent_id'') = Some (PStr (g_worker_agent_id g))
    \<and> map_of d (lit ''tier'') = Some (PStr (g_tier g)) \<and> tools = g_tools g
    \<and> map_of d (lit ''sandbox_profile'') = Some (PStr (g_sandbox_profile g))
    \<and> map_of d (lit ''approval_state'') = Some (PStr (approval_state_of g))
    \<and> map_of d (lit ''policy_version'') = Some (PStr (p_version policy))
    \<and> map_of d (lit ''expires_at'') = Some (PInt (issued + p_handoff_ttl_seconds policy))" for g issued tools
    by (simp add: expected_fields_def match_expected_eq_Inr)
  from assms show thesis
    apply (simp only: from_object_def rbind_eq_Inr if_raise_eq_Inr string_item_eq_Inr py_integer_eq_Inr
        get_item_eq_Inr compare_digest_eq_Inr reach_eq_Inr simp_thms ex_simps)
    apply (elim exE conjE, drule fields, drule (1) sig)
    apply (simp only: rbind_eq_Inr opt string_tuple_eq_Inr)
    apply (elim exE conjE)
    apply (rule that, assumption, assumption)
            apply (simp_all only: sum.inject)
            apply (hypsubst, simp add: object_reads_def handoff_facts_def)+
    done
qed

lemma payload_distinct: "payload v = Inr w \<Longrightarrow> keys_distinct v \<Longrightarrow> v = w"
proof -
  assume "payload v = Inr w" and d: "keys_distinct v"
  then obtain kvs s where v: "v = PDict kvs" "set (map fst kvs) = {lit ''text''}"
    "map_of kvs (lit ''text'') = Some (PStr s)" "w = PDict [(lit ''text'', PStr s)]"
    by (auto simp: payload_eq_Inr)
  from v(1) d have "length (map fst kvs) = card (set (map fst kvs))" by (metis distinct_card keys_distinct.simps(3))
  with v(2) have "length kvs = 1" by simp
  then obtain kv where "kvs = [kv]" by (auto simp: length_Suc_conv)
  with v show ?thesis by (cases kv) auto
qed

lemma keys_distinct_lookup: "keys_distinct (PDict d) \<Longrightarrow> map_of d k = Some v \<Longrightarrow> keys_distinct v"
  by (auto simp: list_all_iff dest: map_of_SomeD)

lemma handoff_dict_map_of:
  "map_of (handoff_dict h) k = None \<longleftrightarrow> k \<notin> set (map lit HANDOFF_KEYS)"
  unfolding handoff_dict_keys[of h, symmetric] by (simp add: map_of_eq_None_iff)

lemma object_carries:
  assumes "object_reads d h" "map_of d (lit ''payload'') = Some (h_payload h)"
    and "set (map fst d) = set (map lit HANDOFF_KEYS)"
  shows "carries d h"
  unfolding carries_def
proof
  fix k
  show "map_option dumps (map_of d k) = map_option dumps (map_of (handoff_dict h) k)"
  proof (cases "k \<in> set (map lit HANDOFF_KEYS)")
    case True
    then have "k \<in> {lit ''version'', lit ''job_id'', lit ''user_id'', lit ''orchestrator_id'',
      lit ''worker_agent_id'', lit ''tier'', lit ''tools'', lit ''sandbox_profile'', lit ''approval_state'',
      lit ''policy_version'', lit ''issued_at'', lit ''expires_at'', lit ''payload'', lit ''payload_sha256'',
      lit ''signature''}"
      by (simp add: HANDOFF_KEYS_def)
    then show ?thesis
      using assms(1,2) unfolding object_reads_def
      by (elim insertE emptyE) (auto simp: handoff_dict_def)
  next
    case False
    with assms(3) have "map_of d k = None" by (metis list.set_map map_of_eq_None_iff)
    with False handoff_dict_map_of[of h k] show ?thesis by simp
  qed
qed

lemma carries_canonical:
  assumes "carries d h" "distinct (map fst d)"
  shows "canonical (PDict (handoff_dict h)) = canonical (PDict d)"
    and "canonical (PDict (without_signature (handoff_dict h))) = canonical (PDict (without_signature d))"
proof -
  have dist: "distinct (map fst (handoff_dict h))" by (simp only: handoff_dict_keys HANDOFF_KEYS_distinct)
  have "dumps (PDict (handoff_dict h)) = dumps (PDict d)"
    using assms(1) by (intro dumps_dict_cong dist assms(2)) (simp add: carries_def)
  moreover have "dumps (PDict (without_signature (handoff_dict h))) = dumps (PDict (without_signature d))"
    using assms(1) by (intro dumps_dict_cong without_signature_distinct dist assms(2))
      (simp add: carries_def without_signature_map_of)
  ultimately show "canonical (PDict (handoff_dict h)) = canonical (PDict d)"
    and "canonical (PDict (without_signature (handoff_dict h))) = canonical (PDict (without_signature d))"
    by (simp_all only: canonical_def)
qed

text \<open>Everything an accepted wire has been checked for, for both entry points.\<close>

lemma from_object_sound:
  assumes "wire_object P wire = Inr d"
    and "from_object P d subject job_id policy verifier now allow_pending = Inr h"
  shows "\<exists>w g v. wire = PBytes w \<and> handoff_to_bytes h = Inr w \<and> length w \<le> MAX_WIRE_BYTES
     \<and> grant_for policy subject = Inr g \<and> as_verifier verifier = Inr v
     \<and> handoff_facts policy g job_id now h \<and> payload_facts P h \<and> signature_facts P v h
     \<and> (h_approval_state h = PENDING \<longrightarrow> allow_pending)"
proof -
  from assms(1) obtain w where w: "wire = PBytes w" "length w \<le> MAX_WIRE_BYTES"
    "canonical (PDict d) = Inr w" "set (map fst d) = set (map lit HANDOFF_KEYS)" "keys_distinct (PDict d)"
    unfolding wire_object_def by (rule decode_wire_eq_Inr)
  from assms(2) obtain g v pv b where f: "grant_for policy subject = Inr g" "as_verifier verifier = Inr v"
    "object_reads d h" "map_of d (lit ''payload'') = Some pv" "payload pv = Inr (h_payload h)"
    "canonical (h_payload h) = Inr b" "h_payload_sha256 h = sha256_hex P b"
    "handoff_facts policy g job_id now h" "h_approval_state h = PENDING \<longrightarrow> allow_pending"
    "is_signature (h_signature h)"
    "\<exists>m sig. canonical (PDict (without_signature d)) = Inr m \<and> fromhex (h_signature h) = Some sig
       \<and> handoff_verifies P v m sig"
    by (rule from_object_eq_Inr)
  have pv: "pv = h_payload h" by (rule payload_distinct[OF f(5) keys_distinct_lookup[OF w(5) f(4)]])
  have "carries d h" by (rule object_carries[OF f(3) _ w(4)]) (simp add: f(4) pv)
  note can = carries_canonical[OF this] and dist = w(5)[unfolded keys_distinct.simps, THEN conjunct1]
  have "handoff_to_bytes h = Inr w" using can(1)[OF dist] w(3) by (simp add: handoff_to_bytes_def)
  moreover have "signature_facts P v h" using can(2)[OF dist] f(10,11) by (simp add: signature_facts_def)
  moreover have "payload_facts P h" using f(5-7) by (auto simp: payload_facts_def payload_eq_Inr)
  ultimately show ?thesis using w(1,2) f(1,2,8,9) by blast
qed

lemma validate_sound_lemma:
  assumes "validate P wire subject job_id policy verifier now = Inr h"
  shows "\<exists>w g v. wire = PBytes w \<and> handoff_to_bytes h = Inr w \<and> length w \<le> MAX_WIRE_BYTES
     \<and> grant_for policy subject = Inr g \<and> as_verifier verifier = Inr v
     \<and> handoff_facts policy g job_id now h \<and> payload_facts P h \<and> signature_facts P v h
     \<and> \<not> g_requires_approval g"
proof -
  from assms obtain d where "wire_object P wire = Inr d"
    "from_object P d subject job_id policy verifier now False = Inr h"
    by (auto simp: validate_def rbind_eq_Inr)
  from from_object_sound[OF this] show ?thesis
    by (auto simp: handoff_facts_def approval_state_of_def split: if_splits)
qed

lemma validate_pending_sound:
  assumes "validate_pending P wire subject job_id policy verifier now = Inr h"
  shows "\<exists>w g v. wire = PBytes w \<and> handoff_to_bytes h = Inr w \<and> length w \<le> MAX_WIRE_BYTES
     \<and> grant_for policy subject = Inr g \<and> as_verifier verifier = Inr v
     \<and> handoff_facts policy g job_id now h \<and> payload_facts P h \<and> signature_facts P v h
     \<and> g_requires_approval g"
proof -
  from assms obtain d where "wire_object P wire = Inr d"
    "from_object P d subject job_id policy verifier now True = Inr h" "h_approval_state h = PENDING"
    by (auto simp: validate_pending_def result_simps)
  from from_object_sound[OF this(1,2)] this(3) show ?thesis
    by (auto simp: handoff_facts_def approval_state_of_def PENDING_def NOT_REQUIRED_def split: if_splits)
qed

section \<open>Grants of a policy\<close>

lemma valid_policyD:
  assumes "valid_policy p"
  shows "0 < p_handoff_ttl_seconds p" "p_handoff_ttl_seconds p \<le> 300" "p_version p \<noteq> []"
    "p_orchestrator_id p \<noteq> []" "distinct (map g_subject (p_grants p))"
    "\<And>g. g \<in> set (p_grants p) \<Longrightarrow> valid_grant g \<and> set (g_tools g) \<subseteq> set (p_allowed_tools p)
        \<and> g_sandbox_profile g \<in> set (p_allowed_sandbox_profiles p)"
  using assms
  by (auto simp: valid_policy_def policy_post_init_def result_simps list_all_iff)

lemma valid_grantD:
  assumes "valid_grant g"
  shows "g_subject g \<noteq> []" "\<exists>b. utf8_encode (g_subject g) = Inr b" "g_user_id g \<noteq> []" "g_worker_agent_id g \<noteq> []"
    "g_tier g \<noteq> []" "g_sandbox_profile g \<noteq> []" "g_tools g \<noteq> []" "distinct (g_tools g)" "[] \<notin> set (g_tools g)"
  using assms by (auto simp: valid_grant_def grant_post_init_def result_simps)

lemma find_grant_eq_Inr:
  "find_grant gs b = Inr g \<Longrightarrow> g \<in> set gs \<and> subject_bytes (PStr (g_subject g)) = Inr b"
  by (induction gs) (auto simp: rbind_eq_Inr split: if_splits)

lemma text_ok_ascii: "is_ascii s \<Longrightarrow> text_ok s"
proof (induction s rule: no_pair.induct)
  case (3 h l r)
  then have "text_ok (l # r)" "h < 128" by simp_all
  then show ?case by (simp add: text_ok_def is_high_surrogate_def)
qed (simp_all add: text_ok_def)

lemma text_ok_unicode: "text_ok s \<Longrightarrow> unicode s"
  by (simp add: text_ok_def unicode_def)

lemma grant_for_eq_Inr:
  assumes "grant_for p s = Inr g" "unicode s" "\<forall>g \<in> set (p_grants p). unicode (g_subject g)"
  shows "g \<in> set (p_grants p) \<and> g_subject g = s"
proof -
  from assms(1) obtain b where "utf8_encode s = Inr b" "find_grant (p_grants p) b = Inr g"
    by (auto simp: grant_for_def result_simps)
  moreover from find_grant_eq_Inr[OF this(2)] have "g \<in> set (p_grants p)" "utf8_encode (g_subject g) = Inr b"
    by (auto simp: subject_bytes_eq_Inr)
  ultimately show ?thesis using utf8_encode_inject assms(2,3) by blast
qed

lemma find_grant_member:
  assumes "distinct (map g_subject gs)" "\<forall>g \<in> set gs. unicode (g_subject g) \<and> valid_grant g"
    and "g \<in> set gs" "subject_bytes (PStr (g_subject g)) = Inr b"
  shows "find_grant gs b = Inr g"
  using assms
proof (induction gs)
  case (Cons x gs)
  then obtain c where c: "subject_bytes (PStr (g_subject x)) = Inr c"
    using valid_grantD(1,2)[of x] by (auto simp: subject_bytes_eq_Inr)
  show ?case
  proof (cases "b = c")
    case True
    with c Cons.prems have "g_subject x = g_subject g"
      by (intro utf8_encode_inject[of _ _ b]) (auto simp: subject_bytes_eq_Inr)
    with Cons.prems True c show ?thesis by (auto simp: rev_image_eqI)
  next
    case False
    with c Cons.prems have "g \<in> set gs" by auto
    with Cons c False show ?thesis by simp
  qed
qed simp

lemma grant_for_member:
  assumes "valid_policy p" "\<forall>g \<in> set (p_grants p). unicode (g_subject g)" "g \<in> set (p_grants p)"
  shows "grant_for p (g_subject g) = Inr g"
proof -
  have "valid_grant g" using valid_policyD(6)[OF assms(1)] assms(3) by blast
  then obtain b where b: "subject_bytes (PStr (g_subject g)) = Inr b"
    using valid_grantD(1,2)[of g] by (auto simp: subject_bytes_eq_Inr)
  moreover have "find_grant (p_grants p) b = Inr g"
    by (rule find_grant_member[OF valid_policyD(5)[OF assms(1)] _ assms(3) b])
      (use assms valid_policyD(6) in blast)
  ultimately show ?thesis by (simp add: grant_for_def)
qed

section \<open>What validation accepts\<close>

lemma from_object_complete:
  assumes "grant_for policy subject = Inr g" "as_verifier verifier = Inr v" "valid_policy policy" "valid_grant g"
    and "object_reads d h" "map_of d (lit ''payload'') = Some (h_payload h)" "payload_facts P h" "hash_ok P"
    and "handoff_facts policy g job_id now h" "job_id \<noteq> []" "h_approval_state h = PENDING \<longrightarrow> allow_pending"
    and "is_signature (h_signature h)" "canonical (PDict (without_signature d)) = Inr m"
    and "fromhex (h_signature h) = Some sig" "handoff_verifies P v m sig"
  shows "from_object P d subject job_id policy verifier now allow_pending = Inr h"
proof -
  have str: "string_item d k = Inr s" if "map_of d (lit k) = Some (PStr s)" "s \<noteq> []" for k s
    using that by (simp add: string_item_eq_Inr)
  have item: "get_item d k = Inr x" if "map_of d (lit k) = Some x" for k x
    using that by (simp add: get_item_eq_Inr)
  note reads = assms(5)[unfolded object_reads_def] and facts = assms(9)[unfolded handoff_facts_def]
  note ne = valid_grantD[OF assms(4)] valid_policyD(3,4)[OF assms(3)]
  have tools: "rbind (get_item d ''tools'') (\<lambda>x. string_tuple x ''tools'') = Inr (h_tools h)"
    using reads facts ne by (auto simp: rbind_eq_Inr get_item_eq_Inr string_tuple_eq_Inr)
  obtain b where b: "payload (h_payload h) = Inr (h_payload h)" "canonical (h_payload h) = Inr b"
    "h_payload_sha256 h = sha256_hex P b"
    using assms(7) by (auto simp: payload_facts_def)
  have sig_ne: "h_signature h \<noteq> []" using assms(12) by (auto simp: is_signature_def hex_string_def)
  have exp: "reach (match_expected d (h_tools h)) (expected_fields policy g job_id (h_issued_at h)) = Inr ()"
    using reads facts unfolding reach_eq_Inr match_expected_eq_Inr expected_fields_def by simp
  have st: "VERSION \<noteq> []" "approval_state_of g \<noteq> []"
    by (simp_all add: VERSION_def approval_state_of_def PENDING_def NOT_REQUIRED_def)
  show ?thesis
    unfolding from_object_def
    using assms(1,2,6,10,11,12,13,14,15) reads facts ne st b sig_ne exp tools
    by (simp add: py_string_PStr str item sha256_hex_nonempty[OF assms(8)])
qed

text \<open>A handoff whose strings all survive JSON.\<close>

definition handoff_text_ok :: "handoff \<Rightarrow> bool" where
  "handoff_text_ok h \<longleftrightarrow>
     list_all text_ok [h_version h, h_job_id h, h_user_id h, h_orchestrator_id h, h_worker_agent_id h, h_tier h,
       h_sandbox_profile h, h_approval_state h, h_policy_version h, h_payload_sha256 h, h_signature h]
   \<and> list_all text_ok (h_tools h) \<and> json_ok (h_payload h)"

lemma text_ok_lit [simp]: "list_all (\<lambda>c. (of_char c :: nat) < 128) s \<Longrightarrow> text_ok (lit s)"
  by (simp add: text_ok_ascii)

lemma handoff_json_ok: "handoff_text_ok h \<Longrightarrow> json_ok (PDict (handoff_dict h))"
  by (simp add: handoff_text_ok_def handoff_dict_def list.pred_map comp_def)

lemma json_depth_dict_le:
  "0 \<le> n \<Longrightarrow> list_all (\<lambda>kv. json_depth (snd kv) \<le> n) kvs \<Longrightarrow> json_depth (PDict kvs) \<le> 1 + n"
  by (auto simp: list_all_iff)

lemma json_depth_strings: "json_depth (PList (map PStr xs)) = 1"
proof -
  have "insert 0 (json_depth ` set (map PStr xs)) = {0}" by auto
  then show ?thesis by (simp only: json_depth.simps Max_singleton)
qed

lemma handoff_depth:
  assumes "h_payload h = PDict [(lit ''text'', PStr s)]"
  shows "json_depth (PDict (handoff_dict h)) \<le> MAX_WIRE_DEPTH"
proof -
  from assms have "json_depth (h_payload h) = 1" by simp
  then have "list_all (\<lambda>kv. json_depth (snd kv) \<le> 1) (handoff_dict h)"
    by (simp add: handoff_dict_def json_depth_strings del: json_depth.simps(1))
  then have "json_depth (PDict (handoff_dict h)) \<le> 1 + 1" by (intro json_depth_dict_le) simp_all
  then show ?thesis unfolding MAX_WIRE_DEPTH_def by linarith
qed

lemma handoff_object:
  assumes "handoff_to_bytes h = Inr w" "handoff_text_ok h" "h_payload h = PDict [(lit ''text'', PStr s)]" "length w \<le> MAX_WIRE_BYTES"
  obtains d where "wire_object P (PBytes w) = Inr d" "object_reads d h"
    "map_of d (lit ''payload'') = Some (h_payload h)"
    "canonical (PDict (without_signature d)) = canonical (PDict (without_signature (handoff_dict h)))"
proof -
  have dist: "distinct (map fst (handoff_dict h))" by (simp only: handoff_dict_keys HANDOFF_KEYS_distinct)
  obtain d where d: "json_norm (PDict (handoff_dict h)) = PDict d" "wire_object P (PBytes w) = Inr d"
    using decode_wire_canonical[OF assms(1)[unfolded handoff_to_bytes_def] handoff_json_ok[OF assms(2)]
        handoff_depth[OF assms(3)] assms(4), of HANDOFF_KEYS P "''handoff''"]
    unfolding wire_object_def handoff_dict_keys by blast
  note m = map_of_json_norm[OF d(1) dist]
  have r: "object_reads d h"
    by (simp add: object_reads_def m handoff_dict_def comp_def)
  moreover have p: "map_of d (lit ''payload'') = Some (h_payload h)"
    using assms(3) by (simp add: m handoff_dict_def)
  moreover have k: "keys_distinct (PDict d)" "set (map fst d) = set (map lit HANDOFF_KEYS)"
    by (rule decode_wire_eq_Inr[OF d(2)[unfolded wire_object_def]], assumption)+
  have "canonical (PDict (without_signature d)) = canonical (PDict (without_signature (handoff_dict h)))"
    using carries_canonical(2)[OF object_carries[OF r p k(2)]] k(1) by simp
  ultimately show thesis using that d(2) by blast
qed

text \<open>The handoff \<open>issue\<close> signs.\<close>

definition issued_handoff :: "platform \<Rightarrow> policy \<Rightarrow> grant \<Rightarrow> pystr \<Rightarrow> int \<Rightarrow> pyval \<Rightarrow> bytes \<Rightarrow> pystr \<Rightarrow> handoff" where
  "issued_handoff P p g job_id now pl b signature =
     \<lparr>h_version = VERSION, h_job_id = job_id, h_user_id = g_user_id g, h_orchestrator_id = p_orchestrator_id p,
      h_worker_agent_id = g_worker_agent_id g, h_tier = g_tier g, h_tools = g_tools g,
      h_sandbox_profile = g_sandbox_profile g, h_approval_state = approval_state_of g, h_policy_version = p_version p,
      h_issued_at = now, h_expires_at = now + p_handoff_ttl_seconds p, h_payload = pl,
      h_payload_sha256 = sha256_hex P b, h_signature = signature\<rparr>"

lemma issued_handoff_dict:
  "handoff_dict (issued_handoff P p g job_id now pl b signature)
     = issue_body P p g job_id now pl b @ [(lit ''signature'', PStr signature)]"
  by (simp add: handoff_dict_def issued_handoff_def issue_body_def)

lemma issued_handoff_body:
  "without_signature (handoff_dict (issued_handoff P p g job_id now pl b signature)) = issue_body P p g job_id now pl b"
  by (simp add: issued_handoff_dict without_signature_def issue_body_def)

lemma issue_eq_Inr:
  assumes "issue P request subject job_id policy signer now = Inr w"
  obtains g pl b m where "payload request = Inr pl" "grant_for policy subject = Inr g" "job_id \<noteq> []"
    "canonical pl = Inr b" "canonical (PDict (issue_body P policy g job_id now pl b)) = Inr m"
    "handoff_to_bytes (issued_handoff P policy g job_id now pl b (bytes_hex (handoff_sign P signer m))) = Inr w"
    "length w \<le> MAX_WIRE_BYTES"
proof -
  from assms obtain pl g b s where 1: "payload request = Inr pl" "grant_for policy subject = Inr g" "job_id \<noteq> []"
    "canonical pl = Inr b" "handoff_signature P (PDict (issue_body P policy g job_id now pl b)) signer = Inr s"
    "canonical (PDict (issue_body P policy g job_id now pl b @ [(lit ''signature'', PStr s)])) = Inr w"
    "length w \<le> MAX_WIRE_BYTES"
    by (auto simp: issue_def Let_def result_simps)
  moreover from 1(5) obtain m where "canonical (PDict (issue_body P policy g job_id now pl b)) = Inr m"
    "s = bytes_hex (handoff_sign P signer m)"
    by (auto simp: handoff_signature_def rbind_eq_Inr)
  ultimately show thesis using that by (auto simp: handoff_to_bytes_def issued_handoff_dict)
qed

text \<open>The strings of a policy and a grant survive JSON.\<close>

definition policy_text_ok :: "policy \<Rightarrow> grant \<Rightarrow> bool" where
  "policy_text_ok p g \<longleftrightarrow>
     list_all text_ok [p_version p, p_orchestrator_id p, g_user_id g, g_worker_agent_id g, g_tier g, g_sandbox_profile g]
   \<and> list_all text_ok (g_tools g)"

lemma issue_accepted:
  assumes "issue P request subject job_id policy signer issued = Inr w"
    and "handoff_signer_init P key = Inr signer" "ed25519_ok P" "hash_ok P"
    and "valid_policy policy" "grant_for policy subject = Inr g" "valid_grant g" "policy_text_ok policy g"
    and "text_ok job_id" "json_ok request"
    and "issued \<le> now" "now < issued + p_handoff_ttl_seconds policy"
    and "as_verifier verifier = Inr (hs_verifier signer)" "g_requires_approval g \<longrightarrow> allow_pending"
  shows "\<exists>d h. wire_object P (PBytes w) = Inr d
     \<and> from_object P d subject job_id policy verifier now allow_pending = Inr h
     \<and> h_issued_at h = issued \<and> payload request = Inr (h_payload h) \<and> h_approval_state h = approval_state_of g"
proof -
  from assms(1) obtain g' pl b m where i: "payload request = Inr pl" "grant_for policy subject = Inr g'" "job_id \<noteq> []"
    "canonical pl = Inr b" "canonical (PDict (issue_body P policy g' job_id issued pl b)) = Inr m"
    "handoff_to_bytes (issued_handoff P policy g' job_id issued pl b (bytes_hex (handoff_sign P signer m))) = Inr w"
    "length w \<le> MAX_WIRE_BYTES" by (rule issue_eq_Inr)
  have g': "g' = g" using i(2) assms(6) by simp
  define s h where "s = bytes_hex (handoff_sign P signer m)"
    and "h = issued_handoff P policy g job_id issued pl b (bytes_hex (handoff_sign P signer m))"
  have sig: "is_signature s" using assms(3) by (simp add: s_def handoff_sign_def sign_hex_signature)
  have pf: "payload_facts P h"
    using i(1,4) by (auto simp: payload_facts_def payload_eq_Inr h_def issued_handoff_def)
  have pl: "json_ok pl"
    using i(1) assms(10) by (fastforce simp: payload_eq_Inr list_all_iff dest: map_of_SomeD)
  have ok: "handoff_text_ok h"
    using assms(4,8,9) pl sig
    by (simp add: handoff_text_ok_def policy_text_ok_def h_def issued_handoff_def s_def VERSION_def
        approval_state_of_def PENDING_def NOT_REQUIRED_def text_ok_ascii)
  obtain x where x: "h_payload h = PDict [(lit ''text'', PStr x)]" using pf by (auto simp: payload_facts_def)
  obtain d where d: "wire_object P (PBytes w) = Inr d" "object_reads d h"
    "map_of d (lit ''payload'') = Some (h_payload h)"
    "canonical (PDict (without_signature d)) = canonical (PDict (without_signature (handoff_dict h)))"
    by (rule handoff_object[OF i(6)[folded s_def, unfolded g', folded h_def[folded s_def]] ok x i(7)])
  have "from_object P d subject job_id policy verifier now allow_pending = Inr h"
  proof (rule from_object_complete[OF assms(6,13,5,7) d(2,3) pf assms(4)])
    show "handoff_facts policy g job_id now h"
      using assms(11,12) by (simp add: handoff_facts_def h_def issued_handoff_def)
    show "canonical (PDict (without_signature d)) = Inr m"
      using d(4) i(5) by (simp add: h_def issued_handoff_body g')
    show "handoff_verifies P (hs_verifier signer) m (handoff_sign P signer m)"
      using assms(3) handoff_signer_init_eq_Inr[OF assms(2)]
      by (simp add: handoff_verifies_def handoff_sign_def sign_verifies)
  qed (use assms(14) i(3) sig in \<open>auto simp: h_def issued_handoff_def s_def approval_state_of_def
         PENDING_def NOT_REQUIRED_def split: if_splits\<close>)
  moreover have "h_issued_at h = issued" "payload request = Inr (h_payload h)" "h_approval_state h = approval_state_of g"
    using i(1) by (simp_all add: h_def issued_handoff_def)
  ultimately show ?thesis using d(1) by blast
qed


lemma from_object_non_ascii_digest:
  assumes "grant_for policy subject = Inr g" "as_verifier verifier = Inr v" "job_id \<noteq> []"
    and "object_reads d h" "map_of d (lit ''payload'') = Some (h_payload h)" "payload (h_payload h) = Inr (h_payload h)"
    and "canonical (h_payload h) = Inr b"
    and "list_all (\<lambda>s. s \<noteq> []) [h_version h, h_job_id h, h_user_id h, h_orchestrator_id h, h_worker_agent_id h,
           h_tier h, h_sandbox_profile h, h_approval_state h, h_policy_version h, h_payload_sha256 h, h_signature h]"
    and "h_tools h \<noteq> []" "distinct (h_tools h)" "[] \<notin> set (h_tools h)"
    and "\<not> is_ascii (h_payload_sha256 h)"
  shows "from_object P d subject job_id policy verifier now allow_pending = Inl (PyError ''TypeError'')"
proof -
  have str: "string_item d k = Inr s" if "map_of d (lit k) = Some (PStr s)" "s \<noteq> []" for k s
    using that by (simp add: string_item_eq_Inr)
  have item: "get_item d k = Inr x" if "map_of d (lit k) = Some x" for k x
    using that by (simp add: get_item_eq_Inr)
  have tools: "rbind (get_item d ''tools'') (\<lambda>x. string_tuple x ''tools'') = Inr (h_tools h)"
    using assms(4,9-11) by (auto simp: object_reads_def rbind_eq_Inr get_item_eq_Inr string_tuple_eq_Inr)
  show ?thesis
    unfolding from_object_def
    using assms(1-8,12) tools
    by (simp add: py_string_PStr str item object_reads_def compare_digest_def)
qed

lemma rbind_if: "rbind (if c then m else n) f = (if c then rbind m f else rbind n f)"
  by simp

lemma from_object_no_pending:
  "from_object P d subject job_id policy verifier now False =
     rbind (from_object P d subject job_id policy verifier now True) (\<lambda>h.
       if h_approval_state h = PENDING then fail ''pending approval handoff cannot reach a worker'' else Inr h)"
  by (simp only: from_object_def rbind_assoc rbind_if rbind_Inl rbind_Inr simp_thms if_False handoff.select_convs
      not_True_eq_False not_False_eq_True)

section \<open>The canonical form determines the value\<close>

lemma canonical_inject:
  assumes "canonical v = Inr b" "canonical v' = Inr b" "json_ok v" "json_ok v'"
  shows "json_norm v = json_norm v'"
proof -
  obtain t t' where t: "dumps v = Some t" "dumps v' = Some t'" "ascii_bytes t = ascii_bytes t'"
    using assms(1,2) by (auto simp: canonical_eq_Inr)
  have "t = t'" using t(3) dumps_ascii[OF t(1) assms(3)] dumps_ascii[OF t(2) assms(4)] by (simp add: ascii_bytes_inject)
  then show ?thesis
    using json_roundtrip[OF wire_hooks_keep[of undefined "[]"] t(1) assms(3)]
      json_roundtrip[OF wire_hooks_keep[of undefined "[]"] t(2) assms(4)] by simp
qed

lemma canonical_dict_inject:
  assumes "canonical (PDict d) = Inr b" "canonical (PDict d') = Inr b" "json_ok (PDict d)" "json_ok (PDict d')"
  shows "map_option json_norm (map_of d k) = map_option json_norm (map_of d' k)"
proof -
  obtain e where e: "json_norm (PDict d) = PDict e" by simp
  then have e': "json_norm (PDict d') = PDict e" using canonical_inject[OF assms] by simp
  from map_of_json_norm[OF e, of k] map_of_json_norm[OF e', of k] assms(3,4) show ?thesis by simp
qed

lemma canonical_dict_defined:
  "(\<exists>b. canonical (PDict kvs) = Inr b) \<longleftrightarrow> (\<forall>kv \<in> set kvs. dumps (snd kv) \<noteq> None)"
proof -
  have "(\<exists>t. dumps (PDict kvs) = Some t) \<longleftrightarrow>
      (\<exists>kts. opt_map (\<lambda>(k, v). map_option (Pair k) (dumps v)) kvs = Some kts)" by auto
  also have "\<dots> \<longleftrightarrow> (\<forall>kv \<in> set kvs. dumps (snd kv) \<noteq> None)" by (auto simp: dumps_dict_texts)
  finally show ?thesis by (simp add: canonical_eq_Inr)
qed

section \<open>How long a wire gets\<close>

lemma length_json_string: "length (json_string s) \<le> 12 * length s + 2"
proof -
  have "length (concat (map esc_char s)) \<le> 12 * length s"
  proof (induction s)
    case (Cons c s)
    have "length (esc_char c) \<le> 12" by (simp add: esc_char_def u_escape_def u_digits_def)
    with Cons show ?case by simp
  qed simp
  then show ?thesis by (simp add: json_string_def)
qed

lemma length_join_comma: "length (join_comma ts) \<le> (\<Sum>t\<leftarrow>ts. Suc (length t))"
  by (induction ts rule: join_comma.induct) auto

text \<open>An upper bound of the text of a value, for the values a handoff holds.\<close>

fun text_bound :: "pyval \<Rightarrow> nat" where
  "text_bound (PStr s) = 12 * length s + 2"
| "text_bound (PInt i) = 20"
| "text_bound (PList vs) = 2 + (\<Sum>v\<leftarrow>vs. Suc (text_bound v))"
| "text_bound (PDict kvs) = 2 + (\<Sum>kv\<leftarrow>kvs. 12 * length (fst kv) + 4 + text_bound (snd kv))"
| "text_bound PNone = 4"
| "text_bound v = 0"

fun bounded_value :: "pyval \<Rightarrow> bool" where
  "bounded_value (PStr s) = True"
| "bounded_value (PInt i) \<longleftrightarrow> \<bar>i\<bar> < 10 ^ 18"
| "bounded_value (PList vs) = list_all bounded_value vs"
| "bounded_value (PDict kvs) = list_all (\<lambda>kv. bounded_value (snd kv)) kvs"
| "bounded_value PNone = True"
| "bounded_value v = False"

lemma int_text_bounded: "\<bar>i\<bar> < 10 ^ 18 \<Longrightarrow> \<exists>t. int_text i = Some t \<and> length t \<le> 20"
proof -
  assume "\<bar>i\<bar> < 10 ^ 18"
  then have "nat \<bar>i\<bar> < 10 ^ 18" by (simp add: nat_less_iff)
  from nat_digits_length_bound[OF this] have "length (nat_digits (nat \<bar>i\<bar>)) \<le> 18" by simp
  then show ?thesis by (auto simp: int_text_def max_str_digits_def Let_def abs_if)
qed

lemma dumps_bounded: "bounded_value v \<Longrightarrow> \<exists>t. dumps v = Some t \<and> length t \<le> text_bound v"
proof (induction v rule: bounded_value.induct)
  case (2 i)
  then show ?case using int_text_bounded by simp
next
  case (3 vs)
  then have el: "\<And>v. v \<in> set vs \<Longrightarrow> dumps v \<noteq> None \<and> length (the (dumps v)) \<le> text_bound v"
    by (force simp: list_all_iff)
  have "length (join_comma (map (\<lambda>v. the (dumps v)) vs)) \<le> (\<Sum>t\<leftarrow>map (\<lambda>v. the (dumps v)) vs. Suc (length t))"
    by (rule length_join_comma)
  also have "\<dots> \<le> (\<Sum>v\<leftarrow>vs. Suc (text_bound v))"
    unfolding map_map comp_def by (rule sum_list_mono) (use el in auto)
  finally have "length (join_comma (map (\<lambda>v. the (dumps v)) vs)) \<le> (\<Sum>v\<leftarrow>vs. Suc (text_bound v))" .
  moreover have "opt_map dumps vs = Some (map (\<lambda>v. the (dumps v)) vs)" using el by (simp add: opt_map_conv)
  ultimately show ?case by simp
next
  case (4 kvs)
  let ?f = "\<lambda>(k, v). member_text (k, the (dumps v))" and ?S = "sort_key fst kvs"
  have el: "\<And>kv. kv \<in> set kvs \<Longrightarrow> dumps (snd kv) \<noteq> None \<and> length (the (dumps (snd kv))) \<le> text_bound (snd kv)"
    using 4 by (force simp: list_all_iff)
  have "opt_map (\<lambda>(k, v). map_option (Pair k) (dumps v)) kvs = Some (map (\<lambda>(k, v). (k, the (dumps v))) kvs)"
    using el by (fastforce simp: dumps_dict_texts)
  then have d: "dumps (PDict kvs) = Some (123 # join_comma (map ?f ?S) @ [125])"
    by (auto simp: sort_pairs_map comp_def intro!: arg_cong[where f = join_comma])
  have "length (join_comma (map ?f ?S)) \<le> (\<Sum>t\<leftarrow>map ?f ?S. Suc (length t))"
    by (rule length_join_comma)
  also have "\<dots> = (\<Sum>kv\<leftarrow>?S. Suc (length (?f kv)))" by (simp add: comp_def)
  also have "\<dots> \<le> (\<Sum>kv\<leftarrow>?S. 12 * length (fst kv) + 4 + text_bound (snd kv))"
  proof (rule sum_list_mono)
    fix kv assume "kv \<in> set ?S"
    then have "length (the (dumps (snd kv))) \<le> text_bound (snd kv)" using el by simp
    then show "Suc (length (?f kv)) \<le> 12 * length (fst kv) + 4 + text_bound (snd kv)"
      using length_json_string[of "fst kv"] by (cases kv) (simp add: length_member_text)
  qed
  also have "\<dots> = (\<Sum>kv\<leftarrow>kvs. 12 * length (fst kv) + 4 + text_bound (snd kv))"
    unfolding sum_mset_sum_list[symmetric] mset_map by simp
  finally show ?case unfolding d text_bound.simps by simp
qed (use length_json_string in \<open>auto simp: lit_words\<close>)

lemma canonical_bounded:
  "bounded_value v \<Longrightarrow> \<exists>b. canonical v = Inr b \<and> length b \<le> text_bound v"
  using dumps_bounded[of v] by (auto simp: canonical_def)

text \<open>The characters a caller and the policy contribute to a handoff.\<close>

definition handoff_chars :: "policy \<Rightarrow> grant \<Rightarrow> pystr \<Rightarrow> pystr \<Rightarrow> nat" where
  "handoff_chars p g job_id s =
     length (p_version p) + length (p_orchestrator_id p) + length (g_user_id g) + length (g_worker_agent_id g)
   + length (g_tier g) + length (g_sandbox_profile g) + (\<Sum>t\<leftarrow>g_tools g. Suc (length t)) + length job_id + length s"

lemma tools_bound: "(\<Sum>t\<leftarrow>ts. Suc (12 * length t + 2)) \<le> 12 * (\<Sum>t\<leftarrow>ts. Suc (length t))"
  by (induction ts) auto

lemma issued_bound:
  assumes "hash_ok P" "length sg = 128" "handoff_chars p g job_id s \<le> 800"
  shows "text_bound (PDict (handoff_dict (issued_handoff P p g job_id now (PDict [(lit ''text'', PStr s)]) b sg))) \<le> MAX_WIRE_BYTES"
proof -
  have "length (sha256_hex P b) = 64" using assms(1) by (simp add: sha256_hex_def hash_ok_def)
  moreover have "length VERSION = 20" "length (approval_state_of g) \<le> 16"
    by (simp_all add: VERSION_def approval_state_of_def PENDING_def NOT_REQUIRED_def)
  ultimately show ?thesis
    using assms(2,3) tools_bound[of "g_tools g"]
    by (simp add: handoff_dict_def issued_handoff_def handoff_chars_def MAX_WIRE_BYTES_def comp_def)
qed

lemma issue_returns:
  assumes "payload request = Inr (PDict [(lit ''text'', PStr s)])" "grant_for policy subject = Inr g" "job_id \<noteq> []"
    and "hash_ok P" "ed25519_ok P" "handoff_chars policy g job_id s \<le> 800"
    and "\<bar>now\<bar> < 10 ^ 17" "\<bar>p_handoff_ttl_seconds policy\<bar> \<le> 300"
  shows "\<exists>w. issue P request subject job_id policy signer now = Inr w"
proof -
  let ?pl = "PDict [(lit ''text'', PStr s)]"
  obtain b where b: "canonical ?pl = Inr b" using canonical_bounded[of ?pl] by auto
  let ?body = "issue_body P policy g job_id now ?pl b"
  have t: "\<bar>now\<bar> < 10 ^ 18" "\<bar>now + p_handoff_ttl_seconds policy\<bar> < 10 ^ 18" using assms(7,8) by simp_all
  have "bounded_value (PDict ?body)"
    using t by (simp add: issue_body_def list.pred_map comp_def list_all_iff)
  then obtain m where m: "canonical (PDict ?body) = Inr m" using canonical_bounded by blast
  let ?s = "bytes_hex (handoff_sign P signer m)"
  let ?h = "issued_handoff P policy g job_id now ?pl b ?s"
  have "bounded_value (PDict (handoff_dict ?h))"
    using t by (simp add: issued_handoff_dict issue_body_def list.pred_map comp_def list_all_iff)
  then obtain w where w: "canonical (PDict (handoff_dict ?h)) = Inr w" "length w \<le> text_bound (PDict (handoff_dict ?h))"
    using canonical_bounded by blast
  have "length ?s = 128" using assms(5) by (simp add: ed25519_ok_def handoff_sign_def)
  from w(2) issued_bound[OF assms(4) this assms(6)] have "length w \<le> MAX_WIRE_BYTES" by (rule le_trans)
  then show ?thesis
    using assms(1-3) b m w(1)
    by (simp add: issue_def Let_def py_string_PStr handoff_signature_def issued_handoff_dict del: payload_text)
qed

lemma handoff_signer_init_ok:
  "32 \<le> length key \<Longrightarrow> ed25519_ok P \<Longrightarrow> \<exists>s. handoff_signer_init P key = Inr s"
  by (simp add: handoff_signer_init_def handoff_verifier_init_def Let_def ed25519_ok_def)


section \<open>A policy and a request for the witnesses\<close>

definition sample_grant :: grant where
  "sample_grant =
     \<lparr>g_subject = lit ''alice'', g_user_id = lit ''user-1'', g_worker_agent_id = lit ''worker-1'', g_tier = lit ''basic'',
      g_tools = [lit ''summarize''], g_sandbox_profile = lit ''strict'', g_requires_approval = False\<rparr>"

definition sample_pending_grant :: grant where
  "sample_pending_grant = sample_grant\<lparr>g_subject := lit ''bob'', g_requires_approval := True\<rparr>"

definition sample_policy :: policy where
  "sample_policy =
     \<lparr>p_version = lit ''policy-1'', p_orchestrator_id = lit ''orch-1'', p_handoff_ttl_seconds = 300,
      p_allowed_tools = [lit ''summarize''], p_allowed_sandbox_profiles = [lit ''strict''],
      p_grants = [sample_grant, sample_pending_grant]\<rparr>"

definition sample_request :: pyval where
  "sample_request = PDict [(lit ''text'', PStr (lit ''hello''))]"

definition sample_signer :: handoff_signer where
  "sample_signer =
     \<lparr>hs_signing_key = hmac_sha256 sample_platform (replicate 32 1) handoff_signing_label,
      hs_verifier = \<lparr>hv_public_key =
        ed25519_public sample_platform (hmac_sha256 sample_platform (replicate 32 1) handoff_signing_label)\<rparr>\<rparr>"

lemma sample_signer_init: "handoff_signer_init sample_platform (replicate 32 1) = Inr sample_signer"
  using sample_platform_ok(2)
  by (simp add: handoff_signer_init_def handoff_verifier_init_def Let_def sample_signer_def ed25519_ok_def)

lemma sample_subjects:
  "utf8_encode (lit ''alice'') = Inr (ascii_bytes (lit ''alice''))"
  "utf8_encode (lit ''bob'') = Inr (ascii_bytes (lit ''bob''))"
  by (rule utf8_encode_ascii, simp)+

lemma sample_grants_valid [simp]: "valid_grant sample_grant" "valid_grant sample_pending_grant"
  by (simp_all add: valid_grant_def grant_post_init_def subject_bytes_def py_string_PStr sample_subjects
      string_tuple_def string_items_def sample_grant_def sample_pending_grant_def)

lemma sample_policy_valid [simp]: "valid_policy sample_policy"
  unfolding valid_policy_def
  by (simp add: policy_post_init_def py_string_PStr string_tuple_def string_items_def sample_policy_def)
    (simp add: sample_grant_def sample_pending_grant_def)

lemma sample_policy_unicode: "\<forall>g \<in> set (p_grants sample_policy). unicode (g_subject g)"
  by (simp add: sample_policy_def sample_grant_def sample_pending_grant_def text_ok_unicode)

lemma sample_grant_for [simp]:
  "grant_for sample_policy (lit ''alice'') = Inr sample_grant"
  "grant_for sample_policy (lit ''bob'') = Inr sample_pending_grant"
  using grant_for_member[OF sample_policy_valid sample_policy_unicode, of sample_grant]
    grant_for_member[OF sample_policy_valid sample_policy_unicode, of sample_pending_grant]
  by (simp_all add: sample_policy_def sample_grant_def sample_pending_grant_def)

lemma sample_text_ok [simp]:
  "policy_text_ok sample_policy sample_grant" "policy_text_ok sample_policy sample_pending_grant" "json_ok sample_request"
  by (simp_all add: policy_text_ok_def sample_policy_def sample_grant_def sample_pending_grant_def sample_request_def)

definition sample_wire :: "pystr \<Rightarrow> bytes" where
  "sample_wire subject =
     (case issue sample_platform sample_request subject (lit ''job-1'') sample_policy sample_signer 100 of
        Inr w \<Rightarrow> w | Inl _ \<Rightarrow> [])"

lemma sample_chars:
  "handoff_chars sample_policy sample_grant (lit ''job-1'') (lit ''hello'') \<le> 800"
  "handoff_chars sample_policy sample_pending_grant (lit ''job-1'') (lit ''hello'') \<le> 800"
  by (simp_all add: handoff_chars_def sample_policy_def sample_grant_def sample_pending_grant_def)

lemma sample_issue:
  "subject \<in> {lit ''alice'', lit ''bob''} \<Longrightarrow>
     issue sample_platform sample_request subject (lit ''job-1'') sample_policy sample_signer 100 = Inr (sample_wire subject)"
proof -
  assume s: "subject \<in> {lit ''alice'', lit ''bob''}"
  then obtain g where g: "grant_for sample_policy subject = Inr g"
    and b: "handoff_chars sample_policy g (lit ''job-1'') (lit ''hello'') \<le> 800"
    using sample_grant_for sample_chars by blast
  have p: "payload sample_request = Inr (PDict [(lit ''text'', PStr (lit ''hello''))])"
    by (simp add: sample_request_def)
  have "\<exists>w. issue sample_platform sample_request subject (lit ''job-1'') sample_policy sample_signer 100 = Inr w"
    by (rule issue_returns[OF p g _ _ _ b]) (simp_all add: sample_policy_def)
  then show ?thesis by (auto simp: sample_wire_def)
qed


lemma sample_fields [simp]:
  "\<not> g_requires_approval sample_grant" "g_requires_approval sample_pending_grant"
  "p_handoff_ttl_seconds sample_policy = 300"
  by (simp_all add: sample_grant_def sample_pending_grant_def sample_policy_def)

lemma sample_validate:
  "\<exists>h. validate sample_platform (PBytes (sample_wire (lit ''alice''))) (lit ''alice'') (lit ''job-1'') sample_policy
     (Signer sample_signer) 150 = Inr h"
  using issue_accepted[OF sample_issue sample_signer_init, of "lit ''alice''" sample_grant 150 "Signer sample_signer" False]
  by (auto simp: validate_def)

section \<open>Properties\<close>

text \<open>C23. Round trip of the handoff boundary: what \<open>issue\<close> signed for a subject whose grant needs no
  approval, \<open>validate\<close> accepts against the same policy, with the public half of the signer, at every
  moment of the validity window, and gives back the job, the payload and the time it was issued for.\<close>

theorem issue_validate_roundtrip:
  assumes "issue P request subject job_id policy signer issued = Inr w"
    and "handoff_signer_init P key = Inr signer" "ed25519_ok P" "hash_ok P"
    and "valid_policy policy" "grant_for policy subject = Inr g" "valid_grant g" "policy_text_ok policy g"
    and "text_ok job_id" "json_ok request" "\<not> g_requires_approval g"
    and "issued \<le> now" "now < issued + p_handoff_ttl_seconds policy"
  shows "\<exists>h. validate P (PBytes w) subject job_id policy (Verifier (hs_verifier signer)) now = Inr h
     \<and> handoff_facts policy g job_id now h \<and> h_issued_at h = issued \<and> payload request = Inr (h_payload h)"
proof -
  obtain d h where h: "wire_object P (PBytes w) = Inr d"
    "from_object P d subject job_id policy (Verifier (hs_verifier signer)) now False = Inr h"
    "h_issued_at h = issued" "payload request = Inr (h_payload h)"
    using issue_accepted[OF assms(1-10,12,13), of "Verifier (hs_verifier signer)" False] assms(11) by auto
  from from_object_sound[OF h(1,2)] assms(6) have "handoff_facts policy g job_id now h" by auto
  with h show ?thesis by (simp add: validate_def)
qed

theorem issue_validate_roundtrip_witness:
  "\<exists>h. validate sample_platform (PBytes (sample_wire (lit ''alice''))) (lit ''alice'') (lit ''job-1'') sample_policy
     (Verifier (hs_verifier sample_signer)) 399 = Inr h \<and> h_issued_at h = 100"
  using issue_validate_roundtrip[OF sample_issue sample_signer_init, of "lit ''alice''" sample_grant 399]
  by auto

text \<open>C24. What \<open>validate\<close> returns is what was signed and what the trusted policy says: the wire is
  byte for byte the canonical form of the handoff, every field is the one of the subject's grant, the
  moment lies in the validity window, the payload has the digest the handoff names, the signature
  verifies over the handoff without its signature, and the grant needs no approval.\<close>

theorem validate_sound:
  assumes "validate P wire subject job_id policy verifier now = Inr h"
  shows "\<exists>w g v. wire = PBytes w \<and> handoff_to_bytes h = Inr w \<and> length w \<le> MAX_WIRE_BYTES
     \<and> grant_for policy subject = Inr g \<and> as_verifier verifier = Inr v
     \<and> handoff_facts policy g job_id now h \<and> payload_facts P h \<and> signature_facts P v h
     \<and> \<not> g_requires_approval g"
  by (rule validate_sound_lemma[OF assms])

theorem validate_sound_witness:
  "\<exists>h. validate sample_platform (PBytes (sample_wire (lit ''alice''))) (lit ''alice'') (lit ''job-1'') sample_policy
     (Signer sample_signer) 150 = Inr h \<and> handoff_facts sample_policy sample_grant (lit ''job-1'') 150 h"
proof -
  obtain h where h: "validate sample_platform (PBytes (sample_wire (lit ''alice''))) (lit ''alice'') (lit ''job-1'')
      sample_policy (Signer sample_signer) 150 = Inr h" using sample_validate by blast
  from validate_sound[OF h] h show ?thesis by auto
qed

text \<open>A pending handoff cannot reach a worker by the ordinary path: what \<open>issue\<close> signs for a grant
  that requires approval is accepted by \<open>validate_pending\<close>, and \<open>validate\<close> refuses it with the
  approval error.\<close>

theorem pending_needs_approval:
  assumes "issue P request subject job_id policy signer issued = Inr w"
    and "handoff_signer_init P key = Inr signer" "ed25519_ok P" "hash_ok P"
    and "valid_policy policy" "grant_for policy subject = Inr g" "valid_grant g" "policy_text_ok policy g"
    and "text_ok job_id" "json_ok request" "g_requires_approval g"
    and "issued \<le> now" "now < issued + p_handoff_ttl_seconds policy"
  shows "(\<exists>h. validate_pending P (PBytes w) subject job_id policy (Signer signer) now = Inr h
            \<and> handoff_facts policy g job_id now h \<and> payload request = Inr (h_payload h))
     \<and> validate P (PBytes w) subject job_id policy (Signer signer) now
         = fail ''pending approval handoff cannot reach a worker''"
proof -
  obtain d h where h: "wire_object P (PBytes w) = Inr d"
    "from_object P d subject job_id policy (Signer signer) now True = Inr h"
    "payload request = Inr (h_payload h)" "h_approval_state h = approval_state_of g"
    using issue_accepted[OF assms(1-10,12,13), of "Signer signer" True] by auto
  have p: "h_approval_state h = PENDING" using h(4) assms(11) by (simp add: approval_state_of_def)
  from from_object_sound[OF h(1,2)] assms(6) have "handoff_facts policy g job_id now h" by auto
  moreover have "validate_pending P (PBytes w) subject job_id policy (Signer signer) now = Inr h"
    using h p by (simp add: validate_pending_def)
  moreover have "validate P (PBytes w) subject job_id policy (Signer signer) now
      = fail ''pending approval handoff cannot reach a worker''"
    using h(1,2) p by (simp add: validate_def from_object_no_pending)
  ultimately show ?thesis using h(3) by blast
qed

theorem pending_needs_approval_witness:
  "validate sample_platform (PBytes (sample_wire (lit ''bob''))) (lit ''bob'') (lit ''job-1'') sample_policy
     (Signer sample_signer) 150 = fail ''pending approval handoff cannot reach a worker''"
  using pending_needs_approval[OF sample_issue sample_signer_init, of "lit ''bob''" sample_pending_grant 150]
  by auto

text \<open>A handoff has one wire: two byte strings that \<open>validate\<close> turns into the same handoff, under
  whatever policies, verifiers and clocks, are equal. Nobody can re-encode a signed handoff.\<close>

theorem validate_wire_unique:
  assumes "validate P wire subject job_id policy verifier now = Inr h"
    and "validate P' wire' subject' job_id' policy' verifier' now' = Inr h"
  shows "wire = wire'"
proof -
  obtain w w' where "wire = PBytes w" "handoff_to_bytes h = Inr w" "wire' = PBytes w'" "handoff_to_bytes h = Inr w'"
    using validate_sound_lemma[OF assms(1)] validate_sound_lemma[OF assms(2)] by blast
  then show ?thesis by simp
qed

theorem validate_wire_unique_witness:
  "\<exists>h. {wire. validate sample_platform wire (lit ''alice'') (lit ''job-1'') sample_policy (Signer sample_signer) 150
         = Inr h} = {PBytes (sample_wire (lit ''alice''))}"
proof -
  obtain h where h: "validate sample_platform (PBytes (sample_wire (lit ''alice''))) (lit ''alice'') (lit ''job-1'')
      sample_policy (Signer sample_signer) 150 = Inr h" using sample_validate by blast
  have "wire = PBytes (sample_wire (lit ''alice''))"
    if "validate sample_platform wire (lit ''alice'') (lit ''job-1'') sample_policy (Signer sample_signer) 150 = Inr h"
    for wire by (rule validate_wire_unique[OF that h])
  with h show ?thesis by blast
qed

text \<open>\<open>grant_for\<close> gives a subject exactly its own grant: the comparison of UTF-8 bytes finds a
  grant of a valid policy if and only if the grant names that subject.\<close>

theorem grant_for_iff:
  assumes "valid_policy p" "unicode s" "\<forall>g \<in> set (p_grants p). unicode (g_subject g)"
  shows "grant_for p s = Inr g \<longleftrightarrow> g \<in> set (p_grants p) \<and> g_subject g = s"
  using grant_for_eq_Inr[OF _ assms(2,3)] grant_for_member[OF assms(1,3)] by blast

theorem grant_for_iff_witness:
  "grant_for sample_policy (lit ''alice'') = Inr sample_grant \<and> grant_for sample_policy (lit ''carol'') \<noteq> Inr sample_grant"
  using grant_for_iff[OF sample_policy_valid _ sample_policy_unicode, of "lit ''alice''" sample_grant]
    grant_for_iff[OF sample_policy_valid _ sample_policy_unicode, of "lit ''carol''" sample_grant]
  by (auto simp: text_ok_unicode sample_grant_def sample_policy_def)

text \<open>The bracket counter that guards the parser measures the real nesting: on the canonical text
  of any value it returns the depth of the value.\<close>

theorem wire_depth_exact:
  assumes "dumps v = Some t" "json_ok v"
  shows "wire_depth t = json_depth v"
  by (rule wire_depth_dumps[OF assms])

theorem wire_depth_exact_witness:
  "\<exists>t. dumps (PList [PList [PStr (lit ''[[[''), PInt 5]]) = Some t \<and> wire_depth t = 2"
proof -
  have "\<exists>t. dumps (PList [PList [PStr (lit ''[[[''), PInt 5]]) = Some t \<and> length t \<le> text_bound (PList [PList [PStr (lit ''[[[''), PInt 5]])"
    by (rule dumps_bounded) simp
  then obtain t where t: "dumps (PList [PList [PStr (lit ''[[[''), PInt 5]]) = Some t" by blast
  have "wire_depth t = 2" using wire_depth_exact[OF t] by simp
  with t show ?thesis by blast
qed

text \<open>\<open>issue\<close> returns: for an authorised subject, a non-empty job and a request of one text, with
  at most 800 characters in all the strings it copies, it produces a wire and never raises.\<close>

theorem issue_total:
  assumes "payload request = Inr (PDict [(lit ''text'', PStr s)])" "grant_for policy subject = Inr g" "job_id \<noteq> []"
    and "hash_ok P" "ed25519_ok P" "handoff_chars policy g job_id s \<le> 800"
    and "\<bar>now\<bar> < 10 ^ 17" "\<bar>p_handoff_ttl_seconds policy\<bar> \<le> 300"
  shows "\<exists>w. issue P request subject job_id policy signer now = Inr w"
  by (rule issue_returns[OF assms])

theorem issue_total_witness:
  "\<exists>w. issue sample_platform sample_request (lit ''alice'') (lit ''job-1'') sample_policy sample_signer 1700000000 = Inr w"
  by (rule issue_total[of _ "lit ''hello''", OF _ sample_grant_for(1) _ _ _ sample_chars(1)])
    (simp_all add: sample_request_def)

text \<open>The digest comparison escapes the contract boundary: a wire that is canonical and well-formed
  but names a payload digest with a non-ASCII character makes \<open>validate\<close> raise \<open>TypeError\<close>, not
  \<open>ContractError\<close>, before any signature is looked at.\<close>

theorem validate_non_ascii_digest:
  assumes "handoff_to_bytes h = Inr w" "handoff_text_ok h" "length w \<le> MAX_WIRE_BYTES"
    and "h_payload h = PDict [(lit ''text'', PStr s)]" "s \<noteq> []"
    and "list_all (\<lambda>s. s \<noteq> []) [h_version h, h_job_id h, h_user_id h, h_orchestrator_id h, h_worker_agent_id h,
           h_tier h, h_sandbox_profile h, h_approval_state h, h_policy_version h, h_payload_sha256 h, h_signature h]"
    and "h_tools h \<noteq> []" "distinct (h_tools h)" "[] \<notin> set (h_tools h)"
    and "\<not> is_ascii (h_payload_sha256 h)"
    and "grant_for policy subject = Inr g" "as_verifier verifier = Inr v" "job_id \<noteq> []"
  shows "validate P (PBytes w) subject job_id policy verifier now = Inl (PyError ''TypeError'')"
proof -
  obtain d where d: "wire_object P (PBytes w) = Inr d" "object_reads d h"
    "map_of d (lit ''payload'') = Some (h_payload h)"
    by (rule handoff_object[OF assms(1,2,4,3)])
  obtain b where "canonical (h_payload h) = Inr b" using canonical_bounded[of "h_payload h"] assms(4) by auto
  from from_object_non_ascii_digest[OF assms(11-13) d(2,3) _ this assms(6-10)] assms(4,5) d(1)
  show ?thesis by (simp add: validate_def)
qed

definition sample_bad_handoff :: handoff where
  "sample_bad_handoff =
     (issued_handoff sample_platform sample_policy sample_grant (lit ''job-1'') 100
        (PDict [(lit ''text'', PStr (lit ''hello''))]) [] (lit ''00''))\<lparr>h_payload_sha256 := [233]\<rparr>"

theorem validate_non_ascii_digest_witness:
  "\<exists>w. validate sample_platform (PBytes w) (lit ''alice'') (lit ''job-1'') sample_policy (Signer sample_signer) 150
     = Inl (PyError ''TypeError'')"
proof -
  have "bounded_value (PDict (handoff_dict sample_bad_handoff))"
    by (simp add: sample_bad_handoff_def issued_handoff_def handoff_dict_def sample_grant_def)
  then obtain w where w: "handoff_to_bytes sample_bad_handoff = Inr w"
    "length w \<le> text_bound (PDict (handoff_dict sample_bad_handoff))"
    using canonical_bounded unfolding handoff_to_bytes_def by blast
  have "text_bound (PDict (handoff_dict sample_bad_handoff)) \<le> MAX_WIRE_BYTES"
    by (simp add: sample_bad_handoff_def issued_handoff_def handoff_dict_def sample_grant_def sample_policy_def
        VERSION_def approval_state_of_def NOT_REQUIRED_def MAX_WIRE_BYTES_def)
  with w(2) have l: "length w \<le> MAX_WIRE_BYTES" by simp
  have "validate sample_platform (PBytes w) (lit ''alice'') (lit ''job-1'') sample_policy (Signer sample_signer) 150
      = Inl (PyError ''TypeError'')"
    by (rule validate_non_ascii_digest[OF w(1) _ l _ _ _ _ _ _ _ sample_grant_for(1) as_verifier_simps(1), where s = "lit ''hello''"])
      (simp_all add: sample_bad_handoff_def issued_handoff_def handoff_text_ok_def sample_grant_def sample_policy_def
        VERSION_def approval_state_of_def NOT_REQUIRED_def text_ok_def[of "[233]"])
  then show ?thesis by blast
qed

end
