(* ===== verification/Results.thy ===== *)
theory Results
  imports Contracts
begin

text \<open>
  \<open>geniusnew/results.py\<close>: what a worker signs and hands back (\<open>produce\<close>), and what the accepting
  instance takes (\<open>accept\<close>). The signing key is the worker's own; a result is bound to the digest of
  the handoff it answers (\<open>handoff_digest\<close>), and a failed result carries no output.
\<close>

section \<open>Data\<close>

record worker_verifier =
  wv_public_key :: bytes

record worker_authority =
  wa_result_key :: bytes
  wa_signing_key :: bytes
  wa_verifier :: worker_verifier

datatype result_verifier_arg = AuthorityArg worker_authority | VerifierArg worker_verifier | NotAResultVerifier

record job_result =
  r_version :: pystr
  r_job_id :: pystr
  r_worker_agent_id :: pystr
  r_handoff_sha256 :: pystr
  r_status :: pystr
  r_reason_code :: pystr
  r_output :: "pyval option"
  r_output_sha256 :: "pystr option"
  r_produced_at :: int
  r_signature :: pystr

definition RESULT_VERSION :: pystr where "RESULT_VERSION = lit ''geniusnew-result-v2''"
definition SUCCEEDED :: pystr where "SUCCEEDED = lit ''SUCCEEDED''"
definition FAILED :: pystr where "FAILED = lit ''FAILED''"
definition STATUSES :: "pystr set" where "STATUSES = {SUCCEEDED, FAILED}"
definition MAX_PRODUCED_AT :: int where "MAX_PRODUCED_AT = 4102444800"

definition REASON_CODES :: "pystr set" where
  "REASON_CODES = {lit ''WORK_COMPLETED'', lit ''TOOL_NOT_GRANTED'', lit ''WORKER_FAILED'', lit ''OUTPUT_REJECTED'',
     lit ''PAYLOAD_MUTATED'', lit ''HANDOFF_EXPIRED'', lit ''RESOURCE_EXHAUSTED'', lit ''ISOLATION_VIOLATED''}"

definition RESULT_KEYS :: "string list" where
  "RESULT_KEYS = [''version'', ''job_id'', ''worker_agent_id'', ''handoff_sha256'', ''status'', ''reason_code'',
     ''output'', ''output_sha256'', ''produced_at'', ''signature'']"

definition result_signing_label :: bytes where
  "result_signing_label = ascii_bytes (lit ''geniusnew/result-signing/ed25519/v1'')"

section \<open>Field checks\<close>

definition py_digest :: "pyval \<Rightarrow> string \<Rightarrow> pystr result" where
  "py_digest v field =
     (case v of
        PStr s \<Rightarrow> if \<not> is_digest s then fail (field @ '' must be a lowercase SHA-256 digest'') else Inr s
      | _ \<Rightarrow> fail (field @ '' must be a lowercase SHA-256 digest''))"

definition output_value :: "pyval \<Rightarrow> pyval result" where
  "output_value v =
     (case v of
        PDict kvs \<Rightarrow>
          if set (map fst kvs) \<noteq> {lit ''text''} then fail ''output must contain only text''
          else rbind (get_item kvs ''text'') (\<lambda>text.
            case text of
              PStr s \<Rightarrow> if s = [] then fail ''output text must be a non-empty string''
                        else Inr (PDict [(lit ''text'', PStr s)])
            | _ \<Rightarrow> fail ''output text must be a non-empty string'')
      | _ \<Rightarrow> fail ''output must contain only text'')"

definition reason_code :: "pyval \<Rightarrow> pystr result" where
  "reason_code v =
     (case v of
        PStr s \<Rightarrow> if s \<notin> REASON_CODES then fail ''reason_code is not one of the allowed result reason codes'' else Inr s
      | _ \<Rightarrow> fail ''reason_code is not one of the allowed result reason codes'')"

definition handoff_digest :: "platform \<Rightarrow> handoff \<Rightarrow> pystr result" where
  "handoff_digest P h =
     rbind (canonical (h_payload h)) (\<lambda>pl.
     rbind (compare_digest (sha256_hex P pl) (h_payload_sha256 h)) (\<lambda>same.
     if \<not> same then fail ''handoff payload no longer matches the digest it was signed with'' else
     rbind (handoff_to_bytes h) (\<lambda>w. Inr (sha256_hex P w))))"

section \<open>Authorities\<close>

definition worker_verifier_init :: "platform \<Rightarrow> bytes \<Rightarrow> worker_verifier result" where
  "worker_verifier_init P public_key =
     (if length public_key \<noteq> 32 then fail ''public_key must be 32 bytes''
      else if \<not> ed25519_valid_public P public_key then fail ''public_key is not an Ed25519 public key''
      else Inr \<lparr>wv_public_key = public_key\<rparr>)"

definition worker_verifies :: "platform \<Rightarrow> worker_verifier \<Rightarrow> bytes \<Rightarrow> bytes \<Rightarrow> bool" where
  "worker_verifies P v message signature = ed25519_verify P (wv_public_key v) message signature"

definition worker_authority_init :: "platform \<Rightarrow> bytes \<Rightarrow> bytes option \<Rightarrow> worker_authority result" where
  "worker_authority_init P result_key integrity_key =
     (if length result_key < 32 then fail ''result_key must be at least 32 bytes''
      else if integrity_key = Some result_key then fail ''result_key must not be the handoff integrity key''
      else
        let seed = hmac_sha256 P result_key result_signing_label
        in rbind (worker_verifier_init P (ed25519_public P seed)) (\<lambda>v.
             Inr \<lparr>wa_result_key = result_key, wa_signing_key = seed, wa_verifier = v\<rparr>))"

definition authority_sign :: "platform \<Rightarrow> worker_authority \<Rightarrow> pyval \<Rightarrow> pystr result" where
  "authority_sign P a body = rbind (canonical body) (\<lambda>m. Inr (bytes_hex (ed25519_sign P (wa_signing_key a) m)))"

definition result_verifier :: "result_verifier_arg \<Rightarrow> worker_verifier result" where
  "result_verifier a =
     (case a of
        AuthorityArg w \<Rightarrow> Inr (wa_verifier w)
      | VerifierArg v \<Rightarrow> Inr v
      | NotAResultVerifier \<Rightarrow> fail ''verifier must be a WorkerVerifier'')"

section \<open>Results\<close>

definition result_succeeded :: "job_result \<Rightarrow> bool" where
  "result_succeeded r \<longleftrightarrow> r_status r = SUCCEEDED"

definition or_none :: "pyval option \<Rightarrow> pyval" where
  "or_none v = (case v of None \<Rightarrow> PNone | Some x \<Rightarrow> x)"

definition result_dict :: "job_result \<Rightarrow> (pystr \<times> pyval) list" where
  "result_dict r =
     [(lit ''version'', PStr (r_version r)),
      (lit ''job_id'', PStr (r_job_id r)),
      (lit ''worker_agent_id'', PStr (r_worker_agent_id r)),
      (lit ''handoff_sha256'', PStr (r_handoff_sha256 r)),
      (lit ''status'', PStr (r_status r)),
      (lit ''reason_code'', PStr (r_reason_code r)),
      (lit ''output'', or_none (r_output r)),
      (lit ''output_sha256'', or_none (map_option PStr (r_output_sha256 r))),
      (lit ''produced_at'', PInt (r_produced_at r)),
      (lit ''signature'', PStr (r_signature r))]"

definition result_to_bytes :: "job_result \<Rightarrow> bytes result" where
  "result_to_bytes r = canonical (PDict (result_dict r))"

section \<open>Producing\<close>

definition produce_body ::
  "handoff \<Rightarrow> pystr \<Rightarrow> pystr \<Rightarrow> pystr \<Rightarrow> pyval \<Rightarrow> pyval \<Rightarrow> int \<Rightarrow> (pystr \<times> pyval) list" where
  "produce_body h digest status reason output output_sha256 now =
     [(lit ''version'', PStr RESULT_VERSION),
      (lit ''job_id'', PStr (h_job_id h)),
      (lit ''worker_agent_id'', PStr (h_worker_agent_id h)),
      (lit ''handoff_sha256'', PStr digest),
      (lit ''status'', PStr status),
      (lit ''reason_code'', PStr reason),
      (lit ''output'', output),
      (lit ''output_sha256'', output_sha256),
      (lit ''produced_at'', PInt now)]"

definition produce ::
  "platform \<Rightarrow> pyval \<Rightarrow> handoff \<Rightarrow> pystr \<Rightarrow> pystr \<Rightarrow> worker_authority \<Rightarrow> int \<Rightarrow> bytes result" where
  "produce P output h status reason authority now =
     rbind (py_integer (PInt now) ''now'') (\<lambda>now.
     if \<not> (0 < now \<and> now \<le> MAX_PRODUCED_AT) then fail ''now must be between 1 and 4102444800'' else
     if now < h_issued_at h then fail ''result predates the handoff it answers'' else
     if now \<ge> h_expires_at h then fail ''result was produced after its handoff expired'' else
     if status \<notin> STATUSES then fail ''status is not an allowed result status'' else
     rbind (handoff_digest P h) (\<lambda>digest.
     rbind (reason_code (PStr reason)) (\<lambda>reason.
     rbind (if status = SUCCEEDED
            then rbind (output_value output) (\<lambda>produced.
                 rbind (canonical produced) (\<lambda>b.
                 Inr (produce_body h digest status reason produced (PStr (sha256_hex P b)) now)))
            else if output \<noteq> PNone then fail ''a failed result must not carry output''
            else Inr (produce_body h digest status reason PNone PNone now)) (\<lambda>body.
     rbind (authority_sign P authority (PDict body)) (\<lambda>signature.
     rbind (canonical (PDict (body @ [(lit ''signature'', PStr signature)]))) (\<lambda>wire.
     rbind (decode_wire P (PBytes wire) RESULT_KEYS ''result'') (\<lambda>_.
     Inr wire)))))))"

section \<open>Accepting\<close>

definition check_digest :: "(pystr \<times> pyval) list \<Rightarrow> (string \<times> pystr) \<Rightarrow> unit result" where
  "check_digest d fe =
     rbind (string_item d (fst fe)) (\<lambda>value.
     rbind (compare_digest value (snd fe)) (\<lambda>same.
     if \<not> same then fail (''result '' @ fst fe @ '' does not match the handoff it claims to answer'') else Inr ()))"

definition accept_output :: "platform \<Rightarrow> (pystr \<times> pyval) list \<Rightarrow> pystr \<Rightarrow> (pyval option \<times> pystr option) result" where
  "accept_output P d status =
     rbind (get_item d ''output'') (\<lambda>out.
     rbind (get_item d ''output_sha256'') (\<lambda>out_sha256.
     if status = SUCCEEDED then
       rbind (output_value out) (\<lambda>output.
       rbind (py_digest out_sha256 ''output_sha256'') (\<lambda>sha.
       rbind (canonical output) (\<lambda>b.
       rbind (compare_digest sha (sha256_hex P b)) (\<lambda>same.
       if \<not> same then fail ''output hash does not match output'' else Inr (Some output, Some sha)))))
     else if out \<noteq> PNone \<or> out_sha256 \<noteq> PNone then fail ''a failed result must not carry output''
     else Inr (None, None)))"

definition accept :: "platform \<Rightarrow> pyval \<Rightarrow> handoff \<Rightarrow> result_verifier_arg \<Rightarrow> int \<Rightarrow> job_result result" where
  "accept P wire h verifier now =
     rbind (result_verifier verifier) (\<lambda>verifier.
     rbind (py_integer (PInt now) ''now'') (\<lambda>now.
     rbind (decode_wire P wire RESULT_KEYS ''result'') (\<lambda>d.
     rbind (string_item d ''version'') (\<lambda>version.
     rbind (string_item d ''job_id'') (\<lambda>job_id.
     rbind (string_item d ''worker_agent_id'') (\<lambda>worker_agent_id.
     rbind (string_item d ''status'') (\<lambda>status.
     rbind (string_item d ''reason_code'') (\<lambda>_.
     rbind (string_item d ''signature'') (\<lambda>signature.
     rbind (rbind (get_item d ''handoff_sha256'') (\<lambda>v. py_digest v ''handoff_sha256'')) (\<lambda>handoff_sha256.
     rbind (rbind (get_item d ''reason_code'') reason_code) (\<lambda>reason.
     rbind (rbind (get_item d ''produced_at'') (\<lambda>v. py_integer v ''produced_at'')) (\<lambda>produced_at.
     rbind (if \<not> is_signature signature then Inr False
            else rbind (canonical (PDict (without_signature d))) (\<lambda>signed.
              case fromhex signature of
                None \<Rightarrow> value_error
              | Some sig \<Rightarrow> Inr (worker_verifies P verifier signed sig))) (\<lambda>signature_valid.
     if \<not> signature_valid then fail ''result signature is invalid'' else
     if version \<noteq> RESULT_VERSION then fail ''result version is not recognised'' else
     if status \<notin> STATUSES then fail ''status is not an allowed result status'' else
     rbind (handoff_digest P h) (\<lambda>digest.
     rbind (reach (check_digest d) [(''job_id'', h_job_id h), (''worker_agent_id'', h_worker_agent_id h),
                                     (''handoff_sha256'', digest)]) (\<lambda>_.
     rbind (accept_output P d status) (\<lambda>output.
     if \<not> (0 < produced_at \<and> produced_at \<le> MAX_PRODUCED_AT)
     then fail ''produced_at must be between 1 and 4102444800'' else
     if produced_at < h_issued_at h then fail ''result predates the handoff it answers'' else
     if produced_at > now then fail ''result is dated in the future'' else
     if produced_at \<ge> h_expires_at h then fail ''result was produced after its handoff expired'' else
     if now \<ge> h_expires_at h then fail ''handoff expired before its result was accepted'' else
     Inr \<lparr>r_version = version, r_job_id = job_id, r_worker_agent_id = worker_agent_id,
          r_handoff_sha256 = handoff_sha256, r_status = status, r_reason_code = reason,
          r_output = fst output, r_output_sha256 = snd output, r_produced_at = produced_at,
          r_signature = signature\<rparr>))))))))))))))))"

section \<open>Field checks, inverted\<close>

lemma py_digest_eq_Inr [result_simps]: "py_digest v f = Inr s \<longleftrightarrow> v = PStr s \<and> is_digest s"
  by (cases v) (auto simp: py_digest_def)

lemma reason_code_eq_Inr [result_simps]: "reason_code v = Inr s \<longleftrightarrow> v = PStr s \<and> s \<in> REASON_CODES"
  by (cases v) (auto simp: reason_code_def)

text \<open>An output is held to the rule of a handoff payload.\<close>

lemma output_value_eq_payload: "output_value v = Inr w \<longleftrightarrow> payload v = Inr w"
proof (cases v)
  case (PDict kvs)
  have "(case t of PStr s \<Rightarrow> if s = [] then fail m else Inr (PDict [(k, PStr s)]) | _ \<Rightarrow> fail m) = Inr w
      \<longleftrightarrow> (\<exists>s. t = PStr s \<and> s \<noteq> [] \<and> w = PDict [(k, PStr s)])" for t m k
    by (cases t) auto
  with PDict show ?thesis by (simp add: output_value_def payload_eq_Inr result_simps) auto
qed (simp_all add: output_value_def payload_def)

lemma check_digest_eq_Inr [result_simps]:
  "check_digest d fe = Inr u \<longleftrightarrow>
     map_of d (lit (fst fe)) = Some (PStr (snd fe)) \<and> snd fe \<noteq> [] \<and> is_ascii (snd fe)"
  by (auto simp: check_digest_def result_simps)

lemma handoff_digest_eq_Inr:
  "handoff_digest P h = Inr g \<longleftrightarrow>
     (\<exists>pl w. canonical (h_payload h) = Inr pl \<and> h_payload_sha256 h = sha256_hex P pl
        \<and> handoff_to_bytes h = Inr w \<and> g = sha256_hex P w)"
  by (auto simp: handoff_digest_def result_simps)

section \<open>What acceptance establishes\<close>

text \<open>The result answers this handoff, in time.\<close>

definition result_facts :: "platform \<Rightarrow> handoff \<Rightarrow> int \<Rightarrow> job_result \<Rightarrow> bool" where
  "result_facts P h now r \<longleftrightarrow>
     r_version r = RESULT_VERSION \<and> r_job_id r = h_job_id h \<and> r_worker_agent_id r = h_worker_agent_id h
   \<and> handoff_digest P h = Inr (r_handoff_sha256 r) \<and> r_status r \<in> STATUSES \<and> r_reason_code r \<in> REASON_CODES
   \<and> 0 < r_produced_at r \<and> r_produced_at r \<le> MAX_PRODUCED_AT
   \<and> h_issued_at h \<le> r_produced_at r \<and> r_produced_at r \<le> now \<and> now < h_expires_at h"

text \<open>A success carries one text and its digest, a failure carries nothing.\<close>

definition output_facts :: "platform \<Rightarrow> job_result \<Rightarrow> bool" where
  "output_facts P r \<longleftrightarrow>
     (if r_status r = SUCCEEDED
      then \<exists>s b. s \<noteq> [] \<and> r_output r = Some (PDict [(lit ''text'', PStr s)])
             \<and> canonical (PDict [(lit ''text'', PStr s)]) = Inr b \<and> r_output_sha256 r = Some (sha256_hex P b)
      else r_output r = None \<and> r_output_sha256 r = None)"

definition result_signature_facts :: "platform \<Rightarrow> worker_verifier \<Rightarrow> job_result \<Rightarrow> bool" where
  "result_signature_facts P v r \<longleftrightarrow>
     is_signature (r_signature r)
   \<and> (\<exists>m sig. canonical (PDict (without_signature (result_dict r))) = Inr m
        \<and> fromhex (r_signature r) = Some sig \<and> worker_verifies P v m sig)"

lemma result_dict_keys: "map fst (result_dict r) = map lit RESULT_KEYS"
  by (simp add: result_dict_def RESULT_KEYS_def)

lemma RESULT_KEYS_distinct: "distinct (map lit RESULT_KEYS)"
  by (simp add: RESULT_KEYS_def)

lemma accept_output_eq_Inr:
  assumes "accept_output P d status = Inr out" "keys_distinct (PDict d)"
  shows "map_of d (lit ''output'') = Some (or_none (fst out))
    \<and> map_of d (lit ''output_sha256'') = Some (or_none (map_option PStr (snd out)))
    \<and> (if status = SUCCEEDED
       then \<exists>s b. s \<noteq> [] \<and> fst out = Some (PDict [(lit ''text'', PStr s)])
              \<and> canonical (PDict [(lit ''text'', PStr s)]) = Inr b \<and> snd out = Some (sha256_hex P b)
       else out = (None, None))"
proof -
  obtain o1 o2 where o: "map_of d (lit ''output'') = Some o1" "map_of d (lit ''output_sha256'') = Some o2"
    using assms(1) by (auto simp: accept_output_def rbind_eq_Inr get_item_eq_Inr)
  then have i: "get_item d ''output'' = Inr o1" "get_item d ''output_sha256'' = Inr o2"
    by (simp_all add: get_item_eq_Inr)
  show ?thesis
  proof (cases "status = SUCCEEDED")
    case True
    with assms(1) i obtain w s b where w: "output_value o1 = Inr w" "o2 = PStr s" "canonical w = Inr b"
      "s = sha256_hex P b" "out = (Some w, Some s)"
      by (auto simp: accept_output_def result_simps)
    have "o1 = w"
      using w(1) keys_distinct_lookup[OF assms(2) o(1)] by (auto simp: output_value_eq_payload dest: payload_distinct)
    with True o w show ?thesis by (auto simp: output_value_eq_payload payload_eq_Inr or_none_def)
  next
    case False
    with assms(1) i o show ?thesis by (auto simp: accept_output_def result_simps or_none_def)
  qed
qed

text \<open>A decoded object that has every field of a result is the result's own dict, up to order.\<close>

lemma result_reads:
  assumes "set (map fst d) = set (map lit RESULT_KEYS)"
    and "list_all (\<lambda>k. map_of d (lit k) = map_of (result_dict r) (lit k)) RESULT_KEYS"
  shows "map_of d k = map_of (result_dict r) k"
proof (cases "k \<in> set (map lit RESULT_KEYS)")
  case True
  then show ?thesis using assms(2) by (auto simp: list_all_iff)
next
  case False
  with assms(1) have "map_of d k = None" by (metis list.set_map map_of_eq_None_iff)
  moreover have "map_of (result_dict r) k = None"
    using False result_dict_keys[of r] by (metis list.set_map map_of_eq_None_iff)
  ultimately show ?thesis by simp
qed

lemma result_canonical:
  assumes "\<And>k. map_of d k = map_of (result_dict r) k" "distinct (map fst d)"
  shows "canonical (PDict (result_dict r)) = canonical (PDict d)"
    and "canonical (PDict (without_signature (result_dict r))) = canonical (PDict (without_signature d))"
proof -
  have dist: "distinct (map fst (result_dict r))" by (simp only: result_dict_keys RESULT_KEYS_distinct)
  have "dumps (PDict (result_dict r)) = dumps (PDict d)"
    by (intro dumps_dict_cong dist assms(2)) (simp add: assms(1))
  moreover have "dumps (PDict (without_signature (result_dict r))) = dumps (PDict (without_signature d))"
    by (intro dumps_dict_cong without_signature_distinct dist assms(2)) (simp add: assms(1) without_signature_map_of)
  ultimately show "canonical (PDict (result_dict r)) = canonical (PDict d)"
    and "canonical (PDict (without_signature (result_dict r))) = canonical (PDict (without_signature d))"
    by (simp_all only: canonical_def)
qed

lemma accept_eq_Inr:
  assumes "accept P wire h verifier now = Inr r"
  obtains v d where "result_verifier verifier = Inr v" "decode_wire P wire RESULT_KEYS ''result'' = Inr d"
    "result_facts P h now r" "map_of d (lit ''version'') = Some (PStr (r_version r))"
    "map_of d (lit ''job_id'') = Some (PStr (r_job_id r))"
    "map_of d (lit ''worker_agent_id'') = Some (PStr (r_worker_agent_id r))"
    "map_of d (lit ''handoff_sha256'') = Some (PStr (r_handoff_sha256 r))"
    "map_of d (lit ''status'') = Some (PStr (r_status r))" "map_of d (lit ''reason_code'') = Some (PStr (r_reason_code r))"
    "map_of d (lit ''produced_at'') = Some (PInt (r_produced_at r))"
    "map_of d (lit ''signature'') = Some (PStr (r_signature r))"
    "accept_output P d (r_status r) = Inr (r_output r, r_output_sha256 r)"
    "is_signature (r_signature r)"
    "\<exists>m sig. canonical (PDict (without_signature d)) = Inr m \<and> fromhex (r_signature r) = Some sig
       \<and> worker_verifies P v m sig"
proof -
  have opt: "(case x of None \<Rightarrow> value_error | Some y \<Rightarrow> Inr (q y)) = Inr z \<longleftrightarrow> (\<exists>y. x = Some y \<and> z = q y)"
    for x :: "bytes option" and q :: "bytes \<Rightarrow> bool" and z
    by (cases x) auto
  have sig: "(if \<not> s then Inr False else m) = Inr sv \<Longrightarrow> sv \<Longrightarrow> s \<and> m = Inr True"
    for s m and sv :: bool by (auto split: if_splits)
  have check: "\<forall>x \<in> set [(''job_id'', a), (''worker_agent_id'', b), (''handoff_sha256'', c)]. check_digest d x = Inr () \<Longrightarrow>
      map_of d (lit ''job_id'') = Some (PStr a) \<and> map_of d (lit ''worker_agent_id'') = Some (PStr b)
      \<and> map_of d (lit ''handoff_sha256'') = Some (PStr c)" for a b c d
    by (simp add: check_digest_eq_Inr)
  from assms show thesis
    apply (simp only: accept_def rbind_eq_Inr if_raise_eq_Inr string_item_eq_Inr py_integer_eq_Inr py_digest_eq_Inr
        reason_code_eq_Inr get_item_eq_Inr reach_eq_Inr simp_thms ex_simps)
    apply (elim exE conjE, drule check, drule (1) sig)
    apply (simp only: rbind_eq_Inr opt)
    apply (elim exE conjE)
    apply (rule that, assumption, assumption)
               apply (simp_all only: sum.inject)
               apply (hypsubst, simp add: result_facts_def)+
    done
qed

lemma accept_sound_lemma:
  assumes "accept P wire h verifier now = Inr r"
  shows "\<exists>w v. wire = PBytes w \<and> result_to_bytes r = Inr w \<and> length w \<le> MAX_WIRE_BYTES
     \<and> result_verifier verifier = Inr v \<and> result_facts P h now r \<and> output_facts P r \<and> result_signature_facts P v r"
proof -
  from assms obtain v d where a: "result_verifier verifier = Inr v" "decode_wire P wire RESULT_KEYS ''result'' = Inr d"
    "result_facts P h now r" "map_of d (lit ''version'') = Some (PStr (r_version r))"
    "map_of d (lit ''job_id'') = Some (PStr (r_job_id r))"
    "map_of d (lit ''worker_agent_id'') = Some (PStr (r_worker_agent_id r))"
    "map_of d (lit ''handoff_sha256'') = Some (PStr (r_handoff_sha256 r))"
    "map_of d (lit ''status'') = Some (PStr (r_status r))" "map_of d (lit ''reason_code'') = Some (PStr (r_reason_code r))"
    "map_of d (lit ''produced_at'') = Some (PInt (r_produced_at r))"
    "map_of d (lit ''signature'') = Some (PStr (r_signature r))"
    "accept_output P d (r_status r) = Inr (r_output r, r_output_sha256 r)" "is_signature (r_signature r)"
    "\<exists>m sig. canonical (PDict (without_signature d)) = Inr m \<and> fromhex (r_signature r) = Some sig
       \<and> worker_verifies P v m sig"
    by (rule accept_eq_Inr)
  from a(2) obtain w where w: "wire = PBytes w" "length w \<le> MAX_WIRE_BYTES" "canonical (PDict d) = Inr w"
    "set (map fst d) = set (map lit RESULT_KEYS)" "keys_distinct (PDict d)"
    by (rule decode_wire_eq_Inr)
  note out = accept_output_eq_Inr[OF a(12) w(5), simplified]
  have "list_all (\<lambda>k. map_of d (lit k) = map_of (result_dict r) (lit k)) RESULT_KEYS"
    using a(4-11) out by (simp add: RESULT_KEYS_def result_dict_def)
  note reads = result_reads[OF w(4) this] and dist = w(5)[unfolded keys_distinct.simps, THEN conjunct1]
  have "result_to_bytes r = Inr w" using result_canonical(1)[OF reads dist] w(3) by (simp add: result_to_bytes_def)
  moreover have "result_signature_facts P v r"
    using result_canonical(2)[OF reads dist] a(13,14) by (simp add: result_signature_facts_def)
  moreover have "output_facts P r" using out by (simp add: output_facts_def split: if_splits)
  ultimately show ?thesis using w(1,2) a(1,3) by blast
qed

section \<open>What a worker produces is accepted\<close>

lemma result_verifier_simps [simp]:
  "result_verifier (AuthorityArg a) = Inr (wa_verifier a)" "result_verifier (VerifierArg v) = Inr v"
  by (simp_all add: result_verifier_def)

lemma worker_authority_init_eq_Inr:
  "worker_authority_init P key ik = Inr a \<Longrightarrow>
     wv_public_key (wa_verifier a) = ed25519_public P (wa_signing_key a) \<and> ik \<noteq> Some key"
  by (auto simp: worker_authority_init_def worker_verifier_init_def Let_def result_simps split: if_splits)

text \<open>\<open>r\<close> is a result a worker signed with the key \<open>seed\<close>, answering \<open>h\<close> at \<open>now\<close>.\<close>

definition signed_result :: "platform \<Rightarrow> bytes \<Rightarrow> handoff \<Rightarrow> int \<Rightarrow> job_result \<Rightarrow> bool" where
  "signed_result P seed h now r \<longleftrightarrow>
     result_facts P h now r \<and> output_facts P r \<and> r_produced_at r = now
   \<and> (\<exists>m. canonical (PDict (without_signature (result_dict r))) = Inr m
        \<and> r_signature r = bytes_hex (ed25519_sign P seed m))"

lemma produce_eq_Inr:
  assumes "produce P output h status reason authority now = Inr w"
  obtains r where "signed_result P (wa_signing_key authority) h now r" "result_to_bytes r = Inr w"
    "length w \<le> MAX_WIRE_BYTES" "r_status r = status" "r_reason_code r = reason"
    "status = SUCCEEDED \<longrightarrow> payload output = Inr (the (r_output r))"
proof -
  from assms obtain digest body sg d where 1: "0 < now" "now \<le> MAX_PRODUCED_AT" "h_issued_at h \<le> now" "now < h_expires_at h"
    "status \<in> STATUSES" "handoff_digest P h = Inr digest" "reason \<in> REASON_CODES"
    and body: "(if status = SUCCEEDED
            then rbind (output_value output) (\<lambda>produced.
                 rbind (canonical produced) (\<lambda>b.
                 Inr (produce_body h digest status reason produced (PStr (sha256_hex P b)) now)))
            else if output \<noteq> PNone then fail ''a failed result must not carry output''
            else Inr (produce_body h digest status reason PNone PNone now)) = Inr body"
    and sg: "authority_sign P authority (PDict body) = Inr sg"
    and w: "canonical (PDict (body @ [(lit ''signature'', PStr sg)])) = Inr w"
    and d: "decode_wire P (PBytes w) RESULT_KEYS ''result'' = Inr d"
    by (simp only: produce_def py_integer_PInt rbind_Inr rbind_eq_Inr if_raise_eq_Inr reason_code_eq_Inr pyval.inject) auto
  have "\<exists>out sha. body = produce_body h digest status reason (or_none out) (or_none (map_option PStr sha)) now
      \<and> (if status = SUCCEEDED
         then \<exists>s b. s \<noteq> [] \<and> out = Some (PDict [(lit ''text'', PStr s)]) \<and> payload output = Inr (the out)
                \<and> canonical (PDict [(lit ''text'', PStr s)]) = Inr b \<and> sha = Some (sha256_hex P b)
         else out = None \<and> sha = None)"
  proof (cases "status = SUCCEEDED")
    case True
    with body obtain x b where x: "payload output = Inr x" "canonical x = Inr b"
      "body = produce_body h digest status reason x (PStr (sha256_hex P b)) now"
      by (auto simp: rbind_eq_Inr output_value_eq_payload)
    then obtain s where "s \<noteq> []" "x = PDict [(lit ''text'', PStr s)]" by (auto simp: payload_eq_Inr)
    with x True show ?thesis
      by (intro exI[of _ "Some x"] exI[of _ "Some (sha256_hex P b)"]) (auto simp: or_none_def)
  next
    case False
    with body show ?thesis by (auto simp: or_none_def split: if_splits)
  qed
  then obtain out sha
    where b: "body = produce_body h digest status reason (or_none out) (or_none (map_option PStr sha)) now"
      and outs: "if status = SUCCEEDED
         then \<exists>s b. s \<noteq> [] \<and> out = Some (PDict [(lit ''text'', PStr s)]) \<and> payload output = Inr (the out)
                \<and> canonical (PDict [(lit ''text'', PStr s)]) = Inr b \<and> sha = Some (sha256_hex P b)
         else out = None \<and> sha = None" by blast
  define r where "r = \<lparr>r_version = RESULT_VERSION, r_job_id = h_job_id h, r_worker_agent_id = h_worker_agent_id h,
     r_handoff_sha256 = digest, r_status = status, r_reason_code = reason, r_output = out, r_output_sha256 = sha,
     r_produced_at = now, r_signature = sg\<rparr>"
  have out: "output_facts P r" "status = SUCCEEDED \<longrightarrow> payload output = Inr (the out)"
    using outs by (auto simp: r_def output_facts_def split: if_splits)
  have dict: "result_dict r = body @ [(lit ''signature'', PStr sg)]"
    by (simp add: result_dict_def b produce_body_def r_def)
  have ws: "without_signature (result_dict r) = body"
    by (simp add: dict without_signature_def b produce_body_def)
  obtain m where m: "canonical (PDict body) = Inr m" "sg = bytes_hex (ed25519_sign P (wa_signing_key authority) m)"
    using sg by (auto simp: authority_sign_def rbind_eq_Inr)
  have "result_facts P h now r" using 1 by (simp add: result_facts_def r_def)
  moreover have "r_signature r = bytes_hex (ed25519_sign P (wa_signing_key authority) m)" "r_produced_at r = now"
    by (simp_all add: r_def m(2))
  moreover have "canonical (PDict (without_signature (result_dict r))) = Inr m" using ws m(1) by simp
  ultimately have "signed_result P (wa_signing_key authority) h now r" using out(1) by (auto simp: signed_result_def)
  moreover have "result_to_bytes r = Inr w" using dict w by (simp add: result_to_bytes_def)
  moreover have "length w \<le> MAX_WIRE_BYTES" by (rule decode_wire_eq_Inr[OF d]) simp
  ultimately show thesis using out(2) by (intro that[of r]) (simp_all add: r_def)
qed

lemma REASON_CODES_ascii: "s \<in> REASON_CODES \<Longrightarrow> is_ascii s \<and> s \<noteq> []"
  unfolding REASON_CODES_def by (elim insertE emptyE) simp_all

lemma STATUSES_ascii: "s \<in> STATUSES \<Longrightarrow> is_ascii s \<and> s \<noteq> []"
  unfolding STATUSES_def SUCCEEDED_def FAILED_def by (elim insertE emptyE) simp_all

lemma handoff_digest_digest: "hash_ok P \<Longrightarrow> handoff_digest P h = Inr g \<Longrightarrow> is_digest g"
  by (auto simp: handoff_digest_eq_Inr)

lemma digest_nonempty: "is_digest s \<Longrightarrow> s \<noteq> []"
  by (auto simp: is_digest_def hex_string_def)

text \<open>The text of an output survives JSON.\<close>

definition output_text_ok :: "job_result \<Rightarrow> bool" where
  "output_text_ok r \<longleftrightarrow> (case r_output r of None \<Rightarrow> True | Some v \<Rightarrow> json_ok v)"

lemma result_json:
  assumes "hash_ok P" "ed25519_ok P" "signed_result P seed h now r" "text_ok (h_job_id h)" "text_ok (h_worker_agent_id h)"
    and "output_text_ok r"
  shows "json_ok (PDict (result_dict r))" "json_depth (PDict (result_dict r)) \<le> MAX_WIRE_DEPTH"
proof -
  note f = assms(3)[unfolded signed_result_def result_facts_def]
  have t: "text_ok (r_handoff_sha256 r)" "text_ok (r_status r)" "text_ok (r_reason_code r)" "text_ok (r_signature r)"
    "text_ok (r_version r)" "text_ok (r_job_id r)" "text_ok (r_worker_agent_id r)"
    using f assms(4,5) handoff_digest_digest[OF assms(1)] STATUSES_ascii REASON_CODES_ascii
    by (auto simp: RESULT_VERSION_def intro: text_ok_ascii is_digest_ascii)
  have o: "json_ok (or_none (r_output r))" using assms(6) by (simp add: output_text_ok_def or_none_def split: option.splits)
  have p: "json_ok (or_none (map_option PStr (r_output_sha256 r)))"
    using f by (auto simp: output_facts_def or_none_def text_ok_ascii split: if_splits)
  show "json_ok (PDict (result_dict r))" using t o p by (simp add: result_dict_def)
  have "json_depth (or_none (r_output r)) \<le> 1" "json_depth (or_none (map_option PStr (r_output_sha256 r))) \<le> 1"
    using f by (auto simp: output_facts_def or_none_def split: if_splits)
  then have "json_depth (PDict (result_dict r)) \<le> 1 + 1"
    by (intro json_depth_dict_le) (simp_all add: result_dict_def)
  then show "json_depth (PDict (result_dict r)) \<le> MAX_WIRE_DEPTH" unfolding MAX_WIRE_DEPTH_def by linarith
qed

lemma result_object:
  assumes "hash_ok P" "ed25519_ok P" "signed_result P seed h now r" "text_ok (h_job_id h)" "text_ok (h_worker_agent_id h)"
    and "output_text_ok r" "result_to_bytes r = Inr w" "length w \<le> MAX_WIRE_BYTES"
  obtains d where "decode_wire P (PBytes w) RESULT_KEYS ''result'' = Inr d" "\<And>k. map_of d k = map_of (result_dict r) k"
    "canonical (PDict (without_signature d)) = canonical (PDict (without_signature (result_dict r)))"
proof -
  note j = result_json[OF assms(1-6)]
  obtain d where d: "json_norm (PDict (result_dict r)) = PDict d" "decode_wire P (PBytes w) RESULT_KEYS ''result'' = Inr d"
    using decode_wire_canonical[OF assms(7)[unfolded result_to_bytes_def] j(1,2) assms(8), of RESULT_KEYS P "''result''"]
    unfolding result_dict_keys by blast
  have "distinct (map fst (result_dict r))" by (simp only: result_dict_keys RESULT_KEYS_distinct)
  note m = map_of_json_norm[OF d(1) this]
  have k: "keys_distinct (PDict d)" "set (map fst d) = set (map lit RESULT_KEYS)"
    by (rule decode_wire_eq_Inr[OF d(2)], assumption)+
  have n: "json_norm (or_none (r_output r)) = or_none (r_output r)"
    "json_norm (or_none (map_option PStr (r_output_sha256 r))) = or_none (map_option PStr (r_output_sha256 r))"
    using assms(3) by (auto simp: signed_result_def output_facts_def or_none_def split: if_splits)
  have "list_all (\<lambda>k. map_of d (lit k) = map_of (result_dict r) (lit k)) RESULT_KEYS"
    by (simp add: RESULT_KEYS_def m) (simp add: result_dict_def n)
  note reads = result_reads[OF k(2) this]
  from result_canonical(2)[OF reads] k(1) that d(2) reads show thesis by simp
qed

lemma accept_output_complete:
  assumes "output_facts P r" "hash_ok P" "\<And>k. map_of d k = map_of (result_dict r) k"
  shows "accept_output P d (r_status r) = Inr (r_output r, r_output_sha256 r)"
proof -
  have i: "get_item d ''output'' = Inr (or_none (r_output r))"
    "get_item d ''output_sha256'' = Inr (or_none (map_option PStr (r_output_sha256 r)))"
    by (simp_all add: get_item_eq_Inr assms(3) result_dict_def)
  have v: "output_value (PDict [(lit ''text'', PStr s)]) = Inr (PDict [(lit ''text'', PStr s)])" if "s \<noteq> []" for s
    using that by (simp add: output_value_eq_payload)
  have g: "py_digest (PStr (sha256_hex P b)) f = Inr (sha256_hex P b)" for b f
    using assms(2) by (simp add: py_digest_eq_Inr)
  show ?thesis
    using assms(1) v g by (auto simp: accept_output_def i output_facts_def or_none_def split: if_splits)
qed

text \<open>Acceptance of a signed result, up to the comparison with the handoff's identifiers.\<close>

lemma accept_signed:
  assumes "hash_ok P" "ed25519_ok P" "signed_result P seed h produced r" "text_ok (h_job_id h)" "text_ok (h_worker_agent_id h)"
    and "output_text_ok r" "result_to_bytes r = Inr w" "length w \<le> MAX_WIRE_BYTES"
    and "result_verifier verifier = Inr v" "wv_public_key v = ed25519_public P seed"
    and "h_job_id h \<noteq> []" "h_worker_agent_id h \<noteq> []" "produced \<le> now" "now < h_expires_at h"
  shows "accept P (PBytes w) h verifier now =
     (if is_ascii (h_job_id h) \<and> is_ascii (h_worker_agent_id h) then Inr r else Inl (PyError ''TypeError''))"
proof -
  obtain d where d: "decode_wire P (PBytes w) RESULT_KEYS ''result'' = Inr d" "\<And>k. map_of d k = map_of (result_dict r) k"
    "canonical (PDict (without_signature d)) = canonical (PDict (without_signature (result_dict r)))"
    using result_object[OF assms(1-8)] by blast
  note f = assms(3)[unfolded signed_result_def result_facts_def]
  obtain m where m: "canonical (PDict (without_signature d)) = Inr m" "r_signature r = bytes_hex (ed25519_sign P seed m)"
    using f d(3) by auto
  have sig: "is_signature (r_signature r)" "r_signature r \<noteq> []"
    using sign_hex_signature[OF assms(2), of seed m] m(2) by (auto simp: is_signature_def hex_string_def simp del: length_bytes_hex)
  have ver: "worker_verifies P v m (ed25519_sign P seed m)"
    using assms(2,10) by (simp add: worker_verifies_def sign_verifies)
  have dg: "is_digest (r_handoff_sha256 r)" using f handoff_digest_digest[OF assms(1)] by blast
  have ne: "r_status r \<noteq> []" "r_reason_code r \<noteq> []" "RESULT_VERSION \<noteq> []"
    using f STATUSES_ascii REASON_CODES_ascii by (auto simp: RESULT_VERSION_def)
  have str: "string_item d k = Inr s" if "map_of (result_dict r) (lit k) = Some (PStr s)" "s \<noteq> []" for k s
    using that by (simp add: string_item_eq_Inr d(2))
  have strs: "string_item d ''version'' = Inr RESULT_VERSION" "string_item d ''job_id'' = Inr (h_job_id h)"
    "string_item d ''worker_agent_id'' = Inr (h_worker_agent_id h)" "string_item d ''status'' = Inr (r_status r)"
    "string_item d ''reason_code'' = Inr (r_reason_code r)" "string_item d ''signature'' = Inr (r_signature r)"
    "string_item d ''handoff_sha256'' = Inr (r_handoff_sha256 r)"
    using f ne sig(2) assms(11,12) digest_nonempty[OF dg] by (auto intro!: str simp: result_dict_def)
  have items: "get_item d ''handoff_sha256'' = Inr (PStr (r_handoff_sha256 r))"
    "get_item d ''reason_code'' = Inr (PStr (r_reason_code r))" "get_item d ''produced_at'' = Inr (PInt produced)"
    using f by (simp_all add: get_item_eq_Inr d(2) result_dict_def)
  have checks: "reach (check_digest d) [(''job_id'', h_job_id h), (''worker_agent_id'', h_worker_agent_id h),
      (''handoff_sha256'', r_handoff_sha256 r)]
      = (if is_ascii (h_job_id h) \<and> is_ascii (h_worker_agent_id h) then Inr () else Inl (PyError ''TypeError''))"
    by (simp add: check_digest_def strs compare_digest_def is_digest_ascii[OF dg])
  have dg': "py_digest (PStr (r_handoff_sha256 r)) ''handoff_sha256'' = Inr (r_handoff_sha256 r)"
    "reason_code (PStr (r_reason_code r)) = Inr (r_reason_code r)"
    using dg f by (simp_all add: py_digest_eq_Inr reason_code_eq_Inr)
  have out: "accept_output P d (r_status r) = Inr (r_output r, r_output_sha256 r)"
    using accept_output_complete[OF _ assms(1) d(2)] f by blast
  show ?thesis
    unfolding accept_def
    using f assms(9,13,14) sig(1) ver
    by (simp add: d(1) strs items dg' m checks[simplified] out if_distrib[of "\<lambda>x. rbind x f" for f])
qed

section \<open>\<open>produce\<close> returns\<close>

lemma produced_bound:
  assumes "is_digest dg" "is_digest sha" "length sg = 128" "reason \<in> REASON_CODES"
    and "length (h_job_id h) + length (h_worker_agent_id h) + length s \<le> 800"
  shows "text_bound (PDict (produce_body h dg SUCCEEDED reason (PDict [(lit ''text'', PStr s)]) (PStr sha) now
           @ [(lit ''signature'', PStr sg)])) \<le> MAX_WIRE_BYTES"
proof -
  have "length reason \<le> 18" using assms(4) unfolding REASON_CODES_def by (elim insertE emptyE) simp_all
  moreover have "length RESULT_VERSION = 19" "length SUCCEEDED = 9" by (simp_all add: RESULT_VERSION_def SUCCEEDED_def)
  moreover have "length dg = 64" "length sha = 64" using assms(1,2) by (simp_all add: is_digest_def hex_string_def)
  ultimately show ?thesis using assms(3,5) by (simp add: produce_body_def MAX_WIRE_BYTES_def)
qed

lemma produce_returns:
  assumes "hash_ok P" "ed25519_ok P" "handoff_digest P h = Inr dg" "reason \<in> REASON_CODES"
    and "0 < now" "now \<le> MAX_PRODUCED_AT" "h_issued_at h \<le> now" "now < h_expires_at h"
    and "s \<noteq> []" "text_ok s" "text_ok (h_job_id h)" "text_ok (h_worker_agent_id h)"
    and "length (h_job_id h) + length (h_worker_agent_id h) + length s \<le> 800"
  shows "\<exists>w. produce P (PDict [(lit ''text'', PStr s)]) h SUCCEEDED reason authority now = Inr w"
proof -
  let ?o = "PDict [(lit ''text'', PStr s)]"
  obtain b where b: "canonical ?o = Inr b" using canonical_bounded[of ?o] by auto
  let ?body = "produce_body h dg SUCCEEDED reason ?o (PStr (sha256_hex P b)) now"
  have now: "\<bar>now\<bar> < 10 ^ 18" using assms(5,6) by (simp add: MAX_PRODUCED_AT_def)
  have "bounded_value (PDict ?body)" using now by (simp add: produce_body_def)
  then obtain m where m: "canonical (PDict ?body) = Inr m" using canonical_bounded by blast
  let ?s = "bytes_hex (ed25519_sign P (wa_signing_key authority) m)"
  let ?r = "\<lparr>r_version = RESULT_VERSION, r_job_id = h_job_id h, r_worker_agent_id = h_worker_agent_id h,
     r_handoff_sha256 = dg, r_status = SUCCEEDED, r_reason_code = reason, r_output = Some ?o,
     r_output_sha256 = Some (sha256_hex P b), r_produced_at = now, r_signature = ?s\<rparr>"
  have dict: "result_dict ?r = ?body @ [(lit ''signature'', PStr ?s)]"
    by (simp add: result_dict_def produce_body_def or_none_def)
  have ws: "without_signature (result_dict ?r) = ?body"
    by (simp add: dict without_signature_def produce_body_def)
  have "bounded_value (PDict (result_dict ?r))" using now by (simp add: dict produce_body_def)
  then obtain w where w: "canonical (PDict (result_dict ?r)) = Inr w" "length w \<le> text_bound (PDict (result_dict ?r))"
    using canonical_bounded by blast
  have "text_bound (PDict (result_dict ?r)) \<le> MAX_WIRE_BYTES"
    unfolding dict
    using assms(2) by (intro produced_bound handoff_digest_digest[OF assms(1,3)] assms(4,13))
      (simp_all add: assms(1) ed25519_ok_def)
  with w(2) have len: "length w \<le> MAX_WIRE_BYTES" by simp
  have facts: "result_facts P h now ?r" using assms(3-8) by (simp add: result_facts_def STATUSES_def)
  moreover have "output_facts P ?r" using assms(9) b by (simp add: output_facts_def)
  ultimately have sr: "signed_result P (wa_signing_key authority) h now ?r"
    unfolding signed_result_def ws using m by simp
  have ok: "output_text_ok ?r" using assms(10) by (simp add: output_text_ok_def)
  obtain d where d: "decode_wire P (PBytes w) RESULT_KEYS ''result'' = Inr d"
    by (rule result_object[OF assms(1,2) sr assms(11,12) ok w(1)[folded result_to_bytes_def] len])
  have o: "output_value ?o = Inr ?o" using assms(9) by (simp add: output_value_eq_payload)
  show ?thesis
    using assms(3-8) b m w(1) d o
    by (simp add: produce_def STATUSES_def reason_code_def authority_sign_def dict)
qed

section \<open>A worker and a handoff for the witnesses\<close>

definition sample_handoff :: handoff where
  "sample_handoff =
     issued_handoff sample_platform sample_policy sample_grant (lit ''job-1'') 100
       (PDict [(lit ''text'', PStr (lit ''hello''))])
       (case canonical (PDict [(lit ''text'', PStr (lit ''hello''))]) of Inr b \<Rightarrow> b | Inl _ \<Rightarrow> [])
       (bytes_hex (replicate 64 7))"

definition sample_authority :: worker_authority where
  "sample_authority =
     \<lparr>wa_result_key = replicate 32 2, wa_signing_key = hmac_sha256 sample_platform (replicate 32 2) result_signing_label,
      wa_verifier = \<lparr>wv_public_key =
        ed25519_public sample_platform (hmac_sha256 sample_platform (replicate 32 2) result_signing_label)\<rparr>\<rparr>"

lemma sample_authority_init:
  "worker_authority_init sample_platform (replicate 32 2) (Some (replicate 32 1)) = Inr sample_authority"
  using sample_platform_ok(2)
  by (simp add: worker_authority_init_def worker_verifier_init_def Let_def sample_authority_def ed25519_ok_def)

lemma sample_handoff_fields [simp]:
  "h_job_id sample_handoff = lit ''job-1''" "h_worker_agent_id sample_handoff = lit ''worker-1''"
  "h_issued_at sample_handoff = 100" "h_expires_at sample_handoff = 400"
  by (simp_all add: sample_handoff_def issued_handoff_def sample_grant_def)

lemma sample_digest: "\<exists>dg. handoff_digest sample_platform (sample_handoff\<lparr>h_job_id := j\<rparr>) = Inr dg"
proof -
  let ?h = "sample_handoff\<lparr>h_job_id := j\<rparr>"
  obtain b where b: "canonical (PDict [(lit ''text'', PStr (lit ''hello''))]) = Inr b"
    using canonical_bounded[of "PDict [(lit ''text'', PStr (lit ''hello''))]"] by auto
  then have p: "h_payload ?h = PDict [(lit ''text'', PStr (lit ''hello''))]" "h_payload_sha256 ?h = sha256_hex sample_platform b"
    by (simp_all add: sample_handoff_def issued_handoff_def)
  have "bounded_value (PDict (handoff_dict ?h))"
    by (simp add: handoff_dict_def sample_handoff_def issued_handoff_def sample_grant_def)
  then obtain w where "handoff_to_bytes ?h = Inr w" using canonical_bounded unfolding handoff_to_bytes_def by blast
  with b p show ?thesis by (auto simp: handoff_digest_eq_Inr)
qed

definition sample_output :: pyval where
  "sample_output = PDict [(lit ''text'', PStr (lit ''done''))]"

lemma sample_produce:
  assumes "text_ok j" "length j \<le> 100"
  shows "\<exists>w. produce sample_platform sample_output (sample_handoff\<lparr>h_job_id := j\<rparr>) SUCCEEDED (lit ''WORK_COMPLETED'')
     sample_authority 200 = Inr w"
proof -
  obtain dg where "handoff_digest sample_platform (sample_handoff\<lparr>h_job_id := j\<rparr>) = Inr dg" using sample_digest by blast
  from produce_returns[OF _ _ this, of "lit ''WORK_COMPLETED''" 200 "lit ''done''"] assms
  show ?thesis by (simp add: REASON_CODES_def MAX_PRODUCED_AT_def sample_output_def)
qed

section \<open>Properties\<close>

text \<open>The digest a result names is read from the wire alone.\<close>

lemma accept_deterministic_digest:
  assumes "accept P wire h verifier now = Inr r" "accept P wire h' verifier' now' = Inr r'"
  shows "r_handoff_sha256 r = r_handoff_sha256 r'"
proof -
  obtain d where "decode_wire P wire RESULT_KEYS ''result'' = Inr d"
    "map_of d (lit ''handoff_sha256'') = Some (PStr (r_handoff_sha256 r))"
    by (rule accept_eq_Inr[OF assms(1)])
  moreover obtain d' where "decode_wire P wire RESULT_KEYS ''result'' = Inr d'"
    "map_of d' (lit ''handoff_sha256'') = Some (PStr (r_handoff_sha256 r'))"
    by (rule accept_eq_Inr[OF assms(2)])
  ultimately show ?thesis by simp
qed

lemma produced_accepted:
  assumes "produce P output h status reason authority produced = Inr w"
    and "worker_authority_init P key ik = Inr authority" "hash_ok P" "ed25519_ok P"
    and "text_ok (h_job_id h)" "text_ok (h_worker_agent_id h)" "h_job_id h \<noteq> []" "h_worker_agent_id h \<noteq> []"
    and "json_ok output" "produced \<le> now" "now < h_expires_at h"
  shows "\<exists>r. signed_result P (wa_signing_key authority) h produced r \<and> r_status r = status \<and> r_reason_code r = reason
     \<and> (status = SUCCEEDED \<longrightarrow> payload output = Inr (the (r_output r)))
     \<and> accept P (PBytes w) h (VerifierArg (wa_verifier authority)) now =
         (if is_ascii (h_job_id h) \<and> is_ascii (h_worker_agent_id h) then Inr r else Inl (PyError ''TypeError''))"
proof -
  from assms(1) obtain r where r: "signed_result P (wa_signing_key authority) h produced r" "result_to_bytes r = Inr w"
    "length w \<le> MAX_WIRE_BYTES" "r_status r = status" "r_reason_code r = reason"
    "status = SUCCEEDED \<longrightarrow> payload output = Inr (the (r_output r))" by (rule produce_eq_Inr)
  have ok: "output_text_ok r"
  proof (cases "status = SUCCEEDED")
    case True
    then obtain s where s: "r_output r = Some (PDict [(lit ''text'', PStr s)])" "payload output = Inr (the (r_output r))"
      using r(1,4,6) by (auto simp: signed_result_def output_facts_def)
    then obtain kvs where "output = PDict kvs" "map_of kvs (lit ''text'') = Some (PStr s)"
      by (auto simp: payload_eq_Inr)
    with assms(9) have "text_ok s" by (fastforce simp: list_all_iff dest: map_of_SomeD)
    with s(1) show ?thesis by (simp add: output_text_ok_def)
  next
    case False
    with r(1,4) show ?thesis by (simp add: signed_result_def output_facts_def output_text_ok_def)
  qed
  have pk: "wv_public_key (wa_verifier authority) = ed25519_public P (wa_signing_key authority)"
    using worker_authority_init_eq_Inr[OF assms(2)] by blast
  from accept_signed[OF assms(3,4) r(1) assms(5,6) ok r(2,3) _ pk assms(7,8,10,11), of "VerifierArg (wa_verifier authority)"] r
  show ?thesis by auto
qed

text \<open>C25. Round trip of the result boundary: what a worker signed with \<open>produce\<close> for a handoff with
  ASCII identifiers, \<open>accept\<close> takes with the worker's public key at any moment from then until the
  handoff expires, and returns the status, the reason and the output the worker gave.\<close>

theorem produce_accept_roundtrip:
  assumes "produce P output h status reason authority produced = Inr w"
    and "worker_authority_init P key ik = Inr authority" "hash_ok P" "ed25519_ok P"
    and "is_ascii (h_job_id h)" "is_ascii (h_worker_agent_id h)" "h_job_id h \<noteq> []" "h_worker_agent_id h \<noteq> []"
    and "json_ok output" "produced \<le> now" "now < h_expires_at h"
  shows "\<exists>r. accept P (PBytes w) h (VerifierArg (wa_verifier authority)) now = Inr r
     \<and> r_status r = status \<and> r_reason_code r = reason \<and> r_produced_at r = produced
     \<and> (if status = SUCCEEDED then payload output = Inr (the (r_output r)) else r_output r = None)"
proof -
  obtain r where "signed_result P (wa_signing_key authority) h produced r" "r_status r = status" "r_reason_code r = reason"
    "status = SUCCEEDED \<longrightarrow> payload output = Inr (the (r_output r))"
    "accept P (PBytes w) h (VerifierArg (wa_verifier authority)) now =
       (if is_ascii (h_job_id h) \<and> is_ascii (h_worker_agent_id h) then Inr r else Inl (PyError ''TypeError''))"
    using produced_accepted[OF assms(1-4) text_ok_ascii[OF assms(5)] text_ok_ascii[OF assms(6)] assms(7-11)] by blast
  then show ?thesis using assms(5,6) by (auto simp: signed_result_def output_facts_def)
qed

theorem produce_accept_roundtrip_witness:
  "\<exists>w r. accept sample_platform (PBytes w) sample_handoff (VerifierArg (wa_verifier sample_authority)) 399 = Inr r
     \<and> r_output r = Some sample_output"
proof -
  obtain w where w: "produce sample_platform sample_output (sample_handoff\<lparr>h_job_id := lit ''job-1''\<rparr>) SUCCEEDED
      (lit ''WORK_COMPLETED'') sample_authority 200 = Inr w" using sample_produce[of "lit ''job-1''"] by auto
  have h: "sample_handoff\<lparr>h_job_id := lit ''job-1''\<rparr> = sample_handoff" by (simp add: sample_handoff_def issued_handoff_def)
  from produce_accept_roundtrip[OF w[unfolded h] sample_authority_init, of 399]
  obtain r where r: "accept sample_platform (PBytes w) sample_handoff (VerifierArg (wa_verifier sample_authority)) 399 = Inr r"
    "r_status r = SUCCEEDED" "payload sample_output = Inr (the (r_output r))"
    by (auto simp: sample_output_def)
  from accept_sound_lemma[OF r(1)] r(2) obtain v where "r_output r = Some v" by (auto simp: output_facts_def)
  with r show ?thesis by (auto simp: sample_output_def)
qed

text \<open>C26. What \<open>accept\<close> returns: the wire is the canonical form of the result, which names the job, the
  worker and the digest of exactly this handoff, was produced and is taken inside the handoff's
  lifetime, carries a reason of the closed set, verifies under the worker's public key, and has an
  output with its digest when it succeeded and nothing at all when it failed.\<close>

theorem accept_sound:
  assumes "accept P wire h verifier now = Inr r"
  shows "\<exists>w v. wire = PBytes w \<and> result_to_bytes r = Inr w \<and> length w \<le> MAX_WIRE_BYTES
     \<and> result_verifier verifier = Inr v \<and> result_facts P h now r \<and> output_facts P r \<and> result_signature_facts P v r"
  by (rule accept_sound_lemma[OF assms])

lemma sample_accept:
  "\<exists>w r. accept sample_platform (PBytes w) sample_handoff (AuthorityArg sample_authority) 399 = Inr r"
proof -
  obtain w where w: "produce sample_platform sample_output (sample_handoff\<lparr>h_job_id := lit ''job-1''\<rparr>) SUCCEEDED
      (lit ''WORK_COMPLETED'') sample_authority 200 = Inr w" using sample_produce[of "lit ''job-1''"] by auto
  have h: "sample_handoff\<lparr>h_job_id := lit ''job-1''\<rparr> = sample_handoff" by (simp add: sample_handoff_def issued_handoff_def)
  from produced_accepted[OF w[unfolded h] sample_authority_init, of 399] show ?thesis
    by (auto simp: sample_output_def accept_def)
qed

theorem accept_sound_witness:
  "\<exists>w r. accept sample_platform (PBytes w) sample_handoff (AuthorityArg sample_authority) 399 = Inr r
     \<and> result_facts sample_platform sample_handoff 399 r \<and> output_facts sample_platform r"
proof -
  obtain w r where "accept sample_platform (PBytes w) sample_handoff (AuthorityArg sample_authority) 399 = Inr r"
    using sample_accept by blast
  with accept_sound[OF this] show ?thesis by blast
qed

text \<open>A result answers one handoff: if the same bytes are accepted for two handoffs, and SHA-256
  does not collide on the two artifacts, the two handoffs are the same artifact.\<close>

theorem accept_one_handoff:
  assumes "accept P wire h verifier now = Inr r" "accept P wire h' verifier' now' = Inr r'"
    and "handoff_to_bytes h = Inr w" "handoff_to_bytes h' = Inr w'" "inj_on (sha256 P) {w, w'}"
  shows "w = w'"
proof -
  have f: "result_facts P h now r" "result_facts P h' now' r'"
    using accept_sound_lemma[OF assms(1)] accept_sound_lemma[OF assms(2)] by blast+
  have "r_handoff_sha256 r = r_handoff_sha256 r'"
    using accept_deterministic_digest[OF assms(1,2)] .
  moreover have "r_handoff_sha256 r = sha256_hex P w" "r_handoff_sha256 r' = sha256_hex P w'"
    using f assms(3,4) unfolding result_facts_def handoff_digest_eq_Inr by (force, force)
  ultimately have "sha256 P w = sha256 P w'" by (simp add: sha256_hex_inject)
  then show ?thesis by (rule inj_onD[OF assms(5)]) simp_all
qed

theorem accept_one_handoff_witness:
  "\<exists>wire r w. accept sample_platform wire sample_handoff (AuthorityArg sample_authority) 399 = Inr r
     \<and> handoff_to_bytes sample_handoff = Inr w
     \<and> {w'. \<exists>h. handoff_to_bytes h = Inr w' \<and> inj_on (sha256 sample_platform) {w, w'}
            \<and> (\<exists>r'. accept sample_platform wire h (AuthorityArg sample_authority) 399 = Inr r')} = {w}"
proof -
  obtain wb r where a: "accept sample_platform (PBytes wb) sample_handoff (AuthorityArg sample_authority) 399 = Inr r"
    using sample_accept by blast
  obtain dg where "handoff_digest sample_platform (sample_handoff\<lparr>h_job_id := lit ''job-1''\<rparr>) = Inr dg" using sample_digest by blast
  moreover have "sample_handoff\<lparr>h_job_id := lit ''job-1''\<rparr> = sample_handoff" by (simp add: sample_handoff_def issued_handoff_def)
  ultimately obtain w where w: "handoff_to_bytes sample_handoff = Inr w" by (auto simp: handoff_digest_eq_Inr)
  have "w = w'" if "handoff_to_bytes h = Inr w'" "inj_on (sha256 sample_platform) {w, w'}"
    "accept sample_platform (PBytes wb) h (AuthorityArg sample_authority) 399 = Inr r'" for h w' r'
    by (rule accept_one_handoff[OF a that(3) w that(1,2)])
  moreover have "inj_on (sha256 sample_platform) {w, w}" by simp
  ultimately show ?thesis using a w by blast
qed

text \<open>A result no accepting instance can take: for a handoff whose job id has a non-ASCII character
  (the orchestrator allows one) \<open>produce\<close> signs a result, and \<open>accept\<close> raises \<open>TypeError\<close> on it.\<close>

theorem accept_non_ascii_job:
  assumes "produce P output h status reason authority produced = Inr w"
    and "worker_authority_init P key ik = Inr authority" "hash_ok P" "ed25519_ok P"
    and "text_ok (h_job_id h)" "text_ok (h_worker_agent_id h)" "h_job_id h \<noteq> []" "h_worker_agent_id h \<noteq> []"
    and "json_ok output" "produced \<le> now" "now < h_expires_at h" "\<not> is_ascii (h_job_id h)"
  shows "accept P (PBytes w) h (VerifierArg (wa_verifier authority)) now = Inl (PyError ''TypeError'')"
  using produced_accepted[OF assms(1-11)] assms(12) by auto

theorem accept_non_ascii_job_witness:
  "\<exists>w. accept sample_platform (PBytes w) (sample_handoff\<lparr>h_job_id := [233]\<rparr>) (VerifierArg (wa_verifier sample_authority)) 300
     = Inl (PyError ''TypeError'')"
proof -
  have t: "text_ok [233]" by (simp add: text_ok_def)
  obtain w where w: "produce sample_platform sample_output (sample_handoff\<lparr>h_job_id := [233]\<rparr>) SUCCEEDED
      (lit ''WORK_COMPLETED'') sample_authority 200 = Inr w" using sample_produce[OF t] by auto
  from accept_non_ascii_job[OF w sample_authority_init, of 300] t show ?thesis
    by (auto simp: sample_output_def)
qed

end
