(* ===== verification/SingleUse.thy ===== *)
theory SingleUse
  imports Prelude
begin

text \<open>
  The contract several components share: something is used once. Approval tokens, dispatch permits,
  job ids and accepted handoffs each live in a store whose operations may use them up. The locale
  \<open>single_use\<close> states what such a store promises of one operation; its lemmas say what follows for
  every sequence of operations, refused ones included.
\<close>

text \<open>Run operations one after the other, whatever each of them returns.\<close>

fun run_ops :: "('op \<Rightarrow> ('s, 'r) action) \<Rightarrow> 'op list \<Rightarrow> 's \<Rightarrow> 'r result list \<times> 's" where
  "run_ops step [] s = ([], s)"
| "run_ops step (op # ops) s =
     (case step op s of (r, s1) \<Rightarrow> case run_ops step ops s1 of (rs, s2) \<Rightarrow> (r # rs, s2))"

text \<open>How many operations of a run used up the key \<open>k\<close> and succeeded.\<close>

definition uses_of :: "('op \<Rightarrow> ('s, 'r) action) \<Rightarrow> ('op \<Rightarrow> 'k option) \<Rightarrow> 'k \<Rightarrow> 'op list \<Rightarrow> 's \<Rightarrow> nat" where
  "uses_of step spends k ops s =
     length (filter (\<lambda>(op, r). spends op = Some k \<and> (case r of Inl _ \<Rightarrow> False | Inr _ \<Rightarrow> True))
       (zip ops (fst (run_ops step ops s))))"

lemma length_run_ops [simp]: "length (fst (run_ops step ops s)) = length ops"
  by (induction ops arbitrary: s) (auto split: prod.splits, metis fst_conv)

lemma uses_of_Nil [simp]: "uses_of step spends k [] s = 0"
  by (simp add: uses_of_def)

lemma uses_of_Cons:
  "uses_of step spends k (op # ops) s =
     (if spends op = Some k \<and> is_ok (fst (step op s)) then 1 else 0) + uses_of step spends k ops (snd (step op s))"
  by (auto simp: uses_of_def is_ok_def split: prod.splits sum.splits)

lemma run_ops_invariant:
  assumes "\<And>op s r s'. step op s = (r, s') \<Longrightarrow> I s \<Longrightarrow> I s'" "I s"
  shows "I (snd (run_ops step ops s))"
  using assms(2)
proof (induction ops arbitrary: s)
  case (Cons op ops)
  obtain r s1 where s: "step op s = (r, s1)" by force
  from Cons.IH[OF assms(1)[OF s Cons.prems]] s show ?case by (auto split: prod.splits)
qed simp

locale single_use =
  fixes step :: "'op \<Rightarrow> ('s, 'r) action"
    and spent :: "'s \<Rightarrow> 'k \<Rightarrow> bool"
    and spends :: "'op \<Rightarrow> 'k option"
  assumes spent_stays: "step op s = (r, s') \<Longrightarrow> spent s k \<Longrightarrow> spent s' k"
    and spend_fresh: "step op s = (Inr x, s') \<Longrightarrow> spends op = Some k \<Longrightarrow> \<not> spent s k \<and> spent s' k"
begin

lemma never_again: "spent s k \<Longrightarrow> uses_of step spends k ops s = 0"
proof (induction ops arbitrary: s)
  case (Cons op ops)
  obtain r s1 where s: "step op s = (r, s1)" by force
  have "uses_of step spends k ops s1 = 0" by (rule Cons.IH[OF spent_stays[OF s Cons.prems]])
  moreover have "\<not> (spends op = Some k \<and> is_ok r)"
    using spend_fresh[of op s _ s1 k] s Cons.prems by (auto simp: is_ok_def)
  ultimately show ?case using s by (simp add: uses_of_Cons)
qed simp

lemma at_most_once: "uses_of step spends k ops s \<le> 1"
proof (induction ops arbitrary: s)
  case (Cons op ops)
  obtain r s1 where s: "step op s = (r, s1)" by force
  show ?case
  proof (cases "spends op = Some k \<and> is_ok r")
    case True
    then have "spent s1 k" using spend_fresh[of op s _ s1 k] s by (auto simp: is_ok_def)
    from never_again[OF this] s show ?thesis by (simp add: uses_of_Cons)
  next
    case False
    then show ?thesis using Cons.IH[of s1] s by (auto simp: uses_of_Cons)
  qed
qed simp

lemma refused_when_spent: "spent s k \<Longrightarrow> spends op = Some k \<Longrightarrow> \<exists>e. fst (step op s) = Inl e"
  using spend_fresh[of op s] by (cases "step op s"; cases "fst (step op s)") auto

end

end
