(* ===== verification/Approvals.thy ===== *)
theory Approvals
  imports Contracts SingleUse
begin

text \<open>
  \<open>geniusnew/approvals.py\<close>: approval tokens for pending handoffs. A scope names the exact handoff an
  approval is for (\<open>create_scope\<close>); the store keeps, per SHA-256 of a token, one record in the state
  granted, consumed or revoked, and each transition is hash-chained to the record before it.
  The store's dict is a map from token digest to record; the token source is an argument: what it
  returned for this call. The store's lock makes each operation one atomic step.
\<close>

section \<open>Data\<close>

record approval_scope =
  as_handoff_sha256 :: pystr
  as_handoff_expires_at :: int
  as_job_id :: pystr
  as_user_id :: pystr
  as_worker_agent_id :: pystr
  as_risk_tier :: pystr
  as_policy_version :: pystr
  as_action :: pystr
  as_origin :: bool

text \<open>\<open>as_origin\<close> is \<open>origin is _PROVENANCE\<close>.\<close>

record approval_grant =
  ag_token :: bytes
  ag_scope :: approval_scope
  ag_issued_at :: int
  ag_expires_at :: int
  ag_record_hash :: pystr

record approval_receipt =
  rc_scope :: approval_scope
  rc_state :: pystr
  rc_changed_at :: int
  rc_record_hash :: pystr

record approval_record =
  ar_token_digest :: bytes
  ar_scope :: approval_scope
  ar_issued_at :: int
  ar_expires_at :: int
  ar_state :: pystr
  ar_changed_at :: int
  ar_previous_hash :: "pystr option"
  ar_record_hash :: pystr

type_synonym approval_store = "bytes \<rightharpoonup> approval_record"

definition GRANTED :: pystr where "GRANTED = lit ''GRANTED''"
definition CONSUMED :: pystr where "CONSUMED = lit ''CONSUMED''"
definition REVOKED :: pystr where "REVOKED = lit ''REVOKED''"
definition EXECUTE_HANDOFF :: pystr where "EXECUTE_HANDOFF = lit ''EXECUTE_HANDOFF''"
definition MAX_TTL_SECONDS :: int where "MAX_TTL_SECONDS = 600"
definition TOKEN_BYTES :: nat where "TOKEN_BYTES = 32"

section \<open>Scopes\<close>

definition scope_post_init :: "approval_scope \<Rightarrow> approval_scope result" where
  "scope_post_init sc =
     rbind (py_string (PStr (as_handoff_sha256 sc)) ''handoff_sha256'') (\<lambda>_.
     rbind (py_string (PStr (as_job_id sc)) ''job_id'') (\<lambda>_.
     rbind (py_string (PStr (as_user_id sc)) ''user_id'') (\<lambda>_.
     rbind (py_string (PStr (as_worker_agent_id sc)) ''worker_agent_id'') (\<lambda>_.
     rbind (py_string (PStr (as_risk_tier sc)) ''risk_tier'') (\<lambda>_.
     rbind (py_string (PStr (as_policy_version sc)) ''policy_version'') (\<lambda>_.
     rbind (py_string (PStr (as_action sc)) ''action'') (\<lambda>_.
     rbind (py_integer (PInt (as_handoff_expires_at sc)) ''handoff_expires_at'') (\<lambda>expires.
     if expires \<le> 0 then fail ''handoff_expires_at must be positive'' else
     if length (as_handoff_sha256 sc) \<noteq> 64 \<or> \<not> list_all is_lower_hex (as_handoff_sha256 sc)
     then fail ''handoff_sha256 must be a lowercase SHA-256 digest'' else
     if as_action sc \<noteq> EXECUTE_HANDOFF then fail ''action is not allowed'' else
     Inr sc))))))))"

definition scope_dict :: "approval_scope \<Rightarrow> (pystr \<times> pyval) list" where
  "scope_dict sc =
     [(lit ''action'', PStr (as_action sc)),
      (lit ''handoff_expires_at'', PInt (as_handoff_expires_at sc)),
      (lit ''handoff_sha256'', PStr (as_handoff_sha256 sc)),
      (lit ''job_id'', PStr (as_job_id sc)),
      (lit ''policy_version'', PStr (as_policy_version sc)),
      (lit ''risk_tier'', PStr (as_risk_tier sc)),
      (lit ''user_id'', PStr (as_user_id sc)),
      (lit ''worker_agent_id'', PStr (as_worker_agent_id sc))]"

definition approval_record_hash ::
  "platform \<Rightarrow> bytes \<Rightarrow> approval_scope \<Rightarrow> int \<Rightarrow> int \<Rightarrow> pystr \<Rightarrow> int \<Rightarrow> pystr option \<Rightarrow> pystr result" where
  "approval_record_hash P token_digest scope issued_at expires_at state changed_at previous_hash =
     rbind (canonical (PDict
       [(lit ''changed_at'', PInt changed_at),
        (lit ''expires_at'', PInt expires_at),
        (lit ''issued_at'', PInt issued_at),
        (lit ''previous_hash'', (case previous_hash of None \<Rightarrow> PNone | Some h \<Rightarrow> PStr h)),
        (lit ''scope'', PDict (scope_dict scope)),
        (lit ''state'', PStr state),
        (lit ''token_digest'', PStr (bytes_hex token_digest))])) (\<lambda>b. Inr (sha256_hex P b))"

definition scope_matches :: "approval_scope \<Rightarrow> approval_scope \<Rightarrow> bool result" where
  "scope_matches left right =
     rbind (canonical (PDict (scope_dict left))) (\<lambda>l.
     rbind (canonical (PDict (scope_dict right))) (\<lambda>r. Inr (l = r)))"

definition create_scope ::
  "platform \<Rightarrow> pyval \<Rightarrow> pystr \<Rightarrow> pystr \<Rightarrow> policy \<Rightarrow> verifier_arg \<Rightarrow> int \<Rightarrow> approval_scope result" where
  "create_scope P wire subject job_id policy verifier now =
     rbind (validate_pending P wire subject job_id policy verifier now) (\<lambda>h.
     rbind (handoff_to_bytes h) (\<lambda>w.
     scope_post_init
       \<lparr>as_handoff_sha256 = sha256_hex P w, as_handoff_expires_at = h_expires_at h, as_job_id = h_job_id h,
        as_user_id = h_user_id h, as_worker_agent_id = h_worker_agent_id h, as_risk_tier = h_tier h,
        as_policy_version = h_policy_version h, as_action = EXECUTE_HANDOFF, as_origin = True\<rparr>))"

section \<open>Who may approve\<close>

type_synonym approver_policy = "(pystr \<times> pystr) list"

definition approver_check :: "pystr set \<Rightarrow> (pystr \<rightharpoonup> pystr) \<Rightarrow> (pystr \<times> pystr) \<Rightarrow> unit result" where
  "approver_check known owners entry =
     (case entry of (subject, user_id) \<Rightarrow>
     rbind (py_string (PStr subject) ''approver subject'') (\<lambda>_.
     rbind (py_string (PStr user_id) ''approver user_id'') (\<lambda>_.
     if max (utf8_size subject) (utf8_size user_id) > 160 then fail ''approver identifiers must be at most 160 bytes'' else
     if subject \<notin> known then fail ''approver subject must have a configured principal'' else
     if owners subject \<noteq> None \<and> owners subject \<noteq> Some user_id
     then fail ''approver identity must match its policy grant'' else Inr ())))"

definition approver_policy_init :: "(pystr \<times> pystr) list \<Rightarrow> policy \<Rightarrow> pystr list \<Rightarrow> approver_policy result" where
  "approver_policy_init approvers policy principal_subjects =
     rbind (reach (approver_check (set principal_subjects)
              (map_of (rev (map (\<lambda>g. (g_subject g, g_user_id g)) (p_grants policy))))) approvers) (\<lambda>_.
     Inr approvers)"

definition approver_user_id :: "approver_policy \<Rightarrow> pystr \<Rightarrow> pystr result" where
  "approver_user_id ap subject =
     (case map_of ap subject of None \<Rightarrow> fail ''subject has no approver role'' | Some u \<Rightarrow> Inr u)"

section \<open>The store\<close>

definition new_grant ::
  "platform \<Rightarrow> bytes \<Rightarrow> approval_scope \<Rightarrow> int \<Rightarrow> int \<Rightarrow> (bytes \<times> approval_record) result" where
  "new_grant P source_token scope now ttl_seconds =
     (if \<not> as_origin scope then fail ''approval scope must come from create_scope'' else
      rbind (py_integer (PInt now) ''now'') (\<lambda>now.
      rbind (py_integer (PInt ttl_seconds) ''ttl_seconds'') (\<lambda>ttl_seconds.
      if ttl_seconds \<le> 0 \<or> ttl_seconds > MAX_TTL_SECONDS then fail ''ttl_seconds must be between 1 and 600'' else
      if now \<ge> as_handoff_expires_at scope then fail ''handoff is expired'' else
      if length source_token < TOKEN_BYTES then fail ''approval token source must return at least 32 bytes'' else
      let digest = sha256 P source_token;
          expires_at = min (now + ttl_seconds) (as_handoff_expires_at scope)
      in rbind (approval_record_hash P digest scope now expires_at GRANTED now None) (\<lambda>record_hash.
         Inr (source_token,
              \<lparr>ar_token_digest = digest, ar_scope = scope, ar_issued_at = now, ar_expires_at = expires_at,
               ar_state = GRANTED, ar_changed_at = now, ar_previous_hash = None, ar_record_hash = record_hash\<rparr>)))))"

text \<open>\<open>transaction\<close> is whether the caller passed one; the process-local store refuses it.\<close>

definition approval_grant_op ::
  "platform \<Rightarrow> bytes \<Rightarrow> approval_scope \<Rightarrow> int \<Rightarrow> int \<Rightarrow> bool \<Rightarrow> (approval_store, approval_grant) action" where
  "approval_grant_op P source_token scope now ttl_seconds transaction s =
     (if transaction then (fail ''process-local approval store cannot join a database transaction'', s) else
      case new_grant P source_token scope now ttl_seconds of
        Inl e \<Rightarrow> (Inl e, s)
      | Inr (token, rec) \<Rightarrow>
        if s (ar_token_digest rec) \<noteq> None then (fail ''approval token collision'', s)
        else (Inr \<lparr>ag_token = token, ag_scope = scope, ag_issued_at = ar_issued_at rec,
                   ag_expires_at = ar_expires_at rec, ag_record_hash = ar_record_hash rec\<rparr>,
              s(ar_token_digest rec \<mapsto> rec)))"

definition next_record :: "platform \<Rightarrow> approval_record option \<Rightarrow> bytes \<Rightarrow> approval_scope \<Rightarrow> int \<Rightarrow> pystr \<Rightarrow> bool \<Rightarrow> approval_record result" where
  "next_record P found digest scope now new_state require_unexpired =
     (case found of
        None \<Rightarrow> fail ''approval token is unknown''
      | Some rec \<Rightarrow>
        if ar_token_digest rec \<noteq> digest then fail ''approval token is unknown'' else
        rbind (scope_matches (ar_scope rec) scope) (\<lambda>same.
        if \<not> same then fail ''approval scope does not match'' else
        if ar_state rec \<noteq> GRANTED then fail ''approval is not granted'' else
        if now < ar_issued_at rec then fail ''approval is not currently valid'' else
        if require_unexpired \<and> now \<ge> ar_expires_at rec then fail ''approval is expired'' else
        rbind (approval_record_hash P (ar_token_digest rec) (ar_scope rec) (ar_issued_at rec) (ar_expires_at rec)
                 new_state now (Some (ar_record_hash rec))) (\<lambda>record_hash.
        Inr \<lparr>ar_token_digest = ar_token_digest rec, ar_scope = ar_scope rec, ar_issued_at = ar_issued_at rec,
             ar_expires_at = ar_expires_at rec, ar_state = new_state, ar_changed_at = now,
             ar_previous_hash = Some (ar_record_hash rec), ar_record_hash = record_hash\<rparr>)))"

definition approval_transition ::
  "platform \<Rightarrow> bytes \<Rightarrow> approval_scope \<Rightarrow> int \<Rightarrow> pystr \<Rightarrow> bool \<Rightarrow> (approval_store, approval_receipt) action" where
  "approval_transition P token scope now new_state require_unexpired s =
     (if length token < TOKEN_BYTES then (fail ''approval token is invalid'', s) else
      let digest = sha256 P token in
      case next_record P (s digest) digest scope now new_state require_unexpired of
        Inl e \<Rightarrow> (Inl e, s)
      | Inr updated \<Rightarrow>
        (Inr \<lparr>rc_scope = ar_scope updated, rc_state = ar_state updated, rc_changed_at = ar_changed_at updated,
              rc_record_hash = ar_record_hash updated\<rparr>, s(digest \<mapsto> updated)))"

definition approval_consume ::
  "platform \<Rightarrow> bytes \<Rightarrow> approval_scope \<Rightarrow> int \<Rightarrow> bool \<Rightarrow> (approval_store, approval_receipt) action" where
  "approval_consume P token scope now transaction s =
     (if transaction then (fail ''process-local approval store cannot join a database transaction'', s)
      else approval_transition P token scope now CONSUMED True s)"

definition approval_revoke ::
  "platform \<Rightarrow> bytes \<Rightarrow> approval_scope \<Rightarrow> int \<Rightarrow> bool \<Rightarrow> (approval_store, approval_receipt) action" where
  "approval_revoke P token scope now transaction s =
     (if transaction then (fail ''process-local approval store cannot join a database transaction'', s)
      else approval_transition P token scope now REVOKED False s)"

text \<open>The operations of the store as data, to speak about sequences of them.\<close>

datatype approval_op =
    OpGrant bytes approval_scope int int bool
  | OpConsume bytes approval_scope int bool
  | OpRevoke bytes approval_scope int bool

datatype approval_reply = Granted approval_grant | Changed approval_receipt

fun approval_step :: "platform \<Rightarrow> approval_op \<Rightarrow> (approval_store, approval_reply) action" where
  "approval_step P (OpGrant token scope now ttl tx) s =
     abind (approval_grant_op P token scope now ttl tx) (\<lambda>g. areturn (Granted g)) s"
| "approval_step P (OpConsume token scope now tx) s =
     abind (approval_consume P token scope now tx) (\<lambda>r. areturn (Changed r)) s"
| "approval_step P (OpRevoke token scope now tx) s =
     abind (approval_revoke P token scope now tx) (\<lambda>r. areturn (Changed r)) s"

section \<open>What an operation does to the store\<close>

lemma next_record_eq_Inr:
  "next_record P found digest scope now new_state unexp = Inr upd \<longleftrightarrow>
     (\<exists>rec h. found = Some rec \<and> ar_token_digest rec = digest \<and> scope_matches (ar_scope rec) scope = Inr True
        \<and> ar_state rec = GRANTED \<and> ar_issued_at rec \<le> now \<and> (unexp \<longrightarrow> now < ar_expires_at rec)
        \<and> approval_record_hash P digest (ar_scope rec) (ar_issued_at rec) (ar_expires_at rec) new_state now
            (Some (ar_record_hash rec)) = Inr h
        \<and> upd = rec\<lparr>ar_state := new_state, ar_changed_at := now, ar_previous_hash := Some (ar_record_hash rec),
                     ar_record_hash := h\<rparr>)"
proof (cases found)
  case (Some rec)
  have r: "\<lparr>ar_token_digest = ar_token_digest rec, ar_scope = ar_scope rec, ar_issued_at = ar_issued_at rec,
       ar_expires_at = ar_expires_at rec, ar_state = new_state, ar_changed_at = now,
       ar_previous_hash = Some (ar_record_hash rec), ar_record_hash = h\<rparr>
     = rec\<lparr>ar_state := new_state, ar_changed_at := now, ar_previous_hash := Some (ar_record_hash rec),
           ar_record_hash := h\<rparr>" for h by simp
  show ?thesis unfolding Some next_record_def option.case r by (auto simp: result_simps)
qed (simp add: next_record_def)

lemma transition_cases:
  "approval_transition P token scope now st unexp s = (r, s') \<Longrightarrow>
     (\<exists>e. r = Inl e \<and> s' = s)
   \<or> (\<exists>upd. TOKEN_BYTES \<le> length token
        \<and> next_record P (s (sha256 P token)) (sha256 P token) scope now st unexp = Inr upd
        \<and> r = Inr \<lparr>rc_scope = ar_scope upd, rc_state = ar_state upd, rc_changed_at = ar_changed_at upd,
                   rc_record_hash = ar_record_hash upd\<rparr>
        \<and> s' = s(sha256 P token \<mapsto> upd))"
  by (auto simp: approval_transition_def Let_def split: if_splits sum.splits)

lemma grant_cases:
  "approval_grant_op P token scope now ttl tx s = (r, s') \<Longrightarrow>
     (\<exists>e. r = Inl e \<and> s' = s)
   \<or> (\<exists>rec. new_grant P token scope now ttl = Inr (token, rec) \<and> ar_token_digest rec = sha256 P token
        \<and> s (sha256 P token) = None
        \<and> r = Inr \<lparr>ag_token = token, ag_scope = scope, ag_issued_at = ar_issued_at rec,
                   ag_expires_at = ar_expires_at rec, ag_record_hash = ar_record_hash rec\<rparr>
        \<and> s' = s(sha256 P token \<mapsto> rec))"
proof -
  assume a: "approval_grant_op P token scope now ttl tx s = (r, s')"
  have n: "new_grant P token scope now ttl = Inr (t, rec) \<Longrightarrow> t = token \<and> ar_token_digest rec = sha256 P token" for t rec
    by (auto simp: new_grant_def Let_def result_simps)
  show ?thesis
  proof (cases "new_grant P token scope now ttl")
    case (Inr tr)
    obtain t rec where tr: "tr = (t, rec)" by force
    with n Inr have "t = token" "ar_token_digest rec = sha256 P token" by auto
    with a Inr tr show ?thesis by (auto simp: approval_grant_op_def split: if_splits)
  qed (use a in \<open>auto simp: approval_grant_op_def split: if_splits\<close>)
qed

lemma approval_step_cases:
  assumes "approval_step P op s = (r, s')"
  obtains (refused) e where "r = Inl e" "s' = s"
  | (granted) token scope now ttl tx rec where "op = OpGrant token scope now ttl tx" "is_ok r"
      "new_grant P token scope now ttl = Inr (token, rec)" "ar_token_digest rec = sha256 P token"
      "s (sha256 P token) = None" "s' = s(sha256 P token \<mapsto> rec)"
  | (changed) token scope now st unexp upd where "(\<exists>tx. op = OpConsume token scope now tx) \<and> st = CONSUMED \<and> unexp
       \<or> (\<exists>tx. op = OpRevoke token scope now tx) \<and> st = REVOKED \<and> \<not> unexp" "is_ok r"
      "next_record P (s (sha256 P token)) (sha256 P token) scope now st unexp = Inr upd"
      "s' = s(sha256 P token \<mapsto> upd)"
proof (cases op)
  case (OpGrant token scope now ttl tx)
  obtain g t where g: "approval_grant_op P token scope now ttl tx s = (g, t)" by force
  then have st: "s' = t" "is_ok r \<longleftrightarrow> is_ok g" "r = Inl e \<longleftrightarrow> g = Inl e" for e
    using assms OpGrant by (auto simp: abind_def areturn_def is_ok_def split: sum.splits)
  from grant_cases[OF g] show thesis
  proof (elim disjE exE conjE)
    fix e assume "g = Inl e" "t = s"
    with st show thesis by (intro refused) auto
  next
    fix rec assume "new_grant P token scope now ttl = Inr (token, rec)" "ar_token_digest rec = sha256 P token"
      "s (sha256 P token) = None" "t = s(sha256 P token \<mapsto> rec)" "g = Inr \<lparr>ag_token = token, ag_scope = scope,
         ag_issued_at = ar_issued_at rec, ag_expires_at = ar_expires_at rec, ag_record_hash = ar_record_hash rec\<rparr>"
    with st OpGrant show thesis by (intro granted) simp_all
  qed
next
  case (OpConsume token scope now tx)
  obtain g t where g: "approval_consume P token scope now tx s = (g, t)" by force
  then have st: "s' = t" "is_ok r \<longleftrightarrow> is_ok g" "r = Inl e \<longleftrightarrow> g = Inl e" for e
    using assms OpConsume by (auto simp: abind_def areturn_def is_ok_def split: sum.splits)
  from g consider e where "g = Inl e" "t = s" | "approval_transition P token scope now CONSUMED True s = (g, t)"
    by (auto simp: approval_consume_def split: if_splits)
  then show thesis
  proof cases
    case 2
    from transition_cases[OF this] st OpConsume show thesis
      by (elim disjE exE conjE) (rule refused, simp_all, rule changed[of token scope now CONSUMED True], simp_all)
  qed (use st in \<open>auto intro: refused\<close>)
next
  case (OpRevoke token scope now tx)
  obtain g t where g: "approval_revoke P token scope now tx s = (g, t)" by force
  then have st: "s' = t" "is_ok r \<longleftrightarrow> is_ok g" "r = Inl e \<longleftrightarrow> g = Inl e" for e
    using assms OpRevoke by (auto simp: abind_def areturn_def is_ok_def split: sum.splits)
  from g consider e where "g = Inl e" "t = s" | "approval_transition P token scope now REVOKED False s = (g, t)"
    by (auto simp: approval_revoke_def split: if_splits)
  then show thesis
  proof cases
    case 2
    from transition_cases[OF this] st OpRevoke show thesis
      by (elim disjE exE conjE) (rule refused, simp_all, rule changed[of token scope now REVOKED False], simp_all)
  qed (use st in \<open>auto intro: refused\<close>)
qed

section \<open>An approval is used once\<close>

definition approval_spent :: "approval_store \<Rightarrow> bytes \<Rightarrow> bool" where
  "approval_spent s k \<longleftrightarrow> (case s k of None \<Rightarrow> False | Some rec \<Rightarrow> ar_state rec \<noteq> GRANTED)"

fun approval_spends :: "platform \<Rightarrow> approval_op \<Rightarrow> bytes option" where
  "approval_spends P (OpGrant token scope now ttl tx) = None"
| "approval_spends P (OpConsume token scope now tx) = Some (sha256 P token)"
| "approval_spends P (OpRevoke token scope now tx) = Some (sha256 P token)"

lemma states_distinct [simp]:
  "CONSUMED \<noteq> GRANTED" "REVOKED \<noteq> GRANTED" "CONSUMED \<noteq> REVOKED"
  "GRANTED \<noteq> CONSUMED" "GRANTED \<noteq> REVOKED" "REVOKED \<noteq> CONSUMED"
  by (simp_all add: CONSUMED_def GRANTED_def REVOKED_def)

interpretation approvals: single_use "approval_step P" approval_spent "approval_spends P"
proof
  fix op s r s' k
  assume "approval_step P op s = (r, s')" "approval_spent s k"
  then show "approval_spent s' k"
    by (cases rule: approval_step_cases) (auto simp: approval_spent_def next_record_eq_Inr split: option.splits)
next
  fix op s x s' k
  assume "approval_step P op s = (Inr x, s')" and k: "approval_spends P op = Some k"
  then show "\<not> approval_spent s k \<and> approval_spent s' k"
  proof (cases rule: approval_step_cases)
    case (changed token scope now st unexp upd)
    then have "k = sha256 P token" using k by auto
    with changed show ?thesis by (auto simp: approval_spent_def next_record_eq_Inr)
  qed (use k in auto)
qed

section \<open>The records are hash-chained\<close>

definition hashed_record :: "platform \<Rightarrow> approval_record \<Rightarrow> bool" where
  "hashed_record P rec \<longleftrightarrow>
     approval_record_hash P (ar_token_digest rec) (ar_scope rec) (ar_issued_at rec) (ar_expires_at rec)
       (ar_state rec) (ar_changed_at rec) (ar_previous_hash rec) = Inr (ar_record_hash rec)"

text \<open>The record a transition started from: the grant, as it was stored.\<close>

definition granted_form :: "approval_record \<Rightarrow> pystr \<Rightarrow> approval_record" where
  "granted_form rec h = rec\<lparr>ar_state := GRANTED, ar_changed_at := ar_issued_at rec, ar_previous_hash := None, ar_record_hash := h\<rparr>"

definition record_ok :: "platform \<Rightarrow> bytes \<Rightarrow> approval_record \<Rightarrow> bool" where
  "record_ok P digest rec \<longleftrightarrow>
     ar_token_digest rec = digest \<and> as_origin (ar_scope rec) \<and> hashed_record P rec
   \<and> ar_issued_at rec < ar_expires_at rec \<and> ar_expires_at rec \<le> ar_issued_at rec + MAX_TTL_SECONDS
   \<and> ar_expires_at rec \<le> as_handoff_expires_at (ar_scope rec) \<and> ar_issued_at rec \<le> ar_changed_at rec
   \<and> (case ar_previous_hash rec of
        None \<Rightarrow> ar_state rec = GRANTED \<and> ar_changed_at rec = ar_issued_at rec
      | Some h \<Rightarrow> hashed_record P (granted_form rec h)
          \<and> (ar_state rec = CONSUMED \<and> ar_changed_at rec < ar_expires_at rec \<or> ar_state rec = REVOKED))"

definition store_ok :: "platform \<Rightarrow> approval_store \<Rightarrow> bool" where
  "store_ok P s \<longleftrightarrow> (\<forall>digest rec. s digest = Some rec \<longrightarrow> record_ok P digest rec)"

lemma new_grant_ok: "new_grant P token scope now ttl = Inr (t, rec) \<Longrightarrow> record_ok P (sha256 P token) rec"
  by (auto simp: new_grant_def Let_def result_simps record_ok_def hashed_record_def MAX_TTL_SECONDS_def)

lemma next_record_ok:
  assumes "next_record P (Some rec) digest scope now st unexp = Inr upd" "record_ok P digest rec"
    and "st = CONSUMED \<and> unexp \<or> st = REVOKED"
  shows "record_ok P digest upd"
proof -
  from assms(1) obtain h where u: "ar_token_digest rec = digest" "ar_state rec = GRANTED" "ar_issued_at rec \<le> now"
    "unexp \<longrightarrow> now < ar_expires_at rec"
    "approval_record_hash P digest (ar_scope rec) (ar_issued_at rec) (ar_expires_at rec) st now
       (Some (ar_record_hash rec)) = Inr h"
    "upd = rec\<lparr>ar_state := st, ar_changed_at := now, ar_previous_hash := Some (ar_record_hash rec), ar_record_hash := h\<rparr>"
    by (auto simp: next_record_eq_Inr)
  have g: "granted_form upd (ar_record_hash rec) = rec" if "ar_previous_hash rec = None"
    using that u assms(2) by (simp add: granted_form_def record_ok_def)
  have p: "ar_previous_hash rec = None"
    using assms(2) u(2) by (auto simp: record_ok_def split: option.splits)
  show ?thesis
    using assms(2,3) u p g[OF p] by (auto simp: record_ok_def hashed_record_def)
qed

lemma approval_step_ok:
  assumes "approval_step P op s = (r, s')" "store_ok P s"
  shows "store_ok P s'"
  using assms(1)
proof (cases rule: approval_step_cases)
  case (granted token scope now ttl tx rec)
  with assms(2) new_grant_ok[OF granted(3)] show ?thesis by (auto simp: store_ok_def)
next
  case (changed token scope now st unexp upd)
  from changed(3) obtain rec where rec: "s (sha256 P token) = Some rec" by (auto simp: next_record_eq_Inr)
  have st: "st = CONSUMED \<and> unexp \<or> st = REVOKED" using changed(1) by blast
  have "record_ok P (sha256 P token) rec" using assms(2) rec by (simp add: store_ok_def)
  from next_record_ok[OF changed(3)[unfolded rec] this st] assms(2) show ?thesis
    by (simp add: changed(4) store_ok_def)
qed (use assms(2) in simp)

lemma store_ok_empty [simp]: "store_ok P Map.empty"
  by (simp add: store_ok_def)

lemma run_store_ok: "store_ok P s \<Longrightarrow> store_ok P (snd (run_ops (approval_step P) ops s))"
  by (rule run_ops_invariant[where I = "store_ok P"]) (auto intro: approval_step_ok)

section \<open>A matching scope is the same scope\<close>

definition scope_text_ok :: "approval_scope \<Rightarrow> bool" where
  "scope_text_ok sc \<longleftrightarrow> json_ok (PDict (scope_dict sc))"

lemma scope_matches_sound:
  assumes "scope_matches a b = Inr True" "scope_text_ok a" "scope_text_ok b"
  shows "a\<lparr>as_origin := x\<rparr> = b\<lparr>as_origin := x\<rparr>"
proof -
  obtain c where c: "canonical (PDict (scope_dict a)) = Inr c" "canonical (PDict (scope_dict b)) = Inr c"
    using assms(1) by (auto simp: scope_matches_def rbind_eq_Inr)
  note m = canonical_dict_inject[OF c assms(2,3)[unfolded scope_text_ok_def]]
  show ?thesis
    using m[of "lit ''action''"] m[of "lit ''handoff_expires_at''"] m[of "lit ''handoff_sha256''"] m[of "lit ''job_id''"]
      m[of "lit ''policy_version''"] m[of "lit ''risk_tier''"] m[of "lit ''user_id''"] m[of "lit ''worker_agent_id''"]
    by (cases a; cases b) (simp add: scope_dict_def)
qed

lemma approval_record_hash_defined:
  "(\<exists>h. approval_record_hash P d sc i e st c prev = Inr h) \<longleftrightarrow>
     int_text c \<noteq> None \<and> int_text e \<noteq> None \<and> int_text i \<noteq> None \<and> (\<exists>b. canonical (PDict (scope_dict sc)) = Inr b)"
proof -
  have "(\<exists>h. approval_record_hash P d sc i e st c prev = Inr h) \<longleftrightarrow>
      (\<exists>b. canonical (PDict [(lit ''changed_at'', PInt c), (lit ''expires_at'', PInt e), (lit ''issued_at'', PInt i),
        (lit ''previous_hash'', (case prev of None \<Rightarrow> PNone | Some h \<Rightarrow> PStr h)), (lit ''scope'', PDict (scope_dict sc)),
        (lit ''state'', PStr st), (lit ''token_digest'', PStr (bytes_hex d))]) = Inr b)"
    by (auto simp: approval_record_hash_def rbind_eq_Inr)
  also have "\<dots> \<longleftrightarrow> int_text c \<noteq> None \<and> int_text e \<noteq> None \<and> int_text i \<noteq> None
      \<and> dumps (PDict (scope_dict sc)) \<noteq> None"
    unfolding canonical_dict_defined by (auto split: option.splits)
  finally show ?thesis by (simp add: canonical_eq_Inr del: dumps.simps)
qed

lemma grant_consumable:
  assumes "approval_grant_op P token scope now ttl tx s = (Inr g, s1)"
    and "now \<le> later" "later < ag_expires_at g" "\<bar>later\<bar> < 10 ^ 18"
  shows "\<exists>r s2. approval_consume P token scope later False s1 = (Inr r, s2) \<and> rc_state r = CONSUMED \<and> rc_scope r = scope
    \<and> rc_changed_at r = later"
proof -
  from grant_cases[OF assms(1)] obtain rec where rec: "new_grant P token scope now ttl = Inr (token, rec)"
    "ag_expires_at g = ar_expires_at rec" "s1 = s(sha256 P token \<mapsto> rec)" by auto
  then have f: "ar_scope rec = scope" "ar_issued_at rec = now" "ar_state rec = GRANTED" "ar_token_digest rec = sha256 P token"
    "TOKEN_BYTES \<le> length token"
    "approval_record_hash P (sha256 P token) scope now (ar_expires_at rec) GRANTED now None = Inr (ar_record_hash rec)"
    by (auto simp: new_grant_def Let_def result_simps)
  from f(6) approval_record_hash_defined[of P "sha256 P token" scope now "ar_expires_at rec" GRANTED now None]
  obtain b where b: "canonical (PDict (scope_dict scope)) = Inr b"
    and i: "int_text (ar_expires_at rec) \<noteq> None" "int_text now \<noteq> None" by auto
  have "int_text later \<noteq> None" using int_text_bounded[OF assms(4)] by auto
  with b i approval_record_hash_defined[of P "sha256 P token" scope now "ar_expires_at rec" CONSUMED later "Some (ar_record_hash rec)"]
  obtain h where h: "approval_record_hash P (sha256 P token) scope now (ar_expires_at rec) CONSUMED later
      (Some (ar_record_hash rec)) = Inr h" by auto
  have m: "scope_matches scope scope = Inr True" using b by (simp add: scope_matches_def)
  show ?thesis
    using assms(2,3) f h m
    by (simp add: approval_consume_def approval_transition_def Let_def rec next_record_def)
qed

section \<open>Scopes are made from valid pending handoffs\<close>

lemma create_scope_eq_Inr:
  assumes "create_scope P wire subject job_id policy verifier now = Inr sc"
  obtains h w where "validate_pending P wire subject job_id policy verifier now = Inr h" "wire = PBytes w"
    "sc = \<lparr>as_handoff_sha256 = sha256_hex P w, as_handoff_expires_at = h_expires_at h, as_job_id = h_job_id h,
        as_user_id = h_user_id h, as_worker_agent_id = h_worker_agent_id h, as_risk_tier = h_tier h,
        as_policy_version = h_policy_version h, as_action = EXECUTE_HANDOFF, as_origin = True\<rparr>"
    "0 < h_expires_at h"
proof -
  from assms obtain h w where h: "validate_pending P wire subject job_id policy verifier now = Inr h"
    "handoff_to_bytes h = Inr w" and sc: "sc = \<lparr>as_handoff_sha256 = sha256_hex P w, as_handoff_expires_at = h_expires_at h, as_job_id = h_job_id h,
        as_user_id = h_user_id h, as_worker_agent_id = h_worker_agent_id h, as_risk_tier = h_tier h,
        as_policy_version = h_policy_version h, as_action = EXECUTE_HANDOFF, as_origin = True\<rparr>"
    "0 < h_expires_at h"
    by (auto simp: create_scope_def scope_post_init_def result_simps)
  from validate_pending_sound[OF h(1)] h(2) have "wire = PBytes w" by auto
  with h sc that show thesis by blast
qed

lemma create_scope_complete:
  assumes "validate_pending P (PBytes w) subject job_id policy verifier now = Inr h" "hash_ok P" "0 < h_expires_at h"
    and "valid_policy policy" "grant_for policy subject = Inr g" "valid_grant g" "job_id \<noteq> []"
  shows "\<exists>sc. create_scope P (PBytes w) subject job_id policy verifier now = Inr sc"
proof -
  from validate_pending_sound[OF assms(1)] assms(5)
  have f: "handoff_to_bytes h = Inr w" "handoff_facts policy g job_id now h" by auto
  note ne = valid_grantD[OF assms(6)] valid_policyD(3,4)[OF assms(4)]
  have d: "length (sha256_hex P w) = 64" "list_all is_lower_hex (sha256_hex P w)"
    using sha256_hex_digest[OF assms(2), of w] by (auto simp: is_digest_def hex_string_def)
  show ?thesis
    using f ne assms(1,3,7) sha256_hex_nonempty[OF assms(2), of w] d
    by (simp add: create_scope_def scope_post_init_def handoff_facts_def py_string_PStr EXECUTE_HANDOFF_def)
qed

section \<open>Approvers\<close>

lemma approver_policy_sound:
  assumes "approver_policy_init approvers policy principals = Inr ap"
  shows "ap = approvers \<and> (\<forall>(subject, user_id) \<in> set approvers.
     subject \<in> set principals
     \<and> (\<forall>g \<in> set (p_grants policy). distinct (map g_subject (p_grants policy)) \<longrightarrow> g_subject g = subject \<longrightarrow> g_user_id g = user_id))"
proof -
  let ?o = "map_of (rev (map (\<lambda>g. (g_subject g, g_user_id g)) (p_grants policy)))"
  have *: "approver_check known owners (a, b) = Inr () \<Longrightarrow> a \<in> known \<and> (owners a = None \<or> owners a = Some b)"
    for known owners a b
    by (auto simp: approver_check_def result_simps)
  have o: "?o (g_subject g) = Some (g_user_id g)"
    if "g \<in> set (p_grants policy)" "distinct (map g_subject (p_grants policy))" for g
  proof (rule map_of_is_SomeI)
    show "distinct (map fst (rev (map (\<lambda>g. (g_subject g, g_user_id g)) (p_grants policy))))"
      using that(2) by (simp add: rev_map[symmetric] comp_def)
  qed (use that(1) in auto)
  from assms have "ap = approvers" and c: "\<And>x. x \<in> set approvers \<Longrightarrow> approver_check (set principals) ?o x = Inr ()"
    by (auto simp: approver_policy_init_def result_simps)
  then show ?thesis using * o by (fastforce split: prod.splits)
qed


section \<open>Properties\<close>

definition sample_scope :: approval_scope where
  "sample_scope =
     \<lparr>as_handoff_sha256 = lit ''00'', as_handoff_expires_at = 400, as_job_id = lit ''job-1'', as_user_id = lit ''user-1'',
      as_worker_agent_id = lit ''worker-1'', as_risk_tier = lit ''basic'', as_policy_version = lit ''policy-1'',
      as_action = EXECUTE_HANDOFF, as_origin = True\<rparr>"

text \<open>C28. An approval is used once: whatever sequence of grants, consumptions and revocations a store
  goes through, at most one consumption or revocation of a token succeeds.\<close>

theorem approval_single_use: "uses_of (approval_step P) (approval_spends P) digest ops s \<le> 1"
  by (rule approvals.at_most_once)

text \<open>Every store reached from the empty one by any sequence of operations is hash-chained and in
  bounds: each record carries the hash of its own fields, a consumed or revoked record names the hash
  of the grant it started from, lifetimes are at most 600 seconds and never outlast the handoff, and a
  consumption happened inside the lifetime.\<close>

theorem approval_records_chained: "store_ok P (snd (run_ops (approval_step P) ops Map.empty))"
  by (rule run_store_ok) simp

text \<open>A refused operation leaves no trace in the store.\<close>

theorem approval_refusal_keeps_store:
  assumes "approval_step P op s = (Inl e, s')"
  shows "s' = s"
  using assms by (cases rule: approval_step_cases) auto

theorem approval_refusal_keeps_store_witness:
  "\<exists>e. approval_step sample_platform (OpConsume [1, 2, 3] sample_scope 5 False) Map.empty = (Inl e, Map.empty)"
proof -
  obtain e s' where "approval_step sample_platform (OpConsume [1, 2, 3] sample_scope 5 False) Map.empty = (Inl e, s')"
    by (simp add: approval_consume_def approval_transition_def TOKEN_BYTES_def abind_def)
  with approval_refusal_keeps_store[OF this] show ?thesis by simp
qed

text \<open>A granted token can be consumed: with the scope it was granted for, at any moment from the
  grant to its expiry, \<open>consume\<close> succeeds and reports the consumed state of that scope.\<close>

theorem grant_then_consume:
  assumes "approval_grant_op P token scope now ttl tx s = (Inr g, s1)"
    and "now \<le> later" "later < ag_expires_at g" "\<bar>later\<bar> < 10 ^ 18"
  shows "\<exists>r s2. approval_consume P token scope later False s1 = (Inr r, s2) \<and> rc_state r = CONSUMED \<and> rc_scope r = scope
    \<and> rc_changed_at r = later"
  by (rule grant_consumable[OF assms])

lemma sample_scope_text: "scope_text_ok sample_scope" "bounded_value (PDict (scope_dict sample_scope))"
  by (simp_all add: scope_text_ok_def scope_dict_def sample_scope_def EXECUTE_HANDOFF_def)

lemma sample_grant_op:
  "\<exists>g s1. approval_grant_op sample_platform (replicate 32 9) sample_scope 100 200 False Map.empty = (Inr g, s1)
     \<and> ag_expires_at g = 300"
proof -
  have "int_text i \<noteq> None" if "\<bar>i\<bar> < 10 ^ 18" for i using int_text_bounded[OF that] by auto
  moreover obtain b where "canonical (PDict (scope_dict sample_scope)) = Inr b"
    using canonical_bounded[OF sample_scope_text(2)] by blast
  ultimately obtain h where "approval_record_hash sample_platform (sha256 sample_platform (replicate 32 9)) sample_scope
      100 300 GRANTED 100 None = Inr h"
    using approval_record_hash_defined[of sample_platform "sha256 sample_platform (replicate 32 9)" sample_scope 100 300 GRANTED 100 None]
    by auto
  then have "new_grant sample_platform (replicate 32 9) sample_scope 100 200 = Inr (replicate 32 9,
      \<lparr>ar_token_digest = sha256 sample_platform (replicate 32 9), ar_scope = sample_scope, ar_issued_at = 100,
       ar_expires_at = 300, ar_state = GRANTED, ar_changed_at = 100, ar_previous_hash = None, ar_record_hash = h\<rparr>)"
    by (simp add: new_grant_def MAX_TTL_SECONDS_def TOKEN_BYTES_def Let_def) (simp add: sample_scope_def)
  then show ?thesis by (simp add: approval_grant_op_def)
qed

theorem grant_then_consume_witness:
  "\<exists>g s1 r s2. approval_grant_op sample_platform (replicate 32 9) sample_scope 100 200 False Map.empty = (Inr g, s1)
     \<and> approval_consume sample_platform (replicate 32 9) sample_scope 299 False s1 = (Inr r, s2) \<and> rc_state r = CONSUMED"
proof -
  obtain g s1 where g: "approval_grant_op sample_platform (replicate 32 9) sample_scope 100 200 False Map.empty = (Inr g, s1)"
    "ag_expires_at g = 300" using sample_grant_op by blast
  from grant_then_consume[OF g(1), of 299] g show ?thesis by auto
qed

text \<open>What a consumption proves: the token had been granted and not used, the moment lies in the
  approval's lifetime, and the scope presented is, field for field, the scope that was approved.\<close>

theorem consume_sound:
  assumes "approval_consume P token scope now tx s = (Inr r, s')" "store_ok P s"
    and "scope_text_ok scope" "\<forall>rec \<in> ran s. scope_text_ok (ar_scope rec)"
  shows "\<exists>rec. s (sha256 P token) = Some rec \<and> ar_state rec = GRANTED \<and> ar_issued_at rec \<le> now \<and> now < ar_expires_at rec
     \<and> now < as_handoff_expires_at scope \<and> ar_scope rec = scope\<lparr>as_origin := True\<rparr>
     \<and> rc_scope r = ar_scope rec \<and> approval_spent s' (sha256 P token)"
proof -
  have "approval_transition P token scope now CONSUMED True s = (Inr r, s')"
    using assms(1) by (auto simp: approval_consume_def split: if_splits)
  from transition_cases[OF this] obtain upd
    where u: "next_record P (s (sha256 P token)) (sha256 P token) scope now CONSUMED True = Inr upd"
      "s' = s(sha256 P token \<mapsto> upd)" "rc_scope r = ar_scope upd" by auto
  then obtain rec where rec: "s (sha256 P token) = Some rec" "ar_state rec = GRANTED" "ar_issued_at rec \<le> now"
    "now < ar_expires_at rec" "scope_matches (ar_scope rec) scope = Inr True" "ar_scope upd = ar_scope rec" "ar_state upd = CONSUMED"
    by (auto simp: next_record_eq_Inr)
  have ok: "record_ok P (sha256 P token) rec" using assms(2) rec(1) by (simp add: store_ok_def)
  have "scope_text_ok (ar_scope rec)" using assms(4) rec(1) by (auto simp: ran_def)
  note same = scope_matches_sound[OF rec(5) this assms(3), of True]
  have "(ar_scope rec)\<lparr>as_origin := True\<rparr> = ar_scope rec"
    using ok by (cases "ar_scope rec") (simp add: record_ok_def)
  with same have eq: "ar_scope rec = scope\<lparr>as_origin := True\<rparr>" by simp
  with ok have "ar_expires_at rec \<le> as_handoff_expires_at scope" by (simp add: record_ok_def)
  then show ?thesis using rec u eq by (auto simp: approval_spent_def)
qed

theorem consume_sound_witness:
  "\<exists>g s1 r s2. approval_grant_op sample_platform (replicate 32 9) sample_scope 100 200 False Map.empty = (Inr g, s1)
     \<and> approval_consume sample_platform (replicate 32 9) sample_scope 299 False s1 = (Inr r, s2)
     \<and> rc_scope r = sample_scope \<and> approval_spent s2 (sha256 sample_platform (replicate 32 9))"
proof -
  obtain g s1 where g: "approval_grant_op sample_platform (replicate 32 9) sample_scope 100 200 False Map.empty = (Inr g, s1)"
    "ag_expires_at g = 300" using sample_grant_op by blast
  from grant_consumable[OF g(1), of 299] g obtain r s2
    where c: "approval_consume sample_platform (replicate 32 9) sample_scope 299 False s1 = (Inr r, s2)" by auto
  from grant_cases[OF g(1)] obtain rec where rec: "new_grant sample_platform (replicate 32 9) sample_scope 100 200 = Inr (replicate 32 9, rec)"
    "s1 = [sha256 sample_platform (replicate 32 9) \<mapsto> rec]" by auto
  have "ar_scope rec = sample_scope" using rec(1) by (auto simp: new_grant_def Let_def result_simps)
  then have t: "\<forall>rec \<in> ran s1. scope_text_ok (ar_scope rec)" using rec(2) sample_scope_text by simp
  have "store_ok sample_platform s1" using rec new_grant_ok[OF rec(1)] by (simp add: store_ok_def)
  from consume_sound[OF c this sample_scope_text(1) t] g c show ?thesis
    by (auto simp: sample_scope_def)
qed

text \<open>A scope binds the exact bytes of a valid pending handoff: \<open>create_scope\<close> names the digest of the
  wire it was given, the expiry, owner, worker, tier and policy version of that handoff, and only a
  handoff whose grant requires approval has one.\<close>

theorem create_scope_binds:
  assumes "create_scope P wire subject job_id policy verifier now = Inr sc"
  shows "\<exists>w g h. wire = PBytes w \<and> grant_for policy subject = Inr g \<and> g_requires_approval g
     \<and> validate_pending P wire subject job_id policy verifier now = Inr h
     \<and> as_handoff_sha256 sc = sha256_hex P w \<and> as_handoff_expires_at sc = h_expires_at h
     \<and> as_job_id sc = job_id \<and> as_user_id sc = g_user_id g \<and> as_worker_agent_id sc = g_worker_agent_id g
     \<and> as_risk_tier sc = g_tier g \<and> as_policy_version sc = p_version policy \<and> as_origin sc
     \<and> now < as_handoff_expires_at sc"
proof -
  from assms obtain h w where h: "validate_pending P wire subject job_id policy verifier now = Inr h" "wire = PBytes w"
    "sc = \<lparr>as_handoff_sha256 = sha256_hex P w, as_handoff_expires_at = h_expires_at h, as_job_id = h_job_id h,
        as_user_id = h_user_id h, as_worker_agent_id = h_worker_agent_id h, as_risk_tier = h_tier h,
        as_policy_version = h_policy_version h, as_action = EXECUTE_HANDOFF, as_origin = True\<rparr>"
    by (rule create_scope_eq_Inr)
  from validate_pending_sound[OF h(1)] h show ?thesis by (auto simp: handoff_facts_def)
qed

lemma sample_validate_pending:
  "\<exists>h. validate_pending sample_platform (PBytes (sample_wire (lit ''bob''))) (lit ''bob'') (lit ''job-1'') sample_policy
     (Verifier (hs_verifier sample_signer)) 150 = Inr h \<and> h_expires_at h = 400"
proof -
  obtain d h where h: "wire_object sample_platform (PBytes (sample_wire (lit ''bob''))) = Inr d"
    "from_object sample_platform d (lit ''bob'') (lit ''job-1'') sample_policy (Verifier (hs_verifier sample_signer)) 150 True = Inr h"
    "h_issued_at h = 100" "h_approval_state h = approval_state_of sample_pending_grant"
    using issue_accepted[OF sample_issue sample_signer_init, of "lit ''bob''" sample_pending_grant 150
        "Verifier (hs_verifier sample_signer)" True] by auto
  from from_object_sound[OF h(1,2)] h(3) have "h_expires_at h = 400" by (auto simp: handoff_facts_def)
  with h show ?thesis by (simp add: validate_pending_def approval_state_of_def)
qed

lemma sample_create_scope:
  "\<exists>sc. create_scope sample_platform (PBytes (sample_wire (lit ''bob''))) (lit ''bob'') (lit ''job-1'') sample_policy
     (Verifier (hs_verifier sample_signer)) 150 = Inr sc"
proof -
  obtain h where h: "validate_pending sample_platform (PBytes (sample_wire (lit ''bob''))) (lit ''bob'') (lit ''job-1'')
     sample_policy (Verifier (hs_verifier sample_signer)) 150 = Inr h" "h_expires_at h = 400"
    using sample_validate_pending by blast
  show ?thesis by (rule create_scope_complete[OF h(1) _ _ sample_policy_valid sample_grant_for(2)]) (simp_all add: h(2))
qed

theorem create_scope_binds_witness:
  "\<exists>sc. create_scope sample_platform (PBytes (sample_wire (lit ''bob''))) (lit ''bob'') (lit ''job-1'') sample_policy
     (Verifier (hs_verifier sample_signer)) 150 = Inr sc
   \<and> as_handoff_sha256 sc = sha256_hex sample_platform (sample_wire (lit ''bob'')) \<and> as_user_id sc = lit ''user-1''"
proof -
  obtain sc where sc: "create_scope sample_platform (PBytes (sample_wire (lit ''bob''))) (lit ''bob'') (lit ''job-1'')
     sample_policy (Verifier (hs_verifier sample_signer)) 150 = Inr sc" using sample_create_scope by blast
  from create_scope_binds[OF sc] sc show ?thesis by (auto simp: sample_pending_grant_def sample_grant_def)
qed

end
