(* ===== verification/Gateway.thy ===== *)
theory Gateway
  imports Approvals Results
begin

text \<open>
  \<open>geniusnew/gateway.py\<close>: the independent, default-deny boundary before dispatch. \<open>admit\<close> parses
  the raw wire again, consumes an approval when the grant requires one, and mints a one-shot
  \<open>DispatchPermit\<close>. A \<open>_PermitUse\<close> object is a cell of a heap (\<open>gw_uses\<close>) named by its index, because
  copies of a permit share it. The approval store the gateway calls is its \<open>consume\<close> operation: an
  argument of \<open>admit\<close>, whose contract is the locale \<open>approval_contract\<close>.
\<close>

section \<open>Permits\<close>

record permit_use =
  pu_binding :: "pystr \<times> pystr \<times> int \<times> pystr option"
  pu_used :: bool

record dispatch_permit =
  dp_handoff :: handoff
  dp_handoff_sha256 :: pystr
  dp_gateway_id :: pystr
  dp_admitted_at :: int
  dp_approval_record_hash :: "pystr option"
  dp_use :: nat
  dp_origin :: bool

definition permit_use_matches :: "permit_use \<Rightarrow> pystr \<Rightarrow> pystr \<Rightarrow> int \<Rightarrow> pystr option \<Rightarrow> bool" where
  "permit_use_matches u handoff_sha256 gateway_id admitted_at record_hash \<longleftrightarrow>
     pu_binding u = (handoff_sha256, gateway_id, admitted_at, record_hash)"

text \<open>\<open>_PermitUse.consume\<close> on the cell \<open>ref\<close>.\<close>

definition permit_use_consume :: "nat \<Rightarrow> (permit_use list, unit) action" where
  "permit_use_consume ref uses =
     (if length uses \<le> ref then (Inl (PyError ''AttributeError''), uses)
      else if pu_used (uses ! ref) then (fail ''dispatch permit has already been consumed'', uses)
      else (Inr (), uses[ref := (uses ! ref)\<lparr>pu_used := True\<rparr>]))"

definition gateway_id_check :: "pystr \<Rightarrow> pystr result" where
  "gateway_id_check v =
     (if \<not> is_instance_id v then fail ''gateway_id must be a lowercase identifier of at most 63 characters'' else Inr v)"

definition permit_post_init :: "platform \<Rightarrow> permit_use list \<Rightarrow> dispatch_permit \<Rightarrow> dispatch_permit result" where
  "permit_post_init P uses p =
     (if \<not> dp_origin p then fail ''dispatch permit must be minted by a Gateway'' else
      if length uses \<le> dp_use p then fail ''dispatch permit use state is invalid'' else
      if \<not> is_digest (dp_handoff_sha256 p) then fail ''dispatch permit digest must be a lowercase SHA-256 digest'' else
      rbind (handoff_digest P (dp_handoff p)) (\<lambda>digest.
      rbind (compare_digest digest (dp_handoff_sha256 p)) (\<lambda>same.
      if \<not> same then fail ''dispatch permit digest does not bind its handoff'' else
      rbind (gateway_id_check (dp_gateway_id p)) (\<lambda>_.
      if \<not> (h_issued_at (dp_handoff p) \<le> dp_admitted_at p \<and> dp_admitted_at p < h_expires_at (dp_handoff p))
      then fail ''dispatch permit admission is outside the handoff lifetime'' else
      rbind (case dp_approval_record_hash p of
               None \<Rightarrow> Inr ()
             | Some h \<Rightarrow> if \<not> is_digest h then fail ''approval_record_hash must be a lowercase SHA-256 digest'' else Inr ()) (\<lambda>_.
      if \<not> permit_use_matches (uses ! dp_use p) (dp_handoff_sha256 p) (dp_gateway_id p) (dp_admitted_at p)
             (dp_approval_record_hash p)
      then fail ''dispatch permit fields do not match their gateway binding'' else Inr p)))))"

definition handoff_from_permit :: "platform \<Rightarrow> dispatch_permit option \<Rightarrow> handoff result" where
  "handoff_from_permit P permit =
     (case permit of
        None \<Rightarrow> fail ''dispatch requires a gateway-minted DispatchPermit''
      | Some p \<Rightarrow>
        if \<not> dp_origin p then fail ''dispatch requires a gateway-minted DispatchPermit'' else
        rbind (handoff_digest P (dp_handoff p)) (\<lambda>_. Inr (dp_handoff p)))"

text \<open>The argument of type \<open>Any\<close>: a permit, or \<open>None\<close> for anything else.\<close>

definition consume_handoff_from_permit :: "platform \<Rightarrow> dispatch_permit option \<Rightarrow> (permit_use list, handoff) action" where
  "consume_handoff_from_permit P permit =
     abind (alift (handoff_from_permit P permit)) (\<lambda>h.
     abind (permit_use_consume (case permit of Some p \<Rightarrow> dp_use p | None \<Rightarrow> 0)) (\<lambda>_.
     areturn h))"

section \<open>The gateway\<close>

definition ADMISSION_REASON_CODE :: string where "ADMISSION_REASON_CODE = ''POLICY_SATISFIED''"

definition GATEWAY_REJECTIONS :: "string set" where
  "GATEWAY_REJECTIONS = {''SUBJECT_NOT_AUTHORIZED'', ''HANDOFF_NOT_VALID'', ''APPROVAL_REQUIRED'',
     ''APPROVAL_UNEXPECTED'', ''APPROVAL_NOT_VALID''}"

record gateway =
  gw_id :: pystr
  gw_verifier :: handoff_verifier

definition gateway_init :: "pystr \<Rightarrow> verifier_arg \<Rightarrow> gateway result" where
  "gateway_init gateway_id handoff_verifier =
     rbind (gateway_id_check gateway_id) (\<lambda>gid.
     case handoff_verifier of
       Verifier v \<Rightarrow> Inr \<lparr>gw_id = gid, gw_verifier = v\<rparr>
     | _ \<Rightarrow> fail ''handoff_verifier must be a HandoffVerifier'')"

record 's gateway_world =
  gw_approvals :: 's
  gw_uses :: "permit_use list"

definition gateway_rejected :: "gateway \<Rightarrow> string \<Rightarrow> string \<Rightarrow> int \<Rightarrow> exc" where
  "gateway_rejected gw message reason now = GatewayRejected message (gw_id gw) reason now"

text \<open>\<open>except ContractError as refusal: raise GatewayRejected(str(refusal), ...)\<close>.\<close>

definition areject_as :: "gateway \<Rightarrow> string \<Rightarrow> int \<Rightarrow> ('s, 'a) action \<Rightarrow> ('s, 'a) action" where
  "areject_as gw reason now m =
     acatch m (\<lambda>refusal. araise
       (if is_contract_error refusal then gateway_rejected gw (exc_message refusal) reason now else refusal))"

type_synonym 's approval_consumer = "bytes \<Rightarrow> approval_scope \<Rightarrow> int \<Rightarrow> ('s, approval_receipt) action"

definition admit_checked ::
  "platform \<Rightarrow> 's approval_consumer \<Rightarrow> gateway \<Rightarrow> pyval \<Rightarrow> pystr \<Rightarrow> pystr \<Rightarrow> policy \<Rightarrow> int \<Rightarrow> grant \<Rightarrow> bytes option
     \<Rightarrow> ('s, handoff \<times> pystr option) action" where
  "admit_checked P consume gw wire subject job_id policy now grant approval_token =
     (if g_requires_approval grant then
        (case approval_token of
           None \<Rightarrow> araise (gateway_rejected gw ''approval token is required'' ''APPROVAL_REQUIRED'' now)
         | Some token \<Rightarrow>
           abind (areject_as gw ''HANDOFF_NOT_VALID'' now
                    (alift (validate_pending P wire subject job_id policy (Verifier (gw_verifier gw)) now))) (\<lambda>handoff.
           abind (areject_as gw ''APPROVAL_NOT_VALID'' now
                    (abind (alift (create_scope P wire subject job_id policy (Verifier (gw_verifier gw)) now)) (\<lambda>scope.
                     consume token scope now))) (\<lambda>receipt.
           areturn (handoff, Some (rc_record_hash receipt)))))
      else
        (case approval_token of
           Some _ \<Rightarrow> araise (gateway_rejected gw
               ''approval token is not allowed when policy does not require approval'' ''APPROVAL_UNEXPECTED'' now)
         | None \<Rightarrow>
           abind (areject_as gw ''HANDOFF_NOT_VALID'' now
                    (alift (validate P wire subject job_id policy (Verifier (gw_verifier gw)) now))) (\<lambda>handoff.
           areturn (handoff, None))))"

definition mint_permit ::
  "platform \<Rightarrow> gateway \<Rightarrow> int \<Rightarrow> handoff \<Rightarrow> pystr option \<Rightarrow> (permit_use list, dispatch_permit) action" where
  "mint_permit P gw now h record_hash uses =
     (case handoff_digest P h of
        Inl e \<Rightarrow> (Inl e, uses)
      | Inr digest \<Rightarrow>
        let uses' = uses @ [\<lparr>pu_binding = (digest, gw_id gw, now, record_hash), pu_used = False\<rparr>]
        in (permit_post_init P uses'
              \<lparr>dp_handoff = h, dp_handoff_sha256 = digest, dp_gateway_id = gw_id gw, dp_admitted_at = now,
               dp_approval_record_hash = record_hash, dp_use = length uses, dp_origin = True\<rparr>, uses'))"

definition admit ::
  "platform \<Rightarrow> 's approval_consumer \<Rightarrow> gateway \<Rightarrow> pyval \<Rightarrow> pystr \<Rightarrow> pystr \<Rightarrow> policy \<Rightarrow> int \<Rightarrow> bytes option
     \<Rightarrow> ('s gateway_world, dispatch_permit) action" where
  "admit P consume gw wire subject job_id policy now approval_token =
     abind (areject_as gw ''SUBJECT_NOT_AUTHORIZED'' now (alift (grant_for policy subject))) (\<lambda>grant.
     abind (azoom gw_approvals (\<lambda>s w. w\<lparr>gw_approvals := s\<rparr>)
              (admit_checked P consume gw wire subject job_id policy now grant approval_token)) (\<lambda>hr.
     azoom gw_uses (\<lambda>u w. w\<lparr>gw_uses := u\<rparr>) (mint_permit P gw now (fst hr) (snd hr))))"

section \<open>Minting\<close>

definition minted_permit :: "gateway \<Rightarrow> int \<Rightarrow> handoff \<Rightarrow> pystr \<Rightarrow> pystr option \<Rightarrow> nat \<Rightarrow> dispatch_permit" where
  "minted_permit gw now h digest record_hash ref =
     \<lparr>dp_handoff = h, dp_handoff_sha256 = digest, dp_gateway_id = gw_id gw, dp_admitted_at = now,
      dp_approval_record_hash = record_hash, dp_use = ref, dp_origin = True\<rparr>"

lemma gateway_init_id: "gateway_init gid v = Inr gw \<Longrightarrow> is_instance_id (gw_id gw)"
  by (auto simp: gateway_init_def gateway_id_check_def result_simps split: verifier_arg.splits)

lemma mint_permit_ok:
  assumes "hash_ok P" "handoff_digest P h = Inr digest" "is_instance_id (gw_id gw)"
    and "h_issued_at h \<le> now" "now < h_expires_at h" "\<forall>x. record_hash = Some x \<longrightarrow> is_digest x"
  shows "mint_permit P gw now h record_hash uses =
     (Inr (minted_permit gw now h digest record_hash (length uses)),
      uses @ [\<lparr>pu_binding = (digest, gw_id gw, now, record_hash), pu_used = False\<rparr>])"
proof -
  have d: "is_digest digest" by (rule handoff_digest_digest[OF assms(1,2)])
  have c: "compare_digest digest digest = Inr True" using is_digest_ascii[OF d] by simp
  show ?thesis
    using assms(3-6) d c
    by (auto simp: mint_permit_def assms(2) Let_def permit_post_init_def gateway_id_check_def permit_use_matches_def
        minted_permit_def split: option.splits)
qed

lemma handoff_digest_valid:
  "payload_facts P h \<Longrightarrow> handoff_to_bytes h = Inr w \<Longrightarrow> handoff_digest P h = Inr (sha256_hex P w)"
  by (auto simp: payload_facts_def handoff_digest_eq_Inr)

lemma areject_as_eq_Inr [result_simps]: "areject_as gw reason now m s = (Inr x, s') \<longleftrightarrow> m s = (Inr x, s')"
  by (auto simp: areject_as_def acatch_def araise_def split: prod.splits sum.splits)

lemma areject_as_eq_Inl [result_simps]:
  "areject_as gw reason now m s = (Inl e, s') \<longleftrightarrow>
     (\<exists>x. m s = (Inl x, s') \<and> e = (if is_contract_error x then gateway_rejected gw (exc_message x) reason now else x))"
  by (auto simp: areject_as_def acatch_def araise_def split: prod.splits sum.splits)

text \<open>How the gateway refuses: with a recordable code, or by an exception that is no refusal.\<close>

definition gateway_refusal :: "gateway \<Rightarrow> int \<Rightarrow> exc \<Rightarrow> bool" where
  "gateway_refusal gw now e \<longleftrightarrow>
     (\<exists>message reason. e = GatewayRejected message (gw_id gw) reason now \<and> reason \<in> GATEWAY_REJECTIONS)
   \<or> \<not> is_contract_error e"

lemma gateway_refusal_intros:
  "reason \<in> GATEWAY_REJECTIONS \<Longrightarrow> gateway_refusal gw now (gateway_rejected gw message reason now)"
  "reason \<in> GATEWAY_REJECTIONS \<Longrightarrow>
     gateway_refusal gw now (if is_contract_error x then gateway_rejected gw (exc_message x) reason now else x)"
  by (auto simp: gateway_refusal_def gateway_rejected_def)

lemma rejections [simp]:
  "''SUBJECT_NOT_AUTHORIZED'' \<in> GATEWAY_REJECTIONS" "''HANDOFF_NOT_VALID'' \<in> GATEWAY_REJECTIONS"
  "''APPROVAL_REQUIRED'' \<in> GATEWAY_REJECTIONS" "''APPROVAL_UNEXPECTED'' \<in> GATEWAY_REJECTIONS"
  "''APPROVAL_NOT_VALID'' \<in> GATEWAY_REJECTIONS"
  by (simp_all add: GATEWAY_REJECTIONS_def)

section \<open>What the gateway needs of an approval store\<close>

locale approval_contract =
  fixes P :: platform
    and consume :: "'s approval_consumer"
    and unused :: "'s \<Rightarrow> bytes \<Rightarrow> bool"
  assumes refusal_keeps: "consume token scope now s = (Inl e, s') \<Longrightarrow> s' = s"
    and consumption: "consume token scope now s = (Inr r, s') \<Longrightarrow> unused s token \<and> \<not> unused s' token"
    and receipt_digest: "hash_ok P \<Longrightarrow> consume token scope now s = (Inr r, s') \<Longrightarrow> is_digest (rc_record_hash r)"
begin

lemma admit_checked_Inr:
  assumes "admit_checked P consume gw wire subject job_id policy now g token s = (Inr (h, rh), s')"
  shows "if g_requires_approval g
     then validate_pending P wire subject job_id policy (Verifier (gw_verifier gw)) now = Inr h
       \<and> (\<exists>t sc r. token = Some t \<and> create_scope P wire subject job_id policy (Verifier (gw_verifier gw)) now = Inr sc
            \<and> consume t sc now s = (Inr r, s') \<and> rh = Some (rc_record_hash r) \<and> unused s t \<and> \<not> unused s' t)
     else validate P wire subject job_id policy (Verifier (gw_verifier gw)) now = Inr h
       \<and> token = None \<and> rh = None \<and> s' = s"
proof (cases "g_requires_approval g")
  case True
  with assms obtain t where t: "token = Some t" by (cases token) (auto simp: admit_checked_def result_simps)
  with assms True obtain sc r where "validate_pending P wire subject job_id policy (Verifier (gw_verifier gw)) now = Inr h"
    "create_scope P wire subject job_id policy (Verifier (gw_verifier gw)) now = Inr sc"
    "consume t sc now s = (Inr r, s')" "rh = Some (rc_record_hash r)"
    by (auto simp: admit_checked_def result_simps)
  with True t consumption[of t sc now s r s'] show ?thesis by auto
next
  case False
  with assms show ?thesis by (cases token) (auto simp: admit_checked_def result_simps)
qed

lemma admit_checked_Inl:
  assumes "admit_checked P consume gw wire subject job_id policy now g token s = (Inl e, s')"
  shows "s' = s \<and> gateway_refusal gw now e"
proof (cases "g_requires_approval g")
  case True
  show ?thesis
  proof (cases token)
    case None
    with assms True show ?thesis by (auto simp: admit_checked_def result_simps gateway_refusal_intros)
  next
    case (Some t)
    from assms consider
      x where "s' = s" "e = (if is_contract_error x then gateway_rejected gw (exc_message x) ''HANDOFF_NOT_VALID'' now else x)"
      | x where "s' = s" "e = (if is_contract_error x then gateway_rejected gw (exc_message x) ''APPROVAL_NOT_VALID'' now else x)"
      | sc x where "consume t sc now s = (Inl x, s')"
        "e = (if is_contract_error x then gateway_rejected gw (exc_message x) ''APPROVAL_NOT_VALID'' now else x)"
      by (simp only: admit_checked_def True Some if_True option.case abind_eq_Inl areject_as_eq_Inl areject_as_eq_Inr
          areturn_eq alift_eq sum.distinct simp_thms ex_simps) blast
    then show ?thesis
    proof cases
      case (3 sc x)
      from refusal_keeps[OF 3(1)] gateway_refusal_intros(2)[of "''APPROVAL_NOT_VALID''" gw now x] 3(2) show ?thesis
        by (simp only: rejections)
    qed (simp_all only: gateway_refusal_intros(2) rejections)
  qed
next
  case False
  with assms show ?thesis by (cases token) (auto simp: admit_checked_def result_simps intro: gateway_refusal_intros)
qed

lemma admit_mints:
  assumes "hash_ok P" "is_instance_id (gw_id gw)"
    and "admit_checked P consume gw wire subject job_id policy now g token s = (Inr (h, rh), s')" "grant_for policy subject = Inr g"
  obtains w where "wire = PBytes w" "handoff_to_bytes h = Inr w" "handoff_facts policy g job_id now h" "payload_facts P h"
    "signature_facts P (gw_verifier gw) h"
    "mint_permit P gw now h rh uses =
       (Inr (minted_permit gw now h (sha256_hex P w) rh (length uses)),
        uses @ [\<lparr>pu_binding = (sha256_hex P w, gw_id gw, now, rh), pu_used = False\<rparr>])"
proof -
  note a = admit_checked_Inr[OF assms(3)]
  have "\<exists>w. wire = PBytes w \<and> handoff_to_bytes h = Inr w \<and> handoff_facts policy g job_id now h \<and> payload_facts P h
      \<and> signature_facts P (gw_verifier gw) h"
  proof (cases "g_requires_approval g")
    case True
    with a have "validate_pending P wire subject job_id policy (Verifier (gw_verifier gw)) now = Inr h" by simp
    from validate_pending_sound[OF this] assms(4) show ?thesis by auto
  next
    case False
    with a have "validate P wire subject job_id policy (Verifier (gw_verifier gw)) now = Inr h" by simp
    from validate_sound_lemma[OF this] assms(4) show ?thesis by auto
  qed
  then obtain w where w: "wire = PBytes w" "handoff_to_bytes h = Inr w" "handoff_facts policy g job_id now h" "payload_facts P h"
    "signature_facts P (gw_verifier gw) h" by blast
  have "\<forall>x. rh = Some x \<longrightarrow> is_digest x"
    using a receipt_digest[OF assms(1)] by (auto split: if_splits)
  with w mint_permit_ok[OF assms(1) handoff_digest_valid[OF w(4,2)] assms(2)] that show thesis
    by (auto simp: handoff_facts_def)
qed

text \<open>The gateway's promise: an admission is fully checked, and spends an approval exactly when the grant requires one.\<close>

lemma admit_sound:
  assumes "hash_ok P" "is_instance_id (gw_id gw)"
    and "admit P consume gw wire subject job_id policy now token w = (Inr p, w')"
  shows "\<exists>b g rh. wire = PBytes b \<and> grant_for policy subject = Inr g
     \<and> handoff_to_bytes (dp_handoff p) = Inr b \<and> handoff_facts policy g job_id now (dp_handoff p)
     \<and> payload_facts P (dp_handoff p) \<and> signature_facts P (gw_verifier gw) (dp_handoff p)
     \<and> p = minted_permit gw now (dp_handoff p) (sha256_hex P b) rh (length (gw_uses w))
     \<and> gw_uses w' = gw_uses w @ [\<lparr>pu_binding = (sha256_hex P b, gw_id gw, now, rh), pu_used = False\<rparr>]
     \<and> (if g_requires_approval g
        then rh \<noteq> None \<and> (\<exists>t. token = Some t \<and> unused (gw_approvals w) t \<and> \<not> unused (gw_approvals w') t)
        else rh = None \<and> token = None \<and> gw_approvals w' = gw_approvals w)"
proof -
  from assms(3) obtain g h rh s1 where 1: "grant_for policy subject = Inr g"
    "admit_checked P consume gw wire subject job_id policy now g token (gw_approvals w) = (Inr (h, rh), s1)"
    "azoom gw_uses (\<lambda>u w. w\<lparr>gw_uses := u\<rparr>) (mint_permit P gw now h rh) (w\<lparr>gw_approvals := s1\<rparr>) = (Inr p, w')"
    by (auto simp: admit_def result_simps)
  obtain b where b: "wire = PBytes b" "handoff_to_bytes h = Inr b" "handoff_facts policy g job_id now h" "payload_facts P h"
    "signature_facts P (gw_verifier gw) h"
    "mint_permit P gw now h rh (gw_uses w) =
       (Inr (minted_permit gw now h (sha256_hex P b) rh (length (gw_uses w))),
        gw_uses w @ [\<lparr>pu_binding = (sha256_hex P b, gw_id gw, now, rh), pu_used = False\<rparr>])"
    by (rule admit_mints[OF assms(1,2) 1(2,1)])
  have p: "p = minted_permit gw now h (sha256_hex P b) rh (length (gw_uses w))"
    and w': "gw_uses w' = gw_uses w @ [\<lparr>pu_binding = (sha256_hex P b, gw_id gw, now, rh), pu_used = False\<rparr>]"
      "gw_approvals w' = s1"
    using 1(3) b(6) by (auto simp: azoom_eq)
  have h: "dp_handoff p = h" by (simp add: p minted_permit_def)
  have "if g_requires_approval g
        then rh \<noteq> None \<and> (\<exists>t. token = Some t \<and> unused (gw_approvals w) t \<and> \<not> unused (gw_approvals w') t)
        else rh = None \<and> token = None \<and> gw_approvals w' = gw_approvals w"
    using admit_checked_Inr[OF 1(2)] w'(2) by (auto split: if_splits)
  with b(1-5) 1(1) p w' show ?thesis unfolding h by blast
qed

text \<open>Which consumption that was: of the token that was shown, for the scope of this very wire.\<close>

lemma admit_consumes:
  assumes "admit P consume gw wire subject job_id policy now token w = (Inr p, w')" "grant_for policy subject = Inr g" "g_requires_approval g"
    and "hash_ok P" "is_instance_id (gw_id gw)"
  shows "\<exists>t sc r. token = Some t \<and> validate_pending P wire subject job_id policy (Verifier (gw_verifier gw)) now = Inr (dp_handoff p)
     \<and> create_scope P wire subject job_id policy (Verifier (gw_verifier gw)) now = Inr sc
     \<and> consume t sc now (gw_approvals w) = (Inr r, gw_approvals w') \<and> dp_approval_record_hash p = Some (rc_record_hash r)"
proof -
  from assms(1,2) obtain h rh s1 where 1:
    "admit_checked P consume gw wire subject job_id policy now g token (gw_approvals w) = (Inr (h, rh), s1)"
    "azoom gw_uses (\<lambda>u w. w\<lparr>gw_uses := u\<rparr>) (mint_permit P gw now h rh) (w\<lparr>gw_approvals := s1\<rparr>) = (Inr p, w')"
    by (auto simp: admit_def result_simps)
  obtain b where b: "mint_permit P gw now h rh (gw_uses w) =
       (Inr (minted_permit gw now h (sha256_hex P b) rh (length (gw_uses w))),
        gw_uses w @ [\<lparr>pu_binding = (sha256_hex P b, gw_id gw, now, rh), pu_used = False\<rparr>])"
    by (rule admit_mints[OF assms(4,5) 1(1) assms(2)])
  have "p = minted_permit gw now h (sha256_hex P b) rh (length (gw_uses w))" "gw_approvals w' = s1"
    using 1(2) b by (auto simp: azoom_eq)
  then show ?thesis using admit_checked_Inr[OF 1(1)] assms(3) by (auto simp: minted_permit_def)
qed

text \<open>A refusal changes nothing: no approval is spent and no permit cell is made.\<close>

lemma admit_refusal:
  assumes "hash_ok P" "is_instance_id (gw_id gw)"
    and "admit P consume gw wire subject job_id policy now token w = (Inl e, w')"
  shows "w' = w \<and> gateway_refusal gw now e"
proof (cases "grant_for policy subject")
  case (Inl x)
  with assms(3) gateway_refusal_intros(2)[of "''SUBJECT_NOT_AUTHORIZED''" gw now x] show ?thesis
    by (auto simp: admit_def result_simps)
next
  case (Inr g)
  obtain c s1 where c: "admit_checked P consume gw wire subject job_id policy now g token (gw_approvals w) = (c, s1)" by force
  show ?thesis
  proof (cases c)
    case (Inl x)
    with admit_checked_Inl[OF c[unfolded Inl]] c assms(3) Inr show ?thesis
      by (auto simp: admit_def abind_def alift_def azoom_def areject_as_def acatch_def)
  next
    case I: (Inr hr)
    obtain h rh where hr: "hr = (h, rh)" by force
    obtain b where "mint_permit P gw now h rh (gw_uses w) =
       (Inr (minted_permit gw now h (sha256_hex P b) rh (length (gw_uses w))),
        gw_uses w @ [\<lparr>pu_binding = (sha256_hex P b, gw_id gw, now, rh), pu_used = False\<rparr>])"
      by (rule admit_mints[OF assms(1,2) c[unfolded I hr] Inr])
    with assms(3) c I hr Inr show ?thesis
      by (simp add: admit_def abind_def alift_def azoom_def areject_as_def acatch_def)
  qed
qed

end

section \<open>The process-local store meets the contract\<close>

definition approval_unused :: "platform \<Rightarrow> approval_store \<Rightarrow> bytes \<Rightarrow> bool" where
  "approval_unused P s token \<longleftrightarrow>
     (case s (sha256 P token) of None \<Rightarrow> False | Some rec \<Rightarrow> ar_state rec = GRANTED)"

lemma consume_cases:
  "approval_consume P token scope now tx s = (r, s') \<Longrightarrow>
     (\<exists>e. r = Inl e \<and> s' = s)
   \<or> (\<exists>upd. next_record P (s (sha256 P token)) (sha256 P token) scope now CONSUMED True = Inr upd
        \<and> (\<exists>rc. r = Inr rc \<and> rc_record_hash rc = ar_record_hash upd) \<and> s' = s(sha256 P token \<mapsto> upd))"
  unfolding approval_consume_def
  by (cases tx) (auto dest!: transition_cases)

lemma approval_record_hash_digest: "hash_ok P \<Longrightarrow> approval_record_hash P d sc i e st c pr = Inr h \<Longrightarrow> is_digest h"
  by (auto simp: approval_record_hash_def rbind_eq_Inr)

interpretation local_approvals: approval_contract P "\<lambda>token scope now. approval_consume P token scope now tx" "approval_unused P"
proof
  fix token scope now s r s'
  assume "approval_consume P token scope now tx s = (Inr r, s')"
  then obtain upd where u: "next_record P (s (sha256 P token)) (sha256 P token) scope now CONSUMED True = Inr upd"
    "s' = s(sha256 P token \<mapsto> upd)" "rc_record_hash r = ar_record_hash upd" by (auto dest!: consume_cases)
  then show "approval_unused P s token \<and> \<not> approval_unused P s' token"
    by (auto simp: next_record_eq_Inr approval_unused_def)
  show "is_digest (rc_record_hash r)" if "hash_ok P"
    using u approval_record_hash_digest[OF that] by (auto simp: next_record_eq_Inr)
qed (auto dest: consume_cases)

section \<open>A permit is used once\<close>

definition permit_spent :: "permit_use list \<Rightarrow> nat \<Rightarrow> bool" where
  "permit_spent uses ref \<longleftrightarrow> ref < length uses \<and> pu_used (uses ! ref)"

definition permit_key :: "dispatch_permit option \<Rightarrow> nat option" where
  "permit_key permit = map_option dp_use permit"

lemma permit_use_consume_cases:
  assumes "permit_use_consume ref uses = (r, uses')"
  shows "(\<exists>e. r = Inl e) \<and> uses' = uses
    \<or> r = Inr () \<and> ref < length uses \<and> \<not> pu_used (uses ! ref) \<and> uses' = uses[ref := (uses ! ref)\<lparr>pu_used := True\<rparr>]"
  using assms by (auto simp: permit_use_consume_def split: if_splits)

lemma consume_permit_cases:
  assumes "consume_handoff_from_permit P permit uses = (r, uses')"
  shows "(\<exists>e. r = Inl e) \<and> uses' = uses
    \<or> (\<exists>p. permit = Some p \<and> dp_origin p \<and> r = Inr (dp_handoff p) \<and> \<not> permit_spent uses (dp_use p)
          \<and> dp_use p < length uses \<and> uses' = uses[dp_use p := (uses ! dp_use p)\<lparr>pu_used := True\<rparr>])"
proof (cases "handoff_from_permit P permit")
  case (Inl e)
  with assms have "r = Inl e" "uses' = uses" by (simp_all add: consume_handoff_from_permit_def abind_def alift_def)
  then show ?thesis by blast
next
  case (Inr h)
  then obtain p where p: "permit = Some p" "dp_origin p" "h = dp_handoff p"
    by (cases permit) (auto simp: handoff_from_permit_def result_simps)
  obtain u us where u: "permit_use_consume (dp_use p) uses = (u, us)" by force
  with permit_use_consume_cases[OF u] assms Inr p show ?thesis
    by (auto simp: consume_handoff_from_permit_def abind_def alift_def areturn_def permit_spent_def split: sum.splits)
qed

interpretation permits: single_use "consume_handoff_from_permit P" permit_spent permit_key
proof
  fix permit uses r uses' k
  assume "consume_handoff_from_permit P permit uses = (r, uses')" "permit_spent uses k"
  then show "permit_spent uses' k"
    using consume_permit_cases[of P permit uses r uses'] by (auto simp: permit_spent_def nth_list_update)
next
  fix permit uses x uses' k
  assume "consume_handoff_from_permit P permit uses = (Inr x, uses')" "permit_key permit = Some k"
  then show "\<not> permit_spent uses k \<and> permit_spent uses' k"
    using consume_permit_cases[of P permit uses "Inr x" uses'] by (auto simp: permit_spent_def permit_key_def)
qed

section \<open>Admission succeeds\<close>

lemma from_object_deterministic:
  assumes "from_object P d subject job_id policy verifier now a = Inr h"
    and "from_object P d subject' job_id' policy' verifier' now' a' = Inr h'"
  shows "h = h'"
proof -
  obtain pv where 1: "object_reads d h" "map_of d (lit ''payload'') = Some pv" "payload pv = Inr (h_payload h)"
    using assms(1) by (rule from_object_eq_Inr)
  obtain pv' where 2: "object_reads d h'" "map_of d (lit ''payload'') = Some pv'" "payload pv' = Inr (h_payload h')"
    using assms(2) by (rule from_object_eq_Inr)
  have "h_payload h = h_payload h'" using 1 2 by simp
  moreover have "h_tools h = h_tools h'" using 1(1) 2(1) unfolding object_reads_def by (auto simp del: map_PStr_eq) (simp_all)
  ultimately show ?thesis using 1(1) 2(1) unfolding object_reads_def by (cases h; cases h') simp
qed

lemma admit_direct:
  assumes "hash_ok P" "is_instance_id (gw_id gw)" "grant_for policy subject = Inr g" "\<not> g_requires_approval g"
    and "validate P wire subject job_id policy (Verifier (gw_verifier gw)) now = Inr h"
  shows "\<exists>p w'. admit P consume gw wire subject job_id policy now None w = (Inr p, w') \<and> dp_handoff p = h"
proof -
  from validate_sound_lemma[OF assms(5)] assms(3) obtain b where b: "handoff_to_bytes h = Inr b"
    "handoff_facts policy g job_id now h" "payload_facts P h" by auto
  have "admit_checked P consume gw wire subject job_id policy now g None s = (Inr (h, None), s)" for s
    using assms(4,5) by (simp add: admit_checked_def abind_def areject_as_def acatch_def alift_def areturn_def)
  moreover have "mint_permit P gw now h None (gw_uses w) = (Inr (minted_permit gw now h (sha256_hex P b) None (length (gw_uses w))),
      gw_uses w @ [\<lparr>pu_binding = (sha256_hex P b, gw_id gw, now, None), pu_used = False\<rparr>])"
    by (rule mint_permit_ok[OF assms(1) handoff_digest_valid[OF b(3,1)] assms(2)]) (use b(2) in \<open>auto simp: handoff_facts_def\<close>)
  ultimately show ?thesis
    by (simp add: admit_def assms(3) abind_def areject_as_def acatch_def alift_def azoom_def minted_permit_def)
qed

lemma create_scope_same:
  assumes "create_scope P wire subject job_id policy verifier now = Inr sc"
    and "create_scope P wire subject job_id policy verifier' now' = Inr sc'"
  shows "sc = sc'"
proof -
  obtain h w where 1: "validate_pending P wire subject job_id policy verifier now = Inr h" "wire = PBytes w"
    "sc = \<lparr>as_handoff_sha256 = sha256_hex P w, as_handoff_expires_at = h_expires_at h, as_job_id = h_job_id h,
        as_user_id = h_user_id h, as_worker_agent_id = h_worker_agent_id h, as_risk_tier = h_tier h,
        as_policy_version = h_policy_version h, as_action = EXECUTE_HANDOFF, as_origin = True\<rparr>"
    using assms(1) by (rule create_scope_eq_Inr)
  obtain h' w' where 2: "validate_pending P wire subject job_id policy verifier' now' = Inr h'" "wire = PBytes w'"
    "sc' = \<lparr>as_handoff_sha256 = sha256_hex P w', as_handoff_expires_at = h_expires_at h', as_job_id = h_job_id h',
        as_user_id = h_user_id h', as_worker_agent_id = h_worker_agent_id h', as_risk_tier = h_tier h',
        as_policy_version = h_policy_version h', as_action = EXECUTE_HANDOFF, as_origin = True\<rparr>"
    using assms(2) by (rule create_scope_eq_Inr)
  have "h = h'"
    using 1(1) 2(1) from_object_deterministic by (fastforce simp: validate_pending_def result_simps)
  with 1 2 show ?thesis by simp
qed

text \<open>An approved job is admitted once: the approval granted for the wire's own scope is enough, and it is gone afterwards.\<close>

lemma admit_approved:
  assumes "hash_ok P" "is_instance_id (gw_id gw)" "valid_policy policy" "grant_for policy subject = Inr g" "valid_grant g"
    and "g_requires_approval g" "job_id \<noteq> []" "0 < now"
    and "create_scope P wire subject job_id policy (Verifier (gw_verifier gw)) granted = Inr sc"
    and "approval_grant_op P token sc granted ttl tx s = (Inr ag, gw_approvals w)"
    and "validate_pending P wire subject job_id policy (Verifier (gw_verifier gw)) now = Inr h"
    and "granted \<le> now" "now < ag_expires_at ag" "now < 10 ^ 18"
  shows "\<exists>p w'. admit P (\<lambda>t sc now. approval_consume P t sc now False) gw wire subject job_id policy now (Some token) w = (Inr p, w')
     \<and> dp_handoff p = h \<and> approval_spent (gw_approvals w') (sha256 P token)"
proof -
  let ?c = "\<lambda>t sc now. approval_consume P t sc now False"
  from validate_pending_sound[OF assms(11)] assms(4) obtain b where b: "wire = PBytes b" "handoff_to_bytes h = Inr b"
    "handoff_facts policy g job_id now h" "payload_facts P h" by auto
  have pos: "0 < h_expires_at h" using b(3) assms(8) by (simp add: handoff_facts_def)
  obtain sc' where sc': "create_scope P wire subject job_id policy (Verifier (gw_verifier gw)) now = Inr sc'"
    using create_scope_complete[OF assms(11)[unfolded b(1)] assms(1) pos assms(3,4,5,7)] b(1) by auto
  have sc: "create_scope P wire subject job_id policy (Verifier (gw_verifier gw)) now = Inr sc"
    using create_scope_same[OF assms(9) sc'] sc' by simp
  obtain r s2 where r: "?c token sc now (gw_approvals w) = (Inr r, s2)"
    using grant_consumable[OF assms(10,12,13)] assms(8,14) by auto
  have ch: "admit_checked P ?c gw wire subject job_id policy now g (Some token) (gw_approvals w) = (Inr (h, Some (rc_record_hash r)), s2)"
    using assms(6,11) sc r by (simp add: admit_checked_def abind_def areject_as_def acatch_def alift_def areturn_def)
  have "is_digest (rc_record_hash r)" by (rule local_approvals.receipt_digest[OF assms(1) r])
  with b(3) have "mint_permit P gw now h (Some (rc_record_hash r)) (gw_uses w) =
      (Inr (minted_permit gw now h (sha256_hex P b) (Some (rc_record_hash r)) (length (gw_uses w))),
      gw_uses w @ [\<lparr>pu_binding = (sha256_hex P b, gw_id gw, now, Some (rc_record_hash r)), pu_used = False\<rparr>])"
    by (intro mint_permit_ok[OF assms(1) handoff_digest_valid[OF b(4,2)] assms(2)]) (auto simp: handoff_facts_def)
  moreover have "approval_spent s2 (sha256 P token)"
  proof -
    have "approval_step P (OpConsume token sc now False) (gw_approvals w) = (Inr (Changed r), s2)"
      using r by (simp add: abind_def areturn_def)
    from approvals.spend_fresh[OF this] show ?thesis by simp
  qed
  ultimately show ?thesis
    using ch by (simp add: admit_def assms(4) abind_def areject_as_def acatch_def alift_def azoom_def minted_permit_def)
qed


section \<open>Properties\<close>

definition sample_gateway :: gateway where
  "sample_gateway = \<lparr>gw_id = lit ''gateway-1'', gw_verifier = hs_verifier sample_signer\<rparr>"

lemma sample_gateway_init: "gateway_init (lit ''gateway-1'') (Verifier (hs_verifier sample_signer)) = Inr sample_gateway"
  by (simp add: gateway_init_def gateway_id_check_def is_instance_id_def lit_def is_lower_alnum_def is_digit_def sample_gateway_def)

text \<open>The consumption of an approval for a handoff: its record was granted, valid at the time and unexpired, its
  scope has the canonical form of the scope of this wire, and what is stored now is that record, consumed, with the
  hash that chains it to the one before.\<close>

definition handoff_scope :: "platform \<Rightarrow> bytes \<Rightarrow> handoff \<Rightarrow> approval_scope" where
  "handoff_scope P wire h =
     \<lparr>as_handoff_sha256 = sha256_hex P wire, as_handoff_expires_at = h_expires_at h, as_job_id = h_job_id h, as_user_id = h_user_id h,
      as_worker_agent_id = h_worker_agent_id h, as_risk_tier = h_tier h, as_policy_version = h_policy_version h,
      as_action = EXECUTE_HANDOFF, as_origin = True\<rparr>"

definition spends_approval :: "platform \<Rightarrow> bytes \<Rightarrow> handoff \<Rightarrow> int \<Rightarrow> bytes \<Rightarrow> approval_store \<Rightarrow> approval_store \<Rightarrow> pystr \<Rightarrow> bool" where
  "spends_approval P wire h now token s s' rh \<longleftrightarrow>
     (\<exists>rec c. s (sha256 P token) = Some rec \<and> ar_state rec = GRANTED \<and> ar_issued_at rec \<le> now \<and> now < ar_expires_at rec
        \<and> canonical (PDict (scope_dict (ar_scope rec))) = Inr c \<and> canonical (PDict (scope_dict (handoff_scope P wire h))) = Inr c
        \<and> approval_record_hash P (sha256 P token) (ar_scope rec) (ar_issued_at rec) (ar_expires_at rec) CONSUMED now (Some (ar_record_hash rec)) = Inr rh
        \<and> s' = s(sha256 P token \<mapsto> rec\<lparr>ar_state := CONSUMED, ar_changed_at := now, ar_previous_hash := Some (ar_record_hash rec), ar_record_hash := rh\<rparr>))"

lemma consume_spends:
  assumes "approval_consume P t sc now tx s = (Inr r, s')" "create_scope P (PBytes b) subject job_id policy verifier now' = Inr sc"
    and "validate_pending P (PBytes b) subject job_id policy verifier now' = Inr h"
  shows "spends_approval P b h now t s s' (rc_record_hash r)"
proof -
  obtain h' w where "validate_pending P (PBytes b) subject job_id policy verifier now' = Inr h'" "PBytes b = PBytes w" "sc = handoff_scope P w h'"
    by (rule create_scope_eq_Inr[OF assms(2)]) (auto simp: handoff_scope_def)
  with assms(3) have sc: "sc = handoff_scope P b h" by simp
  obtain upd where u: "next_record P (s (sha256 P t)) (sha256 P t) sc now CONSUMED True = Inr upd" "rc_record_hash r = ar_record_hash upd"
    "s' = s(sha256 P t \<mapsto> upd)" using consume_cases[OF assms(1)] by auto
  then show ?thesis unfolding spends_approval_def sc by (auto simp: next_record_eq_Inr scope_matches_def rbind_eq_Inr)
qed

text \<open>C27. Nothing is admitted unchecked: a permit means that the raw wire is the canonical form of a
  handoff with every field from the subject's grant, inside its validity window, with a verifying
  signature and a matching payload digest; the permit names the digest of those bytes and is bound to a
  fresh, unused cell. When the grant requires an approval, the token that was shown named a granted record that
  was valid and unexpired at this time and had the scope of this wire and no other, that record and no other was
  consumed, and the permit carries its new hash (\<open>spends_approval\<close>); otherwise no token was shown and no
  approval touched.\<close>

theorem admit_checks_everything:
  assumes "hash_ok P" "gateway_init gid verifier = Inr gw"
    and "admit P (\<lambda>t sc now. approval_consume P t sc now tx) gw wire subject job_id policy now token w = (Inr p, w')"
  shows "\<exists>b g rh. wire = PBytes b \<and> grant_for policy subject = Inr g
     \<and> handoff_to_bytes (dp_handoff p) = Inr b \<and> handoff_facts policy g job_id now (dp_handoff p)
     \<and> payload_facts P (dp_handoff p) \<and> signature_facts P (gw_verifier gw) (dp_handoff p)
     \<and> p = minted_permit gw now (dp_handoff p) (sha256_hex P b) rh (length (gw_uses w))
     \<and> gw_uses w' = gw_uses w @ [\<lparr>pu_binding = (sha256_hex P b, gw_id gw, now, rh), pu_used = False\<rparr>]
     \<and> (if g_requires_approval g
        then \<exists>t x. token = Some t \<and> rh = Some x \<and> spends_approval P b (dp_handoff p) now t (gw_approvals w) (gw_approvals w') x
        else rh = None \<and> token = None \<and> gw_approvals w' = gw_approvals w)"
proof -
  note id = gateway_init_id[OF assms(2)]
  obtain b g rh where a: "wire = PBytes b" "grant_for policy subject = Inr g" "handoff_to_bytes (dp_handoff p) = Inr b"
    "handoff_facts policy g job_id now (dp_handoff p)" "payload_facts P (dp_handoff p)" "signature_facts P (gw_verifier gw) (dp_handoff p)"
    "p = minted_permit gw now (dp_handoff p) (sha256_hex P b) rh (length (gw_uses w))"
    "gw_uses w' = gw_uses w @ [\<lparr>pu_binding = (sha256_hex P b, gw_id gw, now, rh), pu_used = False\<rparr>]"
    "\<not> g_requires_approval g \<longrightarrow> rh = None \<and> token = None \<and> gw_approvals w' = gw_approvals w"
    using local_approvals.admit_sound[OF assms(1) id assms(3)] by (metis (no_types, lifting))
  have "\<exists>t x. token = Some t \<and> rh = Some x \<and> spends_approval P b (dp_handoff p) now t (gw_approvals w) (gw_approvals w') x" if g: "g_requires_approval g"
  proof -
    obtain t sc r where c: "token = Some t" "validate_pending P (PBytes b) subject job_id policy (Verifier (gw_verifier gw)) now = Inr (dp_handoff p)"
      "create_scope P (PBytes b) subject job_id policy (Verifier (gw_verifier gw)) now = Inr sc"
      "approval_consume P t sc now tx (gw_approvals w) = (Inr r, gw_approvals w')" "dp_approval_record_hash p = Some (rc_record_hash r)"
      using local_approvals.admit_consumes[OF assms(3) a(2) g assms(1) id] unfolding a(1) by blast
    have "dp_approval_record_hash p = rh" using arg_cong[OF a(7), of dp_approval_record_hash] by (simp add: minted_permit_def)
    with c(1,5) consume_spends[OF c(4,3,2)] show ?thesis by auto
  qed
  with a show ?thesis by metis
qed

lemma sample_admit:
  "\<exists>p w'. admit sample_platform (\<lambda>t sc now. approval_consume sample_platform t sc now False) sample_gateway
     (PBytes (sample_wire (lit ''alice''))) (lit ''alice'') (lit ''job-1'') sample_policy 150 None
     \<lparr>gw_approvals = Map.empty, gw_uses = []\<rparr> = (Inr p, w') \<and> h_job_id (dp_handoff p) = lit ''job-1''"
proof -
  obtain h where h: "validate sample_platform (PBytes (sample_wire (lit ''alice''))) (lit ''alice'') (lit ''job-1'')
      sample_policy (Signer sample_signer) 150 = Inr h" using sample_validate by blast
  then have h': "validate sample_platform (PBytes (sample_wire (lit ''alice''))) (lit ''alice'') (lit ''job-1'')
      sample_policy (Verifier (gw_verifier sample_gateway)) 150 = Inr h"
    by (simp add: validate_def from_object_def sample_gateway_def)
  from validate_sound_lemma[OF h] have j: "h_job_id h = lit ''job-1''" by (auto simp: handoff_facts_def)
  obtain p w' where "admit sample_platform (\<lambda>t sc now. approval_consume sample_platform t sc now False) sample_gateway
      (PBytes (sample_wire (lit ''alice''))) (lit ''alice'') (lit ''job-1'') sample_policy 150 None
      \<lparr>gw_approvals = Map.empty, gw_uses = []\<rparr> = (Inr p, w')" "dp_handoff p = h"
    using admit_direct[OF sample_platform_ok(1) gateway_init_id[OF sample_gateway_init] sample_grant_for(1) sample_fields(1) h'] by blast
  with j show ?thesis by blast
qed

theorem admit_checks_everything_witness:
  "\<exists>p w'. admit sample_platform (\<lambda>t sc now. approval_consume sample_platform t sc now False) sample_gateway
     (PBytes (sample_wire (lit ''alice''))) (lit ''alice'') (lit ''job-1'') sample_policy 150 None
     \<lparr>gw_approvals = Map.empty, gw_uses = []\<rparr> = (Inr p, w')
   \<and> dp_handoff_sha256 p = sha256_hex sample_platform (sample_wire (lit ''alice'')) \<and> gw_approvals w' = Map.empty"
proof -
  obtain p w' where a: "admit sample_platform (\<lambda>t sc now. approval_consume sample_platform t sc now False) sample_gateway
     (PBytes (sample_wire (lit ''alice''))) (lit ''alice'') (lit ''job-1'') sample_policy 150 None
     \<lparr>gw_approvals = Map.empty, gw_uses = []\<rparr> = (Inr p, w')" using sample_admit by blast
  obtain rh where p: "p = minted_permit sample_gateway 150 (dp_handoff p) (sha256_hex sample_platform (sample_wire (lit ''alice''))) rh 0"
    and s: "gw_approvals w' = Map.empty"
    using admit_checks_everything[OF sample_platform_ok(1) sample_gateway_init a] by auto
  from p have "dp_handoff_sha256 p = sha256_hex sample_platform (sample_wire (lit ''alice''))"
    by (metis dispatch_permit.select_convs(2) minted_permit_def)
  with a s show ?thesis by blast
qed

text \<open>Default deny leaves no trace: whenever \<open>admit\<close> raises, the approval store and the permit
  cells are as before, and the exception is a \<open>GatewayRejected\<close> with a code of the closed set, or an
  exception that is no \<open>ContractError\<close> at all.\<close>

theorem admit_refusal_keeps_world:
  assumes "hash_ok P" "gateway_init gid verifier = Inr gw"
    and "admit P (\<lambda>t sc now. approval_consume P t sc now tx) gw wire subject job_id policy now token w = (Inl e, w')"
  shows "w' = w \<and> gateway_refusal gw now e"
  by (rule local_approvals.admit_refusal[OF assms(1) gateway_init_id[OF assms(2)] assms(3)])

theorem admit_refusal_keeps_world_witness:
  "\<exists>e. admit sample_platform (\<lambda>t sc now. approval_consume sample_platform t sc now False) sample_gateway
     (PBytes (sample_wire (lit ''bob''))) (lit ''bob'') (lit ''job-1'') sample_policy 150 None
     \<lparr>gw_approvals = Map.empty, gw_uses = []\<rparr> = (Inl e, \<lparr>gw_approvals = Map.empty, gw_uses = []\<rparr>)"
proof -
  obtain e w' where a: "admit sample_platform (\<lambda>t sc now. approval_consume sample_platform t sc now False) sample_gateway
     (PBytes (sample_wire (lit ''bob''))) (lit ''bob'') (lit ''job-1'') sample_policy 150 None
     \<lparr>gw_approvals = Map.empty, gw_uses = []\<rparr> = (Inl e, w')"
    by (simp add: admit_def admit_checked_def abind_def areject_as_def acatch_def alift_def azoom_def araise_def)
  with admit_refusal_keeps_world[OF sample_platform_ok(1) sample_gateway_init a] show ?thesis by blast
qed

text \<open>An approved job passes the gateway, once: a token granted for the scope of the wire is enough
  to admit it during the approval's lifetime, and the token is spent by that admission.\<close>

theorem approved_job_admitted:
  assumes "hash_ok P" "gateway_init gid verifier = Inr gw" "valid_policy policy" "grant_for policy subject = Inr g" "valid_grant g"
    and "g_requires_approval g" "job_id \<noteq> []" "0 < now"
    and "create_scope P wire subject job_id policy (Verifier (gw_verifier gw)) granted = Inr sc"
    and "approval_grant_op P token sc granted ttl tx s = (Inr ag, gw_approvals w)"
    and "validate_pending P wire subject job_id policy (Verifier (gw_verifier gw)) now = Inr h"
    and "granted \<le> now" "now < ag_expires_at ag" "now < 10 ^ 18"
  shows "\<exists>p w'. admit P (\<lambda>t sc now. approval_consume P t sc now False) gw wire subject job_id policy now (Some token) w = (Inr p, w')
     \<and> dp_handoff p = h \<and> approval_spent (gw_approvals w') (sha256 P token)"
  by (rule admit_approved[OF assms(1) gateway_init_id[OF assms(2)] assms(3-14)])

theorem approved_job_admitted_witness:
  "\<exists>sc ag s p w'. create_scope sample_platform (PBytes (sample_wire (lit ''bob''))) (lit ''bob'') (lit ''job-1'') sample_policy
      (Verifier (gw_verifier sample_gateway)) 150 = Inr sc
   \<and> approval_grant_op sample_platform (replicate 32 9) sc 150 600 False Map.empty = (Inr ag, s)
   \<and> admit sample_platform (\<lambda>t sc now. approval_consume sample_platform t sc now False) sample_gateway
      (PBytes (sample_wire (lit ''bob''))) (lit ''bob'') (lit ''job-1'') sample_policy 150 (Some (replicate 32 9))
      \<lparr>gw_approvals = s, gw_uses = []\<rparr> = (Inr p, w')"
proof -
  have v: "Verifier (gw_verifier sample_gateway) = Verifier (hs_verifier sample_signer)" by (simp add: sample_gateway_def)
  obtain h where h: "validate_pending sample_platform (PBytes (sample_wire (lit ''bob''))) (lit ''bob'') (lit ''job-1'')
     sample_policy (Verifier (gw_verifier sample_gateway)) 150 = Inr h" "h_expires_at h = 400"
    using sample_validate_pending unfolding v by blast
  obtain sc where sc: "create_scope sample_platform (PBytes (sample_wire (lit ''bob''))) (lit ''bob'') (lit ''job-1'')
     sample_policy (Verifier (gw_verifier sample_gateway)) 150 = Inr sc" using sample_create_scope unfolding v by blast
  obtain w h' where f: "sc = \<lparr>as_handoff_sha256 = sha256_hex sample_platform w, as_handoff_expires_at = h_expires_at h', as_job_id = h_job_id h',
        as_user_id = h_user_id h', as_worker_agent_id = h_worker_agent_id h', as_risk_tier = h_tier h',
        as_policy_version = h_policy_version h', as_action = EXECUTE_HANDOFF, as_origin = True\<rparr>" "h' = h"
    by (rule create_scope_eq_Inr[OF sc]) (use h(1) in auto)
  have "\<exists>b. canonical (PDict (scope_dict sc)) = Inr b"
    using canonical_bounded[of "PDict (scope_dict sc)"] h(2) by (auto simp: f scope_dict_def)
  moreover have "int_text i \<noteq> None" if "\<bar>i\<bar> < 10 ^ 18" for i using int_text_bounded[OF that] by auto
  ultimately obtain rh where "approval_record_hash sample_platform (sha256 sample_platform (replicate 32 9)) sc 150 400 GRANTED 150 None = Inr rh"
    using approval_record_hash_defined[of sample_platform "sha256 sample_platform (replicate 32 9)" sc 150 400 GRANTED 150 None] by auto
  then obtain ag s where ag: "approval_grant_op sample_platform (replicate 32 9) sc 150 600 False Map.empty = (Inr ag, s)" "ag_expires_at ag = 400"
    by (simp add: approval_grant_op_def new_grant_def MAX_TTL_SECONDS_def TOKEN_BYTES_def Let_def f h(2))
  then have ag': "approval_grant_op sample_platform (replicate 32 9) sc 150 600 False Map.empty
      = (Inr ag, gw_approvals \<lparr>gw_approvals = s, gw_uses = []\<rparr>)" by simp
  have "\<exists>p w'. admit sample_platform (\<lambda>t sc now. approval_consume sample_platform t sc now False) sample_gateway
      (PBytes (sample_wire (lit ''bob''))) (lit ''bob'') (lit ''job-1'') sample_policy 150 (Some (replicate 32 9))
      \<lparr>gw_approvals = s, gw_uses = []\<rparr> = (Inr p, w') \<and> dp_handoff p = h
      \<and> approval_spent (gw_approvals w') (sha256 sample_platform (replicate 32 9))"
    by (rule approved_job_admitted[OF sample_platform_ok(1) sample_gateway_init sample_policy_valid sample_grant_for(2)
          sample_grants_valid(2) sample_fields(2) _ _ sc ag' h(1)]) (simp_all add: ag(2))
  with sc ag(1) show ?thesis by blast
qed

text \<open>A permit is used once: whatever permits, copies of permits and forgeries are presented to the
  worker boundary, in whatever order, at most one presentation of a permit cell gets its handoff.\<close>

theorem permit_single_use: "uses_of (consume_handoff_from_permit P) permit_key ref presented uses \<le> 1"
  by (rule permits.at_most_once)

end
