(* ===== verification/AuditEvents.thy ===== *)
theory AuditEvents
  imports Contracts Results
begin

text \<open>
  \<open>geniusnew/audit.py\<close>: what a security decision may be recorded as. An \<open>AuditEvent\<close> has closed codes,
  digests and bounded identifiers only; \<open>event_from_handoff\<close> derives one without copying the payload,
  \<open>rehydrate_event\<close> rebuilds one from stored data. The constructor's arguments are a \<open>raw_event\<close>,
  because \<open>rehydrate_event\<close> passes it whatever the stored object held.
\<close>

section \<open>Data\<close>

record component_actor =
  ca_component :: pystr
  ca_instance_id :: pystr

record audit_verifier =
  av_public_key :: bytes

record audit_authority =
  aa_signing_key :: bytes
  aa_verifier :: audit_verifier

record raw_event =
  re_trace_id :: pyval
  re_job_id :: pyval
  re_actor :: component_actor
  re_subject :: pyval
  re_action :: pyval
  re_decision :: pyval
  re_reason_code :: pyval
  re_policy_version :: pyval
  re_constitution_version :: pyval
  re_handoff_sha256 :: pyval
  re_payload_sha256 :: pyval
  re_occurred_at :: pyval
  re_approval_record_hash :: pyval
  re_event_version :: pyval
  re_api_subject_sha256 :: pyval
  re_result_sha256 :: pyval

record audit_event =
  ev_trace_id :: pystr
  ev_job_id :: pystr
  ev_actor :: component_actor
  ev_subject :: pystr
  ev_action :: pystr
  ev_decision :: pystr
  ev_reason_code :: pystr
  ev_policy_version :: pystr
  ev_constitution_version :: pystr
  ev_handoff_sha256 :: pystr
  ev_payload_sha256 :: pystr
  ev_occurred_at :: int
  ev_approval_record_hash :: "pystr option"
  ev_event_version :: int
  ev_api_subject_sha256 :: "pystr option"
  ev_result_sha256 :: "pystr option"

definition CONSTITUTION_VERSION :: pystr where "CONSTITUTION_VERSION = lit ''constitution-v1-draft''"

definition ACTIONS :: "string list" where
  "ACTIONS = [''HANDOFF_ISSUED'', ''HANDOFF_ADMITTED'', ''HANDOFF_REJECTED'', ''APPROVAL_GRANTED'', ''APPROVAL_CONSUMED'',
     ''APPROVAL_REVOKED'', ''EXECUTION_DISPATCHED'', ''RESULT_ACCEPTED'', ''RESULT_REJECTED'']"

definition DECISIONS :: "string list" where "DECISIONS = [''ALLOWED'', ''DENIED'']"

definition ROLES :: "string list" where
  "ROLES = [''orchestrator'', ''gateway'', ''worker'', ''monitor'', ''forensics'']"

definition MAX_IDENTIFIER_BYTES :: nat where "MAX_IDENTIFIER_BYTES = 160"
definition MAX_OCCURRED_AT :: int where "MAX_OCCURRED_AT = 4102444800"

definition audit_signing_label :: bytes where
  "audit_signing_label = ascii_bytes (lit ''geniusnew/audit-head-signing/ed25519/v1'')"

definition EVENT_KEYS :: "string list" where
  "EVENT_KEYS = [''action'', ''actor'', ''approval_record_hash'', ''constitution_version'', ''decision'',
     ''handoff_sha256'', ''job_id'', ''occurred_at'', ''payload_sha256'', ''policy_version'', ''reason_code'',
     ''subject'', ''trace_id'']"

definition EVENT_V2_KEYS :: "string list" where
  "EVENT_V2_KEYS = EVENT_KEYS @ [''event_version'', ''api_subject_sha256'', ''result_sha256'']"

section \<open>Field checks\<close>

definition audit_identifier :: "pyval \<Rightarrow> string \<Rightarrow> pystr result" where
  "audit_identifier v field =
     (case v of
        PStr s \<Rightarrow>
          if s = [] then fail (field @ '' must be a non-empty identifier'') else
          if list_ex is_space s then fail (field @ '' must not contain whitespace'') else
          rbind (canonical (PStr s)) (\<lambda>b.
          if length b > MAX_IDENTIFIER_BYTES then fail (field @ '' must serialize to at most 160 bytes'') else Inr s)
      | _ \<Rightarrow> fail (field @ '' must be a non-empty identifier''))"

definition audit_safe :: "platform \<Rightarrow> pystr \<Rightarrow> string \<Rightarrow> pystr result" where
  "audit_safe P s field =
     (if s = [] then fail (field @ '' must be a non-empty identifier'') else
      catch_contract (audit_identifier (PStr s) field) (\<lambda>_.
        rbind (utf8_encode s) (\<lambda>b. Inr (lit ''sha256:'' @ sha256_hex P b))))"

definition audit_optional_digest :: "pyval \<Rightarrow> string \<Rightarrow> pystr option result" where
  "audit_optional_digest v field =
     (if v = PNone then Inr None else rbind (py_digest v field) (\<lambda>s. Inr (Some s)))"

section \<open>Actors and authority\<close>

definition component_actor_init :: "pystr \<Rightarrow> pystr \<Rightarrow> component_actor result" where
  "component_actor_init component instance_id =
     (if component \<notin> set (map lit ROLES) then fail ''component is not one of the constitution's roles'' else
      if \<not> is_instance_id instance_id then fail ''instance_id must be a lowercase identifier of at most 63 characters'' else
      Inr \<lparr>ca_component = component, ca_instance_id = instance_id\<rparr>)"

definition actor_identifier :: "component_actor \<Rightarrow> pystr" where
  "actor_identifier a = ca_component a @ 58 # ca_instance_id a"

definition audit_verifier_init :: "platform \<Rightarrow> bytes \<Rightarrow> audit_verifier result" where
  "audit_verifier_init P public_key =
     (if length public_key \<noteq> 32 then fail ''public_key must be 32 bytes''
      else if \<not> ed25519_valid_public P public_key then fail ''public_key is not an Ed25519 public key''
      else Inr \<lparr>av_public_key = public_key\<rparr>)"

definition audit_verifies :: "platform \<Rightarrow> audit_verifier \<Rightarrow> bytes \<Rightarrow> bytes \<Rightarrow> bool" where
  "audit_verifies P v message signature = ed25519_verify P (av_public_key v) message signature"

definition audit_authority_init :: "platform \<Rightarrow> bytes \<Rightarrow> audit_authority result" where
  "audit_authority_init P audit_key =
     (if length audit_key < 32 then fail ''audit_key must be at least 32 bytes''
      else
        let seed = hmac_sha256 P audit_key audit_signing_label
        in rbind (audit_verifier_init P (ed25519_public P seed)) (\<lambda>v.
             Inr \<lparr>aa_signing_key = seed, aa_verifier = v\<rparr>))"

definition audit_sign :: "platform \<Rightarrow> audit_authority \<Rightarrow> bytes \<Rightarrow> bytes" where
  "audit_sign P a message = ed25519_sign P (aa_signing_key a) message"

definition audit_actor :: "audit_authority \<Rightarrow> pystr \<Rightarrow> pystr \<Rightarrow> component_actor result" where
  "audit_actor a component instance_id = component_actor_init component instance_id"

section \<open>Events\<close>

definition member_string :: "pyval \<Rightarrow> string list \<Rightarrow> string \<Rightarrow> pystr result" where
  "member_string v allowed message =
     (case v of PStr s \<Rightarrow> if s \<notin> set (map lit allowed) then fail message else Inr s | _ \<Rightarrow> fail message)"

definition event_bindings :: "raw_event \<Rightarrow> int \<Rightarrow> pystr \<Rightarrow> (pystr option \<times> pystr option) result" where
  "event_bindings r version action =
     (if version = 1 then
        if re_api_subject_sha256 r \<noteq> PNone \<or> re_result_sha256 r \<noteq> PNone
        then fail ''legacy audit event cannot carry version two bindings'' else Inr (None, None)
      else
        rbind (py_digest (re_api_subject_sha256 r) ''api_subject_sha256'') (\<lambda>api.
        if action = lit ''RESULT_ACCEPTED''
        then rbind (py_digest (re_result_sha256 r) ''result_sha256'') (\<lambda>res. Inr (Some api, Some res))
        else if re_result_sha256 r \<noteq> PNone then fail ''result_sha256 is only allowed for an accepted result''
        else Inr (Some api, None)))"

definition event_init :: "raw_event \<Rightarrow> audit_event result" where
  "event_init r =
     rbind (audit_identifier (re_trace_id r) ''trace_id'') (\<lambda>trace_id.
     rbind (audit_identifier (re_job_id r) ''job_id'') (\<lambda>job_id.
     rbind (audit_identifier (re_subject r) ''subject'') (\<lambda>subject.
     rbind (audit_identifier (re_policy_version r) ''policy_version'') (\<lambda>policy_version.
     rbind (audit_identifier (re_constitution_version r) ''constitution_version'') (\<lambda>constitution_version.
     rbind (py_digest (re_handoff_sha256 r) ''handoff_sha256'') (\<lambda>handoff_sha256.
     rbind (py_digest (re_payload_sha256 r) ''payload_sha256'') (\<lambda>payload_sha256.
     rbind (audit_optional_digest (re_approval_record_hash r) ''approval_record_hash'') (\<lambda>record_hash.
     rbind (member_string (re_action r) ACTIONS ''action is not an allowed audit action'') (\<lambda>action.
     rbind (member_string (re_decision r) DECISIONS ''decision is not an allowed audit decision'') (\<lambda>decision.
     rbind (case re_event_version r of
              PInt n \<Rightarrow> if n \<noteq> 1 \<and> n \<noteq> 2 then fail ''event_version is not supported'' else Inr n
            | _ \<Rightarrow> fail ''event_version is not supported'') (\<lambda>version.
     rbind (event_bindings r version action) (\<lambda>bindings.
     rbind (case re_reason_code r of
              PStr s \<Rightarrow> if \<not> is_reason_code s then fail ''reason_code must be an uppercase code of at most 64 characters'' else Inr s
            | _ \<Rightarrow> fail ''reason_code must be an uppercase code of at most 64 characters'') (\<lambda>reason.
     rbind (py_integer (re_occurred_at r) ''occurred_at'') (\<lambda>occurred_at.
     if \<not> (0 < occurred_at \<and> occurred_at \<le> MAX_OCCURRED_AT) then fail ''occurred_at must be between 1 and 4102444800'' else
     Inr \<lparr>ev_trace_id = trace_id, ev_job_id = job_id, ev_actor = re_actor r, ev_subject = subject, ev_action = action,
          ev_decision = decision, ev_reason_code = reason, ev_policy_version = policy_version,
          ev_constitution_version = constitution_version, ev_handoff_sha256 = handoff_sha256,
          ev_payload_sha256 = payload_sha256, ev_occurred_at = occurred_at, ev_approval_record_hash = record_hash,
          ev_event_version = version, ev_api_subject_sha256 = fst bindings, ev_result_sha256 = snd bindings\<rparr>))))))))))))))"

definition optional_string :: "pystr option \<Rightarrow> pyval" where
  "optional_string x = (case x of None \<Rightarrow> PNone | Some s \<Rightarrow> PStr s)"

definition event_dict :: "audit_event \<Rightarrow> (pystr \<times> pyval) list" where
  "event_dict e =
     [(lit ''action'', PStr (ev_action e)),
      (lit ''actor'', PStr (actor_identifier (ev_actor e))),
      (lit ''approval_record_hash'', optional_string (ev_approval_record_hash e)),
      (lit ''constitution_version'', PStr (ev_constitution_version e)),
      (lit ''decision'', PStr (ev_decision e)),
      (lit ''handoff_sha256'', PStr (ev_handoff_sha256 e)),
      (lit ''job_id'', PStr (ev_job_id e)),
      (lit ''occurred_at'', PInt (ev_occurred_at e)),
      (lit ''payload_sha256'', PStr (ev_payload_sha256 e)),
      (lit ''policy_version'', PStr (ev_policy_version e)),
      (lit ''reason_code'', PStr (ev_reason_code e)),
      (lit ''subject'', PStr (ev_subject e)),
      (lit ''trace_id'', PStr (ev_trace_id e))]
   @ (if ev_event_version e = 2
      then [(lit ''event_version'', PInt 2),
            (lit ''api_subject_sha256'', optional_string (ev_api_subject_sha256 e)),
            (lit ''result_sha256'', optional_string (ev_result_sha256 e))]
      else [])"

definition event_to_bytes :: "audit_event \<Rightarrow> bytes result" where
  "event_to_bytes e = canonical (PDict (event_dict e))"

definition event_sha256 :: "platform \<Rightarrow> audit_event \<Rightarrow> pystr result" where
  "event_sha256 P e = rbind (event_to_bytes e) (\<lambda>b. Inr (sha256_hex P b))"

definition event_from_handoff ::
  "platform \<Rightarrow> handoff \<Rightarrow> pystr \<Rightarrow> component_actor \<Rightarrow> pystr \<Rightarrow> pystr \<Rightarrow> pystr \<Rightarrow> int \<Rightarrow> pystr option \<Rightarrow> pystr option
     \<Rightarrow> pystr option \<Rightarrow> audit_event result" where
  "event_from_handoff P h trace_id actor action decision reason occurred_at record_hash api_subject result_sha256 =
     rbind (canonical (h_payload h)) (\<lambda>pl.
     rbind (compare_digest (sha256_hex P pl) (h_payload_sha256 h)) (\<lambda>same.
     if \<not> same then fail ''handoff payload no longer matches its digest'' else
     if record_hash \<noteq> None \<and> h_approval_state h \<noteq> PENDING
     then fail ''approval_record_hash is not allowed for a handoff that needs no approval'' else
     if api_subject = None \<and> result_sha256 \<noteq> None then fail ''result digest needs a bound API subject'' else
     rbind (audit_identifier (PStr trace_id) ''trace_id'') (\<lambda>trace.
     rbind (audit_safe P (h_job_id h) ''job_id'') (\<lambda>job_id.
     rbind (audit_safe P (h_user_id h) ''subject'') (\<lambda>subject.
     rbind (audit_safe P (h_policy_version h) ''policy_version'') (\<lambda>policy_version.
     rbind (handoff_to_bytes h) (\<lambda>w.
     rbind (case api_subject of
              None \<Rightarrow> Inr None
            | Some a \<Rightarrow> rbind (subject_bytes (PStr a)) (\<lambda>b. Inr (Some (sha256_hex P b)))) (\<lambda>api_sha256.
     event_init
       \<lparr>re_trace_id = PStr trace, re_job_id = PStr job_id, re_actor = actor, re_subject = PStr subject,
        re_action = PStr action, re_decision = PStr decision, re_reason_code = PStr reason,
        re_policy_version = PStr policy_version, re_constitution_version = PStr CONSTITUTION_VERSION,
        re_handoff_sha256 = PStr (sha256_hex P w), re_payload_sha256 = PStr (h_payload_sha256 h),
        re_occurred_at = PInt occurred_at, re_approval_record_hash = optional_string record_hash,
        re_event_version = PInt (if api_subject \<noteq> None then 2 else 1),
        re_api_subject_sha256 = optional_string api_sha256, re_result_sha256 = optional_string result_sha256\<rparr>))))))))"

definition rehydrate_event :: "pyval \<Rightarrow> audit_event result" where
  "rehydrate_event v =
     (case v of
        PDict kvs \<Rightarrow>
          if set (map fst kvs) \<noteq> set (map lit EVENT_KEYS) \<and> set (map fst kvs) \<noteq> set (map lit EVENT_V2_KEYS)
          then fail ''record carries a malformed event'' else
          rbind (get_item kvs ''actor'') (\<lambda>actor.
          rbind (case actor of
                   PStr s \<Rightarrow> if count_list s 58 \<noteq> 1 then fail ''record carries a malformed actor'' else Inr s
                 | _ \<Rightarrow> fail ''record carries a malformed actor'') (\<lambda>s.
          rbind (component_actor_init (takeWhile (\<lambda>c. c \<noteq> 58) s) (tl (dropWhile (\<lambda>c. c \<noteq> 58) s))) (\<lambda>a.
          let field = (\<lambda>k default. case map_of kvs (lit k) of Some x \<Rightarrow> x | None \<Rightarrow> default) in
          event_init
            \<lparr>re_trace_id = field ''trace_id'' PNone, re_job_id = field ''job_id'' PNone, re_actor = a,
             re_subject = field ''subject'' PNone, re_action = field ''action'' PNone, re_decision = field ''decision'' PNone,
             re_reason_code = field ''reason_code'' PNone, re_policy_version = field ''policy_version'' PNone,
             re_constitution_version = field ''constitution_version'' PNone,
             re_handoff_sha256 = field ''handoff_sha256'' PNone, re_payload_sha256 = field ''payload_sha256'' PNone,
             re_occurred_at = field ''occurred_at'' PNone, re_approval_record_hash = field ''approval_record_hash'' PNone,
             re_event_version = field ''event_version'' (PInt 1),
             re_api_subject_sha256 = field ''api_subject_sha256'' PNone, re_result_sha256 = field ''result_sha256'' PNone\<rparr>)))
      | _ \<Rightarrow> fail ''record carries a malformed event'')"

section \<open>Valid events\<close>

lemma audit_identifier_eq_Inr [result_simps]:
  "audit_identifier v f = Inr s \<longleftrightarrow>
     v = PStr s \<and> s \<noteq> [] \<and> \<not> list_ex is_space s \<and> length (json_string s) \<le> MAX_IDENTIFIER_BYTES"
  by (cases v) (auto simp: audit_identifier_def canonical_def)

lemma audit_optional_digest_eq_Inr [result_simps]:
  "audit_optional_digest v f = Inr x \<longleftrightarrow> v = optional_string x \<and> (\<forall>s. x = Some s \<longrightarrow> is_digest s)"
  by (cases x; cases v) (auto simp: audit_optional_digest_def optional_string_def result_simps)

lemma member_string_eq_Inr [result_simps]:
  "member_string v allowed m = Inr s \<longleftrightarrow> v = PStr s \<and> s \<in> set (map lit allowed)"
  by (cases v) (auto simp: member_string_def)

definition identifier_ok :: "pystr \<Rightarrow> bool" where
  "identifier_ok s \<longleftrightarrow> s \<noteq> [] \<and> \<not> list_ex is_space s \<and> length (json_string s) \<le> MAX_IDENTIFIER_BYTES"

text \<open>What the constructor guarantees of every event.\<close>

definition valid_event :: "audit_event \<Rightarrow> bool" where
  "valid_event e \<longleftrightarrow>
     identifier_ok (ev_trace_id e) \<and> identifier_ok (ev_job_id e) \<and> identifier_ok (ev_subject e)
   \<and> identifier_ok (ev_policy_version e) \<and> identifier_ok (ev_constitution_version e)
   \<and> is_digest (ev_handoff_sha256 e) \<and> is_digest (ev_payload_sha256 e)
   \<and> (\<forall>h. ev_approval_record_hash e = Some h \<longrightarrow> is_digest h)
   \<and> ev_action e \<in> set (map lit ACTIONS) \<and> ev_decision e \<in> set (map lit DECISIONS) \<and> is_reason_code (ev_reason_code e)
   \<and> 0 < ev_occurred_at e \<and> ev_occurred_at e \<le> MAX_OCCURRED_AT
   \<and> (ev_event_version e = 1 \<and> ev_api_subject_sha256 e = None \<and> ev_result_sha256 e = None
      \<or> ev_event_version e = 2
        \<and> (\<exists>a. ev_api_subject_sha256 e = Some a \<and> is_digest a)
        \<and> (if ev_action e = lit ''RESULT_ACCEPTED'' then \<exists>r. ev_result_sha256 e = Some r \<and> is_digest r
           else ev_result_sha256 e = None))"

definition valid_actor :: "component_actor \<Rightarrow> bool" where
  "valid_actor a \<longleftrightarrow> component_actor_init (ca_component a) (ca_instance_id a) = Inr a"

definition event_raw :: "audit_event \<Rightarrow> raw_event" where
  "event_raw e =
     \<lparr>re_trace_id = PStr (ev_trace_id e), re_job_id = PStr (ev_job_id e), re_actor = ev_actor e,
      re_subject = PStr (ev_subject e), re_action = PStr (ev_action e), re_decision = PStr (ev_decision e),
      re_reason_code = PStr (ev_reason_code e), re_policy_version = PStr (ev_policy_version e),
      re_constitution_version = PStr (ev_constitution_version e), re_handoff_sha256 = PStr (ev_handoff_sha256 e),
      re_payload_sha256 = PStr (ev_payload_sha256 e), re_occurred_at = PInt (ev_occurred_at e),
      re_approval_record_hash = optional_string (ev_approval_record_hash e), re_event_version = PInt (ev_event_version e),
      re_api_subject_sha256 = optional_string (ev_api_subject_sha256 e),
      re_result_sha256 = optional_string (ev_result_sha256 e)\<rparr>"

lemma optional_string_simps [simp]:
  "optional_string x = PNone \<longleftrightarrow> x = None" "PNone = optional_string x \<longleftrightarrow> x = None"
  "optional_string x = PStr s \<longleftrightarrow> x = Some s" "optional_string None = PNone" "optional_string (Some s) = PStr s"
  by (cases x; simp add: optional_string_def)+

lemma event_bindings_eq_Inr:
  "event_bindings r version action = Inr (a, b) \<longleftrightarrow>
     re_api_subject_sha256 r = optional_string a \<and> re_result_sha256 r = optional_string b
   \<and> (if version = 1 then a = None \<and> b = None
      else (\<exists>x. a = Some x \<and> is_digest x)
         \<and> (if action = lit ''RESULT_ACCEPTED'' then \<exists>x. b = Some x \<and> is_digest x else b = None))"
  by (cases a; cases b) (auto simp: event_bindings_def result_simps)

lemma event_init_eq_Inr: "event_init r = Inr e \<longleftrightarrow> r = event_raw e \<and> valid_event e"
proof -
  have ver: "(case v of PInt n \<Rightarrow> if n \<noteq> 1 \<and> n \<noteq> 2 then fail m else Inr n | _ \<Rightarrow> fail m) = Inr n
      \<longleftrightarrow> v = PInt n \<and> (n = 1 \<or> n = 2)" for v m n
    by (cases v) auto
  have rc: "(case v of PStr s \<Rightarrow> if \<not> is_reason_code s then fail m else Inr s | _ \<Rightarrow> fail m) = Inr s
      \<longleftrightarrow> v = PStr s \<and> is_reason_code s" for v m s
    by (cases v) auto
  show ?thesis (is "?l \<longleftrightarrow> ?r")
  proof
    assume ?l
    then show ?r
      unfolding event_init_def
      apply (simp only: rbind_eq_Inr if_raise_eq_Inr ver rc audit_identifier_eq_Inr py_digest_eq_Inr
          audit_optional_digest_eq_Inr member_string_eq_Inr py_integer_eq_Inr sum.inject)
      apply (elim exE conjE)
      apply (drule sym[of _ e])
      apply (cases r)
      apply (simp add: event_raw_def valid_event_def identifier_ok_def)
      subgoal for t j s p c hs ps rh a d v b rs oc by (cases b) (auto simp: event_bindings_eq_Inr)
      done
  next
    assume r: ?r
    then have "event_bindings r (ev_event_version e) (ev_action e) = Inr (ev_api_subject_sha256 e, ev_result_sha256 e)"
      by (auto simp: event_bindings_eq_Inr event_raw_def valid_event_def)
    with r show ?l
      unfolding event_init_def
      by (simp add: rbind_eq_Inr if_raise_eq_Inr ver rc audit_identifier_eq_Inr py_digest_eq_Inr
          audit_optional_digest_eq_Inr member_string_eq_Inr event_raw_def valid_event_def identifier_ok_def) auto
  qed
qed

section \<open>Reading an event back\<close>

lemma role_no_colon: "c \<in> set (map lit ROLES) \<Longrightarrow> 58 \<notin> set c \<and> is_ascii c"
  unfolding ROLES_def by (auto simp: lit_def)

lemma instance_no_colon: "is_instance_id s \<Longrightarrow> 58 \<notin> set s \<and> is_ascii s"
proof -
  assume i: "is_instance_id s"
  then obtain c cs where s: "s = c # cs" by (cases s) (auto simp: is_instance_id_def)
  with i have "list_all (\<lambda>d. is_lower_alnum d \<or> d = 45) s" by (auto simp: is_instance_id_def)
  then show ?thesis by (auto simp: list_all_iff is_ascii_def is_lower_alnum_def is_digit_def)
qed

lemma valid_actorD:
  "valid_actor a \<Longrightarrow> ca_component a \<in> set (map lit ROLES) \<and> is_instance_id (ca_instance_id a)"
  by (auto simp: valid_actor_def component_actor_init_def split: if_splits)

lemma actor_split:
  assumes "valid_actor a"
  shows "count_list (actor_identifier a) 58 = 1"
    "component_actor_init (takeWhile (\<lambda>c. c \<noteq> 58) (actor_identifier a)) (tl (dropWhile (\<lambda>c. c \<noteq> 58) (actor_identifier a))) = Inr a"
proof -
  have n: "58 \<notin> set (ca_component a)" "58 \<notin> set (ca_instance_id a)"
    using valid_actorD[OF assms] role_no_colon instance_no_colon by blast+
  then show "count_list (actor_identifier a) 58 = 1"
    by (simp add: actor_identifier_def count_notin)
  have "takeWhile (\<lambda>c. c \<noteq> 58) (actor_identifier a) = ca_component a"
    "dropWhile (\<lambda>c. c \<noteq> 58) (actor_identifier a) = 58 # ca_instance_id a"
    using n by (auto simp: actor_identifier_def takeWhile_append dropWhile_append)
  then show "component_actor_init (takeWhile (\<lambda>c. c \<noteq> 58) (actor_identifier a)) (tl (dropWhile (\<lambda>c. c \<noteq> 58) (actor_identifier a))) = Inr a"
    using assms by (simp add: valid_actor_def)
qed

lemma event_dict_keys:
  "map fst (event_dict e) = map lit (if ev_event_version e = 2 then EVENT_V2_KEYS else EVENT_KEYS)"
  by (simp add: event_dict_def EVENT_V2_KEYS_def EVENT_KEYS_def)

lemma event_dict_distinct: "distinct (map fst (event_dict e))"
  by (simp add: event_dict_keys EVENT_V2_KEYS_def EVENT_KEYS_def)

lemma set_keys_map_of:
  assumes "\<And>k. map_of d k = map_of d' k"
  shows "set (map fst d) = set (map fst d')"
proof -
  have "k \<in> set (map fst d) \<longleftrightarrow> k \<in> set (map fst d')" for k
    using assms[of k] by (metis list.set_map map_of_eq_None_iff)
  then show ?thesis by blast
qed

text \<open>Only the contents of the stored object matter, not the order of its keys.\<close>

lemma rehydrate_contents:
  assumes "valid_event e" "valid_actor (ev_actor e)" "\<And>k. map_of d k = map_of (event_dict e) k"
  shows "rehydrate_event (PDict d) = Inr e"
proof -
  have ks: "set (map fst d) = set (map lit (if ev_event_version e = 2 then EVENT_V2_KEYS else EVENT_KEYS))"
    using set_keys_map_of[OF assms(3)] by (simp only: event_dict_keys)
  have a: "get_item d ''actor'' = Inr (PStr (actor_identifier (ev_actor e)))"
    by (simp add: get_item_def assms(3) event_dict_def)
  have r: "event_init (event_raw e) = Inr e" by (simp add: event_init_eq_Inr assms(1))
  have v: "ev_event_version e = 2 \<or> ev_event_version e = 1 \<and> ev_api_subject_sha256 e = None \<and> ev_result_sha256 e = None"
    using assms(1) by (auto simp: valid_event_def)
  show ?thesis
    unfolding rehydrate_event_def pyval.case a rbind_Inr
    using ks v r actor_split[OF assms(2)]
    by (auto simp: Let_def assms(3) event_dict_def event_raw_def)
qed

lemma event_dict_inject:
  assumes "valid_event e" "valid_actor (ev_actor e)" "valid_event e'" "valid_actor (ev_actor e')"
    and "\<And>k. map_of (event_dict e) k = map_of (event_dict e') k"
  shows "e = e'"
proof -
  have "rehydrate_event (PDict (event_dict e)) = Inr e" by (rule rehydrate_contents[OF assms(1,2) refl])
  moreover have "rehydrate_event (PDict (event_dict e)) = Inr e'" by (rule rehydrate_contents[OF assms(3-5)])
  ultimately show ?thesis by simp
qed

section \<open>An entry stays small\<close>

lemma json_string_plain:
  "list_all (\<lambda>c. 32 \<le> c \<and> c \<le> 126 \<and> c \<noteq> 34 \<and> c \<noteq> 92) s \<Longrightarrow> length (json_string s) = length s + 2"
proof -
  assume a: "list_all (\<lambda>c. 32 \<le> c \<and> c \<le> 126 \<and> c \<noteq> 34 \<and> c \<noteq> 92) s"
  have "concat (map esc_char s) = s" using a by (induction s) (auto simp: esc_char_def)
  then show ?thesis by (simp add: json_string_def)
qed

lemma json_string_digest: "is_digest s \<Longrightarrow> length (json_string s) = 66"
proof -
  assume d: "is_digest s"
  then have "list_all (\<lambda>c. 32 \<le> c \<and> c \<le> 126 \<and> c \<noteq> 34 \<and> c \<noteq> 92) s"
    by (auto simp: is_digest_def hex_string_def list_all_iff is_lower_hex_def is_digit_def)
  with d json_string_plain show ?thesis by (simp add: is_digest_def hex_string_def)
qed

lemma json_string_codes:
  "s \<in> set (map lit ACTIONS) \<Longrightarrow> length (json_string s) \<le> 22"
  "s \<in> set (map lit DECISIONS) \<Longrightarrow> length (json_string s) \<le> 9"
  "s \<in> set (map lit ROLES) \<Longrightarrow> length s \<le> 12 \<and> list_all (\<lambda>c. 32 \<le> c \<and> c \<le> 126 \<and> c \<noteq> 34 \<and> c \<noteq> 92) s"
proof -
  have *: "list_all (\<lambda>c. 32 \<le> c \<and> c \<le> 126 \<and> c \<noteq> 34 \<and> c \<noteq> 92) s \<Longrightarrow> length s \<le> n \<Longrightarrow> length (json_string s) \<le> n + 2" for n s
    by (simp add: json_string_plain)
  show "s \<in> set (map lit ACTIONS) \<Longrightarrow> length (json_string s) \<le> 22"
    using *[of s 20] by (auto simp: ACTIONS_def lit_def)
  show "s \<in> set (map lit DECISIONS) \<Longrightarrow> length (json_string s) \<le> 9"
    using *[of s 7] by (auto simp: DECISIONS_def lit_def)
  show "s \<in> set (map lit ROLES) \<Longrightarrow> length s \<le> 12 \<and> list_all (\<lambda>c. 32 \<le> c \<and> c \<le> 126 \<and> c \<noteq> 34 \<and> c \<noteq> 92) s"
    by (auto simp: ROLES_def lit_def)
qed

lemma json_string_reason: "is_reason_code s \<Longrightarrow> length (json_string s) \<le> 66"
proof -
  assume r: "is_reason_code s"
  then have "list_all (\<lambda>c. 32 \<le> c \<and> c \<le> 126 \<and> c \<noteq> 34 \<and> c \<noteq> 92) s" "length s \<le> 64"
    by (auto simp: is_reason_code_def list_all_iff is_upper_def is_digit_def split: list.splits)
  then show ?thesis by (simp add: json_string_plain)
qed

lemma json_string_actor: "valid_actor a \<Longrightarrow> length (json_string (actor_identifier a)) \<le> 78"
proof -
  assume "valid_actor a"
  then have c: "ca_component a \<in> set (map lit ROLES)" and i: "is_instance_id (ca_instance_id a)"
    by (auto dest: valid_actorD)
  have p: "list_all (\<lambda>c. 32 \<le> c \<and> c \<le> 126 \<and> c \<noteq> 34 \<and> c \<noteq> 92) (ca_instance_id a)" "length (ca_instance_id a) \<le> 63"
    using i by (auto simp: is_instance_id_def list_all_iff is_lower_alnum_def is_digit_def split: list.splits)
  with json_string_codes(3)[OF c] have "length (json_string (actor_identifier a)) = length (actor_identifier a) + 2"
    by (intro json_string_plain) (simp add: actor_identifier_def)
  with p json_string_codes(3)[OF c] show ?thesis by (simp add: actor_identifier_def)
qed

lemma length_dumps_dict:
  assumes "\<forall>kv \<in> set kvs. \<exists>t. dumps (snd kv) = Some t \<and> length t \<le> f kv"
  shows "\<exists>t. dumps (PDict kvs) = Some t \<and> length t \<le> 2 + (\<Sum>kv\<leftarrow>kvs. length (json_string (fst kv)) + 2 + f kv)"
proof -
  let ?f = "\<lambda>(k, v). member_text (k, the (dumps v))" and ?S = "sort_key fst kvs"
  have el: "\<And>kv. kv \<in> set kvs \<Longrightarrow> dumps (snd kv) \<noteq> None \<and> length (the (dumps (snd kv))) \<le> f kv"
    using assms by force
  have "opt_map (\<lambda>(k, v). map_option (Pair k) (dumps v)) kvs = Some (map (\<lambda>(k, v). (k, the (dumps v))) kvs)"
    using el by (fastforce simp: dumps_dict_texts)
  then have d: "dumps (PDict kvs) = Some (123 # join_comma (map ?f ?S) @ [125])"
    by (auto simp: sort_pairs_map comp_def intro!: arg_cong[where f = join_comma])
  have "length (join_comma (map ?f ?S)) \<le> (\<Sum>t\<leftarrow>map ?f ?S. Suc (length t))"
    by (rule length_join_comma)
  also have "\<dots> = (\<Sum>kv\<leftarrow>?S. Suc (length (?f kv)))" by (simp add: comp_def)
  also have "\<dots> \<le> (\<Sum>kv\<leftarrow>?S. length (json_string (fst kv)) + 2 + f kv)"
  proof (rule sum_list_mono)
    fix kv assume "kv \<in> set ?S"
    then have "length (the (dumps (snd kv))) \<le> f kv" using el by simp
    then show "Suc (length (?f kv)) \<le> length (json_string (fst kv)) + 2 + f kv"
      by (cases kv) (simp add: length_member_text)
  qed
  also have "\<dots> = (\<Sum>kv\<leftarrow>kvs. length (json_string (fst kv)) + 2 + f kv)"
    unfolding sum_mset_sum_list[symmetric] mset_map by simp
  finally show ?thesis unfolding d by simp
qed

lemma optional_digest_text:
  assumes "\<forall>h. x = Some h \<longrightarrow> is_digest h"
  shows "\<exists>t. dumps (optional_string x) = Some t \<and> length t \<le> 66"
  using assms json_string_digest by (cases x) (auto simp: lit_words)

lemma event_text_bound:
  assumes "valid_event e" "valid_actor (ev_actor e)"
  shows "\<exists>t. dumps (PDict (event_dict e)) = Some t \<and> length t \<le> 2 + 16 * (24 + 160)"
proof -
  have oc: "\<exists>t. int_text (ev_occurred_at e) = Some t \<and> length t \<le> 20"
    using assms(1) by (intro int_text_bounded) (simp add: valid_event_def MAX_OCCURRED_AT_def)
  have two: "\<exists>t. int_text 2 = Some t \<and> length t \<le> 20" by (rule int_text_bounded) simp
  have api: "\<forall>h. ev_api_subject_sha256 e = Some h \<longrightarrow> is_digest h" and res: "\<forall>h. ev_result_sha256 e = Some h \<longrightarrow> is_digest h"
    using assms(1) by (auto simp: valid_event_def split: if_splits)
  let ?Q = "\<lambda>v. \<exists>t. dumps v = Some t \<and> length t \<le> 160"
  have str: "?Q (PStr s)" if "length (json_string s) \<le> 160" for s using that by simp
  have opt: "?Q (optional_string x)" if "\<forall>h. x = Some h \<longrightarrow> is_digest h" for x
    using optional_digest_text[OF that] by fastforce
  have num: "?Q (PInt (ev_occurred_at e))" "?Q (PInt 2)" using oc two by fastforce+
  note v = assms(1)[unfolded valid_event_def identifier_ok_def MAX_IDENTIFIER_BYTES_def]
  have strs: "?Q (PStr (ev_trace_id e))" "?Q (PStr (ev_job_id e))" "?Q (PStr (ev_subject e))" "?Q (PStr (ev_policy_version e))"
    "?Q (PStr (ev_constitution_version e))" "?Q (optional_string (ev_approval_record_hash e))"
    by (intro str opt; use v in blast)+
  have "length (json_string (ev_action e)) \<le> 22" "length (json_string (ev_decision e)) \<le> 9"
    "length (json_string (ev_reason_code e)) \<le> 66" "length (json_string (ev_handoff_sha256 e)) = 66"
    "length (json_string (ev_payload_sha256 e)) = 66"
    by (intro json_string_codes json_string_reason json_string_digest; use v in blast)+
  then have codes: "?Q (PStr (ev_action e))" "?Q (PStr (ev_decision e))" "?Q (PStr (ev_reason_code e))"
    "?Q (PStr (ev_handoff_sha256 e))" "?Q (PStr (ev_payload_sha256 e))" "?Q (PStr (actor_identifier (ev_actor e)))"
    using json_string_actor[OF assms(2)] by (auto intro!: str)
  have "list_all (\<lambda>kv. ?Q (snd kv)) (event_dict e)"
    unfolding event_dict_def using num strs codes opt[OF api] opt[OF res]
    by (simp only: list_all_append list.pred_inject snd_conv if_split[of "list_all _"] simp_thms)
  then have all: "\<forall>kv \<in> set (event_dict e). \<exists>t. dumps (snd kv) = Some t \<and> length t \<le> (\<lambda>kv. 160 :: nat) kv"
    by (simp add: list_all_iff)
  have keys: "length (json_string (fst kv)) \<le> 22" if "kv \<in> set (event_dict e)" for kv
  proof -
    have "fst kv \<in> set (map fst (event_dict e))" using that by simp
    then have "fst kv \<in> set (map lit EVENT_V2_KEYS)"
      unfolding event_dict_keys by (auto simp: EVENT_V2_KEYS_def split: if_splits)
    then have "list_all (\<lambda>c. 32 \<le> c \<and> c \<le> 126 \<and> c \<noteq> 34 \<and> c \<noteq> 92) (fst kv)" "length (fst kv) \<le> 20"
      by (auto simp: EVENT_V2_KEYS_def EVENT_KEYS_def lit_def)
    then show ?thesis by (simp add: json_string_plain)
  qed
  have "(\<Sum>kv\<leftarrow>event_dict e. length (json_string (fst kv)) + 2 + 160) \<le> (\<Sum>kv\<leftarrow>event_dict e. 24 + 160)"
    using keys by (intro sum_list_mono) fastforce
  also have "\<dots> = length (event_dict e) * (24 + 160)" by (simp add: sum_list_triv)
  also have "\<dots> \<le> 16 * (24 + 160)" by (simp add: event_dict_def)
  finally show ?thesis using length_dumps_dict[OF all] by fastforce
qed

section \<open>Deciding what is recorded\<close>

lemma audit_identifier_ok: "identifier_ok s \<Longrightarrow> audit_identifier (PStr s) f = Inr s"
  by (simp add: audit_identifier_eq_Inr identifier_ok_def)

lemma digest_name_ok: "is_digest d \<Longrightarrow> identifier_ok (lit ''sha256:'' @ d)"
proof -
  assume d: "is_digest d"
  then have p: "list_all (\<lambda>c. 32 \<le> c \<and> c \<le> 126 \<and> c \<noteq> 34 \<and> c \<noteq> 92) (lit ''sha256:'' @ d)"
    by (auto simp: is_digest_def hex_string_def list_all_iff is_lower_hex_def is_digit_def lit_def)
  have "\<not> list_ex is_space (lit ''sha256:'' @ d)"
    using d by (auto simp: is_digest_def hex_string_def list_all_iff list_ex_iff is_lower_hex_def is_digit_def is_space_def lit_def)
  with json_string_plain[OF p] d show ?thesis
    by (simp add: identifier_ok_def is_digest_def hex_string_def MAX_IDENTIFIER_BYTES_def)
qed

text \<open>The projection: an identifier the entry can carry as it is, or the digest of its UTF-8 form.\<close>

lemma audit_identifier_contract: "audit_identifier v f = Inl e \<Longrightarrow> is_contract_error e"
  by (cases v) (auto simp: audit_identifier_def canonical_def split: if_splits)

lemma audit_safe_cases:
  "s \<noteq> [] \<Longrightarrow> audit_safe P s f =
     (if identifier_ok s then Inr s
      else case utf8_encode s of Inl e \<Rightarrow> Inl e | Inr b \<Rightarrow> Inr (lit ''sha256:'' @ sha256_hex P b))"
proof (cases "audit_identifier (PStr s) f")
  case (Inl e)
  assume s: "s \<noteq> []"
  have "\<not> identifier_ok s" using Inl audit_identifier_ok[of s f] by auto
  with Inl s audit_identifier_contract[OF Inl] show ?thesis
    by (simp add: audit_safe_def catch_contract_def rbind_def)
next
  case (Inr x)
  assume s: "s \<noteq> []"
  from Inr have x: "x = s" "identifier_ok s" by (auto simp: audit_identifier_eq_Inr identifier_ok_def)
  with Inr s show ?thesis by (simp add: audit_safe_def catch_contract_def)
qed

lemma audit_safe_ok:
  assumes "hash_ok P" "audit_safe P s f = Inr x"
  shows "identifier_ok x"
proof (cases "s = []")
  case True
  with assms(2) show ?thesis by (simp add: audit_safe_def)
next
  case False
  with assms show ?thesis by (auto simp: audit_safe_cases digest_name_ok split: if_splits sum.splits)
qed

lemma event_from_handoff_eq_Inr:
  assumes "event_from_handoff P h trace actor action decision reason at rh api res = Inr e"
  obtains w where "handoff_to_bytes h = Inr w" "ev_handoff_sha256 e = sha256_hex P w"
    "ev_payload_sha256 e = h_payload_sha256 h" "ev_trace_id e = trace" "ev_actor e = actor" "ev_action e = action"
    "ev_decision e = decision" "ev_reason_code e = reason" "ev_occurred_at e = at" "ev_approval_record_hash e = rh"
    "audit_safe P (h_job_id h) ''job_id'' = Inr (ev_job_id e)" "audit_safe P (h_user_id h) ''subject'' = Inr (ev_subject e)"
    "ev_result_sha256 e = res" "valid_event e" "rh \<noteq> None \<longrightarrow> h_approval_state h = PENDING"
    "ev_event_version e = (if api = None then 1 else 2)"
proof -
  from assms show thesis
    apply (simp only: event_from_handoff_def rbind_eq_Inr if_raise_eq_Inr event_init_eq_Inr)
    apply (elim exE conjE)
    apply (rule that)
    apply assumption
    apply (simp_all add: event_raw_def result_simps)
    apply (auto simp: optional_string_def split: option.splits)
    done
qed

lemma event_from_handoff_total:
  assumes "payload_facts P h" "handoff_to_bytes h = Inr w" "hash_ok P"
    and "identifier_ok trace" "h_job_id h \<noteq> []" "h_user_id h \<noteq> []" "h_policy_version h \<noteq> []"
    and "\<not> list_ex is_surrogate (h_job_id h)" "\<not> list_ex is_surrogate (h_user_id h)" "\<not> list_ex is_surrogate (h_policy_version h)"
    and "action \<in> set (map lit ACTIONS)" "decision \<in> set (map lit DECISIONS)" "is_reason_code reason"
    and "0 < at" "at \<le> MAX_OCCURRED_AT"
    and "\<forall>x. rh = Some x \<longrightarrow> is_digest x \<and> h_approval_state h = PENDING"
    and "case api of None \<Rightarrow> res = None
         | Some a \<Rightarrow> a \<noteq> [] \<and> \<not> list_ex is_surrogate a
             \<and> (if action = lit ''RESULT_ACCEPTED'' then \<exists>r. res = Some r \<and> is_digest r else res = None)"
  shows "\<exists>e. event_from_handoff P h trace actor action decision reason at rh api res = Inr e"
proof -
  obtain pl where pl: "canonical (h_payload h) = Inr pl" "h_payload_sha256 h = sha256_hex P pl"
    using assms(1) by (auto simp: payload_facts_def)
  have safe: "\<exists>x. audit_safe P s f = Inr x" if "s \<noteq> []" "\<not> list_ex is_surrogate s" for s f
    using that by (simp add: audit_safe_cases utf8_encode_def)
  obtain j u p where s: "audit_safe P (h_job_id h) ''job_id'' = Inr j" "audit_safe P (h_user_id h) ''subject'' = Inr u"
    "audit_safe P (h_policy_version h) ''policy_version'' = Inr p"
    using safe assms(5-10) by metis
  note ok = audit_safe_ok[OF assms(3) s(1)] audit_safe_ok[OF assms(3) s(2)] audit_safe_ok[OF assms(3) s(3)]
  obtain asha where a: "(case api of None \<Rightarrow> Inr None
      | Some a \<Rightarrow> rbind (subject_bytes (PStr a)) (\<lambda>b. Inr (Some (sha256_hex P b)))) = Inr asha"
    and asha: "api = None \<longleftrightarrow> asha = None" "\<forall>x. asha = Some x \<longrightarrow> is_digest x"
  proof (cases api)
    case (Some x)
    with assms(17) have "subject_bytes (PStr x) = Inr (map of_nat (concat (map utf8_char x)))"
      by (simp add: subject_bytes_eq_Inr utf8_encode_def)
    then show thesis using that[of "Some (sha256_hex P (map of_nat (concat (map utf8_char x))))"] Some assms(3) by simp
  qed (use that[of None] in simp)
  let ?e = "\<lparr>ev_trace_id = trace, ev_job_id = j, ev_actor = actor, ev_subject = u, ev_action = action,
     ev_decision = decision, ev_reason_code = reason, ev_policy_version = p,
     ev_constitution_version = CONSTITUTION_VERSION, ev_handoff_sha256 = sha256_hex P w,
     ev_payload_sha256 = sha256_hex P pl, ev_occurred_at = at, ev_approval_record_hash = rh,
     ev_event_version = (if api \<noteq> None then 2 else 1), ev_api_subject_sha256 = asha, ev_result_sha256 = res\<rparr>"
  have cv: "identifier_ok CONSTITUTION_VERSION"
    by (simp add: identifier_ok_def CONSTITUTION_VERSION_def MAX_IDENTIFIER_BYTES_def json_string_plain[of "lit _"])
      (simp add: lit_def is_space_def json_string_def esc_char_def)
  have "valid_event ?e"
    using assms(3,4,11-17) ok cv asha by (auto simp: valid_event_def split: option.splits)
  then have "event_init (event_raw ?e) = Inr ?e" by (simp add: event_init_eq_Inr)
  then show ?thesis
    using assms(2,4,16,17) pl s a
    by (auto simp: event_from_handoff_def audit_identifier_ok event_raw_def split: option.splits)
qed

lemma component_actor_init_valid: "component_actor_init c i = Inr a \<Longrightarrow> valid_actor a"
  by (cases a) (auto simp: valid_actor_def component_actor_init_def split: if_splits)

section \<open>What an entry looks like on disk\<close>

text \<open>No character run of an identifier that JSON would join to another one.\<close>

definition event_text_ok :: "audit_event \<Rightarrow> bool" where
  "event_text_ok e \<longleftrightarrow>
     list_all text_ok [ev_trace_id e, ev_job_id e, ev_subject e, ev_policy_version e, ev_constitution_version e]"

lemma digest_text_ok: "is_digest s \<Longrightarrow> text_ok s"
  by (intro text_ok_ascii) (auto simp: is_digest_def hex_string_def list_all_iff is_lower_hex_def is_digit_def is_ascii_def)

lemma code_text_ok:
  "s \<in> set (map lit ACTIONS) \<Longrightarrow> text_ok s" "s \<in> set (map lit DECISIONS) \<Longrightarrow> text_ok s" "is_reason_code s \<Longrightarrow> text_ok s"
proof -
  show "s \<in> set (map lit ACTIONS) \<Longrightarrow> text_ok s" by (auto simp: ACTIONS_def)
  show "s \<in> set (map lit DECISIONS) \<Longrightarrow> text_ok s" by (auto simp: DECISIONS_def)
  show "is_reason_code s \<Longrightarrow> text_ok s"
    by (intro text_ok_ascii) (auto simp: is_reason_code_def list_all_iff is_upper_def is_digit_def is_ascii_def split: list.splits)
qed

lemma actor_text_ok: "valid_actor a \<Longrightarrow> text_ok (actor_identifier a)"
  using role_no_colon instance_no_colon valid_actorD[of a]
  by (intro text_ok_ascii) (auto simp: actor_identifier_def is_ascii_def)

lemma optional_json_ok: "(\<forall>h. x = Some h \<longrightarrow> is_digest h) \<Longrightarrow> json_ok (optional_string x) \<and> json_norm (optional_string x) = optional_string x"
  by (cases x) (auto simp: digest_text_ok)

lemma event_digests:
  assumes "valid_event e"
  shows "\<forall>h. ev_approval_record_hash e = Some h \<longrightarrow> is_digest h" "\<forall>h. ev_api_subject_sha256 e = Some h \<longrightarrow> is_digest h"
    "\<forall>h. ev_result_sha256 e = Some h \<longrightarrow> is_digest h"
  using assms by (auto simp: valid_event_def split: if_splits)

lemma event_json_ok:
  assumes "valid_event e" "valid_actor (ev_actor e)" "event_text_ok e"
  shows "json_ok (PDict (event_dict e))" "\<forall>kv \<in> set (event_dict e). json_norm (snd kv) = snd kv"
proof -
  note v = assms(1)[unfolded valid_event_def]
  have codes: "text_ok (ev_action e)" "text_ok (ev_decision e)" "text_ok (ev_reason_code e)" "text_ok (ev_handoff_sha256 e)"
    "text_ok (ev_payload_sha256 e)" "text_ok (actor_identifier (ev_actor e))"
    using v digest_text_ok code_text_ok actor_text_ok[OF assms(2)] by blast+
  note d = optional_json_ok[OF event_digests(1)[OF assms(1)]] optional_json_ok[OF event_digests(2)[OF assms(1)]]
    optional_json_ok[OF event_digests(3)[OF assms(1)]]
  have k: "distinct (map fst (event_dict e))" by (rule event_dict_distinct)
  have "list_all (\<lambda>kv. text_ok (fst kv) \<and> json_ok (snd kv) \<and> json_norm (snd kv) = snd kv) (event_dict e)"
    using codes d assms(3) by (simp add: event_dict_def event_text_ok_def)
  with k show "json_ok (PDict (event_dict e))" "\<forall>kv \<in> set (event_dict e). json_norm (snd kv) = snd kv"
    by (auto simp: list_all_iff)
qed

lemma event_dict_norm:
  assumes "valid_event e" "valid_actor (ev_actor e)" "event_text_ok e"
  shows "map_option json_norm (map_of (event_dict e) k) = map_of (event_dict e) k"
proof (cases "map_of (event_dict e) k")
  case (Some v)
  then have "(k, v) \<in> set (event_dict e)" by (rule map_of_SomeD)
  with event_json_ok(2)[OF assms] Some show ?thesis by force
qed simp

text \<open>Different events have different canonical forms.\<close>

lemma event_to_bytes_inject:
  assumes "valid_event e" "valid_actor (ev_actor e)" "event_text_ok e"
    and "valid_event e'" "valid_actor (ev_actor e')" "event_text_ok e'"
    and "event_to_bytes e = Inr b" "event_to_bytes e' = Inr b"
  shows "e = e'"
proof (rule event_dict_inject[OF assms(1,2,4,5)])
  fix k
  have "map_option json_norm (map_of (event_dict e) k) = map_option json_norm (map_of (event_dict e') k)"
    by (rule canonical_dict_inject[OF assms(7,8)[unfolded event_to_bytes_def] event_json_ok(1)[OF assms(1-3)] event_json_ok(1)[OF assms(4-6)]])
  then show "map_of (event_dict e) k = map_of (event_dict e') k"
    by (simp only: event_dict_norm[OF assms(1-3)] event_dict_norm[OF assms(4-6)])
qed

lemma event_to_bytes_total:
  assumes "valid_event e" "valid_actor (ev_actor e)"
  shows "\<exists>b. event_to_bytes e = Inr b \<and> length b \<le> 2946"
  using event_text_bound[OF assms] by (auto simp: event_to_bytes_def canonical_eq_Inr)

definition sample_event :: audit_event where
  "sample_event =
     \<lparr>ev_trace_id = lit ''trace-1'', ev_job_id = lit ''job-1'',
      ev_actor = \<lparr>ca_component = lit ''gateway'', ca_instance_id = lit ''gw-1''\<rparr>, ev_subject = lit ''alice'',
      ev_action = lit ''HANDOFF_ADMITTED'', ev_decision = lit ''ALLOWED'', ev_reason_code = lit ''POLICY_SATISFIED'',
      ev_policy_version = lit ''v1'', ev_constitution_version = CONSTITUTION_VERSION,
      ev_handoff_sha256 = replicate 64 97, ev_payload_sha256 = replicate 64 98, ev_occurred_at = 1000,
      ev_approval_record_hash = None, ev_event_version = 1, ev_api_subject_sha256 = None, ev_result_sha256 = None\<rparr>"

lemma sample_event_ok [simp]: "valid_event sample_event" "valid_actor (ev_actor sample_event)" "event_text_ok sample_event"
proof -
  have i: "identifier_ok (lit ''trace-1'')" "identifier_ok (lit ''job-1'')" "identifier_ok (lit ''alice'')" "identifier_ok (lit ''v1'')"
    "identifier_ok CONSTITUTION_VERSION"
    by (simp_all add: identifier_ok_def MAX_IDENTIFIER_BYTES_def CONSTITUTION_VERSION_def lit_def is_space_def json_string_def esc_char_def)
  have d: "is_digest (replicate 64 97)" "is_digest (replicate 64 98)"
    by (simp_all add: is_digest_def hex_string_def list_all_iff is_lower_hex_def is_digit_def)
  have r: "is_reason_code (lit ''POLICY_SATISFIED'')"
    by (simp add: is_reason_code_def lit_def is_upper_def is_digit_def)
  show "valid_event sample_event"
    using i d r by (simp add: valid_event_def sample_event_def ACTIONS_def DECISIONS_def MAX_OCCURRED_AT_def)
  show "valid_actor (ev_actor sample_event)"
    by (simp add: valid_actor_def component_actor_init_def sample_event_def ROLES_def is_instance_id_def lit_def is_lower_alnum_def is_digit_def)
  show "event_text_ok sample_event" by (simp add: event_text_ok_def sample_event_def CONSTITUTION_VERSION_def)
qed

section \<open>Properties\<close>

text \<open>An audit entry is small whatever was submitted: every event the constructor lets through has
  a canonical form, of at most 2946 bytes.\<close>

theorem event_entry_bounded:
  assumes "event_init r = Inr e" "component_actor_init c i = Inr (re_actor r)"
  shows "\<exists>b. event_to_bytes e = Inr b \<and> length b \<le> 2946"
proof -
  from assms(1) have r: "r = event_raw e" and v: "valid_event e" by (simp_all add: event_init_eq_Inr)
  have "valid_actor (ev_actor e)"
    using component_actor_init_valid[OF assms(2)] r by (simp add: event_raw_def)
  from event_to_bytes_total[OF v this] show ?thesis .
qed

theorem event_entry_bounded_witness:
  "\<exists>b. event_to_bytes sample_event = Inr b \<and> length b \<le> 2946"
proof (rule event_entry_bounded)
  show "event_init (event_raw sample_event) = Inr sample_event" by (simp add: event_init_eq_Inr)
  show "component_actor_init (ca_component (ev_actor sample_event)) (ca_instance_id (ev_actor sample_event)) = Inr (re_actor (event_raw sample_event))"
    using sample_event_ok(2) by (simp add: valid_actor_def event_raw_def)
qed

text \<open>An event survives storage: its canonical bytes parse back, with any reader that keeps objects
  with distinct keys, to an object from which \<open>rehydrate_event\<close> rebuilds the same event.\<close>

theorem event_storage_roundtrip:
  assumes "valid_event e" "valid_actor (ev_actor e)" "event_text_ok e" "keeps_distinct J"
    and "event_to_bytes e = Inr b" "utf8_decode b = Some t"
  shows "\<exists>v. json_loads J t = Inr v \<and> rehydrate_event v = Inr e"
proof -
  note j = event_json_ok(1)[OF assms(1-3)]
  obtain u where u: "dumps (PDict (event_dict e)) = Some u" "b = ascii_bytes u"
    using assms(5) by (auto simp: event_to_bytes_def canonical_eq_Inr)
  have "is_ascii u" by (rule dumps_ascii[OF u(1) j])
  with assms(6) u(2) have t: "t = u" by (simp add: utf8_decode_ascii)
  obtain d where d: "json_norm (PDict (event_dict e)) = PDict d" by simp
  have "map_of d k = map_of (event_dict e) k" for k
    using map_of_json_norm[OF d event_dict_distinct, of k] event_dict_norm[OF assms(1-3)] by simp
  then have "rehydrate_event (PDict d) = Inr e" by (rule rehydrate_contents[OF assms(1,2)])
  with json_roundtrip[OF assms(4) u(1) j] d t show ?thesis by auto
qed

theorem event_storage_roundtrip_witness:
  "\<exists>b t v. event_to_bytes sample_event = Inr b \<and> utf8_decode b = Some t
     \<and> json_loads (wire_hooks sample_platform ''event'') t = Inr v \<and> rehydrate_event v = Inr sample_event"
proof -
  obtain b where b: "event_to_bytes sample_event = Inr b" using event_to_bytes_total[of sample_event] by auto
  then obtain u where u: "dumps (PDict (event_dict sample_event)) = Some u" "b = ascii_bytes u"
    by (auto simp: event_to_bytes_def canonical_eq_Inr)
  have "is_ascii u" by (rule dumps_ascii[OF u(1) event_json_ok(1)]) simp_all
  with u have t: "utf8_decode b = Some u" by (simp add: utf8_decode_ascii)
  from event_storage_roundtrip[OF sample_event_ok wire_hooks_keep b t] b t show ?thesis by blast
qed

text \<open>The one value the projection cannot record: an identifier that is too long or contains
  whitespace and holds a lone surrogate makes \<open>_audit_safe\<close> raise \<open>UnicodeEncodeError\<close>, which is not a
  \<open>ContractError\<close>, instead of recording a digest.\<close>

theorem audit_safe_surrogate:
  assumes "s \<noteq> []" "\<not> identifier_ok s" "list_ex is_surrogate s"
  shows "audit_safe P s field = Inl (PyError ''UnicodeEncodeError'')"
  using assms by (simp add: audit_safe_cases utf8_encode_def)

theorem audit_safe_surrogate_witness:
  "audit_safe sample_platform [0xD800, 32] ''job_id'' = Inl (PyError ''UnicodeEncodeError'')"
  by (rule audit_safe_surrogate) (simp_all add: identifier_ok_def is_space_def is_surrogate_def)

end
