(* ===== verification/AuditChain.thy ===== *)
theory AuditChain
  imports AuditEvents SingleUse "HOL-Library.Sublist"
begin

text \<open>
  \<open>geniusnew/audit_chain.py\<close>: the append-only chain of audit records, its signed head and the anchor
  that keeps the one commitment a chain cannot make about itself. What \<open>verify\<close> is given may come from
  tampered storage, so the records and the head of its arguments have fields of any type
  (\<open>raw_record\<close>, \<open>raw_head\<close>), an element may be no record at all, and reading the iterable may fail
  half way; \<open>chain_record\<close> and \<open>audit_head\<close> are the values after the checks.

  \<open>commit_delta\<close> reads its base, proves the extension outside the lock and compares the base again
  before it moves. \<open>delta_base\<close> and \<open>delta_finish\<close> are the two locked sections, so that other commits
  can be interleaved between them (\<open>anchor_run\<close>).
\<close>

section \<open>Data\<close>

record chain_record =
  cr_index :: int
  cr_event :: audit_event
  cr_previous_hash :: pystr
  cr_record_hash :: pystr

record raw_record =
  rr_index :: pyval
  rr_event :: "audit_event option"
  rr_previous_hash :: pyval
  rr_record_hash :: pyval

datatype chain_item = NotRecord | Item raw_record

text \<open>An iterable: the elements it yields, and the exception it raises after them, if any.\<close>

datatype chain_items = NotIterable | Yields "chain_item list" "exc option"

record audit_head =
  ah_version :: pystr
  ah_count :: nat
  ah_head_hash :: pystr
  ah_signature :: pystr

record raw_head =
  rh_version :: pyval
  rh_count :: pyval
  rh_head_hash :: pyval
  rh_signature :: pyval

record anchor =
  an_count :: nat
  an_head_hash :: pystr

datatype head_checker = ByAuthority audit_authority | ByVerifier audit_verifier | NotAuthority

definition HEAD_VERSION :: pystr where "HEAD_VERSION = lit ''geniusnew-audit-head-v2''"
definition EMPTY_HASH :: pystr where "EMPTY_HASH = replicate 64 48"
definition MAX_COUNT :: int where "MAX_COUNT = 1000000"
definition MAX_DELTA_RECORDS :: nat where "MAX_DELTA_RECORDS = 8192"

text \<open>The stored values as the arguments of a check.\<close>

definition raw_item :: "chain_record \<Rightarrow> chain_item" where
  "raw_item r = Item \<lparr>rr_index = PInt (cr_index r), rr_event = Some (cr_event r),
     rr_previous_hash = PStr (cr_previous_hash r), rr_record_hash = PStr (cr_record_hash r)\<rparr>"

definition head_raw :: "audit_head \<Rightarrow> raw_head" where
  "head_raw h = \<lparr>rh_version = PStr (ah_version h), rh_count = PInt (int (ah_count h)),
     rh_head_hash = PStr (ah_head_hash h), rh_signature = PStr (ah_signature h)\<rparr>"

definition stored :: "chain_record list \<Rightarrow> chain_items" where
  "stored rs = Yields (map raw_item rs) None"

section \<open>Heads\<close>

definition head_authority :: "head_checker \<Rightarrow> audit_authority result" where
  "head_authority a = (case a of ByAuthority x \<Rightarrow> Inr x | _ \<Rightarrow> fail ''authority must be an AuditAuthority'')"

definition head_verifier :: "head_checker \<Rightarrow> audit_verifier result" where
  "head_verifier a =
     (case a of ByAuthority x \<Rightarrow> Inr (aa_verifier x) | ByVerifier v \<Rightarrow> Inr v
      | NotAuthority \<Rightarrow> fail ''authority must be an AuditAuthority or an AuditVerifier'')"

definition py_count :: "pyval \<Rightarrow> string \<Rightarrow> nat result" where
  "py_count v field =
     (case v of
        PInt n \<Rightarrow>
          if n < 0 then fail (field @ '' must be a non-negative integer'') else
          if n > MAX_COUNT then fail (field @ '' must be at most 1000000'') else Inr (nat n)
      | _ \<Rightarrow> fail (field @ '' must be a non-negative integer''))"

definition record_hash :: "platform \<Rightarrow> int \<Rightarrow> audit_event \<Rightarrow> pystr \<Rightarrow> pystr result" where
  "record_hash P index event previous_hash =
     rbind (canonical (PDict [(lit ''event'', PDict (event_dict event)), (lit ''index'', PInt index),
       (lit ''previous_hash'', PStr previous_hash)])) (\<lambda>b. Inr (sha256_hex P b))"

definition record_dict :: "chain_record \<Rightarrow> (pystr \<times> pyval) list" where
  "record_dict r =
     [(lit ''event'', PDict (event_dict (cr_event r))), (lit ''index'', PInt (cr_index r)),
      (lit ''previous_hash'', PStr (cr_previous_hash r)), (lit ''record_hash'', PStr (cr_record_hash r))]"

definition head_body :: "nat \<Rightarrow> pystr \<Rightarrow> pyval" where
  "head_body n head_hash =
     PDict [(lit ''count'', PInt (int n)), (lit ''head_hash'', PStr head_hash), (lit ''version'', PStr HEAD_VERSION)]"

definition sign_head :: "platform \<Rightarrow> pyval \<Rightarrow> pyval \<Rightarrow> head_checker \<Rightarrow> audit_head result" where
  "sign_head P counted head_hash authority =
     rbind (head_authority authority) (\<lambda>signer.
     rbind (py_count counted ''count'') (\<lambda>n.
     rbind (py_digest head_hash ''head_hash'') (\<lambda>h.
     rbind (canonical (head_body n h)) (\<lambda>b.
     Inr \<lparr>ah_version = HEAD_VERSION, ah_count = n, ah_head_hash = h, ah_signature = bytes_hex (audit_sign P signer b)\<rparr>))))"

definition verify_head :: "platform \<Rightarrow> raw_head option \<Rightarrow> head_checker \<Rightarrow> audit_head result" where
  "verify_head P head authority =
     rbind (head_verifier authority) (\<lambda>verifier.
     case head of
       None \<Rightarrow> fail ''head is invalid''
     | Some raw \<Rightarrow>
         if rh_version raw \<noteq> PStr HEAD_VERSION then fail ''head version is not recognised'' else
         rbind (py_count (rh_count raw) ''head.count'') (\<lambda>n.
         rbind (py_digest (rh_head_hash raw) ''head.head_hash'') (\<lambda>h.
         case rh_signature raw of
           PStr s \<Rightarrow>
             if \<not> is_signature s then fail ''head signature does not verify'' else
             rbind (canonical (head_body n h)) (\<lambda>b.
             case fromhex s of
               None \<Rightarrow> value_error
             | Some sig \<Rightarrow>
                 if \<not> audit_verifies P verifier b sig then fail ''head signature does not verify'' else
                 Inr \<lparr>ah_version = HEAD_VERSION, ah_count = n, ah_head_hash = h, ah_signature = s\<rparr>)
         | _ \<Rightarrow> fail ''head signature does not verify'')))"

section \<open>Verification\<close>

definition bounded_chain :: "chain_items \<Rightarrow> nat \<Rightarrow> chain_item list result" where
  "bounded_chain records limit =
     (case records of
        NotIterable \<Rightarrow> fail ''records must be an iterable of AuditRecord''
      | Yields xs failure \<Rightarrow>
          if limit \<le> length xs then Inr (take limit xs)
          else case failure of None \<Rightarrow> Inr xs | Some e \<Rightarrow> Inl e)"

definition checked_record :: "chain_item \<Rightarrow> nat \<Rightarrow> chain_record result" where
  "checked_record v position =
     (case v of
        NotRecord \<Rightarrow> fail (''record at position '' @ show_nat position @ '' is not an AuditRecord'')
      | Item r \<Rightarrow>
          rbind (case rr_index r of
                   PInt i \<Rightarrow> Inr i
                 | _ \<Rightarrow> fail (''record at position '' @ show_nat position @ '' has a non-integer index'')) (\<lambda>index.
          rbind (case rr_event r of
                   Some e \<Rightarrow> Inr e
                 | None \<Rightarrow> fail (''record at position '' @ show_nat position @ '' does not carry an AuditEvent'')) (\<lambda>event.
          rbind (py_digest (rr_previous_hash r) (''record '' @ show_nat position @ '' previous_hash'')) (\<lambda>previous.
          rbind (py_digest (rr_record_hash r) (''record '' @ show_nat position @ '' record_hash'')) (\<lambda>hash.
          Inr \<lparr>cr_index = index, cr_event = event, cr_previous_hash = previous, cr_record_hash = hash\<rparr>)))))"

text \<open>The body of the loop \<open>verify\<close> and \<open>verify_extension\<close> share. Python refuses to print an index of
  more than 4300 digits.\<close>

definition check_link :: "platform \<Rightarrow> nat \<Rightarrow> pystr \<Rightarrow> chain_record \<Rightarrow> unit result" where
  "check_link P position expected_previous r =
     (if cr_index r \<noteq> int position
      then case int_text (cr_index r) of
             None \<Rightarrow> value_error
           | Some t \<Rightarrow> fail (''record at position '' @ show_nat position @ '' claims index '' @ map char_of t)
      else
        rbind (compare_digest (cr_previous_hash r) expected_previous) (\<lambda>linked.
        if \<not> linked then fail (''record '' @ show_nat position @ '' does not link to its predecessor'') else
        rbind (record_hash P (cr_index r) (cr_event r) (cr_previous_hash r)) (\<lambda>recomputed.
        rbind (compare_digest (cr_record_hash r) recomputed) (\<lambda>same.
        if \<not> same then fail (''record '' @ show_nat position @ '' has been altered'') else Inr ()))))"

fun check_links :: "platform \<Rightarrow> nat \<Rightarrow> pystr \<Rightarrow> chain_item list \<Rightarrow> chain_record list result" where
  "check_links P position expected_previous [] = Inr []"
| "check_links P position expected_previous (v # vs) =
     rbind (checked_record v position) (\<lambda>r.
     rbind (check_link P position expected_previous r) (\<lambda>_.
     rbind (check_links P (Suc position) (cr_record_hash r) vs) (\<lambda>rs. Inr (r # rs))))"

definition end_hash :: "pystr \<Rightarrow> chain_record list \<Rightarrow> pystr" where
  "end_hash base rs = (if rs = [] then base else cr_record_hash (last rs))"

text \<open>\<open>verify\<close> up to the question about the anchor: the authenticated head and the records it covers.\<close>

definition verify_chain :: "platform \<Rightarrow> chain_items \<Rightarrow> raw_head option \<Rightarrow> head_checker \<Rightarrow> (audit_head \<times> chain_record list) result" where
  "verify_chain P records raw authority =
     rbind (verify_head P raw authority) (\<lambda>head.
     rbind (bounded_chain records (ah_count head + 1)) (\<lambda>chain.
     if length chain > ah_count head
     then fail (''chain holds more than the '' @ show_nat (ah_count head) @ '' records the signed head claims'') else
     if length chain \<noteq> ah_count head
     then fail (''chain holds '' @ show_nat (length chain) @ '' records but the signed head claims '' @ show_nat (ah_count head)) else
     rbind (check_links P 0 EMPTY_HASH chain) (\<lambda>rs.
     rbind (compare_digest (end_hash EMPTY_HASH rs) (ah_head_hash head)) (\<lambda>same.
     if \<not> same then fail ''chain does not end where the signed head says it does'' else Inr (head, rs)))))"

definition check_anchor :: "anchor \<Rightarrow> audit_head \<Rightarrow> chain_record list \<Rightarrow> unit result" where
  "check_anchor a head rs =
     (if ah_count head < an_count a
      then fail (''anchor committed '' @ show_nat (an_count a) @ '' records; this chain has '' @ show_nat (ah_count head)) else
      rbind (if ah_count head = an_count a then compare_digest (ah_head_hash head) (an_head_hash a) else Inr True) (\<lambda>same.
      if \<not> same then fail ''chain ends differently from what the anchor committed at this length'' else
      if an_count a \<noteq> 0 \<and> ah_count head > an_count a
      then rbind (compare_digest (cr_record_hash (rs ! (an_count a - 1))) (an_head_hash a)) (\<lambda>contained.
           if \<not> contained then fail (''chain does not contain the '' @ show_nat (an_count a) @ '' records the anchor committed'')
           else Inr ())
      else Inr ()))"

definition verify :: "platform \<Rightarrow> chain_items \<Rightarrow> raw_head option \<Rightarrow> head_checker \<Rightarrow> anchor option \<Rightarrow> nat result" where
  "verify P records raw authority anchor =
     rbind (verify_chain P records raw authority) (\<lambda>(head, rs).
     rbind (case anchor of None \<Rightarrow> Inr () | Some a \<Rightarrow> check_anchor a head rs) (\<lambda>_. Inr (length rs)))"

definition verify_extension ::
  "platform \<Rightarrow> chain_items \<Rightarrow> raw_head option \<Rightarrow> pyval \<Rightarrow> pyval \<Rightarrow> head_checker \<Rightarrow> (audit_head \<times> nat) result" where
  "verify_extension P records raw from_count from_hash authority =
     rbind (verify_head P raw authority) (\<lambda>head.
     rbind (py_count from_count ''from_count'') (\<lambda>base_count.
     rbind (py_digest from_hash ''from_hash'') (\<lambda>base_hash.
     if ah_count head < base_count
     then fail (''signed head claims '' @ show_nat (ah_count head) @ '' records but the extension base already holds '' @ show_nat base_count)
     else
       let extension = ah_count head - base_count in
       if extension > MAX_DELTA_RECORDS
       then fail (''extension holds '' @ show_nat extension @ '' records, more than the 8192 one delta may carry'') else
       rbind (bounded_chain records (extension + 1)) (\<lambda>chain.
       if length chain > extension
       then fail (''extension holds more than the '' @ show_nat extension @ '' records the signed head adds to its base'') else
       if length chain \<noteq> extension
       then fail (''extension holds '' @ show_nat (length chain) @ '' records but the signed head adds '' @ show_nat extension @ '' to its base'') else
       rbind (check_links P base_count base_hash chain) (\<lambda>rs.
       rbind (compare_digest (end_hash base_hash rs) (ah_head_hash head)) (\<lambda>same.
       if \<not> same then fail ''extension does not end where the signed head says it does'' else Inr (head, length rs)))))))"

section \<open>The anchor\<close>

definition anchor_new :: anchor where
  "anchor_new = \<lparr>an_count = 0, an_head_hash = EMPTY_HASH\<rparr>"

definition anchor_at :: "audit_head \<Rightarrow> anchor" where
  "anchor_at head = \<lparr>an_count = ah_count head, an_head_hash = ah_head_hash head\<rparr>"

definition anchor_resumed :: "platform \<Rightarrow> raw_head option \<Rightarrow> head_checker \<Rightarrow> anchor result" where
  "anchor_resumed P raw authority = rbind (verify_head P raw authority) (\<lambda>head. Inr (anchor_at head))"

definition committed :: "anchor \<Rightarrow> nat \<times> pystr" where
  "committed a = (an_count a, an_head_hash a)"

text \<open>The locked section of \<open>commit\<close>.\<close>

definition commit_locked :: "audit_head \<Rightarrow> chain_record list \<Rightarrow> (anchor, nat \<times> pystr) action" where
  "commit_locked head rs a =
     (case
        (if ah_count head < an_count a
         then fail (''anchor already committed '' @ show_nat (an_count a) @ '' records; head claims '' @ show_nat (ah_count head)) else
         rbind (if ah_count head = an_count a then compare_digest (ah_head_hash head) (an_head_hash a) else Inr True) (\<lambda>same.
         if \<not> same then fail (''anchor already committed a different chain at '' @ show_nat (an_count a) @ '' records'') else
         if an_count a \<noteq> 0 \<and> ah_count head > an_count a
         then rbind (compare_digest (cr_record_hash (rs ! (an_count a - 1))) (an_head_hash a)) (\<lambda>continued.
              if \<not> continued
              then fail (''chain does not extend the '' @ show_nat (an_count a) @ '' records already committed; record ''
                     @ show_nat (an_count a - 1) @ '' ends elsewhere'')
              else Inr ())
         else Inr ()))
      of Inl e \<Rightarrow> (Inl e, a)
       | Inr _ \<Rightarrow> (Inr (committed (anchor_at head)), anchor_at head))"

definition commit :: "platform \<Rightarrow> raw_head option \<Rightarrow> chain_items \<Rightarrow> head_checker \<Rightarrow> (anchor, nat \<times> pystr) action" where
  "commit P raw records authority =
     abind (alift (rbind (verify_head P raw authority) (\<lambda>head.
            rbind (bounded_chain records (ah_count head + 1)) (\<lambda>chain.
            verify_chain P (Yields chain None) raw authority)))) (\<lambda>(head, rs).
     commit_locked head rs)"

definition delta_base :: "(anchor, nat \<times> pystr) action" where
  "delta_base a = (Inr (committed a), a)"

definition delta_finish :: "nat \<times> pystr \<Rightarrow> audit_head \<Rightarrow> (anchor, nat \<times> pystr) action" where
  "delta_finish base head a =
     (if committed a = base then (Inr (committed (anchor_at head)), anchor_at head) else
      case (if ah_count head = an_count a then compare_digest (ah_head_hash head) (an_head_hash a) else Inr False) of
        Inl e \<Rightarrow> (Inl e, a)
      | Inr same \<Rightarrow>
          if same then (Inr (committed a), a)
          else (fail (''anchor moved to '' @ show_nat (an_count a) @ '' records while the extension from '' @ show_nat (fst base)
                  @ '' was checked; extend its committed state instead''), a))"

definition commit_delta :: "platform \<Rightarrow> raw_head option \<Rightarrow> chain_items \<Rightarrow> head_checker \<Rightarrow> (anchor, nat \<times> pystr) action" where
  "commit_delta P raw records authority =
     abind delta_base (\<lambda>base.
     abind (alift (verify_extension P records raw (PInt (int (fst base))) (PStr (snd base)) authority)) (\<lambda>(head, _).
     delta_finish base head))"

section \<open>The chain\<close>

definition chain_append :: "platform \<Rightarrow> audit_event \<Rightarrow> (chain_record list, chain_record) action" where
  "chain_append P event rs =
     (let index = int (length rs); previous_hash = end_hash EMPTY_HASH rs in
      case record_hash P index event previous_hash of
        Inl e \<Rightarrow> (Inl e, rs)
      | Inr h \<Rightarrow>
          let r = \<lparr>cr_index = index, cr_event = event, cr_previous_hash = previous_hash, cr_record_hash = h\<rparr>
          in (Inr r, rs @ [r]))"

definition chain_head :: "platform \<Rightarrow> head_checker \<Rightarrow> chain_record list \<Rightarrow> audit_head result" where
  "chain_head P authority rs = sign_head P (PInt (int (length rs))) (PStr (end_hash EMPTY_HASH rs)) authority"

definition chain_snapshot :: "platform \<Rightarrow> head_checker \<Rightarrow> chain_record list \<Rightarrow> (audit_head \<times> chain_record list) result" where
  "chain_snapshot P authority rs =
     rbind (sign_head P (PInt (int (length rs))) (PStr (end_hash EMPTY_HASH rs)) authority) (\<lambda>head. Inr (head, rs))"

section \<open>What the checks establish\<close>

lemma py_count_eq_Inr [result_simps]: "py_count v f = Inr n \<longleftrightarrow> v = PInt (int n) \<and> int n \<le> MAX_COUNT"
  by (cases v) (auto simp: py_count_def MAX_COUNT_def)

lemma empty_hash_digest [simp]: "is_digest EMPTY_HASH"
  by (simp add: EMPTY_HASH_def is_digest_def hex_string_def list_all_iff is_lower_hex_def is_digit_def)

lemma verify_head_eq_Inr:
  "verify_head P raw authority = Inr h \<longleftrightarrow>
     (\<exists>v b sig. head_verifier authority = Inr v \<and> raw = Some (head_raw h) \<and> ah_version h = HEAD_VERSION
        \<and> int (ah_count h) \<le> MAX_COUNT \<and> is_digest (ah_head_hash h) \<and> is_signature (ah_signature h)
        \<and> canonical (head_body (ah_count h) (ah_head_hash h)) = Inr b
        \<and> fromhex (ah_signature h) = Some sig \<and> audit_verifies P v b sig)"
proof (cases raw)
  case None
  then show ?thesis by (auto simp: verify_head_def result_simps)
next
  case (Some r)
  show ?thesis
  proof (cases "\<exists>s. rh_signature r = PStr s")
    case False
    then have "verify_head P raw authority \<noteq> Inr h"
      unfolding verify_head_def Some by (auto simp: result_simps split: pyval.splits)
    with False Some show ?thesis by (auto simp: head_raw_def)
  next
    case True
    then obtain s where s: "rh_signature r = PStr s" by blast
    show ?thesis
      unfolding verify_head_def Some option.case s pyval.case
      by (cases h; cases r)
        (use s in \<open>auto simp: result_simps head_raw_def split: option.splits\<close>)
  qed
qed

lemma checked_record_eq_Inr:
  "checked_record v pos = Inr r \<longleftrightarrow> v = raw_item r \<and> is_digest (cr_previous_hash r) \<and> is_digest (cr_record_hash r)"
proof (cases v)
  case (Item x)
  have i: "(case p of PInt i \<Rightarrow> Inr i | _ \<Rightarrow> fail m) = Inr j \<longleftrightarrow> p = PInt j" for p m j by (cases p) auto
  have e: "(case p of Some e \<Rightarrow> Inr e | None \<Rightarrow> fail m) = Inr j \<longleftrightarrow> p = Some j" for p :: "audit_event option" and m j by (cases p) auto
  show ?thesis
    unfolding checked_record_def Item chain_item.case
    by (cases r; cases x) (auto simp: rbind_eq_Inr i e py_digest_eq_Inr raw_item_def)
qed (auto simp: checked_record_def raw_item_def)

lemma check_link_eq_Inr:
  assumes "is_digest (cr_previous_hash r)" "is_digest (cr_record_hash r)"
  shows "check_link P pos prev r = Inr u \<longleftrightarrow>
     cr_index r = int pos \<and> cr_previous_hash r = prev \<and> record_hash P (cr_index r) (cr_event r) prev = Inr (cr_record_hash r)"
proof -
  have a: "is_ascii (cr_previous_hash r)" "is_ascii (cr_record_hash r)" using assms is_digest_ascii by blast+
  have h: "is_ascii x" if "record_hash P i e p = Inr x" for i e p x
    using that by (auto simp: record_hash_def result_simps)
  show ?thesis
    using a h by (auto simp: check_link_def result_simps split: option.splits)
qed

text \<open>A run of records that starts at a position after a hash.\<close>

fun linked :: "platform \<Rightarrow> nat \<Rightarrow> pystr \<Rightarrow> chain_record list \<Rightarrow> bool" where
  "linked P pos prev [] = True"
| "linked P pos prev (r # rs) \<longleftrightarrow>
     cr_index r = int pos \<and> cr_previous_hash r = prev \<and> is_digest prev \<and> is_digest (cr_record_hash r)
   \<and> record_hash P (cr_index r) (cr_event r) prev = Inr (cr_record_hash r) \<and> linked P (Suc pos) (cr_record_hash r) rs"

lemma check_links_eq_Inr: "check_links P pos prev vs = Inr rs \<longleftrightarrow> vs = map raw_item rs \<and> linked P pos prev rs"
proof (induction vs arbitrary: pos prev rs)
  case (Cons v vs)
  show ?case
  proof (cases rs)
    case (Cons r rs')
    then show ?thesis
      by (auto simp: rbind_eq_Inr checked_record_eq_Inr check_link_eq_Inr Cons.IH)
  qed (auto simp: rbind_eq_Inr)
qed auto

lemma end_hash_simps [simp]: "end_hash b [] = b" "end_hash b (r # rs) = end_hash (cr_record_hash r) rs"
  "end_hash b (rs @ [r]) = cr_record_hash r"
  by (auto simp: end_hash_def)

lemma end_hash_append: "end_hash b (xs @ ys) = end_hash (end_hash b xs) ys"
  by (auto simp: end_hash_def)

lemma linked_append:
  "linked P pos prev (xs @ ys) \<longleftrightarrow> linked P pos prev xs \<and> linked P (pos + length xs) (end_hash prev xs) ys"
  by (induction xs arbitrary: pos prev) auto

lemma linked_end_digest: "linked P pos prev rs \<Longrightarrow> is_digest prev \<Longrightarrow> is_digest (end_hash prev rs)"
  by (induction rs arbitrary: pos prev) auto

lemma bounded_chain_stored [simp]: "length rs < limit \<Longrightarrow> bounded_chain (stored rs) limit = Inr (map raw_item rs)"
  by (simp add: bounded_chain_def stored_def)

lemma bounded_chain_again: "bounded_chain records n = Inr c \<Longrightarrow> bounded_chain (Yields c None) n = Inr c"
  by (auto simp: bounded_chain_def split: chain_items.splits if_splits option.splits)

lemma verify_chain_eq_Inr:
  "verify_chain P records raw authority = Inr (head, rs) \<longleftrightarrow>
     verify_head P raw authority = Inr head \<and> bounded_chain records (ah_count head + 1) = Inr (map raw_item rs)
   \<and> length rs = ah_count head \<and> linked P 0 EMPTY_HASH rs \<and> end_hash EMPTY_HASH rs = ah_head_hash head"
proof -
  have d: "is_ascii (ah_head_hash h)" if "verify_head P raw authority = Inr h" for h
    using that is_digest_ascii by (auto simp: verify_head_eq_Inr)
  have e: "is_ascii (end_hash EMPTY_HASH rs)" if "linked P 0 EMPTY_HASH rs" for rs
    using linked_end_digest[OF that] is_digest_ascii by simp
  show ?thesis
    unfolding verify_chain_def
    by (auto simp: rbind_eq_Inr if_raise_eq_Inr check_links_eq_Inr compare_digest_eq_Inr dest: d e)
qed


section \<open>Anchors\<close>

text \<open>A chain that an anchor's commitment stands for.\<close>

definition backs :: "platform \<Rightarrow> chain_record list \<Rightarrow> anchor \<Rightarrow> bool" where
  "backs P rs a \<longleftrightarrow> linked P 0 EMPTY_HASH rs \<and> length rs = an_count a \<and> end_hash EMPTY_HASH rs = an_head_hash a"

definition backed :: "platform \<Rightarrow> anchor \<Rightarrow> bool" where
  "backed P a \<longleftrightarrow> (\<exists>rs. backs P rs a)"

text \<open>The chain holds, at the anchor's position, the hash the anchor committed.\<close>

definition continues :: "anchor \<Rightarrow> chain_record list \<Rightarrow> bool" where
  "continues a rs \<longleftrightarrow> an_count a \<le> length rs \<and> end_hash EMPTY_HASH (take (an_count a) rs) = an_head_hash a"

lemma backed_anchor: "backed P a \<Longrightarrow> is_digest (an_head_hash a) \<and> (an_count a = 0 \<longrightarrow> an_head_hash a = EMPTY_HASH)"
  using linked_end_digest[of P 0 EMPTY_HASH] by (fastforce simp: backed_def backs_def)

lemma end_hash_take: "0 < n \<Longrightarrow> n \<le> length rs \<Longrightarrow> end_hash b (take n rs) = cr_record_hash (rs ! (n - 1))"
  by (auto simp: end_hash_def last_conv_nth min_def)

lemma linked_digests: "linked P pos prev rs \<Longrightarrow> r \<in> set rs \<Longrightarrow> is_ascii (cr_record_hash r)"
  by (induction rs arbitrary: pos prev) (auto simp: is_digest_ascii)

text \<open>The three questions \<open>commit\<close> and \<open>verify\<close> ask of a longer, an equal and a shorter chain are one.\<close>

lemma continuity:
  assumes "backed P a" "linked P 0 EMPTY_HASH rs" "length rs = ah_count head" "end_hash EMPTY_HASH rs = ah_head_hash head"
    and "is_digest (ah_head_hash head)"
  shows "(if ah_count head < an_count a then fail m1 else
     rbind (if ah_count head = an_count a then compare_digest (ah_head_hash head) (an_head_hash a) else Inr True) (\<lambda>same.
     if \<not> same then fail m2 else
     if an_count a \<noteq> 0 \<and> ah_count head > an_count a
     then rbind (compare_digest (cr_record_hash (rs ! (an_count a - 1))) (an_head_hash a)) (\<lambda>c.
       if \<not> c then fail m3 else Inr ())
     else Inr ())) = (if continues a rs then Inr () else
       fail (if ah_count head < an_count a then m1 else if ah_count head = an_count a then m2 else m3))"
proof -
  note a = backed_anchor[OF assms(1)]
  have c: "is_ascii (an_head_hash a)" "is_ascii (ah_head_hash head)" using a assms(5) is_digest_ascii by blast+
  consider "ah_count head < an_count a" | "ah_count head = an_count a" | "an_count a = 0" "ah_count head > an_count a"
    | "0 < an_count a" "ah_count head > an_count a" by linarith
  then show ?thesis
  proof cases
    case 4
    then have "is_ascii (cr_record_hash (rs ! (an_count a - 1)))"
      using assms(3) by (intro linked_digests[OF assms(2)] nth_mem) linarith
    with 4 c assms(3) show ?thesis by (simp add: continues_def end_hash_take)
  qed (use a c assms(3,4) in \<open>auto simp: continues_def\<close>)
qed

lemma commit_locked_eq:
  assumes "backed P a" "verify_chain P records raw authority = Inr (head, rs)"
  shows "commit_locked head rs a = (if continues a rs then (Inr (committed (anchor_at head)), anchor_at head)
     else (fail (if ah_count head < an_count a
            then ''anchor already committed '' @ show_nat (an_count a) @ '' records; head claims '' @ show_nat (ah_count head)
            else if ah_count head = an_count a
            then ''anchor already committed a different chain at '' @ show_nat (an_count a) @ '' records''
            else ''chain does not extend the '' @ show_nat (an_count a) @ '' records already committed; record ''
                   @ show_nat (an_count a - 1) @ '' ends elsewhere''), a))"
proof -
  from assms(2) have v: "linked P 0 EMPTY_HASH rs" "length rs = ah_count head" "end_hash EMPTY_HASH rs = ah_head_hash head"
    "is_digest (ah_head_hash head)" by (auto simp: verify_chain_eq_Inr verify_head_eq_Inr)
  show ?thesis unfolding commit_locked_def continuity[OF assms(1) v] by simp
qed

lemma check_anchor_eq:
  assumes "backed P a" "verify_chain P records raw authority = Inr (head, rs)"
  shows "check_anchor a head rs = Inr u \<longleftrightarrow> continues a rs"
proof -
  from assms(2) have v: "linked P 0 EMPTY_HASH rs" "length rs = ah_count head" "end_hash EMPTY_HASH rs = ah_head_hash head"
    "is_digest (ah_head_hash head)" by (auto simp: verify_chain_eq_Inr verify_head_eq_Inr)
  show ?thesis unfolding check_anchor_def continuity[OF assms(1) v] by simp
qed

lemma commit_checks:
  "rbind (verify_head P raw authority) (\<lambda>head. rbind (bounded_chain records (ah_count head + 1)) (\<lambda>chain.
     verify_chain P (Yields chain None) raw authority)) = Inr p
   \<longleftrightarrow> verify_chain P records raw authority = Inr p"
  by (cases p) (auto simp: rbind_eq_Inr verify_chain_eq_Inr bounded_chain_again)

lemma commit_eq_Inr:
  assumes "backed P a"
  shows "commit P raw records authority a = (Inr x, a') \<longleftrightarrow>
     (\<exists>head rs. verify_chain P records raw authority = Inr (head, rs) \<and> continues a rs \<and> a' = anchor_at head \<and> x = committed a')"
  unfolding commit_def abind_eq_Inr alift_eq commit_checks
  by (auto simp: commit_locked_eq[OF assms] split: if_splits)

lemma locked_refused: "(case m of Inl e \<Rightarrow> (Inl e, a) | Inr u \<Rightarrow> (Inr c, b)) = (Inl e', a') \<Longrightarrow> a' = a"
  by (cases m) auto

lemma commit_refused:
  assumes "commit P raw records authority a = (Inl e, a')"
  shows "a' = a"
  using assms unfolding commit_def abind_eq_Inl alift_eq
  by (auto simp only: prod.case commit_locked_def split: prod.splits dest: locked_refused)

lemma verify_extension_eq_Inr:
  "verify_extension P records raw (PInt (int n)) (PStr h) authority = Inr (head, m) \<longleftrightarrow>
     (\<exists>rs. verify_head P raw authority = Inr head \<and> int n \<le> MAX_COUNT \<and> is_digest h \<and> n + length rs = ah_count head
      \<and> length rs \<le> MAX_DELTA_RECORDS \<and> bounded_chain records (length rs + 1) = Inr (map raw_item rs)
      \<and> linked P n h rs \<and> end_hash h rs = ah_head_hash head \<and> m = length rs)"
proof -
  have d: "is_ascii (ah_head_hash hh)" if "verify_head P raw authority = Inr hh" for hh
    using that is_digest_ascii by (auto simp: verify_head_eq_Inr)
  have e: "is_ascii (end_hash h rs)" if "linked P n h rs" "is_digest h" for rs
    using linked_end_digest[OF that] is_digest_ascii by simp
  show ?thesis (is "?l \<longleftrightarrow> ?r")
  proof
    assume ?l
    then show ?r
      unfolding verify_extension_def Let_def
      apply (simp only: rbind_eq_Inr if_raise_eq_Inr check_links_eq_Inr compare_digest_eq_Inr py_count_eq_Inr py_digest_eq_Inr)
      apply (elim exE conjE)
      subgoal for hd' n' h' c rs b by (rule exI[of _ rs]) auto
      done
  next
    assume ?r
    then obtain rs where r: "verify_head P raw authority = Inr head" "int n \<le> MAX_COUNT" "is_digest h"
      "n + length rs = ah_count head" "length rs \<le> MAX_DELTA_RECORDS" "bounded_chain records (length rs + 1) = Inr (map raw_item rs)"
      "linked P n h rs" "end_hash h rs = ah_head_hash head" "m = length rs" by blast
    have c: "check_links P n h (map raw_item rs) = Inr rs" using r(7) by (simp add: check_links_eq_Inr)
    have n: "py_count (PInt (int n)) ''from_count'' = Inr n" using r(2) by (simp add: py_count_eq_Inr)
    have h: "py_digest (PStr h) ''from_hash'' = Inr h" using r(3) by (simp add: py_digest_eq_Inr)
    have x: "ah_count head - n = length rs" "\<not> ah_count head < n" using r(4) by auto
    show ?l
      unfolding verify_extension_def Let_def r(1) rbind_Inr n h x r(6)
      using x r(5,8,9) c d[OF r(1)] e[OF r(7,3)] by simp
  qed
qed

lemma delta_finish_cases:
  assumes "delta_finish base head a = (r, a')"
  shows "a' = a \<or> (committed a = base \<and> a' = anchor_at head)"
  using assms by (auto simp: delta_finish_def split: if_splits sum.splits)

section \<open>Interleaved commits\<close>

text \<open>Any number of clients commit in full, or read a base and finish an extension later.\<close>

record anchor_world =
  aw_anchor :: anchor
  aw_bases :: "nat \<rightharpoonup> nat \<times> pystr"

inductive anchor_run :: "platform \<Rightarrow> anchor_world \<Rightarrow> anchor_world \<Rightarrow> bool" for P where
  full: "commit P raw records authority (aw_anchor w) = (r, a) \<Longrightarrow> anchor_run P w (w\<lparr>aw_anchor := a\<rparr>)"
| read_base: "anchor_run P w (w\<lparr>aw_bases := (aw_bases w)(t \<mapsto> committed (aw_anchor w))\<rparr>)"
| extend: "aw_bases w t = Some base \<Longrightarrow>
    verify_extension P records raw (PInt (int (fst base))) (PStr (snd base)) authority = Inr (head, n) \<Longrightarrow>
    delta_finish base head (aw_anchor w) = (r, a) \<Longrightarrow> anchor_run P w (w\<lparr>aw_anchor := a\<rparr>)"

inductive_cases anchor_runE: "anchor_run P w w'"

lemma backs_extend:
  assumes "backs P rs a" "verify_extension P records raw (PInt (int (an_count a))) (PStr (an_head_hash a)) authority = Inr (head, n)"
  shows "\<exists>ys. backs P (rs @ ys) (anchor_at head) \<and> length ys = n"
  using assms by (auto simp: verify_extension_eq_Inr backs_def linked_append end_hash_append anchor_at_def)

text \<open>A chain that holds the committed hash at the committed position can be grafted onto any chain the anchor
  stood for: what comes after that position links to the hash, not to the records before it.\<close>

lemma backs_graft:
  assumes "backs P rs a" "continues a zs" "backs P zs b"
  shows "backs P (rs @ drop (an_count a) zs) b"
proof -
  let ?n = "an_count a"
  have "linked P 0 EMPTY_HASH (take ?n zs @ drop ?n zs)" using assms(3) by (simp add: backs_def)
  then have "linked P ?n (an_head_hash a) (drop ?n zs)"
    using assms(2) unfolding linked_append by (auto simp: continues_def min.absorb2)
  moreover have "end_hash EMPTY_HASH (take ?n zs @ drop ?n zs) = an_head_hash b" using assms(3) by (simp add: backs_def)
  then have "end_hash (an_head_hash a) (drop ?n zs) = an_head_hash b"
    using assms(2) unfolding end_hash_append by (simp add: continues_def)
  ultimately show ?thesis using assms by (auto simp: backs_def linked_append end_hash_append continues_def)
qed

lemma anchor_run_extends:
  assumes "anchor_run P w w'" "backs P rs (aw_anchor w)"
  shows "\<exists>ys. backs P (rs @ ys) (aw_anchor w')"
proof -
  have stay: "\<exists>ys. backs P (rs @ ys) (aw_anchor w)" using assms(2) by (intro exI[of _ "[]"]) simp
  have bd: "backed P (aw_anchor w)" using assms(2) by (auto simp: backed_def)
  from assms(1) show ?thesis
  proof cases
    case (full raw records authority r a)
    show ?thesis
    proof (cases r)
      case (Inl e)
      with full have "a = aw_anchor w" using commit_refused by blast
      with full stay show ?thesis by simp
    next
      case (Inr x)
      with full commit_eq_Inr[OF bd] obtain head zs where
        z: "verify_chain P records raw authority = Inr (head, zs)" "continues (aw_anchor w) zs" "a = anchor_at head" by blast
      then have "backs P zs a" by (auto simp: verify_chain_eq_Inr backs_def anchor_at_def)
      from backs_graft[OF assms(2) z(2) this] full show ?thesis by auto
    qed
  next
    case (extend t base records raw authority head n r a)
    show ?thesis
    proof (cases "a = aw_anchor w")
      case False
      then have b: "committed (aw_anchor w) = base" "a = anchor_at head" using delta_finish_cases[OF extend(4)] by blast+
      then have x: "verify_extension P records raw (PInt (int (an_count (aw_anchor w)))) (PStr (an_head_hash (aw_anchor w))) authority = Inr (head, n)"
        using extend(3) by (auto simp: committed_def)
      from backs_extend[OF assms(2) x] b extend show ?thesis by auto
    qed (use extend stay in simp)
  qed (use stay in simp)
qed

lemma anchor_new_backed: "backed P anchor_new"
  unfolding backed_def by (rule exI[of _ "[]"]) (simp add: backs_def anchor_new_def)

lemma anchor_runs_extend:
  assumes "(anchor_run P)\<^sup>*\<^sup>* w w'" "backs P rs (aw_anchor w)"
  shows "\<exists>ys. backs P (rs @ ys) (aw_anchor w')"
  using assms(1)
proof (induction rule: rtranclp_induct)
  case base
  then show ?case using assms(2) by (intro exI[of _ "[]"]) simp
next
  case (step y z)
  from step.IH obtain ys where "backs P (rs @ ys) (aw_anchor y)" by blast
  from anchor_run_extends[OF step.hyps(2) this] show ?case by auto
qed

lemma anchor_runs_backed:
  assumes "(anchor_run P)\<^sup>*\<^sup>* w w'" "backed P (aw_anchor w)"
  shows "backed P (aw_anchor w') \<and> an_count (aw_anchor w) \<le> an_count (aw_anchor w')"
proof -
  obtain rs where rs: "backs P rs (aw_anchor w)" using assms(2) by (auto simp: backed_def)
  from anchor_runs_extend[OF assms(1) rs] obtain ys where "backs P (rs @ ys) (aw_anchor w')" by blast
  with rs show ?thesis by (auto simp: backed_def backs_def)
qed

section \<open>The hash chain determines its records\<close>

definition good_event :: "audit_event \<Rightarrow> bool" where
  "good_event e \<longleftrightarrow> valid_event e \<and> valid_actor (ev_actor e) \<and> event_text_ok e"

definition record_preimages :: "chain_record list \<Rightarrow> bytes set" where
  "record_preimages rs = {b. \<exists>r \<in> set rs. canonical (PDict [(lit ''event'', PDict (event_dict (cr_event r))),
     (lit ''index'', PInt (cr_index r)), (lit ''previous_hash'', PStr (cr_previous_hash r))]) = Inr b}"

lemma record_preimages_mono: "set xs \<subseteq> set ys \<Longrightarrow> record_preimages xs \<subseteq> record_preimages ys"
  by (auto simp: record_preimages_def)

lemma record_json_ok:
  assumes "good_event e" "is_digest p"
  shows "json_ok (PDict [(lit ''event'', PDict (event_dict e)), (lit ''index'', PInt i), (lit ''previous_hash'', PStr p)])"
proof -
  have "json_ok (PDict (event_dict e))" using event_json_ok(1) assms(1) by (simp add: good_event_def)
  with digest_text_ok[OF assms(2)] show ?thesis by simp
qed

lemma event_norm_inject:
  assumes "good_event e" "good_event e'" "json_norm (PDict (event_dict e)) = json_norm (PDict (event_dict e'))"
  shows "e = e'"
proof (rule event_dict_inject)
  fix k
  obtain d where d: "json_norm (PDict (event_dict e)) = PDict d" by simp
  then have d': "json_norm (PDict (event_dict e')) = PDict d" using assms(3) by simp
  have "map_option json_norm (map_of (event_dict e) k) = map_option json_norm (map_of (event_dict e') k)"
    using map_of_json_norm[OF d event_dict_distinct, of k] map_of_json_norm[OF d' event_dict_distinct, of k] by simp
  then show "map_of (event_dict e) k = map_of (event_dict e') k"
    using assms(1,2) by (simp only: event_dict_norm good_event_def)
qed (use assms in \<open>auto simp: good_event_def\<close>)

lemma record_hash_inject:
  assumes "record_hash P (cr_index r) (cr_event r) (cr_previous_hash r) = Inr h"
    and "record_hash P (cr_index s) (cr_event s) (cr_previous_hash s) = Inr h"
    and "good_event (cr_event r)" "good_event (cr_event s)" "is_digest (cr_previous_hash r)" "is_digest (cr_previous_hash s)"
    and "inj_on (sha256 P) (record_preimages [r, s])"
  shows "cr_index r = cr_index s \<and> cr_event r = cr_event s \<and> cr_previous_hash r = cr_previous_hash s"
proof -
  let ?d = "\<lambda>r. [(lit ''event'', PDict (event_dict (cr_event r))), (lit ''index'', PInt (cr_index r)), (lit ''previous_hash'', PStr (cr_previous_hash r))]"
  obtain b c where b: "canonical (PDict (?d r)) = Inr b" "canonical (PDict (?d s)) = Inr c" "sha256_hex P b = sha256_hex P c"
    using assms(1,2) unfolding record_hash_def rbind_eq_Inr by (metis sum.inject(2))
  have "b \<in> record_preimages [r, s]" "c \<in> record_preimages [r, s]"
    unfolding record_preimages_def using b(1,2) by simp_all
  then have "b = c" using inj_onD[OF assms(7), of b c] b(3) unfolding sha256_hex_inject by blast
  then have k: "map_option json_norm (map_of (?d r) k) = map_option json_norm (map_of (?d s) k)" for k
    using canonical_dict_inject[OF b(1) _ record_json_ok[OF assms(3,5)] record_json_ok[OF assms(4,6)]] b(2) by simp
  have "json_norm (PDict (event_dict (cr_event r))) = json_norm (PDict (event_dict (cr_event s)))"
    using k[of "lit ''event''"] by simp
  then have "cr_event r = cr_event s" by (rule event_norm_inject[OF assms(3,4)])
  moreover have "cr_index r = cr_index s" using k[of "lit ''index''"] by simp
  moreover have "cr_previous_hash r = cr_previous_hash s" using k[of "lit ''previous_hash''"] by simp
  ultimately show ?thesis by simp
qed

lemma linked_unique:
  assumes "linked P n b xs" "linked P n b ys" "length xs = length ys" "end_hash b xs = end_hash b ys"
    and "\<forall>r \<in> set xs \<union> set ys. good_event (cr_event r)" "inj_on (sha256 P) (record_preimages (xs @ ys))"
  shows "xs = ys"
  using assms
proof (induction xs arbitrary: ys rule: rev_induct)
  case (snoc x xs)
  then obtain y ys' where ys: "ys = ys' @ [y]" by (cases ys rule: rev_cases) auto
  have lx: "linked P n b xs" "cr_index x = int (n + length xs)" "cr_previous_hash x = end_hash b xs" "is_digest (cr_previous_hash x)"
    "record_hash P (cr_index x) (cr_event x) (cr_previous_hash x) = Inr (cr_record_hash x)"
    using snoc.prems(1) by (auto simp: linked_append)
  have ly: "linked P n b ys'" "cr_previous_hash y = end_hash b ys'" "is_digest (cr_previous_hash y)"
    "record_hash P (cr_index y) (cr_event y) (cr_previous_hash y) = Inr (cr_record_hash y)"
    using snoc.prems(2) ys by (auto simp: linked_append)
  have h: "cr_record_hash x = cr_record_hash y" using snoc.prems(4) ys by simp
  have i: "inj_on (sha256 P) (record_preimages [x, y])" "inj_on (sha256 P) (record_preimages (xs @ ys'))"
    by (rule inj_on_subset[OF snoc.prems(6)], rule record_preimages_mono, use ys in auto)+
  have e: "cr_index x = cr_index y \<and> cr_event x = cr_event y \<and> cr_previous_hash x = cr_previous_hash y"
    by (rule record_hash_inject[OF lx(5)[unfolded h] ly(4)]) (use snoc.prems(5) ys lx ly i in auto)
  then have "x = y" using h by simp
  moreover have "xs = ys'"
    by (rule snoc.IH) (use snoc.prems ys lx ly e i in auto)
  ultimately show ?case using ys by simp
qed simp

section \<open>Appending\<close>

lemma record_hash_total:
  assumes "valid_event e" "valid_actor (ev_actor e)" "\<bar>i\<bar> < 10 ^ 18"
  shows "\<exists>h. record_hash P i e p = Inr h"
proof -
  have "dumps (PDict (event_dict e)) \<noteq> None" using event_text_bound[OF assms(1,2)] by auto
  moreover have "dumps (PInt i) \<noteq> None" using int_text_bounded[OF assms(3)] by auto
  moreover have "dumps (PStr p) \<noteq> None" by simp
  ultimately have "\<forall>kv \<in> set [(lit ''event'', PDict (event_dict e)), (lit ''index'', PInt i), (lit ''previous_hash'', PStr p)]. dumps (snd kv) \<noteq> None"
    by (simp del: dumps.simps)
  then obtain b where "canonical (PDict [(lit ''event'', PDict (event_dict e)), (lit ''index'', PInt i), (lit ''previous_hash'', PStr p)]) = Inr b"
    using canonical_dict_defined by blast
  then show ?thesis by (simp add: record_hash_def)
qed

lemma record_hash_digest: "hash_ok P \<Longrightarrow> record_hash P i e p = Inr h \<Longrightarrow> is_digest h"
  by (auto simp: record_hash_def result_simps)

lemma chain_append_linked:
  assumes "hash_ok P" "chain_append P e rs = (r, rs')" "linked P 0 EMPTY_HASH rs"
  shows "linked P 0 EMPTY_HASH rs'"
  using assms record_hash_digest[OF assms(1)] linked_end_digest[OF assms(3)]
  by (auto simp: chain_append_def Let_def linked_append split: sum.splits)

lemma chain_append_total:
  assumes "valid_event e" "valid_actor (ev_actor e)" "length rs < 10 ^ 18"
  shows "\<exists>r. chain_append P e rs = (Inr r, rs @ [r]) \<and> cr_event r = e"
  using record_hash_total[OF assms(1,2), of "int (length rs)" P "end_hash EMPTY_HASH rs"] assms(3)
  by (auto simp: chain_append_def Let_def)

lemma head_body_defined: "int n \<le> MAX_COUNT \<Longrightarrow> \<exists>b. canonical (head_body n h) = Inr b"
  using int_text_bounded[of "int n"]
  unfolding head_body_def canonical_dict_defined by (auto simp: MAX_COUNT_def)

lemma audit_authority_verifies:
  assumes "audit_authority_init P key = Inr a" "ed25519_ok P"
  shows "audit_verifies P (aa_verifier a) m (audit_sign P a m)"
  using assms sign_verifies[OF assms(2)]
  by (auto simp: audit_authority_init_def audit_verifier_init_def audit_verifies_def audit_sign_def Let_def split: if_splits)

lemma sign_head_verifies:
  assumes "audit_authority_init P key = Inr a" "ed25519_ok P" "int n \<le> MAX_COUNT" "is_digest h"
  shows "\<exists>head. sign_head P (PInt (int n)) (PStr h) (ByAuthority a) = Inr head \<and> ah_count head = n \<and> ah_head_hash head = h
     \<and> verify_head P (Some (head_raw head)) (ByVerifier (aa_verifier a)) = Inr head"
proof -
  obtain b where b: "canonical (head_body n h) = Inr b" using head_body_defined[OF assms(3)] by blast
  have s: "is_signature (bytes_hex (audit_sign P a b))" unfolding audit_sign_def by (rule sign_hex_signature[OF assms(2)])
  let ?h = "\<lparr>ah_version = HEAD_VERSION, ah_count = n, ah_head_hash = h, ah_signature = bytes_hex (audit_sign P a b)\<rparr>"
  have "sign_head P (PInt (int n)) (PStr h) (ByAuthority a) = Inr ?h"
    using assms(3,4) b by (simp add: sign_head_def head_authority_def py_count_eq_Inr py_digest_eq_Inr rbind_eq_Inr)
  moreover have "verify_head P (Some (head_raw ?h)) (ByVerifier (aa_verifier a)) = Inr ?h"
    using assms(3,4) b s audit_authority_verifies[OF assms(1,2), of b]
    by (simp add: verify_head_eq_Inr head_verifier_def)
  ultimately show ?thesis by auto
qed

lemma snapshot_verifies:
  assumes "audit_authority_init P key = Inr a" "ed25519_ok P" "int (length rs) \<le> MAX_COUNT" "linked P 0 EMPTY_HASH rs"
  shows "\<exists>head. chain_snapshot P (ByAuthority a) rs = Inr (head, rs)
     \<and> verify_chain P (stored rs) (Some (head_raw head)) (ByVerifier (aa_verifier a)) = Inr (head, rs)"
proof -
  have "is_digest (end_hash EMPTY_HASH rs)" by (rule linked_end_digest[OF assms(4)]) simp
  from sign_head_verifies[OF assms(1-3) this] obtain head where
    "sign_head P (PInt (int (length rs))) (PStr (end_hash EMPTY_HASH rs)) (ByAuthority a) = Inr head" "ah_count head = length rs"
    "ah_head_hash head = end_hash EMPTY_HASH rs" "verify_head P (Some (head_raw head)) (ByVerifier (aa_verifier a)) = Inr head" by blast
  then show ?thesis using assms(4) by (simp add: chain_snapshot_def verify_chain_eq_Inr)
qed

section \<open>A sample chain\<close>

definition sample_audit :: audit_authority where
  "sample_audit = (let seed = hmac_sha256 sample_platform (replicate 32 2) audit_signing_label
     in \<lparr>aa_signing_key = seed, aa_verifier = \<lparr>av_public_key = ed25519_public sample_platform seed\<rparr>\<rparr>)"

lemma sample_audit_init: "audit_authority_init sample_platform (replicate 32 2) = Inr sample_audit"
  using sample_platform_ok(2)
  by (simp add: audit_authority_init_def sample_audit_def audit_verifier_init_def Let_def ed25519_ok_def)

definition sample_chain :: "chain_record list" where
  "sample_chain = snd (run_ops (chain_append sample_platform) [sample_event, sample_event] [])"

lemma sample_chain_linked: "linked sample_platform 0 EMPTY_HASH sample_chain"
  unfolding sample_chain_def
  by (rule run_ops_invariant[where I = "linked sample_platform 0 EMPTY_HASH"])
    (auto intro: chain_append_linked)

lemma sample_chain_two: "\<exists>r s. sample_chain = [r, s] \<and> cr_event r = sample_event \<and> cr_event s = sample_event"
proof -
  obtain r where r: "chain_append sample_platform sample_event [] = (Inr r, [] @ [r])" "cr_event r = sample_event"
    using chain_append_total[OF sample_event_ok(1,2), of "[]"] by auto
  moreover obtain s where "chain_append sample_platform sample_event [r] = (Inr s, [r] @ [s])" "cr_event s = sample_event"
    using chain_append_total[OF sample_event_ok(1,2), of "[r]"] by auto
  ultimately show ?thesis by (simp add: sample_chain_def)
qed

lemma sample_chain_length [simp]: "length sample_chain = 2"
proof -
  obtain r s where c: "sample_chain = [r, s]" using sample_chain_two by blast
  show ?thesis unfolding c by simp
qed

lemma sample_chain_good: "r \<in> set sample_chain \<Longrightarrow> good_event (cr_event r)"
proof -
  obtain x y where c: "sample_chain = [x, y]" "cr_event x = sample_event" "cr_event y = sample_event" using sample_chain_two by blast
  assume "r \<in> set sample_chain"
  then have "cr_event r = sample_event" unfolding c(1) using c(2,3) by auto
  then show ?thesis by (simp add: good_event_def)
qed

lemma sample_snapshot:
  "\<exists>head. chain_snapshot sample_platform (ByAuthority sample_audit) sample_chain = Inr (head, sample_chain)
     \<and> verify_chain sample_platform (stored sample_chain) (Some (head_raw head)) (ByVerifier (aa_verifier sample_audit)) = Inr (head, sample_chain)"
  by (rule snapshot_verifies[OF sample_audit_init])
    (use sample_chain_linked in \<open>auto simp: MAX_COUNT_def\<close>)

section \<open>Properties\<close>

text \<open>What the service appended, verifies: after any sequence of appends, failed ones included, the
  snapshot of the chain is signed, and \<open>verify\<close> with the public half accepts exactly the records it
  holds.\<close>

theorem appended_chain_verifies:
  assumes "hash_ok P" "ed25519_ok P" "audit_authority_init P key = Inr a"
    and "int (length (snd (run_ops (chain_append P) events []))) \<le> MAX_COUNT"
  shows "\<exists>head. chain_snapshot P (ByAuthority a) (snd (run_ops (chain_append P) events [])) = Inr (head, snd (run_ops (chain_append P) events []))
     \<and> verify P (stored (snd (run_ops (chain_append P) events []))) (Some (head_raw head)) (ByVerifier (aa_verifier a)) None
       = Inr (length (snd (run_ops (chain_append P) events [])))"
proof -
  have "linked P 0 EMPTY_HASH (snd (run_ops (chain_append P) events []))"
    by (rule run_ops_invariant[where I = "linked P 0 EMPTY_HASH"]) (auto intro: chain_append_linked[OF assms(1)])
  from snapshot_verifies[OF assms(3,2,4) this] show ?thesis by (auto simp: verify_def)
qed

theorem appended_chain_verifies_witness:
  "\<exists>head. chain_snapshot sample_platform (ByAuthority sample_audit) sample_chain = Inr (head, sample_chain)
     \<and> verify sample_platform (stored sample_chain) (Some (head_raw head)) (ByVerifier (aa_verifier sample_audit)) None = Inr 2"
proof -
  show ?thesis
    using appended_chain_verifies[OF sample_platform_ok sample_audit_init, of "[sample_event, sample_event]", folded sample_chain_def]
    by (auto simp: MAX_COUNT_def)
qed

text \<open>C34. Tampering shows: two stored chains that verify against heads with the same count and final hash
  hold the same records, as long as SHA-256 does not collide on the records of the two.\<close>

theorem chain_tamper_evident:
  assumes "verify_chain P records raw authority = Inr (head, rs)" "verify_chain P records' raw' authority' = Inr (head', rs')"
    and "ah_count head = ah_count head'" "ah_head_hash head = ah_head_hash head'"
    and "\<forall>r \<in> set rs \<union> set rs'. good_event (cr_event r)" "inj_on (sha256 P) (record_preimages (rs @ rs'))"
  shows "rs = rs'"
  by (rule linked_unique[OF _ _ _ _ assms(5,6)]) (use assms(1-4) in \<open>auto simp: verify_chain_eq_Inr\<close>)

lemma sample_preimages:
  "inj_on (sha256 P) (record_preimages (take 1 sample_chain @ take 1 sample_chain))"
proof -
  obtain r s where c: "sample_chain = [r, s]" using sample_chain_two by blast
  show ?thesis unfolding c by (auto simp: record_preimages_def inj_on_def)
qed

definition sample_short :: "chain_record list" where
  "sample_short = take 1 sample_chain"

lemma sample_short_snapshot:
  "\<exists>head. chain_snapshot sample_platform (ByAuthority sample_audit) sample_short = Inr (head, sample_short)
     \<and> verify_chain sample_platform (stored sample_short) (Some (head_raw head)) (ByVerifier (aa_verifier sample_audit)) = Inr (head, sample_short)"
proof (rule snapshot_verifies[OF sample_audit_init])
  have "linked sample_platform 0 EMPTY_HASH (take 1 sample_chain @ drop 1 sample_chain)" using sample_chain_linked by simp
  then show "linked sample_platform 0 EMPTY_HASH sample_short" unfolding linked_append sample_short_def by blast
  show "int (length sample_short) \<le> MAX_COUNT" by (simp add: sample_short_def MAX_COUNT_def)
qed simp

theorem chain_tamper_evident_witness:
  "\<exists>head. verify_chain sample_platform (stored sample_short) (Some (head_raw head)) (ByVerifier (aa_verifier sample_audit)) = Inr (head, sample_short)
     \<and> {rs. (\<forall>r \<in> set rs. good_event (cr_event r)) \<and> inj_on (sha256 sample_platform) (record_preimages (sample_short @ rs))
          \<and> (\<exists>records. verify_chain sample_platform records (Some (head_raw head)) (ByVerifier (aa_verifier sample_audit)) = Inr (head, rs))}
       = {sample_short}"
proof -
  obtain head where h: "verify_chain sample_platform (stored sample_short) (Some (head_raw head)) (ByVerifier (aa_verifier sample_audit)) = Inr (head, sample_short)"
    using sample_short_snapshot by blast
  have g: "\<forall>r \<in> set sample_short. good_event (cr_event r)"
    using sample_chain_good by (auto simp: sample_short_def dest: in_set_takeD)
  have "rs = sample_short" if "\<forall>r \<in> set rs. good_event (cr_event r)" "inj_on (sha256 sample_platform) (record_preimages (sample_short @ rs))"
    "verify_chain sample_platform records (Some (head_raw head)) (ByVerifier (aa_verifier sample_audit)) = Inr (head, rs)" for rs records
    using chain_tamper_evident[OF h that(3) refl refl _ that(2)] that(1) g by blast
  moreover have "inj_on (sha256 sample_platform) (record_preimages (sample_short @ sample_short))"
    unfolding sample_short_def by (rule sample_preimages)
  ultimately show ?thesis using h g by blast
qed

text \<open>C35. The anchor only moves forward along the chain it holds: under every interleaving of full commits and
  of extension commits by any number of clients, what the anchor holds is the end of a correctly linked chain
  of exactly the committed length, that length never decreases, and a later commitment descends from every
  earlier one: whatever chain the anchor stood for, the later one stands for that very chain with records
  appended. And a full commit it accepts shows, at the committed position, the committed hash, so a longer
  chain that comes from elsewhere is not accepted.\<close>

theorem anchor_invariant:
  assumes "(anchor_run P)\<^sup>*\<^sup>* \<lparr>aw_anchor = anchor_new, aw_bases = Map.empty\<rparr> w" "(anchor_run P)\<^sup>*\<^sup>* w w'"
  shows "backed P (aw_anchor w') \<and> an_count (aw_anchor w) \<le> an_count (aw_anchor w')
    \<and> (\<forall>rs. backs P rs (aw_anchor w) \<longrightarrow> (\<exists>ys. backs P (rs @ ys) (aw_anchor w')))
    \<and> (\<forall>raw records authority x a. commit P raw records authority (aw_anchor w') = (Inr x, a) \<longrightarrow>
         (\<exists>head rs. verify_chain P records raw authority = Inr (head, rs) \<and> backs P rs a
            \<and> an_count (aw_anchor w') \<le> length rs
            \<and> end_hash EMPTY_HASH (take (an_count (aw_anchor w')) rs) = an_head_hash (aw_anchor w')))"
proof -
  have b: "backed P (aw_anchor w)" using anchor_runs_backed[OF assms(1)] by (simp add: anchor_new_backed)
  note b' = anchor_runs_backed[OF assms(2) b]
  have "\<exists>head rs. verify_chain P records raw authority = Inr (head, rs) \<and> backs P rs a
      \<and> an_count (aw_anchor w') \<le> length rs \<and> end_hash EMPTY_HASH (take (an_count (aw_anchor w')) rs) = an_head_hash (aw_anchor w')"
    if "commit P raw records authority (aw_anchor w') = (Inr x, a)" for raw records authority x a
  proof -
    from b' have "backed P (aw_anchor w')" by blast
    from that[unfolded commit_eq_Inr[OF this]] obtain head rs where
      v: "verify_chain P records raw authority = Inr (head, rs)" "continues (aw_anchor w') rs" "a = anchor_at head" by blast
    then have "backs P rs a" by (auto simp: verify_chain_eq_Inr backs_def anchor_at_def)
    with v show ?thesis by (auto simp: continues_def)
  qed
  with b' anchor_runs_extend[OF assms(2)] show ?thesis by blast
qed

theorem anchor_invariant_witness:
  "\<exists>w. an_count (aw_anchor w) = 2 \<and> (anchor_run sample_platform)\<^sup>*\<^sup>* \<lparr>aw_anchor = anchor_new, aw_bases = Map.empty\<rparr> w
     \<and> backed sample_platform (aw_anchor w)"
proof -
  obtain head where h: "verify_chain sample_platform (stored sample_chain) (Some (head_raw head)) (ByVerifier (aa_verifier sample_audit)) = Inr (head, sample_chain)"
    using sample_snapshot by blast
  then have n: "ah_count head = 2" by (auto simp: verify_chain_eq_Inr)
  have "continues anchor_new sample_chain" by (simp add: continues_def anchor_new_def)
  with h have c: "commit sample_platform (Some (head_raw head)) (stored sample_chain) (ByVerifier (aa_verifier sample_audit)) anchor_new
      = (Inr (committed (anchor_at head)), anchor_at head)"
    unfolding commit_eq_Inr[OF anchor_new_backed] by blast
  let ?w0 = "\<lparr>aw_anchor = anchor_new, aw_bases = Map.empty\<rparr>"
  have "(anchor_run sample_platform)\<^sup>*\<^sup>* ?w0 (?w0\<lparr>aw_anchor := anchor_at head\<rparr>)"
    by (rule r_into_rtranclp, rule anchor_run.full) (use c in simp)
  with anchor_invariant[OF this rtranclp.rtrancl_refl] n show ?thesis
    by (intro exI[of _ "?w0\<lparr>aw_anchor := anchor_at head\<rparr>"]) (simp add: anchor_at_def)
qed

text \<open>C36. Committing the suffix is committing the chain: for an anchor that stands for the records \<open>rs\<close>,
  \<open>commit_delta\<close> with the records after them moves it exactly when \<open>commit\<close> with the whole chain would,
  to the same commitment, up to the bound on the length of one delta.\<close>

theorem delta_commit_equals_full:
  assumes "backs P rs a" "int (an_count a) \<le> MAX_COUNT"
  shows "commit_delta P raw (stored ys) authority a = (Inr x, a') \<longleftrightarrow>
     commit P raw (stored (rs @ ys)) authority a = (Inr x, a') \<and> length ys \<le> MAX_DELTA_RECORDS"
proof -
  have b: "backed P a" using assms(1) by (auto simp: backed_def)
  note a = backed_anchor[OF b]
  have len: "length rs = an_count a" and lk: "linked P 0 EMPTY_HASH rs" and eh: "end_hash EMPTY_HASH rs = an_head_hash a"
    using assms(1) by (auto simp: backs_def)
  have cont: "continues a (rs @ ys)" using len eh by (simp add: continues_def)
  have inj: "map raw_item zs = map raw_item us \<Longrightarrow> zs = us" for zs us
    by (erule map_injective) (auto simp: inj_def raw_item_def)
  have st: "bounded_chain (stored us) (length zs + 1) = Inr (map raw_item zs) \<longleftrightarrow> us = zs" for us zs
    by (auto simp: bounded_chain_def stored_def dest: inj split: if_splits)
      (metis inj length_map length_take lessI linorder_not_less min.absorb2 not_less_eq_eq order_refl take_map)
  have "commit_delta P raw (stored ys) authority a = (Inr x, a') \<longleftrightarrow>
      (\<exists>head n. verify_extension P (stored ys) raw (PInt (int (an_count a))) (PStr (an_head_hash a)) authority = Inr (head, n)
         \<and> a' = anchor_at head \<and> x = committed a')"
    by (auto simp: commit_delta_def abind_eq_Inr alift_eq delta_base_def delta_finish_def committed_def)
  also have "\<dots> \<longleftrightarrow> (\<exists>head. verify_head P raw authority = Inr head \<and> an_count a + length ys = ah_count head \<and> length ys \<le> MAX_DELTA_RECORDS
      \<and> linked P (an_count a) (an_head_hash a) ys \<and> end_hash (an_head_hash a) ys = ah_head_hash head \<and> a' = anchor_at head \<and> x = committed a')"
    unfolding verify_extension_eq_Inr st using a assms(2) by auto
  also have "\<dots> \<longleftrightarrow> (\<exists>head. verify_chain P (stored (rs @ ys)) raw authority = Inr (head, rs @ ys)
      \<and> a' = anchor_at head \<and> x = committed a') \<and> length ys \<le> MAX_DELTA_RECORDS"
  proof -
    have "verify_chain P (stored (rs @ ys)) raw authority = Inr (head, rs @ ys) \<longleftrightarrow> verify_head P raw authority = Inr head
        \<and> an_count a + length ys = ah_count head \<and> linked P (an_count a) (an_head_hash a) ys \<and> end_hash (an_head_hash a) ys = ah_head_hash head" for head
      unfolding verify_chain_eq_Inr using lk eh len st[of "rs @ ys" "rs @ ys"] by (auto simp: linked_append end_hash_append)
    then show ?thesis by blast
  qed
  also have "\<dots> \<longleftrightarrow> commit P raw (stored (rs @ ys)) authority a = (Inr x, a') \<and> length ys \<le> MAX_DELTA_RECORDS"
  proof -
    have "us = rs @ ys" if "verify_chain P (stored (rs @ ys)) raw authority = Inr (head, us)" for head us
    proof -
      from that have "bounded_chain (stored (rs @ ys)) (length us + 1) = Inr (map raw_item us)"
        unfolding verify_chain_eq_Inr by auto
      then show ?thesis unfolding st ..
    qed
    then show ?thesis unfolding commit_eq_Inr[OF b] using cont by blast
  qed
  finally show ?thesis .
qed

theorem delta_commit_equals_full_witness:
  "\<exists>head x a'. commit_delta sample_platform (Some (head_raw head)) (stored sample_chain) (ByVerifier (aa_verifier sample_audit)) anchor_new = (Inr x, a')
     \<and> fst x = 2"
proof -
  obtain head where h: "verify_chain sample_platform (stored sample_chain) (Some (head_raw head)) (ByVerifier (aa_verifier sample_audit)) = Inr (head, sample_chain)"
    using sample_snapshot by blast
  then have n: "ah_count head = 2" by (auto simp: verify_chain_eq_Inr)
  have "continues anchor_new sample_chain" by (simp add: continues_def anchor_new_def)
  with h have c: "commit sample_platform (Some (head_raw head)) (stored ([] @ sample_chain)) (ByVerifier (aa_verifier sample_audit)) anchor_new
      = (Inr (committed (anchor_at head)), anchor_at head)"
    unfolding commit_eq_Inr[OF anchor_new_backed] by auto
  have b: "backs sample_platform [] anchor_new" by (simp add: backs_def anchor_new_def)
  have "commit_delta sample_platform (Some (head_raw head)) (stored sample_chain) (ByVerifier (aa_verifier sample_audit)) anchor_new
      = (Inr (committed (anchor_at head)), anchor_at head)"
  proof (rule delta_commit_equals_full[OF b, THEN iffD2])
    show "int (an_count anchor_new) \<le> MAX_COUNT" by (simp add: anchor_new_def MAX_COUNT_def)
  qed (use c in \<open>simp add: MAX_DELTA_RECORDS_def\<close>)
  with n show ?thesis by (auto simp: committed_def anchor_at_def)
qed

text \<open>Truncation and rewriting show against an anchor: a chain that verifies against the anchor starts
  with the very records the anchor committed, as long as SHA-256 does not collide on the records of the
  two.\<close>

theorem anchored_prefix:
  assumes "verify P records raw authority (Some a) = Inr n" "backs P rs a"
    and "verify_chain P records raw authority = Inr (head, rs')"
    and "\<forall>r \<in> set rs \<union> set rs'. good_event (cr_event r)" "inj_on (sha256 P) (record_preimages (rs @ rs'))"
  shows "prefix rs rs' \<and> n = length rs'"
proof -
  have b: "backed P a" using assms(2) by (auto simp: backed_def)
  have c: "continues a rs'" "n = length rs'"
    using assms(1,3) check_anchor_eq[OF b assms(3)] by (auto simp: verify_def rbind_eq_Inr)
  have l: "linked P 0 EMPTY_HASH (take (an_count a) rs' @ drop (an_count a) rs')"
    using assms(3) by (simp add: verify_chain_eq_Inr)
  have "rs = take (an_count a) rs'"
  proof (rule linked_unique)
    show "linked P 0 EMPTY_HASH rs" "end_hash EMPTY_HASH rs = end_hash EMPTY_HASH (take (an_count a) rs')"
      "length rs = length (take (an_count a) rs')" using assms(2) c by (auto simp: backs_def continues_def)
    show "linked P 0 EMPTY_HASH (take (an_count a) rs')" using l unfolding linked_append by blast
    show "\<forall>r \<in> set rs \<union> set (take (an_count a) rs'). good_event (cr_event r)" using assms(4) by (auto dest: in_set_takeD)
    show "inj_on (sha256 P) (record_preimages (rs @ take (an_count a) rs'))"
      by (rule inj_on_subset[OF assms(5)], rule record_preimages_mono) (auto dest: in_set_takeD)
  qed
  then show ?thesis using c(2) by (metis take_is_prefix)
qed

theorem anchored_prefix_witness:
  "\<exists>head. verify sample_platform (stored sample_short) (Some (head_raw head)) (ByVerifier (aa_verifier sample_audit)) (Some (anchor_at head)) = Inr 1
     \<and> prefix sample_short sample_short"
proof -
  obtain head where h: "verify_chain sample_platform (stored sample_short) (Some (head_raw head)) (ByVerifier (aa_verifier sample_audit)) = Inr (head, sample_short)"
    using sample_short_snapshot by blast
  then have b: "backs sample_platform sample_short (anchor_at head)" by (auto simp: verify_chain_eq_Inr backs_def anchor_at_def)
  then have "continues (anchor_at head) sample_short" by (auto simp: backs_def continues_def)
  then have "check_anchor (anchor_at head) head sample_short = Inr ()"
    using b by (subst check_anchor_eq[OF _ h]) (auto simp: backed_def)
  then have v: "verify sample_platform (stored sample_short) (Some (head_raw head)) (ByVerifier (aa_verifier sample_audit)) (Some (anchor_at head)) = Inr (length sample_short)"
    by (simp add: verify_def h)
  have l: "length sample_short = 1" by (simp add: sample_short_def)
  have g: "\<forall>r \<in> set sample_short \<union> set sample_short. good_event (cr_event r)"
    using sample_chain_good by (auto simp: sample_short_def dest: in_set_takeD)
  from anchored_prefix[OF v b h g sample_preimages[of sample_platform, folded sample_short_def]] v l show ?thesis by auto
qed

end
