(* ===== verification/Workers.thy ===== *)
theory Workers
  imports Gateway "HOL-Library.Product_Lexorder"
begin

text \<open>
  \<open>geniusnew/workers.py\<close>: the boundary a worker sits behind. The work function is a parameter of the
  runner, because a \<open>Worker\<close> subclass may be any code; what one call of it does is a \<open>work_run\<close>: how it
  ended, how long it took, and what it left of the handoff's payload. \<open>time.monotonic()\<close> has a
  resolution of a nanosecond, so the elapsed time is an integer number of them. \<open>DeterministicSummarizer\<close>
  is modelled in full, \<open>TextDigest\<close> in its parts that need neither the Unicode tables of \<open>re\<close> nor
  floating point: language, keywords, numbers, reading time, and the bound on displayed labels.
\<close>

section \<open>Workers\<close>

datatype work_outcome =
    Returned pyval
  | BoundaryFailed string
  | IsolationViolation
  | ResourceExhausted
  | Raised string

record work_run =
  wr_outcome :: work_outcome
  wr_elapsed_ns :: int
  wr_payload :: pyval

record worker_runner =
  wk_tool :: pystr
  wk_authority :: worker_authority
  wk_work :: "pyval \<Rightarrow> work_run"

definition runner_init :: "pystr \<Rightarrow> (pyval \<Rightarrow> work_run) \<Rightarrow> worker_authority option \<Rightarrow> worker_runner result" where
  "runner_init tool work authority =
     (if tool = [] then fail ''worker must declare the tool it implements'' else
      case authority of
        None \<Rightarrow> fail ''authority must be a WorkerAuthority''
      | Some a \<Rightarrow> Inr \<lparr>wk_tool = tool, wk_authority = a, wk_work = work\<rparr>)"

section \<open>The runner\<close>

definition refuse :: "platform \<Rightarrow> worker_runner \<Rightarrow> handoff \<Rightarrow> string \<Rightarrow> int \<Rightarrow> bytes result" where
  "refuse P r h reason now = produce P PNone h FAILED (lit reason) (wk_authority r) now"

text \<open>The code a work function's exception is signed with; a boundary failure has none.\<close>

definition work_failure :: "work_outcome \<Rightarrow> string option" where
  "work_failure outcome =
     (case outcome of
        IsolationViolation \<Rightarrow> Some ''ISOLATION_VIOLATED''
      | ResourceExhausted \<Rightarrow> Some ''RESOURCE_EXHAUSTED''
      | Raised _ \<Rightarrow> Some ''WORKER_FAILED''
      | _ \<Rightarrow> None)"

text \<open>\<open>execute\<close> after the permit is consumed.\<close>

definition execute_admitted :: "platform \<Rightarrow> worker_runner \<Rightarrow> int \<Rightarrow> handoff \<Rightarrow> int \<Rightarrow> bytes result" where
  "execute_admitted P r admitted_at h now =
     (if now < admitted_at then fail ''dispatch predates gateway admission'' else
      if now \<ge> h_expires_at h then fail ''handoff expired before execution'' else
      if wk_tool r \<notin> set (h_tools h) then refuse P r h ''TOOL_NOT_GRANTED'' now else
      rbind (handoff_digest P h) (\<lambda>before.
      let run = wk_work r (h_payload h); h' = h\<lparr>h_payload := wr_payload run\<rparr> in
      case wr_outcome run of
        BoundaryFailed message \<Rightarrow> Inl (WorkerBoundaryError message)
      | outcome \<Rightarrow>
          if now * 10 ^ 9 + wr_elapsed_ns run \<ge> h_expires_at h * 10 ^ 9
          then fail ''handoff expired while the worker was running'' else
          case work_failure outcome of
            Some code \<Rightarrow> refuse P r h' code now
          | None \<Rightarrow>
              rbind (handoff_digest P h') (\<lambda>after.
              if after \<noteq> before then refuse P r h' ''PAYLOAD_MUTATED'' now else
              catch_contract
                (produce P (case outcome of Returned v \<Rightarrow> v | _ \<Rightarrow> PNone) h' SUCCEEDED (lit ''WORK_COMPLETED'') (wk_authority r) now)
                (\<lambda>_. refuse P r h' ''OUTPUT_REJECTED'' now))))"

definition execute :: "platform \<Rightarrow> worker_runner \<Rightarrow> dispatch_permit option \<Rightarrow> int \<Rightarrow> (permit_use list, bytes) action" where
  "execute P r permit now =
     abind (consume_handoff_from_permit P permit) (\<lambda>h.
     alift (execute_admitted P r (case permit of Some p \<Rightarrow> dp_admitted_at p | None \<Rightarrow> 0) h now))"

section \<open>The reference worker\<close>

text \<open>\<open>str.split()\<close>.\<close>

fun split_words :: "pystr \<Rightarrow> pystr \<Rightarrow> pystr list" where
  "split_words [] word = (if word = [] then [] else [rev word])"
| "split_words (c # cs) word =
     (if is_space c then (if word = [] then [] else [rev word]) @ split_words cs []
      else split_words cs (c # word))"

definition summarizer_run :: "platform \<Rightarrow> pyval \<Rightarrow> work_outcome" where
  "summarizer_run P pl =
     (case pl of
        PDict kvs \<Rightarrow>
          (case map_of kvs (lit ''text'') of
             None \<Rightarrow> Raised ''KeyError''
           | Some (PStr text) \<Rightarrow>
               (case utf8_encode text of
                  Inl _ \<Rightarrow> Raised ''UnicodeEncodeError''
                | Inr b \<Rightarrow>
                    Returned (PDict [(lit ''text'', PStr (nat_digits (length (split_words text [])) @ lit '' words; sha256:''
                      @ take 16 (sha256_hex P b)))]))
           | Some _ \<Rightarrow> Raised ''AttributeError'')
      | _ \<Rightarrow> Raised ''TypeError'')"

section \<open>Text digests\<close>

definition MAX_KEYWORDS :: nat where "MAX_KEYWORDS = 10"
definition MAX_KEYWORD_DISPLAY_BYTES :: nat where "MAX_KEYWORD_DISPLAY_BYTES = 80"
definition MAX_FIGURE_DISPLAY_BYTES :: nat where "MAX_FIGURE_DISPLAY_BYTES = 320"
definition WORDS_PER_MINUTE :: nat where "WORDS_PER_MINUTE = 200"

definition STOP_DE :: "pystr list" where
  "STOP_DE =
    [lit ''aber'', lit ''als'', lit ''am'', lit ''an'', lit ''auch'', lit ''auf'', lit ''aus'', lit ''bei'',
     lit ''bin'', lit ''bis'', lit ''bist'', lit ''da'', lit ''damit'', lit ''dann'', lit ''das'', lit ''dass'',
     lit ''dem'', lit ''den'', lit ''der'', lit ''des'', lit ''dich'', lit ''die'', lit ''dies'', lit ''dir'',
     lit ''doch'', lit ''dort'', lit ''du'', lit ''durch'', lit ''ein'', lit ''eine'', lit ''einem'',
     lit ''einen'', lit ''einer'', lit ''eines'', lit ''er'', lit ''es'', lit ''etwas'', [102, 252, 114],
     lit ''haben'', lit ''hat'', lit ''hatte'', lit ''hier'', lit ''ich'', lit ''ihr'', lit ''im'', lit ''in'',
     lit ''ins'', lit ''ist'', lit ''ja'', lit ''jede'', lit ''jeder'', lit ''kann'', lit ''kein'', lit ''keine'',
     lit ''man'', lit ''mehr'', lit ''mein'', lit ''mich'', lit ''mir'', lit ''mit'', lit ''muss'', lit ''nach'',
     lit ''nicht'', lit ''noch'', lit ''nun'', lit ''nur'', lit ''oder'', lit ''ohne'', lit ''schon'',
     lit ''sehr'', lit ''sein'', lit ''seine'', lit ''sich'', lit ''sie'', lit ''sind'', lit ''so'', lit ''soll'',
     lit ''und'', lit ''uns'', lit ''unter'', lit ''vom'', lit ''von'', lit ''vor'', lit ''war'', lit ''warum'',
     lit ''was'', lit ''weil'', lit ''wenn'', lit ''wer'', lit ''wie'', lit ''wieder'', lit ''wir'', lit ''wird'',
     lit ''wo'', lit ''zu'', lit ''zum'', lit ''zur'', [252, 98, 101, 114]]"

definition STOP_EN :: "pystr list" where
  "STOP_EN =
    [lit ''a'', lit ''about'', lit ''above'', lit ''after'', lit ''again'', lit ''all'', lit ''am'', lit ''an'',
     lit ''and'', lit ''any'', lit ''are'', lit ''as'', lit ''at'', lit ''be'', lit ''because'', lit ''been'',
     lit ''before'', lit ''being'', lit ''below'', lit ''between'', lit ''both'', lit ''but'', lit ''by'',
     lit ''could'', lit ''did'', lit ''do'', lit ''does'', lit ''down'', lit ''during'', lit ''each'', lit ''few'',
     lit ''for'', lit ''from'', lit ''further'', lit ''had'', lit ''has'', lit ''have'', lit ''having'',
     lit ''he'', lit ''her'', lit ''here'', lit ''hers'', lit ''herself'', lit ''him'', lit ''himself'',
     lit ''his'', lit ''how'', lit ''i'', lit ''if'', lit ''in'', lit ''into'', lit ''is'', lit ''it'',
     lit ''its'', lit ''itself'', lit ''let'', lit ''me'', lit ''more'', lit ''most'', lit ''my'', lit ''nor'',
     lit ''of'', lit ''on'', lit ''once'', lit ''only'', lit ''or'', lit ''other'', lit ''ought'', lit ''our'',
     lit ''ours'', lit ''out'', lit ''over'', lit ''own'', lit ''same'', lit ''she'', lit ''should'', lit ''so'',
     lit ''some'', lit ''such'', lit ''than'', lit ''that'', lit ''the'', lit ''their'', lit ''theirs'',
     lit ''them'', lit ''then'', lit ''there'', lit ''these'', lit ''they'', lit ''this'', lit ''those'',
     lit ''through'', lit ''to'', lit ''too'', lit ''under'', lit ''until'', lit ''up'', lit ''very'', lit ''was'',
     lit ''we'', lit ''were'', lit ''what'', lit ''when'', lit ''where'', lit ''which'', lit ''while'',
     lit ''who'', lit ''whom'', lit ''why'', lit ''with'', lit ''would'', lit ''you'', lit ''your'']"

definition digest_language :: "pystr list \<Rightarrow> string" where
  "digest_language lowered =
     (let de = length (filter (\<lambda>w. w \<in> set STOP_DE) lowered); en = length (filter (\<lambda>w. w \<in> set STOP_EN) lowered) in
      if de \<ge> 3 \<and> 2 * de \<ge> 3 * en then ''de'' else
      if en \<ge> 3 \<and> 2 * en \<ge> 3 * de then ''en'' else ''unknown'')"

definition band :: "int \<Rightarrow> 'a list \<Rightarrow> 'a" where
  "band score bands =
     (if score \<ge> 70 then bands ! 0 else if score \<ge> 50 then bands ! 1 else if score \<ge> 30 then bands ! 2 else bands ! 3)"

text \<open>\<open>Counter(content).items()\<close>, in the order of first appearance.\<close>

definition counter :: "pystr list \<Rightarrow> (pystr \<times> nat) list" where
  "counter xs = map (\<lambda>w. (w, count_list xs w)) (rev (remdups (rev xs)))"

definition content_words :: "pystr list \<Rightarrow> pystr list" where
  "content_words lowered = filter (\<lambda>w. length w \<ge> 4 \<and> w \<notin> set STOP_DE \<and> w \<notin> set STOP_EN) lowered"

definition keyword_key :: "pystr \<times> nat \<Rightarrow> int \<times> pystr" where
  "keyword_key item = (- int (snd item), fst item)"

definition top_keywords :: "pystr list \<Rightarrow> (pystr \<times> nat) list" where
  "top_keywords lowered = take MAX_KEYWORDS (sort_key keyword_key (counter (content_words lowered)))"

text \<open>\<open>s.rstrip()\<close>, and the marker a blank and U+2026.\<close>

definition rstrip :: "pystr \<Rightarrow> pystr" where
  "rstrip s = rev (dropWhile is_space (rev s))"

definition excerpt_marker :: pystr where "excerpt_marker = [32, 0x2026]"

text \<open>\<open>len(canonical(s)) - 2\<close>: the size of the escaped content.\<close>

definition content_size :: "pystr \<Rightarrow> nat" where
  "content_size s = length (json_string s) - 2"

fun excerpt_prefix :: "pystr \<Rightarrow> int \<Rightarrow> pystr" where
  "excerpt_prefix [] remaining = []"
| "excerpt_prefix (c # cs) remaining =
     (if int (content_size [c]) > remaining then [] else c # excerpt_prefix cs (remaining - int (content_size [c])))"

definition display_excerpt :: "pystr \<Rightarrow> nat \<Rightarrow> pystr" where
  "display_excerpt value byte_limit =
     (if content_size value \<le> byte_limit then value
      else rstrip (excerpt_prefix value (int byte_limit - int (content_size excerpt_marker))) @ excerpt_marker)"

text \<open>\<open>f"{value:,}"\<close> of a natural number, with the separator of the language.\<close>

fun group_digits :: "pystr \<Rightarrow> nat \<Rightarrow> pystr" where
  "group_digits (a # b # c # d # ds) sep = a # b # c # sep # group_digits (d # ds) sep"
| "group_digits ds sep = ds"

definition digest_number :: "nat \<Rightarrow> string \<Rightarrow> pystr" where
  "digest_number value language = rev (group_digits (rev (nat_digits value)) (if language \<noteq> ''en'' then 46 else 44))"

text \<open>Python's \<open>round\<close> of a quotient: to the nearest integer, a tie to the even one.\<close>

definition round_half_even :: "nat \<Rightarrow> nat \<Rightarrow> nat" where
  "round_half_even n d =
     (let q = n div d; r = n mod d in
      if 2 * r < d then q else if d < 2 * r then Suc q else if even q then q else Suc q)"

definition reading_time :: "nat \<Rightarrow> string \<Rightarrow> pystr" where
  "reading_time words language =
     (let seconds = round_half_even (words * 60) WORDS_PER_MINUTE; minutes = seconds div 60; rest = seconds mod 60;
          (minute_name, second_name) = (if language = ''en'' then ('' min '', '' s'') else ('' Min '', '' Sek'')) in
      (if minutes \<noteq> 0 then nat_digits minutes @ lit minute_name else []) @ nat_digits rest @ lit second_name)"

section \<open>What a run can end in\<close>

text \<open>The work function left the handoff as it was, as one behind a process boundary has to.\<close>

definition payload_kept :: "worker_runner \<Rightarrow> handoff \<Rightarrow> bool" where
  "payload_kept r h \<longleftrightarrow> wr_payload (wk_work r (h_payload h)) = h_payload h"

definition in_time :: "worker_runner \<Rightarrow> handoff \<Rightarrow> int \<Rightarrow> bool" where
  "in_time r h now \<longleftrightarrow> now * 10 ^ 9 + wr_elapsed_ns (wk_work r (h_payload h)) < h_expires_at h * 10 ^ 9"

lemma same_payload [simp]: "h\<lparr>h_payload := h_payload h\<rparr> = h"
  by (cases h) simp

text \<open>The three ways to a signed wire.\<close>

lemma execute_admitted_eq_Inr:
  assumes "execute_admitted P r admitted_at h now = Inr w" "payload_kept r h"
  obtains (refused) "admitted_at \<le> now" "now < h_expires_at h" "wk_tool r \<notin> set (h_tools h)" "refuse P r h ''TOOL_NOT_GRANTED'' now = Inr w"
  | (failed) code where "admitted_at \<le> now" "now < h_expires_at h" "wk_tool r \<in> set (h_tools h)" "in_time r h now"
      "work_failure (wr_outcome (wk_work r (h_payload h))) = Some code \<or> code = ''OUTPUT_REJECTED''" "refuse P r h code now = Inr w"
  | (completed) v where "admitted_at \<le> now" "now < h_expires_at h" "wk_tool r \<in> set (h_tools h)" "in_time r h now"
      "wr_outcome (wk_work r (h_payload h)) = Returned v"
      "produce P v h SUCCEEDED (lit ''WORK_COMPLETED'') (wk_authority r) now = Inr w"
proof -
  have t: "admitted_at \<le> now" "now < h_expires_at h" using assms(1) by (auto simp: execute_admitted_def split: if_splits)
  show thesis
  proof (cases "wk_tool r \<in> set (h_tools h)")
    case False
    with assms(1) t show thesis by (intro refused) (auto simp: execute_admitted_def)
  next
    case True
    let ?o = "wr_outcome (wk_work r (h_payload h))"
    have nb: "\<nexists>m. ?o = BoundaryFailed m"
      using assms(1) t True by (auto simp: execute_admitted_def Let_def rbind_eq_Inr)
    have it: "in_time r h now"
      using assms(1) t True nb by (cases ?o) (auto simp: execute_admitted_def in_time_def Let_def rbind_eq_Inr not_le split: if_splits)
    show thesis
    proof (cases "work_failure ?o")
      case (Some code)
      then have "refuse P r h code now = Inr w"
        using assms t True it nb by (cases ?o) (auto simp: execute_admitted_def in_time_def Let_def rbind_eq_Inr payload_kept_def work_failure_def)
      with Some t True it show thesis by (intro failed) auto
    next
      case None
      with nb obtain v where v: "?o = Returned v" by (cases ?o) (auto simp: work_failure_def)
      then have "catch_contract (produce P v h SUCCEEDED (lit ''WORK_COMPLETED'') (wk_authority r) now)
          (\<lambda>_. refuse P r h ''OUTPUT_REJECTED'' now) = Inr w"
        using assms t True it by (auto simp: execute_admitted_def in_time_def Let_def rbind_eq_Inr payload_kept_def work_failure_def)
      then show thesis
        unfolding catch_contract_eq_Inr using t True it v completed failed by blast
    qed
  qed
qed

lemma consume_eq_Inr:
  "consume_handoff_from_permit P (Some p) uses = (Inr h, uses') \<Longrightarrow> h = dp_handoff p"
  by (auto simp: consume_handoff_from_permit_def handoff_from_permit_def result_simps)

lemma execute_eq_Inr:
  "execute P r (Some p) now uses = (Inr w, uses') \<longleftrightarrow>
     consume_handoff_from_permit P (Some p) uses = (Inr (dp_handoff p), uses')
   \<and> execute_admitted P r (dp_admitted_at p) (dp_handoff p) now = Inr w"
  by (auto simp: execute_def abind_eq_Inr alift_eq dest: consume_eq_Inr)

lemma work_failure_codes: "work_failure x = Some code \<Longrightarrow> code \<in> {''ISOLATION_VIOLATED'', ''RESOURCE_EXHAUSTED'', ''WORKER_FAILED''}"
  by (cases x) (auto simp: work_failure_def)

section \<open>A permit runs one worker\<close>

definition run_work :: "platform \<Rightarrow> worker_runner \<times> dispatch_permit option \<times> int \<Rightarrow> (permit_use list, bytes) action" where
  "run_work P = (\<lambda>(r, permit, now). execute P r permit now)"

interpretation runners: single_use "run_work P" permit_spent "\<lambda>(r, permit, now). permit_key permit"
proof (unfold_locales, goal_cases)
  case (1 op s r s' k)
  obtain wr permit now where op: "op = (wr, permit, now)" by (cases op) auto
  obtain x u where c: "consume_handoff_from_permit P permit s = (x, u)" by force
  then have "permit_spent u k" using permits.spent_stays[OF c] 1(2) by blast
  moreover have "s' = u" using 1(1) c op by (cases x) (auto simp: run_work_def execute_def abind_apply alift_def)
  ultimately show ?case by simp
next
  case (2 op s x s' k)
  obtain wr permit now where op: "op = (wr, permit, now)" by (cases op) auto
  from 2(1) op obtain h where "consume_handoff_from_permit P permit s = (Inr h, s')"
    by (auto simp: run_work_def execute_def result_simps)
  from permits.spend_fresh[OF this] 2(2) op show ?case by simp
qed

section \<open>Displayed labels\<close>

lemma content_size_sum: "content_size s = (\<Sum>c\<leftarrow>s. length (esc_char c))"
  by (simp add: content_size_def json_string_def length_concat comp_def)

lemma content_size_simps [simp]: "content_size [] = 0" "content_size (c # s) = length (esc_char c) + content_size s"
  "content_size (s @ t) = content_size s + content_size t"
  by (simp_all add: content_size_sum)

lemma content_size_rstrip: "content_size (rstrip s) \<le> content_size s"
proof -
  have "content_size s = content_size (rev (dropWhile is_space (rev s))) + content_size (rev (takeWhile is_space (rev s)))"
    by (metis content_size_simps(3) rev_append rev_rev_ident takeWhile_dropWhile_id)
  then show ?thesis by (simp add: rstrip_def)
qed

lemma excerpt_prefix_size: "0 \<le> n \<Longrightarrow> int (content_size (excerpt_prefix s n)) \<le> n"
  by (induction s n rule: excerpt_prefix.induct) auto

lemma excerpt_prefix_prefix: "\<exists>t. s = excerpt_prefix s n @ t"
  by (induction s n rule: excerpt_prefix.induct) auto

lemma excerpt_marker_size: "content_size excerpt_marker = 7"
  by (simp add: excerpt_marker_def esc_char_def u_escape_def u_digits_def)

section \<open>Keywords\<close>

lemma counter_items: "set (counter xs) = {(w, n). w \<in> set xs \<and> n = count_list xs w}"
  by (auto simp: counter_def)

lemma counter_distinct: "distinct (map fst (counter xs))"
  by (simp add: counter_def comp_def)

lemma counter_distinct_items: "distinct (counter xs)"
  using counter_distinct distinct_map by blast

lemma keyword_key_inj: "inj keyword_key"
  by (auto simp: inj_def keyword_key_def)

lemma count_list_mset: "count_list xs x = count (mset xs) x"
  by (induction xs) auto

lemma counter_mset: "mset xs = mset ys \<Longrightarrow> mset (counter xs) = mset (counter ys)"
proof -
  assume a: "mset xs = mset ys"
  then have "set (counter xs) = set (counter ys)"
    using mset_eq_setD[OF a] by (simp add: counter_items count_list_mset)
  then show ?thesis using counter_distinct_items by (simp add: set_eq_iff_mset_eq_distinct)
qed

section \<open>A runner for the witnesses\<close>

definition sample_runner :: "(pyval \<Rightarrow> work_run) \<Rightarrow> worker_runner" where
  "sample_runner work = \<lparr>wk_tool = lit ''summarize'', wk_authority = sample_authority, wk_work = work\<rparr>"

definition sample_work :: "pyval \<Rightarrow> work_run" where
  "sample_work pl = \<lparr>wr_outcome = Returned sample_output, wr_elapsed_ns = 5, wr_payload = pl\<rparr>"

definition sample_permit :: dispatch_permit where
  "sample_permit = \<lparr>dp_handoff = sample_handoff, dp_handoff_sha256 = replicate 64 97, dp_gateway_id = lit ''gateway-1'',
     dp_admitted_at = 150, dp_approval_record_hash = None, dp_use = 0, dp_origin = True\<rparr>"

definition sample_uses :: "permit_use list" where
  "sample_uses = [\<lparr>pu_binding = (replicate 64 97, lit ''gateway-1'', 150, None), pu_used = False\<rparr>]"

lemma sample_handoff_same: "sample_handoff\<lparr>h_job_id := lit ''job-1''\<rparr> = sample_handoff"
  by (simp add: sample_handoff_def issued_handoff_def)

lemma sample_handoff_digest: "\<exists>dg. handoff_digest sample_platform sample_handoff = Inr dg"
  using sample_digest[of "lit ''job-1''"] unfolding sample_handoff_same .

lemma sample_tool [simp]: "lit ''summarize'' \<in> set (h_tools sample_handoff)"
  by (simp add: sample_handoff_def issued_handoff_def sample_grant_def)

lemma sample_consume:
  "consume_handoff_from_permit sample_platform (Some sample_permit) sample_uses = (Inr sample_handoff, sample_uses[0 := (sample_uses ! 0)\<lparr>pu_used := True\<rparr>])"
proof -
  obtain dg where "handoff_digest sample_platform sample_handoff = Inr dg" using sample_handoff_digest by blast
  then have "handoff_from_permit sample_platform (Some sample_permit) = Inr sample_handoff"
    by (simp add: handoff_from_permit_def sample_permit_def)
  then show ?thesis
    by (simp add: consume_handoff_from_permit_def abind_def alift_def areturn_def permit_use_consume_def sample_uses_def sample_permit_def)
qed

lemma sample_execute:
  "\<exists>w u. execute sample_platform (sample_runner sample_work) (Some sample_permit) 200 sample_uses = (Inr w, u)"
proof -
  obtain w where w: "produce sample_platform sample_output sample_handoff SUCCEEDED (lit ''WORK_COMPLETED'') sample_authority 200 = Inr w"
    using sample_produce[of "lit ''job-1''"] unfolding sample_handoff_same by auto
  obtain dg where "handoff_digest sample_platform sample_handoff = Inr dg" using sample_handoff_digest by blast
  with w have "execute_admitted sample_platform (sample_runner sample_work) 150 sample_handoff 200 = Inr w"
    by (simp add: execute_admitted_def sample_runner_def sample_work_def work_failure_def Let_def)
  with sample_consume show ?thesis
    by (intro exI) (subst execute_eq_Inr, simp add: sample_permit_def)
qed

lemma execute_accepted:
  assumes "execute P r (Some p) now uses = (Inr w, uses')" "payload_kept r (dp_handoff p)"
    and "worker_authority_init P key ik = Inr (wk_authority r)" "hash_ok P" "ed25519_ok P"
    and "is_ascii (h_job_id (dp_handoff p))" "is_ascii (h_worker_agent_id (dp_handoff p))"
    and "h_job_id (dp_handoff p) \<noteq> []" "h_worker_agent_id (dp_handoff p) \<noteq> []"
    and "\<And>v. wr_outcome (wk_work r (h_payload (dp_handoff p))) = Returned v \<Longrightarrow> json_ok v"
    and "now \<le> later" "later < h_expires_at (dp_handoff p)"
  shows "\<exists>res. accept P (PBytes w) (dp_handoff p) (VerifierArg (wa_verifier (wk_authority r))) later = Inr res
     \<and> (if r_status res = SUCCEEDED
        then wk_tool r \<in> set (h_tools (dp_handoff p)) \<and> in_time r (dp_handoff p) now
          \<and> (\<exists>v. wr_outcome (wk_work r (h_payload (dp_handoff p))) = Returned v \<and> payload v = Inr (the (r_output res)))
        else r_status res = FAILED \<and> r_output res = None
          \<and> r_reason_code res \<in> {lit ''TOOL_NOT_GRANTED'', lit ''ISOLATION_VIOLATED'', lit ''RESOURCE_EXHAUSTED'',
               lit ''WORKER_FAILED'', lit ''OUTPUT_REJECTED''})"
proof -
  let ?h = "dp_handoff p"
  have x: "execute_admitted P r (dp_admitted_at p) ?h now = Inr w" using assms(1) by (simp add: execute_eq_Inr)
  have failed: "\<exists>res. accept P (PBytes w) ?h (VerifierArg (wa_verifier (wk_authority r))) later = Inr res
      \<and> r_status res = FAILED \<and> r_output res = None \<and> r_reason_code res = lit code" if "refuse P r ?h code now = Inr w" for code
    using produced_accepted[OF that[unfolded refuse_def] assms(3-5) text_ok_ascii[OF assms(6)] text_ok_ascii[OF assms(7)] assms(8,9) _ assms(11,12)]
      assms(6,7) by (auto simp: signed_result_def output_facts_def SUCCEEDED_def FAILED_def)
  have nf: "FAILED \<noteq> SUCCEEDED" by (simp add: SUCCEEDED_def FAILED_def lit_def)
  from x assms(2) show ?thesis
  proof (cases rule: execute_admitted_eq_Inr)
    case refused
    from failed[OF refused(4)] nf show ?thesis by auto
  next
    case (failed code)
    then have "code \<in> {''ISOLATION_VIOLATED'', ''RESOURCE_EXHAUSTED'', ''WORKER_FAILED'', ''OUTPUT_REJECTED''}"
      using work_failure_codes by blast
    with \<open>refuse P r ?h code now = Inr w\<close>[THEN \<open>\<And>code. refuse P r ?h code now = Inr w \<Longrightarrow> _\<close>] nf show ?thesis by auto
  next
    case (completed v)
    from produced_accepted[OF completed(6) assms(3-5) text_ok_ascii[OF assms(6)] text_ok_ascii[OF assms(7)] assms(8,9) assms(10)[OF completed(5)] assms(11,12)]
    show ?thesis using completed assms(6,7) by auto
  qed
qed

section \<open>Properties\<close>

text \<open>C37. Every answer of the worker boundary is one the accepting instance takes: a wire that
  \<open>execute\<close> returned is accepted until the handoff expires; it reports success only when the tool was granted,
  the work function returned that output and it finished before the deadline, and every other ending
  is a signed failure with a code of the closed set and no output.\<close>

theorem execute_answer_accepted:
  assumes "execute P r (Some p) now uses = (Inr w, uses')" "payload_kept r (dp_handoff p)"
    and "worker_authority_init P key ik = Inr (wk_authority r)" "hash_ok P" "ed25519_ok P"
    and "is_ascii (h_job_id (dp_handoff p))" "is_ascii (h_worker_agent_id (dp_handoff p))"
    and "h_job_id (dp_handoff p) \<noteq> []" "h_worker_agent_id (dp_handoff p) \<noteq> []"
    and "\<And>v. wr_outcome (wk_work r (h_payload (dp_handoff p))) = Returned v \<Longrightarrow> json_ok v"
    and "now \<le> later" "later < h_expires_at (dp_handoff p)"
  shows "\<exists>res. accept P (PBytes w) (dp_handoff p) (VerifierArg (wa_verifier (wk_authority r))) later = Inr res
     \<and> (if r_status res = SUCCEEDED
        then wk_tool r \<in> set (h_tools (dp_handoff p)) \<and> in_time r (dp_handoff p) now
          \<and> (\<exists>v. wr_outcome (wk_work r (h_payload (dp_handoff p))) = Returned v \<and> payload v = Inr (the (r_output res)))
        else r_status res = FAILED \<and> r_output res = None
          \<and> r_reason_code res \<in> {lit ''TOOL_NOT_GRANTED'', lit ''ISOLATION_VIOLATED'', lit ''RESOURCE_EXHAUSTED'',
               lit ''WORKER_FAILED'', lit ''OUTPUT_REJECTED''})"
  by (rule execute_accepted[OF assms])

theorem execute_answer_accepted_witness:
  "\<exists>w u res. execute sample_platform (sample_runner sample_work) (Some sample_permit) 200 sample_uses = (Inr w, u)
     \<and> accept sample_platform (PBytes w) sample_handoff (VerifierArg (wa_verifier sample_authority)) 399 = Inr res"
proof -
  obtain w u where e: "execute sample_platform (sample_runner sample_work) (Some sample_permit) 200 sample_uses = (Inr w, u)"
    using sample_execute by blast
  have p: "dp_handoff sample_permit = sample_handoff" by (simp add: sample_permit_def)
  have k: "payload_kept (sample_runner sample_work) (dp_handoff sample_permit)"
    by (simp add: payload_kept_def sample_runner_def sample_work_def)
  have a: "worker_authority_init sample_platform (replicate 32 2) (Some (replicate 32 1)) = Inr (wk_authority (sample_runner sample_work))"
    using sample_authority_init by (simp add: sample_runner_def)
  from execute_answer_accepted[OF e k a sample_platform_ok, of 399, unfolded p]
  obtain res where "accept sample_platform (PBytes w) sample_handoff (VerifierArg (wa_verifier (wk_authority (sample_runner sample_work)))) 399 = Inr res"
    by (auto simp: sample_runner_def sample_work_def sample_output_def)
  with e show ?thesis by (auto simp: sample_runner_def)
qed

text \<open>A permit runs one worker once: whatever runners it is presented to, in whatever order and however
  each run ends, at most one of them returns an answer for it.\<close>

theorem permit_runs_once:
  "uses_of (run_work P) (\<lambda>(r, permit, now). permit_key permit) ref attempts uses \<le> 1"
  by (rule runners.at_most_once)

text \<open>A worker that changed the payload is never answered with a signed \<open>PAYLOAD_MUTATED\<close>: the second
  \<open>handoff_digest\<close> raises before the two digests are compared, so \<open>execute\<close> ends in a plain
  \<open>ContractError\<close> and the refusal branch for it is never reached.\<close>

theorem mutated_payload_unsigned:
  assumes "dp_admitted_at p \<le> now" "now < h_expires_at (dp_handoff p)" "wk_tool r \<in> set (h_tools (dp_handoff p))"
    and "in_time r (dp_handoff p) now" "handoff_digest P (dp_handoff p) = Inr before"
    and "wr_outcome (wk_work r (h_payload (dp_handoff p))) = Returned v"
    and "canonical (wr_payload (wk_work r (h_payload (dp_handoff p)))) = Inr pl"
    and "sha256_hex P pl \<noteq> h_payload_sha256 (dp_handoff p)"
  shows "execute_admitted P r (dp_admitted_at p) (dp_handoff p) now
     = fail ''handoff payload no longer matches the digest it was signed with''"
proof -
  have "is_ascii (h_payload_sha256 (dp_handoff p))"
    using assms(5) by (auto simp: handoff_digest_eq_Inr)
  then have "handoff_digest P (dp_handoff p\<lparr>h_payload := wr_payload (wk_work r (h_payload (dp_handoff p)))\<rparr>)
      = fail ''handoff payload no longer matches the digest it was signed with''"
    using assms(7,8) by (simp add: handoff_digest_def)
  then show ?thesis
    using assms(1-6) by (simp add: execute_admitted_def in_time_def work_failure_def Let_def)
qed

definition sample_mutation :: "pyval \<Rightarrow> work_run" where
  "sample_mutation pl = \<lparr>wr_outcome = Returned sample_output, wr_elapsed_ns = 5, wr_payload = PStr (replicate 40 65)\<rparr>"

theorem mutated_payload_unsigned_witness:
  "execute_admitted sample_platform (sample_runner sample_mutation) 150 sample_handoff 200
     = fail ''handoff payload no longer matches the digest it was signed with''"
proof -
  obtain dg where d: "handoff_digest sample_platform sample_handoff = Inr dg" using sample_handoff_digest by blast
  have pl: "h_payload sample_handoff = PDict [(lit ''text'', PStr (lit ''hello''))]"
    by (simp add: sample_handoff_def issued_handoff_def)
  obtain b where b: "canonical (PDict [(lit ''text'', PStr (lit ''hello''))]) = Inr b" "h_payload_sha256 sample_handoff = sha256_hex sample_platform b"
    using d pl by (auto simp: handoff_digest_eq_Inr)
  have "hd b \<noteq> 34" using b(1) by (auto simp: canonical_eq_Inr ascii_bytes_def)
  moreover have "b \<noteq> []" using b(1) by (auto simp: canonical_eq_Inr ascii_bytes_def)
  ultimately have ne: "sha256_hex sample_platform (ascii_bytes (json_string (replicate 40 65))) \<noteq> sha256_hex sample_platform b"
    by (cases b) (auto simp: sha256_hex_inject sample_platform_def json_string_def ascii_bytes_def)
  have "canonical (PStr (replicate 40 65)) = Inr (ascii_bytes (json_string (replicate 40 65)))" by (simp add: canonical_def)
  then have "execute_admitted sample_platform (sample_runner sample_mutation) (dp_admitted_at sample_permit) (dp_handoff sample_permit) 200
      = fail ''handoff payload no longer matches the digest it was signed with''"
    using d ne b(2)
    by (intro mutated_payload_unsigned[where v = sample_output and pl = "ascii_bytes (json_string (replicate 40 65))" and before = dg])
      (simp_all add: sample_permit_def sample_runner_def sample_mutation_def in_time_def)
  then show ?thesis by (simp add: sample_permit_def)
qed

text \<open>A displayed label stays in its budget: the excerpt of any text, measured in the bytes its JSON
  form takes, is at most the limit, whatever the text contains, for every limit that has room for the
  marker.\<close>

theorem display_excerpt_bounded:
  assumes "7 \<le> byte_limit"
  shows "content_size (display_excerpt value byte_limit) \<le> byte_limit"
proof (cases "content_size value \<le> byte_limit")
  case False
  let ?p = "excerpt_prefix value (int byte_limit - 7)"
  have "int (content_size ?p) \<le> int byte_limit - 7" by (rule excerpt_prefix_size) (use assms in simp)
  with content_size_rstrip[of ?p] assms have "content_size (rstrip ?p) + 7 \<le> byte_limit" by linarith
  with False show ?thesis by (simp add: display_excerpt_def excerpt_marker_size del: content_size_simps(2))
qed (simp add: display_excerpt_def)

theorem display_excerpt_bounded_witness:
  "content_size (display_excerpt (replicate 100 0x1F600) MAX_KEYWORD_DISPLAY_BYTES) \<le> 80"
  using display_excerpt_bounded[of MAX_KEYWORD_DISPLAY_BYTES "replicate 100 0x1F600"] by (simp add: MAX_KEYWORD_DISPLAY_BYTES_def)

text \<open>The keywords of a text depend on which words it has and not on their order; each is a content
  word with its number of occurrences, none twice, and no content word left out ranks before one that
  was kept.\<close>

theorem keywords_ranked:
  "(mset words = mset words' \<longrightarrow> top_keywords words = top_keywords words')
   \<and> (\<forall>(w, n) \<in> set (top_keywords words). w \<in> set (content_words words) \<and> n = count_list (content_words words) w)
   \<and> distinct (map fst (top_keywords words))
   \<and> (\<forall>x \<in> set (top_keywords words). \<forall>w \<in> set (content_words words). w \<notin> fst ` set (top_keywords words)
      \<longrightarrow> keyword_key x \<le> keyword_key (w, count_list (content_words words) w))"
proof (intro conjI)
  let ?s = "\<lambda>ws. sort_key keyword_key (counter (content_words ws))"
  have set_s: "set (?s words) = {(w, n). w \<in> set (content_words words) \<and> n = count_list (content_words words) w}"
    by (simp add: counter_items)
  show "mset words = mset words' \<longrightarrow> top_keywords words = top_keywords words'"
  proof
    assume "mset words = mset words'"
    then have "mset (content_words words) = mset (content_words words')" by (simp add: content_words_def mset_filter)
    from counter_mset[OF this] have "?s words = ?s words'"
      by (intro sort_key_inj_key_eq) (auto intro: inj_on_subset[OF keyword_key_inj])
    then show "top_keywords words = top_keywords words'" by (simp add: top_keywords_def)
  qed
  show "\<forall>(w, n) \<in> set (top_keywords words). w \<in> set (content_words words) \<and> n = count_list (content_words words) w"
    using set_s by (auto simp: top_keywords_def dest: in_set_takeD)
  have d: "distinct (map fst (?s words))"
    using counter_distinct by (metis mset_map mset_sort mset_eq_imp_distinct_iff)
  then show "distinct (map fst (top_keywords words))" by (simp add: top_keywords_def take_map[symmetric] distinct_take)
  show "\<forall>x \<in> set (top_keywords words). \<forall>w \<in> set (content_words words). w \<notin> fst ` set (top_keywords words)
      \<longrightarrow> keyword_key x \<le> keyword_key (w, count_list (content_words words) w)"
  proof (intro ballI impI)
    fix x w assume x: "x \<in> set (top_keywords words)" and w: "w \<in> set (content_words words)" "w \<notin> fst ` set (top_keywords words)"
    have "(w, count_list (content_words words) w) \<in> set (take MAX_KEYWORDS (?s words) @ drop MAX_KEYWORDS (?s words))"
      using set_s w(1) by simp
    then have "(w, count_list (content_words words) w) \<in> set (drop MAX_KEYWORDS (?s words))"
      using w(2) unfolding set_append top_keywords_def by (metis UnE fst_conv imageI)
    moreover have "sorted (map keyword_key (take MAX_KEYWORDS (?s words) @ drop MAX_KEYWORDS (?s words)))" by simp
    ultimately show "keyword_key x \<le> keyword_key (w, count_list (content_words words) w)"
      using x unfolding map_append sorted_append top_keywords_def by auto
  qed
qed


theorem keywords_ranked_witness:
  "top_keywords [lit ''hello'', lit ''world'', lit ''hello''] = top_keywords [lit ''world'', lit ''hello'', lit ''hello'']
   \<and> distinct (map fst (top_keywords [lit ''hello'', lit ''world'', lit ''hello'']))"
proof -
  have "mset [lit ''hello'', lit ''world'', lit ''hello''] = mset [lit ''world'', lit ''hello'', lit ''hello'']" by simp
  then show ?thesis
    using keywords_ranked[of "[lit ''hello'', lit ''world'', lit ''hello'']" "[lit ''world'', lit ''hello'', lit ''hello'']"] by blast
qed

end
