(* ===== verification/Orchestrator.thy ===== *)
theory Orchestrator
  imports Workers
begin

text \<open>
  \<open>geniusnew/orchestrator.py\<close>: admission, routing and dispatch. The state it works on is an \<open>orch_world\<close>:
  the gateway's world, the ledger of burned job ids, and whatever the callbacks write (the audit log in
  the wired service). The ledger is a record of operations, because a process-local and a database
  ledger implement the same abstract class \<open>JobLedger\<close>; the locale \<open>burning_ledger\<close> is what the
  orchestrator relies on, and the process-local ledger of the module interprets it. The argument
  \<open>transaction\<close> is present or absent, a Boolean.
\<close>

section \<open>Decisions\<close>

definition ORCH_ACTIONS :: "string list" where
  "ORCH_ACTIONS = [''HANDOFF_ISSUED'', ''HANDOFF_REJECTED'', ''EXECUTION_DISPATCHED'']"

definition DENIALS :: "(string \<times> string) list" where
  "DENIALS =
     [(''POLICY_NOT_FOR_THIS_ORCHESTRATOR'', ''policy orchestrator_id does not name this orchestrator''),
      (''SUBJECT_NOT_AUTHORIZED'', ''subject is not authorized by the trusted policy''),
      (''WORKER_NOT_CONFIGURED'', ''trusted policy names an unconfigured worker''),
      (''TOOL_NOT_GRANTED'', ''configured worker tool is not granted by policy''),
      (''JOB_ID_REUSED'', ''job_id has already been dispatched''),
      (''JOB_LEDGER_FULL'', ''job ledger is full'')]"

definition MAX_JOB_ID_BYTES :: nat where "MAX_JOB_ID_BYTES = 128"
definition MAX_JOBS :: nat where "MAX_JOBS = 100000"
definition ORCH_MAX_OCCURRED_AT :: int where "ORCH_MAX_OCCURRED_AT = 4102444800"

definition decision_init :: "string \<Rightarrow> string \<Rightarrow> string \<Rightarrow> int \<Rightarrow> decision result" where
  "decision_init action verdict reason occurred_at =
     (if action \<notin> set ORCH_ACTIONS then fail ''action is not an orchestrator action'' else
      if verdict \<notin> {''ALLOWED'', ''DENIED''} then fail ''decision must be ALLOWED or DENIED'' else
      rbind (if verdict = ''DENIED''
             then if action \<noteq> ''HANDOFF_REJECTED'' then fail ''a denial must be recorded as HANDOFF_REJECTED'' else
                  if reason \<notin> set (map fst DENIALS) then fail ''a denial must carry a denial reason code'' else Inr ()
             else if action = ''HANDOFF_REJECTED'' then fail ''a rejection cannot be recorded as ALLOWED'' else
                  if reason \<noteq> ''POLICY_SATISFIED'' then fail ''an allowed decision must carry POLICY_SATISFIED'' else Inr ()) (\<lambda>_.
      if \<not> (1 \<le> occurred_at \<and> occurred_at \<le> ORCH_MAX_OCCURRED_AT)
      then fail ''occurred_at is outside the range the audit contract accepts'' else
      Inr \<lparr>d_action = action, d_decision = verdict, d_reason_code = reason, d_occurred_at = occurred_at\<rparr>))"

definition denied_init :: "decision \<Rightarrow> exc" where
  "denied_init d =
     (case map_of DENIALS (d_reason_code d) of
        Some sentence \<Rightarrow> Denied (sentence @ '' ('' @ d_reason_code d @ '')'') d
      | None \<Rightarrow> PyError ''KeyError'')"

definition deny :: "string \<Rightarrow> int \<Rightarrow> 'a result" where
  "deny reason now = rbind (decision_init ''HANDOFF_REJECTED'' ''DENIED'' reason now) (\<lambda>d. Inl (denied_init d))"

section \<open>Ledgers\<close>

record reservation =
  rs_job_id :: pystr
  rs_subject :: pystr
  rs_handoff_sha256 :: pystr
  rs_expires_at :: int
  rs_reserved_at :: int

definition reservation_init :: "pystr \<Rightarrow> pystr \<Rightarrow> pystr \<Rightarrow> int \<Rightarrow> int \<Rightarrow> reservation result" where
  "reservation_init job_id subject handoff_sha256 expires_at reserved_at =
     (if job_id = [] then fail ''reservation job_id must be a non-empty string'' else
      if subject = [] then fail ''reservation subject must be a non-empty string'' else
      if utf8_size job_id > MAX_JOB_ID_BYTES then fail ''reservation job_id must be at most 128 bytes'' else
      if \<not> is_digest handoff_sha256 then fail ''reservation handoff_sha256 must be a lowercase SHA-256 digest'' else
      if \<not> (1 \<le> expires_at \<and> expires_at \<le> ORCH_MAX_OCCURRED_AT)
      then fail ''reservation expires_at is outside the range the audit contract accepts'' else
      if \<not> (1 \<le> reserved_at \<and> reserved_at \<le> ORCH_MAX_OCCURRED_AT)
      then fail ''reservation reserved_at is outside the range the audit contract accepts'' else
      if expires_at \<le> reserved_at then fail ''reservation must be made before its handoff expires'' else
      Inr \<lparr>rs_job_id = job_id, rs_subject = subject, rs_handoff_sha256 = handoff_sha256,
           rs_expires_at = expires_at, rs_reserved_at = reserved_at\<rparr>)"

record 'l job_ledger =
  jl_is_burned :: "pystr \<Rightarrow> 'l \<Rightarrow> bool"
  jl_dispatch_available :: "pystr \<Rightarrow> pystr \<Rightarrow> pystr option \<Rightarrow> 'l \<Rightarrow> bool"
  jl_is_full :: "'l \<Rightarrow> bool"
  jl_reserve_admitted :: "reservation \<Rightarrow> pystr option \<Rightarrow> bool \<Rightarrow> ('l, bool) action"
  jl_commit_execution :: "reservation \<Rightarrow> int \<Rightarrow> bool \<Rightarrow> ('l, unit) action"

datatype job_state = RESERVED | EXECUTION_COMMITTED

text \<open>The process-local ledger: a dict of job states.\<close>

type_synonym local_jobs = "(pystr \<times> job_state) list"

definition local_is_burned :: "pystr \<Rightarrow> local_jobs \<Rightarrow> bool" where
  "local_is_burned job_id jobs \<longleftrightarrow> job_id \<in> fst ` set jobs"

definition local_is_full :: "local_jobs \<Rightarrow> bool" where
  "local_is_full jobs \<longleftrightarrow> length jobs \<ge> MAX_JOBS"

definition local_reserve :: "reservation \<Rightarrow> bool \<Rightarrow> (local_jobs, bool) action" where
  "local_reserve r transaction jobs =
     (if transaction then (fail ''process-local job ledger cannot join a database transaction'', jobs) else
      if local_is_burned (rs_job_id r) jobs then (Inr False, jobs) else
      if length jobs \<ge> MAX_JOBS then (Inr False, jobs) else
      (Inr True, jobs @ [(rs_job_id r, RESERVED)]))"

definition local_commit_execution :: "reservation \<Rightarrow> int \<Rightarrow> bool \<Rightarrow> (local_jobs, unit) action" where
  "local_commit_execution r now transaction jobs =
     (if transaction then (fail ''process-local job ledger cannot join a database transaction'', jobs) else
      if map_of jobs (rs_job_id r) \<noteq> Some RESERVED then (fail ''only a reserved job can be committed to execution'', jobs) else
      (Inr (), map (\<lambda>(j, s). (j, if j = rs_job_id r then EXECUTION_COMMITTED else s)) jobs))"

definition local_ledger :: "local_jobs job_ledger" where
  "local_ledger =
     \<lparr>jl_is_burned = local_is_burned,
      jl_dispatch_available = (\<lambda>job_id subject sha jobs. \<not> local_is_burned job_id jobs),
      jl_is_full = local_is_full,
      jl_reserve_admitted = (\<lambda>r record_hash transaction. local_reserve r transaction),
      jl_commit_execution = local_commit_execution\<rparr>"

section \<open>The orchestrator\<close>

record worker_endpoint =
  we_worker_agent_id :: pystr
  we_runner :: worker_runner

definition endpoint_init :: "pystr \<Rightarrow> worker_runner \<Rightarrow> worker_endpoint result" where
  "endpoint_init worker_agent_id runner =
     (if \<not> is_instance_id worker_agent_id
      then fail ''worker_agent_id must be a lowercase identifier of at most 63 characters''
      else Inr \<lparr>we_worker_agent_id = worker_agent_id, we_runner = runner\<rparr>)"

record admission =
  am_wire :: bytes
  am_decision :: decision

record job_dispatch =
  ds_job_id :: pystr
  ds_worker_agent_id :: pystr
  ds_handoff_sha256 :: pystr
  ds_handoff_wire :: bytes
  ds_result_wire :: bytes
  ds_decisions :: "decision list"
  ds_approval_record_hash :: "pystr option"

record ('s, 'l, 'h) orch_world =
  ow_gateway :: "'s gateway_world"
  ow_ledger :: 'l
  ow_log :: 'h

text \<open>The callbacks of the constructor. The atomic pair gets the step to run as an argument and decides
  what survives of it.\<close>

record ('s, 'l, 'h) orch_hooks =
  oh_on_admitted :: "(dispatch_permit \<Rightarrow> pystr \<Rightarrow> ('h, unit) action) option"
  oh_on_dispatched :: "(dispatch_permit \<Rightarrow> pystr \<Rightarrow> decision \<Rightarrow> ('h, unit) action) option"
  oh_atomic_admitted ::
    "((('s, 'l, 'h) orch_world, dispatch_permit \<times> reservation) action \<Rightarrow> pystr
        \<Rightarrow> (('s, 'l, 'h) orch_world, dispatch_permit \<times> reservation) action) option"
  oh_atomic_dispatched ::
    "((('s, 'l, 'h) orch_world, unit) action \<Rightarrow> dispatch_permit \<Rightarrow> pystr \<Rightarrow> decision
        \<Rightarrow> (('s, 'l, 'h) orch_world, unit) action) option"

record ('s, 'l, 'h) orchestrator =
  or_id :: pystr
  or_signer :: handoff_signer
  or_gateway :: gateway
  or_consume :: "bool \<Rightarrow> 's approval_consumer"
  or_workers :: "(pystr \<times> worker_endpoint) list"
  or_ledger :: "'l job_ledger"
  or_hooks :: "('s, 'l, 'h) orch_hooks"

definition orchestrator_init ::
  "pystr \<Rightarrow> handoff_signer option \<Rightarrow> gateway option \<Rightarrow> (bool \<Rightarrow> 's approval_consumer) \<Rightarrow> worker_endpoint list
     \<Rightarrow> 'l job_ledger \<Rightarrow> ('s, 'l, 'h) orch_hooks \<Rightarrow> ('s, 'l, 'h) orchestrator result" where
  "orchestrator_init orchestrator_id signer gateway consume workers ledger hooks =
     (if \<not> is_instance_id orchestrator_id then fail ''orchestrator_id must be a lowercase identifier of at most 63 characters'' else
      case signer of None \<Rightarrow> fail ''signer must be a HandoffSigner'' | Some s \<Rightarrow>
      case gateway of None \<Rightarrow> fail ''gateway must be a Gateway'' | Some g \<Rightarrow>
      if (oh_atomic_admitted hooks = None) \<noteq> (oh_atomic_dispatched hooks = None)
      then fail ''atomic dispatch auditing must configure both boundaries'' else
      if workers = [] then fail ''workers must not be empty'' else
      if \<not> distinct (map we_worker_agent_id workers) then fail ''worker_agent_id values must be unique'' else
      Inr \<lparr>or_id = orchestrator_id, or_signer = s, or_gateway = g, or_consume = consume,
           or_workers = map (\<lambda>e. (we_worker_agent_id e, e)) workers, or_ledger = ledger, or_hooks = hooks\<rparr>)"

definition check_now :: "int \<Rightarrow> int result" where
  "check_now now =
     (if \<not> (1 \<le> now \<and> now \<le> ORCH_MAX_OCCURRED_AT) then fail ''now is outside the range the audit contract accepts'' else Inr now)"

definition trusted :: "('s, 'l, 'h) orchestrator \<Rightarrow> policy \<Rightarrow> int \<Rightarrow> policy result" where
  "trusted oc policy now =
     (if p_orchestrator_id policy \<noteq> or_id oc then deny ''POLICY_NOT_FOR_THIS_ORCHESTRATOR'' now else Inr policy)"

definition check_job_id :: "pystr \<Rightarrow> pystr result" where
  "check_job_id job_id =
     (if job_id = [] then fail ''job_id must be a non-empty string'' else
      if utf8_size job_id > MAX_JOB_ID_BYTES then fail ''job_id must be at most 128 bytes'' else Inr job_id)"

definition route :: "('s, 'l, 'h) orchestrator \<Rightarrow> pystr \<Rightarrow> policy \<Rightarrow> int \<Rightarrow> worker_endpoint result" where
  "route oc subject policy now =
     rbind (check_now now) (\<lambda>_.
     rbind (trusted oc policy now) (\<lambda>pol.
     rbind (catch_contract (grant_for pol subject) (\<lambda>_. deny ''SUBJECT_NOT_AUTHORIZED'' now)) (\<lambda>grant.
     case map_of (or_workers oc) (g_worker_agent_id grant) of
       None \<Rightarrow> deny ''WORKER_NOT_CONFIGURED'' now
     | Some endpoint \<Rightarrow>
         if wk_tool (we_runner endpoint) \<notin> set (g_tools grant) then deny ''TOOL_NOT_GRANTED'' now else Inr endpoint)))"

definition orch_admit :: "platform \<Rightarrow> ('s, 'l, 'h) orchestrator \<Rightarrow> pyval \<Rightarrow> pystr \<Rightarrow> pystr \<Rightarrow> policy \<Rightarrow> int \<Rightarrow> admission result" where
  "orch_admit P oc request subject job_id policy now =
     rbind (check_now now) (\<lambda>_.
     rbind (trusted oc policy now) (\<lambda>pol.
     rbind (check_job_id job_id) (\<lambda>_.
     rbind (issue P request subject job_id pol (or_signer oc) now) (\<lambda>wire.
     rbind (decision_init ''HANDOFF_ISSUED'' ''ALLOWED'' ''POLICY_SATISFIED'' now) (\<lambda>d.
     Inr \<lparr>am_wire = wire, am_decision = d\<rparr>)))))"

definition available :: "'l job_ledger \<Rightarrow> pystr \<Rightarrow> int \<Rightarrow> pystr \<Rightarrow> pystr option \<Rightarrow> ('l, unit) action" where
  "available L job_id now subject handoff_sha256 ledger =
     (if \<not> jl_dispatch_available L job_id subject handoff_sha256 ledger then (deny ''JOB_ID_REUSED'' now, ledger) else
      if jl_is_full L ledger then (deny ''JOB_LEDGER_FULL'' now, ledger) else (Inr (), ledger))"

definition reserve :: "'l job_ledger \<Rightarrow> reservation \<Rightarrow> int \<Rightarrow> pystr option \<Rightarrow> bool \<Rightarrow> ('l, unit) action" where
  "reserve L r now record_hash transaction ledger =
     (if jl_is_full L ledger
      then (if jl_is_burned L (rs_job_id r) ledger then deny ''JOB_ID_REUSED'' now else deny ''JOB_LEDGER_FULL'' now, ledger)
      else
        abind (jl_reserve_admitted L r record_hash transaction) (\<lambda>reserved ledger.
          if reserved then (Inr (), ledger)
          else (if jl_is_full L ledger \<and> \<not> jl_is_burned L (rs_job_id r) ledger
                then deny ''JOB_LEDGER_FULL'' now else deny ''JOB_ID_REUSED'' now, ledger)) ledger)"

text \<open>Run a step on one part of the world.\<close>

abbreviation on_gateway :: "('s gateway_world, 'a) action \<Rightarrow> (('s, 'l, 'h) orch_world, 'a) action" where
  "on_gateway \<equiv> azoom ow_gateway (\<lambda>g w. w\<lparr>ow_gateway := g\<rparr>)"

abbreviation on_ledger :: "('l, 'a) action \<Rightarrow> (('s, 'l, 'h) orch_world, 'a) action" where
  "on_ledger \<equiv> azoom ow_ledger (\<lambda>l w. w\<lparr>ow_ledger := l\<rparr>)"

abbreviation on_log :: "('h, 'a) action \<Rightarrow> (('s, 'l, 'h) orch_world, 'a) action" where
  "on_log \<equiv> azoom ow_log (\<lambda>h w. w\<lparr>ow_log := h\<rparr>)"

abbreviation on_uses :: "(permit_use list, 'a) action \<Rightarrow> ('s gateway_world, 'a) action" where
  "on_uses \<equiv> azoom gw_uses (\<lambda>u w. w\<lparr>gw_uses := u\<rparr>)"

definition admit_and_reserve ::
  "platform \<Rightarrow> ('s, 'l, 'h) orchestrator \<Rightarrow> pyval \<Rightarrow> pystr \<Rightarrow> pystr \<Rightarrow> policy \<Rightarrow> int \<Rightarrow> bytes option \<Rightarrow> bool \<Rightarrow> bool
     \<Rightarrow> (('s, 'l, 'h) orch_world, dispatch_permit \<times> reservation) action" where
  "admit_and_reserve P oc wire subject job_id policy now approval_token transaction record_admission =
     abind (on_gateway (admit P (or_consume oc transaction) (or_gateway oc) wire subject job_id policy now approval_token)) (\<lambda>permit.
     abind (alift (handoff_to_bytes (dp_handoff permit))) (\<lambda>b.
     abind (alift (case wire of
              PBytes w \<Rightarrow> if b \<noteq> w then fail ''gateway admitted a different handoff than the one submitted'' else Inr ()
            | _ \<Rightarrow> Inl (PyError ''TypeError''))) (\<lambda>_.
     abind (case oh_on_admitted (or_hooks oc) of
              Some callback \<Rightarrow> if record_admission then on_log (callback permit subject) else areturn ()
            | None \<Rightarrow> areturn ()) (\<lambda>_.
     abind (alift (rbind (handoff_digest P (dp_handoff permit)) (\<lambda>digest.
              reservation_init job_id subject digest (h_expires_at (dp_handoff permit)) now))) (\<lambda>r.
     abind (on_ledger (reserve (or_ledger oc) r now (dp_approval_record_hash permit) transaction)) (\<lambda>_.
     areturn (permit, r)))))))"

definition run_endpoint :: "platform \<Rightarrow> worker_endpoint \<Rightarrow> dispatch_permit \<Rightarrow> int \<Rightarrow> (permit_use list, bytes) action" where
  "run_endpoint P endpoint permit now =
     abind (acatch (execute P (we_runner endpoint) (Some permit) now)
              (\<lambda>e. araise (if is_contract_error e then e else ContractError ''dispatch failed''))) (\<lambda>wire.
     if wire = [] then araise (ContractError ''dispatch must return the signed result wire'') else areturn wire)"

text \<open>From the decision to dispatch to the end of the run.\<close>

definition run_dispatch ::
  "platform \<Rightarrow> ('s, 'l, 'h) orchestrator \<Rightarrow> worker_endpoint \<Rightarrow> dispatch_permit \<Rightarrow> reservation \<Rightarrow> pystr \<Rightarrow> int
     \<Rightarrow> (('s, 'l, 'h) orch_world, decision \<times> bytes) action" where
  "run_dispatch P oc endpoint permit r subject now =
     abind (alift (decision_init ''EXECUTION_DISPATCHED'' ''ALLOWED'' ''POLICY_SATISFIED'' now)) (\<lambda>decided.
     abind (case oh_atomic_dispatched (or_hooks oc) of
              Some atomic \<Rightarrow> atomic (on_ledger (jl_commit_execution (or_ledger oc) r now True)) permit subject decided
            | None \<Rightarrow>
                abind (on_ledger (jl_commit_execution (or_ledger oc) r now False)) (\<lambda>_.
                case oh_on_dispatched (or_hooks oc) of
                  Some callback \<Rightarrow> on_log (callback permit subject decided)
                | None \<Rightarrow> areturn ())) (\<lambda>_.
     abind (acatch (on_gateway (on_uses (run_endpoint P endpoint permit now)))
              (\<lambda>e. araise (if is_contract_error e then DispatchAttempted (exc_message e) decided else e))) (\<lambda>wire.
     areturn (decided, wire))))"

definition dispatch ::
  "platform \<Rightarrow> ('s, 'l, 'h) orchestrator \<Rightarrow> pyval \<Rightarrow> pystr \<Rightarrow> pystr \<Rightarrow> policy \<Rightarrow> int \<Rightarrow> bytes option
     \<Rightarrow> (('s, 'l, 'h) orch_world, job_dispatch) action" where
  "dispatch P oc wire subject job_id policy now approval_token =
     abind (alift (check_job_id job_id)) (\<lambda>_.
     abind (alift (route oc subject policy now)) (\<lambda>endpoint.
     abind (on_ledger (available (or_ledger oc) job_id now subject
              (case wire of PBytes w \<Rightarrow> Some (sha256_hex P w) | _ \<Rightarrow> None))) (\<lambda>_.
     abind (case oh_atomic_admitted (or_hooks oc) of
              Some atomic \<Rightarrow> atomic (admit_and_reserve P oc wire subject job_id policy now approval_token True False) subject
            | None \<Rightarrow> admit_and_reserve P oc wire subject job_id policy now approval_token False True) (\<lambda>(permit, r).
     abind (run_dispatch P oc endpoint permit r subject now) (\<lambda>(decided, result_wire).
     abind (alift (handoff_to_bytes (dp_handoff permit))) (\<lambda>handoff_wire.
     areturn \<lparr>ds_job_id = job_id, ds_worker_agent_id = we_worker_agent_id endpoint,
       ds_handoff_sha256 = rs_handoff_sha256 r, ds_handoff_wire = handoff_wire, ds_result_wire = result_wire,
       ds_decisions = [decided], ds_approval_record_hash = dp_approval_record_hash permit\<rparr>))))))"

definition submit ::
  "platform \<Rightarrow> ('s, 'l, 'h) orchestrator \<Rightarrow> pyval \<Rightarrow> pystr \<Rightarrow> pystr \<Rightarrow> policy \<Rightarrow> int \<Rightarrow> bytes option
     \<Rightarrow> (('s, 'l, 'h) orch_world, job_dispatch) action" where
  "submit P oc request subject job_id policy now approval_token =
     abind (alift (route oc subject policy now)) (\<lambda>_.
     abind (alift (orch_admit P oc request subject job_id policy now)) (\<lambda>am.
     abind (dispatch P oc (PBytes (am_wire am)) subject job_id policy now approval_token) (\<lambda>d.
     areturn (d\<lparr>ds_decisions := am_decision am # ds_decisions d\<rparr>))))"

section \<open>Decisions can be recorded\<close>

lemma decision_init_eq_Inr:
  "decision_init action verdict reason at = Inr d \<longleftrightarrow>
     d = \<lparr>d_action = action, d_decision = verdict, d_reason_code = reason, d_occurred_at = at\<rparr>
   \<and> action \<in> set ORCH_ACTIONS \<and> 1 \<le> at \<and> at \<le> ORCH_MAX_OCCURRED_AT
   \<and> (verdict = ''DENIED'' \<and> action = ''HANDOFF_REJECTED'' \<and> reason \<in> set (map fst DENIALS)
      \<or> verdict = ''ALLOWED'' \<and> action \<noteq> ''HANDOFF_REJECTED'' \<and> reason = ''POLICY_SATISFIED'')"
  by (auto simp: decision_init_def rbind_eq_Inr)

definition denial :: "string \<Rightarrow> int \<Rightarrow> decision" where
  "denial reason now = \<lparr>d_action = ''HANDOFF_REJECTED'', d_decision = ''DENIED'', d_reason_code = reason, d_occurred_at = now\<rparr>"

definition denied_as :: "string \<Rightarrow> int \<Rightarrow> exc" where
  "denied_as reason now = Denied (the (map_of DENIALS reason) @ '' ('' @ reason @ '')'') (denial reason now)"

lemma deny_in_range:
  assumes "1 \<le> now" "now \<le> ORCH_MAX_OCCURRED_AT" "reason \<in> set (map fst DENIALS)"
  shows "deny reason now = Inl (denied_as reason now)"
proof -
  have "decision_init ''HANDOFF_REJECTED'' ''DENIED'' reason now = Inr (denial reason now)"
    using assms by (auto simp: decision_init_eq_Inr denial_def ORCH_ACTIONS_def)
  moreover obtain s where "map_of DENIALS reason = Some s"
    using assms(3) by (metis list.set_map map_of_eq_None_iff not_None_eq)
  ultimately show ?thesis by (simp add: deny_def denied_init_def denied_as_def denial_def)
qed

lemma deny_not_Inr [simp]: "deny reason now \<noteq> Inr x" "Inr x \<noteq> deny reason now"
  by (auto simp: deny_def rbind_def split: sum.splits)

lemma denial_codes: "reason \<in> set (map fst DENIALS) \<Longrightarrow> is_reason_code (lit reason)"
  by (auto simp: DENIALS_def is_reason_code_def lit_def is_upper_def is_digit_def)

section \<open>What each step establishes\<close>

lemma check_now_eq_Inr: "check_now now = Inr n \<longleftrightarrow> n = now \<and> 1 \<le> now \<and> now \<le> ORCH_MAX_OCCURRED_AT"
  by (auto simp: check_now_def)

lemma check_job_id_eq_Inr: "check_job_id j = Inr x \<longleftrightarrow> x = j \<and> j \<noteq> [] \<and> utf8_size j \<le> MAX_JOB_ID_BYTES"
  by (auto simp: check_job_id_def)

lemma trusted_eq_Inr: "trusted oc policy now = Inr p \<longleftrightarrow> p = policy \<and> p_orchestrator_id policy = or_id oc"
  by (auto simp: trusted_def)

lemma catch_deny_eq_Inr: "catch_contract m (\<lambda>_. deny reason now) = Inr x \<longleftrightarrow> m = Inr x"
  by (auto simp: catch_contract_eq_Inr)

lemma route_eq_Inr:
  "route oc subject policy now = Inr ep \<longleftrightarrow>
     1 \<le> now \<and> now \<le> ORCH_MAX_OCCURRED_AT \<and> p_orchestrator_id policy = or_id oc
   \<and> (\<exists>g. grant_for policy subject = Inr g \<and> map_of (or_workers oc) (g_worker_agent_id g) = Some ep
        \<and> wk_tool (we_runner ep) \<in> set (g_tools g))"
  unfolding route_def rbind_eq_Inr check_now_eq_Inr trusted_eq_Inr catch_deny_eq_Inr
  by (auto split: option.splits if_splits)

lemma available_eq_Inr:
  "available L j now s d l = (Inr u, l') \<longleftrightarrow> l' = l \<and> jl_dispatch_available L j s d l \<and> \<not> jl_is_full L l"
  by (auto simp: available_def)

lemma available_same: "available L j now s d l = (r, l') \<Longrightarrow> l' = l"
  by (auto simp: available_def split: if_splits)

lemma reserve_eq_Inr:
  "reserve L r now rh tx l = (Inr u, l') \<longleftrightarrow> \<not> jl_is_full L l \<and> jl_reserve_admitted L r rh tx l = (Inr True, l')"
  by (auto simp: reserve_def abind_eq_Inr split: if_splits)

lemma reservation_init_eq_Inr:
  "reservation_init j s d ex at = Inr r \<Longrightarrow> r = \<lparr>rs_job_id = j, rs_subject = s, rs_handoff_sha256 = d, rs_expires_at = ex, rs_reserved_at = at\<rparr>"
  by (auto simp: reservation_init_def split: if_splits)

lemma run_endpoint_eq_Inr:
  "run_endpoint P ep p now u = (Inr w, u') \<longleftrightarrow> execute P (we_runner ep) (Some p) now u = (Inr w, u') \<and> w \<noteq> []"
  by (auto simp: run_endpoint_def result_simps)

definition plain_hooks :: "('s, 'l, 'h) orchestrator \<Rightarrow> bool" where
  "plain_hooks oc \<longleftrightarrow> oh_atomic_admitted (or_hooks oc) = None \<and> oh_atomic_dispatched (or_hooks oc) = None"

lemma plain_hook_cases:
  "(case f of Some c \<Rightarrow> azoom ow_log (\<lambda>h w. w\<lparr>ow_log := h\<rparr>) (k c) | None \<Rightarrow> areturn ()) w = (r, w')
     \<Longrightarrow> ow_gateway w' = ow_gateway w \<and> ow_ledger w' = ow_ledger w"
  by (cases f) (auto simp: result_simps)

lemma plain_hook_cases2:
  "(case f of Some c \<Rightarrow> if b then azoom ow_log (\<lambda>h w. w\<lparr>ow_log := h\<rparr>) (k c) else areturn () | None \<Rightarrow> areturn ()) w = (r, w')
     \<Longrightarrow> ow_gateway w' = ow_gateway w \<and> ow_ledger w' = ow_ledger w"
  by (cases f; cases b) (auto simp: result_simps)

lemma admit_and_reserve_eq_Inr:
  assumes "admit_and_reserve P oc wire subject j policy now token tx rec w = (Inr (p, r), w')"
  obtains b g dg where "admit P (or_consume oc tx) (or_gateway oc) wire subject j policy now token (ow_gateway w) = (Inr p, g)"
    "wire = PBytes b" "handoff_to_bytes (dp_handoff p) = Inr b" "handoff_digest P (dp_handoff p) = Inr dg"
    "r = \<lparr>rs_job_id = j, rs_subject = subject, rs_handoff_sha256 = dg, rs_expires_at = h_expires_at (dp_handoff p), rs_reserved_at = now\<rparr>"
    "reserve (or_ledger oc) r now (dp_approval_record_hash p) tx (ow_ledger w) = (Inr (), ow_ledger w')" "ow_gateway w' = g"
proof -
  from assms show thesis
    unfolding admit_and_reserve_def
    apply (simp only: abind_eq_Inr azoom_eq alift_eq areturn_eq prod.inject sum.inject)
    apply (elim exE conjE)
    apply (drule plain_hook_cases2)
    apply (cases wire; simp add: rbind_eq_Inr split: if_splits)
    apply (rule that)
    apply (auto dest: reservation_init_eq_Inr)
    done
qed

lemma run_dispatch_eq_Inr:
  assumes "run_dispatch P oc ep p r subject now w = (Inr (d, x), w')" "plain_hooks oc"
  obtains l u where "d = \<lparr>d_action = ''EXECUTION_DISPATCHED'', d_decision = ''ALLOWED'', d_reason_code = ''POLICY_SATISFIED'', d_occurred_at = now\<rparr>"
    "jl_commit_execution (or_ledger oc) r now False (ow_ledger w) = (Inr (), l)" "ow_ledger w' = l"
    "execute P (we_runner ep) (Some p) now (gw_uses (ow_gateway w)) = (Inr x, u)" "x \<noteq> []"
    "ow_gateway w' = (ow_gateway w)\<lparr>gw_uses := u\<rparr>"
proof -
  from assms(2) have h: "oh_atomic_dispatched (or_hooks oc) = None" by (simp add: plain_hooks_def)
  from assms(1) show thesis
    unfolding run_dispatch_def h option.case
    apply (simp only: abind_eq_Inr alift_eq decision_init_eq_Inr azoom_eq areturn_eq prod.inject sum.inject acatch_eq araise_eq run_endpoint_eq_Inr sum.distinct simp_thms ex_simps)
    apply (elim exE conjE)
    apply (drule plain_hook_cases)
    apply (rule that)
    apply auto
    done
qed

lemma dispatch_eq_Inr:
  assumes "dispatch P oc wire subject j policy now token w = (Inr d, w')" "plain_hooks oc"
  obtains ep b p dg l1 g u where "check_job_id j = Inr j" "route oc subject policy now = Inr ep" "wire = PBytes b"
    "jl_dispatch_available (or_ledger oc) j subject (Some (sha256_hex P b)) (ow_ledger w)"
    "admit P (or_consume oc False) (or_gateway oc) wire subject j policy now token (ow_gateway w) = (Inr p, g)"
    "handoff_to_bytes (dp_handoff p) = Inr b" "handoff_digest P (dp_handoff p) = Inr dg"
    "jl_reserve_admitted (or_ledger oc)
       \<lparr>rs_job_id = j, rs_subject = subject, rs_handoff_sha256 = dg, rs_expires_at = h_expires_at (dp_handoff p), rs_reserved_at = now\<rparr>
       (dp_approval_record_hash p) False (ow_ledger w) = (Inr True, l1)"
    "jl_commit_execution (or_ledger oc)
       \<lparr>rs_job_id = j, rs_subject = subject, rs_handoff_sha256 = dg, rs_expires_at = h_expires_at (dp_handoff p), rs_reserved_at = now\<rparr>
       now False l1 = (Inr (), ow_ledger w')"
    "execute P (we_runner ep) (Some p) now (gw_uses g) = (Inr (ds_result_wire d), u)" "ow_gateway w' = g\<lparr>gw_uses := u\<rparr>"
    "d = \<lparr>ds_job_id = j, ds_worker_agent_id = we_worker_agent_id ep, ds_handoff_sha256 = dg, ds_handoff_wire = b,
       ds_result_wire = ds_result_wire d,
       ds_decisions = [\<lparr>d_action = ''EXECUTION_DISPATCHED'', d_decision = ''ALLOWED'', d_reason_code = ''POLICY_SATISFIED'', d_occurred_at = now\<rparr>],
       ds_approval_record_hash = dp_approval_record_hash p\<rparr>"
proof -
  from assms(2) have h: "oh_atomic_admitted (or_hooks oc) = None" by (simp add: plain_hooks_def)
  from assms(1) obtain ep w1 p r decided x w2 b where
    1: "check_job_id j = Inr j" "route oc subject policy now = Inr ep"
       "available (or_ledger oc) j now subject (case wire of PBytes w \<Rightarrow> Some (sha256_hex P w) | _ \<Rightarrow> None) (ow_ledger w) = (Inr (), ow_ledger w)"
    and 2: "admit_and_reserve P oc wire subject j policy now token False True w = (Inr (p, r), w1)"
    and 3: "run_dispatch P oc ep p r subject now w1 = (Inr (decided, x), w')"
    and 4: "handoff_to_bytes (dp_handoff p) = Inr b"
    and 5: "d = \<lparr>ds_job_id = j, ds_worker_agent_id = we_worker_agent_id ep, ds_handoff_sha256 = rs_handoff_sha256 r, ds_handoff_wire = b,
       ds_result_wire = x, ds_decisions = [decided], ds_approval_record_hash = dp_approval_record_hash p\<rparr>"
    unfolding dispatch_def h option.case
    by (auto simp: abind_eq_Inr alift_eq azoom_eq areturn_eq check_job_id_eq_Inr available_eq_Inr split: prod.splits)
  from 2 obtain b' g dg where a: "admit P (or_consume oc False) (or_gateway oc) wire subject j policy now token (ow_gateway w) = (Inr p, g)"
    "wire = PBytes b'" "handoff_to_bytes (dp_handoff p) = Inr b'" "handoff_digest P (dp_handoff p) = Inr dg"
    "r = \<lparr>rs_job_id = j, rs_subject = subject, rs_handoff_sha256 = dg, rs_expires_at = h_expires_at (dp_handoff p), rs_reserved_at = now\<rparr>"
    "reserve (or_ledger oc) r now (dp_approval_record_hash p) False (ow_ledger w) = (Inr (), ow_ledger w1)" "ow_gateway w1 = g"
    by (rule admit_and_reserve_eq_Inr)
  from 3 assms(2) obtain l u where e: "decided = \<lparr>d_action = ''EXECUTION_DISPATCHED'', d_decision = ''ALLOWED'', d_reason_code = ''POLICY_SATISFIED'', d_occurred_at = now\<rparr>"
    "jl_commit_execution (or_ledger oc) r now False (ow_ledger w1) = (Inr (), l)" "ow_ledger w' = l"
    "execute P (we_runner ep) (Some p) now (gw_uses (ow_gateway w1)) = (Inr x, u)" "x \<noteq> []" "ow_gateway w' = (ow_gateway w1)\<lparr>gw_uses := u\<rparr>"
    by (rule run_dispatch_eq_Inr)
  show thesis
    by (rule that[of ep b p g dg "ow_ledger w1" u])
      (use 1 4 5 a e in \<open>auto simp: available_eq_Inr reserve_eq_Inr\<close>)
qed

section \<open>A dispatch that reached the worker\<close>

text \<open>A worker spends the permit before it does anything else, so the permits that are spent count the runs a
  world has seen, those that failed afterwards included.\<close>

definition spent_permits :: "('s, 'l, 'h) orch_world \<Rightarrow> nat" where
  "spent_permits w = length (filter pu_used (gw_uses (ow_gateway w)))"

text \<open>The same call, with the outcome replaced by whether it counts as a run: it came back with a result, or a
  permit was spent on the way to whatever error it ended in.\<close>

definition counting_runs :: "(('s, 'l, 'h) orch_world, 'a) action \<Rightarrow> (('s, 'l, 'h) orch_world, unit) action" where
  "counting_runs m w =
     (case m w of (r, w') \<Rightarrow>
        (if is_ok r \<or> spent_permits w < spent_permits w' then Inr () else fail ''no worker ran'', w'))"

lemma admit_spends_no_permit:
  "keeps (\<lambda>g. length (filter pu_used (gw_uses g)) = n) (admit P consume gw wire subject j policy now token)"
proof -
  have mint: "keeps (\<lambda>u. length (filter pu_used u) = n) (mint_permit P gw now h rh)" for h rh
    by (rule keepsI) (auto simp: mint_permit_def Let_def split: sum.splits)
  show ?thesis
    unfolding admit_def areject_as_def
    by (intro keeps_rules keeps_zoom[OF _ _ mint] keeps_zoom_other) simp_all
qed

lemma admit_and_reserve_spends_no_permit:
  "keeps (\<lambda>w. spent_permits w = n) (admit_and_reserve P oc wire subject j policy now token tx rec)"
  unfolding admit_and_reserve_def spent_permits_def
  by (intro keeps_rules keeps_zoom[OF _ _ admit_spends_no_permit] keeps_zoom_other) simp_all

lemma abind_cases:
  assumes "abind m f s = (r, s')"
  obtains (Inl) e where "m s = (Inl e, s')" "r = Inl e" | (Inr) x s1 where "m s = (Inr x, s1)" "f x s1 = (r, s')"
  using assms by (auto simp: abind_def split: prod.splits sum.splits)

text \<open>A dispatch that reached a worker was admitted and reserved, whatever it ended in.\<close>

lemma dispatch_ran:
  assumes "dispatch P oc wire subject j policy now token w = (x, w')" "plain_hooks oc"
    and "is_ok x \<or> spent_permits w < spent_permits w'"
  obtains ep p r w1 sha y where "jl_dispatch_available (or_ledger oc) j subject sha (ow_ledger w)"
    "admit_and_reserve P oc wire subject j policy now token False True w = (Inr (p, r), w1)"
    "run_dispatch P oc ep p r subject now w1 = (y, w')"
proof -
  have h: "oh_atomic_admitted (or_hooks oc) = None" using assms(2) by (simp add: plain_hooks_def)
  show thesis
  proof (rule abind_cases[OF assms(1)[unfolded dispatch_def h option.case]], goal_cases)
    case 1
    with assms(3) show ?case by (simp add: alift_eq is_ok_def)
  next
    case (2 j' w0)
    show ?case
    proof (rule abind_cases[OF 2(2)], goal_cases)
      case 1
      with 2 assms(3) show ?case by (simp add: alift_eq is_ok_def)
    next
      case (2 ep wa)
      then have wa: "wa = w" using \<open>alift _ w = _\<close> by (simp add: alift_eq)
      show ?case
      proof (rule abind_cases[OF 2(2)], goal_cases)
        case (1 e)
        then have "ow_gateway w' = ow_gateway w" using wa by (auto simp: azoom_eq)
        with 1 assms(3) show ?case by (simp add: is_ok_def spent_permits_def)
      next
        case (2 u wb)
        then have av: "wb = w" "\<exists>sha. jl_dispatch_available (or_ledger oc) j subject sha (ow_ledger w)"
          using wa by (auto simp: azoom_eq available_eq_Inr)
        show ?case
        proof (rule abind_cases[OF 2(2)], goal_cases)
          case (1 e)
          with av have "spent_permits w' = spent_permits w" using keepsD[OF admit_and_reserve_spends_no_permit] by blast
          with 1 assms(3) show ?case by (simp add: is_ok_def)
        next
          case (2 pr w1)
          obtain p r where pr: "pr = (p, r)" by force
          obtain y w2 where "run_dispatch P oc ep p r subject now w1 = (y, w2)" by force
          moreover from this 2(2) pr have "w2 = w'" by (cases y) (auto simp: abind_def alift_def areturn_def split: prod.splits sum.splits)
          ultimately show ?case using that av 2(1) pr by blast
        qed
      qed
    qed
  qed
qed

section \<open>Burned ids stay burned\<close>

text \<open>What the orchestrator relies on of a ledger that burns an id when a dispatch reserves it.\<close>

locale burning_ledger =
  fixes L :: "'l job_ledger"
  assumes available_unburned: "jl_dispatch_available L j subject sha l \<Longrightarrow> \<not> jl_is_burned L j l"
    and unburned_available: "\<not> jl_is_burned L j l \<Longrightarrow> jl_dispatch_available L j subject sha l"
    and reserve_burns: "jl_reserve_admitted L r h tx l = (Inr True, l') \<Longrightarrow> jl_is_burned L (rs_job_id r) l'"
    and reserve_keeps: "jl_reserve_admitted L r h tx l = (x, l') \<Longrightarrow> jl_is_burned L j l \<Longrightarrow> jl_is_burned L j l'"
    and commit_keeps: "jl_commit_execution L r now tx l = (y, l') \<Longrightarrow> jl_is_burned L j l \<Longrightarrow> jl_is_burned L j l'"
begin

lemma reserve_step_keeps: "keeps (jl_is_burned L j) (reserve L r now rh tx)"
proof (rule keepsI)
  fix l x l' assume a: "reserve L r now rh tx l = (x, l')" "jl_is_burned L j l"
  show "jl_is_burned L j l'"
  proof (cases "jl_is_full L l")
    case False
    obtain y l1 where y: "jl_reserve_admitted L r rh tx l = (y, l1)" by force
    with a(1) False have "l' = l1" by (cases y) (auto simp: reserve_def abind_apply split: if_splits)
    with reserve_keeps[OF y a(2)] show ?thesis by simp
  qed (use a in \<open>auto simp: reserve_def\<close>)
qed

lemma dispatch_keeps_burned:
  assumes "plain_hooks oc" "or_ledger oc = L"
  shows "keeps (\<lambda>w. jl_is_burned L j (ow_ledger w)) (dispatch P oc wire subject k policy now token)"
proof -
  have led: "keeps (\<lambda>w. jl_is_burned L j (ow_ledger w)) (azoom ow_ledger (\<lambda>l w. w\<lparr>ow_ledger := l\<rparr>) m)" if "keeps (jl_is_burned L j) m"
    for m :: "('l, 'x) action" by (rule keeps_zoom[OF _ _ that]) simp_all
  have oth: "keeps (\<lambda>w. jl_is_burned L j (ow_ledger w)) (azoom ow_gateway (\<lambda>g w. w\<lparr>ow_gateway := g\<rparr>) m)"
    "keeps (\<lambda>w. jl_is_burned L j (ow_ledger w)) (azoom ow_log (\<lambda>h w. w\<lparr>ow_log := h\<rparr>) n)" for m n
    by (rule keeps_zoom_other; simp)+
  have com: "keeps (jl_is_burned L j) (jl_commit_execution L r now tx)" for r now tx
    by (rule keepsI) (rule commit_keeps)
  have ava: "keeps (jl_is_burned L j) (available L k now s d)" for k s d
    by (rule keepsI) (auto dest: available_same)
  have h: "oh_atomic_admitted (or_hooks oc) = None" "oh_atomic_dispatched (or_hooks oc) = None"
    using assms(1) by (auto simp: plain_hooks_def)
  show ?thesis
    unfolding dispatch_def admit_and_reserve_def run_dispatch_def h option.case assms(2)
    by (intro keeps_rules led oth reserve_step_keeps com ava)
qed

lemma run_dispatch_keeps_burned:
  assumes "plain_hooks oc" "or_ledger oc = L"
  shows "keeps (\<lambda>w. jl_is_burned L j (ow_ledger w)) (run_dispatch P oc ep p r subject now)"
proof -
  have led: "keeps (\<lambda>w. jl_is_burned L j (ow_ledger w)) (azoom ow_ledger (\<lambda>l w. w\<lparr>ow_ledger := l\<rparr>) m)" if "keeps (jl_is_burned L j) m"
    for m :: "('l, 'x) action" by (rule keeps_zoom[OF _ _ that]) simp_all
  have oth: "keeps (\<lambda>w. jl_is_burned L j (ow_ledger w)) (azoom ow_gateway (\<lambda>g w. w\<lparr>ow_gateway := g\<rparr>) m)"
    "keeps (\<lambda>w. jl_is_burned L j (ow_ledger w)) (azoom ow_log (\<lambda>h w. w\<lparr>ow_log := h\<rparr>) n)" for m n
    by (rule keeps_zoom_other; simp)+
  have com: "keeps (jl_is_burned L j) (jl_commit_execution L r now tx)" for r now tx
    by (rule keepsI) (rule commit_keeps)
  have h: "oh_atomic_dispatched (or_hooks oc) = None" using assms(1) by (simp add: plain_hooks_def)
  show ?thesis
    unfolding run_dispatch_def h option.case assms(2) by (intro keeps_rules led oth com)
qed

text \<open>A dispatch that reached a worker found the id unburned and leaves it burned.\<close>

lemma dispatch_burns:
  assumes "dispatch P oc wire subject j policy now token w = (x, w')" "plain_hooks oc" "or_ledger oc = L"
    and "is_ok x \<or> spent_permits w < spent_permits w'"
  shows "\<not> jl_is_burned L j (ow_ledger w) \<and> jl_is_burned L j (ow_ledger w')"
  using assms(1,2,4)
proof (cases rule: dispatch_ran)
  case (1 ep p r w1 sha y)
  from 1(2) have "jl_is_burned L j (ow_ledger w1)"
  proof (cases rule: admit_and_reserve_eq_Inr)
    case (1 b g dg)
    have "jl_reserve_admitted L r (dp_approval_record_hash p) False (ow_ledger w) = (Inr True, ow_ledger w1)"
      using 1(6) assms(3) by (simp add: reserve_eq_Inr)
    from reserve_burns[OF this] 1(5) show ?thesis by simp
  qed
  with keepsD[OF run_dispatch_keeps_burned[OF assms(2,3)] 1(3)] available_unburned 1(1) assms(3) show ?thesis by blast
qed

lemma dispatch_single_use:
  assumes "plain_hooks oc" "or_ledger oc = L"
  shows "single_use (\<lambda>op. counting_runs ((\<lambda>(wire, subject, j, policy, now, token). dispatch P oc wire subject j policy now token) op))
     (\<lambda>w j. jl_is_burned L j (ow_ledger w)) (\<lambda>(wire, subject, j, policy, now, token). Some j)"
proof (unfold_locales, goal_cases)
  case (1 op s r s' k)
  then show ?case using keepsD[OF dispatch_keeps_burned[OF assms]]
    by (cases op) (auto simp: counting_runs_def split: prod.splits)
next
  case (2 op s x s' k)
  obtain wire subject j policy now token where op: "op = (wire, subject, j, policy, now, token)" by (cases op) auto
  obtain y where "dispatch P oc wire subject j policy now token s = (y, s')" "is_ok y \<or> spent_permits s < spent_permits s'" "k = j"
    using 2 by (cases "dispatch P oc wire subject j policy now token s") (auto simp: op counting_runs_def split: if_splits)
  with dispatch_burns[OF _ assms] show ?case by blast
qed

text \<open>A burned id is refused before anything is spent.\<close>

lemma burned_refused:
  assumes "or_ledger oc = L" "jl_is_burned L j (ow_ledger w)" "check_job_id j = Inr j" "route oc subject policy now = Inr ep"
  shows "dispatch P oc wire subject j policy now token w = (Inl (denied_as ''JOB_ID_REUSED'' now), w)"
proof -
  have n: "1 \<le> now" "now \<le> ORCH_MAX_OCCURRED_AT" using assms(4) by (auto simp: route_eq_Inr)
  have "\<not> jl_dispatch_available L j subject sha (ow_ledger w)" for sha using available_unburned assms(2) by blast
  then have "available L j now subject sha (ow_ledger w) = (Inl (denied_as ''JOB_ID_REUSED'' now), ow_ledger w)" for sha
    using deny_in_range[OF n, of "''JOB_ID_REUSED''"] by (simp add: available_def DENIALS_def)
  then show ?thesis using assms(3,4) by (simp add: dispatch_def abind_def alift_def azoom_def assms(1))
qed

end

text \<open>The process-local ledger keeps the contract.\<close>

lemma local_ledger_simps [simp]:
  "jl_is_burned local_ledger = local_is_burned" "jl_is_full local_ledger = local_is_full"
  "jl_dispatch_available local_ledger j s d l = (\<not> local_is_burned j l)"
  "jl_reserve_admitted local_ledger r h tx = local_reserve r tx" "jl_commit_execution local_ledger = local_commit_execution"
  by (simp_all add: local_ledger_def)

lemma local_commit_burned:
  assumes "local_commit_execution r now tx l = (y, l')"
  shows "local_is_burned j l' = local_is_burned j l"
proof -
  have "fst ` set (map (\<lambda>(j, s). (j, if j = rs_job_id r then EXECUTION_COMMITTED else s)) l) = fst ` set l" by force
  then show ?thesis
    using assms unfolding local_commit_execution_def local_is_burned_def by (metis (no_types, lifting) snd_conv)
qed

interpretation local_jobs: burning_ledger local_ledger
proof (unfold_locales, goal_cases)
  case (5 r now tx l y l' j)
  then show ?case using local_commit_burned by simp
qed (auto simp: local_reserve_def local_is_burned_def split: if_splits)


section \<open>A job runs\<close>

text \<open>The callbacks record what they are given and do not fail.\<close>

definition hooks_succeed :: "('s, 'l, 'h) orchestrator \<Rightarrow> bool" where
  "hooks_succeed oc \<longleftrightarrow>
     (\<forall>c p s h. oh_on_admitted (or_hooks oc) = Some c \<longrightarrow> (\<exists>h'. c p s h = (Inr (), h')))
   \<and> (\<forall>c p s d h. oh_on_dispatched (or_hooks oc) = Some c \<longrightarrow> (\<exists>h'. c p s d h = (Inr (), h')))"

lemma minted_runs:
  assumes "p = minted_permit gw at h dg rh (length us)" "handoff_digest P h = Inr dg'"
    and "execute_admitted P r at h now = Inr x"
  shows "\<exists>u. execute P r (Some p) now (us @ [\<lparr>pu_binding = bd, pu_used = False\<rparr>]) = (Inr x, u)"
proof -
  have "consume_handoff_from_permit P (Some p) (us @ [\<lparr>pu_binding = bd, pu_used = False\<rparr>]) =
      (Inr (dp_handoff p), us @ [\<lparr>pu_binding = bd, pu_used = True\<rparr>])"
    using assms(2) by (simp add: consume_handoff_from_permit_def handoff_from_permit_def assms(1) minted_permit_def
        abind_def alift_def areturn_def permit_use_consume_def)
  then show ?thesis using assms(3) unfolding execute_eq_Inr by (auto simp: assms(1) minted_permit_def)
qed

lemma local_commit_new:
  assumes "\<not> local_is_burned j jobs"
  shows "local_commit_execution \<lparr>rs_job_id = j, rs_subject = s, rs_handoff_sha256 = d, rs_expires_at = e, rs_reserved_at = a\<rparr> now False
     (jobs @ [(j, RESERVED)]) = (Inr (), map (\<lambda>(k, s). (k, if k = j then EXECUTION_COMMITTED else s)) (jobs @ [(j, RESERVED)]))"
proof -
  have "map_of jobs j = None" using assms by (auto simp: local_is_burned_def map_of_eq_None_iff)
  then have "map_of (jobs @ [(j, RESERVED)]) j = Some RESERVED" by (simp add: map_add_def)
  then show ?thesis by (simp add: local_commit_execution_def del: map_of_append)
qed

text \<open>A callback that is there returns and leaves the log as \<open>l'\<close>.\<close>

definition hook_writes :: "'c option \<Rightarrow> ('c \<Rightarrow> ('h, unit) action) \<Rightarrow> 'h \<Rightarrow> 'h \<Rightarrow> bool" where
  "hook_writes hook call l l' \<longleftrightarrow> (case hook of None \<Rightarrow> l' = l | Some c \<Rightarrow> call c l = (Inr (), l'))"

lemma hook_writes_ex: "(\<And>c. hook = Some c \<Longrightarrow> \<exists>l'. call c l = (Inr (), l')) \<Longrightarrow> \<exists>l'. hook_writes hook call l l'"
  by (cases hook) (auto simp: hook_writes_def)

lemma dispatch_runs_with:
  assumes "plain_hooks oc" "hook_writes (oh_on_admitted (or_hooks oc)) (\<lambda>c. c p subject) (ow_log w) l1" "or_ledger oc = local_ledger" "hash_ok P"
    and "check_job_id j = Inr j" "subject \<noteq> []" "route oc subject policy now = Inr ep"
    and "admit P (or_consume oc False) (or_gateway oc) (PBytes b) subject j policy now token (ow_gateway w) = (Inr p, g)"
    and "handoff_to_bytes (dp_handoff p) = Inr b" "payload_facts P (dp_handoff p)"
    and "now < h_expires_at (dp_handoff p)" "h_expires_at (dp_handoff p) \<le> ORCH_MAX_OCCURRED_AT"
    and "\<not> local_is_burned j (ow_ledger w)" "length (ow_ledger w) < MAX_JOBS"
    and "execute P (we_runner ep) (Some p) now (gw_uses g) = (Inr x, u)" "x \<noteq> []"
    and "hook_writes (oh_on_dispatched (or_hooks oc)) (\<lambda>c. c p subject
       \<lparr>d_action = ''EXECUTION_DISPATCHED'', d_decision = ''ALLOWED'', d_reason_code = ''POLICY_SATISFIED'', d_occurred_at = now\<rparr>) l1 l2"
  shows "\<exists>d w'. dispatch P oc (PBytes b) subject j policy now token w = (Inr d, w') \<and> ds_result_wire d = x \<and> ds_handoff_wire d = b
     \<and> ds_approval_record_hash d = dp_approval_record_hash p \<and> ow_log w' = l2"
proof -
  have n: "1 \<le> now" "now \<le> ORCH_MAX_OCCURRED_AT" using assms(7) by (auto simp: route_eq_Inr)
  have h: "oh_atomic_admitted (or_hooks oc) = None" "oh_atomic_dispatched (or_hooks oc) = None" using assms(1) by (auto simp: plain_hooks_def)
  have dg: "handoff_digest P (dp_handoff p) = Inr (sha256_hex P b)" by (rule handoff_digest_valid[OF assms(10,9)])
  let ?r = "\<lparr>rs_job_id = j, rs_subject = subject, rs_handoff_sha256 = sha256_hex P b, rs_expires_at = h_expires_at (dp_handoff p), rs_reserved_at = now\<rparr>"
  have r: "reservation_init j subject (sha256_hex P b) (h_expires_at (dp_handoff p)) now = Inr ?r"
    using assms(4-6,11,12) n by (auto simp: reservation_init_def check_job_id_eq_Inr)
  have rs: "reserve local_ledger ?r now (dp_approval_record_hash p) False (ow_ledger w) = (Inr (), ow_ledger w @ [(j, RESERVED)])"
    using assms(13,14) by (simp add: reserve_eq_Inr local_is_full_def local_reserve_def)
  have hook1: "(case oh_on_admitted (or_hooks oc) of Some c \<Rightarrow> if True then azoom ow_log (\<lambda>h w. w\<lparr>ow_log := h\<rparr>) (c p subject) else areturn ()
      | None \<Rightarrow> areturn ()) (w\<lparr>ow_gateway := g\<rparr>) = (Inr (), w\<lparr>ow_gateway := g, ow_log := l1\<rparr>)"
    using assms(2) by (cases w; cases "oh_on_admitted (or_hooks oc)") (auto simp: hook_writes_def areturn_def azoom_def)
  let ?w1 = "w\<lparr>ow_gateway := g, ow_log := l1, ow_ledger := ow_ledger w @ [(j, RESERVED)]\<rparr>"
  have A: "admit_and_reserve P oc (PBytes b) subject j policy now token False True w = (Inr (p, ?r), ?w1)"
    unfolding admit_and_reserve_def
    by (simp add: abind_def alift_def azoom_def assms(8) assms(9) hook1 dg r assms(3) rs areturn_def)
  let ?d = "\<lparr>d_action = ''EXECUTION_DISPATCHED'', d_decision = ''ALLOWED'', d_reason_code = ''POLICY_SATISFIED'', d_occurred_at = now\<rparr>"
  have dec: "decision_init ''EXECUTION_DISPATCHED'' ''ALLOWED'' ''POLICY_SATISFIED'' now = Inr ?d"
    using n by (simp add: decision_init_eq_Inr ORCH_ACTIONS_def)
  have hook2: "\<And>l. (case oh_on_dispatched (or_hooks oc) of Some c \<Rightarrow> azoom ow_log (\<lambda>h w. w\<lparr>ow_log := h\<rparr>) (c p subject ?d)
      | None \<Rightarrow> areturn ()) (?w1\<lparr>ow_ledger := l\<rparr>) = (Inr (), ?w1\<lparr>ow_ledger := l, ow_log := l2\<rparr>)"
    using assms(17) by (cases "oh_on_dispatched (or_hooks oc)") (auto simp: hook_writes_def areturn_def azoom_def)
  have run: "run_endpoint P ep p now (gw_uses g) = (Inr x, u)" using assms(15,16) by (simp add: run_endpoint_eq_Inr)
  obtain w2 where B: "run_dispatch P oc ep p ?r subject now ?w1 = (Inr (?d, x), w2)" "ow_log w2 = l2"
    unfolding run_dispatch_def h option.case
    by (simp add: abind_def alift_def dec azoom_def assms(3) local_commit_new[OF assms(13)] hook2[simplified] acatch_def run areturn_def)
  have av: "available local_ledger j now subject (Some (sha256_hex P b)) (ow_ledger w) = (Inr (), ow_ledger w)"
    using assms(13,14) by (simp add: available_eq_Inr local_is_full_def)
  show ?thesis
    unfolding dispatch_def h option.case
    by (simp add: abind_def alift_def assms(3,5,7) azoom_def av A B(1) B(2) assms(9) areturn_def)
qed

lemma dispatch_runs:
  assumes "plain_hooks oc" "hooks_succeed oc" "or_ledger oc = local_ledger" "hash_ok P"
    and "check_job_id j = Inr j" "subject \<noteq> []" "route oc subject policy now = Inr ep"
    and "admit P (or_consume oc False) (or_gateway oc) (PBytes b) subject j policy now token (ow_gateway w) = (Inr p, g)"
    and "handoff_to_bytes (dp_handoff p) = Inr b" "payload_facts P (dp_handoff p)"
    and "now < h_expires_at (dp_handoff p)" "h_expires_at (dp_handoff p) \<le> ORCH_MAX_OCCURRED_AT"
    and "\<not> local_is_burned j (ow_ledger w)" "length (ow_ledger w) < MAX_JOBS"
    and "execute P (we_runner ep) (Some p) now (gw_uses g) = (Inr x, u)" "x \<noteq> []"
  shows "\<exists>d w'. dispatch P oc (PBytes b) subject j policy now token w = (Inr d, w') \<and> ds_result_wire d = x \<and> ds_handoff_wire d = b
     \<and> ds_approval_record_hash d = dp_approval_record_hash p"
proof -
  obtain l1 where l1: "hook_writes (oh_on_admitted (or_hooks oc)) (\<lambda>c. c p subject) (ow_log w) l1"
    using hook_writes_ex[of "oh_on_admitted (or_hooks oc)" "\<lambda>c. c p subject" "ow_log w"] assms(2) unfolding hooks_succeed_def by blast
  obtain l2 where l2: "hook_writes (oh_on_dispatched (or_hooks oc)) (\<lambda>c. c p subject
       \<lparr>d_action = ''EXECUTION_DISPATCHED'', d_decision = ''ALLOWED'', d_reason_code = ''POLICY_SATISFIED'', d_occurred_at = now\<rparr>) l1 l2"
    using hook_writes_ex[of "oh_on_dispatched (or_hooks oc)" "\<lambda>c. c p subject
       \<lparr>d_action = ''EXECUTION_DISPATCHED'', d_decision = ''ALLOWED'', d_reason_code = ''POLICY_SATISFIED'', d_occurred_at = now\<rparr>" l1]
      assms(2) unfolding hooks_succeed_def by blast
  from dispatch_runs_with[OF assms(1) l1 assms(3-16) l2] show ?thesis by blast
qed

section \<open>The whole path of a job\<close>

text \<open>An orchestrator as the service assembles it around process-local stores.\<close>

definition orch_wired :: "platform \<Rightarrow> bytes \<Rightarrow> (approval_store, local_jobs, 'h) orchestrator \<Rightarrow> bool" where
  "orch_wired P key oc \<longleftrightarrow>
     plain_hooks oc \<and> or_ledger oc = local_ledger
   \<and> or_consume oc False = (\<lambda>t sc now. approval_consume P t sc now False)
   \<and> is_instance_id (gw_id (or_gateway oc)) \<and> handoff_signer_init P key = Inr (or_signer oc)
   \<and> gw_verifier (or_gateway oc) = hs_verifier (or_signer oc)"

definition orch_ready :: "platform \<Rightarrow> bytes \<Rightarrow> (approval_store, local_jobs, 'h) orchestrator \<Rightarrow> bool" where
  "orch_ready P key oc \<longleftrightarrow> orch_wired P key oc \<and> hooks_succeed oc"

text \<open>A request that fits its grant, the wire and the clock.\<close>

definition request_fits :: "policy \<Rightarrow> pystr \<Rightarrow> grant \<Rightarrow> pyval \<Rightarrow> pystr \<Rightarrow> pystr \<Rightarrow> int \<Rightarrow> bool" where
  "request_fits policy subject g request s j now \<longleftrightarrow>
     valid_policy policy \<and> valid_grant g \<and> policy_text_ok policy g \<and> grant_for policy subject = Inr g
   \<and> payload request = Inr (PDict [(lit ''text'', PStr s)]) \<and> json_ok request \<and> text_ok j
   \<and> handoff_chars policy g j s \<le> 800 \<and> 0 < p_handoff_ttl_seconds policy \<and> p_handoff_ttl_seconds policy \<le> 300
   \<and> 1 \<le> now \<and> now + p_handoff_ttl_seconds policy \<le> ORCH_MAX_OCCURRED_AT"

definition job_fits :: "policy \<Rightarrow> pystr \<Rightarrow> grant \<Rightarrow> pyval \<Rightarrow> pystr \<Rightarrow> pystr \<Rightarrow> int \<Rightarrow> bool" where
  "job_fits policy subject g request s j now \<longleftrightarrow> request_fits policy subject g request s j now \<and> \<not> g_requires_approval g"

text \<open>A work function that answers this text in time with a text that fits a result.\<close>

definition work_fits :: "worker_runner \<Rightarrow> policy \<Rightarrow> grant \<Rightarrow> pystr \<Rightarrow> pystr \<Rightarrow> bool" where
  "work_fits r policy g s j \<longleftrightarrow>
     (let run = wk_work r (PDict [(lit ''text'', PStr s)]) in
      wr_payload run = PDict [(lit ''text'', PStr s)] \<and> wr_elapsed_ns run < p_handoff_ttl_seconds policy * 10 ^ 9
    \<and> (\<exists>t. wr_outcome run = Returned (PDict [(lit ''text'', PStr t)]) \<and> t \<noteq> [] \<and> text_ok t
         \<and> length j + length (g_worker_agent_id g) + length t \<le> 800))"

lemma work_answers:
  assumes "work_fits r policy g s j" "handoff_facts policy g j now h" "payload_facts P h" "h_payload h = PDict [(lit ''text'', PStr s)]"
    and "h_issued_at h \<le> now" "wr_elapsed_ns (wk_work r (PDict [(lit ''text'', PStr s)])) < (h_expires_at h - now) * 10 ^ 9"
    and "handoff_to_bytes h = Inr b" "hash_ok P" "ed25519_ok P" "text_ok j" "text_ok (g_worker_agent_id g)"
    and "wk_tool r \<in> set (g_tools g)" "1 \<le> now" "now \<le> MAX_PRODUCED_AT"
  shows "\<exists>x. execute_admitted P r now h now = Inr x \<and> x \<noteq> []"
proof -
  note dg = handoff_digest_valid[OF assms(3,7)]
  obtain t where t: "wr_outcome (wk_work r (h_payload h)) = Returned (PDict [(lit ''text'', PStr t)])" "t \<noteq> []" "text_ok t"
    "length j + length (g_worker_agent_id g) + length t \<le> 800" "wr_payload (wk_work r (h_payload h)) = h_payload h"
    using assms(1,4) by (auto simp: work_fits_def Let_def)
  have "\<exists>x. produce P (PDict [(lit ''text'', PStr t)]) h SUCCEEDED (lit ''WORK_COMPLETED'') (wk_authority r) now = Inr x"
    by (rule produce_returns[OF assms(8,9) dg]) (use assms t in \<open>auto simp: handoff_facts_def REASON_CODES_def\<close>)
  then obtain x where x: "produce P (PDict [(lit ''text'', PStr t)]) h SUCCEEDED (lit ''WORK_COMPLETED'') (wk_authority r) now = Inr x" ..
  then have "x \<noteq> []" by (rule produce_eq_Inr) (auto simp: result_to_bytes_def canonical_eq_Inr ascii_bytes_def)
  moreover have "now < h_expires_at h" "wk_tool r \<in> set (h_tools h)"
    using assms(2,12) by (auto simp: handoff_facts_def)
  moreover have "wr_elapsed_ns (wk_work r (h_payload h)) < (h_expires_at h - now) * 10 ^ 9" using assms(4,6) by simp
  ultimately show ?thesis
    using t x dg by (auto simp: execute_admitted_def work_failure_def Let_def algebra_simps)
qed

lemma work_fits_answers:
  assumes "work_fits r policy g s j" "handoff_facts policy g j now h" "payload_facts P h" "h_payload h = PDict [(lit ''text'', PStr s)]"
    and "h_issued_at h = now" "handoff_to_bytes h = Inr b" "hash_ok P" "ed25519_ok P" "text_ok j" "text_ok (g_worker_agent_id g)"
    and "wk_tool r \<in> set (g_tools g)" "1 \<le> now" "now \<le> MAX_PRODUCED_AT"
  shows "\<exists>x. execute_admitted P r now h now = Inr x \<and> x \<noteq> []"
  by (rule work_answers[OF assms(1-4) _ _ assms(6-13)])
    (use assms(1,2,5) in \<open>auto simp: work_fits_def Let_def handoff_facts_def algebra_simps\<close>)

lemma grant_for_subject: "grant_for policy subject = Inr g \<Longrightarrow> subject \<noteq> []"
  by (auto simp: grant_for_def result_simps)

lemma submit_runs:
  assumes "orch_ready P key oc" "hash_ok P" "ed25519_ok P" "job_fits policy subject g request s j now"
    and "route oc subject policy now = Inr ep" "work_fits (we_runner ep) policy g s j" "check_job_id j = Inr j"
    and "\<not> local_is_burned j (ow_ledger w)" "length (ow_ledger w) < MAX_JOBS"
  shows "\<exists>d w'. submit P oc request subject j policy now None w = (Inr d, w')"
proof -
  note oc = assms(1)[unfolded orch_ready_def orch_wired_def] and jf = assms(4)[unfolded job_fits_def request_fits_def]
  have n: "1 \<le> now" "now \<le> ORCH_MAX_OCCURRED_AT" "p_orchestrator_id policy = or_id oc" using assms(5) by (auto simp: route_eq_Inr)
  have j: "j \<noteq> []" using assms(7) by (auto simp: check_job_id_eq_Inr)
  obtain b where b: "issue P request subject j policy (or_signer oc) now = Inr b"
    using issue_returns[of request s policy subject g j P now "or_signer oc"] jf j assms(2,3) n by (auto simp: ORCH_MAX_OCCURRED_AT_def)
  obtain dd h where h: "wire_object P (PBytes b) = Inr dd"
    "from_object P dd subject j policy (Verifier (hs_verifier (or_signer oc))) now False = Inr h"
    "h_issued_at h = now" "payload request = Inr (h_payload h)"
    using issue_accepted[OF b, of key g now "Verifier (hs_verifier (or_signer oc))" False] oc jf assms(2,3) by auto
  from from_object_sound[OF h(1,2)] jf have hf: "handoff_facts policy g j now h" "payload_facts P h" by auto
  have val: "validate P (PBytes b) subject j policy (Verifier (gw_verifier (or_gateway oc))) now = Inr h"
    using h oc by (simp add: validate_def)
  from validate_sound_lemma[OF val] have hb: "handoff_to_bytes h = Inr b" by auto
  obtain p g' where adm: "admit P (or_consume oc False) (or_gateway oc) (PBytes b) subject j policy now None (ow_gateway w) = (Inr p, g')" "dp_handoff p = h"
    using admit_direct[OF assms(2) _ _ _ val, of g "or_consume oc False" "ow_gateway w"] oc jf by auto
  have m: "\<exists>rh. p = minted_permit (or_gateway oc) now h (sha256_hex P b) rh (length (gw_uses (ow_gateway w)))
      \<and> gw_uses g' = gw_uses (ow_gateway w) @ [\<lparr>pu_binding = (sha256_hex P b, gw_id (or_gateway oc), now, rh), pu_used = False\<rparr>]"
    using local_approvals.admit_sound[of P "or_gateway oc" False "PBytes b" subject j policy now None "ow_gateway w" p g'] adm oc assms(2) by auto
  have ep: "wk_tool (we_runner ep) \<in> set (g_tools g)" using assms(5) jf by (auto simp: route_eq_Inr)
  obtain x where x: "execute_admitted P (we_runner ep) now h now = Inr x" "x \<noteq> []"
    using work_fits_answers[OF assms(6) hf _ h(3) hb assms(2,3) _ _ ep] h(4) jf n
    by (auto simp: policy_text_ok_def ORCH_MAX_OCCURRED_AT_def MAX_PRODUCED_AT_def)
  obtain u where u: "execute P (we_runner ep) (Some p) now (gw_uses g') = (Inr x, u)"
    using m minted_runs[OF _ handoff_digest_valid[OF hf(2) hb] x(1)] by metis
  have ex: "now < h_expires_at h" "h_expires_at h \<le> ORCH_MAX_OCCURRED_AT" using hf(1) h(3) jf by (auto simp: handoff_facts_def)
  obtain d w' where d: "dispatch P oc (PBytes b) subject j policy now None w = (Inr d, w')"
    using dispatch_runs[OF _ _ _ assms(2,7) grant_for_subject assms(5) adm(1) _ _ _ _ assms(8,9) u x(2)] oc jf adm(2) hb hf(2) ex by blast
  have dec: "decision_init ''HANDOFF_ISSUED'' ''ALLOWED'' ''POLICY_SATISFIED'' now
      = Inr \<lparr>d_action = ''HANDOFF_ISSUED'', d_decision = ''ALLOWED'', d_reason_code = ''POLICY_SATISFIED'', d_occurred_at = now\<rparr>"
    using n by (simp add: decision_init_eq_Inr ORCH_ACTIONS_def)
  have "orch_admit P oc request subject j policy now = Inr \<lparr>am_wire = b, am_decision =
      \<lparr>d_action = ''HANDOFF_ISSUED'', d_decision = ''ALLOWED'', d_reason_code = ''POLICY_SATISFIED'', d_occurred_at = now\<rparr>\<rparr>"
    using n b assms(7) dec by (simp add: orch_admit_def check_now_def trusted_def)
  then show ?thesis using assms(5) d by (simp add: submit_def abind_def alift_def areturn_def)
qed

section \<open>An orchestrator for the witnesses\<close>

definition sample_orch :: "(approval_store, local_jobs, unit) orchestrator" where
  "sample_orch =
     \<lparr>or_id = lit ''orch-1'', or_signer = sample_signer, or_gateway = sample_gateway,
      or_consume = (\<lambda>tx t sc now. approval_consume sample_platform t sc now tx),
      or_workers = [(lit ''worker-1'', \<lparr>we_worker_agent_id = lit ''worker-1'', we_runner = sample_runner sample_work\<rparr>)],
      or_ledger = local_ledger,
      or_hooks = \<lparr>oh_on_admitted = None, oh_on_dispatched = None, oh_atomic_admitted = None, oh_atomic_dispatched = None\<rparr>\<rparr>"

definition sample_world :: "(approval_store, local_jobs, unit) orch_world" where
  "sample_world = \<lparr>ow_gateway = \<lparr>gw_approvals = Map.empty, gw_uses = []\<rparr>, ow_ledger = [], ow_log = ()\<rparr>"

lemma sample_orch_ready: "orch_ready sample_platform (replicate 32 1) sample_orch"
  using gateway_init_id[OF sample_gateway_init] sample_signer_init
  by (simp add: orch_ready_def orch_wired_def sample_orch_def plain_hooks_def hooks_succeed_def) (simp add: sample_gateway_def)

lemma sample_job_fits: "job_fits sample_policy (lit ''alice'') sample_grant sample_request (lit ''hello'') (lit ''job-1'') 200"
  using sample_chars(1) by (simp add: job_fits_def request_fits_def ORCH_MAX_OCCURRED_AT_def) (simp add: sample_request_def)

lemma sample_route:
  "route sample_orch (lit ''alice'') sample_policy 200 = Inr \<lparr>we_worker_agent_id = lit ''worker-1'', we_runner = sample_runner sample_work\<rparr>"
  by (simp add: route_eq_Inr ORCH_MAX_OCCURRED_AT_def)
    (simp add: sample_orch_def sample_policy_def sample_grant_def sample_runner_def)

lemma sample_work_fits: "work_fits (sample_runner sample_work) sample_policy sample_grant (lit ''hello'') (lit ''job-1'')"
  by (simp add: work_fits_def sample_runner_def sample_work_def sample_output_def Let_def) (simp add: sample_grant_def)

lemma sample_job_id [simp]: "check_job_id (lit ''job-1'') = Inr (lit ''job-1'')"
  by (simp add: check_job_id_def utf8_size_def MAX_JOB_ID_BYTES_def lit_def utf8_char_def)

lemma sample_submit: "\<exists>d w'. submit sample_platform sample_orch sample_request (lit ''alice'') (lit ''job-1'') sample_policy 200 None sample_world = (Inr d, w')"
  using submit_runs[OF sample_orch_ready sample_platform_ok sample_job_fits sample_route, of sample_world] sample_work_fits
  by (simp add: sample_world_def local_is_burned_def MAX_JOBS_def)

lemma submit_dispatches:
  assumes "submit P oc request subject j policy now token w = (Inr d, w')"
  obtains am d0 where "orch_admit P oc request subject j policy now = Inr am"
    "dispatch P oc (PBytes (am_wire am)) subject j policy now token w = (Inr d0, w')" "d = d0\<lparr>ds_decisions := am_decision am # ds_decisions d0\<rparr>"
  using assms unfolding submit_def by (auto simp: result_simps)

section \<open>Properties\<close>

definition dispatch_op ::
  "platform \<Rightarrow> ('s, 'l, 'h) orchestrator \<Rightarrow> pyval \<times> pystr \<times> pystr \<times> policy \<times> int \<times> bytes option
     \<Rightarrow> (('s, 'l, 'h) orch_world, job_dispatch) action" where
  "dispatch_op P oc = (\<lambda>(wire, subject, j, policy, now, token). dispatch P oc wire subject j policy now token)"

definition dispatch_job :: "pyval \<times> pystr \<times> pystr \<times> policy \<times> int \<times> bytes option \<Rightarrow> pystr option" where
  "dispatch_job = (\<lambda>(wire, subject, j, policy, now, token). Some j)"

text \<open>C29. A job runs once: whatever dispatches reach an orchestrator with the process-local ledger and without
  the durable hooks, in whatever order, at most one for a job id reaches a worker. A dispatch counts when it
  came back with a result and also when it ended in an error after the worker had spent its permit (a worker
  that raised, a boundary that failed, an empty answer), so a job that failed is not run again.\<close>

theorem job_dispatched_once:
  assumes "plain_hooks oc" "or_ledger oc = local_ledger"
  shows "uses_of (\<lambda>op. counting_runs (dispatch_op P oc op)) dispatch_job j ops w \<le> 1"
  unfolding dispatch_op_def dispatch_job_def
  by (rule single_use.at_most_once[OF local_jobs.dispatch_single_use[OF assms]])

theorem job_dispatched_once_witness:
  "\<exists>wire. uses_of (\<lambda>op. counting_runs (dispatch_op sample_platform sample_orch op)) dispatch_job (lit ''job-1'')
     [(wire, lit ''alice'', lit ''job-1'', sample_policy, 200, None), (wire, lit ''alice'', lit ''job-1'', sample_policy, 200, None)] sample_world = 1"
proof -
  obtain d w' where "submit sample_platform sample_orch sample_request (lit ''alice'') (lit ''job-1'') sample_policy 200 None sample_world = (Inr d, w')"
    using sample_submit by blast
  then obtain am :: admission and d0 where d: "dispatch sample_platform sample_orch (PBytes (am_wire am)) (lit ''alice'') (lit ''job-1'') sample_policy 200 None sample_world = (Inr d0, w')"
    by (elim submit_dispatches) blast
  let ?op = "(PBytes (am_wire am), lit ''alice'', lit ''job-1'', sample_policy, 200, None)"
  have "uses_of (\<lambda>op. counting_runs (dispatch_op sample_platform sample_orch op)) dispatch_job (lit ''job-1'') [?op, ?op] sample_world \<le> 1"
    by (rule job_dispatched_once) (use sample_orch_ready in \<open>auto simp: orch_ready_def orch_wired_def\<close>)
  moreover have "1 \<le> uses_of (\<lambda>op. counting_runs (dispatch_op sample_platform sample_orch op)) dispatch_job (lit ''job-1'') [?op, ?op] sample_world"
    using d by (subst uses_of_Cons) (simp add: dispatch_op_def dispatch_job_def counting_runs_def is_ok_def)
  ultimately show ?thesis by (intro exI[of _ "PBytes (am_wire am)"]) simp
qed

text \<open>A used job id spends nothing: a dispatch that is otherwise in order is refused with
  \<open>JOB_ID_REUSED\<close> before the gateway is called, so no approval is consumed, no permit is minted and
  the world is as before.\<close>

theorem reused_job_spends_nothing:
  assumes "or_ledger oc = local_ledger" "local_is_burned j (ow_ledger w)"
    and "check_job_id j = Inr j" "route oc subject policy now = Inr ep"
  shows "dispatch P oc wire subject j policy now token w = (Inl (denied_as ''JOB_ID_REUSED'' now), w)"
  using local_jobs.burned_refused[OF assms(1) _ assms(3,4)] assms(2) by simp

theorem reused_job_spends_nothing_witness:
  "dispatch sample_platform sample_orch PNone (lit ''alice'') (lit ''job-1'') sample_policy 200 None
     (sample_world\<lparr>ow_ledger := [(lit ''job-1'', RESERVED)]\<rparr>)
   = (Inl (denied_as ''JOB_ID_REUSED'' 200), sample_world\<lparr>ow_ledger := [(lit ''job-1'', RESERVED)]\<rparr>)"
  by (rule reused_job_spends_nothing[OF _ _ sample_job_id sample_route])
    (use sample_orch_ready in \<open>auto simp: orch_ready_def orch_wired_def local_is_burned_def\<close>)

text \<open>C30. A job the gateway refused can be tried again: the dispatch ends with the gateway's own refusal, and
  approvals, permits, ledger and log are as before.\<close>

theorem refused_admission_leaves_nothing:
  assumes "plain_hooks oc" "hash_ok P" "is_instance_id (gw_id (or_gateway oc))"
    and "or_consume oc False = (\<lambda>t sc now. approval_consume P t sc now False)"
    and "check_job_id j = Inr j" "route oc subject policy now = Inr ep"
    and "jl_dispatch_available (or_ledger oc) j subject (case wire of PBytes b \<Rightarrow> Some (sha256_hex P b) | _ \<Rightarrow> None) (ow_ledger w)"
    and "\<not> jl_is_full (or_ledger oc) (ow_ledger w)"
    and "fst (admit P (or_consume oc False) (or_gateway oc) wire subject j policy now token (ow_gateway w)) = Inl e"
  shows "dispatch P oc wire subject j policy now token w = (Inl e, w)"
proof -
  obtain g where a: "admit P (or_consume oc False) (or_gateway oc) wire subject j policy now token (ow_gateway w) = (Inl e, g)"
    using assms(9) by (metis prod.collapse)
  then have g: "g = ow_gateway w" using local_approvals.admit_refusal[OF assms(2,3)] assms(4) by metis
  have av: "available (or_ledger oc) j now subject (case wire of PBytes b \<Rightarrow> Some (sha256_hex P b) | _ \<Rightarrow> None) (ow_ledger w) = (Inr (), ow_ledger w)"
    using assms(7,8) by (simp add: available_eq_Inr)
  have w: "w\<lparr>ow_ledger := ow_ledger w\<rparr> = w" "w\<lparr>ow_gateway := ow_gateway w\<rparr> = w" by (cases w; simp)+
  have "admit_and_reserve P oc wire subject j policy now token False True w = (Inl e, w)"
    using a g w by (simp add: admit_and_reserve_def abind_def azoom_def)
  then show ?thesis
    using assms(1,5,6) av w by (simp add: dispatch_def plain_hooks_def abind_def alift_def azoom_def)
qed

theorem refused_admission_leaves_nothing_witness:
  "\<exists>e. dispatch sample_platform sample_orch PNone (lit ''alice'') (lit ''job-1'') sample_policy 200 None sample_world = (Inl e, sample_world)"
proof -
  have r: "plain_hooks sample_orch" "or_consume sample_orch False = (\<lambda>t sc now. approval_consume sample_platform t sc now False)"
    "is_instance_id (gw_id (or_gateway sample_orch))" "or_ledger sample_orch = local_ledger"
    using sample_orch_ready by (auto simp: orch_ready_def orch_wired_def)
  have "\<exists>e. fst (admit sample_platform (or_consume sample_orch False) (or_gateway sample_orch) PNone (lit ''alice'') (lit ''job-1'') sample_policy 200 None (ow_gateway sample_world)) = Inl e"
    by (simp add: admit_def admit_checked_def abind_def areject_as_def acatch_def alift_def azoom_def araise_def validate_def wire_object_def decode_wire_def)
  then obtain e where e: "fst (admit sample_platform (or_consume sample_orch False) (or_gateway sample_orch) PNone (lit ''alice'') (lit ''job-1'') sample_policy 200 None (ow_gateway sample_world)) = Inl e" ..
  show ?thesis
    by (rule exI, rule refused_admission_leaves_nothing[OF r(1) sample_platform_ok(1) r(3,2) sample_job_id sample_route _ _ e])
      (simp_all add: r(4) sample_world_def local_is_burned_def local_is_full_def MAX_JOBS_def)
qed

text \<open>C31. What a dispatch that came back proves: the wire is a valid, signed handoff of this subject, job and
  policy; the worker that ran is the one the grant names, with a tool the grant allows; its answer is
  what the runner signed for exactly that handoff; and the ledger holds the job as committed to execution.\<close>

theorem dispatch_sound:
  assumes "plain_hooks oc" "hash_ok P" "is_instance_id (gw_id (or_gateway oc))" "or_ledger oc = local_ledger"
    and "or_consume oc False = (\<lambda>t sc now. approval_consume P t sc now False)"
    and "dispatch P oc wire subject j policy now token w = (Inr d, w')"
  shows "\<exists>b g ep h. wire = PBytes b \<and> ds_handoff_wire d = b \<and> ds_handoff_sha256 d = sha256_hex P b \<and> ds_job_id d = j
     \<and> grant_for policy subject = Inr g \<and> handoff_to_bytes h = Inr b \<and> handoff_facts policy g j now h \<and> payload_facts P h
     \<and> signature_facts P (gw_verifier (or_gateway oc)) h
     \<and> map_of (or_workers oc) (g_worker_agent_id g) = Some ep \<and> wk_tool (we_runner ep) \<in> set (g_tools g)
     \<and> execute_admitted P (we_runner ep) now h now = Inr (ds_result_wire d)
     \<and> map_of (ow_ledger w') j = Some EXECUTION_COMMITTED
     \<and> (ds_approval_record_hash d \<noteq> None \<longleftrightarrow> g_requires_approval g)"
  using assms(6,1)
proof (cases rule: dispatch_eq_Inr)
  case (1 ep b p dg l1 g u)
  from 1(2) obtain gr where gr: "grant_for policy subject = Inr gr" "map_of (or_workers oc) (g_worker_agent_id gr) = Some ep"
    "wk_tool (we_runner ep) \<in> set (g_tools gr)" by (auto simp: route_eq_Inr)
  from local_approvals.admit_sound[OF assms(2,3) 1(5)[unfolded assms(5)]] gr(1) obtain b' rh where a: "wire = PBytes b'"
    "handoff_to_bytes (dp_handoff p) = Inr b'" "handoff_facts policy gr j now (dp_handoff p)" "payload_facts P (dp_handoff p)"
    "signature_facts P (gw_verifier (or_gateway oc)) (dp_handoff p)"
    "p = minted_permit (or_gateway oc) now (dp_handoff p) (sha256_hex P b') rh (length (gw_uses (ow_gateway w)))"
    "if g_requires_approval gr then rh \<noteq> None else rh = None" by (auto split: if_splits)
  have p: "dp_admitted_at p = now" "dp_approval_record_hash p = rh"
    by (subst a(6), simp add: minted_permit_def)+
  have "dg = sha256_hex P b" using handoff_digest_valid[OF a(4) 1(6)] 1(7) by simp
  moreover have "execute_admitted P (we_runner ep) now (dp_handoff p) now = Inr (ds_result_wire d)"
    using 1(10) p unfolding execute_eq_Inr by simp
  moreover have "map_of (ow_ledger w') j = Some EXECUTION_COMMITTED"
  proof -
    from 1(9) have "map_of l1 j = Some RESERVED" "ow_ledger w' = map (\<lambda>(k, s). (k, if k = j then EXECUTION_COMMITTED else s)) l1"
      by (auto simp: assms(4) local_commit_execution_def split: if_splits)
    moreover have "map_of (map (\<lambda>(k, s). (k, if k = j then EXECUTION_COMMITTED else s)) xs) j = (case map_of xs j of None \<Rightarrow> None | Some _ \<Rightarrow> Some EXECUTION_COMMITTED)"
      for xs :: local_jobs by (induction xs) auto
    ultimately show ?thesis by simp
  qed
  moreover have "ds_handoff_wire d = b" "ds_handoff_sha256 d = dg" "ds_job_id d = j" "ds_approval_record_hash d = rh"
    using 1(12) p by (metis job_dispatch.select_convs)+
  ultimately show ?thesis using a gr 1(3,6) by (metis option.distinct(1))
qed

theorem dispatch_sound_witness:
  "\<exists>d w' b h. dispatch sample_platform sample_orch (PBytes b) (lit ''alice'') (lit ''job-1'') sample_policy 200 None sample_world = (Inr d, w')
     \<and> handoff_to_bytes h = Inr b \<and> handoff_facts sample_policy sample_grant (lit ''job-1'') 200 h
     \<and> map_of (ow_ledger w') (lit ''job-1'') = Some EXECUTION_COMMITTED"
proof -
  obtain d w' where "submit sample_platform sample_orch sample_request (lit ''alice'') (lit ''job-1'') sample_policy 200 None sample_world = (Inr d, w')"
    using sample_submit by blast
  then obtain am :: admission and d0 where d: "dispatch sample_platform sample_orch (PBytes (am_wire am)) (lit ''alice'') (lit ''job-1'') sample_policy 200 None sample_world = (Inr d0, w')"
    by (elim submit_dispatches) blast
  have r: "plain_hooks sample_orch" "or_consume sample_orch False = (\<lambda>t sc now. approval_consume sample_platform t sc now False)"
    "is_instance_id (gw_id (or_gateway sample_orch))" "or_ledger sample_orch = local_ledger"
    using sample_orch_ready by (auto simp: orch_ready_def orch_wired_def)
  from dispatch_sound[OF r(1) sample_platform_ok(1) r(3,4,2) d] d show ?thesis by fastforce
qed

text \<open>An authorised job runs: a request that fits its grant, the wire and the clock, for a job id that
  was not used, with a worker that answers in time, comes back with a result.\<close>

theorem job_runs:
  assumes "orch_ready P key oc" "hash_ok P" "ed25519_ok P" "job_fits policy subject g request s j now"
    and "route oc subject policy now = Inr ep" "work_fits (we_runner ep) policy g s j" "check_job_id j = Inr j"
    and "\<not> local_is_burned j (ow_ledger w)" "length (ow_ledger w) < MAX_JOBS"
  shows "\<exists>d w'. submit P oc request subject j policy now None w = (Inr d, w')"
  by (rule submit_runs[OF assms])

theorem job_runs_witness:
  "\<exists>d w'. submit sample_platform sample_orch sample_request (lit ''alice'') (lit ''job-1'') sample_policy 200 None sample_world = (Inr d, w')"
  using job_runs[OF sample_orch_ready sample_platform_ok sample_job_fits sample_route, of sample_world] sample_work_fits
  by (simp add: sample_world_def local_is_burned_def MAX_JOBS_def)

end
