(* ===== verification/Verifier.thy ===== *)
theory Verifier
  imports Orchestrator
begin

text \<open>
  \<open>geniusnew/verifier.py\<close>: the instance that takes results. It revalidates the handoff wire and the
  result wire for itself and takes one result per handoff. The acceptance ledger is its \<open>reserve\<close>
  operation, an argument of \<open>verifier_accept\<close>; the process-local one of the module is \<open>local_accept\<close>.
  An \<open>approval_record_hash\<close> argument may have any type.
\<close>

section \<open>Data\<close>

definition VERIFIER_REJECTIONS :: "string list" where
  "VERIFIER_REJECTIONS = [''HANDOFF_NOT_VALID'', ''APPROVAL_NOT_EVIDENCED'', ''RESULT_NOT_VALID'',
     ''RESULT_ALREADY_ACCEPTED'', ''ACCEPTANCE_LEDGER_FULL'']"

definition MAX_ACCEPTED :: nat where "MAX_ACCEPTED = 100000"

text \<open>\<open>Rejected(message, reason_code, occurred_at)\<close>.\<close>

definition rejected :: "string \<Rightarrow> string \<Rightarrow> int \<Rightarrow> exc" where
  "rejected message reason now =
     (if reason \<notin> set VERIFIER_REJECTIONS then ContractError ''reason_code is not a verifier rejection code''
      else Rejected message reason now)"

record acceptance =
  ac_job_id :: pystr
  ac_worker_agent_id :: pystr
  ac_handoff_sha256 :: pystr
  ac_result_sha256 :: pystr
  ac_status :: pystr
  ac_result :: job_result
  ac_approval_record_hash :: pyval
  ac_occurred_at :: int

definition acceptance_succeeded :: "acceptance \<Rightarrow> bool" where
  "acceptance_succeeded a = result_succeeded (ac_result a)"

type_synonym 'l acceptance_ledger = "pystr \<Rightarrow> bytes \<Rightarrow> bytes \<Rightarrow> int \<Rightarrow> bool \<Rightarrow> ('l, bool) action"

text \<open>The process-local ledger: the set of accepted handoff digests.\<close>

definition local_accept :: "platform \<Rightarrow> pystr list acceptance_ledger" where
  "local_accept P job_id handoff_wire result_wire now transaction accepted =
     (if transaction then (fail ''process-local acceptance ledger cannot join a database transaction'', accepted) else
      let digest = sha256_hex P handoff_wire in
      if digest \<in> set accepted then (Inr False, accepted) else
      if length accepted \<ge> MAX_ACCEPTED
      then (Inl (rejected ''the acceptance ledger is full'' ''ACCEPTANCE_LEDGER_FULL'' now), accepted)
      else (Inr True, digest # accepted))"

record result_acceptor =
  rv_id :: pystr
  rv_handoff_verifier :: handoff_verifier
  rv_worker_verifier :: worker_verifier

definition verifier_init :: "pystr \<Rightarrow> verifier_arg \<Rightarrow> result_verifier_arg \<Rightarrow> result_acceptor result" where
  "verifier_init verifier_id handoff_verifier worker_verifier =
     (if \<not> is_instance_id verifier_id then fail ''verifier_id must be a lowercase identifier of at most 63 characters'' else
      case handoff_verifier of
        Verifier hv \<Rightarrow>
          (case worker_verifier of
             VerifierArg wv \<Rightarrow> Inr \<lparr>rv_id = verifier_id, rv_handoff_verifier = hv, rv_worker_verifier = wv\<rparr>
           | _ \<Rightarrow> fail ''worker_verifier must be a WorkerVerifier'')
      | _ \<Rightarrow> fail ''handoff_verifier must be a HandoffVerifier'')"

section \<open>Acceptance\<close>

definition approval_evidence :: "pyval \<Rightarrow> bool \<Rightarrow> int \<Rightarrow> unit result" where
  "approval_evidence record_hash required now =
     (if required then
        if record_hash = PNone
        then Inl (rejected ''an approval-bound handoff needs the gateway's approval receipt'' ''APPROVAL_NOT_EVIDENCED'' now) else
        (case record_hash of
           PStr s \<Rightarrow> if is_digest s then Inr ()
                     else Inl (rejected ''approval_record_hash must be a lowercase SHA-256 digest'' ''APPROVAL_NOT_EVIDENCED'' now)
         | _ \<Rightarrow> Inl (rejected ''approval_record_hash must be a lowercase SHA-256 digest'' ''APPROVAL_NOT_EVIDENCED'' now))
      else if record_hash \<noteq> PNone
        then Inl (rejected ''approval_record_hash is not allowed for a handoff that needs no approval'' ''APPROVAL_NOT_EVIDENCED'' now)
        else Inr ())"

definition verifier_handoff ::
  "platform \<Rightarrow> result_acceptor \<Rightarrow> pyval \<Rightarrow> pystr \<Rightarrow> pystr \<Rightarrow> policy \<Rightarrow> int \<Rightarrow> bool \<Rightarrow> handoff result" where
  "verifier_handoff P v handoff_wire subject job_id policy now pending =
     catch_contract
       (if pending then validate_pending P handoff_wire subject job_id policy (Verifier (rv_handoff_verifier v)) now
        else validate P handoff_wire subject job_id policy (Verifier (rv_handoff_verifier v)) now)
       (\<lambda>refusal. Inl (rejected (exc_message refusal) ''HANDOFF_NOT_VALID'' now))"

definition verifier_result :: "platform \<Rightarrow> result_acceptor \<Rightarrow> pyval \<Rightarrow> handoff \<Rightarrow> int \<Rightarrow> job_result result" where
  "verifier_result P v result_wire h now =
     catch_contract (accept P result_wire h (VerifierArg (rv_worker_verifier v)) now)
       (\<lambda>refusal. Inl (rejected (exc_message refusal) ''RESULT_NOT_VALID'' now))"

text \<open>Everything \<open>accept\<close> checks before it touches the ledger.\<close>

definition verifier_checks ::
  "platform \<Rightarrow> result_acceptor \<Rightarrow> pyval \<Rightarrow> pyval \<Rightarrow> pystr \<Rightarrow> pystr \<Rightarrow> policy \<Rightarrow> int \<Rightarrow> pyval
     \<Rightarrow> (handoff \<times> job_result \<times> pystr \<times> bytes \<times> bytes) result" where
  "verifier_checks P v result_wire handoff_wire subject job_id policy now record_hash =
     (if \<not> (1 \<le> now \<and> now \<le> ORCH_MAX_OCCURRED_AT) then fail ''now is outside the range the audit contract accepts'' else
      rbind (catch_contract (grant_for policy subject) (\<lambda>refusal. Inl (rejected (exc_message refusal) ''HANDOFF_NOT_VALID'' now))) (\<lambda>grant.
      rbind (approval_evidence record_hash (g_requires_approval grant) now) (\<lambda>_.
      rbind (verifier_handoff P v handoff_wire subject job_id policy now (g_requires_approval grant)) (\<lambda>h.
      rbind (verifier_result P v result_wire h now) (\<lambda>r.
      rbind (handoff_digest P h) (\<lambda>digest.
      rbind (handoff_to_bytes h) (\<lambda>hb.
      rbind (result_to_bytes r) (\<lambda>rb.
      Inr (h, r, digest, hb, rb)))))))))"

definition verifier_accept ::
  "platform \<Rightarrow> 'l acceptance_ledger \<Rightarrow> result_acceptor \<Rightarrow> pyval \<Rightarrow> pyval \<Rightarrow> pystr \<Rightarrow> pystr \<Rightarrow> policy \<Rightarrow> int \<Rightarrow> pyval \<Rightarrow> bool
     \<Rightarrow> ('l, acceptance) action" where
  "verifier_accept P ledger v result_wire handoff_wire subject job_id policy now record_hash transaction =
     abind (alift (verifier_checks P v result_wire handoff_wire subject job_id policy now record_hash)) (\<lambda>(h, r, digest, hb, rb).
     abind (ledger (h_job_id h) hb rb now transaction) (\<lambda>reserved.
     if \<not> reserved
     then araise (rejected ''this handoff already has an accepted result'' ''RESULT_ALREADY_ACCEPTED'' now)
     else areturn \<lparr>ac_job_id = h_job_id h, ac_worker_agent_id = h_worker_agent_id h, ac_handoff_sha256 = digest,
            ac_result_sha256 = sha256_hex P rb, ac_status = r_status r, ac_result = r,
            ac_approval_record_hash = record_hash, ac_occurred_at = now\<rparr>))"

section \<open>What acceptance establishes\<close>

lemma rejected_known [simp]: "reason \<in> set VERIFIER_REJECTIONS \<Longrightarrow> rejected m reason now = Rejected m reason now"
  by (simp add: rejected_def)

lemma approval_evidence_eq_Inr:
  "approval_evidence rh required now = Inr u \<longleftrightarrow> (if required then \<exists>s. rh = PStr s \<and> is_digest s else rh = PNone)"
  by (cases rh) (auto simp: approval_evidence_def)

lemma catch_raise_eq_Inr: "catch_contract m (\<lambda>e. Inl (f e)) = Inr x \<longleftrightarrow> m = Inr x"
  by (auto simp: catch_contract_eq_Inr)

lemma verifier_checks_eq_Inr:
  "verifier_checks P v rw hw subject j policy now rh = Inr (h, r, dg, hb, rb) \<longleftrightarrow>
     1 \<le> now \<and> now \<le> ORCH_MAX_OCCURRED_AT
   \<and> (\<exists>g. grant_for policy subject = Inr g \<and> (if g_requires_approval g then \<exists>s. rh = PStr s \<and> is_digest s else rh = PNone)
        \<and> (if g_requires_approval g then validate_pending P hw subject j policy (Verifier (rv_handoff_verifier v)) now
           else validate P hw subject j policy (Verifier (rv_handoff_verifier v)) now) = Inr h)
   \<and> accept P rw h (VerifierArg (rv_worker_verifier v)) now = Inr r
   \<and> handoff_digest P h = Inr dg \<and> handoff_to_bytes h = Inr hb \<and> result_to_bytes r = Inr rb"
  unfolding verifier_checks_def verifier_handoff_def verifier_result_def if_raise_eq_Inr rbind_eq_Inr catch_raise_eq_Inr approval_evidence_eq_Inr
  by auto

lemma verifier_accept_eq_Inr:
  "verifier_accept P ledger v rw hw subject j policy now rh tx l = (Inr a, l') \<longleftrightarrow>
     (\<exists>h r dg hb rb. verifier_checks P v rw hw subject j policy now rh = Inr (h, r, dg, hb, rb)
        \<and> ledger (h_job_id h) hb rb now tx l = (Inr True, l')
        \<and> a = \<lparr>ac_job_id = h_job_id h, ac_worker_agent_id = h_worker_agent_id h, ac_handoff_sha256 = dg,
            ac_result_sha256 = sha256_hex P rb, ac_status = r_status r, ac_result = r, ac_approval_record_hash = rh, ac_occurred_at = now\<rparr>)"
  unfolding verifier_accept_def abind_eq_Inr alift_eq
  by (auto simp: result_simps split: if_splits)

lemma checked_handoff:
  assumes "verifier_checks P v rw hw subject j policy now rh = Inr (h, r, dg, hb, rb)"
  obtains g where "grant_for policy subject = Inr g" "hw = PBytes hb" "handoff_facts policy g j now h" "payload_facts P h"
    "signature_facts P (rv_handoff_verifier v) h" "dg = sha256_hex P hb"
proof -
  from assms obtain g where g: "grant_for policy subject = Inr g"
    "(if g_requires_approval g then validate_pending P hw subject j policy (Verifier (rv_handoff_verifier v)) now
      else validate P hw subject j policy (Verifier (rv_handoff_verifier v)) now) = Inr h"
    and b: "handoff_to_bytes h = Inr hb" "handoff_digest P h = Inr dg"
    by (auto simp: verifier_checks_eq_Inr)
  show thesis
  proof (cases "g_requires_approval g")
    case True
    with g have "validate_pending P hw subject j policy (Verifier (rv_handoff_verifier v)) now = Inr h" by simp
    from validate_pending_sound[OF this] g(1) b that show thesis by (auto simp: handoff_digest_valid)
  next
    case False
    with g have "validate P hw subject j policy (Verifier (rv_handoff_verifier v)) now = Inr h" by simp
    from validate_sound_lemma[OF this] g(1) b that show thesis by (auto simp: handoff_digest_valid)
  qed
qed

lemma object_later:
  assumes "wire_object P wire = Inr d" "from_object P d subject j policy verifier now a = Inr h"
    and "now \<le> later" "later < h_expires_at h" "as_verifier verifier' = as_verifier verifier"
    and "hash_ok P" "valid_policy policy" "\<And>g. grant_for policy subject = Inr g \<Longrightarrow> valid_grant g" "j \<noteq> []"
  shows "from_object P d subject j policy verifier' later a = Inr h"
proof -
  from assms(2) obtain g v pv b where f: "grant_for policy subject = Inr g" "as_verifier verifier = Inr v"
    "object_reads d h" "map_of d (lit ''payload'') = Some pv" "payload pv = Inr (h_payload h)"
    "canonical (h_payload h) = Inr b" "h_payload_sha256 h = sha256_hex P b"
    "handoff_facts policy g j now h" "h_approval_state h = PENDING \<longrightarrow> a" "is_signature (h_signature h)"
    "\<exists>m sig. canonical (PDict (without_signature d)) = Inr m \<and> fromhex (h_signature h) = Some sig \<and> handoff_verifies P v m sig"
    by (rule from_object_eq_Inr)
  from assms(1) have "keys_distinct (PDict d)" unfolding wire_object_def by (rule decode_wire_eq_Inr)
  then have pv: "pv = h_payload h" using payload_distinct[OF f(5)] keys_distinct_lookup f(4) by blast
  have pf: "payload_facts P h" using from_object_sound[OF assms(1,2)] by auto
  have hf: "handoff_facts policy g j later h" using f(8) assms(3,4) by (auto simp: handoff_facts_def)
  from f(11) obtain m sig where "canonical (PDict (without_signature d)) = Inr m" "fromhex (h_signature h) = Some sig" "handoff_verifies P v m sig"
    by blast
  then show ?thesis
    using from_object_complete[OF f(1) _ assms(7) assms(8)[OF f(1)] f(3) _ pf assms(6) hf assms(9) f(9,10)] f(2,4) pv assms(5) by simp
qed


section \<open>From admission to acceptance\<close>

text \<open>What the gateway read, the accepting instance reads again, until the handoff expires.\<close>

lemma admit_validated:
  assumes "admit P consume gw wire subject j policy now token w = (Inr p, w')" "grant_for policy subject = Inr g"
  shows "(if g_requires_approval g then validate_pending P wire subject j policy (Verifier (gw_verifier gw)) now
      else validate P wire subject j policy (Verifier (gw_verifier gw)) now) = Inr (dp_handoff p)"
    and "\<And>s. dp_approval_record_hash p = Some s \<Longrightarrow> is_digest s"
proof -
  from assms obtain hr s' u where c: "admit_checked P consume gw wire subject j policy now g token (gw_approvals w) = (Inr hr, s')"
    and m: "mint_permit P gw now (fst hr) (snd hr) (gw_uses w) = (Inr p, u)"
    by (auto simp: admit_def abind_eq_Inr azoom_eq areject_as_eq_Inr alift_eq)
  from m have p: "dp_handoff p = fst hr" "\<forall>s. dp_approval_record_hash p = Some s \<longrightarrow> is_digest s"
    by (auto simp: mint_permit_def permit_post_init_def Let_def rbind_eq_Inr split: sum.splits if_splits option.splits)
  show "\<And>s. dp_approval_record_hash p = Some s \<Longrightarrow> is_digest s" using p(2) by blast
  show "(if g_requires_approval g then validate_pending P wire subject j policy (Verifier (gw_verifier gw)) now
      else validate P wire subject j policy (Verifier (gw_verifier gw)) now) = Inr (dp_handoff p)"
    using c p(1) by (auto simp: admit_checked_def result_simps areject_as_eq_Inr split: option.splits if_splits)
qed

lemma revalidated_later:
  assumes "(if pending then validate_pending P wire subject j policy verifier now else validate P wire subject j policy verifier now) = Inr h"
    and "now \<le> later" "later < h_expires_at h" "as_verifier verifier' = as_verifier verifier"
    and "hash_ok P" "valid_policy policy" "\<And>g. grant_for policy subject = Inr g \<Longrightarrow> valid_grant g" "j \<noteq> []"
  shows "(if pending then validate_pending P wire subject j policy verifier' later else validate P wire subject j policy verifier' later) = Inr h"
proof (cases pending)
  case True
  with assms(1) obtain d where d: "wire_object P wire = Inr d" "from_object P d subject j policy verifier now True = Inr h" "h_approval_state h = PENDING"
    by (auto simp: validate_pending_def result_simps)
  from object_later[OF d(1,2) assms(2-8)] d True show ?thesis by (simp add: validate_pending_def)
next
  case False
  with assms(1) obtain d where d: "wire_object P wire = Inr d" "from_object P d subject j policy verifier now False = Inr h"
    by (auto simp: validate_def result_simps)
  from object_later[OF d assms(2-8)] d False show ?thesis by (simp add: validate_def)
qed

section \<open>One result per handoff\<close>

type_synonym accept_request = "pyval \<times> pyval \<times> pystr \<times> pystr \<times> policy \<times> int \<times> pyval"

definition accept_op :: "platform \<Rightarrow> result_acceptor \<Rightarrow> accept_request \<Rightarrow> (pystr list, acceptance) action" where
  "accept_op P v = (\<lambda>(rw, hw, subject, j, policy, now, rh). verifier_accept P (local_accept P) v rw hw subject j policy now rh False)"

definition accept_handoff :: "platform \<Rightarrow> accept_request \<Rightarrow> pystr option" where
  "accept_handoff P = (\<lambda>(rw, hw, subject, j, policy, now, rh). case hw of PBytes b \<Rightarrow> Some (sha256_hex P b) | _ \<Rightarrow> None)"

lemma local_accept_keeps: "keeps (\<lambda>l. k \<in> set l) (local_accept P j hb rb now tx)"
  by (rule keepsI) (auto simp: local_accept_def Let_def split: if_splits)

interpretation acceptances: single_use "accept_op P v" "\<lambda>l k. k \<in> set l" "accept_handoff P"
proof (unfold_locales, goal_cases)
  case (1 op s r s' k)
  have "keeps (\<lambda>l. k \<in> set l) (accept_op P v op)"
    unfolding accept_op_def verifier_accept_def by (cases op) (auto intro!: keeps_rules local_accept_keeps)
  from keepsD[OF this 1] show ?case .
next
  case (2 op s x s' k)
  obtain rw hw subject j policy now rh where op: "op = (rw, hw, subject, j, policy, now, rh)" by (cases op) auto
  from 2(1) op obtain h r dg hb rb where c: "verifier_checks P v rw hw subject j policy now rh = Inr (h, r, dg, hb, rb)"
    and l: "local_accept P (h_job_id h) hb rb now False s = (Inr True, s')"
    by (auto simp: accept_op_def verifier_accept_eq_Inr)
  from c obtain g where "hw = PBytes hb" by (rule checked_handoff)
  with 2(2) op have "k = sha256_hex P hb" by (simp add: accept_handoff_def)
  with l show ?case by (auto simp: local_accept_def Let_def split: if_splits)
qed

lemma accept_refused_keeps:
  assumes "verifier_accept P (local_accept P) v rw hw subject j policy now rh tx l = (Inl e, l')"
  shows "l' = l"
  using assms unfolding verifier_accept_def
  by (auto simp: result_simps local_accept_def Let_def split: if_splits)

section \<open>Samples\<close>

definition sample_acceptor :: result_acceptor where
  "sample_acceptor = \<lparr>rv_id = lit ''verifier-1'', rv_handoff_verifier = hs_verifier sample_signer, rv_worker_verifier = wa_verifier sample_authority\<rparr>"

lemma sample_acceptor_init:
  "verifier_init (lit ''verifier-1'') (Verifier (hs_verifier sample_signer)) (VerifierArg (wa_verifier sample_authority)) = Inr sample_acceptor"
  by (simp add: verifier_init_def sample_acceptor_def is_instance_id_def lit_def is_lower_alnum_def is_digit_def)

section \<open>A submitted job is accepted\<close>

text \<open>The accepting instance holds the public halves of this orchestrator's and its workers' keys, and
  the workers' work functions leave the payload alone and return JSON values.\<close>

definition acceptor_matches :: "platform \<Rightarrow> result_acceptor \<Rightarrow> ('s, 'l, 'h) orchestrator \<Rightarrow> bool" where
  "acceptor_matches P v oc \<longleftrightarrow>
     rv_handoff_verifier v = hs_verifier (or_signer oc)
   \<and> (\<forall>(a, ep) \<in> set (or_workers oc).
        (\<exists>key ik. worker_authority_init P key ik = Inr (wk_authority (we_runner ep)))
      \<and> rv_worker_verifier v = wa_verifier (wk_authority (we_runner ep))
      \<and> (\<forall>pl. wr_payload (wk_work (we_runner ep) pl) = pl
           \<and> (\<forall>x. wr_outcome (wk_work (we_runner ep) pl) = Returned x \<longrightarrow> json_ok x)))"

text \<open>The record hash of a dispatch as the argument of \<open>accept\<close>.\<close>

definition evidence :: "pystr option \<Rightarrow> pyval" where
  "evidence rh = (case rh of None \<Rightarrow> PNone | Some s \<Rightarrow> PStr s)"

lemma issued_expiry:
  assumes "issue P request subject j policy signer now = Inr b" "handoff_signer_init P key = Inr signer" "ed25519_ok P" "hash_ok P"
    and "valid_policy policy" "grant_for policy subject = Inr g" "valid_grant g" "policy_text_ok policy g" "text_ok j" "json_ok request"
    and "0 < p_handoff_ttl_seconds policy" "as_verifier verifier = Inr (hs_verifier signer)"
    and "(if g_requires_approval g then validate_pending P (PBytes b) subject j policy verifier now
          else validate P (PBytes b) subject j policy verifier now) = Inr h"
  shows "h_expires_at h = now + p_handoff_ttl_seconds policy"
proof -
  obtain d h' where i: "wire_object P (PBytes b) = Inr d" "from_object P d subject j policy verifier now (g_requires_approval g) = Inr h'"
    "h_issued_at h' = now"
    using issue_accepted[OF assms(1-10) order_refl _ assms(12), of "g_requires_approval g"] assms(11) by auto
  then have "h = h'" using assms(13)
    by (cases "g_requires_approval g") (auto simp: validate_pending_def validate_def result_simps)
  moreover have "handoff_facts policy g j now h'" using from_object_sound[OF i(1,2)] assms(6) by auto
  ultimately show ?thesis using i(3) by (simp add: handoff_facts_def)
qed

lemma dispatched_accepted:
  assumes "orch_wired P key oc" "acceptor_matches P v oc" "hash_ok P" "ed25519_ok P"
    and "valid_policy policy" "grant_for policy subject = Inr g" "valid_grant g" "is_ascii j" "is_ascii (g_worker_agent_id g)"
    and "dispatch P oc (PBytes b) subject j policy now token w = (Inr d, w')"
    and "(if g_requires_approval g then validate_pending P (PBytes b) subject j policy (Verifier (gw_verifier (or_gateway oc))) now
          else validate P (PBytes b) subject j policy (Verifier (gw_verifier (or_gateway oc))) now) = Inr h"
    and "now \<le> later" "later < h_expires_at h" "later \<le> ORCH_MAX_OCCURRED_AT"
    and "sha256_hex P b \<notin> set accepted" "length accepted < MAX_ACCEPTED"
  shows "\<exists>a. verifier_accept P (local_accept P) v (PBytes (ds_result_wire d)) (PBytes (ds_handoff_wire d)) subject j policy later
       (evidence (ds_approval_record_hash d)) False accepted = (Inr a, sha256_hex P b # accepted)
     \<and> ac_job_id a = j \<and> ac_worker_agent_id a = g_worker_agent_id g \<and> ds_handoff_wire d = b"
proof -
  note oc = assms(1)[unfolded orch_wired_def]
  have plain: "plain_hooks oc" using oc by blast
  from assms(10) plain obtain ep b0 p dg l1 g' u where
    dj: "check_job_id j = Inr j" and rt: "route oc subject policy now = Inr ep" and bb: "PBytes b = PBytes b0"
    and ad: "admit P (or_consume oc False) (or_gateway oc) (PBytes b) subject j policy now token (ow_gateway w) = (Inr p, g')"
    and ex: "execute P (we_runner ep) (Some p) now (gw_uses g') = (Inr (ds_result_wire d), u)"
    and d0: "d = \<lparr>ds_job_id = j, ds_worker_agent_id = we_worker_agent_id ep, ds_handoff_sha256 = dg, ds_handoff_wire = b0,
       ds_result_wire = ds_result_wire d,
       ds_decisions = [\<lparr>d_action = ''EXECUTION_DISPATCHED'', d_decision = ''ALLOWED'', d_reason_code = ''POLICY_SATISFIED'', d_occurred_at = now\<rparr>],
       ds_approval_record_hash = dp_approval_record_hash p\<rparr>"
    by (rule dispatch_eq_Inr) blast
  let ?h = "dp_handoff p"
  have wire: "ds_handoff_wire d = b" "ds_approval_record_hash d = dp_approval_record_hash p"
    using bb arg_cong[OF d0, of ds_handoff_wire] arg_cong[OF d0, of ds_approval_record_hash] by simp_all
  note val = admit_validated(1)[OF ad assms(6)]
  have hh: "?h = h" using val assms(11) by simp
  have j: "j \<noteq> []" using dj by (auto simp: check_job_id_eq_Inr)
  have n: "1 \<le> now" using rt by (auto simp: route_eq_Inr)
  have later: "(if g_requires_approval g then validate_pending P (PBytes b) subject j policy (Verifier (rv_handoff_verifier v)) later
      else validate P (PBytes b) subject j policy (Verifier (rv_handoff_verifier v)) later) = Inr ?h"
    by (rule revalidated_later[OF val]) (use assms oc hh j in \<open>auto simp: acceptor_matches_def\<close>)
  have snd: "\<exists>w' g v. PBytes b = PBytes w' \<and> handoff_to_bytes ?h = Inr w' \<and> grant_for policy subject = Inr g
      \<and> handoff_facts policy g j later ?h \<and> payload_facts P ?h"
    using later validate_pending_sound validate_sound_lemma by (cases "g_requires_approval g") (fastforce, fastforce)
  then have hf: "handoff_to_bytes ?h = Inr b" "handoff_facts policy g j later ?h" "payload_facts P ?h" using assms(6) by auto
  from rt assms(6) have "(g_worker_agent_id g, ep) \<in> set (or_workers oc)" by (auto simp: route_eq_Inr dest: map_of_SomeD)
  with assms(2) obtain wkey ik where wk: "worker_authority_init P wkey ik = Inr (wk_authority (we_runner ep))"
    "rv_worker_verifier v = wa_verifier (wk_authority (we_runner ep))" "\<forall>pl. wr_payload (wk_work (we_runner ep) pl) = pl"
    "\<forall>pl x. wr_outcome (wk_work (we_runner ep) pl) = Returned x \<longrightarrow> json_ok x"
    unfolding acceptor_matches_def by fastforce
  have ids: "h_job_id ?h = j" "h_worker_agent_id ?h = g_worker_agent_id g" "g_worker_agent_id g \<noteq> []"
    using hf(2) valid_grantD[OF assms(7)] by (auto simp: handoff_facts_def)
  obtain r where r: "accept P (PBytes (ds_result_wire d)) ?h (VerifierArg (rv_worker_verifier v)) later = Inr r"
    using execute_accepted[OF ex _ wk(1) assms(3,4), of later] wk ids assms(8,9,12,13) j hh by (auto simp: payload_kept_def)
  obtain rb where rb: "result_to_bytes r = Inr rb" using accept_sound_lemma[OF r] by auto
  have ev: "if g_requires_approval g then \<exists>s. evidence (dp_approval_record_hash p) = PStr s \<and> is_digest s else evidence (dp_approval_record_hash p) = PNone"
  proof -
    have "dp_approval_record_hash p \<noteq> None \<longleftrightarrow> g_requires_approval g"
      using local_approvals.admit_sound[of P "or_gateway oc" False "PBytes b" subject j policy now token "ow_gateway w" p g'] ad oc assms(3,6)
      by (auto simp: minted_permit_def split: if_splits)
        (metis dispatch_permit.select_convs(5) option.distinct(1))+
    then show ?thesis using admit_validated(2)[OF ad assms(6)] by (auto simp: evidence_def)
  qed
  have chk: "verifier_checks P v (PBytes (ds_result_wire d)) (PBytes b) subject j policy later (evidence (dp_approval_record_hash p))
      = Inr (?h, r, sha256_hex P b, b, rb)"
    unfolding verifier_checks_eq_Inr using n assms(6,12,14) ev later r rb hf handoff_digest_valid[OF hf(3,1)] by auto
  have la: "local_accept P (h_job_id ?h) b rb later False accepted = (Inr True, sha256_hex P b # accepted)"
    using assms(15,16) by (simp add: local_accept_def Let_def)
  show ?thesis
    unfolding wire verifier_accept_eq_Inr using chk la ids by (intro exI conjI) auto
qed

lemma submitted_accepted:
  assumes "orch_ready P key oc" "acceptor_matches P v oc" "hash_ok P" "ed25519_ok P"
    and "valid_policy policy" "grant_for policy subject = Inr g" "valid_grant g" "policy_text_ok policy g" "0 < p_handoff_ttl_seconds policy"
    and "json_ok request" "is_ascii j" "is_ascii (g_worker_agent_id g)"
    and "submit P oc request subject j policy now token w = (Inr d, w')"
    and "now \<le> later" "later < now + p_handoff_ttl_seconds policy" "later \<le> ORCH_MAX_OCCURRED_AT"
    and "sha256_hex P (ds_handoff_wire d) \<notin> set accepted" "length accepted < MAX_ACCEPTED"
  shows "\<exists>a. verifier_accept P (local_accept P) v (PBytes (ds_result_wire d)) (PBytes (ds_handoff_wire d)) subject j policy later
       (evidence (ds_approval_record_hash d)) False accepted = (Inr a, sha256_hex P (ds_handoff_wire d) # accepted)
     \<and> ac_job_id a = j \<and> ac_worker_agent_id a = g_worker_agent_id g"
proof -
  have wired: "orch_wired P key oc" using assms(1) by (simp add: orch_ready_def)
  note oc = wired[unfolded orch_wired_def]
  from assms(13) obtain am :: admission and d0 where am: "orch_admit P oc request subject j policy now = Inr am"
    "dispatch P oc (PBytes (am_wire am)) subject j policy now token w = (Inr d0, w')" "d = d0\<lparr>ds_decisions := am_decision am # ds_decisions d0\<rparr>"
    by (rule submit_dispatches)
  from am(1) have iss: "issue P request subject j policy (or_signer oc) now = Inr (am_wire am)"
    by (auto simp: orch_admit_def rbind_eq_Inr trusted_eq_Inr)
  obtain p g' where ad: "admit P (or_consume oc False) (or_gateway oc) (PBytes (am_wire am)) subject j policy now token (ow_gateway w) = (Inr p, g')"
    and db: "ds_handoff_wire d0 = am_wire am"
    using am(2) oc by (elim dispatch_eq_Inr) (metis job_dispatch.select_convs(4) pyval.inject(5))+
  note val = admit_validated(1)[OF ad assms(6)]
  have exp: "h_expires_at (dp_handoff p) = now + p_handoff_ttl_seconds policy"
    by (rule issued_expiry[OF iss _ assms(4,3,5-8) _ assms(10,9) _ val]) (use oc assms(11) text_ok_ascii in auto)
  from dispatched_accepted[OF wired assms(2-7,11,12) am(2) val assms(14) _ assms(16), of accepted] exp assms(15,17,18) am(3) db
  show ?thesis by auto
qed

lemma sample_acceptor_matches: "acceptor_matches sample_platform sample_acceptor sample_orch"
proof -
  have "\<exists>key ik. worker_authority_init sample_platform key ik = Inr sample_authority" using sample_authority_init by blast
  then show ?thesis
    by (simp add: acceptor_matches_def sample_acceptor_def sample_orch_def sample_runner_def sample_work_def sample_output_def)
qed

lemma sample_end_to_end:
  "\<exists>d w' a. submit sample_platform sample_orch sample_request (lit ''alice'') (lit ''job-1'') sample_policy 200 None sample_world = (Inr d, w')
     \<and> verifier_accept sample_platform (local_accept sample_platform) sample_acceptor (PBytes (ds_result_wire d)) (PBytes (ds_handoff_wire d))
         (lit ''alice'') (lit ''job-1'') sample_policy 250 (evidence (ds_approval_record_hash d)) False [] = (Inr a, [sha256_hex sample_platform (ds_handoff_wire d)])"
proof -
  obtain d w' where d: "submit sample_platform sample_orch sample_request (lit ''alice'') (lit ''job-1'') sample_policy 200 None sample_world = (Inr d, w')"
    using sample_submit by blast
  have "is_ascii (g_worker_agent_id sample_grant)" by (simp add: sample_grant_def)
  from submitted_accepted[OF sample_orch_ready sample_acceptor_matches sample_platform_ok sample_policy_valid sample_grant_for(1)
      sample_grants_valid(1) sample_text_ok(1) _ sample_text_ok(3) _ this d, of 250 "[]"] d
  show ?thesis by (auto simp: ORCH_MAX_OCCURRED_AT_def MAX_ACCEPTED_def)
qed

section \<open>Properties\<close>

text \<open>C32. A handoff has one accepted result: whatever results are presented for it, copies of the same bytes
  included, at most one acceptance succeeds.\<close>

theorem result_accepted_once: "uses_of (accept_op P v) (accept_handoff P) digest presented accepted \<le> 1"
  by (rule acceptances.at_most_once)

text \<open>A refused result burns nothing: the ledger of accepted handoffs is unchanged by every presentation
  that is refused, so a forged result cannot lock out the genuine one.\<close>

theorem refused_result_burns_nothing:
  assumes "verifier_accept P (local_accept P) v rw hw subject j policy now rh tx accepted = (Inl e, accepted')"
  shows "accepted' = accepted"
  by (rule accept_refused_keeps[OF assms])

theorem refused_result_burns_nothing_witness:
  "\<exists>e. verifier_accept sample_platform (local_accept sample_platform) sample_acceptor PNone PNone (lit ''alice'') (lit ''job-1'')
     sample_policy 200 PNone False [] = (Inl e, [])"
proof -
  obtain e l where e: "verifier_accept sample_platform (local_accept sample_platform) sample_acceptor PNone PNone (lit ''alice'') (lit ''job-1'')
     sample_policy 200 PNone False [] = (Inl e, l)"
    by (simp add: verifier_accept_def verifier_checks_def abind_def alift_def ORCH_MAX_OCCURRED_AT_def approval_evidence_def
        verifier_handoff_def validate_def wire_object_def decode_wire_def catch_contract_def)
  from refused_result_burns_nothing[OF e] e show ?thesis by blast
qed

text \<open>C33. What an acceptance proves: the handoff bytes are a valid, signed handoff of this subject, job and
  policy, unexpired; the result bytes are the canonical form of a result the worker's key signed for
  exactly that handoff, in its lifetime; evidence of an approval was handed over exactly when the grant
  requires one; and the acceptance names the digests of both byte strings.\<close>

theorem acceptance_sound:
  assumes "verifier_accept P ledger v rw hw subject j policy now rh tx l = (Inr a, l')"
  shows "\<exists>g h hb rb. grant_for policy subject = Inr g \<and> hw = PBytes hb \<and> rw = PBytes rb
     \<and> handoff_to_bytes h = Inr hb \<and> handoff_facts policy g j now h \<and> payload_facts P h \<and> signature_facts P (rv_handoff_verifier v) h
     \<and> result_to_bytes (ac_result a) = Inr rb \<and> result_facts P h now (ac_result a) \<and> output_facts P (ac_result a)
     \<and> result_signature_facts P (rv_worker_verifier v) (ac_result a)
     \<and> (if g_requires_approval g then \<exists>s. rh = PStr s \<and> is_digest s else rh = PNone)
     \<and> ac_handoff_sha256 a = sha256_hex P hb \<and> ac_result_sha256 a = sha256_hex P rb \<and> ac_job_id a = j
     \<and> ledger j hb rb now tx l = (Inr True, l')"
proof -
  from assms obtain h r dg hb rb where c: "verifier_checks P v rw hw subject j policy now rh = Inr (h, r, dg, hb, rb)"
    and l: "ledger (h_job_id h) hb rb now tx l = (Inr True, l')"
    and a: "a = \<lparr>ac_job_id = h_job_id h, ac_worker_agent_id = h_worker_agent_id h, ac_handoff_sha256 = dg,
      ac_result_sha256 = sha256_hex P rb, ac_status = r_status r, ac_result = r, ac_approval_record_hash = rh, ac_occurred_at = now\<rparr>"
    by (auto simp: verifier_accept_eq_Inr)
  from c obtain g where g: "grant_for policy subject = Inr g" "hw = PBytes hb" "handoff_facts policy g j now h" "payload_facts P h"
    "signature_facts P (rv_handoff_verifier v) h" "dg = sha256_hex P hb" by (rule checked_handoff)
  from c have r: "accept P rw h (VerifierArg (rv_worker_verifier v)) now = Inr r" "handoff_to_bytes h = Inr hb" "result_to_bytes r = Inr rb"
    "if g_requires_approval g then \<exists>s. rh = PStr s \<and> is_digest s else rh = PNone" using g(1) by (auto simp: verifier_checks_eq_Inr)
  from accept_sound_lemma[OF r(1)] r(3) have "rw = PBytes rb" "result_facts P h now r" "output_facts P r"
    "result_signature_facts P (rv_worker_verifier v) r" by (auto simp: result_verifier_def)
  moreover have "h_job_id h = j" using g(3) by (simp add: handoff_facts_def)
  ultimately show ?thesis using g r l a by (intro exI conjI) simp_all
qed

theorem acceptance_sound_witness:
  "\<exists>rw hw a l h. verifier_accept sample_platform (local_accept sample_platform) sample_acceptor rw hw
       (lit ''alice'') (lit ''job-1'') sample_policy 250 PNone False [] = (Inr a, l)
     \<and> handoff_facts sample_policy sample_grant (lit ''job-1'') 250 h \<and> result_facts sample_platform h 250 (ac_result a)"
proof -
  obtain d :: job_dispatch and a l where a: "verifier_accept sample_platform (local_accept sample_platform) sample_acceptor (PBytes (ds_result_wire d)) (PBytes (ds_handoff_wire d))
      (lit ''alice'') (lit ''job-1'') sample_policy 250 (evidence (ds_approval_record_hash d)) False [] = (Inr a, l)"
    using sample_end_to_end by blast
  have s: "grant_for sample_policy (lit ''alice'') = Inr sample_grant" "\<not> g_requires_approval sample_grant" by simp_all
  from acceptance_sound[OF a] s have e: "evidence (ds_approval_record_hash d) = PNone" by auto
  from acceptance_sound[OF a[unfolded e]] s obtain h where
    "handoff_facts sample_policy sample_grant (lit ''job-1'') 250 h" "result_facts sample_platform h 250 (ac_result a)" by auto
  with a[unfolded e] show ?thesis by blast
qed

end
