(* ===== verification/Keys.thy ===== *)
theory Keys
  imports Results AuditEvents
begin

text \<open>
  \<open>geniusnew/keys.py\<close>: three role keys from one root secret, under three labels.
\<close>

record service_keys =
  sk_integrity_key :: bytes
  sk_result_key :: bytes
  sk_audit_key :: bytes

definition MIN_ROOT_BYTES :: nat where "MIN_ROOT_BYTES = 32"
definition HANDOFF_LABEL :: bytes where "HANDOFF_LABEL = ascii_bytes (lit ''geniusnew/handoff-integrity/v1'')"
definition RESULT_LABEL :: bytes where "RESULT_LABEL = ascii_bytes (lit ''geniusnew/worker-result/v1'')"
definition AUDIT_LABEL :: bytes where "AUDIT_LABEL = ascii_bytes (lit ''geniusnew/audit/v1'')"

definition derive_keys :: "platform \<Rightarrow> pyval \<Rightarrow> service_keys result" where
  "derive_keys P root =
     (case root of
        PBytes secret \<Rightarrow>
          if length secret < MIN_ROOT_BYTES then fail ''root_secret must be at least 32 bytes'' else
          Inr \<lparr>sk_integrity_key = hmac_sha256 P secret HANDOFF_LABEL, sk_result_key = hmac_sha256 P secret RESULT_LABEL,
               sk_audit_key = hmac_sha256 P secret AUDIT_LABEL\<rparr>
      | _ \<Rightarrow> fail ''root_secret must be at least 32 bytes'')"

lemma labels_distinct: "HANDOFF_LABEL \<noteq> RESULT_LABEL" "HANDOFF_LABEL \<noteq> AUDIT_LABEL" "RESULT_LABEL \<noteq> AUDIT_LABEL"
  by (simp_all add: HANDOFF_LABEL_def RESULT_LABEL_def AUDIT_LABEL_def lit_def ascii_bytes_def)

lemma hmac_length: "hash_ok P \<Longrightarrow> length (hmac_sha256 P k m) = 32"
  by (simp add: hash_ok_def hmac_sha256_def)

text \<open>One root secret starts the service: the derived keys are 32 bytes each, a signer, a worker authority
  and an audit authority can be built from them, and the three differ from each other whenever HMAC does
  not collide on the three labels, so that the authority's own check against the handoff key passes.\<close>

theorem derived_keys_separated:
  assumes "derive_keys P root = Inr k" "hash_ok P" "ed25519_ok P"
    and "\<And>secret. root = PBytes secret \<Longrightarrow> inj_on (hmac_sha256 P secret) {HANDOFF_LABEL, RESULT_LABEL, AUDIT_LABEL}"
  shows "distinct [sk_integrity_key k, sk_result_key k, sk_audit_key k]
     \<and> (\<exists>s. handoff_signer_init P (sk_integrity_key k) = Inr s)
     \<and> (\<exists>a. worker_authority_init P (sk_result_key k) (Some (sk_integrity_key k)) = Inr a)
     \<and> (\<exists>a. audit_authority_init P (sk_audit_key k) = Inr a)"
proof -
  from assms(1) obtain secret where s: "root = PBytes secret"
    "k = \<lparr>sk_integrity_key = hmac_sha256 P secret HANDOFF_LABEL, sk_result_key = hmac_sha256 P secret RESULT_LABEL, sk_audit_key = hmac_sha256 P secret AUDIT_LABEL\<rparr>"
    by (cases root) (auto simp: derive_keys_def split: if_splits)
  have d: "distinct [sk_integrity_key k, sk_result_key k, sk_audit_key k]"
    using assms(4)[OF s(1)] labels_distinct by (auto simp: s(2) inj_on_eq_iff)
  have l: "length (sk_integrity_key k) = 32" "length (sk_result_key k) = 32" "length (sk_audit_key k) = 32"
    using hmac_length[OF assms(2)] by (simp_all add: s(2))
  show ?thesis
    using d l assms(3)
    by (auto simp: handoff_signer_init_def worker_authority_init_def audit_authority_init_def Let_def ed25519_ok_def
        handoff_verifier_init_def worker_verifier_init_def audit_verifier_init_def)
qed

definition last_bytes_platform :: platform where
  "last_bytes_platform = sample_platform\<lparr>sha256 := (\<lambda>m. take 32 (drop (length m - 32) m @ replicate 32 0))\<rparr>"

theorem derived_keys_separated_witness:
  "\<exists>k. derive_keys last_bytes_platform (PBytes (replicate 32 5)) = Inr k
     \<and> distinct [sk_integrity_key k, sk_result_key k, sk_audit_key k]"
proof -
  have h: "hash_ok last_bytes_platform" "ed25519_ok last_bytes_platform"
    by (auto simp: hash_ok_def ed25519_ok_def last_bytes_platform_def sample_platform_def)
  obtain k where k: "derive_keys last_bytes_platform (PBytes (replicate 32 5)) = Inr k"
    by (simp add: derive_keys_def MIN_ROOT_BYTES_def)
  have "inj_on (hmac_sha256 last_bytes_platform (replicate 32 5)) {HANDOFF_LABEL, RESULT_LABEL, AUDIT_LABEL}"
    by (simp add: hmac_sha256_def last_bytes_platform_def hmac_pad_def sample_platform_def HANDOFF_LABEL_def RESULT_LABEL_def
        AUDIT_LABEL_def lit_def ascii_bytes_def inj_on_def numeral_eq_Suc)
  then show ?thesis using derived_keys_separated[OF k h] k by auto
qed

end
