(* ===== verification/Recorder.thy ===== *)
theory Recorder
  imports AuditChain
begin

text \<open>
  The class \<open>_AnchoredAudit\<close> of \<open>geniusnew/wiring.py\<close>: one event is appended to the chain and the
  anchor acknowledges the new head before the caller goes on; when the acknowledgement fails, a flag
  makes the next call acknowledge the chain again before it appends anything. The chain and the anchor
  are records of operations (\<open>audit_chain_ops\<close>, the \<open>commit\<close> of an anchor), because the service runs
  with a process-local or a PostgreSQL chain and with an anchor in the process or outside it. The
  locale \<open>recording\<close> is what the class relies on, interpreted on \<open>AuditChain\<close> and \<open>AuditAnchor\<close>.
  The object's lock makes each operation one atomic step.

  \<open>log_step\<close> is the abstract contract: a log of events and how many of them are anchored.
\<close>

section \<open>Operations of a chain and an anchor\<close>

record 'k audit_chain_ops =
  ch_postgres :: bool
  ch_lock :: "('k, unit) action"
  ch_unlock :: "('k, unit) action"
  ch_append :: "audit_event \<Rightarrow> bool \<Rightarrow> ('k, chain_record) action"
  ch_snapshot :: "audit_authority \<Rightarrow> ('k, audit_head \<times> chain_record list) action"

type_synonym 'n anchor_commit = "raw_head option \<Rightarrow> chain_items \<Rightarrow> head_checker \<Rightarrow> ('n, nat \<times> pystr) action"

text \<open>\<open>AuditChain\<close>: its \<open>anchor_lock\<close> is a \<open>nullcontext\<close> and its \<open>append\<close> takes no transaction.\<close>

definition memory_chain :: "platform \<Rightarrow> chain_record list audit_chain_ops" where
  "memory_chain P =
     \<lparr>ch_postgres = False, ch_lock = areturn (), ch_unlock = areturn (),
      ch_append = (\<lambda>event transaction. if transaction then araise (PyError ''TypeError'') else chain_append P event),
      ch_snapshot = (\<lambda>authority rs. (chain_snapshot P (ByAuthority authority) rs, rs))\<rparr>"

section \<open>The recorder\<close>

record ('k, 'n) recorder =
  rd_audit :: audit_authority
  rd_chain :: "'k audit_chain_ops"
  rd_commit :: "'n anchor_commit"

record ('k, 'n) audit_log =
  lg_chain :: 'k
  lg_anchor :: 'n
  lg_needs_reanchor :: bool

abbreviation on_chain :: "('k, 'a) action \<Rightarrow> (('k, 'n) audit_log, 'a) action" where
  "on_chain \<equiv> azoom lg_chain (\<lambda>k s. s\<lparr>lg_chain := k\<rparr>)"

abbreviation on_anchor :: "('n, 'a) action \<Rightarrow> (('k, 'n) audit_log, 'a) action" where
  "on_anchor \<equiv> azoom lg_anchor (\<lambda>a s. s\<lparr>lg_anchor := a\<rparr>)"

definition commit_snapshot :: "('k, 'n) recorder \<Rightarrow> (('k, 'n) audit_log, audit_head) action" where
  "commit_snapshot R =
     abind (on_chain (ch_snapshot (rd_chain R) (rd_audit R))) (\<lambda>(head, records).
     abind (on_anchor (rd_commit R (Some (head_raw head)) (stored records) (ByAuthority (rd_audit R)))) (\<lambda>acknowledged.
     if acknowledged \<noteq> (ah_count head, ah_head_hash head)
     then araise (ContractError ''anchor acknowledgement does not match the submitted head'')
     else areturn head))"

definition ack_locked :: "('k, 'n) recorder \<Rightarrow> (('k, 'n) audit_log, audit_head) action" where
  "ack_locked R s =
     (case commit_snapshot R s of
        (Inl e, s') \<Rightarrow> (Inl e, s'\<lparr>lg_needs_reanchor := True\<rparr>)
      | (Inr head, s') \<Rightarrow> (Inr head, s'\<lparr>lg_needs_reanchor := False\<rparr>))"

definition recover_locked :: "('k, 'n) recorder \<Rightarrow> (('k, 'n) audit_log, unit) action" where
  "recover_locked R s = (if lg_needs_reanchor s then abind (ack_locked R) (\<lambda>_. areturn ()) s else (Inr (), s))"

text \<open>\<open>with self.chain.anchor_lock(): m\<close>.\<close>

definition with_anchor_lock :: "('k, 'n) recorder \<Rightarrow> (('k, 'n) audit_log, 'a) action \<Rightarrow> (('k, 'n) audit_log, 'a) action" where
  "with_anchor_lock R m =
     abind (on_chain (ch_lock (rd_chain R))) (\<lambda>_. afinally m (on_chain (ch_unlock (rd_chain R))))"

definition log_append :: "('k, 'n) recorder \<Rightarrow> audit_event \<Rightarrow> (('k, 'n) audit_log, unit) action" where
  "log_append R event =
     with_anchor_lock R
       (abind (recover_locked R) (\<lambda>_.
        abind (on_chain (ch_append (rd_chain R) event False)) (\<lambda>_.
        abind (ack_locked R) (\<lambda>_. areturn ()))))"

definition log_head :: "('k, 'n) recorder \<Rightarrow> (('k, 'n) audit_log, audit_head) action" where
  "log_head R = with_anchor_lock R (ack_locked R)"

text \<open>The locked section of \<open>atomic\<close>: \<open>m\<close> is the database transaction with the mutation and the append
  of its event, run between recovery and acknowledgement on a state \<open>'w\<close> that holds the log.\<close>

definition log_atomic ::
  "('k, 'n) recorder \<Rightarrow> ('w \<Rightarrow> ('k, 'n) audit_log) \<Rightarrow> (('k, 'n) audit_log \<Rightarrow> 'w \<Rightarrow> 'w) \<Rightarrow> ('w, 'a) action \<Rightarrow> ('w, 'a) action" where
  "log_atomic R get put m =
     (if \<not> ch_postgres (rd_chain R) then araise (ContractError ''atomic audit mutation needs a PostgreSQL chain'') else
      abind (azoom get put (on_chain (ch_lock (rd_chain R)))) (\<lambda>_.
      afinally
        (abind (azoom get put (recover_locked R)) (\<lambda>_.
         abind m (\<lambda>result.
         abind (azoom get put (ack_locked R)) (\<lambda>_. areturn result))))
        (azoom get put (on_chain (ch_unlock (rd_chain R))))))"

section \<open>What the recorder relies on and guarantees\<close>

text \<open>The abstract log: the events, how many are anchored, and whether the last acknowledgement failed.\<close>

record abstract_log =
  al_events :: "audit_event list"
  al_anchored :: nat
  al_doubtful :: bool

definition al_ok :: "abstract_log \<Rightarrow> bool" where
  "al_ok l \<longleftrightarrow> al_anchored l \<le> length (al_events l) \<and> (\<not> al_doubtful l \<longrightarrow> al_anchored l = length (al_events l))"

text \<open>What an append may do: publish the event; refuse it and change nothing but the anchor, which can
  only catch up; or raise although the event is kept, its acknowledgement in doubt or only unreported.\<close>

inductive log_step :: "audit_event \<Rightarrow> bool \<Rightarrow> abstract_log \<Rightarrow> abstract_log \<Rightarrow> bool" for e where
  published: "log_step e True l \<lparr>al_events = al_events l @ [e], al_anchored = Suc (length (al_events l)), al_doubtful = False\<rparr>"
| refused: "n = al_anchored l \<or> n = length (al_events l) \<Longrightarrow>
    log_step e False l \<lparr>al_events = al_events l, al_anchored = n, al_doubtful = d\<rparr>"
| unreported: "n = length (al_events l) \<and> d \<or> n = Suc (length (al_events l)) \<Longrightarrow>
    log_step e False l \<lparr>al_events = al_events l @ [e], al_anchored = n, al_doubtful = d\<rparr>"

inductive_simps log_step_True: "log_step e True l l'"

text \<open>The abstract log of a state, given the records a chain holds and what an anchor committed; and the
  invariant: what is anchored is a prefix of the chain, all of it unless the last acknowledgement failed.\<close>

definition log_abs :: "('k \<Rightarrow> chain_record list) \<Rightarrow> ('n \<Rightarrow> nat \<times> pystr) \<Rightarrow> ('k, 'n) audit_log \<Rightarrow> abstract_log" where
  "log_abs recs com s =
     \<lparr>al_events = map cr_event (recs (lg_chain s)), al_anchored = fst (com (lg_anchor s)), al_doubtful = lg_needs_reanchor s\<rparr>"

definition log_ok :: "('k \<Rightarrow> chain_record list) \<Rightarrow> ('n \<Rightarrow> nat \<times> pystr) \<Rightarrow> ('k, 'n) audit_log \<Rightarrow> bool" where
  "log_ok recs com s \<longleftrightarrow> al_ok (log_abs recs com s)
     \<and> snd (com (lg_anchor s)) = end_hash EMPTY_HASH (take (fst (com (lg_anchor s))) (recs (lg_chain s)))"

locale recording =
  fixes R :: "('k, 'n) recorder"
    and recs :: "'k \<Rightarrow> chain_record list"
    and com :: "'n \<Rightarrow> nat \<times> pystr"
  assumes append_ok: "ch_append (rd_chain R) e tx k = (Inr r, k') \<Longrightarrow> recs k' = recs k @ [r] \<and> cr_event r = e"
    and append_refused: "ch_append (rd_chain R) e tx k = (Inl x, k') \<Longrightarrow> recs k' = recs k"
    and lock_keeps: "ch_lock (rd_chain R) k = (u, k') \<Longrightarrow> recs k' = recs k"
    and unlock_keeps: "ch_unlock (rd_chain R) k = (u, k') \<Longrightarrow> recs k' = recs k"
    and snapshot_keeps: "ch_snapshot (rd_chain R) a k = (v, k') \<Longrightarrow> recs k' = recs k"
    and snapshot_is: "ch_snapshot (rd_chain R) a k = (Inr (h, rs), k') \<Longrightarrow>
      rs = recs k \<and> ah_count h = length rs \<and> ah_head_hash h = end_hash EMPTY_HASH rs"
    and commit_acks: "rd_commit R (Some (head_raw h)) items b n = (Inr (ah_count h, ah_head_hash h), n') \<Longrightarrow>
      com n' = (ah_count h, ah_head_hash h)"
    and commit_moves: "rd_commit R (Some (head_raw h)) items b n = (w, n') \<Longrightarrow> com n' = com n \<or> com n' = (ah_count h, ah_head_hash h)"
begin

lemma commit_snapshot_cases:
  assumes "commit_snapshot R s = (r, s')"
  defines "all \<equiv> (length (recs (lg_chain s)), end_hash EMPTY_HASH (recs (lg_chain s)))"
  shows "recs (lg_chain s') = recs (lg_chain s) \<and> lg_needs_reanchor s' = lg_needs_reanchor s
     \<and> (com (lg_anchor s') = com (lg_anchor s) \<or> com (lg_anchor s') = all)
     \<and> (is_ok r \<longrightarrow> com (lg_anchor s') = all)"
proof (cases "ch_snapshot (rd_chain R) (rd_audit R) (lg_chain s)")
  case (Pair v k)
  note k = snapshot_keeps[OF Pair]
  show ?thesis
  proof (cases v)
    case (Inl e)
    with Pair assms(1) k show ?thesis by (auto simp: commit_snapshot_def abind_def azoom_def)
  next
    case (Inr x)
    obtain h rs where x: "x = (h, rs)" by (cases x)
    note h = snapshot_is[OF Pair[unfolded Inr x]]
    obtain w n where c: "rd_commit R (Some (head_raw h)) (stored rs) (ByAuthority (rd_audit R)) (lg_anchor s) = (w, n)" by force
    have s': "s' = s\<lparr>lg_chain := k, lg_anchor := n\<rparr>" "is_ok r \<longrightarrow> w = Inr (ah_count h, ah_head_hash h)"
      using assms(1) Pair Inr x c
      by (auto simp: commit_snapshot_def abind_def azoom_def araise_def areturn_def is_ok_def split: sum.splits if_splits)
    from commit_moves[OF c] commit_acks[of h "stored rs" "ByAuthority (rd_audit R)" "lg_anchor s" n] c s' h k
    show ?thesis by (auto simp: all_def)
  qed
qed

lemma ack_cases:
  assumes "ack_locked R s = (r, s')"
  defines "all \<equiv> (length (recs (lg_chain s)), end_hash EMPTY_HASH (recs (lg_chain s)))"
  shows "recs (lg_chain s') = recs (lg_chain s) \<and> lg_needs_reanchor s' = (\<not> is_ok r)
     \<and> (com (lg_anchor s') = com (lg_anchor s) \<or> com (lg_anchor s') = all) \<and> (is_ok r \<longrightarrow> com (lg_anchor s') = all)"
proof (cases "commit_snapshot R s")
  case (Pair v t)
  from commit_snapshot_cases[OF Pair] assms Pair show ?thesis
    by (auto simp: ack_locked_def all_def split: sum.splits)
qed

lemma log_ok_anchor:
  assumes "recs (lg_chain s') = recs (lg_chain s)" "lg_needs_reanchor s' = (\<not> done)"
    and "com (lg_anchor s') = com (lg_anchor s) \<or> com (lg_anchor s') = (length (recs (lg_chain s)), end_hash EMPTY_HASH (recs (lg_chain s)))"
    and "done \<longrightarrow> com (lg_anchor s') = (length (recs (lg_chain s)), end_hash EMPTY_HASH (recs (lg_chain s)))"
    and "log_ok recs com (s\<lparr>lg_needs_reanchor := True\<rparr>)"
  shows "log_ok recs com s'"
  using assms by (auto simp: log_ok_def al_ok_def log_abs_def)

lemma log_ok_doubt: "log_ok recs com s \<Longrightarrow> log_ok recs com (s\<lparr>lg_needs_reanchor := True\<rparr>)"
  by (auto simp: log_ok_def al_ok_def log_abs_def)

lemma ack_keeps: "keeps (log_ok recs com) (ack_locked R)"
  proof (rule keepsI)
  fix s r s'
  assume a: "ack_locked R s = (r, s')" "log_ok recs com s"
  from ack_cases[OF a(1)] log_ok_doubt[OF a(2)] show "log_ok recs com s'"
    by (elim conjE) (rule log_ok_anchor[of s' s "is_ok r"])
qed

lemma recover_cases:
  assumes "recover_locked R s = (r, s')" "log_ok recs com s"
  shows "recs (lg_chain s') = recs (lg_chain s) \<and> log_ok recs com s'
     \<and> (com (lg_anchor s') = com (lg_anchor s) \<or> fst (com (lg_anchor s')) = length (recs (lg_chain s)))
     \<and> (is_ok r \<longrightarrow> \<not> lg_needs_reanchor s')"
proof (cases "lg_needs_reanchor s")
  case True
  obtain v t where a: "ack_locked R s = (v, t)" by force
  then have t: "t = s'" "is_ok r = is_ok v"
    using assms(1) True by (auto simp: recover_locked_def abind_def areturn_def split: sum.splits)
  from ack_cases[OF a] keepsD[OF ack_keeps a assms(2)] t show ?thesis by auto
qed (use assms in \<open>auto simp: recover_locked_def\<close>)

lemma same_records:
  assumes "recs k = recs (lg_chain s)"
  shows "log_ok recs com (s\<lparr>lg_chain := k\<rparr>) = log_ok recs com s" "log_abs recs com (s\<lparr>lg_chain := k\<rparr>) = log_abs recs com s"
  using assms by (simp_all add: log_ok_def log_abs_def)

lemma append_body:
  assumes "abind (recover_locked R) (\<lambda>_. abind (on_chain (ch_append (rd_chain R) e False)) (\<lambda>_.
     abind (ack_locked R) (\<lambda>_. areturn ()))) s = (r, s')" "log_ok recs com s"
  shows "log_step e (is_ok r) (log_abs recs com s) (log_abs recs com s') \<and> log_ok recs com s'"
proof -
  obtain v t where v: "recover_locked R s = (v, t)" by force
  note rc = recover_cases[OF v assms(2)]
  show ?thesis
  proof (cases v)
    case (Inl x)
    then have "r = Inl x" "s' = t" using assms(1) v by (auto simp: abind_def)
    moreover have "log_step e False (log_abs recs com s) (log_abs recs com t)"
      using log_step.refused[of "fst (com (lg_anchor t))" "log_abs recs com s" e "lg_needs_reanchor t"] rc by (auto simp: log_abs_def)
    ultimately show ?thesis using rc by simp
  next
    case (Inr u)
    obtain y k where y: "ch_append (rd_chain R) e False (lg_chain t) = (y, k)" by force
    show ?thesis
    proof (cases y)
      case (Inl x)
      then have "r = Inl x" "s' = t\<lparr>lg_chain := k\<rparr>" using assms(1) v Inr y by (auto simp: abind_def azoom_def)
      moreover have k: "recs k = recs (lg_chain t)" using append_refused y Inl by blast
      moreover have "log_step e False (log_abs recs com s) (log_abs recs com t)"
        using log_step.refused[of "fst (com (lg_anchor t))" "log_abs recs com s" e "lg_needs_reanchor t"] rc by (auto simp: log_abs_def)
      ultimately show ?thesis using rc same_records[OF k] by simp
    next
      case (Inr rec)
      then have k: "recs k = recs (lg_chain t) @ [rec]" "cr_event rec = e" using append_ok y by blast+
      obtain w z where w: "ack_locked R (t\<lparr>lg_chain := k\<rparr>) = (w, z)" by force
      have z: "s' = z" "is_ok r = is_ok w"
        using assms(1) v \<open>v = Inr u\<close> y Inr w by (auto simp: abind_def azoom_def areturn_def split: sum.splits)
      note ak = ack_cases[OF w]
      have t: "com (lg_anchor t) = (length (recs (lg_chain t)), end_hash EMPTY_HASH (recs (lg_chain t)))"
        using rc \<open>v = Inr u\<close> by (cases "com (lg_anchor t)") (auto simp: log_ok_def al_ok_def log_abs_def)
      have "log_ok recs com (t\<lparr>lg_chain := k, lg_needs_reanchor := True\<rparr>)"
        using t k by (simp add: log_ok_def al_ok_def log_abs_def)
      then have ok: "log_ok recs com z" using ak by (intro log_ok_anchor[of z "t\<lparr>lg_chain := k\<rparr>" "is_ok w"]) auto
      have "log_step e (is_ok w) (log_abs recs com s) (log_abs recs com z)"
      proof (cases "is_ok w")
        case True
        with ak k rc show ?thesis by (auto simp: log_abs_def log_step_True)
      next
        case False
        have "fst (com (lg_anchor z)) = length (al_events (log_abs recs com s)) \<or> fst (com (lg_anchor z)) = Suc (length (al_events (log_abs recs com s)))"
          using ak k t rc by (auto simp: log_abs_def)
        moreover have "log_abs recs com z = \<lparr>al_events = al_events (log_abs recs com s) @ [e], al_anchored = fst (com (lg_anchor z)), al_doubtful = True\<rparr>"
          using ak k rc False by (simp add: log_abs_def)
        ultimately show ?thesis using False log_step.unreported[of "fst (com (lg_anchor z))" "log_abs recs com s" True e] by simp
      qed
      with ok z show ?thesis by simp
    qed
  qed
qed

lemma append_refines:
  assumes "log_append R e s = (r, s')" "log_ok recs com s"
  shows "log_step e (is_ok r) (log_abs recs com s) (log_abs recs com s') \<and> log_ok recs com s'"
proof -
  obtain u k where u: "ch_lock (rd_chain R) (lg_chain s) = (u, k)" by force
  note k = same_records[OF lock_keeps[OF u]]
  show ?thesis
  proof (cases u)
    case (Inl x)
    then have "r = Inl x" "s' = s\<lparr>lg_chain := k\<rparr>" using assms(1) u by (auto simp: log_append_def with_anchor_lock_def abind_def azoom_def)
    with k assms(2) log_step.refused[of "al_anchored (log_abs recs com s)" "log_abs recs com s" e "al_doubtful (log_abs recs com s)"]
    show ?thesis by (simp add: log_abs_def)
  next
    case (Inr y)
    let ?m = "abind (recover_locked R) (\<lambda>_. abind (on_chain (ch_append (rd_chain R) e False)) (\<lambda>_. abind (ack_locked R) (\<lambda>_. areturn ())))"
    obtain v t where v: "?m (s\<lparr>lg_chain := k\<rparr>) = (v, t)" by force
    from append_body[OF v] k assms(2) have b: "log_step e (is_ok v) (log_abs recs com s) (log_abs recs com t)" "log_ok recs com t" by auto
    obtain w k' where w: "ch_unlock (rd_chain R) (lg_chain t) = (w, k')" by force
    note k' = same_records[OF unlock_keeps[OF w]]
    have s': "s' = t\<lparr>lg_chain := k'\<rparr>" "r = (case w of Inl x \<Rightarrow> Inl x | Inr _ \<Rightarrow> v)"
      using assms(1) u Inr v w
      by (auto simp: log_append_def with_anchor_lock_def afinally_def abind_apply[of "on_chain _"] azoom_def split: sum.splits)
    have "log_step e (is_ok r) (log_abs recs com s) (log_abs recs com t)"
    proof (cases "is_ok v \<and> \<not> is_ok r")
      case True
      with b(1) have "log_abs recs com t = \<lparr>al_events = al_events (log_abs recs com s) @ [e],
          al_anchored = Suc (length (al_events (log_abs recs com s))), al_doubtful = False\<rparr>" by (simp add: log_step_True)
      with True show ?thesis using log_step.unreported[of _ "log_abs recs com s" False e] by simp
    next
      case False
      with s'(2) have "is_ok r = is_ok v" by (auto simp: is_ok_def split: sum.splits)
      with b show ?thesis by simp
    qed
    with b(2) k' s' show ?thesis by simp
  qed
qed

lemma append_keeps: "keeps (log_ok recs com) (log_append R e)"
  using append_refines by (blast intro: keepsI)

lemma lock_keeps_ok: "keeps (log_ok recs com) (on_chain (ch_lock (rd_chain R)))" "keeps (log_ok recs com) (on_chain (ch_unlock (rd_chain R)))"
  using same_records lock_keeps unlock_keeps by (auto simp: keeps_def azoom_eq)

lemma head_keeps: "keeps (log_ok recs com) (log_head R)"
  unfolding log_head_def with_anchor_lock_def by (intro keeps_rules ack_keeps lock_keeps_ok)

text \<open>Evidence is never erased.\<close>

lemma append_extends: "keeps (\<lambda>s. log_ok recs com s \<and> prefix es (al_events (log_abs recs com s))) (log_append R e)"
proof (rule keepsI)
  fix s r s'
  assume a: "log_append R e s = (r, s')" "log_ok recs com s \<and> prefix es (al_events (log_abs recs com s))"
  then have "log_step e (is_ok r) (log_abs recs com s) (log_abs recs com s') \<and> log_ok recs com s'" using append_refines by blast
  then show "log_ok recs com s' \<and> prefix es (al_events (log_abs recs com s'))"
    using a(2) by (auto elim!: log_step.cases)
qed

end

section \<open>The process-local chain and the anchor in the process\<close>

definition local_recorder :: "platform \<Rightarrow> audit_authority \<Rightarrow> (chain_record list, anchor) recorder" where
  "local_recorder P audit = \<lparr>rd_audit = audit, rd_chain = memory_chain P, rd_commit = commit P\<rparr>"

definition local_log :: "(chain_record list, anchor) audit_log" where
  "local_log = \<lparr>lg_chain = [], lg_anchor = anchor_new, lg_needs_reanchor = False\<rparr>"

lemma head_raw_inject: "head_raw h = head_raw h' \<longleftrightarrow> h = h'"
  by (cases h; cases h') (auto simp: head_raw_def)

lemma commit_cases:
  assumes "commit P (Some (head_raw h)) items b a = (r, a')"
  shows "r = Inr (committed (anchor_at h)) \<and> a' = anchor_at h \<or> \<not> is_ok r \<and> a' = a"
proof (cases r)
  case (Inl e)
  then show ?thesis using commit_refused assms by auto
next
  case (Inr x)
  obtain h' rs where "verify_chain P items (Some (head_raw h)) b = Inr (h', rs)" "commit_locked h' rs a = (Inr x, a')"
    using assms[unfolded Inr] unfolding commit_def abind_eq_Inr alift_eq commit_checks by auto
  moreover from this have "h' = h" by (auto simp: verify_chain_eq_Inr verify_head_eq_Inr head_raw_inject)
  ultimately show ?thesis using Inr by (auto simp: commit_locked_def split: sum.splits)
qed

interpretation local_audit: recording "local_recorder P audit" "\<lambda>rs. rs" committed
proof unfold_locales
  fix a k h rs k'
  assume "ch_snapshot (rd_chain (local_recorder P audit)) a k = (Inr (h, rs), k')"
  then show "rs = k \<and> ah_count h = length rs \<and> ah_head_hash h = end_hash EMPTY_HASH rs"
    by (auto simp: local_recorder_def memory_chain_def chain_snapshot_def sign_head_def rbind_eq_Inr py_count_eq_Inr py_digest_eq_Inr)
next
  fix h items b n n' w
  assume "rd_commit (local_recorder P audit) (Some (head_raw h)) items b n = (w, n')"
  from commit_cases[OF this[unfolded local_recorder_def recorder.select_convs]]
  show "committed n' = committed n \<or> committed n' = (ah_count h, ah_head_hash h)" by (auto simp: committed_def anchor_at_def)
next
  fix h items b n n'
  assume "rd_commit (local_recorder P audit) (Some (head_raw h)) items b n = (Inr (ah_count h, ah_head_hash h), n')"
  from commit_cases[OF this[unfolded local_recorder_def recorder.select_convs]]
  show "committed n' = (ah_count h, ah_head_hash h)" by (auto simp: committed_def anchor_at_def)
qed (auto simp: local_recorder_def memory_chain_def chain_append_def Let_def areturn_def araise_def split: sum.splits if_splits)

section \<open>The process-local log always gets its acknowledgement\<close>

abbreviation local_ok :: "(chain_record list, anchor) audit_log \<Rightarrow> bool" where
  "local_ok \<equiv> log_ok (\<lambda>rs. rs) committed"

abbreviation local_abs :: "(chain_record list, anchor) audit_log \<Rightarrow> abstract_log" where
  "local_abs \<equiv> log_abs (\<lambda>rs. rs) committed"

definition log_linked :: "platform \<Rightarrow> (chain_record list, anchor) audit_log \<Rightarrow> bool" where
  "log_linked P s \<longleftrightarrow> linked P 0 EMPTY_HASH (lg_chain s)"

lemma verify_chain_authority:
  "verify_chain P items raw (ByAuthority a) = verify_chain P items raw (ByVerifier (aa_verifier a))"
  by (simp add: verify_chain_def verify_head_def head_verifier_def)

lemma local_log_backed:
  assumes "local_ok s" "log_linked P s"
  shows "backed P (lg_anchor s) \<and> continues (lg_anchor s) (lg_chain s)"
proof -
  let ?n = "an_count (lg_anchor s)"
  have "linked P 0 EMPTY_HASH (take ?n (lg_chain s) @ drop ?n (lg_chain s))" using assms(2) by (simp add: log_linked_def)
  then have "linked P 0 EMPTY_HASH (take ?n (lg_chain s))" unfolding linked_append by blast
  then show ?thesis using assms(1)
    by (auto simp: backed_def backs_def continues_def log_ok_def al_ok_def log_abs_def committed_def intro!: exI[of _ "take ?n (lg_chain s)"])
qed

lemma local_ack:
  assumes "audit_authority_init P key = Inr audit" "ed25519_ok P" "int (length (lg_chain s)) \<le> MAX_COUNT"
    and "local_ok s" "log_linked P s"
  shows "\<exists>head. ack_locked (local_recorder P audit) s = (Inr head, \<lparr>lg_chain = lg_chain s, lg_anchor = anchor_at head, lg_needs_reanchor = False\<rparr>)
     \<and> chain_snapshot P (ByAuthority audit) (lg_chain s) = Inr (head, lg_chain s)
     \<and> verify_chain P (stored (lg_chain s)) (Some (head_raw head)) (ByVerifier (aa_verifier audit)) = Inr (head, lg_chain s)"
proof -
  obtain head where h: "chain_snapshot P (ByAuthority audit) (lg_chain s) = Inr (head, lg_chain s)"
    "verify_chain P (stored (lg_chain s)) (Some (head_raw head)) (ByVerifier (aa_verifier audit)) = Inr (head, lg_chain s)"
    using snapshot_verifies[OF assms(1-3)] assms(5) by (auto simp: log_linked_def)
  note b = local_log_backed[OF assms(4,5)]
  have c: "commit P (Some (head_raw head)) (stored (lg_chain s)) (ByAuthority audit) (lg_anchor s) = (Inr (committed (anchor_at head)), anchor_at head)"
    using b h(2) by (simp add: commit_eq_Inr verify_chain_authority)
  have "ack_locked (local_recorder P audit) s = (Inr head, \<lparr>lg_chain = lg_chain s, lg_anchor = anchor_at head, lg_needs_reanchor = False\<rparr>)"
    using h(1) c by (simp add: ack_locked_def commit_snapshot_def local_recorder_def memory_chain_def abind_def azoom_def areturn_def
        committed_def anchor_at_def)
  with h show ?thesis by blast
qed

lemma local_lock: "with_anchor_lock (local_recorder P audit) m = m"
proof (rule ext)
  fix s :: "(chain_record list, anchor) audit_log"
  have u: "on_chain (areturn ()) t = (Inr (), t)" for t :: "(chain_record list, anchor) audit_log"
    by (simp add: azoom_def areturn_def)
  show "with_anchor_lock (local_recorder P audit) m s = m s"
    by (simp add: with_anchor_lock_def local_recorder_def memory_chain_def abind_def u afinally_return[OF u])
qed

lemma local_append_body: "log_append (local_recorder P audit) e =
    abind (recover_locked (local_recorder P audit)) (\<lambda>_.
    abind (on_chain (chain_append P e)) (\<lambda>_.
    abind (ack_locked (local_recorder P audit)) (\<lambda>_. areturn ())))"
proof -
  have c: "ch_append (rd_chain (local_recorder P audit)) e False = chain_append P e"
    by (simp add: local_recorder_def memory_chain_def)
  show ?thesis unfolding log_append_def local_lock c ..
qed

text \<open>Acknowledging reads the chain and leaves it as it is.\<close>

lemma ack_chain: "keeps (\<lambda>s. Q (lg_chain s)) (ack_locked (local_recorder P audit))"
proof (rule keepsI)
  fix s r s'
  have snap: "keeps (\<lambda>s. Q (lg_chain s)) (on_chain (ch_snapshot (rd_chain (local_recorder P audit)) a))" for a
    by (auto simp: keeps_def azoom_eq local_recorder_def memory_chain_def)
  have anch: "keeps (\<lambda>s. Q (lg_chain s)) (on_anchor m)" for m :: "(anchor, 'a) action"
    by (auto simp: keeps_def azoom_eq)
  have k: "keeps (\<lambda>s. Q (lg_chain s)) (commit_snapshot (local_recorder P audit))"
    unfolding commit_snapshot_def by (intro keeps_rules snap anch)
  assume "ack_locked (local_recorder P audit) s = (r, s')" "Q (lg_chain s)"
  then show "Q (lg_chain s')" using keepsD[OF k]
    by (fastforce simp: ack_locked_def split: prod.splits sum.splits)
qed

lemma recover_chain: "keeps (\<lambda>s. Q (lg_chain s)) (recover_locked (local_recorder P audit))"
proof (rule keepsI)
  fix s r s'
  have k: "keeps (\<lambda>s. Q (lg_chain s)) (abind (ack_locked (local_recorder P audit)) (\<lambda>_. areturn ()))" by (intro keeps_rules ack_chain)
  assume "recover_locked (local_recorder P audit) s = (r, s')" "Q (lg_chain s)"
  then show "Q (lg_chain s')" using keepsD[OF k] by (auto simp: recover_locked_def split: if_splits)
qed

lemma head_chain: "keeps (\<lambda>s. Q (lg_chain s)) (log_head (local_recorder P audit))"
  unfolding log_head_def local_lock by (rule ack_chain)

lemma log_linked_append:
  assumes "hash_ok P"
  shows "keeps (log_linked P) (log_append (local_recorder P audit) e)"
proof -
  have app: "keeps (\<lambda>s. linked P 0 EMPTY_HASH (lg_chain s)) (on_chain (chain_append P e))"
    using chain_append_linked[OF assms] by (auto simp: keeps_def azoom_eq)
  have "log_linked P = (\<lambda>s. linked P 0 EMPTY_HASH (lg_chain s))" by (simp add: fun_eq_iff log_linked_def)
  then show ?thesis unfolding local_append_body by (auto intro!: keeps_rules recover_chain app ack_chain)
qed

lemma local_append_ok:
  assumes "audit_authority_init P key = Inr audit" "hash_ok P" "ed25519_ok P" "int (length (lg_chain s)) < MAX_COUNT"
    and "local_ok s" "log_linked P s" "valid_event e" "valid_actor (ev_actor e)"
  shows "\<exists>rec a. log_append (local_recorder P audit) e s = (Inr (), \<lparr>lg_chain = lg_chain s @ [rec], lg_anchor = a, lg_needs_reanchor = False\<rparr>)
     \<and> cr_event rec = e \<and> committed a = (length (lg_chain s @ [rec]), cr_record_hash rec)"
proof -
  obtain t where t: "recover_locked (local_recorder P audit) s = (Inr (), t)" "lg_chain t = lg_chain s"
  proof (cases "lg_needs_reanchor s")
    case True
    obtain head where "ack_locked (local_recorder P audit) s = (Inr head, \<lparr>lg_chain = lg_chain s, lg_anchor = anchor_at head, lg_needs_reanchor = False\<rparr>)"
      using local_ack[OF assms(1,3) _ assms(5,6)] assms(4) by auto
    with True that show thesis by (simp add: recover_locked_def abind_def areturn_def)
  qed (use that in \<open>simp add: recover_locked_def\<close>)
  have rok: "local_ok t" "\<not> lg_needs_reanchor t" using local_audit.recover_cases[OF t(1) assms(5)] by auto
  have n: "length (lg_chain t) < 10 ^ 18" using assms(4) t(2) by (simp add: MAX_COUNT_def)
  from chain_append_total[OF assms(7,8) n, of P] obtain rec where rec: "chain_append P e (lg_chain t) = (Inr rec, lg_chain t @ [rec])" "cr_event rec = e"
    by blast
  have lk: "log_linked P (t\<lparr>lg_chain := lg_chain t @ [rec]\<rparr>)"
    using chain_append_linked[OF assms(2) rec(1)] assms(6) t(2) by (simp add: log_linked_def)
  let ?u = "t\<lparr>lg_chain := lg_chain t @ [rec]\<rparr>"
  have "local_ok (?u\<lparr>lg_needs_reanchor := True\<rparr>)" "log_linked P (?u\<lparr>lg_needs_reanchor := True\<rparr>)"
    using rok lk by (auto simp: log_ok_def al_ok_def log_abs_def log_linked_def)
  from local_ack[OF assms(1,3) _ this] assms(4) t(2) obtain head where
    h: "ack_locked (local_recorder P audit) (?u\<lparr>lg_needs_reanchor := True\<rparr>) = (Inr head, \<lparr>lg_chain = lg_chain s @ [rec], lg_anchor = anchor_at head, lg_needs_reanchor = False\<rparr>)"
    and v: "verify_chain P (stored (lg_chain s @ [rec])) (Some (head_raw head)) (ByVerifier (aa_verifier audit)) = Inr (head, lg_chain s @ [rec])"
    by auto
  have same: "ack_locked R (x\<lparr>lg_needs_reanchor := True\<rparr>) = ack_locked R x" for R :: "(chain_record list, anchor) recorder" and x
    by (cases x) (auto simp: ack_locked_def commit_snapshot_def abind_def azoom_def araise_def areturn_def split: prod.splits sum.splits)
  have c: "committed (anchor_at head) = (length (lg_chain s @ [rec]), cr_record_hash rec)"
    using v by (auto simp: verify_chain_eq_Inr committed_def anchor_at_def)
  have "log_append (local_recorder P audit) e s = (Inr (), \<lparr>lg_chain = lg_chain s @ [rec], lg_anchor = anchor_at head, lg_needs_reanchor = False\<rparr>)"
    unfolding local_append_body using t(1) rec(1) h[unfolded same] by (simp add: abind_def azoom_def areturn_def)
  with rec(2) c show ?thesis by blast
qed

section \<open>Properties\<close>

text \<open>C8. The recorder implements an append-only, anchored log: from a state in which the anchor holds a prefix
  of the chain, every append is one of the three steps of the contract (published; refused; kept but not
  reported), and the anchor again holds a prefix of the chain, the whole of it unless the last
  acknowledgement failed.\<close>

theorem recorder_refines_log:
  assumes "log_append (local_recorder P audit) e s = (r, s')" "log_ok (\<lambda>rs. rs) committed s"
  shows "log_step e (is_ok r) (log_abs (\<lambda>rs. rs) committed s) (log_abs (\<lambda>rs. rs) committed s') \<and> log_ok (\<lambda>rs. rs) committed s'"
  by (rule local_audit.append_refines[OF assms])

lemma local_log_ok [simp]: "local_ok local_log" "log_linked P local_log"
  by (auto simp: log_ok_def al_ok_def log_abs_def committed_def local_log_def anchor_new_def log_linked_def)

theorem recorder_refines_log_witness:
  "\<exists>s'. log_append (local_recorder sample_platform sample_audit) sample_event local_log = (Inr (), s')
     \<and> log_step sample_event True (log_abs (\<lambda>rs. rs) committed local_log) (log_abs (\<lambda>rs. rs) committed s')"
proof -
  obtain s' where s': "log_append (local_recorder sample_platform sample_audit) sample_event local_log = (Inr (), s')"
    using local_append_ok[OF sample_audit_init sample_platform_ok _ local_log_ok sample_event_ok(1,2)]
    by (auto simp: local_log_def MAX_COUNT_def)
  from recorder_refines_log[OF s' local_log_ok(1)] s' show ?thesis by auto
qed

text \<open>A recorded event is anchored before the caller goes on: on an intact log below the count limit, an
  append returns, the chain ends with the event's record, and the anchor has committed exactly that
  length and that record's hash, also when an earlier acknowledgement had failed.\<close>

theorem append_is_anchored:
  assumes "audit_authority_init P key = Inr audit" "hash_ok P" "ed25519_ok P" "int (length (lg_chain s)) < MAX_COUNT"
    and "log_ok (\<lambda>rs. rs) committed s" "log_linked P s" "valid_event e" "valid_actor (ev_actor e)"
  shows "\<exists>rec a. log_append (local_recorder P audit) e s = (Inr (), \<lparr>lg_chain = lg_chain s @ [rec], lg_anchor = a, lg_needs_reanchor = False\<rparr>)
     \<and> cr_event rec = e \<and> committed a = (length (lg_chain s @ [rec]), cr_record_hash rec)"
  by (rule local_append_ok[OF assms])

theorem append_is_anchored_witness:
  "\<exists>rec a. log_append (local_recorder sample_platform sample_audit) sample_event (local_log\<lparr>lg_needs_reanchor := True\<rparr>)
       = (Inr (), \<lparr>lg_chain = [rec], lg_anchor = a, lg_needs_reanchor = False\<rparr>)
     \<and> cr_event rec = sample_event \<and> committed a = (1, cr_record_hash rec)"
proof -
  have "local_ok (local_log\<lparr>lg_needs_reanchor := True\<rparr>)" "log_linked sample_platform (local_log\<lparr>lg_needs_reanchor := True\<rparr>)"
    using local_log_ok by (auto simp: log_ok_def al_ok_def log_abs_def log_linked_def)
  from append_is_anchored[OF sample_audit_init sample_platform_ok _ this sample_event_ok(1,2)]
  show ?thesis by (auto simp: local_log_def MAX_COUNT_def)
qed

end
