(* ===== verification/Pending.thy ===== *)
theory Pending
  imports Results SingleUse
begin

text \<open>
  The classes \<open>_Waiting\<close> and \<open>PendingJobs\<close> of \<open>geniusnew/wiring.py\<close>: jobs that wait for an approval, by
  job id. The dict is an association list with distinct keys; the lock makes each operation one atomic
  step. \<open>decide\<close> marks the job and then calls back; \<open>pending_decide\<close> is the part under the lock up to the
  call, and the caller runs the callback after it. \<open>pending_run\<close> interleaves the operations of any number
  of clients, with the jobs that are taken and not yet settled.
\<close>

section \<open>Data and operations\<close>

record waiting =
  wt_subject :: pystr
  wt_wire :: bytes
  wt_handoff :: handoff
  wt_trace_id :: pystr
  wt_decision_expires_at :: int

type_synonym pending_jobs = "(pystr \<times> waiting) list"

definition MAX_PENDING :: nat where "MAX_PENDING = 1000"

definition pending_add :: "pystr \<Rightarrow> waiting \<Rightarrow> int \<Rightarrow> bool \<Rightarrow> (pending_jobs, unit) action" where
  "pending_add job_id wt now transaction jobs =
     (if transaction then (fail ''process-local pending store cannot join a database transaction'', jobs) else
      let kept = filter (\<lambda>(k, v). \<not> h_expires_at (wt_handoff v) \<le> now) jobs in
      if map_of kept job_id \<noteq> None then (fail ''a job with this id is already waiting for approval'', kept) else
      if length kept \<ge> MAX_PENDING then (fail ''too many jobs are waiting for approval'', kept) else
      (Inr (), kept @ [(job_id, wt)]))"

definition pending_peek :: "pystr \<Rightarrow> (pending_jobs, waiting) action" where
  "pending_peek job_id jobs =
     (case map_of jobs job_id of
        None \<Rightarrow> (fail ''no job is waiting for approval under this id'', jobs)
      | Some wt \<Rightarrow> (Inr wt, jobs))"

definition set_job :: "pystr \<Rightarrow> waiting \<Rightarrow> pending_jobs \<Rightarrow> pending_jobs" where
  "set_job job_id wt = map (\<lambda>(k, v). (k, if k = job_id then wt else v))"

definition pending_decide :: "pystr \<Rightarrow> pystr \<Rightarrow> int \<Rightarrow> int \<Rightarrow> (pending_jobs, waiting) action" where
  "pending_decide job_id approver_user_id now ttl_seconds jobs =
     (if \<not> (1 \<le> ttl_seconds \<and> ttl_seconds \<le> 600) then (fail ''ttl_seconds must be between 1 and 600'', jobs) else
      case map_of jobs job_id of
        None \<Rightarrow> (fail ''no job is waiting for approval under this id'', jobs)
      | Some wt \<Rightarrow>
          if h_user_id (wt_handoff wt) = approver_user_id then (fail ''an approver cannot grant its own job'', jobs) else
          if wt_decision_expires_at wt > now then (fail ''this job already has an active approval decision'', jobs) else
          (Inr wt, set_job job_id (wt\<lparr>wt_decision_expires_at := min (now + ttl_seconds) (h_expires_at (wt_handoff wt))\<rparr>) jobs))"

definition pending_take :: "pystr \<Rightarrow> pystr \<Rightarrow> (pending_jobs, waiting) action" where
  "pending_take job_id subject jobs =
     (case map_of jobs job_id of
        None \<Rightarrow> (fail ''no job of this subject is waiting for approval under this id'', jobs)
      | Some wt \<Rightarrow>
          if wt_subject wt \<noteq> subject then (fail ''no job of this subject is waiting for approval under this id'', jobs)
          else (Inr wt, filter (\<lambda>(k, v). k \<noteq> job_id) jobs))"

definition pending_restore :: "pystr \<Rightarrow> waiting \<Rightarrow> (pending_jobs, unit) action" where
  "pending_restore job_id wt jobs = (Inr (), if map_of jobs job_id = None then jobs @ [(job_id, wt)] else jobs)"

section \<open>Interleaved clients\<close>

record pending_world =
  pw_jobs :: pending_jobs
  pw_taken :: "(pystr \<times> waiting) list"

text \<open>A completion takes its job and later either restores it or is done with it.\<close>

inductive pending_run :: "pending_world \<Rightarrow> pending_world \<Rightarrow> bool" where
  add: "pending_add j wt now tx (pw_jobs w) = (r, jobs) \<Longrightarrow> pending_run w (w\<lparr>pw_jobs := jobs\<rparr>)"
| decide: "pending_decide j u now ttl (pw_jobs w) = (r, jobs) \<Longrightarrow> pending_run w (w\<lparr>pw_jobs := jobs\<rparr>)"
| take: "pending_take j subject (pw_jobs w) = (Inr wt, jobs) \<Longrightarrow>
    pending_run w \<lparr>pw_jobs = jobs, pw_taken = (j, wt) # pw_taken w\<rparr>"
| restore: "(j, wt) \<in> set (pw_taken w) \<Longrightarrow> pending_restore j wt (pw_jobs w) = (r, jobs) \<Longrightarrow>
    pending_run w \<lparr>pw_jobs = jobs, pw_taken = remove1 (j, wt) (pw_taken w)\<rparr>"
| settle: "(j, wt) \<in> set (pw_taken w) \<Longrightarrow> pending_run w (w\<lparr>pw_taken := remove1 (j, wt) (pw_taken w)\<rparr>)"

inductive_cases pending_runE: "pending_run w w'"

text \<open>Runs in which at most \<open>b\<close> completions are between taking and settling.\<close>

inductive pending_runs :: "nat \<Rightarrow> pending_world \<Rightarrow> pending_world \<Rightarrow> bool" for b where
  start: "pending_runs b w w"
| step: "pending_runs b w v \<Longrightarrow> pending_run v u \<Longrightarrow> length (pw_taken u) \<le> b \<Longrightarrow> pending_runs b w u"

definition pending_ok :: "nat \<Rightarrow> pending_world \<Rightarrow> bool" where
  "pending_ok b w \<longleftrightarrow> distinct (map fst (pw_jobs w)) \<and> length (pw_taken w) \<le> b
     \<and> length (pw_jobs w) + length (pw_taken w) \<le> MAX_PENDING + b"

lemma set_job_keys [simp]: "map fst (set_job j wt jobs) = map fst jobs" "length (set_job j wt jobs) = length jobs"
  by (auto simp: set_job_def)

lemma distinct_filter_keys: "distinct (map fst xs) \<Longrightarrow> distinct (map fst (filter P xs))"
  by (induction xs) auto

lemma length_filter_key: "distinct (map fst xs) \<Longrightarrow> map_of xs j = Some v \<Longrightarrow> Suc (length (filter (\<lambda>(k, x). k \<noteq> j) xs)) = length xs"
proof (induction xs)
  case (Cons a xs)
  show ?case
  proof (cases "fst a = j")
    case True
    have "fst x \<noteq> j" if "x \<in> set xs" for x using that Cons.prems(1) True by (auto simp: rev_image_eqI)
    then have "filter (\<lambda>(k, x). k \<noteq> j) xs = xs" by (intro filter_True) (auto simp: split_beta)
    with True show ?thesis by (cases a) simp
  next
    case False
    with Cons show ?thesis by (cases a) simp
  qed
qed simp

lemma pending_add_ok:
  assumes "pending_add j wt now tx jobs = (r, jobs')" "distinct (map fst jobs)"
  shows "distinct (map fst jobs') \<and> (length jobs' \<le> length jobs \<or> length jobs' \<le> MAX_PENDING)"
  using assms distinct_filter_keys[OF assms(2), of "\<lambda>(k, v). \<not> h_expires_at (wt_handoff v) \<le> now"]
    length_filter_le[of "\<lambda>(k, v). \<not> h_expires_at (wt_handoff v) \<le> now" jobs]
  by (auto simp: pending_add_def Let_def map_of_eq_None_iff split: if_splits)

lemma pending_run_ok:
  assumes "pending_run w w'" "pending_ok b w" "length (pw_taken w') \<le> b"
  shows "pending_ok b w'"
  using assms(1)
proof cases
  case (add j wt now tx r jobs)
  with pending_add_ok[OF add(2)] assms(2) show ?thesis by (auto simp: pending_ok_def)
next
  case (decide j u now ttl r jobs)
  with assms(2) show ?thesis by (auto simp: pending_ok_def pending_decide_def split: if_splits option.splits)
next
  case (take j subject wt jobs)
  then have j: "map_of (pw_jobs w) j = Some wt" "jobs = filter (\<lambda>(k, v). k \<noteq> j) (pw_jobs w)"
    by (auto simp: pending_take_def split: option.splits if_splits)
  have "Suc (length jobs) = length (pw_jobs w)" unfolding j(2) by (rule length_filter_key) (use assms(2) j in \<open>auto simp: pending_ok_def\<close>)
  with take j assms(2,3) distinct_filter_keys show ?thesis by (auto simp: pending_ok_def)
next
  case (restore j wt r jobs)
  with assms(2) show ?thesis
    by (auto simp: pending_ok_def pending_restore_def length_remove1 map_of_eq_None_iff split: if_splits)
      (metis Suc_pred length_pos_if_in_set add_Suc_right add_Suc_shift)
next
  case (settle j wt)
  with assms(2) show ?thesis by (auto simp: pending_ok_def length_remove1)
qed

lemma pending_runs_ok: "pending_runs b w w' \<Longrightarrow> pending_ok b w \<Longrightarrow> pending_ok b w'"
  by (induction rule: pending_runs.induct) (auto intro: pending_run_ok)

lemma map_of_set_job: "map_of (set_job j wt jobs) k = (if k = j \<and> map_of jobs j \<noteq> None then Some wt else map_of jobs k)"
  by (induction jobs) (auto simp: set_job_def)

section \<open>Samples\<close>

definition sample_waiting :: waiting where
  "sample_waiting = \<lparr>wt_subject = lit ''alice'', wt_wire = [], wt_handoff = sample_handoff, wt_trace_id = lit ''trace-1'', wt_decision_expires_at = 0\<rparr>"

text \<open>A full store.\<close>

definition full_store :: pending_jobs where
  "full_store = map (\<lambda>i. ([i], sample_waiting)) [0..<MAX_PENDING]"

lemma full_store_facts:
  "distinct (map fst full_store)" "length full_store = MAX_PENDING"
  "map_of full_store [0] = Some sample_waiting" "map_of full_store [MAX_PENDING] = None"
  by (auto simp: full_store_def distinct_map inj_on_def MAX_PENDING_def map_of_eq_None_iff comp_def map_of_eq_Some_iff)

section \<open>Properties\<close>

text \<open>The store is bounded: with at most \<open>b\<close> completions between taking a job and settling it, under every
  interleaving of clients, no job id waits twice and at most \<open>MAX_PENDING + b\<close> jobs wait.\<close>

theorem pending_bounded:
  assumes "pending_runs b \<lparr>pw_jobs = [], pw_taken = []\<rparr> w"
  shows "distinct (map fst (pw_jobs w)) \<and> length (pw_jobs w) \<le> MAX_PENDING + b"
  using pending_runs_ok[OF assms] by (simp add: pending_ok_def)

theorem pending_bounded_witness:
  "\<exists>w. pending_runs 0 \<lparr>pw_jobs = [], pw_taken = []\<rparr> w \<and> length (pw_jobs w) = 1 \<and> length (pw_jobs w) \<le> MAX_PENDING + 0"
proof -
  let ?w = "\<lparr>pw_jobs = [(lit ''job-1'', sample_waiting)], pw_taken = []\<rparr>"
  have a: "pending_add (lit ''job-1'') sample_waiting 200 False (pw_jobs \<lparr>pw_jobs = [], pw_taken = []\<rparr>) = (Inr (), pw_jobs ?w)"
    by (simp add: pending_add_def MAX_PENDING_def)
  have r: "pending_runs 0 \<lparr>pw_jobs = [], pw_taken = []\<rparr> ?w"
    using pending_runs.step[OF pending_runs.start pending_run.add[OF a]] by simp
  from pending_bounded[OF r] r show ?thesis by (intro exI[of _ ?w]) simp
qed

text \<open>The bound of the source is not strict: a completion that takes a job from a full store and hands it
  back after another job was added leaves one more than \<open>MAX_PENDING\<close> jobs waiting.\<close>

theorem pending_restore_exceeds:
  "\<exists>w. pending_runs 1 \<lparr>pw_jobs = full_store, pw_taken = []\<rparr> w \<and> length (pw_jobs w) = MAX_PENDING + 1"
proof -
  let ?w = "\<lparr>pw_jobs = full_store, pw_taken = []\<rparr>"
  let ?rest = "filter (\<lambda>(k, v). k \<noteq> [0]) full_store"
  have len: "Suc (length ?rest) = MAX_PENDING" using length_filter_key[OF full_store_facts(1,3)] full_store_facts(2) by simp
  have none: "map_of ?rest [MAX_PENDING] = None" "map_of ?rest [0] = None" "map_of (?rest @ [([MAX_PENDING], sample_waiting)]) [0] = None"
    using full_store_facts(4) by (auto simp: map_of_eq_None_iff MAX_PENDING_def)
  have keep: "filter (\<lambda>(k, v). \<not> h_expires_at (wt_handoff v) \<le> (- 1)) ?rest = ?rest"
    by (rule filter_True) (auto simp: full_store_def sample_waiting_def)
  have t: "pending_take [0] (lit ''alice'') (pw_jobs ?w) = (Inr sample_waiting, ?rest)"
    using full_store_facts(3) by (simp add: pending_take_def) (simp add: sample_waiting_def)
  let ?w1 = "\<lparr>pw_jobs = ?rest, pw_taken = [([0], sample_waiting)]\<rparr>"
  have a: "pending_add [MAX_PENDING] sample_waiting (- 1) False (pw_jobs ?w1) = (Inr (), ?rest @ [([MAX_PENDING], sample_waiting)])"
    using len none(1) keep by (simp add: pending_add_def Let_def)
  let ?w2 = "\<lparr>pw_jobs = ?rest @ [([MAX_PENDING], sample_waiting)], pw_taken = [([0], sample_waiting)]\<rparr>"
  have r: "pending_restore [0] sample_waiting (pw_jobs ?w2) = (Inr (), ?rest @ [([MAX_PENDING], sample_waiting)] @ [([0], sample_waiting)])"
    using none(3) by (simp add: pending_restore_def)
  let ?w3 = "\<lparr>pw_jobs = ?rest @ [([MAX_PENDING], sample_waiting)] @ [([0], sample_waiting)], pw_taken = []\<rparr>"
  have "pending_runs 1 ?w ?w1" using pending_runs.step[OF pending_runs.start pending_run.take[OF t]] by simp
  from pending_runs.step[OF this pending_run.add[OF a]] have "pending_runs 1 ?w ?w2" by simp
  from pending_runs.step[OF this pending_run.restore[OF _ r]] have "pending_runs 1 ?w ?w3" by simp
  moreover have "length (pw_jobs ?w3) = MAX_PENDING + 1" using len by simp
  ultimately show ?thesis by blast
qed

text \<open>C38. Four eyes and one decision: a decision names an approver other than the job's user, for a job that
  waits; while it is active, every further decision on the job is refused and changes nothing, whoever
  asks; and the job stays available to its own subject only.\<close>

theorem decision_exclusive:
  assumes "pending_decide j u now ttl jobs = (Inr wt, jobs')"
  shows "map_of jobs j = Some wt \<and> h_user_id (wt_handoff wt) \<noteq> u
     \<and> (\<forall>u' now' ttl'. now' < min (now + ttl) (h_expires_at (wt_handoff wt)) \<longrightarrow>
          (\<exists>e. pending_decide j u' now' ttl' jobs' = (Inl e, jobs')))
     \<and> (\<forall>subject. is_ok (fst (pending_take j subject jobs')) \<longleftrightarrow> subject = wt_subject wt)"
proof -
  let ?wt = "wt\<lparr>wt_decision_expires_at := min (now + ttl) (h_expires_at (wt_handoff wt))\<rparr>"
  have d: "map_of jobs j = Some wt" "h_user_id (wt_handoff wt) \<noteq> u" "jobs' = set_job j ?wt jobs"
    using assms by (auto simp: pending_decide_def split: option.splits if_splits)
  have m: "map_of jobs' j = Some ?wt" using d by (simp add: map_of_set_job)
  then have "\<exists>e. pending_decide j u' now' ttl' jobs' = (Inl e, jobs')" if "now' < min (now + ttl) (h_expires_at (wt_handoff wt))" for u' now' ttl'
    using that by (simp add: pending_decide_def)
  moreover have "is_ok (fst (pending_take j subject jobs')) \<longleftrightarrow> subject = wt_subject wt" for subject
    using m by (auto simp: pending_take_def)
  ultimately show ?thesis using d by blast
qed

theorem decision_exclusive_witness:
  "\<exists>jobs'. pending_decide (lit ''job-1'') (lit ''boss'') 200 30 [(lit ''job-1'', sample_waiting)] = (Inr sample_waiting, jobs')
     \<and> h_user_id (wt_handoff sample_waiting) \<noteq> lit ''boss''"
proof -
  have "h_user_id sample_handoff \<noteq> lit ''boss''" by (simp add: sample_handoff_def issued_handoff_def sample_grant_def lit_def)
  then obtain jobs' where d: "pending_decide (lit ''job-1'') (lit ''boss'') 200 30 [(lit ''job-1'', sample_waiting)] = (Inr sample_waiting, jobs')"
    by (simp add: pending_decide_def sample_waiting_def)
  from decision_exclusive[OF d] d show ?thesis by blast
qed

end
