(* ===== verification/PyLoads.thy ===== *)
theory PyLoads
  imports PyJson Platform
begin

text \<open>
  Dictionaries as Python builds them and \<open>json.loads\<close> without hooks, for the modules that call it plainly.
\<close>

section \<open>Dictionaries\<close>

text \<open>A dict built by insertions: a later value replaces an earlier one at its place.\<close>

fun dict_set :: "('k \<times> 'v) list \<Rightarrow> 'k \<times> 'v \<Rightarrow> ('k \<times> 'v) list" where
  "dict_set [] kv = [kv]"
| "dict_set (x # xs) kv = (if fst x = fst kv then kv # xs else x # dict_set xs kv)"

definition py_dict :: "('k \<times> 'v) list \<Rightarrow> ('k \<times> 'v) list" where
  "py_dict kvs = foldl dict_set [] kvs"

text \<open>\<open>json.loads\<close> without hooks.\<close>

definition plain_hooks_json :: "platform \<Rightarrow> json_hooks" where
  "plain_hooks_json P =
     \<lparr>jh_pairs = (\<lambda>kvs. Inr (PDict (py_dict kvs))),
      jh_const = (\<lambda>c. Inr (PFloat (if c = lit ''NaN'' then lit ''nan'' else if c = lit ''Infinity'' then lit ''inf'' else lit ''-inf''))),
      jh_float = float_repr P\<rparr>"

lemma py_dict_distinct: "distinct (map fst kvs) \<Longrightarrow> py_dict kvs = kvs"
proof -
  have s: "fst kv \<notin> fst ` set xs \<Longrightarrow> dict_set xs kv = xs @ [kv]" for xs :: "('a \<times> 'b) list" and kv
    by (induction xs) auto
  have "distinct (map fst (ys @ xs)) \<Longrightarrow> foldl dict_set ys xs = ys @ xs" for xs ys :: "('a \<times> 'b) list"
  proof (induction xs arbitrary: ys)
    case (Cons x xs)
    have "dict_set ys x = ys @ [x]" by (rule s) (use Cons.prems in auto)
    with Cons.IH[of "ys @ [x]"] Cons.prems show ?case by simp
  qed simp
  from this[of "[]" kvs] show "distinct (map fst kvs) \<Longrightarrow> py_dict kvs = kvs" by (simp add: py_dict_def)
qed

lemma plain_hooks_keep: "keeps_distinct (plain_hooks_json P)"
  by (simp add: keeps_distinct_def plain_hooks_json_def py_dict_distinct)

end
