(* ===== verification/HttpEntry.thy ===== *)
theory HttpEntry
  imports Contracts Results PyLoads Complex_Main
begin

text \<open>
  \<open>geniusnew/http_entry.py\<close>: the request boundary. A key becomes a principal by a lookup of its digest, a
  token bucket per subject bounds the rate, a semaphore bounds the jobs in flight, and the one-field body
  becomes the payload of a call to \<open>submit\<close>, \<open>complete\<close> or \<open>grant_approval\<close>, which are arguments of the
  entry and act on a state \<open>'w\<close> of their own. Header names are strings, as the socket half passes them;
  header values, method, path and body may have any type.

  What CPython decides and the module does not: \<open>str.lower\<close> beyond ASCII, the nesting at which
  \<open>json.loads\<close> raises \<open>RecursionError\<close>, and how a floating-point result is rounded. They are the fields of
  \<open>http_platform\<close>; \<open>http_ok\<close> names what the properties use of them. A float is the rational it denotes.
  The socket half (\<open>make_handler\<close>, \<open>_bounded_server\<close>, \<open>serve\<close>) is not part of the model.
\<close>

record http_platform =
  hp_lower :: "pystr \<Rightarrow> pystr"
  hp_too_deep :: "pystr \<Rightarrow> bool"
  hp_round :: "rat \<Rightarrow> rat"

definition ascii_lower :: "pystr \<Rightarrow> pystr" where
  "ascii_lower = map (\<lambda>c. if 65 \<le> c \<and> c \<le> 90 then c + 32 else c)"

text \<open>\<open>str.lower\<close> on ASCII; rounding is monotone and exact on integers below two to the fifty-third.\<close>

definition http_ok :: "http_platform \<Rightarrow> bool" where
  "http_ok H \<longleftrightarrow> (\<forall>s. is_ascii s \<longrightarrow> hp_lower H s = ascii_lower s)
     \<and> (\<forall>x y. x \<le> y \<longrightarrow> hp_round H x \<le> hp_round H y) \<and> (\<forall>n::int. \<bar>n\<bar> < 2 ^ 53 \<longrightarrow> hp_round H (of_int n) = of_int n)"

section \<open>Bodies\<close>

text \<open>\<open>json.loads(body.decode("utf-8"))\<close>; every exception the callers catch is \<open>None\<close>.\<close>

definition loads_body :: "platform \<Rightarrow> http_platform \<Rightarrow> bytes \<Rightarrow> pyval option" where
  "loads_body P H body =
     (case utf8_decode body of
        None \<Rightarrow> None
      | Some s \<Rightarrow>
          if hp_too_deep H s then None else
          (case json_loads (plain_hooks_json P) s of Inr v \<Rightarrow> Some v | Inl _ \<Rightarrow> None))"

section \<open>Principals\<close>

definition MAX_BODY_BYTES :: nat where "MAX_BODY_BYTES = 16 * 1024"
definition MAX_KEY_BYTES :: nat where "MAX_KEY_BYTES = 256"
definition MIN_KEY_BYTES :: nat where "MIN_KEY_BYTES = 16"

definition REASONS :: "string list" where
  "REASONS = [''NOT_FOUND'', ''METHOD_NOT_ALLOWED'', ''UNSUPPORTED_MEDIA_TYPE'', ''PAYLOAD_TOO_LARGE'', ''MALFORMED_REQUEST'',
     ''UNAUTHENTICATED'', ''TOO_MANY_REQUESTS'', ''SERVICE_BUSY'', ''REJECTED'', ''ACCEPTED'']"

record principal =
  pr_subject :: pystr

definition principal_init :: "pyval \<Rightarrow> principal result" where
  "principal_init subject =
     (case subject of
        PStr s \<Rightarrow>
          if s = [] then fail ''subject must be a non-empty string'' else
          if utf8_size s > 160 then fail ''subject must be at most 160 bytes'' else Inr \<lparr>pr_subject = s\<rparr>
      | _ \<Rightarrow> fail ''subject must be a non-empty string'')"

type_synonym registry = "(pystr \<times> principal) list"

text \<open>One entry of the loop of the constructor. A string \<open>bytes.fromhex\<close> takes is ASCII.\<close>

definition registry_entry :: "pyval \<times> pyval \<Rightarrow> (pystr \<times> principal) result" where
  "registry_entry entry =
     (case entry of
        (PStr digest, subject) \<Rightarrow>
          if length digest \<noteq> 64 then fail ''principal keys must be SHA-256 digests as 64 hex characters'' else
          (case fromhex digest of
             None \<Rightarrow> fail ''principal keys must be SHA-256 digests as 64 hex characters''
           | Some _ \<Rightarrow> rbind (principal_init subject) (\<lambda>p. Inr (ascii_lower digest, p)))
      | _ \<Rightarrow> fail ''principal keys must be SHA-256 digests as 64 hex characters'')"

definition registry_init :: "(pyval \<times> pyval) list option \<Rightarrow> registry result" where
  "registry_init principals =
     (case principals of
        None \<Rightarrow> fail ''principals must be a non-empty mapping of key digest to subject''
      | Some entries \<Rightarrow>
          if entries = [] then fail ''principals must be a non-empty mapping of key digest to subject''
          else rbind (rmap registry_entry entries) (\<lambda>table. Inr (py_dict table)))"

definition key_digest :: "platform \<Rightarrow> pyval \<Rightarrow> pystr result" where
  "key_digest P api_key =
     (case api_key of
        PBytes k \<Rightarrow>
          if \<not> (MIN_KEY_BYTES \<le> length k \<and> length k \<le> MAX_KEY_BYTES) then fail ''api key must be between 16 and 256 bytes''
          else Inr (sha256_hex P k)
      | _ \<Rightarrow> fail ''api key must be bytes'')"

definition registry_from_api_keys :: "platform \<Rightarrow> (pyval \<times> pyval) list option \<Rightarrow> registry result" where
  "registry_from_api_keys P api_keys =
     (case api_keys of
        None \<Rightarrow> fail ''api_keys must be a non-empty mapping of key to subject''
      | Some entries \<Rightarrow>
          if entries = [] then fail ''api_keys must be a non-empty mapping of key to subject'' else
          rbind (rmap (\<lambda>(key, subject). rbind (key_digest P key) (\<lambda>d. Inr (PStr d, subject))) entries) (\<lambda>table.
          registry_init (Some (py_dict table))))"

definition resolve :: "platform \<Rightarrow> registry \<Rightarrow> pyval \<Rightarrow> principal option" where
  "resolve P reg api_key = (case key_digest P api_key of Inl _ \<Rightarrow> None | Inr d \<Rightarrow> map_of reg d)"

definition registry_subjects :: "registry \<Rightarrow> pystr list" where
  "registry_subjects reg = map (pr_subject \<circ> snd) reg"

section \<open>Responses\<close>

record response =
  rp_status :: int
  rp_reason :: string
  rp_body :: "(pystr \<times> pyval) list"

definition response_init :: "int \<Rightarrow> string \<Rightarrow> (pystr \<times> pyval) list \<Rightarrow> response result" where
  "response_init status reason body =
     (if \<not> (100 \<le> status \<and> status \<le> 599) then fail ''status must be an HTTP status code'' else
      if reason \<notin> set REASONS then fail ''reason is not an entrance reason code'' else
      Inr \<lparr>rp_status = status, rp_reason = reason, rp_body = body\<rparr>)"

definition refusal :: "int \<Rightarrow> string \<Rightarrow> response result" where
  "refusal status reason = response_init status reason [(lit ''error'', PStr (lit reason))]"

section \<open>Limits\<close>

definition bounded_int :: "pyval \<Rightarrow> string \<Rightarrow> int \<Rightarrow> int result" where
  "bounded_int v name highest =
     (case v of
        PInt n \<Rightarrow> if 1 \<le> n \<and> n \<le> highest then Inr n else fail (name @ '' must be an integer between 1 and '' @ show_nat (nat highest))
      | _ \<Rightarrow> fail (name @ '' must be an integer between 1 and '' @ show_nat (nat highest)))"

record http_limits =
  hl_rate_per_minute :: int
  hl_burst :: int
  hl_max_in_flight :: int
  hl_max_connections :: int

definition CEILING_RATE_PER_MINUTE :: int where "CEILING_RATE_PER_MINUTE = 6000"
definition CEILING_BURST :: int where "CEILING_BURST = 1000"
definition CEILING_IN_FLIGHT :: int where "CEILING_IN_FLIGHT = 256"
definition CEILING_CONNECTIONS :: int where "CEILING_CONNECTIONS = 4096"

definition http_limits_init :: "pyval \<Rightarrow> pyval \<Rightarrow> pyval \<Rightarrow> pyval \<Rightarrow> http_limits result" where
  "http_limits_init rate_per_minute burst max_in_flight max_connections =
     rbind (bounded_int rate_per_minute ''limits.rate_per_minute'' CEILING_RATE_PER_MINUTE) (\<lambda>r.
     rbind (bounded_int burst ''limits.burst'' CEILING_BURST) (\<lambda>b.
     rbind (bounded_int max_in_flight ''limits.max_in_flight'' CEILING_IN_FLIGHT) (\<lambda>f.
     rbind (bounded_int max_connections ''limits.max_connections'' CEILING_CONNECTIONS) (\<lambda>c.
     Inr \<lparr>hl_rate_per_minute = r, hl_burst = b, hl_max_in_flight = f, hl_max_connections = c\<rparr>))))"

section \<open>Token buckets\<close>

record buckets =
  bk_rate :: rat
  bk_burst :: rat

definition buckets_init :: "http_platform \<Rightarrow> int \<Rightarrow> int \<Rightarrow> buckets" where
  "buckets_init H rate_per_minute burst =
     \<lparr>bk_rate = hp_round H (of_int rate_per_minute / 60), bk_burst = hp_round H (of_int burst)\<rparr>"

type_synonym bucket_state = "pystr \<rightharpoonup> rat \<times> rat"

definition bucket_take :: "http_platform \<Rightarrow> buckets \<Rightarrow> pystr \<Rightarrow> rat \<Rightarrow> bucket_state \<Rightarrow> bool \<times> bucket_state" where
  "bucket_take H B subject now st =
     (let (tokens0, last) = (case st subject of None \<Rightarrow> (bk_burst B, now) | Some p \<Rightarrow> p);
          tokens = min (bk_burst B) (hp_round H (tokens0 + hp_round H (max 0 (hp_round H (now - last)) * bk_rate B)));
          granted = (tokens \<ge> 1)
      in (granted, st(subject \<mapsto> (if granted then hp_round H (tokens - 1) else tokens, max last now))))"

section \<open>The entrance\<close>

record 'w http_entry =
  he_registry :: registry
  he_buckets :: buckets
  he_max_in_flight :: nat
  he_max_body_bytes :: nat
  he_submit :: "pystr \<Rightarrow> pystr \<Rightarrow> (pystr \<times> pyval) list \<Rightarrow> ('w, pyval) action"
  he_complete :: "(pystr \<Rightarrow> pystr \<Rightarrow> bytes \<Rightarrow> ('w, pyval) action) option"
  he_grant_approval :: "(pystr \<Rightarrow> pystr \<Rightarrow> ('w, pyval) action) option"
  he_job_ids :: "nat \<Rightarrow> pyval"

record 'w http_world =
  hw_buckets :: bucket_state
  hw_free :: nat
  hw_minted :: nat
  hw_service :: 'w

definition http_entry_init ::
  "http_platform \<Rightarrow> registry \<Rightarrow> (pystr \<Rightarrow> pystr \<Rightarrow> (pystr \<times> pyval) list \<Rightarrow> ('w, pyval) action) \<Rightarrow> (nat \<Rightarrow> pyval) \<Rightarrow> pyval
     \<Rightarrow> (pystr \<Rightarrow> pystr \<Rightarrow> bytes \<Rightarrow> ('w, pyval) action) option \<Rightarrow> (pystr \<Rightarrow> pystr \<Rightarrow> ('w, pyval) action) option
     \<Rightarrow> pyval \<Rightarrow> pyval \<Rightarrow> pyval \<Rightarrow> 'w http_entry result" where
  "http_entry_init H registry submit job_ids max_body_bytes completion grant_approval rate_per_minute burst max_in_flight =
     rbind (case max_body_bytes of
              PInt n \<Rightarrow> if 0 < n \<and> n \<le> int MAX_BODY_BYTES then Inr n else fail ''max_body_bytes must be between 1 and 16384''
            | _ \<Rightarrow> fail ''max_body_bytes must be between 1 and 16384'') (\<lambda>max_body.
     rbind (bounded_int rate_per_minute ''rate_per_minute'' CEILING_RATE_PER_MINUTE) (\<lambda>r.
     rbind (bounded_int burst ''burst'' CEILING_BURST) (\<lambda>b.
     rbind (bounded_int max_in_flight ''max_in_flight'' CEILING_IN_FLIGHT) (\<lambda>f.
     Inr \<lparr>he_registry = registry, he_buckets = buckets_init H r b, he_max_in_flight = nat f, he_max_body_bytes = nat max_body,
          he_submit = submit, he_complete = completion, he_grant_approval = grant_approval, he_job_ids = job_ids\<rparr>))))"

text \<open>\<open>\A<before>([A-Za-z0-9-]{1,64})<after>\Z\<close>: the group, if the path matches.\<close>

definition is_path_char :: "nat \<Rightarrow> bool" where
  "is_path_char c \<longleftrightarrow> 65 \<le> c \<and> c \<le> 90 \<or> 97 \<le> c \<and> c \<le> 122 \<or> is_digit c \<or> c = 45"

definition path_group :: "string \<Rightarrow> string \<Rightarrow> pystr \<Rightarrow> pystr option" where
  "path_group before after path =
     (let rest = drop (length before) path; group = takeWhile is_path_char rest in
      if starts_with (lit before) path \<and> dropWhile is_path_char rest = lit after \<and> 1 \<le> length group \<and> length group \<le> 64
      then Some group else None)"

definition approve_path :: "pystr \<Rightarrow> pystr option" where "approve_path = path_group ''/jobs/'' ''/approve''"
definition grant_path :: "pystr \<Rightarrow> pystr option" where "grant_path = path_group ''/approvals/'' ''/grant''"

definition strip :: "pystr \<Rightarrow> pystr" where
  "strip s = rev (dropWhile is_space (rev (dropWhile is_space s)))"

definition entry_principal :: "platform \<Rightarrow> 'w http_entry \<Rightarrow> pyval option \<Rightarrow> principal option" where
  "entry_principal P E authorization =
     (case authorization of
        Some (PStr s) \<Rightarrow>
          if \<not> starts_with (lit ''Bearer '') s then None else
          let presented = drop 7 s in
          if presented = [] \<or> length presented > MAX_KEY_BYTES then None else
          (case utf8_encode presented of Inl _ \<Rightarrow> None | Inr k \<Rightarrow> resolve P (he_registry E) (PBytes k))
      | _ \<Rightarrow> None)"

definition entry_payload :: "platform \<Rightarrow> http_platform \<Rightarrow> bytes \<Rightarrow> (pystr \<times> pyval) list option" where
  "entry_payload P H body =
     (case loads_body P H body of
        Some (PDict kvs) \<Rightarrow>
          if set (map fst kvs) \<noteq> {lit ''text''} then None else
          (case map_of kvs (lit ''text'') of
             Some (PStr t) \<Rightarrow> if t = [] then None else Some [(lit ''text'', PStr t)]
           | _ \<Rightarrow> None)
      | _ \<Rightarrow> None)"

definition empty_object :: "platform \<Rightarrow> http_platform \<Rightarrow> bytes \<Rightarrow> bool" where
  "empty_object P H body \<longleftrightarrow> loads_body P H body = Some (PDict [])"

text \<open>The semaphore \<open>_in_flight\<close>: \<open>acquire(blocking=False)\<close> takes a slot if there is one; \<open>release\<close> of a
  \<open>BoundedSemaphore\<close> gives one back and raises past the number it started with.\<close>

definition slot_acquire :: "('w http_world, bool) action" where
  "slot_acquire w = (if hw_free w = 0 then (Inr False, w) else (Inr True, w\<lparr>hw_free := hw_free w - 1\<rparr>))"

definition slot_release :: "'w http_entry \<Rightarrow> ('w http_world, unit) action" where
  "slot_release E w = (if hw_free w \<ge> he_max_in_flight E then (value_error, w) else (Inr (), w\<lparr>hw_free := hw_free w + 1\<rparr>))"

text \<open>\<open>_call\<close>: the slot is taken, the target runs, and the \<open>finally\<close> clause gives the slot back whatever the
  target did; \<open>None\<close> is the early return of the \<open>except ContractError\<close> clause.\<close>

definition entry_call :: "'w http_entry \<Rightarrow> ('w, pyval) action \<Rightarrow> pystr \<Rightarrow> ('w http_world, response) action" where
  "entry_call E target minted =
     abind slot_acquire (\<lambda>held.
     if \<not> held then alift (refusal 503 ''SERVICE_BUSY'') else
     abind (afinally
              (acatch (abind (azoom hw_service (\<lambda>s w. w\<lparr>hw_service := s\<rparr>) target) (\<lambda>outcome. areturn (Some outcome)))
                 (\<lambda>e. if is_contract_error e then areturn None else araise e))
              (slot_release E)) (\<lambda>outcome.
     case outcome of
       None \<Rightarrow> alift (refusal 409 ''REJECTED'')
     | Some (PDict outcome) \<Rightarrow> alift (response_init 202 ''ACCEPTED'' (py_dict ((lit ''job_id'', PStr minted) # outcome)))
     | Some _ \<Rightarrow> alift (refusal 500 ''REJECTED'')))"

definition entry_dispatch :: "'w http_entry \<Rightarrow> principal \<Rightarrow> (pystr \<times> pyval) list \<Rightarrow> ('w http_world, response) action" where
  "entry_dispatch E caller request w =
     (let w' = w\<lparr>hw_minted := Suc (hw_minted w)\<rparr> in
      case he_job_ids E (hw_minted w) of
        PStr job_id \<Rightarrow>
          if job_id = [] then (refusal 500 ''REJECTED'', w')
          else entry_call E (he_submit E (pr_subject caller) job_id request) job_id w'
      | _ \<Rightarrow> (refusal 500 ''REJECTED'', w'))"

definition entry_approve ::
  "platform \<Rightarrow> http_platform \<Rightarrow> 'w http_entry \<Rightarrow> (pystr \<Rightarrow> pystr \<Rightarrow> bytes \<Rightarrow> ('w, pyval) action) \<Rightarrow> principal \<Rightarrow> pystr \<Rightarrow> bytes \<Rightarrow> pyval option
     \<Rightarrow> ('w http_world, response) action" where
  "entry_approve P H E completion caller job_id body token =
     (if \<not> empty_object P H body then alift (refusal 400 ''MALFORMED_REQUEST'') else
      case token of
        Some (PStr t) \<Rightarrow>
          if \<not> hex_string 64 t then alift (refusal 400 ''MALFORMED_REQUEST'') else
          (case fromhex t of
             None \<Rightarrow> alift value_error
           | Some approval_token \<Rightarrow> entry_call E (completion (pr_subject caller) job_id approval_token) job_id)
      | _ \<Rightarrow> alift (refusal 400 ''MALFORMED_REQUEST''))"

definition entry_grant ::
  "platform \<Rightarrow> http_platform \<Rightarrow> 'w http_entry \<Rightarrow> (pystr \<Rightarrow> pystr \<Rightarrow> ('w, pyval) action) \<Rightarrow> principal \<Rightarrow> pystr \<Rightarrow> bytes \<Rightarrow> ('w http_world, response) action" where
  "entry_grant P H E grant_approval caller job_id body =
     (if \<not> empty_object P H body then alift (refusal 400 ''MALFORMED_REQUEST'')
      else entry_call E (grant_approval (pr_subject caller) job_id) job_id)"

text \<open>What a request is for, once its path is known.\<close>

datatype 'w route_target =
    NewJob
  | ApproveJob pystr "pystr \<Rightarrow> pystr \<Rightarrow> bytes \<Rightarrow> ('w, pyval) action"
  | GrantJob pystr "pystr \<Rightarrow> pystr \<Rightarrow> ('w, pyval) action"
  | NoRoute

definition entry_route :: "'w http_entry \<Rightarrow> pystr \<Rightarrow> 'w route_target" where
  "entry_route E path =
     (case (approve_path path, he_complete E) of
        (Some _, None) \<Rightarrow> NoRoute
      | (approving, completion) \<Rightarrow>
     (case (grant_path path, he_grant_approval E) of
        (Some _, None) \<Rightarrow> NoRoute
      | (Some job_id, Some grant) \<Rightarrow> GrantJob job_id grant
      | _ \<Rightarrow>
          (case (approving, completion) of
             (Some job_id, Some c) \<Rightarrow> ApproveJob job_id c
           | _ \<Rightarrow> if path = lit ''/jobs'' then NewJob else NoRoute)))"

text \<open>The part of \<open>handle\<close> after authentication: the charge, then the call the path asks for.\<close>

definition entry_charged ::
  "platform \<Rightarrow> http_platform \<Rightarrow> 'w http_entry \<Rightarrow> 'w route_target \<Rightarrow> bytes \<Rightarrow> pyval option \<Rightarrow> rat \<Rightarrow> principal
     \<Rightarrow> ('w http_world, response) action" where
  "entry_charged P H E target body token clock caller w =
     (case bucket_take H (he_buckets E) (pr_subject caller) clock (hw_buckets w) of (granted, st) \<Rightarrow>
        let w' = w\<lparr>hw_buckets := st\<rparr> in
        if \<not> granted then (refusal 429 ''TOO_MANY_REQUESTS'', w') else
        (case target of
           GrantJob job_id grant \<Rightarrow> entry_grant P H E grant caller job_id body w'
         | ApproveJob job_id completion \<Rightarrow> entry_approve P H E completion caller job_id body token w'
         | _ \<Rightarrow>
           (case entry_payload P H body of
              None \<Rightarrow> (refusal 400 ''MALFORMED_REQUEST'', w')
            | Some request \<Rightarrow> entry_dispatch E caller request w')))"

text \<open>\<open>handle\<close> at one reading \<open>clock\<close> of the monotonic clock; \<open>headers\<close> is \<open>None\<close> when it is no mapping.\<close>

definition handle ::
  "platform \<Rightarrow> http_platform \<Rightarrow> 'w http_entry \<Rightarrow> pyval \<Rightarrow> pyval \<Rightarrow> (pystr \<times> pyval) list option \<Rightarrow> pyval \<Rightarrow> rat
     \<Rightarrow> ('w http_world, response) action" where
  "handle P H E method path headers body clock w =
     (case (method, path, headers) of
        (PStr method, PStr path, Some headers) \<Rightarrow>
          (case entry_route E path of
             NoRoute \<Rightarrow> (refusal 404 ''NOT_FOUND'', w)
           | target \<Rightarrow>
          if method \<noteq> lit ''POST'' then (refusal 405 ''METHOD_NOT_ALLOWED'', w) else
          (case body of
             PBytes body \<Rightarrow>
               if length body > he_max_body_bytes E then (refusal 413 ''PAYLOAD_TOO_LARGE'', w) else
               let lowered = map_of (py_dict (map (\<lambda>(name, v). (hp_lower H name, v)) headers)) in
               (case lowered (lit ''content-type'') of
                  Some (PStr content_type) \<Rightarrow>
                    if strip (takeWhile (\<lambda>c. c \<noteq> 59) content_type) \<noteq> lit ''application/json''
                    then (refusal 415 ''UNSUPPORTED_MEDIA_TYPE'', w) else
                    (case entry_principal P E (lowered (lit ''authorization'')) of
                       None \<Rightarrow> (refusal 401 ''UNAUTHENTICATED'', w)
                     | Some caller \<Rightarrow> entry_charged P H E target body (lowered (lit ''x-approval-token'')) clock caller w)
                | _ \<Rightarrow> (refusal 415 ''UNSUPPORTED_MEDIA_TYPE'', w))
           | _ \<Rightarrow> (refusal 400 ''MALFORMED_REQUEST'', w)))
      | _ \<Rightarrow> (refusal 400 ''MALFORMED_REQUEST'', w))"

section \<open>What the entrance lets through\<close>

text \<open>A refusal tells a status and its reason code, nothing else.\<close>

definition refused_as :: "response \<Rightarrow> bool" where
  "refused_as resp \<longleftrightarrow> rp_status resp \<in> {400, 401, 404, 405, 409, 413, 415, 429, 500, 503} \<and> rp_reason resp \<in> set REASONS
     \<and> rp_body resp = [(lit ''error'', PStr (lit (rp_reason resp)))]"

text \<open>The headers name a key whose digest the registry has.\<close>

definition authenticated :: "platform \<Rightarrow> http_platform \<Rightarrow> 'w http_entry \<Rightarrow> (pystr \<times> pyval) list \<Rightarrow> principal \<Rightarrow> bool" where
  "authenticated P H E headers caller \<longleftrightarrow>
     (\<exists>key k. map_of (py_dict (map (\<lambda>(name, v). (hp_lower H name, v)) headers)) (lit ''authorization'') = Some (PStr (lit ''Bearer '' @ key))
        \<and> utf8_encode key = Inr k \<and> MIN_KEY_BYTES \<le> length k \<and> length k \<le> MAX_KEY_BYTES
        \<and> map_of (he_registry E) (sha256_hex P k) = Some caller)"

text \<open>The one call a request can become, by its path: \<open>/jobs\<close> with the text of the body and the id minted for
  it, or one of the two decision paths with the job id that stands in the path itself, the first of them with
  the token of the header. \<open>n\<close> counts the ids minted before.\<close>

definition names_job :: "string \<Rightarrow> string \<Rightarrow> pystr \<Rightarrow> pystr \<Rightarrow> bool" where
  "names_job before after path j \<longleftrightarrow>
     path = lit before @ j @ lit after \<and> list_all is_path_char j \<and> 1 \<le> length j \<and> length j \<le> 64"

definition lets_through ::
  "platform \<Rightarrow> http_platform \<Rightarrow> 'w http_entry \<Rightarrow> pystr \<Rightarrow> (pystr \<times> pyval) list \<Rightarrow> bytes \<Rightarrow> principal \<Rightarrow> nat \<Rightarrow> pystr
     \<Rightarrow> ('w, pyval) action \<Rightarrow> bool" where
  "lets_through P H E path headers body caller n job target \<longleftrightarrow>
     path = lit ''/jobs'' \<and> he_job_ids E n = PStr job
       \<and> (\<exists>t kvs. loads_body P H body = Some (PDict kvs) \<and> fst ` set kvs = {lit ''text''} \<and> map_of kvs (lit ''text'') = Some (PStr t)
            \<and> t \<noteq> [] \<and> target = he_submit E (pr_subject caller) job [(lit ''text'', PStr t)])
   \<or> names_job ''/jobs/'' ''/approve'' path job \<and> loads_body P H body = Some (PDict [])
       \<and> (\<exists>completion t token. he_complete E = Some completion
            \<and> map_of (py_dict (map (\<lambda>(name, v). (hp_lower H name, v)) headers)) (lit ''x-approval-token'') = Some (PStr t)
            \<and> hex_string 64 t \<and> fromhex t = Some token \<and> length token = 32 \<and> target = completion (pr_subject caller) job token)
   \<or> names_job ''/approvals/'' ''/grant'' path job \<and> loads_body P H body = Some (PDict [])
       \<and> (\<exists>grant. he_grant_approval E = Some grant \<and> target = grant (pr_subject caller) job)"

lemma path_group_names: "path_group before after path = Some j \<Longrightarrow> names_job before after path j"
proof -
  assume g: "path_group before after path = Some j"
  let ?rest = "drop (length before) path"
  from g have s: "starts_with (lit before) path" "dropWhile is_path_char ?rest = lit after" "j = takeWhile is_path_char ?rest"
    "1 \<le> length j" "length j \<le> 64" by (auto simp: path_group_def Let_def split: if_splits)
  have "take (length before) path = lit before" using s(1) by (simp add: starts_with_def lit_def)
  then have "path = lit before @ ?rest" using append_take_drop_id[of "length before" path] by simp
  also have "?rest = j @ lit after" using takeWhile_dropWhile_id[of is_path_char ?rest] s(2,3) by simp
  finally show ?thesis using s(3-5) by (auto simp: names_job_def list_all_iff dest: set_takeWhileD)
qed

lemma refusal_known: "status \<in> {400, 401, 404, 405, 409, 413, 415, 429, 500, 503} \<Longrightarrow> reason \<in> set REASONS \<Longrightarrow>
    \<exists>resp. refusal status reason = Inr resp \<and> refused_as resp"
  by (auto simp: refusal_def response_init_def refused_as_def)

lemma reasons_known [simp]: "''NOT_FOUND'' \<in> set REASONS" "''METHOD_NOT_ALLOWED'' \<in> set REASONS" "''UNSUPPORTED_MEDIA_TYPE'' \<in> set REASONS"
  "''PAYLOAD_TOO_LARGE'' \<in> set REASONS" "''MALFORMED_REQUEST'' \<in> set REASONS" "''UNAUTHENTICATED'' \<in> set REASONS"
  "''TOO_MANY_REQUESTS'' \<in> set REASONS" "''SERVICE_BUSY'' \<in> set REASONS" "''REJECTED'' \<in> set REASONS" "''ACCEPTED'' \<in> set REASONS"
  by (simp_all add: REASONS_def)

lemma principal_authenticated:
  assumes "entry_principal P E (map_of (py_dict (map (\<lambda>(name, v). (hp_lower H name, v)) headers)) (lit ''authorization'')) = Some caller"
  shows "authenticated P H E headers caller"
proof -
  let ?a = "map_of (py_dict (map (\<lambda>(name, v). (hp_lower H name, v)) headers)) (lit ''authorization'')"
  from assms obtain s k where s: "?a = Some (PStr s)" "starts_with (lit ''Bearer '') s" "utf8_encode (drop 7 s) = Inr k"
    "resolve P (he_registry E) (PBytes k) = Some caller"
    by (auto simp: entry_principal_def Let_def split: option.splits pyval.splits if_splits sum.splits)
  have l: "length (lit ''Bearer '') = 7" by (simp add: lit_def)
  have "take 7 s = lit ''Bearer ''" using s(2) unfolding starts_with_def l .
  then have "s = lit ''Bearer '' @ drop 7 s" using append_take_drop_id[of 7 s] by simp
  with s show ?thesis
    by (auto simp: authenticated_def resolve_def key_digest_def split: sum.splits if_splits)
qed

text \<open>The call as one step: what the clauses of \<open>_call\<close> amount to.\<close>

lemma entry_call_eq:
  "entry_call E target minted w =
     (if hw_free w = 0 then (refusal 503 ''SERVICE_BUSY'', w) else
      case target (hw_service w) of (r, s) \<Rightarrow>
      if he_max_in_flight E < hw_free w then (value_error, w\<lparr>hw_free := hw_free w - 1, hw_service := s\<rparr>) else
      (case r of
         Inl e \<Rightarrow> if is_contract_error e then refusal 409 ''REJECTED'' else Inl e
       | Inr (PDict outcome) \<Rightarrow> response_init 202 ''ACCEPTED'' (py_dict ((lit ''job_id'', PStr minted) # outcome))
       | Inr _ \<Rightarrow> refusal 500 ''REJECTED'', w\<lparr>hw_service := s\<rparr>))"
proof (cases "hw_free w = 0")
  case True
  then show ?thesis by (simp add: entry_call_def abind_def slot_acquire_def alift_def)
next
  case False
  then have a: "slot_acquire w = (Inr True, w\<lparr>hw_free := hw_free w - 1\<rparr>)" by (simp add: slot_acquire_def)
  obtain r s where t: "target (hw_service w) = (r, s)" by force
  let ?w = "w\<lparr>hw_free := hw_free w - 1, hw_service := s\<rparr>"
  have rel: "slot_release E ?w = (if he_max_in_flight E < hw_free w then (value_error, ?w) else (Inr (), w\<lparr>hw_service := s\<rparr>))"
    using False by (auto simp: slot_release_def)
  have z: "azoom hw_service (\<lambda>s w. w\<lparr>hw_service := s\<rparr>) target (w\<lparr>hw_free := hw_free w - 1\<rparr>) = (r, ?w)"
    using t by (simp add: azoom_def)
  show ?thesis
  proof (cases r)
    case (Inl e)
    then show ?thesis using False a t z rel
      by (simp add: entry_call_def abind_def afinally_def acatch_def areturn_def araise_def alift_def)
  next
    case (Inr v)
    then show ?thesis using False a t z rel
      by (simp add: entry_call_def abind_def afinally_def acatch_def areturn_def alift_def split: pyval.split)
  qed
qed

lemma entry_call_typed:
  assumes "entry_call E target minted w = (r, w')" "hw_free w \<le> he_max_in_flight E"
  shows "hw_free w' = hw_free w
     \<and> (case r of
          Inr resp \<Rightarrow> refused_as resp \<or> rp_status resp = 202 \<and> rp_reason resp = ''ACCEPTED''
        | Inl e \<Rightarrow> \<not> is_contract_error e \<and> fst (target (hw_service w)) = Inl e)
     \<and> (hw_free w = 0 \<longrightarrow> r = refusal 503 ''SERVICE_BUSY'' \<and> hw_service w' = hw_service w)"
proof (cases "hw_free w = 0")
  case True
  with assms refusal_known[of 503 "''SERVICE_BUSY''"] show ?thesis by (auto simp: entry_call_eq)
next
  case False
  obtain x s where x: "target (hw_service w) = (x, s)" by force
  show ?thesis
  proof (cases x)
    case (Inl e)
    with assms False x refusal_known[of 409 "''REJECTED''"] show ?thesis by (auto simp: entry_call_eq split: if_splits)
  next
    case (Inr v)
    with assms False x refusal_known[of 500 "''REJECTED''"] show ?thesis
      by (cases v) (auto simp: entry_call_eq response_init_def)
  qed
qed

lemma entry_call_serves:
  assumes "entry_call E target minted w = (r, w')"
  shows "hw_service w' = hw_service w \<or> hw_service w' = snd (target (hw_service w))"
    and "r = Inr resp \<Longrightarrow> rp_status resp = 202 \<Longrightarrow>
      hw_service w' = snd (target (hw_service w))
      \<and> (\<exists>outcome. fst (target (hw_service w)) = Inr (PDict outcome) \<and> rp_body resp = py_dict ((lit ''job_id'', PStr minted) # outcome))"
proof -
  obtain x s where x: "target (hw_service w) = (x, s)" by force
  show "hw_service w' = hw_service w \<or> hw_service w' = snd (target (hw_service w))"
    using assms x by (auto simp: entry_call_eq split: if_splits)
  assume r: "r = Inr resp" "rp_status resp = 202"
  have n: "refusal status reason \<noteq> Inr resp" if "status \<in> {409, 500, 503}" for status reason
    using that r(2) by (auto simp: refusal_def response_init_def split: if_splits)
  show "hw_service w' = snd (target (hw_service w))
      \<and> (\<exists>outcome. fst (target (hw_service w)) = Inr (PDict outcome) \<and> rp_body resp = py_dict ((lit ''job_id'', PStr minted) # outcome))"
    using assms x r n[of 409] n[of 500] n[of 503]
    by (auto simp: entry_call_eq response_init_def split: if_splits sum.splits pyval.splits)
qed

text \<open>How a request ends: with a refusal that touched neither the service nor the semaphore, or in one call
  for an authenticated caller.\<close>

definition ends_as ::
  "platform \<Rightarrow> http_platform \<Rightarrow> 'w http_entry \<Rightarrow> pyval \<Rightarrow> (pystr \<times> pyval) list option \<Rightarrow> pyval \<Rightarrow> 'w http_world
     \<Rightarrow> response result \<Rightarrow> 'w http_world \<Rightarrow> bool" where
  "ends_as P H E p headers body w r w' \<longleftrightarrow>
     (\<exists>resp. r = Inr resp \<and> refused_as resp \<and> hw_service w' = hw_service w \<and> hw_free w' = hw_free w)
   \<or> (\<exists>path hs b caller job target w1. p = PStr path \<and> headers = Some hs \<and> body = PBytes b \<and> authenticated P H E hs caller
        \<and> lets_through P H E path hs b caller (hw_minted w) job target
        \<and> hw_service w1 = hw_service w \<and> hw_free w1 = hw_free w \<and> entry_call E target job w1 = (r, w'))"

lemma ends_refused: "status \<in> {400, 401, 404, 405, 409, 413, 415, 429, 500, 503} \<Longrightarrow> reason \<in> set REASONS \<Longrightarrow>
    hw_service w' = hw_service w \<Longrightarrow> hw_free w' = hw_free w \<Longrightarrow> ends_as P H E p headers body w (refusal status reason) w'"
  using refusal_known[of status reason] by (auto simp: ends_as_def)

lemma ends_called:
  "authenticated P H E hs caller \<Longrightarrow> lets_through P H E path hs b caller (hw_minted w) job target \<Longrightarrow> entry_call E target job w1 = (r, w') \<Longrightarrow>
    hw_service w1 = hw_service w \<Longrightarrow> hw_free w1 = hw_free w \<Longrightarrow> ends_as P H E (PStr path) (Some hs) (PBytes b) w r w'"
  unfolding ends_as_def by blast

lemma fromhex_lower: "list_all is_lower_hex s \<Longrightarrow> length s = 2 * n \<Longrightarrow> \<exists>b. fromhex s = Some b \<and> length b = n"
proof (induction n arbitrary: s)
  case (Suc n)
  then obtain c d r where s: "s = c # d # r" by (cases s; cases "tl s") auto
  with Suc obtain b where b: "fromhex r = Some b" "length b = n" by fastforce
  from Suc.prems s obtain h l where "hex_value c = Some h" "hex_value d = Some l" "c \<notin> {32, 9, 10, 11, 12, 13}"
    by (auto simp: is_lower_hex_def is_digit_def hex_value_def)
  with s b show ?case by simp
qed simp

lemma token_bytes: "hex_string 64 t \<Longrightarrow> \<exists>b. fromhex t = Some b \<and> length b = 32"
  using fromhex_lower[of t 32] by (simp add: hex_string_def)

lemma dispatch_ends:
  assumes "entry_payload P H b = Some request" "authenticated P H E hs caller" "entry_dispatch E caller request w1 = (r, w')"
    and "hw_service w1 = hw_service w" "hw_free w1 = hw_free w" "hw_minted w1 = hw_minted w"
  shows "ends_as P H E (PStr (lit ''/jobs'')) (Some hs) (PBytes b) w r w'"
proof -
  obtain t kvs where t: "request = [(lit ''text'', PStr t)]" "t \<noteq> []" "loads_body P H b = Some (PDict kvs)"
    "fst ` set kvs = {lit ''text''}" "map_of kvs (lit ''text'') = Some (PStr t)"
    using assms(1) by (auto simp: entry_payload_def split: option.splits pyval.splits if_splits)
  show ?thesis
  proof (cases "he_job_ids E (hw_minted w)")
    case (PStr j)
    show ?thesis
    proof (cases "j = []")
      case False
      then have c: "entry_call E (he_submit E (pr_subject caller) j request) j (w1\<lparr>hw_minted := Suc (hw_minted w1)\<rparr>) = (r, w')"
        using assms(3,6) PStr by (simp add: entry_dispatch_def)
      have "lets_through P H E (lit ''/jobs'') hs b caller (hw_minted w) j (he_submit E (pr_subject caller) j request)"
        using PStr t unfolding lets_through_def by blast
      from ends_called[OF assms(2) this c] assms(4,5) show ?thesis by simp
    qed (use assms PStr in \<open>auto simp: entry_dispatch_def intro: ends_refused\<close>)
  qed (use assms in \<open>auto simp: entry_dispatch_def intro: ends_refused\<close>)
qed

lemma approve_ends:
  assumes "entry_approve P H E completion caller j b
      (map_of (py_dict (map (\<lambda>(name, v). (hp_lower H name, v)) hs)) (lit ''x-approval-token'')) w1 = (r, w')"
    and "he_complete E = Some completion" "names_job ''/jobs/'' ''/approve'' path j" "authenticated P H E hs caller"
    and "hw_service w1 = hw_service w" "hw_free w1 = hw_free w"
  shows "ends_as P H E (PStr path) (Some hs) (PBytes b) w r w'"
proof (cases "empty_object P H b \<and>
    (\<exists>t. map_of (py_dict (map (\<lambda>(name, v). (hp_lower H name, v)) hs)) (lit ''x-approval-token'') = Some (PStr t) \<and> hex_string 64 t)")
  case True
  then obtain t where t: "map_of (py_dict (map (\<lambda>(name, v). (hp_lower H name, v)) hs)) (lit ''x-approval-token'') = Some (PStr t)"
    "hex_string 64 t" by blast
  then obtain k where k: "fromhex t = Some k" "length k = 32" using token_bytes by blast
  have "lets_through P H E path hs b caller (hw_minted w) j (completion (pr_subject caller) j k)"
    using assms(2,3) t k True unfolding lets_through_def empty_object_def by blast
  moreover have "entry_call E (completion (pr_subject caller) j k) j w1 = (r, w')"
    using assms(1) True t k by (simp add: entry_approve_def)
  ultimately show ?thesis using ends_called[OF assms(4)] assms(5,6) by blast
next
  case False
  then have "(r, w') = (refusal 400 ''MALFORMED_REQUEST'', w1)"
    using assms(1) by (auto simp: entry_approve_def alift_def split: option.splits pyval.splits if_splits)
  with assms(5,6) show ?thesis by (auto intro: ends_refused)
qed

lemma grant_ends:
  assumes "entry_grant P H E grant caller j b w1 = (r, w')" "he_grant_approval E = Some grant"
    and "names_job ''/approvals/'' ''/grant'' path j" "authenticated P H E hs caller"
    and "hw_service w1 = hw_service w" "hw_free w1 = hw_free w"
  shows "ends_as P H E (PStr path) (Some hs) (PBytes b) w r w'"
proof (cases "empty_object P H b")
  case True
  have "lets_through P H E path hs b caller (hw_minted w) j (grant (pr_subject caller) j)"
    using assms(2,3) True unfolding lets_through_def empty_object_def by blast
  from ends_called[OF assms(4) this] True assms(1,5,6) show ?thesis by (simp add: entry_grant_def)
qed (use assms in \<open>auto simp: entry_grant_def alift_def intro: ends_refused\<close>)

lemma route_named:
  "entry_route E path = ApproveJob j completion \<Longrightarrow> he_complete E = Some completion \<and> names_job ''/jobs/'' ''/approve'' path j"
  "entry_route E path = GrantJob j grant \<Longrightarrow> he_grant_approval E = Some grant \<and> names_job ''/approvals/'' ''/grant'' path j"
  "entry_route E path = NewJob \<Longrightarrow> path = lit ''/jobs''"
  by (auto simp: entry_route_def approve_path_def grant_path_def split: option.splits if_splits intro: path_group_names)

lemma handle_ends: "handle P H E m p headers body clock w = (r, w') \<Longrightarrow> ends_as P H E p headers body w r w'"
proof -
  assume h: "handle P H E m p headers body clock w = (r, w')"
  consider (bad) "\<not> (\<exists>verb target_path hs. m = PStr verb \<and> p = PStr target_path \<and> headers = Some hs)"
    | (some) verb target_path hs where "m = PStr verb" "p = PStr target_path" "headers = Some hs" by blast
  then show ?thesis
  proof cases
    case bad
    then have "(r, w') = (refusal 400 ''MALFORMED_REQUEST'', w)"
      using h by (auto simp: handle_def split: pyval.splits option.splits)
    then show ?thesis by (auto intro: ends_refused)
  next
    case some
    let ?low = "map_of (py_dict (map (\<lambda>(name, v). (hp_lower H name, v)) hs))"
    consider (none) "entry_route E target_path = NoRoute \<or> verb \<noteq> lit ''POST'' \<or> (\<forall>b. body \<noteq> PBytes b)"
      | (some) b where "entry_route E target_path \<noteq> NoRoute" "verb = lit ''POST''" "body = PBytes b" by blast
    then show ?thesis
    proof cases
      case none
      with h \<open>m = PStr verb\<close> \<open>p = PStr target_path\<close> \<open>headers = Some hs\<close>
      have "w' = w \<and> (\<exists>resp. r = Inr resp \<and> refused_as resp)"
        by (cases body; cases "entry_route E target_path") (auto simp: handle_def refusal_known split: if_splits)
      then show ?thesis by (auto simp: ends_as_def)
    next
      case b: some
      let ?a = "entry_principal P E (?low (lit ''authorization''))"
      consider (refused) "w' = w \<and> (\<exists>resp. r = Inr resp \<and> refused_as resp)"
        | (known) caller where "?a = Some caller"
          "entry_charged P H E (entry_route E target_path) b (?low (lit ''x-approval-token'')) clock caller w = (r, w')"
        using h some b
        by (cases "entry_route E target_path"; cases ?a)
          (auto simp: handle_def Let_def refusal_known split: if_splits option.splits pyval.splits)
      then show ?thesis
      proof cases
        case (known caller)
        note au = principal_authenticated[OF known(1)]
        note ch = known(2)[unfolded entry_charged_def]
        obtain granted st where k: "bucket_take H (he_buckets E) (pr_subject caller) clock (hw_buckets w) = (granted, st)" by force
        let ?w = "w\<lparr>hw_buckets := st\<rparr>"
        show ?thesis
        proof (cases granted)
          case False
          with ch k show ?thesis by (auto simp: Let_def intro: ends_refused)
        next
          case True
          show ?thesis
          proof (cases "entry_route E target_path")
            case (ApproveJob j completion)
            from ch k True ApproveJob have "entry_approve P H E completion caller j b (?low (lit ''x-approval-token'')) ?w = (r, w')"
              by (simp add: Let_def)
            from approve_ends[OF this _ _ au] route_named(1)[OF ApproveJob] some b show ?thesis by simp
          next
            case (GrantJob j grant)
            from ch k True GrantJob have "entry_grant P H E grant caller j b ?w = (r, w')" by (simp add: Let_def)
            from grant_ends[OF this _ _ au] route_named(2)[OF GrantJob] some b show ?thesis by simp
          next
            case NewJob
            note path = route_named(3)[OF NewJob]
            show ?thesis
            proof (cases "entry_payload P H b")
              case None
              with ch k True NewJob show ?thesis by (auto simp: Let_def intro: ends_refused)
            next
              case (Some request)
              with ch k True NewJob have "entry_dispatch E caller request ?w = (r, w')" by (simp add: Let_def)
              from dispatch_ends[OF Some au this, of w] path some b show ?thesis by simp
            qed
          qed (use b in simp)
        qed
      qed (auto simp: ends_as_def)
    qed
  qed
qed

section \<open>Budgets\<close>

definition bucket_ok :: "buckets \<Rightarrow> bucket_state \<Rightarrow> bool" where
  "bucket_ok B st \<longleftrightarrow> (\<forall>s t l. st s = Some (t, l) \<longrightarrow> 0 \<le> t \<and> t \<le> bk_burst B)"

text \<open>Requests of any subjects at any clock readings, one after the other, and their answers.\<close>

fun bucket_run :: "http_platform \<Rightarrow> buckets \<Rightarrow> (pystr \<times> rat) list \<Rightarrow> bucket_state \<Rightarrow> bool list \<times> bucket_state" where
  "bucket_run H B [] st = ([], st)"
| "bucket_run H B ((s, now) # reqs) st =
     (case bucket_take H B s now st of (g, st1) \<Rightarrow> case bucket_run H B reqs st1 of (gs, st2) \<Rightarrow> (g # gs, st2))"

definition answers_of :: "pystr \<Rightarrow> (pystr \<times> rat) list \<Rightarrow> bool list \<Rightarrow> bool list" where
  "answers_of s reqs gs = map snd (filter (\<lambda>((t, now), g). t = s) (zip reqs gs))"

lemma http_okD:
  assumes "http_ok H"
  shows "is_ascii s \<Longrightarrow> hp_lower H s = ascii_lower s" "x \<le> y \<Longrightarrow> hp_round H x \<le> hp_round H y"
    "\<bar>n\<bar> < 2 ^ 53 \<Longrightarrow> hp_round H (of_int n) = of_int n"
  using assms by (auto simp: http_ok_def)

lemma round_nonneg: "http_ok H \<Longrightarrow> 0 \<le> x \<Longrightarrow> 0 \<le> hp_round H x"
  using http_okD(2)[of H 0 x] http_okD(3)[of H 0] by simp

lemma buckets_init_facts:
  assumes "http_ok H" "1 \<le> r" "1 \<le> b" "b \<le> CEILING_BURST"
  shows "bk_burst (buckets_init H r b) = of_int b" "0 \<le> bk_rate (buckets_init H r b)"
  using assms http_okD(3)[OF assms(1), of b] round_nonneg[OF assms(1)] by (auto simp: buckets_init_def CEILING_BURST_def)

lemma bucket_take_ok:
  assumes "http_ok H" "0 \<le> bk_rate B" "bk_burst B = of_int b" "1 \<le> b" "b \<le> CEILING_BURST" "bucket_ok B st"
    and "bucket_take H B s now st = (g, st')"
  shows "bucket_ok B st'"
proof -
  obtain t0 l where p: "(case st s of None \<Rightarrow> (bk_burst B, now) | Some p \<Rightarrow> p) = (t0, l)" by force
  have t0: "0 \<le> t0" using p assms(3,4,6) by (auto simp: bucket_ok_def split: option.splits)
  let ?t = "min (bk_burst B) (hp_round H (t0 + hp_round H (max 0 (hp_round H (now - l)) * bk_rate B)))"
  have "0 \<le> hp_round H (max 0 (hp_round H (now - l)) * bk_rate B)" using assms(1,2) by (intro round_nonneg) simp_all
  then have t: "0 \<le> ?t" using round_nonneg[OF assms(1)] t0 assms(3,4) by simp
  have st': "st' = st(s \<mapsto> (if ?t \<ge> 1 then hp_round H (?t - 1) else ?t, max l now))"
    using assms(7) unfolding bucket_take_def Let_def p prod.case by (elim Pair_inject) (rule sym)
  have "hp_round H (?t - 1) \<le> hp_round H (of_int (b - 1))" using assms(3) by (intro http_okD(2)[OF assms(1)]) simp
  also have "\<dots> = of_int (b - 1)" using assms(4,5) by (intro http_okD(3)[OF assms(1)]) (simp add: CEILING_BURST_def)
  finally have u: "hp_round H (?t - 1) \<le> bk_burst B" using assms(3) by simp
  have "?t \<ge> 1 \<Longrightarrow> 0 \<le> hp_round H (?t - 1)" by (rule round_nonneg[OF assms(1)]) simp
  with t u st' assms(6) show ?thesis by (auto simp: bucket_ok_def)
qed

lemma bucket_run_ok:
  assumes "http_ok H" "0 \<le> bk_rate B" "bk_burst B = of_int b" "1 \<le> b" "b \<le> CEILING_BURST" "bucket_ok B st"
  shows "bucket_ok B (snd (bucket_run H B reqs st))"
  using assms(6)
proof (induction reqs arbitrary: st)
  case (Cons r reqs)
  obtain s now where r: "r = (s, now)" by force
  obtain g st1 where g: "bucket_take H B s now st = (g, st1)" by force
  from Cons.IH[OF bucket_take_ok[OF assms(1-5) Cons.prems g]] r g show ?case by (auto split: prod.splits)
qed simp

lemma bucket_take_local:
  assumes "bucket_take H B s now st = (g, st')"
  shows "t \<noteq> s \<Longrightarrow> st' t = st t" "st2 s = st s \<Longrightarrow> fst (bucket_take H B s now st2) = g \<and> snd (bucket_take H B s now st2) s = st' s"
  using assms by (auto simp: bucket_take_def Let_def split: prod.splits option.splits)

lemma bucket_run_length [simp]: "length (fst (bucket_run H B reqs st)) = length reqs"
proof (induction reqs arbitrary: st)
  case (Cons r reqs)
  show ?case using Cons.IH[of "snd (bucket_take H B (fst r) (snd r) st)"] by (cases r) (auto split: prod.splits)
qed simp

lemma bucket_run_independent:
  "st s = st2 s \<Longrightarrow> answers_of s reqs (fst (bucket_run H B reqs st)) = fst (bucket_run H B (filter (\<lambda>(t, now). t = s) reqs) st2)"
proof (induction reqs arbitrary: st st2)
  case (Cons r reqs)
  obtain t now where r: "r = (t, now)" by force
  obtain g st1 where g: "bucket_take H B t now st = (g, st1)" by force
  note loc = bucket_take_local[OF g]
  show ?case
  proof (cases "t = s")
    case True
    obtain g' st3 where g': "bucket_take H B t now st2 = (g', st3)" by force
    then have "g' = g" "st3 s = st1 s" using loc(2)[of st2] Cons.prems True by auto
    with Cons.IH[of st1 st3] r g g' True show ?thesis by (auto simp: answers_of_def split: prod.splits)
  next
    case False
    with loc(1)[of s] Cons.prems have "st1 s = st2 s" by simp
    from Cons.IH[of st1 st2] this False r g show ?thesis by (auto simp: answers_of_def split: prod.splits)
  qed
qed (simp add: answers_of_def)

text \<open>Without time passing, the tokens are whole numbers.\<close>

lemma still_take:
  assumes "http_ok H" "bk_burst B = of_int b" "0 \<le> n" "n \<le> b" "b \<le> CEILING_BURST"
    and "(case st s of None \<Rightarrow> (bk_burst B, now) | Some p \<Rightarrow> p) = (of_int n, now)"
  shows "bucket_take H B s now st = (1 \<le> n, st(s \<mapsto> (of_int (if 1 \<le> n then n - 1 else n), now)))"
proof -
  have z: "hp_round H 0 = 0" using http_okD(3)[OF assms(1), of 0] by simp
  have i: "\<bar>k\<bar> < 2 ^ 53" if "0 \<le> k" "k \<le> b" for k using that assms(5) by (simp add: CEILING_BURST_def)
  have n: "hp_round H (of_int n) = of_int n" by (rule http_okD(3)[OF assms(1) i[OF assms(3,4)]])
  have m: "hp_round H (of_int n - 1) = of_int (n - 1)" if "1 \<le> n"
    using http_okD(3)[OF assms(1), of "n - 1"] i[of "n - 1"] that assms(4) by simp
  have t: "min (bk_burst B) (hp_round H (of_int n + hp_round H (max 0 (hp_round H (now - now)) * bk_rate B))) = of_int n"
    using assms(2,4) z n by simp
  have "(1 \<le> (of_int n :: rat)) = (1 \<le> n)" by simp
  with m show ?thesis unfolding bucket_take_def Let_def assms(6) prod.case t by auto
qed

lemma still_run:
  assumes "http_ok H" "bk_burst B = of_int (int b)" "k \<le> b" "int b \<le> CEILING_BURST"
    and "(case st s of None \<Rightarrow> (bk_burst B, now) | Some p \<Rightarrow> p) = (of_int (int k), now)"
  shows "fst (bucket_run H B (replicate n (s, now)) st) = replicate (min n k) True @ replicate (n - k) False"
  using assms(3,5)
proof (induction n arbitrary: k st)
  case (Suc n)
  note t = still_take[where n = "int k" and b = "int b" and st = st and s = s, OF assms(1,2) _ _ assms(4) Suc.prems(2)]
  show ?case
  proof (cases k)
    case 0
    have "bucket_take H B s now st = (False, st(s \<mapsto> (of_int (int 0), now)))" using t 0 Suc.prems by simp
    moreover have "fst (bucket_run H B (replicate n (s, now)) (st(s \<mapsto> (of_int (int 0), now)))) = replicate (min n 0) True @ replicate (n - 0) False"
      by (rule Suc.IH) simp_all
    ultimately show ?thesis using 0 by (simp add: split_beta)
  next
    case (Suc k')
    have "bucket_take H B s now st = (True, st(s \<mapsto> (of_int (int k'), now)))" using t Suc.prems Suc by simp
    moreover have "fst (bucket_run H B (replicate n (s, now)) (st(s \<mapsto> (of_int (int k'), now)))) = replicate (min n k') True @ replicate (n - k') False"
      by (rule Suc.IH) (use Suc.prems Suc in simp_all)
    ultimately show ?thesis using Suc by (simp add: split_beta)
  qed
qed simp

section \<open>A request that is served\<close>

lemma text_body:
  assumes "text_ok t" "t \<noteq> []" "dumps (PDict [(lit ''text'', PStr t)]) = Some j" "\<not> hp_too_deep H j"
  shows "entry_payload P H (ascii_bytes j) = Some [(lit ''text'', PStr t)]"
proof -
  have ok: "json_ok (PDict [(lit ''text'', PStr t)])" using assms(1) by simp
  have a: "is_ascii j" by (rule dumps_ascii[OF assms(3) ok])
  have "json_loads (plain_hooks_json P) j = Inr (PDict [(lit ''text'', PStr t)])"
    using json_roundtrip[OF plain_hooks_keep assms(3) ok] by simp
  with a assms(2,4) show ?thesis by (simp add: entry_payload_def loads_body_def)
qed

lemma call_accepted:
  assumes "0 < hw_free w" "hw_free w \<le> he_max_in_flight E" "target (hw_service w) = (Inr (PDict outcome), s)"
  shows "entry_call E target minted w =
    (Inr \<lparr>rp_status = 202, rp_reason = ''ACCEPTED'', rp_body = py_dict ((lit ''job_id'', PStr minted) # outcome)\<rparr>, w\<lparr>hw_service := s\<rparr>)"
  using assms by (simp add: entry_call_eq response_init_def)

text \<open>The headers of a plain client.\<close>

definition client_headers :: "pystr \<Rightarrow> (pystr \<times> pyval) list" where
  "client_headers key =
     [(lit ''Content-Type'', PStr (lit ''application/json'')), (lit ''Authorization'', PStr (lit ''Bearer '' @ key))]"

lemma client_lowered:
  assumes "http_ok H"
  shows "py_dict (map (\<lambda>(name, v). (hp_lower H name, v)) (client_headers key)) =
     [(lit ''content-type'', PStr (lit ''application/json'')), (lit ''authorization'', PStr (lit ''Bearer '' @ key))]"
proof -
  have "hp_lower H (lit ''Content-Type'') = lit ''content-type''" "hp_lower H (lit ''Authorization'') = lit ''authorization''"
    using http_okD(1)[OF assms] by (simp_all add: ascii_lower_def) (simp_all add: lit_def)
  then show ?thesis by (simp add: client_headers_def py_dict_distinct)
qed

lemma client_principal:
  assumes "utf8_encode key = Inr k" "MIN_KEY_BYTES \<le> length k" "length k \<le> MAX_KEY_BYTES" "length key \<le> MAX_KEY_BYTES" "key \<noteq> []"
    and "map_of (he_registry E) (sha256_hex P k) = Some caller"
  shows "entry_principal P E (Some (PStr (lit ''Bearer '' @ key))) = Some caller"
proof -
  have l: "length (lit ''Bearer '') = 7" by (simp add: lit_def)
  have "starts_with (lit ''Bearer '') (lit ''Bearer '' @ key)" "drop 7 (lit ''Bearer '' @ key) = key"
    unfolding starts_with_def using l by simp_all
  with assms show ?thesis by (simp add: entry_principal_def resolve_def key_digest_def)
qed

lemma jobs_route: "entry_route E (lit ''/jobs'') = NewJob"
proof -
  have "approve_path (lit ''/jobs'') = None" "grant_path (lit ''/jobs'') = None"
    by (simp_all add: approve_path_def grant_path_def path_group_def starts_with_def Let_def lit_def)
  then show ?thesis by (simp add: entry_route_def)
qed

lemma json_content_type: "strip (takeWhile (\<lambda>c. c \<noteq> 59) (lit ''application/json'')) = lit ''application/json''"
  by (simp add: lit_def strip_def is_space_def)

lemma submit_served:
  assumes "http_ok H" "utf8_encode key = Inr k" "MIN_KEY_BYTES \<le> length k" "length k \<le> MAX_KEY_BYTES" "length key \<le> MAX_KEY_BYTES" "key \<noteq> []"
    and "map_of (he_registry E) (sha256_hex P k) = Some caller"
    and "text_ok t" "t \<noteq> []" "dumps (PDict [(lit ''text'', PStr t)]) = Some j" "\<not> hp_too_deep H j" "length j \<le> he_max_body_bytes E"
    and "fst (bucket_take H (he_buckets E) (pr_subject caller) clock (hw_buckets w))" "0 < hw_free w \<and> hw_free w \<le> he_max_in_flight E"
    and "he_job_ids E (hw_minted w) = PStr job" "job \<noteq> []"
    and "he_submit E (pr_subject caller) job [(lit ''text'', PStr t)] (hw_service w) = (Inr (PDict outcome), s)"
  shows "\<exists>w'. handle P H E (PStr (lit ''POST'')) (PStr (lit ''/jobs'')) (Some (client_headers key)) (PBytes (ascii_bytes j)) clock w
     = (Inr \<lparr>rp_status = 202, rp_reason = ''ACCEPTED'', rp_body = py_dict ((lit ''job_id'', PStr job) # outcome)\<rparr>, w')
     \<and> hw_service w' = s \<and> hw_free w' = hw_free w"
proof -
  obtain st where st: "bucket_take H (he_buckets E) (pr_subject caller) clock (hw_buckets w) = (True, st)"
    using assms(13) by (metis prod.collapse)
  let ?w = "w\<lparr>hw_buckets := st, hw_minted := Suc (hw_minted w)\<rparr>"
  have "entry_call E (he_submit E (pr_subject caller) job [(lit ''text'', PStr t)]) job ?w
    = (Inr \<lparr>rp_status = 202, rp_reason = ''ACCEPTED'', rp_body = py_dict ((lit ''job_id'', PStr job) # outcome)\<rparr>, ?w\<lparr>hw_service := s\<rparr>)"
    by (rule call_accepted) (use assms(14,17) in simp_all)
  then have "entry_charged P H E NewJob (ascii_bytes j) None clock caller w
    = (Inr \<lparr>rp_status = 202, rp_reason = ''ACCEPTED'', rp_body = py_dict ((lit ''job_id'', PStr job) # outcome)\<rparr>, ?w\<lparr>hw_service := s\<rparr>)"
    using st text_body[OF assms(8-11), of P] assms(15,16) by (simp add: entry_charged_def entry_dispatch_def)
  then show ?thesis
    using assms(12) client_principal[OF assms(2-7)] json_content_type client_lowered[OF assms(1), of key]
    by (simp add: handle_def jobs_route)
qed

section \<open>Samples\<close>

definition sample_http :: http_platform where
  "sample_http = \<lparr>hp_lower = ascii_lower, hp_too_deep = (\<lambda>_. False), hp_round = (\<lambda>x. x)\<rparr>"

lemma sample_http_ok [simp]: "http_ok sample_http"
  by (simp add: http_ok_def sample_http_def)

definition sample_key :: pystr where "sample_key = lit ''0123456789abcdef''"

text \<open>An entry whose service writes down the subjects it is called for.\<close>

definition sample_entry :: "pystr list http_entry" where
  "sample_entry =
     \<lparr>he_registry = [(sha256_hex sample_platform (ascii_bytes sample_key), \<lparr>pr_subject = lit ''alice''\<rparr>)],
      he_buckets = buckets_init sample_http 60 20, he_max_in_flight = 8, he_max_body_bytes = MAX_BODY_BYTES,
      he_submit = (\<lambda>subject job_id request s. (Inr (PDict [(lit ''status'', PStr (lit ''SUCCEEDED''))]), s @ [subject])),
      he_complete = None, he_grant_approval = None, he_job_ids = (\<lambda>n. PStr (lit ''job-1''))\<rparr>"

definition sample_http_world :: "pystr list http_world" where
  "sample_http_world = \<lparr>hw_buckets = Map.empty, hw_free = 8, hw_minted = 0, hw_service = []\<rparr>"

definition sample_body :: pystr where
  "sample_body = the (dumps (PDict [(lit ''text'', PStr (lit ''hello''))]))"

lemma sample_body_text: "dumps (PDict [(lit ''text'', PStr (lit ''hello''))]) = Some sample_body" "length sample_body \<le> MAX_BODY_BYTES"
  by (simp_all add: sample_body_def member_text_def json_string_def esc_char_def lit_def MAX_BODY_BYTES_def)

lemma sample_key_facts: "is_ascii sample_key" "length sample_key = 16" "sample_key \<noteq> []"
  by (simp_all add: sample_key_def lit_def is_ascii_def)

lemma sample_served:
  "\<exists>w'. handle sample_platform sample_http sample_entry (PStr (lit ''POST'')) (PStr (lit ''/jobs'')) (Some (client_headers sample_key))
       (PBytes (ascii_bytes sample_body)) 0 sample_http_world
     = (Inr \<lparr>rp_status = 202, rp_reason = ''ACCEPTED'',
          rp_body = py_dict [(lit ''job_id'', PStr (lit ''job-1'')), (lit ''status'', PStr (lit ''SUCCEEDED''))]\<rparr>, w')
     \<and> hw_service w' = [lit ''alice''] \<and> hw_free w' = hw_free sample_http_world"
proof (rule submit_served[OF sample_http_ok utf8_encode_ascii[OF sample_key_facts(1)] _ _ _ sample_key_facts(3) _ _ _ sample_body_text(1)])
  show "fst (bucket_take sample_http (he_buckets sample_entry) (pr_subject \<lparr>pr_subject = lit ''alice''\<rparr>) 0 (hw_buckets sample_http_world))"
    by (simp add: bucket_take_def sample_entry_def sample_http_def sample_http_world_def buckets_init_def)
qed (use sample_body_text(2) sample_key_facts(2) in \<open>simp_all add: MIN_KEY_BYTES_def MAX_KEY_BYTES_def sample_entry_def sample_http_world_def sample_http_def\<close>)

section \<open>Properties\<close>

text \<open>C39. One request in, one response out, and the slot comes back: whatever the request is, in a world that has no
  more free slots than the semaphore was made with, the answer is a
  refusal with a known status that tells its reason code and nothing else, or an acceptance; a request that
  finds no slot free does not reach the service; and the slot a call takes is given back on every outcome, also
  when the call raises. The only exception that leaves \<open>handle\<close> is one that the called service raised and
  that is no \<open>ContractError\<close>: for it there is no response, whatever the docstring of \<open>handle\<close> promises.\<close>

theorem entrance_answers:
  assumes "handle P H E m p headers body clock w = (r, w')" "hw_free w \<le> he_max_in_flight E"
  shows "hw_free w' = hw_free w
     \<and> (case r of
          Inr resp \<Rightarrow> refused_as resp \<or> rp_status resp = 202 \<and> rp_reason resp = ''ACCEPTED''
        | Inl e \<Rightarrow> \<not> is_contract_error e \<and> (\<exists>path hs b caller job target. p = PStr path \<and> headers = Some hs \<and> body = PBytes b
            \<and> lets_through P H E path hs b caller (hw_minted w) job target \<and> fst (target (hw_service w)) = Inl e))
     \<and> (hw_free w = 0 \<longrightarrow> hw_service w' = hw_service w \<and> (\<exists>resp. r = Inr resp \<and> refused_as resp))"
  using handle_ends[OF assms(1)] unfolding ends_as_def
proof (elim disjE exE conjE)
  fix path hs b caller job target w1
  assume l: "p = PStr path" "headers = Some hs" "body = PBytes b" "lets_through P H E path hs b caller (hw_minted w) job target"
    "hw_service w1 = hw_service w" "hw_free w1 = hw_free w" "entry_call E target job w1 = (r, w')"
  note t = entry_call_typed[OF l(7)]
  show ?thesis
  proof (cases r)
    case (Inl e)
    with t l assms(2) refusal_known[of 503 "''SERVICE_BUSY''"] show ?thesis by auto
  next
    case (Inr resp)
    with t l assms(2) refusal_known[of 503 "''SERVICE_BUSY''"] show ?thesis by auto
  qed
qed auto

theorem entrance_answers_witness:
  "\<exists>w'. handle sample_platform sample_http sample_entry (PStr (lit ''GET'')) (PStr (lit ''/jobs'')) None PNone 0 sample_http_world
     = (refusal 400 ''MALFORMED_REQUEST'', w') \<and> hw_free w' = 8"
proof -
  have h: "handle sample_platform sample_http sample_entry (PStr (lit ''GET'')) (PStr (lit ''/jobs'')) None PNone 0 sample_http_world
     = (refusal 400 ''MALFORMED_REQUEST'', sample_http_world)" by (simp add: handle_def)
  from entrance_answers[OF h] h show ?thesis by (simp add: sample_http_world_def sample_entry_def)
qed

text \<open>C40. Identity never comes from the request: when a request changed the service or was accepted, its key's
  digest is in the registry, and the one call it became was made for that registry entry's subject. Which call
  is decided by the path alone: \<open>/jobs\<close> submits the non-empty text of the body under the job id minted for it;
  \<open>/jobs/<id>/approve\<close> and \<open>/approvals/<id>/grant\<close> complete and grant the very job the path names, the first
  with the 32 bytes of the token header, both with an empty object as body. An acceptance reports that job id
  and what the call returned.\<close>

theorem identity_from_registry:
  assumes "handle P H E m p headers body clock w = (r, w')"
    and "hw_service w' \<noteq> hw_service w \<or> (\<exists>resp. r = Inr resp \<and> rp_status resp = 202)"
  shows "\<exists>path hs b caller job target. p = PStr path \<and> headers = Some hs \<and> body = PBytes b \<and> authenticated P H E hs caller
     \<and> lets_through P H E path hs b caller (hw_minted w) job target
     \<and> hw_service w' = snd (target (hw_service w))
     \<and> (\<forall>resp. r = Inr resp \<and> rp_status resp = 202 \<longrightarrow>
          (\<exists>outcome. fst (target (hw_service w)) = Inr (PDict outcome) \<and> rp_body resp = py_dict ((lit ''job_id'', PStr job) # outcome)))"
  using handle_ends[OF assms(1)] unfolding ends_as_def
proof (elim disjE exE conjE)
  fix resp
  assume "r = Inr resp" "refused_as resp" "hw_service w' = hw_service w"
  with assms(2) show ?thesis by (auto simp: refused_as_def)
next
  fix path hs b caller job target w1
  assume l: "p = PStr path" "headers = Some hs" "body = PBytes b" "authenticated P H E hs caller"
    "lets_through P H E path hs b caller (hw_minted w) job target" "hw_service w1 = hw_service w" "entry_call E target job w1 = (r, w')"
  note c = entry_call_serves[OF l(7), unfolded l(6)]
  have "hw_service w' = snd (target (hw_service w))" using c assms(2) by blast
  with l c show ?thesis by blast
qed

theorem identity_from_registry_witness:
  "\<exists>r w' caller. handle sample_platform sample_http sample_entry (PStr (lit ''POST'')) (PStr (lit ''/jobs'')) (Some (client_headers sample_key))
       (PBytes (ascii_bytes sample_body)) 0 sample_http_world = (r, w')
     \<and> hw_service w' = [lit ''alice''] \<and> authenticated sample_platform sample_http sample_entry (client_headers sample_key) caller"
proof -
  obtain r w' where h: "handle sample_platform sample_http sample_entry (PStr (lit ''POST'')) (PStr (lit ''/jobs'')) (Some (client_headers sample_key))
       (PBytes (ascii_bytes sample_body)) 0 sample_http_world = (r, w')" "hw_service w' = [lit ''alice'']" "\<exists>resp. r = Inr resp \<and> rp_status resp = 202"
    using sample_served by force
  from identity_from_registry[OF h(1)] h show ?thesis by blast
qed

text \<open>A good request is served: with a registered key, a JSON body whose one field \<open>text\<close> is a non-empty
  string, a token left in the subject's bucket and a free slot, \<open>submit\<close> is called for the registered
  subject with the minted job id and that text, and its answer comes back with status 202.\<close>

theorem good_request_served:
  assumes "http_ok H" "utf8_encode key = Inr k" "MIN_KEY_BYTES \<le> length k" "length k \<le> MAX_KEY_BYTES" "length key \<le> MAX_KEY_BYTES" "key \<noteq> []"
    and "map_of (he_registry E) (sha256_hex P k) = Some caller"
    and "text_ok t" "t \<noteq> []" "dumps (PDict [(lit ''text'', PStr t)]) = Some j" "\<not> hp_too_deep H j" "length j \<le> he_max_body_bytes E"
    and "fst (bucket_take H (he_buckets E) (pr_subject caller) clock (hw_buckets w))" "0 < hw_free w \<and> hw_free w \<le> he_max_in_flight E"
    and "he_job_ids E (hw_minted w) = PStr job" "job \<noteq> []"
    and "he_submit E (pr_subject caller) job [(lit ''text'', PStr t)] (hw_service w) = (Inr (PDict outcome), s)"
  shows "\<exists>w'. handle P H E (PStr (lit ''POST'')) (PStr (lit ''/jobs'')) (Some (client_headers key)) (PBytes (ascii_bytes j)) clock w
     = (Inr \<lparr>rp_status = 202, rp_reason = ''ACCEPTED'', rp_body = py_dict ((lit ''job_id'', PStr job) # outcome)\<rparr>, w')
     \<and> hw_service w' = s \<and> hw_free w' = hw_free w"
  by (rule submit_served[OF assms])

theorem good_request_served_witness:
  "\<exists>w' b. handle sample_platform sample_http sample_entry (PStr (lit ''POST'')) (PStr (lit ''/jobs'')) (Some (client_headers sample_key))
       (PBytes (ascii_bytes sample_body)) 0 sample_http_world = (Inr \<lparr>rp_status = 202, rp_reason = ''ACCEPTED'', rp_body = b\<rparr>, w')
     \<and> hw_service w' = [lit ''alice'']"
proof -
  have g: "fst (bucket_take sample_http (he_buckets sample_entry) (pr_subject \<lparr>pr_subject = lit ''alice''\<rparr>) 0 (hw_buckets sample_http_world))"
    by (simp add: bucket_take_def sample_entry_def sample_http_def sample_http_world_def buckets_init_def)
  have "\<exists>w'. handle sample_platform sample_http sample_entry (PStr (lit ''POST'')) (PStr (lit ''/jobs'')) (Some (client_headers sample_key))
       (PBytes (ascii_bytes sample_body)) 0 sample_http_world
     = (Inr \<lparr>rp_status = 202, rp_reason = ''ACCEPTED'',
          rp_body = py_dict [(lit ''job_id'', PStr (lit ''job-1'')), (lit ''status'', PStr (lit ''SUCCEEDED''))]\<rparr>, w')
     \<and> hw_service w' = [lit ''alice''] \<and> hw_free w' = hw_free sample_http_world"
    by (rule good_request_served[OF sample_http_ok utf8_encode_ascii[OF sample_key_facts(1)] _ _ _ sample_key_facts(3) _ _ _ sample_body_text(1) _ _ g])
      (use sample_body_text(2) sample_key_facts(2) in \<open>simp_all add: MIN_KEY_BYTES_def MAX_KEY_BYTES_def sample_entry_def sample_http_world_def sample_http_def\<close>)
  then show ?thesis by blast
qed

text \<open>The budget is bounded: whatever requests of whatever subjects arrive at whatever clock readings,
  stepped back or not, every bucket holds between nothing and \<open>burst\<close> tokens.\<close>

theorem bucket_bounded:
  assumes "http_ok H" "1 \<le> r" "1 \<le> b" "b \<le> CEILING_BURST"
  shows "bucket_ok (buckets_init H r b) (snd (bucket_run H (buckets_init H r b) reqs Map.empty)) \<and> bk_burst (buckets_init H r b) = of_int b"
proof
  have "bucket_ok (buckets_init H r b) Map.empty" by (simp add: bucket_ok_def)
  from bucket_run_ok[OF assms(1) buckets_init_facts(2,1)[OF assms] assms(3,4) this]
  show "bucket_ok (buckets_init H r b) (snd (bucket_run H (buckets_init H r b) reqs Map.empty))" .
qed (rule buckets_init_facts(1)[OF assms])

theorem bucket_bounded_witness:
  "bucket_ok (buckets_init sample_http 60 20) (snd (bucket_run sample_http (buckets_init sample_http 60 20) [(lit ''alice'', 5), (lit ''alice'', 3)] Map.empty))"
  using bucket_bounded[OF sample_http_ok, of 60 20 "[(lit ''alice'', 5), (lit ''alice'', 3)]"] by (simp add: CEILING_BURST_def)

text \<open>A burst is exactly a burst: of any number of requests a fresh subject makes while no time passes, the
  first \<open>burst\<close> are granted and all others refused.\<close>

theorem burst_exact:
  assumes "http_ok H" "1 \<le> r" "1 \<le> b" "int b \<le> CEILING_BURST"
  shows "fst (bucket_run H (buckets_init H r (int b)) (replicate n (s, now)) Map.empty) = replicate (min n b) True @ replicate (n - b) False"
  by (rule still_run[OF assms(1) buckets_init_facts(1)[OF assms(1,2) _ assms(4)] order_refl assms(4)])
    (use assms(3) buckets_init_facts(1)[OF assms(1,2) _ assms(4)] in simp_all)

theorem burst_exact_witness:
  "fst (bucket_run sample_http (buckets_init sample_http 60 (int 2)) (replicate 3 (lit ''alice'', 0)) Map.empty) = [True, True, False]"
  using burst_exact[OF sample_http_ok, of 60 2 3 "lit ''alice''" 0] by (simp add: CEILING_BURST_def numeral_eq_Suc)

text \<open>One caller cannot spend another's budget: the answers a subject gets are those it would have got had
  nobody else asked.\<close>

theorem budgets_independent:
  "answers_of s reqs (fst (bucket_run H B reqs st)) = fst (bucket_run H B (filter (\<lambda>(t, now). t = s) reqs) st)"
  by (rule bucket_run_independent) simp

text \<open>The registry takes a digest string that is no digest: 62 hexadecimal digits and two spaces pass
  the constructor's check, and no key resolves to the entry.\<close>

theorem registry_takes_blanks:
  assumes "hash_ok P"
  shows "\<exists>reg. registry_init (Some [(PStr (replicate 62 48 @ [32, 32]), PStr (lit ''alice''))]) = Inr reg \<and> length reg = 1
     \<and> (\<forall>key. resolve P reg key = None)"
proof -
  let ?d = "replicate 62 48 @ [32, 32] :: pystr"
  have f: "\<exists>b. fromhex (replicate 62 48 @ [32, 32]) = Some b" by (simp add: numeral_eq_Suc hex_value_def)
  have l: "ascii_lower ?d = ?d" by (simp add: ascii_lower_def numeral_eq_Suc)
  have "registry_init (Some [(PStr ?d, PStr (lit ''alice''))]) = Inr [(?d, \<lparr>pr_subject = lit ''alice''\<rparr>)]"
    using f l by (auto simp: registry_init_def registry_entry_def principal_init_def utf8_size_def py_dict_def lit_def utf8_char_def)
  moreover have "resolve P [(?d, \<lparr>pr_subject = lit ''alice''\<rparr>)] key = None" for key
  proof -
    have "sha256_hex P k \<noteq> ?d" for k
    proof
      assume "sha256_hex P k = ?d"
      with sha256_hex_digest[OF assms, of k] have "is_digest ?d" by simp
      then show False by (simp add: is_digest_def hex_string_def is_lower_hex_def is_digit_def)
    qed
    then show ?thesis by (auto simp: resolve_def key_digest_def split: sum.splits pyval.splits if_splits)
  qed
  ultimately show ?thesis by (intro exI[of _ "[(?d, \<lparr>pr_subject = lit ''alice''\<rparr>)]"]) simp
qed

theorem registry_takes_blanks_witness:
  "\<exists>reg. registry_init (Some [(PStr (replicate 62 48 @ [32, 32]), PStr (lit ''alice''))]) = Inr reg
     \<and> resolve sample_platform reg (PBytes (ascii_bytes sample_key)) = None"
  using registry_takes_blanks[OF sample_platform_ok(1)] by blast

end
