(* ===== verification/Wiring.thy ===== *)
theory Wiring
  imports Verifier Recorder Pending HttpEntry Keys
begin

text \<open>
  \<open>geniusnew/wiring.py\<close>: the composition root. A service is the orchestrator, the gateway, the verifier,
  the recorder and the stores, put together; its state is an orchestrator's world whose log part holds
  the audit log, the acceptance ledger, the waiting jobs and the number of clock readings so far. The
  clock is a function from the number of a reading to its value, and so is the source of approval tokens.

  \<open>sv_durable\<close> is \<open>database_connection is not None\<close>. The stores are records of operations, so that both
  configurations are the same definitions; \<open>sv_rollback\<close> and \<open>sv_commits\<close> stand for the database: what a
  failed transaction restores and whether a commit succeeds. The properties are about the process-local
  service \<open>local_service\<close>.
\<close>

section \<open>State\<close>

record ('k, 'n, 'c, 'q) service_state =
  ss_log :: "('k, 'n) audit_log"
  ss_acceptances :: 'c
  ss_pending :: 'q
  ss_ticks :: nat

type_synonym ('s, 'l, 'k, 'n, 'c, 'q) service_world = "('s, 'l, ('k, 'n, 'c, 'q) service_state) orch_world"

record 'w pending_store =
  pq_durable :: bool
  pq_add :: "pystr \<Rightarrow> waiting \<Rightarrow> int \<Rightarrow> bool \<Rightarrow> ('w, unit) action"
  pq_peek :: "pystr \<Rightarrow> ('w, waiting) action"
  pq_decide :: "pystr \<Rightarrow> pystr \<Rightarrow> int \<Rightarrow> int \<Rightarrow> ('w, waiting) action"
  pq_take :: "pystr \<Rightarrow> pystr \<Rightarrow> ('w, waiting) action"
  pq_restore :: "pystr \<Rightarrow> waiting \<Rightarrow> ('w, unit) action"
  pq_refuse :: "pystr \<Rightarrow> pystr \<Rightarrow> int \<Rightarrow> bool \<Rightarrow> ('w, unit) action"

abbreviation on_audit :: "(('k, 'n) audit_log, 'a) action \<Rightarrow> (('k, 'n, 'c, 'q) service_state, 'a) action" where
  "on_audit \<equiv> azoom ss_log (\<lambda>l s. s\<lparr>ss_log := l\<rparr>)"

abbreviation on_acceptances :: "('c, 'a) action \<Rightarrow> (('k, 'n, 'c, 'q) service_state, 'a) action" where
  "on_acceptances \<equiv> azoom ss_acceptances (\<lambda>c s. s\<lparr>ss_acceptances := c\<rparr>)"

abbreviation on_pending :: "('q, 'a) action \<Rightarrow> (('k, 'n, 'c, 'q) service_state, 'a) action" where
  "on_pending \<equiv> azoom ss_pending (\<lambda>q s. s\<lparr>ss_pending := q\<rparr>)"

text \<open>\<open>PendingJobs\<close> in the service's world. It has no \<open>refuse\<close>, which only the durable service calls.\<close>

definition local_pending_store :: "('s, 'l, 'k, 'n, 'c, pending_jobs) service_world pending_store" where
  "local_pending_store =
     \<lparr>pq_durable = False,
      pq_add = (\<lambda>j wt now tx. on_log (on_pending (pending_add j wt now tx))),
      pq_peek = (\<lambda>j. on_log (on_pending (pending_peek j))),
      pq_decide = (\<lambda>j u now ttl. on_log (on_pending (pending_decide j u now ttl))),
      pq_take = (\<lambda>j subject. on_log (on_pending (pending_take j subject))),
      pq_restore = (\<lambda>j wt. on_log (on_pending (pending_restore j wt))),
      pq_refuse = (\<lambda>j subject now tx. araise (PyError ''AttributeError''))\<rparr>"

record ('s, 'l, 'k, 'n, 'c, 'q) service =
  sv_orchestrator :: "('s, 'l, ('k, 'n, 'c, 'q) service_state) orchestrator"
  sv_verifier :: result_acceptor
  sv_acceptance :: "('s, 'l, 'k, 'n, 'c, 'q) service_world acceptance_ledger"
  sv_recorder :: "('k, 'n) recorder"
  sv_policy :: policy
  sv_handoff_verifier :: handoff_verifier
  sv_grant :: "bytes \<Rightarrow> approval_scope \<Rightarrow> int \<Rightarrow> int \<Rightarrow> bool \<Rightarrow> ('s, approval_grant) action"
  sv_approver_policy :: approver_policy
  sv_pending :: "('s, 'l, 'k, 'n, 'c, 'q) service_world pending_store"
  sv_clock :: "nat \<Rightarrow> int"
  sv_tokens :: "nat \<Rightarrow> bytes"
  sv_durable :: bool
  sv_rollback :: "('s, 'l, 'k, 'n, 'c, 'q) service_world \<Rightarrow> ('s, 'l, 'k, 'n, 'c, 'q) service_world \<Rightarrow> ('s, 'l, 'k, 'n, 'c, 'q) service_world"
  sv_commits :: "('s, 'l, 'k, 'n, 'c, 'q) service_world \<Rightarrow> bool"

definition svc_now :: "('s, 'l, 'k, 'n, 'c, 'q) service \<Rightarrow> (('s, 'l, 'k, 'n, 'c, 'q) service_world, int) action" where
  "svc_now sv w =
     (Inr (sv_clock sv (ss_ticks (ow_log w))), w\<lparr>ow_log := (ow_log w)\<lparr>ss_ticks := Suc (ss_ticks (ow_log w))\<rparr>\<rparr>)"

section \<open>Recording\<close>

definition PENDING_EXPIRED :: string where "PENDING_EXPIRED = ''PENDING_APPROVAL_EXPIRED''"
definition PENDING_DISPATCH_REFUSED :: string where "PENDING_DISPATCH_REFUSED = ''PENDING_DISPATCH_REFUSED''"
definition APPROVAL_TTL_SECONDS :: int where "APPROVAL_TTL_SECONDS = 30"

definition trace_id :: "platform \<Rightarrow> handoff \<Rightarrow> pystr result" where
  "trace_id P h = rbind (handoff_digest P h) (\<lambda>d. Inr (lit ''trace-'' @ take 16 d))"

text \<open>\<open>event_from_handoff(handoff, ..., actor=recorder.audit.actor(component, instance_id), ...)\<close>.\<close>

definition recorded_event ::
  "platform \<Rightarrow> ('k, 'n) recorder \<Rightarrow> handoff \<Rightarrow> pystr \<Rightarrow> string \<Rightarrow> pystr \<Rightarrow> string \<Rightarrow> string \<Rightarrow> string \<Rightarrow> int \<Rightarrow> pystr option \<Rightarrow> pystr
     \<Rightarrow> pystr option \<Rightarrow> audit_event result" where
  "recorded_event P R h trace component instance_id action decision reason occurred_at receipt api_subject result_sha256 =
     rbind (audit_actor (rd_audit R) (lit component) instance_id) (\<lambda>actor.
     event_from_handoff P h trace actor (lit action) (lit decision) (lit reason) occurred_at receipt (Some api_subject) result_sha256)"

definition append_event ::
  "platform \<Rightarrow> ('k, 'n) recorder \<Rightarrow> handoff \<Rightarrow> pystr \<Rightarrow> pystr \<Rightarrow> string \<Rightarrow> pystr \<Rightarrow> string \<Rightarrow> string \<Rightarrow> string \<Rightarrow> int \<Rightarrow> pystr option
     \<Rightarrow> pystr option \<Rightarrow> (('k, 'n, 'c, 'q) service_state, unit) action" where
  "append_event P R h api_subject trace component instance_id action decision reason occurred_at receipt result_sha256 =
     abind (alift (recorded_event P R h trace component instance_id action decision reason occurred_at receipt api_subject result_sha256)) (\<lambda>e.
     on_audit (log_append R e))"

text \<open>The callback \<open>on_admitted\<close>.\<close>

definition admission_recorder ::
  "platform \<Rightarrow> gateway \<Rightarrow> ('k, 'n) recorder \<Rightarrow> dispatch_permit \<Rightarrow> pystr \<Rightarrow> (('k, 'n, 'c, 'q) service_state, unit) action" where
  "admission_recorder P gw R permit subject =
     abind (alift (handoff_from_permit P (Some permit))) (\<lambda>h.
     if dp_gateway_id permit \<noteq> gw_id gw then araise (ContractError ''admission names a gateway this service did not wire'') else
     abind (alift (trace_id P h)) (\<lambda>trace.
     append_event P R h subject trace ''gateway'' (dp_gateway_id permit) ''HANDOFF_ADMITTED'' ''ALLOWED'' ADMISSION_REASON_CODE
       (dp_admitted_at permit) (dp_approval_record_hash permit) None))"

text \<open>The callback \<open>on_dispatched\<close>.\<close>

definition dispatch_recorder ::
  "platform \<Rightarrow> ('k, 'n) recorder \<Rightarrow> pystr \<Rightarrow> dispatch_permit \<Rightarrow> pystr \<Rightarrow> decision \<Rightarrow> (('k, 'n, 'c, 'q) service_state, unit) action" where
  "dispatch_recorder P R orchestrator_id permit subject decided =
     abind (alift (handoff_from_permit P (Some permit))) (\<lambda>h.
     abind (alift (trace_id P h)) (\<lambda>trace.
     append_event P R h subject trace ''orchestrator'' orchestrator_id (d_action decided) (d_decision decided) (d_reason_code decided)
       (d_occurred_at decided) None None))"

section \<open>Durable steps\<close>

text \<open>One database transaction: what fails is rolled back, a commit may fail.\<close>

definition in_transaction ::
  "('s, 'l, 'k, 'n, 'c, 'q) service \<Rightarrow> (('s, 'l, 'k, 'n, 'c, 'q) service_world, 'a) action
     \<Rightarrow> (('s, 'l, 'k, 'n, 'c, 'q) service_world, 'a) action" where
  "in_transaction sv m w =
     (case m w of
        (Inl e, w') \<Rightarrow> (Inl e, sv_rollback sv w w')
      | (Inr x, w') \<Rightarrow>
          if sv_commits sv w' then (Inr x, w') else (fail ''audit transaction is unavailable'', sv_rollback sv w w'))"

definition atomic ::
  "('s, 'l, 'k, 'n, 'c, 'q) service \<Rightarrow> (('s, 'l, 'k, 'n, 'c, 'q) service_world, 'a) action \<Rightarrow> ('a \<Rightarrow> audit_event result)
     \<Rightarrow> (('s, 'l, 'k, 'n, 'c, 'q) service_world, 'a) action" where
  "atomic sv mutate event =
     log_atomic (sv_recorder sv) (\<lambda>w. ss_log (ow_log w)) (\<lambda>l w. w\<lparr>ow_log := (ow_log w)\<lparr>ss_log := l\<rparr>\<rparr>)
       (in_transaction sv
          (abind mutate (\<lambda>result.
           abind (alift (event result)) (\<lambda>e.
           abind (on_log (on_audit (on_chain (ch_append (rd_chain (sv_recorder sv)) e True)))) (\<lambda>_.
           areturn result)))))"

text \<open>The callback \<open>atomic_admitted\<close>.\<close>

definition atomic_admission_recorder ::
  "platform \<Rightarrow> ('s, 'l, 'k, 'n, 'c, 'q) service \<Rightarrow> (('s, 'l, 'k, 'n, 'c, 'q) service_world, dispatch_permit \<times> reservation) action \<Rightarrow> pystr
     \<Rightarrow> (('s, 'l, 'k, 'n, 'c, 'q) service_world, dispatch_permit \<times> reservation) action" where
  "atomic_admission_recorder P sv mutate subject =
     atomic sv mutate (\<lambda>(permit, r).
       rbind (handoff_from_permit P (Some permit)) (\<lambda>h.
       if dp_gateway_id permit \<noteq> gw_id (or_gateway (sv_orchestrator sv)) then fail ''admission names a gateway this service did not wire'' else
       rbind (trace_id P h) (\<lambda>trace.
       recorded_event P (sv_recorder sv) h trace ''gateway'' (dp_gateway_id permit) ''HANDOFF_ADMITTED'' ''ALLOWED'' ADMISSION_REASON_CODE
         (dp_admitted_at permit) (dp_approval_record_hash permit) subject None)))"

text \<open>The callback \<open>atomic_dispatched\<close>.\<close>

definition atomic_dispatch_recorder ::
  "platform \<Rightarrow> ('s, 'l, 'k, 'n, 'c, 'q) service \<Rightarrow> (('s, 'l, 'k, 'n, 'c, 'q) service_world, unit) action \<Rightarrow> dispatch_permit \<Rightarrow> pystr \<Rightarrow> decision
     \<Rightarrow> (('s, 'l, 'k, 'n, 'c, 'q) service_world, unit) action" where
  "atomic_dispatch_recorder P sv mutate permit subject decided =
     abind (alift (handoff_from_permit P (Some permit))) (\<lambda>h.
     atomic sv mutate (\<lambda>_.
       rbind (trace_id P h) (\<lambda>trace.
       recorded_event P (sv_recorder sv) h trace ''orchestrator'' (or_id (sv_orchestrator sv)) (d_action decided) (d_decision decided)
         (d_reason_code decided) (d_occurred_at decided) None subject None)))"

definition atomic_pending_refusal ::
  "platform \<Rightarrow> ('s, 'l, 'k, 'n, 'c, 'q) service \<Rightarrow> waiting \<Rightarrow> pystr \<Rightarrow> pystr \<Rightarrow> int \<Rightarrow> string \<Rightarrow> pystr \<Rightarrow> string
     \<Rightarrow> (('s, 'l, 'k, 'n, 'c, 'q) service_world, unit) action" where
  "atomic_pending_refusal P sv wt job_id subject now component instance_id reason =
     atomic sv (pq_refuse (sv_pending sv) job_id subject now True) (\<lambda>_.
       recorded_event P (sv_recorder sv) (wt_handoff wt) (wt_trace_id wt) component instance_id ''HANDOFF_REJECTED'' ''DENIED'' reason now
         None subject None)"

section \<open>Approving\<close>

definition approve_grant ::
  "platform \<Rightarrow> ('s, 'l, 'k, 'n, 'c, 'q) service \<Rightarrow> bytes \<Rightarrow> pystr \<Rightarrow> pystr \<Rightarrow> pystr \<Rightarrow> int \<Rightarrow> waiting
     \<Rightarrow> (('s, 'l, 'k, 'n, 'c, 'q) service_world, bytes) action" where
  "approve_grant P sv source_token job_id approver_subject approver ttl_seconds wt =
     (if h_user_id (wt_handoff wt) = approver then araise (ContractError ''an approver cannot grant its own job'') else
      abind (svc_now sv) (\<lambda>now.
      abind (if pq_durable (sv_pending sv) \<and> now \<ge> h_expires_at (wt_handoff wt)
             then atomic_pending_refusal P sv wt job_id (wt_subject wt) now ''gateway'' (gw_id (or_gateway (sv_orchestrator sv))) PENDING_EXPIRED
             else areturn ()) (\<lambda>_.
      abind (alift (create_scope P (PBytes (wt_wire wt)) (wt_subject wt) job_id (sv_policy sv) (Verifier (sv_handoff_verifier sv)) now)) (\<lambda>scope.
      let grant_event = (\<lambda>issued. recorded_event P (sv_recorder sv) (wt_handoff wt) (wt_trace_id wt) ''gateway''
            (gw_id (or_gateway (sv_orchestrator sv))) ''APPROVAL_GRANTED'' ''ALLOWED'' ''OPERATOR_APPROVED'' now
            (Some (ag_record_hash issued)) approver_subject None);
          grant = (\<lambda>tx. on_gateway (azoom gw_approvals (\<lambda>s g. g\<lparr>gw_approvals := s\<rparr>) (sv_grant sv source_token scope now ttl_seconds tx)))
      in abind (if pq_durable (sv_pending sv) then atomic sv (grant True) grant_event
                else abind (grant False) (\<lambda>issued.
                     abind (alift (grant_event issued)) (\<lambda>e.
                     abind (on_log (on_audit (log_append (sv_recorder sv) e))) (\<lambda>_. areturn issued)))) (\<lambda>issued.
         areturn (ag_token issued))))))"

definition svc_approve ::
  "platform \<Rightarrow> ('s, 'l, 'k, 'n, 'c, 'q) service \<Rightarrow> bytes \<Rightarrow> pystr \<Rightarrow> pystr \<Rightarrow> int \<Rightarrow> (('s, 'l, 'k, 'n, 'c, 'q) service_world, bytes) action" where
  "svc_approve P sv source_token job_id approver_subject ttl_seconds =
     abind (alift (approver_user_id (sv_approver_policy sv) approver_subject)) (\<lambda>approver.
     if pq_durable (sv_pending sv)
     then abind (pq_peek (sv_pending sv) job_id) (approve_grant P sv source_token job_id approver_subject approver ttl_seconds)
     else abind (svc_now sv) (\<lambda>now.
          abind (pq_decide (sv_pending sv) job_id approver now ttl_seconds)
            (approve_grant P sv source_token job_id approver_subject approver ttl_seconds)))"

definition svc_head :: "('s, 'l, 'k, 'n, 'c, 'q) service \<Rightarrow> (('s, 'l, 'k, 'n, 'c, 'q) service_world, audit_head) action" where
  "svc_head sv = on_log (on_audit (log_head (sv_recorder sv)))"

text \<open>The callback \<open>grant_approval\<close> of the entrance.\<close>

definition grant_approval ::
  "platform \<Rightarrow> ('s, 'l, 'k, 'n, 'c, 'q) service \<Rightarrow> pystr \<Rightarrow> pystr \<Rightarrow> (('s, 'l, 'k, 'n, 'c, 'q) service_world, pyval) action" where
  "grant_approval P sv subject job_id w =
     abind (svc_approve P sv (sv_tokens sv (ss_ticks (ow_log w))) job_id subject APPROVAL_TTL_SECONDS) (\<lambda>token.
     areturn (PDict [(lit ''status'', PStr (lit ''APPROVAL_GRANTED'')), (lit ''approval_token'', PStr (bytes_hex token))])) w"

section \<open>Submitting\<close>

definition revalidate :: "platform \<Rightarrow> ('s, 'l, 'k, 'n, 'c, 'q) service \<Rightarrow> bytes \<Rightarrow> pystr \<Rightarrow> pystr \<Rightarrow> int \<Rightarrow> handoff result" where
  "revalidate P sv wire subject job_id now =
     rbind (grant_for (sv_policy sv) subject) (\<lambda>grant.
     if g_requires_approval grant
     then validate_pending P (PBytes wire) subject job_id (sv_policy sv) (Verifier (sv_handoff_verifier sv)) now
     else validate P (PBytes wire) subject job_id (sv_policy sv) (Verifier (sv_handoff_verifier sv)) now)"

definition issue_job ::
  "platform \<Rightarrow> ('s, 'l, 'k, 'n, 'c, 'q) service \<Rightarrow> pystr \<Rightarrow> pystr \<Rightarrow> (pystr \<times> pyval) list
     \<Rightarrow> (('s, 'l, 'k, 'n, 'c, 'q) service_world, bytes \<times> handoff \<times> pystr \<times> decision) action" where
  "issue_job P sv subject job_id request =
     abind (svc_now sv) (\<lambda>admitted_at.
     abind (alift (route (sv_orchestrator sv) subject (sv_policy sv) admitted_at)) (\<lambda>_.
     abind (alift (orch_admit P (sv_orchestrator sv) (PDict request) subject job_id (sv_policy sv) admitted_at)) (\<lambda>am.
     abind (alift (revalidate P sv (am_wire am) subject job_id admitted_at)) (\<lambda>h.
     abind (alift (trace_id P h)) (\<lambda>trace.
     areturn (am_wire am, h, trace, am_decision am))))))"

definition append_gateway_refusal ::
  "platform \<Rightarrow> ('s, 'l, 'k, 'n, 'c, 'q) service \<Rightarrow> pystr \<Rightarrow> string \<Rightarrow> int \<Rightarrow> handoff \<Rightarrow> pystr \<Rightarrow> pystr
     \<Rightarrow> (('s, 'l, 'k, 'n, 'c, 'q) service_world, unit) action" where
  "append_gateway_refusal P sv gateway_id reason occurred_at h trace subject =
     on_log (append_event P (sv_recorder sv) h subject trace ''gateway'' gateway_id ''HANDOFF_REJECTED'' ''DENIED'' reason occurred_at None None)"

definition append_orchestrator_refusal ::
  "platform \<Rightarrow> ('s, 'l, 'k, 'n, 'c, 'q) service \<Rightarrow> decision \<Rightarrow> handoff \<Rightarrow> pystr \<Rightarrow> pystr
     \<Rightarrow> (('s, 'l, 'k, 'n, 'c, 'q) service_world, unit) action" where
  "append_orchestrator_refusal P sv decided h trace subject =
     on_log (append_event P (sv_recorder sv) h subject trace ''orchestrator'' (or_id (sv_orchestrator sv)) (d_action decided) (d_decision decided)
       (d_reason_code decided) (d_occurred_at decided) None None)"

text \<open>The three \<open>except\<close> clauses around \<open>dispatch\<close>; each records and raises again.\<close>

definition dispatch_refused ::
  "platform \<Rightarrow> ('s, 'l, 'k, 'n, 'c, 'q) service \<Rightarrow> handoff \<Rightarrow> pystr \<Rightarrow> pystr \<Rightarrow> int \<Rightarrow> bool \<Rightarrow> exc
     \<Rightarrow> (('s, 'l, 'k, 'n, 'c, 'q) service_world, 'a) action" where
  "dispatch_refused P sv h trace subject dispatch_at defer e =
     abind (case e of
              GatewayRejected message gateway_id reason occurred_at \<Rightarrow>
                if defer then areturn () else append_gateway_refusal P sv gateway_id reason occurred_at h trace subject
            | Denied message decided \<Rightarrow>
                if defer then areturn () else append_orchestrator_refusal P sv decided h trace subject
            | DispatchAttempted message decided \<Rightarrow>
                on_log (append_event P (sv_recorder sv) h subject trace ''worker'' (h_worker_agent_id h) ''HANDOFF_REJECTED'' ''DENIED''
                  ''EXECUTION_REFUSED'' dispatch_at None None)
            | _ \<Rightarrow> areturn ()) (\<lambda>_.
     araise e)"

definition accept_result ::
  "platform \<Rightarrow> ('s, 'l, 'k, 'n, 'c, 'q) service \<Rightarrow> job_dispatch \<Rightarrow> pystr \<Rightarrow> pystr \<Rightarrow> int \<Rightarrow> bool
     \<Rightarrow> (('s, 'l, 'k, 'n, 'c, 'q) service_world, acceptance) action" where
  "accept_result P sv d subject job_id verify_at transaction =
     verifier_accept P (sv_acceptance sv) (sv_verifier sv) (PBytes (ds_result_wire d)) (PBytes (ds_handoff_wire d)) subject job_id
       (sv_policy sv) verify_at (evidence (ds_approval_record_hash d)) transaction"

definition accepted_event ::
  "platform \<Rightarrow> ('s, 'l, 'k, 'n, 'c, 'q) service \<Rightarrow> handoff \<Rightarrow> pystr \<Rightarrow> pystr \<Rightarrow> acceptance \<Rightarrow> audit_event result" where
  "accepted_event P sv h trace subject a =
     recorded_event P (sv_recorder sv) h trace ''monitor'' (rv_id (sv_verifier sv)) ''RESULT_ACCEPTED'' ''ALLOWED'' ''RESULT_VERIFIED''
       (ac_occurred_at a) (case ac_approval_record_hash a of PStr s \<Rightarrow> Some s | _ \<Rightarrow> None) subject (Some (ac_result_sha256 a))"

definition job_reply :: "acceptance \<Rightarrow> pyval" where
  "job_reply a =
     PDict [(lit ''status'', PStr (ac_status a)), (lit ''reason_code'', PStr (r_reason_code (ac_result a))),
       (lit ''output'', or_none (r_output (ac_result a))), (lit ''handoff_sha256'', PStr (ac_handoff_sha256 a)),
       (lit ''result_sha256'', PStr (ac_result_sha256 a))]"

definition svc_run ::
  "platform \<Rightarrow> ('s, 'l, 'k, 'n, 'c, 'q) service \<Rightarrow> pystr \<Rightarrow> pystr \<Rightarrow> bytes \<Rightarrow> handoff \<Rightarrow> pystr \<Rightarrow> bytes option \<Rightarrow> bool
     \<Rightarrow> (('s, 'l, 'k, 'n, 'c, 'q) service_world, pyval) action" where
  "svc_run P sv subject job_id wire h trace approval_token defer_refusals =
     abind (svc_now sv) (\<lambda>dispatch_at.
     abind (acatch (dispatch P (sv_orchestrator sv) (PBytes wire) subject job_id (sv_policy sv) dispatch_at approval_token)
              (dispatch_refused P sv h trace subject dispatch_at defer_refusals)) (\<lambda>d.
     abind (svc_now sv) (\<lambda>verify_at.
     abind (acatch (if sv_durable sv
                    then atomic sv (accept_result P sv d subject job_id verify_at True)
                           (accepted_event P sv h trace subject)
                    else accept_result P sv d subject job_id verify_at False)
              (\<lambda>e. abind (case e of
                            Rejected message reason occurred_at \<Rightarrow>
                              on_log (append_event P (sv_recorder sv) h subject trace ''monitor'' (rv_id (sv_verifier sv)) ''RESULT_REJECTED''
                                ''DENIED'' reason occurred_at None None)
                          | _ \<Rightarrow> areturn ()) (\<lambda>_. araise e))) (\<lambda>a.
     abind (if sv_durable sv then areturn ()
            else abind (alift (accepted_event P sv h trace subject a)) (\<lambda>e.
                 on_log (on_audit (log_append (sv_recorder sv) e)))) (\<lambda>_.
     areturn (job_reply a))))))"

definition issued_event ::
  "platform \<Rightarrow> ('s, 'l, 'k, 'n, 'c, 'q) service \<Rightarrow> handoff \<Rightarrow> pystr \<Rightarrow> pystr \<Rightarrow> decision \<Rightarrow> audit_event result" where
  "issued_event P sv h trace subject issued =
     recorded_event P (sv_recorder sv) h trace ''orchestrator'' (or_id (sv_orchestrator sv)) (d_action issued) (d_decision issued)
       (if h_approval_state h = PENDING then ''PENDING_APPROVAL'' else d_reason_code issued) (d_occurred_at issued) None subject None"

definition svc_submit ::
  "platform \<Rightarrow> ('s, 'l, 'k, 'n, 'c, 'q) service \<Rightarrow> pystr \<Rightarrow> pystr \<Rightarrow> (pystr \<times> pyval) list
     \<Rightarrow> (('s, 'l, 'k, 'n, 'c, 'q) service_world, pyval) action" where
  "svc_submit P sv subject job_id request =
     abind (issue_job P sv subject job_id request) (\<lambda>(wire, h, trace, issued).
     abind (alift (grant_for (sv_policy sv) subject)) (\<lambda>grant.
     if g_requires_approval grant then
       let wt = \<lparr>wt_subject = subject, wt_wire = wire, wt_handoff = h, wt_trace_id = trace, wt_decision_expires_at = 0\<rparr> in
       abind (svc_now sv) (\<lambda>pending_at.
       abind (if sv_durable sv
              then atomic sv (pq_add (sv_pending sv) job_id wt pending_at True) (\<lambda>_. issued_event P sv h trace subject issued)
              else abind (alift (issued_event P sv h trace subject issued)) (\<lambda>e.
                   abind (on_log (on_audit (log_append (sv_recorder sv) e))) (\<lambda>_.
                   pq_add (sv_pending sv) job_id wt pending_at False))) (\<lambda>_.
       abind (alift (handoff_digest P h)) (\<lambda>digest.
       areturn (PDict [(lit ''status'', PStr PENDING), (lit ''handoff_sha256'', PStr digest)]))))
     else
       abind (alift (issued_event P sv h trace subject issued)) (\<lambda>e.
       abind (on_log (on_audit (log_append (sv_recorder sv) e))) (\<lambda>_.
       svc_run P sv subject job_id wire h trace None False))))"

text \<open>The two \<open>except\<close> clauses of \<open>complete\<close>.\<close>

definition completion_refused ::
  "platform \<Rightarrow> ('s, 'l, 'k, 'n, 'c, 'q) service \<Rightarrow> waiting \<Rightarrow> pystr \<Rightarrow> pystr \<Rightarrow> exc \<Rightarrow> (('s, 'l, 'k, 'n, 'c, 'q) service_world, 'a) action" where
  "completion_refused P sv wt job_id subject e =
     abind (case e of
              Denied message decided \<Rightarrow>
                if \<not> sv_durable sv then areturn () else
                if d_reason_code decided = ''JOB_ID_REUSED''
                then append_orchestrator_refusal P sv decided (wt_handoff wt) (wt_trace_id wt) subject
                else atomic_pending_refusal P sv wt job_id subject (d_occurred_at decided) ''orchestrator'' (or_id (sv_orchestrator sv))
                       PENDING_DISPATCH_REFUSED
            | GatewayRejected message gateway_id reason occurred_at \<Rightarrow>
                if \<not> sv_durable sv then pq_restore (sv_pending sv) job_id wt else
                if occurred_at \<ge> h_expires_at (wt_handoff wt)
                then atomic_pending_refusal P sv wt job_id subject occurred_at ''gateway'' gateway_id PENDING_EXPIRED
                else append_gateway_refusal P sv gateway_id reason occurred_at (wt_handoff wt) (wt_trace_id wt) subject
            | _ \<Rightarrow> areturn ()) (\<lambda>_.
     araise e)"

definition svc_complete ::
  "platform \<Rightarrow> ('s, 'l, 'k, 'n, 'c, 'q) service \<Rightarrow> pystr \<Rightarrow> pystr \<Rightarrow> bytes \<Rightarrow> (('s, 'l, 'k, 'n, 'c, 'q) service_world, pyval) action" where
  "svc_complete P sv subject job_id approval_token =
     abind (pq_take (sv_pending sv) job_id subject) (\<lambda>wt.
     acatch (svc_run P sv subject job_id (wt_wire wt) (wt_handoff wt) (wt_trace_id wt) (Some approval_token) (sv_durable sv))
       (completion_refused P sv wt job_id subject))"

section \<open>Assembly\<close>

type_synonym local_world = "(approval_store, local_jobs, chain_record list, anchor, pystr list, pending_jobs) service_world"
type_synonym local_service = "(approval_store, local_jobs, chain_record list, anchor, pystr list, pending_jobs) service"

text \<open>The agent a worker is registered under: the one its grants name.\<close>

definition worker_endpoint_for :: "policy \<Rightarrow> worker_runner \<Rightarrow> worker_endpoint result" where
  "worker_endpoint_for policy runner =
     (case remdups (map g_worker_agent_id (filter (\<lambda>g. wk_tool runner \<in> set (g_tools g)) (p_grants policy))) of
        [] \<Rightarrow> fail ''no grant in this policy names a worker for tool''
      | [agent] \<Rightarrow> endpoint_init agent runner
      | _ \<Rightarrow> fail ''grants name more than one worker agent for tool; one worker cannot be registered as several agents'')"

text \<open>The arguments of \<open>build\<close> for the process-local service. A worker is what \<open>make_runner\<close> does with the
  authority it is given.\<close>

record build_args =
  ba_root_secret :: pyval
  ba_policy :: policy
  ba_workers :: "(worker_authority \<Rightarrow> worker_runner result) list"
  ba_api_keys :: "(pyval \<times> pyval) list option"
  ba_principals :: "(pyval \<times> pyval) list option"
  ba_approvers :: "(pystr \<times> pystr) list option"
  ba_clock :: "nat \<Rightarrow> int"
  ba_tokens :: "nat \<Rightarrow> bytes"
  ba_gateway_id :: pystr
  ba_verifier_id :: pystr
  ba_job_ids :: "nat \<Rightarrow> pyval"
  ba_limits :: "http_limits option"

definition default_limits :: http_limits where
  "default_limits = \<lparr>hl_rate_per_minute = 60, hl_burst = 20, hl_max_in_flight = 8, hl_max_connections = 64\<rparr>"

definition local_hooks ::
  "platform \<Rightarrow> gateway \<Rightarrow> ('k, 'n) recorder \<Rightarrow> pystr \<Rightarrow> ('s, 'l, ('k, 'n, 'c, 'q) service_state) orch_hooks" where
  "local_hooks P gw R orchestrator_id =
     \<lparr>oh_on_admitted = Some (admission_recorder P gw R), oh_on_dispatched = Some (dispatch_recorder P R orchestrator_id),
      oh_atomic_admitted = None, oh_atomic_dispatched = None\<rparr>"

definition local_acceptance :: "platform \<Rightarrow> ('s, 'l, 'k, 'n, pystr list, 'q) service_world acceptance_ledger" where
  "local_acceptance P job_id handoff_wire result_wire now transaction =
     on_log (on_acceptances (local_accept P job_id handoff_wire result_wire now transaction))"

definition build :: "platform \<Rightarrow> http_platform \<Rightarrow> build_args \<Rightarrow> (local_service \<times> local_world http_entry) result" where
  "build P H args =
     (if (ba_api_keys args = None) = (ba_principals args = None) then fail ''pass exactly one of api_keys or principals'' else
      let limits = (case ba_limits args of None \<Rightarrow> default_limits | Some l \<Rightarrow> l); policy = ba_policy args in
      rbind (if ba_api_keys args \<noteq> None then registry_from_api_keys P (ba_api_keys args) else registry_init (ba_principals args)) (\<lambda>registry.
      rbind (approver_policy_init (case ba_approvers args of None \<Rightarrow> [] | Some a \<Rightarrow> a) policy (registry_subjects registry)) (\<lambda>approver_policy.
      rbind (derive_keys P (ba_root_secret args)) (\<lambda>keys.
      rbind (audit_authority_init P (sk_audit_key keys)) (\<lambda>audit.
      let R = local_recorder P audit in
      rbind (handoff_signer_init P (sk_integrity_key keys)) (\<lambda>signer.
      rbind (gateway_init (ba_gateway_id args) (Verifier (hs_verifier signer))) (\<lambda>gw.
      rbind (worker_authority_init P (sk_result_key keys) (Some (sk_integrity_key keys))) (\<lambda>authority.
      rbind (rmap (\<lambda>make_runner. rbind (make_runner authority) (worker_endpoint_for policy)) (ba_workers args)) (\<lambda>endpoints.
      rbind (orchestrator_init (p_orchestrator_id policy) (Some signer) (Some gw) (\<lambda>tx t sc now. approval_consume P t sc now tx)
               endpoints local_ledger (local_hooks P gw R (p_orchestrator_id policy))) (\<lambda>oc.
      rbind (verifier_init (ba_verifier_id args) (Verifier (hs_verifier signer)) (VerifierArg (wa_verifier authority))) (\<lambda>v.
      let sv = \<lparr>sv_orchestrator = oc, sv_verifier = v, sv_acceptance = local_acceptance P, sv_recorder = R, sv_policy = policy,
                sv_handoff_verifier = hs_verifier signer, sv_grant = approval_grant_op P, sv_approver_policy = approver_policy,
                sv_pending = local_pending_store, sv_clock = ba_clock args, sv_tokens = ba_tokens args, sv_durable = False,
                sv_rollback = (\<lambda>before after. before), sv_commits = (\<lambda>w. True)\<rparr> in
      rbind (http_entry_init H registry (svc_submit P sv) (ba_job_ids args) (PInt (int MAX_BODY_BYTES)) (Some (svc_complete P sv))
               (if approver_policy \<noteq> [] then Some (grant_approval P sv) else None)
               (PInt (hl_rate_per_minute limits)) (PInt (hl_burst limits)) (PInt (hl_max_in_flight limits))) (\<lambda>entry.
      Inr (sv, entry)))))))))))))"

definition local_state :: local_world where
  "local_state = \<lparr>ow_gateway = \<lparr>gw_approvals = Map.empty, gw_uses = []\<rparr>, ow_ledger = [],
     ow_log = \<lparr>ss_log = local_log, ss_acceptances = [], ss_pending = [], ss_ticks = 0\<rparr>\<rparr>"

section \<open>What every operation keeps\<close>

text \<open>A service as \<open>build\<close> puts it together.\<close>

definition wired :: "platform \<Rightarrow> bytes \<Rightarrow> local_service \<Rightarrow> bool" where
  "wired P key sv \<longleftrightarrow>
     (\<exists>audit_key audit. audit_authority_init P audit_key = Inr audit \<and> sv_recorder sv = local_recorder P audit)
   \<and> or_hooks (sv_orchestrator sv) = local_hooks P (or_gateway (sv_orchestrator sv)) (sv_recorder sv) (or_id (sv_orchestrator sv))
   \<and> or_ledger (sv_orchestrator sv) = local_ledger \<and> or_consume (sv_orchestrator sv) = (\<lambda>tx t sc now. approval_consume P t sc now tx)
   \<and> is_instance_id (gw_id (or_gateway (sv_orchestrator sv))) \<and> is_instance_id (or_id (sv_orchestrator sv))
   \<and> is_instance_id (rv_id (sv_verifier sv))
   \<and> handoff_signer_init P key = Inr (or_signer (sv_orchestrator sv))
   \<and> gw_verifier (or_gateway (sv_orchestrator sv)) = hs_verifier (or_signer (sv_orchestrator sv))
   \<and> rv_handoff_verifier (sv_verifier sv) = hs_verifier (or_signer (sv_orchestrator sv))
   \<and> sv_handoff_verifier sv = hs_verifier (or_signer (sv_orchestrator sv))
   \<and> sv_acceptance sv = local_acceptance P \<and> sv_pending sv = local_pending_store \<and> sv_grant sv = approval_grant_op P \<and> \<not> sv_durable sv"

lemma keeps_exc [keeps_rules]:
  assumes "\<And>m. keeps I (f1 m)" "\<And>m g r t. keeps I (f2 m g r t)" "\<And>m d. keeps I (f3 m d)" "\<And>m d. keeps I (f4 m d)"
    "\<And>m r t. keeps I (f5 m r t)" "\<And>m. keeps I (f6 m)" "\<And>m. keeps I (f7 m)"
  shows "keeps I (case e of ContractError m \<Rightarrow> f1 m | GatewayRejected m g r t \<Rightarrow> f2 m g r t | Denied m d \<Rightarrow> f3 m d
     | DispatchAttempted m d \<Rightarrow> f4 m d | Rejected m r t \<Rightarrow> f5 m r t | WorkerBoundaryError m \<Rightarrow> f6 m | PyError m \<Rightarrow> f7 m)"
  using assms by (cases e) auto

text \<open>A property of the audit log as a property of the world.\<close>

definition on_world :: "((chain_record list, anchor) audit_log \<Rightarrow> bool) \<Rightarrow> local_world \<Rightarrow> bool" where
  "on_world J w \<longleftrightarrow> J (ss_log (ow_log w))"

lemma world_zooms [keeps_rules]:
  "keeps (on_world J) (on_gateway m1)" "keeps (on_world J) (on_ledger m2)"
  "keeps (on_world J) (on_log (on_acceptances m3))" "keeps (on_world J) (on_log (on_pending m4))"
  "keeps (on_world J) (svc_now sv)"
  by (auto simp: keeps_def azoom_eq on_world_def svc_now_def)

lemma world_audit:
  assumes "keeps J m"
  shows "keeps (on_world J) (on_log (on_audit m))"
  using assms by (auto simp: keeps_def azoom_eq on_world_def)

lemma world_log: "keeps (\<lambda>s. J (ss_log s)) m \<Longrightarrow> keeps (on_world J) (on_log m)"
  unfolding keeps_def azoom_eq on_world_def by fastforce

lemma event_keeps:
  assumes "\<And>e. keeps J (log_append R e)"
  shows "keeps (\<lambda>s. J (ss_log s)) (append_event P R h s t c i a d r now rh res)"
  unfolding append_event_def using assms by (intro keeps_rules keeps_zoom[where J = J]) auto

lemma hooks_keep:
  assumes "\<And>e. keeps J (log_append R e)"
  shows "keeps (\<lambda>s. J (ss_log s)) (admission_recorder P gw R p s)" "keeps (\<lambda>s. J (ss_log s)) (dispatch_recorder P R i p s d)"
  unfolding admission_recorder_def dispatch_recorder_def by (intro keeps_rules event_keeps assms)+

lemma log_append_event:
  "(\<And>e. keeps J (log_append R e)) \<Longrightarrow> keeps (on_world J) (on_log (append_event P R h s t c i a d r now rh res))"
  by (rule world_log) (rule event_keeps)

lemma log_hooks:
  assumes "\<And>e. keeps J (log_append R e)"
  shows "keeps (on_world J) (on_log (admission_recorder P gw R p s))" "keeps (on_world J) (on_log (dispatch_recorder P R i p s d))"
  by (rule world_log, rule hooks_keep, rule assms)+

lemma wiredD:
  assumes "wired P key sv"
  shows "or_hooks (sv_orchestrator sv) = local_hooks P (or_gateway (sv_orchestrator sv)) (sv_recorder sv) (or_id (sv_orchestrator sv))"
    "sv_acceptance sv = local_acceptance P" "sv_pending sv = local_pending_store" "sv_durable sv = False" "sv_grant sv = approval_grant_op P"
  using assms by (auto simp: wired_def)

lemma log_dispatch:
  assumes "\<And>e. keeps J (log_append (sv_recorder sv) e)" "wired P key sv"
  shows "keeps (on_world J) (dispatch P (sv_orchestrator sv) wire subject j policy now token)"
proof -
  note h = wiredD(1)[OF assms(2), unfolded local_hooks_def]
  note k = log_hooks[OF assms(1)]
  show ?thesis
    unfolding dispatch_def admit_and_reserve_def run_dispatch_def h orch_hooks.select_convs option.case
    by (intro keeps_rules k)
qed

lemma log_run:
  assumes "\<And>e. keeps J (log_append (sv_recorder sv) e)" "wired P key sv"
  shows "keeps (on_world J) (svc_run P sv subject j wire h trace token defer)"
proof -
  note k = log_append_event[OF assms(1)] log_dispatch[OF assms] world_audit[OF assms(1)]
  show ?thesis
    unfolding svc_run_def dispatch_refused_def append_gateway_refusal_def append_orchestrator_refusal_def accept_result_def verifier_accept_def
      wiredD[OF assms(2)] local_acceptance_def if_False
    by (intro keeps_rules k)
qed

lemma log_submit:
  assumes "\<And>e. keeps J (log_append (sv_recorder sv) e)" "wired P key sv"
  shows "keeps (on_world J) (svc_submit P sv subject j request)"
proof -
  note k = log_run[OF assms] world_audit[OF assms(1)]
  show ?thesis
    unfolding svc_submit_def issue_job_def wiredD[OF assms(2)] if_False Let_def local_pending_store_def pending_store.select_convs
    by (intro keeps_rules k)
qed

lemma log_complete:
  assumes "\<And>e. keeps J (log_append (sv_recorder sv) e)" "wired P key sv"
  shows "keeps (on_world J) (svc_complete P sv subject j token)"
proof -
  note k = log_run[OF assms] world_audit[OF assms(1)] log_append_event[OF assms(1)]
  show ?thesis
    unfolding svc_complete_def completion_refused_def wiredD[OF assms(2)] if_False not_False_eq_True if_True local_pending_store_def pending_store.select_convs
    by (intro keeps_rules k)
qed

lemma log_approve:
  assumes "\<And>e. keeps J (log_append (sv_recorder sv) e)" "wired P key sv"
  shows "keeps (on_world J) (svc_approve P sv token j subject ttl)"
proof -
  note k = log_run[OF assms] world_audit[OF assms(1)] log_append_event[OF assms(1)]
  show ?thesis
    unfolding svc_approve_def approve_grant_def wiredD[OF assms(2)] local_pending_store_def pending_store.select_convs if_False simp_thms Let_def
    by (intro keeps_rules k)
qed

end
