(* ===== verification/Service.thy ===== *)
theory Service
  imports Wiring
begin

text \<open>
  The composed service of \<open>geniusnew/wiring.py\<close>, process-local configuration: what its operations leave on
  the audit log, that the log is kept over every history of calls, and that a job which fits runs through
  from its submission to the accepted result.
\<close>

section \<open>Evidence\<close>

lemma acatch_raises:
  assumes "\<And>e t x t'. h e t \<noteq> (Inr x, t')"
  shows "acatch m h s = (Inr x, s') \<longleftrightarrow> m s = (Inr x, s')"
  using assms by (auto simp: acatch_def split: prod.splits sum.splits)

lemma dispatch_refused_raises: "dispatch_refused P sv h trace subject now defer e t \<noteq> (Inr x, t')"
  by (auto simp: dispatch_refused_def abind_eq_Inr araise_eq)

lemma recorded_event_facts:
  assumes "recorded_event P R h trace c i action decision reason now rh api res = Inr e"
  obtains b where "handoff_to_bytes h = Inr b" "ev_handoff_sha256 e = sha256_hex P b" "ev_trace_id e = trace"
    "ev_actor e = \<lparr>ca_component = lit c, ca_instance_id = i\<rparr>" "ev_action e = lit action" "ev_decision e = lit decision"
    "ev_reason_code e = lit reason" "ev_occurred_at e = now" "ev_approval_record_hash e = rh" "ev_result_sha256 e = res"
proof -
  from assms obtain actor where a: "actor = \<lparr>ca_component = lit c, ca_instance_id = i\<rparr>"
    "event_from_handoff P h trace actor (lit action) (lit decision) (lit reason) now rh (Some api) res = Inr e"
    by (auto simp: recorded_event_def audit_actor_def component_actor_init_def rbind_eq_Inr split: if_splits)
  from a(2) show thesis by (rule event_from_handoff_eq_Inr) (use that a(1) in blast)
qed

lemma trace_id_eq_Inr:
  "trace_id P h = Inr t \<Longrightarrow> handoff_to_bytes h = Inr b \<Longrightarrow> t = lit ''trace-'' @ take 16 (sha256_hex P b)"
  by (auto simp: trace_id_def rbind_eq_Inr handoff_digest_eq_Inr)

abbreviation events_of :: "(chain_record list, anchor, 'c, 'q) service_state \<Rightarrow> audit_event list" where
  "events_of s \<equiv> map cr_event (lg_chain (ss_log s))"

text \<open>One more event on a log that was acknowledged.\<close>

definition logs :: "audit_event \<Rightarrow> (chain_record list, anchor, 'c, 'q) service_state \<Rightarrow> (chain_record list, anchor, 'c, 'q) service_state \<Rightarrow> bool" where
  "logs e s s' \<longleftrightarrow> events_of s' = events_of s @ [e] \<and> local_ok (ss_log s') \<and> \<not> lg_needs_reanchor (ss_log s')"

lemma append_logs:
  assumes "on_audit (log_append (local_recorder P audit) e) s = (Inr (), s')" "local_ok (ss_log s)"
  shows "logs e s s'"
proof -
  from assms(1) obtain l where l: "log_append (local_recorder P audit) e (ss_log s) = (Inr (), l)" "s' = s\<lparr>ss_log := l\<rparr>"
    by (auto simp: azoom_eq)
  from local_audit.append_refines[OF l(1) assms(2)] l(2) show ?thesis
    by (auto simp: logs_def log_step_True log_abs_def)
qed

lemma append_event_logs:
  assumes "append_event P (local_recorder P audit) h api trace c i action decision reason now rh res s = (Inr (), s')" "local_ok (ss_log s)"
  obtains e where "recorded_event P (local_recorder P audit) h trace c i action decision reason now rh api res = Inr e" "logs e s s'"
proof -
  from assms(1) obtain e where "recorded_event P (local_recorder P audit) h trace c i action decision reason now rh api res = Inr e"
    "on_audit (log_append (local_recorder P audit) e) s = (Inr (), s')" by (auto simp: append_event_def abind_eq_Inr alift_eq)
  with append_logs[OF _ assms(2)] that show thesis by blast
qed

lemma dispatch_logged:
  assumes "dispatch P oc wire subject j policy now token w = (Inr d, w')"
    and "or_hooks oc = \<lparr>oh_on_admitted = Some c1, oh_on_dispatched = Some c2, oh_atomic_admitted = None, oh_atomic_dispatched = None\<rparr>"
  obtains p b l1 where "handoff_to_bytes (dp_handoff p) = Inr b" "wire = PBytes b" "ds_handoff_wire d = b"
    "c1 p subject (ow_log w) = (Inr (), l1)"
    "c2 p subject \<lparr>d_action = ''EXECUTION_DISPATCHED'', d_decision = ''ALLOWED'', d_reason_code = ''POLICY_SATISFIED'', d_occurred_at = now\<rparr> l1
       = (Inr (), ow_log w')"
proof -
  note h = assms(2)
  from assms(1) obtain ep p r decided x w1 w2 b where
    2: "admit_and_reserve P oc wire subject j policy now token False True w = (Inr (p, r), w1)"
    and 3: "run_dispatch P oc ep p r subject now w1 = (Inr (decided, x), w')" and 4: "handoff_to_bytes (dp_handoff p) = Inr b"
    and 5: "ds_handoff_wire d = b"
    unfolding dispatch_def h orch_hooks.select_convs option.case
    by (auto simp: abind_eq_Inr alift_eq azoom_eq areturn_eq available_eq_Inr split: prod.splits)
  from 2 obtain b' where a: "wire = PBytes b'" "handoff_to_bytes (dp_handoff p) = Inr b'"
    by (rule admit_and_reserve_eq_Inr)
  from 2 have "c1 p subject (ow_log w) = (Inr (), ow_log w1)"
    unfolding admit_and_reserve_def h orch_hooks.select_convs option.case if_True a(1) pyval.case
    by (auto simp: abind_eq_Inr alift_eq azoom_eq areturn_eq split: if_splits)
  note a = a this
  from 3 have "c2 p subject \<lparr>d_action = ''EXECUTION_DISPATCHED'', d_decision = ''ALLOWED'', d_reason_code = ''POLICY_SATISFIED'', d_occurred_at = now\<rparr> (ow_log w1)
       = (Inr (), ow_log w')"
    unfolding run_dispatch_def h orch_hooks.select_convs option.case
    by (auto simp: abind_eq_Inr alift_eq azoom_eq areturn_eq decision_init_eq_Inr acatch_eq araise_eq)
  with a 4 5 that show thesis by simp
qed

lemma accept_keeps_log:
  fixes w :: local_world
  assumes "verifier_accept P (local_acceptance P) v rw hw subject j policy now rh tx w = (r, w')"
  shows "ss_log (ow_log w') = ss_log (ow_log w)"
proof -
  have "keeps (on_world (\<lambda>l. l = ss_log (ow_log w))) (verifier_accept P (local_acceptance P) v rw hw subject j policy now rh tx)"
    unfolding verifier_accept_def local_acceptance_def by (intro keeps_rules)
  from keepsD[OF this assms] show ?thesis by (simp add: on_world_def)
qed

lemma hooks_logged:
  assumes "admission_recorder P gw (local_recorder P audit) p subject s = (Inr (), s1)"
    and "dispatch_recorder P (local_recorder P audit) i p subject dd s1 = (Inr (), s2)"
    and "handoff_to_bytes (dp_handoff p) = Inr b" "local_ok (ss_log s)" "d_decision dd = ''ALLOWED''"
  shows "\<exists>e1 e2. events_of s2 = events_of s @ [e1, e2] \<and> local_ok (ss_log s2) \<and> \<not> lg_needs_reanchor (ss_log s2)
     \<and> [ev_action e1, ev_action e2] = [lit ''HANDOFF_ADMITTED'', lit (d_action dd)]
     \<and> [ev_actor e1, ev_actor e2] = [\<lparr>ca_component = lit ''gateway'', ca_instance_id = gw_id gw\<rparr>, \<lparr>ca_component = lit ''orchestrator'', ca_instance_id = i\<rparr>]
     \<and> (\<forall>e \<in> {e1, e2}. ev_decision e = lit ''ALLOWED'' \<and> ev_handoff_sha256 e = sha256_hex P b
          \<and> ev_trace_id e = lit ''trace-'' @ take 16 (sha256_hex P b))"
proof -
  from assms(1) obtain t1 where 1: "trace_id P (dp_handoff p) = Inr t1" "dp_gateway_id p = gw_id gw"
    "append_event P (local_recorder P audit) (dp_handoff p) subject t1 ''gateway'' (gw_id gw) ''HANDOFF_ADMITTED'' ''ALLOWED'' ADMISSION_REASON_CODE
       (dp_admitted_at p) (dp_approval_record_hash p) None s = (Inr (), s1)"
    by (auto simp: admission_recorder_def abind_eq_Inr alift_eq araise_eq handoff_from_permit_def rbind_eq_Inr split: if_splits)
  from assms(2) obtain t2 where 2: "trace_id P (dp_handoff p) = Inr t2"
    "append_event P (local_recorder P audit) (dp_handoff p) subject t2 ''orchestrator'' i (d_action dd) (d_decision dd) (d_reason_code dd)
       (d_occurred_at dd) None None s1 = (Inr (), s2)"
    by (auto simp: dispatch_recorder_def abind_eq_Inr alift_eq handoff_from_permit_def rbind_eq_Inr split: if_splits)
  obtain e1 where e1: "recorded_event P (local_recorder P audit) (dp_handoff p) t1 ''gateway'' (gw_id gw) ''HANDOFF_ADMITTED'' ''ALLOWED'' ADMISSION_REASON_CODE
       (dp_admitted_at p) (dp_approval_record_hash p) subject None = Inr e1" "logs e1 s s1"
    by (rule append_event_logs[OF 1(3) assms(4)])
  have ok: "local_ok (ss_log s1)" using e1(2) by (simp add: logs_def)
  obtain e2 where e2: "recorded_event P (local_recorder P audit) (dp_handoff p) t2 ''orchestrator'' i (d_action dd) (d_decision dd) (d_reason_code dd)
       (d_occurred_at dd) None subject None = Inr e2" "logs e2 s1 s2"
    by (rule append_event_logs[OF 2(2) ok])
  note t = trace_id_eq_Inr[OF 1(1) assms(3)] trace_id_eq_Inr[OF 2(1) assms(3)]
  from e1(1) assms(3) t(1) have f1: "ev_action e1 = lit ''HANDOFF_ADMITTED''" "ev_actor e1 = \<lparr>ca_component = lit ''gateway'', ca_instance_id = gw_id gw\<rparr>"
    "ev_decision e1 = lit ''ALLOWED''" "ev_handoff_sha256 e1 = sha256_hex P b" "ev_trace_id e1 = lit ''trace-'' @ take 16 (sha256_hex P b)"
    by (elim recorded_event_facts; simp)+
  from e2(1) assms(3,5) t(2) have f2: "ev_action e2 = lit (d_action dd)" "ev_actor e2 = \<lparr>ca_component = lit ''orchestrator'', ca_instance_id = i\<rparr>"
    "ev_decision e2 = lit ''ALLOWED''" "ev_handoff_sha256 e2 = sha256_hex P b" "ev_trace_id e2 = lit ''trace-'' @ take 16 (sha256_hex P b)"
    by (elim recorded_event_facts; simp)+
  from e1(2) e2(2) f1 f2 show ?thesis by (intro exI[of _ e1] exI[of _ e2]) (auto simp: logs_def)
qed

text \<open>What a run that came back left on the log and says in its answer.\<close>

lemma run_evidence:
  assumes "wired P key sv" "sv_recorder sv = local_recorder P audit" "local_ok (ss_log (ow_log w))" "handoff_to_bytes h = Inr b"
    and "svc_run P sv subject j b h (lit ''trace-'' @ take 16 (sha256_hex P b)) token defer w = (Inr reply, w')"
  shows "\<exists>es a. events_of (ow_log w') = events_of (ow_log w) @ es \<and> local_ok (ss_log (ow_log w')) \<and> \<not> lg_needs_reanchor (ss_log (ow_log w'))
     \<and> map ev_action es = map lit [''HANDOFF_ADMITTED'', ''EXECUTION_DISPATCHED'', ''RESULT_ACCEPTED'']
     \<and> map ev_actor es = [\<lparr>ca_component = lit ''gateway'', ca_instance_id = gw_id (or_gateway (sv_orchestrator sv))\<rparr>,
          \<lparr>ca_component = lit ''orchestrator'', ca_instance_id = or_id (sv_orchestrator sv)\<rparr>, \<lparr>ca_component = lit ''monitor'', ca_instance_id = rv_id (sv_verifier sv)\<rparr>]
     \<and> (\<forall>e \<in> set es. ev_decision e = lit ''ALLOWED'' \<and> ev_handoff_sha256 e = sha256_hex P b
          \<and> ev_trace_id e = lit ''trace-'' @ take 16 (sha256_hex P b))
     \<and> reply = job_reply a \<and> ac_handoff_sha256 a = sha256_hex P b \<and> ev_result_sha256 (last es) = Some (ac_result_sha256 a)"
proof -
  let ?t = "lit ''trace-'' @ take 16 (sha256_hex P b)"
  note wd = wiredD[OF assms(1)]
  have r2: "abind m (\<lambda>_. araise e) t \<noteq> (Inr x, t')" for m e t x t'
    by (auto simp: abind_eq_Inr araise_eq)
  from assms(5) obtain t1 w1 d w2 t2 w3 a w4 e where
    n1: "svc_now sv w = (Inr t1, w1)"
    and d: "dispatch P (sv_orchestrator sv) (PBytes b) subject j (sv_policy sv) t1 token w1 = (Inr d, w2)"
    and n2: "svc_now sv w2 = (Inr t2, w3)"
    and acc: "accept_result P sv d subject j t2 False w3 = (Inr a, w4)"
    and e: "accepted_event P sv h ?t subject a = Inr e"
    and l: "on_log (on_audit (log_append (sv_recorder sv) e)) w4 = (Inr (), w')"
    and rep: "reply = job_reply a"
    unfolding svc_run_def wd(4) if_False
    by (auto simp: abind_eq_Inr alift_eq areturn_eq acatch_raises[OF dispatch_refused_raises] acatch_raises[OF r2])
  have s1: "ss_log (ow_log w1) = ss_log (ow_log w)" "ss_log (ow_log w3) = ss_log (ow_log w2)" using n1 n2 by (auto simp: svc_now_def)
  from d wd(1)[unfolded local_hooks_def] obtain p b' l1 where p: "handoff_to_bytes (dp_handoff p) = Inr b'" "PBytes b = PBytes b'" "ds_handoff_wire d = b'"
    "admission_recorder P (or_gateway (sv_orchestrator sv)) (sv_recorder sv) p subject (ow_log w1) = (Inr (), l1)"
    "dispatch_recorder P (sv_recorder sv) (or_id (sv_orchestrator sv)) p subject
       \<lparr>d_action = ''EXECUTION_DISPATCHED'', d_decision = ''ALLOWED'', d_reason_code = ''POLICY_SATISFIED'', d_occurred_at = t1\<rparr> l1 = (Inr (), ow_log w2)"
    by (rule dispatch_logged)
  have b: "handoff_to_bytes (dp_handoff p) = Inr b" using p by simp
  from hooks_logged[OF p(4,5)[unfolded assms(2)] b] assms(3) s1(1) obtain e1 e2 where
    h: "events_of (ow_log w2) = events_of (ow_log w) @ [e1, e2]" "local_ok (ss_log (ow_log w2))"
    "[ev_action e1, ev_action e2] = [lit ''HANDOFF_ADMITTED'', lit ''EXECUTION_DISPATCHED'']"
    "[ev_actor e1, ev_actor e2] = [\<lparr>ca_component = lit ''gateway'', ca_instance_id = gw_id (or_gateway (sv_orchestrator sv))\<rparr>,
        \<lparr>ca_component = lit ''orchestrator'', ca_instance_id = or_id (sv_orchestrator sv)\<rparr>]"
    "\<forall>e \<in> {e1, e2}. ev_decision e = lit ''ALLOWED'' \<and> ev_handoff_sha256 e = sha256_hex P b \<and> ev_trace_id e = ?t"
    by auto
  have s4: "ss_log (ow_log w4) = ss_log (ow_log w2)"
    using accept_keeps_log[OF acc[unfolded accept_result_def wd(2)]] s1(2) by simp
  from l assms(2) have "on_audit (log_append (local_recorder P audit) e) (ow_log w4) = (Inr (), ow_log w')" by (auto simp: azoom_eq)
  from append_logs[OF this] s4 h(2) have lg: "logs e (ow_log w4) (ow_log w')" by simp
  from e assms(4) have f: "ev_action e = lit ''RESULT_ACCEPTED''" "ev_actor e = \<lparr>ca_component = lit ''monitor'', ca_instance_id = rv_id (sv_verifier sv)\<rparr>"
    "ev_decision e = lit ''ALLOWED''" "ev_handoff_sha256 e = sha256_hex P b" "ev_trace_id e = ?t" "ev_result_sha256 e = Some (ac_result_sha256 a)"
    unfolding accepted_event_def by (elim recorded_event_facts; simp)+
  from acc[unfolded accept_result_def verifier_accept_eq_Inr] obtain h' r dg hb rb where
    c: "verifier_checks P (sv_verifier sv) (PBytes (ds_result_wire d)) (PBytes (ds_handoff_wire d)) subject j (sv_policy sv) t2
          (evidence (ds_approval_record_hash d)) = Inr (h', r, dg, hb, rb)" "ac_handoff_sha256 a = dg" by auto
  from c(1) have "dg = sha256_hex P b" using p(2,3) by (elim checked_handoff) simp
  with c(2) have "ac_handoff_sha256 a = sha256_hex P b" by simp
  with h f lg s4 rep show ?thesis
    by (intro exI[of _ "[e1, e2, e]"] exI[of _ a]) (auto simp: logs_def)
qed

section \<open>Recording succeeds\<close>

text \<open>A handoff whose identifiers can be recorded, with its wire \<open>b\<close>.\<close>

definition recordable :: "platform \<Rightarrow> handoff \<Rightarrow> bytes \<Rightarrow> bool" where
  "recordable P h b \<longleftrightarrow>
     payload_facts P h \<and> handoff_to_bytes h = Inr b
   \<and> (\<forall>s \<in> {h_job_id h, h_user_id h, h_policy_version h}. s \<noteq> [] \<and> \<not> list_ex is_surrogate s)"

abbreviation job_trace :: "platform \<Rightarrow> bytes \<Rightarrow> pystr" where
  "job_trace P b \<equiv> lit ''trace-'' @ take 16 (sha256_hex P b)"

lemma trace_ok:
  assumes "hash_ok P"
  shows "identifier_ok (job_trace P b)"
proof -
  let ?t = "take 16 (sha256_hex P b)"
  have d: "list_all is_lower_hex ?t" "length ?t \<le> 16"
    using sha256_hex_digest[OF assms, of b] by (auto simp: is_digest_def hex_string_def list_all_iff dest: in_set_takeD)
  then have p: "list_all (\<lambda>c. 32 \<le> c \<and> c \<le> 126 \<and> c \<noteq> 34 \<and> c \<noteq> 92) (lit ''trace-'' @ ?t)"
    by (auto simp: list_all_iff is_lower_hex_def is_digit_def lit_def)
  have "\<not> list_ex is_space (lit ''trace-'' @ ?t)"
    using d by (auto simp: list_all_iff list_ex_iff is_lower_hex_def is_digit_def is_space_def lit_def)
  with json_string_plain[OF p] d show ?thesis by (simp add: identifier_ok_def MAX_IDENTIFIER_BYTES_def)
qed

lemma trace_id_ok:
  assumes "recordable P h b"
  shows "trace_id P h = Inr (job_trace P b)"
  using assms handoff_digest_valid[of P h b] by (simp add: trace_id_def recordable_def)

lemma recorded_event_ok:
  assumes "recordable P h b" "hash_ok P" "c \<in> set ROLES" "is_instance_id i" "action \<in> set ACTIONS" "decision \<in> set DECISIONS"
    and "is_reason_code (lit reason)" "0 < now" "now \<le> MAX_OCCURRED_AT" "\<forall>x. rh = Some x \<longrightarrow> is_digest x \<and> h_approval_state h = PENDING"
    and "subject \<noteq> []" "\<not> list_ex is_surrogate subject"
    and "if action = ''RESULT_ACCEPTED'' then \<exists>r. res = Some r \<and> is_digest r else res = None"
  shows "\<exists>e. recorded_event P R h (job_trace P b) c i action decision reason now rh subject res = Inr e \<and> valid_event e \<and> valid_actor (ev_actor e)"
proof -
  let ?a = "\<lparr>ca_component = lit c, ca_instance_id = i\<rparr>"
  have a: "component_actor_init (lit c) i = Inr ?a" using assms(3,4) by (auto simp: component_actor_init_def)
  have l: "lit action = lit ''RESULT_ACCEPTED'' \<longleftrightarrow> action = ''RESULT_ACCEPTED''" using assms(5) by (auto simp: ACTIONS_def lit_def)
  have "\<exists>e. event_from_handoff P h (job_trace P b) ?a (lit action) (lit decision) (lit reason) now rh (Some subject) res = Inr e"
    by (rule event_from_handoff_total[OF _ _ assms(2) trace_ok[OF assms(2)]]) (use assms l in \<open>auto simp: recordable_def\<close>)
  then obtain e where e: "event_from_handoff P h (job_trace P b) ?a (lit action) (lit decision) (lit reason) now rh (Some subject) res = Inr e" ..
  then have "valid_event e" "ev_actor e = ?a" by (auto elim: event_from_handoff_eq_Inr)
  with e a show ?thesis by (simp add: recorded_event_def audit_actor_def valid_actor_def)
qed

text \<open>A log in order, with room for \<open>n\<close> more events.\<close>

definition has_room :: "platform \<Rightarrow> nat \<Rightarrow> (chain_record list, anchor) audit_log \<Rightarrow> bool" where
  "has_room P n l \<longleftrightarrow> local_ok l \<and> log_linked P l \<and> int (length (lg_chain l) + n) \<le> MAX_COUNT"

lemma append_succeeds:
  assumes "audit_authority_init P key = Inr audit" "hash_ok P" "ed25519_ok P" "has_room P (Suc n) l" "valid_event e" "valid_actor (ev_actor e)"
  shows "\<exists>l'. log_append (local_recorder P audit) e l = (Inr (), l') \<and> has_room P n l'"
proof -
  from local_append_ok[OF assms(1-3) _ _ _ assms(5,6), of l] assms(4) obtain r a where
    l: "log_append (local_recorder P audit) e l = (Inr (), \<lparr>lg_chain = lg_chain l @ [r], lg_anchor = a, lg_needs_reanchor = False\<rparr>)"
    by (auto simp: has_room_def)
  have "local_ok \<lparr>lg_chain = lg_chain l @ [r], lg_anchor = a, lg_needs_reanchor = False\<rparr>"
    using keepsD[OF local_audit.append_keeps l] assms(4) by (simp add: has_room_def)
  moreover have "log_linked P \<lparr>lg_chain = lg_chain l @ [r], lg_anchor = a, lg_needs_reanchor = False\<rparr>"
    using keepsD[OF log_linked_append[OF assms(2)] l] assms(4) by (simp add: has_room_def)
  ultimately show ?thesis using l assms(4) by (auto simp: has_room_def)
qed

lemma event_succeeds:
  assumes "audit_authority_init P key = Inr audit" "hash_ok P" "ed25519_ok P" "has_room P (Suc n) (ss_log s)"
    and "recordable P h b" "c \<in> set ROLES" "is_instance_id i" "action \<in> set ACTIONS" "action \<noteq> ''RESULT_ACCEPTED''" "decision \<in> set DECISIONS"
    and "is_reason_code (lit reason)" "0 < now" "now \<le> MAX_OCCURRED_AT" "subject \<noteq> []" "\<not> list_ex is_surrogate subject"
    and "\<forall>x. rh = Some x \<longrightarrow> is_digest x \<and> h_approval_state h = PENDING"
  shows "\<exists>l. append_event P (local_recorder P audit) h subject (job_trace P b) c i action decision reason now rh None s = (Inr (), s\<lparr>ss_log := l\<rparr>)
     \<and> has_room P n l"
proof -
  obtain e where e: "recorded_event P (local_recorder P audit) h (job_trace P b) c i action decision reason now rh subject None = Inr e"
    "valid_event e" "valid_actor (ev_actor e)"
    using recorded_event_ok[OF assms(5,2,6-8,10-13,16,14,15), of None "local_recorder P audit"] assms(9) by auto
  from append_succeeds[OF assms(1-4) e(2,3)] e(1) show ?thesis by (auto simp: append_event_def abind_def alift_def azoom_def)
qed

section \<open>A job runs through\<close>

lemma hooks_succeed_with:
  fixes s :: "(chain_record list, anchor, 'c, 'q) service_state"
  assumes "audit_authority_init P key = Inr audit" "hash_ok P" "ed25519_ok P" "has_room P (Suc (Suc n)) (ss_log s)"
    and "recordable P h b" "is_instance_id (gw_id gw)" "is_instance_id i" "0 < now" "now \<le> MAX_OCCURRED_AT" "subject \<noteq> []" "\<not> list_ex is_surrogate subject"
    and "p = minted_permit gw now h (sha256_hex P b) rh ref" "\<forall>x. rh = Some x \<longrightarrow> is_digest x \<and> h_approval_state h = PENDING"
  shows "\<exists>l1 l2. admission_recorder P gw (local_recorder P audit) p subject s = (Inr (), s\<lparr>ss_log := l1\<rparr>)
     \<and> dispatch_recorder P (local_recorder P audit) i p subject
         \<lparr>d_action = ''EXECUTION_DISPATCHED'', d_decision = ''ALLOWED'', d_reason_code = ''POLICY_SATISFIED'', d_occurred_at = now\<rparr> (s\<lparr>ss_log := l1\<rparr>)
         = (Inr (), s\<lparr>ss_log := l2\<rparr>) \<and> has_room P n l2"
proof -
  have dg: "handoff_digest P h = Inr (sha256_hex P b)" using assms(5) by (auto simp: recordable_def intro: handoff_digest_valid)
  then have hp: "handoff_from_permit P (Some p) = Inr h" by (simp add: assms(12) minted_permit_def handoff_from_permit_def)
  note t = trace_id_ok[OF assms(5)]
  have rc: "is_reason_code (lit ''POLICY_SATISFIED'')" by (simp add: is_reason_code_def lit_def is_upper_def is_digit_def)
  obtain l1 where l1: "append_event P (local_recorder P audit) h subject (job_trace P b) ''gateway'' (gw_id gw) ''HANDOFF_ADMITTED'' ''ALLOWED''
      ''POLICY_SATISFIED'' now rh None s = (Inr (), s\<lparr>ss_log := l1\<rparr>)" "has_room P (Suc n) l1"
    using event_succeeds[OF assms(1-5) _ assms(6) _ _ _ rc assms(8-11,13), of "''gateway''" "''HANDOFF_ADMITTED''" "''ALLOWED''"]
    by (auto simp: ROLES_def ACTIONS_def DECISIONS_def)
  have r1: "has_room P (Suc n) (ss_log (s\<lparr>ss_log := l1\<rparr>))" using l1(2) by simp
  obtain l2 where l2: "append_event P (local_recorder P audit) h subject (job_trace P b) ''orchestrator'' i ''EXECUTION_DISPATCHED'' ''ALLOWED''
      ''POLICY_SATISFIED'' now None None (s\<lparr>ss_log := l1\<rparr>) = (Inr (), (s\<lparr>ss_log := l1\<rparr>)\<lparr>ss_log := l2\<rparr>)" "has_room P n l2"
    using event_succeeds[OF assms(1-3) r1 assms(5) _ assms(7) _ _ _ rc assms(8-11), of "''orchestrator''" "''EXECUTION_DISPATCHED''" "''ALLOWED''" None]
    by (auto simp: ROLES_def ACTIONS_def DECISIONS_def)
  have "admission_recorder P gw (local_recorder P audit) p subject s = (Inr (), s\<lparr>ss_log := l1\<rparr>)"
    using l1(1) t hp by (simp add: admission_recorder_def abind_def alift_def assms(12) minted_permit_def ADMISSION_REASON_CODE_def)
  moreover have "dispatch_recorder P (local_recorder P audit) i p subject
         \<lparr>d_action = ''EXECUTION_DISPATCHED'', d_decision = ''ALLOWED'', d_reason_code = ''POLICY_SATISFIED'', d_occurred_at = now\<rparr> (s\<lparr>ss_log := l1\<rparr>)
         = (Inr (), s\<lparr>ss_log := l2\<rparr>)"
    using l2(1) t hp by (simp add: dispatch_recorder_def abind_def alift_def)
  ultimately show ?thesis using l2(2) by blast
qed

lemma accept_in_world:
  fixes w :: local_world
  assumes "verifier_accept P (local_accept P) v rw hw subject j policy now rh False (ss_acceptances (ow_log w)) = (r, c)"
  shows "verifier_accept P (local_acceptance P) v rw hw subject j policy now rh False w = (r, w\<lparr>ow_log := (ow_log w)\<lparr>ss_acceptances := c\<rparr>\<rparr>)"
  using assms
  by (auto simp: verifier_accept_def local_acceptance_def abind_def alift_def azoom_def areturn_def araise_def split: sum.splits prod.splits if_splits)

lemma wired_orch: "wired P key sv \<Longrightarrow> orch_wired P key (sv_orchestrator sv)"
  by (auto simp: wired_def orch_wired_def plain_hooks_def local_hooks_def)

lemma accepted_recorded:
  assumes "audit_authority_init P key = Inr audit" "sv_recorder sv = local_recorder P audit" "hash_ok P" "ed25519_ok P" "has_room P (Suc n) l"
    and "recordable P h b" "is_instance_id (rv_id (sv_verifier sv))" "subject \<noteq> []" "\<not> list_ex is_surrogate subject"
    and "verifier_accept P ledger v rw hw subject' j policy now (evidence rh) tx c = (Inr a, c')"
    and "0 < now" "now \<le> MAX_OCCURRED_AT" "\<forall>x. rh = Some x \<longrightarrow> is_digest x \<and> h_approval_state h = PENDING"
  shows "\<exists>e l'. accepted_event P sv h (job_trace P b) subject a = Inr e \<and> log_append (sv_recorder sv) e l = (Inr (), l') \<and> has_room P n l'"
proof -
  from assms(10)[unfolded verifier_accept_eq_Inr] obtain rb where a: "ac_result_sha256 a = sha256_hex P rb" "ac_occurred_at a = now"
    "ac_approval_record_hash a = evidence rh" by auto
  have rc: "is_reason_code (lit ''RESULT_VERIFIED'')" by (simp add: is_reason_code_def lit_def is_upper_def is_digit_def)
  have "(case evidence rh of PStr s \<Rightarrow> Some s | _ \<Rightarrow> None) = rh" by (cases rh) (auto simp: evidence_def)
  with recorded_event_ok[OF assms(6,3) _ assms(7) _ _ rc assms(11-13,8,9), of "''monitor''" "''RESULT_ACCEPTED''" "''ALLOWED''"
      "Some (sha256_hex P rb)" "sv_recorder sv"] a sha256_hex_digest[OF assms(3), of rb]
  obtain e where e: "accepted_event P sv h (job_trace P b) subject a = Inr e" "valid_event e" "valid_actor (ev_actor e)"
    by (auto simp: accepted_event_def ROLES_def ACTIONS_def DECISIONS_def)
  from append_succeeds[OF assms(1,3,4,5) e(2,3)] e(1) assms(2) show ?thesis by auto
qed

text \<open>The clock is read at dispatch and at verification.\<close>

lemma run_succeeds:
  fixes w :: local_world
  assumes "wired P key sv" "sv_recorder sv = local_recorder P audit" "acceptor_matches P (sv_verifier sv) (sv_orchestrator sv)" "hash_ok P" "ed25519_ok P"
    and pol: "valid_policy (sv_policy sv)" "grant_for (sv_policy sv) subject = Inr g" "valid_grant g" "is_ascii j" "is_ascii (g_worker_agent_id g)"
    and clk: "sv_clock sv (ss_ticks (ow_log w)) = t1" "sv_clock sv (Suc (ss_ticks (ow_log w))) = t2" "t1 \<le> t2" "t2 < h_expires_at h"
      "h_expires_at h \<le> ORCH_MAX_OCCURRED_AT"
    and val: "(if g_requires_approval g then validate_pending P (PBytes b) subject j (sv_policy sv) (Verifier (gw_verifier (or_gateway (sv_orchestrator sv)))) t1
       else validate P (PBytes b) subject j (sv_policy sv) (Verifier (gw_verifier (or_gateway (sv_orchestrator sv)))) t1) = Inr h"
    and rec: "recordable P h b" and ep: "route (sv_orchestrator sv) subject (sv_policy sv) t1 = Inr ep" "check_job_id j = Inr j"
    and adm: "admit P (or_consume (sv_orchestrator sv) False) (or_gateway (sv_orchestrator sv)) (PBytes b) subject j (sv_policy sv) t1 token (ow_gateway w)
       = (Inr (minted_permit (or_gateway (sv_orchestrator sv)) t1 h (sha256_hex P b) rh (length us)), g')"
      "gw_uses g' = us @ [\<lparr>pu_binding = bd, pu_used = False\<rparr>]" "\<forall>x. rh = Some x \<longrightarrow> is_digest x \<and> h_approval_state h = PENDING"
    and ex: "execute_admitted P (we_runner ep) t1 h t1 = Inr x" "x \<noteq> []"
    and free: "\<not> local_is_burned j (ow_ledger w)" "length (ow_ledger w) < MAX_JOBS" "has_room P (Suc (Suc (Suc n))) (ss_log (ow_log w))"
      "sha256_hex P b \<notin> set (ss_acceptances (ow_log w))" "length (ss_acceptances (ow_log w)) < MAX_ACCEPTED"
  shows "\<exists>reply w'. svc_run P sv subject j b h (job_trace P b) token defer w = (Inr reply, w') \<and> has_room P n (ss_log (ow_log w'))"
proof -
  let ?oc = "sv_orchestrator sv"
  let ?p = "minted_permit (or_gateway ?oc) t1 h (sha256_hex P b) rh (length us)"
  let ?w1 = "w\<lparr>ow_log := (ow_log w)\<lparr>ss_ticks := Suc (ss_ticks (ow_log w))\<rparr>\<rparr>"
  note wd = wiredD[OF assms(1)]
  obtain ak where ak: "audit_authority_init P ak = Inr audit" using assms(1,2) by (auto simp: wired_def local_recorder_def)
  have ids: "is_instance_id (gw_id (or_gateway ?oc))" "is_instance_id (or_id ?oc)" "is_instance_id (rv_id (sv_verifier sv))" "or_ledger ?oc = local_ledger"
    using assms(1) by (auto simp: wired_def)
  have hb: "handoff_to_bytes h = Inr b" "payload_facts P h" using rec by (auto simp: recordable_def)
  have subj: "subject \<noteq> []" "\<not> list_ex is_surrogate subject" using pol(2) by (auto simp: grant_for_def result_simps utf8_encode_def split: if_splits)
  have n: "1 \<le> t1" "t1 \<le> ORCH_MAX_OCCURRED_AT" using ep(1) by (auto simp: route_eq_Inr)
  then have n': "0 < t1" "t1 \<le> MAX_OCCURRED_AT" "0 < t2" "t2 \<le> MAX_OCCURRED_AT" "t2 \<le> ORCH_MAX_OCCURRED_AT" "t1 < h_expires_at h"
    using clk by (auto simp: ORCH_MAX_OCCURRED_AT_def MAX_OCCURRED_AT_def)
  let ?d = "\<lparr>d_action = ''EXECUTION_DISPATCHED'', d_decision = ''ALLOWED'', d_reason_code = ''POLICY_SATISFIED'', d_occurred_at = t1\<rparr>"
  have r3: "has_room P (Suc (Suc (Suc n))) (ss_log (ow_log ?w1))" using free(3) by simp
  obtain l1 l2 where l: "admission_recorder P (or_gateway ?oc) (local_recorder P audit) ?p subject (ow_log ?w1) = (Inr (), (ow_log ?w1)\<lparr>ss_log := l1\<rparr>)"
    "dispatch_recorder P (local_recorder P audit) (or_id ?oc) ?p subject ?d ((ow_log ?w1)\<lparr>ss_log := l1\<rparr>) = (Inr (), (ow_log ?w1)\<lparr>ss_log := l2\<rparr>)" "has_room P (Suc n) l2"
    using hooks_succeed_with[OF ak assms(4,5) r3 rec ids(1,2) n'(1,2) subj refl adm(3)] by blast
  have hk: "hook_writes (oh_on_admitted (or_hooks ?oc)) (\<lambda>c. c ?p subject) (ow_log ?w1) ((ow_log ?w1)\<lparr>ss_log := l1\<rparr>)"
    "hook_writes (oh_on_dispatched (or_hooks ?oc)) (\<lambda>c. c ?p subject ?d) ((ow_log ?w1)\<lparr>ss_log := l1\<rparr>) ((ow_log ?w1)\<lparr>ss_log := l2\<rparr>)"
    using l unfolding wd(1) local_hooks_def by (simp_all add: hook_writes_def assms(2))
  obtain u where u: "execute P (we_runner ep) (Some ?p) t1 (gw_uses g') = (Inr x, u)"
    using minted_runs[OF refl handoff_digest_valid[OF hb(2,1)] ex(1)] adm(2) by metis
  have dh: "dp_handoff ?p = h" by (simp add: minted_permit_def)
  have plain: "plain_hooks ?oc" using wired_orch[OF assms(1)] by (simp add: orch_wired_def)
  obtain d w2 where d: "dispatch P ?oc (PBytes b) subject j (sv_policy sv) t1 token ?w1 = (Inr d, w2)" "ow_log w2 = (ow_log ?w1)\<lparr>ss_log := l2\<rparr>"
    "ds_approval_record_hash d = rh"
    using dispatch_runs_with[OF plain hk(1) ids(4) assms(4) ep(2) subj(1) ep(1) _ _ _ _ _ _ _ u ex(2) hk(2), of b token] adm(1) hb n'(6) clk(5) free(1,2) dh
    by (auto simp: minted_permit_def)
  let ?w3 = "w2\<lparr>ow_log := (ow_log w2)\<lparr>ss_ticks := Suc (ss_ticks (ow_log w2))\<rparr>\<rparr>"
  have acc0: "ss_acceptances (ow_log ?w3) = ss_acceptances (ow_log w)" "ss_log (ow_log ?w3) = l2" "ss_ticks (ow_log w2) = Suc (ss_ticks (ow_log w))"
    using d(2) by simp_all
  obtain a where a: "verifier_accept P (local_accept P) (sv_verifier sv) (PBytes (ds_result_wire d)) (PBytes (ds_handoff_wire d)) subject j (sv_policy sv) t2
       (evidence (ds_approval_record_hash d)) False (ss_acceptances (ow_log ?w3)) = (Inr a, sha256_hex P b # ss_acceptances (ow_log ?w3))"
    using dispatched_accepted[OF wired_orch[OF assms(1)] assms(3-5) pol d(1) val clk(3,4) n'(5), of "ss_acceptances (ow_log w)"] free(4,5) acc0(1) by auto
  note a' = accept_in_world[OF a]
  obtain e l' where e: "accepted_event P sv h (job_trace P b) subject a = Inr e" "log_append (sv_recorder sv) e l2 = (Inr (), l')" "has_room P n l'"
    using accepted_recorded[OF ak assms(2,4,5) l(3) rec ids(3) subj a[unfolded d(3)] n'(3,4) adm(3)] by blast
  have c1: "acatch (dispatch P ?oc (PBytes b) subject j (sv_policy sv) t1 token) (dispatch_refused P sv h (job_trace P b) subject t1 defer) ?w1 = (Inr d, w2)"
    using d(1) by (simp add: acatch_def)
  have c2: "acatch (accept_result P sv d subject j t2 False) k ?w3 = (Inr a, ?w3\<lparr>ow_log := (ow_log ?w3)\<lparr>ss_acceptances := sha256_hex P b # ss_acceptances (ow_log ?w3)\<rparr>\<rparr>)" for k
    using a' by (simp add: acatch_def accept_result_def wd(2))
  have nw: "svc_now sv w = (Inr t1, ?w1)" "svc_now sv w2 = (Inr t2, ?w3)" using clk(1,2) acc0(3) by (simp_all add: svc_now_def)
  have "\<exists>reply w'. svc_run P sv subject j b h (job_trace P b) token defer w = (Inr reply, w') \<and> ss_log (ow_log w') = l'"
    unfolding svc_run_def wd(4) if_False using nw c1 c2 e(1,2) acc0(2)
    by (simp add: abind_def alift_def azoom_def areturn_def)
  with e(3) show ?thesis by blast
qed

text \<open>A fitting job is issued, and the audit role's own reading of the wire gives the same handoff.\<close>

lemma issue_succeeds:
  assumes "wired P key sv" "hash_ok P" "ed25519_ok P" "request_fits (sv_policy sv) subject g (PDict req) s j t0"
    and "route (sv_orchestrator sv) subject (sv_policy sv) t0 = Inr ep" "check_job_id j = Inr j"
    and "\<not> list_ex is_surrogate j" "\<not> list_ex is_surrogate (g_user_id g)" "\<not> list_ex is_surrogate (p_version (sv_policy sv))"
    and "sv_clock sv (ss_ticks (ow_log w)) = t0"
  obtains b h where "issue P (PDict req) subject j (sv_policy sv) (or_signer (sv_orchestrator sv)) t0 = Inr b"
    "issue_job P sv subject j req w = (Inr (b, h, job_trace P b,
        \<lparr>d_action = ''HANDOFF_ISSUED'', d_decision = ''ALLOWED'', d_reason_code = ''POLICY_SATISFIED'', d_occurred_at = t0\<rparr>),
        w\<lparr>ow_log := (ow_log w)\<lparr>ss_ticks := Suc (ss_ticks (ow_log w))\<rparr>\<rparr>)"
    "recordable P h b" "(if g_requires_approval g then validate_pending P (PBytes b) subject j (sv_policy sv) (Verifier (gw_verifier (or_gateway (sv_orchestrator sv)))) t0
       else validate P (PBytes b) subject j (sv_policy sv) (Verifier (gw_verifier (or_gateway (sv_orchestrator sv)))) t0) = Inr h"
    "h_issued_at h = t0" "h_payload h = PDict [(lit ''text'', PStr s)]" "handoff_facts (sv_policy sv) g j t0 h"
proof -
  let ?oc = "sv_orchestrator sv" and ?pol = "sv_policy sv"
  note jf = assms(4)[unfolded request_fits_def]
  have oc: "handoff_signer_init P key = Inr (or_signer ?oc)" "gw_verifier (or_gateway ?oc) = hs_verifier (or_signer ?oc)"
    "sv_handoff_verifier sv = hs_verifier (or_signer ?oc)" using assms(1) by (auto simp: wired_def)
  have n: "1 \<le> t0" "t0 \<le> ORCH_MAX_OCCURRED_AT" "p_orchestrator_id ?pol = or_id ?oc" using assms(5) by (auto simp: route_eq_Inr)
  have j: "j \<noteq> []" using assms(6) by (auto simp: check_job_id_eq_Inr)
  obtain b where b: "issue P (PDict req) subject j ?pol (or_signer ?oc) t0 = Inr b"
    using issue_returns[of "PDict req" s ?pol subject g j P t0 "or_signer ?oc"] jf j assms(2,3) n by (auto simp: ORCH_MAX_OCCURRED_AT_def)
  obtain dd h where h: "wire_object P (PBytes b) = Inr dd"
    "from_object P dd subject j ?pol (Verifier (hs_verifier (or_signer ?oc))) t0 (g_requires_approval g) = Inr h"
    "h_issued_at h = t0" "payload (PDict req) = Inr (h_payload h)"
    using issue_accepted[OF b, of key g t0 "Verifier (hs_verifier (or_signer ?oc))" "g_requires_approval g"] oc jf assms(2,3) by auto
  from from_object_sound[OF h(1,2)] jf have hf: "handoff_facts ?pol g j t0 h" "payload_facts P h" by auto
  have val: "(if g_requires_approval g then validate_pending P (PBytes b) subject j ?pol (Verifier (hs_verifier (or_signer ?oc))) t0
      else validate P (PBytes b) subject j ?pol (Verifier (hs_verifier (or_signer ?oc))) t0) = Inr h"
    using h(1,2) hf(1) by (auto simp: validate_def validate_pending_def handoff_facts_def approval_state_of_def)
  then have hb: "handoff_to_bytes h = Inr b"
    using validate_pending_sound validate_sound_lemma by (cases "g_requires_approval g") (fastforce, fastforce)
  have rec: "recordable P h b"
    using hf hb j assms(7-9) jf valid_grantD(3)[of g] valid_policyD(3)[of ?pol] by (auto simp: recordable_def handoff_facts_def)
  let ?d = "\<lparr>d_action = ''HANDOFF_ISSUED'', d_decision = ''ALLOWED'', d_reason_code = ''POLICY_SATISFIED'', d_occurred_at = t0\<rparr>"
  have "decision_init ''HANDOFF_ISSUED'' ''ALLOWED'' ''POLICY_SATISFIED'' t0 = Inr ?d"
    using n by (simp add: decision_init_eq_Inr ORCH_ACTIONS_def)
  then have "orch_admit P ?oc (PDict req) subject j ?pol t0 = Inr \<lparr>am_wire = b, am_decision = ?d\<rparr>"
    using n b assms(6) by (simp add: orch_admit_def check_now_def trusted_def)
  then have "issue_job P sv subject j req w = (Inr (b, h, job_trace P b, ?d), w\<lparr>ow_log := (ow_log w)\<lparr>ss_ticks := Suc (ss_ticks (ow_log w))\<rparr>\<rparr>)"
    using assms(5,10) val jf oc trace_id_ok[OF rec] by (simp add: issue_job_def abind_def alift_def areturn_def svc_now_def revalidate_def split: if_splits)
  note issued = this
  have "h_payload h = PDict [(lit ''text'', PStr s)]" using h(4) jf by simp
  from that[OF b issued rec val[folded oc(2)] h(3) this hf(1)] show thesis .
qed

lemma direct_minted:
  assumes "wired P key sv" "hash_ok P" "grant_for (sv_policy sv) subject = Inr g" "\<not> g_requires_approval g"
    and "validate P (PBytes b) subject j (sv_policy sv) (Verifier (gw_verifier (or_gateway (sv_orchestrator sv)))) now = Inr h"
  shows "\<exists>g'. admit P (or_consume (sv_orchestrator sv) False) (or_gateway (sv_orchestrator sv)) (PBytes b) subject j (sv_policy sv) now None w
       = (Inr (minted_permit (or_gateway (sv_orchestrator sv)) now h (sha256_hex P b) None (length (gw_uses w))), g')
     \<and> gw_uses g' = gw_uses w @ [\<lparr>pu_binding = (sha256_hex P b, gw_id (or_gateway (sv_orchestrator sv)), now, None), pu_used = False\<rparr>]"
proof -
  let ?oc = "sv_orchestrator sv"
  have id: "is_instance_id (gw_id (or_gateway ?oc))" and cons: "or_consume ?oc False = (\<lambda>t sc now. approval_consume P t sc now False)"
    using assms(1) by (auto simp: wired_def)
  obtain p g' where adm: "admit P (or_consume ?oc False) (or_gateway ?oc) (PBytes b) subject j (sv_policy sv) now None w = (Inr p, g')" "dp_handoff p = h"
    using admit_direct[OF assms(2) id assms(3-5), of "or_consume ?oc False" w] by auto
  with local_approvals.admit_sound[of P "or_gateway ?oc" False "PBytes b" subject j "sv_policy sv" now None w p g'] cons id assms(2-4)
  show ?thesis by auto
qed

lemma issued_recorded:
  assumes "wired P key sv" "sv_recorder sv = local_recorder P audit" "hash_ok P" "ed25519_ok P" "recordable P h b"
    and "grant_for (sv_policy sv) subject = Inr g" "1 \<le> now" "now \<le> MAX_OCCURRED_AT" "has_room P (Suc n) l"
  shows "\<exists>e l'. issued_event P sv h (job_trace P b) subject
      \<lparr>d_action = ''HANDOFF_ISSUED'', d_decision = ''ALLOWED'', d_reason_code = ''POLICY_SATISFIED'', d_occurred_at = now\<rparr> = Inr e
     \<and> log_append (sv_recorder sv) e l = (Inr (), l') \<and> has_room P n l'"
proof -
  obtain ak where ak: "audit_authority_init P ak = Inr audit" using assms(1,2) by (auto simp: wired_def local_recorder_def)
  have subj: "subject \<noteq> []" "\<not> list_ex is_surrogate subject"
    using assms(6) by (auto simp: grant_for_def result_simps utf8_encode_def split: if_splits)
  have rc: "is_reason_code (lit (if h_approval_state h = PENDING then ''PENDING_APPROVAL'' else ''POLICY_SATISFIED''))" by (simp add: is_reason_code_def lit_def is_upper_def is_digit_def)
  have id: "is_instance_id (or_id (sv_orchestrator sv))" "0 < now" using assms(1,7) by (auto simp: wired_def)
  obtain e where e: "issued_event P sv h (job_trace P b) subject
      \<lparr>d_action = ''HANDOFF_ISSUED'', d_decision = ''ALLOWED'', d_reason_code = ''POLICY_SATISFIED'', d_occurred_at = now\<rparr> = Inr e" "valid_event e" "valid_actor (ev_actor e)"
    using recorded_event_ok[OF assms(5,3) _ id(1) _ _ rc id(2) assms(8) _ subj, of "''orchestrator''" "''HANDOFF_ISSUED''" "''ALLOWED''" None None "sv_recorder sv"]
    unfolding issued_event_def decision.select_convs by (auto simp: ROLES_def ACTIONS_def DECISIONS_def)
  with append_succeeds[OF ak assms(3,4,9) e(2,3)] assms(2) show ?thesis by auto
qed

lemma submit_completes:
  fixes w :: local_world
  assumes "wired P key sv" "sv_recorder sv = local_recorder P audit" "acceptor_matches P (sv_verifier sv) (sv_orchestrator sv)" "hash_ok P" "ed25519_ok P"
    and clk: "sv_clock sv (ss_ticks (ow_log w)) = t0" "sv_clock sv (Suc (ss_ticks (ow_log w))) = t1" "sv_clock sv (Suc (Suc (ss_ticks (ow_log w)))) = t2"
      "t0 \<le> t1" "t1 \<le> t2" "t2 < t0 + p_handoff_ttl_seconds (sv_policy sv)"
    and job: "job_fits (sv_policy sv) subject g (PDict req) s j t0" "route (sv_orchestrator sv) subject (sv_policy sv) t0 = Inr ep" "check_job_id j = Inr j"
      "is_ascii j" "is_ascii (g_worker_agent_id g)" "\<not> list_ex is_surrogate (g_user_id g)" "\<not> list_ex is_surrogate (p_version (sv_policy sv))"
    and work: "work_fits (we_runner ep) (sv_policy sv) g s j"
      "wr_elapsed_ns (wk_work (we_runner ep) (PDict [(lit ''text'', PStr s)])) < (t0 + p_handoff_ttl_seconds (sv_policy sv) - t1) * 10 ^ 9"
    and free: "\<not> local_is_burned j (ow_ledger w)" "length (ow_ledger w) < MAX_JOBS" "has_room P (Suc (Suc (Suc (Suc n)))) (ss_log (ow_log w))"
      "\<And>b. issue P (PDict req) subject j (sv_policy sv) (or_signer (sv_orchestrator sv)) t0 = Inr b \<Longrightarrow> sha256_hex P b \<notin> set (ss_acceptances (ow_log w))"
      "length (ss_acceptances (ow_log w)) < MAX_ACCEPTED"
  shows "\<exists>reply w'. svc_submit P sv subject j req w = (Inr reply, w') \<and> has_room P n (ss_log (ow_log w'))"
proof -
  let ?oc = "sv_orchestrator sv" and ?pol = "sv_policy sv"
  note jf = job(1)[unfolded job_fits_def request_fits_def]
  have j: "\<not> list_ex is_surrogate j" "j \<noteq> []"
    using job(3,4) by (auto simp: is_ascii_def list_all_iff list_ex_iff is_surrogate_def check_job_id_eq_Inr)
  obtain b h where b: "issue P (PDict req) subject j ?pol (or_signer ?oc) t0 = Inr b"
    "issue_job P sv subject j req w = (Inr (b, h, job_trace P b,
        \<lparr>d_action = ''HANDOFF_ISSUED'', d_decision = ''ALLOWED'', d_reason_code = ''POLICY_SATISFIED'', d_occurred_at = t0\<rparr>),
        w\<lparr>ow_log := (ow_log w)\<lparr>ss_ticks := Suc (ss_ticks (ow_log w))\<rparr>\<rparr>)"
    "recordable P h b" "validate P (PBytes b) subject j ?pol (Verifier (gw_verifier (or_gateway ?oc))) t0 = Inr h"
    "h_issued_at h = t0" "h_payload h = PDict [(lit ''text'', PStr s)]" "handoff_facts ?pol g j t0 h"
    by (rule issue_succeeds[OF assms(1,4,5) _ job(2,3) j(1) job(6,7) clk(1)]) (use job(1) in \<open>auto simp: job_fits_def\<close>)
  have x: "h_expires_at h = t0 + p_handoff_ttl_seconds ?pol" "h_approval_state h \<noteq> PENDING"
    using b(5,7) jf by (auto simp: handoff_facts_def approval_state_of_def PENDING_def NOT_REQUIRED_def lit_def)
  let ?w1 = "w\<lparr>ow_log := (ow_log w)\<lparr>ss_ticks := Suc (ss_ticks (ow_log w))\<rparr>\<rparr>"
  have n: "1 \<le> t0" "1 \<le> t1" "t1 \<le> ORCH_MAX_OCCURRED_AT" "t0 \<le> MAX_OCCURRED_AT" "t1 \<le> MAX_PRODUCED_AT" "h_expires_at h \<le> ORCH_MAX_OCCURRED_AT"
    using jf clk(4-6) x(1) by (auto simp: ORCH_MAX_OCCURRED_AT_def MAX_OCCURRED_AT_def MAX_PRODUCED_AT_def)
  obtain e l where e: "issued_event P sv h (job_trace P b) subject
      \<lparr>d_action = ''HANDOFF_ISSUED'', d_decision = ''ALLOWED'', d_reason_code = ''POLICY_SATISFIED'', d_occurred_at = t0\<rparr> = Inr e"
    and l: "log_append (sv_recorder sv) e (ss_log (ow_log w)) = (Inr (), l)" "has_room P (Suc (Suc (Suc n))) l"
    using issued_recorded[OF assms(1,2,4,5) b(3) _ n(1,4) free(3)] jf by blast
  let ?w2 = "?w1\<lparr>ow_log := (ow_log ?w1)\<lparr>ss_log := l\<rparr>\<rparr>"
  have val: "validate P (PBytes b) subject j ?pol (Verifier (gw_verifier (or_gateway ?oc))) t1 = Inr h"
    using revalidated_later[where pending = False, of P "PBytes b" subject j ?pol _ t0 h t1] b(4) clk(4-6) x(1) assms(4) jf j(2) by auto
  have hf: "handoff_facts ?pol g j t1 h" "payload_facts P h" "handoff_to_bytes h = Inr b"
    using validate_sound_lemma[OF val] jf by auto
  obtain g' where m: "admit P (or_consume ?oc False) (or_gateway ?oc) (PBytes b) subject j ?pol t1 None (ow_gateway w)
       = (Inr (minted_permit (or_gateway ?oc) t1 h (sha256_hex P b) None (length (gw_uses (ow_gateway w)))), g')"
    "gw_uses g' = gw_uses (ow_gateway w) @ [\<lparr>pu_binding = (sha256_hex P b, gw_id (or_gateway ?oc), t1, None), pu_used = False\<rparr>]"
    using direct_minted[OF assms(1,4) _ _ val] jf by blast
  have ep: "route ?oc subject ?pol t1 = Inr ep" "wk_tool (we_runner ep) \<in> set (g_tools g)" using job(2) n jf by (auto simp: route_eq_Inr)
  obtain x' where x': "execute_admitted P (we_runner ep) t1 h t1 = Inr x'" "x' \<noteq> []"
    using work_answers[OF work(1) hf(1,2) b(6) _ _ hf(3) assms(4,5) _ _ ep(2) n(2) n(5)] work(2) jf x(1) b(5) clk(4) by (auto simp: policy_text_ok_def)
  have "\<exists>reply w'. svc_run P sv subject j b h (job_trace P b) None False ?w2 = (Inr reply, w') \<and> has_room P n (ss_log (ow_log w'))"
    by (rule run_succeeds[OF assms(1-5) _ _ _ job(4,5) _ _ clk(5) _ n(6) _ b(3) ep(1) job(3) _ _ _ x', where us = "gw_uses (ow_gateway w)" and rh = None])
      (use jf clk val m x free l b(1) in auto)
  then show ?thesis
    unfolding svc_submit_def wiredD(4)[OF assms(1)] if_False Let_def
    using b(2) e l(1) jf by (simp add: abind_def alift_def azoom_def)
qed

text \<open>Where the job came from: what \<open>issue_job\<close> gives back belongs together.\<close>

lemma issued_together:
  assumes "issue_job P sv subject j req w = (Inr (b, h, trace, dd), w1)"
  shows "handoff_to_bytes h = Inr b" "trace = job_trace P b" "ss_log (ow_log w1) = ss_log (ow_log w)"
    "d_action dd = ''HANDOFF_ISSUED''" "d_decision dd = ''ALLOWED''"
proof -
  from assms obtain am t0 where i: "orch_admit P (sv_orchestrator sv) (PDict req) subject j (sv_policy sv) t0 = Inr am" "b = am_wire am" "dd = am_decision am"
    "revalidate P sv b subject j t0 = Inr h" "trace_id P h = Inr trace" "ss_log (ow_log w1) = ss_log (ow_log w)"
    unfolding issue_job_def by (auto simp: abind_eq_Inr alift_eq areturn_eq svc_now_def)
  from i(4) show hb: "handoff_to_bytes h = Inr b"
    using validate_pending_sound validate_sound_lemma by (fastforce simp: revalidate_def rbind_eq_Inr split: if_splits)
  from trace_id_eq_Inr[OF i(5) hb] show "trace = job_trace P b" .
  from i(6) show "ss_log (ow_log w1) = ss_log (ow_log w)" .
  from i(1,3) show "d_action dd = ''HANDOFF_ISSUED''" "d_decision dd = ''ALLOWED''"
    by (auto simp: orch_admit_def rbind_eq_Inr decision_init_eq_Inr)
qed

lemma submit_evidence:
  assumes "wired P key sv" "sv_recorder sv = local_recorder P audit" "local_ok (ss_log (ow_log w))"
    and "grant_for (sv_policy sv) subject = Inr g" "\<not> g_requires_approval g" "svc_submit P sv subject j req w = (Inr reply, w')"
  shows "\<exists>b es a. events_of (ow_log w') = events_of (ow_log w) @ es \<and> local_ok (ss_log (ow_log w')) \<and> \<not> lg_needs_reanchor (ss_log (ow_log w'))
     \<and> map ev_action es = map lit [''HANDOFF_ISSUED'', ''HANDOFF_ADMITTED'', ''EXECUTION_DISPATCHED'', ''RESULT_ACCEPTED'']
     \<and> map ev_actor es = [\<lparr>ca_component = lit ''orchestrator'', ca_instance_id = or_id (sv_orchestrator sv)\<rparr>,
          \<lparr>ca_component = lit ''gateway'', ca_instance_id = gw_id (or_gateway (sv_orchestrator sv))\<rparr>,
          \<lparr>ca_component = lit ''orchestrator'', ca_instance_id = or_id (sv_orchestrator sv)\<rparr>, \<lparr>ca_component = lit ''monitor'', ca_instance_id = rv_id (sv_verifier sv)\<rparr>]
     \<and> (\<forall>e \<in> set es. ev_decision e = lit ''ALLOWED'' \<and> ev_handoff_sha256 e = sha256_hex P b \<and> ev_trace_id e = job_trace P b)
     \<and> reply = job_reply a \<and> ac_handoff_sha256 a = sha256_hex P b \<and> ev_result_sha256 (last es) = Some (ac_result_sha256 a)"
proof -
  from assms(4-6) obtain b h trace dd w1 e w2 where
    i: "issue_job P sv subject j req w = (Inr (b, h, trace, dd), w1)" and e: "issued_event P sv h trace subject dd = Inr e"
    and l: "on_log (on_audit (log_append (sv_recorder sv) e)) w1 = (Inr (), w2)" and r: "svc_run P sv subject j b h trace None False w2 = (Inr reply, w')"
    unfolding svc_submit_def wiredD(4)[OF assms(1)] if_False
    by (auto simp: abind_eq_Inr alift_eq split: prod.splits if_splits)
  note t = issued_together[OF i]
  from l assms(2) have "on_audit (log_append (local_recorder P audit) e) (ow_log w1) = (Inr (), ow_log w2)" by (auto simp: azoom_eq)
  from append_logs[OF this] t(3) assms(3) have lg: "logs e (ow_log w1) (ow_log w2)" by simp
  have f: "ev_action e = lit ''HANDOFF_ISSUED''" "ev_actor e = \<lparr>ca_component = lit ''orchestrator'', ca_instance_id = or_id (sv_orchestrator sv)\<rparr>"
    "ev_decision e = lit ''ALLOWED''" "ev_handoff_sha256 e = sha256_hex P b" "ev_trace_id e = job_trace P b"
    using e t unfolding issued_event_def by (elim recorded_event_facts; simp)+
  have ok: "local_ok (ss_log (ow_log w2))" "events_of (ow_log w2) = events_of (ow_log w) @ [e]" using lg t(3) by (auto simp: logs_def)
  from run_evidence[OF assms(1,2) ok(1) t(1) r[unfolded t(2)]] obtain es a where
    "events_of (ow_log w') = events_of (ow_log w2) @ es" and rest: "local_ok (ss_log (ow_log w'))" "\<not> lg_needs_reanchor (ss_log (ow_log w'))"
    "map ev_action es = map lit [''HANDOFF_ADMITTED'', ''EXECUTION_DISPATCHED'', ''RESULT_ACCEPTED'']"
    "map ev_actor es = [\<lparr>ca_component = lit ''gateway'', ca_instance_id = gw_id (or_gateway (sv_orchestrator sv))\<rparr>,
          \<lparr>ca_component = lit ''orchestrator'', ca_instance_id = or_id (sv_orchestrator sv)\<rparr>, \<lparr>ca_component = lit ''monitor'', ca_instance_id = rv_id (sv_verifier sv)\<rparr>]"
    "\<forall>e \<in> set es. ev_decision e = lit ''ALLOWED'' \<and> ev_handoff_sha256 e = sha256_hex P b \<and> ev_trace_id e = job_trace P b"
    "reply = job_reply a" "ac_handoff_sha256 a = sha256_hex P b" "ev_result_sha256 (last es) = Some (ac_result_sha256 a)" by iprover
  moreover have "es \<noteq> []" using rest(3) by auto
  ultimately show ?thesis using ok(2) f by (intro exI[of _ b] exI[of _ "e # es"] exI[of _ a]) auto
qed

section \<open>Every history\<close>

text \<open>What callers can make the service do, in the order of arrival.\<close>

datatype service_op =
  Submit pystr pystr "(pystr \<times> pyval) list"
| Complete pystr pystr bytes
| Approve bytes pystr pystr int
| Head

fun service_step :: "platform \<Rightarrow> local_service \<Rightarrow> service_op \<Rightarrow> (local_world, unit) action" where
  "service_step P sv (Submit subject j request) = abind (svc_submit P sv subject j request) (\<lambda>_. areturn ())"
| "service_step P sv (Complete subject j token) = abind (svc_complete P sv subject j token) (\<lambda>_. areturn ())"
| "service_step P sv (Approve token j subject ttl) = abind (svc_approve P sv token j subject ttl) (\<lambda>_. areturn ())"
| "service_step P sv Head = abind (svc_head sv) (\<lambda>_. areturn ())"

lemma log_service_step:
  assumes "\<And>e. keeps J (log_append (sv_recorder sv) e)" "keeps J (log_head (sv_recorder sv))" "wired P key sv"
  shows "keeps (on_world J) (service_step P sv op)"
  using log_submit[OF assms(1,3)] log_complete[OF assms(1,3)] log_approve[OF assms(1,3)] world_audit[OF assms(2)]
  by (cases op) (auto simp: svc_head_def intro!: keeps_rules)

lemma log_history:
  assumes "\<And>e. keeps J (log_append (sv_recorder sv) e)" "keeps J (log_head (sv_recorder sv))" "wired P key sv" "on_world J w"
  shows "on_world J (snd (run_ops (service_step P sv) ops w))"
  by (rule run_ops_invariant[where I = "on_world J"]) (use log_service_step[OF assms(1-3)] assms(4) in \<open>auto dest: keepsD\<close>)

text \<open>What holds of the log after every operation: the anchor backs it, it is linked, nothing was lost.\<close>

lemma evidence_history:
  fixes P sv ops w
  assumes "wired P key sv" "hash_ok P"
    and "local_ok (ss_log (ow_log w))" "log_linked P (ss_log (ow_log w))" "prefix es (events_of (ow_log w))"
  defines "l \<equiv> ss_log (ow_log (snd (run_ops (service_step P sv) ops w)))"
  shows "local_ok l" "log_linked P l" "prefix es (map cr_event (lg_chain l))"
proof -
  from assms(1) obtain audit where R: "sv_recorder sv = local_recorder P audit" by (auto simp: wired_def)
  let ?J = "\<lambda>l. local_ok l \<and> prefix es (al_events (local_abs l))"
  have h: "keeps ?J (log_head (sv_recorder sv))"
    using local_audit.head_keeps[of P audit] head_chain[of "\<lambda>c. prefix es (map cr_event c)" P audit]
    unfolding R by (auto simp: keeps_def log_abs_def)
  have "on_world ?J (snd (run_ops (service_step P sv) ops w))"
    by (rule log_history[OF local_audit.append_extends[where P = P and audit = audit and es = es, folded R] h assms(1)])
      (use assms(3,5) in \<open>auto simp: on_world_def log_abs_def\<close>)
  then show "local_ok l" "prefix es (map cr_event (lg_chain l))" by (auto simp: on_world_def l_def log_abs_def)
  have "on_world (log_linked P) (snd (run_ops (service_step P sv) ops w))"
    by (rule log_history[OF _ _ assms(1)])
      (use assms(4) head_chain[of "linked P 0 EMPTY_HASH" P audit] in \<open>auto simp: R on_world_def log_linked_def[abs_def] intro: log_linked_append[OF assms(2), unfolded log_linked_def[abs_def]]\<close>)
  then show "log_linked P l" by (simp add: on_world_def l_def)
qed

lemma local_state_log [simp]: "ss_log (ow_log local_state) = local_log"
  by (simp add: local_state_def)

definition sample_service :: local_service where
  "sample_service =
     \<lparr>sv_orchestrator =
        \<lparr>or_id = or_id sample_orch, or_signer = or_signer sample_orch, or_gateway = or_gateway sample_orch, or_consume = or_consume sample_orch,
         or_workers = or_workers sample_orch, or_ledger = or_ledger sample_orch,
         or_hooks = local_hooks sample_platform sample_gateway (local_recorder sample_platform sample_audit) (lit ''orch-1'')\<rparr>,
      sv_verifier = sample_acceptor, sv_acceptance = local_acceptance sample_platform, sv_recorder = local_recorder sample_platform sample_audit,
      sv_policy = sample_policy, sv_handoff_verifier = hs_verifier sample_signer, sv_grant = approval_grant_op sample_platform,
      sv_approver_policy = [(lit ''carol'', lit ''user-9'')], sv_pending = local_pending_store, sv_clock = (\<lambda>n. 200), sv_tokens = (\<lambda>n. replicate 32 9), sv_durable = False,
      sv_rollback = (\<lambda>before after. before), sv_commits = (\<lambda>w. True)\<rparr>"

lemma sample_wired: "wired sample_platform (replicate 32 1) sample_service"
  using gateway_init_id[OF sample_gateway_init] sample_signer_init sample_audit_init
  by (auto simp: wired_def sample_service_def sample_orch_def) (simp_all add: sample_gateway_def sample_acceptor_def is_instance_id_def lit_def is_lower_alnum_def is_digit_def)

lemma sample_service_facts [simp]:
  "sv_policy sample_service = sample_policy" "sv_recorder sample_service = local_recorder sample_platform sample_audit"
  "sv_clock sample_service n = 200" "or_workers (sv_orchestrator sample_service) = or_workers sample_orch"
  "or_id (sv_orchestrator sample_service) = or_id sample_orch"
  by (simp_all add: sample_service_def)

lemma sample_service_matches: "acceptor_matches sample_platform (sv_verifier sample_service) (sv_orchestrator sample_service)"
  using sample_acceptor_matches by (simp add: acceptor_matches_def sample_service_def)

lemma sample_service_route:
  "route (sv_orchestrator sample_service) (lit ''alice'') sample_policy 200 = Inr \<lparr>we_worker_agent_id = lit ''worker-1'', we_runner = sample_runner sample_work\<rparr>"
  using sample_route by (simp add: route_eq_Inr)

lemma local_log_room [simp]: "has_room P n local_log \<longleftrightarrow> int n \<le> MAX_COUNT"
  by (simp add: has_room_def) (simp add: local_log_def)

definition sample_payload :: "(pystr \<times> pyval) list" where
  "sample_payload = [(lit ''text'', PStr (lit ''hello''))]"

abbreviation sample_endpoint :: worker_endpoint where
  "sample_endpoint \<equiv> \<lparr>we_worker_agent_id = lit ''worker-1'', we_runner = sample_runner sample_work\<rparr>"

lemma sample_submission:
  "job_fits (sv_policy sample_service) (lit ''alice'') sample_grant (PDict sample_payload) (lit ''hello'') (lit ''job-1'') 200"
  "route (sv_orchestrator sample_service) (lit ''alice'') (sv_policy sample_service) 200 = Inr sample_endpoint"
  "is_ascii (lit ''job-1'')" "is_ascii (g_worker_agent_id sample_grant)" "\<not> list_ex is_surrogate (g_user_id sample_grant)"
  "\<not> list_ex is_surrogate (p_version (sv_policy sample_service))"
  "work_fits (we_runner sample_endpoint) (sv_policy sample_service) sample_grant (lit ''hello'') (lit ''job-1'')"
  "wr_elapsed_ns (wk_work (we_runner sample_endpoint) (PDict [(lit ''text'', PStr (lit ''hello''))]))
     < (200 + p_handoff_ttl_seconds (sv_policy sample_service) - 200) * 10 ^ 9"
  using sample_job_fits sample_service_route sample_work_fits
  by (simp_all add: sample_payload_def sample_request_def)
    (simp_all add: sample_grant_def sample_policy_def lit_def is_surrogate_def sample_runner_def sample_work_def)

lemma sample_completes:
  "\<exists>reply w'. svc_submit sample_platform sample_service (lit ''alice'') (lit ''job-1'') sample_payload local_state = (Inr reply, w')
     \<and> has_room sample_platform 4 (ss_log (ow_log w'))"
  by (rule submit_completes[OF sample_wired sample_service_facts(2) sample_service_matches sample_platform_ok
        sample_service_facts(3) sample_service_facts(3) sample_service_facts(3) _ _ _ sample_submission(1,2) sample_job_id sample_submission(3-8)])
    (simp_all add: MAX_COUNT_def MAX_JOBS_def MAX_ACCEPTED_def local_is_burned_def sample_policy_def local_state_def)

section \<open>Properties\<close>

text \<open>C5. Evidence stays. After any sequence of submissions, completions, approvals and head requests, in any
  order and with any outcome, what was recorded before is still there, in its order; the chain is linked,
  the anchor holds a prefix of it, and, up to the largest count a head can name, the service's next signed
  snapshot verifies for whoever has the public key and is one the anchor accepts.\<close>

theorem evidence_kept:
  fixes P sv ops more
  defines "before \<equiv> snd (run_ops (service_step P sv) ops local_state)"
  defines "after \<equiv> snd (run_ops (service_step P sv) more before)"
  assumes "wired P key sv" "hash_ok P" "ed25519_ok P" "sv_recorder sv = local_recorder P audit"
    and "int (length (lg_chain (ss_log (ow_log after)))) \<le> MAX_COUNT"
  shows "prefix (events_of (ow_log before)) (events_of (ow_log after))
     \<and> linked P 0 EMPTY_HASH (lg_chain (ss_log (ow_log after)))
     \<and> (\<exists>head w. svc_head sv after = (Inr head, w) \<and> lg_chain (ss_log (ow_log w)) = lg_chain (ss_log (ow_log after))
          \<and> committed (lg_anchor (ss_log (ow_log w))) = (length (lg_chain (ss_log (ow_log w))), ah_head_hash head)
          \<and> verify_chain P (stored (lg_chain (ss_log (ow_log w)))) (Some (head_raw head)) (ByVerifier (aa_verifier audit))
              = Inr (head, lg_chain (ss_log (ow_log w))))"
proof -
  note b = evidence_history[OF assms(3,4), of local_state "[]" ops, folded before_def, simplified]
  note a = evidence_history[OF assms(3,4) b(1,2), of "events_of (ow_log before)" more, folded after_def, simplified]
  from assms(3,6) obtain key' where k: "audit_authority_init P key' = Inr audit"
    by (auto simp: wired_def local_recorder_def)
  obtain head where h: "ack_locked (local_recorder P audit) (ss_log (ow_log after)) =
      (Inr head, \<lparr>lg_chain = lg_chain (ss_log (ow_log after)), lg_anchor = anchor_at head, lg_needs_reanchor = False\<rparr>)"
    "verify_chain P (stored (lg_chain (ss_log (ow_log after)))) (Some (head_raw head)) (ByVerifier (aa_verifier audit)) = Inr (head, lg_chain (ss_log (ow_log after)))"
    using local_ack[OF k assms(5,7) a(1,2)] by blast
  have "log_head (local_recorder P audit) = ack_locked (local_recorder P audit)"
    unfolding log_head_def by (rule local_lock)
  then have s: "svc_head sv after = (Inr head, after\<lparr>ow_log := (ow_log after)\<lparr>ss_log := \<lparr>lg_chain = lg_chain (ss_log (ow_log after)),
      lg_anchor = anchor_at head, lg_needs_reanchor = False\<rparr>\<rparr>\<rparr>)"
    using h(1) by (simp add: svc_head_def assms(6) azoom_def)
  have c: "committed (anchor_at head) = (length (lg_chain (ss_log (ow_log after))), ah_head_hash head)"
    using h(2) by (auto simp: verify_chain_eq_Inr committed_def anchor_at_def)
  from s c h(2) a(2,3) show ?thesis by (auto simp: log_linked_def)
qed

theorem evidence_kept_witness:
  "\<exists>es head w. events_of (ow_log (snd (run_ops (service_step sample_platform sample_service) [Submit (lit ''alice'') (lit ''job-1'') sample_payload] local_state))) = es
     \<and> length es = 4
     \<and> svc_head sample_service (snd (run_ops (service_step sample_platform sample_service) []
         (snd (run_ops (service_step sample_platform sample_service) [Submit (lit ''alice'') (lit ''job-1'') sample_payload] local_state)))) = (Inr head, w)
     \<and> map cr_event (lg_chain (ss_log (ow_log w))) = es"
proof -
  obtain reply w' where s: "svc_submit sample_platform sample_service (lit ''alice'') (lit ''job-1'') sample_payload local_state = (Inr reply, w')"
    "has_room sample_platform 4 (ss_log (ow_log w'))" using sample_completes by blast
  have r: "snd (run_ops (service_step sample_platform sample_service) [Submit (lit ''alice'') (lit ''job-1'') sample_payload] local_state) = w'"
    using s(1) by (simp add: abind_def areturn_def)
  obtain es where es: "events_of (ow_log w') = events_of (ow_log local_state) @ es"
    "map ev_action es = map lit [''HANDOFF_ISSUED'', ''HANDOFF_ADMITTED'', ''EXECUTION_DISPATCHED'', ''RESULT_ACCEPTED'']"
    using submit_evidence[OF sample_wired sample_service_facts(2) _ _ _ s(1), of sample_grant] sample_grant_for(1) by (auto simp: sample_grant_def)
  have "length es = 4" using arg_cong[OF es(2), of length] by simp
  moreover have "events_of (ow_log w') = es" using es(1) by (simp add: local_log_def)
  moreover have "int (length (lg_chain (ss_log (ow_log w')))) \<le> MAX_COUNT" using s(2) by (simp add: has_room_def)
  ultimately show ?thesis
    using evidence_kept[OF sample_wired sample_platform_ok sample_service_facts(2), of "[]" "[Submit (lit ''alice'') (lit ''job-1'') sample_payload]", unfolded r] r
    by fastforce
qed

text \<open>C3. A job that came back is on the record in full: a submission without approval that returned has added
  exactly four events to the log, issued by the orchestrator, admitted by the gateway, dispatched by the
  orchestrator and accepted by the verifier, all allowed, all with the digest of the job's one wire and the
  trace made from it; the last names the digest of the result in the reply, and the log is anchored.\<close>

theorem completed_job_evidence:
  assumes "wired P key sv" "sv_recorder sv = local_recorder P audit" "local_ok (ss_log (ow_log w))"
    and "grant_for (sv_policy sv) subject = Inr g" "\<not> g_requires_approval g" "svc_submit P sv subject j req w = (Inr reply, w')"
  shows "\<exists>b es a. map cr_event (lg_chain (ss_log (ow_log w'))) = map cr_event (lg_chain (ss_log (ow_log w))) @ es
     \<and> local_ok (ss_log (ow_log w')) \<and> \<not> lg_needs_reanchor (ss_log (ow_log w'))
     \<and> map ev_action es = map lit [''HANDOFF_ISSUED'', ''HANDOFF_ADMITTED'', ''EXECUTION_DISPATCHED'', ''RESULT_ACCEPTED'']
     \<and> map ev_actor es = [\<lparr>ca_component = lit ''orchestrator'', ca_instance_id = or_id (sv_orchestrator sv)\<rparr>,
          \<lparr>ca_component = lit ''gateway'', ca_instance_id = gw_id (or_gateway (sv_orchestrator sv))\<rparr>,
          \<lparr>ca_component = lit ''orchestrator'', ca_instance_id = or_id (sv_orchestrator sv)\<rparr>, \<lparr>ca_component = lit ''monitor'', ca_instance_id = rv_id (sv_verifier sv)\<rparr>]
     \<and> (\<forall>e \<in> set es. ev_decision e = lit ''ALLOWED'' \<and> ev_handoff_sha256 e = sha256_hex P b \<and> ev_trace_id e = lit ''trace-'' @ take 16 (sha256_hex P b))
     \<and> reply = job_reply a \<and> ac_handoff_sha256 a = sha256_hex P b \<and> ev_result_sha256 (last es) = Some (ac_result_sha256 a)"
  by (rule submit_evidence[OF assms])

theorem completed_job_evidence_witness:
  "\<exists>reply w' a. svc_submit sample_platform sample_service (lit ''alice'') (lit ''job-1'') sample_payload local_state = (Inr reply, w')
     \<and> reply = job_reply a \<and> length (lg_chain (ss_log (ow_log w'))) = 4"
proof -
  obtain reply w' where s: "svc_submit sample_platform sample_service (lit ''alice'') (lit ''job-1'') sample_payload local_state = (Inr reply, w')"
    using sample_completes by blast
  obtain es a where es: "map cr_event (lg_chain (ss_log (ow_log w'))) = map cr_event (lg_chain (ss_log (ow_log local_state))) @ es"
    "map ev_action es = map lit [''HANDOFF_ISSUED'', ''HANDOFF_ADMITTED'', ''EXECUTION_DISPATCHED'', ''RESULT_ACCEPTED'']" "reply = job_reply a"
    using completed_job_evidence[OF sample_wired sample_service_facts(2) _ _ _ s, of sample_grant] sample_grant_for(1) by (auto simp: sample_grant_def)
  have "length (lg_chain (ss_log (ow_log w'))) = length es" using arg_cong[OF es(1), of length] by (simp add: local_log_def)
  also have "\<dots> = 4" using arg_cong[OF es(2), of length] by simp
  finally show ?thesis using s es(3) by blast
qed

text \<open>C1. A job that fits runs through the whole service: when a subject without approval submits a text that
  fits its grant, the worker answers in time, the clock does not run back and stays below the expiry, and
  there is room in the ledgers and on the log, then the submission returns, with the record above.\<close>

theorem submitted_job_completes:
  fixes w :: local_world
  assumes "wired P key sv" "sv_recorder sv = local_recorder P audit" "acceptor_matches P (sv_verifier sv) (sv_orchestrator sv)" "hash_ok P" "ed25519_ok P"
    and "sv_clock sv (ss_ticks (ow_log w)) = t0" "sv_clock sv (Suc (ss_ticks (ow_log w))) = t1" "sv_clock sv (Suc (Suc (ss_ticks (ow_log w)))) = t2"
    and "t0 \<le> t1" "t1 \<le> t2" "t2 < t0 + p_handoff_ttl_seconds (sv_policy sv)"
    and "job_fits (sv_policy sv) subject g (PDict req) s j t0" "route (sv_orchestrator sv) subject (sv_policy sv) t0 = Inr ep" "check_job_id j = Inr j"
    and "is_ascii j" "is_ascii (g_worker_agent_id g)" "\<not> list_ex is_surrogate (g_user_id g)" "\<not> list_ex is_surrogate (p_version (sv_policy sv))"
    and "work_fits (we_runner ep) (sv_policy sv) g s j"
    and "wr_elapsed_ns (wk_work (we_runner ep) (PDict [(lit ''text'', PStr s)])) < (t0 + p_handoff_ttl_seconds (sv_policy sv) - t1) * 10 ^ 9"
    and "\<not> local_is_burned j (ow_ledger w)" "length (ow_ledger w) < MAX_JOBS" "has_room P 4 (ss_log (ow_log w))"
    and "\<And>b. issue P (PDict req) subject j (sv_policy sv) (or_signer (sv_orchestrator sv)) t0 = Inr b \<Longrightarrow> sha256_hex P b \<notin> set (ss_acceptances (ow_log w))"
    and "length (ss_acceptances (ow_log w)) < MAX_ACCEPTED"
  shows "\<exists>a w'. svc_submit P sv subject j req w = (Inr (job_reply a), w')
     \<and> length (lg_chain (ss_log (ow_log w'))) = length (lg_chain (ss_log (ow_log w))) + 4 \<and> \<not> lg_needs_reanchor (ss_log (ow_log w'))"
proof -
  have four: "has_room P (Suc (Suc (Suc (Suc 0)))) (ss_log (ow_log w))" using assms(23) by (simp add: numeral_eq_Suc)
  obtain reply w' where s: "svc_submit P sv subject j req w = (Inr reply, w')"
    using submit_completes[OF assms(1-22) four assms(24,25)] by blast
  have ok: "local_ok (ss_log (ow_log w))" "grant_for (sv_policy sv) subject = Inr g" "\<not> g_requires_approval g"
    using assms(12,23) by (auto simp: has_room_def job_fits_def request_fits_def)
  from submit_evidence[OF assms(1,2) ok s] obtain es a where
    e: "events_of (ow_log w') = events_of (ow_log w) @ es" "\<not> lg_needs_reanchor (ss_log (ow_log w'))" "reply = job_reply a"
    "map ev_action es = map lit [''HANDOFF_ISSUED'', ''HANDOFF_ADMITTED'', ''EXECUTION_DISPATCHED'', ''RESULT_ACCEPTED'']" by iprover
  have "length (lg_chain (ss_log (ow_log w'))) = length (lg_chain (ss_log (ow_log w))) + 4"
    using arg_cong[OF e(1), of length] arg_cong[OF e(4), of length] by simp
  with s e show ?thesis by blast
qed

theorem submitted_job_completes_witness:
  "\<exists>a w'. svc_submit sample_platform sample_service (lit ''alice'') (lit ''job-1'') sample_payload local_state = (Inr (job_reply a), w')
     \<and> length (lg_chain (ss_log (ow_log w'))) = 4"
proof -
  note h = sample_submission
  have "\<exists>a w'. svc_submit sample_platform sample_service (lit ''alice'') (lit ''job-1'') sample_payload local_state = (Inr (job_reply a), w')
     \<and> length (lg_chain (ss_log (ow_log w'))) = length (lg_chain (ss_log (ow_log local_state))) + 4 \<and> \<not> lg_needs_reanchor (ss_log (ow_log w'))"
    by (rule submitted_job_completes[OF sample_wired sample_service_facts(2) sample_service_matches sample_platform_ok
          sample_service_facts(3) sample_service_facts(3) sample_service_facts(3) _ _ _ h(1,2) sample_job_id h(3-8)])
      (simp_all add: MAX_COUNT_def MAX_JOBS_def MAX_ACCEPTED_def local_is_burned_def sample_policy_def local_state_def)
  then show ?thesis by (simp add: local_log_def) blast
qed

end
