(* ===== verification/ApprovalFlow.thy ===== *)
theory ApprovalFlow
  imports Service
begin

text \<open>
  Approval-bound jobs in the composed service of \<open>geniusnew/wiring.py\<close>: submitting makes the job wait, a
  second person approves it, and its owner completes it with the approval token.
\<close>

section \<open>Approval-bound jobs\<close>

lemma pending_submit:
  assumes "wired P key sv" "grant_for (sv_policy sv) subject = Inr g" "g_requires_approval g"
  shows "svc_submit P sv subject j req =
     abind (issue_job P sv subject j req) (\<lambda>(b, h, trace, dd).
     abind (svc_now sv) (\<lambda>t.
     abind (abind (alift (issued_event P sv h trace subject dd)) (\<lambda>e.
            abind (on_log (on_audit (log_append (sv_recorder sv) e))) (\<lambda>_.
            on_log (on_pending (pending_add j \<lparr>wt_subject = subject, wt_wire = b, wt_handoff = h, wt_trace_id = trace, wt_decision_expires_at = 0\<rparr> t False))))) (\<lambda>_.
     abind (alift (handoff_digest P h)) (\<lambda>digest.
     areturn (PDict [(lit ''status'', PStr PENDING), (lit ''handoff_sha256'', PStr digest)])))))"
proof -
  have lift: "abind (alift (Inr x)) k = k x" for x and k :: "grant \<Rightarrow> (local_world, pyval) action"
    by (simp add: fun_eq_iff abind_def alift_def)
  show ?thesis
    unfolding svc_submit_def wiredD(3,4)[OF assms(1)] if_False Let_def local_pending_store_def pending_store.select_convs assms(2) lift
    using assms(3) by simp
qed

lemma pending_submit_keeps:
  fixes w :: local_world
  assumes "wired P key sv" "grant_for (sv_policy sv) subject = Inr g" "g_requires_approval g"
  shows "keeps (\<lambda>v. ow_ledger v = ow_ledger w \<and> ow_gateway v = ow_gateway w) (svc_submit P sv subject j req)"
proof -
  have k: "keeps (\<lambda>v. ow_ledger v = ow_ledger w \<and> ow_gateway v = ow_gateway w) (on_log m)"
    "keeps (\<lambda>v. ow_ledger v = ow_ledger w \<and> ow_gateway v = ow_gateway w) (svc_now sv)" for m :: "((chain_record list, anchor, pystr list, pending_jobs) service_state, unit) action"
    by (auto simp: keeps_def azoom_eq svc_now_def)
  show ?thesis unfolding pending_submit[OF assms] issue_job_def by (intro keeps_rules k)
qed

lemma issued_pending:
  assumes "issue_job P sv subject j req w = (Inr (b, h, trace, dd), w1)" "grant_for (sv_policy sv) subject = Inr g" "g_requires_approval g"
  shows "h_approval_state h = PENDING"
  using assms unfolding issue_job_def
  by (auto simp: abind_eq_Inr alift_eq areturn_eq revalidate_def validate_pending_def rbind_eq_Inr split: if_splits)

section \<open>The steps succeed\<close>

text \<open>The jobs that still wait at a time, and that there is a place for one more under this id.\<close>

definition waiting_jobs :: "int \<Rightarrow> pending_jobs \<Rightarrow> pending_jobs" where
  "waiting_jobs now jobs = filter (\<lambda>(k, v). \<not> h_expires_at (wt_handoff v) \<le> now) jobs"

definition has_place :: "int \<Rightarrow> pystr \<Rightarrow> pending_jobs \<Rightarrow> bool" where
  "has_place now j jobs \<longleftrightarrow> map_of (waiting_jobs now jobs) j = None \<and> length (waiting_jobs now jobs) < MAX_PENDING"

lemma pending_add_place: "has_place now j jobs \<Longrightarrow> pending_add j wt now False jobs = (Inr (), waiting_jobs now jobs @ [(j, wt)])"
  by (simp add: pending_add_def has_place_def waiting_jobs_def Let_def)

lemma added_job: "has_place now j jobs \<Longrightarrow> map_of (waiting_jobs now jobs @ [(j, wt)]) j = Some wt"
  by (simp add: has_place_def map_add_def)

lemma decided_job: "map_of jobs j = Some wt \<Longrightarrow> map_of (set_job j wt' jobs) j = Some wt'"
  by (induction jobs) (auto simp: set_job_def split: if_splits)

lemma pending_submit_succeeds:
  fixes w :: local_world
  assumes "wired P key sv" "sv_recorder sv = local_recorder P audit" "hash_ok P" "ed25519_ok P"
    and fits: "request_fits (sv_policy sv) subject g (PDict req) s j t0" "g_requires_approval g" "route (sv_orchestrator sv) subject (sv_policy sv) t0 = Inr ep"
      "check_job_id j = Inr j" "\<not> list_ex is_surrogate j" "\<not> list_ex is_surrogate (g_user_id g)" "\<not> list_ex is_surrogate (p_version (sv_policy sv))"
    and clk: "sv_clock sv (ss_ticks (ow_log w)) = t0" "sv_clock sv (Suc (ss_ticks (ow_log w))) = t1"
    and room: "has_room P (Suc n) (ss_log (ow_log w))" "has_place t1 j (ss_pending (ow_log w))"
  obtains b h l reply where
    "svc_submit P sv subject j req w = (Inr reply, w\<lparr>ow_log := (ow_log w)\<lparr>ss_log := l, ss_ticks := Suc (Suc (ss_ticks (ow_log w))),
       ss_pending := waiting_jobs t1 (ss_pending (ow_log w)) @ [(j, \<lparr>wt_subject = subject, wt_wire = b, wt_handoff = h, wt_trace_id = job_trace P b, wt_decision_expires_at = 0\<rparr>)]\<rparr>\<rparr>)"
    "has_room P n l" "recordable P h b" "validate_pending P (PBytes b) subject j (sv_policy sv) (Verifier (gw_verifier (or_gateway (sv_orchestrator sv)))) t0 = Inr h"
    "h_issued_at h = t0" "h_payload h = PDict [(lit ''text'', PStr s)]"
    "issue P (PDict req) subject j (sv_policy sv) (or_signer (sv_orchestrator sv)) t0 = Inr b"
proof -
  obtain b h where b: "issue P (PDict req) subject j (sv_policy sv) (or_signer (sv_orchestrator sv)) t0 = Inr b"
    "issue_job P sv subject j req w = (Inr (b, h, job_trace P b,
        \<lparr>d_action = ''HANDOFF_ISSUED'', d_decision = ''ALLOWED'', d_reason_code = ''POLICY_SATISFIED'', d_occurred_at = t0\<rparr>),
        w\<lparr>ow_log := (ow_log w)\<lparr>ss_ticks := Suc (ss_ticks (ow_log w))\<rparr>\<rparr>)"
    "recordable P h b" "(if g_requires_approval g then validate_pending P (PBytes b) subject j (sv_policy sv) (Verifier (gw_verifier (or_gateway (sv_orchestrator sv)))) t0
       else validate P (PBytes b) subject j (sv_policy sv) (Verifier (gw_verifier (or_gateway (sv_orchestrator sv)))) t0) = Inr h"
    "h_issued_at h = t0" "h_payload h = PDict [(lit ''text'', PStr s)]" "handoff_facts (sv_policy sv) g j t0 h"
    by (rule issue_succeeds[OF assms(1,3,4) fits(1,3-7) clk(1)])
  have g: "grant_for (sv_policy sv) subject = Inr g" "1 \<le> t0" "t0 \<le> MAX_OCCURRED_AT"
    using fits(1) by (auto simp: request_fits_def ORCH_MAX_OCCURRED_AT_def MAX_OCCURRED_AT_def)
  obtain e l where e: "issued_event P sv h (job_trace P b) subject
      \<lparr>d_action = ''HANDOFF_ISSUED'', d_decision = ''ALLOWED'', d_reason_code = ''POLICY_SATISFIED'', d_occurred_at = t0\<rparr> = Inr e"
    "log_append (sv_recorder sv) e (ss_log (ow_log w)) = (Inr (), l)" "has_room P n l"
    using issued_recorded[OF assms(1-4) b(3) g room(1)] by blast
  have d: "handoff_digest P h = Inr (sha256_hex P b)" using b(3) by (auto simp: recordable_def intro: handoff_digest_valid)
  have "\<exists>reply. svc_submit P sv subject j req w = (Inr reply, w\<lparr>ow_log := (ow_log w)\<lparr>ss_log := l, ss_ticks := Suc (Suc (ss_ticks (ow_log w))),
       ss_pending := waiting_jobs t1 (ss_pending (ow_log w)) @ [(j, \<lparr>wt_subject = subject, wt_wire = b, wt_handoff = h, wt_trace_id = job_trace P b, wt_decision_expires_at = 0\<rparr>)]\<rparr>\<rparr>)"
    unfolding pending_submit[OF assms(1) g(1) fits(2)]
    using b(2) e(1,2) clk(2) pending_add_place[OF room(2)] d
    by (simp add: abind_def alift_def azoom_def areturn_def svc_now_def)
  with that e(3) b fits(2) show thesis by auto
qed

lemma grant_succeeds:
  assumes "create_scope P wire subject j policy verifier now = Inr sc" "0 < now" "as_handoff_expires_at sc \<le> MAX_OCCURRED_AT" "now < as_handoff_expires_at sc"
    and "1 \<le> ttl" "ttl \<le> 600" "TOKEN_BYTES \<le> length token" "s (sha256 P token) = None" "hash_ok P"
  obtains ag s' where "approval_grant_op P token sc now ttl False s = (Inr ag, s')" "ag_expires_at ag = min (now + ttl) (as_handoff_expires_at sc)"
    "ag_token ag = token" "is_digest (ag_record_hash ag)"
proof -
  obtain h :: handoff and b where f: "sc = \<lparr>as_handoff_sha256 = sha256_hex P b, as_handoff_expires_at = h_expires_at h, as_job_id = h_job_id h,
        as_user_id = h_user_id h, as_worker_agent_id = h_worker_agent_id h, as_risk_tier = h_tier h,
        as_policy_version = h_policy_version h, as_action = EXECUTE_HANDOFF, as_origin = True\<rparr>"
    by (rule create_scope_eq_Inr[OF assms(1)]) (rule that)
  let ?x = "min (now + ttl) (as_handoff_expires_at sc)"
  have "\<exists>b. canonical (PDict (scope_dict sc)) = Inr b"
    using canonical_bounded[of "PDict (scope_dict sc)"] assms(2-4) by (auto simp: f scope_dict_def MAX_OCCURRED_AT_def)
  moreover have "int_text i \<noteq> None" if "\<bar>i\<bar> < 10 ^ 18" for i using int_text_bounded[OF that] by auto
  ultimately obtain rh where rh: "approval_record_hash P (sha256 P token) sc now ?x GRANTED now None = Inr rh"
    using approval_record_hash_defined[of P "sha256 P token" sc now ?x GRANTED now None] assms(2-6) by (auto simp: MAX_OCCURRED_AT_def)
  have "is_digest rh" by (rule approval_record_hash_digest[OF assms(9) rh])
  moreover have "\<exists>s'. approval_grant_op P token sc now ttl False s =
      (Inr \<lparr>ag_token = token, ag_scope = sc, ag_issued_at = now, ag_expires_at = ?x, ag_record_hash = rh\<rparr>, s')"
    using rh assms(4-8) by (simp add: approval_grant_op_def new_grant_def MAX_TTL_SECONDS_def Let_def) (simp add: f)
  ultimately show thesis using that by fastforce
qed

text \<open>A job waits as \<open>submit\<close> left it.\<close>

definition waits :: "platform \<Rightarrow> pystr \<Rightarrow> handoff \<Rightarrow> bytes \<Rightarrow> waiting \<Rightarrow> bool" where
  "waits P subject h b wt \<longleftrightarrow> wt_subject wt = subject \<and> wt_wire wt = b \<and> wt_handoff wt = h \<and> wt_trace_id wt = job_trace P b"

lemma approve_succeeds:
  fixes w :: local_world
  assumes "wired P key sv" "sv_recorder sv = local_recorder P audit" "hash_ok P" "ed25519_ok P"
    and pol: "valid_policy (sv_policy sv)" "grant_for (sv_policy sv) subject = Inr g" "valid_grant g" "j \<noteq> []"
    and job: "map_of (ss_pending (ow_log w)) j = Some wt" "waits P subject h b wt" "recordable P h b"
      "validate_pending P (PBytes b) subject j (sv_policy sv) (Verifier (sv_handoff_verifier sv)) t3 = Inr h"
    and who: "approver_user_id (sv_approver_policy sv) approver = Inr u" "u \<noteq> h_user_id h" "approver \<noteq> []" "\<not> list_ex is_surrogate approver"
    and clk: "sv_clock sv (ss_ticks (ow_log w)) = t2" "sv_clock sv (Suc (ss_ticks (ow_log w))) = t3" "wt_decision_expires_at wt \<le> t2"
      "0 < t3" "h_expires_at h \<le> MAX_OCCURRED_AT"
    and tok: "1 \<le> ttl" "ttl \<le> 600" "TOKEN_BYTES \<le> length token" "gw_approvals (ow_gateway w) (sha256 P token) = None"
    and room: "has_room P (Suc n) (ss_log (ow_log w))"
  obtains sc ag s' l where "create_scope P (PBytes b) subject j (sv_policy sv) (Verifier (sv_handoff_verifier sv)) t3 = Inr sc"
    "approval_grant_op P token sc t3 ttl False (gw_approvals (ow_gateway w)) = (Inr ag, s')" "ag_expires_at ag = min (t3 + ttl) (h_expires_at h)"
    "svc_approve P sv token j approver ttl w = (Inr token, w\<lparr>ow_gateway := (ow_gateway w)\<lparr>gw_approvals := s'\<rparr>,
       ow_log := (ow_log w)\<lparr>ss_log := l, ss_ticks := Suc (Suc (ss_ticks (ow_log w))),
         ss_pending := set_job j (wt\<lparr>wt_decision_expires_at := min (t2 + ttl) (h_expires_at h)\<rparr>) (ss_pending (ow_log w))\<rparr>\<rparr>)"
    "has_room P n l"
proof -
  note wt = job(2)[unfolded waits_def]
  from validate_pending_sound[OF job(4)] pol(2) have hf: "handoff_facts (sv_policy sv) g j t3 h" by auto
  have now: "t3 < h_expires_at h" "0 < h_expires_at h" "t3 \<le> MAX_OCCURRED_AT" using hf clk(4,5) by (auto simp: handoff_facts_def)
  obtain sc where sc: "create_scope P (PBytes b) subject j (sv_policy sv) (Verifier (sv_handoff_verifier sv)) t3 = Inr sc"
    using create_scope_complete[OF job(4) assms(3) now(2) pol] by blast
  have x: "as_handoff_expires_at sc = h_expires_at h" by (rule create_scope_eq_Inr[OF sc]) (use job(4) in auto)
  obtain ag s' where ag: "approval_grant_op P token sc t3 ttl False (gw_approvals (ow_gateway w)) = (Inr ag, s')"
    "ag_expires_at ag = min (t3 + ttl) (as_handoff_expires_at sc)" "ag_token ag = token" "is_digest (ag_record_hash ag)"
    by (rule grant_succeeds[where s = "gw_approvals (ow_gateway w)", OF sc clk(4) _ _ tok assms(3)]) (use x clk(5) now in auto)
  have rc: "is_reason_code (lit ''OPERATOR_APPROVED'')" by (simp add: is_reason_code_def lit_def is_upper_def is_digit_def)
  have p: "h_approval_state h = PENDING" using job(4) by (auto simp: validate_pending_def rbind_eq_Inr split: if_splits)
  have id: "is_instance_id (gw_id (or_gateway (sv_orchestrator sv)))" using assms(1) by (simp add: wired_def)
  obtain ak where ak: "audit_authority_init P ak = Inr audit" using assms(1,2) by (auto simp: wired_def local_recorder_def)
  obtain e where e: "recorded_event P (local_recorder P audit) h (job_trace P b) ''gateway'' (gw_id (or_gateway (sv_orchestrator sv))) ''APPROVAL_GRANTED'' ''ALLOWED''
      ''OPERATOR_APPROVED'' t3 (Some (ag_record_hash ag)) approver None = Inr e" "valid_event e" "valid_actor (ev_actor e)"
    using recorded_event_ok[OF job(3) assms(3) _ id _ _ rc clk(4) now(3) _ who(3,4), of "''gateway''" "''APPROVAL_GRANTED''" "''ALLOWED''" "Some (ag_record_hash ag)" None "local_recorder P audit"]
      ag(4) p by (auto simp: ROLES_def ACTIONS_def DECISIONS_def)
  obtain l where l: "log_append (local_recorder P audit) e (ss_log (ow_log w)) = (Inr (), l)" "has_room P n l"
    using append_succeeds[OF ak assms(3,4) room e(2,3)] by blast
  have dec: "pending_decide j u t2 ttl (ss_pending (ow_log w)) =
      (Inr wt, set_job j (wt\<lparr>wt_decision_expires_at := min (t2 + ttl) (h_expires_at h)\<rparr>) (ss_pending (ow_log w)))"
    using job(1) who(2) clk(3) tok(1,2) wt by (simp add: pending_decide_def)
  have "svc_approve P sv token j approver ttl w = (Inr token, w\<lparr>ow_gateway := (ow_gateway w)\<lparr>gw_approvals := s'\<rparr>,
       ow_log := (ow_log w)\<lparr>ss_log := l, ss_ticks := Suc (Suc (ss_ticks (ow_log w))),
         ss_pending := set_job j (wt\<lparr>wt_decision_expires_at := min (t2 + ttl) (h_expires_at h)\<rparr>) (ss_pending (ow_log w))\<rparr>\<rparr>)"
    unfolding svc_approve_def approve_grant_def wiredD[OF assms(1)] local_pending_store_def pending_store.select_convs if_False simp_thms Let_def
    using who(1,2) dec sc ag(1,3) e(1) l(1) clk(1,2) wt
    by (simp add: abind_def alift_def azoom_def areturn_def svc_now_def assms(2))
  with that sc ag x l(2) show thesis by simp
qed

lemma complete_succeeds:
  fixes w :: local_world
  assumes "wired P key sv" "sv_recorder sv = local_recorder P audit" "acceptor_matches P (sv_verifier sv) (sv_orchestrator sv)" "hash_ok P" "ed25519_ok P"
    and pol: "valid_policy (sv_policy sv)" "grant_for (sv_policy sv) subject = Inr g" "valid_grant g" "g_requires_approval g" "is_ascii j" "is_ascii (g_worker_agent_id g)"
    and job: "map_of (ss_pending (ow_log w)) j = Some wt" "waits P subject h b wt" "recordable P h b" "check_job_id j = Inr j"
      "validate_pending P (PBytes b) subject j (sv_policy sv) (Verifier (gw_verifier (or_gateway (sv_orchestrator sv)))) t4 = Inr h"
    and grant: "create_scope P (PBytes b) subject j (sv_policy sv) (Verifier (gw_verifier (or_gateway (sv_orchestrator sv)))) t3 = Inr sc"
      "approval_grant_op P token sc t3 ttl False s = (Inr ag, gw_approvals (ow_gateway w))" "t3 \<le> t4" "t4 < ag_expires_at ag"
    and clk: "sv_clock sv (ss_ticks (ow_log w)) = t4" "sv_clock sv (Suc (ss_ticks (ow_log w))) = t5" "t4 \<le> t5" "t5 < h_expires_at h" "h_expires_at h \<le> ORCH_MAX_OCCURRED_AT"
    and work: "route (sv_orchestrator sv) subject (sv_policy sv) t4 = Inr ep" "execute_admitted P (we_runner ep) t4 h t4 = Inr x" "x \<noteq> []"
    and free: "\<not> local_is_burned j (ow_ledger w)" "length (ow_ledger w) < MAX_JOBS" "has_room P (Suc (Suc (Suc n))) (ss_log (ow_log w))"
      "sha256_hex P b \<notin> set (ss_acceptances (ow_log w))" "length (ss_acceptances (ow_log w)) < MAX_ACCEPTED"
  shows "\<exists>a es w'. svc_complete P sv subject j token w = (Inr (job_reply a), w') \<and> has_room P n (ss_log (ow_log w'))
     \<and> ac_handoff_sha256 a = sha256_hex P b \<and> events_of (ow_log w') = events_of (ow_log w) @ es
     \<and> map ev_action es = map lit [''HANDOFF_ADMITTED'', ''EXECUTION_DISPATCHED'', ''RESULT_ACCEPTED'']"
proof -
  let ?oc = "sv_orchestrator sv"
  note wt = job(2)[unfolded waits_def]
  have id: "is_instance_id (gw_id (or_gateway ?oc))" and cons: "or_consume ?oc False = (\<lambda>t sc now. approval_consume P t sc now False)"
    using assms(1) by (auto simp: wired_def)
  have t: "0 < t4" "t4 < 10 ^ 18" "j \<noteq> []" using work(1) job(4) by (auto simp: route_eq_Inr ORCH_MAX_OCCURRED_AT_def check_job_id_eq_Inr)
  obtain p g' where adm: "admit P (or_consume ?oc False) (or_gateway ?oc) (PBytes b) subject j (sv_policy sv) t4 (Some token) (ow_gateway w) = (Inr p, g')" "dp_handoff p = h"
    using admit_approved[OF assms(4) id pol(1-4) t(3,1) grant(1,2) job(5) grant(3,4) t(2)] cons by auto
  from local_approvals.admit_sound[of P "or_gateway ?oc" False "PBytes b" subject j "sv_policy sv" t4 "Some token" "ow_gateway w" p g'] adm cons id assms(4) pol(2)
  obtain rh where m: "p = minted_permit (or_gateway ?oc) t4 h (sha256_hex P b) rh (length (gw_uses (ow_gateway w)))"
    "gw_uses g' = gw_uses (ow_gateway w) @ [\<lparr>pu_binding = (sha256_hex P b, gw_id (or_gateway ?oc), t4, rh), pu_used = False\<rparr>]" by auto
  have pend: "h_approval_state h = PENDING" using job(5) by (auto simp: validate_pending_def rbind_eq_Inr split: if_splits)
  have rh: "\<forall>x. rh = Some x \<longrightarrow> is_digest x \<and> h_approval_state h = PENDING"
    using admit_validated(2)[OF adm(1) pol(2)] pend by (simp add: m(1) minted_permit_def)
  have tk: "pending_take j subject (ss_pending (ow_log w)) = (Inr wt, filter (\<lambda>(k, v). k \<noteq> j) (ss_pending (ow_log w)))"
    using job(1) wt by (simp add: pending_take_def)
  let ?w1 = "w\<lparr>ow_log := (ow_log w)\<lparr>ss_pending := filter (\<lambda>(k, v). k \<noteq> j) (ss_pending (ow_log w))\<rparr>\<rparr>"
  have "\<exists>reply w'. svc_run P sv subject j b h (job_trace P b) (Some token) False ?w1 = (Inr reply, w') \<and> has_room P n (ss_log (ow_log w'))"
    by (rule run_succeeds[OF assms(1-5) pol(1-3,5,6) _ _ clk(3-5) _ job(3) work(1) job(4) _ _ rh work(2,3), where us = "gw_uses (ow_gateway w)"])
      (use clk job(5) pol(4) adm m free in auto)
  then obtain reply w' where r: "svc_run P sv subject j b h (job_trace P b) (Some token) False ?w1 = (Inr reply, w')" "has_room P n (ss_log (ow_log w'))" by blast
  have "svc_complete P sv subject j token w = (Inr reply, w')"
    unfolding svc_complete_def wiredD(3,4)[OF assms(1)] local_pending_store_def pending_store.select_convs
    using tk wt r(1) by (simp add: abind_def azoom_def acatch_def)
  moreover from validate_pending_sound[OF job(5)] have hb: "handoff_to_bytes h = Inr b" by auto
  have "local_ok (ss_log (ow_log ?w1))" using free(3) by (simp add: has_room_def)
  from run_evidence[OF assms(1,2) this hb r(1)] obtain a es where
    "reply = job_reply a" "ac_handoff_sha256 a = sha256_hex P b" "events_of (ow_log w') = events_of (ow_log ?w1) @ es"
    "map ev_action es = map lit [''HANDOFF_ADMITTED'', ''EXECUTION_DISPATCHED'', ''RESULT_ACCEPTED'']" by iprover
  ultimately show ?thesis using r(2) by auto
qed

lemma flow_completes:
  fixes w :: local_world
  assumes "wired P key sv" "sv_recorder sv = local_recorder P audit" "acceptor_matches P (sv_verifier sv) (sv_orchestrator sv)" "hash_ok P" "ed25519_ok P"
    and fits: "request_fits (sv_policy sv) subject g (PDict req) s j (t 0)" "g_requires_approval g" "route (sv_orchestrator sv) subject (sv_policy sv) (t 0) = Inr ep"
      "check_job_id j = Inr j" "is_ascii j" "is_ascii (g_worker_agent_id g)" "\<not> list_ex is_surrogate (g_user_id g)" "\<not> list_ex is_surrogate (p_version (sv_policy sv))"
    and who: "approver_user_id (sv_approver_policy sv) approver = Inr u" "u \<noteq> g_user_id g" "approver \<noteq> []" "\<not> list_ex is_surrogate approver"
    and clk: "\<And>i. sv_clock sv (ss_ticks (ow_log w) + i) = t i" "mono t" "t 5 < t 0 + p_handoff_ttl_seconds (sv_policy sv)" "t 4 < t 3 + ttl"
    and work: "work_fits (we_runner ep) (sv_policy sv) g s j"
      "wr_elapsed_ns (wk_work (we_runner ep) (PDict [(lit ''text'', PStr s)])) < (t 0 + p_handoff_ttl_seconds (sv_policy sv) - t 4) * 10 ^ 9"
    and tok: "1 \<le> ttl" "ttl \<le> 600" "TOKEN_BYTES \<le> length token" "gw_approvals (ow_gateway w) (sha256 P token) = None"
    and free: "\<not> local_is_burned j (ow_ledger w)" "length (ow_ledger w) < MAX_JOBS" "has_room P 5 (ss_log (ow_log w))" "has_place (t 1) j (ss_pending (ow_log w))"
      "\<And>b. issue P (PDict req) subject j (sv_policy sv) (or_signer (sv_orchestrator sv)) (t 0) = Inr b \<Longrightarrow> sha256_hex P b \<notin> set (ss_acceptances (ow_log w))"
      "length (ss_acceptances (ow_log w)) < MAX_ACCEPTED"
  shows "\<exists>r w1 w2 a es w3. svc_submit P sv subject j req w = (Inr r, w1) \<and> svc_approve P sv token j approver ttl w1 = (Inr token, w2)
     \<and> svc_complete P sv subject j token w2 = (Inr (job_reply a), w3) \<and> local_ok (ss_log (ow_log w3))
     \<and> events_of (ow_log w3) = events_of (ow_log w2) @ es
     \<and> map ev_action es = map lit [''HANDOFF_ADMITTED'', ''EXECUTION_DISPATCHED'', ''RESULT_ACCEPTED'']"
proof -
  let ?oc = "sv_orchestrator sv" and ?pol = "sv_policy sv" and ?n = "ss_ticks (ow_log w)"
  note rf = fits(1)[unfolded request_fits_def]
  have j: "\<not> list_ex is_surrogate j" "j \<noteq> []"
    using fits(4,5) by (auto simp: is_ascii_def list_all_iff list_ex_iff is_surrogate_def check_job_id_eq_Inr)
  have ticks: "sv_clock sv ?n = t 0" "sv_clock sv (Suc ?n) = t 1" "sv_clock sv (Suc (Suc ?n)) = t 2" "sv_clock sv (Suc (Suc (Suc ?n))) = t 3"
    "sv_clock sv (Suc (Suc (Suc (Suc ?n)))) = t 4" "sv_clock sv (Suc (Suc (Suc (Suc (Suc ?n))))) = t 5"
    using clk(1)[of 0] clk(1)[of 1] clk(1)[of 2] clk(1)[of 3] clk(1)[of 4] clk(1)[of 5] by (simp_all add: numeral_eq_Suc)
  have up: "t 0 \<le> t 2" "t 0 \<le> t 3" "t 3 \<le> t 4" "t 0 \<le> t 4" "t 4 \<le> t 5" "t 3 \<le> t 5" using clk(2) by (auto simp: mono_def)
  have five: "has_room P (Suc (Suc (Suc (Suc (Suc 0))))) (ss_log (ow_log w))" using free(3) by (simp add: numeral_eq_Suc)
  obtain b h l reply where a: "svc_submit P sv subject j req w = (Inr reply, w\<lparr>ow_log := (ow_log w)\<lparr>ss_log := l, ss_ticks := Suc (Suc ?n),
       ss_pending := waiting_jobs (t 1) (ss_pending (ow_log w)) @ [(j, \<lparr>wt_subject = subject, wt_wire = b, wt_handoff = h, wt_trace_id = job_trace P b, wt_decision_expires_at = 0\<rparr>)]\<rparr>\<rparr>)"
    "has_room P (Suc (Suc (Suc (Suc 0)))) l" "recordable P h b" "validate_pending P (PBytes b) subject j ?pol (Verifier (gw_verifier (or_gateway ?oc))) (t 0) = Inr h"
    "h_issued_at h = t 0" "h_payload h = PDict [(lit ''text'', PStr s)]" "issue P (PDict req) subject j ?pol (or_signer ?oc) (t 0) = Inr b"
    by (rule pending_submit_succeeds[OF assms(1,2,4,5) fits(1-4) j(1) fits(7,8) ticks(1,2) five free(4)])
  let ?wt = "\<lparr>wt_subject = subject, wt_wire = b, wt_handoff = h, wt_trace_id = job_trace P b, wt_decision_expires_at = 0\<rparr>"
  let ?w1 = "w\<lparr>ow_log := (ow_log w)\<lparr>ss_log := l, ss_ticks := Suc (Suc ?n), ss_pending := waiting_jobs (t 1) (ss_pending (ow_log w)) @ [(j, ?wt)]\<rparr>\<rparr>"
  from validate_pending_sound[OF a(4)] rf have hf: "handoff_facts ?pol g j (t 0) h" by auto
  then have x: "h_expires_at h = t 0 + p_handoff_ttl_seconds ?pol" "h_user_id h = g_user_id g" using a(5) by (auto simp: handoff_facts_def)
  have later: "validate_pending P (PBytes b) subject j ?pol v t' = Inr h" if "t 0 \<le> t'" "t' \<le> t 5" "as_verifier v = as_verifier (Verifier (gw_verifier (or_gateway ?oc)))" for t' v
    using revalidated_later[where pending = True, of P "PBytes b" subject j ?pol _ "t 0" h t' v] a(4) that clk(3) x(1) assms(4) rf j(2) by auto
  have ver: "sv_handoff_verifier sv = gw_verifier (or_gateway ?oc)" using assms(1) by (simp add: wired_def)
  have bound: "h_expires_at h \<le> MAX_OCCURRED_AT" "h_expires_at h \<le> ORCH_MAX_OCCURRED_AT" "1 \<le> t 0"
    using x(1) rf by (auto simp: ORCH_MAX_OCCURRED_AT_def MAX_OCCURRED_AT_def)
  have w1: "ss_ticks (ow_log ?w1) = Suc (Suc ?n)" "map_of (ss_pending (ow_log ?w1)) j = Some ?wt" "waits P subject h b ?wt" "has_room P (Suc (Suc (Suc (Suc 0)))) (ss_log (ow_log ?w1))"
    "wt_decision_expires_at ?wt \<le> t 2" "gw_approvals (ow_gateway ?w1) (sha256 P token) = None" using a(2) bound up tok(4) added_job[OF free(4)] by (simp_all add: waits_def)
  have v3: "validate_pending P (PBytes b) subject j ?pol (Verifier (sv_handoff_verifier sv)) (t 3) = Inr h" by (rule later) (use up ver in auto)
  obtain sc ag s' l2 where c: "create_scope P (PBytes b) subject j ?pol (Verifier (sv_handoff_verifier sv)) (t 3) = Inr sc"
    "approval_grant_op P token sc (t 3) ttl False (gw_approvals (ow_gateway ?w1)) = (Inr ag, s')" "ag_expires_at ag = min (t 3 + ttl) (h_expires_at h)"
    "svc_approve P sv token j approver ttl ?w1 = (Inr token, ?w1\<lparr>ow_gateway := (ow_gateway ?w1)\<lparr>gw_approvals := s'\<rparr>,
       ow_log := (ow_log ?w1)\<lparr>ss_log := l2, ss_ticks := Suc (Suc (ss_ticks (ow_log ?w1))),
         ss_pending := set_job j (?wt\<lparr>wt_decision_expires_at := min (t 2 + ttl) (h_expires_at h)\<rparr>) (ss_pending (ow_log ?w1))\<rparr>\<rparr>)"
    "has_room P (Suc (Suc (Suc 0))) l2"
    by (rule approve_succeeds[OF assms(1,2,4,5) _ _ _ j(2) w1(2,3) a(3) v3 who(1) _ who(3,4) _ _ w1(5) _ bound(1) tok(1-3) w1(6,4)])
      (use rf who(2) x ticks up bound in auto)
  let ?wt2 = "?wt\<lparr>wt_decision_expires_at := min (t 2 + ttl) (h_expires_at h)\<rparr>"
  obtain w2 where ap: "svc_approve P sv token j approver ttl ?w1 = (Inr token, w2)" and w2: "ss_ticks (ow_log w2) = Suc (Suc (Suc (Suc ?n)))"
    "map_of (ss_pending (ow_log w2)) j = Some ?wt2" "has_room P (Suc (Suc (Suc 0))) (ss_log (ow_log w2))" "gw_approvals (ow_gateway w2) = s'"
    "ow_ledger w2 = ow_ledger w" "ss_acceptances (ow_log w2) = ss_acceptances (ow_log w)"
    using c(4,5) decided_job[OF w1(2)] by simp
  have wt2: "waits P subject h b ?wt2" by (simp add: waits_def)
  have gr: "create_scope P (PBytes b) subject j ?pol (Verifier (gw_verifier (or_gateway ?oc))) (t 3) = Inr sc"
    "approval_grant_op P token sc (t 3) ttl False (gw_approvals (ow_gateway w)) = (Inr ag, gw_approvals (ow_gateway w2))"
    using c(1,2) ver w2(4) by simp_all
  have v4: "validate_pending P (PBytes b) subject j ?pol (Verifier (gw_verifier (or_gateway ?oc))) (t 4) = Inr h" by (rule later) (use up in auto)
  have ep: "route ?oc subject ?pol (t 4) = Inr ep" "wk_tool (we_runner ep) \<in> set (g_tools g)" "1 \<le> t 4" "t 4 \<le> MAX_PRODUCED_AT"
    using fits(3) rf up clk(3) x(1) bound by (auto simp: route_eq_Inr ORCH_MAX_OCCURRED_AT_def MAX_PRODUCED_AT_def)
  from validate_pending_sound[OF v4] rf have hf4: "handoff_facts ?pol g j (t 4) h" "payload_facts P h" "handoff_to_bytes h = Inr b" by auto
  obtain x' where x': "execute_admitted P (we_runner ep) (t 4) h (t 4) = Inr x'" "x' \<noteq> []"
    using work_answers[OF work(1) hf4(1,2) a(6) _ _ hf4(3) assms(4,5) _ _ ep(2-4)] work(2) rf x(1) a(5) up by (auto simp: policy_text_ok_def)
  have gv: "valid_policy ?pol" "grant_for ?pol subject = Inr g" "valid_grant g" using rf by auto
  have lim: "t 4 < ag_expires_at ag" "t 5 < h_expires_at h" using c(3) clk(3,4) x(1) up(5) by auto
  have tk2: "sv_clock sv (ss_ticks (ow_log w2)) = t 4" "sv_clock sv (Suc (ss_ticks (ow_log w2))) = t 5" unfolding w2(1) by (rule ticks)+
  have free2: "\<not> local_is_burned j (ow_ledger w2)" "length (ow_ledger w2) < MAX_JOBS"
    "sha256_hex P b \<notin> set (ss_acceptances (ow_log w2))" "length (ss_acceptances (ow_log w2)) < MAX_ACCEPTED"
    using free(1,2,6) free(5)[OF a(7)] w2(5,6) by simp_all
  have "\<exists>a es w3. svc_complete P sv subject j token w2 = (Inr (job_reply a), w3) \<and> has_room P 0 (ss_log (ow_log w3))
     \<and> ac_handoff_sha256 a = sha256_hex P b \<and> events_of (ow_log w3) = events_of (ow_log w2) @ es
     \<and> map ev_action es = map lit [''HANDOFF_ADMITTED'', ''EXECUTION_DISPATCHED'', ''RESULT_ACCEPTED'']"
    by (rule complete_succeeds[OF assms(1-5) gv fits(2,5,6) w2(2) wt2 a(3) fits(4) v4 gr up(3) lim(1) tk2 up(5) lim(2) bound(2) ep(1) x' free2(1,2) w2(3) free2(3,4)])
  then obtain ac es w3 where r3: "svc_complete P sv subject j token w2 = (Inr (job_reply ac), w3)" "local_ok (ss_log (ow_log w3))"
    "events_of (ow_log w3) = events_of (ow_log w2) @ es" "map ev_action es = map lit [''HANDOFF_ADMITTED'', ''EXECUTION_DISPATCHED'', ''RESULT_ACCEPTED'']"
    unfolding has_room_def by iprover
  with a(1) ap show ?thesis by iprover
qed

section \<open>A subject that needs approval, for the witnesses\<close>

lemma sample_pending_submission:
  "request_fits (sv_policy sample_service) (lit ''bob'') sample_pending_grant (PDict sample_payload) (lit ''hello'') (lit ''job-1'') 200"
  "g_requires_approval sample_pending_grant"
  "route (sv_orchestrator sample_service) (lit ''bob'') (sv_policy sample_service) 200 = Inr sample_endpoint"
  "is_ascii (lit ''job-1'')" "is_ascii (g_worker_agent_id sample_pending_grant)" "\<not> list_ex is_surrogate (g_user_id sample_pending_grant)"
  "\<not> list_ex is_surrogate (p_version (sv_policy sample_service))"
  "work_fits (we_runner sample_endpoint) (sv_policy sample_service) sample_pending_grant (lit ''hello'') (lit ''job-1'')"
proof -
  show "request_fits (sv_policy sample_service) (lit ''bob'') sample_pending_grant (PDict sample_payload) (lit ''hello'') (lit ''job-1'') 200"
    using sample_chars(2) sample_job_fits[unfolded job_fits_def request_fits_def] sample_grant_for
    by (simp add: request_fits_def sample_payload_def sample_request_def)
  show "route (sv_orchestrator sample_service) (lit ''bob'') (sv_policy sample_service) 200 = Inr sample_endpoint"
    by (simp add: route_eq_Inr ORCH_MAX_OCCURRED_AT_def)
      (simp add: sample_orch_def sample_policy_def sample_pending_grant_def sample_grant_def sample_runner_def)
  show "work_fits (we_runner sample_endpoint) (sv_policy sample_service) sample_pending_grant (lit ''hello'') (lit ''job-1'')"
    using sample_work_fits by (simp add: work_fits_def sample_pending_grant_def)
qed (use sample_submission(3-6) in \<open>simp_all add: sample_pending_grant_def\<close>)

section \<open>Properties\<close>

text \<open>C4. An approval-bound submission never reaches a worker: whatever it ends in, the job ledger, the
  approvals and the permits are as before. When it returns, the answer is \<open>PENDING_APPROVAL\<close> with the
  digest of the wire, one event says so, and the job waits under its id for its subject, with the wire that
  event names.\<close>

theorem approval_bound_waits:
  fixes w :: local_world
  assumes "wired P key sv" "sv_recorder sv = local_recorder P audit" "local_ok (ss_log (ow_log w))"
    and "grant_for (sv_policy sv) subject = Inr g" "g_requires_approval g" "svc_submit P sv subject j req w = (r, w')"
  shows "ow_ledger w' = ow_ledger w \<and> ow_gateway w' = ow_gateway w
     \<and> (\<forall>reply. r = Inr reply \<longrightarrow>
          (\<exists>wt e. map_of (ss_pending (ow_log w')) j = Some wt \<and> wt_subject wt = subject \<and> handoff_to_bytes (wt_handoff wt) = Inr (wt_wire wt)
             \<and> reply = PDict [(lit ''status'', PStr PENDING), (lit ''handoff_sha256'', PStr (sha256_hex P (wt_wire wt)))]
             \<and> map cr_event (lg_chain (ss_log (ow_log w'))) = map cr_event (lg_chain (ss_log (ow_log w))) @ [e]
             \<and> ev_action e = lit ''HANDOFF_ISSUED'' \<and> ev_reason_code e = lit ''PENDING_APPROVAL'' \<and> ev_handoff_sha256 e = sha256_hex P (wt_wire wt)))"
proof (intro conjI allI impI)
  show "ow_ledger w' = ow_ledger w" "ow_gateway w' = ow_gateway w"
    using keepsD[OF pending_submit_keeps[OF assms(1,4,5), of w] assms(6)] by auto
next
  fix reply assume r: "r = Inr reply"
  from assms(6)[unfolded pending_submit[OF assms(1,4,5)] r] obtain b h trace dd w1 t w2 e w3 w4 digest where
    i: "issue_job P sv subject j req w = (Inr (b, h, trace, dd), w1)" and n: "svc_now sv w1 = (Inr t, w2)" and e: "issued_event P sv h trace subject dd = Inr e"
    and l: "on_log (on_audit (log_append (sv_recorder sv) e)) w2 = (Inr (), w3)"
    and q: "on_log (on_pending (pending_add j \<lparr>wt_subject = subject, wt_wire = b, wt_handoff = h, wt_trace_id = trace, wt_decision_expires_at = 0\<rparr> t False)) w3 = (Inr (), w')"
    and rep: "handoff_digest P h = Inr digest" "reply = PDict [(lit ''status'', PStr PENDING), (lit ''handoff_sha256'', PStr digest)]"
    by (auto simp: abind_eq_Inr alift_eq areturn_eq split: prod.splits)
  note t = issued_together[OF i] and p = issued_pending[OF i assms(4,5)]
  have "digest = sha256_hex P b" using rep(1) t(1) by (auto simp: handoff_digest_eq_Inr)
  moreover from l n assms(2) have "on_audit (log_append (local_recorder P audit) e) (ow_log w2) = (Inr (), ow_log w3)" by (auto simp: azoom_eq)
  from append_logs[OF this] n t(3) assms(3) have "logs e (ow_log w2) (ow_log w3)" by (auto simp: svc_now_def)
  moreover have "ss_log (ow_log w2) = ss_log (ow_log w)" using n t(3) by (auto simp: svc_now_def)
  moreover have "ss_log (ow_log w') = ss_log (ow_log w3)" using q by (auto simp: azoom_eq)
  moreover have "map_of (ss_pending (ow_log w')) j = Some \<lparr>wt_subject = subject, wt_wire = b, wt_handoff = h, wt_trace_id = trace, wt_decision_expires_at = 0\<rparr>"
    using q by (auto simp: azoom_eq pending_add_def Let_def map_add_def split: if_splits)
  moreover have "ev_action e = lit ''HANDOFF_ISSUED''" "ev_reason_code e = lit ''PENDING_APPROVAL''" "ev_handoff_sha256 e = sha256_hex P b"
    using e t p unfolding issued_event_def by (elim recorded_event_facts; simp)+
  ultimately show "\<exists>wt e. map_of (ss_pending (ow_log w')) j = Some wt \<and> wt_subject wt = subject \<and> handoff_to_bytes (wt_handoff wt) = Inr (wt_wire wt)
             \<and> reply = PDict [(lit ''status'', PStr PENDING), (lit ''handoff_sha256'', PStr (sha256_hex P (wt_wire wt)))]
             \<and> map cr_event (lg_chain (ss_log (ow_log w'))) = map cr_event (lg_chain (ss_log (ow_log w))) @ [e]
             \<and> ev_action e = lit ''HANDOFF_ISSUED'' \<and> ev_reason_code e = lit ''PENDING_APPROVAL'' \<and> ev_handoff_sha256 e = sha256_hex P (wt_wire wt)"
    using rep(2) t(1) by (auto simp: logs_def)
qed

theorem approval_bound_waits_witness:
  "\<exists>reply w'. svc_submit sample_platform sample_service (lit ''bob'') (lit ''job-1'') sample_payload local_state = (Inr reply, w')
     \<and> ow_ledger w' = [] \<and> length (lg_chain (ss_log (ow_log w'))) = 1 \<and> \<not> map_of (ss_pending (ow_log w')) (lit ''job-1'') = None"
proof -
  note s = sample_pending_submission
  have j: "\<not> list_ex is_surrogate (lit ''job-1'')" by (simp add: lit_def is_surrogate_def)
  have r: "has_room sample_platform (Suc 0) (ss_log (ow_log local_state))" "has_place 200 (lit ''job-1'') (ss_pending (ow_log local_state))"
    by (simp_all add: MAX_COUNT_def) (simp add: local_state_def has_place_def waiting_jobs_def MAX_PENDING_def)
  obtain reply w' where w: "svc_submit sample_platform sample_service (lit ''bob'') (lit ''job-1'') sample_payload local_state = (Inr reply, w')"
    by (rule pending_submit_succeeds[OF sample_wired sample_service_facts(2) sample_platform_ok s(1-3) sample_job_id j s(6,7) sample_service_facts(3) sample_service_facts(3) r])
  have "local_ok (ss_log (ow_log local_state))" "grant_for (sv_policy sample_service) (lit ''bob'') = Inr sample_pending_grant"
    using s(1) r(1) by (simp_all add: request_fits_def has_room_def)
  from approval_bound_waits[OF sample_wired sample_service_facts(2) this s(2) w]
  obtain wt e where e: "map_of (ss_pending (ow_log w')) (lit ''job-1'') = Some wt" "ow_ledger w' = ow_ledger local_state"
    "map cr_event (lg_chain (ss_log (ow_log w'))) = map cr_event (lg_chain (ss_log (ow_log local_state))) @ [e]" by blast
  from arg_cong[OF e(3), of length] have "length (lg_chain (ss_log (ow_log w'))) = 1" by (simp add: local_log_def)
  with w e show ?thesis by (simp add: local_state_def)
qed

text \<open>C2. An approved job runs to its end. When a subject whose grant needs approval submits a text that fits
  it, another configured person approves the job, the clock does not run back and stays below the expiries
  of the handoff and of the approval, there is room in the ledgers and on the log, and of the jobs that still
  wait none has this id and fewer than 1000 do, then submitting, approving and completing all return: the approval gives back the token it was made with, that token
  completes the job, and completing it records the admission, the dispatch and the accepted result.\<close>

theorem approved_job_completes:
  fixes w :: local_world
  assumes "wired P key sv" "sv_recorder sv = local_recorder P audit" "acceptor_matches P (sv_verifier sv) (sv_orchestrator sv)" "hash_ok P" "ed25519_ok P"
    and "request_fits (sv_policy sv) subject g (PDict req) s j (t 0)" "g_requires_approval g" "route (sv_orchestrator sv) subject (sv_policy sv) (t 0) = Inr ep"
    and "check_job_id j = Inr j" "is_ascii j" "is_ascii (g_worker_agent_id g)" "\<not> list_ex is_surrogate (g_user_id g)" "\<not> list_ex is_surrogate (p_version (sv_policy sv))"
    and "approver_user_id (sv_approver_policy sv) approver = Inr u" "u \<noteq> g_user_id g" "approver \<noteq> []" "\<not> list_ex is_surrogate approver"
    and "\<And>i. sv_clock sv (ss_ticks (ow_log w) + i) = t i" "mono t" "t 5 < t 0 + p_handoff_ttl_seconds (sv_policy sv)" "t 4 < t 3 + ttl"
    and "work_fits (we_runner ep) (sv_policy sv) g s j"
    and "wr_elapsed_ns (wk_work (we_runner ep) (PDict [(lit ''text'', PStr s)])) < (t 0 + p_handoff_ttl_seconds (sv_policy sv) - t 4) * 10 ^ 9"
    and "1 \<le> ttl" "ttl \<le> 600" "TOKEN_BYTES \<le> length token" "gw_approvals (ow_gateway w) (sha256 P token) = None"
    and "\<not> local_is_burned j (ow_ledger w)" "length (ow_ledger w) < MAX_JOBS" "has_room P 5 (ss_log (ow_log w))" "has_place (t 1) j (ss_pending (ow_log w))"
    and "\<And>b. issue P (PDict req) subject j (sv_policy sv) (or_signer (sv_orchestrator sv)) (t 0) = Inr b \<Longrightarrow> sha256_hex P b \<notin> set (ss_acceptances (ow_log w))"
    and "length (ss_acceptances (ow_log w)) < MAX_ACCEPTED"
  shows "\<exists>r w1 w2 a es w3. svc_submit P sv subject j req w = (Inr r, w1) \<and> svc_approve P sv token j approver ttl w1 = (Inr token, w2)
     \<and> svc_complete P sv subject j token w2 = (Inr (job_reply a), w3) \<and> local_ok (ss_log (ow_log w3))
     \<and> events_of (ow_log w3) = events_of (ow_log w2) @ es
     \<and> map ev_action es = map lit [''HANDOFF_ADMITTED'', ''EXECUTION_DISPATCHED'', ''RESULT_ACCEPTED'']"
  by (rule flow_completes[OF assms])

theorem approved_job_completes_witness:
  "\<exists>r w1 w2 a w3. svc_submit sample_platform sample_service (lit ''bob'') (lit ''job-1'') sample_payload local_state = (Inr r, w1)
     \<and> svc_approve sample_platform sample_service (replicate 32 9) (lit ''job-1'') (lit ''carol'') 60 w1 = (Inr (replicate 32 9), w2)
     \<and> svc_complete sample_platform sample_service (lit ''bob'') (lit ''job-1'') (replicate 32 9) w2 = (Inr (job_reply a), w3)"
proof -
  note s = sample_pending_submission
  let ?t = "\<lambda>n. 200 :: int"
  have "\<exists>r w1 w2 a es w3. svc_submit sample_platform sample_service (lit ''bob'') (lit ''job-1'') sample_payload local_state = (Inr r, w1)
     \<and> svc_approve sample_platform sample_service (replicate 32 9) (lit ''job-1'') (lit ''carol'') 60 w1 = (Inr (replicate 32 9), w2)
     \<and> svc_complete sample_platform sample_service (lit ''bob'') (lit ''job-1'') (replicate 32 9) w2 = (Inr (job_reply a), w3) \<and> local_ok (ss_log (ow_log w3))
     \<and> events_of (ow_log w3) = events_of (ow_log w2) @ es
     \<and> map ev_action es = map lit [''HANDOFF_ADMITTED'', ''EXECUTION_DISPATCHED'', ''RESULT_ACCEPTED'']"
  proof (rule approved_job_completes[where t = ?t and u = "lit ''user-9''",
        OF sample_wired sample_service_facts(2) sample_service_matches sample_platform_ok s(1-3) sample_job_id s(4-7)])
    show "work_fits (we_runner sample_endpoint) (sv_policy sample_service) sample_pending_grant (lit ''hello'') (lit ''job-1'')" by (rule s(8))
    show "approver_user_id (sv_approver_policy sample_service) (lit ''carol'') = Inr (lit ''user-9'')"
      by (simp add: approver_user_id_def sample_service_def)
    show "lit ''user-9'' \<noteq> g_user_id sample_pending_grant" by (simp add: sample_pending_grant_def sample_grant_def lit_def)
  qed (simp_all add: mono_def lit_def is_surrogate_def MAX_COUNT_def MAX_JOBS_def MAX_ACCEPTED_def local_is_burned_def sample_policy_def
      local_state_def sample_runner_def sample_work_def TOKEN_BYTES_def has_place_def waiting_jobs_def MAX_PENDING_def)
  then show ?thesis by iprover
qed

end
