(* ===== verification/AnchorWire.thy ===== *)
theory AnchorWire
  imports PyLoads AuditChain
begin

text \<open>
  The messages of \<open>geniusnew/anchor_process.py\<close>: one canonical JSON object per frame, a frame being four
  bytes of length and the object; the requests a writer makes and what the anchor's process makes of them,
  over the anchor of \<open>AuditChain\<close>. A dict is the list of its items.

  The texts on which CPython's \<open>json\<close> raises \<open>RecursionError\<close> are the argument \<open>deep\<close>: it says of a text whether
  \<open>json.loads\<close> raises on it, or \<open>json.dumps\<close> on the value it reads as. \<open>nesting_ok\<close> says that both are beyond sixteen
  levels of nesting. \<open>_decode\<close> catches the first and lets the second escape.
\<close>

section \<open>Constants\<close>

definition MAX_REQUEST_BYTES :: nat where "MAX_REQUEST_BYTES = 64 * 1024 * 1024"
definition MAX_DELTA_REQUEST_BYTES :: nat where "MAX_DELTA_REQUEST_BYTES = 8 * 1024 * 1024"
definition MAX_REPLY_BYTES :: nat where "MAX_REPLY_BYTES = 4096"
definition MAX_REFUSAL_CHARS :: nat where "MAX_REFUSAL_CHARS = 512"
definition MAX_STATE_BYTES :: nat where "MAX_STATE_BYTES = 16 * 1024 * 1024"
definition NONCE_BYTES :: nat where "NONCE_BYTES = 32"

definition HEAD_KEYS :: "string list" where "HEAD_KEYS = [''count'', ''head_hash'', ''signature'', ''version'']"
definition RECORD_KEYS :: "string list" where "RECORD_KEYS = [''event'', ''index'', ''previous_hash'', ''record_hash'']"
definition REQUEST_KEYS :: "string list" where "REQUEST_KEYS = [''nonce'', ''request'']"
definition REPLY_KEYS :: "string list" where "REPLY_KEYS = [''nonce'', ''reply'', ''signature'']"
definition COMMIT2_KEYS :: "string list" where "COMMIT2_KEYS = [''from_count'', ''head'', ''kind'', ''records'']"

definition REPLY_LABEL :: bytes where "REPLY_LABEL = ascii_bytes (lit ''geniusnew/anchor-reply/ed25519/v1'' @ [10])"

type_synonym message = "(pystr \<times> pyval) list"

text \<open>\<open>set(value) == KEYS\<close> and \<open>value.get(key)\<close>.\<close>

definition has_keys :: "message \<Rightarrow> string list \<Rightarrow> bool" where
  "has_keys m keys \<longleftrightarrow> set (map fst m) = set (map lit keys)"

definition field_is :: "message \<Rightarrow> string \<Rightarrow> pystr \<Rightarrow> bool" where
  "field_is m key s \<longleftrightarrow> map_of m (lit key) = Some (PStr s)"

text \<open>A path object counts as its string. A path is absolute when it starts with a slash.\<close>

definition absolute_path :: "pyval \<Rightarrow> string \<Rightarrow> pystr result" where
  "absolute_path v noun =
     (case v of
        PStr s \<Rightarrow> if s \<noteq> [] \<and> hd s = 47 then Inr s else fail (noun @ '' must be an absolute path'')
      | _ \<Rightarrow> fail (noun @ '' must be an absolute path''))"

section \<open>Frames\<close>

datatype nesting = Shallow | DeepRead | DeepPrint

definition recursion_error :: exc where "recursion_error = PyError ''RecursionError''"

definition anchor_decode :: "platform \<Rightarrow> (pystr \<Rightarrow> nesting) \<Rightarrow> bytes \<Rightarrow> string \<Rightarrow> message result" where
  "anchor_decode P deep data noun =
     (let loaded = (case ascii_decode data of
                      None \<Rightarrow> None
                    | Some s \<Rightarrow> if deep s = DeepRead then None else
                        (case json_loads (plain_hooks_json P) s of Inr v \<Rightarrow> Some v | Inl _ \<Rightarrow> None)) in
      case loaded of
        Some (PDict d) \<Rightarrow>
          if map_option deep (ascii_decode data) = Some DeepPrint then Inl recursion_error else
          rbind (canonical (PDict d)) (\<lambda>again.
          if again \<noteq> data then fail (noun @ '' is not canonical JSON'') else Inr d)
      | _ \<Rightarrow> fail (noun @ '' is not canonical JSON''))"

text \<open>\<open>len(data).to_bytes(4, "big")\<close> and \<open>int.from_bytes(header, "big")\<close>.\<close>

definition big_endian4 :: "nat \<Rightarrow> bytes" where
  "big_endian4 n = [of_nat (n div 2 ^ 24), of_nat (n div 2 ^ 16), of_nat (n div 2 ^ 8), of_nat n]"

definition from_big_endian :: "bytes \<Rightarrow> nat" where
  "from_big_endian bs = foldl (\<lambda>n b. 256 * n + unat b) 0 bs"

definition anchor_frame :: "message \<Rightarrow> nat \<Rightarrow> bytes result" where
  "anchor_frame message limit =
     rbind (canonical (PDict message)) (\<lambda>data.
     if length data > limit then fail ''anchor message is too large''
     else Inr (big_endian4 (length data) @ data))"

section \<open>Requests as the anchor reads them\<close>

definition verifier_from :: "platform \<Rightarrow> message \<Rightarrow> audit_verifier result" where
  "verifier_from P init =
     (if \<not> has_keys init [''kind'', ''public_key''] \<or> \<not> field_is init ''kind'' (lit ''init'')
      then fail ''anchor process expected an init message'' else
      case map_of init (lit ''public_key'') of
        Some (PStr s) \<Rightarrow> audit_verifier_init P (case fromhex s of None \<Rightarrow> [] | Some key \<Rightarrow> key)
      | _ \<Rightarrow> fail ''anchor public_key must be hex'')"

definition head_from :: "pyval \<Rightarrow> raw_head result" where
  "head_from v =
     (case v of
        PDict d \<Rightarrow>
          if \<not> has_keys d HEAD_KEYS then fail ''anchor request carries a malformed head'' else
          rbind (get_item d ''version'') (\<lambda>version.
          rbind (get_item d ''count'') (\<lambda>count.
          rbind (get_item d ''head_hash'') (\<lambda>head_hash.
          rbind (get_item d ''signature'') (\<lambda>signature.
          Inr \<lparr>rh_version = version, rh_count = count, rh_head_hash = head_hash, rh_signature = signature\<rparr>))))
      | _ \<Rightarrow> fail ''anchor request carries a malformed head'')"

definition record_from :: "pyval \<Rightarrow> chain_item result" where
  "record_from v =
     (case v of
        PDict d \<Rightarrow>
          if \<not> has_keys d RECORD_KEYS then fail ''anchor request carries a malformed record'' else
          rbind (get_item d ''index'') (\<lambda>index.
          rbind (rbind (get_item d ''event'') rehydrate_event) (\<lambda>event.
          rbind (get_item d ''previous_hash'') (\<lambda>previous.
          rbind (get_item d ''record_hash'') (\<lambda>hash.
          Inr (Item \<lparr>rr_index = index, rr_event = Some event, rr_previous_hash = previous, rr_record_hash = hash\<rparr>)))))
      | _ \<Rightarrow> fail ''anchor request carries a malformed record'')"

definition records_from :: "message \<Rightarrow> chain_item list result" where
  "records_from m =
     rbind (get_item m ''records'') (\<lambda>v.
     case v of PList vs \<Rightarrow> rmap record_from vs | _ \<Rightarrow> fail ''anchor request records must be a list'')"

definition committed_reply :: "nat \<times> pystr \<Rightarrow> message" where
  "committed_reply state =
     [(lit ''count'', PInt (int (fst state))), (lit ''head_hash'', PStr (snd state)), (lit ''kind'', PStr (lit ''ok''))]"

definition handle_commit2 :: "platform \<Rightarrow> audit_verifier \<Rightarrow> message \<Rightarrow> (anchor, message) action" where
  "handle_commit2 P verifier m =
     abind (alift (canonical (PDict m))) (\<lambda>data.
     abind (if length data > MAX_DELTA_REQUEST_BYTES then araise (ContractError ''anchor delta commit is too large'') else areturn ()) (\<lambda>_.
     abind (alift (rbind (get_item m ''head'') head_from)) (\<lambda>head.
     abind (alift (rbind (get_item m ''from_count'') (\<lambda>v. py_count v ''from_count''))) (\<lambda>from_count.
     abind (alift (records_from m)) (\<lambda>records.
     abind delta_base (\<lambda>base.
     if from_count \<noteq> fst base then araise (ContractError ''delta does not start at the anchor's committed count'') else
     abind (commit_delta P (Some head) (Yields records None) (ByVerifier verifier)) (\<lambda>state.
     areturn (committed_reply state))))))))"

definition handle_commit :: "platform \<Rightarrow> audit_verifier \<Rightarrow> message \<Rightarrow> (anchor, message) action" where
  "handle_commit P verifier m =
     abind (alift (rbind (get_item m ''head'') head_from)) (\<lambda>head.
     abind (alift (records_from m)) (\<lambda>records.
     abind (commit P (Some head) (Yields records None) (ByVerifier verifier)) (\<lambda>state.
     areturn (committed_reply state))))"

definition anchor_handle :: "platform \<Rightarrow> audit_verifier \<Rightarrow> message \<Rightarrow> (anchor, message) action" where
  "anchor_handle P verifier m =
     (if field_is m ''kind'' (lit ''committed'') \<and> has_keys m [''kind'']
      then abind delta_base (\<lambda>state. areturn (committed_reply state)) else
      if field_is m ''kind'' (lit ''commit2'') \<and> has_keys m COMMIT2_KEYS then handle_commit2 P verifier m else
      if \<not> field_is m ''kind'' (lit ''commit'') \<or> \<not> has_keys m [''head'', ''kind'', ''records'']
      then araise (ContractError ''anchor request is not recognised'') else
      handle_commit P verifier m)"

section \<open>Requests as the writer makes them\<close>

definition head_message :: "raw_head \<Rightarrow> message" where
  "head_message h =
     [(lit ''count'', rh_count h), (lit ''head_hash'', rh_head_hash h), (lit ''signature'', rh_signature h), (lit ''version'', rh_version h)]"

text \<open>\<open>record.to_dict()\<close> of a record that carries an event; \<open>None\<close> for anything else.\<close>

definition item_message :: "chain_item \<Rightarrow> message option" where
  "item_message v =
     (case v of
        Item r \<Rightarrow> map_option (\<lambda>e. [(lit ''event'', PDict (event_dict e)), (lit ''index'', rr_index r),
          (lit ''previous_hash'', rr_previous_hash r), (lit ''record_hash'', rr_record_hash r)]) (rr_event r)
      | NotRecord \<Rightarrow> None)"

definition item_messages :: "chain_item list \<Rightarrow> pyval list result" where
  "item_messages chain =
     (case opt_map item_message chain of
        None \<Rightarrow> fail ''records must be AuditRecord values carrying an AuditEvent''
      | Some ms \<Rightarrow> Inr (map PDict ms))"

definition commit_request :: "raw_head option \<Rightarrow> chain_items \<Rightarrow> message result" where
  "commit_request head records =
     (case head of
        None \<Rightarrow> fail ''head is invalid''
      | Some h \<Rightarrow>
          rbind (py_count (rh_count h) ''head.count'') (\<lambda>n.
          rbind (bounded_chain records (n + 1)) (\<lambda>chain.
          rbind (item_messages chain) (\<lambda>vs.
          Inr [(lit ''head'', PDict (head_message h)), (lit ''kind'', PStr (lit ''commit'')), (lit ''records'', PList vs)]))))"

definition commit2_request :: "raw_head option \<Rightarrow> chain_items \<Rightarrow> message result" where
  "commit2_request head records =
     (case head of
        None \<Rightarrow> fail ''head is invalid''
      | Some h \<Rightarrow>
          rbind (py_count (rh_count h) ''head.count'') (\<lambda>n.
          rbind (bounded_chain records (MAX_DELTA_RECORDS + 1)) (\<lambda>chain.
          if length chain > MAX_DELTA_RECORDS then fail ''delta holds more than 8192 records'' else
          rbind (item_messages chain) (\<lambda>vs.
          rbind (py_count (PInt (int n - int (length chain))) ''from_count'') (\<lambda>from_count.
          let request = [(lit ''from_count'', PInt (int from_count)), (lit ''head'', PDict (head_message h)),
                         (lit ''kind'', PStr (lit ''commit2'')), (lit ''records'', PList vs)] in
          rbind (canonical (PDict request)) (\<lambda>data.
          if length data > MAX_DELTA_REQUEST_BYTES then fail ''delta commit exceeds the delta request bound''
          else Inr request))))))"

definition head_line :: "raw_head \<Rightarrow> bytes result" where
  "head_line h = rbind (canonical (PDict (head_message h))) (\<lambda>b. Inr (b @ [10]))"

definition check_commit_size :: "raw_head option \<Rightarrow> chain_items \<Rightarrow> unit result" where
  "check_commit_size head records =
     rbind (commit_request head records) (\<lambda>request.
     rbind (anchor_frame [(lit ''nonce'', PStr (replicate (NONCE_BYTES * 2) 48)), (lit ''request'', PDict request)] MAX_REQUEST_BYTES) (\<lambda>_.
     case head of
       None \<Rightarrow> fail ''head is invalid''
     | Some h \<Rightarrow>
         rbind (py_count (rh_count h) ''head.count'') (\<lambda>n.
         rbind (head_line h) (\<lambda>line.
         if n * length line > MAX_STATE_BYTES then fail ''anchor state would exceed its restart bound'' else Inr ()))))"

definition committed_request :: message where
  "committed_request = [(lit ''kind'', PStr (lit ''committed''))]"

section \<open>Replies\<close>

definition anchor_refusal :: "exc \<Rightarrow> message" where
  "anchor_refusal e = [(lit ''kind'', PStr (lit ''refused'')), (lit ''message'', PStr (take MAX_REFUSAL_CHARS (lit (exc_message e))))]"

text \<open>What the writer reads out of a reply. The text of a refusal is kept as characters below 256; the
  anchor's own texts are ASCII.\<close>

definition string_field :: "message \<Rightarrow> string \<Rightarrow> pystr option" where
  "string_field m key = (case map_of m (lit key) of Some (PStr s) \<Rightarrow> Some s | _ \<Rightarrow> None)"

definition state_of :: "message \<Rightarrow> (nat \<times> pystr) result" where
  "state_of reply =
     (case (if field_is reply ''kind'' (lit ''refused'') \<and> has_keys reply [''kind'', ''message''] then string_field reply ''message'' else None) of
        Some s \<Rightarrow> fail (map char_of s)
      | None \<Rightarrow>
          if \<not> field_is reply ''kind'' (lit ''ok'') \<or> \<not> has_keys reply [''count'', ''head_hash'', ''kind'']
          then fail ''anchor process sent an invalid reply'' else
          rbind (rbind (get_item reply ''count'') (\<lambda>v. py_count v ''anchor count'')) (\<lambda>n.
          rbind (rbind (get_item reply ''head_hash'') (\<lambda>v. py_digest v ''anchor head_hash'')) (\<lambda>h.
          Inr (n, h))))"

section \<open>Frames survive\<close>

definition nesting_ok :: "(pystr \<Rightarrow> nesting) \<Rightarrow> bool" where
  "nesting_ok deep \<longleftrightarrow> (\<forall>v t. json_depth v \<le> 16 \<and> dumps v = Some t \<longrightarrow> deep t = Shallow)"

text \<open>What a message reads back as: the same items, every value as it reads back, the keys in order.\<close>

definition norm_message :: "message \<Rightarrow> message" where
  "norm_message m = sort_key fst (map (\<lambda>(k, v). (k, json_norm v)) m)"

lemma json_norm_message: "json_norm (PDict m) = PDict (norm_message m)"
  by (simp add: norm_message_def)

lemma norm_message_lookup: "distinct (map fst m) \<Longrightarrow> map_of (norm_message m) k = map_option json_norm (map_of m k)"
  using map_of_json_norm[OF json_norm_message] by blast

lemma norm_message_keys [simp]: "set (map fst (norm_message m)) = set (map fst m)"
  by (force simp: norm_message_def)

lemma norm_message_distinct [simp]: "distinct (map fst (norm_message m)) \<longleftrightarrow> distinct (map fst m)"
  by (simp add: norm_message_def comp_def case_prod_unfold)

lemma json_norm_eq_string [simp]: "json_norm v = PStr s \<longleftrightarrow> v = PStr s"
  by (cases v) auto

lemma norm_fields:
  assumes "distinct (map fst m)"
  shows "has_keys (norm_message m) ks = has_keys m ks" "field_is (norm_message m) k s = field_is m k s"
    "string_field (norm_message m) k = string_field m k"
    "get_item (norm_message m) k = rbind (get_item m k) (\<lambda>v. Inr (json_norm v))"
proof -
  have s: "(case json_norm v of PStr s \<Rightarrow> Some s | _ \<Rightarrow> None) = (case v of PStr s \<Rightarrow> Some s | _ \<Rightarrow> None)" for v by (cases v) auto
  show "has_keys (norm_message m) ks = has_keys m ks" unfolding has_keys_def norm_message_keys ..
  show "field_is (norm_message m) k s = field_is m k s" by (auto simp: field_is_def norm_message_lookup[OF assms])
  show "string_field (norm_message m) k = string_field m k"
    by (simp add: string_field_def norm_message_lookup[OF assms] s split: option.splits)
  show "get_item (norm_message m) k = rbind (get_item m k) (\<lambda>v. Inr (json_norm v))"
    by (simp add: get_item_def norm_message_lookup[OF assms] split: option.splits)
qed

lemma decode_canonical:
  assumes "canonical (PDict m) = Inr b" "json_ok (PDict m)" "json_depth (PDict m) \<le> 16" "nesting_ok deep"
  shows "anchor_decode P deep b noun = Inr (norm_message m)"
proof -
  obtain t where t: "dumps (PDict m) = Some t" "b = ascii_bytes t" using assms(1) by (auto simp: canonical_eq_Inr)
  have a: "is_ascii t" by (rule dumps_ascii[OF t(1) assms(2)])
  have c: "canonical (PDict (norm_message m)) = Inr b"
    using dumps_json_norm[OF t(1)] t(2) by (simp only: canonical_def option.case json_norm_message)
  have "deep t = Shallow" using assms(3,4) t(1) unfolding nesting_ok_def by blast
  moreover have "json_loads (plain_hooks_json P) t = Inr (PDict (norm_message m))"
    using json_roundtrip[OF plain_hooks_keep t(1) assms(2)] by (simp only: json_norm_message)
  ultimately show ?thesis using a t(2) c by (simp add: anchor_decode_def Let_def)
qed

lemma anchor_decode_eq_Inr:
  "anchor_decode P deep data noun = Inr d \<Longrightarrow> canonical (PDict d) = Inr data"
  by (auto simp: anchor_decode_def Let_def rbind_eq_Inr split: option.splits pyval.splits if_splits)

lemma unat_of_nat_byte: "unat (of_nat n :: 8 word) = n mod 256"
  by (simp add: unat_of_nat)

lemma big_endian_roundtrip: "n < 2 ^ 32 \<Longrightarrow> from_big_endian (big_endian4 n) = n"
proof -
  assume n: "n < 2 ^ 32"
  then have "n div 2 ^ 24 mod 256 = n div 2 ^ 24" by (intro mod_less) (simp add: less_mult_imp_div_less)
  moreover have "n div 2 ^ 24 = n div 2 ^ 16 div 256" "n div 2 ^ 16 = n div 2 ^ 8 div 256" "n div 2 ^ 8 = n div 256"
    by (simp_all add: div_mult2_eq[symmetric])
  ultimately show ?thesis
    using div_mult_mod_eq[of "n div 2 ^ 16" 256] div_mult_mod_eq[of "n div 2 ^ 8" 256] div_mult_mod_eq[of n 256]
    by (simp add: from_big_endian_def big_endian4_def unat_of_nat_byte)
qed

lemma length_big_endian4 [simp]: "length (big_endian4 n) = 4"
  by (simp add: big_endian4_def)

lemma anchor_frame_eq_Inr:
  "anchor_frame m limit = Inr f \<longleftrightarrow> (\<exists>data. canonical (PDict m) = Inr data \<and> length data \<le> limit \<and> f = big_endian4 (length data) @ data)"
  unfolding anchor_frame_def rbind_eq_Inr if_raise_eq_Inr by auto

section \<open>Requests survive\<close>

text \<open>Heads and records that passed the checks of the chain, as the values they are sent as.\<close>

definition head_text_ok :: "audit_head \<Rightarrow> bool" where
  "head_text_ok h \<longleftrightarrow> text_ok (ah_version h) \<and> text_ok (ah_head_hash h) \<and> text_ok (ah_signature h)"

definition record_ok :: "chain_record \<Rightarrow> bool" where
  "record_ok r \<longleftrightarrow> good_event (cr_event r) \<and> text_ok (cr_previous_hash r) \<and> text_ok (cr_record_hash r)"

lemma json_depth_atoms [simp]: "\<forall>kv \<in> set m. json_depth (snd kv) \<le> n \<Longrightarrow> 0 \<le> n \<Longrightarrow> json_depth (PDict m) \<le> n + 1"
  by auto

lemma json_depth_list: "\<forall>v \<in> set vs. json_depth v \<le> n \<Longrightarrow> 0 \<le> n \<Longrightarrow> json_depth (PList vs) \<le> n + 1"
  by auto

lemma head_message_ok:
  assumes "head_text_ok h"
  shows "json_ok (PDict (head_message (head_raw h)))" "json_depth (PDict (head_message (head_raw h))) \<le> 1"
    "head_from (json_norm (PDict (head_message (head_raw h)))) = Inr (head_raw h)"
proof -
  let ?m = "head_message (head_raw h)"
  have d: "distinct (map fst ?m)" by (simp add: head_message_def)
  show "json_ok (PDict ?m)" using assms by (simp add: head_message_def head_raw_def head_text_ok_def)
  show "json_depth (PDict ?m) \<le> 1" by (simp add: head_message_def head_raw_def)
  show "head_from (json_norm (PDict ?m)) = Inr (head_raw h)"
    unfolding head_from_def json_norm_message pyval.case norm_fields[OF d]
    by (simp add: head_message_def head_raw_def has_keys_def HEAD_KEYS_def get_item_def)
qed

lemma event_dict_depth: "json_depth (PDict (event_dict e)) \<le> 1"
proof -
  have "json_depth (optional_string x) = 0" for x by (cases x) auto
  then show ?thesis by (auto simp: event_dict_def)
qed

lemma rehydrate_norm:
  assumes "good_event e"
  shows "rehydrate_event (json_norm (PDict (event_dict e))) = Inr e"
  unfolding json_norm_message
  by (rule rehydrate_contents)
    (use assms in \<open>simp_all add: good_event_def norm_message_lookup[OF event_dict_distinct] event_dict_norm\<close>)

lemma record_message_ok:
  assumes "record_ok r"
  shows "json_ok (PDict (record_dict r))" "json_depth (PDict (record_dict r)) \<le> 2"
    "record_from (json_norm (PDict (record_dict r))) = Inr (raw_item r)"
proof -
  have d: "distinct (map fst (record_dict r))" by (simp add: record_dict_def)
  have g: "good_event (cr_event r)" and j: "json_ok (PDict (event_dict (cr_event r)))"
    using assms event_json_ok(1) by (auto simp: record_ok_def good_event_def)
  show "json_ok (PDict (record_dict r))" using assms j by (simp add: record_dict_def record_ok_def)
  show "json_depth (PDict (record_dict r)) \<le> 2"
    using event_dict_depth[of "cr_event r"] by (simp add: record_dict_def del: json_depth.simps(3)) (simp add: record_dict_def)
  show "record_from (json_norm (PDict (record_dict r))) = Inr (raw_item r)"
    unfolding record_from_def json_norm_message[of "record_dict r"] pyval.case norm_fields[OF d]
    using rehydrate_norm[OF g]
    by (simp add: record_dict_def raw_item_def has_keys_def RECORD_KEYS_def get_item_def del: json_norm.simps(3))
qed

lemma item_message_record: "item_message (raw_item r) = Some (record_dict r)"
  by (simp add: item_message_def raw_item_def record_dict_def)

lemma item_messages_records: "item_messages (map raw_item rs) = Inr (map (PDict \<circ> record_dict) rs)"
proof -
  have "opt_map item_message (map raw_item rs) = Some (map record_dict rs)"
    by (induction rs) (simp_all add: item_message_record)
  then show ?thesis by (simp add: item_messages_def)
qed

lemma records_norm:
  assumes "\<forall>r \<in> set rs. record_ok r"
  shows "rmap record_from (map (json_norm \<circ> (PDict \<circ> record_dict)) rs) = Inr (map raw_item rs)"
  using assms by (induction rs) (simp_all add: record_message_ok del: json_norm.simps(3))

definition commit_message :: "audit_head \<Rightarrow> chain_record list \<Rightarrow> message" where
  "commit_message h rs =
     [(lit ''head'', PDict (head_message (head_raw h))), (lit ''kind'', PStr (lit ''commit'')),
      (lit ''records'', PList (map (PDict \<circ> record_dict) rs))]"

definition delta_message :: "nat \<Rightarrow> audit_head \<Rightarrow> chain_record list \<Rightarrow> message" where
  "delta_message from_count h rs = (lit ''from_count'', PInt (int from_count)) # (commit_message h rs)[1 := (lit ''kind'', PStr (lit ''commit2''))]"

lemma commit_request_stored:
  "int (ah_count h) \<le> MAX_COUNT \<Longrightarrow>
     commit_request (Some (head_raw h)) (stored rs) = Inr (commit_message h (take (Suc (ah_count h)) rs))"
proof -
  assume n: "int (ah_count h) \<le> MAX_COUNT"
  have "py_count (rh_count (head_raw h)) ''head.count'' = Inr (ah_count h)" using n by (simp add: py_count_eq_Inr head_raw_def)
  moreover have "bounded_chain (stored rs) (ah_count h + 1) = Inr (map raw_item (take (Suc (ah_count h)) rs))"
    by (auto simp: bounded_chain_def stored_def take_map)
  ultimately show ?thesis by (simp add: commit_request_def item_messages_records commit_message_def)
qed

lemma commit_bounded: "commit P (Some (head_raw h)) (stored (take (Suc (ah_count h)) rs)) c = commit P (Some (head_raw h)) (stored rs) c"
proof -
  have "bounded_chain (stored (take (Suc (ah_count h)) rs)) (Suc (ah_count h)) = bounded_chain (stored rs) (Suc (ah_count h))"
    by (auto simp: bounded_chain_def stored_def take_map)
  moreover have "verify_head P (Some (head_raw h)) c = Inr k \<Longrightarrow> ah_count k = ah_count h" for k
    by (auto simp: verify_head_eq_Inr head_raw_def)
  ultimately have "rbind (verify_head P (Some (head_raw h)) c) (\<lambda>head. rbind (bounded_chain (stored (take (Suc (ah_count h)) rs)) (ah_count head + 1)) (f head))
      = rbind (verify_head P (Some (head_raw h)) c) (\<lambda>head. rbind (bounded_chain (stored rs) (ah_count head + 1)) (f head))"
    for f :: "audit_head \<Rightarrow> chain_item list \<Rightarrow> (audit_head \<times> chain_record list) result"
    by (cases "verify_head P (Some (head_raw h)) c") auto
  then show ?thesis unfolding commit_def by simp
qed

lemma json_ok_message: "json_ok (PDict m) \<longleftrightarrow> distinct (map fst m) \<and> (\<forall>kv \<in> set m. text_ok (fst kv) \<and> json_ok (snd kv))"
  by (auto simp: list_all_iff)

text \<open>The head and the records inside a request.\<close>

lemma request_parts:
  assumes "head_text_ok h" "\<forall>r \<in> set rs. record_ok r" "distinct (map fst m)"
    and "map_of m (lit ''head'') = Some (PDict (head_message (head_raw h)))" "map_of m (lit ''records'') = Some (PList (map (PDict \<circ> record_dict) rs))"
    and "\<forall>kv \<in> set m. fst kv \<notin> {lit ''head'', lit ''records''} \<longrightarrow> json_ok (snd kv) \<and> json_depth (snd kv) = 0" "\<forall>kv \<in> set m. text_ok (fst kv)"
  shows "json_ok (PDict m)" "json_depth (PDict m) \<le> 4"
    "rbind (get_item (norm_message m) ''head'') head_from = Inr (head_raw h)" "records_from (norm_message m) = Inr (map raw_item rs)"
proof -
  note hm = head_message_ok[OF assms(1)]
  have "list_all json_ok (map (PDict \<circ> record_dict) rs)" using assms(2) record_message_ok(1) by (auto simp: list_all_iff simp del: json_ok.simps(9))
  then have j: "json_ok (PList (map (PDict \<circ> record_dict) rs))" by (simp del: json_ok.simps(9))
  have l: "json_depth (PList (map (PDict \<circ> record_dict) rs)) \<le> 3"
    using json_depth_list[of "map (PDict \<circ> record_dict) rs" 2] assms(2) record_message_ok(2) by (auto simp del: json_depth.simps)
  have el: "json_ok (snd kv) \<and> json_depth (snd kv) \<le> 3" if "kv \<in> set m" for kv
  proof (cases "fst kv \<in> {lit ''head'', lit ''records''}")
    case True
    moreover have "map_of m (fst kv) = Some (snd kv)" using map_of_is_SomeI[OF assms(3)] that by simp
    ultimately have "snd kv = PDict (head_message (head_raw h)) \<or> snd kv = PList (map (PDict \<circ> record_dict) rs)"
      using assms(4,5) by (metis insertE option.inject singletonD)
    then show ?thesis
    proof
      assume "snd kv = PDict (head_message (head_raw h))"
      with hm(1,2) show ?thesis by (simp del: json_ok.simps json_depth.simps)
    next
      assume "snd kv = PList (map (PDict \<circ> record_dict) rs)"
      with j l show ?thesis by (simp del: json_ok.simps json_depth.simps)
    qed
  next
    case False
    then show ?thesis using assms(6) that by force
  qed
  show "json_ok (PDict m)" unfolding json_ok_message using assms(3,7) el by blast
  show "json_depth (PDict m) \<le> 4" using json_depth_atoms[of m 3] el by (auto simp del: json_depth.simps)
  show "rbind (get_item (norm_message m) ''head'') head_from = Inr (head_raw h)"
    unfolding norm_fields(4)[OF assms(3)] using hm(3) assms(4) by (simp add: get_item_def del: json_norm.simps(3))
  show "records_from (norm_message m) = Inr (map raw_item rs)"
    unfolding records_from_def norm_fields(4)[OF assms(3)] using records_norm[OF assms(2)] assms(5)
    by (simp add: get_item_def comp_assoc del: json_norm.simps(3))
qed

lemma commit_message_ok:
  assumes "head_text_ok h" "\<forall>r \<in> set rs. record_ok r"
  shows "json_ok (PDict (commit_message h rs))" "json_depth (PDict (commit_message h rs)) \<le> 4"
    "anchor_handle P v (norm_message (commit_message h rs)) =
       abind (commit P (Some (head_raw h)) (stored rs) (ByVerifier v)) (\<lambda>state. areturn (committed_reply state))"
proof -
  let ?m = "commit_message h rs"
  have d: "distinct (map fst ?m)" by (simp add: commit_message_def)
  note p = request_parts[OF assms d]
  have q: "map_of ?m (lit ''head'') = Some (PDict (head_message (head_raw h)))" "map_of ?m (lit ''records'') = Some (PList (map (PDict \<circ> record_dict) rs))"
    "\<forall>kv \<in> set ?m. fst kv \<notin> {lit ''head'', lit ''records''} \<longrightarrow> json_ok (snd kv) \<and> json_depth (snd kv) = 0" "\<forall>kv \<in> set ?m. text_ok (fst kv)"
    by (simp_all add: commit_message_def)
  show "json_ok (PDict ?m)" "json_depth (PDict ?m) \<le> 4" by (rule p(1,2)[OF q])+
  show "anchor_handle P v (norm_message ?m) =
       abind (commit P (Some (head_raw h)) (stored rs) (ByVerifier v)) (\<lambda>state. areturn (committed_reply state))"
    unfolding anchor_handle_def handle_commit_def p(3,4)[OF q] unfolding norm_fields[OF d]
    by (rule ext) (simp add: commit_message_def field_is_def has_keys_def abind_def alift_def stored_def COMMIT2_KEYS_def)
qed

lemma delta_message_ok:
  assumes "head_text_ok h" "\<forall>r \<in> set rs. record_ok r" "canonical (PDict (delta_message n h rs)) = Inr b" "length b \<le> MAX_DELTA_REQUEST_BYTES" "int n \<le> MAX_COUNT"
  shows "json_ok (PDict (delta_message n h rs))" "json_depth (PDict (delta_message n h rs)) \<le> 4"
    "anchor_handle P v (norm_message (delta_message n h rs)) a =
       (if n \<noteq> an_count a then (fail ''delta does not start at the anchor's committed count'', a)
        else abind (commit_delta P (Some (head_raw h)) (stored rs) (ByVerifier v)) (\<lambda>state. areturn (committed_reply state)) a)"
proof -
  let ?m = "delta_message n h rs"
  have d: "distinct (map fst ?m)" by (simp add: delta_message_def commit_message_def)
  note p = request_parts[OF assms(1,2) d]
  have q: "map_of ?m (lit ''head'') = Some (PDict (head_message (head_raw h)))" "map_of ?m (lit ''records'') = Some (PList (map (PDict \<circ> record_dict) rs))"
    "\<forall>kv \<in> set ?m. fst kv \<notin> {lit ''head'', lit ''records''} \<longrightarrow> json_ok (snd kv) \<and> json_depth (snd kv) = 0" "\<forall>kv \<in> set ?m. text_ok (fst kv)"
    by (simp_all add: delta_message_def commit_message_def)
  show "json_ok (PDict ?m)" "json_depth (PDict ?m) \<le> 4" by (rule p(1,2)[OF q])+
  have c: "canonical (PDict (norm_message ?m)) = Inr b"
    using assms(3) dumps_json_norm[of "PDict ?m"] by (auto simp: canonical_eq_Inr json_norm_message[symmetric] simp del: json_norm.simps)
  have k: "field_is ?m ''kind'' (lit ''commit2'')" "\<not> field_is ?m ''kind'' (lit ''committed'')" "has_keys ?m COMMIT2_KEYS"
    "get_item ?m ''from_count'' = Inr (PInt (int n))"
    by (auto simp: delta_message_def commit_message_def field_is_def has_keys_def COMMIT2_KEYS_def get_item_def)
  have n: "py_count (PInt (int n)) ''from_count'' = Inr n" using assms(5) by (simp add: py_count_eq_Inr)
  show "anchor_handle P v (norm_message ?m) a =
       (if n \<noteq> an_count a then (fail ''delta does not start at the anchor's committed count'', a)
        else abind (commit_delta P (Some (head_raw h)) (stored rs) (ByVerifier v)) (\<lambda>state. areturn (committed_reply state)) a)"
    unfolding anchor_handle_def handle_commit2_def p(3,4)[OF q] c unfolding norm_fields[OF d]
    using k n assms(4) by (simp add: abind_def alift_def areturn_def araise_def stored_def delta_base_def committed_def)
qed

end
