(* ===== verification/AnchorHost.thy ===== *)
theory AnchorHost
  imports AnchorWire
begin

text \<open>
  The process of \<open>geniusnew/anchor_process.py\<close> that owns the anchor: reading frames, the state file, the
  answer to one request, the loops over the requests of a pipe and of a connection, and the server.

  The bytes a peer sends are a \<open>stream_in\<close>; reading past them ends the stream or raises \<open>OSError\<close> (a reset, a
  deadline). A file operation is what the operating system makes of it: an append may fail to open, stop
  after any number of bytes, or fail to sync, as its \<open>append_script\<close> says; without a script it succeeds.
\<close>

section \<open>Streams\<close>

record stream_in =
  si_data :: bytes
  si_fails :: bool

definition os_error :: exc where "os_error = PyError ''OSError''"

definition stream_read :: "nat \<Rightarrow> (stream_in, bytes) action" where
  "stream_read n s =
     (if length (si_data s) < n \<and> si_fails s then (Inl os_error, s\<lparr>si_data := []\<rparr>)
      else (Inr (take n (si_data s)), s\<lparr>si_data := drop n (si_data s)\<rparr>))"

definition read_frame :: "(stream_in, bytes option) action" where
  "read_frame =
     abind (stream_read 4) (\<lambda>header.
     if length header \<noteq> 4 then areturn None else
     let size = from_big_endian header in
     if size > MAX_REQUEST_BYTES then areturn None else
     abind (stream_read size) (\<lambda>data.
     areturn (if length data = size then Some data else None)))"

section \<open>The state file\<close>

datatype write_step = Wrote nat | WriteFails

text \<open>The loop over \<open>os.write\<close>: what was written, and whether all of it was.\<close>

fun write_all :: "write_step list \<Rightarrow> bytes \<Rightarrow> bytes \<times> bool" where
  "write_all ws [] = ([], True)"
| "write_all [] (b # bs) = (b # bs, True)"
| "write_all (WriteFails # ws) (b # bs) = ([], False)"
| "write_all (Wrote n # ws) (b # bs) =
     (let (written, ok) = write_all ws (drop n (b # bs)) in (take n (b # bs) @ written, ok))"

record append_script =
  as_opens :: bool
  as_writes :: "write_step list"
  as_syncs :: bool

record state_file =
  sf_data :: "bytes option"
  sf_readable :: bool
  sf_scripts :: "append_script list"

definition next_script :: "state_file \<Rightarrow> append_script" where
  "next_script f = (case sf_scripts f of [] \<Rightarrow> \<lparr>as_opens = True, as_writes = [], as_syncs = True\<rparr> | s # _ \<Rightarrow> s)"

definition file_bytes :: "state_file \<Rightarrow> bytes" where
  "file_bytes f = (case sf_data f of None \<Rightarrow> [] | Some d \<Rightarrow> d)"

definition append_head :: "raw_head \<Rightarrow> (state_file, unit) action" where
  "append_head head f =
     (let s = next_script f; f1 = f\<lparr>sf_scripts := tl (sf_scripts f)\<rparr> in
      if \<not> as_opens s then (Inl os_error, f1) else
      case head_line head of
        Inl e \<Rightarrow> (Inl e, f1\<lparr>sf_data := Some (file_bytes f)\<rparr>)
      | Inr line \<Rightarrow>
          let (written, ok) = write_all (as_writes s) line in
          (if ok \<and> as_syncs s then Inr () else Inl os_error, f1\<lparr>sf_data := Some (file_bytes f @ written)\<rparr>))"

text \<open>\<open>data.split(b"\\n")\<close>.\<close>

fun split_lines :: "bytes \<Rightarrow> bytes list" where
  "split_lines [] = [[]]"
| "split_lines (b # bs) =
     (if b = 10 then [] # split_lines bs
      else case split_lines bs of [] \<Rightarrow> [[b]] | l # ls \<Rightarrow> (b # l) # ls)"

fun load_lines :: "platform \<Rightarrow> (pystr \<Rightarrow> nesting) \<Rightarrow> audit_verifier \<Rightarrow> audit_head option \<Rightarrow> bytes list \<Rightarrow> audit_head option result" where
  "load_lines P deep verifier head [] = Inr head"
| "load_lines P deep verifier head (line # ls) =
     rbind (anchor_decode P deep line ''anchor state line'') (\<lambda>d.
     rbind (head_from (PDict d)) (\<lambda>raw.
     rbind (verify_head P (Some raw) (ByVerifier verifier)) (\<lambda>current.
     if (case head of None \<Rightarrow> False | Some h \<Rightarrow> ah_count current \<le> ah_count h)
     then fail ''anchor state file does not rise strictly''
     else load_lines P deep verifier (Some current) ls)))"

definition load_data :: "platform \<Rightarrow> (pystr \<Rightarrow> nesting) \<Rightarrow> audit_verifier \<Rightarrow> bytes \<Rightarrow> anchor result" where
  "load_data P deep verifier contents =
     (let data = take (MAX_STATE_BYTES + 1) contents in
      if length data > MAX_STATE_BYTES then fail ''anchor state file is too large'' else
      if data = [] then Inr anchor_new else
      if last data \<noteq> 10 then fail ''anchor state file ends in a torn line'' else
      rbind (load_lines P deep verifier None (split_lines (butlast data))) (\<lambda>head.
      anchor_resumed P (map_option head_raw head) (ByVerifier verifier)))"

text \<open>\<open>durable\<close> says whether a path was given.\<close>

definition load_state :: "platform \<Rightarrow> (pystr \<Rightarrow> nesting) \<Rightarrow> audit_verifier \<Rightarrow> bool \<Rightarrow> state_file \<Rightarrow> anchor result" where
  "load_state P deep verifier durable f =
     (if \<not> durable then Inr anchor_new else
      case sf_data f of
        None \<Rightarrow> Inr anchor_new
      | Some contents \<Rightarrow>
          if \<not> sf_readable f then fail ''anchor state file cannot be read'' else load_data P deep verifier contents)"

section \<open>One owner\<close>

text \<open>Abstract socket addresses serve as leases: the kernel refuses a second binding and frees it when the
  holder is gone. What the operating system decides: whether a socket can be made and bound, the resolved
  path, and what opening the state file gives (regular or not, device, inode).\<close>

record lease_os =
  lo_socket :: bool
  lo_binds :: bool
  lo_realpath :: bytes
  lo_open :: "(bool \<times> nat \<times> nat) option"

definition state_lease :: "lease_os \<Rightarrow> bytes \<Rightarrow> (bytes list, unit) action" where
  "state_lease os address held =
     (if \<not> lo_socket os then (fail ''anchor state lease cannot be acquired'', held) else
      if address \<in> set held then (fail ''anchor state is already in use'', held) else
      if \<not> lo_binds os then (fail ''anchor state lease cannot be acquired'', held) else
      (Inr (), address # held))"

definition path_address :: "platform \<Rightarrow> bytes \<Rightarrow> bytes" where
  "path_address P realpath = 0 # ascii_bytes (lit ''geniusnew-anchor-state-'' @ sha256_hex P realpath)"

definition inode_address :: "platform \<Rightarrow> nat \<Rightarrow> nat \<Rightarrow> bytes" where
  "inode_address P dev ino = 0 # ascii_bytes (lit ''geniusnew-anchor-inode-'' @ sha256_hex P (ascii_bytes (nat_digits dev @ 58 # nat_digits ino)))"

text \<open>Entering \<open>_state_lock\<close>. An exception leaves every \<open>with\<close> that was entered, so it frees what was held.\<close>

definition state_lock :: "platform \<Rightarrow> lease_os \<Rightarrow> bool \<Rightarrow> (bytes list, unit) action" where
  "state_lock P os durable held =
     (if \<not> durable then (Inr (), held) else
      case state_lease os (path_address P (lo_realpath os)) held of
        (Inl e, h) \<Rightarrow> (Inl e, h)
      | (Inr _, h) \<Rightarrow>
          (case lo_open os of
             None \<Rightarrow> (fail ''anchor state file cannot be opened for its lease'', held)
           | Some (regular, dev, ino) \<Rightarrow>
               if \<not> regular then (fail ''anchor state file must be regular'', held) else
               (case state_lease os (inode_address P dev ino) h of
                  (Inl e, _) \<Rightarrow> (Inl e, held)
                | (Inr _, h2) \<Rightarrow> (Inr (), h2))))"

text \<open>The lock opens the state file and creates it if there is none.\<close>

definition created_file :: "state_file \<Rightarrow> state_file" where
  "created_file f = f\<lparr>sf_data := Some (file_bytes f), sf_readable := sf_data f = None \<or> sf_readable f\<rparr>"

text \<open>The reply key: made once with mode 0600, or read back from a file only its owner can read.\<close>

record key_file =
  kf_exists :: bool
  kf_creatable :: bool
  kf_readable :: bool
  kf_regular :: bool
  kf_mode :: nat
  kf_data :: bytes

definition reply_key :: "bytes \<Rightarrow> write_step list \<Rightarrow> bool \<Rightarrow> (key_file, bytes) action" where
  "reply_key generated writes syncs k =
     (if \<not> kf_exists k then
        if \<not> kf_creatable k then (fail ''anchor key file cannot be created'', k) else
        let (written, ok) = write_all writes generated;
            k1 = k\<lparr>kf_exists := True, kf_readable := True, kf_regular := True, kf_mode := 384, kf_data := written\<rparr>
        in (if ok \<and> syncs then Inr generated else Inl os_error, k1)
      else
        (if \<not> kf_readable k then fail ''anchor key file cannot be read'' else
         if \<not> kf_regular k \<or> kf_mode k mod 64 \<noteq> 0 then fail ''anchor key file must be a regular file only its owner can read'' else
         if length (take 33 (kf_data k)) \<noteq> 32 then fail ''anchor key file must hold exactly 32 bytes'' else
         Inr (take 33 (kf_data k)), k))"

section \<open>One request\<close>

record anchor_host =
  ho_anchor :: anchor
  ho_file :: state_file
  ho_out :: "bytes list"
  ho_out_takes :: "nat option"

abbreviation on_anchor :: "(anchor, 'a) action \<Rightarrow> (anchor_host, 'a) action" where
  "on_anchor \<equiv> azoom ho_anchor (\<lambda>a w. w\<lparr>ho_anchor := a\<rparr>)"

abbreviation on_file :: "(state_file, 'a) action \<Rightarrow> (anchor_host, 'a) action" where
  "on_file \<equiv> azoom ho_file (\<lambda>f w. w\<lparr>ho_file := f\<rparr>)"

text \<open>\<open>replies.write\<close> and \<open>flush\<close> of one frame: a peer that is gone takes no more.\<close>

definition reply_write :: "bytes \<Rightarrow> (anchor_host, unit) action" where
  "reply_write frame w =
     (if (case ho_out_takes w of None \<Rightarrow> False | Some n \<Rightarrow> n \<le> length (ho_out w)) then (Inl os_error, w)
      else (Inr (), w\<lparr>ho_out := ho_out w @ [frame]\<rparr>))"

definition anchor_answer :: "platform \<Rightarrow> audit_verifier \<Rightarrow> bool \<Rightarrow> message \<Rightarrow> (anchor_host, message option) action" where
  "anchor_answer P verifier durable m w =
     (let before = committed (ho_anchor w) in
      case on_anchor (anchor_handle P verifier m) w of
        (Inl e, w1) \<Rightarrow> if is_contract_error e then (Inr (Some (anchor_refusal e)), w1) else (Inl e, w1)
      | (Inr reply, w1) \<Rightarrow>
          if durable \<and> committed (ho_anchor w1) \<noteq> before
          then acatch (abind (alift (rbind (get_item m ''head'') head_from)) (\<lambda>head.
                       abind (on_file (append_head head)) (\<lambda>_. areturn (Some reply))))
                 (\<lambda>e. if e = os_error then areturn None else araise e) w1
          else (Inr (Some reply), w1))"

section \<open>The child\<close>

text \<open>The loop of both servers: \<open>step\<close> is its body and returns the code it ends with, if it does.\<close>

lemma read_frame_shrinks:
  "read_frame s = (Inr (Some data), s') \<Longrightarrow> length (si_data s') + 4 + length data = length (si_data s) \<and> si_fails s' = si_fails s"
  by (auto simp: read_frame_def abind_eq_Inr areturn_eq stream_read_def Let_def split: if_splits)

function serve_loop :: "(bytes \<Rightarrow> ('w, nat option) action) \<Rightarrow> stream_in \<Rightarrow> 'w \<Rightarrow> nat result \<times> stream_in \<times> 'w" where
  "serve_loop step s w =
     (case read_frame s of
        (Inl e, s1) \<Rightarrow> (Inl e, s1, w)
      | (Inr None, s1) \<Rightarrow> (Inr 0, s1, w)
      | (Inr (Some data), s1) \<Rightarrow>
          (case step data w of
             (Inl e, w1) \<Rightarrow> (Inl e, s1, w1)
           | (Inr (Some code), w1) \<Rightarrow> (Inr code, s1, w1)
           | (Inr None, w1) \<Rightarrow> serve_loop step s1 w1))"
  by pat_completeness auto
termination
  by (relation "measure (\<lambda>(step, s, w). length (si_data s))") (auto dest: read_frame_shrinks[OF sym])

declare serve_loop.simps [simp del]

definition child_step :: "platform \<Rightarrow> (pystr \<Rightarrow> nesting) \<Rightarrow> audit_verifier \<Rightarrow> bool \<Rightarrow> bytes \<Rightarrow> (anchor_host, nat option) action" where
  "child_step P deep verifier durable data =
     abind (case anchor_decode P deep data ''anchor request'' of
              Inl e \<Rightarrow> if is_contract_error e then areturn (Some (anchor_refusal e)) else araise e
            | Inr m \<Rightarrow> anchor_answer P verifier durable m) (\<lambda>reply.
     case reply of
       None \<Rightarrow> areturn (Some 2)
     | Some r \<Rightarrow>
         abind (alift (anchor_frame r MAX_REPLY_BYTES)) (\<lambda>frame.
         abind (reply_write frame) (\<lambda>_. areturn None)))"

definition serve_locked ::
  "platform \<Rightarrow> (pystr \<Rightarrow> nesting) \<Rightarrow> audit_verifier \<Rightarrow> bool \<Rightarrow> stream_in \<Rightarrow> anchor_host \<Rightarrow> nat result \<times> stream_in \<times> anchor_host" where
  "serve_locked P deep verifier durable s w =
     (case (abind (\<lambda>w. case load_state P deep verifier durable (ho_file w) of
                           Inl e \<Rightarrow> (Inl e, w)
                         | Inr a \<Rightarrow> (Inr (committed a), w\<lparr>ho_anchor := a\<rparr>)) (\<lambda>state.
            abind (alift (anchor_frame (committed_reply state) MAX_REPLY_BYTES)) reply_write)) w of
        (Inl e, w1) \<Rightarrow> (Inl e, s, w1)
      | (Inr _, w1) \<Rightarrow> serve_loop (child_step P deep verifier durable) s w1)"

text \<open>\<open>lock\<close> is what entering \<open>_state_lock\<close> comes to.\<close>

definition anchor_serve ::
  "platform \<Rightarrow> (pystr \<Rightarrow> nesting) \<Rightarrow> unit result \<Rightarrow> bool \<Rightarrow> stream_in \<Rightarrow> anchor_host \<Rightarrow> nat result \<times> stream_in \<times> anchor_host" where
  "anchor_serve P deep lock durable s w =
     (case read_frame s of
        (Inl e, s1) \<Rightarrow> (Inl e, s1, w)
      | (Inr None, s1) \<Rightarrow> (Inr 1, s1, w)
      | (Inr (Some data), s1) \<Rightarrow>
          (case rbind (anchor_decode P deep data ''anchor init'') (verifier_from P) of
             Inl e \<Rightarrow> (if is_contract_error e then Inr 1 else Inl e, s1, w)
           | Inr verifier \<Rightarrow>
               (case (case lock of
                        Inl e \<Rightarrow> (Inl e, s1, w)
                      | Inr _ \<Rightarrow> serve_locked P deep verifier durable s1
                          (if durable then w\<lparr>ho_file := created_file (ho_file w)\<rparr> else w)) of
                  (Inr code, s2, w2) \<Rightarrow> (Inr code, s2, w2)
                | (Inl e, s2, w2) \<Rightarrow>
                    if \<not> is_contract_error e then (Inl e, s2, w2) else
                    (case abind (alift (anchor_frame (anchor_refusal e) MAX_REPLY_BYTES)) reply_write w2 of
                       (Inl e', w3) \<Rightarrow> (Inl e', s2, w3)
                     | (Inr _, w3) \<Rightarrow> (Inr 1, s2, w3)))))"

section \<open>The served anchor\<close>

definition reply_message :: "pystr \<Rightarrow> pyval \<Rightarrow> bytes result" where
  "reply_message nonce reply =
     rbind (canonical (PDict [(lit ''nonce'', PStr nonce), (lit ''reply'', reply)])) (\<lambda>b. Inr (REPLY_LABEL @ b))"

definition nonce_of :: "pyval \<Rightarrow> pystr result" where
  "nonce_of v =
     (case v of
        PStr s \<Rightarrow> if hex_string 64 s then Inr s else fail ''anchor nonce must be 32 bytes of lowercase hex''
      | _ \<Rightarrow> fail ''anchor nonce must be 32 bytes of lowercase hex'')"

definition envelope_of :: "platform \<Rightarrow> (pystr \<Rightarrow> nesting) \<Rightarrow> bytes \<Rightarrow> (pystr \<times> message) result" where
  "envelope_of P deep data =
     rbind (anchor_decode P deep data ''anchor request'') (\<lambda>envelope.
     if \<not> has_keys envelope REQUEST_KEYS then fail ''anchor request envelope is malformed'' else
     rbind (rbind (get_item envelope ''nonce'') nonce_of) (\<lambda>nonce.
     rbind (get_item envelope ''request'') (\<lambda>request.
     case request of PDict m \<Rightarrow> Inr (nonce, m) | _ \<Rightarrow> fail ''anchor request envelope is malformed'')))"

definition connection_step :: "platform \<Rightarrow> (pystr \<Rightarrow> nesting) \<Rightarrow> audit_verifier \<Rightarrow> bytes \<Rightarrow> bytes \<Rightarrow> (anchor_host, nat option) action" where
  "connection_step P deep verifier key data =
     (case envelope_of P deep data of
        Inl e \<Rightarrow> if is_contract_error e then areturn (Some 0) else araise e
      | Inr (nonce, request) \<Rightarrow>
          abind (anchor_answer P verifier True request) (\<lambda>reply.
          case reply of
            None \<Rightarrow> areturn (Some 2)
          | Some r \<Rightarrow>
              abind (alift (reply_message nonce (PDict r))) (\<lambda>signed.
              abind (alift (anchor_frame [(lit ''nonce'', PStr nonce), (lit ''reply'', PDict r),
                (lit ''signature'', PStr (bytes_hex (ed25519_sign P key signed)))] MAX_REPLY_BYTES)) (\<lambda>frame.
              abind (reply_write frame) (\<lambda>_. areturn None)))))"

definition serve_connection ::
  "platform \<Rightarrow> (pystr \<Rightarrow> nesting) \<Rightarrow> audit_verifier \<Rightarrow> bytes \<Rightarrow> stream_in \<Rightarrow> anchor_host \<Rightarrow> nat result \<times> stream_in \<times> anchor_host" where
  "serve_connection P deep verifier key = serve_loop (connection_step P deep verifier key)"

text \<open>The server over the connections that arrive, each with what its client sends, how many replies it
  takes and whether a signal to stop came while it was served. \<open>None\<close>: the server waits for the next one.\<close>

record client_visit =
  cv_sends :: stream_in
  cv_takes :: "nat option"
  cv_stops :: bool

fun run_connections ::
  "platform \<Rightarrow> (pystr \<Rightarrow> nesting) \<Rightarrow> audit_verifier \<Rightarrow> bytes \<Rightarrow> client_visit list \<Rightarrow> anchor_host \<Rightarrow> nat result option \<times> anchor_host" where
  "run_connections P deep verifier key [] w = (None, w)"
| "run_connections P deep verifier key (v # vs) w =
     (case serve_connection P deep verifier key (cv_sends v) (w\<lparr>ho_out := [], ho_out_takes := cv_takes v\<rparr>) of
        (r, _, w1) \<Rightarrow>
          (case (case r of Inl e \<Rightarrow> if e = os_error then Inr 0 else Inl e | Inr code \<Rightarrow> Inr code) of
             Inl e \<Rightarrow> (Some (Inl e), w1)
           | Inr code \<Rightarrow>
               if code \<noteq> 0 \<or> cv_stops v then (Some (Inr code), w1)
               else run_connections P deep verifier key vs w1))"

record server_os =
  so_lease :: lease_os
  so_held :: "bytes list"
  so_key_file :: key_file
  so_generated :: bytes
  so_key_writes :: "write_step list"
  so_key_syncs :: bool
  so_socket_exists :: bool
  so_socket_binds :: bool

definition listen_at :: "server_os \<Rightarrow> unit result" where
  "listen_at os =
     (if so_socket_exists os then fail ''anchor socket path already exists'' else
      if \<not> so_socket_binds os then fail ''anchor socket cannot be bound'' else Inr ())"

definition init_message :: "pyval \<Rightarrow> message" where
  "init_message key = [(lit ''kind'', PStr (lit ''init'')), (lit ''public_key'', key)]"

text \<open>Everything the server refuses before it listens, in the order of the code.\<close>

definition server_start ::
  "platform \<Rightarrow> (pystr \<Rightarrow> nesting) \<Rightarrow> server_os \<Rightarrow> pyval \<Rightarrow> pyval \<Rightarrow> pyval \<Rightarrow> pyval \<Rightarrow> state_file \<Rightarrow> (bytes \<times> audit_verifier \<times> anchor) result" where
  "server_start P deep os socket_path state_path key_path audit_public_key f =
     rbind (absolute_path socket_path ''socket path'') (\<lambda>_.
     rbind (absolute_path state_path ''state path'') (\<lambda>_.
     rbind (fst (state_lock P (so_lease os) True (so_held os))) (\<lambda>_.
     rbind (absolute_path key_path ''key path'') (\<lambda>_.
     rbind (fst (reply_key (so_generated os) (so_key_writes os) (so_key_syncs os) (so_key_file os))) (\<lambda>key.
     rbind (verifier_from P (init_message audit_public_key)) (\<lambda>verifier.
     rbind (load_state P deep verifier True f) (\<lambda>a.
     rbind (listen_at os) (\<lambda>_. Inr (key, verifier, a)))))))))"

definition run_server ::
  "platform \<Rightarrow> (pystr \<Rightarrow> nesting) \<Rightarrow> server_os \<Rightarrow> pyval \<Rightarrow> pyval \<Rightarrow> pyval \<Rightarrow> pyval \<Rightarrow> client_visit list \<Rightarrow> anchor_host \<Rightarrow> nat result option \<times> anchor_host" where
  "run_server P deep os socket_path state_path key_path audit_public_key visits w =
     (let w1 = (if is_ok (fst (state_lock P (so_lease os) True (so_held os))) then w\<lparr>ho_file := created_file (ho_file w)\<rparr> else w) in
      case server_start P deep os socket_path state_path key_path audit_public_key (ho_file w1) of
        Inl e \<Rightarrow> (Some (Inl e), w1)
      | Inr (key, verifier, a) \<Rightarrow> run_connections P deep verifier key visits (w1\<lparr>ho_anchor := a\<rparr>))"

text \<open>The exit code of \<open>serve\<close> on the command line: a refusal is printed and is code 1.\<close>

definition main_serve ::
  "platform \<Rightarrow> (pystr \<Rightarrow> nesting) \<Rightarrow> server_os \<Rightarrow> pyval \<Rightarrow> pyval \<Rightarrow> pyval \<Rightarrow> pyval \<Rightarrow> client_visit list \<Rightarrow> anchor_host \<Rightarrow> nat result option \<times> anchor_host" where
  "main_serve P deep os socket_path state_path key_path audit_public_key visits w =
     (case run_server P deep os socket_path state_path key_path audit_public_key visits w of
        (Some (Inl e), w1) \<Rightarrow> (Some (if is_contract_error e then Inr 1 else Inl e), w1)
      | r \<Rightarrow> r)"

section \<open>Lines\<close>

lemma join_comma_no_newline: "(\<And>t. t \<in> set ts \<Longrightarrow> 10 \<notin> set t) \<Longrightarrow> 10 \<notin> set (join_comma ts)"
  by (induction ts rule: join_comma.induct) auto

lemma hex_digit_no_newline [simp]: "hex_digit n \<noteq> 10"
  by (auto simp: hex_digit_def)

lemma esc_char_no_newline: "10 \<notin> set (esc_char c)"
  by (auto simp: esc_char_def u_escape_def u_digits_def simp flip: hex_digit_no_newline) (metis hex_digit_no_newline)+

lemma json_string_no_newline: "10 \<notin> set (json_string s)"
  using esc_char_no_newline by (auto simp: json_string_def)

lemma int_text_no_newline: "int_text i = Some t \<Longrightarrow> 10 \<notin> set t"
  using nat_digits_digit[of "nat \<bar>i\<bar>"] by (fastforce simp: int_text_def Let_def list_all_iff is_digit_def split: if_splits)

text \<open>Canonical JSON has no line breaks.\<close>

lemma dumps_no_newline: "dumps v = Some t \<Longrightarrow> json_ok v \<Longrightarrow> 10 \<notin> set t"
proof (induction v arbitrary: t rule: json_ok.induct)
  case (9 kvs)
  have "10 \<notin> set (the (dumps v))" if "(k, v) \<in> set kvs" for k v
    using "9.IH"[of "(k, v)" k v "the (dumps v)"] "9.prems" that by (fastforce simp: dumps_dict_texts list_all_iff)
  then have "10 \<notin> set (join_comma (map member_text (sort_key fst (map (\<lambda>(k, v). (k, the (dumps v))) kvs))))"
    by (intro join_comma_no_newline) (auto simp: member_text_def json_string_no_newline)
  with "9.prems" show ?case by (auto simp: dumps_dict_texts)
qed (auto simp: lit_words opt_map_conv list_all_iff int_text_no_newline json_string_no_newline intro!: join_comma_no_newline split: if_splits)

lemma split_lines_nonempty [simp]: "split_lines bs \<noteq> []"
  by (induction bs) (auto split: list.splits)

lemma split_lines_plain: "10 \<notin> set bs \<Longrightarrow> split_lines bs = [bs]"
  by (induction bs) auto

lemma split_lines_append: "split_lines (xs @ 10 # ys) = split_lines xs @ split_lines ys"
proof (induction xs)
  case (Cons x xs)
  then show ?case by (cases "split_lines xs") auto
qed simp

lemma write_all_prefix: "fst (write_all ws bs) @ drop (length (fst (write_all ws bs))) bs = bs"
  and write_all_done: "snd (write_all ws bs) \<Longrightarrow> fst (write_all ws bs) = bs"
proof -
  have "\<exists>rest. bs = fst (write_all ws bs) @ rest \<and> (snd (write_all ws bs) \<longrightarrow> rest = [])"
  proof (induction ws bs rule: write_all.induct)
    case (4 n ws b bs)
    let ?r = "write_all ws (drop n (b # bs))"
    obtain rest where r: "drop n (b # bs) = fst ?r @ rest" "snd ?r \<longrightarrow> rest = []" using 4 by blast
    have "b # bs = (take n (b # bs) @ fst ?r) @ rest" using r(1) append_take_drop_id[of n "b # bs"] by (metis append_assoc)
    then have "b # bs = fst (write_all (Wrote n # ws) (b # bs)) @ rest" by (simp add: case_prod_unfold Let_def)
    with r(2) show ?case by (intro exI[of _ rest]) (simp add: case_prod_unfold Let_def)
  qed auto
  then show "fst (write_all ws bs) @ drop (length (fst (write_all ws bs))) bs = bs" "snd (write_all ws bs) \<Longrightarrow> fst (write_all ws bs) = bs"
    by (metis append_eq_conv_conj, force)
qed

section \<open>The file grows by whole lines\<close>

lemma verified_text_ok: "verify_head P (Some (head_raw h)) c = Inr h \<Longrightarrow> head_text_ok h"
  using digest_text_ok text_ok_ascii hex_string_ascii by (fastforce simp: verify_head_eq_Inr head_text_ok_def is_signature_def HEAD_VERSION_def)

lemma verified_line:
  assumes "verify_head P (Some (head_raw h)) c = Inr h" "nesting_ok deep"
  obtains b d where "head_line (head_raw h) = Inr (b @ [10])" "10 \<notin> set b" "canonical (PDict (head_message (head_raw h))) = Inr b"
    "anchor_decode P deep b noun = Inr d" "head_from (PDict d) = Inr (head_raw h)"
proof -
  let ?m = "head_message (head_raw h)"
  note hm = head_message_ok[OF verified_text_ok[OF assms(1)]]
  have "int (ah_count h) \<le> MAX_COUNT" using assms(1) by (auto simp: verify_head_eq_Inr)
  then have "dumps (PInt (int (ah_count h))) \<noteq> None"
    using nat_digits_length_bound[of "ah_count h" 7] by (auto simp: int_text_def Let_def MAX_COUNT_def max_str_digits_def)
  then have "\<forall>kv \<in> set ?m. dumps (snd kv) \<noteq> None" by (simp add: head_message_def head_raw_def)
  then obtain b where b: "canonical (PDict ?m) = Inr b" using canonical_dict_defined by blast
  then obtain t where t: "dumps (PDict ?m) = Some t" "b = ascii_bytes t" by (auto simp: canonical_eq_Inr)
  have "map unat b = t" using map_unat_ascii[OF dumps_ascii[OF t(1) hm(1)]] t(2) by (simp add: ascii_bytes_def)
  then have "10 \<notin> unat ` set b" using dumps_no_newline[OF t(1) hm(1)] by (metis list.set_map)
  then have n: "10 \<notin> set b" by force
  have "json_depth (PDict ?m) \<le> 16" using hm(2) by linarith
  from decode_canonical[OF b hm(1) this assms(2)] have d: "anchor_decode P deep b noun = Inr (norm_message ?m)" .
  from that[OF _ n b d] b hm(3) show thesis unfolding json_norm_message by (simp add: head_line_def)
qed

lemma load_lines_append:
  "load_lines P deep v p (xs @ ys) = rbind (load_lines P deep v p xs) (\<lambda>q. load_lines P deep v q ys)"
proof (induction xs arbitrary: p)
  case (Cons x xs)
  then show ?case
    by (cases "anchor_decode P deep x ''anchor state line''"; simp) (auto simp: rbind_assoc intro!: rbind_cong)
qed simp

lemma load_lines_verified:
  "load_lines P deep v p ls = Inr (Some h) \<Longrightarrow> (\<And>k. p = Some k \<Longrightarrow> verify_head P (Some (head_raw k)) (ByVerifier v) = Inr k) \<Longrightarrow>
     verify_head P (Some (head_raw h)) (ByVerifier v) = Inr h"
proof (induction ls arbitrary: p)
  case (Cons l ls)
  from Cons.prems(1) obtain d raw k where k: "verify_head P (Some raw) (ByVerifier v) = Inr k" "load_lines P deep v (Some k) ls = Inr (Some h)"
    by (auto simp: rbind_eq_Inr if_raise_eq_Inr)
  have "verify_head P (Some (head_raw k)) (ByVerifier v) = Inr k" using k(1) by (auto simp: verify_head_eq_Inr)
  with Cons.IH[OF k(2)] show ?case by blast
qed simp

lemma load_lines_none: "load_lines P deep v p ls = Inr None \<longleftrightarrow> p = None \<and> ls = []"
  by (induction ls arbitrary: p) (auto simp: rbind_eq_Inr if_raise_eq_Inr)

lemma load_data_eq_Inr:
  "load_data P deep v data = Inr a \<longleftrightarrow>
     length data \<le> MAX_STATE_BYTES \<and> (data = [] \<and> a = anchor_new
       \<or> (\<exists>d h. data = d @ [10] \<and> load_lines P deep v None (split_lines d) = Inr (Some h) \<and> a = anchor_at h))"
proof (cases "length data \<le> MAX_STATE_BYTES \<and> data \<noteq> [] \<and> last data = 10")
  case True
  then obtain d where d: "data = d @ [10]" by (metis append_butlast_last_id)
  have s: "\<not> length (take (MAX_STATE_BYTES + 1) data) > MAX_STATE_BYTES" "take (MAX_STATE_BYTES + 1) data = data" using True by auto
  have "(\<exists>head. load_lines P deep v None (split_lines d) = Inr head \<and> anchor_resumed P (map_option head_raw head) (ByVerifier v) = Inr a)
      \<longleftrightarrow> (\<exists>h. load_lines P deep v None (split_lines d) = Inr (Some h) \<and> a = anchor_at h)" (is "?l \<longleftrightarrow> ?r")
  proof
    assume ?l
    then obtain head where h: "load_lines P deep v None (split_lines d) = Inr head" "anchor_resumed P (map_option head_raw head) (ByVerifier v) = Inr a" by blast
    then obtain h' where "head = Some h'" using load_lines_none[of P deep v None "split_lines d"] by (cases head) auto
    with h load_lines_verified[of P deep v None "split_lines d" h'] show ?r by (auto simp: anchor_resumed_def)
  next
    assume ?r
    then show ?l using load_lines_verified[of P deep v None "split_lines d"] by (fastforce simp: anchor_resumed_def)
  qed
  with True d s show ?thesis by (simp add: load_data_def Let_def rbind_eq_Inr)
next
  case False
  then show ?thesis by (auto simp: load_data_def Let_def)
qed

lemma load_data_append:
  assumes "load_data P deep v data = Inr a" "verify_head P (Some (head_raw h)) (ByVerifier v) = Inr h" "nesting_ok deep"
    and "an_count a < ah_count h" "head_line (head_raw h) = Inr line" "length (data @ line) \<le> MAX_STATE_BYTES"
  shows "load_data P deep v (data @ line) = Inr (anchor_at h)"
proof -
  obtain b d where b: "line = b @ [10]" "10 \<notin> set b" "anchor_decode P deep b ''anchor state line'' = Inr d" "head_from (PDict d) = Inr (head_raw h)"
    by (rule verified_line[OF assms(2,3), where noun = "''anchor state line''"]) (use assms(5) that in auto)
  have one: "load_lines P deep v p [b] = (if (case p of None \<Rightarrow> False | Some k \<Rightarrow> ah_count h \<le> ah_count k)
      then fail ''anchor state file does not rise strictly'' else Inr (Some h))" for p using b(3,4) assms(2) by simp
  show ?thesis
  proof (cases "data = []")
    case True
    with one[of None] b assms(6) show ?thesis by (simp add: load_data_eq_Inr split_lines_plain)
  next
    case False
    with assms(1) obtain d0 k where k: "data = d0 @ [10]" "load_lines P deep v None (split_lines d0) = Inr (Some k)" "a = anchor_at k"
      by (auto simp: load_data_eq_Inr)
    have "load_lines P deep v None (split_lines (d0 @ 10 # b)) = Inr (Some h)"
      using k(2,3) one[of "Some k"] assms(4) by (simp add: split_lines_append split_lines_plain[OF b(2)] load_lines_append anchor_at_def)
    with b(1) k(1) assms(6) show ?thesis unfolding load_data_eq_Inr by (intro conjI disjI2 exI[of _ "d0 @ 10 # b"] exI[of _ h]) auto
  qed
qed

lemma load_data_torn:
  assumes "load_data P deep v data = Inr a" "verify_head P (Some (head_raw h)) (ByVerifier v) = Inr h" "nesting_ok deep"
    and "head_line (head_raw h) = Inr (p @ q)" "p \<noteq> []" "q \<noteq> []" "length (data @ p) \<le> MAX_STATE_BYTES"
  shows "load_data P deep v (data @ p) = fail ''anchor state file ends in a torn line''"
proof -
  obtain b where b: "p @ q = b @ [10]" "10 \<notin> set b" 
    by (rule verified_line[OF assms(2,3)]) (use assms(4) that in auto)
  then have "p @ butlast q = b" using assms(6) by (metis butlast_append butlast_snoc)
  then have "10 \<notin> set p" using b(2) by auto
  then have "last p \<noteq> 10" using assms(5) last_in_set by metis
  with assms(5,7) show ?thesis by (simp add: load_data_def Let_def)
qed

section \<open>What a request does to the anchor\<close>

text \<open>An anchor holds a digest.\<close>

definition anchor_ok :: "anchor \<Rightarrow> bool" where
  "anchor_ok a \<longleftrightarrow> is_digest (an_head_hash a) \<and> int (an_count a) \<le> MAX_COUNT"

definition moves_to :: "platform \<Rightarrow> audit_verifier \<Rightarrow> raw_head \<Rightarrow> anchor \<Rightarrow> anchor \<Rightarrow> bool" where
  "moves_to P v raw a a' \<longleftrightarrow> a' = a \<or>
     (\<exists>h. raw = head_raw h \<and> verify_head P (Some raw) (ByVerifier v) = Inr h \<and> a' = anchor_at h \<and> an_count a < ah_count h)"

lemma verified_raw: "verify_head P (Some raw) c = Inr h \<Longrightarrow> raw = head_raw h"
  by (auto simp: verify_head_eq_Inr)

lemma commit_moves:
  assumes "commit P (Some raw) records (ByVerifier v) a = (r, a')" "anchor_ok a"
  shows "moves_to P v raw a a'"
proof (cases r)
  case (Inl e)
  with assms(1) show ?thesis using commit_refused by (auto simp: moves_to_def)
next
  case (Inr x)
  from assms(1)[unfolded commit_def Inr abind_eq_Inr alift_eq commit_checks] obtain head rs where
    v: "verify_chain P records (Some raw) (ByVerifier v) = Inr (head, rs)" and l: "commit_locked head rs a = (Inr x, a')" by auto
  have h: "verify_head P (Some raw) (ByVerifier v) = Inr head" "is_digest (ah_head_hash head)" using v by (auto simp: verify_chain_eq_Inr verify_head_eq_Inr)
  have asc: "is_ascii (ah_head_hash head)" "is_ascii (an_head_hash a)" using h(2) assms(2) is_digest_ascii by (auto simp: anchor_ok_def)
  from l have "a' = anchor_at head" "an_count a \<le> ah_count head" "ah_count head = an_count a \<longrightarrow> ah_head_hash head = an_head_hash a"
    using asc by (auto simp: commit_locked_def split: if_splits sum.splits)
  with h verified_raw[OF h(1)] show ?thesis by (cases "ah_count head = an_count a") (auto simp: moves_to_def anchor_at_def)
qed

lemma commit_delta_moves:
  assumes "commit_delta P (Some raw) records (ByVerifier v) a = (r, a')"
  shows "moves_to P v raw a a'"
proof (cases "verify_extension P records (Some raw) (PInt (int (an_count a))) (PStr (an_head_hash a)) (ByVerifier v)")
  case (Inl e)
  with assms show ?thesis by (auto simp: commit_delta_def abind_def delta_base_def alift_def committed_def moves_to_def)
next
  case (Inr p)
  obtain head n where p: "p = (head, n)" by (cases p)
  from assms Inr have f: "delta_finish (committed a) head a = (r, a')"
    by (auto simp: commit_delta_def abind_def delta_base_def alift_def committed_def p)
  from Inr[unfolded p verify_extension_eq_Inr] obtain rs where
    e: "verify_head P (Some raw) (ByVerifier v) = Inr head" "an_count a + length rs = ah_count head" "end_hash (an_head_hash a) rs = ah_head_hash head" by blast
  from f have "a' = anchor_at head" by (auto simp: delta_finish_def)
  with e verified_raw[OF e(1)] show ?thesis by (cases rs) (auto simp: moves_to_def anchor_at_def)
qed

lemma commit_delta_refused: "commit_delta P raw records c a = (Inl e, a') \<Longrightarrow> a' = a"
  by (auto simp: commit_delta_def abind_def delta_base_def alift_def delta_finish_def split: prod.splits sum.splits if_splits)

text \<open>A request that changes the anchor is one of the two commits.\<close>

lemma abind_alift: "abind (alift x) f a = (case x of Inl e \<Rightarrow> (Inl e, a) | Inr y \<Rightarrow> f y a)"
  by (simp add: abind_def alift_def split: sum.splits)

lemma replied:
  assumes "abind f (\<lambda>s. areturn (committed_reply s)) a = (r, a')" "a' \<noteq> a" "\<And>e b. f a = (Inl e, b) \<Longrightarrow> b = a"
  shows "\<exists>s. f a = (Inr s, a') \<and> r = Inr (committed_reply s)"
  using assms by (cases "f a"; cases "fst (f a)") (auto simp: abind_def areturn_def)

lemma handle_commit_moves:
  assumes "handle_commit P v m a = (r, a')" "anchor_ok a" "a' \<noteq> a"
  shows "\<exists>raw reply. r = Inr reply \<and> rbind (get_item m ''head'') head_from = Inr raw \<and> moves_to P v raw a a'"
proof (cases "rbind (get_item m ''head'') head_from")
  case (Inr raw)
  show ?thesis
  proof (cases "records_from m")
    case (Inr rec)
    with assms(1) \<open>_ = Inr raw\<close> have "abind (commit P (Some raw) (Yields rec None) (ByVerifier v)) (\<lambda>s. areturn (committed_reply s)) a = (r, a')"
      by (simp add: handle_commit_def abind_alift)
    from replied[OF this assms(3)] commit_refused obtain s where "commit P (Some raw) (Yields rec None) (ByVerifier v) a = (Inr s, a')" "r = Inr (committed_reply s)" by blast
    with commit_moves[OF _ assms(2)] \<open>_ = Inr raw\<close> show ?thesis by blast
  qed (use assms Inr in \<open>simp add: handle_commit_def abind_alift\<close>)
qed (use assms in \<open>simp add: handle_commit_def abind_alift\<close>)

lemma handle_commit2_moves:
  assumes "handle_commit2 P v m a = (r, a')" "a' \<noteq> a"
  shows "\<exists>raw reply. r = Inr reply \<and> rbind (get_item m ''head'') head_from = Inr raw \<and> moves_to P v raw a a'"
proof -
  have "\<exists>raw rec. rbind (get_item m ''head'') head_from = Inr raw
     \<and> abind (commit_delta P (Some raw) (Yields rec None) (ByVerifier v)) (\<lambda>s. areturn (committed_reply s)) a = (r, a')"
  proof (rule ccontr)
    assume "\<not> ?thesis"
    then have "handle_commit2 P v m a = (r, a') \<longrightarrow> a' = a"
      unfolding handle_commit2_def abind_alift
      by (cases "canonical (PDict m)"; cases "rbind (get_item m ''head'') head_from"; cases "rbind (get_item m ''from_count'') (\<lambda>v. py_count v ''from_count'')";
          cases "records_from m") (simp_all add: abind_apply abind_alift areturn_def araise_def delta_base_def)
    with assms show False by blast
  qed
  then obtain raw rec where raw: "rbind (get_item m ''head'') head_from = Inr raw"
    and c: "abind (commit_delta P (Some raw) (Yields rec None) (ByVerifier v)) (\<lambda>s. areturn (committed_reply s)) a = (r, a')" by blast
  from replied[OF c assms(2)] commit_delta_refused obtain s where "commit_delta P (Some raw) (Yields rec None) (ByVerifier v) a = (Inr s, a')" "r = Inr (committed_reply s)" by blast
  with commit_delta_moves raw show ?thesis by blast
qed

lemma handle_moves:
  assumes "anchor_handle P v m a = (r, a')" "anchor_ok a" "a' \<noteq> a"
  shows "\<exists>raw reply. r = Inr reply \<and> rbind (get_item m ''head'') head_from = Inr raw \<and> moves_to P v raw a a'"
proof -
  have "handle_commit P v m a = (r, a') \<or> handle_commit2 P v m a = (r, a')"
    using assms(1,3) by (auto simp: anchor_handle_def abind_def areturn_def araise_def delta_base_def split: if_splits)
  then show ?thesis using handle_commit_moves handle_commit2_moves assms(2,3) by blast
qed

section \<open>Memory and file\<close>

text \<open>The state file, as long as it is one a start reads, loads as the anchor in memory.\<close>

definition in_step :: "platform \<Rightarrow> (pystr \<Rightarrow> nesting) \<Rightarrow> audit_verifier \<Rightarrow> anchor_host \<Rightarrow> bool" where
  "in_step P deep v w \<longleftrightarrow> anchor_ok (ho_anchor w)
     \<and> (length (file_bytes (ho_file w)) \<le> MAX_STATE_BYTES \<longrightarrow> load_data P deep v (file_bytes (ho_file w)) = Inr (ho_anchor w))"

text \<open>After a write that failed, the file loads as the anchor before it, as the one after it, or not at all.\<close>

definition torn_after :: "platform \<Rightarrow> (pystr \<Rightarrow> nesting) \<Rightarrow> audit_verifier \<Rightarrow> anchor \<Rightarrow> anchor_host \<Rightarrow> bool" where
  "torn_after P deep v a w \<longleftrightarrow> an_count a < an_count (ho_anchor w)
     \<and> (length (file_bytes (ho_file w)) \<le> MAX_STATE_BYTES \<longrightarrow>
          load_data P deep v (file_bytes (ho_file w))
            \<in> {Inr a, Inr (ho_anchor w), fail ''anchor state file ends in a torn line''})"

lemma append_head_written:
  assumes "append_head raw f = (r, f')" "head_line raw = Inr line"
  shows "\<exists>p q. line = p @ q \<and> file_bytes f' = file_bytes f @ p \<and> (r = Inr () \<and> q = [] \<or> r = Inl os_error)"
proof (cases "as_opens (next_script f)")
  case True
  let ?w = "write_all (as_writes (next_script f)) line"
  have "file_bytes f' = file_bytes f @ fst ?w" "r = (if snd ?w \<and> as_syncs (next_script f) then Inr () else Inl os_error)"
    using assms True by (auto simp: append_head_def Let_def file_bytes_def case_prod_unfold)
  then show ?thesis
    using write_all_prefix[of "as_writes (next_script f)" line] write_all_done[of "as_writes (next_script f)" line]
    by (intro exI[of _ "fst ?w"] exI[of _ "drop (length (fst ?w)) line"]) auto
next
  case False
  then show ?thesis using assms by (intro exI[of _ "[]"] exI[of _ line]) (auto simp: append_head_def Let_def file_bytes_def)
qed

lemma anchor_at_ok: "verify_head P raw c = Inr h \<Longrightarrow> anchor_ok (anchor_at h)"
  by (auto simp: verify_head_eq_Inr anchor_ok_def anchor_at_def)

lemma answer_in_step:
  assumes "anchor_answer P v True m w = (r, w')" "in_step P deep v w" "nesting_ok deep"
  shows "an_count (ho_anchor w) \<le> an_count (ho_anchor w') \<and> ho_out w' = ho_out w \<and> ho_out_takes w' = ho_out_takes w
     \<and> (if r = Inr None then torn_after P deep v (ho_anchor w) w' else in_step P deep v w')"
proof -
  obtain q a where h: "anchor_handle P v m (ho_anchor w) = (q, a)" by (cases "anchor_handle P v m (ho_anchor w)")
  show ?thesis
  proof (cases "a = ho_anchor w")
    case True
    then have "w' = w \<and> r \<noteq> Inr None"
      using assms(1) h by (auto simp: anchor_answer_def azoom_def Let_def split: sum.splits if_splits)
    with assms(2) show ?thesis by simp
  next
    case False
    with handle_moves[OF h] assms(2) obtain raw reply hd where
      m: "q = Inr reply" "rbind (get_item m ''head'') head_from = Inr raw" "raw = head_raw hd" "verify_head P (Some raw) (ByVerifier v) = Inr hd"
      "a = anchor_at hd" "an_count (ho_anchor w) < ah_count hd" by (auto simp: in_step_def moves_to_def)
    have moved: "committed a \<noteq> committed (ho_anchor w)" using m(5,6) by (simp add: committed_def anchor_at_def)
    obtain b where b: "head_line raw = Inr (b @ [10])" by (rule verified_line[OF m(4)[unfolded m(3)] assms(3)]) (use m(3) in auto)
    obtain x f where f: "append_head raw (ho_file w) = (x, f)" by (cases "append_head raw (ho_file w)")
    from append_head_written[OF f b] obtain p q' where
      p: "b @ [10] = p @ q'" "file_bytes f = file_bytes (ho_file w) @ p" "x = Inr () \<and> q' = [] \<or> x = Inl os_error" by blast
    have w': "w' = w\<lparr>ho_anchor := a, ho_file := f\<rparr>" "r = (if x = Inr () then Inr (Some reply) else Inr None)"
      using assms(1) h m(1,2) moved f p(3)
      by (auto simp: anchor_answer_def azoom_def Let_def acatch_def abind_def alift_def areturn_def)
    have up: "an_count (ho_anchor w) < an_count a" using m(5,6) by (simp add: anchor_at_def)
    have old: "load_data P deep v (file_bytes (ho_file w)) = Inr (ho_anchor w)" if "length (file_bytes f) \<le> MAX_STATE_BYTES"
      using assms(2) that p(2) by (simp add: in_step_def)
    have whole: "load_data P deep v (file_bytes f) = Inr a" if "q' = []" "length (file_bytes f) \<le> MAX_STATE_BYTES"
      using load_data_append[OF old[OF that(2)] m(4)[unfolded m(3)] assms(3) m(6)] b p that m(3,5) by simp
    have part: "load_data P deep v (file_bytes f) = fail ''anchor state file ends in a torn line''" if "p \<noteq> []" "q' \<noteq> []" "length (file_bytes f) \<le> MAX_STATE_BYTES"
      using load_data_torn[OF old[OF that(3)] m(4)[unfolded m(3)] assms(3) _ that(1,2)] b p that m(3) by simp
    have ok: "anchor_ok a" using anchor_at_ok[OF m(4)] m(5) by simp
    from w' up ok p(2,3) old whole part show ?thesis by (cases "p = []"; cases "q' = []") (auto simp: in_step_def torn_after_def)
  qed
qed

section \<open>The loops keep memory and file together\<close>

lemma serve_loop_cases:
  assumes "serve_loop step s w = (r, s', w')"
  obtains (broken) "read_frame s = (Inl os_error, s')" "r = Inl os_error" "w' = w" "si_fails s"
  | (closed) "read_frame s = (Inr None, s')" "r = Inr 0" "w' = w"
  | (frame) data s1 q w1 where "read_frame s = (Inr (Some data), s1)" "step data w = (q, w1)"
      "case q of Inl e \<Rightarrow> r = Inl e \<and> s' = s1 \<and> w' = w1 | Inr (Some c) \<Rightarrow> r = Inr c \<and> s' = s1 \<and> w' = w1
       | Inr None \<Rightarrow> serve_loop step s1 w1 = (r, s', w')"
proof -
  obtain f s1 where f: "read_frame s = (f, s1)" by (cases "read_frame s")
  note u = assms[unfolded serve_loop.simps[of step s w] f prod.case]
  show thesis
  proof (cases f)
    case (Inl e)
    then have "e = os_error" "si_fails s" using f by (auto simp: read_frame_def abind_def areturn_def stream_read_def Let_def split: if_splits)
    with broken f u Inl show thesis by simp
  next
    case (Inr d)
    show thesis
    proof (cases d)
      case None
      with closed f u Inr show thesis by simp
    next
      case (Some data)
      obtain q w1 where q: "step data w = (q, w1)" by (cases "step data w")
      with frame[OF _ q] f u Inr Some show thesis by (auto split: sum.splits option.splits)
    qed
  qed
qed

text \<open>What the body of a request loop has to promise for a statement about how the loop ends.\<close>

locale request_loop =
  fixes step :: "bytes \<Rightarrow> ('w, nat option) action" and inv :: "'w \<Rightarrow> bool" and ended :: "nat result \<Rightarrow> 'w \<Rightarrow> bool"
  assumes goes_on: "inv w \<Longrightarrow> step data w = (Inr None, w') \<Longrightarrow> inv w'"
    and stops: "inv w \<Longrightarrow> step data w = (Inr (Some code), w') \<Longrightarrow> ended (Inr code) w'"
    and raises: "inv w \<Longrightarrow> step data w = (Inl e, w') \<Longrightarrow> ended (Inl e) w'"
    and hangs_up: "inv w \<Longrightarrow> ended (Inr 0) w"
begin

lemma loop_ended: "inv w \<Longrightarrow> serve_loop step s w = (r, s', w') \<Longrightarrow> ended r w' \<or> r = Inl os_error \<and> si_fails s \<and> inv w'"
proof (induction "length (si_data s)" arbitrary: s w rule: less_induct)
  case less
  from less.prems(2) show ?case
  proof (cases rule: serve_loop_cases)
    case (frame data s1 q w1)
    then show ?thesis
    proof (cases q)
      case (Inr c)
      then show ?thesis
        using frame less.hyps[of s1 w1] less.prems(1) read_frame_shrinks[OF frame(1)] goes_on stops by (cases c) fastforce+
    qed (use frame less.prems(1) raises in auto)
  qed (use less.prems(1) hangs_up in auto)
qed

end

text \<open>Each request that is answered was four bytes and a body.\<close>

lemma serve_loop_shrinks: "serve_loop step s w = (r, s', w') \<Longrightarrow> length (si_data s') \<le> length (si_data s)"
proof (induction "length (si_data s)" arbitrary: s w rule: less_induct)
  case less
  have shr: "length (si_data s1) \<le> length (si_data s)" if "read_frame s = (q, s1)" for q s1
    using that by (auto simp: read_frame_def abind_def areturn_def stream_read_def Let_def split: if_splits)
  from less.prems show ?case
  proof (cases rule: serve_loop_cases)
    case (frame data s1 q w1)
    then show ?thesis
      using less.hyps[of s1 w1] read_frame_shrinks[OF frame(1)] by (cases q; cases "projr q") fastforce+
  qed (use shr in auto)
qed

text \<open>From a start with \<open>n\<close> records on: in step, and never below \<open>n\<close>; ended by a failed write, the file is
  that of the last answer or of the request that failed.\<close>

definition loop_inv :: "platform \<Rightarrow> (pystr \<Rightarrow> nesting) \<Rightarrow> audit_verifier \<Rightarrow> nat \<Rightarrow> anchor_host \<Rightarrow> bool" where
  "loop_inv P deep v n w \<longleftrightarrow> (nesting_ok deep \<longrightarrow> in_step P deep v w \<and> n \<le> an_count (ho_anchor w))"

definition loop_end :: "platform \<Rightarrow> (pystr \<Rightarrow> nesting) \<Rightarrow> audit_verifier \<Rightarrow> nat \<Rightarrow> nat result \<Rightarrow> anchor_host \<Rightarrow> bool" where
  "loop_end P deep v n r w \<longleftrightarrow>
     (nesting_ok deep \<longrightarrow> (if r = Inr 2 then \<exists>a. n \<le> an_count a \<and> torn_after P deep v a w
                        else in_step P deep v w \<and> n \<le> an_count (ho_anchor w)))"

lemma reply_write_in_step:
  "reply_write f w = (r, w') \<Longrightarrow> in_step P deep v w \<Longrightarrow> in_step P deep v w' \<and> ho_anchor w' = ho_anchor w \<and> (r = Inr () \<or> r = Inl os_error)"
  by (auto simp: reply_write_def in_step_def split: if_splits)

text \<open>The common shape of both bodies: an answer, then the frame of the reply.\<close>

definition answered :: "(anchor_host, message option) action \<Rightarrow> (message \<Rightarrow> bytes result) \<Rightarrow> (anchor_host, nat option) action" where
  "answered answer framed =
     abind answer (\<lambda>reply. case reply of None \<Rightarrow> areturn (Some 2)
       | Some r \<Rightarrow> abind (alift (framed r)) (\<lambda>frame. abind (reply_write frame) (\<lambda>_. areturn None)))"

lemma answered_in_step:
  assumes "answered answer framed w = (q, w')" "in_step P deep v w" "answer w = (r, w1)"
    and "an_count (ho_anchor w) \<le> an_count (ho_anchor w1)" "if r = Inr None then torn_after P deep v (ho_anchor w) w1 else in_step P deep v w1"
  shows "an_count (ho_anchor w) \<le> an_count (ho_anchor w')
     \<and> (if q = Inr (Some 2) then torn_after P deep v (ho_anchor w) w' else in_step P deep v w' \<and> (q = Inr None \<or> (\<exists>e. q = Inl e)))"
proof (cases r)
  case (Inl e)
  with assms show ?thesis by (auto simp: answered_def abind_def)
next
  case (Inr x)
  show ?thesis
  proof (cases x)
    case None
    with assms Inr show ?thesis by (auto simp: answered_def abind_def areturn_def)
  next
    case (Some m)
    show ?thesis
    proof (cases "framed m")
      case (Inl e)
      with assms Inr Some show ?thesis by (auto simp: answered_def abind_def alift_def)
    next
      case (Inr f)
      obtain y w2 where y: "reply_write f w1 = (y, w2)" by (cases "reply_write f w1")
      have i: "in_step P deep v w1" using assms(5) \<open>r = Inr x\<close> Some by simp
      have "w' = w2" "q = (case y of Inl e \<Rightarrow> Inl e | Inr _ \<Rightarrow> Inr None)"
        using assms(1,3) \<open>r = Inr x\<close> Some Inr y by (auto simp: answered_def abind_def alift_def areturn_def split: sum.splits)
      with reply_write_in_step[OF y i] assms(4) show ?thesis by (auto split: sum.splits)
    qed
  qed
qed

lemma child_step_answered:
  "child_step P deep v durable data =
     answered (case anchor_decode P deep data ''anchor request'' of
        Inl e \<Rightarrow> if is_contract_error e then areturn (Some (anchor_refusal e)) else araise e
      | Inr m \<Rightarrow> anchor_answer P v durable m) (\<lambda>r. anchor_frame r MAX_REPLY_BYTES)"
  by (simp add: child_step_def answered_def)

definition envelope_frame :: "platform \<Rightarrow> bytes \<Rightarrow> pystr \<Rightarrow> message \<Rightarrow> bytes result" where
  "envelope_frame P key nonce r =
     rbind (reply_message nonce (PDict r)) (\<lambda>signed.
     anchor_frame [(lit ''nonce'', PStr nonce), (lit ''reply'', PDict r), (lit ''signature'', PStr (bytes_hex (ed25519_sign P key signed)))] MAX_REPLY_BYTES)"

lemma connection_step_answered:
  "connection_step P deep v key data =
     (case envelope_of P deep data of
        Inl e \<Rightarrow> if is_contract_error e then areturn (Some 0) else araise e
      | Inr (nonce, request) \<Rightarrow> answered (anchor_answer P v True request) (envelope_frame P key nonce))"
proof -
  have "abind (alift (reply_message nonce (PDict r))) (\<lambda>signed. abind (alift (g signed)) h) = abind (alift (rbind (reply_message nonce (PDict r)) g)) h"
    for nonce r g and h :: "bytes \<Rightarrow> (anchor_host, nat option) action"
    by (cases "reply_message nonce (PDict r)") (auto simp: abind_def alift_def)
  then show ?thesis by (auto simp: connection_step_def answered_def envelope_frame_def split: sum.splits)
qed

lemma child_step_in_step:
  assumes "child_step P deep v True data w = (q, w')" "in_step P deep v w" "nesting_ok deep"
  shows "an_count (ho_anchor w) \<le> an_count (ho_anchor w')
     \<and> (if q = Inr (Some 2) then torn_after P deep v (ho_anchor w) w' else in_step P deep v w' \<and> (q = Inr None \<or> (\<exists>e. q = Inl e)))"
proof (cases "anchor_decode P deep data ''anchor request''")
  case (Inl e)
  show ?thesis
    by (rule answered_in_step[OF assms(1)[unfolded child_step_answered Inl sum.case] assms(2), where r = "if is_contract_error e then Inr (Some (anchor_refusal e)) else Inl e"])
      (use assms(2) in \<open>auto simp: areturn_def araise_def\<close>)
next
  case (Inr m)
  obtain r w1 where r: "anchor_answer P v True m w = (r, w1)" by (cases "anchor_answer P v True m w")
  from answered_in_step[OF assms(1)[unfolded child_step_answered Inr sum.case] assms(2) r] answer_in_step[OF r assms(2,3)] show ?thesis by blast
qed

lemma connection_step_in_step:
  assumes "connection_step P deep v key data w = (q, w')" "in_step P deep v w" "nesting_ok deep"
  shows "an_count (ho_anchor w) \<le> an_count (ho_anchor w')
     \<and> (if q = Inr (Some 2) then torn_after P deep v (ho_anchor w) w' else in_step P deep v w')"
proof (cases "envelope_of P deep data")
  case (Inl e)
  then show ?thesis using assms by (auto simp: connection_step_answered areturn_def araise_def split: if_splits)
next
  case (Inr p)
  obtain nonce m where p: "p = (nonce, m)" by (cases p)
  obtain r w1 where r: "anchor_answer P v True m w = (r, w1)" by (cases "anchor_answer P v True m w")
  from answered_in_step[OF assms(1)[unfolded connection_step_answered Inr p sum.case prod.case] assms(2) r] answer_in_step[OF r assms(2,3)]
  show ?thesis by (auto split: if_splits)
qed

interpretation child: request_loop "child_step P deep v True" "loop_inv P deep v n" "loop_end P deep v n" for P deep v n
proof unfold_locales
  fix w data w' code e
  assume i: "loop_inv P deep v n w"
  show "child_step P deep v True data w = (Inr None, w') \<Longrightarrow> loop_inv P deep v n w'"
    using child_step_in_step i by (fastforce simp: loop_inv_def)
  show "child_step P deep v True data w = (Inr (Some code), w') \<Longrightarrow> loop_end P deep v n (Inr code) w'"
    using child_step_in_step i by (fastforce simp: loop_inv_def loop_end_def)
  show "child_step P deep v True data w = (Inl e, w') \<Longrightarrow> loop_end P deep v n (Inl e) w'"
    using child_step_in_step i by (fastforce simp: loop_inv_def loop_end_def)
  show "loop_end P deep v n (Inr 0) w" using i by (auto simp: loop_inv_def loop_end_def)
qed

interpretation served: request_loop "connection_step P deep v key" "loop_inv P deep v n" "loop_end P deep v n" for P deep v key n
proof unfold_locales
  fix w data w' code e
  assume i: "loop_inv P deep v n w"
  show "connection_step P deep v key data w = (Inr None, w') \<Longrightarrow> loop_inv P deep v n w'"
    using connection_step_in_step i by (fastforce simp: loop_inv_def)
  show "connection_step P deep v key data w = (Inr (Some code), w') \<Longrightarrow> loop_end P deep v n (Inr code) w'"
    using connection_step_in_step i by (fastforce simp: loop_inv_def loop_end_def)
  show "connection_step P deep v key data w = (Inl e, w') \<Longrightarrow> loop_end P deep v n (Inl e) w'"
    using connection_step_in_step i by (fastforce simp: loop_inv_def loop_end_def)
  show "loop_end P deep v n (Inr 0) w" using i by (auto simp: loop_inv_def loop_end_def)
qed

section \<open>The server over its connections\<close>

lemma run_connections_in_step:
  assumes "run_connections P deep v key visits w = (r, w')" "in_step P deep v w" "nesting_ok deep" "n \<le> an_count (ho_anchor w)"
  shows "if r = Some (Inr 2) then \<exists>a. n \<le> an_count a \<and> torn_after P deep v a w' else in_step P deep v w' \<and> n \<le> an_count (ho_anchor w')"
  using assms(1,2,4)
proof (induction visits arbitrary: w)
  case (Cons x xs)
  let ?w = "w\<lparr>ho_out := [], ho_out_takes := cv_takes x\<rparr>"
  obtain q s1 w1 where q: "serve_loop (connection_step P deep v key) (cv_sends x) ?w = (q, s1, w1)" by (metis prod_cases3)
  have i: "loop_inv P deep v n ?w" using Cons.prems by (simp add: loop_inv_def in_step_def)
  have e: "loop_end P deep v n q w1" using served.loop_ended[OF i q] by (auto simp: loop_inv_def loop_end_def)
  consider (raised) err where "q = Inl err" "err \<noteq> os_error" | (broken) "q = Inl os_error" | (code) c where "q = Inr c" by (cases q) auto
  then show ?case
  proof cases
    case raised
    then show ?thesis using Cons.prems(1) q e assms(3) by (auto simp: serve_connection_def loop_end_def)
  next
    case broken
    then show ?thesis using Cons.prems(1) Cons.IH[of w1] q e assms(3)
      by (auto simp: serve_connection_def loop_end_def split: if_splits)
  next
    case code
    then show ?thesis using Cons.prems(1) Cons.IH[of w1] q e assms(3)
      by (auto simp: serve_connection_def loop_end_def split: if_splits)
  qed
qed simp

section \<open>How long the file gets\<close>

text \<open>The line of a head with \<open>n\<close> records.\<close>

definition line_size :: "nat \<Rightarrow> nat" where
  "line_size n = 269 + length (nat_digits n)"

lemma line_length:
  assumes "verify_head P (Some (head_raw h)) c = Inr h" "head_line (head_raw h) = Inr line"
  shows "length line = line_size (ah_count h)"
proof -
  from assms(1) have h: "is_digest (ah_head_hash h)" "is_signature (ah_signature h)" "ah_version h = HEAD_VERSION" by (auto simp: verify_head_eq_Inr)
  have "list_all (\<lambda>c. 32 \<le> c \<and> c \<le> 126 \<and> c \<noteq> 34 \<and> c \<noteq> 92) (ah_signature h)"
    using h(2) by (fastforce simp: is_signature_def hex_string_def list_all_iff is_lower_hex_def is_digit_def)
  from json_string_plain[OF this] have hs: "length (json_string (ah_signature h)) = 130" using h(2) by (simp add: is_signature_def hex_string_def)
  have hv: "length (json_string HEAD_VERSION) = 25" by (simp add: HEAD_VERSION_def json_string_def lit_def esc_char_def)
  have ks: "length (json_string (lit ''count'')) = 7" "length (json_string (lit ''head_hash'')) = 11" "length (json_string (lit ''signature'')) = 11" "length (json_string (lit ''version'')) = 9"
    by (simp_all add: json_string_def lit_def esc_char_def)
  obtain t where t: "dumps (PDict (head_message (head_raw h))) = Some t" "line = ascii_bytes t @ [10]" using assms(2) by (auto simp: head_line_def rbind_eq_Inr canonical_eq_Inr)
  then obtain d where d: "int_text (int (ah_count h)) = Some d" by (cases "int_text (int (ah_count h))") (auto simp: head_message_def head_raw_def)
  then have "length d = length (nat_digits (ah_count h))" by (auto simp: int_text_def Let_def split: if_splits)
  moreover from t(1) d have "length t = length d + 268"
    using json_string_digest[OF h(1)] hs hv h(3) ks by (auto simp: head_message_def head_raw_def member_text_def)
  ultimately show ?thesis using t(2) by (simp add: line_size_def)
qed

lemma nat_digits_mono: "m \<le> n \<Longrightarrow> length (nat_digits m) \<le> length (nat_digits n)"
proof (induction n arbitrary: m rule: nat_digits.induct)
  case (1 n)
  show ?case
  proof (cases "m < 10")
    case True
    then show ?thesis by (simp add: nat_digits.simps[of m] Suc_le_eq)
  next
    case False
    with "1.prems" "1.IH"[of "m div 10"] show ?thesis by (simp add: nat_digits.simps[of m] nat_digits.simps[of n] div_le_mono)
  qed
qed

definition file_bound :: "anchor_host \<Rightarrow> bool" where
  "file_bound w \<longleftrightarrow> anchor_ok (ho_anchor w) \<and> length (file_bytes (ho_file w)) \<le> an_count (ho_anchor w) * line_size (an_count (ho_anchor w))"

lemma answer_bound:
  assumes "anchor_answer P v True m w = (r, w')" "file_bound w"
  shows "file_bound w'"
proof -
  obtain q a where h: "anchor_handle P v m (ho_anchor w) = (q, a)" by (cases "anchor_handle P v m (ho_anchor w)")
  show ?thesis
  proof (cases "a = ho_anchor w")
    case True
    then have "w' = w" using assms(1) h by (auto simp: anchor_answer_def azoom_def Let_def split: sum.splits if_splits)
    with assms(2) show ?thesis by simp
  next
    case False
    with handle_moves[OF h] assms(2) obtain raw reply hd where
      m: "q = Inr reply" "rbind (get_item m ''head'') head_from = Inr raw" "raw = head_raw hd" "verify_head P (Some raw) (ByVerifier v) = Inr hd"
      "a = anchor_at hd" "an_count (ho_anchor w) < ah_count hd" by (auto simp: file_bound_def moves_to_def)
    have moved: "committed a \<noteq> committed (ho_anchor w)" using m(5,6) by (simp add: committed_def anchor_at_def)
    obtain line where b: "head_line raw = Inr line"
      by (rule verified_line[OF m(4)[unfolded m(3)], where deep = "\<lambda>_. Shallow"]) (use m(3) in \<open>auto simp: nesting_ok_def\<close>)
    obtain x f where f: "append_head raw (ho_file w) = (x, f)" by (cases "append_head raw (ho_file w)")
    from append_head_written[OF f b] obtain p q' where p: "line = p @ q'" "file_bytes f = file_bytes (ho_file w) @ p" "x = Inr () \<or> x = Inl os_error" by blast
    have w': "w' = w\<lparr>ho_anchor := a, ho_file := f\<rparr>"
      using assms(1) h m(1,2) moved f p(3) by (auto simp: anchor_answer_def azoom_def Let_def acatch_def abind_def alift_def areturn_def)
    let ?n = "an_count (ho_anchor w)" and ?k = "ah_count hd"
    have ls: "line_size ?n \<le> line_size ?k" using m(6) nat_digits_mono[of ?n ?k] by (simp add: line_size_def)
    have "length (file_bytes f) \<le> ?n * line_size ?n + line_size ?k"
      using p assms(2) line_length[OF m(4)[unfolded m(3)]] b m(3) by (auto simp: file_bound_def)
    also have "\<dots> \<le> (?n + 1) * line_size ?k" using ls by (simp add: add_mono)
    also have "\<dots> \<le> ?k * line_size ?k" using m(6) by (intro mult_right_mono) auto
    finally show ?thesis using w' m(5) anchor_at_ok[OF m(4)] by (simp add: file_bound_def anchor_at_def)
  qed
qed

lemma answered_bound:
  assumes "answered answer framed w = (q, w')" "answer w = (r, w1)" "file_bound w1"
  shows "file_bound w'"
proof (cases r)
  case (Inr x)
  show ?thesis
  proof (cases x)
    case (Some m)
    with assms Inr show ?thesis
      by (cases "framed m") (auto simp: answered_def abind_def alift_def areturn_def reply_write_def file_bound_def split: if_splits)
  qed (use assms Inr in \<open>auto simp: answered_def abind_def areturn_def\<close>)
qed (use assms in \<open>auto simp: answered_def abind_def\<close>)

lemma connection_step_bound: "connection_step P deep v key data w = (q, w') \<Longrightarrow> file_bound w \<Longrightarrow> file_bound w'"
proof -
  assume c: "connection_step P deep v key data w = (q, w')" and b: "file_bound w"
  show "file_bound w'"
  proof (cases "envelope_of P deep data")
    case (Inl e)
    with c b show ?thesis by (auto simp: connection_step_answered areturn_def araise_def split: if_splits)
  next
    case (Inr p)
    obtain nonce m where p: "p = (nonce, m)" by (cases p)
    obtain r w1 where r: "anchor_answer P v True m w = (r, w1)" by (cases "anchor_answer P v True m w")
    from answered_bound[OF c[unfolded connection_step_answered Inr p sum.case prod.case] r answer_bound[OF r b]] show ?thesis .
  qed
qed

interpretation bounded_loop: request_loop "connection_step P deep v key" file_bound "\<lambda>r. file_bound" for P deep v key
  by unfold_locales (auto dest: connection_step_bound)

lemma run_connections_bound:
  assumes "run_connections P deep v key visits w = (r, w')" "file_bound w"
  shows "file_bound w'"
  using assms
proof (induction visits arbitrary: w)
  case (Cons x xs)
  let ?w = "w\<lparr>ho_out := [], ho_out_takes := cv_takes x\<rparr>"
  obtain q s1 w1 where q: "serve_loop (connection_step P deep v key) (cv_sends x) ?w = (q, s1, w1)" by (metis prod_cases3)
  have "file_bound w1" using bounded_loop.loop_ended[OF _ q] Cons.prems(2) by (auto simp: file_bound_def)
  with Cons.IH[of w1] Cons.prems(1) q show ?case by (auto simp: serve_connection_def split: sum.splits if_splits)
qed simp

lemma created_file_bytes [simp]: "file_bytes (created_file f) = file_bytes f"
  by (simp add: created_file_def file_bytes_def)

lemma load_created:
  "load_state P deep v True (created_file f) = (if sf_data f = None \<or> sf_readable f then load_data P deep v (file_bytes f) else fail ''anchor state file cannot be read'')"
  by (simp add: load_state_def created_file_def)

lemma server_in_step:
  assumes "run_server P deep os sp stp kp apk visits w = (r, w')" "nesting_ok deep" "verifier_from P (init_message apk) = Inr v"
    and "length (file_bytes (ho_file w')) \<le> MAX_STATE_BYTES"
  shows "case load_data P deep v (file_bytes (ho_file w)) of
     Inl e \<Rightarrow> file_bytes (ho_file w') = file_bytes (ho_file w) \<and> (\<exists>e'. r = Some (Inl e'))
   | Inr a \<Rightarrow>
       (\<exists>b. an_count a \<le> an_count b \<and> (load_data P deep v (file_bytes (ho_file w')) = Inr b
            \<or> r = Some (Inr 2) \<and> load_data P deep v (file_bytes (ho_file w')) = fail ''anchor state file ends in a torn line''))
     \<and> (r \<in> {None, Some (Inr 0)} \<longrightarrow> load_data P deep v (file_bytes (ho_file w')) = Inr (ho_anchor w'))"
proof -
  let ?w = "if is_ok (fst (state_lock P (so_lease os) True (so_held os))) then w\<lparr>ho_file := created_file (ho_file w)\<rparr> else w"
  have fb: "file_bytes (ho_file ?w) = file_bytes (ho_file w)" by simp
  show ?thesis
  proof (cases "server_start P deep os sp stp kp apk (ho_file ?w)")
    case (Inl e)
    then have "w' = ?w" "r = Some (Inl e)" using assms(1) by (auto simp: run_server_def Let_def)
    with fb show ?thesis by (auto split: sum.splits)
  next
    case (Inr t)
    obtain key v' a where t: "t = (key, v', a)" by (cases t)
    from Inr[unfolded server_start_def t] have st: "verifier_from P (init_message apk) = Inr v'" "load_state P deep v' True (ho_file ?w) = Inr a"
      "is_ok (fst (state_lock P (so_lease os) True (so_held os)))" by (auto simp: rbind_eq_Inr)
    have v: "v' = v" using st(1) assms(3) by simp
    have ld: "load_data P deep v (file_bytes (ho_file w)) = Inr a" using st(2,3) v by (simp add: load_created split: if_splits)
    have "anchor_ok a" using ld anchor_at_ok[OF load_lines_verified] by (fastforce simp: load_data_eq_Inr anchor_ok_def anchor_new_def MAX_COUNT_def)
    then have i: "in_step P deep v (?w\<lparr>ho_anchor := a\<rparr>)" using ld fb by (simp add: in_step_def)
    have "run_connections P deep v key visits (?w\<lparr>ho_anchor := a\<rparr>) = (r, w')" using assms(1) Inr t v by (simp add: run_server_def Let_def)
    from run_connections_in_step[OF this i assms(2), of "an_count a"] assms(4) ld show ?thesis
      by (fastforce simp: in_step_def torn_after_def split: if_splits)
  qed
qed

end
