(* ===== verification/AnchorReplies.thy ===== *)
theory AnchorReplies
  imports AnchorHost
begin

text \<open>
  Whatever bytes arrive, the process of \<open>geniusnew/anchor_process.py\<close> answers: every refusal is a
  \<open>ContractError\<close>, every reply fits its frame, and the loops end with one of their codes, or because the
  operating system failed.
\<close>

section \<open>Calls that raise nothing but refusals\<close>

definition refuses_only :: "'a result \<Rightarrow> bool" where
  "refuses_only r \<longleftrightarrow> (\<forall>e. r = Inl e \<longrightarrow> is_contract_error e)"

named_theorems refuses \<open>calls that raise nothing but refusals\<close>

lemma refuses_simple [refuses, simp]: "refuses_only (Inr x)" "refuses_only (fail m)"
  by (simp_all add: refuses_only_def)

lemma refuses_rbind [refuses]: "refuses_only m \<Longrightarrow> (\<And>x. m = Inr x \<Longrightarrow> refuses_only (f x)) \<Longrightarrow> refuses_only (rbind m f)"
  by (cases m) (auto simp: refuses_only_def)

lemma refuses_if [refuses]: "(c \<Longrightarrow> refuses_only a) \<Longrightarrow> (\<not> c \<Longrightarrow> refuses_only b) \<Longrightarrow> refuses_only (if c then a else b)"
  by simp

lemma refuses_let [refuses]: "refuses_only (f x) \<Longrightarrow> refuses_only (Let x f)"
  by simp

lemma refuses_rmap: "(\<And>x. x \<in> set xs \<Longrightarrow> refuses_only (f x)) \<Longrightarrow> refuses_only (rmap f xs)"
  by (induction xs) (auto intro!: refuses)

lemma refuses_checks [refuses]:
  "refuses_only (canonical v)" "refuses_only (py_count v s)" "refuses_only (py_digest v s)" "refuses_only (py_integer v s)"
  "refuses_only (audit_identifier v s)" "refuses_only (audit_optional_digest v s)" "refuses_only (member_string v ss s)"
  "refuses_only (component_actor_init c i)" "refuses_only (bounded_chain (Yields vs None) n)" "refuses_only (audit_verifier_init P k)"
  "refuses_only (nonce_of v)"
proof -
  show d: "refuses_only (py_digest v s)" for v s by (cases v) (auto simp: py_digest_def)
  show "refuses_only (audit_identifier v s)" using audit_identifier_contract by (auto simp: refuses_only_def)
  show "refuses_only (audit_optional_digest v s)" unfolding audit_optional_digest_def by (intro refuses d)
qed (auto simp: canonical_def py_count_def py_integer_def member_string_def component_actor_init_def bounded_chain_def audit_verifier_init_def
    nonce_of_def split: option.splits pyval.splits)

lemma refuses_event_init [refuses]: "refuses_only (event_init r)"
  unfolding event_init_def event_bindings_def by (intro refuses; (split pyval.split, intro conjI allI impI refuses)?)

lemma get_item_keys: "has_keys d ks \<Longrightarrow> k \<in> set ks \<Longrightarrow> refuses_only (get_item d k)"
proof -
  assume "has_keys d ks" "k \<in> set ks"
  then have "lit k \<in> fst ` set d" by (auto simp: has_keys_def)
  then have "map_of d (lit k) \<noteq> None" by (simp add: map_of_eq_None_iff)
  then show "refuses_only (get_item d k)" by (auto simp: get_item_def)
qed

lemma refuses_rehydrate [refuses]: "refuses_only (rehydrate_event v)"
proof (cases v)
  case (PDict d)
  have "refuses_only (get_item d ''actor'')" if "has_keys d EVENT_KEYS \<or> has_keys d EVENT_V2_KEYS"
    using that get_item_keys[of d EVENT_KEYS "''actor''"] get_item_keys[of d EVENT_V2_KEYS "''actor''"] by (auto simp: EVENT_KEYS_def EVENT_V2_KEYS_def)
  then show ?thesis
    unfolding rehydrate_event_def PDict pyval.case
    by (intro refuses) (auto simp: has_keys_def intro!: refuses split: pyval.splits)
qed (simp_all add: rehydrate_event_def)

lemma refuses_head_from [refuses]: "refuses_only (head_from v)"
proof (cases v)
  case (PDict d)
  have "refuses_only (get_item d k)" if "has_keys d HEAD_KEYS" "k \<in> {''version'', ''count'', ''head_hash'', ''signature''}" for k
    using get_item_keys[OF that(1), of k] that(2) by (auto simp: HEAD_KEYS_def)
  then show ?thesis unfolding head_from_def PDict pyval.case by (auto intro!: refuses)
qed (simp_all add: head_from_def)

lemma refuses_record_from [refuses]: "refuses_only (record_from v)"
proof (cases v)
  case (PDict d)
  have "refuses_only (get_item d k)" if "has_keys d RECORD_KEYS" "k \<in> {''event'', ''index'', ''previous_hash'', ''record_hash''}" for k
    using get_item_keys[OF that(1), of k] that(2) by (auto simp: RECORD_KEYS_def)
  then show ?thesis unfolding record_from_def PDict pyval.case by (auto intro!: refuses)
qed (simp_all add: record_from_def)

text \<open>A text that is read and cannot be printed again raises what no caller of \<open>_decode\<close> catches.\<close>

definition stops :: "(pystr \<Rightarrow> nesting) \<Rightarrow> exc \<Rightarrow> bool" where
  "stops deep e \<longleftrightarrow> is_contract_error e \<or> e = recursion_error \<and> (\<exists>t. deep t = DeepPrint)"

lemma recursion_not_contract [simp]: "\<not> is_contract_error recursion_error"
  by (simp add: recursion_error_def)

definition stops_only :: "(pystr \<Rightarrow> nesting) \<Rightarrow> 'a result \<Rightarrow> bool" where
  "stops_only deep r \<longleftrightarrow> (\<forall>e. r = Inl e \<longrightarrow> stops deep e)"

lemma refuses_stops: "refuses_only r \<Longrightarrow> stops_only deep r"
  by (auto simp: refuses_only_def stops_only_def stops_def)

lemma stops_rbind: "stops_only deep m \<Longrightarrow> (\<And>x. m = Inr x \<Longrightarrow> stops_only deep (f x)) \<Longrightarrow> stops_only deep (rbind m f)"
  by (cases m) (auto simp: stops_only_def)

lemma stops_decode: "stops_only deep (anchor_decode P deep data noun)"
proof -
  have "anchor_decode P deep data noun = Inl recursion_error \<and> (\<exists>t. deep t = DeepPrint) \<or> refuses_only (anchor_decode P deep data noun)"
    unfolding anchor_decode_def by (auto simp: Let_def intro!: refuses split: option.splits pyval.splits)
  then show ?thesis by (auto simp: stops_only_def stops_def refuses_only_def)
qed

lemma fromhex_hex_text: "list_all is_lower_hex s \<Longrightarrow> even (length s) \<Longrightarrow> fromhex s \<noteq> None"
proof (induction s rule: fromhex.induct)
  case (2 c cs)
  then obtain d ds where cs: "cs = d # ds" by (cases cs) auto
  have v: "hex_value c \<noteq> None" "hex_value d \<noteq> None" "c \<notin> {32, 9, 10, 11, 12, 13}"
    using "2.prems"(1) by (auto simp: cs hex_value_def is_lower_hex_def is_digit_def)
  then obtain h l where hl: "hex_value c = Some h" "hex_value d = Some l" by blast
  from "2.IH"(2)[OF v(3) cs _ hl(1,2)] "2.prems" cs have "fromhex ds \<noteq> None" by simp
  with v(3) hl show ?case by (simp add: cs)
qed simp

lemma refuses_verify_head [refuses]: "refuses_only (verify_head P (Some raw) (ByVerifier v))"
proof -
  have f: "fromhex s = None \<Longrightarrow> \<not> is_signature s" for s
    using fromhex_hex_text[of s] by (auto simp: is_signature_def hex_string_def)
  show ?thesis
    unfolding verify_head_def by (auto simp: head_verifier_def intro!: refuses split: pyval.splits option.splits) (simp add: f)
qed

text \<open>A position that can be printed: CPython refuses to print more than 4300 digits, and to read them.\<close>

definition printable :: "chain_item \<Rightarrow> bool" where
  "printable v \<longleftrightarrow> (\<forall>r i. v = Item r \<and> rr_index r = PInt i \<longrightarrow> int_text i \<noteq> None)"

lemma dumps_member:
  assumes "canonical (PDict d) = Inr b" "get_item d k = Inr v"
  shows "dumps v \<noteq> None"
proof -
  have "(lit k, v) \<in> set d" using assms(2) by (auto simp: get_item_def split: option.splits dest: map_of_SomeD)
  with canonical_dict_defined[of d] assms(1) show ?thesis by fastforce
qed

lemma record_from_printable: "record_from v = Inr x \<Longrightarrow> dumps v \<noteq> None \<Longrightarrow> printable x"
proof -
  assume r: "record_from v = Inr x" and d: "dumps v \<noteq> None"
  then obtain kvs where kvs: "v = PDict kvs" by (cases v) (auto simp: record_from_def)
  from d obtain b where b: "canonical (PDict kvs) = Inr b" unfolding kvs by (cases "dumps (PDict kvs)") (auto simp: canonical_def)
  from r[unfolded kvs record_from_def pyval.case] obtain i rec where "get_item kvs ''index'' = Inr i" "x = Item rec" "rr_index rec = i"
    by (auto simp: rbind_eq_Inr if_raise_eq_Inr)
  with dumps_member[OF b] show "printable x" by (fastforce simp: printable_def)
qed

lemma records_from_printable:
  assumes "canonical (PDict m) = Inr b" "records_from m = Inr xs"
  shows "\<forall>x \<in> set xs. printable x"
proof -
  from assms(2) obtain v where v: "get_item m ''records'' = Inr v" by (auto simp: records_from_def rbind_eq_Inr)
  with assms(2) obtain vs where vs: "get_item m ''records'' = Inr (PList vs)" "rmap record_from vs = Inr xs"
    by (cases v) (auto simp: records_from_def)
  from dumps_member[OF assms(1) vs(1)] have "\<forall>v \<in> set vs. dumps v \<noteq> None" by (auto simp: opt_map_conv)
  with vs(2) show ?thesis using record_from_printable by (induction vs arbitrary: xs) (auto simp: rbind_eq_Inr)
qed

lemma refuses_check_links:
  "\<forall>v \<in> set vs. printable v \<Longrightarrow> is_ascii prev \<Longrightarrow> refuses_only (check_links P pos prev vs)"
proof (induction vs arbitrary: pos prev)
  case (Cons v vs)
  have r: "refuses_only (checked_record v pos)"
    unfolding checked_record_def by (auto intro!: refuses split: chain_item.splits pyval.splits option.splits)
  have l: "refuses_only (check_link P pos prev r)" if c: "checked_record v pos = Inr r" for r
  proof -
    have "is_ascii (cr_previous_hash r)" "is_ascii (cr_record_hash r)" "int_text (cr_index r) \<noteq> None"
      using c Cons.prems(1) is_digest_ascii by (auto simp: checked_record_eq_Inr printable_def raw_item_def)
    moreover have "is_ascii x" if "record_hash P i e p = Inr x" for i e p x using that by (auto simp: record_hash_def rbind_eq_Inr)
    moreover have "refuses_only (record_hash P i e p)" for i e p unfolding record_hash_def by (intro refuses)
    ultimately show ?thesis
      unfolding check_link_def using Cons.prems(2) by (auto intro!: refuses split: option.splits)
  qed
  have "refuses_only (check_links P (Suc pos) (cr_record_hash r) vs)" if "checked_record v pos = Inr r" for r
    using Cons.IH[of "cr_record_hash r" "Suc pos"] Cons.prems(1) that is_digest_ascii by (auto simp: checked_record_eq_Inr)
  then show ?case using r l by (auto intro!: refuses)
qed simp

section \<open>Every request is answered\<close>

lemma refuses_verify_chain:
  assumes "\<forall>x \<in> set xs. printable x"
  shows "refuses_only (verify_chain P (Yields xs None) (Some raw) (ByVerifier v))"
proof -
  have t: "\<forall>x \<in> set c. printable x" if "bounded_chain (Yields xs None) n = Inr c" for n c
    using that assms by (auto simp: bounded_chain_def split: if_splits dest: in_set_takeD)
  have "is_ascii (end_hash EMPTY_HASH rs)" if "check_links P 0 EMPTY_HASH c = Inr rs" for c rs
    using that linked_end_digest[of P 0 EMPTY_HASH rs] is_digest_ascii by (auto simp: check_links_eq_Inr)
  moreover have "is_ascii (ah_head_hash h)" if "verify_head P (Some raw) (ByVerifier v) = Inr h" for h
    using that is_digest_ascii by (auto simp: verify_head_eq_Inr)
  ultimately show ?thesis
    unfolding verify_chain_def using t is_digest_ascii[OF empty_hash_digest]
    by (auto intro!: refuses refuses_check_links)
qed

lemma refuses_verify_extension:
  assumes "\<forall>x \<in> set xs. printable x"
  shows "refuses_only (verify_extension P (Yields xs None) (Some raw) (PInt n) (PStr h) (ByVerifier v))"
proof -
  have t: "\<forall>x \<in> set c. printable x" if "bounded_chain (Yields xs None) n = Inr c" for n c
    using that assms by (auto simp: bounded_chain_def split: if_splits dest: in_set_takeD)
  have "is_ascii (end_hash k rs)" if "check_links P n k c = Inr rs" "is_digest k" for c rs n k
    using that linked_end_digest[of P n k rs] is_digest_ascii by (auto simp: check_links_eq_Inr)
  moreover have "is_ascii (ah_head_hash h)" if "verify_head P (Some raw) (ByVerifier v) = Inr h" for h
    using that is_digest_ascii by (auto simp: verify_head_eq_Inr)
  ultimately show ?thesis
    unfolding verify_extension_def Let_def using t is_digest_ascii
    by (auto simp: py_digest_eq_Inr intro!: refuses refuses_check_links)
qed

lemma refuses_abind:
  "refuses_only (fst (m a)) \<Longrightarrow> (\<And>x a'. m a = (Inr x, a') \<Longrightarrow> refuses_only (fst (f x a'))) \<Longrightarrow> refuses_only (fst (abind m f a))"
  by (cases "m a"; cases "fst (m a)") (auto simp: abind_def refuses_only_def)

lemma refuses_actions: "refuses_only r \<Longrightarrow> refuses_only (fst (alift r a))" "refuses_only (fst (areturn x a))"
  "is_contract_error e \<Longrightarrow> refuses_only (fst (araise e a))" "refuses_only (fst (delta_base a))"
  by (simp_all add: alift_def areturn_def araise_def delta_base_def refuses_only_def)

lemma refuses_commit:
  assumes "\<forall>x \<in> set xs. printable x" "anchor_ok a"
  shows "refuses_only (fst (commit P (Some raw) (Yields xs None) (ByVerifier v) a))"
proof -
  let ?checks = "rbind (verify_head P (Some raw) (ByVerifier v)) (\<lambda>head. rbind (bounded_chain (Yields xs None) (ah_count head + 1)) (\<lambda>chain.
     verify_chain P (Yields chain None) (Some raw) (ByVerifier v)))"
  have "refuses_only ?checks"
    using assms(1) by (intro refuses refuses_verify_chain) (auto simp: bounded_chain_def split: if_splits dest: in_set_takeD)
  moreover have "refuses_only (fst (commit_locked head rs a))" if c: "?checks = Inr (head, rs)" for head rs
  proof -
    from c[unfolded commit_checks] have v: "linked P 0 EMPTY_HASH rs" "length rs = ah_count head" "is_digest (ah_head_hash head)"
      by (auto simp: verify_chain_eq_Inr verify_head_eq_Inr)
    have asc: "is_ascii (ah_head_hash head)" "is_ascii (an_head_hash a)" using v(3) assms(2) is_digest_ascii by (auto simp: anchor_ok_def)
    have "is_ascii (cr_record_hash (rs ! (an_count a - 1)))" if "an_count a \<noteq> 0" "ah_count head > an_count a"
      using that v(2) by (intro linked_digests[OF v(1)] nth_mem) linarith
    with asc show ?thesis unfolding commit_locked_def by (auto simp: refuses_only_def split: sum.splits if_splits)
  qed
  ultimately show ?thesis unfolding commit_def by (intro refuses_abind refuses_actions) (auto simp: alift_def)
qed

lemma refuses_commit_delta:
  assumes "\<forall>x \<in> set xs. printable x" "anchor_ok a"
  shows "refuses_only (fst (commit_delta P (Some raw) (Yields xs None) (ByVerifier v) a))"
proof -
  have "refuses_only (fst (delta_finish (committed a) head a))" for head by (simp add: delta_finish_def)
  then show ?thesis
    unfolding commit_delta_def using refuses_verify_extension[OF assms(1)]
    by (intro refuses_abind refuses_actions) (auto simp: delta_base_def alift_def)
qed

lemma refuses_handle:
  assumes "canonical (PDict m) = Inr b" "anchor_ok a"
  shows "refuses_only (fst (anchor_handle P v m a))"
proof -
  have items: "refuses_only (records_from m)" if "refuses_only (get_item m ''records'')"
    unfolding records_from_def using that by (intro refuses) (auto intro!: refuses refuses_rmap split: pyval.splits)
  have c: "refuses_only (fst (handle_commit P v m a))" if "has_keys m [''head'', ''kind'', ''records'']"
  proof -
    have "refuses_only (get_item m ''head'')" "refuses_only (get_item m ''records'')" using get_item_keys[OF that] by simp_all
    then show ?thesis
      unfolding handle_commit_def using items refuses_commit[OF records_from_printable[OF assms(1)] assms(2)]
      by (intro refuses_abind refuses_actions refuses) (auto simp: alift_def)
  qed
  have d: "refuses_only (fst (handle_commit2 P v m a))" if "has_keys m COMMIT2_KEYS"
  proof -
    have "refuses_only (get_item m ''head'')" "refuses_only (get_item m ''records'')" "refuses_only (get_item m ''from_count'')"
      using get_item_keys[OF that] by (simp_all add: COMMIT2_KEYS_def)
    then show ?thesis
      unfolding handle_commit2_def using items refuses_commit_delta[OF records_from_printable[OF assms(1)] assms(2)]
      by (intro refuses_abind refuses_actions refuses)
        (auto simp: alift_def delta_base_def areturn_def araise_def intro!: refuses_abind refuses_actions split: if_splits)
  qed
  show ?thesis unfolding anchor_handle_def using c d by (auto intro!: refuses_abind refuses_actions)
qed

section \<open>Every reply fits its frame\<close>

lemma json_string_latin: "list_all (\<lambda>c. c < 0x10000) s \<Longrightarrow> length (json_string s) \<le> 6 * length s + 2"
proof -
  assume "list_all (\<lambda>c. c < 0x10000) s"
  then have "length (concat (map esc_char s)) \<le> 6 * length s"
  proof (induction s)
    case (Cons c s)
    then have "length (esc_char c) \<le> 6" by (simp add: esc_char_def u_escape_def u_digits_def)
    with Cons show ?case by simp
  qed simp
  then show ?thesis by (simp add: json_string_def)
qed

lemma char_code_bound: "(of_char c :: nat) < 256"
  using of_char_mod_256[of c] by (metis mod_less_divisor zero_less_numeral)

lemma json_string_keys:
  "length (json_string (lit ''kind'')) = 6" "length (json_string (lit ''message'')) = 9" "length (json_string (lit ''count'')) = 7"
  "length (json_string (lit ''head_hash'')) = 11" "length (json_string (lit ''refused'')) = 9" "length (json_string (lit ''ok'')) = 4"
  "length (json_string (lit ''nonce'')) = 7" "length (json_string (lit ''reply'')) = 7" "length (json_string (lit ''signature'')) = 11"
  by (simp_all add: json_string_def lit_def esc_char_def)

definition reply_ok :: "message \<Rightarrow> bool" where
  "reply_ok r \<longleftrightarrow> (\<exists>t. dumps (PDict r) = Some t \<and> length t \<le> 3200)"

lemma refusal_ok: "reply_ok (anchor_refusal e)"
proof -
  let ?s = "take MAX_REFUSAL_CHARS (lit (exc_message e))"
  have "list_all (\<lambda>c. c < 0x10000) (lit (exc_message e))"
    by (auto simp: lit_def list_all_iff intro: less_le_trans[OF char_code_bound])
  then have "list_all (\<lambda>c. c < 0x10000) ?s" by (auto simp: list_all_iff dest: in_set_takeD)
  from json_string_latin[OF this] have "length (json_string ?s) \<le> 3074" by (simp add: MAX_REFUSAL_CHARS_def)
  then show ?thesis
    using length_dumps_dict[of "anchor_refusal e" "\<lambda>kv. if fst kv = lit ''kind'' then 9 else 3074"]
    by (auto simp: anchor_refusal_def reply_ok_def json_string_keys)
qed

lemma committed_reply_ok:
  assumes "int (fst st) \<le> MAX_COUNT" "is_digest (snd st)"
  shows "reply_ok (committed_reply st)"
proof -
  obtain t where "int_text (int (fst st)) = Some t" "length t \<le> 20" using int_text_bounded[of "int (fst st)"] assms(1) by (auto simp: MAX_COUNT_def)
  then show ?thesis
    using length_dumps_dict[of "committed_reply st" "\<lambda>kv. 66"] json_string_digest[OF assms(2)]
    by (auto simp: committed_reply_def reply_ok_def json_string_keys)
qed

lemma reply_frame: "reply_ok r \<Longrightarrow> \<exists>f. anchor_frame r MAX_REPLY_BYTES = Inr f"
  by (auto simp: reply_ok_def anchor_frame_eq_Inr canonical_eq_Inr MAX_REPLY_BYTES_def)

lemma envelope_fits:
  assumes "reply_ok r" "hex_string 64 nonce" "ed25519_ok P"
  shows "\<exists>f. envelope_frame P key nonce r = Inr f"
proof -
  have n: "length (json_string nonce) = 66" using json_string_digest[of nonce] assms(2) by (simp add: is_digest_def)
  obtain t where t: "dumps (PDict r) = Some t" "length t \<le> 3200" using assms(1) by (auto simp: reply_ok_def)
  obtain b where b: "reply_message nonce (PDict r) = Inr b"
    using canonical_dict_defined[of "[(lit ''nonce'', PStr nonce), (lit ''reply'', PDict r)]"] t
    by (fastforce simp: reply_message_def simp del: dumps.simps(9))
  let ?s = "bytes_hex (ed25519_sign P key b)"
  have "length ?s = 128" using assms(3) by (simp add: ed25519_ok_def)
  moreover have "list_all (\<lambda>c. c < 0x10000) ?s"
    using bytes_hex_ascii[of "ed25519_sign P key b"] by (fastforce simp: is_ascii_def list_all_iff)
  ultimately have s: "length (json_string ?s) \<le> 770" using json_string_latin[of ?s] by simp
  have "\<exists>u. dumps (PDict [(lit ''nonce'', PStr nonce), (lit ''reply'', PDict r), (lit ''signature'', PStr ?s)]) = Some u \<and> length u \<le> 4096"
    using length_dumps_dict[of "[(lit ''nonce'', PStr nonce), (lit ''reply'', PDict r), (lit ''signature'', PStr ?s)]"
        "\<lambda>kv. if fst kv = lit ''nonce'' then 66 else if fst kv = lit ''reply'' then 3200 else 770"] n s t
    by (auto simp: json_string_keys simp del: dumps.simps(9))
  then show ?thesis using b by (auto simp: envelope_frame_def anchor_frame_eq_Inr canonical_eq_Inr MAX_REPLY_BYTES_def simp del: dumps.simps(9))
qed

section \<open>The answer to a request\<close>

lemma commit_replies:
  assumes "commit P raw records c a = (Inr st, a')"
  shows "st = committed a'"
proof -
  have d: "(case m of Inl e \<Rightarrow> (Inl e, a) | Inr u \<Rightarrow> (Inr c, b)) = (Inr x, a') \<Longrightarrow> x = c \<and> a' = b" for m :: "unit result" and c x b
    by (cases m) auto
  from assms obtain head rs where "commit_locked head rs a = (Inr st, a')" by (auto simp: commit_def abind_eq_Inr alift_eq)
  then show ?thesis unfolding commit_locked_def by (blast dest: d)
qed

lemma commit_delta_replies:
  assumes "commit_delta P raw records c a = (Inr st, a')"
  shows "st = committed a'"
  using assms by (auto simp: commit_delta_def abind_eq_Inr alift_eq delta_base_def delta_finish_def split: sum.splits prod.splits if_splits)

lemma handle_replies:
  assumes "anchor_handle P v m a = (Inr reply, a')"
  shows "reply = committed_reply (committed a')"
  using assms unfolding anchor_handle_def handle_commit_def handle_commit2_def
  by (auto simp: abind_eq_Inr areturn_eq alift_eq araise_eq delta_base_def dest: commit_replies commit_delta_replies split: if_splits)

lemma handle_keeps_ok: "anchor_handle P v m a = (r, a') \<Longrightarrow> anchor_ok a \<Longrightarrow> anchor_ok a'"
  using handle_moves[of P v m a r a'] anchor_at_ok by (cases "a' = a") (auto simp: moves_to_def)

lemma answer_answers:
  assumes "anchor_answer P v durable m w = (r, w')" "canonical (PDict m) = Inr b" "anchor_ok (ho_anchor w)"
  shows "\<exists>x. r = Inr x \<and> anchor_ok (ho_anchor w') \<and> ho_out w' = ho_out w \<and> ho_out_takes w' = ho_out_takes w \<and> (\<forall>reply. x = Some reply \<longrightarrow> reply_ok reply)"
proof -
  obtain q a where h: "anchor_handle P v m (ho_anchor w) = (q, a)" by (cases "anchor_handle P v m (ho_anchor w)")
  have ok: "anchor_ok a" by (rule handle_keeps_ok[OF h assms(3)])
  show ?thesis
  proof (cases q)
    case (Inl e)
    then have "is_contract_error e" using refuses_handle[OF assms(2,3), of P v] h by (simp add: refuses_only_def)
    with assms(1) h Inl ok refusal_ok show ?thesis by (auto simp: anchor_answer_def azoom_def)
  next
    case (Inr reply)
    have rep: "reply_ok reply"
      using handle_replies[OF h[unfolded Inr]] committed_reply_ok[of "committed a"] ok by (simp add: anchor_ok_def committed_def)
    show ?thesis
    proof (cases "durable \<and> a \<noteq> ho_anchor w")
      case False
      with assms(1) h Inr ok rep show ?thesis by (auto simp: anchor_answer_def azoom_def committed_def)
    next
      case True
      with handle_moves[OF h assms(3)] obtain raw hd where
        m: "rbind (get_item m ''head'') head_from = Inr raw" "raw = head_raw hd" "verify_head P (Some raw) (ByVerifier v) = Inr hd" by (auto simp: moves_to_def)
      obtain line where line: "head_line raw = Inr line"
        by (rule verified_line[OF m(3)[unfolded m(2)], where deep = "\<lambda>_. Shallow"]) (use m(2) in \<open>auto simp: nesting_ok_def\<close>)
      obtain x f where f: "append_head raw (ho_file w) = (x, f)" by (cases "append_head raw (ho_file w)")
      from append_head_written[OF f line] have "x = Inr () \<or> x = Inl os_error" by blast
      with assms(1) h Inr m(1) f ok rep show ?thesis
        by (auto simp: anchor_answer_def azoom_def Let_def acatch_def abind_def alift_def areturn_def split: if_splits)
    qed
  qed
qed

lemma answered_codes:
  assumes "answered answer framed w = (q, w')" "answer w = (Inr x, w1)" "\<And>r. x = Some r \<Longrightarrow> \<exists>f. framed r = Inr f"
    and "anchor_ok (ho_anchor w1)" "ho_out w1 = ho_out w" "ho_out_takes w1 = ho_out_takes w"
  shows "anchor_ok (ho_anchor w') \<and> ho_out_takes w' = ho_out_takes w
     \<and> (q = Inr None \<and> length (ho_out w') = Suc (length (ho_out w)) \<or> q = Inr (Some 2) \<and> ho_out w' = ho_out w
        \<or> q = Inl os_error \<and> ho_out_takes w \<noteq> None \<and> ho_out w' = ho_out w)"
proof (cases x)
  case None
  with assms show ?thesis by (auto simp: answered_def abind_def areturn_def)
next
  case (Some r)
  with assms(3) obtain f where "framed r = Inr f" by blast
  with assms Some show ?thesis
    by (auto simp: answered_def abind_def areturn_def alift_def reply_write_def split: if_splits option.splits)
qed

text \<open>What one round of either loop does to the replies.\<close>

definition round_ok :: "(pystr \<Rightarrow> nesting) \<Rightarrow> anchor_host \<Rightarrow> nat option result \<Rightarrow> anchor_host \<Rightarrow> bool" where
  "round_ok deep w q w' \<longleftrightarrow> anchor_ok (ho_anchor w') \<and> ho_out_takes w' = ho_out_takes w
     \<and> (q = Inr None \<and> length (ho_out w') = Suc (length (ho_out w)) \<or> q \<in> {Inr (Some 0), Inr (Some 2)} \<and> ho_out w' = ho_out w
        \<or> q = Inl os_error \<and> ho_out_takes w \<noteq> None \<and> ho_out w' = ho_out w
        \<or> q = Inl recursion_error \<and> (\<exists>t. deep t = DeepPrint) \<and> ho_out w' = ho_out w)"

lemma child_round:
  assumes "child_step P deep v durable data w = (q, w')" "anchor_ok (ho_anchor w)"
  shows "round_ok deep w q w'"
proof (cases "anchor_decode P deep data ''anchor request''")
  case (Inl e)
  then have s: "stops deep e" using stops_decode[of deep P data "''anchor request''"] by (simp add: stops_only_def)
  show ?thesis
  proof (cases "is_contract_error e")
    case True
    with answered_codes[OF assms(1)[unfolded child_step_answered Inl sum.case], of "Some (anchor_refusal e)" w] reply_frame[OF refusal_ok] assms(2)
    show ?thesis by (auto simp: areturn_def round_ok_def)
  next
    case False
    with s assms Inl show ?thesis by (auto simp: child_step_def stops_def abind_def araise_def round_ok_def)
  qed
next
  case (Inr m)
  obtain r w1 where r: "anchor_answer P v durable m w = (r, w1)" by (cases "anchor_answer P v durable m w")
  from answer_answers[OF r anchor_decode_eq_Inr[OF Inr] assms(2)] r obtain x where
    x: "anchor_answer P v durable m w = (Inr x, w1)" "anchor_ok (ho_anchor w1)" "ho_out w1 = ho_out w" "ho_out_takes w1 = ho_out_takes w" "\<forall>reply. x = Some reply \<longrightarrow> reply_ok reply" by blast
  from answered_codes[OF assms(1)[unfolded child_step_answered Inr sum.case] x(1) _ x(2-4)] x(5) reply_frame show ?thesis
    by (auto simp: round_ok_def)
qed

lemma envelope_of_facts:
  assumes "envelope_of P deep data = Inr (nonce, m)"
  shows "hex_string 64 nonce" "\<exists>b. canonical (PDict m) = Inr b"
proof -
  from assms obtain d where d: "anchor_decode P deep data ''anchor request'' = Inr d" by (auto simp: envelope_of_def rbind_eq_Inr)
  with assms obtain n where n: "rbind (get_item d ''nonce'') nonce_of = Inr n" unfolding envelope_of_def by (cases "rbind (get_item d ''nonce'') nonce_of") (auto split: if_splits)
  with assms d obtain v where v: "get_item d ''request'' = Inr v" unfolding envelope_of_def by (cases "get_item d ''request''") (auto split: if_splits)
  have vm: "v = PDict m" "n = nonce" using assms d n v unfolding envelope_of_def by (cases v; simp split: if_splits)+
  obtain x where "nonce_of x = Inr nonce" using n vm(2) by (auto simp: rbind_eq_Inr)
  then show "hex_string 64 nonce" by (cases x) (auto simp: nonce_of_def split: if_splits)
  from dumps_member[OF anchor_decode_eq_Inr[OF d] v] vm(1) show "\<exists>b. canonical (PDict m) = Inr b" by (cases "dumps (PDict m)") (auto simp: canonical_def)
qed

lemma stops_envelope_of: "stops_only deep (envelope_of P deep data)"
proof -
  have "refuses_only (get_item d ''nonce'')" "refuses_only (get_item d ''request'')" if "has_keys d REQUEST_KEYS" for d
    using get_item_keys[OF that] by (simp_all add: REQUEST_KEYS_def)
  then show ?thesis unfolding envelope_of_def
    by (intro stops_rbind[OF stops_decode] refuses_stops) (auto intro!: refuses split: pyval.splits)
qed

lemma connection_round:
  assumes "connection_step P deep v key data w = (q, w')" "anchor_ok (ho_anchor w)" "ed25519_ok P"
  shows "round_ok deep w q w'"
proof (cases "envelope_of P deep data")
  case (Inl e)
  then have "stops deep e" using stops_envelope_of[of deep P data] by (simp add: stops_only_def)
  with assms Inl show ?thesis by (auto simp: connection_step_answered areturn_def araise_def round_ok_def stops_def)
next
  case (Inr p)
  obtain nonce m where p: "p = (nonce, m)" by (cases p)
  note e = envelope_of_facts[OF Inr[unfolded p]]
  then obtain b where b: "canonical (PDict m) = Inr b" by blast
  obtain r w1 where r: "anchor_answer P v True m w = (r, w1)" by (cases "anchor_answer P v True m w")
  from answer_answers[OF r b assms(2)] r obtain x where
    x: "anchor_answer P v True m w = (Inr x, w1)" "anchor_ok (ho_anchor w1)" "ho_out w1 = ho_out w" "ho_out_takes w1 = ho_out_takes w" "\<forall>reply. x = Some reply \<longrightarrow> reply_ok reply" by blast
  from answered_codes[OF assms(1)[unfolded connection_step_answered Inr p sum.case prod.case] x(1) _ x(2-4)] x(5) envelope_fits[OF _ e(1) assms(3)] show ?thesis
    by (auto simp: round_ok_def)
qed

section \<open>The loops end\<close>

definition quiet_inv :: "nat option \<Rightarrow> anchor_host \<Rightarrow> bool" where
  "quiet_inv takes w \<longleftrightarrow> anchor_ok (ho_anchor w) \<and> ho_out_takes w = takes"

definition quiet_end :: "(pystr \<Rightarrow> nesting) \<Rightarrow> nat option \<Rightarrow> nat result \<Rightarrow> anchor_host \<Rightarrow> bool" where
  "quiet_end deep takes r w \<longleftrightarrow> quiet_inv takes w \<and> (r \<in> {Inr 0, Inr 2} \<or> r = Inl os_error \<and> takes \<noteq> None \<or> r = Inl recursion_error \<and> (\<exists>t. deep t = DeepPrint))"

interpretation child_rounds: request_loop "child_step P deep v durable" "quiet_inv takes" "quiet_end deep takes" for P deep v durable takes
  by unfold_locales (auto simp: quiet_inv_def quiet_end_def round_ok_def dest!: child_round)

text \<open>One reply for at least four bytes read.\<close>

lemma loop_replies:
  assumes "\<And>data w q w'. step data w = (q, w') \<Longrightarrow> quiet_inv takes w \<Longrightarrow> round_ok deep w q w'"
    and "serve_loop step s w = (r, s', w')" "quiet_inv takes w"
  shows "4 * length (ho_out w') + length (si_data s') \<le> 4 * length (ho_out w) + length (si_data s)"
  using assms(2,3)
proof (induction "length (si_data s)" arbitrary: s w rule: less_induct)
  case less
  have shr: "length (si_data s1) \<le> length (si_data s)" if "read_frame s = (q, s1)" for q s1
    using that by (auto simp: read_frame_def abind_def areturn_def stream_read_def Let_def split: if_splits)
  from less.prems(1) show ?case
  proof (cases rule: serve_loop_cases)
    case (frame data s1 q w1)
    note rd = assms(1)[OF frame(2) less.prems(2)]
    note sh = read_frame_shrinks[OF frame(1)]
    show ?thesis
    proof (cases "q = Inr None")
      case True
      have "quiet_inv takes w1" using rd less.prems(2) by (simp add: round_ok_def quiet_inv_def)
      with less.hyps[of s1 w1] sh frame(3) True rd show ?thesis by (auto simp: round_ok_def)
    next
      case False
      with rd frame(3) sh show ?thesis by (auto simp: round_ok_def split: sum.splits option.splits)
    qed
  qed (use shr in auto)
qed

lemma load_state_ok:
  assumes "load_state P deep v durable f = Inr a"
  shows "anchor_ok a"
proof -
  have new: "anchor_ok anchor_new" by (simp add: anchor_ok_def anchor_new_def MAX_COUNT_def)
  have "anchor_ok (anchor_at h)" if "load_lines P deep v None (split_lines d) = Inr (Some h)" for d h
    using anchor_at_ok[OF load_lines_verified[OF that]] by simp
  with new assms show ?thesis by (auto simp: load_state_def load_data_eq_Inr split: if_splits option.splits)
qed

lemma stops_load_state: "stops_only deep (load_state P deep v durable f)"
proof -
  have l: "stops_only deep (load_lines P deep v p ls)" for p ls
  proof (induction ls arbitrary: p)
    case (Cons line ls)
    show ?case unfolding load_lines.simps
      by (intro stops_rbind[OF stops_decode] stops_rbind[OF refuses_stops])
        (auto intro!: refuses Cons.IH refuses_stops[of "fail _"] split: option.splits)
  qed (simp add: stops_only_def)
  moreover have "refuses_only (anchor_resumed P (map_option head_raw h) (ByVerifier v))" for h
  proof (cases h)
    case None
    then show ?thesis by (simp add: anchor_resumed_def verify_head_def head_verifier_def)
  next
    case (Some k)
    then show ?thesis unfolding anchor_resumed_def by (auto intro!: refuses)
  qed
  ultimately show ?thesis unfolding load_state_def load_data_def
    by (auto simp: Let_def intro!: refuses_stops[of "fail _"] refuses_stops[of "Inr _"] refuses_stops[of "anchor_resumed _ _ _"] stops_rbind[OF l] split: option.splits)
qed

lemma serve_locked_ends:
  assumes "serve_locked P deep v durable s w = (r, s', w')"
  shows "4 * length (ho_out w') + length (si_data s') \<le> 4 * length (ho_out w) + length (si_data s) + 4 \<and> ho_out_takes w' = ho_out_takes w
     \<and> (r \<in> {Inr 0, Inr 2} \<or> (\<exists>e. r = Inl e \<and> is_contract_error e) \<and> ho_out w' = ho_out w \<or> r = Inl os_error \<and> (ho_out_takes w \<noteq> None \<or> si_fails s)
        \<or> r = Inl recursion_error \<and> (\<exists>t. deep t = DeepPrint))"
proof (cases "load_state P deep v durable (ho_file w)")
  case (Inl e)
  moreover have "stops deep e" using stops_load_state[of deep P v durable "ho_file w"] Inl by (simp add: stops_only_def)
  ultimately show ?thesis using assms by (auto simp: serve_locked_def abind_def stops_def)
next
  case (Inr a)
  have ok: "anchor_ok a" by (rule load_state_ok[OF Inr])
  obtain f where f: "anchor_frame (committed_reply (committed a)) MAX_REPLY_BYTES = Inr f"
    using reply_frame[OF committed_reply_ok[of "committed a"]] ok by (auto simp: anchor_ok_def committed_def)
  let ?w = "w\<lparr>ho_anchor := a\<rparr>"
  show ?thesis
  proof (cases "reply_write f ?w")
    case (Pair q w1)
    show ?thesis
    proof (cases q)
      case (Inl e)
      with assms Inr f Pair show ?thesis by (auto simp: serve_locked_def abind_def alift_def reply_write_def split: if_splits option.splits)
    next
      case (Inr u)
      have w1: "w1 = ?w\<lparr>ho_out := ho_out w @ [f]\<rparr>" using Pair Inr by (auto simp: reply_write_def split: if_splits)
      have l: "serve_loop (child_step P deep v durable) s w1 = (r, s', w')"
        using assms \<open>load_state P deep v durable (ho_file w) = Inr a\<close> f Pair Inr by (auto simp: serve_locked_def abind_def alift_def)
      have qi: "quiet_inv (ho_out_takes w) w1" using ok w1 by (simp add: quiet_inv_def)
      have "4 * length (ho_out w') + length (si_data s') \<le> 4 * length (ho_out w1) + length (si_data s)"
        by (rule loop_replies[OF _ l qi]) (auto intro: child_round simp: quiet_inv_def)
      with child_rounds.loop_ended[OF qi l] w1 show ?thesis by (auto simp: quiet_end_def quiet_inv_def)
    qed
  qed
qed

lemma serve_ends:
  assumes "anchor_serve P deep lock durable s w = (r, s', w')" "refuses_only lock"
  shows "(r \<in> {Inr 0, Inr 1, Inr 2} \<or> r = Inl os_error \<and> (ho_out_takes w \<noteq> None \<or> si_fails s) \<or> r = Inl recursion_error \<and> (\<exists>t. deep t = DeepPrint))
     \<and> 4 * length (ho_out w') \<le> 4 * length (ho_out w) + length (si_data s)"
proof -
  obtain q s1 where q: "read_frame s = (q, s1)" by (cases "read_frame s")
  show ?thesis
  proof (cases q)
    case (Inl e)
    then have "e = os_error \<and> si_fails s" using q by (auto simp: read_frame_def abind_def areturn_def stream_read_def Let_def split: if_splits)
    with assms(1) q Inl show ?thesis by (auto simp: anchor_serve_def)
  next
    case (Inr d)
    show ?thesis
    proof (cases d)
      case None
      with assms(1) q Inr show ?thesis by (auto simp: anchor_serve_def)
    next
      case (Some data)
      note sh = read_frame_shrinks[OF q[unfolded Inr Some]]
      show ?thesis
      proof (cases "rbind (anchor_decode P deep data ''anchor init'') (verifier_from P)")
        case (Inl e)
        have "refuses_only (verifier_from P m)" for m
          unfolding verifier_from_def by (auto intro!: refuses split: option.splits pyval.splits)
        then have "stops_only deep (rbind (anchor_decode P deep data ''anchor init'') (verifier_from P))"
          by (intro stops_rbind[OF stops_decode] refuses_stops)
        then have "stops deep e" using Inl by (simp add: stops_only_def)
        with assms(1) q \<open>q = Inr d\<close> Some Inl show ?thesis by (auto simp: anchor_serve_def stops_def)
      next
        case (Inr v)
        let ?w = "if durable then w\<lparr>ho_file := created_file (ho_file w)\<rparr> else w"
        obtain r2 s2 w2 where l: "(case lock of Inl e \<Rightarrow> (Inl e, s1, w) | Inr _ \<Rightarrow> serve_locked P deep v durable s1 ?w) = (r2, s2, w2)" by (metis prod_cases3)
        have L: "4 * length (ho_out w2) + length (si_data s2) \<le> 4 * length (ho_out w) + length (si_data s1) + 4 \<and> ho_out_takes w2 = ho_out_takes w
            \<and> (r2 \<in> {Inr 0, Inr 2} \<or> (\<exists>e. r2 = Inl e \<and> is_contract_error e) \<and> ho_out w2 = ho_out w \<or> r2 = Inl os_error \<and> (ho_out_takes w \<noteq> None \<or> si_fails s1)
              \<or> r2 = Inl recursion_error \<and> (\<exists>t. deep t = DeepPrint))"
        proof (cases lock)
          case (Inl e)
          with l assms(2) show ?thesis by (auto simp: refuses_only_def)
        next
          case (Inr u)
          with l serve_locked_ends[of P deep v durable s1 ?w r2 s2 w2] show ?thesis by (auto split: if_splits)
        qed
        obtain f where f: "anchor_frame (anchor_refusal e) MAX_REPLY_BYTES = Inr (f e)" for e using reply_frame[OF refusal_ok] by metis
        show ?thesis
          using assms(1) q \<open>q = Inr d\<close> Some Inr l L sh f
          by (auto simp: anchor_serve_def abind_def alift_def reply_write_def os_error_def recursion_error_def split: sum.splits if_splits option.splits)
      qed
    qed
  qed
qed

end
