(* ===== verification/AnchorClient.thy ===== *)
theory AnchorClient
  imports AnchorReplies
begin

text \<open>
  The writer's side of \<open>geniusnew/anchor_process.py\<close>: an \<open>AnchorProcess\<close> talks to a child over pipes, an
  \<open>AnchorClient\<close> to a served anchor over a socket. What a read finds is a list of segments, so that it says
  how the operating system cut the bytes; the other side is an argument, an action on a state of its own.
\<close>

section \<open>Reading a reply\<close>

text \<open>What one call of \<open>recv\<close> or \<open>os.read\<close> finds: bytes, or the deadline. No bytes are the end.\<close>

datatype segment = Chunk bytes | Late

definition unreachable :: exc where "unreachable = PyError ''_Unreachable''"

text \<open>\<open>_receive\<close> and \<open>_read_exact\<close>; a deadline raises \<open>late\<close>.\<close>

function receive :: "exc \<Rightarrow> segment list \<Rightarrow> nat \<Rightarrow> (bytes \<times> segment list) result" where
  "receive late segs n =
     (if n = 0 then Inr ([], segs) else
      case segs of
        [] \<Rightarrow> Inl unreachable
      | Late # _ \<Rightarrow> Inl late
      | Chunk bs # rest \<Rightarrow>
          if bs = [] then Inl unreachable else
          rbind (receive late (if length bs \<le> n then rest else Chunk (drop n bs) # rest) (n - length (take n bs))) (\<lambda>(more, left).
          Inr (take n bs @ more, left)))"
  by pat_completeness auto
termination by (relation "measure (\<lambda>(late, segs, n). n)") auto

declare receive.simps [simp del]

definition read_reply :: "exc \<Rightarrow> segment list \<Rightarrow> bytes result" where
  "read_reply late segs =
     rbind (receive late segs 4) (\<lambda>(header, left).
     if from_big_endian header > MAX_REPLY_BYTES then Inl unreachable else
     rbind (receive late left (from_big_endian header)) (\<lambda>(data, _). Inr data))"

section \<open>The client of a served anchor\<close>

record anchor_client =
  cl_socket_path :: pystr
  cl_reply_key :: bytes

definition client_init :: "platform \<Rightarrow> pyval \<Rightarrow> pyval \<Rightarrow> anchor_client result" where
  "client_init P socket_path reply_public_key =
     rbind (absolute_path socket_path ''socket_path'') (\<lambda>path.
     case reply_public_key of
       PBytes k \<Rightarrow>
         if length k \<noteq> 32 then fail ''reply_public_key must be 32 bytes'' else
         if \<not> ed25519_valid_public P k then fail ''reply_public_key is not an Ed25519 public key'' else
         Inr \<lparr>cl_socket_path = path, cl_reply_key = k\<rparr>
     | _ \<Rightarrow> fail ''reply_public_key must be 32 bytes'')"

definition client_signed :: "platform \<Rightarrow> anchor_client \<Rightarrow> pystr \<Rightarrow> pyval \<Rightarrow> pyval \<Rightarrow> bool" where
  "client_signed P c nonce reply signature =
     (case (reply, signature) of
        (PDict r, PStr s) \<Rightarrow>
          (case (fromhex s, reply_message nonce reply) of
             (Some sig, Inr m) \<Rightarrow> ed25519_verify P (cl_reply_key c) m sig
           | _ \<Rightarrow> False)
      | _ \<Rightarrow> False)"

text \<open>What the client makes of the bytes of a reply.\<close>

definition client_reads :: "platform \<Rightarrow> (pystr \<Rightarrow> nesting) \<Rightarrow> anchor_client \<Rightarrow> pystr \<Rightarrow> bytes \<Rightarrow> (nat \<times> pystr) result" where
  "client_reads P deep c nonce data =
     rbind (anchor_decode P deep data ''anchor reply'') (\<lambda>envelope.
     if \<not> has_keys envelope REPLY_KEYS then fail ''anchor reply envelope is malformed'' else
     if \<not> field_is envelope ''nonce'' nonce then fail ''anchor reply answers another request'' else
     rbind (get_item envelope ''reply'') (\<lambda>reply.
     rbind (get_item envelope ''signature'') (\<lambda>signature.
     if \<not> client_signed P c nonce reply signature then fail ''anchor reply is not signed by the anchor'' else
     case reply of PDict r \<Rightarrow> state_of r | _ \<Rightarrow> fail ''anchor reply is not signed by the anchor'')))"

text \<open>\<open>ask\<close> connects, sends the frame and yields what comes back, or raises \<open>OSError\<close>; \<open>nonce\<close> is
  \<open>os.urandom(32).hex()\<close>.\<close>

definition client_exchange ::
  "platform \<Rightarrow> (pystr \<Rightarrow> nesting) \<Rightarrow> (bytes \<Rightarrow> ('n, segment list) action) \<Rightarrow> anchor_client \<Rightarrow> bytes \<Rightarrow> message \<Rightarrow> ('n, nat \<times> pystr) action" where
  "client_exchange P deep ask c random request =
     (let nonce = bytes_hex random in
      abind (alift (anchor_frame [(lit ''nonce'', PStr nonce), (lit ''request'', PDict request)] MAX_REQUEST_BYTES)) (\<lambda>frame.
      abind (acatch (abind (ask frame) (\<lambda>segs. alift (rbind (read_reply os_error segs) (\<lambda>data. Inr (Some data)))))
               (\<lambda>e. if e = unreachable \<or> e = os_error then areturn None else araise e)) (\<lambda>data.
      case data of
        None \<Rightarrow> araise (ContractError ''anchor service is unreachable'')
      | Some d \<Rightarrow> alift (client_reads P deep c nonce d))))"

definition client_committed ::
  "platform \<Rightarrow> (pystr \<Rightarrow> nesting) \<Rightarrow> (bytes \<Rightarrow> ('n, segment list) action) \<Rightarrow> anchor_client \<Rightarrow> bytes \<Rightarrow> ('n, nat \<times> pystr) action" where
  "client_committed P deep ask c random = client_exchange P deep ask c random committed_request"

definition client_commit ::
  "platform \<Rightarrow> (pystr \<Rightarrow> nesting) \<Rightarrow> (bytes \<Rightarrow> ('n, segment list) action) \<Rightarrow> anchor_client \<Rightarrow> bytes \<Rightarrow> raw_head option \<Rightarrow> chain_items
     \<Rightarrow> ('n, nat \<times> pystr) action" where
  "client_commit P deep ask c random head records =
     abind (alift (commit_request head records)) (client_exchange P deep ask c random)"

definition client_commit_delta ::
  "platform \<Rightarrow> (pystr \<Rightarrow> nesting) \<Rightarrow> (bytes \<Rightarrow> ('n, segment list) action) \<Rightarrow> anchor_client \<Rightarrow> bytes \<Rightarrow> raw_head option \<Rightarrow> chain_items
     \<Rightarrow> ('n, nat \<times> pystr) action" where
  "client_commit_delta P deep ask c random head records =
     abind (alift (commit2_request head records)) (client_exchange P deep ask c random)"

section \<open>The owner of a child\<close>

text \<open>The child is an argument: starting it, and sending it a frame, which yields what is read back.
  \<open>pr_stopped\<close> says that the finalizer closed the pipes; a write then raises \<open>ValueError\<close>.\<close>

record 'c process_state =
  pr_started :: bool
  pr_closed :: bool
  pr_stopped :: bool
  pr_child :: 'c

definition on_child :: "('c, 'a) action \<Rightarrow> ('c process_state, 'a) action" where
  "on_child m = azoom pr_child (\<lambda>c p. p\<lparr>pr_child := c\<rparr>) m"

definition process_init :: "pyval \<Rightarrow> 'c \<Rightarrow> 'c process_state result" where
  "process_init state_path child =
     rbind (if state_path = PNone then Inr [] else absolute_path state_path ''state_path'') (\<lambda>_.
     Inr \<lparr>pr_started = False, pr_closed = False, pr_stopped = False, pr_child = child\<rparr>)"

text \<open>\<open>self._close()\<close>: nothing before the child was started, its end after.\<close>

definition process_stop :: "('c process_state, unit) action" where
  "process_stop p = (Inr (), if pr_started p then p\<lparr>pr_stopped := True\<rparr> else p)"

definition process_close :: "('c process_state, unit) action" where
  "process_close p = process_stop (p\<lparr>pr_closed := True\<rparr>)"

definition process_send :: "(bytes \<Rightarrow> ('c, segment list) action) \<Rightarrow> bytes \<Rightarrow> ('c process_state, bytes) action" where
  "process_send send frame p =
     (if pr_stopped p then (Inl (PyError ''ValueError''), p) else
      abind (on_child (send frame)) (\<lambda>segs. alift (read_reply unreachable segs)) p)"

text \<open>\<open>Inl\<close> with a \<open>Rejected\<close> sentence stands for \<open>_Refused\<close>.\<close>

definition refused_start :: "exc \<Rightarrow> exc" where
  "refused_start e = Rejected (exc_message e) ''_Refused'' 0"

definition process_started ::
  "platform \<Rightarrow> (pystr \<Rightarrow> nesting) \<Rightarrow> ('c, unit) action \<Rightarrow> (bytes \<Rightarrow> ('c, segment list) action) \<Rightarrow> audit_verifier \<Rightarrow> ('c process_state, unit) action" where
  "process_started P deep start send verifier p =
     (if pr_started p then (Inr (), p) else
      if pr_closed p then (Inl unreachable, p) else
      abind (on_child start) (\<lambda>_.
      abind (\<lambda>p. (Inr (), p\<lparr>pr_started := True\<rparr>)) (\<lambda>_.
      abind (alift (anchor_frame [(lit ''kind'', PStr (lit ''init'')), (lit ''public_key'', PStr (bytes_hex (av_public_key verifier)))] MAX_REQUEST_BYTES)) (\<lambda>frame.
      abind (process_send send frame) (\<lambda>reply.
      case rbind (anchor_decode P deep reply ''anchor reply'') state_of of
        Inl e \<Rightarrow> araise (if is_contract_error e then refused_start e else e)
      | Inr _ \<Rightarrow> areturn ())))) p)"

definition process_exchange ::
  "platform \<Rightarrow> (pystr \<Rightarrow> nesting) \<Rightarrow> ('c, unit) action \<Rightarrow> (bytes \<Rightarrow> ('c, segment list) action) \<Rightarrow> audit_verifier \<Rightarrow> message
     \<Rightarrow> ('c process_state, nat \<times> pystr) action" where
  "process_exchange P deep start send verifier m =
     abind (alift (anchor_frame m MAX_REQUEST_BYTES)) (\<lambda>frame.
     abind (acatch (abind (process_started P deep start send verifier) (\<lambda>_. abind (process_send send frame) (\<lambda>r. areturn (Some r))))
              (\<lambda>e. case e of
                     Rejected refusal _ _ \<Rightarrow> abind process_stop (\<lambda>_. araise (ContractError (''anchor process refused to start: '' @ refusal)))
                   | PyError k \<Rightarrow>
                       if k \<in> {''_Unreachable'', ''OSError'', ''ValueError''} then abind process_stop (\<lambda>_. areturn None) else araise e
                   | _ \<Rightarrow> abind process_stop (\<lambda>_. areturn None))) (\<lambda>reply.
     case reply of
       None \<Rightarrow> araise (ContractError ''anchor process is unreachable'')
     | Some data \<Rightarrow> alift (rbind (anchor_decode P deep data ''anchor reply'') state_of)))"

definition process_committed ::
  "platform \<Rightarrow> (pystr \<Rightarrow> nesting) \<Rightarrow> ('c, unit) action \<Rightarrow> (bytes \<Rightarrow> ('c, segment list) action) \<Rightarrow> audit_verifier \<Rightarrow> ('c process_state, nat \<times> pystr) action" where
  "process_committed P deep start send verifier = process_exchange P deep start send verifier committed_request"

definition process_commit ::
  "platform \<Rightarrow> (pystr \<Rightarrow> nesting) \<Rightarrow> ('c, unit) action \<Rightarrow> (bytes \<Rightarrow> ('c, segment list) action) \<Rightarrow> audit_verifier \<Rightarrow> raw_head option \<Rightarrow> chain_items
     \<Rightarrow> ('c process_state, nat \<times> pystr) action" where
  "process_commit P deep start send verifier head records =
     abind (alift (commit_request head records)) (process_exchange P deep start send verifier)"

definition process_commit_delta ::
  "platform \<Rightarrow> (pystr \<Rightarrow> nesting) \<Rightarrow> ('c, unit) action \<Rightarrow> (bytes \<Rightarrow> ('c, segment list) action) \<Rightarrow> audit_verifier \<Rightarrow> raw_head option \<Rightarrow> chain_items
     \<Rightarrow> ('c process_state, nat \<times> pystr) action" where
  "process_commit_delta P deep start send verifier head records =
     abind (alift (commit2_request head records)) (process_exchange P deep start send verifier)"

section \<open>A reply arrives however it is cut\<close>

fun segment_bytes :: "segment \<Rightarrow> bytes" where
  "segment_bytes (Chunk bs) = bs"
| "segment_bytes Late = []"

definition bytes_of :: "segment list \<Rightarrow> bytes" where
  "bytes_of segs = concat (map segment_bytes segs)"

definition all_chunks :: "segment list \<Rightarrow> bool" where
  "all_chunks segs \<longleftrightarrow> (\<forall>s \<in> set segs. segment_bytes s \<noteq> [])"

lemma segments_simps [simp]:
  "bytes_of [] = []" "bytes_of (Chunk bs # segs) = bs @ bytes_of segs"
  "all_chunks []" "all_chunks (Chunk bs # segs) \<longleftrightarrow> bs \<noteq> [] \<and> all_chunks segs" "\<not> all_chunks (Late # segs)"
  by (auto simp: bytes_of_def all_chunks_def)

lemma receive_cut:
  "all_chunks segs \<Longrightarrow> n \<le> length (bytes_of segs) \<Longrightarrow>
     \<exists>left. receive late segs n = Inr (take n (bytes_of segs), left) \<and> bytes_of left = drop n (bytes_of segs) \<and> all_chunks left"
proof (induction late segs n rule: receive.induct)
  case (1 late segs n)
  show ?case
  proof (cases "n = 0")
    case True
    with "1.prems" show ?thesis by (simp add: receive.simps)
  next
    case False
    with "1.prems" obtain bs rest where segs: "segs = Chunk bs # rest" "bs \<noteq> []" "all_chunks rest"
      by (cases segs; cases "hd segs") auto
    let ?left = "if length bs \<le> n then rest else Chunk (drop n bs) # rest"
    have l: "bytes_of ?left = drop (length (take n bs)) (bs @ bytes_of rest)" "all_chunks ?left" "n - length (take n bs) \<le> length (bytes_of ?left)"
      using segs "1.prems"(2) by auto
    from "1.IH"[OF False segs(1) refl segs(2) l(2,3)] obtain left where
      r: "receive late ?left (n - length (take n bs)) = Inr (take (n - length (take n bs)) (bytes_of ?left), left)"
      "bytes_of left = drop (n - length (take n bs)) (bytes_of ?left)" "all_chunks left" by blast
    have "receive late segs n = Inr (take n bs @ take (n - length (take n bs)) (bytes_of ?left), left)"
      using False segs r(1) by (subst receive.simps) simp
    moreover have "take n bs @ take (n - length (take n bs)) (bytes_of ?left) = take n (bs @ bytes_of rest)"
      using segs by (cases "length bs \<le> n") auto
    ultimately show ?thesis using r(2,3) l(1) segs(1) by (auto simp: min_def split: if_splits)
  qed
qed

lemma read_reply_framed:
  assumes "all_chunks segs" "bytes_of segs = big_endian4 (length data) @ data @ rest" "length data \<le> MAX_REPLY_BYTES"
  shows "read_reply late segs = Inr data"
proof -
  have n: "from_big_endian (big_endian4 (length data)) = length data" using assms(3) by (intro big_endian_roundtrip) (simp add: MAX_REPLY_BYTES_def)
  obtain left where l: "receive late segs 4 = Inr (big_endian4 (length data), left)" "bytes_of left = data @ rest" "all_chunks left"
    using receive_cut[OF assms(1), of 4 late] assms(2) by auto
  obtain left' where "receive late left (length data) = Inr (data, left')" using receive_cut[OF l(3), of "length data" late] l(2) by auto
  with l(1) n assms(3) show ?thesis by (simp add: read_reply_def)
qed

section \<open>One request over a connection\<close>

lemma read_frame_framed:
  assumes "length data \<le> MAX_REQUEST_BYTES"
  shows "read_frame \<lparr>si_data = big_endian4 (length data) @ data @ rest, si_fails = b\<rparr> = (Inr (Some data), \<lparr>si_data = rest, si_fails = b\<rparr>)"
proof -
  have "from_big_endian (big_endian4 (length data)) = length data" using assms by (intro big_endian_roundtrip) (simp add: MAX_REQUEST_BYTES_def)
  with assms show ?thesis by (simp add: read_frame_def abind_def areturn_def stream_read_def Let_def)
qed

lemma read_frame_closed: "read_frame \<lparr>si_data = [], si_fails = False\<rparr> = (Inr None, \<lparr>si_data = [], si_fails = False\<rparr>)"
  by (simp add: read_frame_def abind_def areturn_def stream_read_def)

definition envelope :: "pystr \<Rightarrow> message \<Rightarrow> message" where
  "envelope nonce m = [(lit ''nonce'', PStr nonce), (lit ''request'', PDict m)]"

lemma envelope_read:
  assumes "json_ok (PDict m)" "json_depth (PDict m) \<le> 4" "hex_string 64 nonce" "canonical (PDict (envelope nonce m)) = Inr data" "nesting_ok deep"
  shows "envelope_of P deep data = Inr (nonce, norm_message m)"
proof -
  have d: "distinct (map fst (envelope nonce m))" by (simp add: envelope_def)
  have "text_ok nonce" using assms(3) digest_text_ok by (simp add: is_digest_def)
  then have j: "json_ok (PDict (envelope nonce m))" using assms(1) by (simp add: envelope_def del: json_ok.simps(9)) (simp add: envelope_def)
  have "json_depth (PDict (envelope nonce m)) \<le> 16"
    using json_depth_atoms[of "envelope nonce m" 4] assms(2) by (simp add: envelope_def del: json_depth.simps(3))
  note dec = decode_canonical[OF assms(4) j this assms(5), of P "''anchor request''"]
  have g: "get_item (envelope nonce m) ''nonce'' = Inr (PStr nonce)" "get_item (envelope nonce m) ''request'' = Inr (PDict m)" "has_keys (envelope nonce m) REQUEST_KEYS"
    by (simp_all add: envelope_def get_item_def has_keys_def REQUEST_KEYS_def)
  show ?thesis
    unfolding envelope_of_def dec rbind_Inr norm_fields[OF d] g
    using assms(3) g(3) by (simp add: nonce_of_def json_norm_message del: json_norm.simps(3))
qed

lemma serve_one:
  assumes "anchor_frame (envelope nonce m) MAX_REQUEST_BYTES = Inr frame" "envelope_of P deep (drop 4 frame) = Inr (nonce, m')"
    and "anchor_answer P v True m' w = (Inr (Some r), w1)" "envelope_frame P key nonce r = Inr f" "ho_out_takes w1 = None"
  shows "serve_connection P deep v key \<lparr>si_data = frame, si_fails = False\<rparr> w
     = (Inr 0, \<lparr>si_data = [], si_fails = False\<rparr>, w1\<lparr>ho_out := ho_out w1 @ [f]\<rparr>)"
proof -
  from assms(1) obtain data where f: "frame = big_endian4 (length data) @ data" "length data \<le> MAX_REQUEST_BYTES" by (auto simp: anchor_frame_eq_Inr)
  have "connection_step P deep v key data w = (Inr None, w1\<lparr>ho_out := ho_out w1 @ [f]\<rparr>)"
    unfolding connection_step_answered using assms(2-5) f(1)
    by (simp add: answered_def abind_def alift_def areturn_def reply_write_def)
  then show ?thesis
    unfolding serve_connection_def serve_loop.simps[of _ "\<lparr>si_data = frame, si_fails = False\<rparr>"]
    using read_frame_framed[OF f(2), of "[]" False] f(1) by (simp add: serve_loop.simps[of _ "\<lparr>si_data = [], si_fails = False\<rparr>"] read_frame_closed)
qed

section \<open>The client reads what the anchor signed\<close>

lemma state_of_replies:
  "int (fst st) \<le> MAX_COUNT \<Longrightarrow> is_digest (snd st) \<Longrightarrow> state_of (committed_reply st) = Inr st"
  "state_of (anchor_refusal e) = fail (take MAX_REFUSAL_CHARS (exc_message e))"
proof -
  show "int (fst st) \<le> MAX_COUNT \<Longrightarrow> is_digest (snd st) \<Longrightarrow> state_of (committed_reply st) = Inr st"
    by (simp add: state_of_def committed_reply_def field_is_def has_keys_def get_item_def py_count_eq_Inr py_digest_eq_Inr)
      (auto simp: py_count_eq_Inr py_digest_def py_count_def)
  have "map char_of (lit s) = s" for s by (simp add: lit_def comp_def)
  then show "state_of (anchor_refusal e) = fail (take MAX_REFUSAL_CHARS (exc_message e))"
    by (simp add: state_of_def anchor_refusal_def field_is_def has_keys_def string_field_def take_map[symmetric])
qed

lemma state_of_norm: "distinct (map fst r) \<Longrightarrow> (\<And>k v. (k, v) \<in> set r \<Longrightarrow> json_norm v = v) \<Longrightarrow> state_of (norm_message r) = state_of r"
proof -
  assume d: "distinct (map fst r)" and n: "\<And>k v. (k, v) \<in> set r \<Longrightarrow> json_norm v = v"
  have g: "rbind (get_item r k) (\<lambda>v. Inr (json_norm v)) = get_item r k" for k
    using n by (auto simp: get_item_def split: option.splits dest!: map_of_SomeD)
  show "state_of (norm_message r) = state_of r" unfolding state_of_def norm_fields[OF d] g ..
qed

text \<open>A reply as the anchor makes it: text and numbers only.\<close>

definition flat_reply :: "message \<Rightarrow> bool" where
  "flat_reply r \<longleftrightarrow> distinct (map fst r) \<and> (\<forall>kv \<in> set r. text_ok (fst kv) \<and> json_ok (snd kv) \<and> json_norm (snd kv) = snd kv \<and> json_depth (snd kv) = 0)"

lemma flat_replies: "is_digest (snd st) \<Longrightarrow> flat_reply (committed_reply st)" "flat_reply (anchor_refusal e)"
proof -
  show "is_digest (snd st) \<Longrightarrow> flat_reply (committed_reply st)" by (simp add: flat_reply_def committed_reply_def digest_text_ok)
  have "no_pair s" if "list_all (\<lambda>c. c < 256) s" for s using that by (induction s rule: no_pair.induct) (auto simp: is_high_surrogate_def)
  moreover have "list_all (\<lambda>c. c < 256) (take n (lit s))" for n s
    using char_code_bound by (auto simp: lit_def list_all_iff dest!: in_set_takeD)
  ultimately have "text_ok (take n (lit s))" for n s
    by (fastforce simp: text_ok_def list_all_iff)
  then show "flat_reply (anchor_refusal e)" by (simp add: flat_reply_def anchor_refusal_def)
qed

lemma client_reads_signed:
  assumes "ed25519_ok P" "nesting_ok deep" "cl_reply_key c = ed25519_public P key" "hex_string 64 nonce" "flat_reply r"
    and "envelope_frame P key nonce r = Inr f"
  shows "\<exists>data. f = big_endian4 (length data) @ data \<and> length data \<le> MAX_REPLY_BYTES \<and> client_reads P deep c nonce data = state_of r"
proof -
  obtain s where s: "reply_message nonce (PDict r) = Inr s" using assms(6) by (auto simp: envelope_frame_def rbind_eq_Inr)
  let ?sig = "bytes_hex (ed25519_sign P key s)"
  let ?m = "[(lit ''nonce'', PStr nonce), (lit ''reply'', PDict r), (lit ''signature'', PStr ?sig)]"
  from assms(6) s obtain data where d: "canonical (PDict ?m) = Inr data" "f = big_endian4 (length data) @ data" "length data \<le> MAX_REPLY_BYTES"
    by (auto simp: envelope_frame_def anchor_frame_eq_Inr)
  have r: "distinct (map fst r)" "json_ok (PDict r)" "\<forall>kv \<in> set r. json_depth (snd kv) \<le> 0"
    unfolding json_ok_message using assms(5) by (simp_all add: flat_reply_def)
  have rn: "state_of (norm_message r) = state_of r" using assms(5) by (intro state_of_norm) (auto simp: flat_reply_def)
  have t: "text_ok nonce" "text_ok ?sig" using assms(4) digest_text_ok text_ok_ascii[of ?sig] by (simp_all add: is_digest_def)
  have j: "json_ok (PDict ?m)" using t r(2) unfolding json_ok_message[of ?m] by simp
  have rd: "json_depth (PDict r) \<le> 1" using json_depth_atoms[OF r(3)] by simp
  have "json_depth (PDict ?m) \<le> 16"
    using json_depth_atoms[of ?m 1] rd by (simp del: json_depth.simps(3))
  note dec = decode_canonical[OF d(1) j this assms(2), of P "''anchor reply''"]
  have dm: "distinct (map fst ?m)" by simp
  have "reply_message nonce (json_norm (PDict r)) = Inr s"
  proof -
    let ?n = "[(lit ''nonce'', PStr nonce), (lit ''reply'', PDict r)]"
    obtain u where u: "dumps (PDict ?n) = Some u" "s = REPLY_LABEL @ ascii_bytes u" using s by (auto simp: reply_message_def rbind_eq_Inr canonical_eq_Inr simp del: dumps.simps(9))
    have "json_norm (PDict ?n) = PDict [(lit ''nonce'', PStr nonce), (lit ''reply'', json_norm (PDict r))]" by simp
    with dumps_json_norm[OF u(1)] u(2) show ?thesis by (simp add: reply_message_def canonical_def del: dumps.simps(9) json_norm.simps(3))
  qed
  then have "reply_message nonce (PDict (norm_message r)) = Inr s" by (simp only: json_norm_message)
  then have sg: "client_signed P c nonce (PDict (norm_message r)) (PStr ?sig)"
    using assms(1,3) by (simp add: client_signed_def ed25519_ok_def)
  have g: "get_item ?m ''reply'' = Inr (PDict r)" "get_item ?m ''signature'' = Inr (PStr ?sig)" "has_keys ?m REPLY_KEYS" "field_is ?m ''nonce'' nonce"
    by (simp_all add: get_item_def has_keys_def REPLY_KEYS_def field_is_def)
  have "client_reads P deep c nonce data = state_of (norm_message r)"
    unfolding client_reads_def dec rbind_Inr norm_fields[OF dm] g json_norm_message json_norm.simps using sg g(3,4) by simp
  with d rn show ?thesis by auto
qed

section \<open>A commit from another process\<close>

text \<open>A served anchor as the client's other side: one connection per request. \<open>pieces\<close> says how its answer is cut.\<close>

definition served_ask ::
  "platform \<Rightarrow> (pystr \<Rightarrow> nesting) \<Rightarrow> audit_verifier \<Rightarrow> bytes \<Rightarrow> (bytes \<Rightarrow> segment list) \<Rightarrow> bytes \<Rightarrow> (anchor_host, segment list) action" where
  "served_ask P deep v key pieces frame w =
     (case serve_connection P deep v key \<lparr>si_data = frame, si_fails = False\<rparr> (w\<lparr>ho_out := [], ho_out_takes := None\<rparr>) of
        (_, _, w1) \<Rightarrow> (Inr (pieces (concat (ho_out w1))), w1))"

definition cuts :: "(bytes \<Rightarrow> segment list) \<Rightarrow> bool" where
  "cuts pieces \<longleftrightarrow> (\<forall>b. bytes_of (pieces b) = b \<and> all_chunks (pieces b))"

lemma append_head_succeeds: "head_line raw = Inr line \<Longrightarrow> sf_scripts f = [] \<Longrightarrow> fst (append_head raw f) = Inr ()"
  by (cases line) (simp_all add: append_head_def next_script_def Let_def)

lemma answer_replies:
  assumes "anchor_handle P v m (ho_anchor w) = (q, a)" "canonical (PDict m) = Inr b" "anchor_ok (ho_anchor w)" "sf_scripts (ho_file w) = []"
  shows "\<exists>w1. anchor_answer P v True m w = (Inr (Some (case q of Inl e \<Rightarrow> anchor_refusal e | Inr reply \<Rightarrow> reply)), w1)
     \<and> ho_anchor w1 = a \<and> ho_out w1 = ho_out w \<and> ho_out_takes w1 = ho_out_takes w"
proof (cases q)
  case (Inl e)
  then have "is_contract_error e" using refuses_handle[OF assms(2,3), of P v] assms(1) by (simp add: refuses_only_def)
  with assms(1) Inl show ?thesis by (auto simp: anchor_answer_def azoom_def)
next
  case (Inr reply)
  show ?thesis
  proof (cases "committed a = committed (ho_anchor w)")
    case True
    with assms(1) Inr show ?thesis by (auto simp: anchor_answer_def azoom_def)
  next
    case False
    then have "a \<noteq> ho_anchor w" by auto
    with handle_moves[OF assms(1,3)] obtain raw hd where
      m: "rbind (get_item m ''head'') head_from = Inr raw" "raw = head_raw hd" "verify_head P (Some raw) (ByVerifier v) = Inr hd" by (auto simp: moves_to_def)
    obtain line where line: "head_line raw = Inr line"
      by (rule verified_line[OF m(3)[unfolded m(2)], where deep = "\<lambda>_. Shallow"]) (use m(2) in \<open>auto simp: nesting_ok_def\<close>)
    obtain f where "append_head raw (ho_file w) = (Inr (), f)" using append_head_succeeds[OF line assms(4)] by (cases "append_head raw (ho_file w)") auto
    with assms(1) Inr m(1) False show ?thesis
      by (auto simp: anchor_answer_def azoom_def Let_def acatch_def abind_def alift_def areturn_def)
  qed
qed

text \<open>One request and its answer over the wire, whatever the anchor answers.\<close>

lemma exchange_served:
  assumes "ed25519_ok P" "nesting_ok deep" "cl_reply_key c = ed25519_public P key" "cuts pieces" "length random = 32"
    and "json_ok (PDict m)" "json_depth (PDict m) \<le> 4" "anchor_frame (envelope (bytes_hex random) m) MAX_REQUEST_BYTES = Inr frame"
    and "anchor_answer P v True (norm_message m) (w\<lparr>ho_out := [], ho_out_takes := None\<rparr>) = (Inr (Some r), w1)" "ho_out w1 = []" "ho_out_takes w1 = None"
    and "flat_reply r" "reply_ok r"
  shows "\<exists>w2. client_exchange P deep (served_ask P deep v key pieces) c random m w = (state_of r, w2) \<and> ho_anchor w2 = ho_anchor w1 \<and> ho_file w2 = ho_file w1"
proof -
  let ?n = "bytes_hex random"
  have n: "hex_string 64 ?n" using assms(5) bytes_hex_digest[of random] by (simp add: is_digest_def)
  from assms(8) obtain data where d: "canonical (PDict (envelope ?n m)) = Inr data" "frame = big_endian4 (length data) @ data" by (auto simp: anchor_frame_eq_Inr)
  have e: "envelope_of P deep (drop 4 frame) = Inr (?n, norm_message m)" using envelope_read[OF assms(6,7) n d(1) assms(2)] d(2) by simp
  obtain f where f: "envelope_frame P key ?n r = Inr f" using envelope_fits[OF assms(13) n assms(1)] by blast
  note s = serve_one[OF assms(8) e assms(9) f assms(11)]
  obtain got where b: "f = big_endian4 (length got) @ got" "length got \<le> MAX_REPLY_BYTES" "client_reads P deep c ?n got = state_of r"
    using client_reads_signed[OF assms(1,2,3) n assms(12) f] by blast
  have "read_reply os_error (pieces f) = Inr got"
    using assms(4) b(1) by (intro read_reply_framed[OF _ _ b(2), where rest = "[]"]) (auto simp: cuts_def)
  with s assms(8,10) b(3) have "client_exchange P deep (served_ask P deep v key pieces) c random m w = (state_of r, w1\<lparr>ho_out := [f]\<rparr>)"
    by (simp add: client_exchange_def envelope_def served_ask_def abind_def alift_def acatch_def)
  then show ?thesis by simp
qed

lemma remote_commit:
  fixes w :: anchor_host
  assumes "ed25519_ok P" "nesting_ok deep" "cl_reply_key c = ed25519_public P key" "cuts pieces" "length random = 32"
    and "head_text_ok h" "\<forall>r \<in> set rs. record_ok r" "int (ah_count h) \<le> MAX_COUNT"
    and "commit_request (Some (head_raw h)) (stored rs) = Inr m" "anchor_frame (envelope (bytes_hex random) m) MAX_REQUEST_BYTES = Inr frame"
    and "anchor_ok (ho_anchor w)" "sf_scripts (ho_file w) = []"
    and "commit P (Some (head_raw h)) (stored rs) (ByVerifier v) (ho_anchor w) = (q, a)"
  shows "\<exists>w2. client_commit P deep (served_ask P deep v key pieces) c random (Some (head_raw h)) (stored rs) w
       = ((case q of Inl e \<Rightarrow> fail (take MAX_REFUSAL_CHARS (exc_message e)) | Inr st \<Rightarrow> Inr st), w2) \<and> ho_anchor w2 = a"
proof -
  let ?rs = "take (Suc (ah_count h)) rs" and ?w = "w\<lparr>ho_out := [], ho_out_takes := None\<rparr>"
  have m: "m = commit_message h ?rs" using assms(9) commit_request_stored[OF assms(8)] by simp
  have rs: "\<forall>r \<in> set ?rs. record_ok r" using assms(7) by (auto dest: in_set_takeD)
  note cm = commit_message_ok[OF assms(6) rs, folded m]
  let ?q = "case q of Inl e \<Rightarrow> Inl e | Inr st \<Rightarrow> Inr (committed_reply st)"
  have h: "anchor_handle P v (norm_message m) (ho_anchor ?w) = (?q, a)"
    unfolding cm(3) commit_bounded using assms(13) by (cases q) (simp_all add: abind_def areturn_def)
  obtain data where "canonical (PDict (envelope (bytes_hex random) m)) = Inr data" using assms(10) by (auto simp: anchor_frame_eq_Inr)
  then have "dumps (PDict m) \<noteq> None" using dumps_member[of "envelope (bytes_hex random) m" data "''request''" "PDict m"] by (simp add: envelope_def get_item_def del: dumps.simps)
  then obtain b where "dumps (PDict (norm_message m)) = Some b" using dumps_json_norm[of "PDict m"] by (auto simp: json_norm_message[symmetric] simp del: json_norm.simps dumps.simps)
  then have b: "canonical (PDict (norm_message m)) = Inr (ascii_bytes b)" by (simp add: canonical_def del: dumps.simps)
  obtain w1 where w1: "anchor_answer P v True (norm_message m) ?w = (Inr (Some (case ?q of Inl e \<Rightarrow> anchor_refusal e | Inr reply \<Rightarrow> reply)), w1)"
    "ho_anchor w1 = a" "ho_out w1 = []" "ho_out_takes w1 = None" using answer_replies[OF h b] assms(11,12) by auto
  have st: "q = Inr st \<Longrightarrow> int (fst st) \<le> MAX_COUNT \<and> is_digest (snd st)" for st
    using commit_replies[of P "Some (head_raw h)" "stored rs" "ByVerifier v" "ho_anchor w" st a] assms(11,13) handle_keeps_ok[OF h] by (simp add: anchor_ok_def committed_def)
  show ?thesis
  proof (cases q)
    case (Inl e)
    then show ?thesis
      using exchange_served[OF assms(1-5) cm(1,2) assms(10) w1(1,3,4)] flat_replies(2) refusal_ok w1(2) state_of_replies(2)
      by (auto simp: client_commit_def assms(9) abind_def alift_def)
  next
    case (Inr x)
    then show ?thesis
      using exchange_served[OF assms(1-5) cm(1,2) assms(10) w1(1,3,4)] flat_replies(1)[of x] committed_reply_ok[of x] st[of x] w1(2) state_of_replies(1)[of x]
      by (auto simp: client_commit_def assms(9) abind_def alift_def)
  qed
qed

end
