(* ===== verification/AnchorService.thy ===== *)
theory AnchorService
  imports AnchorClient
begin

text \<open>
  What \<open>geniusnew/anchor_process.py\<close> promises as a whole: a commit from another process is a commit, the state
  file is the truth a restart resumes from, the process answers whatever it is sent, a client believes only
  what the anchor signed for its request, and one process owns a state file.
\<close>

section \<open>What the writer's size check is good for\<close>

lemma envelope_dumps:
  assumes "dumps (PDict m) = Some t"
  shows "dumps (PDict (envelope nonce m)) = Some (123 # json_string (lit ''nonce'') @ 58 # json_string nonce @ 44 # json_string (lit ''request'') @ 58 # t @ [125])"
proof -
  have "opt_map (\<lambda>(k, v). map_option (Pair k) (dumps v)) (envelope nonce m) = Some [(lit ''nonce'', json_string nonce), (lit ''request'', t)]"
    using assms by (simp add: envelope_def del: dumps.simps(9))
  then show ?thesis unfolding dumps.simps(9) by (simp add: member_text_def)
qed

lemma envelope_same_size:
  assumes "anchor_frame (envelope n1 m) limit = Inr f" "length (json_string n1) = length (json_string n2)"
  shows "\<exists>f'. anchor_frame (envelope n2 m) limit = Inr f'"
proof -
  from assms(1) obtain data where d: "canonical (PDict (envelope n1 m)) = Inr data" "length data \<le> limit" by (auto simp: anchor_frame_eq_Inr)
  then obtain t where t: "dumps (PDict m) = Some t"
    using dumps_member[of "envelope n1 m" data "''request''" "PDict m"] by (cases "dumps (PDict m)") (auto simp: envelope_def get_item_def)
  from envelope_dumps[OF t, of n1] envelope_dumps[OF t, of n2] d assms(2) show ?thesis
    by (auto simp: anchor_frame_eq_Inr canonical_def simp del: dumps.simps)
qed

lemma checked_size:
  assumes "check_commit_size (Some (head_raw h)) records = Inr ()" "length random = 32"
  obtains m frame line where "commit_request (Some (head_raw h)) records = Inr m" "anchor_frame (envelope (bytes_hex random) m) MAX_REQUEST_BYTES = Inr frame"
    "head_line (head_raw h) = Inr line" "ah_count h * length line \<le> MAX_STATE_BYTES" "int (ah_count h) \<le> MAX_COUNT"
proof -
  let ?z = "replicate (NONCE_BYTES * 2) 48 :: pystr"
  from assms(1) obtain m f where m: "commit_request (Some (head_raw h)) records = Inr m" "anchor_frame (envelope ?z m) MAX_REQUEST_BYTES = Inr f"
    by (auto simp: check_commit_size_def rbind_eq_Inr envelope_def)
  have "is_digest ?z" using empty_hash_digest by (simp add: EMPTY_HASH_def NONCE_BYTES_def)
  then have "length (json_string ?z) = length (json_string (bytes_hex random))"
    using json_string_digest[of ?z] json_string_digest[of "bytes_hex random"] bytes_hex_digest[OF assms(2)] by simp
  from envelope_same_size[OF m(2) this] obtain frame where f: "anchor_frame (envelope (bytes_hex random) m) MAX_REQUEST_BYTES = Inr frame" by blast
  from assms(1) m obtain n line where "py_count (rh_count (head_raw h)) ''head.count'' = Inr n" "head_line (head_raw h) = Inr line" "\<not> n * length line > MAX_STATE_BYTES"
    unfolding check_commit_size_def rbind_eq_Inr option.case if_raise_eq_Inr by blast
  with that[OF m(1) f] show thesis by (auto simp: py_count_eq_Inr head_raw_def)
qed

lemma fresh_bound: "file_bound \<lparr>ho_anchor = anchor_new, ho_file = f, ho_out = out, ho_out_takes = t\<rparr>" if "file_bytes f = []"
  using that by (simp add: file_bound_def anchor_ok_def anchor_new_def MAX_COUNT_def)

lemma server_bound:
  assumes "run_server P deep os sp stp kp apk visits w = (r, w')" "file_bytes (ho_file w) = []" "ho_anchor w = anchor_new"
  shows "file_bound w'"
proof -
  let ?w = "if is_ok (fst (state_lock P (so_lease os) True (so_held os))) then w\<lparr>ho_file := created_file (ho_file w)\<rparr> else w"
  have fb: "file_bytes (ho_file ?w) = []" using assms(2) by simp
  have new: "file_bound (?w\<lparr>ho_anchor := anchor_new\<rparr>)" using fb by (simp add: file_bound_def anchor_ok_def anchor_new_def MAX_COUNT_def)
  show ?thesis
  proof (cases "server_start P deep os sp stp kp apk (ho_file ?w)")
    case (Inl e)
    then have "w' = ?w" using assms(1) by (auto simp: run_server_def Let_def)
    moreover have "?w\<lparr>ho_anchor := anchor_new\<rparr> = ?w" using assms(3) by simp
    ultimately show ?thesis using new by simp
  next
    case (Inr t)
    obtain key v a where t: "t = (key, v, a)" by (cases t)
    from Inr[unfolded server_start_def t] have "load_state P deep v True (ho_file ?w) = Inr a" by (auto simp: rbind_eq_Inr)
    then have "a = anchor_new" using fb by (auto simp: load_state_def load_data_def file_bytes_def split: option.splits if_splits)
    with run_connections_bound[of P deep v key visits "?w\<lparr>ho_anchor := a\<rparr>" r w'] new assms(1) Inr t show ?thesis by (simp add: run_server_def Let_def)
  qed
qed

section \<open>How many records a commit carries\<close>

definition sized_record :: "chain_record \<Rightarrow> bool" where
  "sized_record r \<longleftrightarrow> good_event (cr_event r) \<and> is_digest (cr_previous_hash r) \<and> is_digest (cr_record_hash r) \<and> \<bar>cr_index r\<bar> < 10 ^ 18"

lemma sized_record_ok: "sized_record r \<Longrightarrow> record_ok r"
  by (simp add: sized_record_def record_ok_def digest_text_ok)

lemma more_keys:
  "length (json_string (lit ''event'')) = 7" "length (json_string (lit ''index'')) = 7" "length (json_string (lit ''previous_hash'')) = 15"
  "length (json_string (lit ''record_hash'')) = 13" "length (json_string (lit ''head'')) = 6" "length (json_string (lit ''records'')) = 9"
  "length (json_string (lit ''request'')) = 9" "length (json_string (lit ''commit'')) = 8"
  by (simp_all add: json_string_def lit_def esc_char_def)

lemma record_text_bound:
  assumes "sized_record r"
  shows "\<exists>t. dumps (PDict (record_dict r)) = Some t \<and> length t \<le> 3200"
proof -
  note e = event_text_bound[of "cr_event r"]
  obtain i where i: "int_text (cr_index r) = Some i" "length i \<le> 20" using int_text_bounded[of "cr_index r"] assms by (auto simp: sized_record_def)
  have h: "length (json_string (cr_previous_hash r)) = 66" "length (json_string (cr_record_hash r)) = 66"
    using assms json_string_digest by (auto simp: sized_record_def)
  let ?f = "\<lambda>kv. if fst kv = lit ''event'' then 2946 else if fst kv = lit ''index'' then 20 else 66"
  have "\<forall>kv \<in> set (record_dict r). \<exists>t. dumps (snd kv) = Some t \<and> length t \<le> ?f kv"
    using e i h assms by (simp add: record_dict_def sized_record_def good_event_def del: dumps.simps(9))
  from length_dumps_dict[OF this] show ?thesis by (auto simp: record_dict_def more_keys simp del: dumps.simps(9))
qed

lemma dumps_list_bound:
  assumes "\<forall>v \<in> set vs. \<exists>t. dumps v = Some t \<and> length t \<le> n"
  shows "\<exists>t. dumps (PList vs) = Some t \<and> length t \<le> 2 + length vs * Suc n"
proof -
  have "\<exists>ts. opt_map dumps vs = Some ts \<and> length ts = length vs \<and> (\<forall>t \<in> set ts. length t \<le> n)"
    using assms by (induction vs) auto
  then obtain ts where ts: "opt_map dumps vs = Some ts" "length ts = length vs" "\<forall>t \<in> set ts. length t \<le> n" by blast
  have "length (join_comma ts) \<le> (\<Sum>t\<leftarrow>ts. Suc (length t))" by (rule length_join_comma)
  also have "\<dots> \<le> (\<Sum>t\<leftarrow>ts. Suc n)" using ts(3) by (intro sum_list_mono) simp
  also have "\<dots> = length vs * Suc n" using ts(2) by (simp add: sum_list_triv)
  finally show ?thesis using ts(1) by simp
qed

lemma commit_size_ok:
  assumes "verify_head P (Some (head_raw h)) c = Inr h" "\<forall>r \<in> set rs. sized_record r" "length rs \<le> 20000" "ah_count h \<le> 60000"
  shows "check_commit_size (Some (head_raw h)) (stored rs) = Inr ()"
proof -
  let ?rs = "take (Suc (ah_count h)) rs" and ?m = "commit_message h (take (Suc (ah_count h)) rs)" and ?z = "replicate (NONCE_BYTES * 2) 48 :: pystr"
  have n: "int (ah_count h) \<le> MAX_COUNT" using assms(1) by (auto simp: verify_head_eq_Inr)
  obtain b where b: "head_line (head_raw h) = Inr (b @ [10])" "canonical (PDict (head_message (head_raw h))) = Inr b"
    by (rule verified_line[OF assms(1), where deep = "\<lambda>_. Shallow"]) (auto simp: nesting_ok_def)
  have d5: "length (nat_digits (ah_count h)) \<le> 5" using nat_digits_length_bound[of "ah_count h" 5] assms(4) by simp
  then have l: "length (b @ [10]) \<le> 274" using line_length[OF assms(1) b(1)] by (simp add: line_size_def)
  obtain ht where ht: "dumps (PDict (head_message (head_raw h))) = Some ht" "length ht \<le> 273" using b(2) l by (auto simp: canonical_eq_Inr)
  have "\<forall>v \<in> set (map (PDict \<circ> record_dict) ?rs). \<exists>t. dumps v = Some t \<and> length t \<le> 3200"
    using record_text_bound assms(2) by (auto dest: in_set_takeD simp del: dumps.simps)
  from dumps_list_bound[OF this] obtain rt where r: "dumps (PList (map (PDict \<circ> record_dict) ?rs)) = Some rt"
    "length rt \<le> 2 + length (map (PDict \<circ> record_dict) ?rs) * Suc 3200" by blast
  have "length (map (PDict \<circ> record_dict) ?rs) * Suc 3200 \<le> 20000 * Suc 3200" using assms(3) by (intro mult_le_mono) auto
  from order_trans[OF r(2) add_left_mono[OF this]] have rt: "length rt \<le> 64020002" by simp
  let ?f = "\<lambda>kv. if fst kv = lit ''records'' then 64020002 else 273"
  have "\<forall>kv \<in> set ?m. \<exists>t. dumps (snd kv) = Some t \<and> length t \<le> ?f kv"
    using ht r(1) rt by (simp add: commit_message_def more_keys del: dumps.simps(7-9))
  from length_dumps_dict[OF this] obtain t where t: "dumps (PDict ?m) = Some t" "length t \<le> 64030000"
    by (auto simp: commit_message_def more_keys json_string_keys simp del: dumps.simps(7-9))
  have "length (json_string ?z) = 66" using json_string_digest[of ?z] empty_hash_digest by (simp add: EMPTY_HASH_def NONCE_BYTES_def)
  with t(2) obtain f where f: "anchor_frame (envelope ?z ?m) MAX_REQUEST_BYTES = Inr f"
    using envelope_dumps[OF t(1), of ?z] by (auto simp: anchor_frame_def canonical_def more_keys json_string_keys MAX_REQUEST_BYTES_def simp del: dumps.simps)
  have "ah_count h * length (b @ [10]) \<le> 60000 * 274" using assms(4) l by (rule mult_le_mono)
  then have "\<not> ah_count h * length (b @ [10]) > MAX_STATE_BYTES" by (simp add: MAX_STATE_BYTES_def)
  moreover have "py_count (rh_count (head_raw h)) ''head.count'' = Inr (ah_count h)" using n by (simp add: py_count_eq_Inr head_raw_def)
  ultimately show ?thesis
    using commit_request_stored[OF n, of rs] f b(1) by (simp add: check_commit_size_def envelope_def)
qed

section \<open>Signatures are for one request\<close>

lemma reply_message_nonce:
  assumes "reply_message n v = Inr m" "reply_message n' v' = Inr m" "hex_string 64 n" "hex_string 64 n'"
  shows "n = n'"
proof -
  have t: "\<exists>t. m = REPLY_LABEL @ ascii_bytes (123 # json_string (lit ''nonce'') @ 58 # json_string k @ 44 # t)" if "reply_message k x = Inr m" for k x
  proof -
    from that obtain u where u: "dumps (PDict [(lit ''nonce'', PStr k), (lit ''reply'', x)]) = Some u" "m = REPLY_LABEL @ ascii_bytes u"
      by (auto simp: reply_message_def rbind_eq_Inr canonical_eq_Inr simp del: dumps.simps(9))
    then obtain y where "dumps x = Some y" by (cases "dumps x") auto
    with u(1) have "u = 123 # json_string (lit ''nonce'') @ 58 # json_string k @ 44 # json_string (lit ''reply'') @ 58 # y @ [125]" by (auto simp: member_text_def)
    with u(2) show ?thesis by blast
  qed
  from t[OF assms(1)] t[OF assms(2)] obtain a b where
    "ascii_bytes (123 # json_string (lit ''nonce'') @ 58 # json_string n @ 44 # a) = ascii_bytes (123 # json_string (lit ''nonce'') @ 58 # json_string n' @ 44 # b)" by auto
  moreover have l: "length (json_string n) = 66" "length (json_string n') = 66" using json_string_digest assms(3,4) by (auto simp: is_digest_def)
  ultimately have "ascii_bytes (json_string n) = ascii_bytes (json_string n')" by (simp add: ascii_bytes_def)
  then have j: "json_string n = json_string n'" by (simp add: ascii_bytes_inject)
  have pl: "concat (map esc_char k) = k" if "hex_string 64 k" for k
  proof -
    have "list_all (\<lambda>c. 32 \<le> c \<and> c \<le> 126 \<and> c \<noteq> 34 \<and> c \<noteq> 92) k" using that by (fastforce simp: hex_string_def list_all_iff is_lower_hex_def is_digit_def)
    then show ?thesis by (induction k) (auto simp: esc_char_def)
  qed
  from j pl[OF assms(3)] pl[OF assms(4)] show ?thesis by (simp add: json_string_def)
qed

lemma client_reads_eq_Inr:
  assumes "client_reads P deep c nonce data = Inr st"
  shows "\<exists>r m sig. reply_message nonce (PDict r) = Inr m \<and> ed25519_verify P (cl_reply_key c) m sig \<and> state_of r = Inr st"
proof -
  from assms obtain d where d: "anchor_decode P deep data ''anchor reply'' = Inr d" by (auto simp: client_reads_def rbind_eq_Inr)
  with assms obtain v where v: "get_item d ''reply'' = Inr v" unfolding client_reads_def by (cases "get_item d ''reply''") (auto split: if_splits)
  with assms d obtain s where s: "get_item d ''signature'' = Inr s" unfolding client_reads_def by (cases "get_item d ''signature''") (auto split: if_splits)
  from assms d v s have c: "client_signed P c nonce v s" and r: "(case v of PDict r \<Rightarrow> state_of r | _ \<Rightarrow> fail ''anchor reply is not signed by the anchor'') = Inr st"
    unfolding client_reads_def by (auto split: if_splits)
  from r obtain r' where r': "v = PDict r'" "state_of r' = Inr st" by (cases v) auto
  from c obtain t where t: "s = PStr t" by (cases s) (auto simp: client_signed_def r'(1))
  from c r' show ?thesis
    by (cases "fromhex t"; cases "reply_message nonce (PDict r')") (auto simp: client_signed_def t)
qed

lemma exchange_eq_Inr:
  assumes "client_exchange P deep ask c random request w = (Inr st, w')"
  shows "\<exists>frame segs data. anchor_frame (envelope (bytes_hex random) request) MAX_REQUEST_BYTES = Inr frame \<and> ask frame w = (Inr segs, w')
     \<and> read_reply os_error segs = Inr data \<and> client_reads P deep c (bytes_hex random) data = Inr st"
proof -
  let ?n = "bytes_hex random"
  from assms obtain frame where f: "anchor_frame (envelope ?n request) MAX_REQUEST_BYTES = Inr frame"
    by (cases "anchor_frame (envelope ?n request) MAX_REQUEST_BYTES") (auto simp: client_exchange_def envelope_def abind_def alift_def Let_def)
  obtain q w1 where q: "ask frame w = (q, w1)" by (cases "ask frame w")
  note u = assms[unfolded client_exchange_def Let_def envelope_def[symmetric] f]
  show ?thesis
  proof (cases q)
    case (Inl e)
    with u q show ?thesis by (auto simp: abind_def alift_def acatch_def areturn_def araise_def split: if_splits)
  next
    case (Inr segs)
    with u q f show ?thesis
      by (cases "read_reply os_error segs") (auto simp: abind_def alift_def acatch_def areturn_def araise_def split: if_splits)
  qed
qed

section \<open>A host, a client and a head for the witnesses\<close>

definition sample_host :: anchor_host where
  "sample_host = \<lparr>ho_anchor = anchor_new, ho_file = \<lparr>sf_data = None, sf_readable = True, sf_scripts = []\<rparr>, ho_out = [], ho_out_takes = None\<rparr>"

definition sample_client :: anchor_client where
  "sample_client = \<lparr>cl_socket_path = lit ''/run/anchor'', cl_reply_key = ed25519_public sample_platform (replicate 32 5)\<rparr>"

definition byte_by_byte :: "bytes \<Rightarrow> segment list" where
  "byte_by_byte = map (\<lambda>b. Chunk [b])"

lemma byte_by_byte_cuts: "cuts byte_by_byte"
proof -
  have "bytes_of (map (\<lambda>b. Chunk [b]) bs) = bs" for bs by (induction bs) auto
  then show ?thesis by (auto simp: cuts_def byte_by_byte_def all_chunks_def)
qed

lemma sample_records: "\<forall>r \<in> set sample_chain. sized_record r"
proof -
  obtain x y where c: "sample_chain = [x, y]" using sample_chain_two by blast
  have "is_digest (cr_previous_hash r) \<and> is_digest (cr_record_hash r) \<and> \<bar>cr_index r\<bar> < 10 ^ 18" if "r \<in> set sample_chain" for r
    using that sample_chain_linked unfolding c by auto
  with sample_chain_good show ?thesis by (simp add: sized_record_def)
qed

lemma sample_commit:
  obtains h where "verify_head sample_platform (Some (head_raw h)) (ByVerifier (aa_verifier sample_audit)) = Inr h" "ah_count h = 2"
    "commit sample_platform (Some (head_raw h)) (stored sample_chain) (ByVerifier (aa_verifier sample_audit)) anchor_new = (Inr (2, ah_head_hash h), anchor_at h)"
    "check_commit_size (Some (head_raw h)) (stored sample_chain) = Inr ()"
proof -
  obtain h where h: "verify_chain sample_platform (stored sample_chain) (Some (head_raw h)) (ByVerifier (aa_verifier sample_audit)) = Inr (h, sample_chain)"
    using sample_snapshot by blast
  then have v: "verify_head sample_platform (Some (head_raw h)) (ByVerifier (aa_verifier sample_audit)) = Inr h" "ah_count h = 2" by (auto simp: verify_chain_eq_Inr)
  have "continues anchor_new sample_chain" by (simp add: continues_def anchor_new_def)
  with h have "commit sample_platform (Some (head_raw h)) (stored sample_chain) (ByVerifier (aa_verifier sample_audit)) anchor_new
      = (Inr (committed (anchor_at h)), anchor_at h)" unfolding commit_eq_Inr[OF anchor_new_backed] by blast
  then have c: "commit sample_platform (Some (head_raw h)) (stored sample_chain) (ByVerifier (aa_verifier sample_audit)) anchor_new
      = (Inr (2, ah_head_hash h), anchor_at h)" using v(2) by (simp add: committed_def anchor_at_def)
  have "check_commit_size (Some (head_raw h)) (stored sample_chain) = Inr ()" by (rule commit_size_ok[OF v(1) sample_records]) (simp_all add: v(2))
  with that v c show thesis by blast
qed

definition sample_lease :: lease_os where
  "sample_lease = \<lparr>lo_socket = True, lo_binds = True, lo_realpath = ascii_bytes (lit ''/var/anchor''), lo_open = Some (True, 1, 7)\<rparr>"

definition sample_os :: server_os where
  "sample_os = \<lparr>so_lease = sample_lease, so_held = [],
     so_key_file = \<lparr>kf_exists = True, kf_creatable = True, kf_readable = True, kf_regular = True, kf_mode = 384, kf_data = replicate 32 5\<rparr>,
     so_generated = [], so_key_writes = [], so_key_syncs = True, so_socket_exists = False, so_socket_binds = True\<rparr>"

definition sample_audit_key :: pyval where
  "sample_audit_key = PStr (bytes_hex (av_public_key (aa_verifier sample_audit)))"

lemma sample_verifier: "verifier_from sample_platform (init_message sample_audit_key) = Inr (aa_verifier sample_audit)"
proof -
  have "audit_verifier_init sample_platform (av_public_key (aa_verifier sample_audit)) = Inr (aa_verifier sample_audit)"
    using sample_platform_ok(2) by (simp add: audit_verifier_init_def sample_audit_def Let_def ed25519_ok_def)
  then show ?thesis by (simp add: verifier_from_def init_message_def sample_audit_key_def has_keys_def field_is_def)
qed

lemma sample_start:
  "server_start sample_platform (\<lambda>_. Shallow) sample_os (PStr (lit ''/run/anchor'')) (PStr (lit ''/var/anchor'')) (PStr (lit ''/etc/anchor'')) sample_audit_key
     (created_file (ho_file sample_host)) = Inr (replicate 32 5, aa_verifier sample_audit, anchor_new)"
  "is_ok (fst (state_lock sample_platform (so_lease sample_os) True (so_held sample_os)))"
proof -
  have "inode_address sample_platform d i \<noteq> path_address sample_platform a" for a d i
    by (simp add: path_address_def inode_address_def ascii_bytes_def lit_def)
  then have lock: "fst (state_lock sample_platform (so_lease sample_os) True (so_held sample_os)) = Inr ()"
    by (simp add: state_lock_def state_lease_def sample_os_def sample_lease_def)
  then show "is_ok (fst (state_lock sample_platform (so_lease sample_os) True (so_held sample_os)))" by simp
  have a: "absolute_path (PStr (lit ''/run/anchor'')) s = Inr (lit ''/run/anchor'')" "absolute_path (PStr (lit ''/var/anchor'')) s = Inr (lit ''/var/anchor'')"
    "absolute_path (PStr (lit ''/etc/anchor'')) s = Inr (lit ''/etc/anchor'')" for s by (simp_all add: absolute_path_def lit_def)
  have k: "fst (reply_key (so_generated sample_os) (so_key_writes sample_os) (so_key_syncs sample_os) (so_key_file sample_os)) = Inr (replicate 32 5)"
    by (simp add: reply_key_def sample_os_def)
  have l: "load_state sample_platform (\<lambda>_. Shallow) (aa_verifier sample_audit) True (created_file (ho_file sample_host)) = Inr anchor_new"
    by (simp add: load_created sample_host_def file_bytes_def load_data_def)
  show "server_start sample_platform (\<lambda>_. Shallow) sample_os (PStr (lit ''/run/anchor'')) (PStr (lit ''/var/anchor'')) (PStr (lit ''/etc/anchor'')) sample_audit_key
     (created_file (ho_file sample_host)) = Inr (replicate 32 5, aa_verifier sample_audit, anchor_new)"
    unfolding server_start_def a lock k sample_verifier l rbind_Inr by (simp add: listen_at_def sample_os_def)
qed

abbreviation sample_server :: "client_visit list \<Rightarrow> nat result option \<times> anchor_host" where
  "sample_server visits \<equiv> run_server sample_platform (\<lambda>_. Shallow) sample_os (PStr (lit ''/run/anchor'')) (PStr (lit ''/var/anchor'')) (PStr (lit ''/etc/anchor''))
     sample_audit_key visits sample_host"

text \<open>A server that starts on an empty file and is sent one commit.\<close>

lemma sample_serves:
  obtains h frame w' where "verify_head sample_platform (Some (head_raw h)) (ByVerifier (aa_verifier sample_audit)) = Inr h" "ah_count h = 2"
    "check_commit_size (Some (head_raw h)) (stored sample_chain) = Inr ()"
    "sample_server [\<lparr>cv_sends = \<lparr>si_data = frame, si_fails = False\<rparr>, cv_takes = None, cv_stops = False\<rparr>] = (None, w')" "ho_anchor w' = anchor_at h"
proof -
  let ?P = sample_platform and ?d = "\<lambda>_ :: pystr. Shallow" and ?v = "aa_verifier sample_audit" and ?n = "bytes_hex (replicate 32 3)"
  obtain h where h: "verify_head ?P (Some (head_raw h)) (ByVerifier ?v) = Inr h" "ah_count h = 2"
    "commit ?P (Some (head_raw h)) (stored sample_chain) (ByVerifier ?v) anchor_new = (Inr (2, ah_head_hash h), anchor_at h)"
    "check_commit_size (Some (head_raw h)) (stored sample_chain) = Inr ()" by (rule sample_commit)
  obtain m frame where m: "commit_request (Some (head_raw h)) (stored sample_chain) = Inr m" "anchor_frame (envelope ?n m) MAX_REQUEST_BYTES = Inr frame" "int (ah_count h) \<le> MAX_COUNT"
    by (rule checked_size[OF h(4), of "replicate 32 3"]) simp
  have me: "m = commit_message h sample_chain" using m(1) commit_request_stored[OF m(3), of sample_chain] h(2) by simp
  have rok: "\<forall>r \<in> set sample_chain. record_ok r" using sample_records sized_record_ok by blast
  note cm = commit_message_ok[OF verified_text_ok[OF h(1)] rok, folded me]
  let ?w = "sample_host\<lparr>ho_file := created_file (ho_file sample_host), ho_anchor := anchor_new, ho_out := [], ho_out_takes := None\<rparr>"
  have hd: "anchor_handle ?P ?v (norm_message m) (ho_anchor ?w) = (Inr (committed_reply (2, ah_head_hash h)), anchor_at h)"
    unfolding cm(3) using h(3) by (simp add: abind_def areturn_def)
  from m(2) obtain data where d: "canonical (PDict (envelope ?n m)) = Inr data" "frame = big_endian4 (length data) @ data" by (auto simp: anchor_frame_eq_Inr)
  have n64: "hex_string 64 ?n" using bytes_hex_digest[of "replicate 32 3"] by (simp add: is_digest_def)
  have e: "envelope_of ?P ?d (drop 4 frame) = Inr (?n, norm_message m)"
    using envelope_read[OF cm(1,2) n64 d(1), of ?d ?P] d(2) by (simp add: nesting_ok_def)
  obtain b where b: "canonical (PDict (norm_message m)) = Inr b" using envelope_of_facts(2)[OF e] by blast
  have ok: "anchor_ok (ho_anchor ?w)" "sf_scripts (ho_file ?w) = []" by (simp_all add: anchor_ok_def anchor_new_def MAX_COUNT_def created_file_def sample_host_def)
  obtain w1 where w1: "anchor_answer ?P ?v True (norm_message m) ?w = (Inr (Some (committed_reply (2, ah_head_hash h))), w1)" "ho_anchor w1 = anchor_at h" "ho_out_takes w1 = None"
    using answer_replies[OF hd b ok] by auto
  have "is_digest (ah_head_hash h)" using h(1) by (auto simp: verify_head_eq_Inr)
  then obtain f where f: "envelope_frame ?P (replicate 32 5) ?n (committed_reply (2, ah_head_hash h)) = Inr f"
    using envelope_fits[OF committed_reply_ok[of "(2, ah_head_hash h)"] n64 sample_platform_ok(2)] by (auto simp: MAX_COUNT_def)
  have "sample_server [\<lparr>cv_sends = \<lparr>si_data = frame, si_fails = False\<rparr>, cv_takes = None, cv_stops = False\<rparr>] = (None, w1\<lparr>ho_out := ho_out w1 @ [f]\<rparr>)"
    using serve_one[OF m(2) e w1(1) f w1(3)] by (simp add: run_server_def sample_start)
  with that h w1(2) show thesis by simp
qed

section \<open>Properties\<close>

text \<open>C7. A commit from another process is a commit. When the writer's own size check passed, the records are ones
  the constructors let through, the disk takes the line and the client trusts the anchor's key, then
  committing over the socket, however the reply is cut into pieces, moves the anchor exactly as committing in
  the same process does, and returns the same state or a refusal with the first 512 characters of the same text.\<close>

theorem remote_commit_equals_local:
  fixes w :: anchor_host
  assumes "ed25519_ok P" "nesting_ok deep" "cl_reply_key c = ed25519_public P key" "cuts pieces" "length random = 32"
    and "head_text_ok h" "\<forall>r \<in> set rs. record_ok r" "check_commit_size (Some (head_raw h)) (stored rs) = Inr ()"
    and "anchor_ok (ho_anchor w)" "sf_scripts (ho_file w) = []"
    and "commit P (Some (head_raw h)) (stored rs) (ByVerifier v) (ho_anchor w) = (q, a)"
  shows "\<exists>w2. client_commit P deep (served_ask P deep v key pieces) c random (Some (head_raw h)) (stored rs) w
       = ((case q of Inl e \<Rightarrow> fail (take MAX_REFUSAL_CHARS (exc_message e)) | Inr st \<Rightarrow> Inr st), w2) \<and> ho_anchor w2 = a"
proof -
  obtain m frame where "commit_request (Some (head_raw h)) (stored rs) = Inr m" "anchor_frame (envelope (bytes_hex random) m) MAX_REQUEST_BYTES = Inr frame" "int (ah_count h) \<le> MAX_COUNT"
    by (rule checked_size[OF assms(8,5)])
  from remote_commit[OF assms(1-7) this(3,1,2) assms(9-11)] show ?thesis .
qed

theorem remote_commit_equals_local_witness:
  "\<exists>h w2. client_commit sample_platform (\<lambda>_. Shallow) (served_ask sample_platform (\<lambda>_. Shallow) (aa_verifier sample_audit) (replicate 32 5) byte_by_byte)
       sample_client (replicate 32 3) (Some (head_raw h)) (stored sample_chain) sample_host = (Inr (2, ah_head_hash h), w2) \<and> ho_anchor w2 = anchor_at h"
proof -
  obtain h where h: "verify_head sample_platform (Some (head_raw h)) (ByVerifier (aa_verifier sample_audit)) = Inr h"
    "commit sample_platform (Some (head_raw h)) (stored sample_chain) (ByVerifier (aa_verifier sample_audit)) (ho_anchor sample_host) = (Inr (2, ah_head_hash h), anchor_at h)"
    "check_commit_size (Some (head_raw h)) (stored sample_chain) = Inr ()" by (rule sample_commit) (simp add: sample_host_def)
  have rok: "\<forall>r \<in> set sample_chain. record_ok r" using sample_records sized_record_ok by blast
  show ?thesis
    using remote_commit_equals_local[OF sample_platform_ok(2) _ _ byte_by_byte_cuts _ verified_text_ok[OF h(1)] rok h(3) _ _ h(2), of "\<lambda>_. Shallow" sample_client "replicate 32 5" "replicate 32 3"]
    by (auto simp: nesting_ok_def sample_client_def sample_host_def anchor_ok_def anchor_new_def MAX_COUNT_def)
qed

text \<open>C6. The state file is the truth a restart resumes from. A server that finds a file it cannot load refuses to
  start and leaves it as it is. One that starts at an anchor serves any clients with any bytes, over any
  failures of their connections and of the disk; afterwards, as long as the file is within its bound, it loads
  as an anchor that is not behind the one of the start, and, unless a write failed, as exactly the anchor in
  memory. Only after a failed write, with exit code 2, can it also end in a torn line, which a start refuses.\<close>

theorem state_file_truth:
  assumes "run_server P deep os sp stp kp apk visits w = (r, w')" "nesting_ok deep" "verifier_from P (init_message apk) = Inr v"
    and "length (file_bytes (ho_file w')) \<le> MAX_STATE_BYTES"
  shows "case load_data P deep v (file_bytes (ho_file w)) of
     Inl e \<Rightarrow> file_bytes (ho_file w') = file_bytes (ho_file w) \<and> (\<exists>e'. r = Some (Inl e'))
   | Inr a \<Rightarrow>
       (\<exists>b. an_count a \<le> an_count b \<and> (load_data P deep v (file_bytes (ho_file w')) = Inr b
            \<or> r = Some (Inr 2) \<and> load_data P deep v (file_bytes (ho_file w')) = fail ''anchor state file ends in a torn line''))
     \<and> (r \<in> {None, Some (Inr 0)} \<longrightarrow> load_data P deep v (file_bytes (ho_file w')) = Inr (ho_anchor w'))"
  by (rule server_in_step[OF assms])

theorem state_file_truth_witness:
  "\<exists>visits h w'. sample_server visits = (None, w') \<and> ah_count h = 2
     \<and> load_data sample_platform (\<lambda>_. Shallow) (aa_verifier sample_audit) (file_bytes (ho_file w')) = Inr (anchor_at h)"
proof -
  obtain h frame w' where s: "ah_count h = 2"
    "sample_server [\<lparr>cv_sends = \<lparr>si_data = frame, si_fails = False\<rparr>, cv_takes = None, cv_stops = False\<rparr>] = (None, w')" "ho_anchor w' = anchor_at h"
    by (rule sample_serves)
  have "file_bound w'" by (rule server_bound[OF s(2)]) (simp_all add: sample_host_def file_bytes_def)
  then have "length (file_bytes (ho_file w')) \<le> 2 * line_size 2" using s(1,3) by (simp add: file_bound_def anchor_at_def)
  then have "length (file_bytes (ho_file w')) \<le> MAX_STATE_BYTES" by (simp add: line_size_def nat_digits.simps[of 2] MAX_STATE_BYTES_def)
  from state_file_truth[OF s(2) _ sample_verifier this] s
  have "load_data sample_platform (\<lambda>_. Shallow) (aa_verifier sample_audit) (file_bytes (ho_file w')) = Inr (anchor_at h)"
    by (auto simp: nesting_ok_def sample_host_def file_bytes_def load_data_def)
  with s show ?thesis by blast
qed

text \<open>C11. What the writer's size check lets through, a restart can read: an anchor served from an empty file whose
  current head passed \<open>_check_commit_size\<close> has a state file within the bound of a start, and it loads as the
  anchor in memory. The file holds at most one line per record, and no line is longer than the last.\<close>

theorem checked_commits_reload:
  assumes "run_server P deep os sp stp kp apk visits w = (r, w')" "nesting_ok deep" "verifier_from P (init_message apk) = Inr v"
    and "file_bytes (ho_file w) = []" "ho_anchor w = anchor_new" "r \<in> {None, Some (Inr 0)}"
    and "ho_anchor w' = anchor_at h" "verify_head P (Some (head_raw h)) (ByVerifier v) = Inr h"
    and "check_commit_size (Some (head_raw h)) records = Inr ()"
  shows "length (file_bytes (ho_file w')) \<le> MAX_STATE_BYTES \<and> load_data P deep v (file_bytes (ho_file w')) = Inr (ho_anchor w')"
proof -
  obtain line where l: "head_line (head_raw h) = Inr line" "ah_count h * length line \<le> MAX_STATE_BYTES"
    by (rule checked_size[OF assms(9), of "replicate 32 0"]) simp
  have "length (file_bytes (ho_file w')) \<le> ah_count h * line_size (ah_count h)"
    using server_bound[OF assms(1,4,5)] assms(7) by (simp add: file_bound_def anchor_at_def)
  also have "\<dots> \<le> MAX_STATE_BYTES" using l line_length[OF assms(8) l(1)] by simp
  finally have b: "length (file_bytes (ho_file w')) \<le> MAX_STATE_BYTES" .
  with server_in_step[OF assms(1-3) b] assms(4,6) show ?thesis by (auto simp: load_data_def)
qed

theorem checked_commits_reload_witness:
  "\<exists>visits h w'. sample_server visits = (None, w') \<and> ho_anchor w' = anchor_at h \<and> ah_count h = 2 \<and> length (file_bytes (ho_file w')) \<le> MAX_STATE_BYTES"
proof -
  obtain h frame w' where s: "verify_head sample_platform (Some (head_raw h)) (ByVerifier (aa_verifier sample_audit)) = Inr h" "ah_count h = 2"
    "check_commit_size (Some (head_raw h)) (stored sample_chain) = Inr ()"
    "sample_server [\<lparr>cv_sends = \<lparr>si_data = frame, si_fails = False\<rparr>, cv_takes = None, cv_stops = False\<rparr>] = (None, w')" "ho_anchor w' = anchor_at h"
    by (rule sample_serves)
  from checked_commits_reload[OF s(4) _ sample_verifier _ _ _ s(5,1,3)] have "length (file_bytes (ho_file w')) \<le> MAX_STATE_BYTES"
    by (auto simp: nesting_ok_def sample_host_def file_bytes_def)
  with s show ?thesis by blast
qed

text \<open>C9. The anchor's process answers whatever it is sent: for any bytes on its input and any state of its file and
  its lock, it ends with one of its exit codes, or because a pipe failed; and it
  writes at most one reply for every four bytes it was sent. The one exception that escapes is \<open>RecursionError\<close>, when
  \<open>json.loads\<close> takes a text whose value \<open>json.dumps\<close> cannot print: where there is no such text, there is no exception
  but that of a pipe.\<close>

theorem anchor_process_ends:
  assumes "anchor_serve P deep (fst (state_lock P os durable held)) durable s w = (r, s', w')"
  shows "(r \<in> {Inr 0, Inr 1, Inr 2} \<or> r = Inl os_error \<and> (si_fails s \<or> ho_out_takes w \<noteq> None) \<or> r = Inl recursion_error \<and> (\<exists>t. deep t = DeepPrint))
     \<and> 4 * length (ho_out w') \<le> 4 * length (ho_out w) + length (si_data s)"
proof -
  have "refuses_only (fst (state_lock P os durable held))"
    by (auto simp: state_lock_def state_lease_def split: prod.splits sum.splits option.splits if_splits)
  from serve_ends[OF assms this] show ?thesis by blast
qed

theorem anchor_process_ends_witness:
  "\<exists>r s' w'. anchor_serve sample_platform (\<lambda>_. Shallow) (fst (state_lock sample_platform sample_lease True [])) True
       \<lparr>si_data = [0, 0, 0, 2, 123, 125, 255], si_fails = False\<rparr> sample_host = (r, s', w') \<and> r \<in> {Inr 0, Inr 1, Inr 2} \<and> length (ho_out w') \<le> 1"
proof -
  obtain r s' w' where r: "anchor_serve sample_platform (\<lambda>_. Shallow) (fst (state_lock sample_platform sample_lease True [])) True
       \<lparr>si_data = [0, 0, 0, 2, 123, 125, 255], si_fails = False\<rparr> sample_host = (r, s', w')" by (metis prod_cases3)
  from anchor_process_ends[OF r] have "r \<in> {Inr 0, Inr 1, Inr 2} \<and> length (ho_out w') \<le> 1" by (auto simp: sample_host_def)
  with r show ?thesis by blast
qed

text \<open>What escapes: a request whose value is read and not printed ends the process, without a reply.\<close>

theorem nested_request_escapes:
  assumes "ascii_decode data = Some t" "deep t = DeepPrint" "json_loads (plain_hooks_json P) t = Inr (PDict d)"
  shows "child_step P deep v durable data w = (Inl recursion_error, w) \<and> connection_step P deep v key data w = (Inl recursion_error, w)"
  using assms by (simp add: child_step_def connection_step_def envelope_of_def anchor_decode_def recursion_error_def abind_def araise_def)

text \<open>C10. A client believes only what the anchor signed for its request: when an exchange returns a state, the other
  side has sent a reply of exactly that state, with a signature that verifies under the configured key over the
  nonce of this request and the reply, and no other nonce gives the message that was signed.\<close>

theorem client_believes_signed:
  assumes "client_exchange P deep ask c random request w = (Inr st, w')" "length random = 32"
  shows "\<exists>frame segs r m sig. anchor_frame (envelope (bytes_hex random) request) MAX_REQUEST_BYTES = Inr frame \<and> ask frame w = (Inr segs, w')
     \<and> reply_message (bytes_hex random) (PDict r) = Inr m \<and> ed25519_verify P (cl_reply_key c) m sig \<and> state_of r = Inr st
     \<and> (\<forall>nonce v. hex_string 64 nonce \<and> reply_message nonce v = Inr m \<longrightarrow> nonce = bytes_hex random)"
proof -
  have n: "hex_string 64 (bytes_hex random)" using bytes_hex_digest[OF assms(2)] by (simp add: is_digest_def)
  from exchange_eq_Inr[OF assms(1)] obtain frame segs data where
    f: "anchor_frame (envelope (bytes_hex random) request) MAX_REQUEST_BYTES = Inr frame" "ask frame w = (Inr segs, w')"
    and d: "client_reads P deep c (bytes_hex random) data = Inr st" by blast
  from client_reads_eq_Inr[OF d] obtain r m sig where
    r: "reply_message (bytes_hex random) (PDict r) = Inr m" "ed25519_verify P (cl_reply_key c) m sig" "state_of r = Inr st" by blast
  have "\<forall>nonce v. hex_string 64 nonce \<and> reply_message nonce v = Inr m \<longrightarrow> nonce = bytes_hex random"
    using reply_message_nonce[OF _ r(1) _ n] by blast
  with f r show ?thesis by blast
qed

theorem client_believes_signed_witness:
  "\<exists>h m sig w2. client_commit sample_platform (\<lambda>_. Shallow) (served_ask sample_platform (\<lambda>_. Shallow) (aa_verifier sample_audit) (replicate 32 5) byte_by_byte)
       sample_client (replicate 32 3) (Some (head_raw h)) (stored sample_chain) sample_host = (Inr (2, ah_head_hash h), w2)
     \<and> ed25519_verify sample_platform (cl_reply_key sample_client) m sig"
proof -
  let ?ask = "served_ask sample_platform (\<lambda>_. Shallow) (aa_verifier sample_audit) (replicate 32 5) byte_by_byte"
  obtain h where h: "verify_head sample_platform (Some (head_raw h)) (ByVerifier (aa_verifier sample_audit)) = Inr h"
    "commit sample_platform (Some (head_raw h)) (stored sample_chain) (ByVerifier (aa_verifier sample_audit)) (ho_anchor sample_host) = (Inr (2, ah_head_hash h), anchor_at h)"
    "check_commit_size (Some (head_raw h)) (stored sample_chain) = Inr ()" by (rule sample_commit) (simp add: sample_host_def)
  obtain m frame where m: "commit_request (Some (head_raw h)) (stored sample_chain) = Inr m" "anchor_frame (envelope (bytes_hex (replicate 32 3)) m) MAX_REQUEST_BYTES = Inr frame" "int (ah_count h) \<le> MAX_COUNT"
    by (rule checked_size[OF h(3), of "replicate 32 3"]) simp
  have rok: "\<forall>r \<in> set sample_chain. record_ok r" using sample_records sized_record_ok by blast
  have "\<exists>w2. client_commit sample_platform (\<lambda>_. Shallow) ?ask sample_client (replicate 32 3) (Some (head_raw h)) (stored sample_chain) sample_host
      = ((case Inr (2, ah_head_hash h) of Inl e \<Rightarrow> fail (take MAX_REFUSAL_CHARS (exc_message e)) | Inr st \<Rightarrow> Inr st), w2) \<and> ho_anchor w2 = anchor_at h"
    by (rule remote_commit[OF sample_platform_ok(2) _ _ byte_by_byte_cuts _ verified_text_ok[OF h(1)] rok m(3,1,2) _ _ h(2)])
      (simp_all add: nesting_ok_def sample_client_def sample_host_def anchor_ok_def anchor_new_def MAX_COUNT_def)
  then obtain w2 where w2: "client_commit sample_platform (\<lambda>_. Shallow) ?ask sample_client (replicate 32 3) (Some (head_raw h)) (stored sample_chain) sample_host
      = (Inr (2, ah_head_hash h), w2)" by auto
  then have "client_exchange sample_platform (\<lambda>_. Shallow) ?ask sample_client (replicate 32 3) m sample_host = (Inr (2, ah_head_hash h), w2)"
    by (simp add: client_commit_def m(1) abind_def alift_def)
  from client_believes_signed[OF this] w2 show ?thesis by auto
qed

text \<open>One process owns a state file: while a process holds the lock, whatever path another one reaches the same
  file by, or whatever file now stands at the same path, its lock is refused and frees what it took.\<close>

theorem one_owner:
  assumes "state_lock P os True held = (Inr (), held1)" "lo_open os = Some (regular, dev, ino)" "set held1 \<subseteq> set held2"
    and "lo_realpath os' = lo_realpath os \<or> lo_open os' = Some (regular', dev, ino)"
  shows "\<exists>e. state_lock P os' True held2 = (fail e, held2)"
proof -
  have "path_address P (lo_realpath os) \<in> set held1" "inode_address P dev ino \<in> set held1"
    using assms(1,2) by (auto simp: state_lock_def state_lease_def split: if_splits)
  then have "path_address P (lo_realpath os) \<in> set held2" "inode_address P dev ino \<in> set held2" using assms(3) by blast+
  with assms(4) show ?thesis by (auto simp: state_lock_def state_lease_def split: option.splits)
qed

theorem one_owner_witness:
  "\<exists>e held1. state_lock sample_platform sample_lease True [] = (Inr (), held1)
     \<and> state_lock sample_platform (sample_lease\<lparr>lo_realpath := ascii_bytes (lit ''/mnt/anchor'')\<rparr>) True held1 = (fail e, held1)"
proof -
  obtain held1 where h: "state_lock sample_platform sample_lease True [] = (Inr (), held1)"
    using sample_start(2) by (cases "state_lock sample_platform sample_lease True []") (auto simp: sample_os_def is_ok_def split: sum.splits)
  have "\<exists>e. state_lock sample_platform (sample_lease\<lparr>lo_realpath := ascii_bytes (lit ''/mnt/anchor'')\<rparr>) True held1 = (fail e, held1)"
    by (rule one_owner[OF h, where regular = True and regular' = True and dev = 1 and ino = 7]) (simp_all add: sample_lease_def)
  with h show ?thesis by blast
qed

end
