(* ===== verification/ProcessFilter.thy ===== *)
theory ProcessFilter
  imports PyText
begin

text \<open>
  The seccomp program of \<open>geniusnew/isolation.py\<close>: the table of architectures, the encoder of one classic
  BPF instruction, the program a worker process installs, and its installation.

  The machine that runs the program is the kernel's. \<open>bpf_run\<close> is the part of classic BPF the program uses,
  as the kernel documents it, on the encoded bytes: an accumulator, loads from \<open>seccomp_data\<close>, forward jumps,
  and a constant to return. What the properties rely on is the hypothesis \<open>seccomp_ok\<close>: the kernel answers
  a system call with what the documented machine returns.

  \<open>process_verdict\<close> is the policy the program means, as decisions on the number and first argument of the
  call. \<open>filter_runs_policy\<close> shows that the encoded program decides every call this way.
\<close>

unbundle bit_operations_syntax

type_synonym word32 = "32 word"

section \<open>The table\<close>

record filter_arch =
  fa_arch :: word32
  fa_kill :: "word32 list"
  fa_clone :: word32
  fa_clone3 :: word32
  fa_prctl :: word32

definition FILTER_ARCHES :: "string \<Rightarrow> filter_arch option" where
  "FILTER_ARCHES machine =
     (if machine = ''x86_64''
      then Some \<lparr>fa_arch = 0xC000003E, fa_kill = [57, 58, 59, 105, 106, 113, 114, 116, 117, 119, 122, 123, 126, 157, 322],
                 fa_clone = 56, fa_clone3 = 435, fa_prctl = 157\<rparr>
      else None)"

definition X32_SYSCALL_BIT :: word32 where "X32_SYSCALL_BIT = 0x40000000"
definition CLONE_THREAD :: word32 where "CLONE_THREAD = 0x00010000"
definition ENOSYS :: word32 where "ENOSYS = 38"
definition SECCOMP_RET_KILL_PROCESS :: word32 where "SECCOMP_RET_KILL_PROCESS = 0x80000000"
definition SECCOMP_RET_ERRNO :: word32 where "SECCOMP_RET_ERRNO = 0x00050000"
definition SECCOMP_RET_ALLOW :: word32 where "SECCOMP_RET_ALLOW = 0x7FFF0000"
definition THREAD_NAME_ACTION :: word32 where "THREAD_NAME_ACTION = SECCOMP_RET_ERRNO OR 1"
definition BPF_LD_W_ABS :: nat where "BPF_LD_W_ABS = 0x20"
definition BPF_JEQ_K :: nat where "BPF_JEQ_K = 0x15"
definition BPF_JGE_K :: nat where "BPF_JGE_K = 0x35"
definition BPF_JSET_K :: nat where "BPF_JSET_K = 0x45"
definition BPF_RET_K :: nat where "BPF_RET_K = 0x06"
definition PR_SET_NAME :: word32 where "PR_SET_NAME = 15"

section \<open>The program\<close>

text \<open>\<open>struct.pack("HBBI", code, jt, jf, k)\<close>: eight bytes, little endian, without padding.\<close>

definition little_endian :: "nat \<Rightarrow> nat \<Rightarrow> bytes" where
  "little_endian n x = map (\<lambda>i. of_nat (x div 256 ^ i)) [0..<n]"

definition bpf :: "nat \<Rightarrow> nat \<Rightarrow> nat \<Rightarrow> word32 \<Rightarrow> bytes" where
  "bpf code jt jf k = little_endian 2 code @ little_endian 1 jt @ little_endian 1 jf @ little_endian 4 (unat k)"

definition process_filter :: "string \<Rightarrow> bytes result" where
  "process_filter machine =
     (case FILTER_ARCHES machine of
        None \<Rightarrow> fail ''no seccomp process filter for this architecture''
      | Some arch \<Rightarrow>
          let kill = bpf BPF_RET_K 0 0 SECCOMP_RET_KILL_PROCESS in
          Inr (concat (
            [bpf BPF_LD_W_ABS 0 0 4,
             bpf BPF_JEQ_K 1 0 (fa_arch arch),
             kill,
             bpf BPF_LD_W_ABS 0 0 0,
             bpf BPF_JGE_K 0 1 X32_SYSCALL_BIT,
             kill,
             bpf BPF_JEQ_K 0 3 (fa_prctl arch),
             bpf BPF_LD_W_ABS 0 0 16,
             bpf BPF_JEQ_K 0 1 PR_SET_NAME,
             bpf BPF_RET_K 0 0 THREAD_NAME_ACTION,
             bpf BPF_LD_W_ABS 0 0 0]
            @ concat (map (\<lambda>number. [bpf BPF_JEQ_K 0 1 number, kill]) (fa_kill arch))
            @ [bpf BPF_JEQ_K 0 1 (fa_clone3 arch),
               bpf BPF_RET_K 0 0 (SECCOMP_RET_ERRNO OR ENOSYS),
               bpf BPF_JEQ_K 0 3 (fa_clone arch),
               bpf BPF_LD_W_ABS 0 0 16,
               bpf BPF_JSET_K 1 0 CLONE_THREAD,
               kill,
               bpf BPF_RET_K 0 0 SECCOMP_RET_ALLOW])))"

definition process_filter_supported :: "string \<Rightarrow> nat \<Rightarrow> string \<Rightarrow> bool" where
  "process_filter_supported platform_name pointer_bytes machine \<longleftrightarrow>
     take 5 platform_name = ''linux'' \<and> pointer_bytes = 8 \<and> FILTER_ARCHES machine \<noteq> None"

text \<open>The state a process can only tighten: whether it gave up new privileges, and its filters. \<open>prctl\<close> is
  what the kernel answers to the two calls; the second needs the first.\<close>

record seccomp_state =
  ss_no_new_privs :: bool
  ss_filters :: "bytes list"

definition install_process_filter :: "string \<Rightarrow> (nat \<Rightarrow> int) \<Rightarrow> (seccomp_state, unit) action" where
  "install_process_filter machine prctl s =
     (case process_filter machine of
        Inl e \<Rightarrow> (Inl e, s)
      | Inr program \<Rightarrow>
          if prctl 38 \<noteq> 0 then (fail ''could not set no_new_privs for the worker'', s) else
          let s1 = s\<lparr>ss_no_new_privs := True\<rparr> in
          if prctl 22 \<noteq> 0 then (fail ''could not install the worker's seccomp filter'', s1)
          else (Inr (), s1\<lparr>ss_filters := program # ss_filters s1\<rparr>))"

section \<open>The machine\<close>

text \<open>\<open>struct seccomp_data\<close>, and the aligned word at an offset of it.\<close>

record seccomp_data =
  sd_nr :: word32
  sd_arch :: word32
  sd_pointer :: "64 word"
  sd_args :: "64 word list"

definition low_word :: "64 word \<Rightarrow> word32" where "low_word w = ucast w"
definition high_word :: "64 word \<Rightarrow> word32" where "high_word w = ucast (drop_bit 32 w)"

definition arg :: "seccomp_data \<Rightarrow> nat \<Rightarrow> 64 word" where
  "arg sd i = (if i < length (sd_args sd) then sd_args sd ! i else 0)"

definition data_word :: "seccomp_data \<Rightarrow> nat \<Rightarrow> word32 option" where
  "data_word sd k =
     (if k mod 4 \<noteq> 0 \<or> 64 \<le> k then None else
      if k = 0 then Some (sd_nr sd) else
      if k = 4 then Some (sd_arch sd) else
      if k = 8 then Some (low_word (sd_pointer sd)) else
      if k = 12 then Some (high_word (sd_pointer sd)) else
      if k mod 8 = 0 then Some (low_word (arg sd ((k - 16) div 8)))
      else Some (high_word (arg sd ((k - 16) div 8))))"

datatype instruction = Instruction (i_code: nat) (i_jt: nat) (i_jf: nat) (i_k: word32)

definition from_little_endian :: "bytes \<Rightarrow> nat" where
  "from_little_endian bs = foldr (\<lambda>b n. unat b + 256 * n) bs 0"

text \<open>A trailing part of an instruction is none.\<close>

function instructions :: "bytes \<Rightarrow> instruction list option" where
  "instructions bs =
     (if bs = [] then Some [] else
      if length bs < 8 then None else
      map_option (\<lambda>is. Instruction (from_little_endian (take 2 bs)) (unat (bs ! 2)) (unat (bs ! 3))
                         (of_nat (from_little_endian (take 4 (drop 4 bs)))) # is)
        (instructions (drop 8 bs)))"
  by pat_completeness auto
termination by (relation "measure length") auto

declare instructions.simps [simp del]

function bpf_exec :: "seccomp_data \<Rightarrow> instruction list \<Rightarrow> word32 \<Rightarrow> word32 option" where
  "bpf_exec sd [] a = None"
| "bpf_exec sd (i # is) a =
     (let jump = (\<lambda>c. bpf_exec sd (drop (if c then i_jt i else i_jf i) is) a) in
      if i_code i = 0x20 then (case data_word sd (unat (i_k i)) of None \<Rightarrow> None | Some w \<Rightarrow> bpf_exec sd is w) else
      if i_code i = 0x15 then jump (a = i_k i) else
      if i_code i = 0x35 then jump (i_k i \<le> a) else
      if i_code i = 0x45 then jump (a AND i_k i \<noteq> 0) else
      if i_code i = 0x06 then Some (i_k i) else None)"
  by pat_completeness auto
termination by (relation "measure (\<lambda>(sd, is, a). length is)") auto

definition bpf_run :: "bytes \<Rightarrow> seccomp_data \<Rightarrow> word32 option" where
  "bpf_run program sd = (case instructions program of None \<Rightarrow> None | Some is \<Rightarrow> bpf_exec sd is 0)"

text \<open>The kernel does what its documentation says of a program it accepted.\<close>

definition seccomp_ok :: "(bytes \<Rightarrow> seccomp_data \<Rightarrow> word32) \<Rightarrow> bool" where
  "seccomp_ok decide \<longleftrightarrow> (\<forall>program sd v. bpf_run program sd = Some v \<longrightarrow> decide program sd = v)"

section \<open>The policy\<close>

text \<open>What a call is answered with: a foreign calling convention and the calls of the table kill the
  process, setting a thread's name is refused, \<open>clone3\<close> does not exist, and \<open>clone\<close> makes threads only.\<close>

definition process_verdict :: "filter_arch \<Rightarrow> seccomp_data \<Rightarrow> word32" where
  "process_verdict arch sd =
     (if sd_arch sd \<noteq> fa_arch arch \<or> X32_SYSCALL_BIT \<le> sd_nr sd then SECCOMP_RET_KILL_PROCESS else
      if sd_nr sd = fa_prctl arch \<and> low_word (arg sd 0) = PR_SET_NAME then THREAD_NAME_ACTION else
      if sd_nr sd \<in> set (fa_kill arch) then SECCOMP_RET_KILL_PROCESS else
      if sd_nr sd = fa_clone3 arch then SECCOMP_RET_ERRNO OR ENOSYS else
      if sd_nr sd = fa_clone arch \<and> low_word (arg sd 0) AND CLONE_THREAD = 0 then SECCOMP_RET_KILL_PROCESS
      else SECCOMP_RET_ALLOW)"

section \<open>What is encoded is what runs\<close>

lemma length_little_endian [simp]: "length (little_endian n x) = n"
  by (simp add: little_endian_def)

lemma little_endian_Suc: "little_endian (Suc n) x = of_nat x # little_endian n (x div 256)"
  unfolding little_endian_def
  by (subst upt_conv_Cons, simp, simp only: map_Suc_upt[symmetric] list.map map_map comp_def power_0 div_by_1 power_Suc div_mult2_eq)

lemma little_endian_roundtrip: "x < 256 ^ n \<Longrightarrow> from_little_endian (little_endian n x) = x"
proof (induction n arbitrary: x)
  case (Suc n)
  then have "from_little_endian (little_endian n (x div 256)) = x div 256"
    by (simp add: less_mult_imp_div_less mult.commute)
  then show ?case by (simp add: little_endian_Suc from_little_endian_def unat_of_nat)
qed (simp add: from_little_endian_def little_endian_def)

lemma length_bpf [simp]: "length (bpf code jt jf k) = 8"
  by (simp add: bpf_def)

lemma instructions_bpf:
  assumes "code < 256 ^ 2" "jt < 256" "jf < 256"
  shows "instructions (bpf code jt jf k @ bs) = map_option (\<lambda>is. Instruction code jt jf k # is) (instructions bs)"
proof -
  have k: "from_little_endian (little_endian 4 (unat k)) = unat k"
    using unsigned_less[of k, where ?'a = nat] by (intro little_endian_roundtrip) simp
  have one: "little_endian (Suc 0) x = [of_nat x]" for x by (simp add: little_endian_def)
  have two: "\<exists>a b. little_endian 2 code = [a, b]" by (simp add: little_endian_def numeral_2_eq_2)
  then obtain a b where ab: "little_endian 2 code = [a, b]" by blast
  with little_endian_roundtrip[OF assms(1)] have c: "from_little_endian [a, b] = code" by simp
  show ?thesis
    by (subst instructions.simps) (use assms k in \<open>simp add: bpf_def ab c one unat_of_nat\<close>)
qed

lemma instructions_concat:
  assumes "\<forall>i \<in> set is. i_code i < 256 ^ 2 \<and> i_jt i < 256 \<and> i_jf i < 256"
  shows "instructions (concat (map (\<lambda>i. bpf (i_code i) (i_jt i) (i_jf i) (i_k i)) is)) = Some is"
  using assms
proof (induction "is")
  case Nil
  show ?case by (simp add: instructions.simps)
qed (simp add: instructions_bpf)

section \<open>The program decides by the policy\<close>

definition encoded :: "instruction list \<Rightarrow> bytes" where
  "encoded is = concat (map (\<lambda>i. bpf (i_code i) (i_jt i) (i_jf i) (i_k i)) is)"

definition kill_instruction :: instruction where
  "kill_instruction = Instruction 0x06 0 0 SECCOMP_RET_KILL_PROCESS"

definition kill_calls :: "word32 list \<Rightarrow> instruction list" where
  "kill_calls numbers = concat (map (\<lambda>number. [Instruction 0x15 0 1 number, kill_instruction]) numbers)"

definition filter_instructions :: "filter_arch \<Rightarrow> instruction list" where
  "filter_instructions arch =
     [Instruction 0x20 0 0 4, Instruction 0x15 1 0 (fa_arch arch), kill_instruction, Instruction 0x20 0 0 0,
      Instruction 0x35 0 1 X32_SYSCALL_BIT, kill_instruction, Instruction 0x15 0 3 (fa_prctl arch),
      Instruction 0x20 0 0 16, Instruction 0x15 0 1 PR_SET_NAME, Instruction 0x06 0 0 THREAD_NAME_ACTION,
      Instruction 0x20 0 0 0] @ kill_calls (fa_kill arch)
     @ [Instruction 0x15 0 1 (fa_clone3 arch), Instruction 0x06 0 0 (SECCOMP_RET_ERRNO OR ENOSYS),
        Instruction 0x15 0 3 (fa_clone arch), Instruction 0x20 0 0 16, Instruction 0x45 1 0 CLONE_THREAD,
        kill_instruction, Instruction 0x06 0 0 SECCOMP_RET_ALLOW]"

lemma encoded_simps [simp]: "encoded [] = []" "encoded (Instruction c t f k # is) = bpf c t f k @ encoded is"
  "encoded (is @ js) = encoded is @ encoded js"
  by (simp_all add: encoded_def)

lemma encoded_kill_calls:
  "encoded (kill_calls ns) = concat (concat (map (\<lambda>n. [bpf 0x15 0 1 n, bpf 0x06 0 0 SECCOMP_RET_KILL_PROCESS]) ns))"
  by (induction ns) (simp_all add: kill_calls_def kill_instruction_def)

lemma process_filter_encoded:
  "FILTER_ARCHES machine = Some arch \<Longrightarrow> process_filter machine = Inr (encoded (filter_instructions arch))"
  by (simp add: process_filter_def filter_instructions_def encoded_kill_calls kill_instruction_def Let_def
      BPF_LD_W_ABS_def BPF_JEQ_K_def BPF_JGE_K_def BPF_JSET_K_def BPF_RET_K_def)

lemma filter_instructions_read: "instructions (encoded (filter_instructions arch)) = Some (filter_instructions arch)"
  unfolding encoded_def
  by (rule instructions_concat) (auto simp: filter_instructions_def kill_calls_def kill_instruction_def)

lemma exec_kill_calls:
  "bpf_exec sd (kill_calls ns @ rest) a = (if a \<in> set ns then Some SECCOMP_RET_KILL_PROCESS else bpf_exec sd rest a)"
  by (induction ns) (auto simp: kill_calls_def kill_instruction_def)

lemma data_words: "data_word sd 0 = Some (sd_nr sd)" "data_word sd 4 = Some (sd_arch sd)"
  "data_word sd 16 = Some (low_word (arg sd 0))"
  by (simp_all add: data_word_def)

lemma exec_clone_calls:
  "bpf_exec sd [Instruction 0x15 0 1 clone3, Instruction 0x06 0 0 missing, Instruction 0x15 0 3 clone,
       Instruction 0x20 0 0 16, Instruction 0x45 1 0 thread, kill_instruction, Instruction 0x06 0 0 allow] a
   = Some (if a = clone3 then missing else
           if a = clone \<and> low_word (arg sd 0) AND thread = 0 then SECCOMP_RET_KILL_PROCESS else allow)"
  by (simp add: kill_instruction_def data_words)

lemma exec_prologue:
  "bpf_exec sd (Instruction 0x20 0 0 4 # Instruction 0x15 1 0 native # kill_instruction # Instruction 0x20 0 0 0
       # Instruction 0x35 0 1 foreign # kill_instruction # Instruction 0x15 0 3 prctl # Instruction 0x20 0 0 16
       # Instruction 0x15 0 1 name # Instruction 0x06 0 0 refused # Instruction 0x20 0 0 0 # rest) a
   = (if sd_arch sd \<noteq> native \<or> foreign \<le> sd_nr sd then Some SECCOMP_RET_KILL_PROCESS else
      if sd_nr sd = prctl \<and> low_word (arg sd 0) = name then Some refused else bpf_exec sd rest (sd_nr sd))"
  by (simp add: kill_instruction_def data_words)

lemma filter_executes: "bpf_exec sd (filter_instructions arch) a = Some (process_verdict arch sd)"
  unfolding filter_instructions_def append_Cons append_Nil exec_prologue exec_kill_calls exec_clone_calls process_verdict_def
  by simp

lemma filter_decides:
  assumes "FILTER_ARCHES machine = Some arch"
  shows "\<exists>program. process_filter machine = Inr program \<and> (\<forall>sd. bpf_run program sd = Some (process_verdict arch sd))"
  using process_filter_encoded[OF assms] filter_instructions_read[of arch] filter_executes[of _ arch]
  by (simp add: bpf_run_def)

lemma install_filters:
  assumes "install_process_filter machine prctl s = (r, s')"
  shows "r = Inr () \<Longrightarrow> \<exists>program. process_filter machine = Inr program \<and> s' = \<lparr>ss_no_new_privs = True, ss_filters = program # ss_filters s\<rparr>"
    and "r = Inl e \<Longrightarrow> ss_filters s' = ss_filters s"
  using assms by (auto simp: install_process_filter_def Let_def split: sum.splits if_splits)

text \<open>C20. After a worker process installed its filter, the kernel answers each of its system calls by the
  policy: whatever the number, the calling convention and the arguments, a call that would start a process or
  a program (\<open>fork\<close>, \<open>vfork\<close>, \<open>execve\<close>, \<open>execveat\<close>, a \<open>clone\<close> that makes no thread), change its user or
  undo its settings kills it, \<open>clone3\<close> reports that it does not exist, and every other call of the native
  interface runs. The program is the bytes the process installs, jumps and encoding included.\<close>

theorem filter_runs_policy:
  assumes "install_process_filter machine prctl s = (Inr (), s')" "FILTER_ARCHES machine = Some arch" "seccomp_ok decide"
  shows "ss_no_new_privs s' \<and> (\<exists>program. ss_filters s' = program # ss_filters s \<and> (\<forall>sd. decide program sd = process_verdict arch sd))"
proof -
  obtain program where p: "process_filter machine = Inr program" "\<And>sd. bpf_run program sd = Some (process_verdict arch sd)"
    using filter_decides[OF assms(2)] by blast
  with install_filters(1)[OF assms(1)] assms(3) show ?thesis by (auto simp: seccomp_ok_def)
qed

theorem filter_runs_policy_witness:
  "\<exists>program arch. FILTER_ARCHES ''x86_64'' = Some arch
     \<and> install_process_filter ''x86_64'' (\<lambda>_. 0) \<lparr>ss_no_new_privs = False, ss_filters = []\<rparr>
         = (Inr (), \<lparr>ss_no_new_privs = True, ss_filters = [program]\<rparr>)
     \<and> length program = 384
     \<and> (\<forall>sd. (\<lambda>p sd. case bpf_run p sd of Some v \<Rightarrow> v | None \<Rightarrow> 0) program sd = process_verdict arch sd)
     \<and> process_verdict arch \<lparr>sd_nr = 59, sd_arch = 0xC000003E, sd_pointer = 0, sd_args = [0, 0, 0, 0, 0, 0]\<rparr> = SECCOMP_RET_KILL_PROCESS
     \<and> process_verdict arch \<lparr>sd_nr = 56, sd_arch = 0xC000003E, sd_pointer = 0, sd_args = [0x3D0F00, 0, 0, 0, 0, 0]\<rparr> = SECCOMP_RET_ALLOW"
proof -
  define s :: seccomp_state where "s = \<lparr>ss_no_new_privs = False, ss_filters = []\<rparr>"
  obtain arch where a: "FILTER_ARCHES ''x86_64'' = Some arch" by (simp add: FILTER_ARCHES_def)
  obtain program where p: "process_filter ''x86_64'' = Inr program" using process_filter_encoded[OF a] by blast
  have i: "install_process_filter ''x86_64'' (\<lambda>_. 0) s = (Inr (), \<lparr>ss_no_new_privs = True, ss_filters = [program]\<rparr>)"
    by (simp add: install_process_filter_def p s_def)
  have k: "seccomp_ok (\<lambda>p sd. case bpf_run p sd of Some v \<Rightarrow> v | None \<Rightarrow> 0)" by (simp add: seccomp_ok_def)
  have l: "length program = 384"
    using p by (simp add: process_filter_def FILTER_ARCHES_def Let_def) auto
  have v: "process_verdict arch \<lparr>sd_nr = 59, sd_arch = 0xC000003E, sd_pointer = 0, sd_args = [0, 0, 0, 0, 0, 0]\<rparr> = SECCOMP_RET_KILL_PROCESS"
    using a by (simp add: FILTER_ARCHES_def process_verdict_def X32_SYSCALL_BIT_def) auto
  have w: "process_verdict arch \<lparr>sd_nr = 56, sd_arch = 0xC000003E, sd_pointer = 0, sd_args = [0x3D0F00, 0, 0, 0, 0, 0]\<rparr> = SECCOMP_RET_ALLOW"
    using a by (simp add: FILTER_ARCHES_def process_verdict_def X32_SYSCALL_BIT_def low_word_def arg_def CLONE_THREAD_def) auto
  have "\<forall>sd. (\<lambda>p sd. case bpf_run p sd of Some v \<Rightarrow> v | None \<Rightarrow> 0) program sd = process_verdict arch sd"
    using filter_runs_policy[OF i a k] by (auto simp: s_def)
  then show ?thesis using i a l v w unfolding s_def by blast
qed

end
