(* ===== verification/Sandbox.thy ===== *)
theory Sandbox
  imports ProcessFilter PyLoads Complex_Main
begin

text \<open>
  The limits a worker process runs under, of \<open>geniusnew/isolation.py\<close>: \<open>IsolationLimits\<close> and the resource
  limits they become, the audit hook that refuses what Python reports, and the Landlock rules that confine the
  process in the kernel.

  The operating system is a parameter: \<open>path_os\<close> resolves paths (\<open>os.fsdecode\<close>, \<open>os.path.realpath\<close> of
  \<open>os.path.abspath\<close>), \<open>landlock_os\<close> answers the system calls of one installation. A float is known by its
  \<open>repr\<close>; the function \<open>value\<close> gives its exact value, \<open>None\<close> for a NaN or an infinity.
\<close>

section \<open>Limits\<close>

record isolation_limits =
  il_wall_seconds :: pyval
  il_cpu_seconds :: int
  il_memory_bytes :: int
  il_max_file_bytes :: int
  il_max_open_files :: int

definition default_limits :: isolation_limits where
  "default_limits =
     \<lparr>il_wall_seconds = PFloat (lit ''2.0''), il_cpu_seconds = 1, il_memory_bytes = 512 * 1024 * 1024,
      il_max_file_bytes = 1024 * 1024, il_max_open_files = 64\<rparr>"

text \<open>The float \<open>0.05\<close>, and \<open>float(n)\<close> of an int: from the bound on it raises.\<close>

definition shortest_wall :: rat where "shortest_wall = 3602879701896397 / 72057594037927936"
definition float_overflow :: int where "float_overflow = 2 ^ 1024 - 2 ^ 970"

definition wall_value :: "(pystr \<Rightarrow> rat option) \<Rightarrow> pyval \<Rightarrow> rat option result" where
  "wall_value value v =
     (case v of
        PInt i \<Rightarrow> if float_overflow \<le> \<bar>i\<bar> then Inl (PyError ''OverflowError'') else Inr (Some (of_int i))
      | PFloat r \<Rightarrow> Inr (value r)
      | _ \<Rightarrow> Inr None)"

definition int_within :: "pyval \<Rightarrow> int \<Rightarrow> int \<Rightarrow> string \<Rightarrow> int result" where
  "int_within v low high message =
     (case v of PInt i \<Rightarrow> if low \<le> i \<and> i \<le> high then Inr i else fail message | _ \<Rightarrow> fail message)"

definition isolation_limits_init ::
  "(pystr \<Rightarrow> rat option) \<Rightarrow> pyval \<Rightarrow> pyval \<Rightarrow> pyval \<Rightarrow> pyval \<Rightarrow> pyval \<Rightarrow> isolation_limits result" where
  "isolation_limits_init value wall cpu memory file opens =
     rbind (wall_value value wall) (\<lambda>seconds.
     if (case seconds of None \<Rightarrow> True | Some x \<Rightarrow> \<not> (shortest_wall \<le> x \<and> x \<le> 30))
     then fail ''wall_seconds must be between 0.05 and 30'' else
     rbind (int_within cpu 1 10 ''cpu_seconds must be between 1 and 10'') (\<lambda>c.
     rbind (int_within memory (128 * 1024 * 1024) (2 * 1024 * 1024 * 1024) ''memory_bytes must be between 128 MiB and 2 GiB'') (\<lambda>m.
     rbind (int_within file 4096 (16 * 1024 * 1024) ''max_file_bytes must be between 4 KiB and 16 MiB'') (\<lambda>f.
     rbind (int_within opens 16 256 ''max_open_files must be between 16 and 256'') (\<lambda>n.
     Inr \<lparr>il_wall_seconds = wall, il_cpu_seconds = c, il_memory_bytes = m, il_max_file_bytes = f, il_max_open_files = n\<rparr>)))))"

text \<open>\<open>asdict(limits)\<close>, and \<open>IsolationLimits(**v)\<close>: unknown names and a value that is no dict are a
  \<open>TypeError\<close>, a missing name is its default.\<close>

definition limits_dict :: "isolation_limits \<Rightarrow> (pystr \<times> pyval) list" where
  "limits_dict l =
     [(lit ''wall_seconds'', il_wall_seconds l), (lit ''cpu_seconds'', PInt (il_cpu_seconds l)),
      (lit ''memory_bytes'', PInt (il_memory_bytes l)), (lit ''max_file_bytes'', PInt (il_max_file_bytes l)),
      (lit ''max_open_files'', PInt (il_max_open_files l))]"

definition limits_from :: "(pystr \<Rightarrow> rat option) \<Rightarrow> pyval \<Rightarrow> isolation_limits result" where
  "limits_from value v =
     (case v of
        PDict kvs \<Rightarrow>
          let given = (\<lambda>name. case map_of kvs (lit name) of
                                Some x \<Rightarrow> x | None \<Rightarrow> the (map_of (limits_dict default_limits) (lit name))) in
          if \<not> set (map fst kvs) \<subseteq> set (map fst (limits_dict default_limits)) then Inl (PyError ''TypeError'') else
          isolation_limits_init value (given ''wall_seconds'') (given ''cpu_seconds'') (given ''memory_bytes'')
            (given ''max_file_bytes'') (given ''max_open_files'')
      | _ \<Rightarrow> Inl (PyError ''TypeError''))"

section \<open>Resource limits\<close>

datatype rlimit = CPU | AS | FSIZE | NOFILE | CORE

text \<open>The hard limits of the process, \<open>None\<close> unlimited. A process without privileges lowers them only.\<close>

type_synonym rlimits = "rlimit \<Rightarrow> int option"

definition exceeds :: "int \<Rightarrow> int option \<Rightarrow> bool" where
  "exceeds n limit = (case limit of None \<Rightarrow> False | Some hard \<Rightarrow> hard < n)"

definition setrlimit :: "rlimit \<Rightarrow> int \<Rightarrow> (rlimits, unit) action" where
  "setrlimit r n ls =
     (if exceeds n (ls r) then (Inl (PyError ''ValueError''), ls)
      else (Inr (), ls(r := Some n)))"

definition set_resource_limits :: "isolation_limits \<Rightarrow> (rlimits, unit) action" where
  "set_resource_limits l =
     abind (setrlimit CPU (il_cpu_seconds l)) (\<lambda>_.
     abind (setrlimit AS (il_memory_bytes l)) (\<lambda>_.
     abind (setrlimit FSIZE (il_max_file_bytes l)) (\<lambda>_.
     abind (setrlimit NOFILE (il_max_open_files l)) (\<lambda>_.
     setrlimit CORE 0))))"

section \<open>Paths\<close>

record path_os =
  po_fsdecode :: "bytes \<Rightarrow> pystr"
  po_realpath :: "pystr \<Rightarrow> pystr result"

text \<open>\<open>s.split(c)\<close> and \<open>c.join(parts)\<close>.\<close>

fun split_sep :: "nat \<Rightarrow> pystr \<Rightarrow> pystr list" where
  "split_sep c [] = [[]]"
| "split_sep c (x # xs) =
     (if x = c then [] # split_sep c xs
      else case split_sep c xs of [] \<Rightarrow> [[x]] | p # ps \<Rightarrow> (x # p) # ps)"

fun join_sep :: "nat \<Rightarrow> pystr list \<Rightarrow> pystr" where
  "join_sep c [] = []"
| "join_sep c [p] = p"
| "join_sep c (p # q # ps) = p @ c # join_sep c (q # ps)"

definition path_parts :: "pystr \<Rightarrow> pystr list" where
  "path_parts p = filter (\<lambda>s. s \<noteq> [] \<and> s \<noteq> [46]) (split_sep 47 p)"

definition is_absolute :: "pystr \<Rightarrow> bool" where
  "is_absolute p \<longleftrightarrow> take 1 p = [47]"

fun common_prefix :: "'a list \<Rightarrow> 'a list \<Rightarrow> 'a list" where
  "common_prefix (x # xs) (y # ys) = (if x = y then x # common_prefix xs ys else [])"
| "common_prefix _ _ = []"

text \<open>\<open>os.path.commonpath\<close> of two paths, \<open>None\<close> when one is relative and the other is not.\<close>

definition commonpath :: "pystr \<Rightarrow> pystr \<Rightarrow> pystr option" where
  "commonpath a b =
     (if is_absolute a \<noteq> is_absolute b then None
      else Some ((if is_absolute a then [47] else []) @ join_sep 47 (common_prefix (path_parts a) (path_parts b))))"

definition fs_path :: "path_os \<Rightarrow> pyval \<Rightarrow> pystr option" where
  "fs_path os v = (case v of PStr s \<Rightarrow> Some s | PBytes b \<Rightarrow> Some (po_fsdecode os b) | _ \<Rightarrow> None)"

definition is_int :: "pyval \<Rightarrow> bool" where
  "is_int v = (case v of PInt _ \<Rightarrow> True | PBool _ \<Rightarrow> True | _ \<Rightarrow> False)"

definition path_is_inside :: "path_os \<Rightarrow> pystr \<Rightarrow> pyval \<Rightarrow> bool result" where
  "path_is_inside os jobdir v =
     (if is_int v then Inr True else
      case fs_path os v of
        None \<Rightarrow> Inr False
      | Some p \<Rightarrow> rbind (po_realpath os p) (\<lambda>target. Inr (commonpath jobdir target = Some jobdir)))"

definition WRITE_FLAGS :: int where "WRITE_FLAGS = 1 OR 2 OR 64 OR 512 OR 1024"

definition open_is_write :: "pyval \<Rightarrow> pyval \<Rightarrow> bool" where
  "open_is_write m flags \<longleftrightarrow>
     (case m of PStr s \<Rightarrow> \<exists>c \<in> set [119, 97, 120, 43]. c \<in> set s | _ \<Rightarrow> False)
     \<or> (case flags of PInt i \<Rightarrow> i AND WRITE_FLAGS \<noteq> 0 | PBool b \<Rightarrow> of_bool b AND WRITE_FLAGS \<noteq> 0 | _ \<Rightarrow> False)"

definition beneath :: "pystr \<Rightarrow> pystr \<Rightarrow> bool" where
  "beneath jobdir target \<longleftrightarrow> target = jobdir \<or> starts_with (jobdir @ [47]) target"

definition FORBIDDEN_READ_ROOTS :: "pystr list" where
  "FORBIDDEN_READ_ROOTS = map lit [''/proc'', ''/sys'', ''/dev'']"

definition read_denied :: "path_os \<Rightarrow> pyval \<Rightarrow> pystr list \<Rightarrow> bool result" where
  "read_denied os v allowed =
     (if is_int v then Inr False else
      case fs_path os v of
        None \<Rightarrow> Inr True
      | Some p \<Rightarrow> rbind (po_realpath os p) (\<lambda>target.
          if list_ex (\<lambda>jobdir. beneath jobdir target) FORBIDDEN_READ_ROOTS then Inr True
          else Inr (\<not> list_ex (\<lambda>jobdir. beneath jobdir target) allowed)))"

section \<open>The audit hook\<close>

definition FORBIDDEN_FS_EVENTS :: "string list" where
  "FORBIDDEN_FS_EVENTS =
     [''os.remove'', ''os.rename'', ''os.rmdir'', ''os.mkdir'', ''os.chmod'', ''os.chown'', ''os.utime'', ''os.truncate'',
      ''os.symlink'', ''os.link'']"

definition FORBIDDEN_PROCESS_EVENTS :: "string list" where
  "FORBIDDEN_PROCESS_EVENTS =
     [''os.fork'', ''os.forkpty'', ''os.posix_spawn'', ''os.kill'', ''os.killpg'', ''os.system'', ''pty.spawn'', ''subprocess.Popen'',
      ''resource.setrlimit'', ''resource.prlimit'']"

record hook_state =
  hk_violated :: bool
  hk_bootstrap :: bool

definition sandbox_denied :: exc where "sandbox_denied = PyError ''_SandboxDenied''"

definition deny :: "(hook_state, unit) action" where
  "deny s = (Inl sandbox_denied, s\<lparr>hk_violated := True\<rparr>)"

definition audit_hook :: "path_os \<Rightarrow> pystr \<Rightarrow> pystr list \<Rightarrow> pystr \<Rightarrow> pyval list \<Rightarrow> (hook_state, unit) action" where
  "audit_hook os jobdir read_paths event args s =
     (let starts = (\<lambda>p. starts_with (lit p) event) in
      if event = lit ''resource.setrlimit'' \<and> hk_bootstrap s then (Inr (), s) else
      if starts ''socket.'' then deny s else
      if event \<in> set (map lit FORBIDDEN_PROCESS_EVENTS) \<or> starts ''os.exec'' \<or> starts ''os.spawn'' then deny s else
      if starts ''ctypes.'' then deny s else
      if event \<in> set (map lit FORBIDDEN_FS_EVENTS) then deny s else
      if event = lit ''open'' \<and> 3 \<le> length args then
        if open_is_write (args ! 1) (args ! 2) then
          if args ! 1 = PNone then deny s else
          (case path_is_inside os jobdir (args ! 0) of
             Inl e \<Rightarrow> (Inl e, s) | Inr inside \<Rightarrow> if inside then (Inr (), s) else deny s)
        else
          (case read_denied os (args ! 0) (jobdir # read_paths) of
             Inl e \<Rightarrow> (Inl e, s) | Inr denied \<Rightarrow> if denied then deny s else (Inr (), s))
      else (Inr (), s))"

section \<open>Landlock\<close>

definition LANDLOCK_MIN_ABI :: int where "LANDLOCK_MIN_ABI = 4"
definition LANDLOCK_SCOPE_ABI :: int where "LANDLOCK_SCOPE_ABI = 6"
definition LANDLOCK_READ :: nat where "LANDLOCK_READ = push_bit 2 1 OR push_bit 3 1"
definition LANDLOCK_NET_TCP :: nat where "LANDLOCK_NET_TCP = push_bit 0 1 OR push_bit 1 1"
definition LANDLOCK_SCOPES :: nat where "LANDLOCK_SCOPES = push_bit 0 1 OR push_bit 1 1"

definition landlock_abi :: "bool \<Rightarrow> int \<Rightarrow> int" where
  "landlock_abi linux answered = (if \<not> linux then 0 else if answered > 0 then answered else 0)"

definition landlock_fs_rights :: "int \<Rightarrow> nat" where
  "landlock_fs_rights abi = 2 ^ (13 + of_bool (abi \<ge> 2) + of_bool (abi \<ge> 3) + of_bool (abi \<ge> 5)) - 1"

datatype opened = Opened int | Missing | Unopenable

record landlock_os =
  ll_linux :: bool
  ll_abi :: int
  ll_ruleset :: int
  ll_open :: "pystr \<Rightarrow> opened"
  ll_add :: "nat \<Rightarrow> int"
  ll_prctl :: int
  ll_restrict :: int

record landlock_ruleset =
  rs_fs :: nat
  rs_net :: nat
  rs_scopes :: nat
  rs_rules :: "(pystr \<times> nat) list"

record landlock_state =
  la_fds :: "int list"
  la_no_new_privs :: bool
  la_domains :: "landlock_ruleset list"

definition keep_fd :: "int \<Rightarrow> (landlock_state, unit) action" where
  "keep_fd fd s = (Inr (), s\<lparr>la_fds := fd # la_fds s\<rparr>)"

definition close_fd :: "int \<Rightarrow> (landlock_state, unit) action" where
  "close_fd fd s = (if fd \<in> set (la_fds s) then (Inr (), s\<lparr>la_fds := remove1 fd (la_fds s)\<rparr>) else (Inl (PyError ''OSError''), s))"

text \<open>The loop over the rules, the rules the kernel took.\<close>

fun add_rules :: "landlock_os \<Rightarrow> nat \<Rightarrow> (pystr \<times> nat) list \<Rightarrow> (landlock_state, (pystr \<times> nat) list) action" where
  "add_rules os index [] = areturn []"
| "add_rules os index ((path, access) # rules) =
     (case ll_open os path of
        Missing \<Rightarrow> if index = 0 then araise (PyError ''FileNotFoundError'') else add_rules os (Suc index) rules
      | Unopenable \<Rightarrow> araise (PyError ''OSError'')
      | Opened fd \<Rightarrow>
          abind (keep_fd fd) (\<lambda>_.
          abind (afinally (if ll_add os index \<noteq> 0 then araise (ContractError ''could not add a Landlock rule for the worker'') else areturn ())
                   (close_fd fd)) (\<lambda>_.
          abind (add_rules os (Suc index) rules) (\<lambda>taken. areturn ((path, access) # taken)))))"

definition install_filesystem_rules :: "landlock_os \<Rightarrow> pystr \<Rightarrow> pystr list \<Rightarrow> (landlock_state, unit) action" where
  "install_filesystem_rules os jobdir read_paths =
     (let abi = landlock_abi (ll_linux os) (ll_abi os) in
      if abi < LANDLOCK_MIN_ABI then araise (ContractError ''the worker needs Landlock ABI 4'') else
      let everything = landlock_fs_rights abi; scopes = (if abi \<ge> LANDLOCK_SCOPE_ABI then LANDLOCK_SCOPES else 0) in
      if ll_ruleset os < 0 then araise (ContractError ''could not create the worker's Landlock ruleset'') else
      abind (keep_fd (ll_ruleset os)) (\<lambda>_.
      afinally
        (abind (add_rules os 0 ((jobdir, everything) # map (\<lambda>path. (path, LANDLOCK_READ)) read_paths)) (\<lambda>rules.
         if ll_prctl os \<noteq> 0 then araise (ContractError ''could not set no_new_privs for the worker'') else
         abind (\<lambda>s. (Inr (), s\<lparr>la_no_new_privs := True\<rparr>)) (\<lambda>_.
         if ll_restrict os \<noteq> 0 then araise (ContractError ''could not restrict the worker with Landlock'') else
         (\<lambda>s. (Inr (), s\<lparr>la_domains :=
            \<lparr>rs_fs = everything, rs_net = LANDLOCK_NET_TCP, rs_scopes = scopes, rs_rules = rules\<rparr> # la_domains s\<rparr>)))))
        (close_fd (ll_ruleset os))))"

section \<open>Limits stay limits\<close>

definition limits_ok :: "(pystr \<Rightarrow> rat option) \<Rightarrow> isolation_limits \<Rightarrow> bool" where
  "limits_ok value l \<longleftrightarrow>
     (\<exists>x. wall_value value (il_wall_seconds l) = Inr (Some x) \<and> shortest_wall \<le> x \<and> x \<le> 30)
     \<and> il_cpu_seconds l \<in> {1..10} \<and> il_memory_bytes l \<in> {128 * 1024 * 1024..2 * 1024 * 1024 * 1024}
     \<and> il_max_file_bytes l \<in> {4096..16 * 1024 * 1024} \<and> il_max_open_files l \<in> {16..256}"

lemma int_within_eq_Inr [result_simps]: "int_within v low high m = Inr i \<longleftrightarrow> v = PInt i \<and> low \<le> i \<and> i \<le> high"
  by (auto simp: int_within_def split: pyval.splits)

lemma limits_init_eq_Inr:
  "isolation_limits_init value w c m f n = Inr l \<longleftrightarrow>
     limits_ok value l \<and> il_wall_seconds l = w \<and> PInt (il_cpu_seconds l) = c \<and> PInt (il_memory_bytes l) = m
     \<and> PInt (il_max_file_bytes l) = f \<and> PInt (il_max_open_files l) = n"
  unfolding isolation_limits_init_def rbind_eq_Inr if_raise_eq_Inr int_within_eq_Inr
  by (cases l) (auto simp: limits_ok_def split: option.splits)

lemma limits_from_sound: "limits_from value v = Inr l \<Longrightarrow> limits_ok value l"
  by (auto simp: limits_from_def limits_init_eq_Inr Let_def split: pyval.splits if_splits)

lemma limits_from_lookup:
  assumes "map_of kvs = map_of (limits_dict l)" "limits_ok value l"
  shows "limits_from value (PDict kvs) = Inr l"
proof -
  have "set (map fst kvs) = dom (map_of kvs)" by (simp add: dom_map_of_conv_image_fst)
  also have "\<dots> = set (map fst (limits_dict default_limits))" using assms(1) by (auto simp: limits_dict_def)
  finally have k: "set (map fst kvs) = set (map fst (limits_dict default_limits))" .
  show ?thesis
    using assms(2) k by (auto simp: limits_from_def assms(1) limits_init_eq_Inr Let_def limits_dict_def)
qed

text \<open>The hard limits the process is left with.\<close>

definition limits_set :: "isolation_limits \<Rightarrow> rlimits" where
  "limits_set l r = Some (case r of CPU \<Rightarrow> il_cpu_seconds l | AS \<Rightarrow> il_memory_bytes l | FSIZE \<Rightarrow> il_max_file_bytes l
                          | NOFILE \<Rightarrow> il_max_open_files l | CORE \<Rightarrow> 0)"

lemma set_resource_limits_exact:
  assumes "set_resource_limits l ls = (Inr (), ls')"
  shows "ls' = limits_set l"
proof
  fix r show "ls' r = limits_set l r"
    using assms by (cases r) (auto simp: set_resource_limits_def setrlimit_def limits_set_def result_simps split: if_splits)
qed

lemma setrlimit_lowers: "setrlimit r n ls = (res, ls') \<Longrightarrow> ls q = Some hard \<Longrightarrow> \<exists>h. ls' q = Some h \<and> h \<le> hard"
  by (auto simp: setrlimit_def exceeds_def split: if_splits)

lemma limits_set_again:
  assumes "\<And>r. \<not> exceeds (the (limits_set l r)) (ls r)"
  shows "set_resource_limits l ls = (Inr (), limits_set l)"
proof -
  have "\<exists>ls'. set_resource_limits l ls = (Inr (), ls')"
    using assms[of CPU] assms[of AS] assms[of FSIZE] assms[of NOFILE] assms[of CORE]
    by (simp add: set_resource_limits_def setrlimit_def limits_set_def abind_def)
  with set_resource_limits_exact show ?thesis by blast
qed

section \<open>Paths that were resolved\<close>

text \<open>What \<open>os.path.realpath\<close> returns: absolute, without empty parts and single dots.\<close>

definition good_parts :: "pystr list \<Rightarrow> bool" where
  "good_parts ps \<longleftrightarrow> (\<forall>p \<in> set ps. p \<noteq> [] \<and> p \<noteq> [46] \<and> 47 \<notin> set p)"

definition canonical_path :: "pystr \<Rightarrow> bool" where
  "canonical_path p \<longleftrightarrow> (\<exists>ps. good_parts ps \<and> p = 47 # join_sep 47 ps)"

definition realpath_ok :: "path_os \<Rightarrow> bool" where
  "realpath_ok os \<longleftrightarrow> (\<forall>p target. po_realpath os p = Inr target \<longrightarrow> canonical_path target)"

lemma split_sep_append: "split_sep c (a @ c # b) = split_sep c a @ split_sep c b"
proof (induction a)
  case (Cons x a)
  have "split_sep c a \<noteq> []" by (cases a) (auto split: list.splits)
  with Cons show ?case by (auto split: list.splits)
qed simp

lemma split_sep_none: "c \<notin> set p \<Longrightarrow> split_sep c p = [p]"
  by (induction p) auto

lemma split_join: "\<forall>p \<in> set ps. c \<notin> set p \<Longrightarrow> ps \<noteq> [] \<Longrightarrow> split_sep c (join_sep c ps) = ps"
  by (induction c ps rule: join_sep.induct) (auto simp: split_sep_append split_sep_none)

lemma path_parts_append: "path_parts (p @ 47 # q) = path_parts p @ path_parts q"
  by (simp add: path_parts_def split_sep_append)

lemma path_parts_join: "good_parts ps \<Longrightarrow> path_parts (47 # join_sep 47 ps) = ps"
proof (cases "ps = []")
  case False
  assume g: "good_parts ps"
  then have "split_sep 47 (join_sep 47 ps) = ps" by (intro split_join) (use False in \<open>auto simp: good_parts_def\<close>)
  moreover have "filter (\<lambda>s. s \<noteq> [] \<and> s \<noteq> [46]) ps = ps" using g by (auto simp: good_parts_def filter_id_conv)
  ultimately show ?thesis by (simp add: path_parts_def)
qed (simp add: path_parts_def)

lemma canonical_pathD: "canonical_path p \<Longrightarrow> good_parts (path_parts p) \<and> p = 47 # join_sep 47 (path_parts p)"
  by (auto simp: canonical_path_def path_parts_join)

lemma join_sep_append: "ps \<noteq> [] \<Longrightarrow> qs \<noteq> [] \<Longrightarrow> join_sep c (ps @ qs) = join_sep c ps @ c # join_sep c qs"
proof (induction c ps rule: join_sep.induct)
  case (2 c p)
  then show ?case by (cases qs) auto
qed auto

lemma common_prefix_le: "\<exists>zs. xs = common_prefix xs ys @ zs"
  by (induction xs ys rule: common_prefix.induct) auto

lemma common_prefix_eq: "common_prefix xs ys = xs \<longleftrightarrow> (\<exists>zs. ys = xs @ zs)"
  by (induction xs ys rule: common_prefix.induct) auto

text \<open>The two ways the code asks whether a path lies in a directory agree on resolved paths.\<close>

lemma commonpath_beneath:
  assumes "canonical_path jobdir" "path_parts jobdir \<noteq> []" "canonical_path target"
  shows "commonpath jobdir target = Some jobdir \<longleftrightarrow> beneath jobdir target"
proof -
  let ?r = "path_parts jobdir" and ?t = "path_parts target"
  note r = canonical_pathD[OF assms(1)] and t = canonical_pathD[OF assms(3)]
  have abs: "is_absolute jobdir" "is_absolute target" using r t by (metis is_absolute_def take_Suc_Cons One_nat_def take0)+
  obtain zs where zs: "?r = common_prefix ?r ?t @ zs" using common_prefix_le by blast
  have g: "good_parts (common_prefix ?r ?t)"
    using r zs unfolding good_parts_def by (metis Un_iff set_append)
  have "commonpath jobdir target = Some jobdir \<longleftrightarrow> 47 # join_sep 47 (common_prefix ?r ?t) = 47 # join_sep 47 ?r"
    using r abs by (auto simp: commonpath_def)
  also have "\<dots> \<longleftrightarrow> common_prefix ?r ?t = ?r" using path_parts_join[OF g] path_parts_join[of ?r] r by metis
  also have "\<dots> \<longleftrightarrow> (\<exists>zs. ?t = ?r @ zs)" by (rule common_prefix_eq)
  also have "\<dots> \<longleftrightarrow> beneath jobdir target"
  proof
    assume "\<exists>zs. ?t = ?r @ zs"
    then obtain zs where zs: "?t = ?r @ zs" by blast
    show "beneath jobdir target"
    proof (cases "zs = []")
      case False
      then have "join_sep 47 ?t = join_sep 47 ?r @ 47 # join_sep 47 zs" using zs assms(2) by (simp add: join_sep_append)
      then have "target = jobdir @ 47 # join_sep 47 zs" using r t by (metis append_Cons)
      then show ?thesis by (simp add: beneath_def starts_with_def)
    next
      case True
      then have "?t = ?r" using zs by simp
      then have "target = jobdir" using r t by metis
      then show ?thesis by (simp add: beneath_def)
    qed
  next
    assume "beneath jobdir target"
    then consider "target = jobdir" | q where "target = jobdir @ 47 # q"
      by (auto simp: beneath_def starts_with_def) (metis append.assoc append_Cons append_Nil append_take_drop_id)
    then show "\<exists>zs. ?t = ?r @ zs" by cases (auto simp: path_parts_append)
  qed
  finally show ?thesis .
qed

section \<open>What the hook lets through\<close>

text \<open>The events that are refused whatever their arguments.\<close>

definition forbidden_event :: "pystr \<Rightarrow> bool" where
  "forbidden_event event \<longleftrightarrow>
     list_ex (\<lambda>p. starts_with (lit p) event) [''socket.'', ''os.exec'', ''os.spawn'', ''ctypes.'']
     \<or> event \<in> set (map lit (FORBIDDEN_PROCESS_EVENTS @ FORBIDDEN_FS_EVENTS))"

text \<open>What an \<open>open\<close> that passed names: a descriptor, or a resolved path the rule \<open>ok\<close> takes.\<close>

definition opens_only :: "path_os \<Rightarrow> (pystr \<Rightarrow> bool) \<Rightarrow> pyval \<Rightarrow> bool" where
  "opens_only os ok v \<longleftrightarrow> is_int v \<or> (\<exists>p target. fs_path os v = Some p \<and> po_realpath os p = Inr target \<and> ok target)"

lemma path_is_inside_True:
  assumes "canonical_path jobdir" "path_parts jobdir \<noteq> []" "realpath_ok os"
  shows "path_is_inside os jobdir v = Inr True \<longleftrightarrow> opens_only os (beneath jobdir) v"
proof -
  have "po_realpath os p = Inr target \<Longrightarrow> commonpath jobdir target = Some jobdir \<longleftrightarrow> beneath jobdir target" for p target
    using assms by (intro commonpath_beneath) (auto simp: realpath_ok_def)
  then show ?thesis by (auto simp: path_is_inside_def opens_only_def result_simps split: option.splits)
qed

lemma read_denied_False:
  "read_denied os v allowed = Inr False \<longleftrightarrow>
     opens_only os (\<lambda>t. \<not> list_ex (\<lambda>r. beneath r t) FORBIDDEN_READ_ROOTS \<and> list_ex (\<lambda>r. beneath r t) allowed) v"
  by (auto simp: read_denied_def opens_only_def result_simps split: option.splits)

lemma deny_eq [simp]: "deny s = (r, t) \<longleftrightarrow> r = Inl sandbox_denied \<and> t = s\<lparr>hk_violated := True\<rparr>"
  by (auto simp: deny_def)

lemma hook_records: "audit_hook os jobdir paths event args s = (r, s') \<Longrightarrow> r = Inl sandbox_denied \<or> s' = s"
  by (auto simp: audit_hook_def Let_def split: if_splits sum.splits)

lemma hook_violated: "audit_hook os jobdir paths event args s = (r, s') \<Longrightarrow> s' \<noteq> s \<Longrightarrow> hk_violated s'"
  by (auto simp: audit_hook_def Let_def split: if_splits sum.splits)

lemma hook_forbids:
  assumes "forbidden_event event" "\<not> (event = lit ''resource.setrlimit'' \<and> hk_bootstrap s)"
  shows "audit_hook os jobdir paths event args s = deny s"
  using assms by (auto simp: audit_hook_def forbidden_event_def Let_def)

lemma hook_allows_open:
  assumes "audit_hook os jobdir paths (lit ''open'') args s = (Inr (), s')" "3 \<le> length args"
  shows "if open_is_write (args ! 1) (args ! 2)
         then args ! 1 \<noteq> PNone \<and> path_is_inside os jobdir (args ! 0) = Inr True
         else read_denied os (args ! 0) (jobdir # paths) = Inr False"
  using assms by (auto simp: audit_hook_def Let_def split: if_splits sum.splits)

section \<open>What the kernel confines\<close>

definition is_opened :: "landlock_os \<Rightarrow> pystr \<Rightarrow> bool" where
  "is_opened os p = (case ll_open os p of Opened _ \<Rightarrow> True | _ \<Rightarrow> False)"

text \<open>A rule's own descriptor is closed again, whether the kernel took the rule or not.\<close>

lemma add_rules_keeps: "add_rules os i rules s = (r, s') \<Longrightarrow> s' = s"
proof (induction os i rules arbitrary: r s s' rule: add_rules.induct)
  case (2 os index path access rules)
  show ?case
  proof (cases "ll_open os path")
    case (Opened fd)
    have s: "s\<lparr>la_fds := la_fds s\<rparr> = s" by simp
    from 2(3) Opened 2(1)[OF Opened] show ?thesis
      by (auto simp: keep_fd_def close_fd_def afinally_def abind_def areturn_def araise_def s split: prod.splits sum.splits if_splits)
  qed (use 2 in \<open>auto simp: araise_eq split: if_splits\<close>)
qed (simp add: areturn_eq)

lemma add_rules_taken:
  "add_rules os i rules s = (Inr taken, s') \<Longrightarrow>
     taken = filter (\<lambda>(p, _). is_opened os p) rules \<and> (i = 0 \<longrightarrow> rules \<noteq> [] \<longrightarrow> is_opened os (fst (hd rules)))"
proof (induction os i rules arbitrary: taken s s' rule: add_rules.induct)
  case (2 os index path access rules)
  show ?case
  proof (cases "ll_open os path")
    case (Opened fd)
    with 2(3) obtain t u taken' where "add_rules os (Suc index) rules t = (Inr taken', u)" "taken = (path, access) # taken'"
      by (auto simp: abind_eq_Inr areturn_eq)
    with 2(1)[OF Opened] Opened show ?thesis by (auto simp: is_opened_def)
  qed (use 2 in \<open>auto simp: araise_eq is_opened_def split: if_splits\<close>)
qed (simp add: areturn_eq)

declare add_rules.simps [simp del]

lemma install_rules_cases:
  assumes "install_filesystem_rules os jobdir paths s = (r, s')"
  defines "abi \<equiv> landlock_abi (ll_linux os) (ll_abi os)"
  shows "la_fds s' = la_fds s"
    "r = Inl e \<Longrightarrow> la_domains s' = la_domains s"
    "r = Inr () \<Longrightarrow> 4 \<le> abi \<and> la_no_new_privs s' \<and> is_opened os jobdir \<and> (\<exists>scopes. la_domains s' =
       \<lparr>rs_fs = landlock_fs_rights abi, rs_net = LANDLOCK_NET_TCP, rs_scopes = scopes,
        rs_rules = (jobdir, landlock_fs_rights abi) # map (\<lambda>p. (p, LANDLOCK_READ)) (filter (is_opened os) paths)\<rparr> # la_domains s)"
proof -
  let ?rules = "(jobdir, landlock_fs_rights abi) # map (\<lambda>path. (path, LANDLOCK_READ)) paths"
  let ?s = "s\<lparr>la_fds := ll_ruleset os # la_fds s\<rparr>"
  obtain q t where q: "add_rules os 0 ?rules ?s = (q, t)" by fastforce
  have t: "t = ?s" by (rule add_rules_keeps[OF q])
  have taken: "\<And>rules. q = Inr rules \<Longrightarrow> rules = (jobdir, landlock_fs_rights abi) # map (\<lambda>p. (p, LANDLOCK_READ)) (filter (is_opened os) paths) \<and> is_opened os jobdir"
    using add_rules_taken[of os 0 ?rules ?s _ t] q by (auto simp: filter_map comp_def)
  note run = assms(1)[unfolded install_filesystem_rules_def, folded abi_def, unfolded Let_def]
  show "la_fds s' = la_fds s" "r = Inl e \<Longrightarrow> la_domains s' = la_domains s"
    using run by (auto simp: q t abind_def keep_fd_def afinally_def close_fd_def araise_def LANDLOCK_MIN_ABI_def
        split: if_splits sum.splits prod.splits)
  show "r = Inr () \<Longrightarrow> 4 \<le> abi \<and> la_no_new_privs s' \<and> is_opened os jobdir \<and> (\<exists>scopes. la_domains s' =
       \<lparr>rs_fs = landlock_fs_rights abi, rs_net = LANDLOCK_NET_TCP, rs_scopes = scopes,
        rs_rules = (jobdir, landlock_fs_rights abi) # map (\<lambda>p. (p, LANDLOCK_READ)) (filter (is_opened os) paths)\<rparr> # la_domains s)"
    using run taken by (auto simp: q t abind_def keep_fd_def afinally_def close_fd_def araise_def LANDLOCK_MIN_ABI_def
        split: if_splits sum.splits prod.splits)
qed

text \<open>A domain grants a right on a path by a rule for a directory above it.\<close>

definition grants :: "landlock_ruleset \<Rightarrow> pystr \<Rightarrow> nat \<Rightarrow> bool" where
  "grants rs path right \<longleftrightarrow> (\<exists>(p, access) \<in> set (rs_rules rs). beneath p path \<and> bit access right)"

lemma landlock_read_bits: "bit LANDLOCK_READ k \<longleftrightarrow> k = 2 \<or> k = 3"
  by (simp only: LANDLOCK_READ_def bit_or_iff bit_push_bit_iff bit_1_iff) auto

lemma fs_rights_bits: "bit (landlock_fs_rights abi) k \<longleftrightarrow> k < 13 + of_bool (abi \<ge> 2) + of_bool (abi \<ge> 3) + of_bool (abi \<ge> 5)"
  unfolding landlock_fs_rights_def by (simp only: mask_eq_exp_minus_1[symmetric] bit_mask_iff) simp

section \<open>The properties\<close>

definition sample_paths :: path_os where
  "sample_paths = \<lparr>po_fsdecode = map unat, po_realpath = (\<lambda>p. Inr (47 # join_sep 47 (path_parts p)))\<rparr>"

lemma split_sep_clean: "p \<in> set (split_sep c s) \<Longrightarrow> c \<notin> set p"
  by (induction c s arbitrary: p rule: split_sep.induct) (auto split: if_splits list.splits)

lemma sample_paths_ok: "realpath_ok sample_paths"
proof -
  have "good_parts (path_parts p)" for p by (auto simp: good_parts_def path_parts_def dest: split_sep_clean)
  then show ?thesis by (auto simp: realpath_ok_def sample_paths_def canonical_path_def)
qed

text \<open>C21. The audit hook enforces the sandbox on what Python reports: sockets, processes, \<open>ctypes\<close> and
  changes of the file system are refused and recorded (setting resource limits is let through only during
  the start of the service worker); an \<open>open\<close> that passes writes only below the job directory and never through
  a bare descriptor call, and reads only below the job directory and the allowed roots, never in \<open>/proc\<close>,
  \<open>/sys\<close> or \<open>/dev\<close>, whatever links the path goes through; and a recorded violation stays recorded.\<close>

theorem hook_enforces:
  assumes "canonical_path jobdir" "path_parts jobdir \<noteq> []" "realpath_ok os"
    and "audit_hook os jobdir paths event args s = (r, s')"
  shows "(forbidden_event event \<and> \<not> (event = lit ''resource.setrlimit'' \<and> hk_bootstrap s)
            \<longrightarrow> r = Inl sandbox_denied \<and> hk_violated s')
       \<and> (event = lit ''open'' \<and> 3 \<le> length args \<and> r = Inr () \<longrightarrow>
            (if open_is_write (args ! 1) (args ! 2)
             then args ! 1 \<noteq> PNone \<and> opens_only os (beneath jobdir) (args ! 0)
             else opens_only os (\<lambda>t. \<not> list_ex (\<lambda>d. beneath d t) FORBIDDEN_READ_ROOTS
                                   \<and> list_ex (\<lambda>d. beneath d t) (jobdir # paths)) (args ! 0)))
       \<and> (hk_violated s \<longrightarrow> hk_violated s')"
proof (intro conjI impI)
  assume "forbidden_event event \<and> \<not> (event = lit ''resource.setrlimit'' \<and> hk_bootstrap s)"
  with hook_forbids[of event s os jobdir paths args] assms(4) show "r = Inl sandbox_denied" "hk_violated s'" by (auto simp: deny_def)
next
  assume "event = lit ''open'' \<and> 3 \<le> length args \<and> r = Inr ()"
  then have "audit_hook os jobdir paths (lit ''open'') args s = (Inr (), s')" "3 \<le> length args" using assms(4) by simp_all
  from hook_allows_open[OF this]
  show "if open_is_write (args ! 1) (args ! 2)
        then args ! 1 \<noteq> PNone \<and> opens_only os (beneath jobdir) (args ! 0)
        else opens_only os (\<lambda>t. \<not> list_ex (\<lambda>d. beneath d t) FORBIDDEN_READ_ROOTS
                              \<and> list_ex (\<lambda>d. beneath d t) (jobdir # paths)) (args ! 0)"
    by (simp only: path_is_inside_True[OF assms(1-3)] read_denied_False)
qed (use hook_violated[OF assms(4)] in auto)

theorem hook_enforces_witness:
  "audit_hook sample_paths (lit ''/tmp/job'') [] (lit ''open'') [PStr (lit ''/tmp/job//./out''), PStr (lit ''w''), PInt 0] \<lparr>hk_violated = False, hk_bootstrap = False\<rparr>
     = (Inr (), \<lparr>hk_violated = False, hk_bootstrap = False\<rparr>)
   \<and> opens_only sample_paths (beneath (lit ''/tmp/job'')) (PStr (lit ''/tmp/job//./out''))"
proof -
  let ?s = "\<lparr>hk_violated = False, hk_bootstrap = False\<rparr>"
  have parts: "path_parts (lit ''/tmp/job'') = [lit ''tmp'', lit ''job'']" by (simp add: path_parts_def lit_def)
  have c: "canonical_path (lit ''/tmp/job'')"
    unfolding canonical_path_def by (rule exI[of _ "[lit ''tmp'', lit ''job'']"]) (simp add: good_parts_def lit_def)
  have run: "audit_hook sample_paths (lit ''/tmp/job'') [] (lit ''open'') [PStr (lit ''/tmp/job//./out''), PStr (lit ''w''), PInt 0] ?s = (Inr (), ?s)"
    by (simp add: audit_hook_def sample_paths_def path_is_inside_def is_int_def fs_path_def open_is_write_def commonpath_def
        is_absolute_def path_parts_def starts_with_def FORBIDDEN_PROCESS_EVENTS_def FORBIDDEN_FS_EVENTS_def lit_def)
  have w: "open_is_write (PStr (lit ''w'')) (PInt 0)" by (simp add: open_is_write_def lit_def)
  have n: "path_parts (lit ''/tmp/job'') \<noteq> []" by (simp add: parts)
  show ?thesis using hook_enforces[OF c n sample_paths_ok run] run w by simp
qed

text \<open>C22. The kernel confines the worker once the rules are installed: every file right the kernel knows is
  handled, so that a path is accessible only by a rule; the job directory has them all, anything else at most
  the rights to read, and only below an allowed root; TCP is handled and has no rule. When the installation
  raises, nothing was restricted halfway, and either way every descriptor it opened is closed.\<close>

theorem landlock_confines:
  assumes "install_filesystem_rules os jobdir paths s = (r, s')"
  shows "la_fds s' = la_fds s
       \<and> (\<forall>e. r = Inl e \<longrightarrow> la_domains s' = la_domains s)
       \<and> (r = Inr () \<longrightarrow> (\<exists>rs. la_domains s' = rs # la_domains s \<and> la_no_new_privs s'
            \<and> (\<forall>k < 15. bit (rs_fs rs) k) \<and> rs_net rs = LANDLOCK_NET_TCP
            \<and> (\<forall>path k. bit (rs_fs rs) k \<and> beneath jobdir path \<longrightarrow> grants rs path k)
            \<and> (\<forall>path k. grants rs path k \<longrightarrow> beneath jobdir path \<or> (k = 2 \<or> k = 3) \<and> (\<exists>p \<in> set paths. beneath p path))))"
  using install_rules_cases(1,2)[OF assms] install_rules_cases(3)[OF assms]
  by (auto simp: grants_def landlock_read_bits fs_rights_bits)

definition sample_landlock :: landlock_os where
  "sample_landlock =
     \<lparr>ll_linux = True, ll_abi = 4, ll_ruleset = 7, ll_open = (\<lambda>p. if p = lit ''/gone'' then Missing else Opened 8),
      ll_add = (\<lambda>_. 0), ll_prctl = 0, ll_restrict = 0\<rparr>"

theorem landlock_confines_witness:
  "\<exists>s' rs. install_filesystem_rules sample_landlock (lit ''/tmp/job'') [lit ''/gone'', lit ''/usr'']
             \<lparr>la_fds = [0, 1, 2], la_no_new_privs = False, la_domains = []\<rparr> = (Inr (), s')
     \<and> la_fds s' = [0, 1, 2] \<and> la_domains s' = [rs] \<and> rs_rules rs = [(lit ''/tmp/job'', 2 ^ 15 - 1), (lit ''/usr'', 12)]
     \<and> (\<forall>path k. grants rs path k \<longrightarrow> beneath (lit ''/tmp/job'') path \<or> (k = 2 \<or> k = 3) \<and> (\<exists>p \<in> {lit ''/gone'', lit ''/usr''}. beneath p path))"
proof -
  define rs :: landlock_ruleset where
    "rs = \<lparr>rs_fs = 2 ^ 15 - 1, rs_net = 3, rs_scopes = 0, rs_rules = [(lit ''/tmp/job'', 2 ^ 15 - 1), (lit ''/usr'', 12)]\<rparr>"
  define s' :: landlock_state where "s' = \<lparr>la_fds = [0, 1, 2], la_no_new_privs = True, la_domains = [rs]\<rparr>"
  have run: "install_filesystem_rules sample_landlock (lit ''/tmp/job'') [lit ''/gone'', lit ''/usr'']
             \<lparr>la_fds = [0, 1, 2], la_no_new_privs = False, la_domains = []\<rparr> = (Inr (), s')"
    by (simp add: install_filesystem_rules_def sample_landlock_def landlock_abi_def LANDLOCK_MIN_ABI_def LANDLOCK_SCOPE_ABI_def
        add_rules.simps keep_fd_def close_fd_def abind_def afinally_def areturn_def araise_def s'_def rs_def landlock_fs_rights_def
        LANDLOCK_READ_def LANDLOCK_NET_TCP_def)
  have d: "la_domains s' = [rs]" "la_fds s' = [0, 1, 2]" by (simp_all add: s'_def)
  have "\<forall>path k. grants rs path k \<longrightarrow> beneath (lit ''/tmp/job'') path \<or> (k = 2 \<or> k = 3) \<and> (\<exists>p \<in> {lit ''/gone'', lit ''/usr''}. beneath p path)"
    using landlock_confines[OF run] by (simp add: d)
  moreover have "rs_rules rs = [(lit ''/tmp/job'', 2 ^ 15 - 1), (lit ''/usr'', 12)]" by (simp add: rs_def)
  ultimately show ?thesis using run d by blast
qed

end
