(* ===== verification/Isolation.thy ===== *)
theory Isolation
  imports Sandbox Workers AnchorWire
begin

text \<open>
  One job in a fresh interpreter: the parent of \<open>geniusnew/isolation.py\<close> (request, reading the child, reading
  its message, always killing it) and the child of \<open>geniusnew/isolation_child.py\<close>.

  To the parent the child is any process: \<open>child_process\<close> holds what it writes, when reads stall or fail, and
  the status it ends with, whatever the request was. To the child the worker is any code: a class reached by
  \<open>importlib\<close>, whose \<open>run\<close> is an action on the state of the audit hook. \<open>deep\<close> says on which
  texts the decoding raises \<open>RecursionError\<close>, in \<open>json.loads\<close> or in the \<open>canonical\<close> that checks what was read: here both
  leave the decoding function alike. A message of the child fits into its pipe, so that writing it does not stall.
\<close>

section \<open>Exceptions and messages\<close>

definition isolation_violation :: exc where "isolation_violation = PyError ''_WorkerIsolationViolation''"
definition resource_exhausted :: exc where "resource_exhausted = PyError ''_WorkerResourceExhausted''"
definition remote_worker_failed :: exc where "remote_worker_failed = PyError ''_RemoteWorkerFailed''"

definition MAX_CHILD_MESSAGE_BYTES :: nat where "MAX_CHILD_MESSAGE_BYTES = 32 * 1024"
definition MAX_CHILD_REQUEST_BYTES :: nat where "MAX_CHILD_REQUEST_BYTES = 32 * 1024"

text \<open>\<open>json.loads(data.decode("ascii"))\<close>, and the two exceptions its callers name.\<close>

definition loads_ascii :: "platform \<Rightarrow> (pystr \<Rightarrow> bool) \<Rightarrow> bytes \<Rightarrow> pyval result" where
  "loads_ascii P deep data =
     (case ascii_decode data of
        None \<Rightarrow> Inl (PyError ''UnicodeDecodeError'')
      | Some s \<Rightarrow> if deep s then Inl (PyError ''RecursionError'') else json_loads (plain_hooks_json P) s)"

definition unreadable :: "exc \<Rightarrow> bool" where
  "unreadable e \<longleftrightarrow> e = PyError ''UnicodeDecodeError'' \<or> e = PyError ''JSONDecodeError''"

text \<open>A canonical JSON object, or \<open>e\<close> when it is none.\<close>

definition read_object :: "platform \<Rightarrow> (pystr \<Rightarrow> bool) \<Rightarrow> exc \<Rightarrow> bytes \<Rightarrow> message result" where
  "read_object P deep e data =
     (case loads_ascii P deep data of
        Inl x \<Rightarrow> if unreadable x then Inl e else Inl x
      | Inr (PDict d) \<Rightarrow> rbind (canonical (PDict d)) (\<lambda>again. if again \<noteq> data then Inl e else Inr d)
      | Inr _ \<Rightarrow> Inl e)"

section \<open>The request\<close>

record worker_class =
  wc_module :: pystr
  wc_qualname :: pystr
  wc_state :: message
  wc_tool :: pystr

definition contains :: "pystr \<Rightarrow> pystr \<Rightarrow> bool" where
  "contains p s = list_ex (\<lambda>i. starts_with p (drop i s)) [0..<Suc (length s)]"

definition worker_spec :: "worker_class \<Rightarrow> message result" where
  "worker_spec w =
     (if contains (lit ''<locals>'') (wc_qualname w) \<or> wc_module w = [] \<or> wc_qualname w = []
      then fail ''isolated worker class must be importable by module and qualified name'' else
      rbind (catch_contract (canonical (PDict (wc_state w))) (\<lambda>_. fail ''isolated worker state must be canonical JSON'')) (\<lambda>_.
      Inr [(lit ''module'', PStr (wc_module w)), (lit ''qualname'', PStr (wc_qualname w)),
           (lit ''state'', PDict (wc_state w)), (lit ''tool'', PStr (wc_tool w))]))"

text \<open>The directories of the runtime, of this package and of the worker's module, resolved.\<close>

definition read_paths_of :: "path_os \<Rightarrow> pystr list \<Rightarrow> pystr option \<Rightarrow> pystr list result" where
  "read_paths_of os candidates module_dir =
     (case module_dir of
        None \<Rightarrow> fail ''isolated worker module must be a file''
      | Some d \<Rightarrow> rbind (rmap (po_realpath os) (candidates @ [d])) (\<lambda>ps. Inr (sort (remdups ps))))"

definition child_request :: "worker_class \<Rightarrow> message \<Rightarrow> isolation_limits \<Rightarrow> pystr list result \<Rightarrow> bytes result" where
  "child_request w pl limits paths =
     rbind (worker_spec w) (\<lambda>spec.
     rbind paths (\<lambda>ps.
     rbind (canonical (PDict [(lit ''version'', PInt 1), (lit ''worker'', PDict spec), (lit ''payload'', PDict pl),
                              (lit ''limits'', PDict (limits_dict limits)), (lit ''read_paths'', PList (map PStr ps))])) (\<lambda>data.
     if length data > MAX_CHILD_REQUEST_BYTES then fail ''isolated worker request is too large'' else Inr data)))"

section \<open>Reading the child\<close>

datatype child_read = Late | Gets nat | ReadFails

record child_process =
  cp_takes_request :: bool
  cp_reads :: "child_read list"
  cp_output :: bytes
  cp_status :: "int option"
  cp_alive :: bool

text \<open>Killing waits for the end: the process is gone afterwards.\<close>

definition kill_process :: "(child_process, unit) action" where
  "kill_process p = (Inr (), p\<lparr>cp_alive := False\<rparr>)"

definition next_read :: "child_process \<Rightarrow> child_read" where
  "next_read p = (case cp_reads p of [] \<Rightarrow> Gets 4096 | r # _ \<Rightarrow> r)"

text \<open>The loop of \<open>_read_process\<close>: \<open>os.read\<close> gives between one and 4096 bytes while there are any.\<close>

function read_chunks :: "nat \<Rightarrow> child_process \<Rightarrow> bytes result \<times> child_process" where
  "read_chunks seen p =
     (let p1 = p\<lparr>cp_reads := tl (cp_reads p)\<rparr> in
      case next_read p of
        Late \<Rightarrow> abind kill_process (\<lambda>_. araise resource_exhausted) p1
      | ReadFails \<Rightarrow> (Inl (PyError ''OSError''), p1)
      | Gets k \<Rightarrow>
          let chunk = take (min 4096 (Suc k)) (cp_output p); p2 = p1\<lparr>cp_output := drop (length chunk) (cp_output p)\<rparr> in
          if chunk = [] then (Inr [], p2) else
          if seen + length chunk > MAX_CHILD_MESSAGE_BYTES then abind kill_process (\<lambda>_. araise isolation_violation) p2 else
          (case read_chunks (seen + length chunk) p2 of
             (Inl e, p3) \<Rightarrow> (Inl e, p3)
           | (Inr rest, p3) \<Rightarrow> (Inr (chunk @ rest), p3)))"
  by pat_completeness auto
termination by (relation "measure (\<lambda>(seen, p). length (cp_output p))") auto

declare read_chunks.simps [simp del]

definition read_process :: "(child_process, bytes \<times> int) action" where
  "read_process =
     abind (read_chunks 0) (\<lambda>data p.
       case cp_status p of
         None \<Rightarrow> abind kill_process (\<lambda>_. araise resource_exhausted) p
       | Some status \<Rightarrow> (Inr (data, status), p\<lparr>cp_alive := False\<rparr>))"

definition SIGSYS :: int where "SIGSYS = 31"

definition decode_child_message :: "platform \<Rightarrow> (pystr \<Rightarrow> bool) \<Rightarrow> bytes \<Rightarrow> int \<Rightarrow> pyval result" where
  "decode_child_message P deep data status =
     (if status = - SIGSYS then Inl isolation_violation else
      if status < 0 then Inl resource_exhausted else
      if status \<noteq> 0 then Inl remote_worker_failed else
      rbind (read_object P deep isolation_violation data) (\<lambda>m.
      let is_kind = (\<lambda>kind. field_is m ''kind'' (lit kind) \<and> has_keys m [''kind'']) in
      if field_is m ''kind'' (lit ''ok'') \<and> has_keys m [''kind'', ''output''] then get_item m ''output'' else
      if is_kind ''worker_failed'' then Inl remote_worker_failed else
      if is_kind ''isolation_violated'' then Inl isolation_violation else
      if is_kind ''resource_exhausted'' then Inl resource_exhausted else
      if is_kind ''output_rejected'' then Inr PNone else
      Inl isolation_violation))"

text \<open>\<open>spawn\<close> is the process the request starts. \<open>None\<close>: none was started.\<close>

definition run_isolated ::
  "platform \<Rightarrow> (pystr \<Rightarrow> bool) \<Rightarrow> (bytes \<Rightarrow> child_process) \<Rightarrow> worker_class \<Rightarrow> message \<Rightarrow> isolation_limits \<Rightarrow> pystr list result
     \<Rightarrow> pyval result \<times> child_process option" where
  "run_isolated P deep spawn w pl limits paths =
     (case child_request w pl limits paths of
        Inl e \<Rightarrow> (Inl e, None)
      | Inr data \<Rightarrow>
          (case afinally
                  (abind (\<lambda>p. (if cp_takes_request p then Inr () else Inl isolation_violation, p)) (\<lambda>_.
                   abind read_process (\<lambda>(out, status). alift (decode_child_message P deep out status))))
                  kill_process (spawn data) of
             (r, p) \<Rightarrow> (r, Some p)))"

text \<open>What the runner of \<open>workers.py\<close> makes of it.\<close>

definition outcome_of :: "pyval result \<Rightarrow> work_outcome" where
  "outcome_of r =
     (case r of
        Inr v \<Rightarrow> Returned v
      | Inl e \<Rightarrow>
          if e = isolation_violation then IsolationViolation else
          if e = resource_exhausted then ResourceExhausted else
          (case e of WorkerBoundaryError m \<Rightarrow> BoundaryFailed m | _ \<Rightarrow> Raised (exc_message e)))"

section \<open>The runner\<close>

record isolated_runner =
  ir_class :: worker_class
  ir_authority :: worker_authority
  ir_limits :: isolation_limits
  ir_paths :: "pystr list result"

definition isolated_runner_init ::
  "bool \<Rightarrow> bool \<Rightarrow> int \<Rightarrow> worker_class \<Rightarrow> worker_authority option \<Rightarrow> isolation_limits option \<Rightarrow> pystr list result \<Rightarrow> isolated_runner result" where
  "isolated_runner_init resources filters abi w authority limits paths =
     (if \<not> resources then fail ''process isolation requires POSIX resource limits'' else
      if \<not> filters then fail ''process isolation requires a Linux seccomp process filter'' else
      if abi < LANDLOCK_MIN_ABI then fail ''process isolation requires Landlock ABI 4 (Linux 6.7)'' else
      rbind (runner_init (wc_tool w) (\<lambda>_. \<lparr>wr_outcome = Returned PNone, wr_elapsed_ns = 0, wr_payload = PNone\<rparr>) authority) (\<lambda>r.
      rbind (worker_spec w) (\<lambda>_.
      rbind paths (\<lambda>_.
      Inr \<lparr>ir_class = w, ir_authority = wk_authority r,
           ir_limits = (case limits of None \<Rightarrow> default_limits | Some l \<Rightarrow> l), ir_paths = paths\<rparr>))))"

text \<open>The runner as \<open>workers.py\<close> sees it: \<open>_run_worker\<close> is \<open>_run_isolated\<close> on a copy of the payload.\<close>

definition isolated_worker ::
  "platform \<Rightarrow> (pystr \<Rightarrow> bool) \<Rightarrow> (bytes \<Rightarrow> child_process) \<Rightarrow> (pyval \<Rightarrow> int) \<Rightarrow> isolated_runner \<Rightarrow> worker_runner" where
  "isolated_worker P deep spawn elapsed r =
     \<lparr>wk_tool = wc_tool (ir_class r), wk_authority = ir_authority r,
      wk_work = (\<lambda>v. \<lparr>wr_outcome = (case v of
                         PDict pl \<Rightarrow> outcome_of (fst (run_isolated P deep spawn (ir_class r) pl (ir_limits r) (ir_paths r)))
                       | _ \<Rightarrow> Raised ''TypeError''),
                      wr_elapsed_ns = elapsed v, wr_payload = v\<rparr>)\<rparr>"

section \<open>The child\<close>

definition CHILD_KEYS :: "string list" where "CHILD_KEYS = [''version'', ''worker'', ''payload'', ''limits'', ''read_paths'']"
definition SPEC_KEYS :: "string list" where "SPEC_KEYS = [''module'', ''qualname'', ''state'', ''tool'']"

record decoded_request =
  dr_worker :: message
  dr_payload :: pyval
  dr_limits :: pyval
  dr_read_paths :: "pystr list"

text \<open>\<open>value["version"] != 1\<close>: an equal float or \<open>True\<close> passes too.\<close>

definition equals_one :: "(pystr \<Rightarrow> rat option) \<Rightarrow> pyval \<Rightarrow> bool" where
  "equals_one value v = (case v of PInt i \<Rightarrow> i = 1 | PBool b \<Rightarrow> b | PFloat r \<Rightarrow> value r = Some 1 | _ \<Rightarrow> False)"

definition absolute_string :: "pyval \<Rightarrow> pystr option" where
  "absolute_string v = (case v of PStr s \<Rightarrow> if is_absolute s then Some s else None | _ \<Rightarrow> None)"

definition decode_request :: "platform \<Rightarrow> (pystr \<Rightarrow> bool) \<Rightarrow> (pystr \<Rightarrow> rat option) \<Rightarrow> bytes \<Rightarrow> decoded_request result" where
  "decode_request P deep value data =
     (let invalid = ContractError ''invalid isolation request'' in
      if data = [] \<or> length data > MAX_CHILD_REQUEST_BYTES then Inl invalid else
      rbind (read_object P deep invalid data) (\<lambda>m.
      if \<not> has_keys m CHILD_KEYS then Inl invalid else
      rbind (get_item m ''version'') (\<lambda>version.
      if \<not> equals_one value version then Inl invalid else
      rbind (get_item m ''read_paths'') (\<lambda>paths.
      case (case paths of PList ps \<Rightarrow> opt_map absolute_string ps | _ \<Rightarrow> None) of
        None \<Rightarrow> fail ''invalid isolation read paths''
      | Some ps \<Rightarrow>
          rbind (get_item m ''worker'') (\<lambda>worker.
          case worker of
            PDict spec \<Rightarrow>
              if \<not> has_keys spec SPEC_KEYS then fail ''invalid isolation worker'' else
              rbind (get_item m ''payload'') (\<lambda>pl.
              rbind (get_item m ''limits'') (\<lambda>limits.
              Inr \<lparr>dr_worker = spec, dr_payload = pl, dr_limits = limits, dr_read_paths = ps\<rparr>))
          | _ \<Rightarrow> fail ''invalid isolation worker'')))))"

text \<open>What the interpreter finds by a module and a qualified name, and \<open>dict(v)\<close>.\<close>

record worker_type =
  wt_is_worker :: bool
  wt_tool :: pystr
  wt_run :: "message \<Rightarrow> pyval \<Rightarrow> (hook_state, pyval) action"

record child_env =
  ce_import :: "pystr \<Rightarrow> pystr \<Rightarrow> (hook_state, worker_type) action"
  ce_dict :: "pyval \<Rightarrow> pyval result"
  ce_landlock :: landlock_os
  ce_machine :: string
  ce_prctl :: "nat \<Rightarrow> int"
  ce_directory :: "unit result"

definition nonempty_string :: "message \<Rightarrow> string \<Rightarrow> pystr option" where
  "nonempty_string m key = (case map_of m (lit key) of Some (PStr s) \<Rightarrow> if s = [] then None else Some s | _ \<Rightarrow> None)"

text \<open>The worker's \<open>run\<close>, bound to the state it had in the parent.\<close>

definition resolve_worker :: "child_env \<Rightarrow> message \<Rightarrow> (hook_state, pyval \<Rightarrow> (hook_state, pyval) action) action" where
  "resolve_worker env spec =
     (let invalid = araise (ContractError ''invalid isolation worker'') in
      case (nonempty_string spec ''module'', nonempty_string spec ''qualname'', nonempty_string spec ''tool'') of
        (Some mname, Some qualname, Some tool) \<Rightarrow>
          (case map_of spec (lit ''state'') of
             Some (PDict state) \<Rightarrow>
               abind (ce_import env mname qualname) (\<lambda>t.
               if \<not> wt_is_worker t then invalid else
               if wt_tool t \<noteq> tool then araise (ContractError ''isolation worker tool changed across the boundary'') else
               areturn (wt_run t state))
           | _ \<Rightarrow> invalid)
      | _ \<Rightarrow> invalid)"

section \<open>One child\<close>

text \<open>\<open>ch_ran\<close> notes what the process was restricted by when code of the worker's module first ran.\<close>

record child_state =
  ch_rlimits :: rlimits
  ch_landlock :: landlock_state
  ch_seccomp :: seccomp_state
  ch_hook :: hook_state
  ch_ran :: "(rlimits \<times> landlock_state \<times> seccomp_state) option"
  ch_written :: bytes

abbreviation on_rlimits :: "(rlimits, 'a) action \<Rightarrow> (child_state, 'a) action" where
  "on_rlimits \<equiv> azoom ch_rlimits (\<lambda>x s. s\<lparr>ch_rlimits := x\<rparr>)"
abbreviation on_landlock :: "(landlock_state, 'a) action \<Rightarrow> (child_state, 'a) action" where
  "on_landlock \<equiv> azoom ch_landlock (\<lambda>x s. s\<lparr>ch_landlock := x\<rparr>)"
abbreviation on_seccomp :: "(seccomp_state, 'a) action \<Rightarrow> (child_state, 'a) action" where
  "on_seccomp \<equiv> azoom ch_seccomp (\<lambda>x s. s\<lparr>ch_seccomp := x\<rparr>)"
abbreviation on_hook :: "(hook_state, 'a) action \<Rightarrow> (child_state, 'a) action" where
  "on_hook \<equiv> azoom ch_hook (\<lambda>x s. s\<lparr>ch_hook := x\<rparr>)"

definition message_bytes :: "message \<Rightarrow> bytes" where
  "message_bytes m =
     (let rejected = ascii_bytes (lit ''{\"kind\":\"output_rejected\"}'') in
      case canonical (PDict m) of
        Inl _ \<Rightarrow> rejected
      | Inr data \<Rightarrow> if length data > MAX_CHILD_MESSAGE_BYTES then rejected else data)"

definition write_message :: "message \<Rightarrow> (child_state, unit) action" where
  "write_message m s = (Inr (), s\<lparr>ch_written := ch_written s @ message_bytes m\<rparr>)"

definition kind_message :: "string \<Rightarrow> message" where
  "kind_message kind = [(lit ''kind'', PStr (lit kind))]"

text \<open>The exceptions that are no \<open>Exception\<close>.\<close>

definition base_exception :: "exc \<Rightarrow> bool" where
  "base_exception e \<longleftrightarrow> e \<in> PyError ` {''_SandboxDenied'', ''BaseException'', ''SystemExit'', ''KeyboardInterrupt'', ''GeneratorExit''}"

definition run_child_worker :: "child_env \<Rightarrow> decoded_request \<Rightarrow> (child_state, unit) action" where
  "run_child_worker env q =
     acatch
       (abind (\<lambda>s. (Inr (), s\<lparr>ch_ran := Some (ch_rlimits s, ch_landlock s, ch_seccomp s)\<rparr>)) (\<lambda>_.
        abind (on_hook (resolve_worker env (dr_worker q))) (\<lambda>run.
        abind (alift (ce_dict env (dr_payload q))) (\<lambda>pl.
        abind (on_hook (run pl)) (\<lambda>output s.
        if hk_violated (ch_hook s) then write_message (kind_message ''isolation_violated'') s
        else write_message [(lit ''kind'', PStr (lit ''ok'')), (lit ''output'', output)] s)))))
       (\<lambda>e. if e = sandbox_denied then write_message (kind_message ''isolation_violated'') else
            if e = PyError ''MemoryError'' then write_message (kind_message ''resource_exhausted'') else
            if base_exception e then araise e else write_message (kind_message ''worker_failed''))"

definition child_body ::
  "platform \<Rightarrow> (pystr \<Rightarrow> bool) \<Rightarrow> (pystr \<Rightarrow> rat option) \<Rightarrow> child_env \<Rightarrow> pystr \<Rightarrow> bytes \<Rightarrow> (child_state, unit) action" where
  "child_body P deep value env jobdir data =
     abind (alift (decode_request P deep value data)) (\<lambda>q.
     abind (alift (limits_from value (dr_limits q))) (\<lambda>limits.
     abind (on_rlimits (set_resource_limits limits)) (\<lambda>_.
     abind (alift (ce_directory env)) (\<lambda>_.
     abind (\<lambda>s. (Inr (), s\<lparr>ch_hook := \<lparr>hk_violated = False, hk_bootstrap = False\<rparr>\<rparr>)) (\<lambda>_.
     abind (on_landlock (install_filesystem_rules (ce_landlock env) jobdir (dr_read_paths q))) (\<lambda>_.
     abind (on_seccomp (install_process_filter (ce_machine env) (ce_prctl env))) (\<lambda>_.
     run_child_worker env q)))))))"

definition child_entry ::
  "platform \<Rightarrow> (pystr \<Rightarrow> bool) \<Rightarrow> (pystr \<Rightarrow> rat option) \<Rightarrow> child_env \<Rightarrow> pystr \<Rightarrow> bytes \<Rightarrow> (child_state, int) action" where
  "child_entry P deep value env jobdir stdin =
     abind (acatch (child_body P deep value env jobdir (take (MAX_CHILD_REQUEST_BYTES + 1) stdin))
              (\<lambda>_. write_message (kind_message ''isolation_violated''))) (\<lambda>_.
     areturn 0)"

section \<open>The parent keeps what one whole message says\<close>

definition after_read :: "nat \<Rightarrow> child_process \<Rightarrow> child_process" where
  "after_read n p = p\<lparr>cp_reads := tl (cp_reads p), cp_output := drop n (cp_output p)\<rparr>"

lemma read_chunks_gets:
  assumes "next_read p = Gets k" "chunk = take (min 4096 (Suc k)) (cp_output p)"
  shows "read_chunks seen p =
    (if chunk = [] then (Inr [], after_read 0 p) else
     if seen + length chunk > MAX_CHILD_MESSAGE_BYTES then (Inl isolation_violation, (after_read (length chunk) p)\<lparr>cp_alive := False\<rparr>) else
     (case read_chunks (seen + length chunk) (after_read (length chunk) p) of
        (Inl e, p3) \<Rightarrow> (Inl e, p3) | (Inr rest, p3) \<Rightarrow> (Inr (chunk @ rest), p3)))"
  by (subst read_chunks.simps)
    (simp only: assms(1) Let_def child_read.case assms(2)[symmetric], simp add: after_read_def abind_def kill_process_def araise_def)

lemma chunk_rest: "chunk = take n (cp_output p) \<Longrightarrow> cp_output p = chunk @ cp_output (after_read (length chunk) p)"
  by (simp add: after_read_def min_def)

lemma after_read_simps [simp]: "cp_status (after_read n p) = cp_status p" "cp_reads (after_read n p) = tl (cp_reads p)"
  "cp_output (after_read n p) = drop n (cp_output p)" "(after_read n p)\<lparr>cp_output := x\<rparr> = p\<lparr>cp_reads := tl (cp_reads p), cp_output := x\<rparr>"
  by (simp_all add: after_read_def)

lemma read_chunks_all:
  "read_chunks seen p = (Inr data, p') \<Longrightarrow> seen \<le> MAX_CHILD_MESSAGE_BYTES \<Longrightarrow>
     data = cp_output p \<and> seen + length data \<le> MAX_CHILD_MESSAGE_BYTES \<and> cp_status p' = cp_status p"
proof (induction "length (cp_output p)" arbitrary: seen p data p' rule: less_induct)
  case less
  show ?case
  proof (cases "next_read p")
    case (Gets k)
    define chunk where "chunk = take (min 4096 (Suc k)) (cp_output p)"
    note run = less.prems(1)[unfolded read_chunks_gets[OF Gets chunk_def]]
    show ?thesis
    proof (cases "chunk = []")
      case True
      then have "cp_output p = []" by (simp add: chunk_def)
      with run True less.prems(2) show ?thesis by auto
    next
      case False
      with run have fits: "seen + length chunk \<le> MAX_CHILD_MESSAGE_BYTES" by (auto split: if_splits)
      obtain rest where r: "read_chunks (seen + length chunk) (after_read (length chunk) p) = (Inr rest, p')" "data = chunk @ rest"
        using run False by (auto split: if_splits sum.splits prod.splits)
      have sh: "length (cp_output (after_read (length chunk) p)) < length (cp_output p)" using chunk_rest[OF chunk_def] False
        by (metis length_append length_greater_0_conv less_add_same_cancel2)
      from less.hyps[OF sh r(1) fits] have h: "rest = cp_output (after_read (length chunk) p)"
        "seen + length data \<le> MAX_CHILD_MESSAGE_BYTES" "cp_status p' = cp_status p" by (auto simp: r(2))
      from h(1) r(2) chunk_rest[OF chunk_def] have "data = cp_output p" by metis
      with h(2,3) show ?thesis by blast
    qed
  qed (use less.prems(1) in \<open>auto simp: read_chunks.simps[of seen p] abind_def kill_process_def araise_def Let_def\<close>)
qed

lemma read_chunks_quick:
  "seen + length (cp_output p) \<le> MAX_CHILD_MESSAGE_BYTES \<Longrightarrow> cp_reads p = [] \<Longrightarrow>
     read_chunks seen p = (Inr (cp_output p), p\<lparr>cp_output := []\<rparr>)"
proof (induction "length (cp_output p)" arbitrary: seen p rule: less_induct)
  case less
  have n: "next_read p = Gets 4096" using less.prems by (simp add: next_read_def)
  define chunk where "chunk = take (min 4096 (Suc 4096)) (cp_output p)"
  let ?p = "after_read (length chunk) p"
  note step = read_chunks_gets[OF n chunk_def, of seen]
  show ?case
  proof (cases "chunk = []")
    case True
    then have "cp_output p = []" by (simp add: chunk_def)
    then show ?thesis using less.prems unfolding step by (simp add: True after_read_def)
  next
    case False
    have w: "cp_output p = chunk @ cp_output ?p" by (rule chunk_rest[OF chunk_def])
    then have len: "length (cp_output p) = length chunk + length (cp_output ?p)" by (metis length_append)
    have "read_chunks (seen + length chunk) ?p = (Inr (cp_output ?p), ?p\<lparr>cp_output := []\<rparr>)"
      by (rule less.hyps) (use less.prems len False in \<open>auto simp del: after_read_simps(3)\<close>)
    moreover have "?p\<lparr>cp_output := []\<rparr> = p\<lparr>cp_output := []\<rparr>" using less.prems by simp
    moreover have "\<not> seen + length chunk > MAX_CHILD_MESSAGE_BYTES" using less.prems(1) len by linarith
    ultimately have "read_chunks seen p = (Inr (chunk @ cp_output ?p), p\<lparr>cp_output := []\<rparr>)"
      unfolding step using False by (simp del: after_read_simps(3))
    with w show ?thesis by metis
  qed
qed

lemma read_object_canonical: "read_object P deep e data = Inr m \<Longrightarrow> canonical (PDict m) = Inr data"
  by (auto simp: read_object_def rbind_eq_Inr split: sum.splits pyval.splits if_splits)

text \<open>What an output means when the process ended well.\<close>

definition says :: "bytes \<Rightarrow> pyval \<Rightarrow> bool" where
  "says data v \<longleftrightarrow> (\<exists>m. canonical (PDict m) = Inr data
     \<and> (field_is m ''kind'' (lit ''ok'') \<and> has_keys m [''kind'', ''output''] \<and> map_of m (lit ''output'') = Some v
        \<or> field_is m ''kind'' (lit ''output_rejected'') \<and> has_keys m [''kind''] \<and> v = PNone))"

lemma decode_child_message_says:
  assumes "decode_child_message P deep data status = Inr v"
  shows "status = 0 \<and> says data v"
proof -
  obtain m where m: "read_object P deep isolation_violation data = Inr m" and st: "status = 0"
    using assms by (auto simp: decode_child_message_def rbind_eq_Inr split: if_splits)
  from assms m st show ?thesis
    using read_object_canonical[OF m]
    by (auto simp: decode_child_message_def says_def Let_def get_item_def SIGSYS_def split: if_splits option.splits)
qed

text \<open>C19. Whatever the child does, it is gone when its job ends, and an answer is what one whole message of at most
  32 KiB said when the process ended well, bound to nothing else it did: no partial, padded, second or
  non-canonical message is read, and no message of a process that was killed or failed.\<close>

theorem child_contained:
  assumes "run_isolated P deep spawn w pl limits paths = (r, started)"
  shows "(started = None \<longrightarrow> (\<exists>e. r = Inl e \<and> child_request w pl limits paths = Inl e))
       \<and> (\<forall>p. started = Some p \<longrightarrow> \<not> cp_alive p)
       \<and> (\<forall>v. r = Inr v \<longrightarrow> (\<exists>data. child_request w pl limits paths = Inr data \<and> cp_takes_request (spawn data)
              \<and> cp_status (spawn data) = Some 0 \<and> length (cp_output (spawn data)) \<le> MAX_CHILD_MESSAGE_BYTES
              \<and> says (cp_output (spawn data)) v))"
proof (cases "child_request w pl limits paths")
  case (Inr data)
  let ?m = "abind (\<lambda>p. (if cp_takes_request p then Inr () else Inl isolation_violation, p)) (\<lambda>_.
              abind read_process (\<lambda>(out, status). alift (decode_child_message P deep out status)))"
  obtain p1 where m: "?m (spawn data) = (r, p1)" and st: "started = Some (p1\<lparr>cp_alive := False\<rparr>)"
    using assms Inr by (auto simp: run_isolated_def afinally_def kill_process_def split: prod.splits)
  have "\<exists>d. child_request w pl limits paths = Inr d \<and> cp_takes_request (spawn d) \<and> cp_status (spawn d) = Some 0
          \<and> length (cp_output (spawn d)) \<le> MAX_CHILD_MESSAGE_BYTES \<and> says (cp_output (spawn d)) v" if "r = Inr v" for v
  proof -
    from m that obtain out status p2 where rp: "cp_takes_request (spawn data)" "read_process (spawn data) = (Inr (out, status), p2)"
      "decode_child_message P deep out status = Inr v"
      by (auto simp: abind_eq_Inr alift_eq split: if_splits)
    from rp(2) obtain p3 where rc: "read_chunks 0 (spawn data) = (Inr out, p3)" "cp_status p3 = Some status"
      by (auto simp: read_process_def abind_def kill_process_def araise_def split: prod.splits sum.splits option.splits)
    from read_chunks_all[OF rc(1)] rc(2) decode_child_message_says[OF rp(3)] rp(1) Inr show ?thesis by auto
  qed
  with st show ?thesis by auto
qed (use assms in \<open>auto simp: run_isolated_def\<close>)

section \<open>Messages arrive\<close>

definition float_kept :: "platform \<Rightarrow> pystr \<Rightarrow> bool" where
  "float_kept P r \<longleftrightarrow> decimal_text r \<and> float_repr P r = r"

text \<open>Sixteen levels of nesting are read and printed.\<close>

definition deep_ok :: "(pystr \<Rightarrow> bool) \<Rightarrow> bool" where
  "deep_ok deep \<longleftrightarrow> (\<forall>v t. json_depth v \<le> 16 \<and> dumps v = Some t \<longrightarrow> \<not> deep t)"

definition message_deep :: "(pystr \<Rightarrow> bool) \<Rightarrow> message \<Rightarrow> bool" where
  "message_deep deep m \<longleftrightarrow> (\<exists>t. dumps (PDict m) = Some t \<and> deep t)"

lemma read_object_norm:
  assumes "canonical (PDict m) = Inr b" "json_with (float_kept P) (PDict m)" "\<not> message_deep deep m"
  shows "read_object P deep e b = Inr (norm_message m)"
proof -
  obtain t where t: "dumps (PDict m) = Some t" "b = ascii_bytes t" using assms(1) by (auto simp: canonical_eq_Inr)
  have a: "is_ascii t" by (rule dumps_ascii_with[OF _ t(1) assms(2)]) (simp add: float_kept_def)
  have c: "canonical (PDict (norm_message m)) = Inr b"
    using dumps_json_norm[OF t(1)] t(2) by (simp only: canonical_def option.case json_norm_message)
  have "json_loads (plain_hooks_json P) t = Inr (PDict (norm_message m))"
    using json_roundtrip_with[OF plain_hooks_keep _ t(1) assms(2)]
    by (simp only: json_norm_message) (simp add: float_kept_def plain_hooks_json_def)
  moreover have "\<not> deep t" using assms(3) t(1) unfolding message_deep_def by blast
  ultimately have "loads_ascii P deep b = Inr (PDict (norm_message m))" using a t(2) by (simp add: loads_ascii_def)
  with c show ?thesis by (simp add: read_object_def)
qed

lemma shallow_message: "deep_ok deep \<Longrightarrow> json_depth (PDict m) \<le> 16 \<Longrightarrow> \<not> message_deep deep m"
  unfolding deep_ok_def message_deep_def by blast

definition request_message :: "message \<Rightarrow> message \<Rightarrow> isolation_limits \<Rightarrow> pystr list \<Rightarrow> message" where
  "request_message spec pl limits ps =
     [(lit ''version'', PInt 1), (lit ''worker'', PDict spec), (lit ''payload'', PDict pl),
      (lit ''limits'', PDict (limits_dict limits)), (lit ''read_paths'', PList (map PStr ps))]"

definition spec_message :: "worker_class \<Rightarrow> message" where
  "spec_message w = [(lit ''module'', PStr (wc_module w)), (lit ''qualname'', PStr (wc_qualname w)),
           (lit ''state'', PDict (wc_state w)), (lit ''tool'', PStr (wc_tool w))]"

text \<open>A request whose texts and values JSON gives back, of ordinary depth.\<close>

definition request_ok :: "platform \<Rightarrow> worker_class \<Rightarrow> message \<Rightarrow> isolation_limits \<Rightarrow> pystr list \<Rightarrow> bool" where
  "request_ok P w pl limits ps \<longleftrightarrow>
     text_ok (wc_module w) \<and> text_ok (wc_qualname w) \<and> text_ok (wc_tool w) \<and> wc_tool w \<noteq> []
     \<and> json_ok (PDict (wc_state w)) \<and> json_ok (PDict pl)
     \<and> (\<forall>r. il_wall_seconds limits = PFloat r \<longrightarrow> float_kept P r)
     \<and> list_all (\<lambda>p. text_ok p \<and> is_absolute p) ps
     \<and> json_depth (PDict (request_message (spec_message w) pl limits ps)) \<le> 16"

lemma child_request_eq_Inr:
  "child_request w pl limits paths = Inr data \<Longrightarrow>
     \<exists>ps. paths = Inr ps \<and> worker_spec w = Inr (spec_message w) \<and> canonical (PDict (request_message (spec_message w) pl limits ps)) = Inr data
       \<and> length data \<le> MAX_CHILD_REQUEST_BYTES \<and> wc_module w \<noteq> [] \<and> wc_qualname w \<noteq> []"
  unfolding child_request_def rbind_eq_Inr worker_spec_def if_raise_eq_Inr
  by (auto simp: spec_message_def request_message_def)

lemma limits_wall: "limits_ok value l \<Longrightarrow> (\<exists>i. il_wall_seconds l = PInt i) \<or> (\<exists>r. il_wall_seconds l = PFloat r)"
  by (auto simp: limits_ok_def wall_value_def split: pyval.splits)

lemma request_json:
  assumes "request_ok P w pl limits ps" "limits_ok value limits"
  shows "json_with (float_kept P) (PDict (request_message (spec_message w) pl limits ps))"
proof -
  have wall: "json_with (float_kept P) (il_wall_seconds limits)" using limits_wall[OF assms(2)] assms(1) by (auto simp: request_ok_def)
  have keys: "text_ok (lit k)" if "k \<in> set (CHILD_KEYS @ SPEC_KEYS @ [''wall_seconds'', ''cpu_seconds'', ''memory_bytes'', ''max_file_bytes'', ''max_open_files''])" for k
    using that by (intro text_ok_lit) (auto simp: CHILD_KEYS_def SPEC_KEYS_def is_high_surrogate_def)
  have parts: "json_with (float_kept P) (PDict (wc_state w))" "json_with (float_kept P) (PDict pl)"
    using assms(1) json_ok_with unfolding request_ok_def by blast+
  have l: "json_with (float_kept P) (PDict (limits_dict limits))" using wall keys by (simp add: limits_dict_def)
  have sp: "json_with (float_kept P) (PDict (spec_message w))"
    using assms(1) parts(1) keys by (simp add: spec_message_def request_ok_def SPEC_KEYS_def del: json_with.simps(9)) (simp add: json_with.simps(9))
  have ps: "json_with (float_kept P) (PList (map PStr ps))" using assms(1) by (simp add: request_ok_def list_all_iff)
  show ?thesis
    unfolding request_message_def json_with.simps(9)[of _ "_ # _"]
    using parts(2) l sp ps keys by (simp add: CHILD_KEYS_def del: json_with.simps(9))
qed

lemma request_distinct: "distinct (map fst (request_message spec pl limits ps))" "distinct (map fst (spec_message w))"
  "distinct (map fst (limits_dict limits))"
  by (simp_all add: request_message_def spec_message_def limits_dict_def)

lemma canonical_dict_nonempty: "canonical (PDict m) = Inr b \<Longrightarrow> b \<noteq> []"
  by (auto simp: canonical_eq_Inr)

lemma absolute_strings: "list_all is_absolute ps \<Longrightarrow> opt_map absolute_string (map PStr ps) = Some ps"
  by (induction ps) (auto simp: absolute_string_def)

lemma decode_request_sent:
  assumes "request_ok P w pl limits ps" "limits_ok value limits" "deep_ok deep" "child_request w pl limits (Inr ps) = Inr data"
  shows "decode_request P deep value data =
    Inr \<lparr>dr_worker = norm_message (spec_message w), dr_payload = PDict (norm_message pl),
         dr_limits = PDict (norm_message (limits_dict limits)), dr_read_paths = ps\<rparr>"
proof -
  let ?m = "request_message (spec_message w) pl limits ps"
  have c: "canonical (PDict ?m) = Inr data" "length data \<le> MAX_CHILD_REQUEST_BYTES"
    using child_request_eq_Inr[OF assms(4)] by auto
  have "\<not> message_deep deep ?m" using assms(1,3) by (intro shallow_message) (simp_all add: request_ok_def)
  from read_object_norm[OF c(1) request_json[OF assms(1,2)] this]
  have r: "read_object P deep e data = Inr (norm_message ?m)" for e .
  note nf = norm_fields[OF request_distinct(1)[of "spec_message w" pl limits ps]]
  have k: "has_keys ?m CHILD_KEYS" by (simp add: has_keys_def CHILD_KEYS_def request_message_def)
  have sk: "has_keys (norm_message (spec_message w)) SPEC_KEYS"
    unfolding norm_fields(1)[OF request_distinct(2)[of w]] by (simp add: has_keys_def SPEC_KEYS_def spec_message_def)
  have g: "get_item ?m ''version'' = Inr (PInt 1)" "get_item ?m ''worker'' = Inr (PDict (spec_message w))"
    "get_item ?m ''payload'' = Inr (PDict pl)" "get_item ?m ''limits'' = Inr (PDict (limits_dict limits))"
    "get_item ?m ''read_paths'' = Inr (PList (map PStr ps))"
    by (simp_all add: get_item_def request_message_def)
  have ps: "opt_map absolute_string (map PStr ps) = Some ps"
    using assms(1) by (intro absolute_strings) (simp add: request_ok_def list_all_iff)
  have d: "data \<noteq> []" by (rule canonical_dict_nonempty[OF c(1)])
  show ?thesis
    using c(2) d ps sk by (simp add: decode_request_def Let_def r nf k g json_norm_message equals_one_def comp_def del: json_norm.simps(3))
qed

lemma limits_arrive:
  assumes "limits_ok value limits"
  shows "limits_from value (PDict (norm_message (limits_dict limits))) = Inr limits"
proof (rule limits_from_lookup[OF _ assms])
  have "map_option json_norm (map_of (limits_dict limits) k) = map_of (limits_dict limits) k" for k
    using limits_wall[OF assms] by (auto simp: limits_dict_def)
  then show "map_of (norm_message (limits_dict limits)) = map_of (limits_dict limits)"
    by (intro ext) (simp add: norm_message_lookup[OF request_distinct(3)])
qed

section \<open>What the child answers\<close>

text \<open>The kernel takes the rules and the filter, and the process may set the limits.\<close>

definition child_ready :: "child_env \<Rightarrow> pystr \<Rightarrow> pystr list \<Rightarrow> isolation_limits \<Rightarrow> child_state \<Rightarrow> bool" where
  "child_ready env jobdir ps limits s \<longleftrightarrow>
     (\<forall>d. ce_dict env (PDict d) = Inr (PDict d)) \<and> ce_directory env = Inr ()
     \<and> (\<forall>r. \<not> exceeds (the (limits_set limits r)) (ch_rlimits s r))
     \<and> fst (install_filesystem_rules (ce_landlock env) jobdir ps (ch_landlock s)) = Inr ()
     \<and> fst (install_process_filter (ce_machine env) (ce_prctl env) (ch_seccomp s)) = Inr ()"

text \<open>The class the name leads to is the worker, and importing it touches nothing the hook sees.\<close>

definition importable :: "child_env \<Rightarrow> worker_class \<Rightarrow> worker_type \<Rightarrow> bool" where
  "importable env w t \<longleftrightarrow>
     (\<forall>h. ce_import env (wc_module w) (wc_qualname w) h = (Inr t, h)) \<and> wt_is_worker t \<and> wt_tool t = wc_tool w"

definition answer_message :: "pyval result \<Rightarrow> hook_state \<Rightarrow> message" where
  "answer_message r h =
     (case r of
        Inr v \<Rightarrow> if hk_violated h then kind_message ''isolation_violated'' else [(lit ''kind'', PStr (lit ''ok'')), (lit ''output'', v)]
      | Inl e \<Rightarrow>
          if e = sandbox_denied then kind_message ''isolation_violated'' else
          if e = PyError ''MemoryError'' then kind_message ''resource_exhausted'' else
          if base_exception e then kind_message ''isolation_violated'' else kind_message ''worker_failed'')"

lemma resolve_sent:
  assumes "importable env w t" "request_ok P w pl limits ps" "wc_module w \<noteq> []" "wc_qualname w \<noteq> []"
  shows "resolve_worker env (norm_message (spec_message w)) h = (Inr (wt_run t (norm_message (wc_state w))), h)"
proof -
  have "map_of (norm_message (spec_message w)) (lit k) = map_option json_norm (map_of (spec_message w) (lit k))" for k
    by (rule norm_message_lookup[OF request_distinct(2)])
  then show ?thesis
    using assms unfolding importable_def request_ok_def
    by (simp add: resolve_worker_def nonempty_string_def spec_message_def json_norm_message abind_def areturn_def del: json_norm.simps(3))
qed

text \<open>When its module was imported, the process had set the limits and installed the rules and the filter.\<close>

definition restricted_start :: "child_env \<Rightarrow> pystr \<Rightarrow> pystr list \<Rightarrow> isolation_limits \<Rightarrow> child_state \<Rightarrow> child_state \<Rightarrow> bool" where
  "restricted_start env jobdir ps limits s s' \<longleftrightarrow>
     (\<exists>rl l f. ch_ran s' = Some (rl, l, f) \<and> set_resource_limits limits (ch_rlimits s) = (Inr (), rl)
        \<and> install_filesystem_rules (ce_landlock env) jobdir ps (ch_landlock s) = (Inr (), l)
        \<and> install_process_filter (ce_machine env) (ce_prctl env) (ch_seccomp s) = (Inr (), f))"

lemma child_answers:
  assumes "request_ok P w pl limits ps" "limits_ok value limits" "deep_ok deep" "child_request w pl limits (Inr ps) = Inr data"
    and "child_ready env jobdir ps limits s" "importable env w t"
    and "wt_run t (norm_message (wc_state w)) (PDict (norm_message pl)) \<lparr>hk_violated = False, hk_bootstrap = False\<rparr> = (r, h)"
  shows "\<exists>s'. child_entry P deep value env jobdir data s = (Inr 0, s') \<and> ch_written s' = ch_written s @ message_bytes (answer_message r h)
    \<and> restricted_start env jobdir ps limits s s'"
proof -
  have len: "take (MAX_CHILD_REQUEST_BYTES + 1) data = data" and ne: "wc_module w \<noteq> []" "wc_qualname w \<noteq> []"
    using child_request_eq_Inr[OF assms(4)] by auto
  obtain l f where l: "install_filesystem_rules (ce_landlock env) jobdir ps (ch_landlock s) = (Inr (), l)"
    and f: "install_process_filter (ce_machine env) (ce_prctl env) (ch_seccomp s) = (Inr (), f)"
    using assms(5) by (cases "install_filesystem_rules (ce_landlock env) jobdir ps (ch_landlock s)";
        cases "install_process_filter (ce_machine env) (ce_prctl env) (ch_seccomp s)") (auto simp: child_ready_def)
  have rl: "set_resource_limits limits (ch_rlimits s) = (Inr (), limits_set limits)"
    using assms(5) by (intro limits_set_again) (simp add: child_ready_def)
  note facts = decode_request_sent[OF assms(1-4)] limits_arrive[OF assms(2)] rl l f resolve_sent[OF assms(6,1) ne] assms(7)
  have env: "ce_directory env = Inr ()" "\<And>d. ce_dict env (PDict d) = Inr (PDict d)" using assms(5) by (simp_all add: child_ready_def)
  show ?thesis
    unfolding child_entry_def len child_body_def run_child_worker_def
    by (simp add: abind_def acatch_def alift_def azoom_def facts env areturn_def araise_def write_message_def answer_message_def
        restricted_start_def split: sum.split)
qed

section \<open>What the parent reads\<close>

definition child_kinds :: "string list" where
  "child_kinds = [''worker_failed'', ''isolation_violated'', ''resource_exhausted'', ''output_rejected'']"

lemma dumps_kind: "kind \<in> set child_kinds \<Longrightarrow> dumps (PDict (kind_message kind)) = Some (lit (''{\"kind\":\"'' @ kind @ ''\"}''))"
  by (auto simp: child_kinds_def kind_message_def member_text_def json_string_def esc_char_def lit_def)

lemma kind_bytes:
  assumes "kind \<in> set child_kinds"
  shows "canonical (PDict (kind_message kind)) = Inr (message_bytes (kind_message kind))"
proof -
  have "length kind < 100" using assms by (auto simp: child_kinds_def)
  then show ?thesis unfolding message_bytes_def canonical_def dumps_kind[OF assms] by (simp add: MAX_CHILD_MESSAGE_BYTES_def)
qed

lemma length_kind_bytes:
  assumes "kind \<in> set child_kinds"
  shows "length (message_bytes (kind_message kind)) = length kind + 11"
proof -
  have "message_bytes (kind_message kind) = ascii_bytes (lit (''{\"kind\":\"'' @ kind @ ''\"}''))"
    using kind_bytes[OF assms] unfolding canonical_def dumps_kind[OF assms] by simp
  then show ?thesis by simp
qed

lemma message_bytes_cases:
  "message_bytes m =
     (case canonical (PDict m) of
        Inl _ \<Rightarrow> message_bytes (kind_message ''output_rejected'')
      | Inr data \<Rightarrow> if length data > MAX_CHILD_MESSAGE_BYTES then message_bytes (kind_message ''output_rejected'') else data)"
proof -
  have k: "''output_rejected'' \<in> set child_kinds" by (simp add: child_kinds_def)
  have "Inr (ascii_bytes (lit ''{\"kind\":\"output_rejected\"}'')) = canonical (PDict (kind_message ''output_rejected''))"
    unfolding canonical_def dumps_kind[OF k] by simp
  then have "ascii_bytes (lit ''{\"kind\":\"output_rejected\"}'') = message_bytes (kind_message ''output_rejected'')"
    unfolding kind_bytes[OF k] by (simp only: sum.inject)
  then show ?thesis by (simp only: message_bytes_def[of m] Let_def)
qed

lemma message_bytes_fit: "length (message_bytes m) \<le> MAX_CHILD_MESSAGE_BYTES"
proof -
  have "length (message_bytes (kind_message ''output_rejected'')) = 26" using length_kind_bytes[of "''output_rejected''"] by (simp add: child_kinds_def)
  then have "length (message_bytes (kind_message ''output_rejected'')) \<le> MAX_CHILD_MESSAGE_BYTES" by (simp add: MAX_CHILD_MESSAGE_BYTES_def)
  then show ?thesis by (subst message_bytes_cases) (simp split: sum.split)
qed

lemma kind_message_json: "kind \<in> set child_kinds \<Longrightarrow> json_with F (PDict (kind_message kind))"
proof -
  assume "kind \<in> set child_kinds"
  then have "text_ok (lit kind)" by (intro text_ok_lit) (auto simp: child_kinds_def is_high_surrogate_def)
  moreover have "text_ok (lit ''kind'')" by (intro text_ok_lit) (simp add: is_high_surrogate_def)
  ultimately show ?thesis by (simp add: kind_message_def)
qed

lemma decode_kind:
  assumes "kind \<in> set child_kinds" "deep_ok deep"
  shows "decode_child_message P deep (message_bytes (kind_message kind)) 0 =
    (if kind = ''worker_failed'' then Inl remote_worker_failed else
     if kind = ''isolation_violated'' then Inl isolation_violation else
     if kind = ''resource_exhausted'' then Inl resource_exhausted else Inr PNone)"
proof -
  have d: "json_depth (PDict (kind_message kind)) \<le> 16" by (simp add: kind_message_def)
  have n: "norm_message (kind_message kind) = kind_message kind" by (simp add: norm_message_def kind_message_def)
  note r = read_object_norm[OF kind_bytes[OF assms(1)] kind_message_json[OF assms(1), of "float_kept P"] shallow_message[OF assms(2) d]]
  have f: "field_is (kind_message kind) ''kind'' (lit k) \<longleftrightarrow> k = kind" "has_keys (kind_message kind) [''kind'']"
    "\<not> has_keys (kind_message kind) [''kind'', ''output'']" for k
    by (auto simp: kind_message_def field_is_def has_keys_def)
  have "kind \<in> {''worker_failed'', ''isolation_violated'', ''resource_exhausted'', ''output_rejected''}" using assms(1) by (simp add: child_kinds_def)
  then show ?thesis by (simp only: decode_child_message_def SIGSYS_def r n Let_def f rbind_Inr) auto
qed

definition ok_message :: "pyval \<Rightarrow> message" where
  "ok_message v = [(lit ''kind'', PStr (lit ''ok'')), (lit ''output'', v)]"

lemma decode_ok:
  assumes "canonical (PDict (ok_message v)) = Inr b" "json_ok v" "json_depth v \<le> 15" "deep_ok deep"
  shows "decode_child_message P deep b 0 = Inr (json_norm v)"
proof -
  have d: "json_depth (PDict (ok_message v)) \<le> 16" using assms(3) by (simp add: ok_message_def)
  have "text_ok (lit ''kind'')" "text_ok (lit ''output'')" "text_ok (lit ''ok'')"
    by (intro text_ok_lit; simp add: is_high_surrogate_def)+
  then have j: "json_with (float_kept P) (PDict (ok_message v))" using json_ok_with[OF assms(2)] by (simp add: ok_message_def)
  note r = read_object_norm[OF assms(1) j shallow_message[OF assms(4) d]]
  have di: "distinct (map fst (ok_message v))" by (simp add: ok_message_def)
  have f: "field_is (ok_message v) ''kind'' (lit ''ok'')" "has_keys (ok_message v) [''kind'', ''output'']" "get_item (ok_message v) ''output'' = Inr v"
    by (simp_all add: ok_message_def field_is_def has_keys_def get_item_def)
  show ?thesis by (simp add: decode_child_message_def SIGSYS_def r Let_def norm_fields[OF di] f)
qed

text \<open>What a run of the worker comes to in the parent: its output as JSON gives it back, nothing usable when the
  output is no JSON or too large, a violation when the hook recorded one and the worker returned, and an
  exception only as the kind it is.\<close>

definition isolated_outcome :: "pyval result \<Rightarrow> hook_state \<Rightarrow> work_outcome" where
  "isolated_outcome r h =
     (case r of
        Inr v \<Rightarrow>
          if hk_violated h then IsolationViolation else
          (case canonical (PDict (ok_message v)) of
             Inl _ \<Rightarrow> Returned PNone
           | Inr b \<Rightarrow> Returned (if length b \<le> MAX_CHILD_MESSAGE_BYTES then json_norm v else PNone))
      | Inl e \<Rightarrow>
          if e = PyError ''MemoryError'' then ResourceExhausted else
          if base_exception e then IsolationViolation else Raised ''_RemoteWorkerFailed'')"

lemma outcome_simps: "outcome_of (Inl isolation_violation) = IsolationViolation" "outcome_of (Inl resource_exhausted) = ResourceExhausted"
  "outcome_of (Inl remote_worker_failed) = Raised ''_RemoteWorkerFailed''" "outcome_of (Inr v) = Returned v"
  by (simp_all add: outcome_of_def isolation_violation_def resource_exhausted_def remote_worker_failed_def)

lemma answer_decoded:
  assumes "deep_ok deep" "\<And>v. r = Inr v \<Longrightarrow> json_ok v \<and> json_depth v \<le> 15"
  shows "outcome_of (decode_child_message P deep (message_bytes (answer_message r h)) 0) = isolated_outcome r h"
proof (cases r)
  case (Inl e)
  then show ?thesis
    by (auto simp: answer_message_def isolated_outcome_def decode_kind[OF _ assms(1)] child_kinds_def outcome_simps
        sandbox_denied_def base_exception_def)
next
  case (Inr v)
  show ?thesis
  proof (cases "hk_violated h")
    case True
    with Inr show ?thesis by (simp add: answer_message_def isolated_outcome_def decode_kind[OF _ assms(1)] child_kinds_def outcome_simps)
  next
    case False
    then have a: "answer_message r h = ok_message v" using Inr by (simp add: answer_message_def ok_message_def)
    have rej: "decode_child_message P deep (message_bytes (kind_message ''output_rejected'')) 0 = Inr PNone"
      using decode_kind[of "''output_rejected''", OF _ assms(1)] by (simp add: child_kinds_def)
    show ?thesis
    proof (cases "canonical (PDict (ok_message v))")
      case (Inr b)
      then show ?thesis using False \<open>r = Inr v\<close> decode_ok[OF Inr _ _ assms(1)] assms(2) rej
        unfolding a by (subst message_bytes_cases) (simp add: isolated_outcome_def outcome_simps)
    next
      case (Inl e)
      then show ?thesis using False \<open>r = Inr v\<close> rej
        unfolding a by (subst message_bytes_cases) (simp add: isolated_outcome_def outcome_simps)
    qed
  qed
qed

text \<open>A process that runs the child on the request and ends.\<close>

definition honest_child ::
  "platform \<Rightarrow> (pystr \<Rightarrow> bool) \<Rightarrow> (pystr \<Rightarrow> rat option) \<Rightarrow> child_env \<Rightarrow> pystr \<Rightarrow> child_state \<Rightarrow> bytes \<Rightarrow> child_process" where
  "honest_child P deep value env jobdir s data =
     (case child_entry P deep value env jobdir data s of
        (r, s') \<Rightarrow> \<lparr>cp_takes_request = True, cp_reads = [], cp_output = ch_written s',
                    cp_status = Some (case r of Inr code \<Rightarrow> code | Inl _ \<Rightarrow> 1), cp_alive = True\<rparr>)"

section \<open>The job crosses the process boundary and back\<close>

lemma honest_run:
  assumes "child_request w pl limits (Inr ps) = Inr data" "child_entry P deep value env jobdir data s = (Inr 0, s')"
    and "length (ch_written s') \<le> MAX_CHILD_MESSAGE_BYTES"
  shows "fst (run_isolated P deep (honest_child P deep value env jobdir s) w pl limits (Inr ps)) = decode_child_message P deep (ch_written s') 0"
proof -
  define p where "p = honest_child P deep value env jobdir s data"
  have p: "cp_takes_request p" "cp_reads p = []" "cp_output p = ch_written s'" "cp_status p = Some 0"
    by (simp_all add: p_def honest_child_def assms(2))
  have "read_chunks 0 p = (Inr (ch_written s'), p\<lparr>cp_output := []\<rparr>)" using read_chunks_quick[of 0 p] p assms(3) by simp
  then have "read_process p = (Inr (ch_written s', 0), p\<lparr>cp_output := [], cp_alive := False\<rparr>)" by (simp add: read_process_def abind_def p)
  then show ?thesis using p
    by (simp add: run_isolated_def assms(1) p_def[symmetric] afinally_def abind_def alift_def kill_process_def split: prod.splits)
qed

text \<open>C18. A job in a child process comes to exactly what the worker's run in it comes to. Let the request be one
  that JSON keeps, the class importable in a child where the limits, the rules and the filter can be installed,
  and the output nested at most fifteen deep (sixteen with its message). Then the parent's request
  reaches the child as it was, limits and all; when the child comes to the worker's module, its limits are set and
  the Landlock rules and the seccomp filter are in force (\<open>restricted_start\<close>); and
  what the parent hears is the worker's output, or the kind of its failure, with a violation the hook recorded
  reported whenever the worker returns or lets the refusal through. (A worker that swallows the refusal and
  raises something else is reported as failed.)\<close>

theorem isolated_run_exact:
  assumes "request_ok P w pl limits ps" "limits_ok value limits" "deep_ok deep" "child_request w pl limits (Inr ps) = Inr data"
    and "child_ready env jobdir ps limits s" "ch_written s = []" "importable env w t"
    and "wt_run t (norm_message (wc_state w)) (PDict (norm_message pl)) \<lparr>hk_violated = False, hk_bootstrap = False\<rparr> = (r, h)"
    and "\<And>v. r = Inr v \<Longrightarrow> json_ok v \<and> json_depth v \<le> 15"
  shows "outcome_of (fst (run_isolated P deep (honest_child P deep value env jobdir s) w pl limits (Inr ps))) = isolated_outcome r h
     \<and> (\<exists>s'. child_entry P deep value env jobdir data s = (Inr 0, s') \<and> restricted_start env jobdir ps limits s s')"
proof -
  obtain s' where s': "child_entry P deep value env jobdir data s = (Inr 0, s')" "ch_written s' = message_bytes (answer_message r h)"
      "restricted_start env jobdir ps limits s s'"
    using child_answers[OF assms(1-5,7,8)] assms(6) by auto
  have "length (ch_written s') \<le> MAX_CHILD_MESSAGE_BYTES" by (simp add: s'(2) message_bytes_fit)
  from honest_run[OF assms(4) s'(1) this] have "outcome_of (fst (run_isolated P deep (honest_child P deep value env jobdir s) w pl limits (Inr ps))) = isolated_outcome r h"
    using answer_decoded[OF assms(3,9)] by (simp add: s'(2))
  with s'(1,3) show ?thesis by blast
qed

definition sample_class :: worker_class where
  "sample_class = \<lparr>wc_module = lit ''geniusnew.workers'', wc_qualname = lit ''DeterministicSummarizer'', wc_state = [], wc_tool = lit ''summarize''\<rparr>"

definition sample_type :: worker_type where
  "sample_type =
     \<lparr>wt_is_worker = True, wt_tool = lit ''summarize'',
      wt_run = (\<lambda>state pl h. case summarizer_run sample_platform pl of Returned v \<Rightarrow> (Inr v, h) | _ \<Rightarrow> (Inl (PyError ''KeyError''), h))\<rparr>"

definition sample_env :: child_env where
  "sample_env =
     \<lparr>ce_import = (\<lambda>m q h. (Inr sample_type, h)), ce_dict = Inr, ce_landlock = sample_landlock, ce_machine = ''x86_64'',
      ce_prctl = (\<lambda>_. 0), ce_directory = Inr ()\<rparr>"

definition sample_child :: child_state where
  "sample_child =
     \<lparr>ch_rlimits = (\<lambda>_. None), ch_landlock = \<lparr>la_fds = [0, 1, 2], la_no_new_privs = False, la_domains = []\<rparr>,
      ch_seccomp = \<lparr>ss_no_new_privs = False, ss_filters = []\<rparr>, ch_hook = \<lparr>hk_violated = False, hk_bootstrap = False\<rparr>,
      ch_ran = None, ch_written = []\<rparr>"

definition sample_payload :: message where "sample_payload = [(lit ''text'', PStr (lit ''one two''))]"
definition sample_value :: "pystr \<Rightarrow> rat option" where "sample_value r = (if r = lit ''2.0'' then Some 2 else None)"

lemma sample_request: "\<exists>data. child_request sample_class sample_payload default_limits (Inr [lit ''/usr'']) = Inr data"
  by (simp add: child_request_def worker_spec_def sample_class_def sample_payload_def default_limits_def limits_dict_def canonical_def
      catch_contract_def contains_def starts_with_def member_text_def json_string_def esc_char_def lit_def finite_repr_def
      int_text_def nat_digits.simps max_str_digits_def MAX_CHILD_REQUEST_BYTES_def Let_def)

lemma sample_ready:
  "request_ok sample_platform sample_class sample_payload default_limits [lit ''/usr'']"
  "limits_ok sample_value default_limits" "child_ready sample_env (lit ''/tmp/job'') [lit ''/usr''] default_limits sample_child"
  "importable sample_env sample_class sample_type"
proof -
  show "request_ok sample_platform sample_class sample_payload default_limits [lit ''/usr'']"
    by (simp add: request_ok_def sample_class_def sample_payload_def default_limits_def float_kept_def sample_platform_def
        text_ok_def lit_def is_high_surrogate_def is_low_surrogate_def is_absolute_def request_message_def spec_message_def limits_dict_def
        decimal_text_def) (rule exI[of _ "[50]"], rule exI[of _ "[48]"], simp add: is_digit_def)
  show "limits_ok sample_value default_limits" by (simp add: limits_ok_def default_limits_def wall_value_def sample_value_def shortest_wall_def)
  show "importable sample_env sample_class sample_type" by (simp add: importable_def sample_env_def sample_class_def sample_type_def)
  have f: "fst (install_process_filter ''x86_64'' (\<lambda>_. 0) s) = Inr ()" for s
    by (simp add: install_process_filter_def process_filter_def FILTER_ARCHES_def Let_def)
  have l: "fst (install_filesystem_rules sample_landlock (lit ''/tmp/job'') [lit ''/usr''] s) = Inr ()" for s
    by (simp add: install_filesystem_rules_def sample_landlock_def landlock_abi_def LANDLOCK_MIN_ABI_def
        LANDLOCK_SCOPE_ABI_def Let_def add_rules.simps keep_fd_def close_fd_def abind_def afinally_def areturn_def araise_def)
  show "child_ready sample_env (lit ''/tmp/job'') [lit ''/usr''] default_limits sample_child"
    using f l by (simp add: child_ready_def sample_env_def sample_child_def exceeds_def)
qed

lemma sample_norm: "norm_message (wc_state sample_class) = []" "norm_message sample_payload = sample_payload"
  by (simp_all add: norm_message_def sample_class_def sample_payload_def)

definition sample_text :: pystr where
  "sample_text = lit ''2 words; sha256:'' @ take 16 (sha256_hex sample_platform (ascii_bytes (lit ''one two'')))"

lemma sample_text_plain: "sample_text = lit ''2 words; sha256:6f6e652074776f00''"
proof -
  have r: "replicate 25 (0 :: 8 word) = 0 # replicate 24 0" using replicate_Suc[of 24 "0 :: 8 word"] by simp
  have "take 2 (bytes_hex (replicate 25 0)) = [48, 48]" unfolding r by (simp add: hex_digit_def numeral_2_eq_2)
  then show ?thesis by (simp add: sample_text_def sha256_hex_def sample_platform_def lit_def ascii_bytes_def hex_digit_def)
qed

lemma sample_summary:
  "summarizer_run sample_platform (PDict sample_payload) = Returned (PDict [(lit ''text'', PStr sample_text)])"
proof -
  have "utf8_encode (lit ''one two'') = Inr (ascii_bytes (lit ''one two''))" by (rule utf8_encode_ascii) simp
  moreover have "length (split_words (lit ''one two'') []) = 2" by (simp add: lit_def is_space_def)
  ultimately show ?thesis
    by (simp add: summarizer_run_def sample_payload_def sample_text_def nat_digits.simps lit_def)
qed

lemma sample_outcome:
  "isolated_outcome (Inr (PDict [(lit ''text'', PStr sample_text)])) \<lparr>hk_violated = False, hk_bootstrap = False\<rparr>
     = Returned (PDict [(lit ''text'', PStr sample_text)])"
  by (simp add: isolated_outcome_def ok_message_def canonical_def member_text_def json_string_def esc_char_def sample_text_plain
      lit_def MAX_CHILD_MESSAGE_BYTES_def)

theorem isolated_run_exact_witness:
  "outcome_of (fst (run_isolated sample_platform (\<lambda>_. False) (honest_child sample_platform (\<lambda>_. False) sample_value sample_env (lit ''/tmp/job'') sample_child)
      sample_class sample_payload default_limits (Inr [lit ''/usr'']))) = summarizer_run sample_platform (PDict sample_payload)"
proof -
  obtain data where d: "child_request sample_class sample_payload default_limits (Inr [lit ''/usr'']) = Inr data" using sample_request by blast
  have deep: "deep_ok (\<lambda>_. False)" by (simp add: deep_ok_def)
  have w: "ch_written sample_child = []" by (simp add: sample_child_def)
  have run: "wt_run sample_type (norm_message (wc_state sample_class)) (PDict (norm_message sample_payload)) \<lparr>hk_violated = False, hk_bootstrap = False\<rparr>
      = (Inr (PDict [(lit ''text'', PStr sample_text)]), \<lparr>hk_violated = False, hk_bootstrap = False\<rparr>)"
    unfolding sample_norm by (simp add: sample_type_def sample_summary)
  have ok: "json_ok v \<and> json_depth v \<le> 15" if "Inr (PDict [(lit ''text'', PStr sample_text)]) = (Inr v :: pyval result)" for v
    using that by (auto simp: sample_text_plain text_ok_def lit_def is_high_surrogate_def is_low_surrogate_def)
  show ?thesis
    using isolated_run_exact[OF sample_ready(1,2) deep d sample_ready(3) w sample_ready(4) run ok] by (simp only: sample_outcome sample_summary)
qed

theorem child_contained_witness:
  "\<exists>r p. run_isolated sample_platform (\<lambda>_. False) (honest_child sample_platform (\<lambda>_. False) sample_value sample_env (lit ''/tmp/job'') sample_child)
      sample_class sample_payload default_limits (Inr [lit ''/usr'']) = (r, Some p) \<and> \<not> cp_alive p"
proof -
  let ?spawn = "honest_child sample_platform (\<lambda>_. False) sample_value sample_env (lit ''/tmp/job'') sample_child"
  obtain data where d: "child_request sample_class sample_payload default_limits (Inr [lit ''/usr'']) = Inr data" using sample_request by blast
  obtain r started where run: "run_isolated sample_platform (\<lambda>_. False) ?spawn sample_class sample_payload default_limits (Inr [lit ''/usr'']) = (r, started)"
    by fastforce
  have "started \<noteq> None" using run d by (auto simp: run_isolated_def split: prod.splits)
  with child_contained[OF run] run show ?thesis by auto
qed

end
