(* ===== verification/WorkerFrames.thy ===== *)
theory WorkerFrames
  imports Isolation
begin

text \<open>
  The transport of \<open>geniusnew/worker_service.py\<close>: the fixed profile, what the kernel says about the sender of
  every fragment, and the frames of both ends of the socket.

  The peer is what it sends (\<open>io_data\<close>, up to its end) and a script of what each call meets: a deadline that
  passed, an error, or a number of bytes with their control messages, flags and the kernel's view of the
  descriptors at that moment (\<open>kernel_view\<close>). A call without a script entry waits until its deadline on the
  Core's side, and meets no delay on the service's side. \<open>rc_fds\<close> is the descriptor table: \<open>recvmsg\<close> installs
  what the control messages carry, and \<open>os.close\<close> of a descriptor that is not open raises.
\<close>

section \<open>The profile\<close>

record worker_service_profile =
  wp_core_uid :: int
  wp_worker_uid :: int
  wp_worker_gid :: int
  wp_socket_gid :: int
  wp_socket_path :: pystr
  wp_lease_path :: pystr
  wp_unit_prefix :: pystr
  wp_runtime_root :: pystr
  wp_phase_seconds :: pyval
  wp_total_seconds :: pyval

text \<open>\<open>os.path.normpath\<close> on POSIX: two leading slashes stay, three do not.\<close>

fun norm_parts :: "bool \<Rightarrow> pystr list \<Rightarrow> pystr list \<Rightarrow> pystr list" where
  "norm_parts rooted done [] = rev done"
| "norm_parts rooted done (p # ps) =
     (if p = [] \<or> p = [46] then norm_parts rooted done ps else
      if p \<noteq> [46, 46] \<or> (\<not> rooted \<and> done = []) \<or> (done \<noteq> [] \<and> hd done = [46, 46]) then norm_parts rooted (p # done) ps
      else norm_parts rooted (tl done) ps)"

definition normpath :: "pystr \<Rightarrow> pystr" where
  "normpath p =
     (let slashes = (if \<not> is_absolute p then 0 else if take 2 p = [47, 47] \<and> take 3 p \<noteq> [47, 47, 47] then 2 else 1);
          text = replicate slashes 47 @ join_sep 47 (norm_parts (slashes \<noteq> 0) [] (split_sep 47 p))
      in if text = [] then [46] else text)"

text \<open>The exact value of an int or a float; \<open>None\<close> for any other type, a NaN or an infinity.\<close>

definition num_value :: "(pystr \<Rightarrow> rat option) \<Rightarrow> pyval \<Rightarrow> rat option" where
  "num_value value v = (case v of PInt i \<Rightarrow> Some (of_int i) | PFloat r \<Rightarrow> value r | _ \<Rightarrow> None)"

definition shortest_phase :: rat where "shortest_phase = 3602879701896397 / 36028797018963968"

definition run_path :: "pystr \<Rightarrow> bool" where
  "run_path p \<longleftrightarrow> starts_with (lit ''/run/'') p \<and> normpath p = p"

definition profile_init :: "(pystr \<Rightarrow> rat option) \<Rightarrow> worker_service_profile \<Rightarrow> worker_service_profile result" where
  "profile_init value p =
     (if list_ex (\<lambda>i. i \<le> 0) [wp_core_uid p, wp_worker_uid p, wp_worker_gid p, wp_socket_gid p]
      then fail ''worker service identities must be positive numeric IDs'' else
      if wp_core_uid p = wp_worker_uid p then fail ''Core and worker service must have different UIDs'' else
      if wp_worker_gid p = wp_socket_gid p then fail ''worker must not be a member of the Core-only socket group'' else
      if \<not> list_all run_path [wp_socket_path p, wp_lease_path p, wp_runtime_root p]
      then fail ''worker service paths must be canonical paths under /run'' else
      if wp_socket_path p = wp_lease_path p then fail ''worker socket and lease must be different files'' else
      if wp_unit_prefix p \<noteq> lit ''geniusnew-worker@'' then fail ''worker service unit prefix is invalid'' else
      if wp_runtime_root p \<noteq> lit ''/run/geniusnew-worker/jobs'' then fail ''worker service runtime root is invalid'' else
      if (case num_value value (wp_phase_seconds p) of None \<Rightarrow> True | Some x \<Rightarrow> \<not> (shortest_phase \<le> x \<and> x \<le> 30))
      then fail ''worker service phase deadline is invalid'' else
      if (case (num_value value (wp_phase_seconds p), num_value value (wp_total_seconds p)) of
            (Some x, Some y) \<Rightarrow> \<not> (x < y \<and> y \<le> 120) | _ \<Rightarrow> True)
      then fail ''worker service total deadline is invalid'' else Inr p)"

section \<open>What the kernel says of a process\<close>

record kernel_view =
  kv_fdinfo :: "int \<Rightarrow> pystr option"
  kv_poll :: "int \<Rightarrow> nat list option"

definition is_line_break :: "nat \<Rightarrow> bool" where
  "is_line_break c \<longleftrightarrow> c \<in> {10, 11, 12, 13, 28, 29, 30, 0x85, 0x2028, 0x2029}"

text \<open>\<open>str.splitlines()\<close>, with the line read so far in reverse.\<close>

fun splitlines :: "pystr \<Rightarrow> pystr \<Rightarrow> pystr list" where
  "splitlines line [] = (if line = [] then [] else [rev line])"
| "splitlines line (c # cs) =
     (if c = 13 \<and> cs \<noteq> [] \<and> hd cs = 10 then rev line # splitlines [] (tl cs) else
      if is_line_break c then rev line # splitlines [] cs else splitlines (c # line) cs)"

definition strip_text :: "pystr \<Rightarrow> pystr" where
  "strip_text s = rev (dropWhile is_space (rev (dropWhile is_space s)))"

text \<open>\<open>line.split(":", 1)[1]\<close> of a line that has a colon.\<close>

definition after_colon :: "pystr \<Rightarrow> pystr" where
  "after_colon line = tl (dropWhile (\<lambda>c. c \<noteq> 58) line)"

definition pidfd_pid :: "kernel_view \<Rightarrow> int \<Rightarrow> int result" where
  "pidfd_pid view fd =
     (case kv_fdinfo view fd of
        None \<Rightarrow> fail ''worker pidfd cannot be inspected''
      | Some text \<Rightarrow>
          (case map (\<lambda>line. strip_text (after_colon line)) (filter (starts_with (lit ''Pid:'')) (splitlines [] text)) of
             [pid] \<Rightarrow>
               if pid = [] \<or> \<not> list_all is_digit pid then fail ''worker pidfd has no unambiguous PID'' else
               if length pid > max_str_digits then value_error else Inr (int (digits_value 0 pid))
           | _ \<Rightarrow> fail ''worker pidfd has no unambiguous PID''))"

definition POLLIN :: nat where "POLLIN = 1"
definition POLLERR :: nat where "POLLERR = 8"
definition POLLHUP :: nat where "POLLHUP = 16"
definition POLLNVAL :: nat where "POLLNVAL = 32"

definition pidfd_exited :: "kernel_view \<Rightarrow> int \<Rightarrow> bool result" where
  "pidfd_exited view fd =
     (case kv_poll view fd of
        None \<Rightarrow> fail ''worker pidfd state is unreadable''
      | Some masks \<Rightarrow>
          if list_ex (\<lambda>m. m AND (POLLERR OR POLLNVAL) \<noteq> 0) masks then fail ''worker pidfd state is unreadable'' else
          if list_ex (\<lambda>m. m AND POLLHUP \<noteq> 0 \<and> m AND POLLIN = 0) masks then fail ''worker pidfd exit state is ambiguous'' else
          Inr (list_ex (\<lambda>m. m AND POLLIN \<noteq> 0) masks))"

section \<open>The sender of a fragment\<close>

record frame_identity =
  fi_expected_uid :: int
  fi_expected_gid :: int
  fi_pid :: "int option"
  fi_pidfd :: "int option"

record receiver =
  rc_identity :: frame_identity
  rc_fds :: "int list"

type_synonym control = "int \<times> int \<times> bytes"

text \<open>\<open>struct.unpack("i", value)\<close> and \<open>"3i"\<close>.\<close>

definition unpack_int :: "bytes \<Rightarrow> int" where
  "unpack_int bs = sint (of_nat (from_little_endian bs) :: 32 word)"

definition unpack_creds :: "bytes \<Rightarrow> int \<times> int \<times> int" where
  "unpack_creds bs = (unpack_int (take 4 bs), unpack_int (take 4 (drop 4 bs)), unpack_int (take 4 (drop 8 bs)))"

text \<open>The complete descriptors of an \<open>SCM_RIGHTS\<close> message.\<close>

fun rights_fds :: "bytes \<Rightarrow> int list" where
  "rights_fds (a # b # c # d # bs) = unpack_int [a, b, c, d] # rights_fds bs"
| "rights_fds _ = []"

definition SOL_SOCKET :: int where "SOL_SOCKET = 1"
definition SCM_RIGHTS :: int where "SCM_RIGHTS = 1"
definition SCM_CREDENTIALS :: int where "SCM_CREDENTIALS = 2"
definition SCM_PIDFD :: int where "SCM_PIDFD = 4"

record sorted_controls =
  sc_credentials :: "bytes list"
  sc_pidfds :: "bytes list"
  sc_owned :: "int list"
  sc_unexpected :: bool

definition sort_control :: "control \<Rightarrow> sorted_controls \<Rightarrow> sorted_controls" where
  "sort_control c s =
     (case c of (level, kind, value) \<Rightarrow>
      if level = SOL_SOCKET \<and> kind = SCM_RIGHTS
      then s\<lparr>sc_unexpected := True, sc_owned := sc_owned s @ filter (\<lambda>fd. 0 \<le> fd) (rights_fds value)\<rparr> else
      if level = SOL_SOCKET \<and> kind = SCM_CREDENTIALS then s\<lparr>sc_credentials := sc_credentials s @ [value]\<rparr> else
      if level = SOL_SOCKET \<and> kind = SCM_PIDFD
      then s\<lparr>sc_pidfds := sc_pidfds s @ [value],
             sc_owned := sc_owned s @ (if length value = 4 \<and> 0 \<le> unpack_int value then [unpack_int value] else [])\<rparr>
      else s\<lparr>sc_unexpected := True\<rparr>)"

definition sort_controls :: "control list \<Rightarrow> sorted_controls" where
  "sort_controls controls =
     fold sort_control controls \<lparr>sc_credentials = [], sc_pidfds = [], sc_owned = [], sc_unexpected = False\<rparr>"

text \<open>The body of \<open>accept\<close>: its outcome, and the descriptor it keeps as the sender's.\<close>

definition eof_credentials :: "frame_identity \<Rightarrow> bytes list \<Rightarrow> bool" where
  "eof_credentials i credentials =
     (case credentials of
        [] \<Rightarrow> True
      | [c] \<Rightarrow> length c = 12
          \<and> (unpack_creds c = (0, 0, 0)
             \<or> (\<exists>pid \<in> set_option (fi_pid i). unpack_creds c = (pid, fi_expected_uid i, fi_expected_gid i)))
      | _ \<Rightarrow> False)"

definition accept_checks :: "kernel_view \<Rightarrow> frame_identity \<Rightarrow> bytes \<Rightarrow> sorted_controls \<Rightarrow> int \<Rightarrow> (int \<times> int) option result" where
  "accept_checks view i data s flags =
     (if data = [] then
        if fi_pid i = None \<or> flags \<noteq> 0 \<or> sc_unexpected s \<or> sc_pidfds s \<noteq> [] \<or> \<not> eof_credentials i (sc_credentials s)
        then fail ''worker EOF has invalid controls'' else Inr None
      else if flags \<noteq> 0 \<or> sc_unexpected s then fail ''worker control message is truncated or forbidden'' else
      case sc_credentials s of
        [credential] \<Rightarrow>
          if length credential \<noteq> 12 then fail ''worker credentials are missing or ambiguous'' else
          (case unpack_creds credential of (pid, uid, gid) \<Rightarrow>
           if pid \<le> 0 \<or> uid \<noteq> fi_expected_uid i \<or> gid \<noteq> fi_expected_gid i \<or> (fi_pid i \<noteq> None \<and> fi_pid i \<noteq> Some pid)
           then fail ''worker credentials changed or do not match the fixed UID/GID'' else
           case sc_pidfds s of
             [value] \<Rightarrow>
               if length value \<noteq> 4 then fail ''worker pidfd is missing or ambiguous'' else
               let received = unpack_int value in
               (case fi_pidfd i of
                  None \<Rightarrow>
                    if received < 0 then fail ''first worker fragment has no live pidfd'' else
                    rbind (pidfd_pid view received) (\<lambda>named.
                    if named \<noteq> pid then fail ''worker pidfd does not identify a live sender'' else
                    rbind (pidfd_exited view received) (\<lambda>exited.
                    if exited then fail ''worker pidfd does not identify a live sender'' else Inr (Some (pid, received))))
                | Some bound \<Rightarrow>
                    if received < 0 then
                      if received < -4095 then fail ''worker pidfd sentinel arrived before sender exit'' else
                      rbind (pidfd_exited view bound) (\<lambda>exited.
                      if \<not> exited then fail ''worker pidfd sentinel arrived before sender exit'' else Inr None)
                    else
                      rbind (pidfd_pid view received) (\<lambda>named.
                      if Some named \<noteq> fi_pid i then fail ''worker pidfd changed across fragments'' else Inr None))
           | _ \<Rightarrow> fail ''worker pidfd is missing or ambiguous'')
      | _ \<Rightarrow> fail ''worker credentials are missing or ambiguous'')"

fun close_all :: "int list \<Rightarrow> (int list, unit) action" where
  "close_all [] fds = (Inr (), fds)"
| "close_all (d # ds) fds = (if d \<in> set fds then close_all ds (remove1 d fds) else (Inl (PyError ''OSError''), fds))"

definition accept :: "kernel_view \<Rightarrow> bytes \<Rightarrow> control list \<Rightarrow> int \<Rightarrow> (receiver, unit) action" where
  "accept view data controls flags r =
     (let s = sort_controls controls;
          checked = accept_checks view (rc_identity r) data s flags;
          bound = (case checked of Inr b \<Rightarrow> b | Inl _ \<Rightarrow> None);
          owned = (case bound of None \<Rightarrow> sc_owned s | Some (pid, fd) \<Rightarrow> remove1 fd (sc_owned s));
          i = (case bound of None \<Rightarrow> rc_identity r
                | Some (pid, fd) \<Rightarrow> (rc_identity r)\<lparr>fi_pid := Some pid, fi_pidfd := Some fd\<rparr>)
      in case close_all owned (rc_fds r) of
           (Inl e, fds) \<Rightarrow> (Inl e, \<lparr>rc_identity = i, rc_fds = fds\<rparr>)
         | (Inr _, fds) \<Rightarrow> (rbind checked (\<lambda>_. Inr ()), \<lparr>rc_identity = i, rc_fds = fds\<rparr>))"

definition identity_close :: "(receiver, unit) action" where
  "identity_close r =
     (case fi_pidfd (rc_identity r) of
        None \<Rightarrow> (Inr (), r)
      | Some fd \<Rightarrow>
          (case close_all [fd] (rc_fds r) of
             (Inl e, fds) \<Rightarrow> (Inl e, r\<lparr>rc_fds := fds\<rparr>)
           | (Inr _, fds) \<Rightarrow> (Inr (), \<lparr>rc_identity = (rc_identity r)\<lparr>fi_pidfd := None\<rparr>, rc_fds = fds\<rparr>)))"

section \<open>Frames of the Core\<close>

datatype recv_event = RecvLate | RecvFails | Fragment nat "control list" int kernel_view

datatype send_event = SendLate | SendBlocks | SendFails | Sends nat

record core_io =
  io_data :: bytes
  io_recvs :: "recv_event list"
  io_sends :: "send_event list"
  io_sent :: bytes
  io_receiver :: receiver

definition worker_header :: "nat \<Rightarrow> bytes" where "worker_header n = big_endian4 n"

text \<open>One \<open>recvmsg\<close> of at most \<open>n\<close> bytes behind its \<open>select\<close>: the descriptors it carries are open.\<close>

definition recv_fragment :: "nat \<Rightarrow> string \<Rightarrow> string \<Rightarrow> (core_io, bytes) action" where
  "recv_fragment n late broken io =
     (case io_recvs io of
        [] \<Rightarrow> (fail late, io)
      | RecvLate # evs \<Rightarrow> (fail late, io\<lparr>io_recvs := evs\<rparr>)
      | RecvFails # evs \<Rightarrow> (fail broken, io\<lparr>io_recvs := evs\<rparr>)
      | Fragment k controls flags view # evs \<Rightarrow>
          let data = take (min n (Suc k)) (io_data io);
              r = (io_receiver io)\<lparr>rc_fds := sc_owned (sort_controls controls) @ rc_fds (io_receiver io)\<rparr>
          in case accept view data controls flags r of
               (res, r') \<Rightarrow> (rbind res (\<lambda>_. Inr data),
                             io\<lparr>io_recvs := evs, io_data := drop (length data) (io_data io), io_receiver := r'\<rparr>))"

lemma recv_fragment_pops: "recv_fragment n late broken io = (Inr data, io') \<Longrightarrow> length (io_recvs io') < length (io_recvs io)"
  by (auto simp: recv_fragment_def Let_def split: list.splits recv_event.splits prod.splits)

function recv_exact :: "nat \<Rightarrow> (core_io, bytes) action" where
  "recv_exact n io =
     (if n = 0 then (Inr [], io) else
      case recv_fragment n ''worker frame deadline exceeded'' ''worker frame cannot be received'' io of
        (Inl e, io1) \<Rightarrow> (Inl e, io1)
      | (Inr data, io1) \<Rightarrow>
          if data = [] then (fail ''worker frame was truncated'', io1) else
          (case recv_exact (n - length data) io1 of
             (Inl e, io2) \<Rightarrow> (Inl e, io2)
           | (Inr rest, io2) \<Rightarrow> (Inr (data @ rest), io2)))"
  by pat_completeness auto
termination by (relation "measure (\<lambda>(n, io). length (io_recvs io))") (auto dest: recv_fragment_pops[OF sym])

declare recv_exact.simps [simp del]

definition canonical_object :: "platform \<Rightarrow> (pystr \<Rightarrow> bool) \<Rightarrow> string \<Rightarrow> string \<Rightarrow> bytes \<Rightarrow> message result" where
  "canonical_object P deep no_json no_canonical raw =
     (case loads_ascii P deep raw of
        Inl e \<Rightarrow> if unreadable e then fail no_json else Inl e
      | Inr (PDict d) \<Rightarrow> rbind (canonical (PDict d)) (\<lambda>again. if again \<noteq> raw then fail no_canonical else Inr d)
      | Inr _ \<Rightarrow> fail no_canonical)"

definition worker_read_frame :: "platform \<Rightarrow> (pystr \<Rightarrow> bool) \<Rightarrow> nat \<Rightarrow> (core_io, message) action" where
  "worker_read_frame P deep limit =
     abind (recv_exact 4) (\<lambda>header.
     let n = from_big_endian header in
     if \<not> (0 < n \<and> n \<le> limit) then araise (ContractError ''worker frame length is invalid'') else
     abind (recv_exact n) (\<lambda>raw.
     alift (canonical_object P deep ''worker frame is not ASCII JSON'' ''worker frame is not canonical JSON'' raw)))"

text \<open>The loop over \<open>send\<close>: what left, how it ended, and the rest of the script.\<close>

fun send_loop :: "string \<Rightarrow> string \<Rightarrow> string \<Rightarrow> send_event list \<Rightarrow> bytes \<Rightarrow> bytes \<times> unit result \<times> send_event list" where
  "send_loop late broken stuck evs [] = ([], Inr (), evs)"
| "send_loop late broken stuck [] (b # bs) = (b # bs, Inr (), [])"
| "send_loop late broken stuck (SendLate # evs) (b # bs) = ([], fail late, evs)"
| "send_loop late broken stuck (SendBlocks # evs) (b # bs) = send_loop late broken stuck evs (b # bs)"
| "send_loop late broken stuck (SendFails # evs) (b # bs) = ([], fail broken, evs)"
| "send_loop late broken stuck (Sends n # evs) (b # bs) =
     (if n = 0 then ([], fail stuck, evs) else
      case send_loop late broken stuck evs (drop n (b # bs)) of (sent, r, evs') \<Rightarrow> (take n (b # bs) @ sent, r, evs'))"

definition worker_write_frame :: "message \<Rightarrow> nat \<Rightarrow> (core_io, bytes) action" where
  "worker_write_frame value limit =
     abind (alift (canonical (PDict value))) (\<lambda>raw.
     if \<not> (0 < length raw \<and> length raw \<le> limit) then araise (ContractError ''worker outbound frame length is invalid'') else
     (\<lambda>io. case send_loop ''worker outbound frame deadline exceeded'' ''worker outbound frame cannot be sent''
                  ''worker outbound frame was not sent'' (io_sends io) (worker_header (length raw) @ raw) of
             (sent, r, evs) \<Rightarrow> (rbind r (\<lambda>_. Inr raw), io\<lparr>io_sends := evs, io_sent := io_sent io @ sent\<rparr>)))"

definition expect_eof :: "(core_io, unit) action" where
  "expect_eof =
     abind (recv_fragment 1 ''worker EOF deadline exceeded'' ''worker EOF cannot be received'') (\<lambda>data.
     if data \<noteq> [] then araise (ContractError ''worker sent bytes after its result'') else areturn ())"

section \<open>Frames of the service\<close>

datatype plain_event = ReadLate | ReadBlocks | ReadBroken | Reads nat

record plain_io =
  pl_data :: bytes
  pl_reads :: "plain_event list"
  pl_sends :: "send_event list"
  pl_sent :: bytes

definition plain_next :: "plain_io \<Rightarrow> plain_event" where
  "plain_next io = (case pl_reads io of [] \<Rightarrow> Reads (length (pl_data io)) | e # _ \<Rightarrow> e)"

text \<open>A read gives at least one byte while the peer has any left to give.\<close>

function plain_exact :: "nat \<Rightarrow> (plain_io, bytes) action" where
  "plain_exact n io =
     (if n = 0 then (Inr [], io) else
      let io1 = io\<lparr>pl_reads := tl (pl_reads io)\<rparr> in
      case plain_next io of
        ReadLate \<Rightarrow> (fail ''worker service input deadline exceeded'', io1)
      | ReadBroken \<Rightarrow> (fail ''worker service input cannot be read'', io1)
      | ReadBlocks \<Rightarrow> plain_exact n io1
      | Reads k \<Rightarrow>
          let data = take (min n (Suc k)) (pl_data io) in
          if data = [] then (fail ''worker service input was truncated'', io1) else
          (case plain_exact (n - length data) (io1\<lparr>pl_data := drop (length data) (pl_data io)\<rparr>) of
             (Inl e, io2) \<Rightarrow> (Inl e, io2)
           | (Inr rest, io2) \<Rightarrow> (Inr (data @ rest), io2)))"
  by pat_completeness auto
termination
  by (relation "measure (\<lambda>(n, io). length (pl_reads io) + length (pl_data io))")
    (auto simp: plain_next_def split: list.splits)

declare plain_exact.simps [simp del]

definition plain_frame :: "platform \<Rightarrow> (pystr \<Rightarrow> bool) \<Rightarrow> nat \<Rightarrow> (plain_io, message) action" where
  "plain_frame P deep limit =
     abind (plain_exact 4) (\<lambda>header.
     let n = from_big_endian header in
     if \<not> (0 < n \<and> n \<le> limit) then araise (ContractError ''worker service input length is invalid'') else
     abind (plain_exact n) (\<lambda>raw.
     alift (canonical_object P deep ''worker service input is not ASCII JSON'' ''worker service input is not canonical JSON'' raw)))"

definition plain_expect_eof :: "(plain_io, unit) action" where
  "plain_expect_eof io =
     (let io1 = io\<lparr>pl_reads := tl (pl_reads io)\<rparr> in
      case plain_next io of
        ReadLate \<Rightarrow> (fail ''worker service request end deadline exceeded'', io1)
      | ReadBroken \<Rightarrow> (fail ''worker service request end cannot be read'', io1)
      | ReadBlocks \<Rightarrow> (fail ''worker service request end is ambiguous'', io1)
      | Reads k \<Rightarrow>
          if pl_data io \<noteq> [] then (fail ''worker service received bytes after its request'', io1\<lparr>pl_data := tl (pl_data io)\<rparr>)
          else (Inr (), io1))"

definition PAYLOAD_LIMIT :: nat where "PAYLOAD_LIMIT = 32 * 1024"
definition HELLO_LIMIT :: nat where "HELLO_LIMIT = 256"

definition plain_write :: "message \<Rightarrow> (plain_io, unit) action" where
  "plain_write value =
     abind (alift (canonical (PDict value))) (\<lambda>data.
     if \<not> (0 < length data \<and> length data \<le> PAYLOAD_LIMIT) then araise (ContractError ''worker service output length is invalid'') else
     (\<lambda>io. case send_loop ''worker service output deadline exceeded'' ''worker service output cannot be sent''
                  ''worker service output could not be sent'' (pl_sends io) (worker_header (length data) @ data) of
             (sent, r, evs) \<Rightarrow> (r, io\<lparr>pl_sends := evs, pl_sent := pl_sent io @ sent\<rparr>)))"

section \<open>Every received descriptor is closed or kept\<close>

lemma close_all_ok: "mset ds \<subseteq># mset fds \<Longrightarrow> \<exists>fds'. close_all ds fds = (Inr (), fds') \<and> mset fds' = mset fds - mset ds"
proof (induction ds arbitrary: fds)
  case (Cons d ds)
  then have d: "d \<in> set fds" by (metis mset_subset_eqD set_mset_mset list.set_intros(1))
  from Cons.prems have "mset ds \<subseteq># mset (remove1 d fds)" by (simp add: insert_subset_eq_iff)
  from Cons.IH[OF this] d show ?case by simp
qed simp

definition pidfds_owned :: "sorted_controls \<Rightarrow> bool" where
  "pidfds_owned s \<longleftrightarrow> (\<forall>v \<in> set (sc_pidfds s). length v = 4 \<and> 0 \<le> unpack_int v \<longrightarrow> unpack_int v \<in> set (sc_owned s))"

lemma sort_control_owned: "pidfds_owned s \<Longrightarrow> pidfds_owned (sort_control c s)"
  by (auto simp: pidfds_owned_def sort_control_def split: prod.splits)

lemma sort_controls_owned: "pidfds_owned (sort_controls controls)"
proof -
  have "pidfds_owned s \<Longrightarrow> pidfds_owned (fold sort_control controls s)" for s
    by (induction controls arbitrary: s) (auto intro: sort_control_owned)
  then show ?thesis by (auto simp: sort_controls_def pidfds_owned_def)
qed

text \<open>Who the kernel names as the sender of a fragment.\<close>

definition sender :: "control list \<Rightarrow> (int \<times> int \<times> int) option" where
  "sender controls =
     (case sc_credentials (sort_controls controls) of [c] \<Rightarrow> if length c = 12 then Some (unpack_creds c) else None | _ \<Rightarrow> None)"

lemma accept_checks_first:
  assumes "accept_checks view i data s flags = Inr (Some (pid, fd))" "pidfds_owned s"
  shows "fi_pidfd i = None \<and> data \<noteq> [] \<and> flags = 0 \<and> 0 < pid \<and> fd \<in> set (sc_owned s) \<and> (fi_pid i = None \<or> fi_pid i = Some pid)
       \<and> (\<exists>c. sc_credentials s = [c] \<and> length c = 12 \<and> unpack_creds c = (pid, fi_expected_uid i, fi_expected_gid i))
       \<and> pidfd_pid view fd = Inr pid \<and> pidfd_exited view fd = Inr False"
  using assms unfolding accept_checks_def pidfds_owned_def
  by (auto simp: Let_def rbind_eq_Inr split: if_splits list.splits prod.splits option.splits)

lemma accept_checks_again:
  assumes "accept_checks view i data s flags = Inr None" "data \<noteq> []"
  shows "fi_pidfd i \<noteq> None \<and> flags = 0
       \<and> (\<exists>c pid. sc_credentials s = [c] \<and> length c = 12 \<and> unpack_creds c = (pid, fi_expected_uid i, fi_expected_gid i)
             \<and> 0 < pid \<and> (fi_pid i = None \<or> fi_pid i = Some pid))"
  using assms unfolding accept_checks_def
  by (auto simp: Let_def rbind_eq_Inr split: if_splits list.splits prod.splits option.splits)

lemma accept_checks_eof: "accept_checks view i [] s flags = Inr b \<Longrightarrow> b = None \<and> fi_pid i \<noteq> None \<and> flags = 0"
  by (auto simp: accept_checks_def split: if_splits)

definition kept_fd :: "frame_identity \<Rightarrow> int multiset" where
  "kept_fd i = (case fi_pidfd i of None \<Rightarrow> {#} | Some fd \<Rightarrow> {#fd#})"

text \<open>The table holds what was open before, and the sender's descriptor once it is known.\<close>

definition balanced :: "int multiset \<Rightarrow> receiver \<Rightarrow> bool" where
  "balanced base r \<longleftrightarrow> mset (rc_fds r) = base + kept_fd (rc_identity r)
     \<and> (fi_pid (rc_identity r) = None \<longleftrightarrow> fi_pidfd (rc_identity r) = None)"

definition bind_identity :: "(int \<times> int) option \<Rightarrow> frame_identity \<Rightarrow> frame_identity" where
  "bind_identity b i = (case b of None \<Rightarrow> i | Some (pid, fd) \<Rightarrow> i\<lparr>fi_pid := Some pid, fi_pidfd := Some fd\<rparr>)"

lemma accept_balanced:
  assumes "balanced base r" "rc_fds r' = sc_owned (sort_controls controls) @ rc_fds r" "rc_identity r' = rc_identity r"
  shows "\<exists>fds b. accept view data controls flags r' =
             (rbind (accept_checks view (rc_identity r) data (sort_controls controls) flags) (\<lambda>_. Inr ()),
              \<lparr>rc_identity = bind_identity b (rc_identity r), rc_fds = fds\<rparr>)
           \<and> balanced base \<lparr>rc_identity = bind_identity b (rc_identity r), rc_fds = fds\<rparr>
           \<and> (b \<noteq> None \<longrightarrow> accept_checks view (rc_identity r) data (sort_controls controls) flags = Inr b)
           \<and> (\<forall>c. accept_checks view (rc_identity r) data (sort_controls controls) flags = Inr c \<longrightarrow> b = c)"
proof -
  let ?s = "sort_controls controls" and ?i = "rc_identity r"
  define checked where "checked = accept_checks view ?i data ?s flags"
  define b where "b = (case checked of Inr b \<Rightarrow> b | Inl _ \<Rightarrow> None)"
  define owned where "owned = (case b of None \<Rightarrow> sc_owned ?s | Some (pid, fd) \<Rightarrow> remove1 fd (sc_owned ?s))"
  have first: "fd \<in> set (sc_owned ?s) \<and> fi_pidfd ?i = None" if "b = Some (pid, fd)" for pid fd
    using that accept_checks_first[OF _ sort_controls_owned, of view ?i data controls flags pid fd]
    by (auto simp: b_def checked_def split: sum.splits)
  have sub: "mset owned \<subseteq># mset (rc_fds r')" by (auto simp: owned_def assms(2) split: option.splits prod.splits)
      (metis diff_subset_eq_self mset_subset_eq_add_left subset_mset.order_trans)
  obtain fds where fds: "close_all owned (rc_fds r') = (Inr (), fds)" "mset fds = mset (rc_fds r') - mset owned"
    using close_all_ok[OF sub] by blast
  have "mset fds = base + kept_fd (bind_identity b ?i)"
  proof (cases b)
    case None
    then show ?thesis using assms(1,2) fds(2) by (simp add: owned_def bind_identity_def balanced_def)
  next
    case (Some pf)
    obtain pid fd where pf: "pf = (pid, fd)" by (cases pf)
    note f = first[OF Some[unfolded pf]]
    have "mset (sc_owned ?s) - mset (remove1 fd (sc_owned ?s)) = {#fd#}" using f by (simp add: multiset_eq_iff)
    moreover have "mset (rc_fds r') - mset owned = mset (rc_fds r) + (mset (sc_owned ?s) - mset (remove1 fd (sc_owned ?s)))"
      by (simp add: assms(2) owned_def Some pf multiset_eq_iff)
    ultimately show ?thesis using f assms(1) fds(2) by (simp add: balanced_def kept_fd_def bind_identity_def Some pf)
  qed
  moreover have "fi_pid (bind_identity b ?i) = None \<longleftrightarrow> fi_pidfd (bind_identity b ?i) = None"
    using assms(1) by (auto simp: bind_identity_def balanced_def split: option.splits)
  moreover have "accept view data controls flags r' = (rbind checked (\<lambda>_. Inr ()), \<lparr>rc_identity = bind_identity b ?i, rc_fds = fds\<rparr>)"
    using fds(1) unfolding accept_def Let_def assms(3) checked_def[symmetric] b_def[symmetric] owned_def[symmetric]
    by (simp add: bind_identity_def)
  ultimately show ?thesis
    by (intro exI[of _ fds] exI[of _ b]) (auto simp: balanced_def checked_def[symmetric] b_def split: sum.splits)
qed

section \<open>Every byte is from one process\<close>

abbreviation identity :: "core_io \<Rightarrow> frame_identity" where "identity io \<equiv> rc_identity (io_receiver io)"

definition extends :: "frame_identity \<Rightarrow> frame_identity \<Rightarrow> bool" where
  "extends i j \<longleftrightarrow> fi_expected_uid j = fi_expected_uid i \<and> fi_expected_gid j = fi_expected_gid i
     \<and> (\<forall>p. fi_pid i = Some p \<longrightarrow> fi_pid j = Some p) \<and> (\<forall>f. fi_pidfd i = Some f \<longrightarrow> fi_pidfd j = Some f)"

text \<open>The fragment came from the process the identity is bound to, of the expected user and group.\<close>

definition spoke :: "frame_identity \<Rightarrow> recv_event \<Rightarrow> bool" where
  "spoke i e =
     (case e of
        Fragment k controls flags view \<Rightarrow>
          flags = 0 \<and> (\<exists>pid. fi_pid i = Some pid \<and> 0 < pid \<and> sender controls = Some (pid, fi_expected_uid i, fi_expected_gid i))
      | _ \<Rightarrow> False)"

lemma extends_refl [simp]: "extends i i"
  by (simp add: extends_def)

lemma extends_trans: "extends i j \<Longrightarrow> extends j k \<Longrightarrow> extends i k"
  by (auto simp: extends_def)

lemma spoke_extends: "spoke i e \<Longrightarrow> extends i j \<Longrightarrow> spoke j e"
  by (auto simp: spoke_def extends_def split: recv_event.splits)

definition heard :: "bytes \<Rightarrow> core_io \<Rightarrow> core_io \<Rightarrow> bool" where
  "heard data io io' \<longleftrightarrow>
     (\<exists>used. io_recvs io = used @ io_recvs io' \<and> list_all (spoke (identity io')) used)
     \<and> io_data io = data @ io_data io' \<and> extends (identity io) (identity io')"

lemma heard_refl [simp]: "heard [] io io"
  by (auto simp: heard_def)

lemma heard_trans: "heard a io io1 \<Longrightarrow> heard b io1 io2 \<Longrightarrow> heard (a @ b) io io2"
proof -
  assume h: "heard a io io1" "heard b io1 io2"
  then obtain u v where u: "io_recvs io = u @ io_recvs io1" "list_all (spoke (identity io1)) u"
    and v: "io_recvs io1 = v @ io_recvs io2" "list_all (spoke (identity io2)) v" by (auto simp: heard_def)
  have "list_all (spoke (identity io2)) u"
    by (rule list.pred_mono_strong[OF u(2)]) (use h(2) spoke_extends in \<open>auto simp: heard_def\<close>)
  with u v h show ?thesis by (auto simp: heard_def intro: extends_trans)
qed

lemma bind_identity_extends: "accept_checks view i data s flags = Inr b \<Longrightarrow> pidfds_owned s \<Longrightarrow> extends i (bind_identity b i)"
  using accept_checks_first[of view i data s flags]
  by (auto simp: bind_identity_def extends_def split: option.splits prod.splits)

lemma recv_fragment_cases:
  assumes "recv_fragment n late broken io = (res, io')" "balanced base (io_receiver io)"
  shows "balanced base (io_receiver io')" "io_sent io' = io_sent io" "io_sends io' = io_sends io"
    "\<And>data. res = Inr data \<Longrightarrow> data \<noteq> [] \<Longrightarrow> heard data io io' \<and> length data \<le> n \<and> fi_pidfd (identity io') \<noteq> None"
    "res = Inr [] \<Longrightarrow> 0 < n \<Longrightarrow> io_data io = [] \<and> fi_pid (identity io) \<noteq> None \<and> identity io' = identity io"
    "\<exists>us. io_recvs io = us @ io_recvs io'"
proof -
  consider "io_recvs io = []" | evs where "io_recvs io = RecvLate # evs" | evs where "io_recvs io = RecvFails # evs"
    | k controls flags view evs where "io_recvs io = Fragment k controls flags view # evs"
    by (metis list.exhaust recv_event.exhaust)
  then have "balanced base (io_receiver io') \<and> io_sent io' = io_sent io \<and> io_sends io' = io_sends io
    \<and> (\<forall>data. res = Inr data \<longrightarrow> data \<noteq> [] \<longrightarrow> heard data io io' \<and> length data \<le> n \<and> fi_pidfd (identity io') \<noteq> None)
    \<and> (res = Inr [] \<longrightarrow> 0 < n \<longrightarrow> io_data io = [] \<and> fi_pid (identity io) \<noteq> None \<and> identity io' = identity io)
    \<and> (\<exists>us. io_recvs io = us @ io_recvs io')"
  proof cases
    case (4 k controls flags view evs)
    define data where "data = take (min n (Suc k)) (io_data io)"
    let ?s = "sort_controls controls"
    define r where "r = (io_receiver io)\<lparr>rc_fds := sc_owned ?s @ rc_fds (io_receiver io)\<rparr>"
    obtain fds b where acc: "accept view data controls flags r = (rbind (accept_checks view (identity io) data ?s flags) (\<lambda>_. Inr ()),
          \<lparr>rc_identity = bind_identity b (identity io), rc_fds = fds\<rparr>)"
      "balanced base \<lparr>rc_identity = bind_identity b (identity io), rc_fds = fds\<rparr>"
      "\<And>c. accept_checks view (identity io) data ?s flags = Inr c \<Longrightarrow> b = c"
      using accept_balanced[OF assms(2), of r controls view data flags] by (auto simp: r_def)
    have io': "io' = io\<lparr>io_recvs := evs, io_data := drop (length data) (io_data io),
        io_receiver := \<lparr>rc_identity = bind_identity b (identity io), rc_fds = fds\<rparr>\<rparr>"
      and res: "res = rbind (accept_checks view (identity io) data ?s flags) (\<lambda>_. Inr data)"
      using assms(1) 4 unfolding recv_fragment_def by (auto simp: Let_def data_def[symmetric] r_def[symmetric] acc(1) rbind_assoc)
    have d: "io_data io = data @ drop (length data) (io_data io)" by (simp add: data_def min_def)
    have h: "heard data io io' \<and> fi_pidfd (identity io') \<noteq> None" if c: "accept_checks view (identity io) data ?s flags = Inr b" and ne: "data \<noteq> []"
    proof -
      have "spoke (bind_identity b (identity io)) (Fragment k controls flags view) \<and> fi_pidfd (bind_identity b (identity io)) \<noteq> None"
      proof (cases b)
        case None
        with c have "accept_checks view (identity io) data ?s flags = Inr None" by simp
        from accept_checks_again[OF this ne] None assms(2) show ?thesis by (auto simp: bind_identity_def spoke_def sender_def balanced_def)
      next
        case (Some pf)
        obtain pid fd where pf: "pf = (pid, fd)" by (cases pf)
        with Some c have "accept_checks view (identity io) data ?s flags = Inr (Some (pid, fd))" by simp
        from accept_checks_first[OF this sort_controls_owned] Some pf show ?thesis by (auto simp: bind_identity_def spoke_def sender_def)
      qed
      moreover have "extends (identity io) (bind_identity b (identity io))" by (rule bind_identity_extends[OF c sort_controls_owned])
      ultimately show ?thesis using 4 d by (auto simp: heard_def io')
    qed
    have e: "io_data io = [] \<and> fi_pid (identity io) \<noteq> None \<and> identity io' = identity io" if z: "res = Inr []" "0 < n"
    proof -
      obtain c where c: "accept_checks view (identity io) data ?s flags = Inr c" "data = []"
        using z(1) unfolding res rbind_eq_Inr by blast
      with z(2) accept_checks_eof[of view "identity io" ?s flags c] acc(3)[OF c(1)] show ?thesis by (auto simp: data_def io' bind_identity_def)
    qed
    have l: "length data \<le> n" by (simp add: data_def)
    show ?thesis
    proof (intro conjI allI impI)
      fix x assume x: "res = Inr x" "x \<noteq> []"
      obtain c where c: "accept_checks view (identity io) data ?s flags = Inr c" "x = data"
        using x(1) unfolding res rbind_eq_Inr by blast
      with acc(3)[OF c(1)] h x(2) l show "heard x io io'" "length x \<le> n" "fi_pidfd (identity io') \<noteq> None" by simp_all
    next
      show "balanced base (io_receiver io')" using acc(2) by (simp add: io')
    next
      show "\<exists>us. io_recvs io = us @ io_recvs io'" using 4 by (simp add: io')
    qed (use e in \<open>simp_all add: io'\<close>)
  qed (use assms in \<open>auto simp: recv_fragment_def\<close>)
  then show "balanced base (io_receiver io')" "io_sent io' = io_sent io" "io_sends io' = io_sends io"
    "\<And>data. res = Inr data \<Longrightarrow> data \<noteq> [] \<Longrightarrow> heard data io io' \<and> length data \<le> n \<and> fi_pidfd (identity io') \<noteq> None"
    "res = Inr [] \<Longrightarrow> 0 < n \<Longrightarrow> io_data io = [] \<and> fi_pid (identity io) \<noteq> None \<and> identity io' = identity io"
    "\<exists>us. io_recvs io = us @ io_recvs io'" by blast+
qed

lemma recv_exact_cases:
  "recv_exact n io = (res, io') \<Longrightarrow> balanced base (io_receiver io) \<Longrightarrow>
     balanced base (io_receiver io') \<and> io_sent io' = io_sent io \<and> io_sends io' = io_sends io
     \<and> (\<forall>data. res = Inr data \<longrightarrow> heard data io io' \<and> length data = n \<and> (0 < n \<longrightarrow> fi_pidfd (identity io') \<noteq> None))"
proof (induction n io arbitrary: res io' rule: recv_exact.induct)
  case (1 n io)
  show ?case
  proof (cases "n = 0")
    case True
    with 1(2,3) show ?thesis by (auto simp: recv_exact.simps[of 0])
  next
    case False
    obtain r1 io1 where f: "recv_fragment n ''worker frame deadline exceeded'' ''worker frame cannot be received'' io = (r1, io1)" by fastforce
    note c = recv_fragment_cases[OF f 1(3)]
    show ?thesis
    proof (cases r1)
      case (Inl e)
      with 1(2) False f c(1-3) show ?thesis by (auto simp: recv_exact.simps[of n])
    next
      case (Inr data)
      show ?thesis
      proof (cases "data = []")
        case True
        with 1(2) False f Inr c(1-3) show ?thesis by (auto simp: recv_exact.simps[of n])
      next
        case ne: False
        obtain r2 io2 where g: "recv_exact (n - length data) io1 = (r2, io2)" by fastforce
        have h: "heard data io io1" "length data \<le> n" "fi_pidfd (identity io1) \<noteq> None" using c(4)[OF Inr ne] by auto
        note ih = 1(1)[OF False f[symmetric] Inr ne g c(1)]
        have out: "io' = io2" "res = rbind r2 (\<lambda>rest. Inr (data @ rest))"
          using 1(2) False f Inr ne g by (auto simp: recv_exact.simps[of n] split: sum.splits)
        have "heard (data @ rest) io io2 \<and> length (data @ rest) = n \<and> fi_pidfd (identity io2) \<noteq> None" if "r2 = Inr rest" for rest
        proof -
          have "heard rest io1 io2" "length rest = n - length data" using ih that by auto
          moreover from this(1) have "extends (identity io1) (identity io2)" by (simp add: heard_def)
          then have "fi_pidfd (identity io2) \<noteq> None" using h(3) by (auto simp: extends_def)
          ultimately show ?thesis using heard_trans[OF h(1), of rest io2] h(2) by simp
        qed
        then have "\<forall>d. res = Inr d \<longrightarrow> heard d io io2 \<and> length d = n \<and> (0 < n \<longrightarrow> fi_pidfd (identity io2) \<noteq> None)"
          unfolding out(2) rbind_eq_Inr by blast
        moreover have "balanced base (io_receiver io2)" "io_sent io2 = io_sent io" "io_sends io2 = io_sends io" using ih c(2,3) by simp_all
        ultimately show ?thesis unfolding out(1) by blast
      qed
    qed
  qed
qed

lemma canonical_object_raw: "canonical_object P deep a b raw = Inr m \<Longrightarrow> canonical (PDict m) = Inr raw"
  by (auto simp: canonical_object_def rbind_eq_Inr split: sum.splits pyval.splits if_splits)

text \<open>A frame on the wire: its length and its bytes.\<close>

definition framed :: "bytes \<Rightarrow> bytes" where
  "framed raw = worker_header (length raw) @ raw"

definition frame_of :: "message \<Rightarrow> bytes" where
  "frame_of m = (case canonical (PDict m) of Inl _ \<Rightarrow> [] | Inr raw \<Rightarrow> framed raw)"

lemma header_length: "length h = 4 \<Longrightarrow> worker_header (from_big_endian h) = h"
proof -
  assume "length h = 4"
  then obtain a b c d where h: "h = [a, b, c, d]" by (auto simp: numeral_eq_Suc length_Suc_conv)
  have "unat w < 256" for w :: "8 word" using unsigned_less[of w, where ?'a = nat] by simp
  then have l: "unat a < 256" "unat b < 256" "unat c < 256" "unat d < 256" by simp_all
  define n where "n = unat d + 256 * (unat c + 256 * (unat b + 256 * unat a))"
  have n: "from_big_endian h = n" by (simp add: h from_big_endian_def n_def algebra_simps)
  have q: "n div 2 ^ 8 = unat c + 256 * (unat b + 256 * unat a)" using l(4) by (simp add: n_def)
  have q2: "n div 2 ^ 16 = unat b + 256 * unat a" using q l(3) div_mult2_eq[of n 256 256] by simp
  have q3: "n div 2 ^ 24 = unat a" using q2 l(2) div_mult2_eq[of n 65536 256] by simp
  have m: "of_nat (unat w + 256 * k) = w" if "unat w < 256" for w :: "8 word" and k
    using that by (simp only: word_unat_eq_iff unat_of_nat_byte) simp
  show ?thesis unfolding n worker_header_def big_endian4_def q q2 q3
    using m[OF l(2)] m[OF l(3)] m[OF l(4)] by (simp only: h n_def) simp
qed

lemma read_frame_cases:
  assumes "worker_read_frame P deep limit io = (res, io')" "balanced base (io_receiver io)"
  shows "balanced base (io_receiver io') \<and> io_sent io' = io_sent io
    \<and> (\<forall>m. res = Inr m \<longrightarrow> (\<exists>raw. canonical (PDict m) = Inr raw \<and> length raw \<le> limit \<and> heard (framed raw) io io'
          \<and> fi_pidfd (identity io') \<noteq> None))"
proof -
  obtain r1 io1 where f: "recv_exact 4 io = (r1, io1)" by fastforce
  note c1 = recv_exact_cases[OF f assms(2)]
  show ?thesis
  proof (cases r1)
    case (Inr header)
    let ?n = "from_big_endian header"
    obtain r2 io2 where g: "recv_exact ?n io1 = (r2, io2)" by fastforce
    note c2 = recv_exact_cases[OF g conjunct1[OF c1]]
    show ?thesis
    proof (cases "0 < ?n \<and> ?n \<le> limit")
      case ok: True
      show ?thesis
      proof (cases r2)
        case raw: (Inr raw)
        have out: "io' = io2" "res = canonical_object P deep ''worker frame is not ASCII JSON'' ''worker frame is not canonical JSON'' raw"
          using assms(1) f g Inr raw ok by (auto simp: worker_read_frame_def abind_def alift_def Let_def)
        have h: "heard header io io1" "length header = 4" "heard raw io1 io2" "length raw = ?n" "fi_pidfd (identity io2) \<noteq> None"
          using c1 c2 Inr raw ok by auto
        have "framed raw = header @ raw" using header_length[OF h(2)] h(4) by (simp add: framed_def)
        with heard_trans[OF h(1,3)] h(4,5) ok c1 c2 show ?thesis unfolding out by (auto dest: canonical_object_raw)
      qed (use assms(1) f g Inr ok c1 c2 in \<open>auto simp: worker_read_frame_def abind_def Let_def\<close>)
    qed (use assms(1) f Inr c1 in \<open>auto simp: worker_read_frame_def abind_def Let_def araise_def\<close>)
  qed (use assms(1) f c1 in \<open>auto simp: worker_read_frame_def abind_def\<close>)
qed

lemma send_loop_prefix:
  "send_loop late broken stuck evs frame = (sent, r, evs') \<Longrightarrow> \<exists>rest. frame = sent @ rest \<and> (r = Inr () \<longrightarrow> rest = [])"
proof (induction late broken stuck evs frame arbitrary: sent r evs' rule: send_loop.induct)
  case (6 late broken stuck n evs b bs)
  show ?case
  proof (cases "n = 0")
    case False
    obtain s1 where s1: "send_loop late broken stuck evs (drop n (b # bs)) = (s1, r, evs')" "sent = take n (b # bs) @ s1"
      using 6(2) False by (auto split: prod.splits)
    from 6(1)[OF False s1(1)] obtain rest where "drop n (b # bs) = s1 @ rest" "r = Inr () \<longrightarrow> rest = []" by blast
    then show ?thesis unfolding s1(2) by (intro exI[of _ rest]) (metis append.assoc append_take_drop_id)
  qed (use 6(2) in auto)
qed auto

lemma write_frame_cases:
  assumes "worker_write_frame m limit io = (res, io')"
  shows "\<exists>part. io' = io\<lparr>io_sends := io_sends io', io_sent := io_sent io @ part\<rparr>
      \<and> (\<exists>rest. frame_of m = part @ rest)
      \<and> (\<forall>raw. res = Inr raw \<longrightarrow> canonical (PDict m) = Inr raw \<and> length raw \<le> limit \<and> part = framed raw)"
proof (cases "canonical (PDict m)")
  case (Inr raw)
  obtain sent r evs where l: "send_loop ''worker outbound frame deadline exceeded'' ''worker outbound frame cannot be sent''
      ''worker outbound frame was not sent'' (io_sends io) (framed raw) = (sent, r, evs)" by (metis prod_cases3)
  show ?thesis
  proof (cases "0 < length raw \<and> length raw \<le> limit")
    case True
    then have out: "res = rbind r (\<lambda>_. Inr raw)" "io' = io\<lparr>io_sends := evs, io_sent := io_sent io @ sent\<rparr>"
      using assms Inr l by (auto simp: worker_write_frame_def abind_def alift_def framed_def)
    show ?thesis using send_loop_prefix[OF l] True Inr unfolding out
      by (intro exI[of _ sent]) (cases r; auto simp: frame_of_def)
  next
    case False
    then have "io' = io" "\<exists>e. res = Inl e" using assms Inr by (auto simp: worker_write_frame_def abind_def alift_def araise_def)
    then show ?thesis by (intro exI[of _ "[]"]) auto
  qed
next
  case (Inl e)
  then have "io' = io" "res = Inl e" using assms by (auto simp: worker_write_frame_def abind_def alift_def)
  then show ?thesis using Inl by (intro exI[of _ "[]"]) auto
qed

lemma expect_eof_cases:
  assumes "expect_eof io = (res, io')" "balanced base (io_receiver io)"
  shows "balanced base (io_receiver io') \<and> io_sent io' = io_sent io \<and> (res = Inr () \<longrightarrow> io_data io = [] \<and> identity io' = identity io)"
proof -
  obtain r1 io1 where f: "recv_fragment 1 ''worker EOF deadline exceeded'' ''worker EOF cannot be received'' io = (r1, io1)" by fastforce
  note c = recv_fragment_cases[OF f assms(2)]
  have out: "io' = io1" "res = Inr () \<longrightarrow> r1 = Inr []"
    using assms(1) f by (auto simp: expect_eof_def abind_def araise_def areturn_def split: sum.splits if_splits)
  show ?thesis using c(1,2,5) out by auto
qed

end
