(* ===== verification/WorkerExchange.thy ===== *)
theory WorkerExchange
  imports WorkerFrames
begin

text \<open>
  The exchange of \<open>geniusnew/worker_service.py\<close>: the messages of both sides, one transaction of the Core, the
  runner that holds the host-wide lease around it, and the service process that handles one job.

  What the host says about units, control groups and processes is a parameter, as the lifecycle is one of the
  runner's constructor: \<open>lifecycle\<close> holds the outcomes of its calls in one transaction. \<open>value\<close> gives the exact
  value of a float's \<open>repr\<close>; the deadlines act through the scripts of the transport.
\<close>

section \<open>Messages\<close>

definition hello_message :: "pystr \<Rightarrow> message" where
  "hello_message nonce = [(lit ''kind'', PStr (lit ''HELLO'')), (lit ''version'', PInt 1), (lit ''nonce'', PStr nonce)]"

definition version_is_one :: "(pystr \<Rightarrow> rat option) \<Rightarrow> message \<Rightarrow> bool" where
  "version_is_one value m = (case map_of m (lit ''version'') of Some v \<Rightarrow> equals_one value v | None \<Rightarrow> False)"

definition validate_ready :: "(pystr \<Rightarrow> rat option) \<Rightarrow> message \<Rightarrow> pystr \<Rightarrow> unit result" where
  "validate_ready value m nonce =
     (if \<not> has_keys m [''kind'', ''version'', ''nonce''] \<or> \<not> field_is m ''kind'' (lit ''READY'') \<or> \<not> version_is_one value m
         \<or> \<not> field_is m ''nonce'' nonce
      then fail ''worker READY is invalid'' else Inr ())"

definition worker_request :: "message \<Rightarrow> pystr \<Rightarrow> message result" where
  "worker_request pl nonce =
     (if \<not> has_keys pl [''text''] then fail ''worker service accepts only a text payload'' else
      case map_of pl (lit ''text'') of
        Some (PStr text) \<Rightarrow>
          Inr [(lit ''kind'', PStr (lit ''REQUEST'')), (lit ''version'', PInt 1), (lit ''nonce'', PStr nonce),
               (lit ''worker'', PStr (lit ''summarize'')), (lit ''payload'', PDict [(lit ''text'', PStr text)]),
               (lit ''limits'', PDict (limits_dict default_limits))]
      | _ \<Rightarrow> fail ''worker service accepts only a text payload'')"

definition ERROR_CODES :: "string list" where
  "ERROR_CODES = [''WORKER_FAILED'', ''ISOLATION_VIOLATED'', ''RESOURCE_EXHAUSTED'', ''OUTPUT_REJECTED'']"

definition is_text_dict :: "pyval \<Rightarrow> bool" where
  "is_text_dict v =
     (case v of PDict d \<Rightarrow> has_keys d [''text''] \<and> (case map_of d (lit ''text'') of Some (PStr _) \<Rightarrow> True | _ \<Rightarrow> False) | _ \<Rightarrow> False)"

text \<open>The output of a result, or one of the error codes.\<close>

definition validate_result :: "(pystr \<Rightarrow> rat option) \<Rightarrow> message \<Rightarrow> pystr \<Rightarrow> pystr \<Rightarrow> pyval result" where
  "validate_result value m nonce request_digest =
     (let common = [''kind'', ''version'', ''nonce'', ''request_digest''] in
      if \<not> field_is m ''kind'' (lit ''RESULT'') \<or> \<not> version_is_one value m \<or> \<not> field_is m ''nonce'' nonce
         \<or> \<not> field_is m ''request_digest'' request_digest
      then fail ''worker RESULT identity or digest is invalid'' else
      if has_keys m (common @ [''output'']) then
        rbind (get_item m ''output'') (\<lambda>output.
        if \<not> is_text_dict output then fail ''worker RESULT output is invalid'' else Inr output)
      else if has_keys m (common @ [''error'']) \<and> map_of m (lit ''error'') \<in> (\<lambda>c. Some (PStr (lit c))) ` set ERROR_CODES
      then get_item m ''error''
      else fail ''worker RESULT shape or error code is invalid'')"

section \<open>The Core\<close>

record invocation =
  iv_unit :: pystr
  iv_invocation_id :: pystr
  iv_cgroup :: pystr
  iv_runtime_dir :: pystr
  iv_pid :: int

record lifecycle =
  lf_preflight :: "unit result"
  lf_acquire :: "int result"
  lf_idle :: "unit result"
  lf_connect :: "unit result"
  lf_bind :: "int \<Rightarrow> int \<Rightarrow> invocation result"
  lf_await_end :: "invocation \<Rightarrow> int option \<Rightarrow> unit result"

record exchange =
  ex_io :: core_io
  ex_invocation :: "invocation option"

abbreviation on_io :: "(core_io, 'a) action \<Rightarrow> (exchange, 'a) action" where
  "on_io \<equiv> azoom ex_io (\<lambda>io x. x\<lparr>ex_io := io\<rparr>)"

text \<open>\<open>view\<close> is the kernel's view after the binding, \<open>shutdown\<close> whether the end of the request can be sent.\<close>

definition exchange_bind :: "lifecycle \<Rightarrow> kernel_view \<Rightarrow> (exchange, unit) action" where
  "exchange_bind lf view x =
     (case (fi_pid (identity (ex_io x)), fi_pidfd (identity (ex_io x))) of
        (Some pid, Some fd) \<Rightarrow>
          (case lf_bind lf pid fd of
             Inl e \<Rightarrow> (Inl e, x)
           | Inr bound \<Rightarrow>
               let x1 = x\<lparr>ex_invocation := Some bound\<rparr> in
               (case pidfd_exited view fd of
                  Inl e \<Rightarrow> (Inl e, x1)
                | Inr exited \<Rightarrow> (if exited then fail ''worker exited before receiving payload'' else Inr (), x1)))
      | _ \<Rightarrow> (fail ''worker READY has no bound process'', x))"

definition exchange_run ::
  "platform \<Rightarrow> (pystr \<Rightarrow> bool) \<Rightarrow> (pystr \<Rightarrow> rat option) \<Rightarrow> lifecycle \<Rightarrow> kernel_view \<Rightarrow> bool \<Rightarrow> pystr \<Rightarrow> message \<Rightarrow> (exchange, pyval) action" where
  "exchange_run P deep value lf view shutdown nonce pl =
     abind (on_io (worker_write_frame (hello_message nonce) HELLO_LIMIT)) (\<lambda>_.
     abind (on_io (worker_read_frame P deep HELLO_LIMIT)) (\<lambda>ready.
     abind (alift (validate_ready value ready nonce)) (\<lambda>_.
     abind (exchange_bind lf view) (\<lambda>_.
     abind (alift (worker_request pl nonce)) (\<lambda>request.
     abind (on_io (worker_write_frame request PAYLOAD_LIMIT)) (\<lambda>wire.
     abind (if shutdown then areturn () else araise (ContractError ''worker request end cannot be sent'')) (\<lambda>_.
     abind (on_io (worker_read_frame P deep PAYLOAD_LIMIT)) (\<lambda>answer.
     abind (on_io expect_eof) (\<lambda>_.
     alift (validate_result value answer nonce (sha256_hex P wire)))))))))))"

section \<open>The runner\<close>

text \<open>\<open>sr_fds\<close> is the descriptor table; a pending entry keeps its lease and the sender's descriptor open.\<close>

record service_runner =
  sr_profile :: worker_service_profile
  sr_pending :: "(int \<times> frame_identity option) list"
  sr_fds :: "int list"

definition new_identity :: "worker_service_profile \<Rightarrow> frame_identity" where
  "new_identity p = \<lparr>fi_expected_uid = wp_worker_uid p, fi_expected_gid = wp_worker_gid p, fi_pid = None, fi_pidfd = None\<rparr>"

text \<open>The constructor: whether the worker is exactly the summarizer, and the profile if it is one.\<close>

definition service_runner_init :: "bool \<Rightarrow> worker_service_profile option \<Rightarrow> int list \<Rightarrow> service_runner result" where
  "service_runner_init is_summarizer profile fds =
     (if \<not> is_summarizer then fail ''worker service supports only the fixed summarizer'' else
      case profile of
        None \<Rightarrow> fail ''worker service needs a fixed profile''
      | Some p \<Rightarrow> Inr \<lparr>sr_profile = p, sr_pending = [], sr_fds = fds\<rparr>)"

definition runner_preflight :: "lifecycle \<Rightarrow> (int list, unit) action" where
  "runner_preflight lf =
     abind (alift (lf_preflight lf)) (\<lambda>_.
     abind (\<lambda>fds. case lf_acquire lf of Inl e \<Rightarrow> (Inl e, fds) | Inr d \<Rightarrow> (Inr d, d # fds)) (\<lambda>d.
     afinally (alift (lf_idle lf)) (close_all [d])))"

text \<open>What the transaction left: the outcome or the problem, whether the end was confirmed, and the exchange.\<close>

record transaction =
  tx_outcome :: "pyval result"
  tx_confirmed :: bool
  tx_exchange :: "exchange option"

definition transport_failed :: exc where "transport_failed = ContractError ''worker service transport failed''"

definition as_problem :: "exc \<Rightarrow> exc" where
  "as_problem e = (if is_contract_error e then e else transport_failed)"

definition transact ::
  "platform \<Rightarrow> (pystr \<Rightarrow> bool) \<Rightarrow> (pystr \<Rightarrow> rat option) \<Rightarrow> lifecycle \<Rightarrow> kernel_view \<Rightarrow> bool \<Rightarrow> pystr \<Rightarrow> message \<Rightarrow> core_io \<Rightarrow> transaction" where
  "transact P deep value lf view shutdown nonce pl io =
     (case rbind (lf_idle lf) (\<lambda>_. lf_connect lf) of
        Inl e \<Rightarrow> \<lparr>tx_outcome = Inl (as_problem e), tx_confirmed = False, tx_exchange = None\<rparr>
      | Inr _ \<Rightarrow>
          (case exchange_run P deep value lf view shutdown nonce pl \<lparr>ex_io = io, ex_invocation = None\<rparr> of
             (r, x) \<Rightarrow>
               if (case r of Inl e \<Rightarrow> \<not> is_contract_error e | Inr _ \<Rightarrow> False)
               then \<lparr>tx_outcome = Inl transport_failed, tx_confirmed = False, tx_exchange = Some x\<rparr> else
               (case ex_invocation x of
                  None \<Rightarrow> \<lparr>tx_outcome = r, tx_confirmed = False, tx_exchange = Some x\<rparr>
                | Some bound \<Rightarrow>
                    (case lf_await_end lf bound (fi_pidfd (identity (ex_io x))) of
                       Inl e \<Rightarrow> \<lparr>tx_outcome = Inl (as_problem e), tx_confirmed = False, tx_exchange = Some x\<rparr>
                     | Inr _ \<Rightarrow> \<lparr>tx_outcome = r, tx_confirmed = True, tx_exchange = Some x\<rparr>))))"

definition service_outcome :: "pyval result \<Rightarrow> work_outcome" where
  "service_outcome r =
     (case r of
        Inl e \<Rightarrow> BoundaryFailed ''worker service transaction was not authenticated''
      | Inr v \<Rightarrow>
          if v = PStr (lit ''ISOLATION_VIOLATED'') then IsolationViolation else
          if v = PStr (lit ''RESOURCE_EXHAUSTED'') then ResourceExhausted else
          if v = PStr (lit ''WORKER_FAILED'') then Raised ''RuntimeError'' else
          if v = PStr (lit ''OUTPUT_REJECTED'') then Returned PNone else Returned v)"

definition run_service_worker ::
  "platform \<Rightarrow> (pystr \<Rightarrow> bool) \<Rightarrow> (pystr \<Rightarrow> rat option) \<Rightarrow> lifecycle \<Rightarrow> kernel_view \<Rightarrow> bool \<Rightarrow> pystr \<Rightarrow> message
     \<Rightarrow> (receiver \<Rightarrow> core_io) \<Rightarrow> service_runner \<Rightarrow> work_outcome \<times> service_runner" where
  "run_service_worker P deep value lf view shutdown nonce pl connection s =
     (if sr_pending s \<noteq> [] then (BoundaryFailed ''worker service has an unconfirmed prior instance'', s) else
      case rbind (lf_preflight lf) (\<lambda>_. lf_acquire lf) of
        Inl e \<Rightarrow> (if is_contract_error e then BoundaryFailed ''worker service preflight failed'' else Raised (exc_message e), s)
      | Inr lease \<Rightarrow>
          let io = connection \<lparr>rc_identity = new_identity (sr_profile s), rc_fds = lease # sr_fds s\<rparr>;
              tx = transact P deep value lf view shutdown nonce pl io;
              r = (case tx_exchange tx of None \<Rightarrow> io_receiver io | Some x \<Rightarrow> io_receiver (ex_io x)) in
          if tx_confirmed tx then
            (case abind (azoom rc_fds (\<lambda>fds r. r\<lparr>rc_fds := fds\<rparr>) (close_all [lease])) (\<lambda>_. identity_close) r of
               (Inl e, r') \<Rightarrow> (Raised (exc_message e), s\<lparr>sr_fds := rc_fds r'\<rparr>)
             | (Inr _, r') \<Rightarrow> (service_outcome (tx_outcome tx), s\<lparr>sr_fds := rc_fds r'\<rparr>))
          else
            (service_outcome (tx_outcome tx),
             s\<lparr>sr_pending := [(lease, map_option (\<lambda>x. identity (ex_io x)) (tx_exchange tx))], sr_fds := rc_fds r\<rparr>))"

section \<open>The service\<close>

definition validate_hello :: "(pystr \<Rightarrow> rat option) \<Rightarrow> message \<Rightarrow> pystr result" where
  "validate_hello value m =
     (case map_of m (lit ''nonce'') of
        Some (PStr nonce) \<Rightarrow>
          if has_keys m [''kind'', ''version'', ''nonce''] \<and> field_is m ''kind'' (lit ''HELLO'') \<and> version_is_one value m \<and> hex_string 64 nonce
          then Inr nonce else fail ''worker service HELLO is invalid''
      | _ \<Rightarrow> fail ''worker service HELLO is invalid'')"

definition REQUEST_SHAPE :: "string list" where
  "REQUEST_SHAPE = [''kind'', ''version'', ''nonce'', ''worker'', ''payload'', ''limits'']"

definition exceeds_limits :: "(pystr \<Rightarrow> rat option) \<Rightarrow> isolation_limits \<Rightarrow> isolation_limits \<Rightarrow> bool" where
  "exceeds_limits value l c \<longleftrightarrow>
     (case (num_value value (il_wall_seconds l), num_value value (il_wall_seconds c)) of (Some x, Some y) \<Rightarrow> x > y | _ \<Rightarrow> False)
     \<or> il_cpu_seconds l > il_cpu_seconds c \<or> il_memory_bytes l > il_memory_bytes c
     \<or> il_max_file_bytes l > il_max_file_bytes c \<or> il_max_open_files l > il_max_open_files c"

definition validate_request :: "(pystr \<Rightarrow> rat option) \<Rightarrow> message \<Rightarrow> pystr \<Rightarrow> isolation_limits \<Rightarrow> isolation_limits result" where
  "validate_request value m nonce most =
     (if \<not> has_keys m REQUEST_SHAPE \<or> \<not> field_is m ''kind'' (lit ''REQUEST'') \<or> \<not> version_is_one value m
         \<or> \<not> field_is m ''nonce'' nonce \<or> \<not> field_is m ''worker'' (lit ''summarize'')
      then fail ''worker service REQUEST shape is invalid'' else
      rbind (get_item m ''payload'') (\<lambda>pl.
      if \<not> is_text_dict pl then fail ''worker service REQUEST payload is invalid'' else
      rbind (get_item m ''limits'') (\<lambda>limits.
      if \<not> (case limits of PDict d \<Rightarrow> set (map fst d) = set (map fst (limits_dict most)) | _ \<Rightarrow> False)
      then fail ''worker service REQUEST limits are incomplete'' else
      rbind (limits_from value limits) (\<lambda>requested.
      if exceeds_limits value requested most then fail ''worker service REQUEST exceeds fixed limits'' else Inr requested))))"

text \<open>What the process meets: the outcome of the checks before and after the greeting, its socket and peer, the
  kernel's part of the confinement, and what interrupts the worker (the timer, memory), if anything.\<close>

record service_env =
  se_checks :: "unit result"
  se_stream :: bool
  se_peer :: "int \<times> int"
  se_root :: "pystr result"
  se_dumpable :: "unit result"
  se_landlock :: landlock_os
  se_machine :: string
  se_prctl :: "nat \<Rightarrow> int"
  se_read_paths :: "pystr list"
  se_interrupt :: "exc option"
  se_violates :: bool

record service_state =
  st_io :: plain_io
  st_rlimits :: rlimits
  st_landlock :: landlock_state
  st_seccomp :: seccomp_state
  st_hook :: hook_state

abbreviation on_plain :: "(plain_io, 'a) action \<Rightarrow> (service_state, 'a) action" where
  "on_plain \<equiv> azoom st_io (\<lambda>x s. s\<lparr>st_io := x\<rparr>)"

definition text_payload :: "message \<Rightarrow> pyval result" where
  "text_payload m =
     rbind (get_item m ''payload'') (\<lambda>pl.
     case pl of PDict d \<Rightarrow> rbind (get_item d ''text'') (\<lambda>t. Inr (PDict [(lit ''text'', t)])) | _ \<Rightarrow> Inl (PyError ''TypeError''))"

text \<open>How the run of the worker ends.\<close>

definition work_end :: "platform \<Rightarrow> service_env \<Rightarrow> pyval \<Rightarrow> pyval result" where
  "work_end P env pl =
     (case se_interrupt env of
        Some e \<Rightarrow> Inl e
      | None \<Rightarrow> (case summarizer_run P pl of Returned v \<Rightarrow> Inr v | Raised c \<Rightarrow> Inl (PyError c) | _ \<Rightarrow> Inl (PyError ''Exception'')))"

text \<open>An exception that is no \<open>Exception\<close> passes every handler but the one for the sandbox: no result is written.\<close>

definition uncaught :: "exc \<Rightarrow> bool" where
  "uncaught e \<longleftrightarrow> base_exception e \<and> e \<noteq> sandbox_denied"

definition work_escapes :: "platform \<Rightarrow> service_env \<Rightarrow> pyval \<Rightarrow> unit result" where
  "work_escapes P env pl = (case work_end P env pl of Inl e \<Rightarrow> if uncaught e then Inl e else Inr () | Inr _ \<Rightarrow> Inr ())"

text \<open>The items a run that ends in a handler or returns adds to the result.\<close>

definition worked :: "platform \<Rightarrow> service_env \<Rightarrow> pyval \<Rightarrow> message" where
  "worked P env pl =
     (let failed = (\<lambda>code. [(lit ''error'', PStr (lit code))]) in
      case work_end P env pl of
        Inr v \<Rightarrow>
          if se_violates env then failed ''ISOLATION_VIOLATED'' else
          if \<not> is_text_dict v then failed ''OUTPUT_REJECTED'' else [(lit ''output'', v)]
      | Inl e \<Rightarrow>
          if e = sandbox_denied then failed ''ISOLATION_VIOLATED'' else
          if e = PyError ''MemoryError'' \<or> e = resource_exhausted then failed ''RESOURCE_EXHAUSTED'' else failed ''WORKER_FAILED'')"

definition service_confine :: "service_env \<Rightarrow> pystr \<Rightarrow> (service_state, unit) action" where
  "service_confine env jobdir =
     abind (azoom st_rlimits (\<lambda>x s. s\<lparr>st_rlimits := x\<rparr>) (set_resource_limits default_limits)) (\<lambda>_.
     abind (alift (se_dumpable env)) (\<lambda>_.
     abind (\<lambda>s. (Inr (), s\<lparr>st_hook := \<lparr>hk_violated = False, hk_bootstrap = True\<rparr>\<rparr>)) (\<lambda>_.
     abind (azoom st_landlock (\<lambda>x s. s\<lparr>st_landlock := x\<rparr>) (install_filesystem_rules (se_landlock env) jobdir (se_read_paths env))) (\<lambda>_.
     azoom st_seccomp (\<lambda>x s. s\<lparr>st_seccomp := x\<rparr>) (install_process_filter (se_machine env) (se_prctl env))))))"

definition run_service_connection ::
  "platform \<Rightarrow> (pystr \<Rightarrow> bool) \<Rightarrow> (pystr \<Rightarrow> rat option) \<Rightarrow> service_env \<Rightarrow> int \<Rightarrow> (service_state, unit) action" where
  "run_service_connection P deep value env core_uid =
     abind (alift (se_checks env)) (\<lambda>_.
     if \<not> se_stream env then araise (ContractError ''worker did not receive an accepted AF_UNIX stream'') else
     if fst (se_peer env) \<le> 0 \<or> snd (se_peer env) \<noteq> core_uid then araise (ContractError ''worker Core peer UID is invalid'') else
     abind (on_plain (plain_frame P deep HELLO_LIMIT)) (\<lambda>hello.
     abind (alift (validate_hello value hello)) (\<lambda>nonce.
     abind (alift (se_root env)) (\<lambda>jobdir.
     abind (service_confine env jobdir) (\<lambda>_.
     abind (on_plain (plain_write [(lit ''kind'', PStr (lit ''READY'')), (lit ''version'', PInt 1), (lit ''nonce'', PStr nonce)])) (\<lambda>_.
     abind (on_plain (plain_frame P deep PAYLOAD_LIMIT)) (\<lambda>request.
     abind (alift (validate_request value request nonce default_limits)) (\<lambda>requested.
     abind (on_plain plain_expect_eof) (\<lambda>_.
     abind (azoom st_rlimits (\<lambda>x s. s\<lparr>st_rlimits := x\<rparr>) (set_resource_limits requested)) (\<lambda>_.
     abind (\<lambda>s. (Inr (), s\<lparr>st_hook := (st_hook s)\<lparr>hk_bootstrap := False\<rparr>\<rparr>)) (\<lambda>_.
     abind (alift (canonical (PDict request))) (\<lambda>wire.
     abind (alift (text_payload request)) (\<lambda>pl.
     abind (alift (work_escapes P env pl)) (\<lambda>_.
     on_plain (plain_write ([(lit ''kind'', PStr (lit ''RESULT'')), (lit ''version'', PInt 1), (lit ''nonce'', PStr nonce),
        (lit ''request_digest'', PStr (sha256_hex P wire))] @ worked P env pl))))))))))))))))"

text \<open>The process: two when anything went wrong, whatever it was.\<close>

definition service_main ::
  "platform \<Rightarrow> (pystr \<Rightarrow> bool) \<Rightarrow> (pystr \<Rightarrow> rat option) \<Rightarrow> service_env \<Rightarrow> int \<Rightarrow> int \<Rightarrow> int \<Rightarrow> (service_state, nat) action" where
  "service_main P deep value env core_uid worker_uid worker_gid =
     acatch (abind (if list_ex (\<lambda>i. i \<le> 0) [core_uid, worker_uid, worker_gid] then araise (ContractError ''worker service identity is invalid'')
                    else run_service_connection P deep value env core_uid) (\<lambda>_. areturn 0))
       (\<lambda>_. areturn 2)"

text \<open>The start-up check gives its lease back, however it ends.\<close>

lemma preflight_closes: "snd (runner_preflight lf fds) = fds"
  by (auto simp: runner_preflight_def abind_def afinally_def alift_def split: sum.splits)

section \<open>What the Core believes\<close>

definition exchange_open ::
  "platform \<Rightarrow> (pystr \<Rightarrow> bool) \<Rightarrow> (pystr \<Rightarrow> rat option) \<Rightarrow> lifecycle \<Rightarrow> kernel_view \<Rightarrow> pystr \<Rightarrow> (exchange, unit) action" where
  "exchange_open P deep value lf view nonce =
     abind (on_io (worker_write_frame (hello_message nonce) HELLO_LIMIT)) (\<lambda>_.
     abind (on_io (worker_read_frame P deep HELLO_LIMIT)) (\<lambda>ready.
     abind (alift (validate_ready value ready nonce)) (\<lambda>_. exchange_bind lf view)))"

definition exchange_ask :: "platform \<Rightarrow> (pystr \<Rightarrow> bool) \<Rightarrow> (pystr \<Rightarrow> rat option) \<Rightarrow> bool \<Rightarrow> pystr \<Rightarrow> message \<Rightarrow> (exchange, pyval) action" where
  "exchange_ask P deep value shutdown nonce pl =
     abind (alift (worker_request pl nonce)) (\<lambda>request.
     abind (on_io (worker_write_frame request PAYLOAD_LIMIT)) (\<lambda>wire.
     abind (if shutdown then areturn () else araise (ContractError ''worker request end cannot be sent'')) (\<lambda>_.
     abind (on_io (worker_read_frame P deep PAYLOAD_LIMIT)) (\<lambda>answer.
     abind (on_io expect_eof) (\<lambda>_.
     alift (validate_result value answer nonce (sha256_hex P wire)))))))"

lemma abind_assoc: "abind (abind m f) g = abind m (\<lambda>x. abind (f x) g)"
  by (rule ext) (auto simp: abind_def split: prod.splits sum.splits)

lemma exchange_run_parts:
  "exchange_run P deep value lf view shutdown nonce pl = abind (exchange_open P deep value lf view nonce) (\<lambda>_. exchange_ask P deep value shutdown nonce pl)"
  by (simp add: exchange_run_def exchange_open_def exchange_ask_def abind_assoc)

abbreviation io_balanced :: "int multiset \<Rightarrow> exchange \<Rightarrow> bool" where
  "io_balanced base x \<equiv> balanced base (io_receiver (ex_io x))"

lemma write_frame_receiver:
  assumes "worker_write_frame m n io = (r, io')"
  shows "io_receiver io' = io_receiver io \<and> io_recvs io' = io_recvs io \<and> io_data io' = io_data io"
proof -
  obtain part where "io' = io\<lparr>io_sends := io_sends io', io_sent := io_sent io @ part\<rparr>" using write_frame_cases[OF assms] by blast
  then obtain evs where "io' = io\<lparr>io_sends := evs, io_sent := io_sent io @ part\<rparr>" by blast
  then show ?thesis by simp
qed

lemma write_frame_sent:
  assumes "worker_write_frame m n io = (r, io')"
  shows "\<exists>part rest. io_sent io' = io_sent io @ part \<and> frame_of m = part @ rest"
    "\<And>raw. r = Inr raw \<Longrightarrow> canonical (PDict m) = Inr raw \<and> length raw \<le> n \<and> io_sent io' = io_sent io @ framed raw"
proof -
  obtain part where p: "io' = io\<lparr>io_sends := io_sends io', io_sent := io_sent io @ part\<rparr>" "\<exists>rest. frame_of m = part @ rest"
    "\<forall>raw. r = Inr raw \<longrightarrow> canonical (PDict m) = Inr raw \<and> length raw \<le> n \<and> part = framed raw"
    using write_frame_cases[OF assms] by blast
  from p(1) obtain evs where "io' = io\<lparr>io_sends := evs, io_sent := io_sent io @ part\<rparr>" by blast
  then have "io_sent io' = io_sent io @ part" by simp
  with p(2,3) show "\<exists>part rest. io_sent io' = io_sent io @ part \<and> frame_of m = part @ rest"
    "\<And>raw. r = Inr raw \<Longrightarrow> canonical (PDict m) = Inr raw \<and> length raw \<le> n \<and> io_sent io' = io_sent io @ framed raw" by auto
qed

lemma on_io_balanced:
  assumes "keeps (\<lambda>io. balanced base (io_receiver io)) m"
  shows "keeps (io_balanced base) (on_io m)"
  by (rule keeps_zoom[OF _ _ assms]) simp_all

lemma frames_balanced [keeps_rules]:
  "keeps (io_balanced base) (on_io (worker_write_frame m n))"
  "keeps (io_balanced base) (on_io (worker_read_frame P deep n))"
  "keeps (io_balanced base) (on_io expect_eof)"
  by (rule on_io_balanced, rule keepsI, (simp add: write_frame_receiver | use read_frame_cases expect_eof_cases in blast))+

lemma bind_balanced [keeps_rules]: "keeps (io_balanced base) (exchange_bind lf view)"
  by (rule keepsI) (auto simp: exchange_bind_def Let_def split: option.splits sum.splits if_splits)

lemma exchange_balanced: "keeps (io_balanced base) (exchange_run P deep value lf view shutdown nonce pl)"
  unfolding exchange_run_def by (intro keeps_rules)

lemma ask_invocation: "keeps (\<lambda>x. ex_invocation x = b) (exchange_ask P deep value shutdown nonce pl)"
  unfolding exchange_ask_def by (intro keeps_rules keeps_zoom_other) simp_all

text \<open>What each half of the exchange did, on every way it can end.\<close>

lemma bind_cases:
  assumes "exchange_bind lf view x = (res, x')"
  shows "ex_io x' = ex_io x"
    "res = Inr () \<Longrightarrow> \<exists>pid fd bound. fi_pid (identity (ex_io x)) = Some pid \<and> fi_pidfd (identity (ex_io x)) = Some fd
       \<and> lf_bind lf pid fd = Inr bound \<and> ex_invocation x' = Some bound \<and> pidfd_exited view fd = Inr False"
  using assms by (auto simp: exchange_bind_def Let_def split: option.splits sum.splits if_splits)

lemma open_succeeds:
  assumes "exchange_open P deep value lf view nonce x = (Inr (), x')" "io_balanced base x"
  shows "\<exists>ready raw pid fd bound. canonical (PDict ready) = Inr raw \<and> validate_ready value ready nonce = Inr ()
     \<and> heard (framed raw) (ex_io x) (ex_io x') \<and> io_balanced base x'
     \<and> io_sent (ex_io x') = io_sent (ex_io x) @ frame_of (hello_message nonce)
     \<and> fi_pid (identity (ex_io x')) = Some pid \<and> fi_pidfd (identity (ex_io x')) = Some fd
     \<and> lf_bind lf pid fd = Inr bound \<and> ex_invocation x' = Some bound \<and> pidfd_exited view fd = Inr False"
proof -
  obtain hello io1 ready io2 where w: "worker_write_frame (hello_message nonce) HELLO_LIMIT (ex_io x) = (Inr hello, io1)"
    and r: "worker_read_frame P deep HELLO_LIMIT io1 = (Inr ready, io2)" and v: "validate_ready value ready nonce = Inr ()"
    and b: "exchange_bind lf view (x\<lparr>ex_io := io2\<rparr>) = (Inr (), x')"
    using assms(1) by (auto simp: exchange_open_def abind_eq_Inr azoom_eq alift_eq)
  have bal: "balanced base (io_receiver io1)" using assms(2) write_frame_receiver[OF w] by simp
  note sent = write_frame_sent(2)[OF w refl] and read = read_frame_cases[OF r bal] and bound = bind_cases[OF b]
  have ex: "ex_io x' = io2" using bound(1) by simp
  obtain raw where raw: "canonical (PDict ready) = Inr raw" "heard (framed raw) io1 io2" using read by auto
  have "heard (framed raw) (ex_io x) io2" using raw(2) write_frame_receiver[OF w] by (simp add: heard_def)
  moreover have "io_sent io2 = io_sent (ex_io x) @ frame_of (hello_message nonce)" using sent read by (simp add: frame_of_def)
  ultimately show ?thesis using raw(1) v read bound(2)[OF refl] unfolding ex by auto
qed

lemma open_sends:
  assumes "exchange_open P deep value lf view nonce x = (res, x')" "io_balanced base x"
  shows "\<exists>part rest. io_sent (ex_io x') = io_sent (ex_io x) @ part \<and> frame_of (hello_message nonce) = part @ rest"
proof -
  obtain r1 io1 where w: "worker_write_frame (hello_message nonce) HELLO_LIMIT (ex_io x) = (r1, io1)" by fastforce
  have bal: "balanced base (io_receiver io1)" using assms(2) write_frame_receiver[OF w] by simp
  obtain r2 io2 where r: "worker_read_frame P deep HELLO_LIMIT io1 = (r2, io2)" by fastforce
  have s: "io_sent io2 = io_sent io1" using read_frame_cases[OF r bal] by simp
  have "ex_io x' = io1 \<or> ex_io x' = io2"
    using assms(1) w r bind_cases(1)[of lf view "x\<lparr>ex_io := io2\<rparr>" res x']
    by (auto simp: exchange_open_def abind_def azoom_def alift_def split: sum.splits)
  with s write_frame_sent(1)[OF w] show ?thesis by auto
qed

lemma ask_succeeds:
  assumes "exchange_ask P deep value shutdown nonce pl x = (Inr out, x')" "io_balanced base x"
  shows "\<exists>request wire answer raw io2. worker_request pl nonce = Inr request \<and> canonical (PDict request) = Inr wire
     \<and> canonical (PDict answer) = Inr raw \<and> validate_result value answer nonce (sha256_hex P wire) = Inr out
     \<and> heard (framed raw) (ex_io x) io2 \<and> io_data io2 = [] \<and> identity (ex_io x') = identity io2 \<and> io_balanced base x'
     \<and> io_sent (ex_io x') = io_sent (ex_io x) @ framed wire \<and> ex_invocation x' = ex_invocation x"
proof -
  obtain request wire io1 answer io2 io3 where q: "worker_request pl nonce = Inr request"
    and w: "worker_write_frame request PAYLOAD_LIMIT (ex_io x) = (Inr wire, io1)"
    and r: "worker_read_frame P deep PAYLOAD_LIMIT io1 = (Inr answer, io2)" and e: "expect_eof io2 = (Inr (), io3)"
    and v: "validate_result value answer nonce (sha256_hex P wire) = Inr out" and x': "ex_io x' = io3" "ex_invocation x' = ex_invocation x"
    using assms(1) by (auto simp: exchange_ask_def abind_eq_Inr azoom_eq alift_eq areturn_eq araise_eq split: if_splits)
  have bal: "balanced base (io_receiver io1)" using assms(2) write_frame_receiver[OF w] by simp
  note sent = write_frame_sent(2)[OF w refl] and read = read_frame_cases[OF r bal]
  note eof = expect_eof_cases[OF e conjunct1[OF read]]
  obtain raw where raw: "canonical (PDict answer) = Inr raw" "heard (framed raw) io1 io2" using read by auto
  have "heard (framed raw) (ex_io x) io2" using raw(2) write_frame_receiver[OF w] by (simp add: heard_def)
  with q v raw(1) sent read eof x' show ?thesis by auto
qed

lemma validate_result_sound:
  assumes "validate_result value m nonce digest = Inr out"
  shows "field_is m ''kind'' (lit ''RESULT'')" "field_is m ''nonce'' nonce" "field_is m ''request_digest'' digest"
    "is_text_dict out \<or> out \<in> (\<lambda>c. PStr (lit c)) ` set ERROR_CODES"
  using assms unfolding validate_result_def Let_def get_item_def by (auto simp: rbind_eq_Inr split: if_splits option.splits)

lemma validate_ready_sound:
  "validate_ready value m nonce = Inr () \<Longrightarrow> field_is m ''kind'' (lit ''READY'') \<and> field_is m ''nonce'' nonce"
  by (auto simp: validate_ready_def split: if_splits)

text \<open>The fragment came, whole, from the process \<open>pid\<close> of the profile's worker user and group.\<close>

definition from_worker :: "worker_service_profile \<Rightarrow> int \<Rightarrow> recv_event \<Rightarrow> bool" where
  "from_worker p pid e =
     (case e of
        Fragment k controls flags view \<Rightarrow> flags = 0 \<and> 0 < pid \<and> sender controls = Some (pid, wp_worker_uid p, wp_worker_gid p)
      | _ \<Rightarrow> False)"

lemma spoke_worker:
  "spoke i e \<Longrightarrow> extends (new_identity p) i \<Longrightarrow> fi_pid i = Some pid \<Longrightarrow> from_worker p pid e"
  by (auto simp: spoke_def from_worker_def extends_def new_identity_def split: recv_event.splits)

lemma balanced_new [simp]: "balanced (mset fds) \<lparr>rc_identity = new_identity p, rc_fds = fds\<rparr>"
  by (simp add: balanced_def new_identity_def kept_fd_def)

section \<open>The runner holds its lease until the end is confirmed\<close>

lemma run_bound:
  assumes "exchange_run P deep value lf view shutdown nonce pl \<lparr>ex_io = io, ex_invocation = None\<rparr> = (Inr out, x)"
    "balanced base (io_receiver io)"
  shows "\<exists>pid fd bound. lf_bind lf pid fd = Inr bound \<and> ex_invocation x = Some bound \<and> fi_pidfd (identity (ex_io x)) = Some fd"
proof -
  let ?x0 = "\<lparr>ex_io = io, ex_invocation = None\<rparr>"
  obtain x1 where o: "exchange_open P deep value lf view nonce ?x0 = (Inr (), x1)"
    and a: "exchange_ask P deep value shutdown nonce pl x1 = (Inr out, x)"
    using assms(1) unfolding exchange_run_parts by (auto simp: abind_eq_Inr)
  have bal: "io_balanced base ?x0" using assms(2) by simp
  obtain pid fd bound where O: "io_balanced base x1" "fi_pidfd (identity (ex_io x1)) = Some fd" "lf_bind lf pid fd = Inr bound"
    "ex_invocation x1 = Some bound" using open_succeeds[OF o bal] by auto
  obtain io2 where A: "extends (identity (ex_io x1)) (identity io2)" "identity (ex_io x) = identity io2" "ex_invocation x = ex_invocation x1"
    using ask_succeeds[OF a O(1)] by (auto simp: heard_def)
  show ?thesis using O A by (auto simp: extends_def)
qed

text \<open>The lifecycle saw the end of the process that was bound.\<close>

definition end_confirmed :: "lifecycle \<Rightarrow> bool" where
  "end_confirmed lf \<longleftrightarrow> (\<exists>pid fd bound. lf_bind lf pid fd = Inr bound \<and> lf_await_end lf bound (Some fd) = Inr ())"

lemma transact_cases:
  assumes "transact P deep value lf view shutdown nonce pl io = tx" "balanced base (io_receiver io)"
  shows "\<And>x. tx_exchange tx = Some x \<Longrightarrow> io_balanced base x"
    "tx_confirmed tx \<Longrightarrow> tx_exchange tx \<noteq> None"
    "tx_outcome tx = Inr v \<Longrightarrow> tx_confirmed tx \<and> end_confirmed lf"
proof -
  obtain r x where e: "exchange_run P deep value lf view shutdown nonce pl \<lparr>ex_io = io, ex_invocation = None\<rparr> = (r, x)" by fastforce
  have bal: "io_balanced base x" using keepsD[OF exchange_balanced e] assms(2) by simp
  note t = assms(1)[symmetric, unfolded transact_def e]
  show "\<And>x. tx_exchange tx = Some x \<Longrightarrow> io_balanced base x" "tx_confirmed tx \<Longrightarrow> tx_exchange tx \<noteq> None"
    using t bal by (auto split: sum.splits option.splits if_splits)
  show "tx_confirmed tx \<and> end_confirmed lf" if z: "tx_outcome tx = Inr v"
  proof -
    have "r = Inr v" using t z by (auto simp: as_problem_def split: sum.splits option.splits if_splits)
    with run_bound[OF e[unfolded this] assms(2)] t z show ?thesis
      by (auto simp: end_confirmed_def split: sum.splits option.splits if_splits)
  qed
qed

lemma release_ok:
  assumes "balanced (add_mset lease base) r"
  shows "\<exists>r'. abind (azoom rc_fds (\<lambda>fds r. r\<lparr>rc_fds := fds\<rparr>) (close_all [lease])) (\<lambda>_. identity_close) r = (Inr (), r')
      \<and> mset (rc_fds r') = base"
proof -
  have m: "mset (rc_fds r) = add_mset lease (base + kept_fd (rc_identity r))" using assms by (simp add: balanced_def)
  then have l: "lease \<in> set (rc_fds r)" by (metis set_mset_mset union_single_eq_member)
  have m1: "mset (remove1 lease (rc_fds r)) = base + kept_fd (rc_identity r)" using m by simp
  show ?thesis
  proof (cases "fi_pidfd (rc_identity r)")
    case None
    then show ?thesis using l m1 by (simp add: abind_def azoom_def identity_close_def kept_fd_def)
  next
    case (Some fd)
    then have "fd \<in> set (remove1 lease (rc_fds r))" using m1 by (metis kept_fd_def option.simps(5) set_mset_mset union_iff multi_member_last)
    then show ?thesis using l m1 Some by (simp add: abind_def azoom_def identity_close_def kept_fd_def)
  qed
qed

end
