(* ===== verification/HostFiles.thy ===== *)
theory HostFiles
  imports WorkerExchange
begin

text \<open>
  What \<open>WorkerLifecycle\<close> of \<open>geniusnew/worker_service.py\<close> sees of the host, and its checks of files: nodes with
  fixed metadata, and paths that only root can change, through every symbolic link.

  A \<open>host_view\<close> is what the host answers at one moment: \<open>lstat\<close>, \<open>readlink\<close>, the bytes of a file, the names in a
  directory, \<open>systemctl\<close>, the opened lease and host reference, the outcome of the checks of the Python installation. One call of a check sees one view, except for the kernel's view of a process, which is
  taken anew at every look. A path is the list of its parts below the root, as \<open>pathlib\<close> keeps it.
\<close>

section \<open>The host\<close>

datatype 'a os = NotFound | Broken | Found 'a

record stat_info =
  si_mode :: nat
  si_uid :: int
  si_gid :: int
  si_nlink :: int
  si_dev :: int
  si_ino :: int

type_synonym path = "pystr list"

text \<open>\<open>os.walk\<close>: the directories it visits in order, up to an error it reports.\<close>

datatype walk_step = Visit path | Unreadable

record host_view =
  hv_systemctl :: "pystr list \<Rightarrow> (int \<times> bytes \<times> bytes) option"
  hv_lstat :: "path \<Rightarrow> stat_info os"
  hv_fstat :: "int \<Rightarrow> stat_info os"
  hv_readlink :: "path \<Rightarrow> pystr os"
  hv_read :: "path \<Rightarrow> bytes os"
  hv_listdir :: "path \<Rightarrow> pystr list os"
  hv_walk :: "path \<Rightarrow> walk_step list"
  hv_resolve :: "path \<Rightarrow> path os"
  hv_stat :: "path \<Rightarrow> stat_info os"
  hv_namespace :: "pystr \<Rightarrow> string \<Rightarrow> (int \<times> int) option"
  hv_reference :: "(stat_info \<times> bytes) os"
  hv_open_lease :: "int os"
  hv_flock :: "int \<Rightarrow> bool"
  hv_uids :: "int \<times> int"
  hv_gids :: "int list"
  hv_executable :: pystr
  hv_bootstrap :: pystr
  hv_installation :: "unit result"

definition S_IFMT :: "stat_info \<Rightarrow> nat" where "S_IFMT i = si_mode i AND 61440"
definition S_ISDIR :: "stat_info \<Rightarrow> bool" where "S_ISDIR i \<longleftrightarrow> S_IFMT i = 16384"
definition S_ISREG :: "stat_info \<Rightarrow> bool" where "S_ISREG i \<longleftrightarrow> S_IFMT i = 32768"
definition S_ISLNK :: "stat_info \<Rightarrow> bool" where "S_ISLNK i \<longleftrightarrow> S_IFMT i = 40960"
definition S_ISSOCK :: "stat_info \<Rightarrow> bool" where "S_ISSOCK i \<longleftrightarrow> S_IFMT i = 49152"
definition S_IMODE :: "stat_info \<Rightarrow> nat" where "S_IMODE i = si_mode i AND 4095"

text \<open>Writable by the group or by others: \<open>st_mode & 0o022\<close>.\<close>

definition others_write :: "stat_info \<Rightarrow> bool" where "others_write i \<longleftrightarrow> si_mode i AND 18 \<noteq> 0"

section \<open>Nodes with fixed metadata\<close>

fun check_parents :: "host_view \<Rightarrow> path \<Rightarrow> path \<Rightarrow> unit result" where
  "check_parents h current [] = Inr ()"
| "check_parents h current [p] = Inr ()"
| "check_parents h current (p # q # ps) =
     (case hv_lstat h (current @ [p]) of
        Found i \<Rightarrow>
          if \<not> S_ISDIR i \<or> si_uid i \<noteq> 0 \<or> others_write i then fail ''worker service directory is not root controlled''
          else check_parents h (current @ [p]) (q # ps)
      | _ \<Rightarrow> fail ''worker service directory is unreadable'')"

definition check_node :: "host_view \<Rightarrow> pystr \<Rightarrow> (stat_info \<Rightarrow> bool) \<Rightarrow> int \<Rightarrow> nat \<Rightarrow> stat_info result" where
  "check_node h p expected gid mode =
     (let target = path_parts p in
      rbind (check_parents h [] target) (\<lambda>_.
      case (hv_lstat h (butlast target), hv_lstat h target) of
        (Found parent, Found i) \<Rightarrow>
          if \<not> expected i \<or> si_uid i \<noteq> 0 \<or> si_gid i \<noteq> gid \<or> S_IMODE i \<noteq> mode \<or> si_nlink i \<noteq> 1
          then fail ''worker service path metadata is unsafe'' else
          if si_uid parent \<noteq> 0 \<or> si_gid parent \<noteq> gid \<or> S_IMODE parent \<noteq> 456
          then fail ''worker service parent metadata is unsafe'' else Inr i
      | _ \<Rightarrow> fail ''worker service path is missing or unreadable''))"

section \<open>Paths only root can change\<close>

definition child :: "path \<Rightarrow> pystr \<Rightarrow> path" where
  "child current part = (if part = [46, 46] then butlast current else if part = [46] then current else current @ [part])"

text \<open>The loop: \<open>links\<close> counts the symbolic links followed so far.\<close>

function walk_path :: "host_view \<Rightarrow> bool \<Rightarrow> path \<Rightarrow> pystr list \<Rightarrow> nat \<Rightarrow> unit result" where
  "walk_path h regular current [] links = Inr ()"
| "walk_path h regular current (part # pending) links =
     (let candidate = child current part in
      case hv_lstat h candidate of
        Found i \<Rightarrow>
          if si_uid i \<noteq> 0 \<or> (\<not> S_ISLNK i \<and> others_write i)
             \<or> \<not> (S_ISLNK i \<or> (if pending \<noteq> [] \<or> \<not> regular then S_ISDIR i else S_ISREG i))
          then fail ''worker installed path is not root controlled'' else
          if S_ISLNK i then
            if links \<ge> 40 then fail ''worker installed path has too many symlinks'' else
            (case hv_readlink h candidate of
               Found t \<Rightarrow>
                 if is_absolute t then walk_path h regular [] ([46] # path_parts t @ pending) (Suc links)
                 else walk_path h regular current ((if path_parts t = [] then [[46]] else path_parts t) @ pending) (Suc links)
             | _ \<Rightarrow> fail ''worker installed path cannot be inspected'')
          else walk_path h regular candidate pending links
      | _ \<Rightarrow> fail ''worker installed path cannot be inspected'')"
  by pat_completeness auto
termination
  by (relation "measures [\<lambda>(h, regular, current, pending, links). 40 - links, \<lambda>(h, regular, current, pending, links). length pending]") auto

definition root_controlled :: "host_view \<Rightarrow> bool \<Rightarrow> pystr \<Rightarrow> unit result" where
  "root_controlled h regular p =
     (if \<not> is_absolute p then fail ''worker installed path is not absolute''
      else walk_path h regular [] ([46] # path_parts p) 0)"

section \<open>What the walk proves\<close>

text \<open>How the kernel resolves a path: the nodes it looks up, the links it follows, and where it arrives.\<close>

inductive resolves :: "host_view \<Rightarrow> path \<Rightarrow> pystr list \<Rightarrow> path list \<Rightarrow> nat \<Rightarrow> path \<Rightarrow> bool" for h where
  arrived: "resolves h current [] [] 0 current"
| enter: "hv_lstat h (child current part) = Found i \<Longrightarrow> \<not> S_ISLNK i \<Longrightarrow> resolves h (child current part) rest nodes n target
    \<Longrightarrow> resolves h current (part # rest) (child current part # nodes) n target"
| follow: "hv_lstat h (child current part) = Found i \<Longrightarrow> S_ISLNK i \<Longrightarrow> hv_readlink h (child current part) = Found t
    \<Longrightarrow> resolves h (if is_absolute t then [] else current) (path_parts t @ rest) nodes n target
    \<Longrightarrow> resolves h current (part # rest) (child current part # nodes) (Suc n) target"

definition trusted :: "host_view \<Rightarrow> path \<Rightarrow> bool" where
  "trusted h p \<longleftrightarrow> (\<exists>i. hv_lstat h p = Found i \<and> si_uid i = 0 \<and> (S_ISLNK i \<or> \<not> others_write i))"

text \<open>A node that stands at the end of the path.\<close>

definition ends_at :: "host_view \<Rightarrow> bool \<Rightarrow> path \<Rightarrow> bool" where
  "ends_at h regular p \<longleftrightarrow> (\<exists>i. hv_lstat h p = Found i \<and> si_uid i = 0 \<and> \<not> others_write i \<and> (if regular then S_ISREG i else S_ISDIR i))"

lemma path_parts_no_dot: "filter (\<lambda>p. p \<noteq> [46]) (path_parts s) = path_parts s"
  by (simp add: path_parts_def)

lemma walk_path_resolves:
  "walk_path h regular current pending links = Inr () \<Longrightarrow> pending \<noteq> [] \<Longrightarrow> links \<le> 40 \<Longrightarrow>
   (\<And>i. hv_lstat h [] = Found i \<Longrightarrow> \<not> S_ISLNK i) \<Longrightarrow> (\<And>i. hv_lstat h current = Found i \<Longrightarrow> \<not> S_ISLNK i) \<Longrightarrow>
   \<exists>nodes n target. resolves h current (filter (\<lambda>p. p \<noteq> [46]) pending) nodes n target \<and> links + n \<le> 40
     \<and> list_all (trusted h) nodes \<and> ends_at h regular target"
proof (induction h regular current pending links rule: walk_path.induct)
  case (2 h regular current part pending links)
  let ?c = "child current part" and ?parts = "filter (\<lambda>p. p \<noteq> [46]) pending"
  obtain i where i: "hv_lstat h ?c = Found i" using 2(4) by (auto simp: Let_def split: os.splits)
  have safe: "si_uid i = 0" "S_ISLNK i \<or> \<not> others_write i" "S_ISLNK i \<or> (if pending \<noteq> [] \<or> \<not> regular then S_ISDIR i else S_ISREG i)"
    using 2(4) i by (auto simp: Let_def split: if_splits)
  have tr: "trusted h ?c" using i safe by (auto simp: trusted_def)
  show ?case
  proof (cases "S_ISLNK i")
    case False
    have rest: "\<exists>nodes n target. resolves h ?c ?parts nodes n target \<and> links + n \<le> 40 \<and> list_all (trusted h) nodes \<and> ends_at h regular target"
    proof (cases "pending = []")
      case True
      then have "ends_at h regular ?c" using i safe False by (auto simp: ends_at_def)
      then show ?thesis using 2(6) True by (intro exI[of _ "[]"] exI[of _ 0] exI[of _ ?c]) (simp add: arrived)
    next
      case ne: False
      have "walk_path h regular ?c pending links = Inr ()" using 2(4) i False by (auto simp: Let_def split: if_splits)
      from 2(3)[OF refl i _ False this ne 2(6,7)] i False safe show ?thesis by auto
    qed
    show ?thesis
    proof (cases "part = [46]")
      case True
      then show ?thesis using rest by (simp add: child_def)
    next
      case dot: False
      obtain nodes n target where r: "resolves h ?c ?parts nodes n target" "links + n \<le> 40" "list_all (trusted h) nodes" "ends_at h regular target"
        using rest by blast
      from enter[OF i False r(1)] r(2-4) tr dot show ?thesis
        by (intro exI[of _ "?c # nodes"] exI[of _ n] exI[of _ target]) simp
    qed
  next
    case link: True
    have dot: "part \<noteq> [46]" using 2(8) i link by (auto simp: child_def)
    have l: "links < 40" using 2(4) i link by (auto simp: Let_def split: if_splits)
    obtain t where t: "hv_readlink h ?c = Found t" using 2(4) i link by (auto simp: Let_def split: if_splits os.splits)
    have "\<exists>nodes n target. resolves h (if is_absolute t then [] else current) (path_parts t @ ?parts) nodes n target \<and> Suc links + n \<le> 40
        \<and> list_all (trusted h) nodes \<and> ends_at h regular target"
    proof (cases "is_absolute t")
      case True
      have "walk_path h regular [] ([46] # path_parts t @ pending) (Suc links) = Inr ()"
        using 2(4) i link t True by (auto simp: Let_def split: if_splits)
      from 2(1)[OF refl i _ link _ t True this _ _ 2(7) 2(7)] safe link l True show ?thesis by (auto simp: path_parts_no_dot)
    next
      case False
      let ?p = "if path_parts t = [] then [[46]] else path_parts t"
      have "walk_path h regular current (?p @ pending) (Suc links) = Inr ()"
        using 2(4) i link t False by (auto simp: Let_def split: if_splits)
      moreover have "filter (\<lambda>p. p \<noteq> [46]) ?p = path_parts t" by (simp add: path_parts_no_dot)
      ultimately show ?thesis using 2(2)[OF refl i _ link _ t False _ _ _ 2(7,8)] safe link l False by auto
    qed
    then obtain nodes n target where r: "resolves h (if is_absolute t then [] else current) (path_parts t @ ?parts) nodes n target"
      "Suc links + n \<le> 40" "list_all (trusted h) nodes" "ends_at h regular target" by blast
    from follow[OF i link t r(1)] r(2-4) tr dot show ?thesis
      by (intro exI[of _ "?c # nodes"] exI[of _ "Suc n"] exI[of _ target]) simp
  qed
qed simp

text \<open>C17. A path that passes resolves, over at most forty links, to a file or directory of root, and root alone can change
  every directory and link on the way.\<close>

theorem root_controlled_sound:
  assumes "root_controlled h regular p = Inr ()" "\<And>i. hv_lstat h [] = Found i \<Longrightarrow> \<not> S_ISLNK i"
  shows "is_absolute p \<and> (\<exists>nodes n target. resolves h [] (path_parts p) nodes n target \<and> n \<le> 40
     \<and> list_all (trusted h) ([] # nodes) \<and> ends_at h regular target)"
proof -
  have abs: "is_absolute p" and w: "walk_path h regular [] ([46] # path_parts p) 0 = Inr ()"
    using assms(1) by (auto simp: root_controlled_def split: if_splits)
  have "trusted h []" using w by (auto simp: Let_def child_def trusted_def split: os.splits if_splits)
  with walk_path_resolves[OF w _ _ assms(2) assms(2)] abs show ?thesis by (auto simp: path_parts_no_dot)
qed


text \<open>A host on which \<open>/bin\<close> is a link to \<open>usr/bin\<close>.\<close>

definition linked_host :: host_view where
  "linked_host =
     \<lparr>hv_systemctl = (\<lambda>_. None),
      hv_lstat = (\<lambda>p. if p = [[98]] then Found \<lparr>si_mode = 41471, si_uid = 0, si_gid = 0, si_nlink = 1, si_dev = 1, si_ino = 2\<rparr>
                       else if p = [[117], [98], [112]] then Found \<lparr>si_mode = 33261, si_uid = 0, si_gid = 0, si_nlink = 1, si_dev = 1, si_ino = 3\<rparr>
                       else Found \<lparr>si_mode = 16877, si_uid = 0, si_gid = 0, si_nlink = 1, si_dev = 1, si_ino = 4\<rparr>),
      hv_fstat = (\<lambda>_. Broken), hv_readlink = (\<lambda>_. Found [117, 47, 98]), hv_read = (\<lambda>_. Broken), hv_listdir = (\<lambda>_. Broken), hv_walk = (\<lambda>_. []),
      hv_resolve = (\<lambda>_. Broken), hv_stat = (\<lambda>_. Broken), hv_namespace = (\<lambda>_ _. None), hv_reference = Broken, hv_open_lease = Broken,
      hv_flock = (\<lambda>_. False), hv_uids = (0, 0), hv_gids = [], hv_executable = [], hv_bootstrap = [], hv_installation = Inr ()\<rparr>"

theorem root_controlled_sound_witness:
  "root_controlled linked_host True [47, 98, 47, 112] = Inr () \<and> is_absolute [47, 98, 47, 112]
     \<and> (\<exists>nodes n target. resolves linked_host [] [[98], [112]] nodes n target \<and> ends_at linked_host True target)"
proof -
  have "root_controlled linked_host True [47, 98, 47, 112] = Inr ()"
    by (simp add: root_controlled_def is_absolute_def path_parts_def linked_host_def child_def S_ISLNK_def S_ISDIR_def S_ISREG_def S_IFMT_def others_write_def)
  moreover have "\<not> S_ISLNK i" if "hv_lstat linked_host [] = Found i" for i using that by (auto simp: linked_host_def S_ISLNK_def S_IFMT_def)
  moreover have "path_parts [47, 98, 47, 112] = [[98], [112]]" by (simp add: path_parts_def)
  ultimately show ?thesis using root_controlled_sound[of linked_host True "[47, 98, 47, 112]"] by auto
qed

end
