(* ===== verification/WorkerHost.thy ===== *)
theory WorkerHost
  imports HostFiles
begin

text \<open>
  The host evidence of \<open>WorkerLifecycle\<close> in \<open>geniusnew/worker_service.py\<close>: what \<open>systemctl\<close> says of a unit, the
  installed unit files, the fixed command, the identity of the Core and of its host, the lease, control groups
  and processes, and with them the operations the runner calls: \<open>preflight\<close>, \<open>acquire\<close>, \<open>assert_idle\<close>, \<open>bind\<close>
  and \<open>await_end\<close>.

  The checks of the Python installation below \<open>_check_installation\<close> are one outcome of the host view; numeric
  IDs have fewer digits than Python refuses to print.
\<close>

section \<open>Text\<close>

fun universal_newlines :: "pystr \<Rightarrow> pystr" where
  "universal_newlines (c # d # cs) =
     (if c = 13 \<and> d = 10 then 10 # universal_newlines cs else (if c = 13 then 10 else c) # universal_newlines (d # cs))"
| "universal_newlines [c] = [if c = 13 then 10 else c]"
| "universal_newlines [] = []"

text \<open>\<open>Path.read_text(encoding="ascii")\<close>; \<open>broken\<close> is what an \<open>OSError\<close> becomes.\<close>

definition read_ascii :: "host_view \<Rightarrow> path \<Rightarrow> string \<Rightarrow> pystr result" where
  "read_ascii h p broken =
     (case hv_read h p of
        Found b \<Rightarrow> (case ascii_decode b of None \<Rightarrow> Inl (PyError ''UnicodeDecodeError'') | Some s \<Rightarrow> Inr (universal_newlines s))
      | _ \<Rightarrow> fail broken)"

definition ends_with :: "pystr \<Rightarrow> pystr \<Rightarrow> bool" where
  "ends_with p s \<longleftrightarrow> length p \<le> length s \<and> drop (length s - length p) s = p"

definition before_equals :: "pystr \<Rightarrow> pystr" where "before_equals line = takeWhile (\<lambda>c. c \<noteq> 61) line"
definition after_equals :: "pystr \<Rightarrow> pystr" where "after_equals line = tl (dropWhile (\<lambda>c. c \<noteq> 61) line)"

text \<open>\<open>str.split(sep)\<close> with a separator of several characters; the part read so far is in reverse.\<close>

function split_on :: "pystr \<Rightarrow> pystr \<Rightarrow> pystr \<Rightarrow> pystr list" where
  "split_on sep part [] = [rev part]"
| "split_on sep part (c # cs) =
     (if sep \<noteq> [] \<and> starts_with sep (c # cs) then rev part # split_on sep [] (drop (length sep) (c # cs))
      else split_on sep (c # part) cs)"
  by pat_completeness auto
termination by (relation "measure (\<lambda>(sep, part, s). length s)") auto

definition id_text :: "int \<Rightarrow> pystr" where
  "id_text i = (if i < 0 then 45 # nat_digits (nat (- i)) else nat_digits (nat i))"

definition int_of_digits :: "pystr \<Rightarrow> int result" where
  "int_of_digits ds = (if length ds > max_str_digits then value_error else Inr (int (digits_value 0 ds)))"

text \<open>\<open>shlex.split\<close>: the word so far in reverse, whether it has quotes, and the state of the scanner.\<close>

datatype shlex_state = Between | Word | Quoted nat | Escaped "nat option"

definition is_shlex_space :: "nat \<Rightarrow> bool" where "is_shlex_space c \<longleftrightarrow> c \<in> {32, 9, 13, 10}"

fun shlex_scan :: "shlex_state \<Rightarrow> pystr \<Rightarrow> bool \<Rightarrow> pystr \<Rightarrow> pystr list option" where
  "shlex_scan Between word quoted [] = Some []"
| "shlex_scan Word word quoted [] = Some (if word = [] \<and> \<not> quoted then [] else [rev word])"
| "shlex_scan (Quoted q) word quoted [] = None"
| "shlex_scan (Escaped q) word quoted [] = None"
| "shlex_scan Between word quoted (c # cs) =
     (if is_shlex_space c then shlex_scan Between [] False cs else
      if c = 92 then shlex_scan (Escaped None) [] False cs else
      if c = 39 \<or> c = 34 then shlex_scan (Quoted c) [] False cs else shlex_scan Word [c] False cs)"
| "shlex_scan Word word quoted (c # cs) =
     (if is_shlex_space c then
        if word = [] \<and> \<not> quoted then shlex_scan Between [] False cs
        else map_option (\<lambda>ws. rev word # ws) (shlex_scan Between [] False cs) else
      if c = 39 \<or> c = 34 then shlex_scan (Quoted c) word quoted cs else
      if c = 92 then shlex_scan (Escaped None) word quoted cs else shlex_scan Word (c # word) quoted cs)"
| "shlex_scan (Quoted q) word quoted (c # cs) =
     (if c = q then shlex_scan Word word True cs else
      if c = 92 \<and> q = 34 then shlex_scan (Escaped (Some q)) word True cs else shlex_scan (Quoted q) (c # word) True cs)"
| "shlex_scan (Escaped q) word quoted (c # cs) =
     (case q of
        None \<Rightarrow> shlex_scan Word (c # word) quoted cs
      | Some d \<Rightarrow> shlex_scan (Quoted d) (if c \<noteq> 92 \<and> c \<noteq> d then c # 92 # word else c # word) quoted cs)"

definition shlex_split :: "pystr \<Rightarrow> pystr list option" where
  "shlex_split s = shlex_scan Between [] False s"

section \<open>Fields of a process state\<close>

text \<open>\<open>re.findall(r"^name\s+(x+)...$", text, re.MULTILINE)\<close> with \<open>k\<close> groups of one character class, after the
  last of them \<open>\s*$\<close> (\<open>trailing\<close>) or \<open>$\<close>. No group can match a space, so the greedy match is the only one;
  before a character that is no space, \<open>\s*$\<close> goes back to the last line break.\<close>

fun match_groups :: "(nat \<Rightarrow> bool) \<Rightarrow> nat \<Rightarrow> pystr \<Rightarrow> (pystr list \<times> pystr) option" where
  "match_groups cls 0 s = Some ([], s)"
| "match_groups cls (Suc k) s =
     (let r = dropWhile is_space s; g = takeWhile cls r in
      if takeWhile is_space s = [] \<or> g = [] then None
      else map_option (\<lambda>(gs, t). (g # gs, t)) (match_groups cls k (dropWhile cls r)))"

definition match_end :: "bool \<Rightarrow> pystr \<Rightarrow> pystr option" where
  "match_end trailing s =
     (if \<not> trailing then if s = [] \<or> hd s = 10 then Some s else None else
      let w = takeWhile is_space s in
      if dropWhile is_space s = [] then Some [] else
      if 10 \<in> set w then Some (drop (length w - Suc (length (takeWhile (\<lambda>c. c \<noteq> 10) (rev w)))) s) else None)"

definition match_field :: "pystr \<Rightarrow> (nat \<Rightarrow> bool) \<Rightarrow> nat \<Rightarrow> bool \<Rightarrow> pystr \<Rightarrow> (pystr list \<times> pystr) option" where
  "match_field name cls k trailing s =
     (if \<not> starts_with name s then None else
      Option.bind (match_groups cls k (drop (length name) s)) (\<lambda>(gs, r). map_option (Pair gs) (match_end trailing r)))"

function find_fields :: "pystr \<Rightarrow> (nat \<Rightarrow> bool) \<Rightarrow> nat \<Rightarrow> bool \<Rightarrow> bool \<Rightarrow> pystr \<Rightarrow> pystr list list" where
  "find_fields name cls k trailing start [] = []"
| "find_fields name cls k trailing start (c # cs) =
     (case (if start then match_field name cls k trailing (c # cs) else None) of
        Some (gs, rest) \<Rightarrow> gs # find_fields name cls k trailing False (drop (Suc (length cs) - length rest - 1) cs)
      | None \<Rightarrow> find_fields name cls k trailing (c = 10) cs)"
  by pat_completeness auto
termination by (relation "measure (\<lambda>(name, cls, k, trailing, start, s). length s)") auto

definition uid_fields :: "pystr \<Rightarrow> pystr list list" where
  "uid_fields status = find_fields (lit ''Uid:'') is_digit 4 True True status"

definition is_hex :: "nat \<Rightarrow> bool" where
  "is_hex c \<longleftrightarrow> is_lower_hex c \<or> 65 \<le> c \<and> c \<le> 70"

section \<open>Units\<close>

definition systemctl :: "host_view \<Rightarrow> pystr list \<Rightarrow> pystr result" where
  "systemctl h arguments =
     (case hv_systemctl h arguments of
        None \<Rightarrow> fail ''worker systemd state cannot be read''
      | Some (code, out, err) \<Rightarrow>
          if code \<noteq> 0 \<or> err \<noteq> [] \<or> length out > 8192 then fail ''worker systemd state cannot be read'' else
          (case ascii_decode out of None \<Rightarrow> fail ''worker systemd state is not ASCII'' | Some s \<Rightarrow> Inr s))"

type_synonym fields = "(pystr \<times> pystr) list"

fun parse_properties :: "fields \<Rightarrow> pystr list \<Rightarrow> fields result" where
  "parse_properties values [] = Inr values"
| "parse_properties values (line # lines) =
     (if 61 \<notin> set line then fail ''worker systemd properties are malformed'' else
      if before_equals line \<in> fst ` set values then fail ''worker systemd properties are ambiguous'' else
      parse_properties (values @ [(before_equals line, after_equals line)]) lines)"

definition show_unit :: "host_view \<Rightarrow> pystr \<Rightarrow> string list \<Rightarrow> fields result" where
  "show_unit h unit properties =
     rbind (systemctl h ([lit ''show'', unit, lit ''--no-pager''] @ map (\<lambda>p. lit (''-p'' @ p)) properties)) (\<lambda>output.
     rbind (parse_properties [] (splitlines [] output)) (\<lambda>values.
     if set (map fst values) \<noteq> set (map lit properties) then fail ''worker systemd properties are incomplete'' else Inr values))"

definition property_of :: "fields \<Rightarrow> string \<Rightarrow> pystr result" where
  "property_of values name = (case map_of values (lit name) of None \<Rightarrow> Inl (PyError ''KeyError'') | Some v \<Rightarrow> Inr v)"

definition property_is :: "fields \<Rightarrow> string \<Rightarrow> pystr \<Rightarrow> bool" where
  "property_is values name v \<longleftrightarrow> map_of values (lit name) = Some v"

subsection \<open>The installed files\<close>

fun parse_unit :: "(pystr \<times> fields) list \<Rightarrow> pystr option \<Rightarrow> pystr list \<Rightarrow> (pystr \<times> fields) list result" where
  "parse_unit sections current [] = Inr sections"
| "parse_unit sections current (raw # lines) =
     (let line = strip_text raw in
      if line = [] \<or> starts_with [35] line then parse_unit sections current lines else
      if starts_with [91] line \<and> ends_with [93] line then
        let name = tl (butlast line) in
        if name \<in> fst ` set sections then fail ''worker installed unit repeats a section''
        else parse_unit (sections @ [(name, [])]) (Some name) lines
      else
        case current of
          None \<Rightarrow> fail ''worker installed unit has malformed directives''
        | Some name \<Rightarrow>
            if 61 \<notin> set line then fail ''worker installed unit has malformed directives'' else
            if list_ex (\<lambda>(n, d). n = name \<and> before_equals line \<in> fst ` set d) sections
            then fail ''worker installed unit repeats a directive'' else
            parse_unit (map (\<lambda>(n, d). (n, if n = name then d @ [(before_equals line, after_equals line)] else d)) sections) current lines)"

text \<open>Two dictionaries of sections are equal.\<close>

definition sections_are :: "(pystr \<times> fields) list \<Rightarrow> (pystr \<times> fields) list \<Rightarrow> bool" where
  "sections_are sections expected \<longleftrightarrow>
     set (map fst sections) = set (map fst expected)
     \<and> list_all (\<lambda>(name, d). list_ex (\<lambda>(n, e). n = name \<and> set e = set d) sections) expected"

definition lits :: "(string \<times> string) list \<Rightarrow> fields" where
  "lits kvs = map (\<lambda>(k, v). (lit k, lit v)) kvs"

definition LOADER_ENVIRONMENT :: string where
  "LOADER_ENVIRONMENT = ''LD_LIBRARY_PATH LD_PRELOAD LD_AUDIT LD_DEBUG LD_DEBUG_OUTPUT LD_DYNAMIC_WEAK '' @
     ''LD_BIND_NOT LD_BIND_NOW LD_HWCAP_MASK LD_ORIGIN_PATH LD_PROFILE LD_PROFILE_OUTPUT '' @
     ''LD_SHOW_AUXV LD_TRACE_LOADED_OBJECTS LD_USE_LOAD_BIAS LD_VERBOSE LD_WARN '' @
     ''LD_PREFER_MAP_32BIT_EXEC GLIBC_TUNABLES GCONV_PATH LOCPATH''"

definition expected_service :: "worker_service_profile \<Rightarrow> fields" where
  "expected_service p =
     lits [(''Type'', ''exec''), (''Slice'', ''system.slice''), (''SupplementaryGroups'', ''''), (''StandardInput'', ''socket''),
       (''StandardOutput'', ''null''), (''StandardError'', ''null''), (''LimitCORE'', ''0''), (''CapabilityBoundingSet'', ''''),
       (''AmbientCapabilities'', ''''), (''NoNewPrivileges'', ''yes''), (''PrivateNetwork'', ''yes''),
       (''SystemCallFilter'', ''~socket socketpair''), (''SystemCallErrorNumber'', ''EPERM''), (''KillMode'', ''control-group''),
       (''SendSIGKILL'', ''yes''), (''Restart'', ''no''), (''TimeoutStartSec'', ''5s''), (''RuntimeMaxSec'', ''12s''),
       (''TimeoutStopSec'', ''2s''), (''TasksMax'', ''4''), (''MemoryMax'', ''512M''), (''UMask'', ''0077''),
       (''RuntimeDirectory'', ''geniusnew-worker/jobs/%i''), (''RuntimeDirectoryMode'', ''0700''), (''RuntimeDirectoryPreserve'', ''no''),
       (''UnsetEnvironment'', LOADER_ENVIRONMENT)]
     @ [(lit ''User'', id_text (wp_worker_uid p)), (lit ''Group'', id_text (wp_worker_gid p))]"

definition expected_socket :: "worker_service_profile \<Rightarrow> fields" where
  "expected_socket p =
     lits [(''Accept'', ''yes''), (''MaxConnections'', ''1''), (''SocketUser'', ''root''), (''SocketMode'', ''0660''),
       (''DirectoryMode'', ''0710''), (''RemoveOnStop'', ''yes'')]
     @ [(lit ''ListenStream'', wp_socket_path p), (lit ''SocketGroup'', id_text (wp_socket_gid p))]"

definition expected_command :: "host_view \<Rightarrow> worker_service_profile \<Rightarrow> pystr list" where
  "expected_command h p =
     [hv_executable h, lit ''-I'', lit ''-S'', hv_bootstrap h, lit ''--core-uid'', id_text (wp_core_uid p),
      lit ''--worker-uid'', id_text (wp_worker_uid p), lit ''--worker-gid'', id_text (wp_worker_gid p)]"

text \<open>\<open>service.pop("ExecStart", None)\<close>.\<close>

definition exec_start :: "(pystr \<times> fields) list \<Rightarrow> pystr option" where
  "exec_start sections = Option.bind (map_of sections (lit ''Service'')) (\<lambda>d. map_of d (lit ''ExecStart''))"

definition without_exec :: "(pystr \<times> fields) list \<Rightarrow> (pystr \<times> fields) list" where
  "without_exec sections = map (\<lambda>(n, d). (n, if n = lit ''Service'' then filter (\<lambda>kv. fst kv \<noteq> lit ''ExecStart'') d else d)) sections"

definition check_unit_content :: "host_view \<Rightarrow> worker_service_profile \<Rightarrow> path \<Rightarrow> pystr \<Rightarrow> unit result" where
  "check_unit_content h p file name =
     rbind (case read_ascii h file ''worker installed unit cannot be read'' of
              Inl e \<Rightarrow> fail ''worker installed unit cannot be read'' | Inr s \<Rightarrow> Inr s) (\<lambda>source.
     if length source > 8192 then fail ''worker installed unit is oversized'' else
     rbind (parse_unit [] None (splitlines [] source)) (\<lambda>sections.
     if ends_with (lit ''@.service'') name then
       if \<not> sections_are (without_exec sections)
            [(lit ''Unit'', lits [(''Description'', ''GeniusNew isolated worker for one accepted connection'')]), (lit ''Service'', expected_service p)]
       then fail ''worker installed service directives are not fixed'' else
       (case exec_start sections of
          None \<Rightarrow> fail ''worker installed service has no fixed bootstrap''
        | Some command \<Rightarrow>
            (case shlex_split command of
               None \<Rightarrow> fail ''worker bootstrap command is malformed''
             | Some arguments \<Rightarrow>
                 if arguments = [] then fail ''worker installed service has no fixed bootstrap'' else
                 if arguments \<noteq> expected_command h p \<or> \<not> is_absolute (hd arguments)
                 then fail ''worker installed service bootstrap is not fixed'' else
                 root_controlled h True (hd arguments)))
     else if \<not> sections_are sections
            [(lit ''Unit'', lits [(''Description'', ''GeniusNew isolated worker socket'')]), (lit ''Socket'', expected_socket p)]
     then fail ''worker installed socket directives are not fixed'' else Inr ()))"

definition check_unit_source :: "host_view \<Rightarrow> worker_service_profile \<Rightarrow> fields \<Rightarrow> pystr \<Rightarrow> unit result" where
  "check_unit_source h p properties name =
     rbind (property_of properties ''FragmentPath'') (\<lambda>file.
     if \<not> property_is properties ''LoadState'' (lit ''loaded'') \<or> \<not> property_is properties ''DropInPaths'' []
        \<or> \<not> property_is properties ''NeedDaemonReload'' (lit ''no'')
        \<or> path_parts file = [] \<or> last (path_parts file) \<noteq> name \<or> \<not> is_absolute file
     then fail ''worker unit is not the fixed installed template'' else
     rbind (root_controlled h True file) (\<lambda>_. check_unit_content h p (path_parts file) name))"

text \<open>\<open>name.replace("@.service", "@internal.service")\<close>: the text occurs at the end or not at all.\<close>

definition instance_name :: "pystr \<Rightarrow> pystr" where
  "instance_name name = (if ends_with (lit ''@.service'') name then take (length name - 9) name @ lit ''@internal.service'' else name)"

definition check_unit_file :: "host_view \<Rightarrow> worker_service_profile \<Rightarrow> pystr \<Rightarrow> unit result" where
  "check_unit_file h p name =
     rbind (show_unit h (instance_name name) [''LoadState'', ''FragmentPath'', ''DropInPaths'', ''NeedDaemonReload'']) (\<lambda>properties.
     check_unit_source h p properties name)"

subsection \<open>The running instance\<close>

fun parse_exec :: "fields \<Rightarrow> pystr list \<Rightarrow> fields result" where
  "parse_exec values [] = Inr values"
| "parse_exec values (item # items) =
     (if 61 \<notin> set item then fail ''worker ExecStart is malformed'' else
      if before_equals item \<in> fst ` set values then fail ''worker ExecStart is ambiguous'' else
      parse_exec (values @ [(before_equals item, after_equals item)]) items)"

text \<open>\<open>value[2:-2]\<close>.\<close>

definition inner :: "pystr \<Rightarrow> pystr" where "inner s = drop 2 (take (length s - 2) s)"

definition check_exec :: "host_view \<Rightarrow> worker_service_profile \<Rightarrow> pystr \<Rightarrow> unit result" where
  "check_exec h p value =
     (if \<not> starts_with (lit ''{ '') value \<or> \<not> ends_with (lit '' }'') value then fail ''worker ExecStart is malformed'' else
      rbind (parse_exec [] (split_on (lit '' ; '') [] (inner value))) (\<lambda>fields.
      case (map_of fields (lit ''path''), map_of fields (lit ''argv[]'')) of
        (Some executable, Some arguments) \<Rightarrow>
          if \<not> is_absolute executable \<or> \<not> property_is fields ''ignore_errors'' (lit ''no'') \<or> arguments = []
          then fail ''worker ExecStart is not fixed'' else
          (case shlex_split arguments of
             None \<Rightarrow> Inl (PyError ''ValueError'')
           | Some words \<Rightarrow>
               if words \<noteq> expected_command h p \<or> executable \<noteq> hv_executable h then fail ''worker ExecStart arguments are not fixed''
               else root_controlled h True executable)
      | _ \<Rightarrow> fail ''worker ExecStart is not fixed''))"

definition expected_settings :: "worker_service_profile \<Rightarrow> pystr \<Rightarrow> fields" where
  "expected_settings p inst =
     lits [(''SupplementaryGroups'', ''''), (''CapabilityBoundingSet'', ''''), (''AmbientCapabilities'', ''''), (''NoNewPrivileges'', ''yes''),
       (''PrivateNetwork'', ''yes''), (''StandardInput'', ''socket''), (''StandardOutput'', ''null''), (''StandardError'', ''null''),
       (''LimitCORE'', ''0''), (''LimitCORESoft'', ''0''), (''KillMode'', ''control-group''), (''SendSIGKILL'', ''yes''), (''Restart'', ''no''),
       (''RuntimeMaxUSec'', ''12s''), (''TimeoutStopUSec'', ''2s''), (''RuntimeDirectoryMode'', ''0700''), (''RuntimeDirectoryPreserve'', ''no''),
       (''Slice'', ''system.slice''), (''SystemCallFilter'', ''~socket socketpair''), (''SystemCallErrorNumber'', ''1''),
       (''UnsetEnvironment'', LOADER_ENVIRONMENT)]
     @ [(lit ''User'', id_text (wp_worker_uid p)), (lit ''Group'', id_text (wp_worker_gid p)),
        (lit ''RuntimeDirectory'',
         (if starts_with (lit ''/run/'') (wp_runtime_root p) then drop 5 (wp_runtime_root p) else wp_runtime_root p) @ [47] @ inst)]"

definition check_instance_settings :: "host_view \<Rightarrow> worker_service_profile \<Rightarrow> fields \<Rightarrow> pystr \<Rightarrow> unit result" where
  "check_instance_settings h p properties inst =
     (if list_ex (\<lambda>(k, v). map_of properties k \<noteq> Some v) (expected_settings p inst)
      then fail ''worker instance hardening does not match its fixed profile'' else
      rbind (property_of properties ''ExecStart'') (check_exec h p))"

section \<open>The Core and its host\<close>

text \<open>\<open>any(int(value) != uid for value in values)\<close> stops at the first that differs.\<close>

fun any_other_uid :: "int \<Rightarrow> pystr list \<Rightarrow> bool result" where
  "any_other_uid uid [] = Inr False"
| "any_other_uid uid (v # vs) = rbind (int_of_digits v) (\<lambda>i. if i \<noteq> uid then Inr True else any_other_uid uid vs)"

fun check_caps :: "pystr \<Rightarrow> string list \<Rightarrow> unit result" where
  "check_caps status [] = Inr ()"
| "check_caps status (f # fs) =
     (case find_fields (lit (f @ '':'')) is_hex 1 False True status of
        [[v]] \<Rightarrow> if list_ex (\<lambda>c. c \<noteq> 48) v then fail ''Core retains Linux capabilities'' else check_caps status fs
      | _ \<Rightarrow> fail ''Core retains Linux capabilities'')"

definition check_core_identity :: "host_view \<Rightarrow> worker_service_profile \<Rightarrow> unit result" where
  "check_core_identity h p =
     (if fst (hv_uids h) \<noteq> wp_core_uid p \<or> snd (hv_uids h) \<noteq> wp_core_uid p
         \<or> wp_worker_gid p \<in> set (hv_gids h) \<or> wp_socket_gid p \<notin> set (hv_gids h)
      then fail ''Core does not have its fixed unprivileged service identity'' else
      rbind (read_ascii h (map lit [''proc'', ''self'', ''status'']) ''Core privilege state cannot be read'') (\<lambda>status.
      case uid_fields status of
        [values] \<Rightarrow>
          rbind (any_other_uid (wp_core_uid p) values) (\<lambda>other.
          if other then fail ''Core UID state is ambiguous'' else
          rbind (check_caps status [''CapInh'', ''CapPrm'', ''CapEff'', ''CapBnd'', ''CapAmb'']) (\<lambda>_.
          if find_fields (lit ''NoNewPrivs:'') is_digit 1 True True status \<noteq> [[lit ''1'']] then fail ''Core can gain privileges'' else Inr ()))
      | _ \<Rightarrow> fail ''Core UID state is ambiguous''))"

fun check_id_maps :: "host_view \<Rightarrow> string list \<Rightarrow> unit result" where
  "check_id_maps h [] = Inr ()"
| "check_id_maps h (name # names) =
     (case read_ascii h (map lit [''proc'', ''self'', name]) ''Core ID mapping cannot be read'' of
        Inl e \<Rightarrow> fail ''Core ID mapping cannot be read''
      | Inr text \<Rightarrow>
          if split_words text [] \<noteq> map lit [''0'', ''0'', ''4294967295''] then fail ''Core does not have the initial ID mapping''
          else check_id_maps h names)"

definition HOST_NAMESPACES :: "string list" where "HOST_NAMESPACES = [''mnt'', ''pid'', ''user'', ''cgroup'']"

definition pair_value :: "int \<times> int \<Rightarrow> pyval" where "pair_value d = PList [PInt (fst d), PInt (snd d)]"

definition namespace_ids :: "host_view \<Rightarrow> pystr \<Rightarrow> message result" where
  "namespace_ids h pid =
     (case opt_map (\<lambda>name. map_option (\<lambda>d. (lit name, pair_value d)) (hv_namespace h pid name)) HOST_NAMESPACES of
        None \<Rightarrow> fail ''Core namespace state cannot be read''
      | Some ids \<Rightarrow> Inr ids)"

definition host_paths :: "worker_service_profile \<Rightarrow> (string \<times> pystr) list" where
  "host_paths p = [(''root'', lit ''/''), (''proc'', lit ''/proc''), (''cgroup'', lit ''/sys/fs/cgroup''),
     (''runtime'', wp_runtime_root p), (''lease'', wp_lease_path p)]"

text \<open>\<open>[0-9a-f]{8}(?:-[0-9a-f]{4}){3}-[0-9a-f]{12}\<close>.\<close>

definition is_boot_id :: "pystr \<Rightarrow> bool" where
  "is_boot_id s \<longleftrightarrow> map length (split_sep 45 s) = [8, 4, 4, 4, 12] \<and> list_all (list_all is_lower_hex) (split_sep 45 s)"

definition dev_ino :: "stat_info \<Rightarrow> int \<times> int" where "dev_ino i = (si_dev i, si_ino i)"

definition host_snapshot :: "host_view \<Rightarrow> worker_service_profile \<Rightarrow> pystr \<Rightarrow> int option \<Rightarrow> bytes result" where
  "host_snapshot h p pid lease_fd =
     rbind (namespace_ids h pid) (\<lambda>namespaces.
     let unreadable = ''Core host paths or boot identity cannot be read'' in
     rbind (case read_ascii h (map lit [''proc'', ''sys'', ''kernel'', ''random'', ''boot_id'']) unreadable of
              Inl e \<Rightarrow> fail unreadable | Inr s \<Rightarrow> Inr (strip_text s)) (\<lambda>boot.
     case opt_map (\<lambda>(name, path).
            case (if name = ''lease'' \<and> lease_fd \<noteq> None then hv_fstat h (the lease_fd) else hv_stat h (path_parts path)) of
              Found i \<Rightarrow> Some (lit name, pair_value (dev_ino i)) | _ \<Rightarrow> None) (host_paths p) of
       None \<Rightarrow> fail unreadable
     | Some paths \<Rightarrow>
         if \<not> is_boot_id boot then fail ''Core boot identity is invalid'' else
         canonical (PDict [(lit ''version'', PInt 1), (lit ''boot_id'', PStr boot), (lit ''namespaces'', PDict namespaces), (lit ''paths'', PDict paths)])))"

definition HOST_REFERENCE :: pystr where "HOST_REFERENCE = lit ''/run/geniusnew-worker/ipc/host-state.json''"

text \<open>A line of \<open>mountinfo\<close>: what stands before and after \<open>" - "\<close>, when it mounts \<open>/proc\<close>.\<close>

definition proc_mount :: "pystr \<Rightarrow> (pystr list \<times> pystr list) option" where
  "proc_mount line =
     (let halves = split_on (lit '' - '') [] line;
          before = split_words (hd halves) [];
          after = split_words (drop (length (hd halves) + 3) line) [] in
      if length before > 5 \<and> before ! 4 = lit ''/proc'' then Some (before, if length halves > 1 then after else []) else None)"

definition check_proc_mount :: "pystr \<Rightarrow> unit result" where
  "check_proc_mount mountinfo =
     (case List.map_filter proc_mount (splitlines [] mountinfo) of
        [(before, after)] \<Rightarrow>
          if length after < 3 \<or> after ! 0 \<noteq> lit ''proc'' then fail ''Core cannot prove a complete procfs process view'' else
          if list_ex (\<lambda>option. starts_with (lit ''hidepid='') option \<and> option \<noteq> lit ''hidepid=0'')
               (split_sep 44 (before ! 5) @ split_sep 44 (after ! 2))
          then fail ''Core procfs hides worker processes'' else Inr ()
      | _ \<Rightarrow> fail ''Core cannot prove a complete procfs process view'')"

definition check_host_namespaces :: "host_view \<Rightarrow> worker_service_profile \<Rightarrow> int option \<Rightarrow> unit result" where
  "check_host_namespaces h p lease_fd =
     rbind (check_id_maps h [''uid_map'', ''gid_map'']) (\<lambda>_.
     rbind (check_node h HOST_REFERENCE S_ISREG (wp_socket_gid p) 288) (\<lambda>i.
     case hv_reference h of
       Found (opened, content) \<Rightarrow>
         if dev_ino i \<noteq> dev_ino opened then fail ''Core host reference inode changed during open'' else
         rbind (host_snapshot h p (lit ''self'') lease_fd) (\<lambda>now.
         if take 4097 content \<noteq> now then fail ''Core host reference does not match its boot, namespaces and paths'' else
         rbind (read_ascii h (map lit [''proc'', ''self'', ''mountinfo'']) ''Core procfs mount state cannot be read'') check_proc_mount)
     | _ \<Rightarrow> fail ''Core host reference cannot be read''))"

definition host_reference :: "host_view \<Rightarrow> worker_service_profile \<Rightarrow> bytes result" where
  "host_reference h p =
     (if hv_uids h \<noteq> (0, 0) then fail ''host reference must be provisioned by host root'' else
      rbind (check_id_maps h [''uid_map'', ''gid_map'']) (\<lambda>_.
      rbind (namespace_ids h (lit ''self'')) (\<lambda>own.
      rbind (namespace_ids h (lit ''1'')) (\<lambda>manager.
      if own \<noteq> manager then fail ''host provisioning does not share the manager namespaces'' else
      case (hv_stat h [], hv_stat h (map lit [''proc'', ''1'', ''root''])) of
        (Found i, Found j) \<Rightarrow>
          if dev_ino i \<noteq> dev_ino j then fail ''host provisioning does not share the manager root'' else
          rbind (check_node h (wp_lease_path p) S_ISREG (wp_socket_gid p) 432) (\<lambda>_.
          rbind (root_controlled h False (wp_runtime_root p)) (\<lambda>_.
          rbind (hv_installation h) (\<lambda>_. host_snapshot h p (lit ''1'') None)))
      | _ \<Rightarrow> fail ''host provisioning root cannot be inspected''))))"

section \<open>Readiness and the lease\<close>

definition socket_unit :: "worker_service_profile \<Rightarrow> pystr" where
  "socket_unit p = butlast (wp_unit_prefix p) @ lit ''.socket''"

definition preflight :: "host_view \<Rightarrow> worker_service_profile \<Rightarrow> unit result" where
  "preflight h p =
     rbind (check_core_identity h p) (\<lambda>_.
     rbind (check_host_namespaces h p None) (\<lambda>_.
     rbind (check_node h (wp_socket_path p) S_ISSOCK (wp_socket_gid p) 432) (\<lambda>_.
     rbind (check_node h (wp_lease_path p) S_ISREG (wp_socket_gid p) 432) (\<lambda>_.
     rbind (root_controlled h False (wp_runtime_root p)) (\<lambda>_.
     rbind (hv_installation h) (\<lambda>_.
     rbind (check_unit_file h p (socket_unit p)) (\<lambda>_.
     rbind (check_unit_file h p (wp_unit_prefix p @ lit ''.service'')) (\<lambda>_.
     rbind (show_unit h (socket_unit p) [''ActiveState'', ''Accept'', ''MaxConnections'', ''SocketUser'', ''SocketGroup'',
         ''SocketMode'', ''Listen'', ''RemoveOnStop'']) (\<lambda>properties.
     if \<not> property_is properties ''ActiveState'' (lit ''active'') \<or> \<not> property_is properties ''Accept'' (lit ''yes'')
        \<or> \<not> property_is properties ''MaxConnections'' (lit ''1'') \<or> \<not> property_is properties ''SocketUser'' (lit ''root'')
        \<or> \<not> property_is properties ''SocketGroup'' (id_text (wp_socket_gid p))
        \<or> \<not> (property_is properties ''SocketMode'' (lit ''0660'') \<or> property_is properties ''SocketMode'' (lit ''660''))
        \<or> \<not> property_is properties ''Listen'' (wp_socket_path p @ lit '' (Stream)'') \<or> \<not> property_is properties ''RemoveOnStop'' (lit ''yes'')
     then fail ''worker socket unit does not match its fixed profile'' else Inr ())))))))))"

text \<open>The descriptor is open in the table from \<open>os.open\<close> on, and closed when anything raises.\<close>

definition acquire_checks :: "host_view \<Rightarrow> worker_service_profile \<Rightarrow> int \<Rightarrow> unit result" where
  "acquire_checks h p fd =
     (case (hv_lstat h (path_parts (wp_lease_path p)), hv_fstat h fd) of
        (Found i, Found j) \<Rightarrow>
          if dev_ino i \<noteq> dev_ino j then fail ''worker lease inode changed during open'' else
          if \<not> hv_flock h fd then fail ''worker service slot is occupied'' else
          check_host_namespaces h p (Some fd)
      | _ \<Rightarrow> Inl (PyError ''OSError''))"

definition acquire :: "host_view \<Rightarrow> worker_service_profile \<Rightarrow> (int list, int) action" where
  "acquire h p fds =
     (case check_node h (wp_lease_path p) S_ISREG (wp_socket_gid p) 432 of
        Inl e \<Rightarrow> (Inl e, fds)
      | Inr _ \<Rightarrow>
          (case hv_open_lease h of
             Found fd \<Rightarrow>
               (case acquire_checks h p fd of
                  Inl e \<Rightarrow> (case close_all [fd] (fd # fds) of (Inl e', t) \<Rightarrow> (Inl e', t) | (Inr _, t) \<Rightarrow> (Inl e, t))
                | Inr _ \<Rightarrow> (Inr fd, fd # fds))
           | _ \<Rightarrow> (fail ''worker lease cannot be opened'', fds)))"

section \<open>Processes and their groups\<close>

definition occupied :: exc where "occupied = ContractError ''worker cgroup is occupied''"

fun walk_groups :: "host_view \<Rightarrow> bool \<Rightarrow> walk_step list \<Rightarrow> unit result" where
  "walk_groups h visited [] = (if visited then Inr () else fail ''worker cgroup disappeared during inspection'')"
| "walk_groups h visited (Unreadable # steps) = fail ''worker cgroup is unreadable''"
| "walk_groups h visited (Visit dir # steps) =
     rbind (read_ascii h (dir @ [lit ''cgroup.procs'']) ''worker cgroup is unreadable'') (\<lambda>procs.
     if strip_text procs \<noteq> [] then Inl occupied else walk_groups h True steps)"

definition require_empty_cgroup :: "host_view \<Rightarrow> path \<Rightarrow> unit result" where
  "require_empty_cgroup h path =
     (case hv_lstat h path of
        NotFound \<Rightarrow>
          (case hv_listdir h (butlast path) of
             Found names \<Rightarrow> if last path \<in> set names then fail ''worker cgroup absence is ambiguous'' else Inr ()
           | _ \<Rightarrow> fail ''worker cgroup is unreadable'')
      | Broken \<Rightarrow> fail ''worker cgroup is unreadable''
      | Found i \<Rightarrow> if \<not> S_ISDIR i then fail ''worker cgroup is not a directory'' else walk_groups h False (hv_walk h path))"

definition runtime_absent :: "host_view \<Rightarrow> path \<Rightarrow> bool result" where
  "runtime_absent h path =
     (case hv_lstat h path of NotFound \<Rightarrow> Inr True | Broken \<Rightarrow> fail ''worker runtime state is unreadable'' | Found _ \<Rightarrow> Inr False)"

definition CGROUP_ROOT :: path where "CGROUP_ROOT = map lit [''sys'', ''fs'', ''cgroup'']"

definition cgroup_path :: "host_view \<Rightarrow> pystr \<Rightarrow> path result" where
  "cgroup_path h grp =
     (if \<not> starts_with (lit ''/system.slice/'') grp \<or> lit ''..'' \<in> set (split_sep 47 grp) \<or> ends_with [47] grp
      then fail ''worker cgroup path is unexpected'' else
      let path = CGROUP_ROOT @ path_parts grp in
      case hv_resolve h path of
        Found resolved \<Rightarrow>
          if take 4 resolved \<noteq> CGROUP_ROOT @ [lit ''system.slice''] then fail ''worker cgroup path escapes system.slice'' else Inr path
      | _ \<Rightarrow> Inl (PyError ''OSError''))"

fun any_uid :: "int \<Rightarrow> pystr list \<Rightarrow> bool result" where
  "any_uid uid [] = Inr False"
| "any_uid uid (v # vs) = rbind (int_of_digits v) (\<lambda>i. if i = uid then Inr True else any_uid uid vs)"

fun uid_scan :: "host_view \<Rightarrow> int \<Rightarrow> pystr list \<Rightarrow> int list result" where
  "uid_scan h uid [] = Inr []"
| "uid_scan h uid (name # names) =
     (if name = [] \<or> \<not> list_all is_digit name then uid_scan h uid names else
      let status = [lit ''proc'', name, lit ''status''] in
      if hv_read h status = NotFound then uid_scan h uid names else
      rbind (read_ascii h status ''worker UID process state is unreadable'') (\<lambda>text.
      case uid_fields text of
        [values] \<Rightarrow>
          rbind (any_uid uid values) (\<lambda>mine.
          if \<not> mine then uid_scan h uid names else
          rbind (int_of_digits name) (\<lambda>pid. rbind (uid_scan h uid names) (\<lambda>found. Inr (pid # found))))
      | _ \<Rightarrow> fail ''worker UID process state is ambiguous''))"

definition uid_processes :: "host_view \<Rightarrow> worker_service_profile \<Rightarrow> int list result" where
  "uid_processes h p =
     (case hv_listdir h [lit ''proc''] of
        Found names \<Rightarrow> uid_scan h (wp_worker_uid p) names
      | _ \<Rightarrow> fail ''worker UID process listing is unreadable'')"

section \<open>No instance is left\<close>

definition stopped :: "fields \<Rightarrow> bool" where
  "stopped properties \<longleftrightarrow>
     (property_is properties ''ActiveState'' (lit ''inactive'') \<or> property_is properties ''ActiveState'' (lit ''failed''))
     \<and> property_is properties ''MainPID'' (lit ''0'')"

definition instance_of :: "worker_service_profile \<Rightarrow> pystr \<Rightarrow> pystr" where
  "instance_of p unit = drop (length (wp_unit_prefix p)) (take (length unit - 8) unit)"

definition runtime_dir :: "worker_service_profile \<Rightarrow> pystr \<Rightarrow> path" where
  "runtime_dir p inst = path_parts (wp_runtime_root p) @ path_parts inst"

definition is_worker_unit :: "worker_service_profile \<Rightarrow> pystr \<Rightarrow> bool" where
  "is_worker_unit p name \<longleftrightarrow> starts_with (wp_unit_prefix p) name \<and> ends_with (lit ''.service'') name"

fun idle_units :: "host_view \<Rightarrow> worker_service_profile \<Rightarrow> pystr list \<Rightarrow> unit result" where
  "idle_units h p [] = Inr ()"
| "idle_units h p (line # lines) =
     (case split_words line [] of
        [] \<Rightarrow> fail ''worker unit list is ambiguous''
      | unit # _ \<Rightarrow>
          if \<not> is_worker_unit p unit then fail ''worker unit list is ambiguous'' else
          rbind (show_unit h unit [''ActiveState'', ''MainPID'', ''ControlGroup'']) (\<lambda>properties.
          if \<not> stopped properties then fail ''previous worker invocation is still active'' else
          rbind (property_of properties ''ControlGroup'') (\<lambda>grp.
          rbind (if grp = [] then Inr () else rbind (cgroup_path h grp) (require_empty_cgroup h)) (\<lambda>_.
          rbind (runtime_absent h (runtime_dir p (instance_of p unit))) (\<lambda>absent.
          if \<not> absent then fail ''previous worker runtime directory remains'' else idle_units h p lines)))))"

fun idle_groups :: "host_view \<Rightarrow> worker_service_profile \<Rightarrow> pystr list \<Rightarrow> unit result" where
  "idle_groups h p [] = Inr ()"
| "idle_groups h p (name # names) =
     rbind (if is_worker_unit p name then require_empty_cgroup h (CGROUP_ROOT @ [lit ''system.slice'', name]) else Inr ()) (\<lambda>_.
     idle_groups h p names)"

definition assert_idle :: "host_view \<Rightarrow> worker_service_profile \<Rightarrow> unit result" where
  "assert_idle h p =
     rbind (systemctl h (map lit [''list-units'', ''--all'', ''--plain'', ''--no-legend''] @ [wp_unit_prefix p @ lit ''*.service''])) (\<lambda>output.
     rbind (idle_units h p (splitlines [] output)) (\<lambda>_.
     rbind (case hv_listdir h (CGROUP_ROOT @ [lit ''system.slice'']) of
              Found names \<Rightarrow> idle_groups h p names | _ \<Rightarrow> fail ''worker cgroup listing is unreadable'') (\<lambda>_.
     case (hv_lstat h (path_parts (wp_runtime_root p)), hv_listdir h (path_parts (wp_runtime_root p))) of
       (Found i, names) \<Rightarrow>
         if \<not> S_ISDIR i \<or> si_uid i \<noteq> 0 \<or> others_write i then fail ''worker runtime root is unsafe or not empty'' else
         (case names of
            Found [] \<Rightarrow>
              rbind (uid_processes h p) (\<lambda>found. if found \<noteq> [] then fail ''worker UID still has a live process'' else Inr ())
          | Found _ \<Rightarrow> fail ''worker runtime root is unsafe or not empty''
          | _ \<Rightarrow> fail ''worker runtime root is unreadable'')
     | _ \<Rightarrow> fail ''worker runtime root is unreadable'')))"

section \<open>Binding and the end\<close>

definition is_instance_char :: "nat \<Rightarrow> bool" where
  "is_instance_char c \<longleftrightarrow> 65 \<le> c \<and> c \<le> 90 \<or> 97 \<le> c \<and> c \<le> 122 \<or> is_digit c \<or> c = 95 \<or> c = 92 \<or> c = 45"

text \<open>\<open>re.fullmatch(r"/system\.slice/(prefix[A-Za-z0-9_\\-]+\.service)", group)\<close>: the unit.\<close>

definition match_unit :: "worker_service_profile \<Rightarrow> pystr \<Rightarrow> pystr option" where
  "match_unit p grp =
     (let unit = drop 14 grp in
      if starts_with (lit ''/system.slice/'') grp \<and> is_worker_unit p unit
         \<and> length (wp_unit_prefix p) + 8 < length unit \<and> list_all is_instance_char (instance_of p unit)
      then Some unit else None)"

definition BIND_SETTINGS :: "string list" where
  "BIND_SETTINGS = [''User'', ''Group'', ''SupplementaryGroups'', ''CapabilityBoundingSet'', ''AmbientCapabilities'', ''NoNewPrivileges'',
     ''PrivateNetwork'', ''StandardInput'', ''StandardOutput'', ''StandardError'', ''LimitCORE'', ''LimitCORESoft'', ''KillMode'',
     ''SendSIGKILL'', ''Restart'', ''RuntimeMaxUSec'', ''TimeoutStopUSec'', ''RuntimeDirectory'', ''RuntimeDirectoryMode'',
     ''RuntimeDirectoryPreserve'', ''Slice'', ''SystemCallFilter'', ''SystemCallErrorNumber'', ''UnsetEnvironment'', ''ExecStart'']"

definition BIND_PROPERTIES :: "string list" where
  "BIND_PROPERTIES = [''ActiveState'', ''InvocationID'', ''ControlGroup'', ''MainPID'', ''LoadState'', ''FragmentPath'', ''DropInPaths'',
     ''NeedDaemonReload''] @ BIND_SETTINGS"

text \<open>The checks of the instance a process is in; the two looks at the process are at two moments.\<close>

definition bind_instance :: "host_view \<Rightarrow> kernel_view \<Rightarrow> worker_service_profile \<Rightarrow> int \<Rightarrow> int \<Rightarrow> pystr \<Rightarrow> pystr \<Rightarrow> fields \<Rightarrow> invocation result" where
  "bind_instance h view p pid fd grp unit properties =
     rbind (property_of properties ''InvocationID'') (\<lambda>invocation_id.
     if \<not> property_is properties ''ActiveState'' (lit ''active'') \<or> \<not> property_is properties ''ControlGroup'' grp
        \<or> \<not> property_is properties ''MainPID'' (id_text pid) \<or> \<not> hex_string 32 invocation_id
     then fail ''worker PID does not match an active invocation'' else
     rbind (check_unit_source h p properties (wp_unit_prefix p @ lit ''.service'')) (\<lambda>_.
     rbind (check_instance_settings h p properties (instance_of p unit)) (\<lambda>_.
     rbind (root_controlled h False (wp_runtime_root p)) (\<lambda>_.
     case hv_lstat h (runtime_dir p (instance_of p unit)) of
       Found i \<Rightarrow>
         if \<not> S_ISDIR i \<or> si_uid i \<noteq> wp_worker_uid p \<or> si_gid i \<noteq> wp_worker_gid p \<or> S_IMODE i \<noteq> 448
         then fail ''worker runtime directory metadata is unsafe'' else
         rbind (pidfd_exited view fd) (\<lambda>exited.
         if exited then fail ''worker exited before payload'' else
         rbind (cgroup_path h grp) (\<lambda>cgroup.
         Inr \<lparr>iv_unit = unit, iv_invocation_id = invocation_id, iv_cgroup = 47 # join_sep 47 cgroup,
              iv_runtime_dir = 47 # join_sep 47 (runtime_dir p (instance_of p unit)), iv_pid = pid\<rparr>))
     | _ \<Rightarrow> fail ''worker runtime directory is unreadable''))))"

definition bind_worker :: "host_view \<Rightarrow> kernel_view \<Rightarrow> kernel_view \<Rightarrow> worker_service_profile \<Rightarrow> int \<Rightarrow> int \<Rightarrow> invocation result" where
  "bind_worker h view view' p pid fd =
     rbind (pidfd_exited view fd) (\<lambda>exited.
     if exited then fail ''worker exited before the invocation check'' else
     rbind (read_ascii h [lit ''proc'', id_text pid, lit ''cgroup''] ''worker PID cgroup is unreadable'') (\<lambda>text.
     case splitlines [] text of
       [line] \<Rightarrow>
         if \<not> starts_with (lit ''0::'') line then fail ''worker PID cgroup is ambiguous'' else
         (case match_unit p (drop 3 line) of
            None \<Rightarrow> fail ''worker PID is outside the expected unit''
          | Some unit \<Rightarrow>
              rbind (show_unit h unit BIND_PROPERTIES) (bind_instance h view' p pid fd (drop 3 line) unit))
     | _ \<Rightarrow> fail ''worker PID cgroup is ambiguous''))"

text \<open>One look: \<open>True\<close> when everything is gone.\<close>

definition ended :: "host_view \<Rightarrow> kernel_view \<Rightarrow> worker_service_profile \<Rightarrow> invocation \<Rightarrow> int \<Rightarrow> bool result" where
  "ended h view p ivc fd =
     rbind (show_unit h (iv_unit ivc) [''ActiveState'', ''InvocationID'', ''ControlGroup'', ''MainPID'']) (\<lambda>properties.
     rbind (property_of properties ''InvocationID'') (\<lambda>invocation_id.
     if invocation_id \<noteq> iv_invocation_id ivc \<and> invocation_id \<noteq> [] then fail ''worker invocation changed before cleanup'' else
     if \<not> stopped properties then Inr False else
     case require_empty_cgroup h (path_parts (iv_cgroup ivc)) of
       Inl e \<Rightarrow> if e = occupied then Inr False else Inl e
     | Inr _ \<Rightarrow>
         rbind (runtime_absent h (path_parts (iv_runtime_dir ivc))) (\<lambda>absent.
         if \<not> absent then Inr False else
         rbind (pidfd_exited view fd) (\<lambda>exited.
         if \<not> exited then Inr False else
         rbind (uid_processes h p) (\<lambda>found. Inr (found = []))))))"

text \<open>The looks that fit before the deadline, one after the other.\<close>

fun await_end :: "worker_service_profile \<Rightarrow> invocation \<Rightarrow> int \<Rightarrow> (host_view \<times> kernel_view) list \<Rightarrow> unit result" where
  "await_end p ivc fd [] = fail ''worker invocation end and cleanup were not confirmed''"
| "await_end p ivc fd ((h, view) # looks) =
     rbind (ended h view p ivc fd) (\<lambda>gone. if gone then Inr () else await_end p ivc fd looks)"

end
