(* ===== verification/HostText.thy ===== *)
theory HostText
  imports WorkerHost
begin

text \<open>
  What systemd prints and what the installer writes is read back: properties, unit files and commands as
  \<open>WorkerLifecycle\<close> of \<open>geniusnew/worker_service.py\<close> parses them, against the texts they are printed as.
\<close>

section \<open>Lines\<close>

definition plain_text :: "pystr \<Rightarrow> bool" where
  "plain_text s \<longleftrightarrow> list_all (\<lambda>c. c < 128 \<and> \<not> is_line_break c) s"

definition line_of :: "pystr \<times> pystr \<Rightarrow> pystr" where
  "line_of kv = fst kv @ 61 # snd kv"

definition render :: "fields \<Rightarrow> pystr" where
  "render fs = concat (map (\<lambda>kv. line_of kv @ [10]) fs)"

lemma splitlines_line: "list_all (\<lambda>c. \<not> is_line_break c) l \<Longrightarrow> splitlines part (l @ 10 # r) = (rev part @ l) # splitlines [] r"
proof (induction l arbitrary: part)
  case Nil
  then show ?case by (simp add: is_line_break_def)
next
  case (Cons c l)
  then have "c \<noteq> 13" "\<not> is_line_break c" by (auto simp: is_line_break_def)
  with Cons show ?case by simp
qed

definition plain_fields :: "fields \<Rightarrow> bool" where
  "plain_fields fs \<longleftrightarrow> list_all (\<lambda>(k, v). plain_text k \<and> plain_text v \<and> 61 \<notin> set k) fs"

lemma plain_line: "plain_text k \<Longrightarrow> plain_text v \<Longrightarrow> list_all (\<lambda>c. \<not> is_line_break c) (line_of (k, v))"
  by (auto simp: plain_text_def line_of_def list_all_iff is_line_break_def)

lemma splitlines_render: "plain_fields fs \<Longrightarrow> splitlines [] (render fs @ r) = map line_of fs @ splitlines [] r"
proof (induction fs)
  case (Cons kv fs)
  obtain k v where kv: "kv = (k, v)" by (cases kv)
  have "list_all (\<lambda>c. \<not> is_line_break c) (line_of kv)" using Cons.prems plain_line by (simp add: plain_fields_def kv)
  from splitlines_line[OF this, of "[]" "render fs @ r"] Cons show ?case by (simp add: render_def plain_fields_def)
qed (simp add: render_def)

lemma line_parts: "61 \<notin> set k \<Longrightarrow> before_equals (line_of (k, v)) = k \<and> after_equals (line_of (k, v)) = v \<and> 61 \<in> set (line_of (k, v))"
  by (auto simp: before_equals_def after_equals_def line_of_def takeWhile_append dropWhile_append)

lemma parse_properties_lines:
  "plain_fields fs \<Longrightarrow> distinct (map fst (done @ fs)) \<Longrightarrow> parse_properties done (map line_of fs) = Inr (done @ fs)"
proof (induction fs arbitrary: "done")
  case (Cons kv fs)
  obtain k v where kv: "kv = (k, v)" by (cases kv)
  have l: "before_equals (line_of kv) = k" "after_equals (line_of kv) = v" "61 \<in> set (line_of kv)"
    using Cons.prems(1) line_parts[of k v] by (auto simp: plain_fields_def kv)
  have "k \<notin> fst ` set done" using Cons.prems(2) by (auto simp: kv)
  moreover have "parse_properties (done @ [kv]) (map line_of fs) = Inr ((done @ [kv]) @ fs)"
    using Cons.prems by (intro Cons.IH) (auto simp: plain_fields_def)
  ultimately show ?case using l by (simp add: kv)
qed simp

lemma render_ascii: "plain_fields fs \<Longrightarrow> is_ascii (render fs)"
  by (induction fs) (auto simp: render_def plain_fields_def plain_text_def line_of_def is_ascii_def list_all_iff)

text \<open>A unit as \<open>systemctl show\<close> prints it reads back.\<close>

lemma show_rendered:
  assumes "hv_systemctl h ([lit ''show'', unit, lit ''--no-pager''] @ map (\<lambda>p. lit (''-p'' @ p)) props) = Some (0, ascii_bytes (render fs), [])"
    "plain_fields fs" "distinct (map fst fs)" "set (map fst fs) = set (map lit props)" "length (render fs) \<le> 8192"
  shows "show_unit h unit props = Inr fs"
proof -
  have "systemctl h ([lit ''show'', unit, lit ''--no-pager''] @ map (\<lambda>p. lit (''-p'' @ p)) props) = Inr (render fs)"
    using assms(1,5) render_ascii[OF assms(2)] by (simp add: systemctl_def)
  moreover have "parse_properties [] (splitlines [] (render fs)) = Inr fs"
    using splitlines_render[OF assms(2), of "[]"] parse_properties_lines[OF assms(2), of "[]"] assms(3) by simp
  ultimately show ?thesis using assms(4) by (simp add: show_unit_def)
qed

section \<open>Unit files\<close>

definition render_unit :: "(pystr \<times> fields) list \<Rightarrow> pystr" where
  "render_unit sections = concat (map (\<lambda>(n, d). [91] @ n @ [93, 10] @ render d) sections)"

text \<open>Names that are no comment and no section, and lines without space at their ends.\<close>

definition plain_directive :: "pystr \<times> pystr \<Rightarrow> bool" where
  "plain_directive kv \<longleftrightarrow> fst kv \<noteq> [] \<and> \<not> is_space (hd (fst kv)) \<and> hd (fst kv) \<noteq> 35 \<and> hd (fst kv) \<noteq> 91 \<and> \<not> is_space (last (line_of kv))"

lemma strip_tight: "s \<noteq> [] \<Longrightarrow> \<not> is_space (hd s) \<Longrightarrow> \<not> is_space (last s) \<Longrightarrow> strip_text s = s"
proof -
  assume s: "s \<noteq> []" "\<not> is_space (hd s)" "\<not> is_space (last s)"
  have "dropWhile is_space s = s" using s(1,2) by (cases s) auto
  moreover have "dropWhile is_space (rev s) = rev s" using s(1,3) by (cases s rule: rev_cases) auto
  ultimately show ?thesis by (simp add: strip_text_def)
qed

lemma directive_line:
  assumes "plain_directive (k, v)" "61 \<notin> set k" "list_all (\<lambda>(n', d'). n' = n \<longrightarrow> k \<notin> fst ` set d') sections"
  shows "parse_unit sections (Some n) (line_of (k, v) # lines) =
    parse_unit (map (\<lambda>(n', d'). (n', if n' = n then d' @ [(k, v)] else d')) sections) (Some n) lines"
proof -
  have "line_of (k, v) \<noteq> []" "hd (line_of (k, v)) = hd k" using assms(1) by (auto simp: line_of_def plain_directive_def)
  then have s: "strip_text (line_of (k, v)) = line_of (k, v)" "line_of (k, v) \<noteq> []" "\<not> starts_with [35] (line_of (k, v))" "\<not> starts_with [91] (line_of (k, v))"
    using assms(1) strip_tight[of "line_of (k, v)"] by (auto simp: plain_directive_def starts_with_def line_of_def neq_Nil_conv)
  have "\<not> list_ex (\<lambda>(n', d'). n' = n \<and> k \<in> fst ` set d') sections" using assms(3) by (auto simp: list_ex_iff list_all_iff)
  then show ?thesis using s line_parts[OF assms(2), of v] by (simp add: Let_def cong: if_cong)
qed

lemma parse_directives:
  assumes "list_all plain_directive d" "plain_fields d" "distinct (map fst (d0 @ d))" "n \<notin> fst ` set sections"
  shows "parse_unit (sections @ [(n, d0)]) (Some n) (map line_of d @ lines) = parse_unit (sections @ [(n, d0 @ d)]) (Some n) lines"
  using assms
proof (induction d arbitrary: d0)
  case (Cons kv d)
  obtain k v where kv: "kv = (k, v)" by (cases kv)
  have same: "map (\<lambda>(n', d'). (n', if n' = n then d' @ [(k, v)] else d')) sections = sections"
    using Cons.prems(4) by (intro map_idI) (auto simp: image_iff)
  have "parse_unit (sections @ [(n, d0)]) (Some n) (line_of (k, v) # map line_of d @ lines)
      = parse_unit (sections @ [(n, d0 @ [(k, v)])]) (Some n) (map line_of d @ lines)"
    by (subst directive_line) (use Cons.prems same in \<open>auto simp: kv plain_fields_def list_all_iff image_iff\<close>)
  moreover have "parse_unit (sections @ [(n, d0 @ [(k, v)])]) (Some n) (map line_of d @ lines) = parse_unit (sections @ [(n, (d0 @ [(k, v)]) @ d)]) (Some n) lines"
    using Cons.prems by (intro Cons.IH) (auto simp: kv plain_fields_def)
  ultimately show ?case by (simp add: kv)
qed simp

definition plain_section :: "pystr \<times> fields \<Rightarrow> bool" where
  "plain_section s \<longleftrightarrow> list_all (\<lambda>c. \<not> is_line_break c) (fst s) \<and> list_all plain_directive (snd s) \<and> plain_fields (snd s) \<and> distinct (map fst (snd s))"

lemma parse_rendered:
  "list_all plain_section sections \<Longrightarrow> distinct (map fst (done @ sections)) \<Longrightarrow>
     parse_unit done current (splitlines [] (render_unit sections)) = Inr (done @ sections)"
proof (induction sections arbitrary: "done" current)
  case Nil
  then show ?case by (simp add: render_unit_def)
next
  case (Cons s sections)
  obtain n d where s: "s = (n, d)" by (cases s)
  have p: "list_all (\<lambda>c. \<not> is_line_break c) n" "list_all plain_directive d" "plain_fields d" "distinct (map fst d)" "n \<notin> fst ` set done"
    using Cons.prems by (auto simp: s plain_section_def)
  have "list_all (\<lambda>c. \<not> is_line_break c) ([91] @ n @ [93])" using p(1) by (simp add: is_line_break_def)
  from splitlines_line[OF this, of "[]"] have "splitlines [] (render_unit (s # sections)) = ([91] @ n @ [93]) # map line_of d @ splitlines [] (render_unit sections)"
    using splitlines_render[OF p(3)] by (simp add: render_unit_def s)
  moreover have "strip_text ([91] @ n @ [93]) = [91] @ n @ [93]" by (rule strip_tight) (auto simp: is_space_def)
  ultimately have "parse_unit done current (splitlines [] (render_unit (s # sections)))
      = parse_unit (done @ [(n, [])]) (Some n) (map line_of d @ splitlines [] (render_unit sections))"
    using p(5) by (simp add: Let_def starts_with_def ends_with_def)
  also have "\<dots> = parse_unit (done @ [(n, d)]) (Some n) (splitlines [] (render_unit sections))"
    using parse_directives[of d "[]" n "done"] p by simp
  also have "\<dots> = Inr ((done @ [(n, d)]) @ sections)" using Cons.prems by (intro Cons.IH) (auto simp: s)
  finally show ?case by (simp add: s)
qed

section \<open>Commands\<close>

definition plain_word :: "pystr \<Rightarrow> bool" where
  "plain_word w \<longleftrightarrow> w \<noteq> [] \<and> list_all (\<lambda>c. \<not> is_shlex_space c \<and> c \<noteq> 92 \<and> c \<noteq> 39 \<and> c \<noteq> 34) w"

lemma scan_word_end: "list_all (\<lambda>c. \<not> is_shlex_space c \<and> c \<noteq> 92 \<and> c \<noteq> 39 \<and> c \<noteq> 34) w \<Longrightarrow> word \<noteq> [] \<Longrightarrow>
   shlex_scan Word word False w = Some [rev word @ w]"
  by (induction w arbitrary: word) auto

lemma scan_word_space: "list_all (\<lambda>c. \<not> is_shlex_space c \<and> c \<noteq> 92 \<and> c \<noteq> 39 \<and> c \<noteq> 34) w \<Longrightarrow> word \<noteq> [] \<Longrightarrow>
   shlex_scan Word word False (w @ 32 # r) = map_option (\<lambda>ws. (rev word @ w) # ws) (shlex_scan Between [] False r)"
  by (induction w arbitrary: word) (auto simp: is_shlex_space_def)

lemma shlex_join: "list_all plain_word ws \<Longrightarrow> shlex_split (join_sep 32 ws) = Some ws"
  unfolding shlex_split_def
proof (induction "32 :: nat" ws rule: join_sep.induct)
  case (2 w)
  then show ?case by (cases w) (auto simp: plain_word_def scan_word_end)
next
  case (3 w v ws)
  then show ?case by (cases w) (auto simp: plain_word_def scan_word_space)
qed simp

section \<open>The fixed units are accepted\<close>

lemma no_return: "13 \<notin> set s \<Longrightarrow> universal_newlines s = s"
  by (induction s rule: universal_newlines.induct) auto

definition service_sections :: "host_view \<Rightarrow> worker_service_profile \<Rightarrow> (pystr \<times> fields) list" where
  "service_sections h p =
     [(lit ''Unit'', lits [(''Description'', ''GeniusNew isolated worker for one accepted connection'')]),
      (lit ''Service'', (lit ''ExecStart'', join_sep 32 (expected_command h p)) # expected_service p)]"

definition socket_sections :: "worker_service_profile \<Rightarrow> (pystr \<times> fields) list" where
  "socket_sections p =
     [(lit ''Unit'', lits [(''Description'', ''GeniusNew isolated worker socket'')]), (lit ''Socket'', expected_socket p)]"

definition tight_text :: "pystr \<Rightarrow> bool" where
  "tight_text s \<longleftrightarrow> plain_text s \<and> 13 \<notin> set s \<and> (s \<noteq> [] \<longrightarrow> \<not> is_space (last s))"

lemma tight_directive: "k \<noteq> [] \<Longrightarrow> \<not> is_space (hd k) \<Longrightarrow> hd k \<noteq> 35 \<Longrightarrow> hd k \<noteq> 91 \<Longrightarrow> tight_text v \<Longrightarrow> plain_directive (k, v)"
  by (auto simp: plain_directive_def line_of_def tight_text_def is_space_def)

lemma digits_tight: "tight_text (nat_digits n)"
proof -
  have d: "list_all is_digit (nat_digits n)" by (rule nat_digits_digit)
  then have "nat_digits n \<noteq> [] \<Longrightarrow> \<not> is_space (last (nat_digits n))" by (auto simp: list_all_iff is_digit_def is_space_def dest!: bspec[OF _ last_in_set])
  with d show ?thesis by (auto simp: tight_text_def plain_text_def list_all_iff is_digit_def is_line_break_def)
qed

lemma id_tight: "0 < i \<Longrightarrow> tight_text (id_text i)"
  by (simp add: id_text_def digits_tight)

text \<open>A directive name of the fixed files.\<close>

definition is_name :: "pystr \<Rightarrow> bool" where
  "is_name k \<longleftrightarrow> k \<noteq> [] \<and> list_all (\<lambda>c. 65 \<le> c \<and> c \<le> 90 \<or> 97 \<le> c \<and> c \<le> 122) k"

lemma name_plain: "is_name k \<Longrightarrow> plain_text k \<and> 61 \<notin> set k \<and> 13 \<notin> set k \<and> k \<noteq> [] \<and> \<not> is_space (hd k) \<and> hd k \<noteq> 35 \<and> hd k \<noteq> 91"
  by (cases k) (auto simp: is_name_def plain_text_def list_all_iff is_line_break_def is_space_def)

definition tidy :: "fields \<Rightarrow> bool" where
  "tidy d \<longleftrightarrow> list_all (\<lambda>(k, v). is_name k \<and> tight_text v) d \<and> distinct (map fst d)"

lemma tidy_section:
  assumes "is_name n" "tidy d"
  shows "plain_section (n, d)" "13 \<notin> set (n @ render d)" "is_ascii (n @ render d)"
proof -
  have f: "plain_directive kv \<and> plain_text (fst kv) \<and> plain_text (snd kv) \<and> 61 \<notin> set (fst kv) \<and> 13 \<notin> set (line_of kv)" if "kv \<in> set d" for kv
  proof -
    obtain k v where kv: "kv = (k, v)" by (cases kv)
    have "is_name k" "tight_text v" using assms(2) that by (auto simp: tidy_def list_all_iff kv)
    with name_plain[of k] tight_directive[of k v] show ?thesis by (auto simp: kv tight_text_def line_of_def)
  qed
  have pf: "plain_fields d" using f by (auto simp: plain_fields_def list_all_iff)
  have "list_all (\<lambda>c. \<not> is_line_break c) n" using name_plain[OF assms(1)] by (auto simp: plain_text_def list_all_iff)
  then show "plain_section (n, d)" using f pf assms(2) by (auto simp: plain_section_def list_all_iff tidy_def)
  show "13 \<notin> set (n @ render d)" using f name_plain[OF assms(1)] by (auto simp: render_def)
  show "is_ascii (n @ render d)" using render_ascii[OF pf] name_plain[OF assms(1)] by (auto simp: plain_text_def is_ascii_def list_all_iff)
qed

lemma read_rendered:
  assumes "list_all (\<lambda>(n, d). is_name n \<and> tidy d) sections" "distinct (map fst sections)"
    "hv_read h file = Found (ascii_bytes (render_unit sections))"
  shows "read_ascii h file broken = Inr (render_unit sections)" "parse_unit [] None (splitlines [] (render_unit sections)) = Inr sections"
proof -
  have t: "is_name n \<and> tidy d" if "(n, d) \<in> set sections" for n d using assms(1) that by (auto simp: list_all_iff)
  have "is_ascii (render_unit sections) \<and> 13 \<notin> set (render_unit sections)"
    unfolding render_unit_def is_ascii_def list_all_iff using tidy_section(2,3) t by (fastforce simp: is_ascii_def list_all_iff)
  then show "read_ascii h file broken = Inr (render_unit sections)" using assms(3) by (simp add: read_ascii_def no_return)
  have "list_all plain_section sections" using t tidy_section(1) by (auto simp: list_all_iff)
  then show "parse_unit [] None (splitlines [] (render_unit sections)) = Inr sections" using parse_rendered[of sections "[]" None] assms(2) by simp
qed

text \<open>The same for the literals of the fixed files.\<close>

definition tight_chars :: "string \<Rightarrow> bool" where
  "tight_chars s \<longleftrightarrow> list_all (\<lambda>c. (32 :: nat) \<le> of_char c \<and> (of_char c :: nat) < 127) s \<and> (s = [] \<or> of_char (last s) \<noteq> (32 :: nat))"

definition name_chars :: "string \<Rightarrow> bool" where
  "name_chars s \<longleftrightarrow> s \<noteq> [] \<and> list_all (\<lambda>c. (65 :: nat) \<le> of_char c \<and> (of_char c :: nat) \<le> 90 \<or> (97 :: nat) \<le> of_char c \<and> (of_char c :: nat) \<le> 122) s"

lemma tight_lit: "tight_chars s \<Longrightarrow> tight_text (lit s)"
proof -
  assume t: "tight_chars s"
  have "\<not> is_space (last (lit s))" if z: "s \<noteq> []"
  proof -
    have "last s \<in> set s" using z by simp
    with t have "(32 :: nat) \<le> of_char (last s)" "(of_char (last s) :: nat) < 127" "of_char (last s) \<noteq> (32 :: nat)"
      using z by (auto simp: tight_chars_def list_all_iff)
    then show ?thesis using z by (simp add: lit_def last_map is_space_def)
  qed
  with t show ?thesis by (fastforce simp: tight_text_def plain_text_def lit_def list_all_iff tight_chars_def is_line_break_def)
qed

lemma name_lit: "name_chars s \<Longrightarrow> is_name (lit s)"
  by (auto simp: name_chars_def is_name_def lit_def list_all_iff)

lemma tidy_lits: "list_all (\<lambda>(k, v). name_chars k \<and> tight_chars v) kvs \<Longrightarrow> distinct (map fst kvs) \<Longrightarrow> tidy (lits kvs)"
proof -
  assume a: "list_all (\<lambda>(k, v). name_chars k \<and> tight_chars v) kvs" "distinct (map fst kvs)"
  have "map fst (lits kvs) = map lit (map fst kvs)" by (simp add: lits_def comp_def case_prod_unfold)
  moreover have "distinct (map lit (map fst kvs))" using a(2) by (simp only: distinct_map) (auto simp: inj_on_def)
  moreover have "list_all (\<lambda>(k, v). is_name k \<and> tight_text v) (lits kvs)"
    using a(1) by (induction kvs) (auto simp: lits_def tight_lit name_lit)
  ultimately show ?thesis by (simp only: tidy_def)
qed

lemma tidy_append: "tidy (a @ b) \<longleftrightarrow> tidy a \<and> tidy b \<and> set (map fst a) \<inter> set (map fst b) = {}"
  by (auto simp: tidy_def)

lemma tidy_Cons: "tidy ((k, v) # d) \<longleftrightarrow> is_name k \<and> tight_text v \<and> k \<notin> set (map fst d) \<and> tidy d"
  by (auto simp: tidy_def)

lemma LOADER_chars: "tight_chars LOADER_ENVIRONMENT"
  by (simp add: tight_chars_def LOADER_ENVIRONMENT_def)

lemma expected_service_tidy: "0 < wp_worker_uid p \<Longrightarrow> 0 < wp_worker_gid p \<Longrightarrow> tidy (expected_service p)"
  unfolding expected_service_def tidy_append
proof (intro conjI tidy_lits)
  assume u: "0 < wp_worker_uid p" "0 < wp_worker_gid p"
  show "tidy [(lit ''User'', id_text (wp_worker_uid p)), (lit ''Group'', id_text (wp_worker_gid p))]"
    using id_tight[OF u(1)] id_tight[OF u(2)] by (simp add: tidy_def name_lit name_chars_def)
qed (simp_all add: name_chars_def tight_chars_def[of "[]"] tight_chars_def[of "_ # _"] LOADER_chars lits_def)

text \<open>An argument without space, quotes or backslashes.\<close>

definition plain_arg :: "pystr \<Rightarrow> bool" where
  "plain_arg w \<longleftrightarrow> w \<noteq> [] \<and> list_all (\<lambda>c. 33 \<le> c \<and> c < 127 \<and> c \<noteq> 92 \<and> c \<noteq> 39 \<and> c \<noteq> 34) w"

lemma plain_arg_word: "plain_arg w \<Longrightarrow> plain_word w"
  unfolding plain_arg_def plain_word_def
  by (elim conjE, intro conjI, assumption, erule list.pred_mono_strong) (auto simp: is_shlex_space_def)

lemma plain_arg_tight: "plain_arg w \<Longrightarrow> tight_text w"
proof -
  assume a: "plain_arg w"
  then have "last w \<in> set w" by (simp add: plain_arg_def)
  with a have "33 \<le> last w" "last w < 127" by (auto simp: plain_arg_def list_all_iff)
  then have "\<not> is_space (last w)" by (simp add: is_space_def)
  moreover have "c < 128 \<and> \<not> is_line_break c \<and> c \<noteq> 13" if "c \<in> set w" for c
  proof -
    have "33 \<le> c" "c < 127" using a that by (auto simp: plain_arg_def list_all_iff)
    then show ?thesis by (simp add: is_line_break_def)
  qed
  ultimately show ?thesis by (auto simp: tight_text_def plain_text_def list_all_iff)
qed

lemma join_tight: "list_all plain_arg ws \<Longrightarrow> tight_text (join_sep 32 ws)"
proof (induction "32 :: nat" ws rule: join_sep.induct)
  case (3 w v ws)
  then have "tight_text w" "tight_text (join_sep 32 (v # ws))" by (simp_all add: plain_arg_tight)
  moreover have "join_sep 32 (v # ws) \<noteq> []" using 3(2) by (cases ws) (auto simp: plain_arg_def)
  ultimately show ?case by (simp add: tight_text_def plain_text_def is_line_break_def)
next
  case (2 w)
  then show ?case by (simp add: plain_arg_tight)
qed (simp add: tight_text_def plain_text_def)

lemma id_arg: "0 < i \<Longrightarrow> plain_arg (id_text i)"
proof -
  assume i: "0 < i"
  have "list_all is_digit (nat_digits (nat i))" by (rule nat_digits_digit)
  moreover have "nat_digits (nat i) \<noteq> []" by (subst nat_digits.simps) simp
  ultimately show ?thesis using i by (auto simp: plain_arg_def id_text_def list_all_iff is_digit_def)
qed

lemma command_args:
  assumes "list_all (\<lambda>i. 0 < i) [wp_core_uid p, wp_worker_uid p, wp_worker_gid p]" "plain_arg (hv_executable h)" "plain_arg (hv_bootstrap h)"
  shows "list_all plain_arg (expected_command h p)"
proof -
  have "plain_arg (lit s)" if "s \<in> {''-I'', ''-S'', ''--core-uid'', ''--worker-uid'', ''--worker-gid''}" for s
    using that by (auto simp: plain_arg_def lit_def)
  then show ?thesis using assms id_arg by (simp add: expected_command_def)
qed

text \<open>The service file an installer writes for the profile is accepted, when root controls the interpreter it names.\<close>

theorem fixed_service_accepted:
  assumes "list_all (\<lambda>i. 0 < i) [wp_core_uid p, wp_worker_uid p, wp_worker_gid p]" "plain_arg (hv_executable h)" "plain_arg (hv_bootstrap h)"
    "is_absolute (hv_executable h)" "ends_with (lit ''@.service'') name" "length (render_unit (service_sections h p)) \<le> 8192"
    "hv_read h file = Found (ascii_bytes (render_unit (service_sections h p)))"
  shows "check_unit_content h p file name = root_controlled h True (hv_executable h)"
proof -
  let ?cmd = "expected_command h p"
  note args = command_args[OF assms(1-3)]
  have t: "tidy (expected_service p)" using assms(1) by (intro expected_service_tidy) simp_all
  have k: "lit ''ExecStart'' \<notin> fst ` set (expected_service p)" by (simp add: expected_service_def lits_def)
  have "list_all (\<lambda>(n, d). is_name n \<and> tidy d) (service_sections h p)" "distinct (map fst (service_sections h p))"
    using t k join_tight[OF args] unfolding service_sections_def
    by (auto simp: tidy_Cons name_lit name_chars_def intro!: tidy_lits simp: tight_chars_def)
  note r = read_rendered[OF this assms(7)]
  have "filter (\<lambda>kv. fst kv \<noteq> lit ''ExecStart'') (expected_service p) = expected_service p"
    using k by (intro filter_True) (auto simp: image_iff)
  then have we: "sections_are (without_exec (service_sections h p))
      [(lit ''Unit'', lits [(''Description'', ''GeniusNew isolated worker for one accepted connection'')]), (lit ''Service'', expected_service p)]"
    by (simp add: without_exec_def service_sections_def sections_are_def)
  have es: "exec_start (service_sections h p) = Some (join_sep 32 ?cmd)" by (simp add: exec_start_def service_sections_def)
  have sh: "shlex_split (join_sep 32 ?cmd) = Some ?cmd"
    using args by (intro shlex_join) (auto simp: list_all_iff plain_arg_word)
  have c: "?cmd \<noteq> []" "hd ?cmd = hv_executable h" by (simp_all add: expected_command_def)
  show ?thesis unfolding check_unit_content_def r(1) rbind_Inr sum.case r(2) using assms(4-6) we es sh c by simp
qed

theorem fixed_socket_accepted:
  assumes "0 < wp_socket_gid p" "tight_text (wp_socket_path p)" "\<not> ends_with (lit ''@.service'') name"
    "length (render_unit (socket_sections p)) \<le> 8192" "hv_read h file = Found (ascii_bytes (render_unit (socket_sections p)))"
  shows "check_unit_content h p file name = Inr ()"
proof -
  have "tidy (expected_socket p)"
    unfolding expected_socket_def tidy_append
  proof (intro conjI tidy_lits)
    show "tidy [(lit ''ListenStream'', wp_socket_path p), (lit ''SocketGroup'', id_text (wp_socket_gid p))]"
      using id_tight[OF assms(1)] assms(2) by (simp add: tidy_def name_lit name_chars_def)
  qed (simp_all add: name_chars_def tight_chars_def lits_def)
  then have "list_all (\<lambda>(n, d). is_name n \<and> tidy d) (socket_sections p)" "distinct (map fst (socket_sections p))"
    unfolding socket_sections_def by (auto simp: name_lit name_chars_def intro!: tidy_lits simp: tight_chars_def)
  note r = read_rendered[OF this assms(5)]
  have "sections_are (socket_sections p) [(lit ''Unit'', lits [(''Description'', ''GeniusNew isolated worker socket'')]), (lit ''Socket'', expected_socket p)]"
    by (simp add: socket_sections_def sections_are_def)
  then show ?thesis unfolding check_unit_content_def r(1) rbind_Inr sum.case r(2) using assms(3,4) by simp
qed

end
