(* ===== verification/WorkerService.thy ===== *)
theory WorkerService
  imports WorkerExchange
begin

text \<open>
  What the Core and the service of \<open>geniusnew/worker_service.py\<close> promise each other: the Core believes one
  authenticated process only, keeps its lease until that process's end is confirmed, and a job that reaches an
  honest service comes to exactly what the worker's run in it comes to.
\<close>

section \<open>What the Core believes\<close>

text \<open>C13. When the exchange returns, everything the peer sent up to its end is one READY and one RESULT frame, every
  fragment of them came whole from one process of the profile's worker user and group, that process was bound to
  the service's invocation and alive before the payload went out, the RESULT carries the nonce of this exchange and
  the digest of the request that was sent, and beside what was open before only that process's descriptor is.
\<close>

theorem exchange_authenticated:
  assumes "exchange_run P deep value lf view shutdown nonce pl \<lparr>ex_io = io, ex_invocation = None\<rparr> = (Inr out, x)"
    "io_receiver io = \<lparr>rc_identity = new_identity p, rc_fds = fds\<rparr>"
  shows "\<exists>ready answer request wire pid fd bound used rest.
     io_data io = frame_of ready @ frame_of answer
   \<and> field_is ready ''kind'' (lit ''READY'') \<and> field_is ready ''nonce'' nonce
   \<and> field_is answer ''kind'' (lit ''RESULT'') \<and> field_is answer ''nonce'' nonce
   \<and> worker_request pl nonce = Inr request \<and> canonical (PDict request) = Inr wire
   \<and> field_is answer ''request_digest'' (sha256_hex P wire)
   \<and> (is_text_dict out \<or> out \<in> (\<lambda>c. PStr (lit c)) ` set ERROR_CODES)
   \<and> io_recvs io = used @ rest \<and> list_all (from_worker p pid) used
   \<and> lf_bind lf pid fd = Inr bound \<and> pidfd_exited view fd = Inr False \<and> ex_invocation x = Some bound
   \<and> io_sent (ex_io x) = io_sent io @ frame_of (hello_message nonce) @ framed wire
   \<and> mset (rc_fds (io_receiver (ex_io x))) = mset fds + {#fd#}"
proof -
  let ?x0 = "\<lparr>ex_io = io, ex_invocation = None\<rparr>" and ?b = "mset fds"
  obtain x1 where o: "exchange_open P deep value lf view nonce ?x0 = (Inr (), x1)"
    and a: "exchange_ask P deep value shutdown nonce pl x1 = (Inr out, x)"
    using assms(1) unfolding exchange_run_parts by (auto simp: abind_eq_Inr)
  have bal: "io_balanced ?b ?x0" using assms(2) by simp
  obtain ready raw pid fd bound where O: "canonical (PDict ready) = Inr raw" "validate_ready value ready nonce = Inr ()"
    "heard (framed raw) io (ex_io x1)" "io_balanced ?b x1" "io_sent (ex_io x1) = io_sent io @ frame_of (hello_message nonce)"
    "fi_pid (identity (ex_io x1)) = Some pid" "fi_pidfd (identity (ex_io x1)) = Some fd"
    "lf_bind lf pid fd = Inr bound" "ex_invocation x1 = Some bound" "pidfd_exited view fd = Inr False"
    using open_succeeds[OF o bal] by auto
  obtain request wire answer raw2 io2 where A: "worker_request pl nonce = Inr request" "canonical (PDict request) = Inr wire"
    "canonical (PDict answer) = Inr raw2" "validate_result value answer nonce (sha256_hex P wire) = Inr out"
    "heard (framed raw2) (ex_io x1) io2" "io_data io2 = []" "identity (ex_io x) = identity io2" "io_balanced ?b x"
    "io_sent (ex_io x) = io_sent (ex_io x1) @ framed wire" "ex_invocation x = ex_invocation x1"
    using ask_succeeds[OF a O(4)] by auto
  have h: "heard (framed raw @ framed raw2) io io2" by (rule heard_trans[OF O(3) A(5)])
  have id: "fi_pid (identity io2) = Some pid" "fi_pidfd (identity io2) = Some fd" "extends (new_identity p) (identity io2)"
    using A(5) O(6,7) h assms(2) by (auto simp: heard_def extends_def)
  obtain used where used: "io_recvs io = used @ io_recvs io2" "list_all (spoke (identity io2)) used"
    using h by (auto simp: heard_def)
  have "list_all (from_worker p pid) used" by (rule list.pred_mono_strong[OF used(2)]) (rule spoke_worker[OF _ id(3,1)])
  moreover have "mset (rc_fds (io_receiver (ex_io x))) = mset fds + {#fd#}"
    using A(7,8) id(2) by (simp add: balanced_def kept_fd_def)
  moreover have "io_data io = frame_of ready @ frame_of answer" using h A(6) O(1) A(3) by (simp add: heard_def frame_of_def)
  moreover have "io_sent (ex_io x) = io_sent io @ frame_of (hello_message nonce) @ framed wire" using O(5) A(9) by simp
  ultimately show ?thesis
    using validate_ready_sound[OF O(2)] validate_result_sound[OF A(4)] A(1,2,10) O(8-10) used(1) by metis
qed

text \<open>C14. Until the sender is bound to the service's invocation, nothing but the greeting leaves the Core: without a
  bound invocation what was sent is a prefix of the HELLO frame, however the exchange ends.
\<close>

theorem payload_only_to_bound:
  assumes "exchange_run P deep value lf view shutdown nonce pl \<lparr>ex_io = io, ex_invocation = None\<rparr> = (res, x)"
    "io_receiver io = \<lparr>rc_identity = new_identity p, rc_fds = fds\<rparr>" "ex_invocation x = None"
  shows "(\<exists>e. res = Inl e) \<and> (\<exists>part rest. io_sent (ex_io x) = io_sent io @ part \<and> frame_of (hello_message nonce) = part @ rest)"
proof -
  let ?x0 = "\<lparr>ex_io = io, ex_invocation = None\<rparr>"
  obtain r x1 where o: "exchange_open P deep value lf view nonce ?x0 = (r, x1)" by fastforce
  have bal: "io_balanced (mset fds) ?x0" using assms(2) by simp
  show ?thesis
  proof (cases r)
    case (Inl e)
    then have "res = Inl e" "x = x1" using assms(1) o unfolding exchange_run_parts by (auto simp: abind_def)
    then show ?thesis using open_sends[OF o bal] by simp
  next
    case (Inr u)
    then have a: "exchange_ask P deep value shutdown nonce pl x1 = (res, x)"
      using assms(1) o unfolding exchange_run_parts by (simp add: abind_def)
    obtain bound where "ex_invocation x1 = Some bound" using open_succeeds[OF _ bal] o Inr by (cases u) blast
    then have "ex_invocation x = Some bound" using keepsD[OF ask_invocation a] by blast
    with assms(3) show ?thesis by simp
  qed
qed

section \<open>The lease\<close>

lemma run_cases:
  assumes "run_service_worker P deep value lf view shutdown nonce pl connection s = (out, s')" "\<And>r. io_receiver (connection r) = r"
    "sr_pending s = []" "rbind (lf_preflight lf) (\<lambda>_. lf_acquire lf) = Inr lease"
  shows "\<exists>io tx. transact P deep value lf view shutdown nonce pl io = tx \<and> balanced (add_mset lease (mset (sr_fds s))) (io_receiver io)
     \<and> out = service_outcome (tx_outcome tx)
     \<and> (if tx_confirmed tx then sr_pending s' = [] \<and> mset (sr_fds s') = mset (sr_fds s)
        else \<exists>i. sr_pending s' = [(lease, i)] \<and> lease \<in> set (sr_fds s'))
     \<and> io = connection \<lparr>rc_identity = new_identity (sr_profile s), rc_fds = lease # sr_fds s\<rparr>"
proof -
  define io where "io = connection \<lparr>rc_identity = new_identity (sr_profile s), rc_fds = lease # sr_fds s\<rparr>"
  obtain tx where tx: "transact P deep value lf view shutdown nonce pl io = tx" by blast
  define r where "r = (case tx_exchange tx of None \<Rightarrow> io_receiver io | Some x \<Rightarrow> io_receiver (ex_io x))"
  have b0: "balanced (add_mset lease (mset (sr_fds s))) (io_receiver io)"
    using balanced_new[of "lease # sr_fds s"] by (simp add: io_def assms(2))
  have bal: "balanced (add_mset lease (mset (sr_fds s))) r"
    using b0 transact_cases(1)[OF tx b0] by (auto simp: r_def split: option.splits)
  have run: "(out, s') = (if tx_confirmed tx then
      (case abind (azoom rc_fds (\<lambda>fds r. r\<lparr>rc_fds := fds\<rparr>) (close_all [lease])) (\<lambda>_. identity_close) r of
         (Inl e, r') \<Rightarrow> (Raised (exc_message e), s\<lparr>sr_fds := rc_fds r'\<rparr>)
       | (Inr _, r') \<Rightarrow> (service_outcome (tx_outcome tx), s\<lparr>sr_fds := rc_fds r'\<rparr>))
      else (service_outcome (tx_outcome tx),
         s\<lparr>sr_pending := [(lease, map_option (\<lambda>x. identity (ex_io x)) (tx_exchange tx))], sr_fds := rc_fds r\<rparr>))"
    unfolding assms(1)[symmetric] run_service_worker_def Let_def assms(4) sum.case io_def[symmetric] tx r_def[symmetric] using assms(3) by simp
  have "lease \<in># mset (rc_fds r)" using bal by (simp add: balanced_def)
  then have "out = service_outcome (tx_outcome tx)
     \<and> (if tx_confirmed tx then sr_pending s' = [] \<and> mset (sr_fds s') = mset (sr_fds s)
        else \<exists>i. sr_pending s' = [(lease, i)] \<and> lease \<in> set (sr_fds s'))"
    using run release_ok[OF bal] assms(3) by (auto split: if_splits)
  then show ?thesis using tx b0 io_def by blast
qed

text \<open>The exchange of this run bound its process, and the lifecycle saw the end of that process.\<close>

definition run_confirmed ::
  "platform \<Rightarrow> (pystr \<Rightarrow> bool) \<Rightarrow> (pystr \<Rightarrow> rat option) \<Rightarrow> lifecycle \<Rightarrow> kernel_view \<Rightarrow> bool \<Rightarrow> pystr \<Rightarrow> message \<Rightarrow> core_io \<Rightarrow> bool" where
  "run_confirmed P deep value lf view shutdown nonce pl io \<longleftrightarrow>
     lf_idle lf = Inr () \<and> lf_connect lf = Inr ()
     \<and> (\<exists>r x bound. exchange_run P deep value lf view shutdown nonce pl \<lparr>ex_io = io, ex_invocation = None\<rparr> = (r, x)
          \<and> ex_invocation x = Some bound \<and> lf_await_end lf bound (fi_pidfd (identity (ex_io x))) = Inr ())"

lemma transact_confirmed:
  "tx_confirmed (transact P deep value lf view shutdown nonce pl io) \<Longrightarrow> run_confirmed P deep value lf view shutdown nonce pl io"
  by (auto simp: transact_def run_confirmed_def rbind_eq_Inr split: sum.splits prod.splits option.splits if_splits)


section \<open>A steady transport delivers every frame\<close>

lemma canonical_norm: "canonical (PDict m) = Inr b \<Longrightarrow> canonical (PDict (norm_message m)) = Inr b"
proof -
  assume "canonical (PDict m) = Inr b"
  then obtain t where t: "dumps (PDict m) = Some t" "b = ascii_bytes t" unfolding canonical_eq_Inr by blast
  show ?thesis using dumps_json_norm[OF t(1)] t(2) by (simp only: canonical_def option.case json_norm_message)
qed

text \<open>A message whose frame the limit allows and whose JSON reads back.\<close>

definition sendable :: "platform \<Rightarrow> (pystr \<Rightarrow> bool) \<Rightarrow> nat \<Rightarrow> message \<Rightarrow> bool" where
  "sendable P deep limit m \<longleftrightarrow> (\<exists>raw. canonical (PDict m) = Inr raw \<and> length raw \<le> limit)
     \<and> json_with (float_kept P) (PDict m) \<and> \<not> message_deep deep m"

lemma sendable_mono: "sendable P deep limit m \<Longrightarrow> limit \<le> most \<Longrightarrow> sendable P deep most m"
  unfolding sendable_def using order_trans by blast

lemma sendable_frame:
  assumes "sendable P deep limit m" "limit \<le> PAYLOAD_LIMIT"
  obtains raw where "canonical (PDict m) = Inr raw" "frame_of m = worker_header (length raw) @ raw" "length raw \<le> limit" "0 < length raw"
    "from_big_endian (worker_header (length raw)) = length raw" "length (worker_header (length raw)) = 4"
    "\<And>x y. canonical_object P deep x y raw = Inr (norm_message m)"
proof -
  obtain raw where raw: "canonical (PDict m) = Inr raw" "length raw \<le> limit" using assms(1) by (auto simp: sendable_def)
  have "read_object P deep transport_failed raw = Inr (norm_message m)"
    using assms(1) by (intro read_object_norm[OF raw(1)]) (auto simp: sendable_def)
  then have "canonical_object P deep x y raw = Inr (norm_message m)" for x y
    by (auto simp: read_object_def canonical_object_def rbind_eq_Inr split: sum.splits pyval.splits if_splits)
  moreover have "from_big_endian (worker_header (length raw)) = length raw"
    unfolding worker_header_def using raw(2) assms(2) by (intro big_endian_roundtrip) (simp add: PAYLOAD_LIMIT_def)
  ultimately show ?thesis using raw that canonical_dict_nonempty[OF raw(1)] by (auto simp: frame_of_def framed_def worker_header_def big_endian4_def)
qed

definition steady_send :: "send_event \<Rightarrow> bool" where
  "steady_send e = (case e of SendBlocks \<Rightarrow> True | Sends n \<Rightarrow> n \<noteq> 0 | _ \<Rightarrow> False)"

definition steady_read :: "plain_event \<Rightarrow> bool" where
  "steady_read e = (case e of Reads _ \<Rightarrow> True | _ \<Rightarrow> False)"

lemma steady_simps [simp]: "steady_send SendBlocks" "steady_send (Sends n) \<longleftrightarrow> n \<noteq> 0" "\<not> steady_send SendLate" "\<not> steady_send SendFails"
  by (simp_all add: steady_send_def)

lemma send_loop_steady:
  "list_all steady_send evs \<Longrightarrow> \<exists>evs'. send_loop late broken stuck evs frame = (frame, Inr (), evs') \<and> list_all steady_send evs'"
proof (induction late broken stuck evs frame rule: send_loop.induct)
  case (6 late broken stuck n evs b bs)
  then have "n \<noteq> 0" "list_all steady_send evs" by simp_all
  with 6(1) obtain evs' where e: "send_loop late broken stuck evs (drop n (b # bs)) = (drop n (b # bs), Inr (), evs')" "list_all steady_send evs'" by blast
  have "send_loop late broken stuck (Sends n # evs) (b # bs) = (take n (b # bs) @ drop n (b # bs), Inr (), evs')"
    using e(1) \<open>n \<noteq> 0\<close> by (simp only: send_loop.simps if_False prod.case)
  then show ?case using e(2) by (simp only: append_take_drop_id) blast
qed auto

lemma write_frame_steady:
  assumes "sendable P deep limit m" "limit \<le> PAYLOAD_LIMIT" "list_all steady_send (io_sends io)" "canonical (PDict m) = Inr raw"
  shows "\<exists>evs. worker_write_frame m limit io = (Inr raw, io\<lparr>io_sends := evs, io_sent := io_sent io @ frame_of m\<rparr>) \<and> list_all steady_send evs"
proof -
  have r: "frame_of m = worker_header (length raw) @ raw" "0 < length raw" "length raw \<le> limit"
    using sendable_frame[OF assms(1,2)] assms(4) by (metis sum.inject(2))+
  from send_loop_steady[OF assms(3)] obtain evs where "send_loop ''worker outbound frame deadline exceeded'' ''worker outbound frame cannot be sent''
      ''worker outbound frame was not sent'' (io_sends io) (frame_of m) = (frame_of m, Inr (), evs)" "list_all steady_send evs" by blast
  then show ?thesis using r assms(4) by (intro exI[of _ evs]) (simp add: worker_write_frame_def abind_def alift_def)
qed

lemma plain_write_steady:
  assumes "sendable P deep PAYLOAD_LIMIT m" "list_all steady_send (pl_sends io)"
  shows "\<exists>evs. plain_write m io = (Inr (), io\<lparr>pl_sends := evs, pl_sent := pl_sent io @ frame_of m\<rparr>) \<and> list_all steady_send evs"
proof -
  obtain raw where r: "canonical (PDict m) = Inr raw" "frame_of m = worker_header (length raw) @ raw" "0 < length raw" "length raw \<le> PAYLOAD_LIMIT"
    using sendable_frame[OF assms(1) order_refl] by metis
  from send_loop_steady[OF assms(2)] obtain evs where "send_loop ''worker service output deadline exceeded'' ''worker service output cannot be sent''
      ''worker service output could not be sent'' (pl_sends io) (frame_of m) = (frame_of m, Inr (), evs)" "list_all steady_send evs" by blast
  then show ?thesis using r by (intro exI[of _ evs]) (simp add: plain_write_def abind_def alift_def)
qed

lemma plain_next_steady: "list_all steady_read (pl_reads io) \<Longrightarrow> \<exists>k. plain_next io = Reads k"
  by (cases "pl_reads io") (auto simp: plain_next_def steady_read_def split: plain_event.splits)

lemma steady_tl: "list_all f xs \<Longrightarrow> list_all f (tl xs)"
  by (cases xs) auto

lemma plain_exact_steady:
  "list_all steady_read (pl_reads io) \<Longrightarrow> pl_data io = d @ later \<Longrightarrow> length d = n \<Longrightarrow>
     \<exists>rs. plain_exact n io = (Inr d, io\<lparr>pl_data := later, pl_reads := rs\<rparr>) \<and> list_all steady_read rs"
proof (induction n io arbitrary: d rule: plain_exact.induct)
  case (1 n io)
  show ?case
  proof (cases "n = 0")
    case True
    with 1(4,5) show ?thesis by (auto simp: plain_exact.simps[of 0] intro!: exI[of _ "pl_reads io"] 1(3))
  next
    case False
    obtain k where k: "plain_next io = Reads k" using plain_next_steady[OF 1(3)] by blast
    define data where "data = take (min n (Suc k)) (pl_data io)"
    define io1 where "io1 = io\<lparr>pl_reads := tl (pl_reads io)\<rparr>"
    let ?m = "length data" and ?io2 = "io1\<lparr>pl_data := drop (length data) (pl_data io)\<rparr>"
    have dd: "data = take ?m d" "?m \<le> n" "data \<noteq> []" using 1(4,5) False by (auto simp: data_def)
    have dr: "pl_data ?io2 = drop ?m d @ later" "length (drop ?m d) = n - ?m" using 1(4,5) dd(2) by auto
    have st: "list_all steady_read (pl_reads ?io2)" using steady_tl[OF 1(3)] by (simp add: io1_def)
    from 1(2)[OF False io1_def k data_def dd(3) st dr]
    obtain rs where e: "plain_exact (n - ?m) ?io2 = (Inr (drop ?m d), ?io2\<lparr>pl_data := later, pl_reads := rs\<rparr>)" "list_all steady_read rs" by blast
    have "plain_exact n io = (Inr (data @ drop ?m d), ?io2\<lparr>pl_data := later, pl_reads := rs\<rparr>)"
      by (subst plain_exact.simps) (simp only: False if_False Let_def io1_def[symmetric] k plain_event.case data_def[symmetric] e(1) dd(3) prod.case sum.case)
    moreover have "data @ drop ?m d = d" using dd(1) by (metis append_take_drop_id)
    ultimately show ?thesis using e(2) by (simp add: io1_def) blast
  qed
qed

lemma plain_frame_steady:
  assumes "sendable P deep limit m" "limit \<le> PAYLOAD_LIMIT" "list_all steady_read (pl_reads io)" "pl_data io = frame_of m @ later"
  shows "\<exists>rs. plain_frame P deep limit io = (Inr (norm_message m), io\<lparr>pl_data := later, pl_reads := rs\<rparr>) \<and> list_all steady_read rs"
proof -
  obtain raw where r: "frame_of m = worker_header (length raw) @ raw" "length raw \<le> limit" "0 < length raw"
    "from_big_endian (worker_header (length raw)) = length raw" "length (worker_header (length raw)) = 4"
    "\<And>x y. canonical_object P deep x y raw = Inr (norm_message m)" using sendable_frame[OF assms(1,2)] by metis
  obtain rs where e: "plain_exact 4 io = (Inr (worker_header (length raw)), io\<lparr>pl_data := raw @ later, pl_reads := rs\<rparr>)" "list_all steady_read rs"
    using plain_exact_steady[OF assms(3) _ r(5), of "raw @ later"] assms(4) r(1) by auto
  obtain rs' where "plain_exact (length raw) (io\<lparr>pl_data := raw @ later, pl_reads := rs\<rparr>) = (Inr raw, io\<lparr>pl_data := later, pl_reads := rs'\<rparr>)" "list_all steady_read rs'"
    using plain_exact_steady[of "io\<lparr>pl_data := raw @ later, pl_reads := rs\<rparr>" raw later] e(2) by auto
  then show ?thesis using e(1) r(2,3,4,6) by (intro exI[of _ rs']) (simp add: plain_frame_def abind_def alift_def Let_def)
qed

text \<open>A fragment with the worker's credentials and a descriptor of its live process, and the end it leaves.\<close>

definition vouched :: "worker_service_profile \<Rightarrow> int \<Rightarrow> recv_event \<Rightarrow> bool" where
  "vouched p pid e =
     (case e of
        Fragment k controls flags view \<Rightarrow>
          from_worker p pid e \<and> \<not> sc_unexpected (sort_controls controls)
          \<and> (case sc_pidfds (sort_controls controls) of
               [v] \<Rightarrow> length v = 4 \<and> 0 \<le> unpack_int v \<and> pidfd_pid view (unpack_int v) = Inr pid \<and> pidfd_exited view (unpack_int v) = Inr False
             | _ \<Rightarrow> False)
      | _ \<Rightarrow> False)"

definition clean_end :: "recv_event \<Rightarrow> bool" where
  "clean_end e =
     (case e of
        Fragment k controls flags view \<Rightarrow>
          flags = 0 \<and> sort_controls controls = \<lparr>sc_credentials = [], sc_pidfds = [], sc_owned = [], sc_unexpected = False\<rparr>
      | _ \<Rightarrow> False)"

text \<open>The fragments that fill a read of \<open>n\<close> bytes, and reads one after the other.\<close>

fun delivers :: "(recv_event \<Rightarrow> bool) \<Rightarrow> nat \<Rightarrow> recv_event list \<Rightarrow> recv_event list option" where
  "delivers ok 0 evs = Some evs"
| "delivers ok (Suc n) (Fragment k controls flags view # evs) =
     (if ok (Fragment k controls flags view) then delivers ok (n - k) evs else None)"
| "delivers ok (Suc n) evs = None"

fun delivers_all :: "(recv_event \<Rightarrow> bool) \<Rightarrow> nat list \<Rightarrow> recv_event list \<Rightarrow> recv_event list option" where
  "delivers_all ok [] evs = Some evs"
| "delivers_all ok (n # ns) evs = Option.bind (delivers ok n evs) (delivers_all ok ns)"

definition bound_to :: "worker_service_profile \<Rightarrow> int \<Rightarrow> frame_identity \<Rightarrow> bool" where
  "bound_to p pid i \<longleftrightarrow> fi_expected_uid i = wp_worker_uid p \<and> fi_expected_gid i = wp_worker_gid p \<and> (fi_pid i = None \<or> fi_pid i = Some pid)"

lemma accept_vouched:
  assumes "vouched p pid (Fragment k controls flags view)" "bound_to p pid i" "data \<noteq> []" "fi_pid i = None \<longleftrightarrow> fi_pidfd i = None"
  shows "\<exists>b. accept_checks view i data (sort_controls controls) flags = Inr b \<and> bound_to p pid (bind_identity b i)
      \<and> fi_pid (bind_identity b i) = Some pid"
proof -
  let ?s = "sort_controls controls"
  obtain v where v: "sc_pidfds ?s = [v]" "length v = 4" "0 \<le> unpack_int v" "pidfd_pid view (unpack_int v) = Inr pid"
    "pidfd_exited view (unpack_int v) = Inr False"
    using assms(1) by (auto simp: vouched_def split: list.splits)
  obtain c where c: "sc_credentials ?s = [c]" "length c = 12" "unpack_creds c = (pid, wp_worker_uid p, wp_worker_gid p)" "flags = 0" "0 < pid"
    using assms(1) by (auto simp: vouched_def from_worker_def sender_def split: list.splits if_splits)
  have u: "\<not> sc_unexpected ?s" using assms(1) by (simp add: vouched_def)
  show ?thesis
  proof (cases "fi_pidfd i")
    case None
    then show ?thesis using v c u assms(2-4)
      by (intro exI[of _ "Some (pid, unpack_int v)"]) (auto simp: accept_checks_def bound_to_def bind_identity_def Let_def)
  next
    case (Some fd)
    then show ?thesis using v c u assms(2-4)
      by (intro exI[of _ None]) (auto simp: accept_checks_def bound_to_def bind_identity_def Let_def)
  qed
qed

lemma recv_fragment_vouched:
  assumes "io_recvs io = Fragment k controls flags view # evs" "vouched p pid (Fragment k controls flags view)"
    "bound_to p pid (identity io)" "balanced base (io_receiver io)" "0 < n" "io_data io \<noteq> []"
  shows "\<exists>r. recv_fragment n late broken io = (Inr (take (min n (Suc k)) (io_data io)),
           io\<lparr>io_recvs := evs, io_data := drop (min n (Suc k)) (io_data io), io_receiver := r\<rparr>)
      \<and> balanced base r \<and> bound_to p pid (rc_identity r) \<and> fi_pid (rc_identity r) = Some pid"
proof -
  define data where "data = take (min n (Suc k)) (io_data io)"
  have ne: "data \<noteq> []" using assms(5,6) by (simp add: data_def)
  define r where "r = (io_receiver io)\<lparr>rc_fds := sc_owned (sort_controls controls) @ rc_fds (io_receiver io)\<rparr>"
  have eq: "fi_pid (identity io) = None \<longleftrightarrow> fi_pidfd (identity io) = None" using assms(4) by (simp add: balanced_def)
  obtain b where b: "accept_checks view (identity io) data (sort_controls controls) flags = Inr b"
    "bound_to p pid (bind_identity b (identity io))" "fi_pid (bind_identity b (identity io)) = Some pid"
    using accept_vouched[OF assms(2,3) ne eq] by blast
  obtain fds where acc: "accept view data controls flags r = (Inr (), \<lparr>rc_identity = bind_identity b (identity io), rc_fds = fds\<rparr>)"
    "balanced base \<lparr>rc_identity = bind_identity b (identity io), rc_fds = fds\<rparr>"
    using accept_balanced[OF assms(4), of r controls view data flags] b(1) by (auto simp: r_def)
  have dr: "drop (length data) (io_data io) = drop (min n (Suc k)) (io_data io)" by (simp add: data_def drop_take min_def)
  have "recv_fragment n late broken io = (Inr data, io\<lparr>io_recvs := evs, io_data := drop (min n (Suc k)) (io_data io),
      io_receiver := \<lparr>rc_identity = bind_identity b (identity io), rc_fds = fds\<rparr>\<rparr>)"
    using assms(1) acc(1) unfolding recv_fragment_def by (simp add: Let_def data_def[symmetric] r_def[symmetric] dr)
  then show ?thesis using acc(2) b(2,3) unfolding data_def by (intro exI[of _ "\<lparr>rc_identity = bind_identity b (identity io), rc_fds = fds\<rparr>"]) simp
qed

lemma recv_exact_vouched:
  "delivers (vouched p pid) n (io_recvs io) = Some rest \<Longrightarrow> io_data io = d @ later \<Longrightarrow> length d = n \<Longrightarrow> bound_to p pid (identity io)
     \<Longrightarrow> balanced base (io_receiver io) \<Longrightarrow>
   \<exists>r. recv_exact n io = (Inr d, io\<lparr>io_recvs := rest, io_data := later, io_receiver := r\<rparr>)
      \<and> balanced base r \<and> bound_to p pid (rc_identity r) \<and> (0 < n \<longrightarrow> fi_pid (rc_identity r) = Some pid)"
proof (induction "vouched p pid" n "io_recvs io" arbitrary: io d rule: delivers.induct)
  case (1 io)
  then show ?case by (intro exI[of _ "io_receiver io"]) (auto simp: recv_exact.simps)
next
  case (2 n k controls flags view evs)
  let ?m = "min (Suc n) (Suc k)"
  have v: "vouched p pid (Fragment k controls flags view)" and del: "delivers (vouched p pid) (n - k) evs = Some rest"
    using 2(3) unfolding 2(2)[symmetric] by (simp_all split: if_splits)
  have "io_data io \<noteq> []" using 2(4,5) by auto
  from recv_fragment_vouched[OF 2(2)[symmetric] v 2(6,7) zero_less_Suc this]
  obtain r where r: "recv_fragment (Suc n) ''worker frame deadline exceeded'' ''worker frame cannot be received'' io
        = (Inr (take ?m (io_data io)), io\<lparr>io_recvs := evs, io_data := drop ?m (io_data io), io_receiver := r\<rparr>)"
      "balanced base r" "bound_to p pid (rc_identity r)" "fi_pid (rc_identity r) = Some pid" by blast
  define io1 where "io1 = io\<lparr>io_recvs := evs, io_data := drop ?m (io_data io), io_receiver := r\<rparr>"
  have data: "take ?m (io_data io) = take ?m d" "drop ?m (io_data io) = drop ?m d @ later" "take ?m d \<noteq> []" "Suc n - length (take ?m d) = n - k"
    "length (drop ?m d) = n - k" using 2(4,5) by auto
  have ev: "evs = io_recvs io1" by (simp add: io1_def)
  have "delivers (vouched p pid) (n - k) (io_recvs io1) = Some rest" "io_data io1 = drop ?m d @ later" "bound_to p pid (identity io1)"
    "balanced base (io_receiver io1)" using del data(2) r by (simp_all add: io1_def)
  from 2(1)[OF v ev this(1,2) data(5) this(3,4)] obtain r' where r': "recv_exact (n - k) io1 = (Inr (drop ?m d), io1\<lparr>io_recvs := rest, io_data := later, io_receiver := r'\<rparr>)"
    "balanced base r'" "bound_to p pid (rc_identity r')" "0 < n - k \<longrightarrow> fi_pid (rc_identity r') = Some pid" by (elim exE conjE)
  have same: "n - k = 0 \<Longrightarrow> r' = r"
    using r'(1) by (auto simp: recv_exact.simps[of 0] io1_def dest!: arg_cong[of _ _ io_receiver])
  have "recv_exact (Suc n) io = (Inr (take ?m d @ drop ?m d), io1\<lparr>io_recvs := rest, io_data := later, io_receiver := r'\<rparr>)"
    by (subst recv_exact.simps) (simp only: r(1) io1_def[symmetric] data(1,3,4) r'(1) prod.case sum.case if_False nat.distinct Suc_not_Zero)
  then show ?case using r' r(4) same by (intro exI[of _ r']) (auto simp: io1_def)
qed (metis delivers.simps(3-5) option.distinct(1))+

lemma read_frame_vouched:
  assumes "sendable P deep limit m" "limit \<le> PAYLOAD_LIMIT" "io_data io = frame_of m @ later"
    "delivers_all (vouched p pid) [4, length (frame_of m) - 4] (io_recvs io) = Some rest"
    "bound_to p pid (identity io)" "balanced base (io_receiver io)"
  shows "\<exists>r. worker_read_frame P deep limit io = (Inr (norm_message m), io\<lparr>io_recvs := rest, io_data := later, io_receiver := r\<rparr>)
      \<and> balanced base r \<and> bound_to p pid (rc_identity r) \<and> fi_pid (rc_identity r) = Some pid"
proof -
  obtain raw where r: "frame_of m = worker_header (length raw) @ raw" "length raw \<le> limit" "0 < length raw"
    "from_big_endian (worker_header (length raw)) = length raw" "length (worker_header (length raw)) = 4"
    "\<And>x y. canonical_object P deep x y raw = Inr (norm_message m)" using sendable_frame[OF assms(1,2)] by metis
  obtain mid where mid: "delivers (vouched p pid) 4 (io_recvs io) = Some mid" "delivers (vouched p pid) (length raw) mid = Some rest"
    using assms(4) r(1,5) by (auto simp: bind_eq_Some_conv)
  obtain r1 where r1: "recv_exact 4 io = (Inr (worker_header (length raw)), io\<lparr>io_recvs := mid, io_data := raw @ later, io_receiver := r1\<rparr>)"
    "balanced base r1" "bound_to p pid (rc_identity r1)"
    using recv_exact_vouched[OF mid(1) _ r(5) assms(5,6), of "raw @ later"] assms(3) r(1) by auto
  let ?io1 = "io\<lparr>io_recvs := mid, io_data := raw @ later, io_receiver := r1\<rparr>"
  obtain r2 where r2: "recv_exact (length raw) ?io1 = (Inr raw, ?io1\<lparr>io_recvs := rest, io_data := later, io_receiver := r2\<rparr>)"
    "balanced base r2" "bound_to p pid (rc_identity r2)" "fi_pid (rc_identity r2) = Some pid"
    using recv_exact_vouched[of p pid "length raw" ?io1 rest raw later base] mid(2) r1(2,3) r(3) by auto
  show ?thesis using r1(1) r2 r(2,3,4,6) by (intro exI[of _ r2]) (simp add: worker_read_frame_def abind_def alift_def Let_def)
qed

lemma expect_eof_clean:
  assumes "io_recvs io = e # evs" "clean_end e" "io_data io = []" "fi_pid (identity io) = Some pid" "balanced base (io_receiver io)"
  shows "expect_eof io = (Inr (), io\<lparr>io_recvs := evs\<rparr>)"
proof -
  obtain k controls flags view where e: "e = Fragment k controls flags view" "flags = 0"
    "sort_controls controls = \<lparr>sc_credentials = [], sc_pidfds = [], sc_owned = [], sc_unexpected = False\<rparr>"
    using assms(2) by (auto simp: clean_end_def split: recv_event.splits)
  have "accept view [] controls flags (io_receiver io) = (Inr (), io_receiver io)"
    using assms(4) e(2) by (simp add: accept_def accept_checks_def e(3) eof_credentials_def)
  then show ?thesis using assms(1,3) e by (simp add: expect_eof_def recv_fragment_def abind_def areturn_def)
qed

section \<open>The messages of a job\<close>

definition ready_message :: "pystr \<Rightarrow> message" where
  "ready_message nonce = [(lit ''kind'', PStr (lit ''READY'')), (lit ''version'', PInt 1), (lit ''nonce'', PStr nonce)]"

definition text_request :: "pystr \<Rightarrow> pystr \<Rightarrow> message" where
  "text_request nonce t =
     [(lit ''kind'', PStr (lit ''REQUEST'')), (lit ''version'', PInt 1), (lit ''nonce'', PStr nonce),
      (lit ''worker'', PStr (lit ''summarize'')), (lit ''payload'', PDict [(lit ''text'', PStr t)]),
      (lit ''limits'', PDict (limits_dict default_limits))]"

definition result_message :: "pystr \<Rightarrow> pystr \<Rightarrow> message \<Rightarrow> message" where
  "result_message nonce digest items =
     [(lit ''kind'', PStr (lit ''RESULT'')), (lit ''version'', PInt 1), (lit ''nonce'', PStr nonce),
      (lit ''request_digest'', PStr digest)] @ items"

text \<open>What the service's run of the worker comes to: its output or an error code.\<close>

lemma worked_cases:
  "(\<exists>v. worked P env pl = [(lit ''output'', v)] \<and> is_text_dict v \<and> summarizer_run P pl = Returned v \<and> se_interrupt env = None \<and> \<not> se_violates env)
   \<or> (\<exists>c \<in> set ERROR_CODES. worked P env pl = [(lit ''error'', PStr (lit c))])"
  unfolding worked_def work_end_def Let_def ERROR_CODES_def by (auto split: option.split work_outcome.split sum.split)

lemma is_ascii_take: "is_ascii s \<Longrightarrow> is_ascii (take n s)"
  by (auto simp: is_ascii_def list_all_iff dest: in_set_takeD)

lemma summary_text: "summarizer_run P (PDict kvs) = Returned v \<Longrightarrow> \<exists>t. v = PDict [(lit ''text'', PStr t)] \<and> text_ok t"
  by (auto simp: summarizer_run_def split: option.splits pyval.splits sum.splits
      intro!: text_ok_ascii) (meson is_ascii_take sha256_hex_ascii)

definition fits :: "message \<Rightarrow> bool" where
  "fits m \<longleftrightarrow> (\<exists>raw. canonical (PDict m) = Inr raw \<and> length raw \<le> PAYLOAD_LIMIT)"

lemma greeting_sendable:
  assumes "hex_string 64 nonce" "deep_ok deep"
  shows "sendable P deep HELLO_LIMIT (hello_message nonce)" "sendable P deep HELLO_LIMIT (ready_message nonce)"
proof -
  have n: "text_ok nonce" "length (json_string nonce) = 66"
    using assms(1) json_string_digest by (auto simp: is_digest_def intro: text_ok_ascii hex_string_ascii)
  have d: "\<not> message_deep deep (hello_message nonce)" "\<not> message_deep deep (ready_message nonce)"
    by (rule shallow_message[OF assms(2)], simp add: hello_message_def ready_message_def)+
  have l: "canonical (PDict (hello_message nonce)) = Inr raw \<Longrightarrow> length raw \<le> HELLO_LIMIT"
    "canonical (PDict (ready_message nonce)) = Inr raw \<Longrightarrow> length raw \<le> HELLO_LIMIT" for raw
    using n(2) by (auto simp: canonical_def hello_message_def ready_message_def HELLO_LIMIT_def member_text_def int_text_def nat_digits.simps
        json_string_def esc_char_def lit_def max_str_digits_def split: option.splits if_splits)
  have "\<exists>raw. canonical (PDict (hello_message nonce)) = Inr raw" "\<exists>raw. canonical (PDict (ready_message nonce)) = Inr raw"
    by (simp_all add: canonical_def hello_message_def ready_message_def int_text_def nat_digits.simps max_str_digits_def)
  with l d n(1) show "sendable P deep HELLO_LIMIT (hello_message nonce)" "sendable P deep HELLO_LIMIT (ready_message nonce)"
    by (auto simp: sendable_def hello_message_def ready_message_def)
qed

lemma request_sendable:
  assumes "hex_string 64 nonce" "deep_ok deep" "text_ok t" "float_kept P (lit ''2.0'')" "fits (text_request nonce t)"
  shows "sendable P deep PAYLOAD_LIMIT (text_request nonce t)"
proof -
  have "text_ok nonce" using assms(1) by (auto intro: text_ok_ascii hex_string_ascii)
  then have "json_with (float_kept P) (PDict (text_request nonce t))"
    using assms(3,4) by (simp add: text_request_def limits_dict_def default_limits_def)
  moreover have "\<not> message_deep deep (text_request nonce t)"
    by (rule shallow_message[OF assms(2)]) (simp add: text_request_def limits_dict_def default_limits_def)
  ultimately show ?thesis using assms(5) by (simp add: sendable_def fits_def)
qed

text \<open>Items a result may carry: the text the worker wrote, or an error code.\<close>

definition answer_items :: "message \<Rightarrow> bool" where
  "answer_items items \<longleftrightarrow> (\<exists>t. text_ok t \<and> items = [(lit ''output'', PDict [(lit ''text'', PStr t)])])
     \<or> (\<exists>c \<in> set ERROR_CODES. items = [(lit ''error'', PStr (lit c))])"

lemma worked_items: "answer_items (worked P env (PDict kvs))"
  using worked_cases[of P env "PDict kvs"] summary_text[of P kvs] by (auto simp: answer_items_def)

lemma error_texts: "c \<in> set ERROR_CODES \<Longrightarrow> text_ok (lit c)"
  by (auto simp: ERROR_CODES_def)

lemma result_sendable:
  assumes "hex_string 64 nonce" "deep_ok deep" "is_ascii digest" "answer_items items" "fits (result_message nonce digest items)"
  shows "sendable P deep PAYLOAD_LIMIT (result_message nonce digest items)"
proof -
  have t: "text_ok nonce" "text_ok digest" using assms(1,3) by (auto intro: text_ok_ascii hex_string_ascii)
  have "json_with (float_kept P) (PDict (result_message nonce digest items)) \<and> json_depth (PDict (result_message nonce digest items)) \<le> 16"
    using assms(4) t error_texts by (auto simp: answer_items_def result_message_def)
  then show ?thesis using assms(2,5) shallow_message[of deep "result_message nonce digest items"] by (simp add: sendable_def fits_def)
qed

lemma ready_read: "validate_ready value (norm_message (ready_message nonce)) nonce = Inr ()"
proof -
  have d: "distinct (map fst (ready_message nonce))" by (simp add: ready_message_def)
  show ?thesis
    by (simp add: validate_ready_def version_is_one_def norm_fields[OF d] norm_message_lookup[OF d])
      (simp add: ready_message_def has_keys_def field_is_def equals_one_def)
qed

lemma hello_read: "hex_string 64 nonce \<Longrightarrow> validate_hello value (norm_message (hello_message nonce)) = Inr nonce"
proof -
  assume h: "hex_string 64 nonce"
  have d: "distinct (map fst (hello_message nonce))" by (simp add: hello_message_def)
  have l: "map_of (norm_message (hello_message nonce)) (lit ''nonce'') = Some (PStr nonce)"
    "version_is_one value (norm_message (hello_message nonce))"
    unfolding version_is_one_def norm_message_lookup[OF d] by (simp_all add: hello_message_def equals_one_def)
  have "has_keys (hello_message nonce) [''kind'', ''version'', ''nonce'']" "field_is (hello_message nonce) ''kind'' (lit ''HELLO'')"
    by (simp_all add: hello_message_def has_keys_def field_is_def)
  then show ?thesis using h l by (simp add: validate_hello_def norm_fields[OF d])
qed

lemma request_read:
  assumes "limits_ok value default_limits"
  shows "validate_request value (norm_message (text_request nonce t)) nonce default_limits = Inr default_limits"
    "text_payload (norm_message (text_request nonce t)) = Inr (PDict [(lit ''text'', PStr t)])"
proof -
  have d: "distinct (map fst (text_request nonce t))" by (simp add: text_request_def)
  have g: "get_item (text_request nonce t) ''payload'' = Inr (PDict [(lit ''text'', PStr t)])"
    "get_item (text_request nonce t) ''limits'' = Inr (PDict (limits_dict default_limits))"
    by (simp_all add: get_item_def text_request_def)
  have f: "has_keys (text_request nonce t) REQUEST_SHAPE" "field_is (text_request nonce t) ''kind'' (lit ''REQUEST'')"
    "field_is (text_request nonce t) ''nonce'' nonce" "field_is (text_request nonce t) ''worker'' (lit ''summarize'')"
    by (auto simp: text_request_def has_keys_def field_is_def REQUEST_SHAPE_def)
  have v: "version_is_one value (norm_message (text_request nonce t))"
    unfolding version_is_one_def norm_message_lookup[OF d] by (simp add: text_request_def equals_one_def)
  have e: "\<not> exceeds_limits value default_limits default_limits" by (simp add: exceeds_limits_def split: option.splits)
  have i: "is_text_dict (PDict [(lit ''text'', PStr t)])" by (simp add: is_text_dict_def has_keys_def)
  have n: "json_norm (PDict [(lit ''text'', PStr t)]) = PDict [(lit ''text'', PStr t)]" by simp
  have k: "fst ` set (norm_message (limits_dict default_limits)) = fst ` set (limits_dict default_limits)"
    using norm_message_keys[of "limits_dict default_limits"] by (simp only: set_map)
  show "validate_request value (norm_message (text_request nonce t)) nonce default_limits = Inr default_limits"
    using v i e k limits_arrive[OF assms]
    by (simp add: validate_request_def norm_fields[OF d] f g n json_norm_message[symmetric] del: json_norm.simps(3)) (simp add: json_norm_message del: json_norm.simps(3))
  show "text_payload (norm_message (text_request nonce t)) = Inr (PDict [(lit ''text'', PStr t)])"
    by (simp add: text_payload_def norm_fields[OF d] g n del: json_norm.simps(3)) (simp add: get_item_def)
qed

lemma result_read:
  assumes "answer_items items"
  shows "validate_result value (norm_message (result_message nonce digest items)) nonce digest = Inr (snd (hd items))"
proof -
  let ?m = "result_message nonce digest items"
  have d: "distinct (map fst ?m)" using assms by (auto simp: answer_items_def result_message_def)
  have v: "version_is_one value (norm_message ?m)"
    unfolding version_is_one_def norm_message_lookup[OF d] by (simp add: result_message_def equals_one_def)
  have f: "field_is ?m ''kind'' (lit ''RESULT'')" "field_is ?m ''nonce'' nonce" "field_is ?m ''request_digest'' digest"
    by (simp_all add: result_message_def field_is_def)
  show ?thesis
    using assms unfolding answer_items_def
  proof (elim disjE exE conjE bexE)
    fix t assume t: "items = [(lit ''output'', PDict [(lit ''text'', PStr t)])]"
    have "has_keys ?m [''kind'', ''version'', ''nonce'', ''request_digest'', ''output'']"
      "get_item ?m ''output'' = Inr (PDict [(lit ''text'', PStr t)])" by (auto simp: t result_message_def has_keys_def get_item_def)
    moreover have "json_norm (PDict [(lit ''text'', PStr t)]) = PDict [(lit ''text'', PStr t)]" by simp
    moreover have "is_text_dict (PDict [(lit ''text'', PStr t)])" by (simp add: is_text_dict_def has_keys_def)
    ultimately show ?thesis using v f
      by (simp add: validate_result_def Let_def norm_fields[OF d] del: json_norm.simps(3)) (simp add: t)
  next
    fix c assume c: "c \<in> set ERROR_CODES" "items = [(lit ''error'', PStr (lit c))]"
    have "lit ''output'' \<notin> set (map fst ?m)" by (simp add: c(2) result_message_def)
    then have o: "\<not> has_keys ?m [''kind'', ''version'', ''nonce'', ''request_digest'', ''output'']" by (auto simp: has_keys_def)
    have k: "has_keys ?m [''kind'', ''version'', ''nonce'', ''request_digest'', ''error'']" "get_item ?m ''error'' = Inr (PStr (lit c))"
      by (auto simp: c(2) result_message_def has_keys_def get_item_def)
    have "map_of (norm_message ?m) (lit ''error'') = Some (PStr (lit c))"
      unfolding norm_message_lookup[OF d] by (simp add: c(2) result_message_def)
    then show ?thesis using v f o k c(1) by (simp add: validate_result_def Let_def norm_fields[OF d]) (simp add: c(2))
  qed
qed

section \<open>The service answers\<close>

text \<open>The process starts as its unit says and the kernel takes its restrictions; what may interrupt the worker is an
  \<open>Exception\<close> or the sandbox; the transport is steady.\<close>

definition service_ready :: "service_env \<Rightarrow> int \<Rightarrow> service_state \<Rightarrow> bool" where
  "service_ready env core_uid st \<longleftrightarrow>
     se_checks env = Inr () \<and> se_stream env \<and> 0 < fst (se_peer env) \<and> snd (se_peer env) = core_uid
     \<and> (\<forall>r. \<not> exceeds (the (limits_set default_limits r)) (st_rlimits st r)) \<and> se_dumpable env = Inr ()
     \<and> (\<exists>jobdir. se_root env = Inr jobdir
          \<and> fst (install_filesystem_rules (se_landlock env) jobdir (se_read_paths env) (st_landlock st)) = Inr ())
     \<and> fst (install_process_filter (se_machine env) (se_prctl env) (st_seccomp st)) = Inr ()
     \<and> (\<forall>e. se_interrupt env = Some e \<longrightarrow> \<not> uncaught e)
     \<and> list_all steady_read (pl_reads (st_io st)) \<and> list_all steady_send (pl_sends (st_io st)) \<and> pl_sent (st_io st) = []"

lemma summary_raises: "summarizer_run P pl = Raised c \<Longrightarrow> \<not> uncaught (PyError c)"
proof -
  assume "summarizer_run P pl = Raised c"
  then have "c \<in> {''KeyError'', ''UnicodeEncodeError'', ''AttributeError'', ''TypeError''}"
    by (auto simp: summarizer_run_def split: option.splits pyval.splits sum.splits)
  then show ?thesis by (auto simp: uncaught_def base_exception_def)
qed

lemma ready_ends_caught: "service_ready env core_uid st \<Longrightarrow> work_escapes P env pl = Inr ()"
proof -
  assume "service_ready env core_uid st"
  then have i: "se_interrupt env = Some e \<Longrightarrow> \<not> uncaught e" for e unfolding service_ready_def by blast
  have x: "\<not> uncaught (PyError ''Exception'')" by (simp add: uncaught_def base_exception_def)
  show ?thesis
  proof (cases "se_interrupt env")
    case None
    then show ?thesis using summary_raises[of P pl] x
      by (cases "summarizer_run P pl") (simp_all add: work_escapes_def work_end_def)
  qed (use i in \<open>simp add: work_escapes_def work_end_def\<close>)
qed

lemma confine_ready:
  assumes "service_ready env core_uid st" "se_root env = Inr jobdir"
  shows "\<exists>st'. service_confine env jobdir st = (Inr (), st') \<and> st_io st' = st_io st \<and> st_rlimits st' = limits_set default_limits"
proof -
  obtain l f where l: "install_filesystem_rules (se_landlock env) jobdir (se_read_paths env) (st_landlock st) = (Inr (), l)"
    and f: "install_process_filter (se_machine env) (se_prctl env) (st_seccomp st) = (Inr (), f)"
    using assms by (cases "install_filesystem_rules (se_landlock env) jobdir (se_read_paths env) (st_landlock st)";
        cases "install_process_filter (se_machine env) (se_prctl env) (st_seccomp st)") (auto simp: service_ready_def)
  have "set_resource_limits default_limits (st_rlimits st) = (Inr (), limits_set default_limits)"
    using assms(1) by (intro limits_set_again) (simp add: service_ready_def)
  then show ?thesis using l f assms(1) by (simp add: service_confine_def abind_def azoom_def alift_def service_ready_def)
qed

lemma limits_set_idem: "set_resource_limits l (limits_set l) = (Inr (), limits_set l)"
  by (rule limits_set_again) (simp add: exceeds_def limits_set_def)

definition service_result :: "platform \<Rightarrow> service_env \<Rightarrow> pystr \<Rightarrow> pystr \<Rightarrow> message" where
  "service_result P env nonce t =
     result_message nonce (case canonical (PDict (text_request nonce t)) of Inr wire \<Rightarrow> sha256_hex P wire | Inl _ \<Rightarrow> [])
       (worked P env (PDict [(lit ''text'', PStr t)]))"

lemma service_answers:
  assumes "service_ready env core_uid st" "hex_string 64 nonce" "deep_ok deep" "text_ok t" "float_kept P (lit ''2.0'')"
    "limits_ok value default_limits" "fits (text_request nonce t)" "fits (service_result P env nonce t)"
    "pl_data (st_io st) = frame_of (hello_message nonce) @ frame_of (text_request nonce t)"
  shows "\<exists>st'. run_service_connection P deep value env core_uid st = (Inr (), st')
      \<and> pl_sent (st_io st') = frame_of (ready_message nonce) @ frame_of (service_result P env nonce t)"
proof -
  let ?req = "text_request nonce t"
  have s1: "sendable P deep HELLO_LIMIT (hello_message nonce)" and s2: "sendable P deep PAYLOAD_LIMIT (ready_message nonce)"
    using greeting_sendable[OF assms(2,3), of P] sendable_mono[of P deep HELLO_LIMIT _ PAYLOAD_LIMIT] by (simp_all add: HELLO_LIMIT_def PAYLOAD_LIMIT_def)
  have s3: "sendable P deep PAYLOAD_LIMIT ?req" by (rule request_sendable[OF assms(2-5,7)])
  obtain wire where wire: "canonical (PDict ?req) = Inr wire" using s3 by (auto simp: sendable_def)
  define result where "result = result_message nonce (sha256_hex P wire) (worked P env (PDict [(lit ''text'', PStr t)]))"
  have res: "service_result P env nonce t = result" by (simp add: service_result_def result_def wire)
  have s4: "sendable P deep PAYLOAD_LIMIT result"
    unfolding result_def by (rule result_sendable[OF assms(2,3) _ worked_items]) (use assms(8) res in \<open>simp_all add: result_def\<close>)
  have hl: "HELLO_LIMIT \<le> PAYLOAD_LIMIT" by (simp add: HELLO_LIMIT_def PAYLOAD_LIMIT_def)
  have rd: "list_all steady_read (pl_reads (st_io st))" and sd: "list_all steady_send (pl_sends (st_io st))" and em: "pl_sent (st_io st) = []"
    using assms(1) by (simp_all add: service_ready_def)
  obtain rs1 where f1: "plain_frame P deep HELLO_LIMIT (st_io st) = (Inr (norm_message (hello_message nonce)), (st_io st)\<lparr>pl_data := frame_of ?req, pl_reads := rs1\<rparr>)"
    "list_all steady_read rs1" using plain_frame_steady[OF s1 hl rd assms(9)] by blast
  define st1 where "st1 = st\<lparr>st_io := (st_io st)\<lparr>pl_data := frame_of ?req, pl_reads := rs1\<rparr>\<rparr>"
  have r1: "service_ready env core_uid st1" using assms(1) f1(2) by (simp add: service_ready_def st1_def)
  obtain jobdir where j: "se_root env = Inr jobdir" using assms(1) by (auto simp: service_ready_def)
  obtain st2 where st2: "service_confine env jobdir st1 = (Inr (), st2)" "st_io st2 = st_io st1" "st_rlimits st2 = limits_set default_limits"
    using confine_ready[OF r1 j] by blast
  have sd2: "list_all steady_send (pl_sends (st_io st2))" using sd by (simp add: st2(2) st1_def)
  obtain evs where w1: "plain_write (ready_message nonce) (st_io st2) = (Inr (), (st_io st2)\<lparr>pl_sends := evs, pl_sent := pl_sent (st_io st2) @ frame_of (ready_message nonce)\<rparr>)"
    "list_all steady_send evs" using plain_write_steady[OF s2 sd2] by blast
  define io3 where "io3 = (st_io st2)\<lparr>pl_sends := evs, pl_sent := frame_of (ready_message nonce)\<rparr>"
  have w1': "plain_write (ready_message nonce) (st_io st2) = (Inr (), io3)" using w1(1) em by (simp add: io3_def st2(2) st1_def)
  have "list_all steady_read (pl_reads io3)" "pl_data io3 = frame_of ?req @ []" using f1(2) by (simp_all add: io3_def st2(2) st1_def)
  from plain_frame_steady[OF s3 order_refl this] obtain rs2 where
    f2: "plain_frame P deep PAYLOAD_LIMIT io3 = (Inr (norm_message ?req), io3\<lparr>pl_data := [], pl_reads := rs2\<rparr>)" "list_all steady_read rs2" by blast
  define io4 where "io4 = io3\<lparr>pl_data := [], pl_reads := rs2\<rparr>"
  define io5 where "io5 = io4\<lparr>pl_reads := tl rs2\<rparr>"
  have e: "plain_expect_eof io4 = (Inr (), io5)"
    using plain_next_steady[of io4] f2(2) by (auto simp: plain_expect_eof_def Let_def io4_def io5_def)
  have "list_all steady_send (pl_sends io5)" using w1(2) by (simp add: io5_def io4_def io3_def)
  from plain_write_steady[OF s4 this] obtain evs2 where
    w2: "plain_write result io5 = (Inr (), io5\<lparr>pl_sends := evs2, pl_sent := pl_sent io5 @ frame_of result\<rparr>)" by blast
  have c: "canonical (PDict (norm_message ?req)) = Inr wire" by (rule canonical_norm[OF wire])
  have g: "se_checks env = Inr ()" "se_stream env" "\<not> (fst (se_peer env) \<le> 0 \<or> snd (se_peer env) \<noteq> core_uid)"
    using assms(1) by (auto simp: service_ready_def)
  obtain io6 where w3: "plain_write result io5 = (Inr (), io6)" "pl_sent io6 = frame_of (ready_message nonce) @ frame_of result"
    using w2 by (simp add: io5_def io4_def io3_def)
  note run = g f1(1) hello_read[OF assms(2)] j st2(1,3) w1' f2(1)[folded io4_def] request_read[OF assms(6)] e limits_set_idem c w3(1) ready_ends_caught[OF assms(1)]
  have "\<exists>st'. run_service_connection P deep value env core_uid st = (Inr (), st') \<and> st_io st' = io6"
    unfolding run_service_connection_def ready_message_def[symmetric] result_message_def[symmetric]
    using g by (simp add: abind_def alift_def azoom_def run st1_def[symmetric] result_def[symmetric])
  then show ?thesis using w3(2) unfolding res by blast
qed

section \<open>The Core hears the service\<close>

text \<open>The host's checks pass, and the lifecycle finds and sees the end of the process \<open>pid\<close>.\<close>

definition healthy_host :: "lifecycle \<Rightarrow> int \<Rightarrow> int \<Rightarrow> kernel_view \<Rightarrow> bool" where
  "healthy_host lf lease pid view \<longleftrightarrow>
     lf_preflight lf = Inr () \<and> lf_acquire lf = Inr lease \<and> lf_idle lf = Inr () \<and> lf_connect lf = Inr ()
     \<and> (\<forall>fd. pidfd_exited view fd = Inr False \<and> (\<exists>bound. lf_bind lf pid fd = Inr bound \<and> lf_await_end lf bound (Some fd) = Inr ()))"

lemma open_hears:
  assumes "hex_string 64 nonce" "deep_ok deep" "healthy_host lf lease pid view" "io_data io = frame_of (ready_message nonce) @ later"
    "list_all steady_send (io_sends io)"
    "delivers_all (vouched p pid) [4, length (frame_of (ready_message nonce)) - 4] (io_recvs io) = Some rest"
    "io_receiver io = \<lparr>rc_identity = new_identity p, rc_fds = fds\<rparr>"
  shows "\<exists>io2 fd bound. exchange_open P deep value lf view nonce \<lparr>ex_io = io, ex_invocation = None\<rparr> = (Inr (), \<lparr>ex_io = io2, ex_invocation = Some bound\<rparr>)
      \<and> io_data io2 = later \<and> io_recvs io2 = rest \<and> io_sent io2 = io_sent io @ frame_of (hello_message nonce) \<and> list_all steady_send (io_sends io2)
      \<and> bound_to p pid (identity io2) \<and> balanced (mset fds) (io_receiver io2) \<and> fi_pidfd (identity io2) = Some fd \<and> lf_await_end lf bound (Some fd) = Inr ()"
proof -
  note hello = greeting_sendable(1)[OF assms(1,2), of P] and ready = greeting_sendable(2)[OF assms(1,2), of P]
  have hl: "HELLO_LIMIT \<le> PAYLOAD_LIMIT" by (simp add: HELLO_LIMIT_def PAYLOAD_LIMIT_def)
  obtain hraw where hraw: "canonical (PDict (hello_message nonce)) = Inr hraw" using hello by (auto simp: sendable_def)
  obtain s1 where w1: "worker_write_frame (hello_message nonce) HELLO_LIMIT io = (Inr hraw, io\<lparr>io_sends := s1, io_sent := io_sent io @ frame_of (hello_message nonce)\<rparr>)"
    "list_all steady_send s1" using write_frame_steady[OF hello hl assms(5) hraw] by blast
  define io1 where "io1 = io\<lparr>io_sends := s1, io_sent := io_sent io @ frame_of (hello_message nonce)\<rparr>"
  have io1: "bound_to p pid (identity io1)" "balanced (mset fds) (io_receiver io1)" "io_data io1 = frame_of (ready_message nonce) @ later"
    "delivers_all (vouched p pid) [4, length (frame_of (ready_message nonce)) - 4] (io_recvs io1) = Some rest"
    using assms(4,6,7) by (simp_all add: io1_def bound_to_def new_identity_def balanced_def kept_fd_def)
  obtain r1 where r1: "worker_read_frame P deep HELLO_LIMIT io1 = (Inr (norm_message (ready_message nonce)), io1\<lparr>io_recvs := rest, io_data := later, io_receiver := r1\<rparr>)"
    "balanced (mset fds) r1" "bound_to p pid (rc_identity r1)" "fi_pid (rc_identity r1) = Some pid"
    using read_frame_vouched[OF ready hl io1(3,4,1,2)] by blast
  define io2 where "io2 = io1\<lparr>io_recvs := rest, io_data := later, io_receiver := r1\<rparr>"
  obtain fd where fd: "fi_pidfd (rc_identity r1) = Some fd" using r1(2,4) by (auto simp: balanced_def)
  obtain bound where b: "lf_bind lf pid fd = Inr bound" "lf_await_end lf bound (Some fd) = Inr ()" "pidfd_exited view fd = Inr False"
    using assms(3) by (auto simp: healthy_host_def)
  have bnd: "exchange_bind lf view \<lparr>ex_io = io2, ex_invocation = None\<rparr> = (Inr (), \<lparr>ex_io = io2, ex_invocation = Some bound\<rparr>)"
    using r1(4) fd b by (simp add: exchange_bind_def io2_def)
  have "exchange_open P deep value lf view nonce \<lparr>ex_io = io, ex_invocation = None\<rparr> = (Inr (), \<lparr>ex_io = io2, ex_invocation = Some bound\<rparr>)"
    unfolding exchange_open_def
    by (simp add: abind_def alift_def azoom_def w1(1) io1_def[symmetric] r1(1) io2_def[symmetric] ready_read bnd)
  then show ?thesis using b fd r1 w1(2)
    by (intro exI[of _ io2] exI[of _ fd] exI[of _ bound]) (simp add: io2_def io1_def)
qed

lemma ask_hears:
  assumes "sendable P deep PAYLOAD_LIMIT (text_request nonce t)" "canonical (PDict (text_request nonce t)) = Inr wire" "answer_items items"
    "sendable P deep PAYLOAD_LIMIT (result_message nonce (sha256_hex P wire) items)"
    "io_data io = frame_of (result_message nonce (sha256_hex P wire) items)" "list_all steady_send (io_sends io)"
    "delivers_all (vouched p pid) [4, length (frame_of (result_message nonce (sha256_hex P wire) items)) - 4] (io_recvs io) = Some (e # evs)" "clean_end e"
    "bound_to p pid (identity io)" "balanced base (io_receiver io)" "fi_pidfd (identity io) = Some fd"
  shows "\<exists>io2. exchange_ask P deep value True nonce [(lit ''text'', PStr t)] \<lparr>ex_io = io, ex_invocation = b\<rparr>
        = (Inr (snd (hd items)), \<lparr>ex_io = io2, ex_invocation = b\<rparr>)
      \<and> io_sent io2 = io_sent io @ frame_of (text_request nonce t) \<and> fi_pidfd (identity io2) = Some fd"
proof -
  let ?req = "text_request nonce t"
  define result where "result = result_message nonce (sha256_hex P wire) items"
  obtain s2 where w2: "worker_write_frame ?req PAYLOAD_LIMIT io = (Inr wire, io\<lparr>io_sends := s2, io_sent := io_sent io @ frame_of ?req\<rparr>)"
    using write_frame_steady[OF assms(1) order_refl assms(6,2)] by blast
  define io3 where "io3 = io\<lparr>io_sends := s2, io_sent := io_sent io @ frame_of ?req\<rparr>"
  have io3: "bound_to p pid (identity io3)" "balanced base (io_receiver io3)" "io_data io3 = frame_of result @ []" "io_recvs io3 = io_recvs io"
    using assms(5,9,10) by (simp_all add: io3_def result_def)
  obtain r2 where r2: "worker_read_frame P deep PAYLOAD_LIMIT io3 = (Inr (norm_message result), io3\<lparr>io_recvs := e # evs, io_data := [], io_receiver := r2\<rparr>)"
    "balanced base r2" "fi_pid (rc_identity r2) = Some pid"
    using read_frame_vouched[OF assms(4) order_refl _ _ io3(1,2)] assms(7) io3(3,4) unfolding result_def by auto
  define io4 where "io4 = io3\<lparr>io_recvs := e # evs, io_data := [], io_receiver := r2\<rparr>"
  have eof: "expect_eof io4 = (Inr (), io4\<lparr>io_recvs := evs\<rparr>)"
    by (rule expect_eof_clean[OF _ assms(8) _ _ _]) (use r2(2,3) in \<open>simp_all add: io4_def\<close>)
  have "extends (identity io3) (identity io4)"
    using read_frame_cases[OF r2(1)[folded io4_def] io3(2)] by (auto simp: heard_def)
  then have fd4: "fi_pidfd (rc_identity r2) = Some fd" using assms(11) by (auto simp: extends_def io3_def io4_def)
  have rq: "worker_request [(lit ''text'', PStr t)] nonce = Inr ?req" by (simp add: worker_request_def has_keys_def text_request_def)
  have v: "validate_result value (norm_message result) nonce (sha256_hex P wire) = Inr (snd (hd items))"
    unfolding result_def by (rule result_read[OF assms(3)])
  have "exchange_ask P deep value True nonce [(lit ''text'', PStr t)] \<lparr>ex_io = io, ex_invocation = b\<rparr>
      = (Inr (snd (hd items)), \<lparr>ex_io = io4\<lparr>io_recvs := evs\<rparr>, ex_invocation = b\<rparr>)"
    unfolding exchange_ask_def
    by (simp add: abind_def alift_def azoom_def areturn_def rq w2 io3_def[symmetric] r2(1) io4_def[symmetric] eof v)
  then show ?thesis using fd4 by (intro exI[of _ "io4\<lparr>io_recvs := evs\<rparr>"]) (simp add: io4_def io3_def)
qed

lemma exchange_hears:
  assumes "hex_string 64 nonce" "deep_ok deep" "text_ok t" "float_kept P (lit ''2.0'')" "fits (text_request nonce t)"
    "fits (service_result P env nonce t)" "healthy_host lf lease pid view"
    "io_data io = frame_of (ready_message nonce) @ frame_of (service_result P env nonce t)" "list_all steady_send (io_sends io)"
    "delivers_all (vouched p pid) [4, length (frame_of (ready_message nonce)) - 4, 4, length (frame_of (service_result P env nonce t)) - 4] (io_recvs io)
       = Some (e # evs)" "clean_end e"
    "io_receiver io = \<lparr>rc_identity = new_identity p, rc_fds = fds\<rparr>"
  shows "\<exists>x fd bound. exchange_run P deep value lf view True nonce [(lit ''text'', PStr t)] \<lparr>ex_io = io, ex_invocation = None\<rparr>
        = (Inr (snd (hd (worked P env (PDict [(lit ''text'', PStr t)])))), x)
      \<and> io_sent (ex_io x) = io_sent io @ frame_of (hello_message nonce) @ frame_of (text_request nonce t)
      \<and> ex_invocation x = Some bound \<and> fi_pidfd (identity (ex_io x)) = Some fd \<and> lf_await_end lf bound (Some fd) = Inr ()"
proof -
  let ?req = "text_request nonce t" and ?items = "worked P env (PDict [(lit ''text'', PStr t)])"
  have req: "sendable P deep PAYLOAD_LIMIT ?req" by (rule request_sendable[OF assms(1-5)])
  obtain wire where wire: "canonical (PDict ?req) = Inr wire" using req by (auto simp: sendable_def)
  have res: "service_result P env nonce t = result_message nonce (sha256_hex P wire) ?items" by (simp add: service_result_def wire)
  have s4: "sendable P deep PAYLOAD_LIMIT (result_message nonce (sha256_hex P wire) ?items)"
    by (rule result_sendable[OF assms(1,2) _ worked_items]) (use assms(6) res in simp_all)
  obtain mid where mid: "delivers_all (vouched p pid) [4, length (frame_of (ready_message nonce)) - 4] (io_recvs io) = Some mid"
    "delivers_all (vouched p pid) [4, length (frame_of (service_result P env nonce t)) - 4] mid = Some (e # evs)"
    using assms(10) by (auto simp: bind_eq_Some_conv)
  obtain io2 fd bound where o: "exchange_open P deep value lf view nonce \<lparr>ex_io = io, ex_invocation = None\<rparr> = (Inr (), \<lparr>ex_io = io2, ex_invocation = Some bound\<rparr>)"
    "io_data io2 = frame_of (service_result P env nonce t)" "io_recvs io2 = mid" "io_sent io2 = io_sent io @ frame_of (hello_message nonce)"
    "list_all steady_send (io_sends io2)" "bound_to p pid (identity io2)" "balanced (mset fds) (io_receiver io2)" "fi_pidfd (identity io2) = Some fd"
    "lf_await_end lf bound (Some fd) = Inr ()"
    using open_hears[OF assms(1,2,7,8,9) mid(1) assms(12), of P "value"] by blast
  have d2: "io_data io2 = frame_of (result_message nonce (sha256_hex P wire) ?items)" using o(2) by (simp only: res)
  obtain io3 where a: "exchange_ask P deep value True nonce [(lit ''text'', PStr t)] \<lparr>ex_io = io2, ex_invocation = Some bound\<rparr>
        = (Inr (snd (hd ?items)), \<lparr>ex_io = io3, ex_invocation = Some bound\<rparr>)" "io_sent io3 = io_sent io2 @ frame_of ?req" "fi_pidfd (identity io3) = Some fd"
    using ask_hears[OF req wire worked_items s4 d2 o(5) _ assms(11) o(6,7,8), of evs "value" "Some bound"] mid(2) o(3) res by auto
  have "exchange_run P deep value lf view True nonce [(lit ''text'', PStr t)] \<lparr>ex_io = io, ex_invocation = None\<rparr>
      = (Inr (snd (hd ?items)), \<lparr>ex_io = io3, ex_invocation = Some bound\<rparr>)"
    unfolding exchange_run_parts by (simp add: abind_def o(1) a(1))
  then show ?thesis using o(4,9) a(2,3) by (intro exI[of _ "\<lparr>ex_io = io3, ex_invocation = Some bound\<rparr>"] exI[of _ fd] exI[of _ bound]) simp
qed

section \<open>A job reaches the service and comes back\<close>

text \<open>An exception no handler takes comes before the result is written: the process ends with two.\<close>

definition never :: "('s, 'a) action \<Rightarrow> bool" where
  "never m \<longleftrightarrow> (\<forall>s x. fst (m s) \<noteq> Inr x)"

lemma never_rules:
  "(\<And>x. never (f x)) \<Longrightarrow> never (abind m f)" "never (araise e)" "never m \<Longrightarrow> never m' \<Longrightarrow> never (if c then m else m')"
  by (auto simp: never_def abind_def araise_def split: prod.splits sum.splits)

lemma interrupted_service_silent:
  assumes "se_interrupt env = Some e" "uncaught e"
  shows "fst (service_main P deep value env core_uid worker_uid worker_gid st) = Inr 2"
proof -
  have u: "alift (work_escapes P env pl) = araise e" for pl
    using assms by (simp add: fun_eq_iff alift_def araise_def work_escapes_def work_end_def)
  have a: "abind (araise e) f = araise e" for f :: "unit \<Rightarrow> (service_state, unit) action" by (simp add: fun_eq_iff abind_def araise_def)
  have "never (run_service_connection P deep value env core_uid)"
    unfolding run_service_connection_def u a by (intro never_rules)
  then have "fst (run_service_connection P deep value env core_uid st) \<noteq> Inr x" for x by (simp add: never_def)
  then show ?thesis
    by (cases "run_service_connection P deep value env core_uid st"; cases "fst (run_service_connection P deep value env core_uid st)")
      (auto simp: service_main_def acatch_def abind_def araise_def areturn_def)
qed

text \<open>What a service process writes when it reads these bytes.\<close>

definition honest_service ::
  "platform \<Rightarrow> (pystr \<Rightarrow> bool) \<Rightarrow> (pystr \<Rightarrow> rat option) \<Rightarrow> service_env \<Rightarrow> worker_service_profile \<Rightarrow> service_state \<Rightarrow> bytes \<Rightarrow> bytes" where
  "honest_service P deep value env p st data =
     pl_sent (st_io (snd (service_main P deep value env (wp_core_uid p) (wp_worker_uid p) (wp_worker_gid p)
       (st\<lparr>st_io := (st_io st)\<lparr>pl_data := data\<rparr>\<rparr>))))"

text \<open>What the worker's run in the service comes to in the Core: its summary, a violation of the sandbox, an
  exhausted resource, or a failure without a name.\<close>

definition service_expected :: "platform \<Rightarrow> service_env \<Rightarrow> pyval \<Rightarrow> work_outcome" where
  "service_expected P env pl =
     (case se_interrupt env of
        Some e \<Rightarrow>
          if e = sandbox_denied then IsolationViolation else
          if e = PyError ''MemoryError'' \<or> e = resource_exhausted then ResourceExhausted else Raised ''RuntimeError''
      | None \<Rightarrow>
          (case summarizer_run P pl of
             Returned v \<Rightarrow> if se_violates env then IsolationViolation else Returned v
           | _ \<Rightarrow> Raised ''RuntimeError''))"

lemma worked_outcome: "service_outcome (Inr (snd (hd (worked P env (PDict kvs))))) = service_expected P env (PDict kvs)"
proof -
  have "is_text_dict v \<and> (\<exists>d. v = PDict d)" if "summarizer_run P (PDict kvs) = Returned v" for v
    using summary_text[OF that] by (auto simp: is_text_dict_def has_keys_def)
  moreover have "PyError c \<noteq> sandbox_denied" "PyError c \<noteq> PyError ''MemoryError''" "PyError c \<noteq> resource_exhausted"
    if "summarizer_run P (PDict kvs) = Raised c" for c
    using that by (auto simp: summarizer_run_def sandbox_denied_def resource_exhausted_def split: option.splits pyval.splits sum.splits)
  moreover have "PyError ''Exception'' \<noteq> sandbox_denied" "PyError ''Exception'' \<noteq> resource_exhausted"
    by (simp_all add: sandbox_denied_def resource_exhausted_def)
  ultimately show ?thesis
    by (cases "summarizer_run P (PDict kvs)") (auto simp: worked_def work_end_def service_expected_def service_outcome_def Let_def split: option.split)
qed

lemma honest_service_bytes:
  assumes "service_ready env (wp_core_uid p) st" "hex_string 64 nonce" "deep_ok deep" "text_ok t" "float_kept P (lit ''2.0'')"
    "limits_ok value default_limits" "fits (text_request nonce t)" "fits (service_result P env nonce t)"
    "list_all (\<lambda>i. 0 < i) [wp_core_uid p, wp_worker_uid p, wp_worker_gid p]"
  shows "honest_service P deep value env p st (frame_of (hello_message nonce) @ frame_of (text_request nonce t))
    = frame_of (ready_message nonce) @ frame_of (service_result P env nonce t)"
proof -
  let ?st = "st\<lparr>st_io := (st_io st)\<lparr>pl_data := frame_of (hello_message nonce) @ frame_of (text_request nonce t)\<rparr>\<rparr>"
  have "service_ready env (wp_core_uid p) ?st" using assms(1) by (simp add: service_ready_def)
  from service_answers[OF this assms(2-8)] obtain st' where "run_service_connection P deep value env (wp_core_uid p) ?st = (Inr (), st')"
    "pl_sent (st_io st') = frame_of (ready_message nonce) @ frame_of (service_result P env nonce t)" by auto
  then show ?thesis using assms(9) by (simp add: honest_service_def service_main_def acatch_def abind_def areturn_def)
qed

lemma service_completes:
  assumes "sr_pending s = []" "sr_profile s = p" "list_all (\<lambda>i. 0 < i) [wp_core_uid p, wp_worker_uid p, wp_worker_gid p]"
    "healthy_host lf lease pid view" "service_ready env (wp_core_uid p) st"
    "hex_string 64 nonce" "deep_ok deep" "text_ok t" "float_kept P (lit ''2.0'')" "limits_ok value default_limits"
    "fits (text_request nonce t)" "fits (service_result P env nonce t)"
    "connection = (\<lambda>r. \<lparr>io_data = honest_service P deep value env p st (frame_of (hello_message nonce) @ frame_of (text_request nonce t)),
        io_recvs = recvs, io_sends = sends, io_sent = [], io_receiver = r\<rparr>)"
    "list_all steady_send sends"
    "delivers_all (vouched p pid) [4, length (frame_of (ready_message nonce)) - 4, 4, length (frame_of (service_result P env nonce t)) - 4] recvs
       = Some (e # evs)" "clean_end e"
  shows "\<exists>fds x. run_service_worker P deep value lf view True nonce [(lit ''text'', PStr t)] connection s
        = (service_expected P env (PDict [(lit ''text'', PStr t)]), s\<lparr>sr_fds := fds\<rparr>)
      \<and> mset fds = mset (sr_fds s)
      \<and> tx_exchange (transact P deep value lf view True nonce [(lit ''text'', PStr t)]
            (connection \<lparr>rc_identity = new_identity p, rc_fds = lease # sr_fds s\<rparr>)) = Some x
      \<and> io_sent (ex_io x) = frame_of (hello_message nonce) @ frame_of (text_request nonce t)"
proof -
  let ?pl = "[(lit ''text'', PStr t)]"
  define io where "io = connection \<lparr>rc_identity = new_identity p, rc_fds = lease # sr_fds s\<rparr>"
  have io: "io_data io = frame_of (ready_message nonce) @ frame_of (service_result P env nonce t)" "io_recvs io = recvs" "io_sends io = sends"
    "io_sent io = []" "io_receiver io = \<lparr>rc_identity = new_identity p, rc_fds = lease # sr_fds s\<rparr>"
    by (simp_all add: io_def assms(13) honest_service_bytes[OF assms(5-12,3)])
  have steady: "list_all steady_send (io_sends io)"
    "delivers_all (vouched p pid) [4, length (frame_of (ready_message nonce)) - 4, 4, length (frame_of (service_result P env nonce t)) - 4] (io_recvs io)
       = Some (e # evs)" using assms(14,15) by (simp_all only: io(2,3))
  obtain x fd bound where x: "exchange_run P deep value lf view True nonce ?pl \<lparr>ex_io = io, ex_invocation = None\<rparr> = (Inr (snd (hd (worked P env (PDict ?pl)))), x)"
    "io_sent (ex_io x) = frame_of (hello_message nonce) @ frame_of (text_request nonce t)"
    "ex_invocation x = Some bound" "fi_pidfd (identity (ex_io x)) = Some fd" "lf_await_end lf bound (Some fd) = Inr ()"
    using exchange_hears[OF assms(6-9,11,12,4) io(1) steady assms(16) io(5), of "value"] unfolding io(4) append_Nil by blast
  define tx where "tx = \<lparr>tx_outcome = Inr (snd (hd (worked P env (PDict ?pl)))), tx_confirmed = True, tx_exchange = Some x\<rparr>"
  have tx: "transact P deep value lf view True nonce ?pl io = tx"
    using assms(4) x by (simp add: transact_def healthy_host_def tx_def)
  have "balanced (add_mset lease (mset (sr_fds s))) (io_receiver io)" using balanced_new[of "lease # sr_fds s" p] by (simp add: io(5))
  from transact_cases(1)[OF tx this] have "balanced (add_mset lease (mset (sr_fds s))) (io_receiver (ex_io x))" by (simp add: tx_def)
  from release_ok[OF this] obtain r' where r': "abind (azoom rc_fds (\<lambda>fds r. r\<lparr>rc_fds := fds\<rparr>) (close_all [lease])) (\<lambda>_. identity_close)
      (io_receiver (ex_io x)) = (Inr (), r')" "mset (rc_fds r') = mset (sr_fds s)" by blast
  have "rbind (lf_preflight lf) (\<lambda>_. lf_acquire lf) = Inr lease" using assms(4) by (simp add: healthy_host_def)
  then have "run_service_worker P deep value lf view True nonce ?pl connection s = (service_outcome (tx_outcome tx), s\<lparr>sr_fds := rc_fds r'\<rparr>)"
    unfolding run_service_worker_def Let_def assms(2) using assms(1) r'(1) by (simp add: tx[unfolded io_def tx_def] tx_def)
  then show ?thesis using r'(2) x(2) tx worked_outcome[of P env ?pl]
    by (intro exI[of _ "rc_fds r'"] exI[of _ x]) (simp add: io_def tx_def)
qed

text \<open>C12. A job crosses to an honest service and back, however the Core's fragments are cut: over a healthy host and a
  steady transport, with a worker interrupted by nothing but an \<open>Exception\<close> or the sandbox (\<open>SystemExit\<close> and
  \<open>KeyboardInterrupt\<close> end the service without a result: \<open>interrupted_service_silent\<close>), the run returns what the worker's
  run in the service comes to (the summary, a violation, an exhausted resource or a failure), what the Core sent is what the service read, no entry stays pending and the
  same descriptors are open as before.
\<close>

theorem service_job_completes:
  assumes "sr_pending s = []" "sr_profile s = p" "list_all (\<lambda>i. 0 < i) [wp_core_uid p, wp_worker_uid p, wp_worker_gid p]"
    "healthy_host lf lease pid view" "service_ready env (wp_core_uid p) st"
    "hex_string 64 nonce" "deep_ok deep" "text_ok t" "float_kept P (lit ''2.0'')" "limits_ok value default_limits"
    "fits (text_request nonce t)" "fits (service_result P env nonce t)"
    "connection = (\<lambda>r. \<lparr>io_data = honest_service P deep value env p st (frame_of (hello_message nonce) @ frame_of (text_request nonce t)),
        io_recvs = recvs, io_sends = sends, io_sent = [], io_receiver = r\<rparr>)"
    "list_all steady_send sends"
    "delivers_all (vouched p pid) [4, length (frame_of (ready_message nonce)) - 4, 4, length (frame_of (service_result P env nonce t)) - 4] recvs
       = Some (e # evs)" "clean_end e"
  shows "\<exists>fds x. run_service_worker P deep value lf view True nonce [(lit ''text'', PStr t)] connection s
        = (service_expected P env (PDict [(lit ''text'', PStr t)]), s\<lparr>sr_fds := fds\<rparr>)
      \<and> mset fds = mset (sr_fds s)
      \<and> tx_exchange (transact P deep value lf view True nonce [(lit ''text'', PStr t)]
            (connection \<lparr>rc_identity = new_identity p, rc_fds = lease # sr_fds s\<rparr>)) = Some x
      \<and> io_sent (ex_io x) = frame_of (hello_message nonce) @ frame_of (text_request nonce t)"
  by (rule service_completes[OF assms])

section \<open>A sample job\<close>

definition sample_nonce :: pystr where "sample_nonce = replicate 64 48"

definition sample_profile :: worker_service_profile where
  "sample_profile =
     \<lparr>wp_core_uid = 1000, wp_worker_uid = 1001, wp_worker_gid = 1002, wp_socket_gid = 1003, wp_socket_path = lit ''/run/geniusnew/worker.sock'',
      wp_lease_path = lit ''/run/geniusnew/worker.lease'', wp_unit_prefix = lit ''geniusnew-worker@'',
      wp_runtime_root = lit ''/run/geniusnew-worker/jobs'', wp_phase_seconds = PInt 5, wp_total_seconds = PInt 20\<rparr>"

definition sample_view :: kernel_view where
  "sample_view = \<lparr>kv_fdinfo = (\<lambda>_. Some (lit ''Pid:7'')), kv_poll = (\<lambda>_. Some [])\<rparr>"

definition sample_fragment :: recv_event where
  "sample_fragment = Fragment PAYLOAD_LIMIT
     [(1, 2, [7, 0, 0, 0, 233, 3, 0, 0, 234, 3, 0, 0]), (1, 4, [9, 0, 0, 0])] 0 sample_view"

definition sample_recvs :: "recv_event list" where
  "sample_recvs = replicate 4 sample_fragment @ [Fragment 0 [] 0 sample_view]"

definition sample_lifecycle :: lifecycle where
  "sample_lifecycle =
     \<lparr>lf_preflight = Inr (), lf_acquire = Inr 5, lf_idle = Inr (), lf_connect = Inr (),
      lf_bind = (\<lambda>pid fd. Inr \<lparr>iv_unit = lit ''geniusnew-worker@0.service'', iv_invocation_id = [], iv_cgroup = [], iv_runtime_dir = [], iv_pid = pid\<rparr>),
      lf_await_end = (\<lambda>_ _. Inr ())\<rparr>"

definition sample_service_env :: service_env where
  "sample_service_env =
     \<lparr>se_checks = Inr (), se_stream = True, se_peer = (3, 1000), se_root = Inr (lit ''/tmp/job''), se_dumpable = Inr (),
      se_landlock = sample_landlock, se_machine = ''x86_64'', se_prctl = (\<lambda>_. 0), se_read_paths = [lit ''/usr''],
      se_interrupt = None, se_violates = False\<rparr>"

definition sample_service_state :: service_state where
  "sample_service_state =
     \<lparr>st_io = \<lparr>pl_data = [], pl_reads = [Reads 2, Reads 0], pl_sends = [Sends 3, SendBlocks], pl_sent = []\<rparr>, st_rlimits = ch_rlimits sample_child,
      st_landlock = ch_landlock sample_child, st_seccomp = ch_seccomp sample_child, st_hook = \<lparr>hk_violated = False, hk_bootstrap = False\<rparr>\<rparr>"

lemma sample_nonce_hex: "hex_string 64 sample_nonce"
  by (simp add: sample_nonce_def hex_string_def list_all_iff is_lower_hex_def is_digit_def)

lemma sample_controls:
  "sort_controls [(1, 2, [7, 0, 0, 0, 233, 3, 0, 0, 234, 3, 0, 0]), (1, 4, [9, 0, 0, 0])] =
     \<lparr>sc_credentials = [[7, 0, 0, 0, 233, 3, 0, 0, 234, 3, 0, 0]], sc_pidfds = [[9, 0, 0, 0]], sc_owned = [9], sc_unexpected = False\<rparr>"
  "unpack_creds [7, 0, 0, 0, 233, 3, 0, 0, 234, 3, 0, 0] = (7, 1001, 1002)" "unpack_int [9, 0, 0, 0] = 9"
proof -
  show i: "unpack_int [9, 0, 0, 0] = 9" by (simp add: unpack_int_def from_little_endian_def)
  show "unpack_creds [7, 0, 0, 0, 233, 3, 0, 0, 234, 3, 0, 0] = (7, 1001, 1002)" by (simp add: unpack_creds_def unpack_int_def from_little_endian_def)
  show "sort_controls [(1, 2, [7, 0, 0, 0, 233, 3, 0, 0, 234, 3, 0, 0]), (1, 4, [9, 0, 0, 0])] =
     \<lparr>sc_credentials = [[7, 0, 0, 0, 233, 3, 0, 0, 234, 3, 0, 0]], sc_pidfds = [[9, 0, 0, 0]], sc_owned = [9], sc_unexpected = False\<rparr>"
    using i by (simp add: sort_controls_def sort_control_def SOL_SOCKET_def SCM_RIGHTS_def SCM_CREDENTIALS_def SCM_PIDFD_def)
qed

lemma sample_polls: "pidfd_exited sample_view fd = Inr False" "pidfd_pid sample_view fd = Inr 7"
  by (simp_all add: pidfd_exited_def pidfd_pid_def sample_view_def lit_def is_line_break_def starts_with_def after_colon_def strip_text_def
      is_space_def is_digit_def max_str_digits_def)

lemma sample_vouched: "vouched sample_profile 7 sample_fragment"
  by (simp add: vouched_def from_worker_def sender_def sample_fragment_def sample_profile_def sample_controls sample_polls)

lemma sample_clean: "clean_end (Fragment 0 [] 0 sample_view)"
  by (simp add: clean_end_def sort_controls_def)

lemma sample_host: "healthy_host sample_lifecycle 5 7 sample_view"
  by (simp add: healthy_host_def sample_lifecycle_def sample_polls)

lemma sample_service_ready: "service_ready sample_service_env (wp_core_uid sample_profile) sample_service_state"
  using sample_ready(3) by (simp add: child_ready_def service_ready_def sample_env_def sample_service_env_def sample_service_state_def sample_profile_def steady_read_def)

lemma sample_fits:
  "fits (text_request sample_nonce (lit ''one two''))"
  "fits (service_result sample_platform sample_service_env sample_nonce (lit ''one two''))"
proof -
  have n: "length (json_string sample_nonce) = 66" using sample_nonce_hex json_string_digest by (simp add: is_digest_def)
  have "\<exists>raw. canonical (PDict (text_request sample_nonce (lit ''one two''))) = Inr raw \<and> length raw \<le> 32768"
    using n by (simp add: canonical_def text_request_def limits_dict_def default_limits_def member_text_def int_text_def nat_digits.simps
        json_string_def esc_char_def lit_def max_str_digits_def finite_repr_def)
  then show "fits (text_request sample_nonce (lit ''one two''))" by (simp add: fits_def PAYLOAD_LIMIT_def)
  then obtain wire where w: "canonical (PDict (text_request sample_nonce (lit ''one two''))) = Inr wire" by (auto simp: fits_def)
  define d where "d = sha256_hex sample_platform wire"
  have "is_digest d" by (simp add: d_def)
  then have d: "length (json_string d) = 66" by (rule json_string_digest)
  have wk: "worked sample_platform sample_service_env (PDict [(lit ''text'', PStr (lit ''one two''))]) = [(lit ''output'', PDict [(lit ''text'', PStr sample_text)])]"
    using sample_summary by (simp add: worked_def work_end_def sample_service_env_def sample_payload_def is_text_dict_def has_keys_def)
  have "\<exists>raw. canonical (PDict (result_message sample_nonce d [(lit ''output'', PDict [(lit ''text'', PStr sample_text)])])) = Inr raw \<and> length raw \<le> 32768"
    using n d unfolding sample_text_plain by (simp add: canonical_def result_message_def member_text_def int_text_def nat_digits.simps
        json_string_def esc_char_def lit_def max_str_digits_def)
  then show "fits (service_result sample_platform sample_service_env sample_nonce (lit ''one two''))"
    by (simp add: service_result_def w wk d_def[symmetric] fits_def PAYLOAD_LIMIT_def)
qed

lemma delivers_whole: "0 < n \<Longrightarrow> n \<le> Suc k \<Longrightarrow> ok (Fragment k c f v) \<Longrightarrow> delivers ok n (Fragment k c f v # evs) = Some evs"
  by (cases n) simp_all

abbreviation sample_peer :: bytes where
  "sample_peer \<equiv> frame_of (ready_message sample_nonce) @ frame_of (service_result sample_platform sample_service_env sample_nonce (lit ''one two''))"

lemma sample_facts: "deep_ok (\<lambda>_. False)" "text_ok (lit ''one two'')" "float_kept sample_platform (lit ''2.0'')" "limits_ok sample_value default_limits"
proof -
  show "float_kept sample_platform (lit ''2.0'')" using sample_ready(1) by (simp add: request_ok_def default_limits_def)
qed (simp_all add: deep_ok_def sample_ready(2))

lemma sample_delivered:
  "delivers_all (vouched sample_profile 7) [4, length (frame_of (ready_message sample_nonce)) - 4, 4,
     length (frame_of (service_result sample_platform sample_service_env sample_nonce (lit ''one two''))) - 4] sample_recvs
   = Some [Fragment 0 [] 0 sample_view]"
proof -
  let ?res = "service_result sample_platform sample_service_env sample_nonce (lit ''one two'')"
  have len: "0 < length (frame_of m) - 4 \<and> length (frame_of m) - 4 \<le> Suc PAYLOAD_LIMIT" if f: "fits m" for m
    using f canonical_dict_nonempty by (fastforce simp: fits_def frame_of_def framed_def worker_header_def)
  have "fits (ready_message sample_nonce)"
    using sendable_mono[OF greeting_sendable(2)[OF sample_nonce_hex sample_facts(1), of sample_platform], of PAYLOAD_LIMIT]
    by (simp add: sendable_def fits_def HELLO_LIMIT_def PAYLOAD_LIMIT_def)
  note l = len[OF this] len[OF sample_fits(2)]
  have w: "delivers (vouched sample_profile 7) n (sample_fragment # evs) = Some evs" if z: "0 < n" "n \<le> Suc PAYLOAD_LIMIT" for n evs
    using delivers_whole[OF z, of "vouched sample_profile 7"] sample_vouched unfolding sample_fragment_def by blast
  have four: "(4 :: nat) \<le> Suc PAYLOAD_LIMIT" by (simp add: PAYLOAD_LIMIT_def)
  have r: "sample_recvs = [sample_fragment, sample_fragment, sample_fragment, sample_fragment, Fragment 0 [] 0 sample_view]"
    by (simp add: sample_recvs_def numeral_eq_Suc)
  show ?thesis using l four unfolding r by (simp add: w)
qed

abbreviation sample_connection :: "receiver \<Rightarrow> core_io" where
  "sample_connection \<equiv> (\<lambda>r. \<lparr>io_data = honest_service sample_platform (\<lambda>_. False) sample_value sample_service_env sample_profile sample_service_state
        (frame_of (hello_message sample_nonce) @ frame_of (text_request sample_nonce (lit ''one two''))),
      io_recvs = sample_recvs, io_sends = [Sends 1], io_sent = [], io_receiver = r\<rparr>)"

definition sample_runner :: service_runner where
  "sample_runner = \<lparr>sr_profile = sample_profile, sr_pending = [], sr_fds = [0, 1, 2]\<rparr>"

theorem service_job_completes_witness:
  "\<exists>fds. run_service_worker sample_platform (\<lambda>_. False) sample_value sample_lifecycle sample_view True sample_nonce sample_payload sample_connection sample_runner
     = (Returned (PDict [(lit ''text'', PStr sample_text)]), sample_runner\<lparr>sr_fds := fds\<rparr>) \<and> mset fds = {#0, 1, 2#}"
proof -
  have s: "sr_pending sample_runner = []" "sr_profile sample_runner = sample_profile" "mset (sr_fds sample_runner) = {#0, 1, 2#}"
    by (simp_all add: sample_runner_def)
  have p: "list_all (\<lambda>i. 0 < i) [wp_core_uid sample_profile, wp_worker_uid sample_profile, wp_worker_gid sample_profile]" by (simp add: sample_profile_def)
  have steady: "list_all steady_send [Sends 1]" by simp
  have "service_expected sample_platform sample_service_env (PDict sample_payload) = Returned (PDict [(lit ''text'', PStr sample_text)])"
    by (simp add: service_expected_def sample_service_env_def sample_summary)
  then show ?thesis
    using service_job_completes[OF s(1,2) p sample_host sample_service_ready sample_nonce_hex sample_facts sample_fits refl steady sample_delivered sample_clean]
    unfolding sample_payload_def s(3) by auto
qed

abbreviation sample_io :: core_io where
  "sample_io \<equiv> \<lparr>io_data = sample_peer, io_recvs = sample_recvs, io_sends = [Sends 1], io_sent = [],
     io_receiver = \<lparr>rc_identity = new_identity sample_profile, rc_fds = [0, 1, 2]\<rparr>\<rparr>"

theorem exchange_authenticated_witness:
  "\<exists>out x ready answer. exchange_run sample_platform (\<lambda>_. False) sample_value sample_lifecycle sample_view True sample_nonce sample_payload
        \<lparr>ex_io = sample_io, ex_invocation = None\<rparr> = (Inr out, x)
     \<and> sample_peer = frame_of ready @ frame_of answer \<and> field_is answer ''nonce'' sample_nonce"
proof -
  have io: "io_data sample_io = sample_peer" "list_all steady_send (io_sends sample_io)"
    "delivers_all (vouched sample_profile 7) [4, length (frame_of (ready_message sample_nonce)) - 4, 4,
        length (frame_of (service_result sample_platform sample_service_env sample_nonce (lit ''one two''))) - 4] (io_recvs sample_io)
      = Some [Fragment 0 [] 0 sample_view]"
    "io_receiver sample_io = \<lparr>rc_identity = new_identity sample_profile, rc_fds = [0, 1, 2]\<rparr>"
    using sample_delivered by (simp_all only: core_io.simps) simp
  have "\<exists>x. exchange_run sample_platform (\<lambda>_. False) sample_value sample_lifecycle sample_view True sample_nonce sample_payload
        \<lparr>ex_io = sample_io, ex_invocation = None\<rparr> = (Inr (snd (hd (worked sample_platform sample_service_env (PDict sample_payload)))), x)"
    using exchange_hears[OF sample_nonce_hex sample_facts(1-3) sample_fits sample_host io(1-3) sample_clean io(4), of sample_value]
    unfolding sample_payload_def by blast
  then obtain out x where run: "exchange_run sample_platform (\<lambda>_. False) sample_value sample_lifecycle sample_view True sample_nonce sample_payload
        \<lparr>ex_io = sample_io, ex_invocation = None\<rparr> = (Inr out, x)" by blast
  have "io_receiver sample_io = \<lparr>rc_identity = new_identity sample_profile, rc_fds = [0, 1, 2]\<rparr>" by simp
  from exchange_authenticated[OF run this] obtain ready answer where "sample_peer = frame_of ready @ frame_of answer" "field_is answer ''nonce'' sample_nonce" by auto
  with run show ?thesis by blast
qed

theorem payload_only_to_bound_witness:
  "\<exists>e x. exchange_run sample_platform (\<lambda>_. False) sample_value sample_lifecycle sample_view True sample_nonce sample_payload
        \<lparr>ex_io = sample_io\<lparr>io_recvs := []\<rparr>, ex_invocation = None\<rparr> = (Inl e, x)
     \<and> (\<exists>rest. frame_of (hello_message sample_nonce) = io_sent (ex_io x) @ rest)"
proof -
  let ?io = "sample_io\<lparr>io_recvs := []\<rparr>"
  obtain res x where run: "exchange_run sample_platform (\<lambda>_. False) sample_value sample_lifecycle sample_view True sample_nonce sample_payload
        \<lparr>ex_io = ?io, ex_invocation = None\<rparr> = (res, x)" by fastforce
  obtain raw where raw: "canonical (PDict (hello_message sample_nonce)) = Inr raw"
    using greeting_sendable(1)[OF sample_nonce_hex sample_facts(1), of sample_platform] by (auto simp: sendable_def)
  have "HELLO_LIMIT \<le> PAYLOAD_LIMIT" "list_all steady_send (io_sends ?io)" by (simp_all add: HELLO_LIMIT_def PAYLOAD_LIMIT_def)
  from write_frame_steady[OF greeting_sendable(1)[OF sample_nonce_hex sample_facts(1)] this raw] obtain evs where
    w: "worker_write_frame (hello_message sample_nonce) HELLO_LIMIT ?io = (Inr raw, ?io\<lparr>io_sends := evs, io_sent := frame_of (hello_message sample_nonce)\<rparr>)" by auto
  have none: "ex_invocation x = None"
    using run w by (auto simp: exchange_run_def abind_def azoom_def worker_read_frame_def recv_exact.simps[of 4] recv_fragment_def)
  have "io_receiver ?io = \<lparr>rc_identity = new_identity sample_profile, rc_fds = [0, 1, 2]\<rparr>" by simp
  from payload_only_to_bound[OF run this none] run show ?thesis by auto
qed


end
