(* ===== verification/HostEvidence.thy ===== *)
theory HostEvidence
  imports HostText WorkerService
begin

text \<open>
  What the host checks of \<open>geniusnew/worker_service.py\<close> prove: that a bound invocation is the hardened unit the
  profile names and its process the sender, that a confirmed end leaves no process of the worker's user, and
  with the runner, that an outcome is signed only after both.
\<close>

section \<open>Processes\<close>

text \<open>No entry of \<open>/proc\<close> shows the worker's user in one of its four user IDs.\<close>

definition other_users :: "host_view \<Rightarrow> int \<Rightarrow> pystr \<Rightarrow> bool" where
  "other_users h uid name \<longleftrightarrow>
     hv_read h [lit ''proc'', name, lit ''status''] = NotFound
     \<or> (\<exists>bytes text values. hv_read h [lit ''proc'', name, lit ''status''] = Found bytes \<and> ascii_decode bytes = Some text
          \<and> uid_fields (universal_newlines text) = [values] \<and> (\<forall>v \<in> set values. int (digits_value 0 v) \<noteq> uid))"

definition no_worker_process :: "host_view \<Rightarrow> worker_service_profile \<Rightarrow> bool" where
  "no_worker_process h p \<longleftrightarrow>
     (\<exists>names. hv_listdir h [lit ''proc''] = Found names
        \<and> (\<forall>name \<in> set names. name \<noteq> [] \<and> list_all is_digit name \<longrightarrow> other_users h (wp_worker_uid p) name))"

lemma read_ascii_eq_Inr:
  "read_ascii h p broken = Inr s \<longleftrightarrow> (\<exists>b t. hv_read h p = Found b \<and> ascii_decode b = Some t \<and> s = universal_newlines t)"
  by (auto simp: read_ascii_def split: os.splits option.splits)

lemma any_uid_none: "any_uid uid vs = Inr False \<Longrightarrow> v \<in> set vs \<Longrightarrow> int (digits_value 0 v) \<noteq> uid"
  by (induction vs) (auto simp: rbind_eq_Inr int_of_digits_def split: if_splits)

lemma uid_scan_none:
  "uid_scan h uid names = Inr [] \<Longrightarrow> name \<in> set names \<Longrightarrow> name \<noteq> [] \<Longrightarrow> list_all is_digit name \<Longrightarrow> other_users h uid name"
proof (induction names)
  case (Cons n names)
  let ?p = "[lit ''proc'', n, lit ''status'']"
  show ?case
  proof (cases "n = [] \<or> \<not> list_all is_digit n")
    case True
    with Cons show ?thesis by auto
  next
    case d: False
    show ?thesis
    proof (cases "hv_read h ?p = NotFound")
      case True
      with Cons.prems(1) d have "uid_scan h uid names = Inr []" by (simp add: Let_def)
      with Cons True show ?thesis by (auto simp: other_users_def)
    next
      case r: False
      obtain s where t: "read_ascii h ?p ''worker UID process state is unreadable'' = Inr s"
        using Cons.prems(1) d r by (auto simp: Let_def rbind_eq_Inr split: if_splits)
      obtain vs where v: "uid_fields s = [vs]"
        using Cons.prems(1) d r t by (auto simp: Let_def rbind_eq_Inr split: if_splits list.splits)
      have a: "any_uid uid vs = Inr False" and rest: "uid_scan h uid names = Inr []"
        using Cons.prems(1) d r t v by (auto simp: Let_def rbind_eq_Inr split: if_splits)
      have "other_users h uid n" using t v any_uid_none[OF a] by (auto simp: other_users_def read_ascii_eq_Inr)
      with Cons.IH[OF rest] Cons.prems(2-4) show ?thesis by auto
    qed
  qed
qed simp

lemma uid_processes_none: "uid_processes h p = Inr [] \<Longrightarrow> no_worker_process h p"
  unfolding no_worker_process_def uid_processes_def using uid_scan_none by (auto split: os.splits)

section \<open>Control groups\<close>

definition group_empty :: "host_view \<Rightarrow> path \<Rightarrow> bool" where
  "group_empty h path \<longleftrightarrow>
     (hv_lstat h path = NotFound \<and> (\<exists>names. hv_listdir h (butlast path) = Found names \<and> last path \<notin> set names))
     \<or> (\<exists>dirs. hv_walk h path = map Visit dirs \<and> dirs \<noteq> []
          \<and> (\<forall>d \<in> set dirs. \<exists>bytes text. hv_read h (d @ [lit ''cgroup.procs'']) = Found bytes \<and> ascii_decode bytes = Some text
                \<and> strip_text (universal_newlines text) = []))"

lemma walk_groups_empty:
  "walk_groups h visited steps = Inr () \<Longrightarrow>
     \<exists>dirs. steps = map Visit dirs \<and> (visited \<or> dirs \<noteq> [])
       \<and> (\<forall>d \<in> set dirs. \<exists>bytes text. hv_read h (d @ [lit ''cgroup.procs'']) = Found bytes \<and> ascii_decode bytes = Some text
             \<and> strip_text (universal_newlines text) = [])"
proof (induction h visited steps rule: walk_groups.induct)
  case (3 h visited dir steps)
  obtain s where t: "read_ascii h (dir @ [lit ''cgroup.procs'']) ''worker cgroup is unreadable'' = Inr s" "strip_text s = []"
    "walk_groups h True steps = Inr ()" using 3(2) by (auto simp: rbind_eq_Inr split: if_splits)
  from 3(1)[OF t(1) _ t(3)] t(2) obtain dirs where "steps = map Visit dirs"
    "\<forall>d \<in> set dirs. \<exists>bytes text. hv_read h (d @ [lit ''cgroup.procs'']) = Found bytes \<and> ascii_decode bytes = Some text
             \<and> strip_text (universal_newlines text) = []" by auto
  with t(1,2) show ?case by (intro exI[of _ "dir # dirs"]) (auto simp: read_ascii_eq_Inr)
qed (auto split: if_splits)

lemma require_empty_group: "require_empty_cgroup h path = Inr () \<Longrightarrow> group_empty h path"
  unfolding require_empty_cgroup_def group_empty_def using walk_groups_empty[of h False "hv_walk h path"]
  by (auto split: os.splits if_splits)

section \<open>The end\<close>

text \<open>At one look the unit is stopped, its group empty, its directory gone, the sender ended, and no process of
  the worker's user is left.\<close>

definition gone :: "host_view \<Rightarrow> kernel_view \<Rightarrow> worker_service_profile \<Rightarrow> invocation \<Rightarrow> int \<Rightarrow> bool" where
  "gone h view p ivc fd \<longleftrightarrow>
     (\<exists>properties. show_unit h (iv_unit ivc) [''ActiveState'', ''InvocationID'', ''ControlGroup'', ''MainPID''] = Inr properties \<and> stopped properties
        \<and> (property_is properties ''InvocationID'' (iv_invocation_id ivc) \<or> property_is properties ''InvocationID'' []))
     \<and> group_empty h (path_parts (iv_cgroup ivc)) \<and> hv_lstat h (path_parts (iv_runtime_dir ivc)) = NotFound
     \<and> pidfd_exited view fd = Inr True \<and> no_worker_process h p"

lemma property_of_eq_Inr: "property_of values name = Inr v \<longleftrightarrow> property_is values name v"
  by (auto simp: property_of_def property_is_def split: option.splits)

lemma runtime_absent_eq: "runtime_absent h path = Inr True \<longleftrightarrow> hv_lstat h path = NotFound"
  by (auto simp: runtime_absent_def split: os.splits)

lemma ended_gone: "ended h view p ivc fd = Inr True \<Longrightarrow> gone h view p ivc fd"
proof -
  assume e: "ended h view p ivc fd = Inr True"
  obtain properties where s: "show_unit h (iv_unit ivc) [''ActiveState'', ''InvocationID'', ''ControlGroup'', ''MainPID''] = Inr properties"
    using e by (auto simp: ended_def rbind_eq_Inr)
  obtain iid where iid: "property_of properties ''InvocationID'' = Inr iid" "iid = iv_invocation_id ivc \<or> iid = []" "stopped properties"
    using e s by (auto simp: ended_def rbind_eq_Inr split: if_splits)
  have cg: "require_empty_cgroup h (path_parts (iv_cgroup ivc)) = Inr ()"
    using e s iid by (auto simp: ended_def split: sum.splits if_splits)
  have "runtime_absent h (path_parts (iv_runtime_dir ivc)) = Inr True" "pidfd_exited view fd = Inr True" "uid_processes h p = Inr []"
    using e s iid cg by (auto simp: ended_def rbind_eq_Inr split: if_splits)
  then show ?thesis
    using s iid require_empty_group[OF cg] uid_processes_none by (auto simp: gone_def runtime_absent_eq property_of_eq_Inr)
qed

lemma await_end_gone: "await_end p ivc fd looks = Inr () \<Longrightarrow> \<exists>(h, view) \<in> set looks. gone h view p ivc fd"
proof (induction p ivc fd looks rule: await_end.induct)
  case (2 p ivc fd h view looks)
  obtain g where g: "ended h view p ivc fd = Inr g" using 2(2) by (auto simp: rbind_eq_Inr)
  show ?case
  proof (cases g)
    case True
    then show ?thesis using g ended_gone[of h view p ivc fd] by auto
  next
    case False
    then show ?thesis using 2 g by auto
  qed
qed simp

section \<open>The binding\<close>

lemma ends_with_append: "ends_with q (s @ q)"
  by (simp add: ends_with_def)

lemma ends_with_split: "ends_with q s \<Longrightarrow> s = take (length s - length q) s @ q"
  unfolding ends_with_def by (metis append_take_drop_id)

lemma starts_with_split: "starts_with q s \<Longrightarrow> s = q @ drop (length q) s"
  unfolding starts_with_def by (metis append_take_drop_id)

lemma match_unit_shape:
  assumes "match_unit p grp = Some unit"
  shows "grp = lit ''/system.slice/'' @ unit" "unit = wp_unit_prefix p @ instance_of p unit @ lit ''.service''"
    "instance_of p unit \<noteq> []" "list_all is_instance_char (instance_of p unit)"
proof -
  have m: "starts_with (lit ''/system.slice/'') grp" "unit = drop 14 grp" "starts_with (wp_unit_prefix p) unit" "ends_with (lit ''.service'') unit"
    "length (wp_unit_prefix p) + 8 < length unit" "list_all is_instance_char (instance_of p unit)"
    using assms by (auto simp: match_unit_def is_worker_unit_def Let_def split: if_splits)
  have l: "length (lit ''/system.slice/'') = 14" by (simp add: lit_def)
  show "grp = lit ''/system.slice/'' @ unit" using starts_with_split[OF m(1)] m(2) unfolding l by simp
  have k: "length (lit ''.service'') = 8" by (simp add: lit_def)
  have u: "unit = take (length unit - 8) unit @ lit ''.service''" using ends_with_split[OF m(4)] unfolding k .
  have "take (length unit - 8) unit = wp_unit_prefix p @ instance_of p unit"
    using m(3,5) starts_with_split[OF m(3)] unfolding instance_of_def starts_with_def
    by (metis append_take_drop_id diff_le_self le_diff_conv2 less_imp_le_nat min.absorb1 take_take add_leD2)
  with u show "unit = wp_unit_prefix p @ instance_of p unit @ lit ''.service''" by (metis append.assoc)
  show "instance_of p unit \<noteq> []" using m(5) by (simp add: instance_of_def)
  show "list_all is_instance_char (instance_of p unit)" by (rule m(6))
qed

text \<open>The command systemd started is the fixed interpreter with the fixed bootstrap and IDs.\<close>

definition fixed_command :: "host_view \<Rightarrow> worker_service_profile \<Rightarrow> pystr \<Rightarrow> bool" where
  "fixed_command h p value \<longleftrightarrow>
     (\<exists>fields arguments. parse_exec [] (split_on (lit '' ; '') [] (inner value)) = Inr fields
        \<and> property_is fields ''path'' (hv_executable h) \<and> property_is fields ''ignore_errors'' (lit ''no'')
        \<and> property_is fields ''argv[]'' arguments \<and> shlex_split arguments = Some (expected_command h p))
     \<and> root_controlled h True (hv_executable h) = Inr ()"

lemma check_exec_fixed: "check_exec h p value = Inr () \<Longrightarrow> fixed_command h p value"
proof -
  assume c: "check_exec h p value = Inr ()"
  obtain fields where f: "parse_exec [] (split_on (lit '' ; '') [] (inner value)) = Inr fields"
    using c by (auto simp: check_exec_def rbind_eq_Inr split: if_splits)
  obtain executable arguments where e: "map_of fields (lit ''path'') = Some executable" "map_of fields (lit ''argv[]'') = Some arguments"
    using c f by (auto simp: check_exec_def split: if_splits option.splits)
  have i: "property_is fields ''ignore_errors'' (lit ''no'')" using c f e by (auto simp: check_exec_def split: if_splits)
  obtain ws where w: "shlex_split arguments = Some ws" using c f e by (auto simp: check_exec_def split: if_splits option.splits)
  have "ws = expected_command h p" "executable = hv_executable h" "root_controlled h True executable = Inr ()"
    using c f e w by (auto simp: check_exec_def split: if_splits)
  then show ?thesis using f e i w by (auto simp: fixed_command_def property_is_def)
qed

text \<open>What systemd says of the unit of a bound process.\<close>

definition hardened_unit :: "host_view \<Rightarrow> worker_service_profile \<Rightarrow> invocation \<Rightarrow> fields \<Rightarrow> bool" where
  "hardened_unit h p ivc properties \<longleftrightarrow>
     show_unit h (iv_unit ivc) BIND_PROPERTIES = Inr properties
     \<and> property_is properties ''ActiveState'' (lit ''active'') \<and> property_is properties ''MainPID'' (id_text (iv_pid ivc))
     \<and> property_is properties ''ControlGroup'' (lit ''/system.slice/'' @ iv_unit ivc)
     \<and> property_is properties ''InvocationID'' (iv_invocation_id ivc) \<and> hex_string 32 (iv_invocation_id ivc)
     \<and> property_is properties ''LoadState'' (lit ''loaded'') \<and> property_is properties ''DropInPaths'' []
     \<and> property_is properties ''NeedDaemonReload'' (lit ''no'')
     \<and> (\<exists>file. property_is properties ''FragmentPath'' file \<and> root_controlled h True file = Inr ()
          \<and> check_unit_content h p (path_parts file) (wp_unit_prefix p @ lit ''.service'') = Inr ())
     \<and> (\<forall>(k, v) \<in> set (expected_settings p (instance_of p (iv_unit ivc))). map_of properties k = Some v)
     \<and> (\<exists>command. property_is properties ''ExecStart'' command \<and> fixed_command h p command)"

lemma check_unit_source_sound:
  "check_unit_source h p properties name = Inr () \<Longrightarrow>
     property_is properties ''LoadState'' (lit ''loaded'') \<and> property_is properties ''DropInPaths'' [] \<and> property_is properties ''NeedDaemonReload'' (lit ''no'')
     \<and> (\<exists>file. property_is properties ''FragmentPath'' file \<and> root_controlled h True file = Inr () \<and> check_unit_content h p (path_parts file) name = Inr ())"
  by (auto simp: check_unit_source_def rbind_eq_Inr property_of_eq_Inr split: if_splits)

lemma check_settings_sound:
  "check_instance_settings h p properties inst = Inr () \<Longrightarrow>
     (\<forall>(k, v) \<in> set (expected_settings p inst). map_of properties k = Some v)
     \<and> (\<exists>command. property_is properties ''ExecStart'' command \<and> fixed_command h p command)"
  by (auto simp: check_instance_settings_def rbind_eq_Inr property_of_eq_Inr list_ex_iff dest!: check_exec_fixed split: if_splits)

lemma good_path_parts: "good_parts (path_parts s)"
  unfolding good_parts_def path_parts_def using split_sep_clean by fastforce

lemma good_parts_append: "good_parts (xs @ ys) \<longleftrightarrow> good_parts xs \<and> good_parts ys"
  by (auto simp: good_parts_def)

lemma bind_worker_steps:
  assumes "bind_worker h view view' p pid fd = Inr ivc"
  shows "\<exists>s line unit properties. pidfd_exited view fd = Inr False
     \<and> read_ascii h [lit ''proc'', id_text pid, lit ''cgroup''] ''worker PID cgroup is unreadable'' = Inr s \<and> splitlines [] s = [line]
     \<and> starts_with (lit ''0::'') line \<and> match_unit p (drop 3 line) = Some unit \<and> show_unit h unit BIND_PROPERTIES = Inr properties
     \<and> bind_instance h view' p pid fd (drop 3 line) unit properties = Inr ivc"
proof -
  obtain s where s: "pidfd_exited view fd = Inr False" "read_ascii h [lit ''proc'', id_text pid, lit ''cgroup''] ''worker PID cgroup is unreadable'' = Inr s"
    using assms by (auto simp: bind_worker_def rbind_eq_Inr split: if_splits)
  note r = assms[unfolded bind_worker_def s rbind_Inr if_False]
  obtain line where l: "splitlines [] s = [line]" using r by (auto split: list.splits)
  have st: "starts_with (lit ''0::'') line" using r l by (auto split: if_splits)
  obtain unit where u: "match_unit p (drop 3 line) = Some unit" using r l st by (auto split: option.splits)
  show ?thesis using r s l st u by (auto simp: rbind_eq_Inr)
qed

lemma bind_instance_sound:
  assumes "bind_instance h view p pid fd grp unit properties = Inr ivc"
  shows "property_is properties ''InvocationID'' (iv_invocation_id ivc)" "property_is properties ''ActiveState'' (lit ''active'')"
    "property_is properties ''ControlGroup'' grp" "property_is properties ''MainPID'' (id_text pid)" "hex_string 32 (iv_invocation_id ivc)"
    "check_unit_source h p properties (wp_unit_prefix p @ lit ''.service'') = Inr ()"
    "check_instance_settings h p properties (instance_of p unit) = Inr ()" "root_controlled h False (wp_runtime_root p) = Inr ()"
    "\<exists>i. hv_lstat h (path_parts (iv_runtime_dir ivc)) = Found i \<and> S_ISDIR i \<and> si_uid i = wp_worker_uid p
       \<and> si_gid i = wp_worker_gid p \<and> S_IMODE i = 448"
    "pidfd_exited view fd = Inr False" "iv_pid ivc = pid" "iv_unit ivc = unit"
proof -
  obtain iid i cgroup where d: "property_is properties ''InvocationID'' iid" "property_is properties ''ActiveState'' (lit ''active'')"
    "property_is properties ''ControlGroup'' grp" "property_is properties ''MainPID'' (id_text pid)" "hex_string 32 iid"
    "check_unit_source h p properties (wp_unit_prefix p @ lit ''.service'') = Inr ()"
    "check_instance_settings h p properties (instance_of p unit) = Inr ()" "root_controlled h False (wp_runtime_root p) = Inr ()"
    "hv_lstat h (runtime_dir p (instance_of p unit)) = Found i" "S_ISDIR i" "si_uid i = wp_worker_uid p"
    "si_gid i = wp_worker_gid p" "S_IMODE i = 448" "pidfd_exited view fd = Inr False"
    "ivc = \<lparr>iv_unit = unit, iv_invocation_id = iid, iv_cgroup = 47 # join_sep 47 cgroup,
       iv_runtime_dir = 47 # join_sep 47 (runtime_dir p (instance_of p unit)), iv_pid = pid\<rparr>"
    using assms by (auto simp: bind_instance_def rbind_eq_Inr property_of_eq_Inr split: if_splits os.splits)
  have "path_parts (iv_runtime_dir ivc) = runtime_dir p (instance_of p unit)"
    using d(15) by (simp add: runtime_dir_def path_parts_join good_parts_append good_path_parts)
  with d show "\<exists>i. hv_lstat h (path_parts (iv_runtime_dir ivc)) = Found i \<and> S_ISDIR i \<and> si_uid i = wp_worker_uid p
       \<and> si_gid i = wp_worker_gid p \<and> S_IMODE i = 448" by auto
  show "property_is properties ''InvocationID'' (iv_invocation_id ivc)" "property_is properties ''ActiveState'' (lit ''active'')"
    "property_is properties ''ControlGroup'' grp" "property_is properties ''MainPID'' (id_text pid)" "hex_string 32 (iv_invocation_id ivc)"
    "check_unit_source h p properties (wp_unit_prefix p @ lit ''.service'') = Inr ()"
    "check_instance_settings h p properties (instance_of p unit) = Inr ()" "root_controlled h False (wp_runtime_root p) = Inr ()"
    "pidfd_exited view fd = Inr False" "iv_pid ivc = pid" "iv_unit ivc = unit" using d by simp_all
qed

lemma bind_evidence:
  assumes "bind_worker h view view' p pid fd = Inr ivc"
  shows "pidfd_exited view fd = Inr False \<and> pidfd_exited view' fd = Inr False \<and> iv_pid ivc = pid
     \<and> (\<exists>inst. inst \<noteq> [] \<and> list_all is_instance_char inst \<and> iv_unit ivc = wp_unit_prefix p @ inst @ lit ''.service'')
     \<and> (\<exists>s. read_ascii h [lit ''proc'', id_text pid, lit ''cgroup''] ''worker PID cgroup is unreadable'' = Inr s
          \<and> splitlines [] s = [lit ''0::/system.slice/'' @ iv_unit ivc])
     \<and> (\<exists>properties. hardened_unit h p ivc properties)
     \<and> root_controlled h False (wp_runtime_root p) = Inr ()
     \<and> (\<exists>i. hv_lstat h (path_parts (iv_runtime_dir ivc)) = Found i \<and> S_ISDIR i \<and> si_uid i = wp_worker_uid p
          \<and> si_gid i = wp_worker_gid p \<and> S_IMODE i = 448)"
proof -
  obtain s line unit properties where a: "pidfd_exited view fd = Inr False"
    "read_ascii h [lit ''proc'', id_text pid, lit ''cgroup''] ''worker PID cgroup is unreadable'' = Inr s" "splitlines [] s = [line]"
    "starts_with (lit ''0::'') line" "match_unit p (drop 3 line) = Some unit" "show_unit h unit BIND_PROPERTIES = Inr properties"
    "bind_instance h view' p pid fd (drop 3 line) unit properties = Inr ivc"
    using bind_worker_steps[OF assms] by blast
  note b = bind_instance_sound[OF a(7)] and m = match_unit_shape[OF a(5)]
  have l: "length (lit ''0::'') = 3" by (simp add: lit_def)
  have "line = lit ''0::'' @ drop 3 line" using starts_with_split[OF a(4)] unfolding l .
  with m(1) have line: "line = lit ''0::/system.slice/'' @ unit" by (simp add: lit_def)
  have "hardened_unit h p ivc properties"
    using a(6) b m(1) check_unit_source_sound[OF b(6)] check_settings_sound[OF b(7)] by (simp add: hardened_unit_def)
  then show ?thesis using a(1-3) b m(2-4) line by auto
qed

lemma bind_worker_hardened: "bind_worker h view view' p pid fd = Inr ivc \<Longrightarrow> \<exists>properties. hardened_unit h p ivc properties"
  using bind_evidence by blast

section \<open>The runner over the host\<close>

text \<open>The lifecycle of one run: the host at each of its calls, whether the connection is made, and the looks that fit
  before the deadline.\<close>

record host_run =
  hr_preflight :: host_view
  hr_acquire :: host_view
  hr_idle :: host_view
  hr_connect :: "unit result"
  hr_bind :: "host_view \<times> kernel_view \<times> kernel_view"
  hr_looks :: "(host_view \<times> kernel_view) list"

definition host_lifecycle :: "worker_service_profile \<Rightarrow> host_run \<Rightarrow> lifecycle" where
  "host_lifecycle p r =
     \<lparr>lf_preflight = preflight (hr_preflight r) p, lf_acquire = fst (acquire (hr_acquire r) p []),
      lf_idle = assert_idle (hr_idle r) p, lf_connect = hr_connect r,
      lf_bind = (case hr_bind r of (h, v, v') \<Rightarrow> bind_worker h v v' p),
      lf_await_end = (\<lambda>ivc fd. case fd of None \<Rightarrow> Inl (PyError ''TypeError'') | Some d \<Rightarrow> await_end p ivc d (hr_looks r))\<rparr>"

text \<open>A failed attempt leaves the descriptor table as it was; the outcome does not depend on the table.\<close>

lemma acquire_table:
  "acquire h p fds = (r, fds') \<Longrightarrow> fst (acquire h p []) = r \<and> fds' = (case r of Inl _ \<Rightarrow> fds | Inr fd \<Rightarrow> fd # fds)"
  by (auto simp: acquire_def split: sum.splits os.splits prod.splits)

lemma idle_groups_empty:
  "idle_groups h p names = Inr () \<Longrightarrow> name \<in> set names \<Longrightarrow> is_worker_unit p name \<Longrightarrow> group_empty h (CGROUP_ROOT @ [lit ''system.slice'', name])"
  by (induction names) (auto simp: rbind_eq_Inr dest: require_empty_group split: if_splits)

text \<open>Before a connection is made no process of the worker's user runs, no group of an instance holds one, and no
  directory of an instance is left.\<close>

definition idle_host :: "host_view \<Rightarrow> worker_service_profile \<Rightarrow> bool" where
  "idle_host h p \<longleftrightarrow>
     no_worker_process h p \<and> hv_listdir h (path_parts (wp_runtime_root p)) = Found []
     \<and> (\<exists>names. hv_listdir h (CGROUP_ROOT @ [lit ''system.slice'']) = Found names
          \<and> (\<forall>name \<in> set names. is_worker_unit p name \<longrightarrow> group_empty h (CGROUP_ROOT @ [lit ''system.slice'', name])))"

lemma assert_idle_sound:
  assumes "assert_idle h p = Inr ()"
  shows "idle_host h p"
proof -
  obtain listing where o: "systemctl h (map lit [''list-units'', ''--all'', ''--plain'', ''--no-legend''] @ [wp_unit_prefix p @ lit ''*.service'']) = Inr listing"
    using assms by (auto simp: assert_idle_def rbind_eq_Inr)
  obtain names where n: "hv_listdir h (CGROUP_ROOT @ [lit ''system.slice'']) = Found names" "idle_groups h p names = Inr ()"
    using assms by (auto simp: assert_idle_def rbind_eq_Inr split: os.splits)
  have u: "idle_units h p (splitlines [] listing) = Inr ()" using assms o by (auto simp: assert_idle_def rbind_eq_Inr)
  obtain i where i: "hv_lstat h (path_parts (wp_runtime_root p)) = Found i"
    using assms o u n by (auto simp: assert_idle_def split: os.splits)
  have d: "hv_listdir h (path_parts (wp_runtime_root p)) = Found []" "uid_processes h p = Inr []"
    using assms o u n i by (auto simp: assert_idle_def rbind_eq_Inr split: os.splits list.splits if_splits)
  show ?thesis unfolding idle_host_def
    using uid_processes_none[OF d(2)] d(1) n idle_groups_empty[OF n(2)] by blast
qed

end
