(* ===== verification/HostRun.thy ===== *)
theory HostRun
  imports HostEvidence
begin

text \<open>
  The runner of \<open>geniusnew/worker_service.py\<close> over the host checks of \<open>WorkerLifecycle\<close>: what a binding and an outcome
  prove, and an installed host on which a job runs through every check and comes back.
\<close>

section \<open>What a binding and an outcome prove\<close>

text \<open>A process the lifecycle binds is alive at both looks and the main process of the active, hardened instance
  in whose control group it is, and the instance's private directory belongs to the worker alone.\<close>

theorem bind_sound:
  assumes "bind_worker h view view' p pid fd = Inr ivc"
  shows "pidfd_exited view fd = Inr False \<and> pidfd_exited view' fd = Inr False \<and> iv_pid ivc = pid
     \<and> (\<exists>inst. inst \<noteq> [] \<and> list_all is_instance_char inst \<and> iv_unit ivc = wp_unit_prefix p @ inst @ lit ''.service'')
     \<and> (\<exists>s. read_ascii h [lit ''proc'', id_text pid, lit ''cgroup''] ''worker PID cgroup is unreadable'' = Inr s
          \<and> splitlines [] s = [lit ''0::/system.slice/'' @ iv_unit ivc])
     \<and> (\<exists>properties. hardened_unit h p ivc properties)
     \<and> root_controlled h False (wp_runtime_root p) = Inr ()
     \<and> (\<exists>i. hv_lstat h (path_parts (iv_runtime_dir ivc)) = Found i \<and> S_ISDIR i \<and> si_uid i = wp_worker_uid p
          \<and> si_gid i = wp_worker_gid p \<and> S_IMODE i = 448)"
  by (rule bind_evidence[OF assms])

text \<open>C16. Whatever the service and its peer do, a run that is ready and has its lease ends in an outcome other than a
  boundary failure only when the host was idle before the connection, the sender was bound to the hardened
  instance, and a look before the deadline saw it gone with every process of the worker's user.\<close>

theorem outcome_needs_evidence:
  assumes "run_service_worker P deep value (host_lifecycle p hr) view shutdown nonce pl connection s = (out, s')"
    "\<And>r. io_receiver (connection r) = r" "sr_pending s = []"
    "preflight (hr_preflight hr) p = Inr ()" "acquire (hr_acquire hr) p fds = (Inr lease, lease # fds)"
    "\<And>why. out \<noteq> BoundaryFailed why"
  shows "idle_host (hr_idle hr) p
     \<and> (\<exists>pid fd ivc h v v' properties. hr_bind hr = (h, v, v') \<and> bind_worker h v v' p pid fd = Inr ivc \<and> hardened_unit h p ivc properties
          \<and> (\<exists>(h', v'') \<in> set (hr_looks hr). gone h' v'' p ivc fd))
     \<and> sr_pending s' = [] \<and> mset (sr_fds s') = mset (sr_fds s)"
proof -
  let ?lf = "host_lifecycle p hr"
  have l: "rbind (lf_preflight ?lf) (\<lambda>_. lf_acquire ?lf) = Inr lease"
    using assms(4) acquire_table[OF assms(5)] by (simp add: host_lifecycle_def)
  obtain io tx where tx: "transact P deep value ?lf view shutdown nonce pl io = tx" "balanced (add_mset lease (mset (sr_fds s))) (io_receiver io)"
    and out: "out = service_outcome (tx_outcome tx)"
    and s': "if tx_confirmed tx then sr_pending s' = [] \<and> mset (sr_fds s') = mset (sr_fds s)
        else \<exists>i. sr_pending s' = [(lease, i)] \<and> lease \<in> set (sr_fds s')"
    using run_cases[OF assms(1-3) l] by blast
  obtain v where v: "tx_outcome tx = Inr v" using out assms(6) by (cases "tx_outcome tx") (auto simp: service_outcome_def)
  note c = transact_cases(3)[OF tx v]
  have "lf_idle ?lf = Inr ()" using tx(1) v by (cases "lf_idle ?lf") (auto simp: transact_def)
  then have "assert_idle (hr_idle hr) p = Inr ()" by (simp add: host_lifecycle_def)
  moreover obtain pid fd ivc where b: "lf_bind ?lf pid fd = Inr ivc" "lf_await_end ?lf ivc (Some fd) = Inr ()"
    using c by (auto simp: end_confirmed_def)
  obtain h w w' where hb: "hr_bind hr = (h, w, w')" by (metis prod_cases3)
  have bw: "bind_worker h w w' p pid fd = Inr ivc" "await_end p ivc fd (hr_looks hr) = Inr ()" using b hb by (simp_all add: host_lifecycle_def)
  obtain properties where "hardened_unit h p ivc properties" using bind_worker_hardened[OF bw(1)] by blast
  ultimately show ?thesis using assert_idle_sound await_end_gone[OF bw(2)] bw(1) hb c s' by fastforce
qed

section \<open>An installed host\<close>

text \<open>The files the installer made for the sample profile, root's but for the directory of a running instance.\<close>

definition node :: "nat \<Rightarrow> int \<Rightarrow> int \<Rightarrow> int \<Rightarrow> stat_info" where
  "node mode uid gid ino = \<lparr>si_mode = mode, si_uid = uid, si_gid = gid, si_nlink = 1, si_dev = 1, si_ino = ino\<rparr>"

definition sample_files :: "bool \<Rightarrow> (path \<times> stat_info) list" where
  "sample_files running =
     [([], node 16877 0 0 2), (map lit [''run''], node 16877 0 0 3), (map lit [''run'', ''geniusnew''], node 16840 0 1003 4),
      (map lit [''run'', ''geniusnew'', ''worker.sock''], node 49584 0 1003 5), (map lit [''run'', ''geniusnew'', ''worker.lease''], node 33200 0 1003 6),
      (map lit [''run'', ''geniusnew-worker''], node 16877 0 0 7), (map lit [''run'', ''geniusnew-worker'', ''jobs''], node 16877 0 0 8),
      (map lit [''run'', ''geniusnew-worker'', ''ipc''], node 16840 0 1003 9),
      (map lit [''run'', ''geniusnew-worker'', ''ipc'', ''host-state.json''], node 33056 0 1003 10),
      (map lit [''usr''], node 16877 0 0 11), (map lit [''usr'', ''bin''], node 16877 0 0 12), (map lit [''usr'', ''bin'', ''python3''], node 33261 0 0 13),
      (map lit [''etc''], node 16877 0 0 14), (map lit [''etc'', ''systemd''], node 16877 0 0 15), (map lit [''etc'', ''systemd'', ''system''], node 16877 0 0 16),
      (map lit [''etc'', ''systemd'', ''system'', ''geniusnew-worker.socket''], node 33188 0 0 17),
      (map lit [''etc'', ''systemd'', ''system'', ''geniusnew-worker@.service''], node 33188 0 0 18),
      (map lit [''proc''], node 16749 0 0 19), (map lit [''sys'', ''fs'', ''cgroup''], node 16877 0 0 20)]
     @ (if running then [(map lit [''run'', ''geniusnew-worker'', ''jobs'', ''0''], node 16832 1001 1002 21)] else [])"

definition sample_lstat :: "bool \<Rightarrow> path \<Rightarrow> stat_info os" where
  "sample_lstat running p = (case map_of (sample_files running) p of None \<Rightarrow> NotFound | Some i \<Rightarrow> Found i)"

text \<open>What systemd knows of the socket, the template and the instance.\<close>

definition sample_command :: "pystr list" where
  "sample_command = [lit ''/usr/bin/python3'', lit ''-I'', lit ''-S'', lit ''/opt/worker_bootstrap.py'', lit ''--core-uid'', lit ''1000'',
     lit ''--worker-uid'', lit ''1001'', lit ''--worker-gid'', lit ''1002'']"

definition sample_unit_file :: "string \<Rightarrow> fields" where
  "sample_unit_file file = lits [(''LoadState'', ''loaded''), (''FragmentPath'', ''/etc/systemd/system/'' @ file), (''DropInPaths'', ''''), (''NeedDaemonReload'', ''no'')]"

definition sample_socket :: fields where
  "sample_socket = sample_unit_file ''geniusnew-worker.socket'' @
     lits [(''ActiveState'', ''active''), (''Accept'', ''yes''), (''MaxConnections'', ''1''), (''SocketUser'', ''root''), (''SocketGroup'', ''1003''),
       (''SocketMode'', ''0660''), (''Listen'', ''/run/geniusnew/worker.sock (Stream)''), (''RemoveOnStop'', ''yes'')]"

definition sample_service :: "bool \<Rightarrow> fields" where
  "sample_service running = sample_unit_file ''geniusnew-worker@.service'' @
     lits [(''ActiveState'', if running then ''active'' else ''inactive''), (''InvocationID'', if running then ''aaaaaaaaaaaaaaaaaaaaaaaaaaaaaaaa'' else ''''),
       (''ControlGroup'', if running then ''/system.slice/geniusnew-worker@0.service'' else ''''), (''MainPID'', if running then ''7'' else ''0'')]
     @ expected_settings sample_profile (lit ''0'')
     @ [(lit ''ExecStart'', lit ''{ path=/usr/bin/python3 ; argv[]='' @ join_sep 32 sample_command @ lit '' ; ignore_errors=no }'')]"

definition sample_properties :: "bool \<Rightarrow> pystr \<Rightarrow> fields" where
  "sample_properties running unit = (if ends_with (lit ''.socket'') unit then sample_socket else sample_service running)"

definition sample_systemctl :: "bool \<Rightarrow> pystr list \<Rightarrow> (int \<times> bytes \<times> bytes) option" where
  "sample_systemctl running args =
     Some (0, if hd args = lit ''show''
              then ascii_bytes (render (map (\<lambda>a. (drop 2 a, the (map_of (sample_properties running (args ! 1)) (drop 2 a)))) (drop 3 args)))
              else [], [])"

definition sample_status :: pystr where
  "sample_status = lit ''Uid: 1000 1000 1000 1000'' @ 10 # lit ''CapInh: 0000000000000000'' @ 10 # lit ''CapPrm: 0000000000000000'' @ 10 #
     lit ''CapEff: 0000000000000000'' @ 10 # lit ''CapBnd: 0000000000000000'' @ 10 # lit ''CapAmb: 0000000000000000'' @ 10 # lit ''NoNewPrivs: 1'' @ [10]"

definition sample_contents :: "(path \<times> pystr) list" where
  "sample_contents =
     [(map lit [''proc'', ''self'', ''status''], sample_status),
      (map lit [''proc'', ''self'', ''uid_map''], lit ''0 0 4294967295'' @ [10]), (map lit [''proc'', ''self'', ''gid_map''], lit ''0 0 4294967295'' @ [10]),
      (map lit [''proc'', ''sys'', ''kernel'', ''random'', ''boot_id''], lit ''00000000-1111-2222-3333-444444444444'' @ [10]),
      (map lit [''proc'', ''self'', ''mountinfo''], lit ''22 28 0:20 / /proc rw,nosuid - proc proc rw'' @ [10]),
      (map lit [''proc'', ''1'', ''status''], lit ''Uid: 0 0 0 0'' @ [10]),
      (map lit [''proc'', ''7'', ''cgroup''], lit ''0::/system.slice/geniusnew-worker@0.service'' @ [10])]"

definition sample_ground :: "bool \<Rightarrow> host_view" where
  "sample_ground running =
     \<lparr>hv_systemctl = sample_systemctl running, hv_lstat = sample_lstat running, hv_fstat = (\<lambda>_. Found (node 33200 0 1003 6)),
      hv_readlink = (\<lambda>_. Broken), hv_read = (\<lambda>p. case map_of sample_contents p of None \<Rightarrow> NotFound | Some s \<Rightarrow> Found (ascii_bytes s)),
      hv_listdir = (\<lambda>p. Found (if p = [lit ''proc''] then map lit [''1'', ''self''] else [])), hv_walk = (\<lambda>_. []), hv_resolve = Found,
      hv_stat = sample_lstat running, hv_namespace = (\<lambda>pid name. Some (4, int (length name))), hv_reference = Broken, hv_open_lease = Found 5,
      hv_flock = (\<lambda>_. True), hv_uids = (1000, 1000), hv_gids = [1000, 1003], hv_executable = lit ''/usr/bin/python3'',
      hv_bootstrap = lit ''/opt/worker_bootstrap.py'', hv_installation = Inr ()\<rparr>"

text \<open>With the unit files and the reference the installer wrote from the host itself.\<close>

definition sample_unit_text :: "bool \<Rightarrow> path \<Rightarrow> bytes os" where
  "sample_unit_text running p =
     (if p = map lit [''etc'', ''systemd'', ''system'', ''geniusnew-worker@.service''] then Found (ascii_bytes (render_unit (service_sections (sample_ground running) sample_profile)))
      else if p = map lit [''etc'', ''systemd'', ''system'', ''geniusnew-worker.socket''] then Found (ascii_bytes (render_unit (socket_sections sample_profile)))
      else hv_read (sample_ground running) p)"

definition sample_host_view :: "bool \<Rightarrow> host_view" where
  "sample_host_view running =
     (sample_ground running)\<lparr>hv_read := sample_unit_text running,
        hv_reference := Found (node 33056 0 1003 10, case host_snapshot (sample_ground running) sample_profile (lit ''self'') None of Inr b \<Rightarrow> b | _ \<Rightarrow> [])\<rparr>"

lemma sample_paths:
  "path_parts (wp_socket_path sample_profile) = map lit [''run'', ''geniusnew'', ''worker.sock'']"
  "path_parts (wp_lease_path sample_profile) = map lit [''run'', ''geniusnew'', ''worker.lease'']"
  "path_parts (wp_runtime_root sample_profile) = map lit [''run'', ''geniusnew-worker'', ''jobs'']"
  "path_parts HOST_REFERENCE = map lit [''run'', ''geniusnew-worker'', ''ipc'', ''host-state.json'']"
  "path_parts (lit ''/usr/bin/python3'') = map lit [''usr'', ''bin'', ''python3'']"
  "path_parts (lit ''/etc/systemd/system/geniusnew-worker.socket'') = map lit [''etc'', ''systemd'', ''system'', ''geniusnew-worker.socket'']"
  "path_parts (lit ''/etc/systemd/system/geniusnew-worker@.service'') = map lit [''etc'', ''systemd'', ''system'', ''geniusnew-worker@.service'']"
  by (simp_all add: sample_profile_def HOST_REFERENCE_def path_parts_def lit_def)

lemma sample_nodes:
  "check_node (sample_host_view r) (wp_socket_path sample_profile) S_ISSOCK 1003 432 = Inr (node 49584 0 1003 5)"
  "check_node (sample_host_view r) (wp_lease_path sample_profile) S_ISREG 1003 432 = Inr (node 33200 0 1003 6)"
  "check_node (sample_host_view r) HOST_REFERENCE S_ISREG 1003 288 = Inr (node 33056 0 1003 10)"
  by (simp_all add: check_node_def sample_paths sample_host_view_def sample_ground_def sample_lstat_def sample_files_def node_def
      S_ISSOCK_def S_ISREG_def S_ISDIR_def S_IFMT_def S_IMODE_def others_write_def)


lemma sample_roots:
  "root_controlled (sample_host_view r) False (wp_runtime_root sample_profile) = Inr ()"
  "root_controlled (sample_host_view r) True (lit ''/usr/bin/python3'') = Inr ()"
  "root_controlled (sample_host_view r) True (lit ''/etc/systemd/system/geniusnew-worker.socket'') = Inr ()"
  "root_controlled (sample_host_view r) True (lit ''/etc/systemd/system/geniusnew-worker@.service'') = Inr ()"
proof -
  have a: "is_absolute (wp_runtime_root sample_profile)" "is_absolute (lit ''/usr/bin/python3'')"
    "is_absolute (lit ''/etc/systemd/system/geniusnew-worker.socket'')" "is_absolute (lit ''/etc/systemd/system/geniusnew-worker@.service'')"
    by (simp_all add: is_absolute_def sample_profile_def lit_def)
  have dots: "lit s \<noteq> [46]" "lit s \<noteq> [46, 46]" if "s \<noteq> ''.''" "s \<noteq> ''..''" for s
    using that lit_eq_iff[of s "''.''"] lit_eq_iff[of s "''..''"] by (auto simp: lit_def simp del: lit_eq_iff)
  show "root_controlled (sample_host_view r) False (wp_runtime_root sample_profile) = Inr ()"
    "root_controlled (sample_host_view r) True (lit ''/usr/bin/python3'') = Inr ()"
    "root_controlled (sample_host_view r) True (lit ''/etc/systemd/system/geniusnew-worker.socket'') = Inr ()"
    "root_controlled (sample_host_view r) True (lit ''/etc/systemd/system/geniusnew-worker@.service'') = Inr ()"
    using a unfolding root_controlled_def sample_paths
    by (simp_all add: child_def dots sample_host_view_def sample_ground_def sample_lstat_def sample_files_def node_def
        S_ISREG_def S_ISDIR_def S_ISLNK_def S_IFMT_def others_write_def)
qed

text \<open>What systemd prints of a unit of the sample.\<close>

definition sample_fields :: "bool \<Rightarrow> pystr \<Rightarrow> string list \<Rightarrow> fields" where
  "sample_fields running unit props = map (\<lambda>q. (lit q, the (map_of (sample_properties running unit) (lit q)))) props"

lemma sample_property: "q \<in> set props \<Longrightarrow> property_is (sample_fields running unit props) q v \<longleftrightarrow> the (map_of (sample_properties running unit) (lit q)) = v"
proof -
  assume "q \<in> set props"
  then have "map_of (sample_fields running unit props) (lit q) = Some (the (map_of (sample_properties running unit) (lit q)))"
    unfolding sample_fields_def by (induction props) auto
  then show ?thesis by (simp add: property_is_def)
qed

lemma sample_property_of: "q \<in> set props \<Longrightarrow> property_of (sample_fields running unit props) q = Inr (the (map_of (sample_properties running unit) (lit q)))"
  by (simp add: property_of_eq_Inr sample_property)

lemma sample_show:
  assumes "list_all name_chars props" "distinct props" "list_all (\<lambda>(k, v). plain_text v) (sample_fields r unit props)"
    "length (render (sample_fields r unit props)) \<le> 8192"
  shows "show_unit (sample_host_view r) unit props = Inr (sample_fields r unit props)"
proof (rule show_rendered)
  show "hv_systemctl (sample_host_view r) ([lit ''show'', unit, lit ''--no-pager''] @ map (\<lambda>p. lit (''-p'' @ p)) props) = Some (0, ascii_bytes (render (sample_fields r unit props)), [])"
    by (simp add: sample_host_view_def sample_ground_def sample_systemctl_def sample_fields_def comp_def lit_def)
  have "plain_text (lit q) \<and> 61 \<notin> set (lit q)" if "q \<in> set props" for q
    using name_plain[OF name_lit[of q]] assms(1) that by (auto simp: list_all_iff)
  then show "plain_fields (sample_fields r unit props)" using assms(3) by (auto simp: plain_fields_def sample_fields_def list_all_iff)
  have "map fst (sample_fields r unit props) = map lit props" by (simp add: sample_fields_def comp_def)
  moreover have "distinct (map lit props)" using assms(2) by (simp add: distinct_map inj_on_def)
  ultimately show "distinct (map fst (sample_fields r unit props))" "set (map fst (sample_fields r unit props)) = set (map lit props)" by simp_all
  show "length (render (sample_fields r unit props)) \<le> 8192" by (rule assms(4))
qed


lemma expected_settings_tidy: "tidy (expected_settings sample_profile (lit ''0''))"
  unfolding expected_settings_def tidy_append
proof (intro conjI tidy_lits)
  have "id_text 1001 = lit ''1001''" "id_text 1002 = lit ''1002''" by (simp_all add: id_text_def nat_digits.simps lit_def)
  moreover have "(if starts_with (lit ''/run/'') (wp_runtime_root sample_profile) then drop 5 (wp_runtime_root sample_profile) else wp_runtime_root sample_profile) @ [47] @ lit ''0''
      = lit ''geniusnew-worker/jobs/0''" by (simp add: sample_profile_def starts_with_def lit_def)
  ultimately show "tidy [(lit ''User'', id_text (wp_worker_uid sample_profile)), (lit ''Group'', id_text (wp_worker_gid sample_profile)),
      (lit ''RuntimeDirectory'', (if starts_with (lit ''/run/'') (wp_runtime_root sample_profile) then drop 5 (wp_runtime_root sample_profile) else wp_runtime_root sample_profile) @ [47] @ lit ''0'')]"
    by (simp add: tidy_def name_lit name_chars_def tight_lit tight_chars_def sample_profile_def)
qed (simp_all add: name_chars_def tight_chars_def[of "[]"] tight_chars_def[of "_ # _"] LOADER_chars lits_def)

lemma sample_exec_tight: "tight_text (lit ''{ path=/usr/bin/python3 ; argv[]='' @ join_sep 32 sample_command @ lit '' ; ignore_errors=no }'')"
proof -
  have "lit ''{ path=/usr/bin/python3 ; argv[]='' @ join_sep 32 sample_command @ lit '' ; ignore_errors=no }''
    = lit ''{ path=/usr/bin/python3 ; argv[]=/usr/bin/python3 -I -S /opt/worker_bootstrap.py --core-uid 1000 --worker-uid 1001 --worker-gid 1002 ; ignore_errors=no }''"
    by (simp add: sample_command_def lit_def)
  then show ?thesis by (simp add: tight_lit tight_chars_def)
qed

lemma sample_service_tidy: "tidy (sample_service r)"
proof -
  have "tidy (sample_unit_file ''geniusnew-worker@.service'' @
     lits [(''ActiveState'', if r then ''active'' else ''inactive''), (''InvocationID'', if r then ''aaaaaaaaaaaaaaaaaaaaaaaaaaaaaaaa'' else ''''),
       (''ControlGroup'', if r then ''/system.slice/geniusnew-worker@0.service'' else ''''), (''MainPID'', if r then ''7'' else ''0'')])"
    unfolding sample_unit_file_def lits_def map_append[symmetric]
    by (rule tidy_lits[unfolded lits_def]) (simp_all add: name_chars_def tight_chars_def)
  moreover have "tidy [(lit ''ExecStart'', lit ''{ path=/usr/bin/python3 ; argv[]='' @ join_sep 32 sample_command @ lit '' ; ignore_errors=no }'')]"
    using sample_exec_tight by (simp add: tidy_def name_lit name_chars_def)
  ultimately show ?thesis using expected_settings_tidy
    unfolding sample_service_def tidy_append by (simp add: sample_unit_file_def lits_def expected_settings_def)
qed

lemma sample_socket_tidy: "tidy sample_socket"
  unfolding sample_socket_def sample_unit_file_def lits_def map_append[symmetric]
  by (rule tidy_lits[unfolded lits_def]) (simp_all add: name_chars_def tight_chars_def)

lemma sample_values_plain:
  assumes "list_all (\<lambda>q. lit q \<in> fst ` set (sample_properties r unit)) props"
  shows "list_all (\<lambda>(k, v). plain_text v) (sample_fields r unit props)"
proof -
  have t: "tidy (sample_properties r unit)" by (simp add: sample_properties_def sample_socket_tidy sample_service_tidy)
  have "plain_text (the (map_of (sample_properties r unit) (lit q)))" if z: "q \<in> set props" for q
  proof -
    obtain v where "map_of (sample_properties r unit) (lit q) = Some v"
      using assms z by (metis list_all_iff map_of_eq_None_iff option.exhaust set_map)
    with t map_of_SomeD[OF this] show ?thesis by (auto simp: tidy_def list_all_iff tight_text_def)
  qed
  then show ?thesis by (simp add: sample_fields_def list_all_iff)
qed


lemma length_render: "length (render fs) = sum_list (map (\<lambda>kv. length (fst kv) + length (snd kv) + 2) fs)"
  by (induction fs) (auto simp: render_def line_of_def)

lemma sample_shows:
  assumes "list_all name_chars props" "distinct props" "list_all (\<lambda>q. lit q \<in> fst ` set (sample_properties r unit)) props"
    "sum_list (map (\<lambda>q. length q + length (the (map_of (sample_properties r unit) (lit q))) + 2) props) \<le> 8192"
  shows "show_unit (sample_host_view r) unit props = Inr (sample_fields r unit props)"
  by (rule sample_show[OF assms(1,2) sample_values_plain[OF assms(3)]])
    (use assms(4) in \<open>simp add: length_render sample_fields_def comp_def\<close>)

lemma sample_unit_kind:
  "sample_properties r (lit ''geniusnew-worker.socket'') = sample_socket"
  "sample_properties r (lit ''geniusnew-worker@internal.service'') = sample_service r"
  "sample_properties r (lit ''geniusnew-worker@0.service'') = sample_service r"
  by (simp_all add: sample_properties_def ends_with_def lit_def)

lemma sample_socket_props:
  "show_unit (sample_host_view r) (lit ''geniusnew-worker.socket'') [''LoadState'', ''FragmentPath'', ''DropInPaths'', ''NeedDaemonReload'']
     = Inr (sample_fields r (lit ''geniusnew-worker.socket'') [''LoadState'', ''FragmentPath'', ''DropInPaths'', ''NeedDaemonReload''])"
  "show_unit (sample_host_view r) (lit ''geniusnew-worker.socket'') [''ActiveState'', ''Accept'', ''MaxConnections'', ''SocketUser'', ''SocketGroup'',
         ''SocketMode'', ''Listen'', ''RemoveOnStop'']
     = Inr (sample_fields r (lit ''geniusnew-worker.socket'') [''ActiveState'', ''Accept'', ''MaxConnections'', ''SocketUser'', ''SocketGroup'',
         ''SocketMode'', ''Listen'', ''RemoveOnStop''])"
  by (intro sample_shows; simp add: name_chars_def sample_unit_kind sample_socket_def sample_unit_file_def lits_def)+

lemma sample_service_props:
  "show_unit (sample_host_view r) (lit ''geniusnew-worker@internal.service'') [''LoadState'', ''FragmentPath'', ''DropInPaths'', ''NeedDaemonReload'']
     = Inr (sample_fields r (lit ''geniusnew-worker@internal.service'') [''LoadState'', ''FragmentPath'', ''DropInPaths'', ''NeedDaemonReload''])"
  "show_unit (sample_host_view r) (lit ''geniusnew-worker@0.service'') [''ActiveState'', ''InvocationID'', ''ControlGroup'', ''MainPID'']
     = Inr (sample_fields r (lit ''geniusnew-worker@0.service'') [''ActiveState'', ''InvocationID'', ''ControlGroup'', ''MainPID''])"
  by (intro sample_shows; simp add: name_chars_def sample_unit_kind sample_service_def sample_unit_file_def lits_def)+

lemma sample_bind_props:
  "show_unit (sample_host_view r) (lit ''geniusnew-worker@0.service'') BIND_PROPERTIES = Inr (sample_fields r (lit ''geniusnew-worker@0.service'') BIND_PROPERTIES)"
proof (rule sample_shows)
  have e: "length (id_text (wp_worker_uid sample_profile)) = 4" "length (id_text (wp_worker_gid sample_profile)) = 4"
    by (simp_all add: id_text_def nat_digits.simps sample_profile_def)
  have d: "length (wp_runtime_root sample_profile) = 26" by (simp add: sample_profile_def)
  have c: "length (join_sep 32 sample_command) < 200" by (simp add: sample_command_def)
  have l: "length LOADER_ENVIRONMENT < 600" by (simp add: LOADER_ENVIRONMENT_def)
  show "sum_list (map (\<lambda>q. length q + length (the (map_of (sample_properties r (lit ''geniusnew-worker@0.service'')) (lit q))) + 2) BIND_PROPERTIES) \<le> 8192"
    using c l by (simp add: BIND_PROPERTIES_def BIND_SETTINGS_def sample_unit_kind sample_service_def sample_unit_file_def lits_def expected_settings_def e d)
  show "list_all (\<lambda>q. lit q \<in> fst ` set (sample_properties r (lit ''geniusnew-worker@0.service''))) BIND_PROPERTIES"
    by (simp add: BIND_PROPERTIES_def BIND_SETTINGS_def sample_unit_kind sample_service_def sample_unit_file_def lits_def expected_settings_def)
  show "list_all name_chars BIND_PROPERTIES" "distinct BIND_PROPERTIES" by (simp_all add: BIND_PROPERTIES_def BIND_SETTINGS_def name_chars_def)
qed


lemma sample_ids: "wp_core_uid sample_profile = 1000" "wp_worker_uid sample_profile = 1001" "wp_worker_gid sample_profile = 1002" "wp_socket_gid sample_profile = 1003"
  by (simp_all add: sample_profile_def)

lemma sample_reads:
  "hv_read (sample_host_view r) (map lit [''etc'', ''systemd'', ''system'', ''geniusnew-worker@.service''])
     = Found (ascii_bytes (render_unit (service_sections (sample_host_view r) sample_profile)))"
  "hv_read (sample_host_view r) (map lit [''etc'', ''systemd'', ''system'', ''geniusnew-worker.socket''])
     = Found (ascii_bytes (render_unit (socket_sections sample_profile)))"
  by (simp_all add: sample_host_view_def sample_unit_text_def service_sections_def expected_command_def)

lemma sample_programs: "hv_executable (sample_host_view r) = lit ''/usr/bin/python3''" "hv_bootstrap (sample_host_view r) = lit ''/opt/worker_bootstrap.py''"
  by (simp_all add: sample_host_view_def sample_ground_def)

lemma sample_expected_command: "expected_command (sample_host_view r) sample_profile = sample_command"
proof -
  have "id_text 1000 = lit ''1000''" "id_text 1001 = lit ''1001''" "id_text 1002 = lit ''1002''" by (simp_all add: id_text_def nat_digits.simps lit_def)
  then show ?thesis by (simp add: expected_command_def sample_command_def sample_programs sample_profile_def)
qed

lemma sample_service_content:
  "check_unit_content (sample_host_view r) sample_profile (map lit [''etc'', ''systemd'', ''system'', ''geniusnew-worker@.service'']) (lit ''geniusnew-worker@.service'') = Inr ()"
proof -
  let ?h = "sample_host_view r"
  have pos: "list_all (\<lambda>i. 0 < i) [wp_core_uid sample_profile, wp_worker_uid sample_profile, wp_worker_gid sample_profile]" by (simp add: sample_profile_def)
  have args: "plain_arg (hv_executable ?h)" "plain_arg (hv_bootstrap ?h)" "is_absolute (hv_executable ?h)" "ends_with (lit ''@.service'') (lit ''geniusnew-worker@.service'')"
    by (simp_all add: sample_programs plain_arg_def is_absolute_def ends_with_def lit_def)
  have "length (id_text 1001) = 4" "length (id_text 1002) = 4" by (simp_all add: id_text_def nat_digits.simps)
  moreover have "length (join_sep 32 sample_command) < 200" by (simp add: sample_command_def)
  moreover have "length LOADER_ENVIRONMENT < 600" by (simp add: LOADER_ENVIRONMENT_def)
  ultimately have "length (render_unit (service_sections ?h sample_profile)) \<le> 8192"
    by (simp add: render_unit_def length_render service_sections_def sample_expected_command expected_service_def lits_def sample_ids)
  from fixed_service_accepted[OF pos args this sample_reads(1)] show ?thesis by (simp add: sample_programs sample_roots)
qed

lemma sample_socket_content:
  "check_unit_content (sample_host_view r) sample_profile (map lit [''etc'', ''systemd'', ''system'', ''geniusnew-worker.socket'']) (lit ''geniusnew-worker.socket'') = Inr ()"
proof (rule fixed_socket_accepted)
  show "tight_text (wp_socket_path sample_profile)" by (simp add: sample_profile_def tight_lit tight_chars_def)
  have "length (id_text 1003) = 4" by (simp add: id_text_def nat_digits.simps)
  then show "length (render_unit (socket_sections sample_profile)) \<le> 8192"
    by (simp add: render_unit_def length_render socket_sections_def expected_socket_def lits_def sample_profile_def)
  show "\<not> ends_with (lit ''@.service'') (lit ''geniusnew-worker.socket'')" by (simp add: ends_with_def lit_def)
  show "0 < wp_socket_gid sample_profile" by (simp add: sample_ids)
qed (rule sample_reads(2))

lemma sample_names: "socket_unit sample_profile = lit ''geniusnew-worker.socket''" "wp_unit_prefix sample_profile @ lit ''.service'' = lit ''geniusnew-worker@.service''"
  "instance_name (lit ''geniusnew-worker.socket'') = lit ''geniusnew-worker.socket''" "instance_name (lit ''geniusnew-worker@.service'') = lit ''geniusnew-worker@internal.service''"
  by (simp_all add: socket_unit_def sample_profile_def instance_name_def ends_with_def lit_def)

lemma sample_file_of:
  "map_of (sample_service r) (lit ''LoadState'') = Some (lit ''loaded'')" "map_of (sample_service r) (lit ''DropInPaths'') = Some []"
  "map_of (sample_service r) (lit ''NeedDaemonReload'') = Some (lit ''no'')"
  "map_of (sample_service r) (lit ''FragmentPath'') = Some (lit ''/etc/systemd/system/geniusnew-worker@.service'')"
  "map_of sample_socket (lit ''LoadState'') = Some (lit ''loaded'')" "map_of sample_socket (lit ''DropInPaths'') = Some []"
  "map_of sample_socket (lit ''NeedDaemonReload'') = Some (lit ''no'')"
  "map_of sample_socket (lit ''FragmentPath'') = Some (lit ''/etc/systemd/system/geniusnew-worker.socket'')"
  by (simp_all add: sample_service_def sample_socket_def sample_unit_file_def lits_def)

lemma sample_service_source:
  assumes "set [''LoadState'', ''FragmentPath'', ''DropInPaths'', ''NeedDaemonReload''] \<subseteq> set props" "sample_properties r unit = sample_service r"
  shows "check_unit_source (sample_host_view r) sample_profile (sample_fields r unit props) (lit ''geniusnew-worker@.service'') = Inr ()"
proof -
  have "is_absolute (lit ''/etc/systemd/system/geniusnew-worker@.service'')" by (simp add: is_absolute_def lit_def)
  then show ?thesis using assms sample_service_content
    by (simp add: check_unit_source_def sample_property sample_property_of sample_file_of sample_paths sample_roots)
qed

lemma sample_unit_files:
  "check_unit_file (sample_host_view r) sample_profile (socket_unit sample_profile) = Inr ()"
  "check_unit_file (sample_host_view r) sample_profile (wp_unit_prefix sample_profile @ lit ''.service'') = Inr ()"
proof -
  have "is_absolute (lit ''/etc/systemd/system/geniusnew-worker.socket'')" by (simp add: is_absolute_def lit_def)
  then show "check_unit_file (sample_host_view r) sample_profile (socket_unit sample_profile) = Inr ()" using sample_socket_content
    by (simp add: check_unit_file_def sample_names sample_socket_props check_unit_source_def sample_property sample_property_of sample_unit_kind sample_file_of
        sample_paths sample_roots)
  show "check_unit_file (sample_host_view r) sample_profile (wp_unit_prefix sample_profile @ lit ''.service'') = Inr ()"
    unfolding check_unit_file_def sample_names(2,4) by (simp add: sample_service_props sample_service_source sample_unit_kind)
qed


lemma sample_ground_text:
  assumes "map_of sample_contents p = Some s" "is_ascii s" "13 \<notin> set s"
  shows "read_ascii (sample_ground r) p broken = Inr s"
  using assms by (simp add: read_ascii_def sample_ground_def no_return)

lemma sample_view_text:
  assumes "map_of sample_contents p = Some s" "is_ascii s" "13 \<notin> set s" "hd p = lit ''proc''"
  shows "read_ascii (sample_host_view r) p broken = Inr s"
  using sample_ground_text[OF assms(1-3)] assms(4) by (auto simp: read_ascii_def sample_host_view_def sample_unit_text_def)

lemma sample_host_snapshot:
  "\<exists>b. host_snapshot (sample_ground r) sample_profile (lit ''self'') None = Inr b \<and> length b \<le> 4097
     \<and> (\<forall>fd \<in> {None, Some 5}. host_snapshot (sample_host_view r) sample_profile (lit ''self'') fd = Inr b)"
proof -
  let ?boot = "lit ''00000000-1111-2222-3333-444444444444'' @ [10]"
  have b: "map_of sample_contents (map lit [''proc'', ''sys'', ''kernel'', ''random'', ''boot_id'']) = Some ?boot" by (simp add: sample_contents_def)
  have t: "is_ascii ?boot" "13 \<notin> set ?boot" "strip_text ?boot = lit ''00000000-1111-2222-3333-444444444444''"
    "is_boot_id (lit ''00000000-1111-2222-3333-444444444444'')"
    by (simp_all add: is_ascii_def lit_def strip_text_def is_space_def is_boot_id_def is_lower_hex_def is_digit_def)
  have n: "namespace_ids (sample_ground r) pid = Inr [(lit ''mnt'', pair_value (4, 3)), (lit ''pid'', pair_value (4, 3)), (lit ''user'', pair_value (4, 4)), (lit ''cgroup'', pair_value (4, 6))]"
    "namespace_ids (sample_host_view r) pid = Inr [(lit ''mnt'', pair_value (4, 3)), (lit ''pid'', pair_value (4, 3)), (lit ''user'', pair_value (4, 4)), (lit ''cgroup'', pair_value (4, 6))]" for pid
    by (simp_all add: namespace_ids_def sample_host_view_def sample_ground_def HOST_NAMESPACES_def)
  have paths: "path_parts (lit ''/'') = []" "path_parts (lit ''/proc'') = [lit ''proc'']" "path_parts (lit ''/sys/fs/cgroup'') = map lit [''sys'', ''fs'', ''cgroup'']"
    by (simp_all add: path_parts_def lit_def)
  have st: "hv_stat (sample_host_view r) = sample_lstat r" "hv_stat (sample_ground r) = sample_lstat r" "hv_fstat (sample_host_view r) 5 = Found (node 33200 0 1003 6)"
    by (simp_all add: sample_host_view_def sample_ground_def)
  have vt: "read_ascii (sample_host_view r) (map lit [''proc'', ''sys'', ''kernel'', ''random'', ''boot_id'']) broken = Inr ?boot" for broken
    by (rule sample_view_text[OF b t(1,2)]) simp
  let ?v = "PDict [(lit ''version'', PInt 1), (lit ''boot_id'', PStr (lit ''00000000-1111-2222-3333-444444444444'')),
      (lit ''namespaces'', PDict [(lit ''mnt'', pair_value (4, 3)), (lit ''pid'', pair_value (4, 3)), (lit ''user'', pair_value (4, 4)), (lit ''cgroup'', pair_value (4, 6))]),
      (lit ''paths'', PDict [(lit ''root'', pair_value (1, 2)), (lit ''proc'', pair_value (1, 19)), (lit ''cgroup'', pair_value (1, 20)), (lit ''runtime'', pair_value (1, 8)), (lit ''lease'', pair_value (1, 6))])]"
  have "\<exists>raw. canonical ?v = Inr raw \<and> length raw \<le> 4097"
    by (simp add: canonical_def pair_value_def member_text_def int_text_def nat_digits.simps json_string_def esc_char_def lit_def max_str_digits_def)
  moreover have "host_snapshot (sample_ground r) sample_profile (lit ''self'') None = canonical ?v"
    unfolding host_snapshot_def n sample_ground_text[OF b t(1,2)]
    by (simp add: t host_paths_def st sample_paths paths sample_lstat_def sample_files_def node_def dev_ino_def)
  moreover have "host_snapshot (sample_host_view r) sample_profile (lit ''self'') fd = canonical ?v" if "fd \<in> {None, Some 5}" for fd
    unfolding host_snapshot_def n vt
    using that by (auto simp: t host_paths_def st sample_paths paths sample_lstat_def sample_files_def node_def dev_ino_def)
  ultimately show ?thesis by auto
qed


lemma sample_maps: "check_id_maps (sample_host_view r) [''uid_map'', ''gid_map''] = Inr ()"
proof -
  let ?s = "lit ''0 0 4294967295'' @ [10]"
  have m: "map_of sample_contents (map lit [''proc'', ''self'', name]) = Some ?s" if "name \<in> {''uid_map'', ''gid_map''}" for name
    using that by (auto simp: sample_contents_def)
  have a: "is_ascii ?s" "13 \<notin> set ?s" "split_words ?s [] = map lit [''0'', ''0'', ''4294967295'']" by (simp_all add: is_ascii_def lit_def is_space_def)
  have "read_ascii (sample_host_view r) (map lit [''proc'', ''self'', name]) broken = Inr ?s" if "name \<in> {''uid_map'', ''gid_map''}" for name broken
    by (rule sample_view_text[OF m[OF that] a(1,2)]) simp
  then show ?thesis using a(3) by simp
qed

lemma sample_mount:
  "rbind (read_ascii (sample_host_view r) (map lit [''proc'', ''self'', ''mountinfo'']) broken) check_proc_mount = Inr ()"
proof -
  let ?s = "lit ''22 28 0:20 / /proc rw,nosuid - proc proc rw'' @ [10]"
  have "map_of sample_contents (map lit [''proc'', ''self'', ''mountinfo'']) = Some ?s" by (simp add: sample_contents_def)
  moreover have "is_ascii ?s" "13 \<notin> set ?s" by (simp_all add: is_ascii_def lit_def)
  ultimately have "read_ascii (sample_host_view r) (map lit [''proc'', ''self'', ''mountinfo'']) broken = Inr ?s" by (rule sample_view_text) simp
  moreover have "check_proc_mount ?s = Inr ()"
    by (simp add: check_proc_mount_def lit_def is_line_break_def proc_mount_def Let_def starts_with_def is_space_def List.map_filter_def)
  ultimately show ?thesis by simp
qed

lemma sample_namespaces: "fd \<in> {None, Some 5} \<Longrightarrow> check_host_namespaces (sample_host_view r) sample_profile fd = Inr ()"
proof -
  assume fd: "fd \<in> {None, Some 5}"
  obtain b where b: "host_snapshot (sample_ground r) sample_profile (lit ''self'') None = Inr b" "length b \<le> 4097"
    "host_snapshot (sample_host_view r) sample_profile (lit ''self'') fd = Inr b" using sample_host_snapshot[of r] fd by blast
  have ref: "hv_reference (sample_host_view r) = Found (node 33056 0 1003 10, b)" using b(1) by (simp add: sample_host_view_def)
  show ?thesis
    unfolding check_host_namespaces_def sample_maps rbind_Inr sample_ids sample_nodes(3) ref os.case prod.case b(3)
    using b(2) sample_mount[of r] by simp
qed

lemma find_to_next: "10 \<notin> set l \<Longrightarrow> find_fields name cls k trailing False (l @ 10 # s) = find_fields name cls k trailing True s"
  by (induction l) auto

lemma newline_char: "of_char c = (10 :: nat) \<longleftrightarrow> c = CHR 0x0A"
proof -
  have "(10 :: nat) = of_char (CHR 0x0A)" by simp
  then show ?thesis using inj_of_char_nat by (simp only: inj_eq)
qed

lemma find_skip:
  assumes "CHR 0x0A \<notin> set x" "length n \<le> length x" "take (length n) x \<noteq> n"
  shows "find_fields (lit n) cls k trailing True (lit x @ 10 # s) = find_fields (lit n) cls k trailing True s"
proof -
  have "(10 :: nat) \<noteq> of_char c" if "c \<in> set x" for c using that assms(1) newline_char[of c] by metis
  then have l: "10 \<notin> set (lit x)" unfolding lit_def by fastforce
  have "\<not> starts_with (lit n) (lit x @ 10 # s)" using assms(2,3) lit_eq_iff[of "take (length n) x" n] by (simp add: starts_with_def lit_def take_map)
  then have m: "match_field (lit n) cls k trailing (lit x @ 10 # s) = None" by (simp add: match_field_def)
  show ?thesis
  proof (cases "lit x")
    case (Cons c cs)
    then show ?thesis using m l find_to_next[of cs] by auto
  qed (use m in \<open>simp add: lit_def\<close>)
qed

lemma find_hit:
  assumes "match_field (lit n) cls k trailing (lit x @ 10 # s) = Some (gs, 10 # s)" "x \<noteq> []"
  shows "find_fields (lit n) cls k trailing True (lit x @ 10 # s) = gs # find_fields (lit n) cls k trailing True s"
proof -
  obtain c cs where c: "lit x = c # cs" using assms(2) by (cases "lit x") auto
  then show ?thesis using assms(1) by simp
qed

lemma sample_identity: "check_core_identity (sample_host_view r) sample_profile = Inr ()"
proof -
  have "map_of sample_contents (map lit [''proc'', ''self'', ''status'']) = Some sample_status" by (simp add: sample_contents_def)
  moreover have "is_ascii sample_status" "13 \<notin> set sample_status" by (simp_all add: is_ascii_def lit_def sample_status_def)
  ultimately have r: "read_ascii (sample_host_view r) (map lit [''proc'', ''self'', ''status'']) ''Core privilege state cannot be read'' = Inr sample_status"
    by (rule sample_view_text) simp
  note scan = lit_def starts_with_def match_field_def match_end_def is_space_def is_digit_def Let_def
  have four: "match_groups cls 4 t = match_groups cls (Suc (Suc (Suc (Suc 0)))) t" for cls t by (simp add: eval_nat_numeral)
  have "match_field (lit ''Uid:'') is_digit 4 True (lit ''Uid: 1000 1000 1000 1000'' @ 10 # lit ''CapInh: 0000000000000000'' @ t) = Some ([lit ''1000'', lit ''1000'', lit ''1000'', lit ''1000''], 10 # lit ''CapInh: 0000000000000000'' @ t)"
    for t by (simp add: scan four)
  then have u: "uid_fields sample_status = [[lit ''1000'', lit ''1000'', lit ''1000'', lit ''1000'']]"
    by (simp add: uid_fields_def sample_status_def find_skip find_hit is_space_def)
  have o: "any_other_uid 1000 [lit ''1000'', lit ''1000'', lit ''1000'', lit ''1000''] = Inr False"
    by (simp add: int_of_digits_def max_str_digits_def lit_def)
  have h: "match_field (lit (f @ '':'')) is_hex 1 False (lit (f @ '': 0000000000000000'') @ 10 # s) = Some ([lit ''0000000000000000''], 10 # s)" for f s
    by (simp add: match_field_def match_end_def starts_with_def lit_def is_space_def is_hex_def is_lower_hex_def is_digit_def Let_def)
  have c: "find_fields (lit (f @ '':'')) is_hex 1 False True sample_status = [[lit ''0000000000000000'']]" if "f \<in> {''CapInh'', ''CapPrm'', ''CapEff'', ''CapBnd'', ''CapAmb''}" for f
    using that find_hit[OF h[of "''CapInh''"]] find_hit[OF h[of "''CapPrm''"]] find_hit[OF h[of "''CapEff''"]] find_hit[OF h[of "''CapBnd''"]] find_hit[OF h[of "''CapAmb''"]]
    by (elim insertE; simp add: sample_status_def find_skip)
  have "list_all (\<lambda>d. d = 48) (lit ''0000000000000000'')" by (simp add: lit_def)
  then have "\<not> list_ex (\<lambda>d. d \<noteq> 48) (lit ''0000000000000000'')" by (auto simp: list_ex_iff list_all_iff)
  then have caps: "check_caps sample_status [''CapInh'', ''CapPrm'', ''CapEff'', ''CapBnd'', ''CapAmb''] = Inr ()"
    using c[of "''CapInh''"] c[of "''CapPrm''"] c[of "''CapEff''"] c[of "''CapBnd''"] c[of "''CapAmb''"] by simp
  have "match_field (lit ''NoNewPrivs:'') is_digit 1 True (lit ''NoNewPrivs: 1'' @ [10]) = Some ([lit ''1''], [])" by (simp add: scan)
  then have n: "find_fields (lit ''NoNewPrivs:'') is_digit 1 True True sample_status = [[lit ''1'']]" by (simp add: sample_status_def find_skip) (simp add: lit_def)
  show ?thesis
    unfolding check_core_identity_def r rbind_Inr u list.case sample_ids o caps n
    by (simp add: sample_host_view_def sample_ground_def)
qed


lemma sample_preflight: "preflight (sample_host_view r) sample_profile = Inr ()"
proof -
  have i: "id_text 1003 = lit ''1003''" by (simp add: id_text_def nat_digits.simps lit_def)
  have "wp_socket_path sample_profile @ lit '' (Stream)'' = lit ''/run/geniusnew/worker.sock (Stream)''" by (simp add: sample_profile_def lit_def)
  then have "\<forall>(q, v) \<in> set [(''ActiveState'', lit ''active''), (''Accept'', lit ''yes''), (''MaxConnections'', lit ''1''), (''SocketUser'', lit ''root''),
      (''SocketGroup'', id_text 1003), (''SocketMode'', lit ''0660''), (''Listen'', wp_socket_path sample_profile @ lit '' (Stream)''), (''RemoveOnStop'', lit ''yes'')].
      map_of sample_socket (lit q) = Some v"
    by (simp add: i sample_socket_def sample_unit_file_def lits_def)
  moreover have "hv_installation (sample_host_view r) = Inr ()" by (simp add: sample_host_view_def sample_ground_def)
  ultimately show ?thesis
    by (simp add: preflight_def sample_identity sample_namespaces sample_ids sample_nodes sample_roots sample_unit_files[unfolded sample_names] sample_names
        sample_socket_props sample_property sample_unit_kind)
qed

lemma sample_acquire: "acquire (sample_host_view r) sample_profile fds = (Inr 5, 5 # fds)"
proof -
  have "hv_lstat (sample_host_view r) (path_parts (wp_lease_path sample_profile)) = Found (node 33200 0 1003 6)"
    unfolding sample_paths by (simp add: sample_host_view_def sample_ground_def sample_lstat_def sample_files_def)
  moreover have "hv_fstat (sample_host_view r) 5 = Found (node 33200 0 1003 6)" "hv_open_lease (sample_host_view r) = Found 5" "hv_flock (sample_host_view r) 5"
    by (simp_all add: sample_host_view_def sample_ground_def)
  ultimately show ?thesis by (simp add: acquire_def sample_ids sample_nodes acquire_checks_def sample_namespaces)
qed

lemma sample_lists: "hv_listdir (sample_host_view r) [lit ''proc''] = Found (map lit [''1'', ''self''])" "p \<noteq> [lit ''proc''] \<Longrightarrow> hv_listdir (sample_host_view r) p = Found []"
  by (simp_all add: sample_host_view_def sample_ground_def)

lemma sample_processes: "uid_processes (sample_host_view r) sample_profile = Inr []"
proof -
  let ?s = "lit ''Uid: 0 0 0 0'' @ [10]" and ?p = "[lit ''proc'', lit ''1'', lit ''status'']"
  have "map_of sample_contents ?p = Some ?s" by (simp add: sample_contents_def)
  moreover have "is_ascii ?s" "13 \<notin> set ?s" by (simp_all add: is_ascii_def lit_def)
  ultimately have t: "read_ascii (sample_host_view r) ?p broken = Inr ?s" for broken by (rule sample_view_text) simp
  have four: "match_groups cls 4 t = match_groups cls (Suc (Suc (Suc (Suc 0)))) t" for cls t by (simp add: eval_nat_numeral)
  have u: "uid_fields ?s = [[lit ''0'', lit ''0'', lit ''0'', lit ''0'']]"
    by (simp add: uid_fields_def four lit_def starts_with_def match_field_def match_end_def is_space_def is_digit_def Let_def)
  have d: "list_all is_digit (lit ''1'')" "\<not> list_all is_digit (lit ''self'')" "any_uid 1001 [lit ''0'', lit ''0'', lit ''0'', lit ''0''] = Inr False"
    by (simp_all add: lit_def is_digit_def int_of_digits_def max_str_digits_def)
  have "hv_read (sample_host_view r) ?p \<noteq> NotFound" using t by (auto simp: read_ascii_eq_Inr)
  then show ?thesis using t u d by (simp add: uid_processes_def sample_lists sample_ids Let_def)
qed

lemma sample_idle: "assert_idle (sample_host_view r) sample_profile = Inr ()"
proof -
  have "systemctl (sample_host_view r) (map lit [''list-units'', ''--all'', ''--plain'', ''--no-legend''] @ [wp_unit_prefix sample_profile @ lit ''*.service'']) = Inr []"
    by (simp add: systemctl_def sample_host_view_def sample_ground_def sample_systemctl_def ascii_decode_def)
  moreover have "hv_lstat (sample_host_view r) (map lit [''run'', ''geniusnew-worker'', ''jobs'']) = Found (node 16877 0 0 8)"
    by (simp add: sample_host_view_def sample_ground_def sample_lstat_def sample_files_def)
  ultimately show ?thesis unfolding assert_idle_def sample_paths
    by (simp add: sample_lists CGROUP_ROOT_def sample_processes) (simp add: node_def S_ISDIR_def S_IFMT_def others_write_def)
qed


abbreviation sample_unit :: pystr where
  "sample_unit \<equiv> lit ''geniusnew-worker@0.service''"

definition sample_invocation :: invocation where
  "sample_invocation =
     \<lparr>iv_unit = sample_unit, iv_invocation_id = lit ''aaaaaaaaaaaaaaaaaaaaaaaaaaaaaaaa'',
      iv_cgroup = 47 # join_sep 47 (map lit [''sys'', ''fs'', ''cgroup'', ''system.slice'', ''geniusnew-worker@0.service'']),
      iv_runtime_dir = 47 # join_sep 47 (map lit [''run'', ''geniusnew-worker'', ''jobs'', ''0'']), iv_pid = 7\<rparr>"

lemma sample_match: "match_unit sample_profile (lit ''/system.slice/geniusnew-worker@0.service'') = Some sample_unit" "instance_of sample_profile sample_unit = lit ''0''"
proof -
  show i: "instance_of sample_profile sample_unit = lit ''0''" by (simp add: instance_of_def sample_profile_def lit_def)
  have d: "drop 14 (lit ''/system.slice/geniusnew-worker@0.service'') = sample_unit" by (simp add: lit_def)
  have "starts_with (lit ''/system.slice/'') (lit ''/system.slice/geniusnew-worker@0.service'')" "is_worker_unit sample_profile sample_unit"
    "length (wp_unit_prefix sample_profile) + 8 < length sample_unit" "list_all is_instance_char (lit ''0'')"
    by (simp_all add: starts_with_def is_worker_unit_def ends_with_def sample_profile_def lit_def is_instance_char_def is_digit_def)
  then show "match_unit sample_profile (lit ''/system.slice/geniusnew-worker@0.service'') = Some sample_unit"
    by (simp add: match_unit_def Let_def d i)
qed

lemma sample_exec: "check_exec (sample_host_view r) sample_profile (lit ''{ path=/usr/bin/python3 ; argv[]='' @ join_sep 32 sample_command @ lit '' ; ignore_errors=no }'') = Inr ()"
proof -
  let ?args = "lit ''/usr/bin/python3 -I -S /opt/worker_bootstrap.py --core-uid 1000 --worker-uid 1001 --worker-gid 1002''"
  have j: "join_sep 32 sample_command = ?args" by (simp add: sample_command_def lit_def)
  have v: "lit ''{ path=/usr/bin/python3 ; argv[]='' @ ?args @ lit '' ; ignore_errors=no }''
    = lit ''{ '' @ (lit ''path=/usr/bin/python3'' @ lit '' ; '' @ (lit ''argv[]='' @ ?args) @ lit '' ; '' @ lit ''ignore_errors=no'') @ lit '' }''" by (simp add: lit_def)
  have "list_all plain_arg sample_command" by (simp add: sample_command_def plain_arg_def lit_def)
  then have sh: "shlex_split ?args = Some sample_command" unfolding j[symmetric] by (intro shlex_join) (auto simp: list_all_iff plain_arg_word)
  have sp: "split_on (lit '' ; '') [] (lit ''path=/usr/bin/python3'' @ lit '' ; '' @ (lit ''argv[]='' @ ?args) @ lit '' ; '' @ lit ''ignore_errors=no'')
     = [lit ''path=/usr/bin/python3'', lit ''argv[]='' @ ?args, lit ''ignore_errors=no'']" by (simp add: lit_def starts_with_def)
  have p: "parse_exec [] [lit ''path=/usr/bin/python3'', lit ''argv[]='' @ ?args, lit ''ignore_errors=no'']
     = Inr [(lit ''path'', lit ''/usr/bin/python3''), (lit ''argv[]'', ?args), (lit ''ignore_errors'', lit ''no'')]"
    by (simp add: lit_def before_equals_def after_equals_def)
  have b: "starts_with (lit ''{ '') (lit ''{ '' @ x @ lit '' }'') = True" "ends_with (lit '' }'') (lit ''{ '' @ x @ lit '' }'') = True" "inner (lit ''{ '' @ x @ lit '' }'') = x" for x
    using ends_with_append[of "lit '' }''" "lit ''{ '' @ x"] by (simp_all add: starts_with_def inner_def lit_def)
  have "is_absolute (lit ''/usr/bin/python3'')" by (simp add: is_absolute_def lit_def)
  then show ?thesis unfolding j v check_exec_def b sp p
    by (simp add: property_is_def sh sample_expected_command sample_programs sample_roots)
qed


lemma sample_settings: "check_instance_settings (sample_host_view True) sample_profile (sample_fields True sample_unit BIND_PROPERTIES) (lit ''0'') = Inr ()"
proof -
  have d: "distinct (map fst (sample_service True))" using sample_service_tidy by (simp add: tidy_def)
  have keys: "fst ` set (expected_settings sample_profile (lit ''0'')) \<subseteq> lit ` set BIND_PROPERTIES"
    by (simp add: expected_settings_def lits_def BIND_PROPERTIES_def BIND_SETTINGS_def)
  have "map_of (sample_fields True sample_unit BIND_PROPERTIES) k = Some v" if kv: "(k, v) \<in> set (expected_settings sample_profile (lit ''0''))" for k v
  proof -
    obtain q where q: "q \<in> set BIND_PROPERTIES" "k = lit q" using keys kv by force
    have "map_of (sample_service True) k = Some v" using d kv by (intro map_of_is_SomeI) (auto simp: sample_service_def)
    then show ?thesis using sample_property[OF q(1), of True sample_unit v] by (simp add: q(2) property_is_def sample_unit_kind)
  qed
  then have "\<not> list_ex (\<lambda>(k, v). map_of (sample_fields True sample_unit BIND_PROPERTIES) k \<noteq> Some v) (expected_settings sample_profile (lit ''0''))"
    by (auto simp: list_ex_iff)
  moreover have "map_of (sample_service True) (lit ''ExecStart'') = Some (lit ''{ path=/usr/bin/python3 ; argv[]='' @ join_sep 32 sample_command @ lit '' ; ignore_errors=no }'')"
    using d by (intro map_of_is_SomeI) (simp_all add: sample_service_def)
  moreover have "''ExecStart'' \<in> set BIND_PROPERTIES" by (simp add: BIND_PROPERTIES_def BIND_SETTINGS_def)
  ultimately show ?thesis by (simp add: check_instance_settings_def sample_property_of sample_unit_kind sample_exec)
qed

lemma sample_state_of:
  "map_of (sample_service True) (lit ''ActiveState'') = Some (lit ''active'')" "map_of (sample_service True) (lit ''MainPID'') = Some (lit ''7'')"
  "map_of (sample_service True) (lit ''InvocationID'') = Some (lit ''aaaaaaaaaaaaaaaaaaaaaaaaaaaaaaaa'')"
  "map_of (sample_service True) (lit ''ControlGroup'') = Some (lit ''/system.slice/geniusnew-worker@0.service'')"
  "map_of (sample_service False) (lit ''ActiveState'') = Some (lit ''inactive'')" "map_of (sample_service False) (lit ''MainPID'') = Some (lit ''0'')"
  "map_of (sample_service False) (lit ''InvocationID'') = Some []" "map_of (sample_service False) (lit ''ControlGroup'') = Some []"
  by (simp_all add: sample_service_def sample_unit_file_def lits_def)

lemma sample_bind: "bind_worker (sample_host_view True) sample_view sample_view sample_profile 7 fd = Inr sample_invocation"
proof -
  let ?h = "sample_host_view True" and ?s = "lit ''0::/system.slice/geniusnew-worker@0.service'' @ [10]" and ?grp = "lit ''/system.slice/geniusnew-worker@0.service''"
  have i: "id_text 7 = lit ''7''" by (simp add: id_text_def nat_digits.simps lit_def)
  have "map_of sample_contents [lit ''proc'', id_text 7, lit ''cgroup''] = Some ?s" by (simp add: sample_contents_def i)
  moreover have "is_ascii ?s" "13 \<notin> set ?s" by (simp_all add: is_ascii_def lit_def)
  ultimately have t: "read_ascii ?h [lit ''proc'', id_text 7, lit ''cgroup''] broken = Inr ?s" for broken by (rule sample_view_text) simp
  have l: "splitlines [] ?s = [lit ''0::/system.slice/geniusnew-worker@0.service'']" "starts_with (lit ''0::'') (lit ''0::/system.slice/geniusnew-worker@0.service'')"
    "drop 3 (lit ''0::/system.slice/geniusnew-worker@0.service'') = ?grp" by (simp_all add: lit_def is_line_break_def starts_with_def)
  have names: "set [''ActiveState'', ''InvocationID'', ''ControlGroup'', ''MainPID''] \<subseteq> set BIND_PROPERTIES"
    "set [''LoadState'', ''FragmentPath'', ''DropInPaths'', ''NeedDaemonReload''] \<subseteq> set BIND_PROPERTIES" by (simp_all add: BIND_PROPERTIES_def)
  have hex: "hex_string 32 (lit ''aaaaaaaaaaaaaaaaaaaaaaaaaaaaaaaa'')" by (simp add: hex_string_def lit_def is_lower_hex_def)
  have parts: "path_parts (lit ''0'') = [lit ''0'']" "path_parts ?grp = map lit [''system.slice'', ''geniusnew-worker@0.service'']" by (simp_all add: path_parts_def lit_def)
  have dir: "hv_lstat ?h (map lit [''run'', ''geniusnew-worker'', ''jobs'', ''0'']) = Found (node 16832 1001 1002 21)"
    by (simp add: sample_host_view_def sample_ground_def sample_lstat_def sample_files_def)
  have cg: "cgroup_path ?h ?grp = Inr (map lit [''sys'', ''fs'', ''cgroup'', ''system.slice'', ''geniusnew-worker@0.service''])"
  proof -
    have "starts_with (lit ''/system.slice/'') ?grp" "lit ''..'' \<notin> set (split_sep 47 ?grp)" "\<not> ends_with [47] ?grp"
      by (simp_all add: starts_with_def ends_with_def lit_def)
    then show ?thesis by (simp add: cgroup_path_def parts CGROUP_ROOT_def sample_host_view_def sample_ground_def)
  qed
  have rd: "runtime_dir sample_profile (lit ''0'') = map lit [''run'', ''geniusnew-worker'', ''jobs'', ''0'']" by (simp add: runtime_dir_def sample_paths parts)
  have "bind_instance ?h sample_view sample_profile 7 fd ?grp sample_unit (sample_fields True sample_unit BIND_PROPERTIES) = Inr sample_invocation"
    unfolding bind_instance_def sample_match sample_names rd dir
    using names hex cg sample_service_source[OF names(2) sample_unit_kind(3)[of True]] sample_settings
    by (simp add: sample_property sample_property_of sample_unit_kind sample_state_of i sample_roots sample_ids sample_polls sample_invocation_def)
      (simp add: node_def S_ISDIR_def S_IFMT_def S_IMODE_def)
  then show ?thesis using l sample_match(1) by (simp add: bind_worker_def sample_polls t sample_bind_props)
qed


text \<open>After the end: the process is gone, its unit stopped, its group and directory removed.\<close>

definition sample_gone_view :: kernel_view where
  "sample_gone_view = \<lparr>kv_fdinfo = (\<lambda>_. Some (lit ''Pid:-1'')), kv_poll = (\<lambda>_. Some [POLLIN])\<rparr>"

lemma sample_end: "await_end sample_profile sample_invocation fd [(sample_host_view False, sample_gone_view)] = Inr ()"
proof -
  let ?h = "sample_host_view False"
  have e: "pidfd_exited sample_gone_view fd = Inr True"
    by (simp add: pidfd_exited_def sample_gone_view_def POLLIN_def POLLERR_def POLLHUP_def POLLNVAL_def)
  have good: "good_parts (map lit [''sys'', ''fs'', ''cgroup'', ''system.slice'', ''geniusnew-worker@0.service''])" "good_parts (map lit [''run'', ''geniusnew-worker'', ''jobs'', ''0''])"
    by (simp_all add: good_parts_def lit_def)
  have p: "path_parts (iv_cgroup sample_invocation) = map lit [''sys'', ''fs'', ''cgroup'', ''system.slice'', ''geniusnew-worker@0.service'']"
    "path_parts (iv_runtime_dir sample_invocation) = map lit [''run'', ''geniusnew-worker'', ''jobs'', ''0'']"
    using path_parts_join[OF good(1)] path_parts_join[OF good(2)] by (simp_all add: sample_invocation_def)
  have a: "hv_lstat ?h (map lit [''sys'', ''fs'', ''cgroup'', ''system.slice'', ''geniusnew-worker@0.service'']) = NotFound"
    "hv_lstat ?h (map lit [''run'', ''geniusnew-worker'', ''jobs'', ''0'']) = NotFound"
    by (simp_all add: sample_host_view_def sample_ground_def sample_lstat_def sample_files_def)
  have s: "stopped (sample_fields False sample_unit [''ActiveState'', ''InvocationID'', ''ControlGroup'', ''MainPID''])"
    by (simp add: stopped_def sample_property sample_unit_kind sample_state_of)
  have "require_empty_cgroup ?h (map lit [''sys'', ''fs'', ''cgroup'', ''system.slice'', ''geniusnew-worker@0.service'']) = Inr ()"
    using a(1) by (simp add: require_empty_cgroup_def sample_lists)
  moreover have "runtime_absent ?h (map lit [''run'', ''geniusnew-worker'', ''jobs'', ''0'']) = Inr True" using a(2) by (simp add: runtime_absent_def)
  ultimately have "ended ?h sample_gone_view sample_profile sample_invocation fd = Inr True"
    using s e unfolding ended_def p by (simp add: sample_invocation_def sample_service_props sample_property_of sample_unit_kind sample_state_of sample_processes)
  then show ?thesis by simp
qed

definition sample_host_run :: host_run where
  "sample_host_run =
     \<lparr>hr_preflight = sample_host_view False, hr_acquire = sample_host_view False, hr_idle = sample_host_view False, hr_connect = Inr (),
      hr_bind = (sample_host_view True, sample_view, sample_view), hr_looks = [(sample_host_view False, sample_gone_view)]\<rparr>"

lemma sample_host_healthy: "healthy_host (host_lifecycle sample_profile sample_host_run) 5 7 sample_view"
  by (simp add: healthy_host_def host_lifecycle_def sample_host_run_def sample_preflight sample_acquire sample_idle sample_bind sample_end sample_polls del: await_end.simps)

theorem bind_sound_witness:
  "\<exists>ivc properties. bind_worker (sample_host_view True) sample_view sample_view sample_profile 7 9 = Inr ivc
     \<and> hardened_unit (sample_host_view True) sample_profile ivc properties"
  using bind_sound[OF sample_bind[of 9]] sample_bind[of 9] by blast

theorem outcome_needs_evidence_witness:
  "\<exists>s'. run_service_worker sample_platform (\<lambda>_. False) sample_value (host_lifecycle sample_profile sample_host_run) sample_view True sample_nonce sample_payload
       sample_connection sample_runner = (Returned (PDict [(lit ''text'', PStr sample_text)]), s')
     \<and> idle_host (sample_host_view False) sample_profile \<and> sr_pending s' = [] \<and> mset (sr_fds s') = {#0, 1, 2#}"
proof -
  let ?lf = "host_lifecycle sample_profile sample_host_run"
  have s: "sr_pending sample_runner = []" "sr_profile sample_runner = sample_profile" "mset (sr_fds sample_runner) = {#0, 1, 2#}"
    by (simp_all add: sample_runner_def)
  have p: "list_all (\<lambda>i. 0 < i) [wp_core_uid sample_profile, wp_worker_uid sample_profile, wp_worker_gid sample_profile]" by (simp add: sample_ids)
  have steady: "list_all steady_send [Sends 1]" by simp
  have x: "service_expected sample_platform sample_service_env (PDict sample_payload) = Returned (PDict [(lit ''text'', PStr sample_text)])"
    by (simp add: service_expected_def sample_service_env_def sample_summary)
  obtain s' where run: "run_service_worker sample_platform (\<lambda>_. False) sample_value ?lf sample_view True sample_nonce sample_payload sample_connection sample_runner
      = (Returned (PDict [(lit ''text'', PStr sample_text)]), s')"
    using service_completes[OF s(1,2) p sample_host_healthy sample_service_ready sample_nonce_hex sample_facts sample_fits refl steady sample_delivered sample_clean] x
    unfolding sample_payload_def by auto
  have ok: "preflight (hr_preflight sample_host_run) sample_profile = Inr ()" "acquire (hr_acquire sample_host_run) sample_profile [] = (Inr 5, [5])"
    by (simp_all add: sample_host_run_def sample_preflight sample_acquire)
  have "io_receiver (sample_connection r) = r" for r by simp
  from outcome_needs_evidence[OF run this s(1) ok] show ?thesis using run s(3) by (auto simp: sample_host_run_def)
qed

end
