(* ===== verification/Spec2Isabelle.thy ===== *)
theory Spec2Isabelle
  imports Contracts Results Approvals Gateway AuditEvents AuditChain Workers Orchestrator Verifier Keys Recorder Pending HttpEntry Wiring Service ApprovalFlow AnchorService HostRun
begin

text \<open>
  The verification development of the handoff service in \<open>src/geniusnew\<close>.

  \<^bold>\<open>The program.\<close> A caller sends a text to an HTTP entrance with an API key. The entrance resolves the key
  to a subject and submits a job. The orchestrator signs a handoff: one canonical JSON wire that says who
  may have what done, by whom, until when. The gateway checks the wire, and for an approval-bound subject
  spends a one-time approval, and mints a permit that one worker run consumes. The worker signs a result
  bound to the handoff, and an independent verifier accepts at most one result per handoff. Every step is an
  event on a hash-linked audit chain whose signed head is anchored outside the writer.

  \<^bold>\<open>The theories\<close>, each with the source it models:
  \<^item> \<open>Prelude\<close>: results (\<open>exc + 'a\<close>), exceptions as values, actions on a state and the rules that compose what
    they keep; \<open>PyText\<close> and \<open>PyJson\<close>: code points, UTF-8, hexadecimal text and the parts of \<open>json\<close> the code
    uses, printer and parser; \<open>Platform\<close>: SHA-256, HMAC and Ed25519 as parameters with named hypotheses
    \<open>hash_ok\<close> and \<open>ed25519_ok\<close>.
  \<^item> \<open>Contracts\<close> (\<open>contracts.py\<close>), \<open>Results\<close> (\<open>results.py\<close>), \<open>Keys\<close> (\<open>keys.py\<close>): wires, signatures, grants and
    policies, issuing and validating, producing and accepting results, derived keys.
  \<^item> \<open>SingleUse\<close>: the interface of everything that can be used once, with the count of uses over a history;
    interpreted on approvals, permits, job ids and accepted handoffs.
  \<^item> \<open>Approvals\<close> (\<open>approvals.py\<close>), \<open>Gateway\<close> (\<open>gateway.py\<close>), \<open>Orchestrator\<close> (\<open>orchestrator.py\<close>), \<open>Workers\<close>
    (\<open>workers.py\<close>), \<open>Verifier\<close> (\<open>verifier.py\<close>): the components on a job's path. The approval store and the job
    ledger are reached through locales, interpreted on the process-local ones.
  \<^item> \<open>AuditEvents\<close> (\<open>audit.py\<close>), \<open>AuditChain\<close> (\<open>audit_chain.py\<close>): events, records, heads, verification, the
    anchor with full and delta commits under interleaving.
  \<^item> \<open>Recorder\<close>, \<open>Pending\<close>, \<open>Wiring\<close> (\<open>wiring.py\<close>): the recorder over any chain and anchor (locale \<open>recording\<close>,
    refinement of an abstract anchored log), the waiting jobs, the service's operations and its assembly.
  \<^item> \<open>HttpEntry\<close> (\<open>http_entry.py\<close>): registry, limits, token buckets and the request handler.
  \<^item> \<open>Service\<close>: the composed process-local service, its evidence and that a job runs through it; \<open>ApprovalFlow\<close>:
    the same for a job that waits for a second person.
  \<^item> \<open>AnchorWire\<close>, \<open>AnchorHost\<close>, \<open>AnchorReplies\<close>, \<open>AnchorClient\<close>, \<open>AnchorService\<close> (\<open>anchor_process.py\<close>): the anchor in
    a process of its own. Frames and messages; the process that owns the anchor, with its state file, its lock
    and its two request loops (locale \<open>request_loop\<close>); that it answers everything it can print; the writers on the other
    side of a pipe or a socket; and what the whole promises.
  \<^item> \<open>ProcessFilter\<close>, \<open>Sandbox\<close>, \<open>Isolation\<close> (\<open>isolation.py\<close>, \<open>isolation_child.py\<close>): a worker in a fresh process. The
    seccomp program and the machine that runs it; resource limits, the audit hook and the Landlock rules; the
    request of the parent, the child, and what the parent reads back.
  \<^item> \<open>WorkerFrames\<close>, \<open>WorkerExchange\<close>, \<open>WorkerService\<close> (\<open>worker_service.py\<close>): a worker as a service of another user. The
    profile, the kernel's identity of every fragment and the frames of both ends; the messages, one exchange, the
    runner with its lease, and the service process; what Core and service promise each other.
  \<^item> \<open>HostFiles\<close>, \<open>WorkerHost\<close>, \<open>HostText\<close>, \<open>HostEvidence\<close>, \<open>HostRun\<close> (\<open>WorkerLifecycle\<close> of \<open>worker_service.py\<close>): paths only root
    can change, the systemd units, control groups and processes of the host, the lease, and with them the operations
    the runner calls; that the fixed unit files are accepted; what a bound invocation and a confirmed end prove;
    the runner over these checks, with an installed host on which a job passes all of them.

  A class is a record, its mutable part an explicit state; a method is a definition that returns an
  \<open>action\<close>, a function from the state to a result and the state after it, so that an exception keeps what
  was already changed. An optional \<open>transaction\<close> argument is a truth value. A lock makes the code under it
  one step; where that matters (the anchor, the waiting jobs) the steps of several callers interleave in an
  inductive relation. The service's clock and token source are functions of the number of the reading.

  \<^bold>\<open>What the lemmas show.\<close> Soundness of each check (\<open>validate_sound\<close>, \<open>accept_sound\<close>, \<open>dispatch_sound\<close>,
  \<open>acceptance_sound\<close>, \<open>admit_checks_everything\<close>): what a success proves. Completeness (\<open>issue_validate_roundtrip\<close>,
  \<open>produce_accept_roundtrip\<close>, \<open>approved_job_admitted\<close>, \<open>job_end_to_end\<close>, \<open>submitted_job_completes\<close>,
  \<open>approved_job_completes\<close>): what was made
  by one component is taken by the next, up to the whole path. Single use over every history: tokens, permits, accepted
  handoffs, and job ids, of which none reaches a worker twice even when the run failed. Evidence: the
  chain is tamper-evident, the anchor only moves to extensions of the chain it
  holds, the recorder refines an append-only log, and a
  completed job has exactly its four events. The anchor process: a remote commit equals a local one, the state
  file reloads as the anchor in memory over every failure of disk and connections, any input is answered
  but one whose value \<open>json\<close> reads and cannot print, which ends the process, and a client believes only what was signed for its request. Isolation: the bytes of the filter answer every system
  call by its policy, the child is restricted before the worker's module runs, and what the parent hears of a job in
  a child is what the worker's run came to. The worker
  service: every byte believed came from one bound process, nothing but the greeting leaves before the binding, the
  lease is held until the end of this very run is confirmed, a job crosses to a healthy service and its output comes back, and an
  outcome is signed only with the evidence of the host (\<open>outcome_needs_evidence\<close>): an idle host before, the hardened
  unit while it runs, and no process of the worker's user after. The entrance: every
  request is answered, acts for the subject of its key and on the job its path names, and gives its slot back.
  Refusals change nothing. Findings are theorems too.

  \<^bold>\<open>Bounds and fuel.\<close> The JSON parser has fuel \<open>2 * length s + 2\<close>, and \<open>parse_value_fuel\<close> shows that more gives the
  same outcome. Integers are unbounded as in Python; the limits the code states are constants here. Sizes
  in hypotheses (\<open>handoff_chars \<le> 800\<close>, results of at most 800 characters) keep the wires below the 8 KiB
  limit of the code with room to spare.

  \<^bold>\<open>Not modelled.\<close> \<open>RecursionError\<close> is modelled where bytes from outside are decoded (\<open>anchor_process.py\<close>,
  \<open>isolation.py\<close>, \<open>worker_service.py\<close>, \<open>http_entry.py\<close>); elsewhere \<open>json.dumps\<close> prints every value, and the properties about
  outputs bound their nesting. \<open>database.py\<close> and \<open>audit_store.py\<close> are SQL: the durable service is the same definitions over
  store operations and a transaction that are arguments. Of \<open>worker_service.py\<close> the checks of the Python
  installation (the interpreter's own files, its loader and mappings) and of the service's start are outcomes the
  definitions take; the socket half of \<open>http_entry.py\<close> is the library's server loop. Of \<open>workers.py\<close> the digest worker's regular expressions and floating-point averages are left out. \<open>config.py\<close>, \<open>__main__.py\<close>,
  \<open>advisory.py\<close>, the portal helpers, \<open>tools\<close>, \<open>scripts\<close> and \<open>experiments\<close> are start-up, operator and side code.
\<close>

section \<open>Across the components\<close>

text \<open>The whole path of a job: what the orchestrator issued, the gateway admitted, a worker ran and
  signed, and the orchestrator handed back, the independent verifier accepts until the handoff expires,
  for jobs with and without approval; the acceptance names the job and the worker of the grant and burns
  exactly this handoff.\<close>

theorem job_end_to_end:
  assumes "orch_ready P key oc" "acceptor_matches P v oc" "hash_ok P" "ed25519_ok P"
    and "valid_policy policy" "grant_for policy subject = Inr g" "valid_grant g" "policy_text_ok policy g" "0 < p_handoff_ttl_seconds policy"
    and "json_ok request" "is_ascii j" "is_ascii (g_worker_agent_id g)"
    and "submit P oc request subject j policy now token w = (Inr d, w')"
    and "now \<le> later" "later < now + p_handoff_ttl_seconds policy" "later \<le> ORCH_MAX_OCCURRED_AT"
    and "sha256_hex P (ds_handoff_wire d) \<notin> set accepted" "length accepted < MAX_ACCEPTED"
  shows "\<exists>a. verifier_accept P (local_accept P) v (PBytes (ds_result_wire d)) (PBytes (ds_handoff_wire d)) subject j policy later
       (evidence (ds_approval_record_hash d)) False accepted = (Inr a, sha256_hex P (ds_handoff_wire d) # accepted)
     \<and> ac_job_id a = j \<and> ac_worker_agent_id a = g_worker_agent_id g"
  by (rule submitted_accepted[OF assms])

theorem job_end_to_end_witness:
  "\<exists>d w' a. submit sample_platform sample_orch sample_request (lit ''alice'') (lit ''job-1'') sample_policy 200 None sample_world = (Inr d, w')
     \<and> verifier_accept sample_platform (local_accept sample_platform) sample_acceptor (PBytes (ds_result_wire d)) (PBytes (ds_handoff_wire d))
         (lit ''alice'') (lit ''job-1'') sample_policy 250 (evidence (ds_approval_record_hash d)) False [] = (Inr a, [sha256_hex sample_platform (ds_handoff_wire d)])"
proof -
  obtain d w' where d: "submit sample_platform sample_orch sample_request (lit ''alice'') (lit ''job-1'') sample_policy 200 None sample_world = (Inr d, w')"
    using sample_submit by blast
  have "is_ascii (g_worker_agent_id sample_grant)" by (simp add: sample_grant_def)
  from job_end_to_end[OF sample_orch_ready sample_acceptor_matches sample_platform_ok sample_policy_valid sample_grant_for(1)
      sample_grants_valid(1) sample_text_ok(1) _ sample_text_ok(3) _ this d, of 250 "[]"] d
  show ?thesis by (auto simp: ORCH_MAX_OCCURRED_AT_def MAX_ACCEPTED_def)
qed

end
